(* ===== verification/Prelude.thy ===== *)
theory Prelude
  imports "HOL-Library.Word"
begin

unbundle bit_operations_syntax

text \<open>
  Shared vocabulary of the StartOS development: the machine integer types of
  \<^verbatim>\<open>kernel/include/types.hpp\<close>, the result type of kernel code that may call
  \<^verbatim>\<open>panic\<close>, byte-addressed physical memory with little-endian 64-bit accesses, and the
  word and page arithmetic the components share.
\<close>

section \<open>Machine types\<close>

type_synonym u8 = "8 word"
type_synonym u16 = "16 word"
type_synonym u32 = "32 word"
type_synonym u64 = "64 word"

section \<open>Results of kernel code\<close>

text \<open>
  A call of \<^verbatim>\<open>panic(msg)\<close> halts the machine: it is the value \<open>Inl (Panic msg)\<close>. An access
  outside an object (an array index out of range, a null dereference) is undefined in C++ and
  is the separate value \<open>Inl (BadAccess what)\<close>, so that no property can hold because of it.
  A loop that does not end is \<open>Inl (Stuck what)\<close>.
\<close>

datatype fault = Panic string | BadAccess string | Stuck string

type_synonym 'a result = "fault + 'a"

definition bindr :: "'a result \<Rightarrow> ('a \<Rightarrow> 'b result) \<Rightarrow> 'b result" where
  "bindr r f = (case r of Inl e \<Rightarrow> Inl e | Inr x \<Rightarrow> f x)"

lemma bindr_simps [simp]:
  "bindr (Inl e) f = Inl e"
  "bindr (Inr x) f = f x"
  by (simp_all add: bindr_def)

lemma bindr_eq_Inr_iff: "bindr r f = Inr y \<longleftrightarrow> (\<exists>x. r = Inr x \<and> f x = Inr y)"
  by (cases r) auto

lemma bindrE [elim]:
  assumes "bindr r f = Inr y"
  obtains x where "r = Inr x" and "f x = Inr y"
  using assms by (auto simp: bindr_eq_Inr_iff)

lemma bindr_cong [fundef_cong]:
  "r = r' \<Longrightarrow> (\<And>x. r' = Inr x \<Longrightarrow> f x = g x) \<Longrightarrow> bindr r f = bindr r' g"
  by (cases r') auto

section \<open>Collections of facts\<close>

named_theorems mem_simps \<open>reads of memory after writes\<close>
named_theorems page_simps \<open>page arithmetic\<close>
named_theorems frame \<open>what an operation leaves unchanged\<close>

section \<open>Word arithmetic\<close>

lemma unat_of_nat_small [simp]:
  "n < 2 ^ LENGTH('a) \<Longrightarrow> unat (of_nat n :: 'a::len word) = n"
  by (simp add: unat_of_nat take_bit_nat_eq_self)

lemma unat_sub_offset:
  fixes a b :: "'a::len word"
  shows "unat (a - b) = (if b \<le> a then unat a - unat b else 2 ^ LENGTH('a) + unat a - unat b)"
  by (simp add: unat_sub_if' word_le_nat_alt add.commute)

text \<open>A C \<^verbatim>\<open>int\<close> as a signed number, and its conversion to 64 bits.\<close>

lemma sint_u32: "sint (i :: u32) = (if unat i < 2147483648 then int (unat i) else int (unat i) - 4294967296)"
proof -
  define u where "u = uint i"
  have b: "u < 4294967296" "0 \<le> u" using uint_bounded [of i] by (auto simp: u_def)
  have n: "int (unat i) = u" by (simp add: u_def)
  have "sint i = (u + 2147483648) mod 4294967296 - 2147483648"
    using int_word_sint [of "uint i", where ?'a = 32] by (simp add: u_def)
  moreover have "(u + 2147483648) mod 4294967296 = u - 2147483648" if "2147483648 \<le> u"
  proof -
    have "(u + 2147483648) mod 4294967296 = (u + 2147483648 - 4294967296) mod 4294967296"
      by (simp only: minus_mod_self2)
    also have "\<dots> = u + 2147483648 - 4294967296"
      using b that by (intro mod_pos_pos_trivial) linarith+
    finally show ?thesis by linarith
  qed
  moreover have "(u + 2147483648) mod 4294967296 = u + 2147483648" if "u < 2147483648"
    using b that by (intro mod_pos_pos_trivial) auto
  moreover have "unat i < 2147483648 \<longleftrightarrow> u < 2147483648" using n by linarith
  ultimately show ?thesis
    using n by (cases "u < 2147483648") (simp_all del: of_nat_unat split: if_split)
qed

lemma unat_scast_u32:
  "unat (scast (i :: u32) :: u64) = (if unat i < 2147483648 then unat i else unat i + 18446744069414584320)"
proof -
  have u: "unat i < 4294967296" using unsigned_less [of i, where ?'a = nat] by simp
  have "uint (scast i :: u64) = sint i mod 18446744073709551616"
    using uint_word_of_int [of "sint i", where ?'a = 64] by simp
  then have e: "int (unat (scast i :: u64)) = sint i mod 18446744073709551616" by simp
  have neg: "(int (unat i) - 4294967296) mod 18446744073709551616 = int (unat i) - 4294967296 + 18446744073709551616"
      proof -
    have "(int (unat i) - 4294967296) mod 18446744073709551616
        = (int (unat i) - 4294967296 + 18446744073709551616) mod 18446744073709551616"
      by (simp only: mod_add_self2)
    also have "\<dots> = int (unat i) - 4294967296 + 18446744073709551616"
      using u by (intro mod_pos_pos_trivial) linarith+
    finally show ?thesis .
  qed
  have "int (unat (scast i :: u64)) = int (if unat i < 2147483648 then unat i else unat i + 18446744069414584320)"
    unfolding e sint_u32 using u neg mod_pos_pos_trivial [of "int (unat i)" 18446744073709551616] by simp
  then show ?thesis by (simp only: of_nat_eq_iff)
qed

section \<open>Physical memory\<close>

type_synonym pmem = "u64 \<Rightarrow> u8"

text \<open>The byte at offset \<open>i\<close> of a 64-bit value, and the 64-bit value of eight bytes.\<close>

definition byte_of :: "u64 \<Rightarrow> nat \<Rightarrow> u8" where
  "byte_of v i = ucast (drop_bit (8 * i) v)"

definition read64 :: "pmem \<Rightarrow> u64 \<Rightarrow> u64" where
  "read64 m a =
     (ucast (m a) OR push_bit 8 (ucast (m (a + 1))) OR push_bit 16 (ucast (m (a + 2)))
      OR push_bit 24 (ucast (m (a + 3))) OR push_bit 32 (ucast (m (a + 4)))
      OR push_bit 40 (ucast (m (a + 5))) OR push_bit 48 (ucast (m (a + 6)))
      OR push_bit 56 (ucast (m (a + 7))))"

definition write64 :: "pmem \<Rightarrow> u64 \<Rightarrow> u64 \<Rightarrow> pmem" where
  "write64 m a v = (\<lambda>x. if x - a < 8 then byte_of v (unat (x - a)) else m x)"

definition fill :: "pmem \<Rightarrow> u64 \<Rightarrow> u8 \<Rightarrow> u64 \<Rightarrow> pmem" where
  "fill m p c n = (\<lambda>x. if x - p < n then c else m x)"

definition copy_block :: "pmem \<Rightarrow> u64 \<Rightarrow> u64 \<Rightarrow> u64 \<Rightarrow> pmem" where
  "copy_block m dst src n = (\<lambda>x. if x - dst < n then m (src + (x - dst)) else m x)"

lemma bit_u8_bound: "bit (b :: u8) i \<Longrightarrow> i < 8"
  using bit_imp_le_length [of b i] by simp

lemma bit_read64_split:
  assumes "k < 8" and r: "r < 8"
  shows "bit (read64 m a) (8 * k + r) \<longleftrightarrow> bit (m (a + of_nat k)) r"
proof -
  have "k = 0 \<or> k = 1 \<or> k = 2 \<or> k = 3 \<or> k = 4 \<or> k = 5 \<or> k = 6 \<or> k = 7"
    using assms(1) by linarith
  then show ?thesis
    using r by (elim disjE; auto simp: read64_def bit_simps dest: bit_u8_bound)
qed

lemma bit_read64:
  "bit (read64 m a) n \<longleftrightarrow> n < 64 \<and> bit (m (a + of_nat (n div 8))) (n mod 8)"
proof (cases "n < 64")
  case True
  then show ?thesis using bit_read64_split [of "n div 8" "n mod 8" m a] by simp
next
  case False
  then have "\<not> bit (read64 m a) n"
    using bit_imp_le_length [of "read64 m a" n] by auto
  with False show ?thesis by simp
qed

lemma read64_write64_same [mem_simps]: "read64 (write64 m a v) a = v"
proof (rule bit_word_eqI)
  fix n assume "n < LENGTH(64)"
  then have n: "n < 64" by simp
  have u: "unat (of_nat (n div 8) :: u64) = n div 8"
    using n by (intro unat_of_nat_small) simp
  have lt: "(of_nat (n div 8) :: u64) < 8"
    using n by (simp add: word_less_nat_alt u)
  show "bit (read64 (write64 m a v) a) n = bit v n"
    using n lt by (simp add: bit_read64 write64_def byte_of_def u bit_simps)
qed

lemma read64_cong:
  assumes "\<And>i. i < 8 \<Longrightarrow> m (a + of_nat i) = m' (a + of_nat i)"
  shows "read64 m a = read64 m' a"
  by (rule bit_word_eqI) (use assms in \<open>simp add: bit_read64\<close>)

lemma read64_zero: "(\<And>i. i < 8 \<Longrightarrow> m (a + of_nat i) = 0) \<Longrightarrow> read64 m a = 0"
  by (rule bit_word_eqI) (simp add: bit_read64)

section \<open>Pages\<close>

text \<open>The page macros of \<^verbatim>\<open>kernel/include/riscv.hpp\<close>.\<close>

definition PGSIZE :: u64 where "PGSIZE = 4096"
definition PGROUNDUP :: "u64 \<Rightarrow> u64" where "PGROUNDUP sz = (sz + PGSIZE - 1) AND NOT (PGSIZE - 1)"
definition PGROUNDDOWN :: "u64 \<Rightarrow> u64" where "PGROUNDDOWN a = a AND NOT (PGSIZE - 1)"

definition page_aligned :: "u64 \<Rightarrow> bool" where
  "page_aligned a \<longleftrightarrow> a mod PGSIZE = 0"

lemma PGROUNDDOWN_push_drop: "PGROUNDDOWN a = push_bit 12 (drop_bit 12 a)"
proof -
  have "PGSIZE - 1 = mask 12" by (simp add: PGSIZE_def mask_eq_exp_minus_1)
  then show ?thesis
    unfolding PGROUNDDOWN_def by (intro bit_word_eqI) (auto simp: bit_simps)
qed

lemma unat_PGROUNDDOWN [page_simps]: "unat (PGROUNDDOWN a) = unat a div 4096 * 4096"
proof -
  have "unat (push_bit 12 (drop_bit 12 a)) = take_bit 64 (push_bit 12 (drop_bit 12 (unat a)))"
    by (simp add: unsigned_push_bit_eq unat_drop_bit_eq)
  also have "\<dots> = push_bit 12 (drop_bit 12 (unat a))"
  proof (rule take_bit_nat_eq_self)
    have "push_bit 12 (drop_bit 12 (unat a)) \<le> unat a"
      by (simp add: push_bit_eq_mult drop_bit_eq_div)
    also have "\<dots> < 2 ^ 64" using unsigned_less [of a] by simp
    finally show "push_bit 12 (drop_bit 12 (unat a)) < 2 ^ 64" .
  qed
  finally show ?thesis
    by (simp add: PGROUNDDOWN_push_drop push_bit_eq_mult drop_bit_eq_div)
qed

lemma page_aligned_unat: "page_aligned a \<longleftrightarrow> unat a mod 4096 = 0"
  unfolding page_aligned_def PGSIZE_def by (simp add: word_arith_nat_mod unat_eq_0 flip: unat_0_iff)

lemma page_alignedE:
  assumes "page_aligned p"
  obtains q where "unat p = 4096 * q"
proof (rule that)
  show "unat p = 4096 * (unat p div 4096)"
    using assms mult_div_mod_eq [of 4096 "unat p"] by (simp add: page_aligned_unat)
qed

lemma page_aligned_PGROUNDDOWN [simp]: "page_aligned (PGROUNDDOWN a)"
  by (simp add: page_aligned_unat page_simps)

lemma PGROUNDDOWN_aligned: "page_aligned p \<Longrightarrow> PGROUNDDOWN p = p"
  by (auto simp: word_unat_eq_iff page_aligned_unat page_simps)

lemma PGROUNDDOWN_le: "PGROUNDDOWN a \<le> a"
  by (simp add: word_le_nat_alt page_simps)

lemma page_aligned_add:
  assumes "page_aligned a" and "page_aligned b" shows "page_aligned (a + b)"
proof -
  obtain i j where "unat a = 4096 * i" "unat b = 4096 * j" using assms by (meson page_alignedE)
  then have "unat (a + b) = 4096 * (i + j) mod 18446744073709551616"
    by (simp add: unat_word_ariths)
  also have "\<dots> mod 4096 = 4096 * (i + j) mod 4096" by (rule mod_mod_cancel) simp
  finally show ?thesis by (simp add: page_aligned_unat)
qed

lemma page_aligned_diff:
  assumes "page_aligned a" and "page_aligned b" shows "page_aligned (a - b)"
proof -
  obtain i j where ij: "unat a = 4096 * i" "unat b = 4096 * j" using assms by (meson page_alignedE)
  show ?thesis
  proof (cases "b \<le> a")
    case True
    then have "unat (a - b) = 4096 * (i - j)"
      using ij by (simp add: unat_sub_if' word_le_nat_alt)
    then show ?thesis by (simp add: page_aligned_unat)
  next
    case False
    then have "unat (a - b) = 4096 * (i + 4503599627370496 - j)"
      using ij by (simp add: unat_sub_if' word_le_nat_alt)
    then show ?thesis by (simp add: page_aligned_unat)
  qed
qed

lemma page_offset_no_wrap:
  assumes "page_aligned p" and "k < PGSIZE"
  shows "unat (p + k) = unat p + unat k"
proof -
  obtain q where q: "unat p = 4096 * q"
    using assms(1) by (auto simp: page_aligned_unat elim: dvdE)
  have "unat k < 4096"
    using assms(2) by (simp add: PGSIZE_def word_less_nat_alt)
  with q have "unat p + unat k < 2 ^ 64"
    using unsigned_less [of p, where ?'a = nat] by simp
  then show ?thesis by (simp add: unat_word_ariths)
qed

lemma PGROUNDDOWN_offset [page_simps]:
  assumes "page_aligned p" and "k < PGSIZE"
  shows "PGROUNDDOWN (p + k) = p"
proof -
  have "unat k < 4096" using assms(2) by (simp add: PGSIZE_def word_less_nat_alt)
  moreover obtain q where "unat p = 4096 * q"
    using assms(1) by (auto simp: page_aligned_unat elim: dvdE)
  ultimately have "(unat p + unat k) div 4096 * 4096 = unat p" by simp
  then show ?thesis
    by (simp add: word_unat_eq_iff unat_PGROUNDDOWN page_offset_no_wrap [OF assms])
qed

lemma in_page_iff: "page_aligned p \<Longrightarrow> x - p < PGSIZE \<longleftrightarrow> PGROUNDDOWN x = p"
proof
  assume p: "page_aligned p" and "x - p < PGSIZE"
  then show "PGROUNDDOWN x = p" using PGROUNDDOWN_offset [OF p, of "x - p"] by simp
next
  assume p: "PGROUNDDOWN x = p"
  have le: "unat p \<le> unat x" and lt: "unat x - unat p < 4096"
    by (auto simp: page_simps simp flip: p)
  then show "x - p < PGSIZE"
    by (simp add: word_less_nat_alt unat_sub_offset word_le_nat_alt PGSIZE_def)
qed

section \<open>Which pages an update touches\<close>

text \<open>\<open>only_pages P m m'\<close>: the memory \<open>m'\<close> differs from \<open>m\<close> in the pages \<open>P\<close> at most.\<close>

definition only_pages :: "u64 set \<Rightarrow> pmem \<Rightarrow> pmem \<Rightarrow> bool" where
  "only_pages P m m' \<longleftrightarrow> (\<forall>x. PGROUNDDOWN x \<notin> P \<longrightarrow> m' x = m x)"

lemma only_pages_refl [simp, intro]: "only_pages P m m"
  by (simp add: only_pages_def)

lemma only_pages_trans:
  "only_pages P m m' \<Longrightarrow> only_pages Q m' m'' \<Longrightarrow> only_pages (P \<union> Q) m m''"
  by (simp add: only_pages_def)

lemma only_pages_mono: "only_pages P m m' \<Longrightarrow> P \<subseteq> Q \<Longrightarrow> only_pages Q m m'"
  by (auto simp: only_pages_def)

lemma only_pages_byte: "only_pages P m m' \<Longrightarrow> PGROUNDDOWN x \<notin> P \<Longrightarrow> m' x = m x"
  by (simp add: only_pages_def)

lemma only_pages_fill_page: "page_aligned p \<Longrightarrow> only_pages {p} m (fill m p c PGSIZE)"
  by (auto simp: only_pages_def fill_def in_page_iff)

text \<open>A 64-bit slot inside a page: eight bytes that do not cross the page's end.\<close>

definition slot_in_page :: "u64 \<Rightarrow> u64 \<Rightarrow> bool" where
  "slot_in_page p a \<longleftrightarrow> page_aligned p \<and> a - p \<le> PGSIZE - 8"

lemma slot_bytes:
  assumes "slot_in_page p a" and "k < 8"
  shows "PGROUNDDOWN (a + k) = p"
proof -
  define o1 where "o1 = a - p"
  have p: "page_aligned p" and o1: "unat o1 \<le> 4088"
    using assms(1) by (auto simp: slot_in_page_def o1_def PGSIZE_def word_le_nat_alt)
  have "unat k < 8" using assms(2) by (simp add: word_less_nat_alt)
  with o1 have "unat (o1 + k) < 4096" by (simp add: unat_word_ariths)
  then have "PGROUNDDOWN (p + (o1 + k)) = p"
    by (intro PGROUNDDOWN_offset p) (simp add: word_less_nat_alt PGSIZE_def)
  then show ?thesis by (simp add: o1_def add.assoc [symmetric])
qed

lemma slot_byte_nat: "slot_in_page p a \<Longrightarrow> i < 8 \<Longrightarrow> PGROUNDDOWN (a + of_nat i) = p"
  by (rule slot_bytes) (simp_all add: word_less_nat_alt)

lemma only_pages_write64: "slot_in_page p a \<Longrightarrow> only_pages {p} m (write64 m a v)"
  unfolding only_pages_def write64_def
  by (auto dest: slot_bytes [where k = "x - a" for x])

lemma read64_only_pages [mem_simps]:
  "only_pages P m m' \<Longrightarrow> slot_in_page p a \<Longrightarrow> p \<notin> P \<Longrightarrow> read64 m' a = read64 m a"
  by (rule read64_cong) (auto simp: slot_byte_nat intro: only_pages_byte)

lemma read64_fill_zero [mem_simps]:
  "slot_in_page p a \<Longrightarrow> read64 (fill m p 0 PGSIZE) a = 0"
  by (rule read64_zero) (auto simp: fill_def in_page_iff slot_byte_nat slot_in_page_def)

lemma read64_write64_diff [mem_simps]:
  fixes a b :: u64
  assumes "8 \<le> b - a" and "8 \<le> a - b"
  shows "read64 (write64 m a v) b = read64 m b"
proof (rule read64_cong)
  fix i :: nat assume i: "i < 8"
  define d where "d = unat (b - a)"
  have d: "8 \<le> d" using assms(1) by (simp add: word_le_nat_alt d_def)
  have d2: "d \<le> 2 ^ 64 - 8"
    using assms unsigned_less [of a, where ?'a = nat] unsigned_less [of b, where ?'a = nat]
    by (auto simp: d_def word_le_nat_alt unat_sub_offset split: if_splits)
  have "unat (b - a + of_nat i) = d + i"
    using d2 i by (simp add: unat_word_ariths d_def [symmetric])
  moreover have "b - a + of_nat i = b + of_nat i - a" by simp
  ultimately have "unat (b + of_nat i - a) = d + i" by simp
  then have "\<not> b + of_nat i - a < 8"
    using d by (simp add: word_less_nat_alt)
  then show "write64 m a v (b + of_nat i) = m (b + of_nat i)"
    by (simp add: write64_def)
qed

end
