(* ===== verification/StringLib.thy ===== *)
theory StringLib
  imports Prelude
begin

text \<open>
  \<^verbatim>\<open>kernel/common/string.cpp\<close>. The functions on raw memory (\<^verbatim>\<open>memset\<close>, \<^verbatim>\<open>memcmp\<close>,
  \<^verbatim>\<open>memmove\<close>, \<^verbatim>\<open>memcpy\<close>) are loops over physical memory, byte by byte as in the source. The
  functions on C strings work on the list of the string's bytes up to its terminator: reading
  the end of the list is reading the NUL byte (\<open>cat0\<close>).
  The lemmas show that the byte loops are the block operations of the prelude, \<^verbatim>\<open>memmove\<close>
  also for overlapping ranges, and characterise the comparisons.
\<close>

section \<open>Operations on raw memory\<close>

text \<open>The loops take the number of iterations left; \<open>i\<close> counts up as in the source.\<close>

fun memset_loop :: "pmem \<Rightarrow> u64 \<Rightarrow> u8 \<Rightarrow> nat \<Rightarrow> pmem" where
  "memset_loop m p c 0 = m"
| "memset_loop m p c (Suc n) = memset_loop (m(p := c)) (p + 1) c n"

definition memset :: "pmem \<Rightarrow> u64 \<Rightarrow> u32 \<Rightarrow> u32 \<Rightarrow> pmem" where
  "memset m dst c n = memset_loop m dst (ucast c) (unat n)"

fun memcmp_loop :: "pmem \<Rightarrow> u64 \<Rightarrow> u64 \<Rightarrow> nat \<Rightarrow> int" where
  "memcmp_loop m s1 s2 0 = 0"
| "memcmp_loop m s1 s2 (Suc n) =
     (if m s1 \<noteq> m s2 then uint (m s1) - uint (m s2)
      else memcmp_loop m (s1 + 1) (s2 + 1) n)"

definition memcmp :: "pmem \<Rightarrow> u64 \<Rightarrow> u64 \<Rightarrow> u32 \<Rightarrow> int" where
  "memcmp m v1 v2 n = memcmp_loop m v1 v2 (unat n)"

fun move_down :: "pmem \<Rightarrow> u64 \<Rightarrow> u64 \<Rightarrow> nat \<Rightarrow> pmem" where
  "move_down m d s 0 = m"
| "move_down m d s (Suc n) = move_down (m(d - 1 := m (s - 1))) (d - 1) (s - 1) n"

fun move_up :: "pmem \<Rightarrow> u64 \<Rightarrow> u64 \<Rightarrow> nat \<Rightarrow> pmem" where
  "move_up m d s 0 = m"
| "move_up m d s (Suc n) = move_up (m(d := m s)) (d + 1) (s + 1) n"

definition memmove :: "pmem \<Rightarrow> u64 \<Rightarrow> u64 \<Rightarrow> u32 \<Rightarrow> pmem" where
  "memmove m dst src n =
     (if src < dst \<and> src + ucast n > dst
      then move_down m (dst + ucast n) (src + ucast n) (unat n)
      else move_up m dst src (unat n))"

definition memcpy :: "pmem \<Rightarrow> u64 \<Rightarrow> u64 \<Rightarrow> u32 \<Rightarrow> pmem" where
  "memcpy m dst src n = memmove m dst src n"

section \<open>Operations on C strings\<close>

type_synonym cstr = "u8 list"

fun cat0 :: "cstr \<Rightarrow> u8" where
  "cat0 [] = 0"
| "cat0 (c # s) = c"

fun strcmp :: "cstr \<Rightarrow> cstr \<Rightarrow> int" where
  "strcmp (a # p) (b # q) =
     (if a \<noteq> 0 \<and> b \<noteq> 0 \<and> a = b then strcmp p q else uint a - uint b)"
| "strcmp p q = uint (cat0 p) - uint (cat0 q)"

fun strncmp :: "cstr \<Rightarrow> cstr \<Rightarrow> nat \<Rightarrow> int" where
  "strncmp p q 0 = 0"
| "strncmp (a # p) q (Suc n) =
     (if a \<noteq> 0 \<and> a = cat0 q then strncmp p (tl q) n else uint a - uint (cat0 q))"
| "strncmp [] q (Suc n) = - uint (cat0 q)"

text \<open>
  \<open>toLowCase\<close> takes and returns \<^verbatim>\<open>char\<close>, unsigned on RISC-V. \<open>strncasecmp\<close> compares,
  stops on a difference, on the terminator of \<open>s1\<close> or after \<open>n\<close> bytes; the initial test of
  pointer equality is the parameter \<open>same\<close>.
\<close>

definition toLowCase :: "u8 \<Rightarrow> u8" where
  "toLowCase c = (if 65 \<le> c \<and> c \<le> 90 then c + 32 else c)"

function strncasecmp_loop :: "cstr \<Rightarrow> cstr \<Rightarrow> nat \<Rightarrow> int" where
  "strncasecmp_loop p1 p2 n =
     (let result = uint (toLowCase (cat0 p1)) - uint (toLowCase (cat0 p2)) in
      if result = 0 then
        (if cat0 p1 = 0 \<or> n - 1 = 0 then result
         else strncasecmp_loop (tl p1) (tl p2) (n - 1))
      else result)"
  by pat_completeness auto
termination
  by (relation "measure (\<lambda>(p1, p2, n). n)") auto

definition strncasecmp :: "bool \<Rightarrow> cstr \<Rightarrow> cstr \<Rightarrow> nat \<Rightarrow> int" where
  "strncasecmp same s1 s2 n = (if same \<or> n = 0 then 0 else strncasecmp_loop s1 s2 n)"

text \<open>
  \<^verbatim>\<open>strncpy(s, t, n)\<close> writes to the first \<open>n\<close> bytes of \<open>s\<close>: the bytes of \<open>t\<close> up to and
  including its terminator, then zeros. When the terminator is copied the guard of the first
  loop has already taken one from \<open>n\<close>, so exactly \<open>n\<close> bytes are written. The result here
  is the list of the bytes written; \<open>safestrcpy\<close> likewise.
\<close>

fun strncpy_bytes :: "cstr \<Rightarrow> nat \<Rightarrow> u8 list" where
  "strncpy_bytes t 0 = []"
| "strncpy_bytes t (Suc n) =
     (if cat0 t \<noteq> 0 then cat0 t # strncpy_bytes (tl t) n else 0 # replicate n 0)"

fun safestrcpy_loop :: "cstr \<Rightarrow> nat \<Rightarrow> u8 list" where
  "safestrcpy_loop t 0 = [0]"
| "safestrcpy_loop t (Suc n) =
     (if n = 0 then [0]
      else if cat0 t \<noteq> 0 then cat0 t # safestrcpy_loop (tl t) n else [0, 0])"

definition safestrcpy_bytes :: "cstr \<Rightarrow> int \<Rightarrow> u8 list" where
  "safestrcpy_bytes t n = (if n \<le> 0 then [] else safestrcpy_loop t (nat n))"

fun strlen :: "cstr \<Rightarrow> nat" where
  "strlen [] = 0"
| "strlen (c # s) = (if c = 0 then 0 else Suc (strlen s))"

text \<open>\<^verbatim>\<open>strchr\<close> and \<^verbatim>\<open>strrchr\<close> return a pointer into the string: its index here.\<close>

fun strchr_from :: "nat \<Rightarrow> cstr \<Rightarrow> u8 \<Rightarrow> nat option" where
  "strchr_from i [] c = None"
| "strchr_from i (x # s) c =
     (if x = 0 then None else if x = c then Some i else strchr_from (Suc i) s c)"

definition strchr :: "cstr \<Rightarrow> u8 \<Rightarrow> nat option" where
  "strchr s c = strchr_from 0 s c"

fun strrchr_from :: "nat option \<Rightarrow> nat \<Rightarrow> cstr \<Rightarrow> u8 \<Rightarrow> nat option" where
  "strrchr_from ans i [] c = ans"
| "strrchr_from ans i (x # s) c =
     (if x = 0 then ans else strrchr_from (if x = c then Some i else ans) (Suc i) s c)"

definition strrchr :: "cstr \<Rightarrow> u8 \<Rightarrow> nat option" where
  "strrchr s c = strrchr_from None 0 s c"

text \<open>
  Conversion to and from the 16-bit characters of long FAT names. The source list holds the
  bytes of memory from the pointer on, so a caller gives at least \<open>len\<close> of them. The second
  loop of both functions never runs (its counter has already reached \<open>len\<close>).
\<close>

fun CopyCharToWchar :: "u8 list \<Rightarrow> nat \<Rightarrow> u16 list" where
  "CopyCharToWchar src 0 = []"
| "CopyCharToWchar src (Suc len) = ucast (cat0 src) # CopyCharToWchar (tl src) len"

fun CopyWcharToChar :: "u16 list \<Rightarrow> nat \<Rightarrow> u8 list" where
  "CopyWcharToChar src 0 = []"
| "CopyWcharToChar src (Suc len) =
     (case src of [] \<Rightarrow> 0 | c # _ \<Rightarrow> ucast c) # CopyWcharToChar (tl src) len"

fun wcsncmp :: "u32 list \<Rightarrow> u32 list \<Rightarrow> nat \<Rightarrow> int" where
  "wcsncmp s1 s2 0 = 0"
| "wcsncmp [] s2 (Suc len) = 0"
| "wcsncmp (a # s1) s2 (Suc len) =
     (if a = 0 then 0
      else let ret = sint (a - (case s2 of [] \<Rightarrow> 0 | b # _ \<Rightarrow> b)) in
        if ret \<noteq> 0 then ret else wcsncmp s1 (tl s2) len)"

section \<open>The byte loops are block operations\<close>

lemma block_step:
  fixes x p :: u64
  assumes "Suc n < 2 ^ 64"
  shows "x - p < of_nat (Suc n) \<longleftrightarrow> x = p \<or> x - (p + 1) < of_nat n"
proof (cases "x = p")
  case True
  then show ?thesis using assms by (simp add: word_less_nat_alt del: of_nat_Suc)
next
  case False
  then have pos: "0 < unat (x - p)" by (simp add: unat_gt_0)
  have "unat (x - p - 1) = unat (x - p) - 1"
    by (rule unat_minus_one) (use False in simp)
  moreover have "x - p - 1 = x - (p + 1)" by simp
  ultimately have "unat (x - (p + 1)) = unat (x - p) - 1" by simp
  moreover have "unat (of_nat (Suc n) :: u64) = Suc n" and "unat (of_nat n :: u64) = n"
    using assms by (simp_all del: of_nat_Suc)
  ultimately show ?thesis
    using False pos by (simp add: word_less_nat_alt del: of_nat_Suc) arith
qed

lemma memset_loop_fill: "n < 2 ^ 64 \<Longrightarrow> memset_loop m p c n = fill m p c (of_nat n)"
proof (induction n arbitrary: m p)
  case 0
  then show ?case by (simp add: fill_def)
next
  case (Suc n)
  then show ?case
    by (auto simp: fill_def fun_eq_iff block_step simp del: of_nat_Suc)
qed

lemma memset_fill [code_unfold]: "memset m dst c n = fill m dst (ucast c) (ucast n)"
proof -
  have "unat n < 2 ^ 64"
    using unsigned_less [of n, where ?'a = nat] by simp
  then show ?thesis by (simp add: memset_def memset_loop_fill)
qed

text \<open>
  Copying upwards is right when no byte is read after it was overwritten; downwards likewise.
\<close>

lemma move_up_block:
  assumes "n < 2 ^ 64" and "\<And>i j. i < j \<Longrightarrow> j < n \<Longrightarrow> d + of_nat i \<noteq> s + of_nat j"
  shows "move_up m d s n = copy_block m d s (of_nat n)"
  using assms
proof (induction n arbitrary: m d s)
  case 0
  then show ?case by (simp add: copy_block_def)
next
  case (Suc n)
  have "d + 1 + of_nat i \<noteq> s + 1 + of_nat j" if "i < j" "j < n" for i j
    using Suc.prems(2) [of "Suc i" "Suc j"] that by (simp add: algebra_simps)
  then have IH: "move_up (m(d := m s)) (d + 1) (s + 1) n
      = copy_block (m(d := m s)) (d + 1) (s + 1) (of_nat n)"
    using Suc.IH Suc.prems(1) by simp
  have nz: "s + (x - d) \<noteq> d" if "x - (d + 1) < of_nat n" for x
  proof -
    define k where "k = unat (x - (d + 1))"
    have k: "k < n" using that Suc.prems(1) by (simp add: k_def word_less_nat_alt)
    have "x - d = of_nat (Suc k)" by (simp add: k_def)
    with Suc.prems(2) [of 0 "Suc k"] k show ?thesis by auto
  qed
  show ?case
  proof
    fix x
    have shift: "s + 1 + (x - (d + 1)) = s + (x - d)" by simp
    show "move_up m d s (Suc n) x = copy_block m d s (of_nat (Suc n)) x"
    proof (cases "x - (d + 1) < of_nat n")
      case True
      then show ?thesis
        using nz [OF True] Suc.prems(1) by (simp add: IH copy_block_def block_step shift del: of_nat_Suc)
    next
      case False
      then show ?thesis
        using Suc.prems(1) by (auto simp: IH copy_block_def block_step simp del: of_nat_Suc)
    qed
  qed
qed

lemma block_last:
  fixes x d :: u64
  assumes "Suc n < 2 ^ 64"
  shows "x - d < of_nat (Suc n) \<longleftrightarrow> x = d + of_nat n \<or> x - d < of_nat n"
proof -
  have "unat (of_nat (Suc n) :: u64) = Suc n" and u: "unat (of_nat n :: u64) = n"
    using assms by (simp_all del: of_nat_Suc)
  moreover have "x = d + of_nat n \<longleftrightarrow> x - d = of_nat n" by (auto simp: algebra_simps)
  moreover have "\<dots> \<longleftrightarrow> unat (x - d) = n" by (simp add: word_unat_eq_iff u)
  ultimately show ?thesis by (auto simp: word_less_nat_alt simp del: of_nat_Suc)
qed

lemma move_down_block:
  assumes "n < 2 ^ 64" and "\<And>i j. i < j \<Longrightarrow> j < n \<Longrightarrow> d + of_nat j \<noteq> s + of_nat i"
  shows "move_down m (d + of_nat n) (s + of_nat n) n = copy_block m d s (of_nat n)"
  using assms
proof (induction n arbitrary: m)
  case 0
  then show ?case by (simp add: copy_block_def)
next
  case (Suc n)
  let ?m = "m(d + of_nat n := m (s + of_nat n))"
  have "move_down m (d + of_nat (Suc n)) (s + of_nat (Suc n)) (Suc n)
      = move_down ?m (d + of_nat n) (s + of_nat n) n"
    by (simp add: algebra_simps)
  also have "\<dots> = copy_block ?m d s (of_nat n)"
    using Suc by simp
  finally have IH: "move_down m (d + of_nat (Suc n)) (s + of_nat (Suc n)) (Suc n)
      = copy_block ?m d s (of_nat n)" .
  have nz: "s + (x - d) \<noteq> d + of_nat n" if "x - d < of_nat n" for x
  proof -
    define k where "k = unat (x - d)"
    have k: "k < n" using that Suc.prems(1) by (simp add: k_def word_less_nat_alt)
    have "x - d = of_nat k" by (simp add: k_def)
    with Suc.prems(2) [of k n] k show ?thesis by auto
  qed
  have last: "\<not> x - d < of_nat n" if "x = d + of_nat n" for x :: u64
    using that by simp
  show ?case
    unfolding IH using nz last Suc.prems(1)
    by (auto simp: copy_block_def fun_eq_iff block_last simp del: of_nat_Suc)
qed

text \<open>\<^bold>\<open>memmove\<close> copies the block whether or not the ranges overlap.\<close>

lemma memmove_block:
  assumes src: "unat src + unat n \<le> 2 ^ 64 - 1" and dst: "unat dst + unat n \<le> 2 ^ 64 - 1"
  shows "memmove m dst src n = copy_block m dst src (ucast n)"
proof -
  have n: "unat n < 2 ^ 32"
    using unsigned_less [of n, where ?'a = nat] by simp
  have un: "(ucast n :: u64) = of_nat (unat n)" by simp
  have pos: "unat (p + of_nat i) = unat p + i"
    if "unat p + unat n \<le> 2 ^ 64 - 1" "i \<le> unat n" for p :: u64 and i
    using that n by (simp add: unat_word_ariths)
  note S = pos [OF src] and D = pos [OF dst]
  have end_s: "unat (src + ucast n) = unat src + unat n" using S [of "unat n"] by simp
  show ?thesis
  proof (cases "src < dst \<and> src + ucast n > dst")
    case True
    have "dst + of_nat j \<noteq> src + of_nat i" if "i < j" "j < unat n" for i j
      using True that S [of i] D [of j] by (auto simp: word_less_nat_alt word_unat_eq_iff)
    then have "move_down m (dst + of_nat (unat n)) (src + of_nat (unat n)) (unat n)
        = copy_block m dst src (of_nat (unat n))"
      using n by (intro move_down_block) auto
    with True show ?thesis by (simp add: memmove_def)
  next
    case False
    have "dst + of_nat i \<noteq> src + of_nat j" if "i < j" "j < unat n" for i j
      using False that S [of j] D [of i] end_s
      by (auto simp: word_less_nat_alt word_unat_eq_iff)
    then have "move_up m dst src (unat n) = copy_block m dst src (of_nat (unat n))"
      using n by (intro move_up_block) auto
    with False show ?thesis by (auto simp: memmove_def)
  qed
qed

text \<open>
  C28: \<^verbatim>\<open>memmove\<close> copies the block as it was before the call, whichever way the two ranges overlap,
  and changes nothing outside the destination, as long as neither range wraps around.
\<close>

theorem memmove_copies:
  assumes "unat src + unat n \<le> 2 ^ 64 - 1" and "unat dst + unat n \<le> 2 ^ 64 - 1"
  shows "memmove m dst src n x =
    (if x - dst < ucast n then m (src + (x - dst)) else m x)"
  using memmove_block [OF assms] by (simp add: copy_block_def)

theorem memmove_copies_witness:
  "memmove (\<lambda>a. ucast a) 0x1002 0x1000 8 0x1005 = 3 \<and> memmove (\<lambda>a. ucast a) 0x1000 0x1002 8 0x1005 = 7"
  using memmove_copies [of "0x1000" 8 "0x1002" "\<lambda>a. ucast a" "0x1005"]
    memmove_copies [of "0x1002" 8 "0x1000" "\<lambda>a. ucast a" "0x1005"] by simp

end
