(* ===== verification/PageAlloc.thy ===== *)
theory PageAlloc
  imports StringLib
begin

text \<open>
  The physical page allocator, \<^verbatim>\<open>kernel/memory/MemAllocator.cpp\<close>. The free list is the
  source's: each free page holds in its first eight bytes the address of the next one, in
  the same physical memory every other component writes to.
  The state record is the base of the kernel state; later components extend it. The linker
  symbol \<^verbatim>\<open>end\<close> is the field \<open>kend\<close>, which no operation writes. The spin lock of
  \<^verbatim>\<open>alloc\<close> and \<^verbatim>\<open>free\<close> only serialises them: each is one step here.
  The lemmas relate the list in memory to the list of its pages, show that every operation
  keeps that relation, and give clients the contract \<open>page_allocator\<close>.
\<close>

section \<open>State and operations\<close>

record kpages =
  mem :: pmem
  kend :: u64
  freeList :: u64
  npage :: u32
  total_page :: u32

definition PHYSTOP :: u64 where "PHYSTOP = 0x80600000"

definition ma_alloc :: "'a kpages_scheme \<Rightarrow> u64 \<times> 'a kpages_scheme" where
  "ma_alloc s =
     (let r = freeList s;
          s1 = (if r \<noteq> 0 then s\<lparr>freeList := read64 (mem s) r, npage := npage s - 1\<rparr> else s)
      in if r \<noteq> 0 then (r, s1\<lparr>mem := memset (mem s1) r 5 4096\<rparr>) else (r, s1))"

definition ma_free :: "u64 \<Rightarrow> 'a kpages_scheme \<Rightarrow> 'a kpages_scheme result" where
  "ma_free pa s =
     (if pa mod PGSIZE \<noteq> 0 \<or> pa < kend s \<or> pa \<ge> PHYSTOP then Inl (Panic ''kfree'')
      else
        let m1 = memset (mem s) pa 5 4096
        in Inr (s\<lparr>mem := write64 m1 pa (freeList s), freeList := pa, npage := npage s + 1\<rparr>))"

lemma ma_free_Inr:
  "ma_free pa s = Inr s' \<Longrightarrow> pa < PHYSTOP"
  by (auto simp: ma_free_def Let_def split: if_splits)

function freeRange_loop :: "u64 \<Rightarrow> u64 \<Rightarrow> 'a kpages_scheme \<Rightarrow> 'a kpages_scheme result" where
  "freeRange_loop p paEnd s =
     (if p + PGSIZE \<le> paEnd
      then bindr (ma_free p (s\<lparr>total_page := total_page s + 1\<rparr>))
             (\<lambda>s1. freeRange_loop (p + PGSIZE) paEnd s1)
      else Inr s)"
  by pat_completeness auto
termination
proof (relation "measure (\<lambda>(p, paEnd, s). unat PHYSTOP - unat p)", goal_cases)
  case 1
  then show ?case by simp
next
  case (2 p paEnd s s1)
  then have lt: "unat p < 0x80600000"
    using ma_free_Inr by (auto simp: word_less_nat_alt PHYSTOP_def)
  then have "unat (p + PGSIZE) = unat p + 4096"
    by (simp add: PGSIZE_def unat_word_ariths)
  with lt show ?case by (simp add: PHYSTOP_def)
qed

declare freeRange_loop.simps [simp del]

definition ma_freeRange :: "u64 \<Rightarrow> u64 \<Rightarrow> 'a kpages_scheme \<Rightarrow> 'a kpages_scheme result" where
  "ma_freeRange paStart paEnd s = freeRange_loop (PGROUNDUP paStart) paEnd s"

definition ma_init :: "'a kpages_scheme \<Rightarrow> 'a kpages_scheme result" where
  "ma_init s = ma_freeRange (kend s) PHYSTOP (s\<lparr>npage := 0\<rparr>)"

text \<open>The two counters are C \<^verbatim>\<open>int\<close>; the product is computed in \<^verbatim>\<open>int\<close> and then widened.\<close>

definition ma_FreeMemOfBytes :: "'a kpages_scheme \<Rightarrow> u64" where
  "ma_FreeMemOfBytes s = scast (npage s * 4096)"

definition ma_TotalMemOfBytes :: "'a kpages_scheme \<Rightarrow> u64" where
  "ma_TotalMemOfBytes s = scast (total_page s * 4096)"

section \<open>The free list in memory\<close>

primrec chain :: "pmem \<Rightarrow> u64 \<Rightarrow> u64 list \<Rightarrow> bool" where
  "chain m p [] \<longleftrightarrow> p = 0"
| "chain m p (x # xs) \<longleftrightarrow> p = x \<and> x \<noteq> 0 \<and> chain m (read64 m x) xs"

lemma slot_of_page [simp]: "page_aligned p \<Longrightarrow> slot_in_page p p"
  by (simp add: slot_in_page_def PGSIZE_def)

lemma chain_frame:
  assumes "only_pages P m m'" and "\<forall>x \<in> set xs. page_aligned x \<and> x \<notin> P"
  shows "chain m' p xs = chain m p xs"
  using assms(2) by (induction xs arbitrary: p) (simp_all add: read64_only_pages [OF assms(1) slot_of_page])

lemma chain_unique: "chain m p xs \<Longrightarrow> chain m p ys \<Longrightarrow> xs = ys"
proof (induction xs arbitrary: p ys)
  case Nil
  then show ?case by (cases ys) auto
next
  case (Cons x xs)
  then show ?case by (cases ys) auto
qed

text \<open>
  \<open>pages_free s xs\<close>: the free list of \<open>s\<close> is exactly the pages \<open>xs\<close>, all different, aligned
  and inside the managed range, and \<open>npage\<close> is their number.
\<close>

definition managed :: "'a kpages_scheme \<Rightarrow> u64 \<Rightarrow> bool" where
  "managed s p \<longleftrightarrow> page_aligned p \<and> kend s \<le> p \<and> p < PHYSTOP"

definition pages_free :: "'a kpages_scheme \<Rightarrow> u64 list \<Rightarrow> bool" where
  "pages_free s xs \<longleftrightarrow>
     0 < kend s \<and> chain (mem s) (freeList s) xs \<and> distinct xs \<and>
     (\<forall>x \<in> set xs. managed s x) \<and> npage s = of_nat (length xs)"

lemma pages_free_unique: "pages_free s xs \<Longrightarrow> pages_free s ys \<Longrightarrow> xs = ys"
  by (auto simp: pages_free_def dest: chain_unique)

lemma pages_free_cong:
  assumes "pages_free s xs" and "only_pages P (mem s) (mem s')" and "set xs \<inter> P = {}"
    and "kend s' = kend s" and "freeList s' = freeList s" and "npage s' = npage s"
  shows "pages_free s' xs"
  using assms chain_frame [OF assms(2), of xs]
  by (auto simp: pages_free_def managed_def)

lemma memset_page: "memset m p c 4096 = fill m p (ucast c) PGSIZE"
  by (simp add: memset_fill PGSIZE_def)

lemma ma_alloc_empty: "pages_free s [] \<Longrightarrow> ma_alloc s = (0, s)"
  by (simp add: pages_free_def ma_alloc_def)

lemma ma_alloc_page:
  assumes "pages_free s (x # xs)"
  shows "\<exists>s'. ma_alloc s = (x, s') \<and> pages_free s' xs \<and> only_pages {x} (mem s) (mem s') \<and>
           kend s' = kend s \<and> total_page s' = total_page s \<and>
           kpages.more s' = kpages.more s \<and> managed s x"
proof -
  let ?s = "s\<lparr>freeList := read64 (mem s) x, npage := npage s - 1,
              mem := fill (mem s) x 5 PGSIZE\<rparr>"
  have x: "freeList s = x" "x \<noteq> 0" "managed s x" "chain (mem s) (read64 (mem s) x) xs"
    and xs: "distinct xs" "x \<notin> set xs" "\<forall>y \<in> set xs. managed s y" "0 < kend s"
    and n: "npage s = of_nat (Suc (length xs))"
    using assms by (auto simp: pages_free_def)
  have only: "only_pages {x} (mem s) (fill (mem s) x 5 PGSIZE)"
    using x by (intro only_pages_fill_page) (simp add: managed_def)
  have "chain (fill (mem s) x 5 PGSIZE) (read64 (mem s) x) xs"
    using chain_frame [OF only, of xs] x xs by (auto simp: managed_def)
  with x xs n have "pages_free ?s xs"
    by (auto simp: pages_free_def managed_def)
  moreover have "ma_alloc s = (x, ?s)"
    using x by (simp add: ma_alloc_def memset_page)
  ultimately show ?thesis using only x by auto
qed

lemma ma_free_page:
  assumes inv: "pages_free s xs" and p: "managed s p" and new: "p \<notin> set xs"
  shows "\<exists>s'. ma_free p s = Inr s' \<and> pages_free s' (p # xs) \<and> only_pages {p} (mem s) (mem s') \<and>
           kend s' = kend s \<and> total_page s' = total_page s \<and>
           kpages.more s' = kpages.more s"
proof -
  let ?m = "write64 (fill (mem s) p 5 PGSIZE) p (freeList s)"
  let ?s = "s\<lparr>mem := ?m, freeList := p, npage := npage s + 1\<rparr>"
  have al: "page_aligned p" using p by (simp add: managed_def)
  have "only_pages ({p} \<union> {p}) (mem s) ?m"
    using al by (intro only_pages_trans [OF only_pages_fill_page only_pages_write64]) simp_all
  then have only: "only_pages {p} (mem s) ?m" by simp
  have "chain ?m (freeList s) xs"
    using inv new chain_frame [OF only, of xs]
    by (auto simp: pages_free_def managed_def)
  then have "chain ?m p (p # xs)"
    using inv p by (auto simp: mem_simps pages_free_def managed_def)
  with inv p new have "pages_free ?s (p # xs)"
    by (auto simp: pages_free_def managed_def)
  moreover have "ma_free p s = Inr ?s"
    using p by (auto simp: ma_free_def managed_def page_aligned_def memset_page)
  ultimately show ?thesis using only by auto
qed

section \<open>The contract of the allocator\<close>

text \<open>
  What the clients (page tables, tasks, the buddy allocator) rely on. \<open>fr s xs\<close> says which
  pages are free, \<open>pg s p\<close> that the allocator manages page \<open>p\<close>, \<open>me s\<close> is the memory.
\<close>

locale page_allocator =
  fixes al :: "'s \<Rightarrow> u64 \<times> 's"
    and fre :: "u64 \<Rightarrow> 's \<Rightarrow> 's result"
    and fr :: "'s \<Rightarrow> u64 list \<Rightarrow> bool"
    and pg :: "'s \<Rightarrow> u64 \<Rightarrow> bool"
    and me :: "'s \<Rightarrow> pmem"
  assumes al_empty: "fr s [] \<Longrightarrow> al s = (0, s)"
    and al_page: "fr s (x # xs) \<Longrightarrow>
          \<exists>s'. al s = (x, s') \<and> fr s' xs \<and> only_pages {x} (me s) (me s') \<and> pg s x \<and>
               (\<forall>p. pg s' p \<longleftrightarrow> pg s p)"
    and fre_page: "fr s xs \<Longrightarrow> pg s p \<Longrightarrow> p \<notin> set xs \<Longrightarrow>
          \<exists>s'. fre p s = Inr s' \<and> fr s' (p # xs) \<and> only_pages {p} (me s) (me s') \<and>
               (\<forall>q. pg s' q \<longleftrightarrow> pg s q)"
    and fr_distinct: "fr s xs \<Longrightarrow> distinct xs"
    and fr_pg: "fr s xs \<Longrightarrow> x \<in> set xs \<Longrightarrow> pg s x"
    and pg_aligned: "pg s p \<Longrightarrow> page_aligned p"
begin

fun al_many :: "nat \<Rightarrow> 's \<Rightarrow> u64 list \<times> 's" where
  "al_many 0 s = ([], s)"
| "al_many (Suc n) s = (let (p, s1) = al s; (ps, s2) = al_many n s1 in (p # ps, s2))"

fun fre_many :: "u64 list \<Rightarrow> 's \<Rightarrow> 's result" where
  "fre_many [] s = Inr s"
| "fre_many (p # ps) s = bindr (fre p s) (fre_many ps)"

lemma al_many_pages:
  "fr s (xs @ ys) \<Longrightarrow>
   \<exists>s'. al_many (length xs) s = (xs, s') \<and> fr s' ys \<and> only_pages (set xs) (me s) (me s') \<and>
        (\<forall>p. pg s' p \<longleftrightarrow> pg s p)"
proof (induction xs arbitrary: s)
  case Nil
  then show ?case by simp
next
  case (Cons x xs)
  then obtain s1 where s1: "al s = (x, s1)" "fr s1 (xs @ ys)" "only_pages {x} (me s) (me s1)"
    and pg1: "\<forall>p. pg s1 p \<longleftrightarrow> pg s p"
    using al_page [of s x "xs @ ys"] by auto
  obtain s2 where s2: "al_many (length xs) s1 = (xs, s2)" "fr s2 ys"
    "only_pages (set xs) (me s1) (me s2)" and pg2: "\<forall>p. pg s2 p \<longleftrightarrow> pg s1 p"
    using Cons.IH [OF s1(2)] by auto
  have "only_pages ({x} \<union> set xs) (me s) (me s2)"
    using s1(3) s2(3) by (rule only_pages_trans)
  with s1 s2 pg1 pg2 show ?case by auto
qed

lemma fre_many_pages:
  "fr s ys \<Longrightarrow> distinct xs \<Longrightarrow> set xs \<inter> set ys = {} \<Longrightarrow> \<forall>x \<in> set xs. pg s x \<Longrightarrow>
   \<exists>s'. fre_many xs s = Inr s' \<and> fr s' (rev xs @ ys)"
proof (induction xs arbitrary: s ys)
  case Nil
  then show ?case by simp
next
  case (Cons x xs)
  then obtain s1 where s1: "fre x s = Inr s1" "fr s1 (x # ys)" "\<forall>q. pg s1 q \<longleftrightarrow> pg s q"
    using fre_page [of s ys x] by auto
  have "\<exists>s'. fre_many xs s1 = Inr s' \<and> fr s' (rev xs @ x # ys)"
    using s1 Cons.prems by (intro Cons.IH) auto
  with s1 show ?case by auto
qed

lemma al_fre_many:
  assumes "fr s (xs @ ys)"
  shows "\<exists>s1 s2. al_many (length xs) s = (xs, s1) \<and> fre_many xs s1 = Inr s2 \<and>
           fr s2 (rev xs @ ys)"
proof -
  obtain s1 where s1: "al_many (length xs) s = (xs, s1)" "fr s1 ys"
    and pg1: "\<forall>p. pg s1 p \<longleftrightarrow> pg s p"
    using al_many_pages [OF assms] by auto
  have "distinct (xs @ ys)" using fr_distinct [OF assms] .
  then have "\<exists>s2. fre_many xs s1 = Inr s2 \<and> fr s2 (rev xs @ ys)"
    using fr_pg [OF assms] pg1 by (intro fre_many_pages s1) auto
  with s1 show ?thesis by auto
qed

end

interpretation pa: page_allocator ma_alloc ma_free pages_free managed mem
proof (unfold_locales, goal_cases)
  case (1 s)
  then show ?case by (rule ma_alloc_empty)
next
  case (2 s x xs)
  from ma_alloc_page [OF this] show ?case by (auto simp: managed_def)
next
  case (3 s xs p)
  from ma_free_page [OF this] show ?case by (auto simp: managed_def)
qed (auto simp: pages_free_def managed_def)

section \<open>Initialisation\<close>

lemma unat_below_PHYSTOP: "p < PHYSTOP \<Longrightarrow> unat (p + PGSIZE) = unat p + 4096"
  by (simp add: PHYSTOP_def PGSIZE_def word_less_nat_alt unat_word_ariths)

lemma page_aligned_next: "page_aligned p \<Longrightarrow> p < PHYSTOP \<Longrightarrow> page_aligned (p + PGSIZE)"
  by (simp add: page_aligned_unat unat_below_PHYSTOP)

lemma next_page_le: "page_aligned p \<Longrightarrow> p < PHYSTOP \<Longrightarrow> p + PGSIZE \<le> PHYSTOP"
proof -
  assume p: "page_aligned p" "p < PHYSTOP"
  from p(1) obtain q where q: "unat p = 4096 * q" by (rule page_alignedE)
  from p(2) q have "4096 * q < 4096 * 525824" by (simp add: word_less_nat_alt PHYSTOP_def)
  then have "4096 * q + 4096 \<le> 0x80600000" by simp
  then show ?thesis
    using p(2) q by (simp add: word_le_nat_alt unat_below_PHYSTOP PHYSTOP_def)
qed

definition pages_from :: "u64 \<Rightarrow> u64 set" where
  "pages_from p = {q. page_aligned q \<and> p \<le> q \<and> q < PHYSTOP}"

lemma pages_from_step:
  assumes "page_aligned p" and "p < PHYSTOP"
  shows "pages_from p = insert p (pages_from (p + PGSIZE))"
proof -
  have "q = p \<or> p + PGSIZE \<le> q" if q: "page_aligned q" "p \<le> q" for q
  proof -
    obtain a b where "unat p = 4096 * a" "unat q = 4096 * b"
      using q(1) assms(1) by (meson page_alignedE)
    then show ?thesis
      using q(2) unat_below_PHYSTOP [OF assms(2)]
      by (auto simp: word_le_nat_alt word_unat_eq_iff)
  qed
  moreover have "p \<le> p + PGSIZE"
    using unat_below_PHYSTOP [OF assms(2)] by (simp add: word_le_nat_alt)
  ultimately show ?thesis
    using assms by (auto simp: pages_from_def intro: order_trans)
qed

lemma freeRange_loop_pages:
  "pages_free s xs \<Longrightarrow> page_aligned p \<Longrightarrow> kend s \<le> p \<Longrightarrow> p \<le> PHYSTOP \<Longrightarrow>
   \<forall>x \<in> set xs. x < p \<Longrightarrow>
   \<exists>s' ys. freeRange_loop p PHYSTOP s = Inr s' \<and> pages_free s' ys \<and> kend s' = kend s \<and>
      set ys = set xs \<union> pages_from p \<and> total_page s' + npage s = total_page s + npage s'"
proof (induction p "PHYSTOP" s arbitrary: xs rule: freeRange_loop.induct)
  case (1 p s)
  show ?case
  proof (cases "p < PHYSTOP")
    case False
    with 1 have "p = PHYSTOP" by simp
    moreover have "\<not> PHYSTOP + PGSIZE \<le> PHYSTOP" by (simp add: PHYSTOP_def PGSIZE_def)
    moreover have "pages_from PHYSTOP = {}" by (auto simp: pages_from_def)
    ultimately show ?thesis
      using 1 by (intro exI [of _ s] exI [of _ xs]) (simp add: freeRange_loop.simps [of PHYSTOP])
  next
    case True
    let ?s = "s\<lparr>total_page := total_page s + 1\<rparr>"
    have le: "p + PGSIZE \<le> PHYSTOP" using 1 True by (intro next_page_le)
    have "pages_free ?s xs" and "managed ?s p" and "p \<notin> set xs"
      using 1 True by (auto simp: pages_free_def managed_def)
    from ma_free_page [OF this] obtain s1 where s1: "ma_free p ?s = Inr s1"
      "pages_free s1 (p # xs)" "kend s1 = kend s" "total_page s1 = total_page s + 1"
      by auto
    have n1: "npage s1 = npage s + 1"
      using s1(2) 1(2) by (simp add: pages_free_def)
    have lt: "p < p + PGSIZE"
      using unat_below_PHYSTOP [OF True] by (simp add: word_less_nat_alt)
    have "\<exists>s' ys. freeRange_loop (p + PGSIZE) PHYSTOP s1 = Inr s' \<and> pages_free s' ys \<and>
        kend s' = kend s1 \<and> set ys = set (p # xs) \<union> pages_from (p + PGSIZE) \<and>
        total_page s' + npage s1 = total_page s1 + npage s'"
    proof (rule "1.hyps" [OF le s1(1) s1(2)])
      show "page_aligned (p + PGSIZE)" using 1 True by (intro page_aligned_next)
      show "kend s1 \<le> p + PGSIZE" using s1 1 lt by auto
      show "\<forall>x \<in> set (p # xs). x < p + PGSIZE" using 1 lt by auto
    qed (rule le)
    then show ?thesis
      using s1 n1 le pages_from_step [OF 1(3) True]
      by (auto simp: freeRange_loop.simps [of p] algebra_simps)
  qed
qed

lemma PGROUNDUP_aligned [simp]: "page_aligned (PGROUNDUP a)"
  unfolding PGROUNDUP_def using page_aligned_PGROUNDDOWN [of "a + PGSIZE - 1"]
  by (simp add: PGROUNDDOWN_def)

lemma unat_PGROUNDUP:
  assumes "unat a + 4095 < 2 ^ 64"
  shows "unat (PGROUNDUP a) = (unat a + 4095) div 4096 * 4096"
proof -
  have "PGROUNDUP a = PGROUNDDOWN (a + 4095)"
    by (simp add: PGROUNDUP_def PGROUNDDOWN_def PGSIZE_def add.commute)
  moreover have "unat (a + 4095) = unat a + 4095"
    using assms by (simp add: unat_word_ariths)
  ultimately show ?thesis by (simp add: unat_PGROUNDDOWN)
qed

lemma managed_pages_from:
  assumes "kend s \<le> PHYSTOP"
  shows "{p. managed s p} = pages_from (PGROUNDUP (kend s))"
proof -
  have small: "unat (kend s) + 4095 < 2 ^ 64"
    using assms by (simp add: word_le_nat_alt PHYSTOP_def)
  have "kend s \<le> q \<longleftrightarrow> PGROUNDUP (kend s) \<le> q" if "page_aligned q" for q
  proof -
    from that obtain b where "unat q = 4096 * b" by (rule page_alignedE)
    then show ?thesis
      by (simp add: word_le_nat_alt unat_PGROUNDUP [OF small]) linarith
  qed
  then show ?thesis by (auto simp: managed_def pages_from_def)
qed

lemma ma_init_pages:
  assumes "0 < kend s" and "kend s \<le> PHYSTOP" and "freeList s = 0"
  shows "\<exists>s' xs. ma_init s = Inr s' \<and> pages_free s' xs \<and> set xs = {p. managed s p} \<and>
           kend s' = kend s \<and> total_page s' = total_page s + npage s'"
proof -
  let ?s = "s\<lparr>npage := 0\<rparr>"
  have small: "unat (kend s) + 4095 < 2 ^ 64"
    using assms by (simp add: word_le_nat_alt PHYSTOP_def)
  have "unat (kend s) \<le> unat (PGROUNDUP (kend s))"
    using unat_PGROUNDUP [OF small] by linarith
  moreover have "unat (PGROUNDUP (kend s)) \<le> unat PHYSTOP"
    using unat_PGROUNDUP [OF small] assms(2) by (simp add: word_le_nat_alt PHYSTOP_def)
  ultimately have "\<exists>s' ys. freeRange_loop (PGROUNDUP (kend s)) PHYSTOP ?s = Inr s' \<and>
      pages_free s' ys \<and> kend s' = kend ?s \<and> set ys = set [] \<union> pages_from (PGROUNDUP (kend s)) \<and>
      total_page s' + npage ?s = total_page ?s + npage s'"
    using assms by (intro freeRange_loop_pages) (auto simp: pages_free_def word_le_nat_alt)
  then show ?thesis
    using managed_pages_from [OF assms(2)] by (auto simp: ma_init_def ma_freeRange_def)
qed

section \<open>Properties\<close>

text \<open>
  C13: \<^verbatim>\<open>MemAllocator::init\<close> succeeds and puts exactly the page frames between the end of the
  kernel image and \<^verbatim>\<open>PHYSTOP\<close> on the free list, each once, with \<^verbatim>\<open>npage\<close> their number.
\<close>

theorem ma_init_all_free:
  assumes "0 < kend s" and "kend s \<le> PHYSTOP" and "freeList s = 0"
  shows "\<exists>s' xs. ma_init s = Inr s' \<and> pages_free s' xs \<and> distinct xs \<and>
    set xs = {p. page_aligned p \<and> kend s \<le> p \<and> p < PHYSTOP} \<and> npage s' = of_nat (length xs)"
  using ma_init_pages [OF assms] by (auto simp: managed_def pages_free_def)

theorem ma_init_all_free_witness:
  "\<exists>s' xs. ma_init \<lparr>mem = (\<lambda>_. 0), kend = 0x80500000, freeList = 0, npage = 7, total_page = 0\<rparr> = Inr s' \<and>
     pages_free s' xs \<and> set xs = {p. page_aligned p \<and> 0x80500000 \<le> p \<and> p < PHYSTOP}"
  using ma_init_all_free
    [of "\<lparr>mem = (\<lambda>_. 0), kend = 0x80500000, freeList = 0, npage = 7, total_page = 0\<rparr>"]
  by (fastforce simp: PHYSTOP_def)

text \<open>
  \<^verbatim>\<open>alloc\<close> hands out a page of the free list and \<^verbatim>\<open>free\<close> takes it back: the same pages are free
  again and no byte outside that page has changed.
\<close>

lemma alloc_free_roundtrip:
  assumes "pages_free s (x # xs)"
  shows "\<exists>s1 s2. ma_alloc s = (x, s1) \<and> pages_free s1 xs \<and> managed s x \<and>
    ma_free x s1 = Inr s2 \<and> pages_free s2 (x # xs) \<and> only_pages {x} (mem s) (mem s2)"
proof -
  obtain s1 where s1: "ma_alloc s = (x, s1)" "pages_free s1 xs" "only_pages {x} (mem s) (mem s1)"
    "managed s x" "\<forall>p. managed s1 p \<longleftrightarrow> managed s p"
    using pa.al_page [OF assms] by blast
  moreover have "x \<notin> set xs" using pa.fr_distinct [OF assms] by simp
  ultimately obtain s2 where "ma_free x s1 = Inr s2" "pages_free s2 (x # xs)"
    "only_pages {x} (mem s1) (mem s2)"
    using pa.fre_page [of s1 xs x] by blast
  then show ?thesis using s1 only_pages_trans [OF s1(3), of "{x}" "mem s2"] by auto
qed

text \<open>
  \<^verbatim>\<open>free\<close> panics on exactly the addresses that are not page frames between the end of the
  kernel image and \<^verbatim>\<open>PHYSTOP\<close>.
\<close>

lemma ma_free_panics_iff:
  "(\<exists>msg. ma_free p s = Inl (Panic msg)) \<longleftrightarrow> \<not> managed s p"
  by (auto simp: ma_free_def managed_def page_aligned_def)

end
