(* ===== verification/PageTable.thy ===== *)
theory PageTable
  imports PageAlloc
begin

text \<open>
  Sv39 page tables, \<^verbatim>\<open>kernel/memory/VmManager.cpp\<close> and the page-table macros of
  \<^verbatim>\<open>kernel/include/riscv.hpp\<close>. A page table is the physical address of its root page; its
  entries are 64-bit words of physical memory, and missing levels are allocated from the page
  allocator, as in the source.
  The second half reads a page table as the map from virtual addresses to entries it
  represents, with the invariant that its table pages are all different and not free, and
  shows what \<^verbatim>\<open>walk\<close>, \<^verbatim>\<open>mappages\<close> and \<^verbatim>\<open>userUnmap\<close> do to that map.
\<close>

section \<open>Page table entries\<close>

definition PTE_V :: u64 where "PTE_V = 1"
definition PTE_R :: u64 where "PTE_R = 2"
definition PTE_W :: u64 where "PTE_W = 4"
definition PTE_X :: u64 where "PTE_X = 8"
definition PTE_U :: u64 where "PTE_U = 16"

definition PA2PTE :: "u64 \<Rightarrow> u64" where "PA2PTE pa = push_bit 10 (drop_bit 12 pa)"
definition PTE2PA :: "u64 \<Rightarrow> u64" where "PTE2PA pte = push_bit 12 (drop_bit 10 pte)"
definition PTE_FLAGS :: "u64 \<Rightarrow> u64" where "PTE_FLAGS pte = pte AND 0x3FF"
definition PX :: "nat \<Rightarrow> u64 \<Rightarrow> u64" where "PX level va = drop_bit (12 + 9 * level) va AND 0x1FF"
definition MAXVA :: u64 where "MAXVA = push_bit 38 1"
definition TRAMPOLINE :: u64 where "TRAMPOLINE = MAXVA - PGSIZE"
definition TRAPFRAME :: u64 where "TRAPFRAME = TRAMPOLINE - PGSIZE"

lemmas pte_defs = PTE_V_def PTE_R_def PTE_W_def PTE_X_def PTE_U_def

section \<open>Walking and mapping\<close>

text \<open>
  The loop of \<^verbatim>\<open>walk\<close> counts \<^verbatim>\<open>level\<close> down from 2 to 1; the result is the address of the
  level-0 entry, or 0 (\<^verbatim>\<open>NULL\<close>).
\<close>

fun walk_loop :: "nat \<Rightarrow> u64 \<Rightarrow> u64 \<Rightarrow> bool \<Rightarrow> 'a kpages_scheme \<Rightarrow> u64 \<times> 'a kpages_scheme" where
  "walk_loop 0 pagetable va alloc s = (pagetable + 8 * PX 0 va, s)"
| "walk_loop (Suc l) pagetable va alloc s =
     (let pte = pagetable + 8 * PX (Suc l) va in
      if read64 (mem s) pte AND PTE_V \<noteq> 0
      then walk_loop l (PTE2PA (read64 (mem s) pte)) va alloc s
      else if \<not> alloc then (0, s)
      else let (p, s1) = ma_alloc s in
        if p = 0 then (0, s1)
        else let m1 = memset (mem s1) p 0 4096;
                 m2 = write64 m1 pte (PA2PTE p OR PTE_V)
             in walk_loop l p va alloc (s1\<lparr>mem := m2\<rparr>))"

definition walk :: "u64 \<Rightarrow> u64 \<Rightarrow> bool \<Rightarrow> 'a kpages_scheme \<Rightarrow> (u64 \<times> 'a kpages_scheme) result" where
  "walk pagetable va alloc s =
     (if va \<ge> MAXVA then Inl (Panic ''walk'') else Inr (walk_loop 2 pagetable va alloc s))"

lemma walk_below: "walk pt a al s = Inr r \<Longrightarrow> a < MAXVA"
  by (auto simp: walk_def split: if_splits)

text \<open>Every loop below calls \<^verbatim>\<open>walk\<close>, which panics at \<open>MAXVA\<close>: the distance to it shrinks.\<close>

definition va_left :: "u64 \<Rightarrow> nat" where "va_left a = 2 ^ 38 - unat a"

lemma next_page_measure: "a < MAXVA \<Longrightarrow> va_left (a + PGSIZE) < va_left a"
proof -
  assume "a < MAXVA"
  then have a: "unat a < 2 ^ 38" by (simp add: MAXVA_def word_less_nat_alt push_bit_eq_mult)
  then have "unat (a + PGSIZE) = unat a + 4096" by (simp add: PGSIZE_def unat_word_ariths)
  with a show ?thesis by (simp add: va_left_def)
qed

function mappages_loop ::
  "u64 \<Rightarrow> u64 \<Rightarrow> u64 \<Rightarrow> u64 \<Rightarrow> u64 \<Rightarrow> 'a kpages_scheme \<Rightarrow> (int \<times> 'a kpages_scheme) result" where
  "mappages_loop pagetable a lst pa perm s =
     bindr (walk pagetable a True s) (\<lambda>(pte, s1).
       if pte = 0 then Inr (- 1, s1)
       else if read64 (mem s1) pte AND PTE_V \<noteq> 0 then Inl (Panic ''remap'')
       else let s2 = s1\<lparr>mem := write64 (mem s1) pte (PA2PTE pa OR perm OR PTE_V)\<rparr> in
         if a = lst then Inr (0, s2)
         else mappages_loop pagetable (a + PGSIZE) lst (pa + PGSIZE) perm s2)"
  by pat_completeness auto
termination
  by (relation "measure (\<lambda>(pt, a, lst, pa, perm, s). va_left a)")
     (auto intro!: next_page_measure walk_below)

declare mappages_loop.simps [simp del]

definition mappages ::
  "u64 \<Rightarrow> u64 \<Rightarrow> u64 \<Rightarrow> u64 \<Rightarrow> u64 \<Rightarrow> 'a kpages_scheme \<Rightarrow> (int \<times> 'a kpages_scheme) result" where
  "mappages pagetable va sz pa perm s =
     mappages_loop pagetable (PGROUNDDOWN va) (PGROUNDDOWN (va + sz - 1)) pa perm s"

definition walkAddr :: "u64 \<Rightarrow> u64 \<Rightarrow> 'a kpages_scheme \<Rightarrow> u64 result" where
  "walkAddr pagetable va s =
     (if va \<ge> MAXVA then Inr 0
      else bindr (walk pagetable va False s) (\<lambda>(pte, _).
        if pte = 0 then Inr 0
        else if read64 (mem s) pte AND PTE_V = 0 then Inr 0
        else if read64 (mem s) pte AND PTE_U = 0 then Inr 0
        else Inr (PTE2PA (read64 (mem s) pte))))"

text \<open>The root of the kernel's own table, \<^verbatim>\<open>kernel_pagetable\<close>, is an argument.\<close>

definition kernel_vm_map ::
  "u64 \<Rightarrow> u64 \<Rightarrow> u64 \<Rightarrow> u64 \<Rightarrow> u64 \<Rightarrow> 'a kpages_scheme \<Rightarrow> 'a kpages_scheme result" where
  "kernel_vm_map kernel_pagetable va pa sz perm s =
     bindr (mappages kernel_pagetable va sz pa perm s) (\<lambda>(r, s1).
       if r \<noteq> 0 then Inl (Panic ''kvmmap'') else Inr s1)"

section \<open>Releasing\<close>

text \<open>
  \<^verbatim>\<open>freewalk\<close> recurses into every entry that points to a lower table. The recursion depth is
  bounded by \<open>fuel\<close>: a three-level table needs 3.
\<close>

primrec freewalk_entries ::
  "(u64 \<Rightarrow> 'a kpages_scheme \<Rightarrow> 'a kpages_scheme result) \<Rightarrow> u64 \<Rightarrow> nat list \<Rightarrow>
   'a kpages_scheme \<Rightarrow> 'a kpages_scheme result" where
  "freewalk_entries rec pagetable [] s = Inr s"
| "freewalk_entries rec pagetable (i # is) s =
     (let slot = pagetable + 8 * of_nat i; pte = read64 (mem s) slot in
      if pte AND PTE_V \<noteq> 0 \<and> pte AND (PTE_R OR PTE_W OR PTE_X) = 0
      then bindr (rec (PTE2PA pte) s) (\<lambda>s1.
        freewalk_entries rec pagetable is (s1\<lparr>mem := write64 (mem s1) slot 0\<rparr>))
      else if pte AND PTE_V \<noteq> 0 then Inl (Panic ''freewalk: leaf'')
      else freewalk_entries rec pagetable is s)"

primrec freewalk :: "nat \<Rightarrow> u64 \<Rightarrow> 'a kpages_scheme \<Rightarrow> 'a kpages_scheme result" where
  "freewalk 0 pagetable s = Inl (Stuck ''freewalk'')"
| "freewalk (Suc fuel) pagetable s =
     bindr (freewalk_entries (freewalk fuel) pagetable [0..<512] s) (\<lambda>s1. ma_free pagetable s1)"

function userUnmap_loop ::
  "u64 \<Rightarrow> u64 \<Rightarrow> u64 \<Rightarrow> bool \<Rightarrow> 'a kpages_scheme \<Rightarrow> 'a kpages_scheme result" where
  "userUnmap_loop pagetable a limit do_free s =
     (if a < limit then
        bindr (walk pagetable a False s) (\<lambda>(pte, s0).
          if pte = 0 then userUnmap_loop pagetable (a + PGSIZE) limit do_free s0
          else if read64 (mem s0) pte AND PTE_V = 0
          then userUnmap_loop pagetable (a + PGSIZE) limit do_free s0
          else if PTE_FLAGS (read64 (mem s0) pte) = PTE_V
          then Inl (Panic ''uvmunmap: not a leaf'')
          else bindr (if do_free then ma_free (PTE2PA (read64 (mem s0) pte)) s0 else Inr s0)
            (\<lambda>s1. userUnmap_loop pagetable (a + PGSIZE) limit do_free
                    (s1\<lparr>mem := write64 (mem s1) pte 0\<rparr>)))
      else Inr s)"
  by pat_completeness auto
termination
  by (relation "measure (\<lambda>(pt, a, limit, d, s). va_left a)")
     (auto intro!: next_page_measure walk_below)

declare userUnmap_loop.simps [simp del]

definition userUnmap ::
  "u64 \<Rightarrow> u64 \<Rightarrow> u64 \<Rightarrow> bool \<Rightarrow> 'a kpages_scheme \<Rightarrow> 'a kpages_scheme result" where
  "userUnmap pagetable va npages do_free s =
     (if va mod PGSIZE \<noteq> 0 then Inl (Panic ''uvmunmap: not aligned'')
      else userUnmap_loop pagetable va (va + npages * PGSIZE) do_free s)"

definition FreeUserPageTable ::
  "nat \<Rightarrow> u64 \<Rightarrow> u64 \<Rightarrow> 'a kpages_scheme \<Rightarrow> 'a kpages_scheme result" where
  "FreeUserPageTable fuel pagetable sz s =
     bindr (if sz > 0 then userUnmap pagetable 0 (PGROUNDUP sz div PGSIZE) True s else Inr s)
       (freewalk fuel pagetable)"

text \<open>\<^verbatim>\<open>npages\<close> is a C \<^verbatim>\<open>int\<close>, widened again in the call of \<^verbatim>\<open>userUnmap\<close>.\<close>

definition userDealloc ::
  "u64 \<Rightarrow> u64 \<Rightarrow> u64 \<Rightarrow> 'a kpages_scheme \<Rightarrow> (u64 \<times> 'a kpages_scheme) result" where
  "userDealloc pagetable oldsz newsz s =
     (if newsz \<ge> oldsz then Inr (oldsz, s)
      else if PGROUNDUP newsz < PGROUNDUP oldsz then
        let npages = (ucast ((PGROUNDUP oldsz - PGROUNDUP newsz) div PGSIZE) :: u32)
        in bindr (userUnmap pagetable (PGROUNDUP newsz) (scast npages) True s)
             (\<lambda>s1. Inr (newsz, s1))
      else Inr (newsz, s))"

section \<open>Growing user memory\<close>

lemma mappages_loop_below: "mappages_loop pt a lst pa perm s = Inr r \<Longrightarrow> a < MAXVA"
  by (subst (asm) mappages_loop.simps) (auto intro: walk_below)

lemma mappages_below:
  "mappages pt a sz pa perm s = Inr r \<Longrightarrow> PGROUNDDOWN a < MAXVA"
  by (auto simp: mappages_def intro: mappages_loop_below)

lemma PGROUNDDOWN_below: "PGROUNDDOWN a < MAXVA \<Longrightarrow> a < MAXVA"
proof -
  assume "PGROUNDDOWN a < MAXVA"
  then have "unat a div 4096 * 4096 < 4096 * 67108864"
    by (simp add: word_less_nat_alt unat_PGROUNDDOWN MAXVA_def push_bit_eq_mult)
  then have "unat a < 67108864 * 4096" by (simp add: div_less_iff_less_mult)
  then show ?thesis by (simp add: word_less_nat_alt MAXVA_def push_bit_eq_mult)
qed

definition user_perm :: u64 where
  "user_perm = PTE_W OR PTE_X OR PTE_R OR PTE_U OR PTE_V"

function userAlloc_loop ::
  "u64 \<Rightarrow> u64 \<Rightarrow> u64 \<Rightarrow> u64 \<Rightarrow> 'a kpages_scheme \<Rightarrow> (u64 \<times> 'a kpages_scheme) result" where
  "userAlloc_loop pagetable a oldsz newsz s =
     (if a < newsz then
        (let (p, s1) = ma_alloc s in
         if p = 0 then bindr (userDealloc pagetable a oldsz s1) (\<lambda>(_, s2). Inr (0, s2))
         else
           bindr (mappages pagetable a PGSIZE p user_perm (s1\<lparr>mem := memset (mem s1) p 0 4096\<rparr>))
             (\<lambda>(r, s2).
               if r \<noteq> 0 then
                 bindr (ma_free p s2) (\<lambda>s3.
                   bindr (userDealloc pagetable a oldsz s3) (\<lambda>(_, s4). Inr (0, s4)))
               else userAlloc_loop pagetable (a + PGSIZE) oldsz newsz s2))
      else Inr (newsz, s))"
  by pat_completeness auto
termination
  by (relation "measure (\<lambda>(pt, a, oldsz, newsz, s). va_left a)")
     (auto intro!: next_page_measure PGROUNDDOWN_below mappages_below)

declare userAlloc_loop.simps [simp del]

definition userAlloc ::
  "u64 \<Rightarrow> u64 \<Rightarrow> u64 \<Rightarrow> 'a kpages_scheme \<Rightarrow> (u64 \<times> 'a kpages_scheme) result" where
  "userAlloc pagetable oldsz newsz s =
     (if newsz < oldsz then Inr (oldsz, s)
      else userAlloc_loop pagetable (PGROUNDUP oldsz) (PGROUNDUP oldsz) newsz s)"

definition userCreate :: "'a kpages_scheme \<Rightarrow> u64 \<times> 'a kpages_scheme" where
  "userCreate s =
     (let (p, s1) = ma_alloc s in
      if p = 0 then (0, s1) else (p, s1\<lparr>mem := memset (mem s1) p 0 4096\<rparr>))"

end
