(* ===== verification/PageMap.thy ===== *)
theory PageMap
  imports PageTable
begin

text \<open>
  What a page table means. \<open>pt_entry m root va\<close> is the level-0 entry that the hardware and
  \<^verbatim>\<open>walk\<close> find for \<open>va\<close>, or 0 where a level is missing: the abstract page table is this map.
  \<open>pt_wf\<close> is the invariant of the table pages. The lemmas show that \<^verbatim>\<open>walk\<close> with allocation
  keeps the map, that \<^verbatim>\<open>mappages\<close> of a page updates it at that page only, and that
  \<^verbatim>\<open>walkAddr\<close> reads it.
\<close>

section \<open>Bits of entries and indices\<close>

lemma PTE2PA_aligned [simp]: "page_aligned (PTE2PA e)"
proof -
  have "PGROUNDDOWN (PTE2PA e) = PTE2PA e"
    unfolding PGROUNDDOWN_push_drop PTE2PA_def by (intro bit_word_eqI) (auto simp: bit_simps)
  then show ?thesis using page_aligned_PGROUNDDOWN [of "PTE2PA e"] by simp
qed

lemma aligned_low_bits: "page_aligned p \<Longrightarrow> n < 12 \<Longrightarrow> \<not> bit p n"
  using PGROUNDDOWN_aligned [of p] bit_push_bit_iff [of 12 "drop_bit 12 p" n]
  by (auto simp: PGROUNDDOWN_push_drop)

lemma flag_bit: "(f :: u64) < 1024 \<Longrightarrow> bit f n \<Longrightarrow> n < 10"
proof (rule ccontr)
  assume "f < 1024" and b: "bit f n" and n: "\<not> n < 10"
  then have "drop_bit 10 f = 0"
    by (simp add: drop_bit_eq_div word_unat_eq_iff word_less_nat_alt unat_div)
  then have "\<not> bit (drop_bit 10 f) (n - 10)" by simp
  with b n show False by (simp add: bit_drop_bit_eq)
qed

lemma PTE2PA_PA2PTE:
  assumes "page_aligned p" and "f < 1024"
  shows "PTE2PA (PA2PTE p OR f) = p"
proof (rule bit_word_eqI)
  fix n assume "n < LENGTH(64)"
  then have n: "n < 64" by simp
  show "bit (PTE2PA (PA2PTE p OR f)) n = bit p n"
  proof (cases "n < 12")
    case True
    then show ?thesis
      using aligned_low_bits [OF assms(1) True] by (simp add: PTE2PA_def bit_simps)
  next
    case False
    then show ?thesis
      using n flag_bit [OF assms(2), of "10 + (n - 12)"]
      by (auto simp: PTE2PA_def PA2PTE_def bit_simps)
  qed
qed

lemma PTE_V_bit: "e AND PTE_V = 0 \<longleftrightarrow> \<not> bit e 0"
  by (auto simp: PTE_V_def and_one_eq odd_iff_mod_2_eq_one even_iff_mod_2_eq_zero bit_0)

lemma PX_less [simp]: "PX l va < 512"
proof -
  have "PX l va \<le> 511" unfolding PX_def by (rule word_and_le1)
  then show ?thesis by (simp add: word_le_nat_alt word_less_nat_alt)
qed

lemma slot_entry [simp]: "page_aligned t \<Longrightarrow> i < 512 \<Longrightarrow> slot_in_page t (t + 8 * i)"
  by (simp add: slot_in_page_def PGSIZE_def word_le_nat_alt word_less_nat_alt unat_word_ariths)

lemma slot_nonzero: "page_aligned t \<Longrightarrow> t \<noteq> 0 \<Longrightarrow> i < 512 \<Longrightarrow> t + 8 * i \<noteq> 0"
proof -
  assume t: "page_aligned t" "t \<noteq> 0" and i: "i < 512"
  have "8 * i < PGSIZE"
    using i by (simp add: PGSIZE_def word_less_nat_alt unat_word_ariths)
  from page_offset_no_wrap [OF t(1) this] show ?thesis
    using t(2) by (metis add_is_0 unat_0_iff)
qed

lemma entry_apart:
  fixes i j :: u64
  assumes "i < 512" "j < 512" "i \<noteq> j"
  shows "8 \<le> (t + 8 * i) - (t + 8 * j)"
proof -
  have u: "unat (8 * i) = 8 * unat i" "unat (8 * j) = 8 * unat j"
    using assms by (simp_all add: word_less_nat_alt unat_word_ariths)
  have "unat i < 512" "unat j < 512" "unat i \<noteq> unat j"
    using assms by (auto simp: word_less_nat_alt word_unat_eq_iff)
  then have "8 \<le> unat (8 * i - 8 * j)"
    by (simp add: unat_sub_offset word_le_nat_alt u) arith
  then show ?thesis by (simp add: word_le_nat_alt)
qed

section \<open>Tables and entries\<close>

definition pt_next :: "pmem \<Rightarrow> u64 \<Rightarrow> u64 \<Rightarrow> u64 option" where
  "pt_next m t i =
     (let e = read64 m (t + 8 * i) in if e AND PTE_V \<noteq> 0 then Some (PTE2PA e) else None)"

datatype tpath = Root | L1 u64 | L0 u64 u64

fun tpath_ok :: "tpath \<Rightarrow> bool" where
  "tpath_ok Root = True"
| "tpath_ok (L1 i) = (i < 512)"
| "tpath_ok (L0 i j) = (i < 512 \<and> j < 512)"

fun pt_tab :: "pmem \<Rightarrow> u64 \<Rightarrow> tpath \<Rightarrow> u64 option" where
  "pt_tab m root Root = Some root"
| "pt_tab m root (L1 i) = pt_next m root i"
| "pt_tab m root (L0 i j) = Option.bind (pt_next m root i) (\<lambda>t. pt_next m t j)"

definition pt_entry :: "pmem \<Rightarrow> u64 \<Rightarrow> u64 \<Rightarrow> u64" where
  "pt_entry m root va =
     (case pt_tab m root (L0 (PX 2 va) (PX 1 va)) of
        None \<Rightarrow> 0 | Some t \<Rightarrow> read64 m (t + 8 * PX 0 va))"

definition pt_wf :: "pmem \<Rightarrow> u64 \<Rightarrow> u64 set \<Rightarrow> bool" where
  "pt_wf m root F \<longleftrightarrow>
     page_aligned root \<and>
     (\<forall>P t. tpath_ok P \<longrightarrow> pt_tab m root P = Some t \<longrightarrow> t \<noteq> 0 \<and> t \<notin> F) \<and>
     (\<forall>P Q t. tpath_ok P \<longrightarrow> tpath_ok Q \<longrightarrow>
        pt_tab m root P = Some t \<longrightarrow> pt_tab m root Q = Some t \<longrightarrow> P = Q)"

lemma pt_next_aligned: "pt_next m t i = Some u \<Longrightarrow> page_aligned u"
  by (auto simp: pt_next_def Let_def split: if_splits)

lemma pt_tab_aligned: "pt_wf m root F \<Longrightarrow> pt_tab m root P = Some t \<Longrightarrow> page_aligned t"
  by (cases P) (auto simp: pt_wf_def bind_eq_Some_conv dest: pt_next_aligned)

lemma pt_wf_inj:
  "pt_wf m root F \<Longrightarrow> tpath_ok P \<Longrightarrow> tpath_ok Q \<Longrightarrow> pt_tab m root P = Some t \<Longrightarrow>
   pt_tab m root Q = Some t \<Longrightarrow> P = Q"
  unfolding pt_wf_def by blast

lemma pt_wf_fresh:
  "pt_wf m root F \<Longrightarrow> tpath_ok P \<Longrightarrow> pt_tab m root P = Some t \<Longrightarrow> t \<noteq> 0 \<and> t \<notin> F"
  unfolding pt_wf_def by blast

text \<open>Memory that agrees on the table pages has the same tables.\<close>

lemma pt_next_frame:
  "only_pages P m m' \<Longrightarrow> page_aligned t \<Longrightarrow> i < 512 \<Longrightarrow> t \<notin> P \<Longrightarrow> pt_next m' t i = pt_next m t i"
  by (simp add: pt_next_def read64_only_pages [OF _ slot_entry])

lemma pt_tab_frame:
  assumes "only_pages P m m'" and "page_aligned root" and "tpath_ok Q"
    and "\<And>R t. tpath_ok R \<Longrightarrow> pt_tab m root R = Some t \<Longrightarrow> t \<notin> P"
  shows "pt_tab m' root Q = pt_tab m root Q"
proof -
  have root: "root \<notin> P" using assms(4) [of Root] by simp
  have n1: "pt_next m' root i = pt_next m root i" if "i < 512" for i
    using pt_next_frame [OF assms(1,2) that root] .
  have n0: "pt_next m' t j = pt_next m t j" if "i < 512" "j < 512" "pt_next m root i = Some t" for i j t
    using pt_next_frame [OF assms(1) pt_next_aligned [OF that(3)] that(2)]
      assms(4) [of "L1 i"] that by simp
  show ?thesis
    using assms(3) n0 by (cases Q) (auto simp: n1 split: bind_split)
qed

lemma pt_wf_frame:
  assumes wf: "pt_wf m root F" and only: "only_pages P m m'"
    and tabs: "\<And>R t. tpath_ok R \<Longrightarrow> pt_tab m root R = Some t \<Longrightarrow> t \<notin> P" and sub: "F' \<subseteq> F"
  shows "pt_wf m' root F'"
proof -
  have "pt_tab m' root Q = pt_tab m root Q" if "tpath_ok Q" for Q
    using pt_tab_frame [OF only _ that tabs] wf by (simp add: pt_wf_def)
  with wf sub show ?thesis unfolding pt_wf_def by (metis subsetD)
qed

section \<open>Linking a new table\<close>

definition pt_tables :: "pmem \<Rightarrow> u64 \<Rightarrow> u64 set" where
  "pt_tables m root = {t. \<exists>P. tpath_ok P \<and> pt_tab m root P = Some t}"

lemma pt_tablesI: "tpath_ok P \<Longrightarrow> pt_tab m root P = Some t \<Longrightarrow> t \<in> pt_tables m root"
  by (auto simp: pt_tables_def)

fun pt_child :: "tpath \<Rightarrow> u64 \<Rightarrow> tpath" where
  "pt_child Root k = L1 k"
| "pt_child (L1 i) k = L0 i k"
| "pt_child (L0 i j) k = Root"

text \<open>
  The effect of one allocating step of \<^verbatim>\<open>walk\<close>: the free page \<open>p\<close> is zeroed and entry \<open>k\<close>
  of table \<open>t\<close>, which was not valid, is made to point to it.
\<close>

lemma link_next:
  assumes p: "page_aligned p" and t: "page_aligned t" "t \<noteq> p" and k: "k < 512"
    and m1: "only_pages {p} m m1"
    and m': "m' = write64 (fill m1 p 0 PGSIZE) (t + 8 * k) (PA2PTE p OR PTE_V)"
  shows link_only: "only_pages {p, t} m m'"
    and link_new: "pt_next m' t k = Some p"
    and link_zero: "j < 512 \<Longrightarrow> read64 m' (p + 8 * j) = 0"
    and link_same: "j < 512 \<Longrightarrow> j \<noteq> k \<Longrightarrow> pt_next m' t j = pt_next m t j"
proof -
  have f: "only_pages {p} m (fill m1 p 0 PGSIZE)"
    using only_pages_trans [OF m1 only_pages_fill_page [OF p]] by simp
  have w: "only_pages {t} (fill m1 p 0 PGSIZE) m'"
    unfolding m' using t k by (intro only_pages_write64) simp
  show "only_pages {p, t} m m'"
    using only_pages_trans [OF f w] by (simp add: insert_commute)
  have V: "(PTE_V :: u64) < 1024" "(PA2PTE p OR PTE_V) AND PTE_V \<noteq> 0"
    by (simp_all add: PTE_V_bit) (simp_all add: PTE_V_def bit_or_iff)
  then show "pt_next m' t k = Some p"
    using p by (simp add: pt_next_def m' mem_simps PTE2PA_PA2PTE)
  show "read64 m' (p + 8 * j) = 0" if "j < 512"
    using that p t read64_only_pages [OF w slot_entry [OF p that]] by (simp add: mem_simps)
  show "pt_next m' t j = pt_next m t j" if "j < 512" "j \<noteq> k"
  proof -
    have "read64 m' (t + 8 * j) = read64 (fill m1 p 0 PGSIZE) (t + 8 * j)"
      unfolding m' using that k by (intro read64_write64_diff entry_apart) auto
    also have "\<dots> = read64 m (t + 8 * j)"
      using that t by (intro read64_only_pages [OF f slot_entry]) auto
    finally show ?thesis by (simp add: pt_next_def)
  qed
qed

lemma pt_link:
  assumes wf: "pt_wf m root F" and p: "p \<in> F" "page_aligned p" "p \<noteq> 0"
    and P: "P = Root \<or> P = L1 a" "tpath_ok P" "pt_tab m root P = Some t"
    and k: "k < 512" and none: "pt_next m t k = None"
    and m1: "only_pages {p} m m1"
    and m': "m' = write64 (fill m1 p 0 PGSIZE) (t + 8 * k) (PA2PTE p OR PTE_V)"
    and Q: "tpath_ok Q"
  shows "pt_tab m' root Q = (if Q = pt_child P k then Some p else pt_tab m root Q)"
proof -
  have t: "page_aligned t" "t \<noteq> p"
    using wf p P pt_wf_fresh [OF wf P(2,3)] by (auto intro: pt_tab_aligned)
  have root: "page_aligned root" using wf by (simp add: pt_wf_def)
  note L = link_next [OF p(2) t k m1 m']
  have pz: "pt_next m' p j = None" if "j < 512" for j
    using L(3) [OF that] by (simp add: pt_next_def)
  have other: "pt_next m' u j = pt_next m u j"
    if "tpath_ok R" "pt_tab m root R = Some u" "R \<noteq> P" "j < 512" for R u j
  proof (rule pt_next_frame [OF L(1)])
    show "u \<notin> {p, t}"
      using that wf p P pt_wf_fresh [OF wf that(1,2)] pt_wf_inj [OF wf that(1) P(2) that(2)]
      by auto
    show "page_aligned u" using wf that(2) by (rule pt_tab_aligned)
  qed (use that in simp)
  consider "P = Root" "t = root" | "P = L1 a" "a < 512" "pt_next m root a = Some t"
    using P by auto
  then show ?thesis
  proof cases
    case 1
    show ?thesis
    proof (cases Q)
      case (L0 i j)
      then show ?thesis
        using 1 Q none L(2,4) pz other [of "L1 i" _ j]
        by (cases "i = k") (auto split: bind_split)
    qed (use 1 Q L(2,4) in auto)
  next
    case 2
    have r: "pt_next m' root i = pt_next m root i" if "i < 512" for i
      using other [of Root root i] 2 that by simp
    show ?thesis
    proof (cases Q)
      case (L0 i j)
      then have i: "i < 512" "j < 512" using Q by auto
      show ?thesis
      proof (cases "i = a")
        case True
        then show ?thesis
          using 2 L0 i r none L(2,4) by (cases "j = k") auto
      next
        case False
        then show ?thesis
          using 2 L0 i r other [of "L1 i" _ j] by (auto split: bind_split)
      qed
    qed (use 2 Q r in auto)
  qed
qed

lemma pt_link_wf:
  assumes wf: "pt_wf m root F" and p: "p \<in> F" "page_aligned p" "p \<noteq> 0"
    and P: "P = Root \<or> P = L1 a" "tpath_ok P" "pt_tab m root P = Some t"
    and k: "k < 512" and none: "pt_next m t k = None"
    and m1: "only_pages {p} m m1"
    and m': "m' = write64 (fill m1 p 0 PGSIZE) (t + 8 * k) (PA2PTE p OR PTE_V)"
  shows link_wf: "pt_wf m' root (F - {p})"
    and link_entry: "pt_entry m' root va = pt_entry m root va"
    and link_tables: "pt_tables m' root = insert p (pt_tables m root)"
proof -
  note tab = pt_link [OF wf p P k none m1 m']
  have fresh: "t' \<noteq> 0 \<and> t' \<noteq> p \<and> t' \<notin> F" if "tpath_ok R" "pt_tab m root R = Some t'" for R t'
    using pt_wf_fresh [OF wf that] p by auto
  have child: "tpath_ok (pt_child P k)" "pt_tab m root (pt_child P k) = None"
    using P k none by auto
  show "pt_wf m' root (F - {p})"
    unfolding pt_wf_def
  proof (intro conjI allI impI)
    show "page_aligned root" using wf by (simp add: pt_wf_def)
  next
    fix R t'
    assume "tpath_ok R" "pt_tab m' root R = Some t'"
    then show "t' \<noteq> 0" "t' \<notin> F - {p}"
      using tab [of R] fresh [of R t'] p by (auto split: if_splits)
  next
    fix R S t'
    assume R: "tpath_ok R" "pt_tab m' root R = Some t'"
      and S: "tpath_ok S" "pt_tab m' root S = Some t'"
    then show "R = S"
      using tab [of R] tab [of S] fresh [of R t'] fresh [of S t'] pt_wf_inj [OF wf, of R S t']
      by (auto split: if_splits)
  qed
  show "pt_tables m' root = insert p (pt_tables m root)"
  proof (intro set_eqI iffI)
    fix x assume "x \<in> pt_tables m' root"
    then obtain R where "tpath_ok R" "pt_tab m' root R = Some x" by (auto simp: pt_tables_def)
    then show "x \<in> insert p (pt_tables m root)"
      using tab [of R] by (auto split: if_splits intro: pt_tablesI)
  next
    fix x assume "x \<in> insert p (pt_tables m root)"
    then consider "x = p" | R where "tpath_ok R" "pt_tab m root R = Some x"
      by (auto simp: pt_tables_def)
    then show "x \<in> pt_tables m' root"
    proof cases
      case 1
      then show ?thesis using child tab [of "pt_child P k"] by (auto intro: pt_tablesI)
    next
      case 2
      then have "pt_tab m' root R = Some x" using child tab [of R] by auto
      with 2 show ?thesis by (auto intro: pt_tablesI)
    qed
  qed
  have t: "page_aligned t" "t \<noteq> p"
    using fresh [OF P(2,3)] pt_tab_aligned [OF wf P(3)] by auto
  note L = link_next [OF p(2) t k m1 m']
  let ?Q = "L0 (PX 2 va) (PX 1 va)"
  show "pt_entry m' root va = pt_entry m root va"
  proof (cases "?Q = pt_child P k")
    case True
    then have "pt_tab m' root ?Q = Some p" and "pt_tab m root ?Q = None"
      using tab [of ?Q] child by auto
    then show ?thesis by (simp add: pt_entry_def L(3))
  next
    case False
    then have eq: "pt_tab m' root ?Q = pt_tab m root ?Q" using tab [of ?Q] by simp
    have "read64 m' (u + 8 * PX 0 va) = read64 m (u + 8 * PX 0 va)"
      if u: "pt_tab m root ?Q = Some u" for u
    proof (rule read64_only_pages [OF L(1) slot_entry])
      show "page_aligned u" using wf u by (rule pt_tab_aligned)
      show "u \<notin> {p, t}"
        using fresh [OF _ u] pt_wf_inj [OF wf _ P(2) u] P by auto
    qed simp
    then show ?thesis unfolding pt_entry_def eq by (auto split: option.split)
  qed
qed

section \<open>Allocating walks keep the map\<close>

definition pt_inv :: "u64 \<Rightarrow> 'a kpages_scheme \<Rightarrow> u64 list \<Rightarrow> bool" where
  "pt_inv root s xs \<longleftrightarrow> pages_free s xs \<and> pt_wf (mem s) root (set xs)"

text \<open>
  \<open>pt_grow root s xs s' ys\<close>: the step from \<open>s\<close> with free pages \<open>xs\<close> to \<open>s'\<close> with free
  pages \<open>ys\<close> only added table pages to \<open>root\<close>.
\<close>

definition pt_grow ::
  "u64 \<Rightarrow> 'a kpages_scheme \<Rightarrow> u64 list \<Rightarrow> 'a kpages_scheme \<Rightarrow> u64 list \<Rightarrow> bool" where
  "pt_grow root s xs s' ys \<longleftrightarrow>
     pt_inv root s' ys \<and> set ys \<subseteq> set xs \<and>
     (\<forall>va. pt_entry (mem s') root va = pt_entry (mem s) root va) \<and>
     pt_tables (mem s') root = pt_tables (mem s) root \<union> (set xs - set ys) \<and>
     only_pages (pt_tables (mem s') root) (mem s) (mem s') \<and>
     kend s' = kend s \<and> total_page s' = total_page s \<and> kpages.more s' = kpages.more s"

lemma pt_grow_refl: "pt_inv root s xs \<Longrightarrow> pt_grow root s xs s xs"
  by (simp add: pt_grow_def)

lemma pt_grow_trans:
  assumes "pt_grow root s xs s1 ys" and "pt_grow root s1 ys s2 zs"
  shows "pt_grow root s xs s2 zs"
proof -
  have "only_pages (pt_tables (mem s1) root \<union> pt_tables (mem s2) root) (mem s) (mem s2)"
    using assms unfolding pt_grow_def by (blast intro: only_pages_trans)
  moreover have "pt_tables (mem s1) root \<subseteq> pt_tables (mem s2) root"
    using assms(2) unfolding pt_grow_def by blast
  ultimately have "only_pages (pt_tables (mem s2) root) (mem s) (mem s2)"
    by (simp add: Un_absorb1)
  with assms show ?thesis unfolding pt_grow_def by auto
qed

lemma walk_step_grow:
  assumes inv: "pt_inv root s xs"
    and P: "P = Root \<or> P = L1 a" "tpath_ok P" "pt_tab (mem s) root P = Some t"
  obtains q s1 ys where
    "walk_loop (Suc l) t va True s = (if q = 0 then (0, s1) else walk_loop l q va True s1)"
    and "pt_grow root s xs s1 ys"
    and "q \<noteq> 0 \<Longrightarrow> pt_tab (mem s1) root (pt_child P (PX (Suc l) va)) = Some q"
    and "xs \<noteq> [] \<Longrightarrow> q \<noteq> 0" and "length xs \<le> Suc (length ys)"
proof -
  let ?k = "PX (Suc l) va"
  let ?e = "read64 (mem s) (t + 8 * ?k)"
  have wf: "pt_wf (mem s) root (set xs)" and fr: "pages_free s xs"
    using inv by (simp_all add: pt_inv_def)
  have child: "tpath_ok (pt_child P ?k)" using P by auto
  consider (present) "?e AND PTE_V \<noteq> 0" | (full) "?e AND PTE_V = 0" "xs = []"
    | (new) p zs where "?e AND PTE_V = 0" "xs = p # zs"
    by (cases xs) auto
  then show thesis
  proof cases
    case present
    then have n: "pt_tab (mem s) root (pt_child P ?k) = Some (PTE2PA ?e)"
      using P by (auto simp: pt_next_def)
    then have "PTE2PA ?e \<noteq> 0" using pt_wf_fresh [OF wf child] by auto
    then show thesis
      using that [of "PTE2PA ?e" s xs] present n pt_grow_refl [OF inv] by simp
  next
    case full
    then show thesis
      using that [of 0 s xs] pt_grow_refl [OF inv] ma_alloc_empty [of s] fr by simp
  next
    case new
    obtain s0 where s0: "ma_alloc s = (p, s0)" "pages_free s0 zs"
      "only_pages {p} (mem s) (mem s0)" "kend s0 = kend s" "total_page s0 = total_page s"
      "kpages.more s0 = kpages.more s" "managed s p"
      using ma_alloc_page [of s p zs] fr new by auto
    have p: "p \<in> set xs" "page_aligned p" "p \<noteq> 0" "p \<notin> set zs" "0 < kend s"
      using s0 fr new by (auto simp: managed_def pages_free_def)
    let ?m = "write64 (fill (mem s0) p 0 PGSIZE) (t + 8 * ?k) (PA2PTE p OR PTE_V)"
    let ?s1 = "s0\<lparr>mem := ?m\<rparr>"
    have none: "pt_next (mem s) t ?k = None" using new by (simp add: pt_next_def)
    note L = pt_link_wf [OF wf p(1-3) P PX_less none s0(3) refl]
    have t: "page_aligned t" "t \<noteq> p" "t \<notin> set xs"
      using pt_wf_fresh [OF wf P(2,3)] pt_tab_aligned [OF wf P(3)] p by auto
    note only = link_only [OF p(2) t(1,2) PX_less s0(3) refl, of "Suc l" va]
    have only0: "only_pages {p, t} (mem s0) ?m"
      using only_pages_trans [OF only_pages_fill_page [OF p(2)]
          only_pages_write64 [OF slot_entry [OF t(1) PX_less]]] by (simp add: insert_commute)
    have "pages_free ?s1 zs"
      using pages_free_cong [OF s0(2), of "{p, t}" ?s1] only0 p t new by auto
    moreover have "set xs - {p} = set zs" using new p by auto
    ultimately have "pt_inv root ?s1 zs" using L(1) by (simp add: pt_inv_def)
    moreover have "only_pages (pt_tables ?m root) (mem s) ?m"
      using only_pages_mono [OF only] L(3) pt_tablesI [OF P(2,3)] by auto
    ultimately have "pt_grow root s xs ?s1 zs"
      using L new s0 p by (auto simp: pt_grow_def)
    moreover have "pt_tab ?m root (pt_child P ?k) = Some p"
      using pt_link [OF wf p(1-3) P PX_less none s0(3) refl child] by simp
    moreover have "walk_loop (Suc l) t va True s = walk_loop l p va True ?s1"
      using new s0 p by (simp add: memset_page)
    ultimately show thesis using that [of p ?s1 zs] p new by simp
  qed
qed

text \<open>
  \<^verbatim>\<open>walk\<close> with allocation returns the slot of the level-0 entry, or \<^verbatim>\<open>NULL\<close> when memory ran
  out; either way the map is unchanged and the invariant holds.
\<close>

lemma walk_alloc:
  assumes inv: "pt_inv root s xs" and w: "walk_loop 2 root va True s = (a, s')"
  obtains ys where "pt_grow root s xs s' ys"
    and "a \<noteq> 0 \<Longrightarrow>
      \<exists>t. pt_tab (mem s') root (L0 (PX 2 va) (PX 1 va)) = Some t \<and> a = t + 8 * PX 0 va"
    and "2 \<le> length xs \<Longrightarrow> a \<noteq> 0"
proof -
  obtain q s1 ys where
    w1: "walk_loop 2 root va True s = (if q = 0 then (0, s1) else walk_loop 1 q va True s1)"
    and g1: "pt_grow root s xs s1 ys"
    and t1: "q \<noteq> 0 \<Longrightarrow> pt_tab (mem s1) root (L1 (PX 2 va)) = Some q"
    and l1: "xs \<noteq> [] \<Longrightarrow> q \<noteq> 0" "length xs \<le> Suc (length ys)"
    by (rule walk_step_grow [OF inv, where P = Root and l = 1 and va = va])
       (auto simp: numeral_2_eq_2)
  show thesis
  proof (cases "q = 0")
    case True
    then have "xs = []" using l1 by auto
    with True show thesis using that [of ys] w w1 g1 by simp
  next
    case False
    have inv1: "pt_inv root s1 ys" using g1 by (simp add: pt_grow_def)
    obtain q0 s2 zs where
      w2: "walk_loop 1 q va True s1 = (if q0 = 0 then (0, s2) else walk_loop 0 q0 va True s2)"
      and g2: "pt_grow root s1 ys s2 zs"
      and t2: "q0 \<noteq> 0 \<Longrightarrow> pt_tab (mem s2) root (L0 (PX 2 va) (PX 1 va)) = Some q0"
      and l2: "ys \<noteq> [] \<Longrightarrow> q0 \<noteq> 0"
      by (rule walk_step_grow [OF inv1, where P = "L1 (PX 2 va)" and l = 0 and va = va and t = q])
         (use t1 False in auto)
    have nz: "q0 \<noteq> 0 \<Longrightarrow> q0 + 8 * PX 0 va \<noteq> 0"
    proof -
      assume "q0 \<noteq> 0"
      moreover have "pt_wf (mem s2) root (set zs)" using g2 by (simp add: pt_grow_def pt_inv_def)
      ultimately have "page_aligned q0" using pt_tab_aligned [OF _ t2] by blast
      then show ?thesis using \<open>q0 \<noteq> 0\<close> by (rule slot_nonzero) simp
    qed
    have g: "pt_grow root s xs s2 zs" using g1 g2 by (rule pt_grow_trans)
    show thesis
    proof (cases "q0 = 0")
      case True
      then have "length ys = 0" "a = 0" "s' = s2" using w w1 w2 False l2 by auto
      moreover have "\<not> 2 \<le> length xs" using l1(2) \<open>length ys = 0\<close> by simp
      ultimately show thesis using that [of zs] g by simp
    next
      case q0: False
      have "walk_loop 0 q0 va True s2 = (a, s')" using w w1 w2 False q0 by simp
      then have "a = q0 + 8 * PX 0 va" "s' = s2" by auto
      then show thesis using that [of zs] g t2 [OF q0] nz [OF q0] by simp
    qed
  qed
qed

section \<open>Same page, same entry\<close>

lemma bit_PX: "bit (PX l va) n \<longleftrightarrow> n < 9 \<and> bit va (12 + 9 * l + n)"
proof -
  have "PX l va = take_bit 9 (drop_bit (12 + 9 * l) va)"
    by (simp add: PX_def take_bit_eq_mask mask_eq_exp_minus_1)
  then show ?thesis by (auto simp: bit_simps)
qed

lemma below_MAXVA_bit: "va < MAXVA \<Longrightarrow> bit va n \<Longrightarrow> n < 38"
proof (rule ccontr)
  assume "va < MAXVA" and b: "bit va n" and n: "\<not> n < 38"
  then have "drop_bit 38 va = 0"
    by (simp add: drop_bit_eq_div word_unat_eq_iff word_less_nat_alt unat_div MAXVA_def
        push_bit_eq_mult)
  then have "\<not> bit (drop_bit 38 va) (n - 38)" by simp
  with b n show False by (simp add: bit_drop_bit_eq)
qed

lemma PX_eq_iff:
  assumes "va < MAXVA" and "vb < MAXVA"
  shows "PX 2 va = PX 2 vb \<and> PX 1 va = PX 1 vb \<and> PX 0 va = PX 0 vb \<longleftrightarrow>
         PGROUNDDOWN va = PGROUNDDOWN vb"
proof
  assume eq: "PX 2 va = PX 2 vb \<and> PX 1 va = PX 1 vb \<and> PX 0 va = PX 0 vb"
  show "PGROUNDDOWN va = PGROUNDDOWN vb"
  proof (rule bit_word_eqI)
    fix n assume "n < LENGTH(64)"
    have same: "bit va (12 + 9 * l + k) = bit vb (12 + 9 * l + k)" if "k < 9" "l < 3" for l k
    proof -
      have "l = 0 \<or> l = 1 \<or> l = 2" using that by auto
      then have "PX l va = PX l vb" using eq by auto
      then show ?thesis using bit_PX [of l va k] bit_PX [of l vb k] that by simp
    qed
    show "bit (PGROUNDDOWN va) n = bit (PGROUNDDOWN vb) n"
    proof (cases "12 \<le> n \<and> n < 39")
      case True
      then have n: "n = 12 + 9 * ((n - 12) div 9) + (n - 12) mod 9" by simp
      have "bit va n = bit vb n"
        using same [of "(n - 12) mod 9" "(n - 12) div 9"] True by (subst (1 2) n) auto
      then show ?thesis using True by (simp add: PGROUNDDOWN_push_drop bit_simps)
    next
      case False
      then show ?thesis
        using below_MAXVA_bit [OF assms(1), of n] below_MAXVA_bit [OF assms(2), of n]
        by (auto simp: PGROUNDDOWN_push_drop bit_simps)
    qed
  qed
next
  assume eq: "PGROUNDDOWN va = PGROUNDDOWN vb"
  have high: "bit (PGROUNDDOWN w) n = bit w n" if "12 \<le> n" "n < 64" for w n
    using that by (simp add: PGROUNDDOWN_push_drop bit_simps)
  have "bit va n = bit vb n" if "12 \<le> n" "n < 64" for n
    using high [OF that, of va] high [OF that, of vb] eq by simp
  then have "PX l va = PX l vb" if "l < 3" for l
    using that by (intro bit_word_eqI) (auto simp: bit_PX)
  then show "PX 2 va = PX 2 vb \<and> PX 1 va = PX 1 vb \<and> PX 0 va = PX 0 vb" by simp
qed

text \<open>Writing a level-0 slot changes the map at its page only and keeps the invariant.\<close>

lemma pt_set_entry:
  assumes wf: "pt_wf m root F" and t: "pt_tab m root (L0 (PX 2 va) (PX 1 va)) = Some t"
    and va: "va < MAXVA"
  shows set_entry_wf: "pt_wf (write64 m (t + 8 * PX 0 va) v) root F"
    and set_entry_map: "vb < MAXVA \<Longrightarrow> pt_entry (write64 m (t + 8 * PX 0 va) v) root vb =
          (if PGROUNDDOWN vb = PGROUNDDOWN va then v else pt_entry m root vb)"
    and set_entry_tables: "pt_tables (write64 m (t + 8 * PX 0 va) v) root = pt_tables m root"
proof -
  let ?Q = "L0 (PX 2 va) (PX 1 va)" and ?m = "write64 m (t + 8 * PX 0 va) v"
  have al: "page_aligned t" using wf t by (rule pt_tab_aligned)
  have only: "only_pages {t} m ?m" using al by (intro only_pages_write64) simp
  have other: "u \<noteq> t" if "tpath_ok R" "pt_tab m root R = Some u" "R \<noteq> ?Q" for R u
    using pt_wf_inj [OF wf that(1) _ that(2), of ?Q] t that(3) by auto
  have n1: "pt_next ?m root i = pt_next m root i" if "i < 512" for i
    using other [of Root root] wf that by (intro pt_next_frame [OF only]) (auto simp: pt_wf_def)
  have n0: "pt_next ?m u j = pt_next m u j" if "i < 512" "j < 512" "pt_next m root i = Some u" for i j u
    using other [of "L1 i" u] that pt_next_aligned [OF that(3)]
    by (intro pt_next_frame [OF only]) auto
  have tab: "pt_tab ?m root R = pt_tab m root R" if "tpath_ok R" for R
    using that n0 by (cases R) (auto simp: n1 split: bind_split)
  show "pt_wf ?m root F" using wf tab unfolding pt_wf_def by metis
  show "pt_tables ?m root = pt_tables m root" using tab by (auto simp: pt_tables_def)
  show "pt_entry ?m root vb = (if PGROUNDDOWN vb = PGROUNDDOWN va then v else pt_entry m root vb)"
    if vb: "vb < MAXVA"
  proof (cases "PX 2 vb = PX 2 va \<and> PX 1 vb = PX 1 va")
    case True
    then have "pt_tab ?m root (L0 (PX 2 vb) (PX 1 vb)) = Some t"
      and "pt_tab m root (L0 (PX 2 vb) (PX 1 vb)) = Some t"
      using tab [of ?Q] t by auto
    then show ?thesis
      using True PX_eq_iff [OF vb va] entry_apart [OF PX_less PX_less, of 0 vb 0 va t]
        entry_apart [OF PX_less PX_less, of 0 va 0 vb t]
      by (cases "PX 0 vb = PX 0 va") (auto simp: pt_entry_def mem_simps)
  next
    case False
    have "read64 ?m (u + 8 * PX 0 vb) = read64 m (u + 8 * PX 0 vb)"
      if u: "pt_tab m root (L0 (PX 2 vb) (PX 1 vb)) = Some u" for u
      using u other [OF _ u] False pt_tab_aligned [OF wf u]
      by (intro read64_only_pages [OF only slot_entry]) auto
    then show ?thesis
      using tab [of "L0 (PX 2 vb) (PX 1 vb)"] False PX_eq_iff [OF vb va]
      by (auto simp: pt_entry_def split: option.split)
  qed
qed

section \<open>Mapping and translating\<close>

lemma next_page_unat: "a < MAXVA \<Longrightarrow> unat (a + PGSIZE) = unat a + 4096"
  by (simp add: MAXVA_def PGSIZE_def word_less_nat_alt push_bit_eq_mult unat_word_ariths)

lemma page_step:
  assumes "page_aligned a" and "page_aligned q" and "a < MAXVA" and "a \<le> q"
  shows "q = a \<or> a + PGSIZE \<le> q"
proof -
  obtain i j where "unat a = 4096 * i" "unat q = 4096 * j"
    using assms(1,2) by (meson page_alignedE)
  then show ?thesis
    using assms(4) next_page_unat [OF assms(3)] by (auto simp: word_le_nat_alt word_unat_eq_iff)
qed

definition translate :: "u64 \<Rightarrow> u64" where
  "translate e = (if e AND PTE_V = 0 \<or> e AND PTE_U = 0 then 0 else PTE2PA e)"

lemma walk_noalloc:
  assumes "pt_wf (mem s) root F"
  shows "walk_loop 2 root va False s =
     (case pt_tab (mem s) root (L0 (PX 2 va) (PX 1 va)) of
        None \<Rightarrow> (0, s) | Some t \<Rightarrow> (t + 8 * PX 0 va, s))"
  by (auto simp: numeral_2_eq_2 pt_next_def Let_def split: bind_split)

lemma walkAddr_translate:
  assumes wf: "pt_wf (mem s) root F"
  shows "walkAddr root va s = Inr (if va < MAXVA then translate (pt_entry (mem s) root va) else 0)"
proof (cases "pt_tab (mem s) root (L0 (PX 2 va) (PX 1 va))")
  case None
  then show ?thesis
    using walk_noalloc [OF wf, of va] by (auto simp: walkAddr_def walk_def pt_entry_def translate_def)
next
  case (Some t)
  have "t + 8 * PX 0 va \<noteq> 0"
    using pt_tab_aligned [OF wf Some] pt_wf_fresh [OF wf _ Some] by (intro slot_nonzero) auto
  then show ?thesis
    using Some walk_noalloc [OF wf, of va]
    by (auto simp: walkAddr_def walk_def pt_entry_def translate_def)
qed

text \<open>The pages of a range, as \<^verbatim>\<open>mappages\<close> visits them.\<close>

lemma mappages_loop_map:
  assumes "mappages_loop root a lst pa perm s = Inr (0, s')" and "pt_inv root s xs"
    and "page_aligned a"
  shows "\<exists>ys. pt_inv root s' ys \<and> set ys \<subseteq> set xs \<and> a \<le> lst \<and> lst < MAXVA \<and>
    kend s' = kend s \<and> pt_tables (mem s') root \<subseteq> pt_tables (mem s) root \<union> set xs \<and>
    (\<forall>v. v < MAXVA \<longrightarrow> pt_entry (mem s') root v =
      (if a \<le> PGROUNDDOWN v \<and> PGROUNDDOWN v \<le> lst
       then PA2PTE (pa + (PGROUNDDOWN v - a)) OR perm OR PTE_V else pt_entry (mem s) root v))"
  using assms
proof (induction root a lst pa perm s arbitrary: xs rule: mappages_loop.induct)
  case (1 root a lst pa perm s)
  obtain p s1 where w: "walk root a True s = Inr (p, s1)" and p: "p \<noteq> 0"
    and inv0: "read64 (mem s1) p AND PTE_V = 0"
    and rest: "(let s2 = s1\<lparr>mem := write64 (mem s1) p (PA2PTE pa OR perm OR PTE_V)\<rparr> in
        if a = lst then Inr (0, s2)
        else mappages_loop root (a + PGSIZE) lst (pa + PGSIZE) perm s2) = Inr (0, s')"
    using "1.prems"(1) by (subst (asm) mappages_loop.simps) (auto split: if_splits)
  let ?v = "PA2PTE pa OR perm OR PTE_V"
  let ?s2 = "s1\<lparr>mem := write64 (mem s1) p ?v\<rparr>"
  have a: "a < MAXVA" using w by (rule walk_below)
  have wl: "walk_loop 2 root a True s = (p, s1)" using w by (auto simp: walk_def split: if_splits)
  obtain ys t where g: "pt_grow root s xs s1 ys"
    and t: "pt_tab (mem s1) root (L0 (PX 2 a) (PX 1 a)) = Some t" "p = t + 8 * PX 0 a"
    using walk_alloc [OF "1.prems"(2) wl] p by metis
  have wf: "pt_wf (mem s1) root (set ys)" and fr: "pages_free s1 ys" and sub: "set ys \<subseteq> set xs"
    and same: "\<And>v. pt_entry (mem s1) root v = pt_entry (mem s) root v"
    and k: "kend s1 = kend s" and T: "pt_tables (mem s1) root \<subseteq> pt_tables (mem s) root \<union> set xs"
    using g by (auto simp: pt_grow_def pt_inv_def)
  note S = pt_set_entry [OF wf t(1) a, where v = ?v]
  have al: "page_aligned t" "t \<notin> set ys"
    using pt_tab_aligned [OF wf t(1)] pt_wf_fresh [OF wf _ t(1)] by auto
  have "pages_free ?s2 ys"
    using al by (intro pages_free_cong [OF fr, of "{t}"]) (auto simp: t intro!: only_pages_write64)
  then have inv2: "pt_inv root ?s2 ys" using S(1) by (simp add: pt_inv_def t)
  have T2: "pt_tables (mem ?s2) root \<subseteq> pt_tables (mem s) root \<union> set xs" using S(3) T by (simp add: t)
  have ent: "pt_entry (mem ?s2) root v = (if PGROUNDDOWN v = a then ?v else pt_entry (mem s) root v)"
    if "v < MAXVA" for v
    using S(2) [OF that] same PGROUNDDOWN_aligned [OF "1.prems"(3)] by (simp add: t)
  show ?case
  proof (cases "a = lst")
    case True
    then have "s' = ?s2" using rest by simp
    then show ?thesis using inv2 sub ent True a k T2 by (intro exI [of _ ys]) auto
  next
    case False
    have nx: "page_aligned (a + PGSIZE)"
      using page_aligned_unat "1.prems"(3) next_page_unat [OF a] by simp
    have r: "mappages_loop root (a + PGSIZE) lst (pa + PGSIZE) perm ?s2 = Inr (0, s')"
      using rest False by simp
    obtain zs where zs: "pt_inv root s' zs" "set zs \<subseteq> set ys" "a + PGSIZE \<le> lst" "lst < MAXVA"
        "kend s' = kend s" "pt_tables (mem s') root \<subseteq> pt_tables (mem ?s2) root \<union> set ys"
      and e2: "\<And>v. v < MAXVA \<Longrightarrow> pt_entry (mem s') root v =
        (if a + PGSIZE \<le> PGROUNDDOWN v \<and> PGROUNDDOWN v \<le> lst
         then PA2PTE (pa + PGSIZE + (PGROUNDDOWN v - (a + PGSIZE))) OR perm OR PTE_V
         else pt_entry (mem ?s2) root v)"
      using "1.IH" [OF w refl p _ refl False r inv2 nx] inv0 k by auto
    have lt: "a < a + PGSIZE" using next_page_unat [OF a] by (simp add: word_less_nat_alt)
    have split: "a \<le> PGROUNDDOWN v \<longleftrightarrow> PGROUNDDOWN v = a \<or> a + PGSIZE \<le> PGROUNDDOWN v" for v
      using page_step [OF "1.prems"(3) page_aligned_PGROUNDDOWN a, of v] lt by auto
    show ?thesis
      using zs sub e2 ent lt T2
      by (intro exI [of _ zs]) (auto simp: split algebra_simps)
  qed
qed

end
