(* ===== verification/UserPages.thy ===== *)
theory UserPages
  imports PageMap
begin

text \<open>
  What \<^verbatim>\<open>mappages\<close>, \<^verbatim>\<open>userUnmap\<close> and \<^verbatim>\<open>walkAddr\<close> of
  \<^verbatim>\<open>src/kernel/memory/VmManager.cpp\<close> do to the abstract map \<open>pt_entry\<close> of a page table:
  mapping a range, refusing to map twice, removing a range and giving its frames back to the
  page allocator.
\<close>

section \<open>Changing one entry\<close>

lemma pt_entry_frame:
  assumes wf: "pt_wf m root F" and only: "only_pages P m m'" and P: "pt_tables m root \<inter> P = {}"
  shows "pt_entry m' root v = pt_entry m root v" and "pt_tables m' root = pt_tables m root"
    and "pt_wf m' root F"
proof -
  have out: "t \<notin> P" if "tpath_ok R" "pt_tab m root R = Some t" for R t
    using pt_tablesI [OF that] P by blast
  have tab: "pt_tab m' root Q = pt_tab m root Q" if "tpath_ok Q" for Q
    using pt_tab_frame [OF only _ that out] wf by (simp add: pt_wf_def)
  show "pt_tables m' root = pt_tables m root" using tab by (auto simp: pt_tables_def)
  show "pt_wf m' root F" using pt_wf_frame [OF wf only out] by simp
  have Q: "tpath_ok (L0 (PX 2 v) (PX 1 v))" by (simp add: PX_less)
  have "read64 m' (t + 8 * PX 0 v) = read64 m (t + 8 * PX 0 v)"
    if t: "pt_tab m root (L0 (PX 2 v) (PX 1 v)) = Some t" for t
    using read64_only_pages [OF only slot_entry [OF pt_tab_aligned [OF wf t] PX_less]] out [OF Q t]
    by simp
  then show "pt_entry m' root v = pt_entry m root v"
    unfolding pt_entry_def tab [OF Q] by (auto split: option.split)
qed

lemma set_entry_inv:
  assumes inv: "pt_inv root s xs" and va: "va < MAXVA"
    and t: "pt_tab (mem s) root (L0 (PX 2 va) (PX 1 va)) = Some t"
    and s': "s' = s\<lparr>mem := write64 (mem s) (t + 8 * PX 0 va) v\<rparr>"
  shows "pt_inv root s' xs" and "pt_tables (mem s') root = pt_tables (mem s) root"
    and "vb < MAXVA \<Longrightarrow> pt_entry (mem s') root vb =
      (if PGROUNDDOWN vb = PGROUNDDOWN va then v else pt_entry (mem s) root vb)"
proof -
  have wf: "pt_wf (mem s) root (set xs)" and fr: "pages_free s xs"
    using inv by (auto simp: pt_inv_def)
  note S = pt_set_entry [OF wf t va, where v = v]
  have "page_aligned t" "t \<notin> set xs"
    using pt_tab_aligned [OF wf t] pt_wf_fresh [OF wf _ t] by (auto simp: PX_less)
  then have "pages_free s' xs"
    by (intro pages_free_cong [OF fr, of "{t}"]) (auto simp: s' intro!: only_pages_write64)
  then show "pt_inv root s' xs" using S(1) by (simp add: pt_inv_def s')
  show "pt_tables (mem s') root = pt_tables (mem s) root" using S(3) by (simp add: s')
  show "vb < MAXVA \<Longrightarrow> pt_entry (mem s') root vb =
      (if PGROUNDDOWN vb = PGROUNDDOWN va then v else pt_entry (mem s) root vb)"
    using S(2) by (simp add: s')
qed

lemma release_page:
  assumes inv: "pt_inv root s xs" and p: "managed s p" "p \<notin> set xs" "p \<notin> pt_tables (mem s) root"
  obtains s1 where "ma_free p s = Inr s1" and "pt_inv root s1 (p # xs)"
    and "pt_tables (mem s1) root = pt_tables (mem s) root"
    and "\<And>v. pt_entry (mem s1) root v = pt_entry (mem s) root v" 
    and "\<And>q. pt_tab (mem s1) root q = pt_tab (mem s) root q \<or> \<not> tpath_ok q" and "kend s1 = kend s"
proof -
  have wf: "pt_wf (mem s) root (set xs)" and fr: "pages_free s xs"
    using inv by (auto simp: pt_inv_def)
  obtain s1 where s1: "ma_free p s = Inr s1" "pages_free s1 (p # xs)"
    "only_pages {p} (mem s) (mem s1)" "kend s1 = kend s"
    using ma_free_page [OF fr p(1,2)] by blast
  have dis: "pt_tables (mem s) root \<inter> {p} = {}" using p by blast
  note E = pt_entry_frame [OF wf s1(3) dis]
  have "pt_wf (mem s1) root (set (p # xs))"
    using E(2,3) p(3) unfolding pt_wf_def pt_tables_def by auto
  then have "pt_inv root s1 (p # xs)" using s1 by (simp add: pt_inv_def)
  moreover have "pt_tab (mem s1) root q = pt_tab (mem s) root q \<or> \<not> tpath_ok q" for q
    using pt_tab_frame [OF s1(3), of root q] wf dis by (auto simp: pt_wf_def pt_tables_def)
  ultimately show thesis using that [of s1] s1 E(1,2) by blast
qed

section \<open>Removing a range\<close>

text \<open>
  The frames a range \<open>[a, b)\<close> maps, and the condition under which they may be given back:
  each is a managed page of its own, outside the free list and the tables.
\<close>

definition maps_page :: "pmem \<Rightarrow> u64 \<Rightarrow> u64 \<Rightarrow> u64 \<Rightarrow> u64 \<Rightarrow> bool" where
  "maps_page m root a b v \<longleftrightarrow>
     page_aligned v \<and> a \<le> v \<and> v < b \<and> pt_entry m root v AND PTE_V \<noteq> 0"

definition range_frames :: "pmem \<Rightarrow> u64 \<Rightarrow> u64 \<Rightarrow> u64 \<Rightarrow> u64 set" where
  "range_frames m root a b = {PTE2PA (pt_entry m root v) |v. maps_page m root a b v}"

definition owns_range :: "u64 \<Rightarrow> 'a kpages_scheme \<Rightarrow> u64 list \<Rightarrow> u64 \<Rightarrow> u64 \<Rightarrow> bool" where
  "owns_range root s xs a b \<longleftrightarrow>
     (\<forall>v. maps_page (mem s) root a b v \<longrightarrow>
        PTE_FLAGS (pt_entry (mem s) root v) \<noteq> PTE_V \<and>
        managed s (PTE2PA (pt_entry (mem s) root v)) \<and>
        PTE2PA (pt_entry (mem s) root v) \<notin> set xs \<union> pt_tables (mem s) root) \<and>
     (\<forall>v w. maps_page (mem s) root a b v \<longrightarrow> maps_page (mem s) root a b w \<longrightarrow>
        PTE2PA (pt_entry (mem s) root v) = PTE2PA (pt_entry (mem s) root w) \<longrightarrow> v = w)"

lemma maps_page_step:
  assumes "page_aligned a" and "a < MAXVA"
  shows "maps_page m root a b v \<longleftrightarrow>
    (v = a \<and> a < b \<and> pt_entry m root a AND PTE_V \<noteq> 0) \<or> maps_page m root (a + PGSIZE) b v"
proof -
  have "a < a + PGSIZE" using next_page_unat [OF assms(2)] by (simp add: word_less_nat_alt)
  then show ?thesis
    using page_step [OF assms(1) _ assms(2), of v] assms(1) by (auto simp: maps_page_def)
qed

lemma range_frames_step:
  assumes "page_aligned a" and "a < MAXVA" and "a < b"
  shows "range_frames m root a b =
    (if pt_entry m root a AND PTE_V \<noteq> 0 then {PTE2PA (pt_entry m root a)} else {}) \<union>
    range_frames m root (a + PGSIZE) b"
  using assms(3) maps_page_step [OF assms(1,2)] by (auto simp: range_frames_def)

lemma range_frames_cong:
  "(\<And>v. v < b \<Longrightarrow> a \<le> v \<Longrightarrow> page_aligned v \<Longrightarrow> pt_entry m' root v = pt_entry m root v) \<Longrightarrow>
   range_frames m' root a b = range_frames m root a b"
  unfolding range_frames_def maps_page_def by (metis (no_types, lifting))

lemma next_aligned: "page_aligned a \<Longrightarrow> a < MAXVA \<Longrightarrow> page_aligned (a + PGSIZE)"
  using page_aligned_unat next_page_unat [of a] by simp

lemma walk_entry:
  assumes wf: "pt_wf (mem s) root F" and a: "a < MAXVA"
  obtains "walk root a False s = Inr (0, s)" and "pt_entry (mem s) root a = 0"
  | t where "pt_tab (mem s) root (L0 (PX 2 a) (PX 1 a)) = Some t"
      and "walk root a False s = Inr (t + 8 * PX 0 a, s)" and "t + 8 * PX 0 a \<noteq> 0"
      and "read64 (mem s) (t + 8 * PX 0 a) = pt_entry (mem s) root a"
proof (cases "pt_tab (mem s) root (L0 (PX 2 a) (PX 1 a))")
  case None
  then show thesis using that(1) walk_noalloc [OF wf, of a] a
    by (auto simp: walk_def pt_entry_def)
next
  case (Some t)
  have "t + 8 * PX 0 a \<noteq> 0"
    using pt_tab_aligned [OF wf Some] pt_wf_fresh [OF wf _ Some]
    by (intro slot_nonzero) (auto simp: PX_less)
  then show thesis using that(2) [OF Some] Some walk_noalloc [OF wf, of a] a
    by (auto simp: walk_def pt_entry_def)
qed

definition cleared :: "pmem \<Rightarrow> u64 \<Rightarrow> u64 \<Rightarrow> u64 \<Rightarrow> u64 \<Rightarrow> u64" where
  "cleared m root a b v =
     (if maps_page m root a b (PGROUNDDOWN v) then 0 else pt_entry m root v)"

lemma unmap_page:
  assumes inv: "pt_inv root s xs" and a: "page_aligned a" "a < MAXVA" "a < b"
    and own: "owns_range root s xs a b" and V: "pt_entry (mem s) root a AND PTE_V \<noteq> 0"
  obtains s1 pte where "walk root a False s = Inr (pte, s)" and "pte \<noteq> 0"
    and "read64 (mem s) pte = pt_entry (mem s) root a"
    and "ma_free (PTE2PA (pt_entry (mem s) root a)) s = Inr s1"
    and "pt_inv root (s1\<lparr>mem := write64 (mem s1) pte 0\<rparr>) (PTE2PA (pt_entry (mem s) root a) # xs)"
    and "pt_tables (write64 (mem s1) pte 0) root = pt_tables (mem s) root"
    and "\<And>v. v < MAXVA \<Longrightarrow> pt_entry (write64 (mem s1) pte 0) root v =
       (if PGROUNDDOWN v = a then 0 else pt_entry (mem s) root v)"
    and "kend s1 = kend s"
proof -
  let ?p = "PTE2PA (pt_entry (mem s) root a)"
  have wf: "pt_wf (mem s) root (set xs)" using inv by (simp add: pt_inv_def)
  have "maps_page (mem s) root a b a" using a V by (simp add: maps_page_def)
  then have p: "managed s ?p" "?p \<notin> set xs" "?p \<notin> pt_tables (mem s) root"
    using own unfolding owns_range_def by blast+
  obtain s1 where s1: "ma_free ?p s = Inr s1" "pt_inv root s1 (?p # xs)"
    "pt_tables (mem s1) root = pt_tables (mem s) root"
    "\<And>v. pt_entry (mem s1) root v = pt_entry (mem s) root v"
    "\<And>q. pt_tab (mem s1) root q = pt_tab (mem s) root q \<or> \<not> tpath_ok q" "kend s1 = kend s"
    using release_page [OF inv p] by metis
  have "\<exists>t. pt_tab (mem s) root (L0 (PX 2 a) (PX 1 a)) = Some t \<and>
    walk root a False s = Inr (t + 8 * PX 0 a, s) \<and> t + 8 * PX 0 a \<noteq> 0 \<and>
    read64 (mem s) (t + 8 * PX 0 a) = pt_entry (mem s) root a"
    by (cases rule: walk_entry [OF wf a(2)]) (use V in simp_all)
  then obtain t where t: "pt_tab (mem s) root (L0 (PX 2 a) (PX 1 a)) = Some t"
    "walk root a False s = Inr (t + 8 * PX 0 a, s)" "t + 8 * PX 0 a \<noteq> 0"
    "read64 (mem s) (t + 8 * PX 0 a) = pt_entry (mem s) root a" by blast
  have "pt_tab (mem s1) root (L0 (PX 2 a) (PX 1 a)) = Some t"
    using s1(5) [of "L0 (PX 2 a) (PX 1 a)"] t(1) by (simp add: PX_less)
  note S = set_entry_inv [OF s1(2) a(2) this refl, where v = 0]
  show thesis
    using that [OF t(2-4) s1(1)] S s1(3,4,6) PGROUNDDOWN_aligned [OF a(1)] by simp
qed

lemma owns_range_next:
  assumes own: "owns_range root s xs a b" and al: "page_aligned a" and a: "a < MAXVA" "a < b"
    and V: "pt_entry (mem s) root a AND PTE_V \<noteq> 0"
    and ent: "\<And>v. a + PGSIZE \<le> v \<Longrightarrow> v < b \<Longrightarrow> page_aligned v \<Longrightarrow>
      pt_entry (mem s2) root v = pt_entry (mem s) root v"
    and T: "pt_tables (mem s2) root = pt_tables (mem s) root" and k: "kend s2 = kend s"
  shows "owns_range root s2 (PTE2PA (pt_entry (mem s) root a) # xs) (a + PGSIZE) b"
proof -
  let ?p = "PTE2PA (pt_entry (mem s) root a)"
  have lt: "a < a + PGSIZE" using next_page_unat [OF a(1)] by (simp add: word_less_nat_alt)
  have mp: "maps_page (mem s2) root (a + PGSIZE) b v = maps_page (mem s) root (a + PGSIZE) b v"
    for v using ent [of v] unfolding maps_page_def by auto
  have old: "maps_page (mem s) root a b v" "v \<noteq> a"
    and keep: "pt_entry (mem s2) root v = pt_entry (mem s) root v"
    if "maps_page (mem s) root (a + PGSIZE) b v" for v
    using that maps_page_step [OF al a(1)] lt ent [of v] by (auto simp: maps_page_def)
  have self: "maps_page (mem s) root a b a" using al a V by (simp add: maps_page_def)
  have man: "managed s2 q = managed s q" for q by (simp add: managed_def k)
  show ?thesis
    unfolding owns_range_def mp
  proof (intro conjI allI impI)
    fix v assume v: "maps_page (mem s) root (a + PGSIZE) b v"
    then have "PTE2PA (pt_entry (mem s) root v) \<noteq> ?p"
      using own self old unfolding owns_range_def by blast
    then show "PTE_FLAGS (pt_entry (mem s2) root v) \<noteq> PTE_V"
      "managed s2 (PTE2PA (pt_entry (mem s2) root v))"
      "PTE2PA (pt_entry (mem s2) root v) \<notin> set (?p # xs) \<union> pt_tables (mem s2) root"
      using own old [OF v] T unfolding keep [OF v] owns_range_def man by auto
  next
    fix v w assume vw: "maps_page (mem s) root (a + PGSIZE) b v"
      "maps_page (mem s) root (a + PGSIZE) b w"
      "PTE2PA (pt_entry (mem s2) root v) = PTE2PA (pt_entry (mem s2) root w)"
    then show "v = w"
      using own old unfolding keep [OF vw(1)] keep [OF vw(2)] owns_range_def by blast
  qed
qed

lemma userUnmap_loop_frees:
  assumes "pt_inv root s xs" and "page_aligned a" and "b \<le> MAXVA" and "owns_range root s xs a b"
  shows "\<exists>s' ys. userUnmap_loop root a b True s = Inr s' \<and> pt_inv root s' (ys @ xs) \<and>
    set ys = range_frames (mem s) root a b \<and>
    pt_tables (mem s') root = pt_tables (mem s) root \<and>
    (\<forall>v < MAXVA. pt_entry (mem s') root v = cleared (mem s) root a b v)"
  using assms
proof (induction "va_left a" arbitrary: a s xs rule: less_induct)
  case less
  note inv = less.prems(1) and al = less.prems(2) and b = less.prems(3) and own = less.prems(4)
  have wf: "pt_wf (mem s) root (set xs)" using inv by (simp add: pt_inv_def)
  show ?case
  proof (cases "a < b")
    case False
    then have "\<not> maps_page (mem s) root a b v" for v by (auto simp: maps_page_def)
    then show ?thesis using False inv
      by (intro exI [of _ s] exI [of _ "[]"])
         (simp add: userUnmap_loop.simps [of root a] range_frames_def cleared_def)
  next
    case True
    then have a: "a < MAXVA" using b by simp
    let ?e = "pt_entry (mem s) root a"
    note IH = less.hyps [OF next_page_measure [OF a] _ next_aligned [OF al a] b]
    note step = maps_page_step [OF al a]
    show ?thesis
    proof (cases "?e AND PTE_V = 0")
      case inval: True
      have "owns_range root s xs (a + PGSIZE) b"
        using own unfolding owns_range_def step [of _ _ b] by blast
      then obtain s' ys where r: "userUnmap_loop root (a + PGSIZE) b True s = Inr s'"
        "pt_inv root s' (ys @ xs)" "set ys = range_frames (mem s) root (a + PGSIZE) b"
        "pt_tables (mem s') root = pt_tables (mem s) root"
        "\<forall>v < MAXVA. pt_entry (mem s') root v = cleared (mem s) root (a + PGSIZE) b v"
        using IH [OF inv] by blast
      have "userUnmap_loop root a b True s = userUnmap_loop root (a + PGSIZE) b True s"
        using True inval
        by (subst userUnmap_loop.simps, cases rule: walk_entry [OF wf a]) simp_all
      then show ?thesis
        using r range_frames_step [OF al a True] inval
        by (intro exI [of _ s'] exI [of _ ys]) (auto simp: cleared_def step)
    next
      case V: False
      let ?p = "PTE2PA ?e"
      obtain s1 pte where s1: "walk root a False s = Inr (pte, s)" "pte \<noteq> 0"
        "read64 (mem s) pte = ?e" "ma_free ?p s = Inr s1"
        and i2: "pt_inv root (s1\<lparr>mem := write64 (mem s1) pte 0\<rparr>) (?p # xs)"
        and T: "pt_tables (write64 (mem s1) pte 0) root = pt_tables (mem s) root"
        and ent: "\<And>v. v < MAXVA \<Longrightarrow> pt_entry (write64 (mem s1) pte 0) root v =
           (if PGROUNDDOWN v = a then 0 else pt_entry (mem s) root v)"
        and k: "kend s1 = kend s"
        using unmap_page [OF inv al a True own V] by metis
      let ?s2 = "s1\<lparr>mem := write64 (mem s1) pte 0\<rparr>"
      have lt: "a < a + PGSIZE" using next_page_unat [OF a] by (simp add: word_less_nat_alt)
      have ent': "pt_entry (mem ?s2) root v = pt_entry (mem s) root v"
        if "a + PGSIZE \<le> v" "v < b" "page_aligned v" for v
        using ent [of v] that b lt PGROUNDDOWN_aligned [OF that(3)] by auto
      have mp: "maps_page (mem ?s2) root (a + PGSIZE) b v = maps_page (mem s) root (a + PGSIZE) b v"
        for v using ent' [of v] unfolding maps_page_def by auto
      have self: "maps_page (mem s) root a b a" using al True V by (simp add: maps_page_def)
      have own2: "owns_range root ?s2 (?p # xs) (a + PGSIZE) b"
        using owns_range_next [OF own al a True V, of ?s2] ent' T k by simp
      obtain s' ys where r: "userUnmap_loop root (a + PGSIZE) b True ?s2 = Inr s'"
        "pt_inv root s' (ys @ ?p # xs)" "set ys = range_frames (mem ?s2) root (a + PGSIZE) b"
        "pt_tables (mem s') root = pt_tables (mem ?s2) root"
        "\<forall>v < MAXVA. pt_entry (mem s') root v = cleared (mem ?s2) root (a + PGSIZE) b v"
        using IH [OF i2 own2] by blast
      have nl: "PTE_FLAGS ?e \<noteq> PTE_V" using own self by (auto simp: owns_range_def)
      have "userUnmap_loop root a b True s = Inr s'"
        using True s1 V nl r(1) by (subst userUnmap_loop.simps) simp
      moreover have "range_frames (mem ?s2) root (a + PGSIZE) b = range_frames (mem s) root (a + PGSIZE) b"
        using ent' by (intro range_frames_cong) auto
      moreover have "cleared (mem ?s2) root (a + PGSIZE) b v = cleared (mem s) root a b v"
        if "v < MAXVA" for v
        using ent [OF that] V True unfolding cleared_def mp step by auto
      ultimately show ?thesis
        using r range_frames_step [OF al a True] V T
        by (intro exI [of _ s'] exI [of _ "ys @ [?p]"]) auto
    qed
  qed
qed

section \<open>Properties\<close>

lemma walk_present:
  assumes "pt_tab (mem s) root (L0 (PX 2 va) (PX 1 va)) = Some t"
  shows "walk_loop 2 root va True s = (t + 8 * PX 0 va, s)"
  using assms
  by (auto simp: numeral_2_eq_2 pt_next_def Let_def bind_eq_Some_conv split: if_splits)

lemma one_page: "page_aligned va \<Longrightarrow> PGROUNDDOWN (va + PGSIZE - 1) = va"
proof -
  assume "page_aligned va"
  moreover have "(4095 :: u64) < PGSIZE" by (simp add: PGSIZE_def)
  ultimately have "PGROUNDDOWN (va + 4095) = va" by (rule PGROUNDDOWN_offset)
  then show ?thesis by (simp add: PGSIZE_def add.commute)
qed

lemma map_page_succeeds:
  assumes inv: "pt_inv root s xs" and two: "2 \<le> length xs" and va: "page_aligned va" "va < MAXVA"
    and free: "pt_entry (mem s) root va AND PTE_V = 0"
  obtains s' where "mappages root va PGSIZE pa perm s = Inr (0, s')"
proof -
  obtain a s1 where w: "walk_loop 2 root va True s = (a, s1)" by fastforce
  obtain ys where g: "pt_grow root s xs s1 ys" and a: "a \<noteq> 0"
    and t: "\<exists>t. pt_tab (mem s1) root (L0 (PX 2 va) (PX 1 va)) = Some t \<and> a = t + 8 * PX 0 va"
    using walk_alloc [OF inv w] two by metis
  have "read64 (mem s1) a = pt_entry (mem s1) root va" using t by (auto simp: pt_entry_def)
  also have "\<dots> = pt_entry (mem s) root va" using g by (simp add: pt_grow_def)
  finally have "read64 (mem s1) a = pt_entry (mem s) root va" .
  then have "mappages root va PGSIZE pa perm s =
      Inr (0, s1\<lparr>mem := write64 (mem s1) a (PA2PTE pa OR perm OR PTE_V)\<rparr>)"
    using w a va free
    by (subst mappages_def, subst mappages_loop.simps)
       (simp add: one_page PGROUNDDOWN_aligned walk_def)
  then show thesis by (rule that)
qed

text \<open>
  C1: when \<^verbatim>\<open>mappages\<close> reports success, every page of the range \<open>[va, va + sz)\<close> is mapped to the
  corresponding frame counted from \<open>pa\<close> with the requested permissions, the entry of every other
  virtual address is what it was, and the page table and the free list stay well formed: any page
  taken for a new table comes off the free list.
\<close>

theorem mappages_maps:
  assumes "pt_inv root s xs" and "mappages root va sz pa perm s = Inr (0, s')"
  shows "\<exists>ys. pt_inv root s' ys \<and> set ys \<subseteq> set xs \<and>
    (\<forall>v < MAXVA. pt_entry (mem s') root v =
       (if PGROUNDDOWN va \<le> PGROUNDDOWN v \<and> PGROUNDDOWN v \<le> PGROUNDDOWN (va + sz - 1)
        then PA2PTE (pa + (PGROUNDDOWN v - PGROUNDDOWN va)) OR perm OR PTE_V
        else pt_entry (mem s) root v))"
  using mappages_loop_map [OF assms(2) [unfolded mappages_def] assms(1) page_aligned_PGROUNDDOWN]
  by auto

text \<open>
  A small machine for the concrete instances: two free pages \<^verbatim>\<open>0x80301000\<close> and
  \<^verbatim>\<open>0x80302000\<close>, an empty root table at \<^verbatim>\<open>0x80300000\<close>, everything else zero.
\<close>

definition small_machine :: kpages where
  "small_machine = \<lparr>mem = write64 (\<lambda>_. 0) 0x80301000 0x80302000, kend = 0x80020000,
     freeList = 0x80301000, npage = 2, total_page = 2\<rparr>"

lemma small_machine_free: "pages_free small_machine [0x80301000, 0x80302000]"
  by (simp add: small_machine_def pages_free_def managed_def PHYSTOP_def page_aligned_unat mem_simps read64_zero)

lemma small_machine_pt_next:
  "i < 512 \<Longrightarrow> pt_next (mem small_machine) 0x80300000 i = None"
proof -
  assume i: "i < 512"
  have "only_pages {0x80301000} (\<lambda>_. 0) (mem small_machine)"
    unfolding small_machine_def by (simp, rule only_pages_write64) (simp add: page_aligned_unat)
  from pt_next_frame [OF this _ i, of "0x80300000"] show ?thesis
    by (simp add: page_aligned_unat pt_next_def read64_zero)
qed

lemma small_machine_tab:
  "tpath_ok P \<Longrightarrow> pt_tab (mem small_machine) 0x80300000 P = Some t \<Longrightarrow> P = Root \<and> t = 0x80300000"
  by (cases P) (auto simp: small_machine_pt_next)

lemma small_machine_inv: "pt_inv 0x80300000 small_machine [0x80301000, 0x80302000]"
proof -
  note only_root = small_machine_tab
  have "pt_wf (mem small_machine) 0x80300000 {0x80301000, 0x80302000}"
    unfolding pt_wf_def
  proof (intro conjI allI impI)
    fix P t assume "tpath_ok P" "pt_tab (mem small_machine) 0x80300000 P = Some t"
    then have "t = 0x80300000" using only_root by blast
    then show "t \<noteq> 0" "t \<notin> {0x80301000, 0x80302000}" by simp_all
  next
    fix P Q t assume "tpath_ok P" "tpath_ok Q" "pt_tab (mem small_machine) 0x80300000 P = Some t"
      "pt_tab (mem small_machine) 0x80300000 Q = Some t"
    then show "P = Q" using only_root by metis
  qed (simp add: page_aligned_unat)
  then show ?thesis using small_machine_free by (simp add: pt_inv_def)
qed

lemma small_machine_entry: "pt_entry (mem small_machine) 0x80300000 va = 0"
  by (simp add: pt_entry_def small_machine_pt_next PX_less)

lemma small_machine_maps:
  obtains s' where "mappages 0x80300000 0x1000 PGSIZE 0x80303000 user_perm small_machine = Inr (0, s')"
  by (rule map_page_succeeds [OF small_machine_inv, of "0x1000" "0x80303000" user_perm])
     (simp_all add: page_aligned_unat MAXVA_def small_machine_entry)

theorem mappages_maps_witness:
  "\<exists>s' ys. pt_inv 0x80300000 s' ys \<and>
     mappages 0x80300000 0x1000 PGSIZE 0x80303000 user_perm small_machine = Inr (0, s') \<and>
     pt_entry (mem s') 0x80300000 0x1000 = PA2PTE 0x80303000 OR user_perm OR PTE_V"
proof -
  obtain s' where m: "mappages 0x80300000 0x1000 PGSIZE 0x80303000 user_perm small_machine = Inr (0, s')"
    by (rule small_machine_maps)
  have al: "page_aligned 0x1000" by (simp add: page_aligned_unat)
  obtain ys where "pt_inv 0x80300000 s' ys"
    and e: "\<forall>v < MAXVA. pt_entry (mem s') 0x80300000 v =
      (if 0x1000 \<le> PGROUNDDOWN v \<and> PGROUNDDOWN v \<le> 0x1000
       then PA2PTE (0x80303000 + (PGROUNDDOWN v - 0x1000)) OR user_perm OR PTE_V
       else pt_entry (mem small_machine) 0x80300000 v)"
    using mappages_maps [OF small_machine_inv m] unfolding PGROUNDDOWN_aligned [OF al] one_page [OF al]
    by blast
  moreover have "(0x1000 :: u64) < MAXVA" by (simp add: MAXVA_def)
  ultimately show ?thesis using m e PGROUNDDOWN_aligned [OF al] by fastforce
qed

lemma PTE_U_bit: "e AND PTE_U = 0 \<longleftrightarrow> \<not> bit e 4"
  using and_exp_eq_0_iff_not_bit [of e 4] by (simp add: PTE_U_def)

lemma translate_user:
  assumes "page_aligned p" and "perm < 1024" and "perm AND PTE_U \<noteq> 0"
  shows "translate (PA2PTE p OR perm OR PTE_V) = p"
proof -
  have "drop_bit 10 PTE_V = 0" by (simp add: PTE_V_def drop_bit_eq_div)
  then have "PTE2PA (PA2PTE p OR perm OR PTE_V) = PTE2PA (PA2PTE p OR perm)"
    by (simp add: PTE2PA_def)
  then have "PTE2PA (PA2PTE p OR perm OR PTE_V) = p" using PTE2PA_PA2PTE [OF assms(1,2)] by simp
  moreover have "(PA2PTE p OR perm OR PTE_V) AND PTE_V \<noteq> 0"
    by (simp add: PTE_V_bit) (simp add: PTE_V_def bit_or_iff)
  moreover have "(PA2PTE p OR perm OR PTE_V) AND PTE_U \<noteq> 0"
    using assms(3) unfolding PTE_U_bit by (simp add: bit_or_iff)
  ultimately show ?thesis by (simp add: translate_def or.assoc)
qed

text \<open>
  after a successful \<^verbatim>\<open>mappages\<close> with user permissions, \<^verbatim>\<open>walkAddr\<close> of any address of the
  range returns exactly the frame it was mapped to.
\<close>

lemma mappages_walkAddr:
  assumes "pt_inv root s xs" and "mappages root va sz pa perm s = Inr (0, s')"
    and "page_aligned pa" and "perm < 1024" and "perm AND PTE_U \<noteq> 0" and "v < MAXVA"
    and "PGROUNDDOWN va \<le> PGROUNDDOWN v" and "PGROUNDDOWN v \<le> PGROUNDDOWN (va + sz - 1)"
  shows "walkAddr root v s' = Inr (pa + (PGROUNDDOWN v - PGROUNDDOWN va))"
proof -
  let ?p = "pa + (PGROUNDDOWN v - PGROUNDDOWN va)"
  obtain ys where ys: "pt_inv root s' ys"
    and e: "pt_entry (mem s') root v = PA2PTE ?p OR perm OR PTE_V"
    using mappages_loop_map [OF assms(2) [unfolded mappages_def] assms(1) page_aligned_PGROUNDDOWN]
      assms(6-8) by auto
  have "page_aligned ?p" using assms(3) by (intro page_aligned_add page_aligned_diff) simp_all
  then have "translate (pt_entry (mem s') root v) = ?p"
    unfolding e using assms(4,5) by (rule translate_user)
  then show ?thesis
    using walkAddr_translate [of s' root "set ys" v] ys assms(6) by (simp add: pt_inv_def)
qed

text \<open>
  \<^verbatim>\<open>mappages\<close> never overwrites a valid entry: it panics with \<^verbatim>\<open>remap\<close>.
\<close>

lemma mappages_remap_panics:
  assumes "pt_wf (mem s) root F" and "va < MAXVA" and "pt_entry (mem s) root (PGROUNDDOWN va) AND PTE_V \<noteq> 0"
  shows "mappages root va sz pa perm s = Inl (Panic ''remap'')"
proof -
  let ?a = "PGROUNDDOWN va"
  have a: "?a < MAXVA" using assms(2) PGROUNDDOWN_le [of va] by simp
  have "\<exists>t. pt_tab (mem s) root (L0 (PX 2 ?a) (PX 1 ?a)) = Some t \<and> t + 8 * PX 0 ?a \<noteq> 0 \<and>
    read64 (mem s) (t + 8 * PX 0 ?a) = pt_entry (mem s) root ?a"
    by (cases rule: walk_entry [OF assms(1) a]) (use assms(3) in simp_all)
  then obtain t where t: "walk_loop 2 root ?a True s = (t + 8 * PX 0 ?a, s)" "t + 8 * PX 0 ?a \<noteq> 0"
    "read64 (mem s) (t + 8 * PX 0 ?a) = pt_entry (mem s) root ?a"
    using walk_present by blast
  then show ?thesis
    using assms(3) a by (subst mappages_def, subst mappages_loop.simps) (simp add: walk_def)
qed

text \<open>
  C9: \<^verbatim>\<open>userUnmap\<close> with \<^verbatim>\<open>do_free\<close> succeeds on every range below \<^verbatim>\<open>MAXVA\<close> whose frames belong to it,
  mapped or not: exactly the frames that were mapped come back onto the free list, each once,
  their entries are cleared, and every other entry and the page table stay as they were.
\<close>

theorem userUnmap_frees:
  assumes "pt_inv root s xs" and "page_aligned va" and "va + npages * PGSIZE \<le> MAXVA"
    and "owns_range root s xs va (va + npages * PGSIZE)"
  shows "\<exists>s' ys. userUnmap root va npages True s = Inr s' \<and> pt_inv root s' (ys @ xs) \<and>
    set ys = range_frames (mem s) root va (va + npages * PGSIZE) \<and>
    (\<forall>v < MAXVA. pt_entry (mem s') root v = cleared (mem s) root va (va + npages * PGSIZE) v)"
  using userUnmap_loop_frees [OF assms] assms(2) by (auto simp: userUnmap_def page_aligned_def)

lemma small_machine_owns:
  assumes m: "mappages 0x80300000 0x1000 PGSIZE 0x80303000 user_perm small_machine = Inr (0, s')"
  obtains ys where "pt_inv 0x80300000 s' ys" and "owns_range 0x80300000 s' ys 0x1000 0x2000"
    and "range_frames (mem s') 0x80300000 0x1000 0x2000 = {0x80303000}"
proof -
  have al: "page_aligned 0x1000" "page_aligned 0x80303000" by (simp_all add: page_aligned_unat)
  have va: "(0x1000 :: u64) < MAXVA" by (simp add: MAXVA_def)
  obtain ys where ys: "pt_inv 0x80300000 s' ys" "set ys \<subseteq> {0x80301000, 0x80302000}"
    and k: "kend s' = 0x80020000"
    and T: "pt_tables (mem s') 0x80300000 \<subseteq> {0x80300000, 0x80301000, 0x80302000}"
    and e: "pt_entry (mem s') 0x80300000 0x1000 = PA2PTE 0x80303000 OR user_perm OR PTE_V"
  proof -
    have "pt_tables (mem small_machine) 0x80300000 = {0x80300000}"
      unfolding pt_tables_def by (auto dest: small_machine_tab intro: exI [of _ Root])
    moreover have "kend small_machine = 0x80020000" by (simp add: small_machine_def)
    ultimately show thesis
      using mappages_loop_map [OF m [unfolded mappages_def] small_machine_inv page_aligned_PGROUNDDOWN]
        va one_page [OF al(1)] PGROUNDDOWN_aligned [OF al(1)] that by fastforce
  qed
  have V: "pt_entry (mem s') 0x80300000 0x1000 AND PTE_V \<noteq> 0"
    unfolding e by (simp add: PTE_V_bit) (simp add: PTE_V_def bit_or_iff)
  have P: "PTE2PA (pt_entry (mem s') 0x80300000 0x1000) = 0x80303000"
    using translate_user [OF al(2), of user_perm] V
    unfolding e translate_def by (simp add: user_perm_def pte_defs split: if_splits)
  have F: "PTE_FLAGS (pt_entry (mem s') 0x80300000 0x1000) \<noteq> PTE_V"
    unfolding e by (simp add: PTE_FLAGS_def PA2PTE_def user_perm_def pte_defs)
  have "maps_page (mem s') 0x80300000 0x1000 0x2000 v \<longleftrightarrow> v = 0x1000" for v
  proof -
    have "\<not> maps_page (mem s') 0x80300000 (0x1000 + PGSIZE) 0x2000 v"
      by (auto simp: maps_page_def PGSIZE_def)
    then show ?thesis using maps_page_step [OF al(1) va] V by auto
  qed
  moreover have "0x80303000 \<notin> set ys" "0x80303000 \<notin> pt_tables (mem s') 0x80300000"
    using ys(2) T by auto
  ultimately show thesis
    using that [OF ys(1)] P F k al(2)
    unfolding owns_range_def range_frames_def managed_def PHYSTOP_def by auto
qed

theorem userUnmap_frees_witness:
  "\<exists>s s' xs ys. mappages 0x80300000 0x1000 PGSIZE 0x80303000 user_perm small_machine = Inr (0, s) \<and>
     userUnmap 0x80300000 0x1000 1 True s = Inr s' \<and> pt_inv 0x80300000 s' (ys @ xs) \<and>
     set ys = {0x80303000} \<and> pages_free s xs"
proof -
  obtain s where m: "mappages 0x80300000 0x1000 PGSIZE 0x80303000 user_perm small_machine = Inr (0, s)"
    by (rule small_machine_maps)
  obtain xs where xs: "pt_inv 0x80300000 s xs" "owns_range 0x80300000 s xs 0x1000 0x2000"
    "range_frames (mem s) 0x80300000 0x1000 0x2000 = {0x80303000}"
    by (rule small_machine_owns [OF m])
  have "\<exists>s' ys. userUnmap 0x80300000 0x1000 1 True s = Inr s' \<and> pt_inv 0x80300000 s' (ys @ xs) \<and>
     set ys = {0x80303000}"
    using userUnmap_frees [OF xs(1), of "0x1000" 1] xs(2,3)
    by (auto simp: page_aligned_unat MAXVA_def PGSIZE_def)
  then show ?thesis using m xs(1) by (auto simp: pt_inv_def)
qed

end
