(* ===== verification/UserCopy.thy ===== *)
theory UserCopy
  imports UserPages
begin

text \<open>
  The rest of \<^verbatim>\<open>src/kernel/memory/VmManager.cpp\<close>: building the kernel's own page table, the first
  process image, and the copies between kernel buffers and user address spaces
  (\<^verbatim>\<open>copyin\<close>, \<^verbatim>\<open>copyinstr\<close>, \<^verbatim>\<open>copyout\<close>, \<^verbatim>\<open>userVmCopy\<close>), with \<^verbatim>\<open>CopyUserMem\<close> of
  \<^verbatim>\<open>src/kernel/os/TaskScheduler.cpp\<close>.

  A kernel buffer that is the source or the destination of such a copy is a byte list: the
  buffers are kernel variables, disjoint from the frames of user pages.
\<close>

section \<open>The kernel's page table\<close>

text \<open>The two build platforms (\<^verbatim>\<open>#ifdef K210\<close>, \<^verbatim>\<open>#ifdef QEMU\<close>).\<close>

datatype platform = K210 | QEMU

definition UART :: "platform \<Rightarrow> u64" where
  "UART pl = (case pl of QEMU \<Rightarrow> 0x10000000 | K210 \<Rightarrow> 0x38000000)"

definition VIRTIO0 :: u64 where "VIRTIO0 = 0x10001000"
definition PLIC :: u64 where "PLIC = 0x0c000000"

definition KERNBASE :: "platform \<Rightarrow> u64" where
  "KERNBASE pl = (case pl of K210 \<Rightarrow> 0x80020000 | QEMU \<Rightarrow> 0x80200000)"

text \<open>The arguments of the calls of \<^verbatim>\<open>kernel_vm_map\<close>, in order: va, pa, size, permissions.\<close>

definition kernel_maps :: "platform \<Rightarrow> u64 \<Rightarrow> u64 \<Rightarrow> (u64 \<times> u64 \<times> u64 \<times> u64) list" where
  "kernel_maps pl etext trampoline =
     [(UART pl, UART pl, PGSIZE, PTE_R OR PTE_W)] @
     (case pl of QEMU \<Rightarrow> [(VIRTIO0, VIRTIO0, PGSIZE, PTE_R OR PTE_W)] | K210 \<Rightarrow> []) @
     [(PLIC, PLIC, 0x4000, PTE_R OR PTE_W),
      (PLIC + 0x200000, PLIC + 0x200000, 0x4000, PTE_R OR PTE_W),
      (KERNBASE pl, KERNBASE pl, etext - KERNBASE pl, PTE_R OR PTE_X),
      (etext, etext, PHYSTOP - etext, PTE_R OR PTE_W),
      (TRAMPOLINE, trampoline, PGSIZE, PTE_R OR PTE_X)] @
     (case pl of QEMU \<Rightarrow> []
      | K210 \<Rightarrow> map (\<lambda>dev. (dev, dev, 0x1000, PTE_R OR PTE_W))
          [0x38001000, 0x50000000, 0x50240000, 0x502B0000, 0x52000000, 0x53000000, 0x54000000,
           0x50440000, 0x50460000])"

fun kernel_vm_map_all ::
  "u64 \<Rightarrow> (u64 \<times> u64 \<times> u64 \<times> u64) list \<Rightarrow> 'a kpages_scheme \<Rightarrow> 'a kpages_scheme result" where
  "kernel_vm_map_all root [] s = Inr s"
| "kernel_vm_map_all root ((va, pa, sz, perm) # maps) s =
     bindr (kernel_vm_map root va pa sz perm s) (kernel_vm_map_all root maps)"

definition initKernelVm ::
  "platform \<Rightarrow> u64 \<Rightarrow> u64 \<Rightarrow> 'a kpages_scheme \<Rightarrow> (u64 \<times> 'a kpages_scheme) result" where
  "initKernelVm pl etext trampoline s =
     (let (kernel_pagetable, s1) = ma_alloc s in
      if kernel_pagetable = 0 then Inl (BadAccess ''memset'')
      else bindr (kernel_vm_map_all kernel_pagetable (kernel_maps pl etext trampoline)
                    (s1\<lparr>mem := memset (mem s1) kernel_pagetable 0 4096\<rparr>))
             (\<lambda>s2. Inr (kernel_pagetable, s2)))"

section \<open>The first process\<close>

text \<open>
  \<^verbatim>\<open>UserVmInit\<close> maps two pages and copies \<open>sz\<close> bytes to the first and \<open>sz - 4096\<close> bytes to the
  second, the lengths being 32-bit.
\<close>

definition UserVmInit_page ::
  "u64 \<Rightarrow> u64 \<Rightarrow> u64 \<Rightarrow> u32 \<Rightarrow> 'a kpages_scheme \<Rightarrow> 'a kpages_scheme result" where
  "UserVmInit_page pagetable va src n s =
     (let (p, s1) = ma_alloc s in
      if p = 0 then Inl (BadAccess ''memset'')
      else bindr (mappages pagetable va PGSIZE p user_perm (s1\<lparr>mem := memset (mem s1) p 0 4096\<rparr>))
             (\<lambda>(r, s2). Inr (s2\<lparr>mem := memmove (mem s2) p src n\<rparr>)))"

definition UserVmInit :: "u64 \<Rightarrow> u64 \<Rightarrow> u32 \<Rightarrow> 'a kpages_scheme \<Rightarrow> 'a kpages_scheme result" where
  "UserVmInit pagetable src sz s =
     bindr (UserVmInit_page pagetable 0 src sz s)
       (UserVmInit_page pagetable 4096 (src + 4096) (sz - 4096))"

section \<open>Copies between kernel and user space\<close>

definition read_bytes :: "pmem \<Rightarrow> u64 \<Rightarrow> nat \<Rightarrow> u8 list" where
  "read_bytes m p n = map (\<lambda>i. m (p + of_nat i)) [0..<n]"

definition write_bytes :: "pmem \<Rightarrow> u64 \<Rightarrow> u8 list \<Rightarrow> pmem" where
  "write_bytes m p bs = (\<lambda>x. if unat (x - p) < length bs then bs ! unat (x - p) else m x)"

definition in_page_left :: "u64 \<Rightarrow> u64" where
  "in_page_left v = PGSIZE - (v - PGROUNDDOWN v)"

lemma offset_unat: "unat (v - PGROUNDDOWN v) = unat v mod 4096"
  using PGROUNDDOWN_le [of v]
  by (simp add: unat_sub_if' word_le_nat_alt page_simps minus_mod_eq_div_mult [symmetric])

lemma unat_in_page_left: "unat (in_page_left v) = 4096 - unat v mod 4096"
proof -
  define d where "d = v - PGROUNDDOWN v"
  have d: "unat d = unat v mod 4096" by (simp add: d_def offset_unat)
  then have "unat d \<le> 4096" by simp
  then have "unat (PGSIZE - d) = 4096 - unat d"
    by (simp add: PGSIZE_def unat_sub_if' word_le_nat_alt)
  then show ?thesis using d by (simp add: in_page_left_def d_def)
qed

lemma in_page_left_pos: "0 < unat (in_page_left v)"
  by (simp add: unat_in_page_left)

text \<open>\<^verbatim>\<open>copyin\<close>: the result code and the bytes put into \<^verbatim>\<open>dst\<close>.\<close>

function copyin :: "u64 \<Rightarrow> u64 \<Rightarrow> u64 \<Rightarrow> 'a kpages_scheme \<Rightarrow> (int \<times> u8 list) result" where
  "copyin pagetable vsrc len s =
     (if len = 0 then Inr (0, [])
      else bindr (walkAddr pagetable (PGROUNDDOWN vsrc) s) (\<lambda>pa0.
        if pa0 = 0 then Inr (- 1, [])
        else
          let n0 = in_page_left vsrc; n = (if n0 > len then len else n0);
              bs = read_bytes (mem s) (pa0 + (vsrc - PGROUNDDOWN vsrc)) (unat n)
          in bindr (copyin pagetable (vsrc + n) (len - n) s) (\<lambda>(r, rest). Inr (r, bs @ rest))))"
  by pat_completeness auto
termination
proof (relation "measure (\<lambda>(pt, v, len, s). unat len)")
  fix vsrc len n0 n :: u64
  assume len: "len \<noteq> 0" and n: "n0 = in_page_left vsrc" "n = (if len < n0 then len else n0)"
  then have "n \<le> len" "0 < unat n" using in_page_left_pos [of vsrc] by (auto simp: unat_gt_0)
  then show "((pt, vsrc + n, len - n, s), (pt, vsrc, len, s)) \<in> measure (\<lambda>(pt, v, len, s). unat len)"
    for pt s by (simp add: unat_sub_if' word_le_nat_alt)
qed simp

declare copyin.simps [simp del]

text \<open>\<^verbatim>\<open>copyinstr\<close>: the inner loop copies up to \<open>n\<close> bytes and stops after the NUL.\<close>

primrec copyinstr_page :: "pmem \<Rightarrow> u64 \<Rightarrow> nat \<Rightarrow> u8 list \<times> bool" where
  "copyinstr_page m p 0 = ([], False)"
| "copyinstr_page m p (Suc n) =
     (if m p = 0 then ([0], True)
      else let (bs, got_null) = copyinstr_page m (p + 1) n in (m p # bs, got_null))"

function copyinstr :: "u64 \<Rightarrow> u64 \<Rightarrow> nat \<Rightarrow> 'a kpages_scheme \<Rightarrow> (int \<times> u8 list) result" where
  "copyinstr pagetable vsrc maxsz s =
     (if maxsz = 0 then Inr (- 1, [])
      else bindr (walkAddr pagetable (PGROUNDDOWN vsrc) s) (\<lambda>pa0.
        if pa0 = 0 then Inr (- 1, [])
        else
          let n = min (unat (in_page_left vsrc)) maxsz;
              (bs, got_null) = copyinstr_page (mem s) (pa0 + (vsrc - PGROUNDDOWN vsrc)) n
          in if got_null then Inr (0, bs)
             else bindr (copyinstr pagetable (PGROUNDDOWN vsrc + PGSIZE) (maxsz - n) s)
                    (\<lambda>(r, rest). Inr (r, bs @ rest))))"
  by pat_completeness auto
termination
  by (relation "measure (\<lambda>(pt, v, n, s). n)") (auto simp: in_page_left_pos)

declare copyinstr.simps [simp del]

text \<open>\<^verbatim>\<open>copyout\<close> of the bytes \<open>src\<close> (\<^verbatim>\<open>len\<close> of them).\<close>

function copyout ::
  "u64 \<Rightarrow> u64 \<Rightarrow> u8 list \<Rightarrow> 'a kpages_scheme \<Rightarrow> (int \<times> 'a kpages_scheme) result" where
  "copyout pagetable vdst src s =
     (if src = [] then Inr (0, s)
      else bindr (walkAddr pagetable (PGROUNDDOWN vdst) s) (\<lambda>pa0.
        if pa0 = 0 then Inr (- 1, s)
        else
          let n = min (unat (in_page_left vdst)) (length src);
              m' = write_bytes (mem s) (pa0 + (vdst - PGROUNDDOWN vdst)) (take n src)
          in copyout pagetable (vdst + of_nat n) (drop n src) (s\<lparr>mem := m'\<rparr>)))"
  by pat_completeness auto
termination
  by (relation "measure (\<lambda>(pt, v, src, s). length src)") (auto simp: in_page_left_pos)

declare copyout.simps [simp del]

text \<open>
  \<^verbatim>\<open>either_copyout\<close> and \<^verbatim>\<open>either_copyin\<close> of \<^verbatim>\<open>src/kernel/os/TaskScheduler.cpp\<close>; \<open>pagetable\<close> is
  the page table of \<^verbatim>\<open>myTask()\<close>. A kernel address is used as it is.
\<close>

definition either_copyout ::
  "u64 \<Rightarrow> bool \<Rightarrow> u64 \<Rightarrow> u8 list \<Rightarrow> 'a kpages_scheme \<Rightarrow> (int \<times> 'a kpages_scheme) result" where
  "either_copyout pagetable user_dst dst src s =
     (if user_dst then copyout pagetable dst src s
      else Inr (0, s\<lparr>mem := write_bytes (mem s) dst src\<rparr>))"

definition either_copyin ::
  "u64 \<Rightarrow> bool \<Rightarrow> u64 \<Rightarrow> u64 \<Rightarrow> 'a kpages_scheme \<Rightarrow> (int \<times> u8 list) result" where
  "either_copyin pagetable user_src src len s =
     (if user_src then copyin pagetable src len s
      else Inr (0, read_bytes (mem s) src (unat len)))"

section \<open>Copying an address space\<close>

text \<open>
  \<^verbatim>\<open>userVmCopy\<close>, from page \<open>i\<close> on; \<open>i\<close> and \<open>sz\<close> are C \<^verbatim>\<open>int\<close>s, and \<^verbatim>\<open>i\<close> stays below
  \<^verbatim>\<open>sz\<close>, so it does not overflow while the loop runs.
\<close>

function userVmCopy_loop ::
  "u64 \<Rightarrow> u64 \<Rightarrow> int \<Rightarrow> int \<Rightarrow> 'a kpages_scheme \<Rightarrow> (int \<times> 'a kpages_scheme) result" where
  "userVmCopy_loop oldPg newPg i sz s =
     (if i < sz then
        bindr (walk oldPg (of_int i) False s) (\<lambda>(pte, s0).
          if pte = 0 then Inl (Panic ''userVmCopy: pte not present'')
          else if read64 (mem s0) pte AND PTE_V = 0 then userVmCopy_loop oldPg newPg (i + 4096) sz s0
          else
            let pa = PTE2PA (read64 (mem s0) pte); flags = PTE_FLAGS (read64 (mem s0) pte);
                (p, s1) = ma_alloc s0
            in if p = 0 then Inl (Panic ''userVmCopy: alloc mem fail'')
               else bindr (mappages newPg (of_int i) PGSIZE p flags
                             (s1\<lparr>mem := memmove (mem s1) p pa 4096\<rparr>)) (\<lambda>(r, s2).
                 if r < 0 then bindr (ma_free p s2) (\<lambda>_. Inl (Panic ''userVmCopy: mappages fail''))
                 else userVmCopy_loop oldPg newPg (i + 4096) sz s2))
      else Inr (0, s))"
  by pat_completeness auto
termination
  by (relation "measure (\<lambda>(o', n, i, sz, s). nat (sz - i))") auto

declare userVmCopy_loop.simps [simp del]

definition userVmCopy ::
  "u64 \<Rightarrow> u64 \<Rightarrow> int \<Rightarrow> 'a kpages_scheme \<Rightarrow> (int \<times> 'a kpages_scheme) result" where
  "userVmCopy oldPg newPg sz s = userVmCopy_loop oldPg newPg 0 sz s"

text \<open>
  \<^verbatim>\<open>CopyUserMem\<close>: the loop variable is a 32-bit \<^verbatim>\<open>int\<close> compared with the 64-bit \<^verbatim>\<open>addr + sz\<close>.
\<close>

lemma CopyUserMem_measure:
  assumes "scast (i :: u32) < MAXVA"
  shows "va_left (scast (i + 4096)) < va_left (scast i :: u64)"
proof -
  have "unat (scast i :: u64) < 2 ^ 38"
    using assms by (simp add: word_less_nat_alt MAXVA_def push_bit_eq_mult)
  then have i: "unat i < 2147483648" "unat (scast i :: u64) = unat i"
    by (auto simp: unat_scast_u32 split: if_splits)
  then have "unat (i + 4096) = unat i + 4096" by (simp add: unat_word_ariths)
  then show ?thesis using i by (auto simp: va_left_def unat_scast_u32)
qed

function CopyUserMem_loop ::
  "u64 \<Rightarrow> u64 \<Rightarrow> u32 \<Rightarrow> u64 \<Rightarrow> 'a kpages_scheme \<Rightarrow> (int \<times> 'a kpages_scheme) result" where
  "CopyUserMem_loop oldPg newPg i limit s =
     (if scast i < limit then
        bindr (walk oldPg (scast i) False s) (\<lambda>(pte, s0).
          if pte = 0 then Inl (Panic ''CopyUserMem: pte not present'')
          else if read64 (mem s0) pte AND PTE_V = 0
          then CopyUserMem_loop oldPg newPg (i + 4096) limit s0
          else
            let pa = PTE2PA (read64 (mem s0) pte); flags = PTE_FLAGS (read64 (mem s0) pte);
                (p, s1) = ma_alloc s0
            in if p = 0 then Inl (Panic ''CopyUserMem: alloc mem fail'')
               else bindr (mappages newPg (scast i) PGSIZE p flags
                             (s1\<lparr>mem := memmove (mem s1) p pa 4096\<rparr>)) (\<lambda>(r, s2).
                 if r < 0 then bindr (ma_free p s2) (\<lambda>_. Inl (Panic ''CopyUserMem: mappages fail''))
                 else CopyUserMem_loop oldPg newPg (i + 4096) limit s2))
      else Inr (0, s))"
  by pat_completeness auto
termination
  by (relation "measure (\<lambda>(o', n, i, limit, s). va_left (scast i))")
     (auto intro!: CopyUserMem_measure walk_below)

declare CopyUserMem_loop.simps [simp del]

definition CopyUserMem ::
  "u64 \<Rightarrow> u64 \<Rightarrow> u64 \<Rightarrow> u32 \<Rightarrow> 'a kpages_scheme \<Rightarrow> (int \<times> 'a kpages_scheme) result" where
  "CopyUserMem oldPg newPg addr sz s = CopyUserMem_loop oldPg newPg (ucast addr) (addr + scast sz) s"

section \<open>What the copies do\<close>

lemma pt_entry_page: "v < MAXVA \<Longrightarrow> pt_entry m root (PGROUNDDOWN v) = pt_entry m root v"
proof -
  assume v: "v < MAXVA"
  then have "PGROUNDDOWN v < MAXVA" using PGROUNDDOWN_le [of v] by simp
  then have "PX 2 (PGROUNDDOWN v) = PX 2 v" "PX 1 (PGROUNDDOWN v) = PX 1 v"
    "PX 0 (PGROUNDDOWN v) = PX 0 v"
    using PX_eq_iff [of "PGROUNDDOWN v" v] v PGROUNDDOWN_aligned [of "PGROUNDDOWN v"] by auto
  then show ?thesis by (simp only: pt_entry_def)
qed

text \<open>The frame of a user address, and the physical address behind it.\<close>

definition uframe :: "pmem \<Rightarrow> u64 \<Rightarrow> u64 \<Rightarrow> u64" where
  "uframe m root v = translate (pt_entry m root v)"

definition uaddr :: "pmem \<Rightarrow> u64 \<Rightarrow> u64 \<Rightarrow> u64" where
  "uaddr m root v = uframe m root v + (v - PGROUNDDOWN v)"

lemma walkAddr_page:
  "pt_wf (mem s) root F \<Longrightarrow> v < MAXVA \<Longrightarrow> walkAddr root (PGROUNDDOWN v) s = Inr (uframe (mem s) root v)"
  using order_le_less_trans [OF PGROUNDDOWN_le [of v], of MAXVA]
  by (simp add: walkAddr_translate pt_entry_page uframe_def)

text \<open>Inside one page the offset just grows.\<close>

lemma page_offset_less:
  assumes "i < unat (in_page_left v)"
  shows "v - PGROUNDDOWN v + of_nat i < PGSIZE"
proof -
  have "unat (v - PGROUNDDOWN v + of_nat i) = unat v mod 4096 + i"
    using assms by (simp add: unat_word_ariths offset_unat unat_in_page_left unat_of_nat_small)
  then show ?thesis
    using assms by (simp add: word_less_nat_alt PGSIZE_def unat_in_page_left)
qed

lemma same_page:
  "i < unat (in_page_left v) \<Longrightarrow> PGROUNDDOWN (v + of_nat i) = PGROUNDDOWN v"
  using PGROUNDDOWN_offset [OF page_aligned_PGROUNDDOWN [of v] page_offset_less, of i v] by simp

lemma uaddr_same_page:
  assumes "i < unat (in_page_left v)" and "v < MAXVA" and "v + of_nat i < MAXVA"
  shows "uframe m root (v + of_nat i) = uframe m root v"
    and "uaddr m root (v + of_nat i) = uaddr m root v + of_nat i"
proof -
  show f: "uframe m root (v + of_nat i) = uframe m root v"
    using pt_entry_page [OF assms(2), of m root] pt_entry_page [OF assms(3), of m root]
      same_page [OF assms(1)] by (simp add: uframe_def)
  show "uaddr m root (v + of_nat i) = uaddr m root v + of_nat i"
    using f same_page [OF assms(1)] by (simp add: uaddr_def)
qed

text \<open>
  A user range \<open>[v, v + n)\<close> that lies below \<open>MAXVA\<close> and is mapped for the user.
\<close>

definition user_range :: "pmem \<Rightarrow> u64 \<Rightarrow> u64 \<Rightarrow> nat \<Rightarrow> bool" where
  "user_range m root v n \<longleftrightarrow>
     unat v + n \<le> 2 ^ 38 \<and> (\<forall>i < n. uframe m root (v + of_nat i) \<noteq> 0)"

lemma user_range_below:
  assumes "user_range m root v n" and "i < n"
  shows "unat (v + of_nat i) = unat v + i" and "v + of_nat i < MAXVA"
proof -
  have "unat v + i < 2 ^ 38" using assms by (simp add: user_range_def)
  then show "unat (v + of_nat i) = unat v + i" by (simp add: unat_word_ariths)
  with \<open>unat v + i < 2 ^ 38\<close> show "v + of_nat i < MAXVA"
    by (simp add: MAXVA_def word_less_nat_alt push_bit_eq_mult)
qed

lemma user_range_drop:
  assumes r: "user_range m root v n" and k: "k \<le> n"
  shows "user_range m root (v + of_nat k) (n - k)"
proof -
  have "unat v + k \<le> 2 ^ 38" using assms by (simp add: user_range_def)
  then have "unat (v + of_nat k) = unat v + k" by (simp add: unat_word_ariths)
  moreover have "uframe m root (v + of_nat k + of_nat i) \<noteq> 0" if "i < n - k" for i
    using r that k unfolding user_range_def by (metis add.assoc add.commute less_diff_conv of_nat_add)
  ultimately show ?thesis using r k by (simp add: user_range_def)
qed

lemma user_range_first:
  assumes "user_range m root v n" and "0 < n"
  shows "v < MAXVA" and "uframe m root v \<noteq> 0"
proof -
  show "v < MAXVA" using user_range_below(2) [OF assms] by simp
  have "uframe m root (v + of_nat 0) \<noteq> 0" using assms unfolding user_range_def by blast
  then show "uframe m root v \<noteq> 0" by simp
qed

lemma user_range_page:
  assumes r: "user_range m root v n" and i: "i < n" "i < unat (in_page_left v)"
  shows "uaddr m root (v + of_nat i) = uframe m root v + (v - PGROUNDDOWN v) + of_nat i"
proof -
  have "v < MAXVA" using user_range_first(1) [OF r] i by simp
  from uaddr_same_page(2) [OF i(2) this user_range_below(2) [OF r i(1)], of m root]
  show ?thesis by (simp add: uaddr_def)
qed

definition user_bytes :: "pmem \<Rightarrow> u64 \<Rightarrow> u64 \<Rightarrow> nat \<Rightarrow> u8 list" where
  "user_bytes m root v n = map (\<lambda>i. m (uaddr m root (v + of_nat i))) [0..<n]"

lemma user_bytes_split:
  assumes "k \<le> n"
  shows "user_bytes m root v n = user_bytes m root v k @ user_bytes m root (v + of_nat k) (n - k)"
proof -
  have "[0..<n] = [0..<k] @ [k..<n]"
    using upt_add_eq_append [of 0 k "n - k"] assms by simp
  moreover have "[k..<n] = map (\<lambda>i. i + k) [0..<n - k]" using map_add_upt [of k "n - k"] assms by simp
  ultimately show ?thesis by (simp add: user_bytes_def comp_def add_ac)
qed

lemma copyin_bytes:
  assumes "pt_wf (mem s) root F" and "user_range (mem s) root v (unat len)"
  shows "copyin root v len s = Inr (0, user_bytes (mem s) root v (unat len))"
  using assms
proof (induction root v len s rule: copyin.induct)
  case (1 root v len s)
  show ?case
  proof (cases "len = 0")
    case True
    then show ?thesis by (simp add: copyin.simps user_bytes_def)
  next
    case False
    define n where "n = (if in_page_left v > len then len else in_page_left v)"
    have n: "n \<le> len" "unat n \<le> unat (in_page_left v)"
      by (auto simp: n_def word_le_nat_alt word_less_nat_alt)
    have pos: "0 < unat len" using False by (simp add: unat_gt_0)
    note v = user_range_first(1) [OF "1.prems"(2) pos] and f = user_range_first(2) [OF "1.prems"(2) pos]
    have w: "walkAddr root (PGROUNDDOWN v) s = Inr (uframe (mem s) root v)"
      using walkAddr_page [OF "1.prems"(1) v] .
    have chunk: "read_bytes (mem s) (uframe (mem s) root v + (v - PGROUNDDOWN v)) (unat n)
        = user_bytes (mem s) root v (unat n)"
      using user_range_page [OF "1.prems"(2)] n
      by (auto simp: read_bytes_def user_bytes_def word_le_nat_alt)
    have len: "unat (len - n) = unat len - unat n"
      using n(1) by (simp add: unat_sub_if' word_le_nat_alt)
    have "user_range (mem s) root (v + n) (unat (len - n))"
      using user_range_drop [OF "1.prems"(2), of "unat n"] n(1) by (simp add: len word_le_nat_alt)
    then have "copyin root (v + n) (len - n) s = Inr (0, user_bytes (mem s) root (v + n) (unat (len - n)))"
      using "1.IH" [OF False w f refl n_def refl "1.prems"(1)] by simp
    then show ?thesis
      using False w f chunk user_bytes_split [of "unat n" "unat len" "mem s" root v] n(1)
      by (subst copyin.simps) (simp add: Let_def n_def [symmetric] len word_le_nat_alt)
  qed
qed

lemma write_bytes_at:
  "i < length bs \<Longrightarrow> length bs \<le> 2 ^ 63 \<Longrightarrow> write_bytes m p bs (p + of_nat i) = bs ! i"
  by (simp add: write_bytes_def)

lemma write_bytes_other:
  assumes "\<And>i. i < length bs \<Longrightarrow> x \<noteq> p + of_nat i"
  shows "write_bytes m p bs x = m x"
proof (cases "unat (x - p) < length bs")
  case True
  with assms [OF True] show ?thesis by simp
qed (simp add: write_bytes_def)

lemma uframe_aligned: "uframe m root v = 0 \<or> page_aligned (uframe m root v)"
  by (simp add: uframe_def translate_def PTE2PA_aligned)

lemma uaddr_cong: "pt_entry m' root = pt_entry m root \<Longrightarrow> uaddr m' root = uaddr m root"
  and uframe_cong: "pt_entry m' root = pt_entry m root \<Longrightarrow> uframe m' root = uframe m root"
  by (auto simp: uaddr_def uframe_def fun_eq_iff)

text \<open>One round of the loop of \<^verbatim>\<open>copyout\<close>.\<close>

lemma copyout_chunk:
  assumes wf: "pt_wf m root F" and r: "user_range m root v (length bs)" and ne: "bs \<noteq> []"
    and tab: "uframe m root v \<notin> pt_tables m root"
    and n: "n = min (unat (in_page_left v)) (length bs)"
    and m': "m' = write_bytes m (uframe m root v + (v - PGROUNDDOWN v)) (take n bs)"
  shows "pt_entry m' root = pt_entry m root" and "pt_tables m' root = pt_tables m root"
    and "pt_wf m' root F"
    and "i < n \<Longrightarrow> m' (uaddr m root (v + of_nat i)) = bs ! i"
    and "(\<And>i. i < n \<Longrightarrow> x \<noteq> uaddr m root (v + of_nat i)) \<Longrightarrow> m' x = m x"
proof -
  have f: "uframe m root v \<noteq> 0" using user_range_first(2) [OF r] ne by simp
  then have al: "page_aligned (uframe m root v)" using uframe_aligned by blast
  have at: "uaddr m root (v + of_nat i) = uframe m root v + (v - PGROUNDDOWN v) + of_nat i"
    if "i < n" for i using user_range_page [OF r] that n by simp
  have n4: "n \<le> 4096" using n unat_in_page_left [of v] by simp
  show byte: "i < n \<Longrightarrow> m' (uaddr m root (v + of_nat i)) = bs ! i" for i
    using write_bytes_at [of i "take n bs"] n n4 at [of i] by (simp add: m')
  show other: "(\<And>i. i < n \<Longrightarrow> x \<noteq> uaddr m root (v + of_nat i)) \<Longrightarrow> m' x = m x" for x
    unfolding m' using n at by (intro write_bytes_other) auto
  have "only_pages {uframe m root v} m m'"
    unfolding only_pages_def
  proof (intro allI impI)
    fix x assume x: "PGROUNDDOWN x \<notin> {uframe m root v}"
    show "m' x = m x"
    proof (rule other)
      fix i assume i: "i < n"
      have "v - PGROUNDDOWN v + of_nat i < PGSIZE" using i n by (intro page_offset_less) simp
      from PGROUNDDOWN_offset [OF al this] have "PGROUNDDOWN (uaddr m root (v + of_nat i)) = uframe m root v"
        using at [OF i] by (simp add: add.assoc)
      then show "x \<noteq> uaddr m root (v + of_nat i)" using x by auto
    qed
  qed
  moreover have "pt_tables m root \<inter> {uframe m root v} = {}" using tab by blast
  ultimately show "pt_entry m' root = pt_entry m root" "pt_tables m' root = pt_tables m root"
    "pt_wf m' root F"
    using pt_entry_frame [OF wf] by (auto simp: fun_eq_iff)
qed

text \<open>
  The condition for writing a user range: it is mapped, away from the page tables, and no two of
  its bytes share a physical address.
\<close>

definition writable_range :: "pmem \<Rightarrow> u64 \<Rightarrow> u64 \<Rightarrow> nat \<Rightarrow> bool" where
  "writable_range m root v n \<longleftrightarrow>
     user_range m root v n \<and> (\<forall>i < n. uframe m root (v + of_nat i) \<notin> pt_tables m root) \<and>
     (\<forall>i < n. \<forall>j < n. uaddr m root (v + of_nat i) = uaddr m root (v + of_nat j) \<longrightarrow> i = j)"

lemma writable_range_drop:
  assumes "writable_range m root v n" and "k \<le> n"
  shows "writable_range m root (v + of_nat k) (n - k)"
proof -
  have sh: "v + of_nat k + of_nat i = v + of_nat (k + i)" for i by simp
  show ?thesis
    using assms user_range_drop [of m root v n k] unfolding writable_range_def sh
    by (metis add_left_cancel less_diff_conv add.commute)
qed

lemma copyout_bytes:
  assumes "pt_wf (mem s) root F" and "writable_range (mem s) root v (length bs)"
  shows "\<exists>m'. copyout root v bs s = Inr (0, s\<lparr>mem := m'\<rparr>) \<and> pt_entry m' root = pt_entry (mem s) root \<and>
    pt_wf m' root F \<and> pt_tables m' root = pt_tables (mem s) root \<and>
    (\<forall>i < length bs. m' (uaddr (mem s) root (v + of_nat i)) = bs ! i) \<and>
    (\<forall>x. (\<forall>i < length bs. x \<noteq> uaddr (mem s) root (v + of_nat i)) \<longrightarrow> m' x = mem s x)"
  using assms
proof (induction root v bs s rule: copyout.induct)
  case (1 root v bs s)
  show ?case
  proof (cases "bs = []")
    case True
    then show ?thesis using "1.prems" by (intro exI [of _ "mem s"]) (simp add: copyout.simps)
  next
    case False
    let ?f = "uframe (mem s) root v"
    have r: "user_range (mem s) root v (length bs)" using "1.prems"(2) by (simp add: writable_range_def)
    have pos: "0 < length bs" using False by simp
    note v = user_range_first(1) [OF r pos] and f = user_range_first(2) [OF r pos]
    have "uframe (mem s) root (v + of_nat 0) \<notin> pt_tables (mem s) root"
      using "1.prems"(2) pos unfolding writable_range_def by blast
    then have tab: "?f \<notin> pt_tables (mem s) root" by simp
    define n where "n = min (unat (in_page_left v)) (length bs)"
    define m1 where "m1 = write_bytes (mem s) (?f + (v - PGROUNDDOWN v)) (take n bs)"
    note C = copyout_chunk [OF "1.prems"(1) r False tab n_def m1_def]
    have w: "walkAddr root (PGROUNDDOWN v) s = Inr ?f" using walkAddr_page [OF "1.prems"(1) v] .
    have nl: "n \<le> length bs" by (simp add: n_def)
    have "writable_range m1 root (v + of_nat n) (length (drop n bs))"
      using writable_range_drop [OF "1.prems"(2) nl] uframe_cong [OF C(1)] uaddr_cong [OF C(1)] C(2)
      by (simp add: writable_range_def user_range_def)
    then obtain m' where m': "copyout root (v + of_nat n) (drop n bs) (s\<lparr>mem := m1\<rparr>) = Inr (0, s\<lparr>mem := m'\<rparr>)"
      "pt_entry m' root = pt_entry m1 root" "pt_wf m' root F" "pt_tables m' root = pt_tables m1 root"
      and new: "\<And>i. i < length bs - n \<Longrightarrow> m' (uaddr m1 root (v + of_nat n + of_nat i)) = bs ! (n + i)"
      and old: "\<And>x. (\<forall>i < length bs - n. x \<noteq> uaddr m1 root (v + of_nat n + of_nat i)) \<Longrightarrow> m' x = m1 x"
      using "1.IH" [OF False w f n_def m1_def] C(3) nl by auto
    have sh: "uaddr m1 root (v + of_nat n + of_nat i) = uaddr (mem s) root (v + of_nat (n + i))" for i
      using uaddr_cong [OF C(1)] by (simp add: add.assoc)
    have "copyout root v bs s = Inr (0, s\<lparr>mem := m'\<rparr>)"
      using False w f m'(1) by (subst copyout.simps) (simp add: Let_def n_def [symmetric] m1_def [symmetric])
    moreover have "m' (uaddr (mem s) root (v + of_nat i)) = bs ! i" if "i < length bs" for i
    proof (cases "i < n")
      case True
      have "m' (uaddr (mem s) root (v + of_nat i)) = m1 (uaddr (mem s) root (v + of_nat i))"
        using "1.prems"(2) True that unfolding writable_range_def
        by (intro old) (unfold sh, metis less_diff_conv add.commute not_add_less1)
      then show ?thesis using C(4) [OF True] by simp
    next
      case False
      then show ?thesis using new [of "i - n"] that unfolding sh by simp
    qed
    moreover have "m' x = mem s x" if "\<forall>i < length bs. x \<noteq> uaddr (mem s) root (v + of_nat i)" for x
    proof -
      have "\<forall>i < length bs - n. x \<noteq> uaddr (mem s) root (v + of_nat (n + i))"
        using that by (metis less_diff_conv add.commute)
      moreover have "m1 x = mem s x" using C(5) [of x] that nl by simp
      ultimately show ?thesis using old [of x] unfolding sh by simp
    qed
    ultimately show ?thesis using m' C(1,2) by (intro exI [of _ m']) simp
  qed
qed

section \<open>Strings\<close>

lemma copyinstr_page_str:
  assumes "\<And>i. i \<le> length str \<Longrightarrow> i < n \<Longrightarrow> m (p + of_nat i) = (str @ [0]) ! i" and "0 \<notin> set str"
  shows "copyinstr_page m p n = (if length str < n then (str @ [0], True) else (take n str, False))"
  using assms
proof (induction n arbitrary: p str)
  case 0
  then show ?case by simp
next
  case (Suc n)
  show ?case
  proof (cases str)
    case Nil
    then show ?thesis using Suc.prems(1) [of 0] by simp
  next
    case (Cons c cs)
    have "m (p + 1 + of_nat i) = (cs @ [0]) ! i" if "i \<le> length cs" "i < n" for i
      using Suc.prems(1) [of "Suc i"] that Cons by (simp add: add.assoc)
    then have "copyinstr_page m (p + 1) n =
        (if length cs < n then (cs @ [0], True) else (take n cs, False))"
      using Suc.prems(2) Cons by (intro Suc.IH) auto
    then show ?thesis using Suc.prems(1) [of 0] Suc.prems(2) Cons by auto
  qed
qed

lemma next_page_of: "PGROUNDDOWN v + PGSIZE = v + of_nat (unat (in_page_left v))"
  by (simp add: in_page_left_def)

lemma copyinstr_str:
  assumes "pt_wf (mem s) root F" and "user_range (mem s) root v (Suc (length str))"
    and "user_bytes (mem s) root v (Suc (length str)) = str @ [0]" and "0 \<notin> set str"
    and "length str < maxsz"
  shows "copyinstr root v maxsz s = Inr (0, str @ [0])"
  using assms
proof (induction root v maxsz s arbitrary: str rule: copyinstr.induct)
  case (1 root v maxsz s)
  note wf = "1.prems"(1) and r = "1.prems"(2) and bytes = "1.prems"(3) and nz = "1.prems"(4)
  let ?f = "uframe (mem s) root v"
  note v = user_range_first(1) [OF r] and f = user_range_first(2) [OF r]
  have w: "walkAddr root (PGROUNDDOWN v) s = Inr ?f" using walkAddr_page [OF wf v] by simp
  define n where "n = min (unat (in_page_left v)) maxsz"
  have at: "mem s (uaddr (mem s) root (v + of_nat i)) = (str @ [0]) ! i" if "i \<le> length str" for i
    using that arg_cong [OF bytes, of "\<lambda>xs. xs ! i"] by (simp add: user_bytes_def del: upt_Suc)
  have "mem s (?f + (v - PGROUNDDOWN v) + of_nat i) = (str @ [0]) ! i" if "i \<le> length str" "i < n" for i
    using at [OF that(1)] user_range_page [OF r, of i] that by (simp add: n_def)
  note page = copyinstr_page_str [OF this nz]
  show ?case
  proof (cases "length str < n")
    case True
    then show ?thesis
      using "1.prems"(5) w f page by (subst copyinstr.simps) (simp add: Let_def n_def [symmetric])
  next
    case False
    then have n: "n = unat (in_page_left v)" "n \<le> length str" using "1.prems"(5) by (auto simp: n_def)
    have pg: "copyinstr_page (mem s) (?f + (v - PGROUNDDOWN v)) n = (take n str, False)"
      using page False by simp
    have nx: "PGROUNDDOWN v + PGSIZE = v + of_nat n" by (simp add: n(1) next_page_of)
    have len: "Suc (length (drop n str)) = Suc (length str) - n" using n(2) by simp
    have "user_range (mem s) root (v + of_nat n) (Suc (length (drop n str)))"
      using user_range_drop [OF r, of n] n(2) unfolding len by simp
    moreover have "user_bytes (mem s) root (v + of_nat n) (Suc (length (drop n str))) = drop n str @ [0]"
      using arg_cong [OF bytes, of "drop n"] n(2)
        user_bytes_split [of n "Suc (length str)" "mem s" root v]
      unfolding len by (simp add: user_bytes_def del: upt_Suc)
    moreover have "0 \<notin> set (drop n str)" using nz by (meson in_set_dropD)
    ultimately have "copyinstr root (v + of_nat n) (maxsz - n) s = Inr (0, drop n str @ [0])"
      using "1.IH" [OF _ w _ n_def refl pg [symmetric] _ wf, of "drop n str"] f "1.prems"(5) n(2)
      unfolding nx by simp
    then show ?thesis
      using "1.prems"(5) w f pg nx by (subst copyinstr.simps) (simp add: Let_def n_def [symmetric])
  qed
qed

section \<open>Properties\<close>

text \<open>
  C14: for a mapped user range that no two of whose bytes share a physical address, \<^verbatim>\<open>copyout\<close>
  succeeds, \<^verbatim>\<open>copyin\<close> of the same range then returns exactly the bytes written, the address space
  maps what it mapped before, and no other physical byte has changed.
\<close>

theorem copyout_copyin:
  assumes "pt_wf (mem s) root F" and "writable_range (mem s) root v (length bs)"
  shows "\<exists>s'. copyout root v bs s = Inr (0, s') \<and> copyin root v (of_nat (length bs)) s' = Inr (0, bs) \<and>
    pt_entry (mem s') root = pt_entry (mem s) root \<and>
    (\<forall>x. (\<forall>i < length bs. x \<noteq> uaddr (mem s) root (v + of_nat i)) \<longrightarrow> mem s' x = mem s x)"
proof -
  obtain m' where m': "copyout root v bs s = Inr (0, s\<lparr>mem := m'\<rparr>)"
    "pt_entry m' root = pt_entry (mem s) root" "pt_wf m' root F"
    "\<forall>i < length bs. m' (uaddr (mem s) root (v + of_nat i)) = bs ! i"
    "\<forall>x. (\<forall>i < length bs. x \<noteq> uaddr (mem s) root (v + of_nat i)) \<longrightarrow> m' x = mem s x"
    using copyout_bytes [OF assms] by blast
  have r: "user_range (mem s) root v (length bs)" using assms(2) by (simp add: writable_range_def)
  then have "length bs < 2 ^ 64" by (simp add: user_range_def)
  then have len: "unat (of_nat (length bs) :: u64) = length bs" by simp
  have "copyin root v (of_nat (length bs)) (s\<lparr>mem := m'\<rparr>) = Inr (0, user_bytes m' root v (length bs))"
    using copyin_bytes [of "s\<lparr>mem := m'\<rparr>" root F v "of_nat (length bs)"] m'(3) r len uframe_cong [OF m'(2)]
    by (simp add: user_range_def)
  moreover have "user_bytes m' root v (length bs) = bs"
    using m'(4) uaddr_cong [OF m'(2)] by (intro nth_equalityI) (simp_all add: user_bytes_def)
  ultimately show ?thesis using m' by (intro exI [of _ "s\<lparr>mem := m'\<rparr>"]) simp
qed

text \<open>The small machine with one user page mapped at \<^verbatim>\<open>0x1000\<close>.\<close>

lemma small_machine_user_page:
  assumes m: "mappages 0x80300000 0x1000 PGSIZE 0x80303000 user_perm small_machine = Inr (0, s')"
    and n: "n \<le> 4096"
  obtains F where "pt_wf (mem s') 0x80300000 F" and "writable_range (mem s') 0x80300000 0x1000 n"
proof -
  obtain ys where ys: "pt_inv 0x80300000 s' ys" "owns_range 0x80300000 s' ys 0x1000 0x2000"
    "range_frames (mem s') 0x80300000 0x1000 0x2000 = {0x80303000}"
    by (rule small_machine_owns [OF m])
  have wf: "pt_wf (mem s') 0x80300000 (set ys)" using ys(1) by (simp add: pt_inv_def)
  have al: "page_aligned 0x1000" "page_aligned 0x80303000" by (simp_all add: page_aligned_unat)
  have pd: "PGROUNDDOWN 0x1000 = 0x1000" using PGROUNDDOWN_aligned [OF al(1)] .
  have left: "unat (in_page_left 0x1000) = 4096" by (simp add: unat_in_page_left)
  have va: "(0x1000 :: u64) < MAXVA" by (simp add: MAXVA_def)
  have below: "0x1000 + of_nat i < MAXVA" if "i < 4096" for i
    using that by (simp add: MAXVA_def word_less_nat_alt unat_word_ariths push_bit_eq_mult)
  have "pt_entry (mem s') 0x80300000 0x1000 = PA2PTE 0x80303000 OR user_perm OR PTE_V"
    using mappages_loop_map [OF m [unfolded mappages_def] small_machine_inv page_aligned_PGROUNDDOWN]
      va one_page [OF al(1)] pd by fastforce
  then have "uframe (mem s') 0x80300000 0x1000 = 0x80303000"
    using translate_user [OF al(2), of user_perm] by (simp add: uframe_def user_perm_def pte_defs)
  then have fr: "uframe (mem s') 0x80300000 (0x1000 + of_nat i) = 0x80303000"
    and ad: "uaddr (mem s') 0x80300000 (0x1000 + of_nat i) = 0x80303000 + of_nat i" if "i < 4096" for i
    using uaddr_same_page [of i "0x1000", OF _ va below [OF that]] that left
    by (auto simp: uaddr_def pd)
  have "0x80303000 \<in> range_frames (mem s') 0x80300000 0x1000 0x2000" using ys(3) by simp
  then obtain v where "maps_page (mem s') 0x80300000 0x1000 0x2000 v"
    "PTE2PA (pt_entry (mem s') 0x80300000 v) = 0x80303000"
    unfolding range_frames_def by auto
  then have "0x80303000 \<notin> pt_tables (mem s') 0x80300000"
    using ys(2) unfolding owns_range_def by auto
  moreover have "i = j" if "i < n" "j < n"
    "uaddr (mem s') 0x80300000 (0x1000 + of_nat i) = uaddr (mem s') 0x80300000 (0x1000 + of_nat j)" for i j
  proof -
    have "(of_nat i :: u64) = of_nat j" using that n ad by simp
    then have "unat (of_nat i :: u64) = unat (of_nat j :: u64)" by simp
    then show "i = j" using that n by simp
  qed
  ultimately have "writable_range (mem s') 0x80300000 0x1000 n"
    unfolding writable_range_def user_range_def using n fr by simp
  with wf show thesis by (rule that)
qed

theorem copyout_copyin_witness:
  "\<exists>s s'. mappages 0x80300000 0x1000 PGSIZE 0x80303000 user_perm small_machine = Inr (0, s) \<and>
     copyout 0x80300000 0x1000 [104, 105, 0] s = Inr (0, s') \<and>
     copyin 0x80300000 0x1000 3 s' = Inr (0, [104, 105, 0])"
proof -
  obtain s where m: "mappages 0x80300000 0x1000 PGSIZE 0x80303000 user_perm small_machine = Inr (0, s)"
    by (rule small_machine_maps)
  obtain F where F: "pt_wf (mem s) 0x80300000 F" "writable_range (mem s) 0x80300000 0x1000 3"
    by (rule small_machine_user_page [OF m, of 3]) simp_all
  show ?thesis
    using copyout_copyin [OF F(1), of "0x1000" "[104, 105, 0]"] F(2) m by (auto simp: numeral_3_eq_3)
qed

text \<open>
  C15: \<^verbatim>\<open>copyinstr\<close> of a mapped NUL-terminated user string shorter than \<^verbatim>\<open>maxsz\<close> succeeds and returns
  the string with its NUL, also across page boundaries.
\<close>

theorem copyinstr_reads_string:
  assumes "pt_wf (mem s) root F" and "user_range (mem s) root v (Suc (length str))"
    and "user_bytes (mem s) root v (Suc (length str)) = str @ [0]" and "0 \<notin> set str"
    and "length str < maxsz"
  shows "copyinstr root v maxsz s = Inr (0, str @ [0])"
  using copyinstr_str [OF assms] .

theorem copyinstr_reads_string_witness:
  "\<exists>s s'. mappages 0x80300000 0x1000 PGSIZE 0x80303000 user_perm small_machine = Inr (0, s) \<and>
     copyout 0x80300000 0x1000 [104, 105, 0] s = Inr (0, s') \<and>
     copyinstr 0x80300000 0x1000 64 s' = Inr (0, [104, 105, 0])"
proof -
  obtain s where m: "mappages 0x80300000 0x1000 PGSIZE 0x80303000 user_perm small_machine = Inr (0, s)"
    by (rule small_machine_maps)
  obtain F where F: "pt_wf (mem s) 0x80300000 F" "writable_range (mem s) 0x80300000 0x1000 3"
    by (rule small_machine_user_page [OF m, of 3]) simp_all
  obtain m' where m': "copyout 0x80300000 0x1000 [104, 105, 0] s = Inr (0, s\<lparr>mem := m'\<rparr>)"
    "pt_entry m' 0x80300000 = pt_entry (mem s) 0x80300000" "pt_wf m' 0x80300000 F"
    and b: "\<And>i. i < 3 \<Longrightarrow> m' (uaddr (mem s) 0x80300000 (0x1000 + of_nat i)) = [104, 105, 0] ! i"
    using copyout_bytes [OF F(1), of "0x1000" "[104, 105, 0]"] F(2) by (auto simp: numeral_3_eq_3)
  have "user_bytes m' 0x80300000 0x1000 3 = [104, 105, 0]"
    using b uaddr_cong [OF m'(2)] by (intro nth_equalityI) (auto simp: user_bytes_def)
  moreover have "user_range m' 0x80300000 0x1000 3"
    using F(2) uframe_cong [OF m'(2)] by (simp add: writable_range_def user_range_def)
  ultimately have "copyinstr 0x80300000 0x1000 64 (s\<lparr>mem := m'\<rparr>) = Inr (0, [104, 105] @ [0])"
    using m'(3) by (intro copyinstr_reads_string [of _ _ F]) (simp_all add: numeral_3_eq_3)
  then show ?thesis using m m'(1) by auto
qed

section \<open>What the memory operations leave alone\<close>

text \<open>The operations on pages and page tables change the fields of \<open>kpages\<close> only: the rest of the kernel state is kept.\<close>

lemma ma_alloc_more [frame]: "kpages.more (snd (ma_alloc s)) = kpages.more s"
  by (simp add: ma_alloc_def Let_def)

lemma ma_alloc_pair: "ma_alloc s = (p, s') \<Longrightarrow> kpages.more s' = kpages.more s"
  using ma_alloc_more [of s] by simp

lemma ma_free_more [frame]: "ma_free pa s = Inr s' \<Longrightarrow> kpages.more s' = kpages.more s"
  by (auto simp: ma_free_def Let_def split: if_splits)

lemma walk_loop_more: "kpages.more (snd (walk_loop l pt va al s)) = kpages.more s"
proof (induction l pt va al s rule: walk_loop.induct)
  case (2 l pt va al s)
  then show ?case using ma_alloc_more [of s] by (auto simp: Let_def split: prod.split)
qed simp

lemma walk_more [frame]: "walk pt va al s = Inr (p, s') \<Longrightarrow> kpages.more s' = kpages.more s"
  using walk_loop_more [of 2 pt va al s] by (auto simp: walk_def split: if_splits)

lemma mappages_loop_more: "mappages_loop pt a lst pa perm s = Inr (r, s') \<Longrightarrow> kpages.more s' = kpages.more s"
proof (induction pt a lst pa perm s arbitrary: r s' rule: mappages_loop.induct)
  case (1 pt a lst pa perm s)
  obtain p s1 where w: "walk pt a True s = Inr (p, s1)"
    using 1(2) unfolding mappages_loop.simps [of pt a lst pa perm s] by auto
  show ?case using 1(2) w walk_more [OF w] unfolding mappages_loop.simps [of pt a lst pa perm s]
    by (auto simp: Let_def split: if_splits dest!: 1(1) [OF w refl])
qed

lemma mappages_more [frame]: "mappages pt va sz pa perm s = Inr (r, s') \<Longrightarrow> kpages.more s' = kpages.more s"
  by (auto simp: mappages_def dest: mappages_loop_more)

lemma userUnmap_loop_more: "userUnmap_loop pt a lim df s = Inr s' \<Longrightarrow> kpages.more s' = kpages.more s"
proof (induction pt a lim df s arbitrary: s' rule: userUnmap_loop.induct)
  case (1 pt a lim df s)
  show ?case
  proof (cases "a < lim")
    case True
    obtain p s0 where w: "walk pt a False s = Inr (p, s0)"
      using 1(4) True unfolding userUnmap_loop.simps [of pt a lim df s] by auto
    let ?e = "read64 (mem s0) p"
    show ?thesis
    proof (cases "p = 0 \<or> ?e AND PTE_V = 0")
      case True
      then have "userUnmap_loop pt (a + PGSIZE) lim df s0 = Inr s'"
        using 1(4) w \<open>a < lim\<close> unfolding userUnmap_loop.simps [of pt a lim df s] by (auto split: if_splits)
      then show ?thesis using True 1(1,2) [OF \<open>a < lim\<close> w refl] walk_more [OF w] by (cases "p = 0") auto
    next
      case False
      then obtain s1 where f: "(if df then ma_free (PTE2PA ?e) s0 else Inr s0) = Inr s1" "PTE_FLAGS ?e \<noteq> PTE_V"
          and l: "userUnmap_loop pt (a + PGSIZE) lim df (s1\<lparr>mem := write64 (mem s1) p 0\<rparr>) = Inr s'"
        using 1(4) w \<open>a < lim\<close> unfolding userUnmap_loop.simps [of pt a lim df s] by (auto simp: bindr_eq_Inr_iff split: if_splits)
      have "kpages.more s1 = kpages.more s0" using f by (auto split: if_splits dest: ma_free_more)
      then show ?thesis using 1(3) [OF \<open>a < lim\<close> w refl _ _ f(2) f(1) l] False walk_more [OF w] by simp
    qed
  next
    case False
    then show ?thesis using 1(4) unfolding userUnmap_loop.simps [of pt a lim df s] by simp
  qed
qed

lemma userUnmap_more [frame]: "userUnmap pt va n df s = Inr s' \<Longrightarrow> kpages.more s' = kpages.more s"
  by (auto simp: userUnmap_def split: if_splits dest: userUnmap_loop_more)

lemma freewalk_entries_more:
  assumes "\<And>p s s'. rec p s = Inr s' \<Longrightarrow> kpages.more s' = kpages.more s"
  shows "freewalk_entries rec pt is s = Inr s' \<Longrightarrow> kpages.more s' = kpages.more s"
proof (induction "is" arbitrary: s)
  case (Cons i "is")
  show ?case using Cons(2) by (auto simp: Let_def split: if_splits dest!: assms Cons(1))
qed simp

lemma freewalk_more: "freewalk n pt s = Inr s' \<Longrightarrow> kpages.more s' = kpages.more s"
proof (induction n arbitrary: pt s s')
  case (Suc n)
  then show ?case by (auto dest!: ma_free_more freewalk_entries_more [rotated])
qed simp

lemma FreeUserPageTable_more [frame]: "FreeUserPageTable n pt sz s = Inr s' \<Longrightarrow> kpages.more s' = kpages.more s"
  by (auto simp: FreeUserPageTable_def split: if_splits dest!: userUnmap_more freewalk_more)

lemma userDealloc_more [frame]: "userDealloc pt o' n s = Inr (r, s') \<Longrightarrow> kpages.more s' = kpages.more s"
  by (auto simp: userDealloc_def Let_def split: if_splits dest!: userUnmap_more)

lemma userAlloc_loop_more: "userAlloc_loop pt a o' n s = Inr (r, s') \<Longrightarrow> kpages.more s' = kpages.more s"
proof (induction pt a o' n s arbitrary: r s' rule: userAlloc_loop.induct)
  case (1 pt a o' n s)
  obtain p s1 where m: "ma_alloc s = (p, s1)" by fastforce
  show ?case
  proof (cases "a < n \<and> p \<noteq> 0")
    case True
    obtain q s2 where mp: "mappages pt a PGSIZE p user_perm (s1\<lparr>mem := memset (mem s1) p 0 4096\<rparr>) = Inr (q, s2)"
      using 1(2) m True unfolding userAlloc_loop.simps [of pt a o' n s] by auto
    show ?thesis
    proof (cases "q = 0")
      case True
      then show ?thesis using 1(2) m mp \<open>a < n \<and> p \<noteq> 0\<close> ma_alloc_pair [OF m] mappages_more [OF mp]
          1(1) [OF _ m [symmetric] refl, of "(q, s2)" q s2] unfolding userAlloc_loop.simps [of pt a o' n s] by auto
    next
      case False
      then show ?thesis using 1(2) m mp \<open>a < n \<and> p \<noteq> 0\<close> ma_alloc_pair [OF m] mappages_more [OF mp]
        unfolding userAlloc_loop.simps [of pt a o' n s]
        by (auto simp: bindr_eq_Inr_iff dest!: userDealloc_more ma_free_more)
    qed
  next
    case False
    then show ?thesis using 1(2) m ma_alloc_pair [OF m] unfolding userAlloc_loop.simps [of pt a o' n s]
      by (auto simp: bindr_eq_Inr_iff split: if_splits dest!: userDealloc_more)
  qed
qed

lemma userAlloc_more [frame]: "userAlloc pt o' n s = Inr (r, s') \<Longrightarrow> kpages.more s' = kpages.more s"
  by (auto simp: userAlloc_def split: if_splits dest: userAlloc_loop_more)

lemma userCreate_more [frame]: "userCreate s = (p, s') \<Longrightarrow> kpages.more s' = kpages.more s"
  by (auto simp: userCreate_def split: prod.splits if_splits dest: ma_alloc_pair)

lemma copyout_more [frame]: "copyout pt va bs s = Inr (r, s') \<Longrightarrow> kpages.more s' = kpages.more s"
proof (induction pt va bs s arbitrary: r s' rule: copyout.induct)
  case (1 pt va bs s)
  show ?case using 1(2) unfolding copyout.simps [of pt va bs s]
    by (auto simp: Let_def bindr_eq_Inr_iff split: if_splits dest: 1(1))
qed

end
