(* ===== verification/Buddy.thy ===== *)
theory Buddy
  imports PageMap
begin

text \<open>
  \<^verbatim>\<open>src/kernel/memory/BuddyAllocator.cpp\<close> and the C++ allocation operators of
  \<^verbatim>\<open>src/kernel/StartOS.cpp\<close>: blocks of 16 to 4096 bytes, a free list per block size threaded
  through the blocks in memory, pages taken from and given back to the page allocator. The first
  byte of an allocated block holds its level; the pointer handed out is 8 bytes further on.
\<close>

section \<open>Sizes and levels\<close>

definition MIN_LEVEL :: nat where "MIN_LEVEL = 4"
definition MAX_LEVEL :: nat where "MAX_LEVEL = 12"

definition LEVEL_2_SIZE :: "nat \<Rightarrow> u64" where "LEVEL_2_SIZE lv = push_bit lv 1"

definition roundup_pot :: "u64 \<Rightarrow> u64" where
  "roundup_pot v =
     (let v = v - 1; v = v OR drop_bit 1 v; v = v OR drop_bit 2 v; v = v OR drop_bit 4 v;
          v = v OR drop_bit 8 v; v = v OR drop_bit 16 v; v = v OR drop_bit 32 v
      in v + 1)"

text \<open>
  \<^verbatim>\<open>_calc_level\<close>: the loop runs forever for sizes above \<open>2 ^ 63\<close>, where \<^verbatim>\<open>sz <<= 1\<close> becomes 0;
  61 rounds are enough for all others.
\<close>

primrec calc_level_loop :: "nat \<Rightarrow> u64 \<Rightarrow> u64 \<Rightarrow> nat \<Rightarrow> nat result" where
  "calc_level_loop 0 sz' sz lv = Inl (Stuck ''_calc_level'')"
| "calc_level_loop (Suc fuel) sz' sz lv =
     (if sz' > sz then calc_level_loop fuel sz' (push_bit 1 sz) (Suc lv) else Inr lv)"

definition calc_level :: "u64 \<Rightarrow> nat result" where
  "calc_level sz' = calc_level_loop 61 sz' (push_bit MIN_LEVEL 1) MIN_LEVEL"

definition get_buddy :: "u64 \<Rightarrow> nat \<Rightarrow> u64" where
  "get_buddy block lv = block XOR push_bit lv 1"

lemma unat_shift_1: "j < 64 \<Longrightarrow> unat (push_bit j (1 :: u64)) = 2 ^ j"
  using unsigned_push_bit_eq [of j "1 :: u64", where ?'a = nat]
  by (simp del: push_bit_of_1 add: take_bit_push_bit)

lemma calc_level_loop_least:
  assumes "sz = push_bit lv 1" and "lv \<le> k" and "k \<le> 63" and "sz' \<le> push_bit k 1"
    and "lv = k \<or> push_bit (k - 1) 1 < sz'" and "k - lv < fuel"
  shows "calc_level_loop fuel sz' sz lv = Inr k"
  using assms
proof (induction fuel arbitrary: sz lv)
  case (Suc fuel)
  show ?case
  proof (cases "lv = k")
    case True
    then have "\<not> sz < sz'" using Suc.prems(1,4) by (simp only: not_less)
    then show ?thesis using True by simp
  next
    case False
    have "unat (push_bit lv (1 :: u64)) \<le> unat (push_bit (k - 1) (1 :: u64))"
      using False Suc.prems(2,3) by (simp only: unat_shift_1) (simp add: power_increasing)
    then have "sz < sz'" using Suc.prems False by (simp add: word_less_nat_alt)
    moreover have "push_bit 1 sz = push_bit (Suc lv) 1" using Suc.prems(1) by (simp add: push_bit_push_bit)
    ultimately show ?thesis
      using Suc.IH [of "push_bit 1 sz" "Suc lv"] Suc.prems False by simp
  qed
qed simp

text \<open>The smallest level from 4 on whose blocks can hold the size.\<close>

lemma calc_level_eq:
  assumes "MIN_LEVEL \<le> k" and "k \<le> 63" and "sz' \<le> push_bit k 1"
    and "k = MIN_LEVEL \<or> push_bit (k - 1) 1 < sz'"
  shows "calc_level sz' = Inr k"
  unfolding calc_level_def using assms by (intro calc_level_loop_least) (auto simp: MIN_LEVEL_def)

section \<open>The allocator\<close>

record kbuddy = kpages +
  freelist :: "nat \<Rightarrow> u64"
  maxlv :: nat
  minlv :: nat

definition buddy_init :: "'a kbuddy_scheme \<Rightarrow> 'a kbuddy_scheme" where
  "buddy_init s =
     s\<lparr>maxlv := MAX_LEVEL, minlv := MIN_LEVEL,
       freelist := (\<lambda>i. if i \<le> MAX_LEVEL then 0 else freelist s i)\<rparr>"

text \<open>
  The search of \<^verbatim>\<open>alloc\<close>: the level the loop stops at and the block found there, 0 for none.
  \<^verbatim>\<open>freelist\<close> has \<^verbatim>\<open>MAX_LEVEL + 1\<close> slots.
\<close>

function buddy_search :: "nat \<Rightarrow> 'a kbuddy_scheme \<Rightarrow> (nat \<times> u64 \<times> 'a kbuddy_scheme) result" where
  "buddy_search i s =
     (if i > MAX_LEVEL then Inl (BadAccess ''freelist'')
      else if freelist s i \<noteq> 0
      then Inr (i, freelist s i, s\<lparr>freelist := (freelist s)(i := read64 (mem s) (freelist s i))\<rparr>)
      else if i \<ge> maxlv s then Inr (i, 0, s)
      else buddy_search (Suc i) s)"
  by pat_completeness auto
termination
  by (relation "measure (\<lambda>(i, s). Suc MAX_LEVEL - i)") auto

declare buddy_search.simps [simp del]

text \<open>The splitting loop: \<open>n\<close> rounds, from level \<open>lv + n\<close> down to \<open>lv\<close>.\<close>

primrec buddy_split :: "nat \<Rightarrow> nat \<Rightarrow> u64 \<Rightarrow> 'a kbuddy_scheme \<Rightarrow> 'a kbuddy_scheme" where
  "buddy_split 0 lv block s = s"
| "buddy_split (Suc n) lv block s =
     (let buddy = get_buddy block (lv + n) in
      buddy_split n lv block
        (s\<lparr>mem := write64 (mem s) buddy (freelist s (lv + n)),
           freelist := (freelist s)(lv + n := buddy)\<rparr>))"

definition buddy_alloc :: "u64 \<Rightarrow> 'a kbuddy_scheme \<Rightarrow> (u64 \<times> 'a kbuddy_scheme) result" where
  "buddy_alloc sz s =
     bindr (calc_level (sz + 8)) (\<lambda>lv.
       bindr (buddy_search lv s) (\<lambda>(i, block, s1).
         let (block, s2) = (if block = 0 then ma_alloc s1 else (block, s1)) in
         if block = 0 then Inl (Panic ''buddy alloc'')
         else let s3 = buddy_split (i - lv) lv block s2 in
           Inr (block + 8, s3\<lparr>mem := (mem s3)(block := of_nat lv)\<rparr>)))"

text \<open>
  The list search of \<^verbatim>\<open>free\<close>: the predecessor of the place where it stops (0 for the list head)
  and the block found there. A list has at most as many blocks as fit into memory; \<open>fuel\<close> bounds
  the walk.
\<close>

primrec list_search :: "nat \<Rightarrow> pmem \<Rightarrow> u64 \<Rightarrow> u64 \<Rightarrow> u64 \<Rightarrow> (u64 \<times> u64) result" where
  "list_search 0 m pred cur buddy = Inl (Stuck ''buddy free'')"
| "list_search (Suc fuel) m pred cur buddy =
     (if cur \<noteq> 0 \<and> cur \<noteq> buddy then list_search fuel m cur (read64 m cur) buddy
      else Inr (pred, cur))"

function buddy_free_loop ::
  "nat \<Rightarrow> nat \<Rightarrow> u64 \<Rightarrow> 'a kbuddy_scheme \<Rightarrow> 'a kbuddy_scheme result" where
  "buddy_free_loop fuel i block s =
     (if i = maxlv s then ma_free block s
      else if i > MAX_LEVEL then Inl (BadAccess ''freelist'')
      else
        let buddy = get_buddy block i in
        bindr (list_search fuel (mem s) 0 (freelist s i) buddy) (\<lambda>(pred, cur).
          if cur \<noteq> buddy
          then Inr (s\<lparr>mem := write64 (mem s) block (freelist s i),
                      freelist := (freelist s)(i := block)\<rparr>)
          else
            let nxt = read64 (mem s) cur;
                s1 = (if pred = 0 then s\<lparr>freelist := (freelist s)(i := nxt)\<rparr>
                      else s\<lparr>mem := write64 (mem s) pred nxt\<rparr>)
            in buddy_free_loop fuel (Suc i) (if block < buddy then block else buddy) s1))"
  by pat_completeness auto
termination
  by (relation "measure (\<lambda>(fuel, i, block, s). Suc MAX_LEVEL - i)") auto

declare buddy_free_loop.simps [simp del]

definition buddy_free :: "nat \<Rightarrow> u64 \<Rightarrow> 'a kbuddy_scheme \<Rightarrow> 'a kbuddy_scheme result" where
  "buddy_free fuel pa s = buddy_free_loop fuel (unat (mem s (pa - 8))) (pa - 8) s"

text \<open>The C++ operators.\<close>

definition operator_new :: "u64 \<Rightarrow> 'a kbuddy_scheme \<Rightarrow> (u64 \<times> 'a kbuddy_scheme) result" where
  "operator_new sz s = (if sz > PGSIZE then Inl (Panic ''operator new'') else buddy_alloc sz s)"

definition operator_delete :: "nat \<Rightarrow> u64 \<Rightarrow> 'a kbuddy_scheme \<Rightarrow> 'a kbuddy_scheme result" where
  "operator_delete fuel p s = buddy_free fuel p s"

definition operator_new_array :: "u64 \<Rightarrow> 'a kbuddy_scheme \<Rightarrow> (u64 \<times> 'a kbuddy_scheme) result" where
  "operator_new_array sz s = (if sz > PGSIZE then Inl (Panic ''operator new[]'') else buddy_alloc sz s)"

definition operator_delete_array :: "nat \<Rightarrow> u64 \<Rightarrow> 'a kbuddy_scheme \<Rightarrow> 'a kbuddy_scheme result" where
  "operator_delete_array fuel p s = buddy_free fuel p s"

section \<open>Properties\<close>

text \<open>
  \<^verbatim>\<open>operator new\<close> lets sizes up to \<^verbatim>\<open>PGSIZE\<close> through, but the 8 bytes of bookkeeping push the
  sizes from 4089 on to level 13, past the end of \<^verbatim>\<open>freelist[MAX_LEVEL + 1]\<close>.
\<close>

lemma operator_new_past_freelist:
  assumes "4089 \<le> sz" and "sz \<le> PGSIZE"
  shows "operator_new sz s = Inl (BadAccess ''freelist'')"
proof -
  have "unat (sz + 8) = unat sz + 8"
    using assms by (simp add: word_le_nat_alt PGSIZE_def unat_word_ariths)
  then have "calc_level (sz + 8) = Inr 13"
    using assms by (intro calc_level_eq)
      (auto simp: MIN_LEVEL_def word_le_nat_alt word_less_nat_alt PGSIZE_def)
  moreover have "buddy_search 13 s = Inl (BadAccess ''freelist'')"
    by (simp add: buddy_search.simps MAX_LEVEL_def)
  ultimately show ?thesis using assms(2) by (simp add: operator_new_def buddy_alloc_def)
qed

end
