(* ===== verification/BuddyHeap.thy ===== *)
theory BuddyHeap
  imports Buddy
begin

unbundle bit_operations_syntax

text \<open>
  The correctness of the buddy allocator of \<^verbatim>\<open>src/kernel/memory/BuddyAllocator.cpp\<close>. A block is the set of addresses that
  agree above its level; the invariant says that the free blocks, the blocks in use and the free pages do not
  overlap and that the lists in memory hold exactly the free blocks. One lemma per step of the code (taking and
  putting a block, halving, merging, unlinking, a page in and a page out) carries the invariant, and the operations are
  compositions of these steps.
\<close>

section \<open>Blocks as sets of addresses\<close>

text \<open>
  The bytes of the block of level \<open>i\<close> at \<open>a\<close>: the addresses that agree with \<open>a\<close> above bit \<open>i\<close>. A block is
  aligned when its lower bits are 0.
\<close>

definition span :: "u64 \<Rightarrow> nat \<Rightarrow> u64 set" where
  "span a i = {x. \<forall>n \<ge> i. bit x n = bit a n}"

definition aligned :: "u64 \<Rightarrow> nat \<Rightarrow> bool" where
  "aligned a i \<longleftrightarrow> (\<forall>n < i. \<not> bit a n)"

lemma span_refl [simp]: "a \<in> span a i"
  by (simp add: span_def)

lemma span_nonempty [simp]: "span a i \<noteq> {}"
  using span_refl by blast

lemma span_eq: "x \<in> span a i \<Longrightarrow> span x i = span a i"
  by (auto simp: span_def)

lemma span_mono: "i \<le> j \<Longrightarrow> span a i \<subseteq> span a j"
  by (auto simp: span_def)

lemma aligned_mono: "aligned a j \<Longrightarrow> i \<le> j \<Longrightarrow> aligned a i"
  by (simp add: aligned_def)

lemma bit_get_buddy: "i < 64 \<Longrightarrow> bit (get_buddy a i) n = (if n = i then \<not> bit a n else bit a n)"
  by (auto simp: get_buddy_def bit_simps dest: bit_imp_le_length)

lemma get_buddy_twice [simp]: "get_buddy (get_buddy a i) i = a"
  unfolding get_buddy_def by (intro bit_word_eqI) (auto simp: bit_xor_iff)

lemma aligned_buddy: "i < 64 \<Longrightarrow> aligned (get_buddy a i) i = aligned a i"
  by (auto simp: aligned_def bit_get_buddy)

lemma span_halves:
  assumes "i < 64" shows "span a (Suc i) = span a i \<union> span (get_buddy a i) i"
proof -
  have "x \<in> span a i \<union> span (get_buddy a i) i" if x: "x \<in> span a (Suc i)" for x
  proof (cases "bit x i = bit a i")
    case True
    have "bit x n = bit a n" if "i \<le> n" for n using x True that by (cases "n = i") (simp_all add: span_def)
    then show ?thesis by (simp add: span_def)
  next
    case False
    have "bit x n = bit (get_buddy a i) n" if "i \<le> n" for n
      using x False that assms by (cases "n = i") (simp_all add: span_def bit_get_buddy)
    then show ?thesis by (simp add: span_def)
  qed
  moreover have "span a i \<subseteq> span a (Suc i)" by (simp add: span_mono)
  moreover have "x \<in> span a (Suc i)" if x: "x \<in> span (get_buddy a i) i" for x
  proof -
    have "bit x n = bit a n" if "Suc i \<le> n" for n using x that assms by (simp add: span_def bit_get_buddy)
    then show ?thesis by (simp add: span_def)
  qed
  ultimately show ?thesis by blast
qed

lemma span_buddy_disjoint: "i < 64 \<Longrightarrow> span a i \<inter> span (get_buddy a i) i = {}"
proof -
  assume i: "i < 64"
  have "bit x i = bit a i" "bit x i = bit (get_buddy a i) i" if "x \<in> span a i" "x \<in> span (get_buddy a i) i" for x
    using that by (simp_all add: span_def)
  then show ?thesis using i by (auto simp: bit_get_buddy)
qed

lemma span_buddy_Suc: "i < 64 \<Longrightarrow> span (get_buddy a i) (Suc i) = span a (Suc i)"
  using span_halves [of i a] span_halves [of i "get_buddy a i"] by auto

lemma less_get_buddy:
  assumes "i < 64" shows "a < get_buddy a i \<longleftrightarrow> \<not> bit a i"
proof (cases "bit a i")
  case True
  have "get_buddy a i = a AND get_buddy a i"
    using True assms by (intro bit_word_eqI) (auto simp: bit_and_iff bit_get_buddy)
  then have "get_buddy a i \<le> a" by (metis word_and_le2)
  then show ?thesis using True by simp
next
  case False
  have "a = get_buddy a i AND a"
    using False assms by (intro bit_word_eqI) (auto simp: bit_and_iff bit_get_buddy)
  then have "a \<le> get_buddy a i" by (metis word_and_le2)
  moreover have "a \<noteq> get_buddy a i" using assms bit_get_buddy [of i a i] by auto
  ultimately show ?thesis using False by simp
qed

lemma aligned_merge:
  assumes "i < 64" "aligned a i"
  shows "aligned (if a < get_buddy a i then a else get_buddy a i) (Suc i)"
  using assms by (auto simp: less_get_buddy aligned_def bit_get_buddy less_Suc_eq)

lemma span_offset:
  assumes "aligned a i" "i \<le> 63" "j < 2 ^ i"
  shows "a + of_nat j \<in> span a i"
proof -
  have j: "bit (of_nat j :: u64) n \<Longrightarrow> n < i" for n
    using assms(3) by (metis bit_of_nat_iff bit_take_bit_iff take_bit_nat_eq_self_iff)
  have "a + of_nat j = a OR of_nat j"
    using assms(1) j by (intro disjunctive_add) (auto simp: aligned_def)
  then show ?thesis using j by (fastforce simp: span_def bit_or_iff)
qed

lemma bit_PGROUNDDOWN: "bit (PGROUNDDOWN a) n \<longleftrightarrow> 12 \<le> n \<and> bit a n"
  by (auto simp: PGROUNDDOWN_push_drop bit_simps dest: bit_imp_le_length)

lemma span_page: "span a 12 = {x. PGROUNDDOWN x = PGROUNDDOWN a}"
proof -
  have "PGROUNDDOWN x = PGROUNDDOWN a \<longleftrightarrow> (\<forall>n \<ge> 12. bit x n = bit a n)" for x
  proof
    assume "PGROUNDDOWN x = PGROUNDDOWN a"
    then have "bit (PGROUNDDOWN x) n = bit (PGROUNDDOWN a) n" for n by simp
    then show "\<forall>n \<ge> 12. bit x n = bit a n" unfolding bit_PGROUNDDOWN by blast
  next
    assume "\<forall>n \<ge> 12. bit x n = bit a n"
    then show "PGROUNDDOWN x = PGROUNDDOWN a" by (intro bit_word_eqI) (auto simp: bit_PGROUNDDOWN)
  qed
  then show ?thesis by (simp add: span_def)
qed

lemma aligned_page: "aligned a 12 \<longleftrightarrow> page_aligned a"
proof
  assume "aligned a 12"
  then have "bit a n \<longleftrightarrow> 12 \<le> n \<and> bit a n" for n by (metis aligned_def not_le)
  then have "PGROUNDDOWN a = a" by (intro bit_word_eqI) (simp add: bit_PGROUNDDOWN)
  then show "page_aligned a" by (metis page_aligned_PGROUNDDOWN)
next
  assume "page_aligned a"
  then have "PGROUNDDOWN a = a" by (rule PGROUNDDOWN_aligned)
  then show "aligned a 12" using bit_PGROUNDDOWN [of a] by (metis aligned_def not_le)
qed

section \<open>The invariant of the heap\<close>

text \<open>
  \<open>fl i\<close> are the free blocks of level \<open>i\<close>, \<open>T\<close> the blocks taken out (in use, or in the hands of an operation) and
  \<open>xs\<close> the free pages. Every block lies in a page the page allocator has given out, no two blocks overlap, and the lists in
  memory hold the free blocks.
\<close>

definition heap_blocks :: "(nat \<Rightarrow> u64 list) \<Rightarrow> (u64 \<times> nat) set \<Rightarrow> (u64 \<times> nat) set" where
  "heap_blocks fl T = {(a, i). a \<in> set (fl i)} \<union> T"

definition block_ok :: "'a kbuddy_scheme \<Rightarrow> u64 list \<Rightarrow> u64 \<times> nat \<Rightarrow> bool" where
  "block_ok s xs B \<longleftrightarrow> MIN_LEVEL \<le> snd B \<and> snd B \<le> MAX_LEVEL \<and> aligned (fst B) (snd B) \<and>
     managed s (PGROUNDDOWN (fst B)) \<and> PGROUNDDOWN (fst B) \<notin> set xs"

definition apart :: "(u64 \<times> nat) set \<Rightarrow> bool" where
  "apart S \<longleftrightarrow> (\<forall>B \<in> S. \<forall>C \<in> S. B \<noteq> C \<longrightarrow> span (fst B) (snd B) \<inter> span (fst C) (snd C) = {})"

definition heap_core :: "'a kbuddy_scheme \<Rightarrow> (nat \<Rightarrow> u64 list) \<Rightarrow> (u64 \<times> nat) set \<Rightarrow> u64 list \<Rightarrow> bool" where
  "heap_core s fl T xs \<longleftrightarrow>
     maxlv s = MAX_LEVEL \<and> pages_free s xs \<and>
     (\<forall>i. i < MIN_LEVEL \<or> MAX_LEVEL \<le> i \<longrightarrow> fl i = []) \<and>
     (\<forall>i \<le> MAX_LEVEL. chain (mem s) (freelist s i) (fl i)) \<and>
     (\<forall>i. distinct (fl i)) \<and> (\<forall>B \<in> T. fst B \<notin> set (fl (snd B))) \<and>
     (\<forall>B \<in> heap_blocks fl T. block_ok s xs B) \<and> apart (heap_blocks fl T)"

text \<open>The memory of the blocks \<open>T\<close> is the same in both states.\<close>

definition keeps :: "(u64 \<times> nat) set \<Rightarrow> 'a kbuddy_scheme \<Rightarrow> 'a kbuddy_scheme \<Rightarrow> bool" where
  "keeps T s s' \<longleftrightarrow> (\<forall>B \<in> T. \<forall>x \<in> span (fst B) (snd B). mem s' x = mem s x)"

lemma keeps_refl [simp]: "keeps T s s"
  by (simp add: keeps_def)

lemma keeps_trans: "keeps T s s1 \<Longrightarrow> keeps T s1 s2 \<Longrightarrow> keeps T s s2"
  by (simp add: keeps_def)

lemma keeps_mono: "keeps T s s' \<Longrightarrow> U \<subseteq> T \<Longrightarrow> keeps U s s'"
  by (auto simp: keeps_def)

text \<open>A change of memory inside one block.\<close>

definition within :: "u64 set \<Rightarrow> pmem \<Rightarrow> pmem \<Rightarrow> bool" where
  "within X m m' \<longleftrightarrow> (\<forall>x. x \<notin> X \<longrightarrow> m' x = m x)"

lemma within_write64:
  assumes "aligned a i" "4 \<le> i" "i \<le> 63" shows "within (span a i) m (write64 m a v)"
proof -
  have "x \<in> span a i" if "x - a < 8" for x
  proof -
    have "unat (x - a) < 2 ^ i"
    proof -
      have "unat (x - a) < 8" using that by (simp add: word_less_nat_alt)
      also have "(8 :: nat) = 2 ^ 3" by simp
      also have "\<dots> \<le> 2 ^ i" using assms(2) by (intro power_increasing) auto
      finally show ?thesis .
    qed
    then have "a + of_nat (unat (x - a)) \<in> span a i" using assms by (intro span_offset)
    then show ?thesis by simp
  qed
  then show ?thesis by (auto simp: within_def write64_def)
qed

lemma within_byte: "within (span a i) m (m(a := v))"
  by (auto simp: within_def)

lemma within_only_pages: "only_pages {x} m m' \<Longrightarrow> page_aligned x \<Longrightarrow> within (span x 12) m m'"
  by (auto simp: within_def only_pages_def span_page PGROUNDDOWN_aligned)

lemma read64_within:
  assumes "within X m m'" "span a i \<inter> X = {}" "aligned a i" "4 \<le> i" "i \<le> 63"
  shows "read64 m' a = read64 m a"
proof (rule read64_cong)
  fix j :: nat assume "j < 8"
  also have "(8 :: nat) = 2 ^ 3" by simp
  also have "\<dots> \<le> 2 ^ i" using assms(4) by (intro power_increasing) auto
  finally have "a + of_nat j \<in> span a i" using assms by (intro span_offset)
  then show "m' (a + of_nat j) = m (a + of_nat j)" using assms(1,2) by (auto simp: within_def)
qed

lemma chain_within:
  assumes "within X m m'" "\<forall>a \<in> set ys. span a i \<inter> X = {} \<and> aligned a i" "4 \<le> i" "i \<le> 63"
  shows "chain m' p ys = chain m p ys"
  using assms(2) by (induction ys arbitrary: p) (simp_all add: read64_within [OF assms(1) _ _ assms(3,4)])

lemma keeps_within:
  assumes "within (span a i) (mem s) (mem s')" "apart (insert (a, i) T)" "(a, i) \<notin> T"
  shows "keeps T s s'"
proof -
  have "x \<notin> span a i" if "B \<in> T" "x \<in> span (fst B) (snd B)" for B x
    using assms(2,3) that unfolding apart_def by fastforce
  then show ?thesis using assms(1) by (auto simp: keeps_def within_def)
qed

section \<open>Steps of the operations\<close>

lemma heap_coreD:
  assumes "heap_core s fl T xs"
  shows "maxlv s = MAX_LEVEL" "pages_free s xs" "i \<le> MAX_LEVEL \<Longrightarrow> chain (mem s) (freelist s i) (fl i)" "distinct (fl i)"
    "B \<in> T \<Longrightarrow> fst B \<notin> set (fl (snd B))" "B \<in> heap_blocks fl T \<Longrightarrow> block_ok s xs B" "apart (heap_blocks fl T)"
    "i < MIN_LEVEL \<or> MAX_LEVEL \<le> i \<Longrightarrow> fl i = []"
  using assms by (auto simp: heap_core_def)

lemma heap_coreI:
  assumes "maxlv s = MAX_LEVEL" "pages_free s xs" "\<And>i. i < MIN_LEVEL \<or> MAX_LEVEL \<le> i \<Longrightarrow> fl i = []"
    "\<And>i. i \<le> MAX_LEVEL \<Longrightarrow> chain (mem s) (freelist s i) (fl i)" "\<And>i. distinct (fl i)"
    "\<And>a i. (a, i) \<in> T \<Longrightarrow> a \<notin> set (fl i)" "\<And>B. B \<in> heap_blocks fl T \<Longrightarrow> block_ok s xs B" "apart (heap_blocks fl T)"
  shows "heap_core s fl T xs"
  using assms unfolding heap_core_def by auto

lemma block_okD:
  assumes "block_ok s xs (a, i)"
  shows "4 \<le> i" "i \<le> 12" "aligned a i" "managed s (PGROUNDDOWN a)" "PGROUNDDOWN a \<notin> set xs"
  using assms by (auto simp: block_ok_def MIN_LEVEL_def MAX_LEVEL_def)

lemma block_nonzero:
  assumes "block_ok s xs (a, i)" "pages_free s ys" shows "a \<noteq> 0"
proof
  assume "a = 0"
  then have "PGROUNDDOWN a = 0" by (simp add: PGROUNDDOWN_def)
  then show False using block_okD(4) [OF assms(1)] assms(2) by (simp add: managed_def pages_free_def)
qed

lemma within_page:
  assumes "within (span a i) m m'" "i \<le> 12" shows "only_pages {PGROUNDDOWN a} m m'"
proof -
  have "span a i \<subseteq> {x. PGROUNDDOWN x = PGROUNDDOWN a}" using span_mono [OF assms(2), of a] by (simp add: span_page)
  then show ?thesis using assms(1) by (auto simp: within_def only_pages_def)
qed

lemma apartD: "apart S \<Longrightarrow> (a, i) \<in> S \<Longrightarrow> (b, j) \<in> S \<Longrightarrow> (a, i) \<noteq> (b, j) \<Longrightarrow> span a i \<inter> span b j = {}"
  unfolding apart_def by fastforce

lemma apart_mono: "apart S \<Longrightarrow> S' \<subseteq> S \<Longrightarrow> apart S'"
  unfolding apart_def by blast

lemma apart_taken: "heap_core s fl T xs \<Longrightarrow> apart T"
  by (rule apart_mono [OF heap_coreD(7)]) (auto simp: heap_blocks_def)

lemma change_in_block:
  assumes "heap_core s fl T xs" "(a, j) \<in> heap_blocks fl T" "within (span a j) (mem s) m'"
  shows "pages_free (s\<lparr>mem := m'\<rparr>) xs" and "a \<notin> set (fl j) \<or> i \<noteq> j \<Longrightarrow> chain m' p (fl i) = chain (mem s) p (fl i)"
proof -
  note ok = block_okD [OF heap_coreD(6) [OF assms(1,2)]]
  have "only_pages {PGROUNDDOWN a} (mem s) m'" using within_page [OF assms(3) ok(2)] .
  then show "pages_free (s\<lparr>mem := m'\<rparr>) xs"
    using pages_free_cong [OF heap_coreD(2) [OF assms(1)], of "{PGROUNDDOWN a}" "s\<lparr>mem := m'\<rparr>"] ok(5) by simp
  assume ne: "a \<notin> set (fl j) \<or> i \<noteq> j"
  show "chain m' p (fl i) = chain (mem s) p (fl i)"
  proof (cases "fl i = []")
    case False
    have "span b i \<inter> span a j = {} \<and> aligned b i \<and> 4 \<le> i \<and> i \<le> 63" if b: "b \<in> set (fl i)" for b
    proof -
      have "(b, i) \<in> heap_blocks fl T" using b by (simp add: heap_blocks_def)
      moreover from this have "block_ok s xs (b, i)" by (rule heap_coreD(6) [OF assms(1)])
      moreover have "(b, i) \<noteq> (a, j)" using ne b by auto
      ultimately show ?thesis
        using apartD [OF heap_coreD(7) [OF assms(1)] _ assms(2)] block_okD [of s xs b i] by auto
    qed
    moreover have "4 \<le> i \<and> i \<le> 63" using False calculation by (metis list.set_intros(1) neq_Nil_conv)
    ultimately show ?thesis by (intro chain_within [OF assms(3), where i = i]) auto
  qed simp
qed

lemma block_ok_mem [simp]: "block_ok (s\<lparr>mem := m\<rparr>) xs B = block_ok s xs B" "block_ok (s\<lparr>freelist := f\<rparr>) xs B = block_ok s xs B"
  by (simp_all add: block_ok_def managed_def)

lemma pages_free_freelist [simp]: "pages_free (s\<lparr>freelist := f\<rparr>) xs = pages_free s xs"
  by (simp add: pages_free_def managed_def)

text \<open>Writing into a block that is taken.\<close>

lemma heap_write:
  assumes "heap_core s fl T xs" "(a, i) \<in> T" "within (span a i) (mem s) m'"
  shows "heap_core (s\<lparr>mem := m'\<rparr>) fl T xs"
proof -
  have b: "(a, i) \<in> heap_blocks fl T" using assms(2) by (simp add: heap_blocks_def)
  have "a \<notin> set (fl i)" using heap_coreD(5) [OF assms(1,2)] by simp
  then show ?thesis using assms(1) change_in_block [OF assms(1) b assms(3)]
    by (simp add: heap_core_def)
qed

text \<open>Taking the first block of a list, and putting a taken block at the front of its list.\<close>

lemma heap_pop:
  assumes "heap_core s fl T xs" "fl i = a # bs"
  shows "heap_core (s\<lparr>freelist := (freelist s)(i := read64 (mem s) a)\<rparr>) (fl(i := bs)) (insert (a, i) T) xs"
    and "freelist s i = a" and "a \<noteq> 0" and "(a, i) \<notin> T"
proof -
  have i: "i \<le> MAX_LEVEL" using heap_coreD(8) [OF assms(1), of i] assms(2) by force
  have d: "a \<notin> set bs" "distinct bs" using heap_coreD(4) [OF assms(1), of i] assms(2) by auto
  show c: "freelist s i = a" "a \<noteq> 0" using heap_coreD(3) [OF assms(1) i] assms(2) by auto
  show n: "(a, i) \<notin> T" using heap_coreD(5) [OF assms(1), of "(a, i)"] assms(2) by auto
  have h: "heap_blocks (fl(i := bs)) (insert (a, i) T) = heap_blocks fl T"
    using assms(2) by (auto simp: heap_blocks_def split: if_splits)
  show "heap_core (s\<lparr>freelist := (freelist s)(i := read64 (mem s) a)\<rparr>) (fl(i := bs)) (insert (a, i) T) xs"
    using assms(1) d i heap_coreD(3) [OF assms(1) i] assms(2) unfolding heap_core_def h by auto
qed

lemma heap_push:
  assumes "heap_core s fl (insert (b, i) T) xs" "(b, i) \<notin> T" "i < MAX_LEVEL"
  shows "heap_core (s\<lparr>mem := write64 (mem s) b (freelist s i), freelist := (freelist s)(i := b)\<rparr>) (fl(i := b # fl i)) T xs"
    and "keeps T s (s\<lparr>mem := write64 (mem s) b (freelist s i), freelist := (freelist s)(i := b)\<rparr>)"
proof -
  let ?m = "write64 (mem s) b (freelist s i)"
  have bB: "(b, i) \<in> heap_blocks fl (insert (b, i) T)" by (simp add: heap_blocks_def)
  note ok = block_okD [OF heap_coreD(6) [OF assms(1) bB]]
  have w: "within (span b i) (mem s) ?m" using ok by (intro within_write64) auto
  have c: "heap_core (s\<lparr>mem := ?m\<rparr>) fl (insert (b, i) T) xs" using heap_write [OF assms(1) _ w] by simp
  have b0: "b \<noteq> 0" using block_nonzero [OF heap_coreD(6) [OF assms(1) bB] heap_coreD(2) [OF assms(1)]] .
  have bn: "b \<notin> set (fl i)" using heap_coreD(5) [OF assms(1), of "(b, i)"] by simp
  have h: "heap_blocks (fl(i := b # fl i)) T = heap_blocks fl (insert (b, i) T)" by (auto simp: heap_blocks_def)
  have ch: "\<forall>k \<le> MAX_LEVEL. chain ?m (((freelist s)(i := b)) k) ((fl(i := b # fl i)) k)"
  proof (intro allI impI)
    fix k assume "k \<le> MAX_LEVEL"
    then have "chain ?m (freelist s k) (fl k)" using heap_coreD(3) [OF c, of k] by simp
    then show "chain ?m (((freelist s)(i := b)) k) ((fl(i := b # fl i)) k)"
      using b0 by (cases "k = i") (simp_all add: read64_write64_same)
  qed
  show "heap_core (s\<lparr>mem := ?m, freelist := (freelist s)(i := b)\<rparr>) (fl(i := b # fl i)) T xs"
  proof (rule heap_coreI)
    show "(fl(i := b # fl i)) k = []" if "k < MIN_LEVEL \<or> MAX_LEVEL \<le> k" for k
      using heap_coreD(8) [OF assms(1) that] that assms(3) ok(1) by (auto simp: MIN_LEVEL_def)
    show "distinct ((fl(i := b # fl i)) k)" for k using heap_coreD(4) [OF assms(1)] bn by simp
    show "a \<notin> set ((fl(i := b # fl i)) k)" if "(a, k) \<in> T" for a k
      using heap_coreD(5) [OF assms(1), of "(a, k)"] that assms(2) by auto
    show "block_ok (s\<lparr>mem := ?m, freelist := (freelist s)(i := b)\<rparr>) xs B" if "B \<in> heap_blocks (fl(i := b # fl i)) T" for B
      using heap_coreD(6) [OF assms(1), of B] that unfolding h by simp
    show "apart (heap_blocks (fl(i := b # fl i)) T)" using heap_coreD(7) [OF assms(1)] unfolding h .
    show "chain (mem (s\<lparr>mem := ?m, freelist := (freelist s)(i := b)\<rparr>)) (freelist (s\<lparr>mem := ?m, freelist := (freelist s)(i := b)\<rparr>) k)
        ((fl(i := b # fl i)) k)" if "k \<le> MAX_LEVEL" for k using ch that by simp
  qed (use heap_coreD(1,2) [OF c] in simp_all)
  have "apart (insert (b, i) T)" using apart_taken [OF assms(1)] .
  then show "keeps T s (s\<lparr>mem := ?m, freelist := (freelist s)(i := b)\<rparr>)"
    using keeps_within [of b i s "s\<lparr>mem := ?m, freelist := (freelist s)(i := b)\<rparr>" T] w assms(2) by simp
qed

text \<open>Taking one block apart into its halves, and putting two halves together; nothing moves in memory.\<close>

lemma PGROUNDDOWN_span: "x \<in> span a i \<Longrightarrow> i \<le> 12 \<Longrightarrow> PGROUNDDOWN x = PGROUNDDOWN a"
  using span_mono [of i 12 a] span_page [of a] by blast

lemma apart_replace:
  assumes "apart (insert (a, j) S)" "(a, j) \<notin> S" "S' \<noteq> {}"
    and "\<And>B. B \<in> S' \<Longrightarrow> span (fst B) (snd B) \<subseteq> span a j" "apart S'"
  shows "apart (S' \<union> S)"
proof -
  have d: "span (fst B) (snd B) \<inter> span (fst C) (snd C) = {}" if "B \<in> S'" "C \<in> S" for B C
    using apartD [OF assms(1), of a j "fst C" "snd C"] assms(2) assms(4) [OF that(1)] that(2) by auto
  show ?thesis unfolding apart_def
  proof (intro ballI impI)
    fix B C assume bc: "B \<in> S' \<union> S" "C \<in> S' \<union> S" "B \<noteq> C"
    then consider "B \<in> S'" "C \<in> S'" | "B \<in> S'" "C \<in> S" | "B \<in> S" "C \<in> S'" | "B \<in> S" "C \<in> S" by blast
    then show "span (fst B) (snd B) \<inter> span (fst C) (snd C) = {}"
    proof cases
      case 1
      then show ?thesis using assms(5) bc(3) unfolding apart_def by blast
    next
      case 2
      then show ?thesis by (rule d)
    next
      case 3
      then show ?thesis using d [of C B] by blast
    next
      case 4
      then show ?thesis using assms(1) bc(3) unfolding apart_def by blast
    qed
  qed
qed

lemma heap_blocks_insert: "heap_blocks fl (insert B T) = insert B (heap_blocks fl T)"
  by (auto simp: heap_blocks_def)

lemma taken_new: "heap_core s fl (insert (a, i) T) xs \<Longrightarrow> (a, i) \<notin> T \<Longrightarrow> (a, i) \<notin> heap_blocks fl T"
  using heap_coreD(5) [of s fl "insert (a, i) T" xs "(a, i)"] by (simp add: heap_blocks_def)

lemma block_ok_half:
  assumes "block_ok s xs (a, Suc i)" "4 \<le> i" "b = a \<or> b = get_buddy a i"
  shows "block_ok s xs (b, i)"
proof -
  note ok = block_okD [OF assms(1)]
  have i: "i < 64" using ok(2) by simp
  have b: "b \<in> span a (Suc i)" unfolding span_halves [OF i, of a] using assms(3) span_refl by blast
  have "aligned b i" using assms(3) aligned_mono [OF ok(3), of i] aligned_buddy [of i a] ok(2) by auto
  then show ?thesis using ok PGROUNDDOWN_span [OF b ok(2)] assms(2) by (simp add: block_ok_def MIN_LEVEL_def MAX_LEVEL_def)
qed

lemma heap_halve:
  assumes "heap_core s fl (insert (a, Suc i) T) xs" "(a, Suc i) \<notin> T" "4 \<le> i"
  shows "heap_core s fl (insert (get_buddy a i, i) (insert (a, i) T)) xs"
    and "(get_buddy a i, i) \<notin> insert (a, i) T" and "(a, i) \<notin> T"
proof -
  let ?b = "get_buddy a i" let ?S = "{(?b, i), (a, i)}"
  have B: "(a, Suc i) \<in> heap_blocks fl (insert (a, Suc i) T)" by (simp add: heap_blocks_insert)
  have ok: "block_ok s xs (a, Suc i)" by (rule heap_coreD(6) [OF assms(1) B])
  have i: "i < 64" using block_okD(2) [OF ok] by simp
  have sp: "span a i \<subseteq> span a (Suc i)" "span ?b i \<subseteq> span a (Suc i)" "span a i \<inter> span ?b i = {}"
    using span_halves [OF i, of a] span_buddy_disjoint [OF i, of a] by auto
  have ne: "?b \<noteq> a" using sp(3) by (metis Int_absorb empty_iff span_refl)
  have ap: "apart (?S \<union> heap_blocks fl T)"
  proof (rule apart_replace)
    show "apart (insert (a, Suc i) (heap_blocks fl T))" using heap_coreD(7) [OF assms(1)] by (simp add: heap_blocks_insert)
    show "(a, Suc i) \<notin> heap_blocks fl T" by (rule taken_new [OF assms(1,2)])
    show "apart ?S" using sp(3) by (auto simp: apart_def)
  qed (use sp in auto)
  have out: "(x, i) \<notin> heap_blocks fl T" if "x \<in> span a (Suc i)" for x
  proof
    assume x: "(x, i) \<in> heap_blocks fl T"
    have "span a (Suc i) \<inter> span x i = {}"
      using apartD [OF heap_coreD(7) [OF assms(1)] B, of x i] x by (simp add: heap_blocks_insert)
    then show False using that span_refl [of x i] by blast
  qed
  have n: "(?b, i) \<notin> heap_blocks fl T" "(a, i) \<notin> heap_blocks fl T"
    using out [of ?b] out [of a] sp span_refl [of ?b i] span_refl [of a i] by blast+
  then show "(?b, i) \<notin> insert (a, i) T" "(a, i) \<notin> T" using ne by (auto simp: heap_blocks_def)
  show "heap_core s fl (insert (?b, i) (insert (a, i) T)) xs"
  proof (rule heap_coreI)
    show "x \<notin> set (fl k)" if "(x, k) \<in> insert (?b, i) (insert (a, i) T)" for x k
      using that n heap_coreD(5) [OF assms(1), of "(x, k)"] by (auto simp: heap_blocks_def)
    show "block_ok s xs C" if "C \<in> heap_blocks fl (insert (?b, i) (insert (a, i) T))" for C
      using that heap_coreD(6) [OF assms(1), of C] block_ok_half [OF ok assms(3)] by (auto simp: heap_blocks_insert)
    show "apart (heap_blocks fl (insert (?b, i) (insert (a, i) T)))" using ap by (simp add: heap_blocks_insert)
  qed (use heap_coreD [OF assms(1)] in simp_all)
qed

lemma heap_merge:
  assumes "heap_core s fl (insert (a, i) (insert (get_buddy a i, i) T)) xs" "(a, i) \<notin> T" "(get_buddy a i, i) \<notin> T" "i < MAX_LEVEL"
    and c: "c = (if a < get_buddy a i then a else get_buddy a i)"
  shows "heap_core s fl (insert (c, Suc i) T) xs" and "(c, Suc i) \<notin> T"
proof -
  let ?b = "get_buddy a i" let ?S = "{(a, i), (?b, i)}"
  have B: "(a, i) \<in> heap_blocks fl (insert (a, i) (insert (?b, i) T))" "(?b, i) \<in> heap_blocks fl (insert (a, i) (insert (?b, i) T))"
    by (simp_all add: heap_blocks_insert)
  have ok: "block_ok s xs (a, i)" by (rule heap_coreD(6) [OF assms(1) B(1)])
  note okD = block_okD [OF ok]
  have i: "i < 64" using okD(2) by simp
  have cs: "span c (Suc i) = span a i \<union> span ?b i"
    using span_halves [OF i, of a] span_buddy_Suc [OF i, of a] unfolding c by simp
  have cin: "c \<in> span a (Suc i)" using span_halves [OF i, of a] unfolding c by auto
  have out: "span c (Suc i) \<inter> span x k = {}" if x: "(x, k) \<in> heap_blocks fl T" for x k
  proof -
    have n: "(x, k) \<noteq> (a, i)" "(x, k) \<noteq> (?b, i)"
      using x assms(2,3) heap_coreD(5) [OF assms(1), of "(a, i)"] heap_coreD(5) [OF assms(1), of "(?b, i)"]
      by (auto simp: heap_blocks_def)
    have x': "(x, k) \<in> heap_blocks fl (insert (a, i) (insert (?b, i) T))" using x by (simp add: heap_blocks_insert)
    have "span x k \<inter> span a i = {}" "span x k \<inter> span ?b i = {}"
      by (rule apartD [OF heap_coreD(7) [OF assms(1)] x' B(1) n(1)], rule apartD [OF heap_coreD(7) [OF assms(1)] x' B(2) n(2)])
    then show ?thesis unfolding cs by blast
  qed
  have n: "(c, Suc i) \<notin> heap_blocks fl T" using out [of c "Suc i"] by (metis Int_absorb empty_iff span_refl)
  then show "(c, Suc i) \<notin> T" by (simp add: heap_blocks_def)
  have T: "apart (heap_blocks fl T)" by (rule apart_mono [OF heap_coreD(7) [OF assms(1)]]) (auto simp: heap_blocks_insert)
  have ap: "apart (insert (c, Suc i) (heap_blocks fl T))"
    unfolding apart_def
  proof (intro ballI impI)
    fix C D assume cd: "C \<in> insert (c, Suc i) (heap_blocks fl T)" "D \<in> insert (c, Suc i) (heap_blocks fl T)" "C \<noteq> D"
    then show "span (fst C) (snd C) \<inter> span (fst D) (snd D) = {}"
      using out [of "fst C" "snd C"] out [of "fst D" "snd D"] apartD [OF T, of "fst C" "snd C" "fst D" "snd D"] by auto
  qed
  have okc: "block_ok s xs (c, Suc i)"
    using okD aligned_merge [OF i okD(3)] PGROUNDDOWN_span [OF cin] assms(4) unfolding c
    by (simp add: block_ok_def MIN_LEVEL_def MAX_LEVEL_def)
  show "heap_core s fl (insert (c, Suc i) T) xs"
  proof (rule heap_coreI)
    show "x \<notin> set (fl k)" if "(x, k) \<in> insert (c, Suc i) T" for x k
      using that n heap_coreD(5) [OF assms(1), of "(x, k)"] by (auto simp: heap_blocks_def)
    show "block_ok s xs C" if "C \<in> heap_blocks fl (insert (c, Suc i) T)" for C
      using that heap_coreD(6) [OF assms(1), of C] okc by (auto simp: heap_blocks_insert)
    show "apart (heap_blocks fl (insert (c, Suc i) T))" using ap by (simp add: heap_blocks_insert)
  qed (use heap_coreD [OF assms(1)] in simp_all)
qed

text \<open>Pages from and to the page allocator.\<close>

lemma heap_level: "heap_core s fl T xs \<Longrightarrow> fl i \<noteq> [] \<Longrightarrow> 4 \<le> i \<and> i < 12"
  using heap_coreD(8) [of s fl T xs i] by (metis MAX_LEVEL_def MIN_LEVEL_def not_le)

lemma kbuddy_of_more: "kpages.more s' = kpages.more s \<Longrightarrow> freelist s' = freelist s \<and> maxlv s' = maxlv s"
  by (cases s; cases s'; auto)

lemma heap_page_in:
  assumes "heap_core s fl T (x # xs)"
  shows "\<exists>s'. ma_alloc s = (x, s') \<and> heap_core s' fl (insert (x, MAX_LEVEL) T) xs \<and> keeps T s s' \<and> (x, MAX_LEVEL) \<notin> T \<and> x \<noteq> 0"
proof -
  obtain s' where s': "ma_alloc s = (x, s')" "pages_free s' xs" "only_pages {x} (mem s) (mem s')" "kend s' = kend s"
      "kpages.more s' = kpages.more s" "managed s x"
    using ma_alloc_page [OF heap_coreD(2) [OF assms]] by auto
  have x: "page_aligned x" "x \<notin> set xs" "PGROUNDDOWN x = x"
    using s'(6) heap_coreD(2) [OF assms] by (auto simp: managed_def pages_free_def PGROUNDDOWN_aligned)
  have w: "within (span x 12) (mem s) (mem s')" using within_only_pages [OF s'(3) x(1)] .
  have mg: "managed s' = managed s" using s'(4) by (auto simp: managed_def fun_eq_iff)
  have out: "span b k \<inter> span x 12 = {} \<and> block_ok s' xs (b, k)" if b: "(b, k) \<in> heap_blocks fl T" for b k
  proof -
    note okB = heap_coreD(6) [OF assms b]
    have "PGROUNDDOWN b \<noteq> x" using block_okD(5) [OF okB] by auto
    then have "span b k \<inter> span x 12 = {}"
      using PGROUNDDOWN_span [OF _ block_okD(2) [OF okB]] x(3) by (auto simp: span_page)
    then show ?thesis using okB by (simp add: block_ok_def mg)
  qed
  have okx: "block_ok s' xs (x, MAX_LEVEL)" using x s'(6) mg by (simp add: block_ok_def MAX_LEVEL_def MIN_LEVEL_def aligned_page)
  have n: "(x, MAX_LEVEL) \<notin> heap_blocks fl T" using out [of x 12] by (auto simp: MAX_LEVEL_def)
  have h: "heap_core s' fl (insert (x, MAX_LEVEL) T) xs"
  proof (rule heap_coreI)
    show "chain (mem s') (freelist s' i) (fl i)" if i: "i \<le> MAX_LEVEL" for i
    proof (cases "fl i = []")
      case False
      have al: "\<forall>b \<in> set (fl i). span b i \<inter> span x 12 = {} \<and> aligned b i"
        using out block_okD(3) by (fastforce simp: heap_blocks_def)
      moreover have "4 \<le> i" using heap_level [OF assms False] by simp
      ultimately show ?thesis
        using chain_within [OF w al, of "freelist s i"] heap_coreD(3) [OF assms i] kbuddy_of_more [OF s'(5)] i
        by (simp add: MAX_LEVEL_def)
    qed (use heap_coreD(3) [OF assms i] kbuddy_of_more [OF s'(5)] in simp)
    show "b \<notin> set (fl k)" if "(b, k) \<in> insert (x, MAX_LEVEL) T" for b k
      using that n heap_coreD(5) [OF assms, of "(b, k)"] by (auto simp: heap_blocks_def)
    show "block_ok s' xs C" if "C \<in> heap_blocks fl (insert (x, MAX_LEVEL) T)" for C
      using that out [of "fst C" "snd C"] okx by (auto simp: heap_blocks_insert)
    show "apart (heap_blocks fl (insert (x, MAX_LEVEL) T))"
      unfolding heap_blocks_insert apart_def
    proof (intro ballI impI)
      fix C D assume cd: "C \<in> insert (x, MAX_LEVEL) (heap_blocks fl T)" "D \<in> insert (x, MAX_LEVEL) (heap_blocks fl T)" "C \<noteq> D"
      then show "span (fst C) (snd C) \<inter> span (fst D) (snd D) = {}"
        using out [of "fst C" "snd C"] out [of "fst D" "snd D"]
          apartD [OF heap_coreD(7) [OF assms], of "fst C" "snd C" "fst D" "snd D"] by (auto simp: MAX_LEVEL_def)
    qed
  qed (use heap_coreD [OF assms] s'(2) kbuddy_of_more [OF s'(5)] in simp_all)
  have "keeps T s s'" using w out by (fastforce simp: keeps_def within_def heap_blocks_def)
  moreover have "(x, MAX_LEVEL) \<notin> T" using n by (simp add: heap_blocks_def)
  ultimately show ?thesis using s'(1) h block_nonzero [OF okx s'(2)] by auto
qed

lemma heap_page_out:
  assumes "heap_core s fl (insert (a, MAX_LEVEL) T) xs" "(a, MAX_LEVEL) \<notin> T"
  shows "\<exists>s'. ma_free a s = Inr s' \<and> heap_core s' fl T (a # xs) \<and> keeps T s s'"
proof -
  have B: "(a, MAX_LEVEL) \<in> heap_blocks fl (insert (a, MAX_LEVEL) T)" by (simp add: heap_blocks_insert)
  note ok = block_okD [OF heap_coreD(6) [OF assms(1) B]]
  have a: "page_aligned a" using ok(3) by (simp add: MAX_LEVEL_def aligned_page)
  then have pg: "PGROUNDDOWN a = a" by (rule PGROUNDDOWN_aligned)
  obtain s' where s': "ma_free a s = Inr s'" "pages_free s' (a # xs)" "only_pages {a} (mem s) (mem s')" "kend s' = kend s"
      "kpages.more s' = kpages.more s"
    using ma_free_page [OF heap_coreD(2) [OF assms(1)], of a] ok(4,5) pg by auto
  have w: "within (span a 12) (mem s) (mem s')" using within_only_pages [OF s'(3) a] .
  have out: "span b k \<inter> span a 12 = {} \<and> block_ok s' (a # xs) (b, k)" if b: "(b, k) \<in> heap_blocks fl T" for b k
  proof -
    have b': "(b, k) \<in> heap_blocks fl (insert (a, MAX_LEVEL) T)" "(b, k) \<noteq> (a, MAX_LEVEL)"
      using b taken_new [OF assms] by (auto simp: heap_blocks_insert)
    have d: "span b k \<inter> span a 12 = {}" using apartD [OF heap_coreD(7) [OF assms(1)] b'(1) B b'(2)] by (simp add: MAX_LEVEL_def)
    then have "b \<notin> span a 12" using span_refl [of b k] by blast
    then have "PGROUNDDOWN b \<noteq> a" using pg by (simp add: span_page)
    then show ?thesis using d heap_coreD(6) [OF assms(1) b'(1)] s'(4) by (simp add: block_ok_def managed_def)
  qed
  have "heap_core s' fl T (a # xs)"
  proof (rule heap_coreI)
    show "chain (mem s') (freelist s' i) (fl i)" if i: "i \<le> MAX_LEVEL" for i
    proof (cases "fl i = []")
      case False
      have al: "\<forall>b \<in> set (fl i). span b i \<inter> span a 12 = {} \<and> aligned b i"
        using out block_okD(3) by (fastforce simp: heap_blocks_def)
      moreover have "4 \<le> i" using heap_level [OF assms(1) False] by simp
      ultimately show ?thesis
        using chain_within [OF w al, of "freelist s i"] heap_coreD(3) [OF assms(1) i] kbuddy_of_more [OF s'(5)] i
        by (simp add: MAX_LEVEL_def)
    qed (use heap_coreD(3) [OF assms(1) i] kbuddy_of_more [OF s'(5)] in simp)
    show "b \<notin> set (fl k)" if "(b, k) \<in> T" for b k using that heap_coreD(5) [OF assms(1), of "(b, k)"] by simp
    show "block_ok s' (a # xs) C" if "C \<in> heap_blocks fl T" for C using that out [of "fst C" "snd C"] by simp
    show "apart (heap_blocks fl T)" by (rule apart_mono [OF heap_coreD(7) [OF assms(1)]]) (auto simp: heap_blocks_insert)
  qed (use heap_coreD [OF assms(1)] s'(2) kbuddy_of_more [OF s'(5)] in simp_all)
  moreover have "keeps T s s'" using w out by (fastforce simp: keeps_def within_def heap_blocks_def)
  ultimately show ?thesis using s'(1) by blast
qed

text \<open>The search of \<^verbatim>\<open>free\<close> and the removal of the block it finds.\<close>

lemma list_search_absent:
  assumes "chain m p ys" "b \<notin> set ys" "b \<noteq> 0" "length ys < fuel"
  shows "\<exists>q. list_search fuel m r p b = Inr (q, 0)"
  using assms
proof (induction ys arbitrary: p r fuel)
  case Nil
  then show ?case by (cases fuel) auto
next
  case (Cons y ys)
  then show ?case by (cases fuel) auto
qed

lemma list_search_finds:
  assumes "chain m p (ys @ b # zs)" "b \<notin> set ys" "length ys < fuel"
  shows "list_search fuel m r p b = Inr (if ys = [] then r else last ys, b)"
  using assms
proof (induction ys arbitrary: p r fuel)
  case Nil
  then show ?case by (cases fuel) auto
next
  case (Cons y ys)
  then show ?case by (cases fuel) auto
qed

lemma chain_unlink:
  assumes "chain m p (ys @ b # zs)" "distinct (ys @ b # zs)" "ys \<noteq> []"
    and "\<forall>x \<in> set (ys @ b # zs). aligned x i" "4 \<le> i" "i \<le> 63"
    and "\<forall>x \<in> set (ys @ b # zs). x \<noteq> last ys \<longrightarrow> span x i \<inter> span (last ys) i = {}"
  shows "chain (write64 m (last ys) (read64 m b)) p (ys @ zs)"
proof -
  let ?l = "last ys" let ?m = "write64 m ?l (read64 m b)"
  have w: "within (span ?l i) m ?m" using assms(3-6) by (intro within_write64) auto
  have r: "read64 ?m x = read64 m x" if "x \<in> set (ys @ b # zs)" "x \<noteq> ?l" for x
    using that assms by (intro read64_within [OF w]) auto
  have "x \<noteq> ?l" if "x \<in> set zs" for x using that assms(2) last_in_set [OF assms(3)] by auto
  then have "\<forall>x \<in> set zs. span x i \<inter> span ?l i = {} \<and> aligned x i" using assms(4,7) by auto
  then have z: "chain ?m q zs = chain m q zs" for q using assms(5,6) by (intro chain_within [OF w])
  have "chain m p (us @ b # zs) \<Longrightarrow> us \<noteq> [] \<Longrightarrow> last us = ?l \<Longrightarrow> set us \<subseteq> set ys \<Longrightarrow> distinct us \<Longrightarrow> chain ?m p (us @ zs)" for us p
  proof (induction us arbitrary: p)
    case (Cons u us)
    show ?case
    proof (cases "us = []")
      case True
      then show ?thesis using Cons z by (auto simp: read64_write64_same)
    next
      case False
      then have "u \<noteq> ?l" using Cons.prems(3,5) last_in_set [OF False] by auto
      then have "read64 ?m u = read64 m u" using r Cons.prems(4) by auto
      then show ?thesis using Cons False by auto
    qed
  qed simp
  then show ?thesis using assms(1-3) by auto
qed

text \<open>Removal of the block \<open>b\<close> from the list of level \<open>i\<close>; \<open>ys\<close> are the blocks before it.\<close>

lemma heap_unlink:
  assumes "heap_core s fl T xs" "fl i = ys @ b # zs" "(a, i) \<in> T"
    and s': "s' = (if ys = [] then s\<lparr>freelist := (freelist s)(i := read64 (mem s) b)\<rparr>
                   else s\<lparr>mem := write64 (mem s) (last ys) (read64 (mem s) b)\<rparr>)"
  shows "heap_core s' (fl(i := ys @ zs)) (insert (b, i) T) xs" and "keeps T s s'" and "(b, i) \<notin> T"
proof -
  have bT: "(b, i) \<notin> T" using heap_coreD(5) [OF assms(1), of "(b, i)"] assms(2) by auto
  then show "(b, i) \<notin> T" .
  have lv: "4 \<le> i" "i < 12" using heap_level [OF assms(1), of i] assms(2) by auto
  show "heap_core s' (fl(i := ys @ zs)) (insert (b, i) T) xs"
  proof (cases "ys = []")
    case True
    then show ?thesis using heap_pop(1) [OF assms(1), of i b zs] assms(2) by (simp add: s')
  next
    case False
    let ?m = "write64 (mem s) (last ys) (read64 (mem s) b)"
    have l: "(last ys, i) \<in> heap_blocks fl T" "last ys \<in> set (fl i)" using False assms(2) by (auto simp: heap_blocks_def)
    have blk: "(x, i) \<in> heap_blocks fl T" if "x \<in> set (ys @ b # zs)" for x using that assms(2) by (auto simp: heap_blocks_def)
    have al: "\<forall>x \<in> set (ys @ b # zs). aligned x i" using block_okD(3) [OF heap_coreD(6) [OF assms(1) blk]] by blast
    have w: "within (span (last ys) i) (mem s) ?m" using al lv False by (intro within_write64) auto
    have ap: "\<forall>x \<in> set (ys @ b # zs). x \<noteq> last ys \<longrightarrow> span x i \<inter> span (last ys) i = {}"
      using apartD [OF heap_coreD(7) [OF assms(1)] blk l(1)] by auto
    have d: "distinct (ys @ b # zs)" using heap_coreD(4) [OF assms(1), of i] assms(2) by simp
    have "chain (mem s) (freelist s i) (ys @ b # zs)" using heap_coreD(3) [OF assms(1), of i] lv assms(2) by (simp add: MAX_LEVEL_def)
    then have ci: "chain ?m (freelist s i) (ys @ zs)" using chain_unlink [OF _ d False al _ _ ap] lv by simp
    note ch = change_in_block [OF assms(1) l(1) w]
    have h: "heap_blocks (fl(i := ys @ zs)) (insert (b, i) T) = heap_blocks fl T"
      using assms(2) by (auto simp: heap_blocks_def split: if_splits)
    have "heap_core (s\<lparr>mem := ?m\<rparr>) (fl(i := ys @ zs)) (insert (b, i) T) xs"
    proof (rule heap_coreI)
      show "chain (mem (s\<lparr>mem := ?m\<rparr>)) (freelist (s\<lparr>mem := ?m\<rparr>) k) ((fl(i := ys @ zs)) k)" if k: "k \<le> MAX_LEVEL" for k
        using ci ch(2) [of k "freelist s k"] heap_coreD(3) [OF assms(1) k] by (cases "k = i") simp_all
      show "(fl(i := ys @ zs)) k = []" if "k < MIN_LEVEL \<or> MAX_LEVEL \<le> k" for k
        using heap_coreD(8) [OF assms(1) that] that lv by (auto simp: MIN_LEVEL_def MAX_LEVEL_def)
      show "distinct ((fl(i := ys @ zs)) k)" for k using heap_coreD(4) [OF assms(1), of k] d by simp
      show "x \<notin> set ((fl(i := ys @ zs)) k)" if "(x, k) \<in> insert (b, i) T" for x k
        using heap_coreD(5) [OF assms(1), of "(x, k)"] that d assms(2) by (auto split: if_splits)
      show "block_ok (s\<lparr>mem := ?m\<rparr>) xs B" if "B \<in> heap_blocks (fl(i := ys @ zs)) (insert (b, i) T)" for B
        using heap_coreD(6) [OF assms(1), of B] that unfolding h by simp
      show "apart (heap_blocks (fl(i := ys @ zs)) (insert (b, i) T))" using heap_coreD(7) [OF assms(1)] unfolding h .
    qed (use ch(1) heap_coreD(1) [OF assms(1)] in simp_all)
    then show ?thesis using False by (simp add: s')
  qed
  show "keeps T s s'"
  proof (cases "ys = []")
    case False
    have l: "(last ys, i) \<in> heap_blocks fl T" "(last ys, i) \<notin> T"
      using False assms(2) heap_coreD(5) [OF assms(1), of "(last ys, i)"] by (auto simp: heap_blocks_def)
    have "apart (insert (last ys, i) T)" using l(1) by (intro apart_mono [OF heap_coreD(7) [OF assms(1)]]) (auto simp: heap_blocks_def)
    moreover have "within (span (last ys) i) (mem s) (mem s')"
      using False lv block_okD(3) [OF heap_coreD(6) [OF assms(1) l(1)]] within_write64 [of "last ys" i "mem s"] by (simp add: s')
    ultimately show ?thesis using keeps_within l(2) by blast
  qed (simp add: s' keeps_def)
qed

section \<open>Allocation and release\<close>

lemma buddy_search_finds:
  assumes "heap_core s fl T xs" "lv \<le> i" "\<forall>k. lv \<le> k \<longrightarrow> k < i \<longrightarrow> fl k = []" "i \<le> MAX_LEVEL" "fl i \<noteq> [] \<or> i = MAX_LEVEL"
  shows "buddy_search lv s = (if fl i \<noteq> [] then Inr (i, freelist s i, s\<lparr>freelist := (freelist s)(i := read64 (mem s) (freelist s i))\<rparr>)
     else Inr (i, 0, s))"
  using assms(2,3)
proof (induction "i - lv" arbitrary: lv)
  case 0
  then have "lv = i" by simp
  moreover have "freelist s i = 0 \<longleftrightarrow> fl i = []" using heap_coreD(3) [OF assms(1,4)] by (cases "fl i") auto
  ultimately show ?case using assms(4,5) heap_coreD(1) [OF assms(1)] by (auto simp: buddy_search.simps [of i s] fun_upd_def)
next
  case (Suc n)
  then have lt: "lv < i" by simp
  then have "freelist s lv = 0" using heap_coreD(3) [OF assms(1), of lv] Suc.prems(2) assms(4) by simp
  then have "buddy_search lv s = buddy_search (Suc lv) s"
    using lt assms(4) heap_coreD(1) [OF assms(1)] by (simp add: buddy_search.simps [of lv s])
  then show ?case using Suc.hyps(1) [of "Suc lv"] Suc.hyps(2) Suc.prems lt by simp
qed

lemma buddy_split_core:
  assumes "heap_core s fl (insert (a, lv + n) T) xs" "(a, lv + n) \<notin> T" "4 \<le> lv"
  shows "\<exists>fl'. heap_core (buddy_split n lv a s) fl' (insert (a, lv) T) xs \<and> keeps T s (buddy_split n lv a s) \<and> (a, lv) \<notin> T"
  using assms(1,2)
proof (induction n arbitrary: s fl)
  case 0
  then show ?case by auto
next
  case (Suc n)
  let ?b = "get_buddy a (lv + n)"
  let ?s = "s\<lparr>mem := write64 (mem s) ?b (freelist s (lv + n)), freelist := (freelist s)(lv + n := ?b)\<rparr>"
  have c: "heap_core s fl (insert (a, Suc (lv + n)) T) xs" "(a, Suc (lv + n)) \<notin> T" using Suc.prems by simp_all
  have lt: "lv + n < MAX_LEVEL"
    using block_okD(2) [OF heap_coreD(6) [OF c(1), of "(a, Suc (lv + n))"]] by (simp add: heap_blocks_insert MAX_LEVEL_def)
  note hv = heap_halve [OF c]
  have l4: "4 \<le> lv + n" using assms(3) by simp
  note ps = heap_push [OF hv(1) [OF l4] hv(2) [OF l4] lt]
  obtain fl' where "heap_core (buddy_split n lv a ?s) fl' (insert (a, lv) T) xs" "keeps T ?s (buddy_split n lv a ?s)" "(a, lv) \<notin> T"
    using Suc.IH [OF ps(1) hv(3) [OF l4]] by blast
  moreover have "keeps T s ?s" using keeps_mono [OF ps(2), of T] by blast
  ultimately show ?case by (auto simp: Let_def intro: keeps_trans)
qed

lemma buddy_nonzero:
  assumes "block_ok s xs (a, i)" "i < 12" "pages_free s ys" shows "get_buddy a i \<noteq> 0"
proof
  let ?b = "get_buddy a i"
  assume "?b = 0"
  then have "PGROUNDDOWN ?b = 0" by (simp add: PGROUNDDOWN_def)
  moreover have "?b \<in> span a 12" using span_halves [of i a] assms(2) span_mono [of "Suc i" 12 a] by auto
  ultimately have "PGROUNDDOWN a = 0" by (simp add: span_page)
  then show False using block_okD(4) [OF assms(1)] assms(3) by (simp add: managed_def pages_free_def)
qed

text \<open>The bytes after the eight of the bookkeeping are not among them.\<close>

lemma header_outside:
  assumes "aligned a 3" "k \<le> 4088" shows "a + 8 + of_nat k \<notin> span a 3"
proof
  let ?x = "a + 8 + of_nat k"
  assume x: "?x \<in> span a 3"
  have "bit ?x n \<longleftrightarrow> bit a n \<or> n < 3 \<and> bit ?x n" for n
    using x assms(1) by (cases "n < 3") (auto simp: span_def aligned_def)
  then have "?x = a OR take_bit 3 ?x" by (intro bit_word_eqI) (simp add: bit_or_iff bit_take_bit_iff)
  also have "\<dots> = a + take_bit 3 ?x"
    using assms(1) by (intro disjunctive_add [symmetric]) (auto simp: bit_take_bit_iff aligned_def)
  finally have "of_nat (8 + k) = take_bit 3 ?x" by (simp add: add.assoc)
  then have "unat (take_bit 3 ?x) = unat (of_nat (8 + k) :: u64)" by (simp only:)
  also have "\<dots> = 8 + k" using assms(2) by (intro unat_of_nat_small) simp
  finally have "unat (take_bit 3 ?x) = 8 + k" .
  moreover have "unat (take_bit 3 ?x) < 8" using take_bit_nat_less_exp [of 3 "unat ?x"] by (simp add: unsigned_take_bit_eq)
  ultimately show False by simp
qed

lemma calc_level_size:
  assumes "unat sz \<le> 4088"
  shows "\<exists>lv. calc_level (sz + 8) = Inr lv \<and> 4 \<le> lv \<and> lv \<le> 12 \<and> unat sz + 8 \<le> 2 ^ lv \<and>
    (\<forall>i. unat sz + 8 \<le> 2 ^ i \<longrightarrow> 4 \<le> i \<longrightarrow> lv \<le> i)"
proof -
  have u: "unat (sz + 8) = unat sz + 8" using assms by (simp add: unat_word_ariths)
  define k where "k = (LEAST k. 4 \<le> k \<and> unat sz + 8 \<le> 2 ^ k)"
  have ex: "4 \<le> (12 :: nat) \<and> unat sz + 8 \<le> 2 ^ 12" using assms by simp
  have k: "4 \<le> k" "unat sz + 8 \<le> 2 ^ k" "k \<le> 12"
    using LeastI [of "\<lambda>k. 4 \<le> k \<and> unat sz + 8 \<le> 2 ^ k", OF ex] Least_le [of "\<lambda>k. 4 \<le> k \<and> unat sz + 8 \<le> 2 ^ k", OF ex]
    by (simp_all add: k_def)
  have "k = 4 \<or> 2 ^ (k - 1) < unat sz + 8"
  proof (rule disjCI)
    assume "\<not> 2 ^ (k - 1) < unat sz + 8"
    then have "\<not> 4 \<le> k - 1" using not_less_Least [of "k - 1" "\<lambda>k. 4 \<le> k \<and> unat sz + 8 \<le> 2 ^ k"] k(1) by (auto simp: k_def)
    then show "k = 4" using k(1) by linarith
  qed
  then have "calc_level (sz + 8) = Inr k"
    using k u by (intro calc_level_eq)
      (auto simp del: push_bit_of_1 simp: MIN_LEVEL_def word_le_nat_alt word_less_nat_alt unat_shift_1)
  moreover have "k \<le> i" if "unat sz + 8 \<le> 2 ^ i" "4 \<le> i" for i unfolding k_def using that by (intro Least_le) simp
  ultimately show ?thesis using k by blast
qed

text \<open>What a heap in use looks like: the taken blocks \<open>U\<close> carry their level in their first byte.\<close>

definition heap_inv :: "'a kbuddy_scheme \<Rightarrow> (nat \<Rightarrow> u64 list) \<Rightarrow> (u64 \<times> nat) set \<Rightarrow> u64 list \<Rightarrow> bool" where
  "heap_inv s fl U xs \<longleftrightarrow> heap_core s fl U xs \<and> (\<forall>B \<in> U. mem s (fst B) = of_nat (snd B))"

text \<open>The block an allocation of level \<open>lv\<close> starts from: the first list with a block, or a page.\<close>

lemma buddy_take:
  assumes "heap_core s fl T xs" "4 \<le> lv" "lv \<le> 12" "(\<exists>i \<ge> lv. fl i \<noteq> []) \<or> xs \<noteq> []"
  obtains i a a' s1 s2 fl' xs' where "buddy_search lv s = Inr (i, a', s1)" "(if a' = 0 then ma_alloc s1 else (a', s1)) = (a, s2)"
    "a \<noteq> 0" "lv \<le> i" "heap_core s2 fl' (insert (a, i) T) xs'" "(a, i) \<notin> T" "keeps T s s2"
proof (cases "\<exists>i \<ge> lv. fl i \<noteq> []")
  case True
  define i where "i = (LEAST i. lv \<le> i \<and> fl i \<noteq> [])"
  have i: "lv \<le> i" "fl i \<noteq> []" using LeastI_ex [of "\<lambda>i. lv \<le> i \<and> fl i \<noteq> []"] True by (auto simp: i_def)
  have lo: "\<forall>k. lv \<le> k \<longrightarrow> k < i \<longrightarrow> fl k = []" 
    using not_less_Least [where P = "\<lambda>i. lv \<le> i \<and> fl i \<noteq> []"] unfolding i_def by blast
  obtain a bs where a: "fl i = a # bs" using i(2) by (cases "fl i") auto
  have "i \<le> MAX_LEVEL" using heap_level [OF assms(1) i(2)] by (simp add: MAX_LEVEL_def)
  note f = buddy_search_finds [OF assms(1) i(1) lo this disjI1 [OF i(2)]]
  note pop = heap_pop [OF assms(1) a]
  let ?s = "s\<lparr>freelist := (freelist s)(i := read64 (mem s) a)\<rparr>"
  show ?thesis
  proof (rule that)
    show "buddy_search lv s = Inr (i, a, ?s)" using f i(2) unfolding pop(2) by (simp only: if_True not_False_eq_True)
    show "(if a = 0 then ma_alloc ?s else (a, ?s)) = (a, ?s)" using pop(3) by simp
    show "keeps T s ?s" by (simp add: keeps_def)
  qed (use pop i(1) in auto)
next
  case False
  then obtain x ys where xs: "xs = x # ys" using assms(4) by (cases xs) auto
  have "buddy_search lv s = Inr (MAX_LEVEL, 0, s)"
    using buddy_search_finds [OF assms(1), of lv MAX_LEVEL] False assms(3) by (auto simp: MAX_LEVEL_def)
  moreover obtain s' where "ma_alloc s = (x, s')" "heap_core s' fl (insert (x, MAX_LEVEL) T) ys" "keeps T s s'" "(x, MAX_LEVEL) \<notin> T" "x \<noteq> 0"
    using heap_page_in [of s fl T x ys] assms(1) xs by auto
  ultimately show ?thesis using assms(3) that [of MAX_LEVEL 0 s x s' fl ys] by (simp add: MAX_LEVEL_def)
qed

lemma buddy_alloc_core:
  assumes "heap_inv s fl U xs" "calc_level (sz + 8) = Inr lv" "4 \<le> lv" "lv \<le> 12" "(\<exists>i \<ge> lv. fl i \<noteq> []) \<or> xs \<noteq> []"
  obtains a s' fl' xs' where "buddy_alloc sz s = Inr (a + 8, s')" "heap_inv s' fl' (insert (a, lv) U) xs'" "(a, lv) \<notin> U" "keeps U s s'"
proof -
  have core: "heap_core s fl U xs" using assms(1) by (simp add: heap_inv_def)
  obtain i a a' s1 s2 fl2 xs2 where t: "buddy_search lv s = Inr (i, a', s1)" "(if a' = 0 then ma_alloc s1 else (a', s1)) = (a, s2)"
    "a \<noteq> 0" "lv \<le> i" "heap_core s2 fl2 (insert (a, i) U) xs2" "(a, i) \<notin> U" "keeps U s s2"
    by (rule buddy_take [OF core assms(3-5)])
  obtain n where n: "i = lv + n" using t(4) le_Suc_ex by blast
  let ?s3 = "buddy_split n lv a s2" let ?s4 = "?s3\<lparr>mem := (mem ?s3)(a := of_nat lv)\<rparr>"
  obtain fl' where sp: "heap_core ?s3 fl' (insert (a, lv) U) xs2" "keeps U s2 ?s3" "(a, lv) \<notin> U"
    using buddy_split_core [OF _ _ assms(3), of s2 fl2 a n U xs2] t(5,6) n by auto
  have c4: "heap_core ?s4 fl' (insert (a, lv) U) xs2" by (rule heap_write [OF sp(1), of a lv]) (simp_all add: within_byte)
  have k4: "keeps U ?s3 ?s4"
    by (rule keeps_within [OF _ apart_taken [OF sp(1)] sp(3)]) (simp add: within_byte)
  have k: "keeps U s ?s4" using t(7) sp(2) k4 by (blast intro: keeps_trans)
  have "mem ?s4 (fst B) = of_nat (snd B)" if "B \<in> insert (a, lv) U" for B
  proof (cases "B = (a, lv)")
    case False
    then have "B \<in> U" using that by simp
    then show ?thesis using k assms(1) by (simp add: keeps_def heap_inv_def)
  qed simp
  then have "heap_inv ?s4 fl' (insert (a, lv) U) xs2" using c4 by (simp add: heap_inv_def)
  moreover have "buddy_alloc sz s = Inr (a + 8, ?s4)"
    using assms(2) t(1-3) n by (simp add: buddy_alloc_def Let_def)
  ultimately show ?thesis using sp(3) k that by blast
qed

lemma buddy_alloc_full:
  assumes "heap_inv s fl U xs" "calc_level (sz + 8) = Inr lv" "4 \<le> lv" "lv \<le> 12" "\<forall>i \<ge> lv. fl i = []" "xs = []"
  shows "buddy_alloc sz s = Inl (Panic ''buddy alloc'')"
proof -
  have core: "heap_core s fl U []" using assms(1,6) by (simp add: heap_inv_def)
  have "buddy_search lv s = Inr (MAX_LEVEL, 0, s)"
    using buddy_search_finds [OF core, of lv MAX_LEVEL] assms(4,5) by (auto simp: MAX_LEVEL_def)
  then show ?thesis using assms(2) ma_alloc_empty [OF heap_coreD(2) [OF core]] by (simp add: buddy_alloc_def)
qed

text \<open>
  What a release is for: \<open>free_space\<close> is the memory that is free, in blocks and in pages, and \<open>merged\<close> says that no block and
  its buddy are both free, so that free memory is in blocks as large as possible.
\<close>

definition free_space :: "(nat \<Rightarrow> u64 list) \<Rightarrow> u64 list \<Rightarrow> u64 set" where
  "free_space fl xs = (\<Union>i. \<Union>a \<in> set (fl i). span a i) \<union> (\<Union>x \<in> set xs. span x 12)"

definition merged :: "(nat \<Rightarrow> u64 list) \<Rightarrow> bool" where
  "merged fl \<longleftrightarrow> (\<forall>i. \<forall>x \<in> set (fl i). get_buddy x i \<notin> set (fl i))"

lemma free_space_Cons: "free_space fl (x # xs) = free_space fl xs \<union> span x 12"
  by (auto simp: free_space_def)

lemma free_space_split:
  assumes "fl i = ys @ b # zs" shows "free_space fl xs = free_space (fl(i := ys @ zs)) xs \<union> span b i"
proof -
  let ?g = "fl(i := ys @ zs)"
  have "x \<in> set (fl k) \<longleftrightarrow> x \<in> set (?g k) \<or> (x = b \<and> k = i)" for x k using assms by auto
  then have "(\<exists>k. \<exists>x \<in> set (fl k). y \<in> span x k) \<longleftrightarrow> (\<exists>k. \<exists>x \<in> set (?g k). y \<in> span x k) \<or> y \<in> span b i" for y by blast
  then show ?thesis unfolding free_space_def by (simp add: set_eq_iff disj_ac del: fun_upd_apply)
qed

lemma free_space_push: "free_space (fl(i := b # fl i)) xs = free_space fl xs \<union> span b i"
  using free_space_split [of "fl(i := b # fl i)" i "[]" b "fl i" xs] by simp

lemma merged_push:
  assumes "merged fl" "get_buddy a i \<notin> set (fl i)" "i < 64" shows "merged (fl(i := a # fl i))"
proof -
  have "bit (get_buddy a i) i \<noteq> bit a i" using assms(3) by (simp add: bit_get_buddy)
  then have "get_buddy a i \<noteq> a" by auto
  moreover have "get_buddy x i \<noteq> a" if "x \<in> set (fl i)" for x using that assms(2) by auto
  ultimately show ?thesis using assms(1,2) by (auto simp: merged_def)
qed

lemma merged_subset: "merged fl \<Longrightarrow> fl i = ys @ b # zs \<Longrightarrow> merged (fl(i := ys @ zs))"
  by (auto simp: merged_def dest: spec [of _ i])

lemma buddy_free_core:
  assumes "heap_core s fl (insert (a, i) T) xs" "(a, i) \<notin> T"
  shows "\<exists>s' fl' xs'. (\<forall>fuel. (\<forall>k. length (fl k) < fuel) \<longrightarrow> buddy_free_loop fuel i a s = Inr s') \<and>
    heap_core s' fl' T xs' \<and> keeps T s s' \<and> free_space fl' xs' = free_space fl xs \<union> span a i \<and> (merged fl \<longrightarrow> merged fl')"
  using assms
proof (induction "12 - i" arbitrary: i a s fl)
  case 0
  have "i \<le> 12" using block_okD(2) [OF heap_coreD(6) [OF 0(2), of "(a, i)"]] by (simp add: heap_blocks_insert)
  then have i: "i = MAX_LEVEL" using 0(1) by (simp add: MAX_LEVEL_def)
  obtain s' where "ma_free a s = Inr s'" "heap_core s' fl T (a # xs)" "keeps T s s'"
    using heap_page_out [of s fl a T xs] 0 i by auto
  moreover have "buddy_free_loop fuel i a s = ma_free a s" for fuel
    using heap_coreD(1) [OF 0(2)] i unfolding buddy_free_loop.simps [of fuel i a s] by simp
  moreover have "free_space fl (a # xs) = free_space fl xs \<union> span a i" using i by (simp add: free_space_Cons MAX_LEVEL_def)
  ultimately show ?case by (intro exI [of _ s'] exI [of _ fl] exI [of _ "a # xs"]) simp
next
  case (Suc n)
  let ?b = "get_buddy a i"
  have lt: "i < 12" using Suc(2) by simp
  have ok: "block_ok s xs (a, i)" by (rule heap_coreD(6) [OF Suc(3)]) (simp add: heap_blocks_insert)
  have c: "chain (mem s) (freelist s i) (fl i)" using heap_coreD(3) [OF Suc(3), of i] lt by (simp add: MAX_LEVEL_def)
  have mx: "i \<noteq> maxlv s" "\<not> MAX_LEVEL < i" using heap_coreD(1) [OF Suc(3)] lt by (simp_all add: MAX_LEVEL_def)
  show ?case
  proof (cases "?b \<in> set (fl i)")
    case False
    have b0: "?b \<noteq> 0" by (rule buddy_nonzero [OF ok lt heap_coreD(2) [OF Suc(3)]])
    let ?s = "s\<lparr>mem := write64 (mem s) a (freelist s i), freelist := (freelist s)(i := a)\<rparr>"
    have "buddy_free_loop fuel i a s = Inr ?s" if len: "\<forall>k. length (fl k) < fuel" for fuel
    proof -
      obtain q where "list_search fuel (mem s) 0 (freelist s i) ?b = Inr (q, 0)"
        using list_search_absent [OF c False b0] len by blast
      then show ?thesis using mx b0 by (simp add: buddy_free_loop.simps [of fuel i a s] Let_def)
    qed
    then show ?thesis using heap_push [OF Suc(3,4)] lt False
      by (intro exI [of _ ?s] exI [of _ "fl(i := a # fl i)"] exI [of _ xs]) (simp add: MAX_LEVEL_def free_space_push merged_push)
  next
    case True
    then obtain ys zs where f: "fl i = ys @ ?b # zs" "?b \<notin> set ys" by (meson split_list_first)
    define s1 where "s1 = (if ys = [] then s\<lparr>freelist := (freelist s)(i := read64 (mem s) ?b)\<rparr>
        else s\<lparr>mem := write64 (mem s) (last ys) (read64 (mem s) ?b)\<rparr>)"
    define c' where "c' = (if a < ?b then a else ?b)"
    note ul = heap_unlink [OF Suc(3) f(1) insertI1 s1_def]
    have l0: "last ys \<noteq> 0" if "ys \<noteq> []"
      using block_nonzero [OF heap_coreD(6) [OF Suc(3), of "(last ys, i)"] heap_coreD(2) [OF Suc(3)]] that f(1)
      by (auto simp: heap_blocks_def)
    have st: "buddy_free_loop fuel i a s = buddy_free_loop fuel (Suc i) c' s1" if "\<forall>k. length (fl k) < fuel" for fuel
      using mx l0 list_search_finds [of "mem s" "freelist s i" ys ?b zs fuel 0] c f that [THEN spec, of i]
      by (auto simp: buddy_free_loop.simps [of fuel i a s] Let_def s1_def c'_def)
    have ins: "insert (?b, i) (insert (a, i) T) = insert (a, i) (insert (?b, i) T)" by blast
    have m: "heap_core s1 (fl(i := ys @ zs)) (insert (c', Suc i) T) xs" "(c', Suc i) \<notin> T"
      using heap_merge [OF ul(1) [unfolded ins] Suc(4) _ _ c'_def] ul(3) lt by (auto simp: MAX_LEVEL_def)
    have len: "\<forall>k. length ((fl(i := ys @ zs)) k) < fuel" if "\<forall>k. length (fl k) < fuel" for fuel
      using that f(1) by (auto dest: spec [of _ i])
    have "n = 12 - Suc i" using Suc(2) by simp
    from Suc(1) [OF this m] obtain s' fl' xs' where
        r: "\<forall>fuel. (\<forall>k. length ((fl(i := ys @ zs)) k) < fuel) \<longrightarrow> buddy_free_loop fuel (Suc i) c' s1 = Inr s'"
          "heap_core s' fl' T xs'" "keeps T s1 s'" "free_space fl' xs' = free_space (fl(i := ys @ zs)) xs \<union> span c' (Suc i)"
          "merged (fl(i := ys @ zs)) \<longrightarrow> merged fl'" by blast
    have "span c' (Suc i) = span a i \<union> span ?b i" using lt by (simp add: c'_def span_buddy_Suc) (simp add: span_halves)
    then have "free_space fl' xs' = free_space fl xs \<union> span a i" using r(4) free_space_split [of fl i ys ?b zs xs] f(1) by auto
    moreover have "merged fl \<longrightarrow> merged fl'" using r(5) merged_subset [of fl i ys ?b zs] f(1) by blast
    moreover have "keeps T s s1" using keeps_mono [OF ul(2), of T] by blast
    then have "keeps T s s'" using r(3) by (rule keeps_trans)
    moreover have "\<forall>fuel. (\<forall>k. length (fl k) < fuel) \<longrightarrow> buddy_free_loop fuel i a s = Inr s'" using st r(1) len by simp
    ultimately show ?thesis using r(2) by blast
  qed
qed

lemma lengths_bounded: "heap_core s fl T xs \<Longrightarrow> \<exists>n. \<forall>k. length (fl k) < n"
proof -
  assume h: "heap_core s fl T xs"
  have "length (fl k) < Suc (\<Sum>j \<in> {4..<12}. length (fl j))" for k
  proof (cases "k \<in> {4..<12}")
    case True
    then show ?thesis using member_le_sum [of k "{4..<12}" "\<lambda>j. length (fl j)"] by simp
  next
    case False
    then show ?thesis using heap_level [OF h, of k] by (cases "fl k = []") auto
  qed
  then show ?thesis by blast
qed

section \<open>The contract of the heap\<close>

text \<open>
  What the users of \<^verbatim>\<open>new\<close> and \<^verbatim>\<open>delete\<close> rely on: \<open>inv s U\<close> says that the heap is in order with the blocks \<open>U\<close> in use,
  \<open>same U s s'\<close> that the contents of the blocks \<open>U\<close> are the same in both states.
\<close>

locale block_heap =
  fixes new :: "u64 \<Rightarrow> 's \<Rightarrow> (u64 \<times> 's) result"
    and delete :: "nat \<Rightarrow> u64 \<Rightarrow> 's \<Rightarrow> 's result"
    and inv :: "'s \<Rightarrow> (u64 \<times> nat) set \<Rightarrow> bool"
    and same :: "(u64 \<times> nat) set \<Rightarrow> 's \<Rightarrow> 's \<Rightarrow> bool"
  assumes new_block: "inv s U \<Longrightarrow> unat sz \<le> 4088 \<Longrightarrow> new sz s = Inl (Panic ''buddy alloc'') \<or>
      (\<exists>a lv s'. new sz s = Inr (a + 8, s') \<and> inv s' (insert (a, lv) U) \<and> (a, lv) \<notin> U \<and> unat sz + 8 \<le> 2 ^ lv \<and> same U s s')"
    and delete_block: "inv s U \<Longrightarrow> (a, i) \<in> U \<Longrightarrow> \<exists>n s'. (\<forall>fuel \<ge> n. delete fuel (a + 8) s = Inr s') \<and> inv s' (U - {(a, i)}) \<and>
         same (U - {(a, i)}) s s'"
    and same_trans: "same U s s1 \<Longrightarrow> same U s1 s2 \<Longrightarrow> same U s s2"
    and in_use_apart: "inv s U \<Longrightarrow> apart U"
begin

text \<open>A block that is taken and given back leaves the heap in order and every other block as it was.\<close>

lemma new_delete:
  assumes "inv s U" "unat sz \<le> 4088" "new sz s = Inr (p, s1)"
  shows "\<exists>n s2. (\<forall>fuel \<ge> n. delete fuel p s1 = Inr s2) \<and> inv s2 U \<and> same U s s2"
proof -
  obtain a lv where a: "p = a + 8" "inv s1 (insert (a, lv) U)" "(a, lv) \<notin> U" "same U s s1"
    using new_block [OF assms(1,2)] assms(3) by auto
  have U: "insert (a, lv) U - {(a, lv)} = U" using a(3) by blast
  obtain n s2 where d: "\<forall>fuel \<ge> n. delete fuel (a + 8) s1 = Inr s2" "inv s2 U" "same U s1 s2"
    using delete_block [OF a(2) insertI1] unfolding U by blast
  show ?thesis using a(1,4) d same_trans by blast
qed

text \<open>Two blocks taken one after the other do not overlap.\<close>

lemma new_new_apart:
  assumes "inv s U" "unat sz \<le> 4088" "unat sz' \<le> 4088" "new sz s = Inr (p, s1)" "new sz' s1 = Inr (q, s2)"
  shows "\<exists>i j. span (p - 8) i \<inter> span (q - 8) j = {} \<and> unat sz + 8 \<le> 2 ^ i \<and> unat sz' + 8 \<le> 2 ^ j"
proof -
  obtain a i where a: "p = a + 8" "inv s1 (insert (a, i) U)" "unat sz + 8 \<le> 2 ^ i" using new_block [OF assms(1,2)] assms(4) by auto
  obtain b j where b: "q = b + 8" "inv s2 (insert (b, j) (insert (a, i) U))" "(b, j) \<notin> insert (a, i) U" "unat sz' + 8 \<le> 2 ^ j"
    using new_block [OF a(2) assms(3)] assms(5) by auto
  have "span a i \<inter> span b j = {}" using apartD [OF in_use_apart [OF b(2)], of a i b j] b(3) by auto
  then show ?thesis using a b by auto
qed

end

lemma buddy_new_block:
  assumes "heap_inv s fl U xs" "unat sz \<le> 4088"
  shows "buddy_alloc sz s = Inl (Panic ''buddy alloc'') \<or>
      (\<exists>a lv s'. buddy_alloc sz s = Inr (a + 8, s') \<and> (\<exists>fl xs. heap_inv s' fl (insert (a, lv) U) xs) \<and> (a, lv) \<notin> U \<and>
         unat sz + 8 \<le> 2 ^ lv \<and> keeps U s s')"
proof -
  obtain lv where lv: "calc_level (sz + 8) = Inr lv" "4 \<le> lv" "lv \<le> 12" "unat sz + 8 \<le> 2 ^ lv" using calc_level_size [OF assms(2)] by blast
  show ?thesis
  proof (cases "(\<exists>i \<ge> lv. fl i \<noteq> []) \<or> xs \<noteq> []")
    case True
    show ?thesis by (rule buddy_alloc_core [OF assms(1) lv(1-3) True]) (use lv(4) in blast)
  next
    case False
    then show ?thesis using buddy_alloc_full [OF assms(1) lv(1-3)] by simp
  qed
qed

lemma buddy_release:
  assumes "heap_inv s fl U xs" "(a, i) \<in> U"
  shows "\<exists>n s' fl' xs'. (\<forall>fuel \<ge> n. buddy_free fuel (a + 8) s = Inr s') \<and> heap_inv s' fl' (U - {(a, i)}) xs' \<and>
    keeps (U - {(a, i)}) s s' \<and> free_space fl' xs' = free_space fl xs \<union> span a i \<and> (merged fl \<longrightarrow> merged fl')"
proof -
  let ?T = "U - {(a, i)}"
  have U: "insert (a, i) ?T = U" using assms(2) by blast
  have core: "heap_core s fl (insert (a, i) ?T) xs" using assms(1) unfolding U by (simp add: heap_inv_def)
  have i: "i \<le> 12" using block_okD(2) [OF heap_coreD(6) [OF core, of "(a, i)"]] by (simp add: heap_blocks_insert)
  have hd: "mem s (a + 8 - 8) = of_nat i" using assms by (auto simp: heap_inv_def)
  obtain s' fl' xs' where r: "\<forall>fuel. (\<forall>k. length (fl k) < fuel) \<longrightarrow> buddy_free_loop fuel i a s = Inr s'"
      "heap_core s' fl' ?T xs'" "keeps ?T s s'" "free_space fl' xs' = free_space fl xs \<union> span a i" "merged fl \<longrightarrow> merged fl'"
    using buddy_free_core [OF core] by blast
  obtain n where n: "\<forall>k. length (fl k) < n" using lengths_bounded [OF core] by blast
  have "buddy_free fuel (a + 8) s = Inr s'" if "n \<le> fuel" for fuel
  proof -
    have "\<forall>k. length (fl k) < fuel" using n that less_le_trans by blast
    then show ?thesis using r(1) hd i by (simp add: buddy_free_def)
  qed
  moreover have "heap_inv s' fl' ?T xs'" using r(2,3) assms(1) by (auto simp: heap_inv_def keeps_def)
  ultimately show ?thesis using r(3-5) by blast
qed

lemma buddy_delete_block:
  assumes "heap_inv s fl U xs" "(a, i) \<in> U"
  shows "\<exists>n s'. (\<forall>fuel \<ge> n. buddy_free fuel (a + 8) s = Inr s') \<and> (\<exists>fl xs. heap_inv s' fl (U - {(a, i)}) xs) \<and> keeps (U - {(a, i)}) s s'"
  using buddy_release [OF assms] by blast

interpretation bh: block_heap buddy_alloc buddy_free "\<lambda>s U. \<exists>fl xs. heap_inv s fl U xs" keeps
proof unfold_locales
  show "keeps U s s1 \<Longrightarrow> keeps U s1 s2 \<Longrightarrow> keeps U s s2" for U and s s1 s2 :: "'a kbuddy_scheme" by (rule keeps_trans)
  show "\<exists>fl xs. heap_inv s fl U xs \<Longrightarrow> apart U" for s :: "'a kbuddy_scheme" and U using apart_taken by (auto simp: heap_inv_def)
qed (use buddy_new_block buddy_delete_block in blast)+

section \<open>Properties of the heap\<close>

text \<open>
  C10: An allocation of up to 4088 bytes from a heap in order succeeds unless no page and no large enough block is free, in which
  case it panics. The bytes it hands out lie outside every block in use, so does the block's bookkeeping; the contents of
  the blocks in use are unchanged and the heap is in order again with the new block in use.
\<close>

theorem buddy_alloc_fresh:
  assumes "heap_inv s fl U xs" and "unat sz \<le> 4088"
  shows "(\<exists>p s' fl' xs' lv. buddy_alloc sz s = Inr (p, s') \<and> heap_inv s' fl' (insert (p - 8, lv) U) xs' \<and> keeps U s s' \<and>
      (\<forall>k < unat sz. \<forall>(b, i) \<in> insert (p - 8, 3) U. p + of_nat k \<notin> span b i)) \<or>
    (xs = [] \<and> (\<forall>i. unat sz + 8 \<le> 2 ^ i \<longrightarrow> fl i = []) \<and> buddy_alloc sz s = Inl (Panic ''buddy alloc''))"
proof -
  have core: "heap_core s fl U xs" using assms(1) by (simp add: heap_inv_def)
  obtain lv where lv: "calc_level (sz + 8) = Inr lv" "4 \<le> lv" "lv \<le> 12" "unat sz + 8 \<le> 2 ^ lv" "\<forall>i. unat sz + 8 \<le> 2 ^ i \<longrightarrow> 4 \<le> i \<longrightarrow> lv \<le> i"
    using calc_level_size [OF assms(2)] by blast
  show ?thesis
  proof (cases "(\<exists>i \<ge> lv. fl i \<noteq> []) \<or> xs \<noteq> []")
    case True
    obtain a s' fl' xs' where al: "buddy_alloc sz s = Inr (a + 8, s')" "heap_inv s' fl' (insert (a, lv) U) xs'" "(a, lv) \<notin> U" "keeps U s s'"
      by (rule buddy_alloc_core [OF assms(1) lv(1-3) True])
    have c': "heap_core s' fl' (insert (a, lv) U) xs'" using al(2) by (simp add: heap_inv_def)
    have ok: "aligned a lv" using block_okD(3) [OF heap_coreD(6) [OF c', of "(a, lv)"]] by (simp add: heap_blocks_insert)
    have "a + 8 + of_nat k \<notin> span b i" if k: "k < unat sz" and b: "(b, i) \<in> insert (a, 3) U" for k b i
    proof (cases "(b, i) \<in> U")
      case True
      have "a + of_nat (8 + k) \<in> span a lv" using k lv ok by (intro span_offset) auto
      then have "a + 8 + of_nat k \<in> span a lv" by (simp add: add.assoc)
      then show ?thesis using apartD [OF apart_taken [OF c'], of a lv b i] True al(3) by auto
    next
      case False
      then have "b = a" "i = 3" using b by auto
      then show ?thesis using header_outside [of a k] aligned_mono [OF ok, of 3] lv(2) k assms(2) by simp
    qed
    then have "\<forall>k < unat sz. \<forall>(b, i) \<in> insert (a, 3) U. a + 8 + of_nat k \<notin> span b i" by blast
    then show ?thesis using al by (intro disjI1 exI [of _ "a + 8"] exI [of _ s'] exI [of _ fl'] exI [of _ xs'] exI [of _ lv]) simp
  next
    case False
    then have "buddy_alloc sz s = Inl (Panic ''buddy alloc'')" by (intro buddy_alloc_full [OF assms(1) lv(1-3)]) auto
    moreover have "fl i = []" if "unat sz + 8 \<le> 2 ^ i" for i
      using False lv(5) that heap_level [OF core, of i] by (cases "fl i = []") auto
    ultimately show ?thesis using False by blast
  qed
qed

text \<open>
  C11: Releasing a block in use ends (with any fuel from some bound on) with the heap in order and the block no longer in use.
  The free memory, in blocks and pages, is then exactly what was free before and the bytes of the block; if before no block was
  free together with its buddy, that is so afterwards (the block is merged as far as possible); and the contents of all other
  blocks in use are unchanged.
\<close>

theorem buddy_free_returns:
  assumes "heap_inv s fl U xs" and "(a, i) \<in> U"
  shows "\<exists>n s' fl' xs'. (\<forall>fuel \<ge> n. buddy_free fuel (a + 8) s = Inr s') \<and>
    heap_inv s' fl' (U - {(a, i)}) xs' \<and> keeps (U - {(a, i)}) s s' \<and>
    free_space fl' xs' = free_space fl xs \<union> span a i \<and> (merged fl \<longrightarrow> merged fl')"
  by (rule buddy_release [OF assms])

definition fresh_heap :: kbuddy where
  "fresh_heap = buddy_init \<lparr>mem = (\<lambda>_. 0), kend = 0x80500000, freeList = 0x80501000, npage = 1, total_page = 1,
     freelist = (\<lambda>_. 0), maxlv = 0, minlv = 0\<rparr>"

lemma buddy_init_inv: "pages_free s xs \<Longrightarrow> heap_inv (buddy_init s) (\<lambda>_. []) {} xs"
  by (simp add: heap_inv_def heap_core_def buddy_init_def heap_blocks_def apart_def pages_free_def managed_def)

lemma fresh_heap_inv: "heap_inv fresh_heap (\<lambda>_. []) {} [0x80501000]"
  unfolding fresh_heap_def
  by (rule buddy_init_inv) (simp add: pages_free_def managed_def PHYSTOP_def page_aligned_unat read64_zero)

theorem buddy_alloc_fresh_witness:
  "\<exists>p s'. buddy_alloc 24 fresh_heap = Inr (p, s')"
  using buddy_alloc_fresh [OF fresh_heap_inv, of 24] by auto

theorem buddy_free_returns_witness:
  "\<exists>p s1 n s2. buddy_alloc 24 fresh_heap = Inr (p, s1) \<and> (\<forall>fuel \<ge> n. buddy_free fuel p s1 = Inr s2)"
proof -
  obtain lv where lv: "calc_level (24 + 8) = Inr lv" "4 \<le> lv" "lv \<le> 12" using calc_level_size [of 24] by auto
  obtain a s1 fl' xs' where a: "buddy_alloc 24 fresh_heap = Inr (a + 8, s1)" "heap_inv s1 fl' (insert (a, lv) {}) xs'"
    by (rule buddy_alloc_core [OF fresh_heap_inv lv]) auto
  obtain n s2 where "\<forall>fuel \<ge> n. buddy_free fuel (a + 8) s1 = Inr s2"
    using buddy_free_returns [OF a(2), of a lv] by auto
  then show ?thesis using a(1) by blast
qed

end
