(* ===== verification/HashMap.thy ===== *)
theory HashMap
  imports Prelude
begin

text \<open>
  \<^verbatim>\<open>src/sstl/map.hpp\<close>: the chained hash table behind the inode cache, with its iterator. A bucket,
  a singly linked list of nodes, is the list of its (key, value) pairs; values are pointers, so
  that \<^verbatim>\<open>NULL\<close> is None. The spin lock only serialises the operations. The interface the clients
  use is the locale \<open>finite_map_adt\<close>.
\<close>

section \<open>The table\<close>

definition hash_64 :: "u64 \<Rightarrow> nat \<Rightarrow> u64" where
  "hash_64 val bits =
     (let hash = val; n = hash;
          n = push_bit 18 n; hash = hash - n;
          n = push_bit 33 n; hash = hash - n;
          n = push_bit 3 n;  hash = hash + n;
          n = push_bit 3 n;  hash = hash - n;
          n = push_bit 4 n;  hash = hash + n;
          n = push_bit 2 n;  hash = hash + n
      in drop_bit (64 - bits) hash)"

record 'v hashmap =
  hashtable :: "(u64 \<times> 'v) list list"
  map_bits :: nat
  map_sz :: nat
  num_bucket :: nat

definition hm_new :: "nat \<Rightarrow> nat \<Rightarrow> 'v hashmap" where
  "hm_new order sz0 =
     \<lparr>hashtable = replicate (2 ^ order) [], map_bits = order, map_sz = sz0, num_bucket = 2 ^ order\<rparr>"

text \<open>\<^verbatim>\<open>hash\<close> uses \<^verbatim>\<open>bits_ - 1\<close> bits.\<close>

definition hm_hash :: "'v hashmap \<Rightarrow> u64 \<Rightarrow> nat" where
  "hm_hash m key = unat (hash_64 key (map_bits m - 1))"

definition bucket :: "'v hashmap \<Rightarrow> nat \<Rightarrow> (u64 \<times> 'v) list result" where
  "bucket m h = (if h < length (hashtable m) then Inr (hashtable m ! h) else Inl (BadAccess ''hashtable''))"

fun chain_find :: "u64 \<Rightarrow> (u64 \<times> 'v) list \<Rightarrow> 'v option" where
  "chain_find key [] = None"
| "chain_find key ((k, v) # ns) = (if k \<noteq> key then chain_find key ns else Some v)"

definition hm_put :: "u64 \<Rightarrow> 'v \<Rightarrow> 'v hashmap \<Rightarrow> 'v hashmap result" where
  "hm_put key val m =
     (let h = hm_hash m key in
      bindr (bucket m h) (\<lambda>ns.
        if chain_find key ns \<noteq> None then Inl (Panic ''hash map put'')
        else Inr (m\<lparr>hashtable := (hashtable m)[h := (key, val) # ns]\<rparr>)))"

definition hm_get :: "u64 \<Rightarrow> 'v hashmap \<Rightarrow> 'v option result" where
  "hm_get key m = bindr (bucket m (hm_hash m key)) (\<lambda>ns. Inr (chain_find key ns))"

text \<open>
  \<^verbatim>\<open>poll\<close> stops at the node with the key or at the last node, whatever its key, and takes it out.
\<close>

fun poll_chain :: "u64 \<Rightarrow> (u64 \<times> 'v) \<Rightarrow> (u64 \<times> 'v) list \<Rightarrow> 'v \<times> (u64 \<times> 'v) list" where
  "poll_chain key node [] = (snd node, [])"
| "poll_chain key node (nx # ns) =
     (if fst node \<noteq> key then let (v, rest) = poll_chain key nx ns in (v, node # rest)
      else (snd node, nx # ns))"

definition hm_poll :: "u64 \<Rightarrow> 'v hashmap \<Rightarrow> ('v \<times> 'v hashmap) result" where
  "hm_poll key m =
     (let h = hm_hash m key in
      bindr (bucket m h) (\<lambda>ns. case ns of
          [] \<Rightarrow> Inl (Panic ''poll'')
        | n # ns' \<Rightarrow> let (v, rest) = poll_chain key n ns' in
            Inr (v, m\<lparr>hashtable := (hashtable m)[h := rest]\<rparr>)))"

definition hm_size :: "'v hashmap \<Rightarrow> nat" where "hm_size m = map_sz m"

text \<open>An iterator is the rest of the chain it points into; the empty chain is the end.\<close>

fun first_bucket :: "(u64 \<times> 'v) list list \<Rightarrow> (u64 \<times> 'v) list" where
  "first_bucket [] = []"
| "first_bucket (b # bs) = (if b \<noteq> [] then b else first_bucket bs)"

definition hm_begin :: "'v hashmap \<Rightarrow> (u64 \<times> 'v) list" where
  "hm_begin m = first_bucket (take (num_bucket m) (hashtable m))"

fun hm_next :: "'v hashmap \<Rightarrow> (u64 \<times> 'v) list \<Rightarrow> (u64 \<times> 'v) list" where
  "hm_next m [] = []"
| "hm_next m ((k, v) # ns) =
     (if ns \<noteq> [] then ns
      else first_bucket (drop (Suc (hm_hash m k)) (take (num_bucket m) (hashtable m))))"

primrec hm_iterate :: "nat \<Rightarrow> 'v hashmap \<Rightarrow> (u64 \<times> 'v) list \<Rightarrow> (u64 \<times> 'v) list" where
  "hm_iterate 0 m it = []"
| "hm_iterate (Suc n) m it = (case it of [] \<Rightarrow> [] | node # _ \<Rightarrow> node # hm_iterate n m (hm_next m it))"

section \<open>Invariant and abstraction\<close>

definition hm_inv :: "'v hashmap \<Rightarrow> bool" where
  "hm_inv m \<longleftrightarrow>
     2 \<le> map_bits m \<and> map_bits m \<le> 32 \<and> num_bucket m = 2 ^ map_bits m \<and> length (hashtable m) = 2 ^ map_bits m \<and>
     (\<forall>h < length (hashtable m). (\<forall>(k, v) \<in> set (hashtable m ! h). hm_hash m k = h) \<and>
        distinct (map fst (hashtable m ! h)))"

definition hm_map :: "'v hashmap \<Rightarrow> u64 \<Rightarrow> 'v option" where
  "hm_map m = map_of (concat (hashtable m))"

lemma chain_find_map_of: "chain_find key ns = map_of ns key"
  by (induction key ns rule: chain_find.induct) auto

lemma hm_hash_less: "hm_inv m \<Longrightarrow> hm_hash m key < length (hashtable m)"
proof -
  assume m: "hm_inv m"
  define k where "k = map_bits m - 1"
  have k: "1 \<le> k" "k \<le> 31" using m by (auto simp: hm_inv_def k_def)
  have "unat (drop_bit (64 - k) (x :: u64)) < 2 ^ k" for x
  proof -
    have "unat x < 2 ^ 64" using unsigned_less [of x, where ?'a = nat] by simp
    also have "(2 :: nat) ^ 64 = 2 ^ k * 2 ^ (64 - k)" using k by (simp flip: power_add)
    finally have "unat x div 2 ^ (64 - k) < 2 ^ k" by (simp add: div_less_iff_less_mult)
    then show ?thesis by (simp only: unat_drop_bit_eq) (simp add: drop_bit_eq_div)
  qed
  then have "hm_hash m key < 2 ^ k" by (simp add: hm_hash_def hash_64_def Let_def k_def)
  also have "(2 :: nat) ^ k \<le> 2 ^ map_bits m" by (simp add: k_def)
  finally show ?thesis using m by (simp add: hm_inv_def)
qed

lemma hm_map_bucket:
  assumes "hm_inv m"
  shows "hm_map m key = map_of (hashtable m ! hm_hash m key) key"
proof -
  have *: "map_of (concat bs) key = map_of (bs ! j) key"
    if "j < length bs" "\<And>i. i < length bs \<Longrightarrow> i \<noteq> j \<Longrightarrow> key \<notin> fst ` set (bs ! i)" for bs j
    using that
  proof (induction bs arbitrary: j)
    case (Cons b bs)
    show ?case
    proof (cases j)
      case 0
      have "key \<notin> fst ` set (bs ! i)" if "i < length bs" for i
        using Cons.prems(2) [of "Suc i"] that 0 by simp
      then have "key \<notin> fst ` set b'" if "b' \<in> set bs" for b'
        using that unfolding in_set_conv_nth by blast
      then have "map_of (concat bs) key = None" by (auto simp: map_of_eq_None_iff)
      then show ?thesis using 0 by (simp add: map_add_def split: option.split)
    next
      case (Suc j')
      have "map_of b key = None" using Cons.prems(2) [of 0] Suc by (simp add: map_of_eq_None_iff)
      moreover have "map_of (concat bs) key = map_of (bs ! j') key"
        using Cons.prems(1) Cons.prems(2) [of "Suc i" for i] Suc by (intro Cons.IH) auto
      ultimately show ?thesis using Suc by (simp add: map_add_def split: option.split)
    qed
  qed simp
  show ?thesis
    unfolding hm_map_def
  proof (rule *)
    show "hm_hash m key < length (hashtable m)" using assms by (rule hm_hash_less)
    fix i assume i: "i < length (hashtable m)" "i \<noteq> hm_hash m key"
    then have "\<forall>(k, v) \<in> set (hashtable m ! i). hm_hash m k = i"
      using assms unfolding hm_inv_def by blast
    then show "key \<notin> fst ` set (hashtable m ! i)" using i(2) by fastforce
  qed
qed

lemma hm_inv_bucket:
  assumes "hm_inv m" and "\<forall>(k, v) \<in> set ns. hm_hash m k = h" and "distinct (map fst ns)"
  shows "hm_inv (m\<lparr>hashtable := (hashtable m)[h := ns]\<rparr>)"
proof -
  have nth: "(hashtable m)[h := ns] ! i = (if i = h then ns else hashtable m ! i)"
    if "i < length (hashtable m)" for i
    using that by (simp add: nth_list_update)
  have "hm_hash (m\<lparr>hashtable := (hashtable m)[h := ns]\<rparr>) = hm_hash m" by (simp add: hm_hash_def fun_eq_iff)
  then show ?thesis using assms by (simp add: hm_inv_def nth)
qed

lemma hm_map_bucket_update:
  assumes inv: "hm_inv m" and inv': "hm_inv (m\<lparr>hashtable := (hashtable m)[hm_hash m key := ns]\<rparr>)"
    and other: "\<And>k. k \<noteq> key \<Longrightarrow> map_of ns k = map_of (hashtable m ! hm_hash m key) k"
  shows "hm_map (m\<lparr>hashtable := (hashtable m)[hm_hash m key := ns]\<rparr>) = (hm_map m)(key := map_of ns key)"
proof
  fix k
  let ?m = "m\<lparr>hashtable := (hashtable m)[hm_hash m key := ns]\<rparr>"
  have h: "hm_hash ?m k = hm_hash m k" by (simp add: hm_hash_def)
  have len: "hm_hash m key < length (hashtable m)" using inv by (rule hm_hash_less)
  show "hm_map ?m k = ((hm_map m)(key := map_of ns key)) k"
    using other [of k] len hm_map_bucket [OF inv, of k] hm_map_bucket [OF inv', of k]
    by (auto simp: h nth_list_update)
qed

lemma hm_new_ok: "2 \<le> order \<Longrightarrow> order \<le> 32 \<Longrightarrow> hm_inv (hm_new order n :: 'v hashmap) \<and>
   hm_map (hm_new order n :: 'v hashmap) = Map.empty"
  by (auto simp: hm_new_def hm_inv_def hm_map_def)

lemma hm_get_map: "hm_inv m \<Longrightarrow> hm_get key m = Inr (hm_map m key)"
  by (simp add: hm_get_def bucket_def hm_hash_less hm_map_bucket chain_find_map_of)

lemma hm_put_map:
  assumes inv: "hm_inv m" and new: "hm_map m key = None"
  shows "\<exists>m'. hm_put key v m = Inr m' \<and> hm_inv m' \<and> hm_map m' = (hm_map m)(key \<mapsto> v)"
proof -
  let ?h = "hm_hash m key" and ?ns = "(key, v) # hashtable m ! hm_hash m key"
  have len: "?h < length (hashtable m)" using inv by (rule hm_hash_less)
  have none: "map_of (hashtable m ! ?h) key = None" using new hm_map_bucket [OF inv] by simp
  have inv': "hm_inv (m\<lparr>hashtable := (hashtable m)[?h := ?ns]\<rparr>)"
    using inv len none by (intro hm_inv_bucket) (auto simp: hm_inv_def map_of_eq_None_iff)
  have "hm_map (m\<lparr>hashtable := (hashtable m)[?h := ?ns]\<rparr>) = (hm_map m)(key \<mapsto> v)"
    using hm_map_bucket_update [OF inv inv'] by simp
  with inv' len none show ?thesis by (simp add: hm_put_def bucket_def chain_find_map_of Let_def)
qed

lemma hm_put_duplicate:
  "hm_inv m \<Longrightarrow> hm_map m key \<noteq> None \<Longrightarrow> hm_put key v m = Inl (Panic ''hash map put'')"
  by (auto simp: hm_put_def bucket_def hm_hash_less hm_map_bucket chain_find_map_of Let_def)

lemma poll_chain_present:
  assumes "map_of (n # ns) key = Some v" and "distinct (map fst (n # ns))"
  shows "\<exists>rest. poll_chain key n ns = (v, rest) \<and> map_of rest = (map_of (n # ns))(key := None) \<and>
    set rest \<subseteq> set (n # ns) \<and> distinct (map fst rest)"
  using assms
proof (induction key n ns rule: poll_chain.induct)
  case (1 key node)
  then show ?case by (cases node) (auto split: if_splits)
next
  case (2 key node nx ns)
  show ?case
  proof (cases "fst node = key")
    case True
    then have "map_of (nx # ns) key = None" using "2.prems"(2) by (auto simp: map_of_eq_None_iff)
    with True show ?thesis
      using "2.prems" by (intro exI [of _ "nx # ns"]) (cases node, auto)
  next
    case False
    then have "map_of (nx # ns) key = Some v" using "2.prems"(1) by (cases node) auto
    then obtain rest where r: "poll_chain key nx ns = (v, rest)"
      "map_of rest = (map_of (nx # ns))(key := None)" "set rest \<subseteq> set (nx # ns)" "distinct (map fst rest)"
    proof -
      have "distinct (map fst (nx # ns))" using "2.prems"(2) by simp
      from "2.IH" [OF False \<open>map_of (nx # ns) key = Some v\<close> this] that show thesis by blast
    qed
    have "fst node \<notin> fst ` set rest" using r(3) "2.prems"(2) by auto
    with False r show ?thesis
      by (intro exI [of _ "node # rest"]) (cases node, auto simp: fun_upd_twist)
  qed
qed

lemma poll_chain_absent:
  "key \<notin> fst ` set (n # ns) \<Longrightarrow> poll_chain key n ns = (snd (last (n # ns)), butlast (n # ns))"
  by (induction key n ns rule: poll_chain.induct) auto

lemma hm_poll_present:
  assumes inv: "hm_inv m" and v: "hm_map m key = Some v"
  shows "\<exists>m'. hm_poll key m = Inr (v, m') \<and> hm_inv m' \<and> hm_map m' = (hm_map m)(key := None)"
proof -
  let ?h = "hm_hash m key"
  have len: "?h < length (hashtable m)" using inv by (rule hm_hash_less)
  have some: "map_of (hashtable m ! ?h) key = Some v" using v hm_map_bucket [OF inv] by simp
  then obtain n ns where ns: "hashtable m ! ?h = n # ns" by (cases "hashtable m ! ?h") auto
  have dist: "distinct (map fst (n # ns))" and old: "\<forall>(k, v) \<in> set (n # ns). hm_hash m k = ?h"
    using inv len ns unfolding hm_inv_def by metis+
  obtain rest where r: "poll_chain key n ns = (v, rest)" "map_of rest = (map_of (n # ns))(key := None)"
    "set rest \<subseteq> set (n # ns)" "distinct (map fst rest)"
    using poll_chain_present [OF some [unfolded ns] dist] by blast
  have inv': "hm_inv (m\<lparr>hashtable := (hashtable m)[?h := rest]\<rparr>)"
    using hm_inv_bucket [OF inv _ r(4)] old r(3) by blast
  have "hm_map (m\<lparr>hashtable := (hashtable m)[?h := rest]\<rparr>) = (hm_map m)(key := None)"
    using hm_map_bucket_update [OF inv inv'] r(2) ns by simp
  with inv' len ns r(1) show ?thesis by (simp add: hm_poll_def bucket_def Let_def)
qed

section \<open>The interface\<close>

locale finite_map_adt =
  fixes ok :: "'m \<Rightarrow> bool" and al :: "'m \<Rightarrow> u64 \<Rightarrow> 'v option"
    and put :: "u64 \<Rightarrow> 'v \<Rightarrow> 'm \<Rightarrow> 'm result" and get :: "u64 \<Rightarrow> 'm \<Rightarrow> 'v option result"
    and poll :: "u64 \<Rightarrow> 'm \<Rightarrow> ('v \<times> 'm) result"
  assumes get_ok: "ok m \<Longrightarrow> get k m = Inr (al m k)"
    and put_new: "ok m \<Longrightarrow> al m k = None \<Longrightarrow> \<exists>m'. put k v m = Inr m' \<and> ok m' \<and> al m' = (al m)(k \<mapsto> v)"
    and put_old: "ok m \<Longrightarrow> al m k \<noteq> None \<Longrightarrow> \<exists>f. put k v m = Inl f"
    and poll_old: "ok m \<Longrightarrow> al m k = Some v \<Longrightarrow>
      \<exists>m'. poll k m = Inr (v, m') \<and> ok m' \<and> al m' = (al m)(k := None)"
begin

lemma put_get_poll:
  assumes "ok m" and "al m k = None"
  shows "\<exists>m1 m2. put k v m = Inr m1 \<and> get k m1 = Inr (Some v) \<and> poll k m1 = Inr (v, m2) \<and>
    ok m2 \<and> al m2 = al m"
proof -
  obtain m1 where m1: "put k v m = Inr m1" "ok m1" "al m1 = (al m)(k \<mapsto> v)"
    using put_new [OF assms] by blast
  then obtain m2 where "poll k m1 = Inr (v, m2)" "ok m2" "al m2 = (al m1)(k := None)"
    using poll_old [of m1 k v] by auto
  with m1 assms(2) get_ok [OF m1(2)] show ?thesis by (auto simp: fun_upd_idem)
qed

lemma get_other:
  assumes "ok m" and "put k v m = Inr m'" and "k' \<noteq> k"
  shows "get k' m' = get k' m"
proof (cases "al m k")
  case None
  then show ?thesis using put_new [OF assms(1) None, of v] assms(2,3) get_ok [OF assms(1), of k'] get_ok [of m' k'] by auto
next
  case (Some w)
  then show ?thesis using put_old [OF assms(1), of k v] assms(2) by simp
qed

end

interpretation hm: finite_map_adt hm_inv hm_map hm_put hm_get hm_poll
proof (unfold_locales, goal_cases)
  case (1 m k)
  then show ?case by (rule hm_get_map)
next
  case (2 m k v)
  then show ?case by (rule hm_put_map)
next
  case (3 m k v)
  from hm_put_duplicate [OF this] show ?case by (rule exI)
next
  case (4 m k v)
  then show ?case by (rule hm_poll_present)
qed

section \<open>Iteration\<close>

lemma first_bucket_concat:
  "first_bucket bs = [] \<longleftrightarrow> concat bs = []"
  by (induction bs) auto

text \<open>From a position in a bucket, the iterator still has the rest of it and the later buckets to visit.\<close>

definition hm_pending :: "'v hashmap \<Rightarrow> nat \<Rightarrow> (u64 \<times> 'v) list" where
  "hm_pending m h = concat (drop h (hashtable m))"

lemma first_bucket_drop:
  "\<exists>h'. h \<le> h' \<and> concat (drop h bs) = first_bucket (drop h bs) @ concat (drop (Suc h') bs) \<and>
     (first_bucket (drop h bs) \<noteq> [] \<longrightarrow> h' < length bs \<and> bs ! h' = first_bucket (drop h bs))"
proof (induction "length bs - h" arbitrary: h)
  case 0
  then show ?case by (intro exI [of _ h]) simp
next
  case (Suc n)
  then have h: "h < length bs" by simp
  then have d: "drop h bs = bs ! h # drop (Suc h) bs" by (simp add: Cons_nth_drop_Suc)
  show ?case
  proof (cases "bs ! h = []")
    case True
    obtain h' where "Suc h \<le> h'" "concat (drop (Suc h) bs) = first_bucket (drop (Suc h) bs) @ concat (drop (Suc h') bs)"
      "first_bucket (drop (Suc h) bs) \<noteq> [] \<longrightarrow> h' < length bs \<and> bs ! h' = first_bucket (drop (Suc h) bs)"
    proof -
      have "n = length bs - Suc h" using Suc.hyps(2) by simp
      from Suc.hyps(1) [OF this] that show thesis by blast
    qed
    then show ?thesis using d True by (intro exI [of _ h']) auto
  next
    case False
    then show ?thesis using d h by (intro exI [of _ h]) simp
  qed
qed

lemma hm_iterate_pending:
  assumes inv: "hm_inv m" and "it \<noteq> [] \<longrightarrow> h < length (hashtable m) \<and> set it \<subseteq> set (hashtable m ! h)"
    and "length (it @ hm_pending m (Suc h)) < n" and "it = [] \<longrightarrow> hm_pending m (Suc h) = []"
  shows "hm_iterate n m it = it @ hm_pending m (Suc h)"
  using assms(2-4)
proof (induction n arbitrary: it h)
  case 0
  then show ?case by simp
next
  case (Suc n)
  show ?case
  proof (cases it)
    case Nil
    then show ?thesis using Suc.prems by simp
  next
    case (Cons node ns)
    obtain k v where node: "node = (k, v)" by (cases node)
    have nb: "take (num_bucket m) (hashtable m) = hashtable m" using inv by (simp add: hm_inv_def)
    have hk: "hm_hash m k = h" using Suc.prems(1) inv Cons node by (auto simp: hm_inv_def)
    show ?thesis
    proof (cases "ns = []")
      case False
      then have "hm_iterate n m ns = ns @ hm_pending m (Suc h)"
        using Suc.prems Cons by (intro Suc.IH) auto
      then show ?thesis using False Cons node by simp
    next
      case True
      let ?it = "first_bucket (drop (Suc h) (hashtable m))"
      obtain h' where h': "concat (drop (Suc h) (hashtable m)) = ?it @ concat (drop (Suc h') (hashtable m))"
        "?it \<noteq> [] \<longrightarrow> h' < length (hashtable m) \<and> hashtable m ! h' = ?it"
        using first_bucket_drop [of "Suc h" "hashtable m"] by blast
      have pend: "hm_pending m (Suc h) = ?it @ hm_pending m (Suc h')" using h'(1) by (simp add: hm_pending_def)
      have "hm_iterate n m ?it = ?it @ hm_pending m (Suc h')"
      proof (rule Suc.IH)
        show "?it \<noteq> [] \<longrightarrow> h' < length (hashtable m) \<and> set ?it \<subseteq> set (hashtable m ! h')"
          using h'(2) by simp
        show "length (?it @ hm_pending m (Suc h')) < n" using Suc.prems(2) Cons pend by simp
        show "?it = [] \<longrightarrow> hm_pending m (Suc h') = []"
          using first_bucket_concat [of "drop (Suc h) (hashtable m)"] pend
          unfolding hm_pending_def by (metis append_Nil)
      qed
      then show ?thesis using True Cons node hk nb h' by (simp add: hm_pending_def)
    qed
  qed
qed

section \<open>Properties\<close>

text \<open>
  the iterator visits every entry of the table exactly once, bucket by bucket, and then stops.
\<close>

lemma hm_iterate_all:
  assumes "hm_inv m" and "length (concat (hashtable m)) < n"
  shows "hm_iterate n m (hm_begin m) = concat (hashtable m)"
proof -
  have nb: "take (num_bucket m) (hashtable m) = hashtable m" using assms(1) by (simp add: hm_inv_def)
  obtain h' where h': "concat (hashtable m) = hm_begin m @ concat (drop (Suc h') (hashtable m))"
    "hm_begin m \<noteq> [] \<longrightarrow> h' < length (hashtable m) \<and> hashtable m ! h' = hm_begin m"
    using first_bucket_drop [of 0 "hashtable m"] nb by (auto simp: hm_begin_def)
  then have "hm_iterate n m (hm_begin m) = hm_begin m @ hm_pending m (Suc h')"
  proof (intro hm_iterate_pending [OF assms(1)])
    show "length (hm_begin m @ hm_pending m (Suc h')) < n" using assms(2) h'(1) by (simp add: hm_pending_def)
    show "hm_begin m = [] \<longrightarrow> hm_pending m (Suc h') = []"
      using first_bucket_concat [of "hashtable m"] h'(1) nb unfolding hm_pending_def hm_begin_def
      by (metis append_Nil)
  qed (use h' in simp)
  then show ?thesis using h'(1) by (simp add: hm_pending_def)
qed

text \<open>
  Polling a key that is not in a non-empty bucket does not fail: it removes the last entry of that bucket, whatever its key, and
  returns its value.
\<close>

lemma hm_poll_absent:
  assumes inv: "hm_inv m" and none: "hm_map m k = None" and ns: "hashtable m ! hm_hash m k = ns @ [(k', v)]"
  shows "\<exists>m'. hm_poll k m = Inr (v, m') \<and> hm_inv m' \<and> k' \<noteq> k \<and> hm_map m k' = Some v \<and> hm_map m' = (hm_map m)(k' := None)"
proof -
  let ?h = "hm_hash m k" and ?m = "m\<lparr>hashtable := (hashtable m)[hm_hash m k := ns]\<rparr>"
  have len: "?h < length (hashtable m)" using inv by (rule hm_hash_less)
  have absent: "k \<notin> fst ` set (ns @ [(k', v)])"
    using none hm_map_bucket [OF inv, of k] unfolding ns map_of_eq_None_iff [symmetric] by simp
  have b: "\<forall>(a, b) \<in> set (ns @ [(k', v)]). hm_hash m a = ?h" "distinct (map fst (ns @ [(k', v)]))"
    using inv len unfolding hm_inv_def ns [symmetric] by blast+
  then have hk: "hm_hash m k' = ?h" and inv': "hm_inv ?m" using hm_inv_bucket [OF inv, of ns ?h] by auto
  obtain n rest where cons: "ns @ [(k', v)] = n # rest" by (cases "ns @ [(k', v)]") auto
  then have "poll_chain k n rest = (v, ns)"
    using poll_chain_absent [of k n rest] absent by (metis butlast_snoc last_snoc snd_conv)
  then have "hm_poll k m = Inr (v, ?m)" using len ns cons by (simp add: hm_poll_def bucket_def Let_def)
  moreover have "map_of ns k' = None" using b(2) by (simp add: map_of_eq_None_iff)
  then have "hm_map m k' = Some v" using hm_map_bucket [OF inv, of k'] hk ns by (simp add: map_add_def)
  moreover have "hm_map ?m = (hm_map m)(k' := None)"
  proof -
    have "map_of ns x = map_of (hashtable m ! hm_hash m k') x" if "x \<noteq> k'" for x using that unfolding hk ns by (auto simp: map_add_def split: option.split)
    then show ?thesis using hm_map_bucket_update [OF inv, of k' ns] inv' \<open>map_of ns k' = None\<close> by (simp add: hk)
  qed
  moreover have "k' \<noteq> k" using absent by auto
  ultimately show ?thesis using inv' by blast
qed

lemma hm_poll_empty: "hm_inv m \<Longrightarrow> hashtable m ! hm_hash m k = [] \<Longrightarrow> hm_poll k m = Inl (Panic ''poll'')"
  by (simp add: hm_poll_def bucket_def hm_hash_less Let_def)

text \<open>
  C26: The operations of the table on its contents as a map, for every table in order and every key. \<^verbatim>\<open>get\<close> returns the binding of the key.
  \<^verbatim>\<open>put\<close> adds a binding for a key that has none and stops the kernel otherwise. \<^verbatim>\<open>poll\<close> of a key that is present, wherever it
  stands in its chain, returns its value and removes this binding and no other. \<^verbatim>\<open>poll\<close> of an absent key is not a map operation:
  it stops the kernel when the chain is empty, and otherwise removes the binding of another key and returns that value.
\<close>

theorem hm_operations:
  assumes "hm_inv m"
  shows "hm_get k m = Inr (hm_map m k) \<and>
    (case hm_map m k of
       Some w \<Rightarrow> hm_put k v m = Inl (Panic ''hash map put'') \<and>
         (\<exists>m'. hm_poll k m = Inr (w, m') \<and> hm_inv m' \<and> hm_map m' = (hm_map m)(k := None))
     | None \<Rightarrow> (\<exists>m'. hm_put k v m = Inr m' \<and> hm_inv m' \<and> hm_map m' = (hm_map m)(k \<mapsto> v)) \<and>
         (hm_poll k m = Inl (Panic ''poll'') \<or>
          (\<exists>k' w m'. hm_poll k m = Inr (w, m') \<and> hm_inv m' \<and> k' \<noteq> k \<and> hm_map m k' = Some w \<and> hm_map m' = (hm_map m)(k' := None))))"
proof (cases "hm_map m k")
  case None
  have "hm_poll k m = Inl (Panic ''poll'') \<or>
     (\<exists>k' w m'. hm_poll k m = Inr (w, m') \<and> hm_inv m' \<and> k' \<noteq> k \<and> hm_map m k' = Some w \<and> hm_map m' = (hm_map m)(k' := None))"
  proof (cases "hashtable m ! hm_hash m k" rule: rev_cases)
    case Nil
    then show ?thesis using hm_poll_empty [OF assms] by simp
  next
    case (snoc ns n)
    obtain k' w where "n = (k', w)" by (cases n)
    then show ?thesis using hm_poll_absent [OF assms None, of ns k' w] snoc by blast
  qed
  then show ?thesis using None hm_get_map [OF assms, of k] hm.put_new [OF assms None, of v] by simp
next
  case (Some w)
  then show ?thesis using hm_get_map [OF assms, of k] hm_put_duplicate [OF assms, of k v] hm.poll_old [OF assms Some] by simp
qed

text \<open>Two keys of one chain, the one to be polled behind the other.\<close>

definition two_keys :: "nat hashmap" where
  "two_keys = \<lparr>hashtable = [[(2, 10), (0, 20)], [], [], []], map_bits = 2, map_sz = 0, num_bucket = 4\<rparr>"

lemma two_keys_ok: "hm_inv two_keys" "hm_map two_keys 0 = Some 20" "hm_map two_keys 2 = Some 10"
proof -
  have h: "hm_hash two_keys 0 = 0" "hm_hash two_keys 2 = 0" by (simp_all add: hm_hash_def two_keys_def hash_64_def drop_bit_eq_div)
  have t: "hashtable two_keys = [[(2, 10), (0, 20)], [], [], []]" by (simp add: two_keys_def)
  have "\<forall>i < 4. (\<forall>(k, v) \<in> set (hashtable two_keys ! i). hm_hash two_keys k = i) \<and> distinct (map fst (hashtable two_keys ! i))"
  proof (intro allI impI)
    fix i :: nat assume "i < 4"
    then consider "i = 0" | "i = 1" | "i = 2" | "i = 3" by linarith
    then show "(\<forall>(k, v) \<in> set (hashtable two_keys ! i). hm_hash two_keys k = i) \<and> distinct (map fst (hashtable two_keys ! i))"
      by cases (simp_all add: t h)
  qed
  then show "hm_inv two_keys" by (simp add: hm_inv_def) (simp add: two_keys_def)
  show "hm_map two_keys 0 = Some 20" "hm_map two_keys 2 = Some 10" by (simp_all add: hm_map_def two_keys_def)
qed

theorem hm_operations_witness:
  "\<exists>m'. hm_poll 0 two_keys = Inr (20, m') \<and> hm_map m' 0 = None \<and> hm_map m' 2 = Some 10"
  using hm_operations [OF two_keys_ok(1), of 0 5] two_keys_ok by auto

end
