(* ===== verification/LinkedLists.thy ===== *)
theory LinkedLists
  imports Prelude
begin

text \<open>
  \<^verbatim>\<open>src/sstl/linux_list.hpp\<close>, intrusive circular doubly linked lists, on a store of the two links
  of each node address, and \<^verbatim>\<open>src/sstl/list.hpp\<close>, the singly linked list of device inodes.
\<close>

section \<open>Circular doubly linked lists\<close>

record list_heads =
  nxt :: "u64 \<Rightarrow> u64"
  prv :: "u64 \<Rightarrow> u64"

definition INIT_LIST_HEAD :: "u64 \<Rightarrow> list_heads \<Rightarrow> list_heads" where
  "INIT_LIST_HEAD l h = h\<lparr>nxt := (nxt h)(l := l), prv := (prv h)(l := l)\<rparr>"

definition list_add_between :: "u64 \<Rightarrow> u64 \<Rightarrow> u64 \<Rightarrow> list_heads \<Rightarrow> list_heads" where
  "list_add_between new_node prev next h =
     (let h1 = h\<lparr>prv := (prv h)(next := new_node)\<rparr>;
          h2 = h1\<lparr>nxt := (nxt h1)(new_node := next)\<rparr>;
          h3 = h2\<lparr>prv := (prv h2)(new_node := prev)\<rparr>
      in h3\<lparr>nxt := (nxt h3)(prev := new_node)\<rparr>)"

definition list_add :: "u64 \<Rightarrow> u64 \<Rightarrow> list_heads \<Rightarrow> list_heads" where
  "list_add new_node head h = list_add_between new_node head (nxt h head) h"

definition list_del_between :: "u64 \<Rightarrow> u64 \<Rightarrow> list_heads \<Rightarrow> list_heads" where
  "list_del_between prev next h =
     (let h1 = h\<lparr>prv := (prv h)(next := prev)\<rparr> in h1\<lparr>nxt := (nxt h1)(prev := next)\<rparr>)"

definition LIST_POISON :: u64 where "LIST_POISON = 0x0505050505"

definition list_del :: "u64 \<Rightarrow> list_heads \<Rightarrow> list_heads" where
  "list_del entry h =
     (let h1 = list_del_between (prv h entry) (nxt h entry) h
      in h1\<lparr>nxt := (nxt h1)(entry := LIST_POISON), prv := (prv h1)(entry := LIST_POISON)\<rparr>)"

definition list_empty :: "u64 \<Rightarrow> list_heads \<Rightarrow> bool" where
  "list_empty head h \<longleftrightarrow> nxt h head = head"

text \<open>The nodes \<open>xs\<close> lie between \<open>p\<close> and \<open>q\<close>, linked in both directions.\<close>

primrec dseg :: "list_heads \<Rightarrow> u64 \<Rightarrow> u64 list \<Rightarrow> u64 \<Rightarrow> bool" where
  "dseg h p [] q \<longleftrightarrow> nxt h p = q \<and> prv h q = p"
| "dseg h p (x # xs) q \<longleftrightarrow> nxt h p = x \<and> prv h x = p \<and> dseg h x xs q"

definition ring :: "list_heads \<Rightarrow> u64 \<Rightarrow> u64 list \<Rightarrow> bool" where
  "ring h head xs \<longleftrightarrow> dseg h head xs head \<and> distinct (head # xs)"

lemma dseg_frame:
  assumes "\<And>x. x \<in> set (p # xs) \<Longrightarrow> nxt h' x = nxt h x" and "\<And>x. x \<in> set (xs @ [q]) \<Longrightarrow> prv h' x = prv h x"
  shows "dseg h' p xs q = dseg h p xs q"
  using assms by (induction xs arbitrary: p) auto

lemma list_add_ring:
  assumes "ring h head xs" and "new_node \<notin> set (head # xs)"
  shows "ring (list_add new_node head h) head (new_node # xs)"
proof (cases xs)
  case Nil
  then show ?thesis
    using assms by (simp add: ring_def list_add_def list_add_between_def Let_def)
next
  case (Cons x ys)
  have "dseg (list_add new_node head h) x ys head = dseg h x ys head"
    using assms Cons by (intro dseg_frame) (auto simp: list_add_def list_add_between_def Let_def ring_def)
  then show ?thesis
    using assms Cons by (auto simp: ring_def list_add_def list_add_between_def Let_def)
qed

lemma list_del_dseg:
  assumes "dseg h p (as @ e # bs) q" and "distinct (p # as @ e # bs)" and "q \<notin> set (as @ e # bs)"
  shows "dseg (list_del e h) p (as @ bs) q"
  using assms
proof (induction as arbitrary: p)
  case Nil
  show ?case
  proof (cases bs)
    case Nil
    then show ?thesis using Nil.prems by (auto simp: list_del_def list_del_between_def Let_def)
  next
    case (Cons b cs)
    have "dseg (list_del e h) b cs q = dseg h b cs q"
      using Nil.prems Cons by (intro dseg_frame) (auto simp: list_del_def list_del_between_def Let_def)
    then show ?thesis
      using Nil.prems Cons by (auto simp: list_del_def list_del_between_def Let_def)
  qed
next
  case (Cons a as)
  have pe: "prv h e \<in> set (a # as)"
  proof -
    have "prv h e \<in> set (x # xs)" if "dseg h x (xs @ e # ys) y" for x xs ys y
      using that by (induction xs arbitrary: x) auto
    then show ?thesis using Cons.prems(1) by auto
  qed
  have ne: "nxt h e \<in> set (bs @ [q])"
  proof -
    have "nxt h e \<in> set (ys @ [y])" if "dseg h x (xs @ e # ys) y" for x xs ys y
      using that by (induction xs arbitrary: x) (auto, cases ys, auto)
    then show ?thesis using Cons.prems(1) by blast
  qed
  have "nxt (list_del e h) p = nxt h p" "prv (list_del e h) a = prv h a"
    using pe ne Cons.prems(2,3) by (auto simp: list_del_def list_del_between_def Let_def)
  moreover have "dseg (list_del e h) a (as @ bs) q" using Cons by auto
  ultimately show ?case using Cons.prems(1) by auto
qed

lemma list_del_ring:
  "ring h head (as @ e # bs) \<Longrightarrow> ring (list_del e h) head (as @ bs)"
  using list_del_dseg [of h head as e bs head] by (auto simp: ring_def)

section \<open>The singly linked list\<close>

record 'a sslist =
  l_nodes :: "'a list"
  l_sz :: int

definition sl_new :: "'a sslist" where "sl_new = \<lparr>l_nodes = [], l_sz = 0\<rparr>"

definition sl_insert :: "'a \<Rightarrow> 'a sslist \<Rightarrow> 'a sslist" where
  "sl_insert d l = l\<lparr>l_nodes := d # l_nodes l, l_sz := l_sz l + 1\<rparr>"

definition sl_begin :: "'a sslist \<Rightarrow> 'a list" where "sl_begin l = l_nodes l"

definition sl_next :: "'a list \<Rightarrow> 'a list" where "sl_next it = tl it"

section \<open>Properties\<close>

text \<open>
  on a well-linked ring, \<^verbatim>\<open>list_add\<close> puts the new node right after the head, \<^verbatim>\<open>list_del\<close> of it
  or of any other node takes exactly that node out, and \<^verbatim>\<open>list_empty\<close> holds exactly when no node is
  left.
\<close>

lemma list_add_del:
  assumes "ring h head (as @ bs)" and "n \<notin> set (head # as @ bs)"
  shows "ring (list_add n head h) head (n # as @ bs) \<and>
    ring (list_del n (list_add n head h)) head (as @ bs) \<and>
    (\<forall>e cs. bs = e # cs \<longrightarrow> ring (list_del e (list_add n head h)) head (n # as @ cs)) \<and>
    (list_empty head h \<longleftrightarrow> as @ bs = [])"
proof -
  have add: "ring (list_add n head h) head (n # as @ bs)" using assms by (rule list_add_ring)
  moreover have "list_empty head h \<longleftrightarrow> as @ bs = []"
    using assms(1) by (cases "as @ bs") (auto simp: ring_def list_empty_def)
  ultimately show ?thesis
    using list_del_ring [of _ head "[]" n] list_del_ring [of _ head "n # as"] by auto
qed

end
