(* ===== verification/Locks.thy ===== *)
theory Locks
  imports Prelude
begin

text \<open>
  Nested interrupt disabling (\<^verbatim>\<open>src/kernel/os/Intr.cpp\<close>), the per-hart \<^verbatim>\<open>Cpu\<close> structure
  (\<^verbatim>\<open>src/kernel/os/Cpu.cpp\<close>) and the spin lock (\<^verbatim>\<open>src/kernel/os/SpinLock.cpp\<close>). The operations
  of the lock are split at their shared-memory accesses, and several harts interleave: the step
  relation \<open>hart_step\<close>. The invariant gives mutual exclusion and that a hart which holds a lock
  has its interrupts off.
\<close>

section \<open>Interrupts\<close>

record cpu =
  noff :: int
  intr_enable :: bool
  sie :: bool

definition cpu_init :: "cpu \<Rightarrow> cpu" where
  "cpu_init c = c\<lparr>intr_enable := False, noff := 0\<rparr>"

definition push_off :: "cpu \<Rightarrow> cpu" where
  "push_off c =
     (let old = sie c; c1 = c\<lparr>sie := False\<rparr>;
          c2 = (if noff c1 = 0 then c1\<lparr>intr_enable := old\<rparr> else c1)
      in c2\<lparr>noff := noff c2 + 1\<rparr>)"

definition pop_off :: "cpu \<Rightarrow> cpu result" where
  "pop_off c =
     (if sie c then Inl (Panic ''pop_off - interruptible'')
      else if noff c < 1 then Inl (Panic ''pop_off'')
      else let c1 = c\<lparr>noff := noff c - 1\<rparr> in
        Inr (if noff c1 = 0 \<and> intr_enable c1 then c1\<lparr>sie := True\<rparr> else c1))"

section \<open>The spin lock\<close>

record spinlock =
  locked :: bool
  cpuid :: int

definition spin_init :: "nat \<Rightarrow> spinlock" where
  "spin_init me = \<lparr>locked = False, cpuid = int me\<rparr>"

definition holding :: "nat \<Rightarrow> spinlock \<Rightarrow> bool" where
  "holding me l \<longleftrightarrow> locked l \<and> cpuid l = int me"

definition test_and_set :: "spinlock \<Rightarrow> bool \<times> spinlock" where
  "test_and_set l = (locked l, l\<lparr>locked := True\<rparr>)"

text \<open>
  Where a hart is: running with the locks it has taken, spinning in \<^verbatim>\<open>lock()\<close>, between the atomic
  swap and the recording of the hart number, between the clearing of \<^verbatim>\<open>cpuid\<close> and the release of
  the word, before \<^verbatim>\<open>pop_off\<close>, or stopped by a panic.
\<close>

datatype pc = Run | Spin nat | Taken nat | Releasing nat | Popping | Panicked string

record harts =
  cpus :: "nat \<Rightarrow> cpu"
  spinlocks :: "nat \<Rightarrow> spinlock"
  pcs :: "nat \<Rightarrow> pc"
  held :: "nat \<Rightarrow> nat set"

definition set_pc :: "nat \<Rightarrow> pc \<Rightarrow> harts \<Rightarrow> harts" where
  "set_pc i p s = s\<lparr>pcs := (pcs s)(i := p)\<rparr>"

text \<open>\<^verbatim>\<open>SpinLock::lock\<close>, in three parts: up to the loop, one round of the loop, after the loop.\<close>

definition lock_begin :: "nat \<Rightarrow> nat \<Rightarrow> harts \<Rightarrow> harts" where
  "lock_begin i l s =
     (let s1 = s\<lparr>cpus := (cpus s)(i := push_off (cpus s i))\<rparr> in
      if holding i (spinlocks s1 l) then set_pc i (Panicked ''re-acquire'') s1
      else set_pc i (Spin l) s1)"

definition lock_spin :: "nat \<Rightarrow> nat \<Rightarrow> harts \<Rightarrow> harts" where
  "lock_spin i l s =
     (let (old, lk) = test_and_set (spinlocks s l);
          s1 = s\<lparr>spinlocks := (spinlocks s)(l := lk)\<rparr>
      in if old then s1 else set_pc i (Taken l) s1)"

definition lock_end :: "nat \<Rightarrow> nat \<Rightarrow> harts \<Rightarrow> harts" where
  "lock_end i l s =
     set_pc i Run (s\<lparr>spinlocks := (spinlocks s)(l := (spinlocks s l)\<lparr>cpuid := int i\<rparr>),
       held := (held s)(i := insert l (held s i))\<rparr>)"

text \<open>\<^verbatim>\<open>SpinLock::unlock\<close>: up to the barrier, the release, the final \<^verbatim>\<open>pop_off\<close>.\<close>

definition unlock_begin :: "nat \<Rightarrow> nat \<Rightarrow> harts \<Rightarrow> harts" where
  "unlock_begin i l s =
     (if \<not> holding i (spinlocks s l) then set_pc i (Panicked ''unlock'') s
      else set_pc i (Releasing l)
        (s\<lparr>spinlocks := (spinlocks s)(l := (spinlocks s l)\<lparr>cpuid := - 1\<rparr>)\<rparr>))"

definition unlock_release :: "nat \<Rightarrow> nat \<Rightarrow> harts \<Rightarrow> harts" where
  "unlock_release i l s =
     set_pc i Popping (s\<lparr>spinlocks := (spinlocks s)(l := (spinlocks s l)\<lparr>locked := False\<rparr>),
       held := (held s)(i := held s i - {l})\<rparr>)"

definition unlock_end :: "nat \<Rightarrow> harts \<Rightarrow> harts" where
  "unlock_end i s =
     (case pop_off (cpus s i) of
        Inr c \<Rightarrow> set_pc i Run (s\<lparr>cpus := (cpus s)(i := c)\<rparr>)
      | Inl (Panic msg) \<Rightarrow> set_pc i (Panicked msg) s
      | Inl f \<Rightarrow> s)"

text \<open>The kernel only unlocks what it has locked; it may try to lock anything.\<close>

inductive hart_step :: "harts \<Rightarrow> harts \<Rightarrow> bool" where
  lock_begin: "pcs s i = Run \<Longrightarrow> hart_step s (lock_begin i l s)"
| lock_spin: "pcs s i = Spin l \<Longrightarrow> hart_step s (lock_spin i l s)"
| lock_end: "pcs s i = Taken l \<Longrightarrow> hart_step s (lock_end i l s)"
| unlock_begin: "pcs s i = Run \<Longrightarrow> l \<in> held s i \<Longrightarrow> hart_step s (unlock_begin i l s)"
| unlock_release: "pcs s i = Releasing l \<Longrightarrow> hart_step s (unlock_release i l s)"
| unlock_end: "pcs s i = Popping \<Longrightarrow> hart_step s (unlock_end i s)"

inductive harts_reach :: "harts \<Rightarrow> harts \<Rightarrow> bool" for s where
  refl: "harts_reach s s"
| step: "harts_reach s t \<Longrightarrow> hart_step t u \<Longrightarrow> harts_reach s u"

text \<open>Boot: no hart is in a lock operation, every lock was set up by some hart, nobody holds one.\<close>

definition harts_boot :: "harts \<Rightarrow> bool" where
  "harts_boot s \<longleftrightarrow>
     (\<forall>i. pcs s i = Run \<and> held s i = {} \<and> noff (cpus s i) = 0) \<and> (\<forall>l. \<exists>me. spinlocks s l = spin_init me)"

section \<open>The invariant\<close>

text \<open>Hart \<open>i\<close> owns lock \<open>l\<close> from the successful swap to the release.\<close>

definition owns :: "harts \<Rightarrow> nat \<Rightarrow> nat \<Rightarrow> bool" where
  "owns s i l \<longleftrightarrow> pcs s i = Taken l \<or> l \<in> held s i"

definition in_lock_op :: "pc \<Rightarrow> bool" where
  "in_lock_op p \<longleftrightarrow> (\<exists>l. p = Spin l) \<or> (\<exists>l. p = Taken l) \<or> p = Popping"

definition hart_ok :: "harts \<Rightarrow> nat \<Rightarrow> bool" where
  "hart_ok s i \<longleftrightarrow>
     finite (held s i) \<and> (\<forall>l. pcs s i = Releasing l \<longrightarrow> l \<in> held s i) \<and>
     (\<forall>l. pcs s i = Taken l \<longrightarrow> l \<notin> held s i) \<and>
     ((\<forall>m. pcs s i \<noteq> Panicked m) \<longrightarrow>
        noff (cpus s i) = int (card (held s i)) + (if in_lock_op (pcs s i) then 1 else 0) \<and>
        (0 < noff (cpus s i) \<longrightarrow> \<not> sie (cpus s i)))"

definition harts_inv :: "harts \<Rightarrow> bool" where
  "harts_inv s \<longleftrightarrow>
     (\<forall>l i. owns s i l \<longrightarrow> locked (spinlocks s l)) \<and>
     (\<forall>l i j. owns s i l \<longrightarrow> owns s j l \<longrightarrow> i = j) \<and>
     (\<forall>l i. l \<in> held s i \<longrightarrow> pcs s i \<noteq> Releasing l \<longrightarrow> cpuid (spinlocks s l) = int i) \<and>
     (\<forall>l. locked (spinlocks s l) \<longrightarrow> (\<exists>i. owns s i l)) \<and>
     (\<forall>i. hart_ok s i)"

lemmas hart_defs = set_pc_def lock_begin_def lock_spin_def lock_end_def unlock_begin_def
  unlock_release_def unlock_end_def test_and_set_def Let_def

lemma push_off_simps [simp]:
  "noff (push_off c) = noff c + 1" "sie (push_off c) = False"
  by (simp_all add: push_off_def Let_def)

lemma harts_invD:
  assumes "harts_inv s"
  shows owned_locked: "owns s i l \<Longrightarrow> locked (spinlocks s l)"
    and owner_unique: "owns s i l \<Longrightarrow> owns s j l \<Longrightarrow> i = j"
    and held_cpuid: "l \<in> held s i \<Longrightarrow> pcs s i \<noteq> Releasing l \<Longrightarrow> cpuid (spinlocks s l) = int i"
    and locked_owned: "locked (spinlocks s l) \<Longrightarrow> \<exists>i. owns s i l"
    and hart_okD: "hart_ok s i"
  using assms unfolding harts_inv_def by blast+

lemma harts_invI:
  assumes "\<And>l i. owns s i l \<Longrightarrow> locked (spinlocks s l)"
    and "\<And>l i j. owns s i l \<Longrightarrow> owns s j l \<Longrightarrow> i = j"
    and "\<And>l i. l \<in> held s i \<Longrightarrow> pcs s i \<noteq> Releasing l \<Longrightarrow> cpuid (spinlocks s l) = int i"
    and "\<And>l. locked (spinlocks s l) \<Longrightarrow> \<exists>i. owns s i l"
    and "\<And>i. hart_ok s i"
  shows "harts_inv s"
  using assms unfolding harts_inv_def by blast

text \<open>A hart whose own data did not change stays well formed.\<close>

lemma hart_ok_cong:
  "pcs t i = pcs s i \<Longrightarrow> held t i = held s i \<Longrightarrow> cpus t i = cpus s i \<Longrightarrow> hart_ok t i = hart_ok s i"
  by (simp add: hart_ok_def)

lemma lock_begin_inv:
  assumes inv: "harts_inv s" and pc: "pcs s i = Run"
  shows "harts_inv (lock_begin i l s)"
proof (rule harts_invI)
  let ?t = "lock_begin i l s"
  have own: "owns ?t j k = owns s j k" for j k using pc by (auto simp: owns_def hart_defs)
  have same: "spinlocks ?t = spinlocks s" "held ?t = held s" by (auto simp: hart_defs)
  show "locked (spinlocks ?t k)" if "owns ?t j k" for j k
    using that owned_locked [OF inv] by (simp add: own same)
  show "j = j'" if "owns ?t j k" "owns ?t j' k" for j j' k
    using that owner_unique [OF inv] by (simp add: own)
  show "\<exists>j. owns ?t j k" if "locked (spinlocks ?t k)" for k
    using that locked_owned [OF inv] by (simp add: own same)
  show "cpuid (spinlocks ?t k) = int j" if "k \<in> held ?t j" "pcs ?t j \<noteq> Releasing k" for j k
    using that held_cpuid [OF inv, of k j] pc by (auto simp: same hart_defs split: if_splits)
  show "hart_ok ?t j" for j
    using hart_okD [OF inv, of j] pc
    by (cases "j = i") (auto simp: hart_ok_def hart_defs in_lock_op_def)
qed

lemma lock_spin_inv:
  assumes inv: "harts_inv s" and pc: "pcs s i = Spin l"
  shows "harts_inv (lock_spin i l s)"
proof (cases "locked (spinlocks s l)")
  case True
  then have e: "(spinlocks s)(l := (spinlocks s l)\<lparr>locked := True\<rparr>) = spinlocks s"
    by (intro ext) simp
  have "lock_spin i l s = s"
    unfolding lock_spin_def test_and_set_def Let_def prod.case e using True by simp
  then show ?thesis using inv by simp
next
  case False
  let ?t = "lock_spin i l s"
  have own: "owns ?t j k \<longleftrightarrow> owns s j k \<or> (j = i \<and> k = l)" for j k
    using pc False by (auto simp: owns_def hart_defs)
  have free: "\<not> owns s j l" for j using owned_locked [OF inv] False by blast
  show ?thesis
  proof (rule harts_invI)
    show "locked (spinlocks ?t k)" if "owns ?t j k" for j k
      using that owned_locked [OF inv, of j k] unfolding own by (auto simp: hart_defs)
    show "j = j'" if "owns ?t j k" "owns ?t j' k" for j j' k
      using that owner_unique [OF inv] free by (auto simp: own)
    show "\<exists>j. owns ?t j k" if "locked (spinlocks ?t k)" for k
      using that locked_owned [OF inv, of k] False
      by (cases "k = l") (unfold own, auto simp: hart_defs split: if_splits)
    show "cpuid (spinlocks ?t k) = int j" if "k \<in> held ?t j" "pcs ?t j \<noteq> Releasing k" for j k
      using that held_cpuid [OF inv, of k j] pc False by (auto simp: hart_defs split: if_splits)
    show "hart_ok ?t j" for j
      using hart_okD [OF inv, of j] pc False free [of i]
      by (cases "j = i") (auto simp: hart_ok_def hart_defs in_lock_op_def owns_def)
  qed
qed

lemma lock_end_inv:
  assumes inv: "harts_inv s" and pc: "pcs s i = Taken l"
  shows "harts_inv (lock_end i l s)"
proof (rule harts_invI)
  let ?t = "lock_end i l s"
  have own: "owns ?t j k = owns s j k" for j k using pc by (auto simp: owns_def hart_defs)
  have mine: "owns s i l" using pc by (simp add: owns_def)
  show "locked (spinlocks ?t k)" if "owns ?t j k" for j k
    using that owned_locked [OF inv, of j k] unfolding own by (auto simp: hart_defs)
  show "j = j'" if "owns ?t j k" "owns ?t j' k" for j j' k
    using that owner_unique [OF inv] by (simp add: own)
  show "\<exists>j. owns ?t j k" if "locked (spinlocks ?t k)" for k
    using that locked_owned [OF inv, of k] mine by (cases "k = l") (unfold own, auto simp: hart_defs)
  show "cpuid (spinlocks ?t k) = int j" if k: "k \<in> held ?t j" "pcs ?t j \<noteq> Releasing k" for j k
  proof (cases "k = l")
    case True
    then have "owns ?t j l" using k by (simp add: owns_def)
    then have "j = i" using owner_unique [OF inv mine] by (simp add: own)
    then show ?thesis using True by (simp add: hart_defs)
  next
    case False
    then show ?thesis using k held_cpuid [OF inv, of k j] pc by (auto simp: hart_defs split: if_splits)
  qed
  show "hart_ok ?t j" for j
    using hart_okD [OF inv, of j] pc
    by (cases "j = i") (auto simp: hart_ok_def hart_defs in_lock_op_def)
qed

lemma unlock_begin_inv:
  assumes inv: "harts_inv s" and pc: "pcs s i = Run" and h: "l \<in> held s i"
  shows "harts_inv (unlock_begin i l s)" and "pcs (unlock_begin i l s) i = Releasing l"
proof -
  let ?t = "unlock_begin i l s"
  have mine: "owns s i l" using h by (simp add: owns_def)
  have hold: "holding i (spinlocks s l)"
    using owned_locked [OF inv mine] held_cpuid [OF inv h] pc by (simp add: holding_def)
  then show rel: "pcs ?t i = Releasing l" by (simp add: hart_defs)
  have own: "owns ?t j k = owns s j k" for j k using pc hold by (auto simp: owns_def hart_defs)
  show "harts_inv ?t"
  proof (rule harts_invI)
    show "locked (spinlocks ?t k)" if "owns ?t j k" for j k
      using that owned_locked [OF inv, of j k] unfolding own by (auto simp: hart_defs)
    show "j = j'" if "owns ?t j k" "owns ?t j' k" for j j' k
      using that owner_unique [OF inv] by (simp add: own)
    show "\<exists>j. owns ?t j k" if "locked (spinlocks ?t k)" for k
      using that locked_owned [OF inv, of k] mine by (cases "k = l") (unfold own, auto simp: hart_defs split: if_splits)
    show "cpuid (spinlocks ?t k) = int j" if k: "k \<in> held ?t j" "pcs ?t j \<noteq> Releasing k" for j k
    proof (cases "k = l")
      case True
      then have "owns ?t j l" using k by (simp add: owns_def)
      then have "j = i" using owner_unique [OF inv mine] by (simp add: own)
      then show ?thesis using True k rel by simp
    next
      case False
      then show ?thesis
        using k held_cpuid [OF inv, of k j] pc hold by (auto simp: hart_defs split: if_splits)
    qed
    show "hart_ok ?t j" for j
      using hart_okD [OF inv, of j] pc hold h
      by (cases "j = i") (auto simp: hart_ok_def hart_defs in_lock_op_def)
  qed
qed

lemma unlock_release_inv:
  assumes inv: "harts_inv s" and pc: "pcs s i = Releasing l"
  shows "harts_inv (unlock_release i l s)"
proof (rule harts_invI)
  let ?t = "unlock_release i l s"
  have h: "l \<in> held s i" "finite (held s i)" using hart_okD [OF inv, of i] pc by (auto simp: hart_ok_def)
  have mine: "owns s i l" using h by (simp add: owns_def)
  have own: "owns ?t j k \<longleftrightarrow> owns s j k \<and> k \<noteq> l" for j k
  proof (cases "j = i")
    case True
    then show ?thesis using pc by (auto simp: owns_def hart_defs)
  next
    case False
    then have "\<not> owns s j l" using owner_unique [OF inv mine, of j] by blast
    then show ?thesis using False by (auto simp: owns_def hart_defs)
  qed
  show "locked (spinlocks ?t k)" if "owns ?t j k" for j k
    using that owned_locked [OF inv, of j k] unfolding own by (auto simp: hart_defs)
  show "j = j'" if "owns ?t j k" "owns ?t j' k" for j j' k
    using that owner_unique [OF inv] by (auto simp: own)
  show "\<exists>j. owns ?t j k" if "locked (spinlocks ?t k)" for k
    using that locked_owned [OF inv, of k] by (cases "k = l") (unfold own, auto simp: hart_defs)
  show "cpuid (spinlocks ?t k) = int j" if k: "k \<in> held ?t j" "pcs ?t j \<noteq> Releasing k" for j k
  proof -
    have "k \<noteq> l" using own [of j k] k(1) by (auto simp: owns_def)
    then show ?thesis
      using k held_cpuid [OF inv, of k j] pc by (auto simp: hart_defs split: if_splits)
  qed
  have card: "int (card (held s i)) = int (card (held s i - {l})) + 1"
    using card_Suc_Diff1 [OF h(2,1)] by linarith
  have n: "noff (cpus s i) = int (card (held s i - {l})) + 1" "\<not> sie (cpus s i)"
  proof -
    have c: "noff (cpus s i) = int (card (held s i))" "0 < noff (cpus s i) \<longrightarrow> \<not> sie (cpus s i)"
      using hart_okD [OF inv, of i] pc by (auto simp: hart_ok_def in_lock_op_def)
    then show "noff (cpus s i) = int (card (held s i - {l})) + 1" using card by linarith
    then show "\<not> sie (cpus s i)" using c(2) by linarith
  qed
  show "hart_ok ?t j" for j
  proof (cases "j = i")
    case True
    then show ?thesis
      using n h by (simp add: hart_ok_def hart_defs in_lock_op_def del: card_Diff_insert)
  next
    case False
    then show ?thesis using hart_okD [OF inv, of j] by (subst hart_ok_cong [of _ j s]) (simp_all add: hart_defs)
  qed
qed

lemma unlock_end_inv:
  assumes inv: "harts_inv s" and pc: "pcs s i = Popping"
  shows "harts_inv (unlock_end i s)" and "pcs (unlock_end i s) i = Run"
proof -
  let ?t = "unlock_end i s"
  have ok: "noff (cpus s i) = int (card (held s i)) + 1" "\<not> sie (cpus s i)"
    using hart_okD [OF inv, of i] pc by (auto simp: hart_ok_def in_lock_op_def)
  then obtain c where c: "pop_off (cpus s i) = Inr c" "noff c = int (card (held s i))"
    "0 < noff c \<longrightarrow> \<not> sie c"
    by (auto simp: pop_off_def Let_def)
  then show run: "pcs ?t i = Run" by (simp add: hart_defs)
  have same: "spinlocks ?t = spinlocks s" "held ?t = held s" using c by (auto simp: hart_defs)
  have own: "owns ?t j k = owns s j k" for j k using pc c by (auto simp: owns_def hart_defs)
  show "harts_inv ?t"
  proof (rule harts_invI)
    show "locked (spinlocks ?t k)" if "owns ?t j k" for j k
      using that owned_locked [OF inv] by (simp add: own same)
    show "j = j'" if "owns ?t j k" "owns ?t j' k" for j j' k
      using that owner_unique [OF inv] by (simp add: own)
    show "\<exists>j. owns ?t j k" if "locked (spinlocks ?t k)" for k
      using that locked_owned [OF inv] by (simp add: own same)
    show "cpuid (spinlocks ?t k) = int j" if "k \<in> held ?t j" "pcs ?t j \<noteq> Releasing k" for j k
      using that held_cpuid [OF inv, of k j] pc c by (auto simp: same hart_defs split: if_splits)
    show "hart_ok ?t j" for j
      using hart_okD [OF inv, of j] pc c
      by (cases "j = i") (auto simp: hart_ok_def hart_defs in_lock_op_def)
  qed
qed

lemma hart_step_inv: "hart_step s t \<Longrightarrow> harts_inv s \<Longrightarrow> harts_inv t"
  by (induction rule: hart_step.induct)
     (auto intro: lock_begin_inv lock_spin_inv lock_end_inv unlock_begin_inv unlock_release_inv
        unlock_end_inv)

lemma harts_boot_inv: "harts_boot s \<Longrightarrow> harts_inv s"
proof (rule harts_invI)
  assume b: "harts_boot s"
  then have pc: "pcs s i = Run" "held s i = {}" "noff (cpus s i) = 0" for i by (auto simp: harts_boot_def)
  then have no: "\<not> owns s i l" for i l by (simp add: owns_def)
  have "\<exists>me. spinlocks s l = spin_init me" for l using b by (simp add: harts_boot_def)
  then have un: "\<not> locked (spinlocks s l)" for l by (metis spin_init_def spinlock.select_convs(1))
  show "locked (spinlocks s l)" if "owns s i l" for l i using that no by simp
  show "i = j" if "owns s i l" "owns s j l" for l i j using that no by simp
  show "cpuid (spinlocks s l) = int i" if "l \<in> held s i" for l i using that pc by simp
  show "\<exists>i. owns s i l" if "locked (spinlocks s l)" for l using that un by simp
  show "hart_ok s i" for i using pc by (simp add: hart_ok_def in_lock_op_def)
qed

lemma harts_reach_inv: "harts_reach s t \<Longrightarrow> harts_inv s \<Longrightarrow> harts_inv t"
  by (induction rule: harts_reach.induct) (auto intro: hart_step_inv)

section \<open>Properties\<close>

text \<open>
  C5: whatever the harts do, at most one of them is inside the critical section of a lock, that
  lock's word is set meanwhile, and the hart has its interrupts off. Neither \<^verbatim>\<open>unlock\<close> of a held
  lock nor \<^verbatim>\<open>pop_off\<close> ever panics.
\<close>

theorem spinlock_mutual_exclusion:
  assumes "harts_boot s" and "harts_reach s t"
  shows "(\<forall>l i j. owns t i l \<longrightarrow> owns t j l \<longrightarrow> i = j) \<and> (\<forall>l i. owns t i l \<longrightarrow> locked (spinlocks t l)) \<and>
    (\<forall>l i. l \<in> held t i \<longrightarrow> pcs t i = Run \<longrightarrow>
       \<not> sie (cpus t i) \<and> pcs (unlock_begin i l t) i = Releasing l) \<and>
    (\<forall>i. pcs t i = Popping \<longrightarrow> pcs (unlock_end i t) i = Run)"
proof -
  have inv: "harts_inv t" using assms harts_boot_inv harts_reach_inv by blast
  have "\<not> sie (cpus t i)" if "l \<in> held t i" "pcs t i = Run" for l i
  proof -
    have "0 < card (held t i)"
      using hart_okD [OF inv, of i] that by (auto simp: hart_ok_def card_gt_0_iff)
    then show ?thesis using hart_okD [OF inv, of i] that by (auto simp: hart_ok_def in_lock_op_def)
  qed
  then show ?thesis
    using owner_unique [OF inv] owned_locked [OF inv] unlock_begin_inv(2) [OF inv] unlock_end_inv(2) [OF inv]
    by blast
qed

text \<open>Two harts and a lock set up by hart 0; hart 1 takes it.\<close>

definition two_harts :: harts where
  "two_harts = \<lparr>cpus = (\<lambda>_. \<lparr>noff = 0, intr_enable = False, sie = True\<rparr>), spinlocks = (\<lambda>_. spin_init 0),
     pcs = (\<lambda>_. Run), held = (\<lambda>_. {})\<rparr>"

lemma two_harts_boot: "harts_boot two_harts"
  by (auto simp: harts_boot_def two_harts_def)

theorem spinlock_mutual_exclusion_witness:
  "harts_reach two_harts (lock_end 1 7 (lock_spin 1 7 (lock_begin 1 7 two_harts))) \<and>
   \<not> sie (cpus (lock_end 1 7 (lock_spin 1 7 (lock_begin 1 7 two_harts))) 1) \<and>
   \<not> owns (lock_end 1 7 (lock_spin 1 7 (lock_begin 1 7 two_harts))) 0 7"
proof -
  let ?a = "lock_begin 1 7 two_harts"
  let ?b = "lock_spin 1 7 ?a"
  let ?c = "lock_end 1 7 ?b"
  have pc: "pcs two_harts 1 = Run" "pcs ?a 1 = Spin 7" "pcs ?b 1 = Taken 7"
    by (simp_all add: two_harts_def hart_defs holding_def spin_init_def)
  then have reach: "harts_reach two_harts ?c"
    by (meson harts_reach.intros hart_step.intros)
  have c: "7 \<in> held ?c 1" "pcs ?c 1 = Run" by (simp_all add: hart_defs)
  then have "owns ?c 1 7" by (simp add: owns_def)
  then show ?thesis
    using spinlock_mutual_exclusion [OF two_harts_boot reach] reach c
    by (metis zero_neq_one)
qed

text \<open>
  \<^verbatim>\<open>init\<close> leaves the initialising hart's number in \<^verbatim>\<open>cpuid\<close>. Until the first \<^verbatim>\<open>unlock\<close>, that hart
  panics with \<^verbatim>\<open>re-acquire\<close> when it tries to lock while another hart is between its swap and the
  recording of its own number, although it does not hold the lock.
\<close>

lemma first_acquire_race:
  "\<exists>s t l. harts_boot s \<and> harts_reach s t \<and> held t 0 = {} \<and> pcs t 0 = Panicked ''re-acquire'' \<and>
     pcs t 1 = Taken l"
proof -
  let ?a = "lock_begin 1 7 two_harts"
  let ?b = "lock_spin 1 7 ?a"
  let ?c = "lock_begin 0 7 ?b"
  have pc: "pcs two_harts 1 = Run" "pcs ?a 1 = Spin 7" "pcs ?b 0 = Run"
    by (simp_all add: two_harts_def hart_defs holding_def spin_init_def)
  then have "harts_reach two_harts ?c" by (meson harts_reach.intros hart_step.intros)
  moreover have "held ?c 0 = {}" "pcs ?c 0 = Panicked ''re-acquire''" "pcs ?c 1 = Taken 7"
    by (simp_all add: two_harts_def hart_defs holding_def spin_init_def)
  ultimately show ?thesis using two_harts_boot by blast
qed

end
