(* ===== verification/Tasks.thy ===== *)
theory Tasks
  imports UserCopy Buddy "HOL-Library.Sublist"
begin

text \<open>
  The task table of \<^verbatim>\<open>src/kernel/os/TaskScheduler.cpp\<close> and \<^verbatim>\<open>src/kernel/os/task.cpp\<close>, and the table
  of memory areas of \<^verbatim>\<open>src/kernel/memory/mmap.cpp\<close>. A task is its index in \<^verbatim>\<open>taskTable\<close>; open
  files, inodes and memory areas are indices into their own tables. \<^verbatim>\<open>myTask()\<close> is the argument
  \<open>me\<close> of the operations. A task lock is held from the beginning to the end of an operation, so
  that each operation is one step; an operation that waits returns \<open>Sleep\<close> with its channel and is
  run again from the top of its loop when the task is scheduled again.
\<close>

section \<open>Data\<close>

definition NTASK :: nat where "NTASK = 50"
definition NOFILE :: nat where "NOFILE = 120"
definition NOMMAPFILE :: nat where "NOMMAPFILE = 60"
definition NFILE :: nat where "NFILE = 100"
definition MAXPATH :: nat where "MAXPATH = 64"
definition NVMA :: nat where "NVMA = 60"
definition KSTACK_SIZE :: u64 where "KSTACK_SIZE = PGSIZE * 2"

datatype procstate = UNUSED | SLEEPING | RUNNABLE | RUNNING | ZOMBIE

text \<open>Sleep channels: the address of the object slept on.\<close>

datatype chan = ChTask nat | ChPipeRead nat | ChPipeWrite nat | ChTicks | ChConsole | ChLock nat | ChDesc | ChData u64

datatype 'r outcome = Done 'r | Sleep chan

datatype vma_type = PROG | DATA

record vma =
  v_addr :: u64
  v_type :: vma_type
  v_length :: u32
  v_prot :: u32
  v_flag :: u32
  v_f :: "nat option"
  v_ip :: "nat option"
  v_offset :: u32

definition vma_zero :: vma where
  "vma_zero = \<lparr>v_addr = 0, v_type = PROG, v_length = 0, v_prot = 0, v_flag = 0, v_f = None, v_ip = None, v_offset = 0\<rparr>"

record task =
  t_state :: procstate
  t_parent :: "nat option"
  t_chan :: "chan option"
  t_killed :: bool
  t_xstate :: u32
  t_pid :: int
  t_trapframe :: u64
  t_pagetable :: u64
  t_openFiles :: "nat option list"
  t_currentDir :: "u8 list"
  t_cwd :: "nat option"
  t_sticks :: u32
  t_uticks :: u32
  t_vma :: "nat option list"
  t_kstack :: u64
  t_ctx_ra :: u64
  t_ctx_sp :: u64
  t_name :: "u8 list"
  t_sz :: u32
  t_uid :: int
  t_gid :: int

text \<open>
  The state. \<open>trampoline\<close>, \<open>stack_base\<close> and \<open>forkret_addr\<close> are addresses the linker fixes.
\<close>

record ktasks = kbuddy +
  taskTable :: "task list"
  initTask :: "nat option"
  vma_table :: "vma list"
  ticks :: u32
  trampoline :: u64
  stack_base :: u64
  forkret_addr :: u64

definition the_task :: "'a ktasks_scheme \<Rightarrow> nat \<Rightarrow> task" where
  "the_task s i = taskTable s ! i"

definition upd_task :: "nat \<Rightarrow> (task \<Rightarrow> task) \<Rightarrow> 'a ktasks_scheme \<Rightarrow> 'a ktasks_scheme" where
  "upd_task i f s = s\<lparr>taskTable := (taskTable s)[i := f (taskTable s ! i)]\<rparr>"

definition initTask_entry :: "u64 \<Rightarrow> nat \<Rightarrow> task \<Rightarrow> task" where
  "initTask_entry stack i t =
     t\<lparr>t_pid := int i, t_kstack := stack + KSTACK_SIZE * of_nat i, t_trapframe := 0, t_state := UNUSED,
       t_killed := False, t_xstate := 0, t_sz := 0, t_sticks := 0,
       t_vma := replicate NOMMAPFILE None, t_uticks := 0, t_currentDir := replicate MAXPATH 0,
       t_openFiles := replicate NOFILE None\<rparr>"

definition initTaskTable :: "'a ktasks_scheme \<Rightarrow> 'a ktasks_scheme" where
  "initTaskTable s =
     s\<lparr>taskTable := map (\<lambda>i. initTask_entry (stack_base s) i (taskTable s ! i)) [0..<NTASK]\<rparr>"

section \<open>Sleeping, waking, scheduling\<close>

definition task_sleep :: "nat \<Rightarrow> chan \<Rightarrow> 'a ktasks_scheme \<Rightarrow> 'a ktasks_scheme" where
  "task_sleep me c s = upd_task me (\<lambda>t. t\<lparr>t_chan := Some c, t_state := SLEEPING\<rparr>) s"

text \<open>After \<^verbatim>\<open>prepareSched\<close> returns in \<^verbatim>\<open>sleep\<close>.\<close>

definition task_resume :: "nat \<Rightarrow> 'a ktasks_scheme \<Rightarrow> 'a ktasks_scheme" where
  "task_resume me s = upd_task me (\<lambda>t. t\<lparr>t_chan := None\<rparr>) s"

definition wakeup_task :: "chan \<Rightarrow> task \<Rightarrow> task" where
  "wakeup_task c t =
     (if t_state t = SLEEPING \<and> t_chan t = Some c then t\<lparr>t_state := RUNNABLE\<rparr> else t)"

definition wakeup :: "chan \<Rightarrow> 'a ktasks_scheme \<Rightarrow> 'a ktasks_scheme" where
  "wakeup c s = s\<lparr>taskTable := map (wakeup_task c) (taskTable s)\<rparr>"

text \<open>The checks of \<^verbatim>\<open>prepareSched\<close> before the switch to the scheduler.\<close>

definition prepareSched :: "bool \<Rightarrow> int \<Rightarrow> bool \<Rightarrow> task \<Rightarrow> unit result" where
  "prepareSched lock_held noff intr t =
     (if \<not> lock_held then Inl (Panic ''sched p->lock'')
      else if noff \<noteq> 1 then Inl (Panic ''sched locks'')
      else if t_state t = RUNNING then Inl (Panic ''sched running'')
      else if intr then Inl (Panic ''sched interruptible'')
      else Inr ())"

definition task_yield :: "nat \<Rightarrow> 'a ktasks_scheme \<Rightarrow> 'a ktasks_scheme" where
  "task_yield me s = upd_task me (\<lambda>t. t\<lparr>t_state := RUNNABLE\<rparr>) s"

text \<open>
  One visit of the scheduler to entry \<open>i\<close>: whether the task is switched to, and the state in which it is.
  A zombie makes the initial task runnable again.
\<close>

definition scheduler_visit :: "nat \<Rightarrow> 'a ktasks_scheme \<Rightarrow> (bool \<times> 'a ktasks_scheme) result" where
  "scheduler_visit i s =
     bindr (if t_state (the_task s i) = ZOMBIE then
              (case initTask s of Some k \<Rightarrow> Inr (upd_task k (\<lambda>t. t\<lparr>t_state := RUNNABLE\<rparr>) s)
               | None \<Rightarrow> Inl (BadAccess ''initTask''))
            else Inr s) (\<lambda>s1.
       if t_state (the_task s1 i) = RUNNABLE
       then Inr (True, upd_task i (\<lambda>t. t\<lparr>t_state := RUNNING\<rparr>) s1) else Inr (False, s1))"

definition task_alive :: "task \<Rightarrow> bool" where
  "task_alive t \<longleftrightarrow> t_state t \<noteq> UNUSED \<and> t_state t \<noteq> ZOMBIE"

text \<open>
  The pass of the scheduler over the entries \<open>is\<close>. \<open>run i\<close> is what happens from the switch to task \<open>i\<close> until it
  switches back; the results are the tasks switched to, in order, the number of live tasks met, and the state.
\<close>

primrec scheduler_pass ::
  "(nat \<Rightarrow> 'a ktasks_scheme \<Rightarrow> 'a ktasks_scheme result) \<Rightarrow> nat list \<Rightarrow> 'a ktasks_scheme \<Rightarrow>
   (nat list \<times> nat \<times> 'a ktasks_scheme) result" where
  "scheduler_pass run [] s = Inr ([], 0, s)"
| "scheduler_pass run (i # is) s =
     bindr (scheduler_visit i s) (\<lambda>(switch, s1).
       bindr (if switch then run i s1 else Inr s1) (\<lambda>s2.
         bindr (scheduler_pass run is s2) (\<lambda>(ran, alive, s3).
           Inr (if switch then i # ran else ran, if task_alive (the_task s i) then Suc alive else alive, s3))))"

text \<open>One round of the loop of \<^verbatim>\<open>sleepTime\<close>; \<open>now\<close> is the tick count at the call.\<close>

definition sleepTime_step :: "u64 \<Rightarrow> u64 \<Rightarrow> 'a ktasks_scheme \<Rightarrow> unit outcome" where
  "sleepTime_step now sleep_ticks s =
     (if scast (ticks s) - now < sleep_ticks then Sleep ChTicks else Done ())"

definition CountOfTask :: "'a ktasks_scheme \<Rightarrow> nat" where
  "CountOfTask s =
     length (filter (\<lambda>t. t_state t = RUNNABLE \<or> t_state t = RUNNING \<or> t_state t = SLEEPING) (taskTable s))"

definition task_kill :: "int \<Rightarrow> 'a ktasks_scheme \<Rightarrow> (int \<times> 'a ktasks_scheme) result" where
  "task_kill pid s =
     (if pid < 0 \<or> int (length (taskTable s)) \<le> pid then Inl (BadAccess ''taskTable'')
      else let i = nat pid in
        if t_state (the_task s i) = ZOMBIE \<or> t_state (the_task s i) = UNUSED then Inr (- 1, s)
        else Inr (0, upd_task i (\<lambda>t. t\<lparr>t_killed := True\<rparr>) s))"

record tms =
  tms_utime :: u64
  tms_stime :: u64
  tms_cutime :: u64
  tms_cstime :: u64

definition taskTimes :: "nat \<Rightarrow> 'a ktasks_scheme \<Rightarrow> tms" where
  "taskTimes me s =
     fold (\<lambda>c tm. if t_parent c = Some me
                  then tm\<lparr>tms_cutime := tms_cutime tm + scast (t_uticks c),
                          tms_cstime := tms_cstime tm + scast (t_sticks c)\<rparr> else tm)
       (taskTable s)
       \<lparr>tms_utime = scast (t_uticks (the_task s me)), tms_stime = scast (t_sticks (the_task s me)),
        tms_cutime = 0, tms_cstime = 0\<rparr>"

section \<open>Timer interrupt\<close>

text \<open>
  \<open>from_user\<close> is \<^verbatim>\<open>(r_sstatus() & SSTATUS_SPP) == 0\<close>; \<open>cur\<close> is \<^verbatim>\<open>myTask()\<close>, None in the scheduler.
\<close>

definition handleIntr :: "nat option \<Rightarrow> bool \<Rightarrow> 'a ktasks_scheme \<Rightarrow> 'a ktasks_scheme result" where
  "handleIntr cur from_user s =
     (let s1 = s\<lparr>ticks := ticks s + 1\<rparr> in
      if ticks s1 = 10 * 60 then Inl (Panic ''run out of time'')
      else let s2 = wakeup ChTicks s1 in
        Inr (case cur of None \<Rightarrow> s2
             | Some i \<Rightarrow>
                 if from_user then upd_task i (\<lambda>t. t\<lparr>t_uticks := t_uticks t + 1\<rparr>) s2
                 else upd_task i (\<lambda>t. t\<lparr>t_sticks := t_sticks t + 1\<rparr>) s2))"

definition timer_init :: "'a ktasks_scheme \<Rightarrow> 'a ktasks_scheme" where
  "timer_init s = s\<lparr>ticks := 0\<rparr>"

definition timer_interval :: "platform \<Rightarrow> u32" where
  "timer_interval pl = (case pl of K210 \<Rightarrow> 390000000 div 200 | QEMU \<Rightarrow> 1000000)"

text \<open>\<^verbatim>\<open>setTimeout\<close>: the next deadline goes through a 32-bit \<^verbatim>\<open>int\<close>.\<close>

definition setTimeout :: "platform \<Rightarrow> u64 \<Rightarrow> u64" where
  "setTimeout pl r_time = scast (ucast (r_time + ucast (timer_interval pl)) :: u32)"

section \<open>Memory of a task\<close>

definition taskPagetable :: "u64 \<Rightarrow> 'a ktasks_scheme \<Rightarrow> (u64 \<times> 'a ktasks_scheme) result" where
  "taskPagetable trapframe s =
     (let (pt, s0) = userCreate s in
      if pt = 0 then Inr (0, s0)
      else bindr (mappages pt TRAMPOLINE PGSIZE (trampoline s) (PTE_R OR PTE_X) s0) (\<lambda>(r1, s1).
        if r1 < 0 then bindr (FreeUserPageTable 3 pt 0 s1) (\<lambda>s2. Inr (0, s2))
        else bindr (mappages pt TRAPFRAME PGSIZE trapframe (PTE_R OR PTE_W) s1) (\<lambda>(r2, s2).
          if r2 < 0 then bindr (userUnmap pt TRAMPOLINE 1 False s2) (\<lambda>s3.
            bindr (FreeUserPageTable 3 pt 0 s3) (\<lambda>s4. Inr (0, s4)))
          else Inr (pt, s2))))"

text \<open>The first unused entry after entry 0.\<close>

definition find_unused :: "'a ktasks_scheme \<Rightarrow> nat option" where
  "find_unused s = find (\<lambda>i. t_state (the_task s i) = UNUSED) [1..<NTASK]"

definition sizeof_trapframe :: u32 where "sizeof_trapframe = 288"

definition allocTask :: "'a ktasks_scheme \<Rightarrow> (nat option \<times> 'a ktasks_scheme) result" where
  "allocTask s =
     (case find_unused s of None \<Rightarrow> Inr (None, s)
      | Some i \<Rightarrow>
        let (tf, s1) = ma_alloc s; s1 = upd_task i (\<lambda>t. t\<lparr>t_trapframe := tf\<rparr>) s1 in
        if tf = 0 then Inr (None, s1)
        else bindr (taskPagetable tf s1) (\<lambda>(pt, s2).
          let s3 = s2\<lparr>mem := memset (mem s2) tf 0 sizeof_trapframe\<rparr> in
          Inr (Some i, upd_task i (\<lambda>t. t\<lparr>t_pagetable := pt, t_vma := replicate NOMMAPFILE None,
                 t_openFiles := replicate NOFILE None, t_ctx_sp := t_kstack t + KSTACK_SIZE,
                 t_ctx_ra := forkret_addr s\<rparr>) s3)))"

text \<open>\<^verbatim>\<open>growtask\<close>: sizes are 32-bit, widened for the page-table operations.\<close>

definition growtask :: "nat \<Rightarrow> u32 \<Rightarrow> 'a ktasks_scheme \<Rightarrow> (int \<times> 'a ktasks_scheme) result" where
  "growtask me n s =
     (let sz = t_sz (the_task s me); pt = t_pagetable (the_task s me) in
      if 0 <s n then
        bindr (userAlloc pt (ucast sz) (ucast (sz + n)) s) (\<lambda>(r, s1).
          let sz' = (ucast r :: u32) in
          if sz' = 0 then Inr (- 1, s1) else Inr (0, upd_task me (\<lambda>t. t\<lparr>t_sz := sz'\<rparr>) s1))
      else if n <s 0 then
        bindr (userDealloc pt (ucast sz) (ucast (sz + n)) s) (\<lambda>(r, s1).
          Inr (0, upd_task me (\<lambda>t. t\<lparr>t_sz := ucast r\<rparr>) s1))
      else Inr (0, upd_task me (\<lambda>t. t\<lparr>t_sz := sz\<rparr>) s))"

definition FreeTaskPagetable :: "u64 \<Rightarrow> u64 \<Rightarrow> 'a ktasks_scheme \<Rightarrow> 'a ktasks_scheme result" where
  "FreeTaskPagetable pt sz s =
     bindr (userUnmap pt TRAMPOLINE 1 False s) (\<lambda>s1.
       bindr (userUnmap pt TRAPFRAME 1 False s1) (FreeUserPageTable 3 pt sz))"

definition freeTask :: "nat \<Rightarrow> 'a ktasks_scheme \<Rightarrow> 'a ktasks_scheme result" where
  "freeTask i s =
     (let t = the_task s i in
      bindr (if t_trapframe t \<noteq> 0 then ma_free (t_trapframe t) s else Inr s) (\<lambda>s1.
        bindr (if t_pagetable t \<noteq> 0 then FreeTaskPagetable (t_pagetable t) (scast (t_sz t)) s1 else Inr s1)
          (\<lambda>s2. Inr (upd_task i (\<lambda>t. t\<lparr>t_trapframe := 0, t_vma := replicate NOMMAPFILE None,
              t_pagetable := 0, t_sz := 0, t_name := (t_name t)[0 := 0], t_chan := None,
              t_killed := False, t_xstate := 0, t_state := UNUSED, t_parent := None\<rparr>) s2))))"

section \<open>Waiting for children\<close>

definition xstate_bytes :: "u32 \<Rightarrow> u8 list" where
  "xstate_bytes x = map (\<lambda>i. ucast (drop_bit (8 * i) x)) [0..<4]"

text \<open>The end of \<^verbatim>\<open>wait\<close> for the zombie \<open>c\<close>.\<close>

definition reap :: "nat \<Rightarrow> nat \<Rightarrow> u64 \<Rightarrow> int \<Rightarrow> 'a ktasks_scheme \<Rightarrow> (int \<times> 'a ktasks_scheme) result" where
  "reap me c vaddr ret s =
     bindr (if vaddr \<noteq> 0 then copyout (t_pagetable (the_task s me)) vaddr
              (xstate_bytes (t_xstate (the_task s c))) s else Inr (0, s)) (\<lambda>(r, s1).
       if r < 0 then Inr (- 1, s1) else bindr (freeTask c s1) (\<lambda>s2. Inr (ret, s2)))"

definition is_zombie_child :: "'a ktasks_scheme \<Rightarrow> nat \<Rightarrow> nat \<Rightarrow> bool" where
  "is_zombie_child s me c \<longleftrightarrow> t_parent (the_task s c) = Some me \<and> t_state (the_task s c) = ZOMBIE"

text \<open>One round of the loop of \<^verbatim>\<open>wait\<close>.\<close>

definition wait_step :: "nat \<Rightarrow> u64 \<Rightarrow> 'a ktasks_scheme \<Rightarrow> (int outcome \<times> 'a ktasks_scheme) result" where
  "wait_step me vaddr s =
     (case find (is_zombie_child s me) [0..<NTASK] of
        Some c \<Rightarrow> bindr (reap me c vaddr (t_pid (the_task s c)) s) (\<lambda>(r, s1). Inr (Done r, s1))
      | None \<Rightarrow>
          if \<not> list_ex (\<lambda>c. t_parent (the_task s c) = Some me) [0..<NTASK] then Inr (Done (- 1), s)
          else Inr (Sleep (ChTask me), task_sleep me (ChTask me) s))"

text \<open>\<^verbatim>\<open>wait4\<close>: the checks before its loop, and one round of the loop.\<close>

definition wait4_check :: "nat \<Rightarrow> int \<Rightarrow> 'a ktasks_scheme \<Rightarrow> bool result" where
  "wait4_check me pid s =
     (if pid \<ge> int NTASK then Inr False
      else if pid < 0 then Inl (BadAccess ''taskTable'')
      else Inr (t_parent (the_task s (nat pid)) = Some me))"

definition wait4_step ::
  "nat \<Rightarrow> nat \<Rightarrow> u64 \<Rightarrow> 'a ktasks_scheme \<Rightarrow> (int outcome \<times> 'a ktasks_scheme) result" where
  "wait4_step me c vaddr s =
     (let s1 = upd_task c (\<lambda>t. t\<lparr>t_xstate := push_bit 8 (t_xstate t)\<rparr>) s in
      if t_state (the_task s1 c) = ZOMBIE
      then bindr (reap me c vaddr (int c) s1) (\<lambda>(r, s2). Inr (Done r, s2))
      else Inr (Sleep (ChTask me), task_sleep me (ChTask me) s1))"

section \<open>File descriptors\<close>

definition registerFileHandle ::
  "nat \<Rightarrow> nat option \<Rightarrow> int \<Rightarrow> 'a ktasks_scheme \<Rightarrow> (int \<times> 'a ktasks_scheme) result" where
  "registerFileHandle me fp fd s =
     (let files = t_openFiles (the_task s me);
          put = (\<lambda>i. upd_task me (\<lambda>t. t\<lparr>t_openFiles := (t_openFiles t)[i := fp]\<rparr>) s)
      in if fd > int NFILE \<or> fp = None then Inr (- 1, s)
         else if fd < 0 then
           (case find (\<lambda>i. files ! i = None) [0..<NOFILE] of
              Some i \<Rightarrow> Inr (int i, put i)
            | None \<Rightarrow> Inl (Panic ''register file handle''))
         else if files ! nat fd = None then Inr (fd, put (nat fd))
         else Inr (- 1, s))"

definition getFileByfd :: "nat \<Rightarrow> int \<Rightarrow> 'a ktasks_scheme \<Rightarrow> nat option result" where
  "getFileByfd me fd s =
     (if fd < 0 \<or> fd > int NOFILE then Inr None
      else if nat fd \<ge> NOFILE then Inl (BadAccess ''openFiles'')
      else Inr (t_openFiles (the_task s me) ! nat fd))"

definition AllocFd :: "nat \<Rightarrow> int \<Rightarrow> int \<Rightarrow> 'a ktasks_scheme \<Rightarrow> int result" where
  "AllocFd me from to s =
     (let from = (if from < 0 then 0 else from); to = (if to < 0 then int NOFILE else to);
          files = t_openFiles (the_task s me)
      in case find (\<lambda>i. i \<ge> NOFILE \<or> files ! i = None) [nat from..<nat to] of
           None \<Rightarrow> Inl (Panic ''alloc fd'')
         | Some i \<Rightarrow> if i \<ge> NOFILE then Inl (BadAccess ''openFiles'') else Inr (int i))"

section \<open>Memory areas\<close>

definition PROT_READ :: u32 where "PROT_READ = 1"
definition PROT_WRITE :: u32 where "PROT_WRITE = 2"
definition PROT_EXEC :: u32 where "PROT_EXEC = 4"

definition MkPtePerm :: "u32 \<Rightarrow> u64" where
  "MkPtePerm prot =
     (if prot AND PROT_READ \<noteq> 0 then PTE_R else 0) OR
     (if prot AND PROT_WRITE \<noteq> 0 then PTE_W else 0) OR
     (if prot AND PROT_EXEC \<noteq> 0 then PTE_X else 0)"

definition InitVmaTable :: "'a ktasks_scheme \<Rightarrow> 'a ktasks_scheme" where
  "InitVmaTable s = s\<lparr>vma_table := replicate NVMA vma_zero\<rparr>"

definition vma_free_slot :: "vma \<Rightarrow> bool" where
  "vma_free_slot a \<longleftrightarrow> v_ip a = None \<and> v_addr a = 0 \<and> v_length a = 0"

definition allocVma :: "'a ktasks_scheme \<Rightarrow> nat result" where
  "allocVma s =
     (case find (\<lambda>i. vma_free_slot (vma_table s ! i)) [0..<NVMA] of
        Some i \<Rightarrow> Inr i | None \<Rightarrow> Inl (Panic ''not enough vma''))"

text \<open>\<^verbatim>\<open>Task::ModifyMemProt\<close>, one memory area at a time; the range test uses the argument \<^verbatim>\<open>len\<close>.\<close>

definition ModifyMemProt_vma ::
  "u64 \<Rightarrow> u64 \<Rightarrow> u32 \<Rightarrow> u32 \<Rightarrow> nat option \<Rightarrow> 'a ktasks_scheme \<Rightarrow> 'a ktasks_scheme result" where
  "ModifyMemProt_vma pt va len prot slot s =
     (case slot of None \<Rightarrow> Inr s
      | Some k \<Rightarrow>
          let a = vma_table s ! k in
          if va \<ge> v_addr a \<and> va < v_addr a + scast len then
            let s1 = s\<lparr>vma_table := (vma_table s)[k := a\<lparr>v_prot := v_prot a OR prot\<rparr>]\<rparr> in
            bindr (walk pt (PGROUNDDOWN va) False s1) (\<lambda>(pte, s2).
              if pte = 0 then Inr s2
              else Inr (s2\<lparr>mem := write64 (mem s2) pte (read64 (mem s2) pte OR MkPtePerm prot)\<rparr>))
          else Inr s)"

fun ModifyMemProt_loop ::
  "u64 \<Rightarrow> u64 \<Rightarrow> u32 \<Rightarrow> u32 \<Rightarrow> nat option list \<Rightarrow> 'a ktasks_scheme \<Rightarrow> 'a ktasks_scheme result" where
  "ModifyMemProt_loop pt va len prot [] s = Inr s"
| "ModifyMemProt_loop pt va len prot (v # vs) s =
     bindr (ModifyMemProt_vma pt va len prot v s) (ModifyMemProt_loop pt va len prot vs)"

definition ModifyMemProt ::
  "nat \<Rightarrow> u64 \<Rightarrow> u32 \<Rightarrow> u32 \<Rightarrow> 'a ktasks_scheme \<Rightarrow> (int \<times> 'a ktasks_scheme) result" where
  "ModifyMemProt me va len prot s =
     bindr (ModifyMemProt_loop (t_pagetable (the_task s me)) va len prot (t_vma (the_task s me)) s)
       (\<lambda>s1. Inr (0, s1))"

text \<open>\<^verbatim>\<open>CopyVmaMem\<close>; the sign-extended \<^verbatim>\<open>sz\<close> of the parent is compared with the 64-bit address.\<close>

fun CopyVmaMem_loop ::
  "u64 \<Rightarrow> u64 \<Rightarrow> u64 \<Rightarrow> nat option list \<Rightarrow> 'a ktasks_scheme \<Rightarrow> 'a ktasks_scheme result" where
  "CopyVmaMem_loop oldPg newPg sz [] s = Inr s"
| "CopyVmaMem_loop oldPg newPg sz (None # vs) s = CopyVmaMem_loop oldPg newPg sz vs s"
| "CopyVmaMem_loop oldPg newPg sz (Some k # vs) s =
     (let a = vma_table s ! k in
      if v_addr a < sz then CopyVmaMem_loop oldPg newPg sz vs s
      else bindr (CopyUserMem oldPg newPg (v_addr a) (v_length a) s)
             (\<lambda>(_, s1). CopyVmaMem_loop oldPg newPg sz vs s1))"

definition CopyVmaMem :: "nat \<Rightarrow> nat \<Rightarrow> 'a ktasks_scheme \<Rightarrow> 'a ktasks_scheme result" where
  "CopyVmaMem parent child s =
     (let p = the_task s parent in
      CopyVmaMem_loop (t_pagetable p) (t_pagetable (the_task s child)) (scast (t_sz p)) (t_vma p) s)"

lemma ktasks_of_more:
  assumes "kpages.more s' = kpages.more s"
  shows "taskTable s' = taskTable s" "initTask s' = initTask s" "vma_table s' = vma_table s" "ticks s' = ticks s"
    "stack_base s' = stack_base s" "forkret_addr s' = forkret_addr s"
  using assms by (cases s; cases s'; auto)+


section \<open>The shape of the task table\<close>

text \<open>
  Entry \<open>i\<close> of the task table has process number \<open>i\<close> and its own kernel stack, and its arrays have the sizes
  of their declarations.
\<close>

definition task_shape :: "u64 \<Rightarrow> nat \<Rightarrow> task \<Rightarrow> bool" where
  "task_shape base i t \<longleftrightarrow> t_pid t = int i \<and> t_kstack t = base + KSTACK_SIZE * of_nat i \<and>
     length (t_openFiles t) = NOFILE \<and> length (t_vma t) = NOMMAPFILE \<and> length (t_currentDir t) = MAXPATH"

definition table_shape :: "'a ktasks_scheme \<Rightarrow> bool" where
  "table_shape s \<longleftrightarrow> length (taskTable s) = NTASK \<and> (\<forall>i < NTASK. task_shape (stack_base s) i (the_task s i))"

lemma table_shape_upd:
  assumes "table_shape s" and "\<And>t i. task_shape (stack_base s) i t \<Longrightarrow> task_shape (stack_base s) i (f t)"
  shows "table_shape (upd_task k f s)"
proof -
  have "task_shape (stack_base s) i ((taskTable s)[k := f (taskTable s ! k)] ! i)" if i: "i < NTASK" for i
  proof (cases "i = k")
    case True
    then show ?thesis using assms i by (simp add: table_shape_def the_task_def)
  next
    case False
    then show ?thesis using assms(1) i by (simp add: table_shape_def the_task_def)
  qed
  then show ?thesis using assms(1) by (simp add: table_shape_def upd_task_def the_task_def)
qed

lemma table_shape_map:
  assumes "table_shape s" and "\<And>t i. task_shape (stack_base s) i t \<Longrightarrow> task_shape (stack_base s) i (f t)"
  shows "table_shape (s\<lparr>taskTable := map f (taskTable s)\<rparr>)"
  using assms by (simp add: table_shape_def the_task_def)

lemma table_shape_more: "kpages.more s' = kpages.more s \<Longrightarrow> table_shape s \<Longrightarrow> table_shape s'"
  using ktasks_of_more(1,5) [of s' s] by (simp add: table_shape_def the_task_def)

lemma table_shape_fields [simp]:
  "table_shape (s\<lparr>mem := m\<rparr>) = table_shape s" "table_shape (s\<lparr>ticks := n\<rparr>) = table_shape s"
  by (simp_all add: table_shape_def the_task_def)

lemma initTaskTable_shape: "table_shape (initTaskTable s)"
  by (simp add: table_shape_def initTaskTable_def the_task_def task_shape_def initTask_entry_def)

lemma wakeup_shape: "table_shape s \<Longrightarrow> table_shape (wakeup c s)"
  unfolding wakeup_def by (rule table_shape_map) (auto simp: task_shape_def wakeup_task_def)

lemma scheduler_visit_shape: "scheduler_visit i s = Inr (b, s') \<Longrightarrow> table_shape s \<Longrightarrow> table_shape s'"
  unfolding scheduler_visit_def
  by (auto simp: bindr_eq_Inr_iff task_shape_def split: if_splits option.splits intro!: table_shape_upd)

lemma handleIntr_shape: "handleIntr cur u s = Inr s' \<Longrightarrow> table_shape s \<Longrightarrow> table_shape s'"
  unfolding handleIntr_def Let_def
  by (auto split: if_splits option.splits intro!: table_shape_upd wakeup_shape simp: task_shape_def)

lemma taskPagetable_more: "taskPagetable tf s = Inr (pt, s') \<Longrightarrow> kpages.more s' = kpages.more s"
  unfolding taskPagetable_def
  by (auto simp: bindr_eq_Inr_iff split: prod.splits if_splits dest!: userCreate_more mappages_more userUnmap_more FreeUserPageTable_more)

lemma FreeTaskPagetable_more: "FreeTaskPagetable pt sz s = Inr s' \<Longrightarrow> kpages.more s' = kpages.more s"
  unfolding FreeTaskPagetable_def by (auto simp: bindr_eq_Inr_iff dest!: userUnmap_more FreeUserPageTable_more)

lemmas mem_op_shape = taskPagetable_more [THEN table_shape_more] userAlloc_more [THEN table_shape_more]
  userDealloc_more [THEN table_shape_more] FreeTaskPagetable_more [THEN table_shape_more]
  ma_free_more [THEN table_shape_more] copyout_more [THEN table_shape_more]

lemma allocTask_shape:
  assumes "allocTask s = Inr (r, s')" "table_shape s" shows "table_shape s'"
proof -
  obtain tf s1 where m: "ma_alloc s = (tf, s1)" by fastforce
  have s1: "table_shape s1" using table_shape_more [OF ma_alloc_pair [OF m] assms(2)] .
  have u: "table_shape (upd_task i (\<lambda>t. t\<lparr>t_trapframe := tf\<rparr>) s1)" for i
    using s1 by (rule table_shape_upd) (simp add: task_shape_def)
  show ?thesis using assms m s1 u unfolding allocTask_def
    by (auto simp: Let_def bindr_eq_Inr_iff task_shape_def split: option.splits if_splits
        intro!: table_shape_upd intro: mem_op_shape [OF _ u])
qed

lemma growtask_shape: "growtask me n s = Inr (r, s') \<Longrightarrow> table_shape s \<Longrightarrow> table_shape s'"
  unfolding growtask_def Let_def
  by (auto simp: bindr_eq_Inr_iff task_shape_def split: if_splits
      intro!: table_shape_upd intro: mem_op_shape)

lemma freeTask_shape: "freeTask i s = Inr s' \<Longrightarrow> table_shape s \<Longrightarrow> table_shape s'"
  unfolding freeTask_def Let_def
  by (auto simp: bindr_eq_Inr_iff task_shape_def split: if_splits
      intro!: table_shape_upd intro: mem_op_shape)

lemma reap_shape: "reap me c va ret s = Inr (r, s') \<Longrightarrow> table_shape s \<Longrightarrow> table_shape s'"
  unfolding reap_def
  by (auto simp: bindr_eq_Inr_iff split: if_splits intro: freeTask_shape mem_op_shape)

lemma task_sleep_shape: "table_shape s \<Longrightarrow> table_shape (task_sleep me c s)"
  unfolding task_sleep_def by (rule table_shape_upd) (simp_all add: task_shape_def)

lemma wait_step_shape: "wait_step me va s = Inr (r, s') \<Longrightarrow> table_shape s \<Longrightarrow> table_shape s'"
  unfolding wait_step_def
  by (auto simp: bindr_eq_Inr_iff split: option.splits if_splits intro: reap_shape task_sleep_shape)

lemma wait4_step_shape:
  assumes "wait4_step me c va s = Inr (r, s')" "table_shape s" shows "table_shape s'"
proof -
  have "table_shape (upd_task c (\<lambda>t. t\<lparr>t_xstate := push_bit 8 (t_xstate t)\<rparr>) s)"
    using assms(2) by (rule table_shape_upd) (simp add: task_shape_def)
  then show ?thesis using assms(1) unfolding wait4_step_def Let_def
    by (auto simp: bindr_eq_Inr_iff split: if_splits intro: reap_shape task_sleep_shape)
qed

lemma registerFileHandle_shape: "registerFileHandle me fp fd s = Inr (r, s') \<Longrightarrow> table_shape s \<Longrightarrow> table_shape s'"
  unfolding registerFileHandle_def Let_def
  by (auto simp: task_shape_def split: if_splits option.splits intro!: table_shape_upd)

lemma task_kill_shape: "task_kill pid s = Inr (r, s') \<Longrightarrow> table_shape s \<Longrightarrow> table_shape s'"
  unfolding task_kill_def Let_def
  by (auto simp: task_shape_def split: if_splits intro!: table_shape_upd)

lemmas task_op_shape =
  task_sleep_shape wakeup_shape scheduler_visit_shape handleIntr_shape allocTask_shape growtask_shape freeTask_shape
  wait_step_shape wait4_step_shape registerFileHandle_shape task_kill_shape

text \<open>The steps of the kernel on its tasks, and the states reached from boot.\<close>

inductive task_op :: "'a ktasks_scheme \<Rightarrow> 'a ktasks_scheme \<Rightarrow> bool" where
  op_sleep: "task_op s (task_sleep me c s)"
| op_resume: "task_op s (task_resume me s)"
| op_wakeup: "task_op s (wakeup c s)"
| op_yield: "task_op s (task_yield me s)"
| op_visit: "scheduler_visit i s = Inr (b, s') \<Longrightarrow> task_op s s'"
| op_timer: "handleIntr cur u s = Inr s' \<Longrightarrow> task_op s s'"
| op_alloc: "allocTask s = Inr (r, s') \<Longrightarrow> task_op s s'"
| op_grow: "growtask me n s = Inr (r, s') \<Longrightarrow> task_op s s'"
| op_free: "freeTask i s = Inr s' \<Longrightarrow> task_op s s'"
| op_wait: "wait_step me va s = Inr (w, s') \<Longrightarrow> task_op s s'"
| op_wait4: "wait4_step me c va s = Inr (w, s') \<Longrightarrow> task_op s s'"
| op_register: "registerFileHandle me fp fd s = Inr (r, s') \<Longrightarrow> task_op s s'"
| op_kill: "task_kill pid s = Inr (r, s') \<Longrightarrow> task_op s s'"

inductive task_reach :: "'a ktasks_scheme \<Rightarrow> bool" where
  reach_boot: "task_reach (initTaskTable s)"
| reach_op: "task_reach s \<Longrightarrow> task_op s s' \<Longrightarrow> task_reach s'"

lemma task_op_keeps_shape: "task_op s s' \<Longrightarrow> table_shape s \<Longrightarrow> table_shape s'"
proof (induction rule: task_op.induct)
  case (op_resume s me)
  then show ?case unfolding task_resume_def by (rule table_shape_upd) (simp add: task_shape_def)
next
  case (op_yield s me)
  then show ?case unfolding task_yield_def by (rule table_shape_upd) (simp add: task_shape_def)
qed (auto intro: task_op_shape)

lemma kstack_distinct:
  assumes "i < NTASK" "j < NTASK" "i \<noteq> j"
  shows "b + KSTACK_SIZE * of_nat i \<noteq> b + KSTACK_SIZE * of_nat j"
proof
  assume "b + KSTACK_SIZE * of_nat i = b + KSTACK_SIZE * of_nat j"
  then have "unat (8192 * of_nat i :: u64) = unat (8192 * of_nat j :: u64)" by (simp add: KSTACK_SIZE_def PGSIZE_def)
  then show False using assms by (simp add: unat_word_ariths NTASK_def)
qed

text \<open>
  In every state reached from the initialised task table by the operations of this theory on tasks (scheduling, sleeping and
  waking, the timer, allocation, growth, release, waiting, file registration, kill; \<^verbatim>\<open>fork\<close>, \<^verbatim>\<open>clone\<close>, \<^verbatim>\<open>exit\<close> and
  \<^verbatim>\<open>initFirstTask\<close> are in the theories that import this one), the table keeps its shape:
  fifty entries, entry \<open>i\<close> with process number \<open>i\<close>, descriptor table, area table and path buffer of their declared
  sizes, and a kernel stack of its own.
\<close>

lemma task_table_well_formed:
  assumes "task_reach s"
  shows "length (taskTable s) = NTASK \<and>
    (\<forall>i < NTASK. t_pid (the_task s i) = int i \<and> length (t_openFiles (the_task s i)) = NOFILE \<and>
       length (t_vma (the_task s i)) = NOMMAPFILE \<and> length (t_currentDir (the_task s i)) = MAXPATH \<and>
       (\<forall>j < NTASK. j \<noteq> i \<longrightarrow> t_kstack (the_task s j) \<noteq> t_kstack (the_task s i)))"
proof -
  have "table_shape s" using assms
    by (induction rule: task_reach.induct) (auto intro: initTaskTable_shape task_op_keeps_shape)
  then show ?thesis using kstack_distinct unfolding table_shape_def task_shape_def by auto
qed

text \<open>A kernel at boot, for the concrete instances.\<close>

definition unset_task :: task where
  "unset_task = \<lparr>t_state = UNUSED, t_parent = None, t_chan = None, t_killed = False, t_xstate = 0, t_pid = 0,
     t_trapframe = 0, t_pagetable = 0, t_openFiles = [], t_currentDir = [], t_cwd = None, t_sticks = 0, t_uticks = 0,
     t_vma = [], t_kstack = 0, t_ctx_ra = 0, t_ctx_sp = 0, t_name = replicate 16 0, t_sz = 0, t_uid = 0, t_gid = 0\<rparr>"

definition boot_machine :: ktasks where
  "boot_machine =
     \<lparr>mem = (\<lambda>_. 0), kend = 0x80020000, freeList = 0, npage = 0, total_page = 0, freelist = (\<lambda>_. 0), maxlv = 12,
      minlv = 4, taskTable = replicate NTASK unset_task, initTask = Some 1, vma_table = replicate NVMA vma_zero,
      ticks = 0, trampoline = 0x80021000, stack_base = 0x80030000, forkret_addr = 0x80022000\<rparr>"

section \<open>Scheduling\<close>

lemma upd_task_other: "i \<noteq> k \<Longrightarrow> the_task (upd_task k f s) i = the_task s i"
  by (simp add: upd_task_def the_task_def)

lemma upd_task_same: "i < length (taskTable s) \<Longrightarrow> the_task (upd_task i f s) i = f (the_task s i)"
  by (simp add: upd_task_def the_task_def)

lemma upd_task_table [simp]: "length (taskTable (upd_task k f s)) = length (taskTable s)" "initTask (upd_task k f s) = initTask s"
  by (simp_all add: upd_task_def)

lemma upd_task_runnable:
  "t_state (the_task s i) = RUNNABLE \<Longrightarrow> t_state (the_task (upd_task k (\<lambda>t. t\<lparr>t_state := RUNNABLE\<rparr>) s) i) = RUNNABLE"
  by (cases "i = k"; cases "k < length (taskTable s)") (auto simp: upd_task_def the_task_def list_update_beyond)

lemma scheduler_visit_ok:
  assumes "initTask s \<noteq> None" "length (taskTable s) = NTASK" "j < NTASK"
  shows "\<exists>b s1. scheduler_visit j s = Inr (b, s1) \<and> initTask s1 \<noteq> None \<and> length (taskTable s1) = NTASK \<and>
    (t_state (the_task s i) = RUNNABLE \<longrightarrow> (if i = j then b else t_state (the_task s1 i) = RUNNABLE))"
proof -
  obtain k where k: "initTask s = Some k" using assms(1) by auto
  define s0 where "s0 = (if t_state (the_task s j) = ZOMBIE then upd_task k (\<lambda>t. t\<lparr>t_state := RUNNABLE\<rparr>) s else s)"
  have v: "scheduler_visit j s = (if t_state (the_task s0 j) = RUNNABLE
      then Inr (True, upd_task j (\<lambda>t. t\<lparr>t_state := RUNNING\<rparr>) s0) else Inr (False, s0))"
    by (simp add: scheduler_visit_def k s0_def)
  have s0: "initTask s0 = Some k" "length (taskTable s0) = NTASK"
    "t_state (the_task s i) = RUNNABLE \<Longrightarrow> t_state (the_task s0 i) = RUNNABLE"
    using assms(2) k upd_task_runnable [of s i k] by (auto simp: s0_def)
  show ?thesis using s0 unfolding v by (auto simp: upd_task_other)
qed

text \<open>
  What the scheduler needs of the tasks it switches to: they switch back, and no task makes another one that is
  ready to run not ready.
\<close>

definition fair_run :: "(nat \<Rightarrow> 'a ktasks_scheme \<Rightarrow> 'a ktasks_scheme result) \<Rightarrow> bool" where
  "fair_run run \<longleftrightarrow> (\<forall>j s. initTask s \<noteq> None \<longrightarrow> length (taskTable s) = NTASK \<longrightarrow>
     (\<exists>s'. run j s = Inr s' \<and> initTask s' \<noteq> None \<and> length (taskTable s') = NTASK \<and>
       (\<forall>i. i \<noteq> j \<longrightarrow> t_state (the_task s i) = RUNNABLE \<longrightarrow> t_state (the_task s' i) = RUNNABLE)))"

lemma scheduler_pass_runs:
  assumes "fair_run run"
  shows "initTask s \<noteq> None \<Longrightarrow> length (taskTable s) = NTASK \<Longrightarrow> (\<forall>j \<in> set is. j < NTASK) \<Longrightarrow>
    \<exists>ran alive s'. scheduler_pass run is s = Inr (ran, alive, s') \<and> subseq ran is \<and>
      (i \<in> set is \<longrightarrow> t_state (the_task s i) = RUNNABLE \<longrightarrow> i \<in> set ran)"
proof (induction "is" arbitrary: s)
  case (Cons j "is")
  obtain b s1 where v: "scheduler_visit j s = Inr (b, s1)" "initTask s1 \<noteq> None" "length (taskTable s1) = NTASK"
      "t_state (the_task s i) = RUNNABLE \<longrightarrow> (if i = j then b else t_state (the_task s1 i) = RUNNABLE)"
    using scheduler_visit_ok [OF Cons(2,3), of j i] Cons(4) by auto
  obtain s2 where r: "(if b then run j s1 else Inr s1) = Inr s2" "initTask s2 \<noteq> None" "length (taskTable s2) = NTASK"
      "i \<noteq> j \<longrightarrow> t_state (the_task s1 i) = RUNNABLE \<longrightarrow> t_state (the_task s2 i) = RUNNABLE"
  proof (cases b)
    case True
    obtain s2 where "run j s1 = Inr s2 \<and> initTask s2 \<noteq> None \<and> length (taskTable s2) = NTASK \<and>
        (\<forall>i. i \<noteq> j \<longrightarrow> t_state (the_task s1 i) = RUNNABLE \<longrightarrow> t_state (the_task s2 i) = RUNNABLE)"
      using assms v(2,3) unfolding fair_run_def by blast
    then show ?thesis using True that by simp
  next
    case False
    then show ?thesis using v(2,3) that by simp
  qed
  obtain ran alive s3 where p: "scheduler_pass run is s2 = Inr (ran, alive, s3)" "subseq ran is"
      "i \<in> set is \<longrightarrow> t_state (the_task s2 i) = RUNNABLE \<longrightarrow> i \<in> set ran"
    using Cons(1) [OF r(2,3)] Cons(4) by auto
  show ?case using v r p by (cases "i = j") (auto simp: if_distrib)
qed simp

lemma subseq_order:
  assumes "subseq xs [a..<b]" shows "sorted xs \<and> distinct xs"
proof -
  obtain N where "xs = nths [a..<b] N" using assms by (auto simp: subseq_conv_nths)
  then show ?thesis by (simp add: sorted_nths)
qed

lemma wakeup_sleeper:
  assumes "i < length (taskTable s)" "t_state (the_task s i) = SLEEPING" "t_chan (the_task s i) = Some c"
  shows "t_state (the_task (wakeup c s) i) = RUNNABLE"
  using assms by (simp add: wakeup_def the_task_def wakeup_task_def)

text \<open>
  C12: After \<^verbatim>\<open>wakeup(c)\<close> every task that slept on channel \<open>c\<close> is switched to in the next pass of the scheduler over
  the task table, whatever the other tasks do in between as long as they give the processor back; the pass
  completes, and each task is switched to at most once in it, in the order of the table.
\<close>

theorem wakeup_runs_sleepers:
  assumes "fair_run run" and "length (taskTable s) = NTASK" and "initTask s \<noteq> None"
    and "i < NTASK" and "t_state (the_task s i) = SLEEPING" and "t_chan (the_task s i) = Some c"
  shows "\<exists>ran alive s'. scheduler_pass run [0..<NTASK] (wakeup c s) = Inr (ran, alive, s') \<and>
    i \<in> set ran \<and> sorted ran \<and> distinct ran"
proof -
  have w: "initTask (wakeup c s) \<noteq> None" "length (taskTable (wakeup c s)) = NTASK"
    using assms(2,3) by (simp_all add: wakeup_def)
  have "t_state (the_task (wakeup c s) i) = RUNNABLE" using assms by (intro wakeup_sleeper) auto
  then obtain ran alive s' where p: "scheduler_pass run [0..<NTASK] (wakeup c s) = Inr (ran, alive, s')"
      "subseq ran [0..<NTASK]" "i \<in> set ran"
    using scheduler_pass_runs [OF assms(1) w, of "[0..<NTASK]" i] assms(4) by auto
  then show ?thesis using subseq_order [OF p(2)] by auto
qed

lemma fair_yield: "fair_run (\<lambda>j s. Inr (task_yield j s))"
  by (auto simp: fair_run_def task_yield_def upd_task_other)

theorem wakeup_runs_sleepers_witness:
  "\<exists>ran alive s'. scheduler_pass (\<lambda>j s. Inr (task_yield j s)) [0..<NTASK]
     (wakeup ChTicks (task_sleep 5 ChTicks (initTaskTable boot_machine))) = Inr (ran, alive, s') \<and> 5 \<in> set ran"
proof -
  let ?s = "task_sleep 5 ChTicks (initTaskTable boot_machine)"
  have "length (taskTable ?s) = NTASK" "initTask ?s \<noteq> None"
    by (simp_all add: task_sleep_def initTaskTable_def boot_machine_def)
  moreover have "t_state (the_task ?s 5) = SLEEPING" "t_chan (the_task ?s 5) = Some ChTicks"
    by (simp_all add: task_sleep_def initTaskTable_def upd_task_same NTASK_def)
  ultimately show ?thesis using wakeup_runs_sleepers [OF fair_yield, of ?s 5 ChTicks] by (auto simp: NTASK_def)
qed

section \<open>Descriptors\<close>

lemma getFileByfd_upd:
  assumes "me < length (taskTable s)" "k < length (t_openFiles (the_task s me))" "length (t_openFiles (the_task s me)) = NOFILE"
  shows "getFileByfd me r (upd_task me (\<lambda>t. t\<lparr>t_openFiles := (t_openFiles t)[k := v]\<rparr>) s) =
    (if r = int k then Inr v else getFileByfd me r s)"
  using assms by (auto simp: getFileByfd_def upd_task_same nth_list_update)

text \<open>
  \<^verbatim>\<open>registerFileHandle\<close> stays within the descriptor table: it puts the file into a free slot (the one asked for, or
  the lowest free one), where \<^verbatim>\<open>getFileByfd\<close> then finds it, and changes no other descriptor; it refuses a slot
  in use or a number beyond \<^verbatim>\<open>NFILE\<close> with -1 and no change; it panics exactly when no slot is free.
\<close>

lemma registerFileHandle_in_table:
  assumes "length (t_openFiles (the_task s me)) = NOFILE" and "me < length (taskTable s)"
  shows "case registerFileHandle me (Some fp) fd s of
      Inl e \<Rightarrow> fd < 0 \<and> None \<notin> set (t_openFiles (the_task s me))
    | Inr (r, s') \<Rightarrow>
        if r = - 1 then s' = s \<and> (int NFILE < fd \<or> 0 \<le> fd \<and> getFileByfd me fd s \<noteq> Inr None)
        else 0 \<le> r \<and> r < int NOFILE \<and> (0 \<le> fd \<longrightarrow> r = fd) \<and> getFileByfd me r s = Inr None \<and>
          (fd < 0 \<longrightarrow> (\<forall>k < nat r. t_openFiles (the_task s me) ! k \<noteq> None)) \<and>
          (\<forall>q. getFileByfd me q s' = (if q = r then Inr (Some fp) else getFileByfd me q s))"
proof -
  let ?f = "t_openFiles (the_task s me)"
  consider (big) "int NFILE < fd" | (pick) "fd < 0" | (slot) "0 \<le> fd" "fd \<le> int NFILE" by linarith
  then show ?thesis
  proof cases
    case big
    then show ?thesis by (simp add: registerFileHandle_def)
  next
    case pick
    show ?thesis
    proof (cases "find (\<lambda>i. ?f ! i = None) [0..<NOFILE]")
      case None
      then have "None \<notin> set ?f" using assms(1) by (auto simp: find_None_iff in_set_conv_nth)
      then show ?thesis using pick None by (simp add: registerFileHandle_def NFILE_def)
    next
      case (Some i)
      then have i: "i < NOFILE" "?f ! i = None" "\<forall>k < i. ?f ! k \<noteq> None" by (auto simp: find_Some_iff)
      have "getFileByfd me (int i) s = Inr None" using i by (simp add: getFileByfd_def)
      then show ?thesis using pick Some i assms by (simp add: registerFileHandle_def NFILE_def getFileByfd_upd)
    qed
  next
    case slot
    then have n: "nat fd < NOFILE" by (simp add: NFILE_def NOFILE_def)
    have "getFileByfd me fd s = Inr (?f ! nat fd)" using slot n by (simp add: getFileByfd_def NFILE_def NOFILE_def)
    then show ?thesis using slot n assms by (auto simp: registerFileHandle_def getFileByfd_upd)
  qed
qed

text \<open>
  \<^verbatim>\<open>getFileByfd\<close> reads past the descriptor table for exactly one argument, the table's size: its test lets
  \<^verbatim>\<open>fd == NOFILE\<close> through.
\<close>

lemma getFileByfd_past_table:
  "getFileByfd me fd s = Inl e \<longleftrightarrow> fd = int NOFILE \<and> e = BadAccess ''openFiles''"
  by (auto simp: getFileByfd_def)

end
