(* ===== verification/Pipes.thy ===== *)
theory Pipes
  imports Tasks
begin

text \<open>
  \<^verbatim>\<open>src/kernel/fs/Pipe.cpp\<close>: a ring buffer of 512 bytes with free-running 32-bit counters. Pipe
  objects live in a store of their own, indexed by their number. \<^verbatim>\<open>read\<close> and \<^verbatim>\<open>write\<close> run until they
  return or have to sleep; the argument \<open>i\<close> is the position the loop has reached, so that a
  sleeping \<^verbatim>\<open>write\<close> goes on where it stopped.
\<close>

section \<open>The model\<close>

definition PIPESIZE :: nat where "PIPESIZE = 512"

record pipe =
  readopen :: bool
  writeopen :: bool
  nwrite :: u32
  nread :: u32
  pdata :: "u8 list"

record kpipes = ktasks +
  pipes :: "nat \<Rightarrow> pipe option"

datatype EndType = READ_END | WRITE_END

definition pipe_new :: pipe where
  "pipe_new = \<lparr>readopen = True, writeopen = True, nwrite = 0, nread = 0, pdata = replicate PIPESIZE 0\<rparr>"

definition upd_pipe :: "nat \<Rightarrow> pipe \<Rightarrow> 'a kpipes_scheme \<Rightarrow> 'a kpipes_scheme" where
  "upd_pipe p x s = s\<lparr>pipes := (pipes s)(p \<mapsto> x)\<rparr>"

definition pipe_empty :: "pipe \<Rightarrow> bool" where "pipe_empty x \<longleftrightarrow> nread x = nwrite x"

definition pipe_full :: "pipe \<Rightarrow> bool" where
  "pipe_full x \<longleftrightarrow> nwrite x = nread x + of_nat PIPESIZE"

definition pipe_take :: "pipe \<Rightarrow> u8 \<times> pipe" where
  "pipe_take x = (pdata x ! (unat (nread x) mod PIPESIZE), x\<lparr>nread := nread x + 1\<rparr>)"

definition pipe_put :: "u8 \<Rightarrow> pipe \<Rightarrow> pipe" where
  "pipe_put c x =
     x\<lparr>pdata := (pdata x)[unat (nwrite x) mod PIPESIZE := c], nwrite := nwrite x + 1\<rparr>"

text \<open>The copying loop of \<^verbatim>\<open>read\<close>: at most \<open>n\<close> bytes to \<open>addr\<close>, the number copied.\<close>

fun pipe_read_loop ::
  "nat \<Rightarrow> u64 \<Rightarrow> nat \<Rightarrow> nat \<Rightarrow> u64 \<Rightarrow> 'a kpipes_scheme \<Rightarrow> (nat \<times> 'a kpipes_scheme) result" where
  "pipe_read_loop p pt i 0 addr s = Inr (i, s)"
| "pipe_read_loop p pt i (Suc n) addr s =
     (case pipes s p of None \<Rightarrow> Inl (BadAccess ''pipe'')
      | Some x \<Rightarrow>
          if pipe_empty x then Inr (i, s)
          else let (ch, x1) = pipe_take x in
            bindr (copyout pt (addr + of_nat i) [ch] (upd_pipe p x1 s)) (\<lambda>(r, s1).
              if r = - 1 then Inr (i, s1) else pipe_read_loop p pt (Suc i) n addr s1))"

definition pipe_read ::
  "nat \<Rightarrow> nat \<Rightarrow> u64 \<Rightarrow> int \<Rightarrow> 'a kpipes_scheme \<Rightarrow> (int outcome \<times> 'a kpipes_scheme) result" where
  "pipe_read me p addr n s =
     (case pipes s p of None \<Rightarrow> Inl (BadAccess ''pipe'')
      | Some x \<Rightarrow>
          if pipe_empty x \<and> writeopen x then
            (if t_killed (the_task s me) then Inr (Done (- 1), s)
             else Inr (Sleep (ChPipeRead p), task_sleep me (ChPipeRead p) s))
          else bindr (pipe_read_loop p (t_pagetable (the_task s me)) 0 (nat n) addr s)
                 (\<lambda>(i, s1). Inr (Done (int i), wakeup (ChPipeWrite p) s1)))"

text \<open>
  The loop of \<^verbatim>\<open>write\<close> from position \<open>i\<close> with \<open>n\<close> bytes to go. When the buffer is full it wakes
  the readers and sleeps at that position.
\<close>

fun pipe_write_loop ::
  "nat \<Rightarrow> nat \<Rightarrow> u64 \<Rightarrow> nat \<Rightarrow> nat \<Rightarrow> 'a kpipes_scheme \<Rightarrow> (int outcome \<times> nat \<times> 'a kpipes_scheme) result" where
  "pipe_write_loop me p addr i 0 s = Inr (Done (int i), i, wakeup (ChPipeRead p) s)"
| "pipe_write_loop me p addr i (Suc n) s =
     (case pipes s p of None \<Rightarrow> Inl (BadAccess ''pipe'')
      | Some x \<Rightarrow>
          if pipe_full x then
            (if \<not> readopen x \<or> t_killed (the_task s me) then Inr (Done (- 1), i, s)
             else Inr (Sleep (ChPipeWrite p), i,
                       task_sleep me (ChPipeWrite p) (wakeup (ChPipeRead p) s)))
          else bindr (copyin (t_pagetable (the_task s me)) (addr + of_nat i) 1 s) (\<lambda>(r, bs).
            if r = - 1 then Inr (Done (int i), i, wakeup (ChPipeRead p) s)
            else pipe_write_loop me p addr (Suc i) n (upd_pipe p (pipe_put (hd bs) x) s)))"

definition pipe_write ::
  "nat \<Rightarrow> nat \<Rightarrow> u64 \<Rightarrow> nat \<Rightarrow> int \<Rightarrow> 'a kpipes_scheme \<Rightarrow> (int outcome \<times> nat \<times> 'a kpipes_scheme) result" where
  "pipe_write me p addr i n s = pipe_write_loop me p addr i (nat n - i) s"

definition pipe_close :: "nat \<Rightarrow> EndType \<Rightarrow> 'a kpipes_scheme \<Rightarrow> 'a kpipes_scheme result" where
  "pipe_close p ty s =
     (case pipes s p of None \<Rightarrow> Inl (BadAccess ''pipe'')
      | Some x \<Rightarrow>
          let (x1, s1) = (if ty = READ_END
                then (x\<lparr>readopen := False\<rparr>, wakeup (ChPipeWrite p) s)
                else (x\<lparr>writeopen := False\<rparr>, wakeup (ChPipeRead p) s))
          in if \<not> readopen x1 \<and> \<not> writeopen x1
             then Inr (s1\<lparr>pipes := (pipes s1)(p := None)\<rparr>)
             else Inr (upd_pipe p x1 s1))"

section \<open>A pipe is a bounded queue\<close>

text \<open>
  The interface of a bounded byte queue. The ring buffer implements it although its counters wrap
  around.
\<close>

locale bounded_queue =
  fixes ok :: "'q \<Rightarrow> bool" and contents :: "'q \<Rightarrow> u8 list" and cap :: nat
    and empty :: "'q \<Rightarrow> bool" and full :: "'q \<Rightarrow> bool"
    and put :: "u8 \<Rightarrow> 'q \<Rightarrow> 'q" and get :: "'q \<Rightarrow> u8 \<times> 'q"
  assumes bound: "ok q \<Longrightarrow> length (contents q) \<le> cap"
    and empty_iff: "ok q \<Longrightarrow> empty q \<longleftrightarrow> contents q = []"
    and full_iff: "ok q \<Longrightarrow> full q \<longleftrightarrow> length (contents q) = cap"
    and put_contents: "ok q \<Longrightarrow> \<not> full q \<Longrightarrow> ok (put c q) \<and> contents (put c q) = contents q @ [c]"
    and get_contents: "ok q \<Longrightarrow> \<not> empty q \<Longrightarrow>
      ok (snd (get q)) \<and> contents q = fst (get q) # contents (snd (get q))"
begin

fun put_all :: "u8 list \<Rightarrow> 'q \<Rightarrow> 'q" where
  "put_all [] q = q"
| "put_all (c # cs) q = put_all cs (put c q)"

fun get_all :: "nat \<Rightarrow> 'q \<Rightarrow> u8 list \<times> 'q" where
  "get_all 0 q = ([], q)"
| "get_all (Suc n) q =
     (if empty q then ([], q) else let (c, q1) = get q; (cs, q2) = get_all n q1 in (c # cs, q2))"

lemma put_all_contents:
  "ok q \<Longrightarrow> length (contents q) + length cs \<le> cap \<Longrightarrow>
   ok (put_all cs q) \<and> contents (put_all cs q) = contents q @ cs"
proof (induction cs arbitrary: q)
  case (Cons c cs)
  then have "\<not> full q" by (simp add: full_iff)
  with Cons show ?case using put_contents [of q c] by auto
qed simp

lemma get_all_contents:
  "ok q \<Longrightarrow> fst (get_all n q) = take n (contents q) \<and> ok (snd (get_all n q)) \<and>
   contents (snd (get_all n q)) = drop n (contents q)"
proof (induction n arbitrary: q)
  case (Suc n)
  show ?case
  proof (cases "empty q")
    case True
    then show ?thesis using Suc.prems empty_iff by simp
  next
    case False
    obtain c q1 where g: "get q = (c, q1)" by (cases "get q")
    then have "ok q1" "contents q = c # contents q1" using get_contents [OF Suc.prems False] by auto
    with Suc.IH [of q1] g False show ?thesis by (auto split: prod.split)
  qed
qed simp

lemma first_in_first_out:
  assumes "ok q" and "contents q = []" and "length cs \<le> cap"
  shows "fst (get_all (length cs) (put_all cs q)) = cs"
  using put_all_contents [OF assms(1), of cs] assms get_all_contents [of "put_all cs q"] by simp

end

definition pipe_ok :: "pipe \<Rightarrow> bool" where
  "pipe_ok x \<longleftrightarrow> length (pdata x) = PIPESIZE \<and> unat (nwrite x - nread x) \<le> PIPESIZE"

definition pipe_contents :: "pipe \<Rightarrow> u8 list" where
  "pipe_contents x =
     map (\<lambda>k. pdata x ! (unat (nread x + of_nat k) mod PIPESIZE)) [0..<unat (nwrite x - nread x)]"

lemma mod_512_u32: "unat (a + of_nat k :: u32) mod 512 = (unat a + k) mod 512"
proof -
  have "unat (a + of_nat k :: u32) = (unat a + k) mod 4294967296"
    by (simp add: unat_word_ariths unat_of_nat mod_simps take_bit_eq_mod)
  also have "\<dots> mod 512 = (unat a + k) mod 512" by (rule mod_mod_cancel) simp
  finally show ?thesis .
qed

lemma slot_distinct:
  assumes "i < 512" and "j < 512" and "(r + i) mod 512 = (r + j) mod (512 :: nat)"
  shows "i = j"
proof -
  have "512 dvd (r + j) - (r + i)" "512 dvd (r + i) - (r + j)"
    using assms(3) mod_eq_dvd_iff_nat [of "r + i" "r + j" 512] mod_eq_dvd_iff_nat [of "r + j" "r + i" 512]
    by (metis diff_is_0_eq dvd_0_right nat_le_linear)+
  then have "512 dvd j - i" "512 dvd i - j" by (simp_all only: diff_add_inverse diff_cancel)
  then have "j - i = 0" "i - j = 0" using assms(1,2) dvd_imp_le [of 512] by (metis gr0I less_imp_diff_less not_less)+
  then show ?thesis by simp
qed

lemma pipe_contents_length [simp]: "length (pipe_contents x) = unat (nwrite x - nread x)"
  by (simp add: pipe_contents_def)

lemma pipe_put_ok:
  assumes ok: "pipe_ok x" and nf: "\<not> pipe_full x"
  shows "pipe_ok (pipe_put c x) \<and> pipe_contents (pipe_put c x) = pipe_contents x @ [c]"
proof -
  define d where "d = unat (nwrite x - nread x)"
  have w: "nwrite x = nread x + of_nat d" by (simp add: d_def)
  have "d \<noteq> 512" using nf w by (auto simp: pipe_full_def PIPESIZE_def)
  then have d: "d < 512" using ok by (simp add: pipe_ok_def PIPESIZE_def d_def)
  have d1: "unat (nwrite x + 1 - nread x) = Suc d"
  proof -
    have "nwrite x + 1 - nread x = of_nat (Suc d)" by (simp add: w)
    then show ?thesis using d by (simp del: of_nat_Suc)
  qed
  have slot: "unat (nwrite x) mod 512 = (unat (nread x) + d) mod 512" using mod_512_u32 [of "nread x" d] by (simp add: w)
  have len: "length (pdata x) = 512" using ok by (simp add: pipe_ok_def PIPESIZE_def)
  have "pipe_contents (pipe_put c x) ! k = (pipe_contents x @ [c]) ! k" if k: "k < Suc d" for k
  proof (cases "k = d")
    case True
    then show ?thesis using d1 len d slot
      by (simp add: pipe_contents_def pipe_put_def nth_append PIPESIZE_def mod_512_u32 d_def [symmetric] del: upt_Suc)
  next
    case False
    then have "(unat (nread x) + k) mod 512 \<noteq> (unat (nread x) + d) mod 512"
      using slot_distinct [of k d "unat (nread x)"] k d by auto
    then show ?thesis using False k d1 len d slot
      by (simp add: pipe_contents_def pipe_put_def nth_append PIPESIZE_def mod_512_u32 d_def [symmetric] del: upt_Suc)
  qed
  then have "pipe_contents (pipe_put c x) = pipe_contents x @ [c]"
    using d1 by (intro nth_equalityI) (simp_all add: pipe_put_def d_def)
  moreover have "pipe_ok (pipe_put c x)"
    using d1 d len by (simp add: pipe_ok_def pipe_put_def PIPESIZE_def)
  ultimately show ?thesis by simp
qed

lemma pipe_take_ok:
  assumes ok: "pipe_ok x" and ne: "\<not> pipe_empty x"
  shows "pipe_ok (snd (pipe_take x)) \<and> pipe_contents x = fst (pipe_take x) # pipe_contents (snd (pipe_take x))"
proof -
  define d where "d = unat (nwrite x - nread x)"
  have "d \<noteq> 0" using ne by (auto simp: pipe_empty_def d_def unat_eq_0)
  then obtain e where e: "d = Suc e" by (cases d) auto
  have w: "nwrite x = nread x + of_nat d" by (simp add: d_def)
  have "d \<le> 512" using ok by (simp add: pipe_ok_def PIPESIZE_def d_def)
  have d1: "unat (nwrite x - (nread x + 1)) = e"
  proof -
    have "nwrite x - (nread x + 1) = of_nat e" by (simp add: w e)
    then show ?thesis using \<open>d \<le> 512\<close> e by simp
  qed
  have "[0..<d] = 0 # map Suc [0..<e]" unfolding e by (simp add: map_Suc_upt upt_conv_Cons del: upt_Suc)
  then have "pipe_contents x = fst (pipe_take x) # pipe_contents (snd (pipe_take x))"
    using d1 by (simp add: pipe_contents_def pipe_take_def d_def [symmetric] comp_def add.assoc)
  moreover have "pipe_ok (snd (pipe_take x))"
    using ok d1 e \<open>d \<le> 512\<close> by (simp add: pipe_ok_def pipe_take_def PIPESIZE_def)
  ultimately show ?thesis by simp
qed

interpretation pq: bounded_queue pipe_ok pipe_contents PIPESIZE pipe_empty pipe_full pipe_put pipe_take
proof (unfold_locales, goal_cases)
  case (1 q)
  then show ?case by (simp add: pipe_ok_def)
next
  case (2 q)
  show ?case unfolding length_0_conv [symmetric] pipe_contents_length by (auto simp: pipe_empty_def unat_eq_0)
next
  case (3 q)
  have "unat (nwrite q - nread q) = PIPESIZE \<longleftrightarrow> nwrite q - nread q = of_nat PIPESIZE"
    by (auto simp: PIPESIZE_def word_unat_eq_iff)
  then show ?case by (auto simp: pipe_full_def algebra_simps)
next
  case (4 q c)
  then show ?case by (rule pipe_put_ok)
next
  case (5 q)
  then show ?case by (rule pipe_take_ok)
qed

lemma pipe_new_ok: "pipe_ok pipe_new" "pipe_contents pipe_new = []"
  by (simp_all add: pipe_ok_def pipe_new_def pipe_contents_def)

section \<open>Writing and reading through user memory\<close>

lemma wakeup_simps [simp]:
  "mem (wakeup c s) = mem s" "pipes (wakeup c (s :: 'a kpipes_scheme)) = pipes s"
  by (simp_all add: wakeup_def)

lemma task_sleep_simps [simp]:
  "mem (task_sleep me c s) = mem s" "pipes (task_sleep me c (s :: 'a kpipes_scheme)) = pipes s"
  by (simp_all add: task_sleep_def upd_task_def)

lemma upd_pipe_simps [simp]:
  "mem (upd_pipe p x s) = mem s" "pipes (upd_pipe p x s) = (pipes s)(p \<mapsto> x)"
  "the_task (upd_pipe p x s) = the_task s"
  by (simp_all add: upd_pipe_def the_task_def fun_eq_iff)

lemma user_bytes_1: "user_bytes m root v (Suc n) = m (uaddr m root v) # user_bytes m root (v + 1) n"
  using user_bytes_split [of 1 "Suc n" m root v] by (simp add: user_bytes_def)

lemma copyin_1:
  assumes "pt_wf (mem s) root F" and "user_range (mem s) root v (Suc n)"
  shows "copyin root v 1 s = Inr (0, [mem s (uaddr (mem s) root v)])"
proof -
  have "user_range (mem s) root v 1"
    using assms(2) user_range_first(2) [OF assms(2)] by (simp add: user_range_def)
  then have "copyin root v 1 s = Inr (0, user_bytes (mem s) root v 1)"
    using copyin_bytes [OF assms(1), of v 1] by simp
  then show ?thesis by (simp add: user_bytes_def)
qed

lemma pipe_write_loop_bytes:
  assumes "pipes s p = Some x" and "pipe_ok x" and "pt_wf (mem s) pt F"
    and "pt = t_pagetable (the_task s me)" and "user_range (mem s) pt (addr + of_nat i) n"
  shows "\<exists>out k x' s'. pipe_write_loop me p addr i n s = Inr (out, i + k, s') \<and> pipes s' p = Some x' \<and>
    pipe_ok x' \<and> pipe_contents x' = pipe_contents x @ take k (user_bytes (mem s) pt (addr + of_nat i) n) \<and>
    k = min n (PIPESIZE - length (pipe_contents x)) \<and> mem s' = mem s \<and>
    (k = n \<longrightarrow> out = Done (int (i + n))) \<and>
    (k < n \<longrightarrow> out = (if \<not> readopen x \<or> t_killed (the_task s me) then Done (- 1) else Sleep (ChPipeWrite p)))"
  using assms
proof (induction n arbitrary: i s x)
  case 0
  then show ?case by simp
next
  case (Suc n)
  show ?case
  proof (cases "pipe_full x")
    case True
    then show ?thesis using Suc.prems pq.full_iff by (auto simp: the_task_def)
  next
    case False
    let ?v = "addr + of_nat i"
    let ?c = "mem s (uaddr (mem s) pt ?v)"
    let ?s1 = "upd_pipe p (pipe_put ?c x) s"
    have put: "pipe_ok (pipe_put ?c x)" "pipe_contents (pipe_put ?c x) = pipe_contents x @ [?c]"
      using pipe_put_ok [OF Suc.prems(2) False] by auto
    have room: "length (pipe_contents x) < PIPESIZE"
      using False pq.full_iff [OF Suc.prems(2)] pq.bound [OF Suc.prems(2)] by linarith
    have c: "copyin pt ?v 1 s = Inr (0, [?c])" using copyin_1 [OF Suc.prems(3,5)] .
    have r: "user_range (mem s) pt (addr + of_nat (Suc i)) n"
      using user_range_drop [OF Suc.prems(5), of 1] by (simp add: add_ac)
    have step: "pipe_write_loop me p addr i (Suc n) s = pipe_write_loop me p addr (Suc i) n ?s1"
      using Suc.prems(1,4) False c by simp
    obtain out k x' s' where IH: "pipe_write_loop me p addr (Suc i) n ?s1 = Inr (out, Suc i + k, s')"
      "pipes s' p = Some x'" "pipe_ok x'"
      "pipe_contents x' = (pipe_contents x @ [?c]) @ take k (user_bytes (mem s) pt (addr + of_nat (Suc i)) n)"
      "k = min n (PIPESIZE - Suc (length (pipe_contents x)))" "mem s' = mem s"
      "k = n \<longrightarrow> out = Done (int (Suc i + n))"
      "k < n \<longrightarrow> out = (if \<not> readopen x \<or> t_killed (the_task s me) then Done (- 1) else Sleep (ChPipeWrite p))"
    proof -
      have ro: "readopen (pipe_put ?c x) = readopen x" by (simp add: pipe_put_def)
      have len: "length (pipe_contents (pipe_put ?c x)) = Suc (length (pipe_contents x))"
        unfolding put(2) by simp
      have at: "pipes ?s1 p = Some (pipe_put ?c x)" "mem ?s1 = mem s" "the_task ?s1 = the_task s" by simp_all
      have "pt_wf (mem ?s1) pt F" "pt = t_pagetable (the_task ?s1 me)" "user_range (mem ?s1) pt (addr + of_nat (Suc i)) n"
        using Suc.prems(3,4) r unfolding at by blast+
      from Suc.IH [OF at(1) put(1) this] show thesis
        unfolding at ro len unfolding put(2) using that by blast
    qed
    show ?thesis
      using step IH room user_bytes_1 [of "mem s" pt ?v n]
      by (intro exI [of _ out] exI [of _ "Suc k"] exI [of _ x'] exI [of _ s']) (auto simp: add_ac)
  qed
qed

lemma copyout_1:
  assumes "pt_wf (mem s) root F" and w: "writable_range (mem s) root v (Suc n)"
  shows "\<exists>m'. copyout root v [c] s = Inr (0, s\<lparr>mem := m'\<rparr>) \<and> pt_entry m' root = pt_entry (mem s) root \<and>
    pt_wf m' root F \<and> pt_tables m' root = pt_tables (mem s) root \<and> m' = (mem s)(uaddr (mem s) root v := c)"
proof -
  have z: "P (v + of_nat 0)" if "\<forall>i < Suc n. P (v + of_nat i)" for P using that by blast
  have "user_range (mem s) root v (Suc n)" "uframe (mem s) root v \<notin> pt_tables (mem s) root"
    using w z unfolding writable_range_def by (auto dest: z)
  then have "writable_range (mem s) root v 1"
    using user_range_first(2) [of "mem s" root v "Suc n"] by (simp add: writable_range_def user_range_def)
  then obtain m' where m': "copyout root v [c] s = Inr (0, s\<lparr>mem := m'\<rparr>)"
    "pt_entry m' root = pt_entry (mem s) root" "pt_wf m' root F" "pt_tables m' root = pt_tables (mem s) root"
    "m' (uaddr (mem s) root v) = c" "\<And>x. x \<noteq> uaddr (mem s) root v \<Longrightarrow> m' x = mem s x"
    using copyout_bytes [OF assms(1), of v "[c]"] by auto
  moreover have "m' = (mem s)(uaddr (mem s) root v := c)" using m'(5,6) by auto
  ultimately show ?thesis by blast
qed

lemma pipe_read_loop_bytes:
  assumes "pipes s p = Some x" and "pipe_ok x" and "pt_wf (mem s) pt F"
    and "writable_range (mem s) pt (addr + of_nat i) n"
  shows "\<exists>k x' s'. pipe_read_loop p pt i n addr s = Inr (i + k, s') \<and> pipes s' p = Some x' \<and>
    pipe_ok x' \<and> pipe_contents x' = drop k (pipe_contents x) \<and> k = min n (length (pipe_contents x)) \<and>
    (\<forall>j < k. mem s' (uaddr (mem s) pt (addr + of_nat (i + j))) = pipe_contents x ! j) \<and>
    (\<forall>a. (\<forall>j < k. a \<noteq> uaddr (mem s) pt (addr + of_nat (i + j))) \<longrightarrow> mem s' a = mem s a) \<and>
    pt_entry (mem s') pt = pt_entry (mem s) pt"
  using assms
proof (induction n arbitrary: i s x)
  case 0
  then show ?case by simp
next
  case (Suc n)
  show ?case
  proof (cases "pipe_empty x")
    case True
    then have "pipe_contents x = []" using pq.empty_iff [OF Suc.prems(2)] by simp
    then show ?thesis using True Suc.prems by simp
  next
    case False
    let ?v = "addr + of_nat i"
    obtain c x1 where tk: "pipe_take x = (c, x1)" by (cases "pipe_take x")
    then have x1: "pipe_ok x1" "pipe_contents x = c # pipe_contents x1"
      using pipe_take_ok [OF Suc.prems(2) False] by auto
    let ?s1 = "upd_pipe p x1 s"
    let ?a = "uaddr (mem s) pt ?v"
    let ?m = "(mem s)(?a := c)"
    let ?s2 = "?s1\<lparr>mem := ?m\<rparr>"
    have co: "copyout pt ?v [c] ?s1 = Inr (0, ?s2)" and ent: "pt_entry ?m pt = pt_entry (mem s) pt"
      and wf: "pt_wf ?m pt F" and tab: "pt_tables ?m pt = pt_tables (mem s) pt"
      using copyout_1 [of ?s1 pt F ?v n c] Suc.prems(3,4) by auto
    have w: "writable_range ?m pt (addr + of_nat (Suc i)) n"
      using writable_range_drop [OF Suc.prems(4), of 1] uframe_cong [OF ent] uaddr_cong [OF ent] tab
      by (simp add: writable_range_def user_range_def add_ac)
    have step: "pipe_read_loop p pt i (Suc n) addr s = pipe_read_loop p pt (Suc i) n addr ?s2"
      using Suc.prems(1) False tk co by simp
    have "pipes ?s2 p = Some x1" "mem ?s2 = ?m" by simp_all
    note IH = Suc.IH [of ?s2 x1 "Suc i", unfolded \<open>mem ?s2 = ?m\<close> uaddr_cong [OF ent], OF \<open>pipes ?s2 p = Some x1\<close> x1(1) wf w]
    then obtain k x' s' where k: "pipe_read_loop p pt (Suc i) n addr ?s2 = Inr (Suc i + k, s')"
      "pipes s' p = Some x'" "pipe_ok x'" "pipe_contents x' = drop k (pipe_contents x1)"
      "k = min n (length (pipe_contents x1))" "pt_entry (mem s') pt = pt_entry ?m pt"
      and new: "\<forall>j < k. mem s' (uaddr (mem s) pt (addr + of_nat (Suc i + j))) = pipe_contents x1 ! j"
      and old: "\<forall>a. (\<forall>j < k. a \<noteq> uaddr (mem s) pt (addr + of_nat (Suc i + j))) \<longrightarrow> mem s' a = ?m a"
      by blast
    define A where "A j = uaddr (mem s) pt (addr + of_nat (i + j))" for j
    have A: "uaddr (mem s) pt (addr + of_nat (Suc i + j)) = A (Suc j)" for j by (simp add: A_def)
    have A0: "?a = A 0" by (simp add: A_def)
    have inj: "A j = A j' \<Longrightarrow> j = j'" if "j < Suc n" "j' < Suc n" for j j'
      using Suc.prems(4) that unfolding writable_range_def A_def by (simp add: add.assoc)
    have kn: "k \<le> n" using k(5) by simp
    have zero: "mem s' (A 0) = c"
    proof -
      have "\<forall>j < k. A 0 \<noteq> A (Suc j)" using inj [of 0] kn by (metis Suc_less_eq le_trans not_less zero_less_Suc nat.distinct(1))
      then show ?thesis using old unfolding A A0 by simp
    qed
    have "mem s' (A j) = pipe_contents x ! j" if "j < Suc k" for j
      using that zero new unfolding A x1(2) by (cases j) auto
    moreover have "mem s' a = mem s a" if "\<forall>j < Suc k. a \<noteq> A j" for a
    proof -
      have "\<forall>j < k. a \<noteq> A (Suc j)" "a \<noteq> A 0" using that by auto
      then show ?thesis using old unfolding A A0 by simp
    qed
    ultimately show ?thesis
      using step k ent x1(2) unfolding A_def [symmetric]
      by (intro exI [of _ "Suc k"] exI [of _ x'] exI [of _ s']) auto
  qed
qed

section \<open>Properties\<close>

text \<open>A machine with one task and one pipe, on the memory \<open>m\<close>.\<close>

definition blank_task :: task where
  "blank_task = \<lparr>t_state = RUNNING, t_parent = None, t_chan = None, t_killed = False, t_xstate = 0, t_pid = 0,
     t_trapframe = 0, t_pagetable = 0x80300000, t_openFiles = replicate NOFILE None, t_currentDir = [],
     t_cwd = None, t_sticks = 0, t_uticks = 0, t_vma = replicate NOMMAPFILE None, t_kstack = 0, t_ctx_ra = 0,
     t_ctx_sp = 0, t_name = [], t_sz = 0, t_uid = 0, t_gid = 0\<rparr>"

definition pipe_machine :: "pmem \<Rightarrow> pipe \<Rightarrow> kpipes" where
  "pipe_machine m x =
     \<lparr>mem = m, kend = 0x80020000, freeList = 0, npage = 0, total_page = 0, freelist = (\<lambda>_. 0), maxlv = 12,
      minlv = 4, taskTable = [blank_task], initTask = None, vma_table = [], ticks = 0, trampoline = 0,
      stack_base = 0, forkret_addr = 0, pipes = [0 \<mapsto> x]\<rparr>"

lemma pipe_machine_simps [simp]:
  "mem (pipe_machine m x) = m" "pipes (pipe_machine m x) 0 = Some x"
  "t_pagetable (the_task (pipe_machine m x) 0) = 0x80300000"
  by (simp_all add: pipe_machine_def the_task_def blank_task_def)

text \<open>
  C16: \<^verbatim>\<open>Pipe::write\<close> of \<open>n\<close> mapped user bytes appends to the pipe the longest prefix of them that
  fits, in order, and nothing else; it returns \<open>n\<close> when all fit and otherwise stops at the first
  byte that does not, to sleep, or to fail when nobody can read. The 32-bit counters may wrap around.
\<close>

theorem pipe_write_appends:
  assumes "pipes s p = Some x" and "pipe_ok x" and "pt_wf (mem s) (t_pagetable (the_task s me)) F"
    and "user_range (mem s) (t_pagetable (the_task s me)) addr n"
  shows "\<exists>out k x' s'. pipe_write me p addr 0 (int n) s = Inr (out, k, s') \<and> pipes s' p = Some x' \<and>
    k = min n (PIPESIZE - length (pipe_contents x)) \<and> pipe_ok x' \<and>
    pipe_contents x' = pipe_contents x @ take k (user_bytes (mem s) (t_pagetable (the_task s me)) addr n) \<and>
    out = (if k = n then Done (int n)
           else if \<not> readopen x \<or> t_killed (the_task s me) then Done (- 1) else Sleep (ChPipeWrite p))"
  using pipe_write_loop_bytes [OF assms(1-3) refl, of addr 0 n] assms(4)
  by (auto simp: pipe_write_def)

theorem pipe_write_appends_witness:
  "\<exists>m out x' s'. pipe_write 0 0 0x1000 0 3 (pipe_machine m (pipe_new\<lparr>nwrite := - 1, nread := - 1\<rparr>)) =
     Inr (out, 3, s') \<and> out = Done 3 \<and> pipes s' 0 = Some x' \<and> length (pipe_contents x') = 3"
proof -
  obtain s where m: "mappages 0x80300000 0x1000 PGSIZE 0x80303000 user_perm small_machine = Inr (0, s)"
    by (rule small_machine_maps)
  obtain F where F: "pt_wf (mem s) 0x80300000 F" "writable_range (mem s) 0x80300000 0x1000 3"
    by (rule small_machine_user_page [OF m, of 3]) simp_all
  let ?x = "pipe_new\<lparr>nwrite := - 1, nread := - 1\<rparr>"
  have x: "pipe_ok ?x" "pipe_contents ?x = []" by (simp_all add: pipe_ok_def pipe_new_def pipe_contents_def)
  have r: "user_range (mem s) 0x80300000 0x1000 3" using F(2) by (simp add: writable_range_def)
  have len: "length (user_bytes (mem s) 0x80300000 0x1000 3) = 3" by (simp add: user_bytes_def)
  show ?thesis
    using pipe_write_appends [of "pipe_machine (mem s) ?x" 0 ?x 0 F "0x1000" 3] x F(1) r len
    by (fastforce simp: PIPESIZE_def)
qed

text \<open>
  C17: \<^verbatim>\<open>Pipe::read\<close> of a pipe that is not empty moves the first \<open>min n (length contents)\<close> bytes, in
  order, to the reader's buffer, removes exactly those from the pipe and returns their number; no
  other byte of memory changes.
\<close>

theorem pipe_read_takes:
  assumes "pipes s p = Some x" and "pipe_ok x" and "pipe_contents x \<noteq> []"
    and "pt_wf (mem s) (t_pagetable (the_task s me)) F"
    and "writable_range (mem s) (t_pagetable (the_task s me)) addr n"
  shows "\<exists>k x' s'. pipe_read me p addr (int n) s = Inr (Done (int k), s') \<and> pipes s' p = Some x' \<and>
    pipe_ok x' \<and> k = min n (length (pipe_contents x)) \<and> pipe_contents x' = drop k (pipe_contents x) \<and>
    (\<forall>j < k. mem s' (uaddr (mem s) (t_pagetable (the_task s me)) (addr + of_nat j)) = pipe_contents x ! j) \<and>
    (\<forall>a. (\<forall>j < k. a \<noteq> uaddr (mem s) (t_pagetable (the_task s me)) (addr + of_nat j)) \<longrightarrow> mem s' a = mem s a)"
proof -
  let ?pt = "t_pagetable (the_task s me)"
  have ne: "\<not> pipe_empty x" using assms(2,3) pq.empty_iff by blast
  obtain k x' s' where "pipe_read_loop p ?pt 0 n addr s = Inr (0 + k, s')" "pipes s' p = Some x'" "pipe_ok x'"
    "pipe_contents x' = drop k (pipe_contents x)" "k = min n (length (pipe_contents x))"
    "\<forall>j < k. mem s' (uaddr (mem s) ?pt (addr + of_nat (0 + j))) = pipe_contents x ! j"
    "\<forall>a. (\<forall>j < k. a \<noteq> uaddr (mem s) ?pt (addr + of_nat (0 + j))) \<longrightarrow> mem s' a = mem s a"
    using pipe_read_loop_bytes [OF assms(1,2,4), of addr 0 n] assms(5) by auto
  then show ?thesis
    using assms(1) ne
    by (intro exI [of _ k] exI [of _ x'] exI [of _ "wakeup (ChPipeWrite p) s'"]) (simp add: pipe_read_def)
qed

theorem pipe_read_takes_witness:
  "\<exists>m x' s'. pipe_read 0 0 0x1000 3 (pipe_machine m (pipe_put 105 (pipe_put 104 pipe_new))) =
     Inr (Done 2, s') \<and> pipes s' 0 = Some x' \<and> pipe_contents x' = []"
proof -
  obtain s where m: "mappages 0x80300000 0x1000 PGSIZE 0x80303000 user_perm small_machine = Inr (0, s)"
    by (rule small_machine_maps)
  obtain F where F: "pt_wf (mem s) 0x80300000 F" "writable_range (mem s) 0x80300000 0x1000 3"
    by (rule small_machine_user_page [OF m, of 3]) simp_all
  let ?x = "pipe_put 105 (pipe_put 104 pipe_new)"
  have nf: "\<not> pipe_full pipe_new" by (simp add: pipe_full_def pipe_new_def PIPESIZE_def)
  have nf2: "\<not> pipe_full (pipe_put 104 pipe_new)"
    by (simp add: pipe_full_def pipe_new_def PIPESIZE_def pipe_put_def)
  have x: "pipe_ok ?x" "pipe_contents ?x = [104, 105]"
    using pipe_put_ok [OF pipe_new_ok(1) nf, of 104] pipe_put_ok [OF _ nf2, of 105] pipe_new_ok(2) by simp_all
  show ?thesis
    using pipe_read_takes [of "pipe_machine (mem s) ?x" 0 ?x 0 F "0x1000" 3] x F
    by fastforce
qed

end
