(* ===== verification/Calendar.thy ===== *)
theory Calendar
  imports Prelude
begin

text \<open>
  Dates: \<^verbatim>\<open>mktime\<close> of \<^verbatim>\<open>src/kernel/os/time.cpp\<close>, the conversions between FAT and Unix time stamps of
  \<^verbatim>\<open>src/kernel/fs/fat32/fat_utils.cpp\<close> and the leap-year table of \<^verbatim>\<open>src/kernel/device/Clock.cpp\<close>.
  The quantities are small and non-negative, so they are natural numbers; the packed FAT fields are
  16-bit words.
\<close>

section \<open>Conversions\<close>

definition SECS_PER_MIN :: nat where "SECS_PER_MIN = 60"
definition SECS_PER_HOUR :: nat where "SECS_PER_HOUR = 60 * 60"
definition SECS_PER_DAY :: nat where "SECS_PER_DAY = 60 * 60 * 24"
definition UNIX_SECS_1980 :: nat where "UNIX_SECS_1980 = 315532800"
definition UNIX_SECS_2108 :: nat where "UNIX_SECS_2108 = 4354819200"
definition DAYS_DELTA :: nat where "DAYS_DELTA = 365 * 10 + 2"
definition YEAR_2100 :: nat where "YEAR_2100 = 120"

definition IS_LEAP_YEAR :: "nat \<Rightarrow> bool" where
  "IS_LEAP_YEAR y \<longleftrightarrow> y AND 3 = 0 \<and> y \<noteq> YEAR_2100"

definition days_in_year :: "nat list" where
  "days_in_year = [0, 0, 31, 59, 90, 120, 151, 181, 212, 243, 273, 304, 334, 0, 0, 0]"

text \<open>
  \<^verbatim>\<open>max(1, x) - 1\<close> is \<^verbatim>\<open>(1 > x) ? 1 : x - 1\<close> after macro expansion.
\<close>

definition FatTime2Unix :: "u16 \<Rightarrow> u16 \<Rightarrow> nat" where
  "FatTime2Unix date time =
     (let d = unat date; t = unat time;
          year = drop_bit 9 d;
          month = (if 1 > (drop_bit 5 d AND 0xf) then 1 else drop_bit 5 d AND 0xf);
          day = (if 1 > (d AND 0x1f) then 1 else (d AND 0x1f) - 1);
          leap_day = (year + 3) div 4;
          leap_day = (if year > YEAR_2100 then leap_day - 1 else leap_day);
          leap_day = (if IS_LEAP_YEAR year \<and> month > 2 then leap_day + 1 else leap_day);
          second = push_bit 1 (t AND 0x1f);
          second = second + (drop_bit 5 t AND 0x3f) * SECS_PER_MIN;
          second = second + drop_bit 11 t * SECS_PER_HOUR
      in second + (year * 365 + leap_day + days_in_year ! month + day + DAYS_DELTA) * SECS_PER_DAY)"

text \<open>The month loop: the first month from \<open>month\<close> on whose successor begins after \<open>day\<close>.\<close>

function find_month :: "nat \<Rightarrow> nat \<Rightarrow> nat" where
  "find_month day month =
     (if month < 12 then (if days_in_year ! (month + 1) > day then month else find_month day (month + 1))
      else month)"
  by pat_completeness auto
termination by (relation "measure (\<lambda>(d, m). 12 - m)") auto

declare find_month.simps [simp del]

definition leap_days :: "nat \<Rightarrow> nat" where
  "leap_days year = (if year > YEAR_2100 then (year + 3) div 4 - 1 else (year + 3) div 4)"

text \<open>The year, month and day (from 0) of a day counted from 1 January 1980.\<close>

definition civil_of_day :: "nat \<Rightarrow> nat \<times> nat \<times> nat" where
  "civil_of_day d =
     (let year = d div 365;
          year = (if year * 365 + leap_days year > d then year - 1 else year);
          day = d - (year * 365 + leap_days year)
      in if IS_LEAP_YEAR year \<and> day = days_in_year ! 3 then (year, 2, day - days_in_year ! 2)
         else let day = (if IS_LEAP_YEAR year \<and> day > days_in_year ! 3 then day - 1 else day);
                  month = find_month day 1
              in (year, month, day - days_in_year ! month))"

definition UnixTime2Fat :: "nat \<Rightarrow> u16 \<times> u16" where
  "UnixTime2Fat second =
     (if second < UNIX_SECS_1980 then (of_nat (push_bit 5 1 OR 1), 0)
      else if second \<ge> UNIX_SECS_2108
      then (of_nat (push_bit 9 127 OR push_bit 5 12 OR 31), of_nat (push_bit 11 23 OR push_bit 5 59 OR 29))
      else
        let (year, month, day) = civil_of_day (second div SECS_PER_DAY - DAYS_DELTA) in
        (of_nat (push_bit 9 year OR push_bit 5 month OR (day + 1)),
         of_nat (push_bit 11 (second div SECS_PER_HOUR mod 24) OR
                 push_bit 5 (second div SECS_PER_MIN mod 60) OR drop_bit 1 (second mod SECS_PER_MIN))))"

text \<open>\<^verbatim>\<open>mktime\<close>; unsigned subtraction does not wrap for the years it is used for.\<close>

definition mktime :: "nat \<Rightarrow> nat \<Rightarrow> nat \<Rightarrow> nat \<Rightarrow> nat \<Rightarrow> nat \<Rightarrow> nat" where
  "mktime year0 mon0 day hour minute sec =
     (let (mon, year) = (if mon0 \<le> 2 then (mon0 + 12 - 2, year0 - 1) else (mon0 - 2, year0))
      in (((year div 4 - year div 100 + year div 400 + 367 * mon div 12 + day + year * 365 - 719499) * 24
           + hour) * 60 + minute) * 60 + sec)"

text \<open>\<^verbatim>\<open>initLeapYears\<close>: the number of leap years from 1970 to \<open>1970 + i\<close>.\<close>

fun leapYears :: "nat \<Rightarrow> nat" where
  "leapYears 0 = 0"
| "leapYears (Suc i) =
     (let year = Suc i + 1970 in
      if (year mod 4 = 0 \<and> year mod 100 \<noteq> 0) \<or> year mod 400 = 0 then leapYears i + 1 else leapYears i)"

section \<open>Packing\<close>

lemma pack2:
  fixes x y :: nat
  assumes "y < 2 ^ a"
  shows "push_bit a x OR y = x * 2 ^ a + y"
proof -
  have "\<not> bit y n" if "a \<le> n" for n
    using assms that by (metis bit_take_bit_iff leD take_bit_nat_eq_self)
  then have "push_bit a x AND y = 0"
    by (intro bit_eqI) (auto simp: bit_simps not_le)
  then show ?thesis by (simp add: push_bit_eq_mult flip: disjunctive_add_eq_or)
qed

lemma pack3:
  fixes x y z :: nat
  assumes "y < 2 ^ b" and "z < 2 ^ a"
  shows "push_bit (a + b) x OR push_bit a y OR z = (x * 2 ^ b + y) * 2 ^ a + z"
proof -
  have "push_bit (a + b) x OR push_bit a y OR z = push_bit a (push_bit b x OR y) OR z"
    by (simp add: push_bit_push_bit add.commute or.assoc push_bit_or)
  then show ?thesis using assms by (simp add: pack2)
qed

lemma mask_mod:
  fixes x :: nat
  shows "x AND 3 = x mod 4" "x AND 0xf = x mod 16" "x AND 0x1f = x mod 32" "x AND 0x3f = x mod 64"
  using take_bit_eq_mask [of 2 x] take_bit_eq_mask [of 4 x] take_bit_eq_mask [of 5 x] take_bit_eq_mask [of 6 x]
  by (simp_all add: take_bit_eq_mod mask_eq_exp_minus_1)

lemma unpack:
  fixes x k z :: nat
  assumes "z < k"
  shows "(x * k + z) div k = x" and "(x * k + z) mod k = z"
  using assms by simp_all

text \<open>Reading back the fields of a packed date and of a packed time.\<close>

lemma date_fields:
  assumes "y < 128" and "m < 16" and "d < 32"
  shows "drop_bit 9 (unat (of_nat (push_bit 9 y OR push_bit 5 m OR d) :: u16)) = y"
    and "drop_bit 5 (unat (of_nat (push_bit 9 y OR push_bit 5 m OR d) :: u16)) AND 0xf = m"
    and "unat (of_nat (push_bit 9 y OR push_bit 5 m OR d) :: u16) AND 0x1f = d"
proof -
  have p: "push_bit 9 y OR push_bit 5 m OR d = (y * 16 + m) * 32 + d"
    using pack3 [of m 4 d 5 y] assms by simp
  have u: "unat (of_nat ((y * 16 + m) * 32 + d) :: u16) = (y * 16 + m) * 32 + d"
    by (rule unat_of_nat_small) (use assms in simp)
  show "drop_bit 9 (unat (of_nat (push_bit 9 y OR push_bit 5 m OR d) :: u16)) = y"
    "drop_bit 5 (unat (of_nat (push_bit 9 y OR push_bit 5 m OR d) :: u16)) AND 0xf = m"
    "unat (of_nat (push_bit 9 y OR push_bit 5 m OR d) :: u16) AND 0x1f = d"
    unfolding p u mask_mod drop_bit_eq_div using assms unpack [of d 32 "y * 16 + m"] unpack [of m 16 y]
      div_mult2_eq [of "(y * 16 + m) * 32 + d" 32 16] by simp_all
qed

lemma time_fields:
  assumes "h < 32" and "m < 64" and "s < 32"
  shows "drop_bit 11 (unat (of_nat (push_bit 11 h OR push_bit 5 m OR s) :: u16)) = h"
    and "drop_bit 5 (unat (of_nat (push_bit 11 h OR push_bit 5 m OR s) :: u16)) AND 0x3f = m"
    and "unat (of_nat (push_bit 11 h OR push_bit 5 m OR s) :: u16) AND 0x1f = s"
proof -
  have p: "push_bit 11 h OR push_bit 5 m OR s = (h * 64 + m) * 32 + s"
    using pack3 [of m 6 s 5 h] assms by simp
  have u: "unat (of_nat ((h * 64 + m) * 32 + s) :: u16) = (h * 64 + m) * 32 + s"
    by (rule unat_of_nat_small) (use assms in simp)
  show "drop_bit 11 (unat (of_nat (push_bit 11 h OR push_bit 5 m OR s) :: u16)) = h"
    "drop_bit 5 (unat (of_nat (push_bit 11 h OR push_bit 5 m OR s) :: u16)) AND 0x3f = m"
    "unat (of_nat (push_bit 11 h OR push_bit 5 m OR s) :: u16) AND 0x1f = s"
    unfolding p u mask_mod drop_bit_eq_div using assms unpack [of s 32 "h * 64 + m"] unpack [of m 64 h]
      div_mult2_eq [of "(h * 64 + m) * 32 + s" 32 64] by simp_all
qed

section \<open>The civil date of a day\<close>

text \<open>The days before a year, and the length of a year.\<close>

definition year_base :: "nat \<Rightarrow> nat" where "year_base y = y * 365 + leap_days y"

lemma leap_days_Suc: "leap_days (Suc y) = leap_days y + (if IS_LEAP_YEAR y then 1 else 0)"
proof -
  have "(Suc y + 3) div 4 = (y + 3) div 4 + (if y mod 4 = 0 then 1 else 0)" by presburger
  then show ?thesis
    by (cases "y < 120") (auto simp: leap_days_def IS_LEAP_YEAR_def YEAR_2100_def mask_mod)
qed

lemma leap_days_mono: "y \<le> z \<Longrightarrow> leap_days y \<le> leap_days z"
  by (rule lift_Suc_mono_le) (simp_all add: leap_days_Suc)

lemma year_base_mono: "y \<le> z \<Longrightarrow> year_base y \<le> year_base z"
  by (simp add: year_base_def leap_days_mono add_mono)

lemma year_found:
  assumes "d < year_base 128"
  defines "q \<equiv> d div 365"
  defines "y \<equiv> if q * 365 + leap_days q > d then q - 1 else q"
  shows "year_base y \<le> d" and "d < year_base (Suc y)" and "y < 128"
proof -
  have q: "q * 365 \<le> d" "d < q * 365 + 365" by (auto simp: q_def)
  have "leap_days 128 = 31" by (simp add: leap_days_def YEAR_2100_def)
  with assms(1) q have "q \<le> 128" by (simp add: year_base_def)
  then have l: "leap_days z \<le> 31" if "z \<le> q" for z
    using leap_days_mono [of z 128] that \<open>leap_days 128 = 31\<close> by simp
  have z: "leap_days 0 = 0" by (simp add: leap_days_def)
  show *: "year_base y \<le> d"
    using q l [of "q - 1"] z by (cases q) (auto simp: y_def year_base_def)
  show "d < year_base (Suc y)"
    using q z by (cases q) (auto simp: y_def year_base_def)
  show "y < 128"
    using * assms(1) year_base_mono [of 128 y] by (cases "y < 128") auto
qed

lemma find_month_between:
  "days_in_year ! m \<le> day \<Longrightarrow> m \<le> 12 \<Longrightarrow>
   m \<le> find_month day m \<and> find_month day m \<le> 12 \<and> days_in_year ! find_month day m \<le> day
   \<and> (find_month day m < 12 \<longrightarrow> day < days_in_year ! (find_month day m + 1))"
proof (induction day m rule: find_month.induct)
  case (1 day m)
  have s: "find_month day m =
      (if m < 12 then (if days_in_year ! (m + 1) > day then m else find_month day (m + 1)) else m)"
    by (rule find_month.simps)
  show ?case
  proof (cases "m < 12 \<and> \<not> days_in_year ! (m + 1) > day")
    case True
    then show ?thesis using "1.IH" s by auto
  next
    case False
    then have "find_month day m = m" using s by auto
    then show ?thesis using "1.prems" False by auto
  qed
qed

lemma find_month_found:
  assumes "day < 365"
  shows "1 \<le> find_month day 1 \<and> find_month day 1 \<le> 12 \<and> days_in_year ! find_month day 1 \<le> day
       \<and> day - days_in_year ! find_month day 1 < 31 \<and> (find_month day 1 > 2 \<longleftrightarrow> 59 \<le> day)"
proof -
  define r where "r = find_month day 1"
  have b: "1 \<le> r" "r \<le> 12" "days_in_year ! r \<le> day" "r < 12 \<longrightarrow> day < days_in_year ! (r + 1)"
    using find_month_between [of 1 day] by (auto simp: r_def days_in_year_def)
  have "r = 1 \<or> r = 2 \<or> r = 3 \<or> r = 4 \<or> r = 5 \<or> r = 6 \<or> r = 7 \<or> r = 8 \<or> r = 9 \<or> r = 10 \<or> r = 11 \<or> r = 12"
    using b(1,2) by presburger
  with b assms show ?thesis
    unfolding r_def [symmetric] by (elim disjE) (auto simp: days_in_year_def)
qed

lemma civil_of_day_correct:
  assumes "d < year_base 128"
  obtains y m k where "civil_of_day d = (y, m, k)" and "y < 128" and "1 \<le> m" and "m \<le> 12" and "k < 31"
    and "d = year_base y + (if IS_LEAP_YEAR y \<and> m > 2 then 1 else 0) + days_in_year ! m + k"
proof -
  define q where "q = d div 365"
  define y where "y = (if q * 365 + leap_days q > d then q - 1 else q)"
  define k where "k = d - year_base y"
  have y: "year_base y \<le> d" "d < year_base (Suc y)" "y < 128"
    unfolding y_def q_def using year_found [OF assms] by blast+
  then have d: "d = year_base y + k" and k: "k < 365 + (if IS_LEAP_YEAR y then 1 else 0)"
    by (auto simp: k_def year_base_def leap_days_Suc)
  define k' where "k' = (if IS_LEAP_YEAR y \<and> k > days_in_year ! 3 then k - 1 else k)"
  have diy: "days_in_year ! 2 = 31" "days_in_year ! 3 = 59" by (simp_all add: days_in_year_def)
  have c: "civil_of_day d = (if IS_LEAP_YEAR y \<and> k = days_in_year ! 3 then (y, 2, k - days_in_year ! 2)
      else (y, find_month k' 1, k' - days_in_year ! find_month k' 1))"
    by (simp add: civil_of_day_def Let_def year_base_def q_def [symmetric] y_def [symmetric] k_def k'_def)
  show ?thesis
  proof (cases "IS_LEAP_YEAR y \<and> k = 59")
    case True
    show ?thesis by (rule that [of y 2 "k - 31"]) (use True c diy d y in simp_all)
  next
    case False
    then have "k' < 365" using k by (auto simp: k'_def diy)
    note f = find_month_found [OF this]
    show ?thesis
      by (rule that [of y "find_month k' 1" "k' - days_in_year ! find_month k' 1"])
        (use False c diy d y f in \<open>auto simp: k'_def split: if_splits\<close>)
  qed
qed

section \<open>Round trips\<close>

lemma FatTime2Unix_fields:
  assumes "y < 128" and "1 \<le> m" and "m \<le> 12" and "k < 31" and "h < 24" and "mi < 60" and "s < 30"
  shows "FatTime2Unix (of_nat (push_bit 9 y OR push_bit 5 m OR Suc k))
           (of_nat (push_bit 11 h OR push_bit 5 mi OR s))
       = (year_base y + (if IS_LEAP_YEAR y \<and> m > 2 then 1 else 0) + days_in_year ! m + k + DAYS_DELTA) * SECS_PER_DAY
         + h * SECS_PER_HOUR + mi * SECS_PER_MIN + 2 * s"
proof -
  have d: "y < 128" "m < 16" "Suc k < 32" and t: "h < 32" "mi < 64" "s < 32" using assms by auto
  show ?thesis
    unfolding FatTime2Unix_def Let_def date_fields [OF d] time_fields [OF t]
    using assms by (simp add: year_base_def leap_days_def)
qed

lemma hms_split:
  fixes a b c p q :: nat
  assumes "b = c * 24 + p" and "a = b * 60 + q"
  shows "c * 86400 + p * 3600 + q * 60 = a * 60"
  using assms by simp

lemma even_seconds:
  fixes t :: nat
  shows "t div 86400 * 86400 + t div 3600 mod 24 * 3600 + t div 60 mod 60 * 60 + 2 * (t mod 60 div 2) = t div 2 * 2"
proof -
  have "t div 86400 = t div 3600 div 24" and h: "t div 3600 = t div 60 div 60"
    using div_mult2_eq [of t 3600 24] div_mult2_eq [of t 60 60] by simp_all
  then have d: "t div 3600 = t div 86400 * 24 + t div 3600 mod 24"
    using div_mult_mod_eq [of "t div 3600" 24] by simp
  have m: "t div 60 = t div 3600 * 60 + t div 60 mod 60"
    unfolding h by (rule div_mult_mod_eq [symmetric])
  have "t = (2 * (t div 60 * 30)) + t mod 60" using div_mult_mod_eq [of t 60] by simp
  then have "t div 2 = t div 60 * 30 + t mod 60 div 2"
    using div_mult_self3 [of 2 "t div 60 * 30" "t mod 60"] by simp
  then show ?thesis unfolding hms_split [OF d m] by simp
qed

text \<open>
  C34: Writing a time stamp to a directory entry and reading it back loses nothing but the odd second:
  for every time from 1980 up to 2108, \<^verbatim>\<open>FatTime2Unix\<close> of the date and time fields that
  \<^verbatim>\<open>UnixTime2Fat\<close> packs is that time rounded down to an even second.
\<close>

theorem FatTime2Unix_UnixTime2Fat:
  assumes "UNIX_SECS_1980 \<le> second" and "second < UNIX_SECS_2108"
  shows "(case UnixTime2Fat second of (date, time) \<Rightarrow> FatTime2Unix date time) = second div 2 * 2"
proof -
  define d where "d = second div SECS_PER_DAY - DAYS_DELTA"
  have ge: "3652 \<le> second div 86400" and lt: "second div 86400 < 50403"
    using assms by (auto simp: UNIX_SECS_1980_def UNIX_SECS_2108_def)
  then have d: "d < year_base 128" "second div 86400 = d + 3652"
    by (auto simp: d_def SECS_PER_DAY_def DAYS_DELTA_def year_base_def leap_days_def YEAR_2100_def)
  obtain y m k where c: "civil_of_day d = (y, m, k)" "y < 128" "1 \<le> m" "m \<le> 12" "k < 31"
    and de: "d = year_base y + (if IS_LEAP_YEAR y \<and> m > 2 then 1 else 0) + days_in_year ! m + k"
    by (rule civil_of_day_correct [OF d(1)])
  have "(case UnixTime2Fat second of (date, time) \<Rightarrow> FatTime2Unix date time)
      = (d + DAYS_DELTA) * SECS_PER_DAY + second div SECS_PER_HOUR mod 24 * SECS_PER_HOUR
        + second div SECS_PER_MIN mod 60 * SECS_PER_MIN + 2 * (second mod SECS_PER_MIN div 2)"
    unfolding de using assms c
    by (simp add: UnixTime2Fat_def d_def [symmetric] drop_bit_eq_div FatTime2Unix_fields SECS_PER_MIN_def)
  also have "\<dots> = second div 2 * 2"
    unfolding DAYS_DELTA_def SECS_PER_DAY_def SECS_PER_HOUR_def SECS_PER_MIN_def
    using d(2) even_seconds [of second] by simp
  finally show ?thesis .
qed

theorem FatTime2Unix_UnixTime2Fat_witness:
  "(case UnixTime2Fat 1623456789 of (date, time) \<Rightarrow> FatTime2Unix date time) = 1623456788"
  using FatTime2Unix_UnixTime2Fat [of 1623456789] by (simp add: UNIX_SECS_1980_def UNIX_SECS_2108_def)

text \<open>The Gregorian leap days up to the end of the year \<open>1979 + z\<close>.\<close>

lemma gregorian_leaps:
  assumes "z \<le> 128"
  shows "(1979 + z) div 4 - (1979 + z) div 100 + (1979 + z) div 400 = 479 + leap_days z"
proof -
  have c: "(1979 + z) div 100 = (if z < 21 then 19 else if z < 121 then 20 else 21)"
    using assms by (auto intro!: div_nat_eqI)
  have q: "(1979 + z) div 400 = (if z < 21 then 4 else 5)"
    using assms by (auto intro!: div_nat_eqI)
  have "(1979 + z) div 4 = 494 + (z + 3) div 4" by presburger
  moreover have "121 \<le> z \<Longrightarrow> 1 \<le> (z + 3) div 4" by presburger
  ultimately show ?thesis
    unfolding c q by (auto simp: leap_days_def YEAR_2100_def)
qed

text \<open>The Gregorian month lengths, with March first.\<close>

lemma march_months:
  assumes "1 \<le> m" and "m \<le> 12"
  shows "367 * (if m \<le> 2 then m + 12 - 2 else m - 2) div 12 = days_in_year ! m + (if m \<le> 2 then 336 else 0) - (if m \<le> 2 then 0 else 29)"
proof -
  have "m = 1 \<or> m = 2 \<or> m = 3 \<or> m = 4 \<or> m = 5 \<or> m = 6 \<or> m = 7 \<or> m = 8 \<or> m = 9 \<or> m = 10 \<or> m = 11 \<or> m = 12"
    using assms by presburger
  then show ?thesis by (elim disjE) (simp_all add: days_in_year_def)
qed

lemma days_from_march: "3 \<le> m \<Longrightarrow> m \<le> 12 \<Longrightarrow> 59 \<le> days_in_year ! m"
proof -
  assume "3 \<le> m" and "m \<le> 12"
  then have "m = 3 \<or> m = 4 \<or> m = 5 \<or> m = 6 \<or> m = 7 \<or> m = 8 \<or> m = 9 \<or> m = 10 \<or> m = 11 \<or> m = 12"
    by presburger
  then show ?thesis by (elim disjE) (simp_all add: days_in_year_def)
qed

lemma mktime_fields:
  assumes "y < 128" and "1 \<le> m" and "m \<le> 12"
  shows "mktime (1980 + y) m (Suc k) h mi s
       = (year_base y + (if IS_LEAP_YEAR y \<and> m > 2 then 1 else 0) + days_in_year ! m + k + DAYS_DELTA) * SECS_PER_DAY
         + h * SECS_PER_HOUR + mi * SECS_PER_MIN + s"
proof -
  define z where "z = (if m \<le> 2 then y else Suc y)"
  define days where "days = (1979 + z) div 4 - (1979 + z) div 100 + (1979 + z) div 400
      + 367 * (if m \<le> 2 then m + 12 - 2 else m - 2) div 12 + Suc k + (1979 + z) * 365 - 719499"
  have "z \<le> 128" using assms by (simp add: z_def)
  then have "days = year_base y + (if IS_LEAP_YEAR y \<and> m > 2 then 1 else 0) + days_in_year ! m + k + DAYS_DELTA"
    unfolding days_def gregorian_leaps [OF \<open>z \<le> 128\<close>] march_months [OF assms(2,3)]
    using days_from_march [of m] assms
    by (auto simp: z_def leap_days_Suc year_base_def DAYS_DELTA_def)
  moreover have "mktime (1980 + y) m (Suc k) h mi s = ((days * 24 + h) * 60 + mi) * 60 + s"
    by (simp add: mktime_def days_def z_def)
  ultimately show ?thesis
    by (simp add: SECS_PER_DAY_def SECS_PER_HOUR_def SECS_PER_MIN_def)
qed

text \<open>
  C35: The two calendars agree. For every date that a FAT directory entry can hold, the real-time clock
  code's \<^verbatim>\<open>mktime\<close>, which counts years from March, and the file system's \<^verbatim>\<open>FatTime2Unix\<close>, which uses a
  table of month offsets, give the same number of seconds.
\<close>

theorem mktime_agrees:
  assumes "y < 128" and "1 \<le> m" and "m \<le> 12" and "1 \<le> d" and "d \<le> 31" and "h < 24" and "mi < 60" and "s < 30"
  shows "FatTime2Unix (of_nat (push_bit 9 y OR push_bit 5 m OR d)) (of_nat (push_bit 11 h OR push_bit 5 mi OR s))
       = mktime (1980 + y) m d h mi (2 * s)"
proof -
  obtain k where k: "d = Suc k" "k < 31" using assms(4,5) by (cases d) auto
  show ?thesis
    unfolding k(1) using assms k(2) by (simp only: mktime_fields FatTime2Unix_fields)
qed

theorem mktime_agrees_witness:
  "FatTime2Unix (of_nat (push_bit 9 20 OR push_bit 5 2 OR 29)) (of_nat (push_bit 11 23 OR push_bit 5 59 OR 29))
   = mktime 2000 2 29 23 59 58"
  using mktime_agrees [of 20 2 29 23 59 29] by simp

end
