(* ===== verification/BufferCache.thy ===== *)
theory BufferCache
  imports Pipes
begin

text \<open>
  Sleep locks (\<^verbatim>\<open>src/kernel/os/SleepLock.cpp\<close>), the block devices behind
  \<^verbatim>\<open>src/kernel/device/DeviceManager.cpp\<close> and the cluster cache of
  \<^verbatim>\<open>src/kernel/fs/buf/BufferLayer.cpp\<close>. A disk is a store of 512-byte sectors: what the SD card and
  virtio drivers provide. The main result is that a cache whose valid buffers agree with the disk
  answers every read with the cluster the disk holds, and that a write keeps them in agreement.
\<close>

section \<open>Sleep locks\<close>

record sleeplock =
  sl_locked :: bool
  sl_pid :: int

definition sl_init :: sleeplock where "sl_init = \<lparr>sl_locked = False, sl_pid = 0\<rparr>"

definition sl_lock ::
  "nat \<Rightarrow> chan \<Rightarrow> sleeplock \<Rightarrow> 'a ktasks_scheme \<Rightarrow> sleeplock outcome \<times> 'a ktasks_scheme" where
  "sl_lock me ch l s =
     (if sl_locked l then (Sleep ch, task_sleep me ch s)
      else (Done (l\<lparr>sl_locked := True, sl_pid := t_pid (the_task s me)\<rparr>), s))"

definition sl_unlock ::
  "chan \<Rightarrow> sleeplock \<Rightarrow> 'a ktasks_scheme \<Rightarrow> sleeplock \<times> 'a ktasks_scheme" where
  "sl_unlock ch l s = (l\<lparr>sl_locked := False, sl_pid := 0\<rparr>, wakeup ch s)"

section \<open>Block devices\<close>

record rwdev =
  rw_name :: "u8 list"
  rw_sector :: "nat \<Rightarrow> u8 list"

text \<open>
  \<^verbatim>\<open>VirtioDisk::read\<close> and \<^verbatim>\<open>SdCard::read\<close>: the same text. Offsets are C \<^verbatim>\<open>int\<close>s; a negative one, or a
  sum that overflows, is a bad access.
\<close>

definition disk_read :: "rwdev \<Rightarrow> nat \<Rightarrow> nat \<Rightarrow> (int \<times> u8 list) result" where
  "disk_read d offset n =
     (if n mod 512 \<noteq> 0 \<or> offset mod 512 \<noteq> 0 then Inr (- 1, [])
      else if offset + n \<ge> 2 ^ 31 then Inl (BadAccess ''disk offset'')
      else Inr (int n, concat (map (rw_sector d) [offset div 512..<(offset + n) div 512])))"

definition disk_write :: "rwdev \<Rightarrow> nat \<Rightarrow> u8 list \<Rightarrow> (int \<times> rwdev) result" where
  "disk_write d offset bs =
     (if length bs mod 512 \<noteq> 0 \<or> offset mod 512 \<noteq> 0 then Inr (- 1, d)
      else if offset + length bs \<ge> 2 ^ 31 then Inl (BadAccess ''disk offset'')
      else Inr (int (length bs), d\<lparr>rw_sector := \<lambda>k.
             if offset div 512 \<le> k \<and> k < (offset + length bs) div 512
             then take 512 (drop ((k - offset div 512) * 512) bs) else rw_sector d k\<rparr>))"

section \<open>The cache\<close>

definition BUFFER_NUM :: nat where "BUFFER_NUM = 20"
definition BSIZE :: nat where "BSIZE = 4096"
definition NDEV :: nat where "NDEV = 10"

record buf =
  b_valid :: bool
  b_dev :: nat
  b_blockno :: nat
  b_last_use_tick :: u64
  b_lock :: sleeplock
  b_refcnt :: u32
  b_data :: "u8 list"

record kbufs = kpipes +
  rw_devs :: "rwdev option list"
  bufCache :: "buf list"
  bl_first_data_sector :: nat
  bl_sectors_per_cluster :: nat

definition FindDevByName :: "u8 list \<Rightarrow> 'a kbufs_scheme \<Rightarrow> nat" where
  "FindDevByName dev_name s =
     (case List.find (\<lambda>i. case rw_devs s ! i of None \<Rightarrow> False | Some d \<Rightarrow> strcmp (rw_name d) dev_name = 0) [0..<NDEV]
      of None \<Rightarrow> 0 | Some i \<Rightarrow> i)"

definition RwDevRead :: "nat \<Rightarrow> nat \<Rightarrow> nat \<Rightarrow> 'a kbufs_scheme \<Rightarrow> (int \<times> u8 list) result" where
  "RwDevRead dev offset n s =
     (if dev < length (rw_devs s)
      then (case rw_devs s ! dev of None \<Rightarrow> Inl (BadAccess ''rw_devs'') | Some d \<Rightarrow> disk_read d offset n)
      else Inl (BadAccess ''rw_devs''))"

definition RwDevWrite :: "nat \<Rightarrow> nat \<Rightarrow> u8 list \<Rightarrow> 'a kbufs_scheme \<Rightarrow> (int \<times> 'a kbufs_scheme) result" where
  "RwDevWrite dev offset bs s =
     (if dev < length (rw_devs s)
      then (case rw_devs s ! dev of None \<Rightarrow> Inl (BadAccess ''rw_devs'')
            | Some d \<Rightarrow> bindr (disk_write d offset bs)
                         (\<lambda>(r, d'). Inr (r, s\<lparr>rw_devs := (rw_devs s)[dev := Some d']\<rparr>)))
      else Inl (BadAccess ''rw_devs''))"

definition buf_zero :: buf where
  "buf_zero = \<lparr>b_valid = False, b_dev = 0, b_blockno = 0, b_last_use_tick = 0,
     b_lock = sl_init, b_refcnt = 0, b_data = replicate BSIZE 0\<rparr>"

definition bl_init :: "'a kbufs_scheme \<Rightarrow> 'a kbufs_scheme" where
  "bl_init s = s\<lparr>bufCache := replicate BUFFER_NUM buf_zero\<rparr>"

text \<open>The addresses of the locks of buffers, as sleep channels.\<close>

definition buf_chan :: "nat \<Rightarrow> chan" where "buf_chan i = ChLock (2 * i)"

definition upd_buf :: "nat \<Rightarrow> (buf \<Rightarrow> buf) \<Rightarrow> 'a kbufs_scheme \<Rightarrow> 'a kbufs_scheme" where
  "upd_buf i f s = s\<lparr>bufCache := (bufCache s)[i := f (bufCache s ! i)]\<rparr>"

text \<open>
  The scan of \<^verbatim>\<open>allocBuffer\<close> from buffer \<open>i\<close> on: the first buffer with the block number, or the least
  recently used one without references. The device number is not compared.
\<close>

datatype bscan = Hit nat | Evict "nat option"

function buf_scan :: "buf list \<Rightarrow> nat \<Rightarrow> nat \<Rightarrow> nat option \<Rightarrow> bscan" where
  "buf_scan bs blockno i earliest =
     (if i < length bs then
        let e = (if b_refcnt (bs ! i) = 0 \<and>
                    (case earliest of None \<Rightarrow> True
                     | Some j \<Rightarrow> b_last_use_tick (bs ! i) < b_last_use_tick (bs ! j))
                 then Some i else earliest)
        in if b_blockno (bs ! i) = blockno then Hit i else buf_scan bs blockno (Suc i) e
      else Evict earliest)"
  by pat_completeness auto
termination by (relation "measure (\<lambda>(bs, b, i, e). length bs - i)") auto

declare buf_scan.simps [simp del]

text \<open>
  Taking the sleep lock of a buffer. The operations of the file system run one after the other here,
  so a buffer that is still locked was never unlocked and the caller waits for ever.
\<close>

definition buf_lock :: "nat \<Rightarrow> nat \<Rightarrow> 'a kbufs_scheme \<Rightarrow> 'a kbufs_scheme result" where
  "buf_lock me i s =
     (case sl_lock me (buf_chan i) (b_lock (bufCache s ! i)) s of
        (Sleep c, s1) \<Rightarrow> Inl (Stuck ''buffer lock'')
      | (Done l, s1) \<Rightarrow> Inr (upd_buf i (b_lock_update (\<lambda>_. l)) s1))"

definition allocBuffer :: "nat \<Rightarrow> nat \<Rightarrow> nat \<Rightarrow> 'a kbufs_scheme \<Rightarrow> (nat \<times> 'a kbufs_scheme) result" where
  "allocBuffer me dev blockno s =
     (case buf_scan (bufCache s) blockno 0 None of
        Hit i \<Rightarrow>
          bindr (buf_lock me i (upd_buf i (\<lambda>b. b\<lparr>b_refcnt := b_refcnt b + 1, b_last_use_tick := scast (ticks s)\<rparr>) s))
            (\<lambda>s1. Inr (i, s1))
      | Evict None \<Rightarrow> Inl (Panic ''alloc buf'')
      | Evict (Some i) \<Rightarrow>
          bindr (buf_lock me i (upd_buf i (\<lambda>b. b\<lparr>b_valid := False, b_refcnt := 1, b_blockno := blockno,
                   b_dev := dev, b_last_use_tick := scast (ticks s)\<rparr>) s))
            (\<lambda>s1. Inr (i, s1)))"

definition freeBuffer :: "nat \<Rightarrow> 'a kbufs_scheme \<Rightarrow> 'a kbufs_scheme" where
  "freeBuffer i s =
     (let s1 = upd_buf i (\<lambda>b. b\<lparr>b_refcnt := b_refcnt b - 1\<rparr>) s;
          (l, s2) = sl_unlock (buf_chan i) (b_lock (bufCache s1 ! i)) s1
      in upd_buf i (b_lock_update (\<lambda>_. l)) s2)"

definition bl_FirstSectorOfCluster :: "nat \<Rightarrow> 'a kbufs_scheme \<Rightarrow> nat" where
  "bl_FirstSectorOfCluster cluster s =
     (bl_first_data_sector s + (cluster + 2 ^ 32 - 2) mod 2 ^ 32 * bl_sectors_per_cluster s) mod 2 ^ 32"

definition bl_offset :: "nat \<Rightarrow> 'a kbufs_scheme \<Rightarrow> nat" where
  "bl_offset cluster s = bl_FirstSectorOfCluster cluster s * 512 mod 2 ^ 32"

definition bl_read :: "nat \<Rightarrow> nat \<Rightarrow> nat \<Rightarrow> 'a kbufs_scheme \<Rightarrow> (nat \<times> 'a kbufs_scheme) result" where
  "bl_read me dev cluster s =
     bindr (allocBuffer me dev cluster s) (\<lambda>(i, s1).
       if b_valid (bufCache s1 ! i) then Inr (i, s1)
       else bindr (RwDevRead dev (bl_offset cluster s1) BSIZE s1) (\<lambda>(r, bs).
         Inr (i, upd_buf i (\<lambda>b. b\<lparr>b_data := (if r < 0 then b_data b else bs), b_valid := True\<rparr>) s1)))"

definition bl_write :: "nat \<Rightarrow> 'a kbufs_scheme \<Rightarrow> 'a kbufs_scheme result" where
  "bl_write i s =
     (let b = bufCache s ! i in
      bindr (RwDevWrite (b_dev b) (bl_offset (b_blockno b) s) (b_data b) s) (\<lambda>(r, s1). Inr s1))"

section \<open>The replacement scan\<close>

lemma buf_scan_Hit:
  assumes "buf_scan bs c i e = Hit k"
  shows "i \<le> k \<and> k < length bs \<and> b_blockno (bs ! k) = c \<and> (\<forall>j. i \<le> j \<longrightarrow> j < k \<longrightarrow> b_blockno (bs ! j) \<noteq> c)"
  using assms
proof (induction bs c i e rule: buf_scan.induct)
  case (1 bs c i e)
  show ?case
  proof (cases "i < length bs \<and> b_blockno (bs ! i) \<noteq> c")
    case True
    with 1(2) have "Suc i \<le> k \<and> k < length bs \<and> b_blockno (bs ! k) = c \<and>
        (\<forall>j. Suc i \<le> j \<longrightarrow> j < k \<longrightarrow> b_blockno (bs ! j) \<noteq> c)"
      by (intro "1.IH" [OF _ refl]) (simp_all add: buf_scan.simps [of bs c i e] Let_def)
    with True show ?thesis by (metis Suc_leD Suc_leI le_neq_implies_less)
  next
    case False
    then show ?thesis using 1(2) by (auto simp: buf_scan.simps [of bs c i e] Let_def split: if_splits)
  qed
qed

text \<open>
  Without a hit no buffer has the block number, and the victim is unreferenced and was not used later than
  any other unreferenced buffer.
\<close>

lemma buf_scan_Evict:
  assumes "buf_scan bs c i e = Evict r"
    and "\<forall>j. e = Some j \<longrightarrow> j < i \<and> b_refcnt (bs ! j) = 0" and "e = None \<longrightarrow> (\<forall>j < i. b_refcnt (bs ! j) \<noteq> 0)"
    and "\<forall>j k. e = Some k \<longrightarrow> j < i \<longrightarrow> b_refcnt (bs ! j) = 0 \<longrightarrow> b_last_use_tick (bs ! k) \<le> b_last_use_tick (bs ! j)"
    and "i \<le> length bs"
  shows "(\<forall>j. i \<le> j \<longrightarrow> j < length bs \<longrightarrow> b_blockno (bs ! j) \<noteq> c) \<and>
    (case r of None \<Rightarrow> \<forall>j < length bs. b_refcnt (bs ! j) \<noteq> 0
     | Some k \<Rightarrow> k < length bs \<and> b_refcnt (bs ! k) = 0 \<and>
         (\<forall>j < length bs. b_refcnt (bs ! j) = 0 \<longrightarrow> b_last_use_tick (bs ! k) \<le> b_last_use_tick (bs ! j)))"
  using assms
proof (induction bs c i e rule: buf_scan.induct)
  case (1 bs c i e)
  let ?e = "if b_refcnt (bs ! i) = 0 \<and> (case e of None \<Rightarrow> True
              | Some j \<Rightarrow> b_last_use_tick (bs ! i) < b_last_use_tick (bs ! j)) then Some i else e"
  show ?case
  proof (cases "i < length bs")
    case True
    with "1.prems"(1) have ne: "b_blockno (bs ! i) \<noteq> c" and s: "buf_scan bs c (Suc i) ?e = Evict r"
      by (auto simp: buf_scan.simps [of bs c i e] Let_def split: if_splits)
    have a: "\<forall>j. ?e = Some j \<longrightarrow> j < Suc i \<and> b_refcnt (bs ! j) = 0"
      using "1.prems"(2) by (auto split: if_splits)
    have b: "?e = None \<longrightarrow> (\<forall>j < Suc i. b_refcnt (bs ! j) \<noteq> 0)"
      using "1.prems"(3) by (auto simp: less_Suc_eq split: if_splits option.splits)
    have d: "\<forall>j k. ?e = Some k \<longrightarrow> j < Suc i \<longrightarrow> b_refcnt (bs ! j) = 0 \<longrightarrow> b_last_use_tick (bs ! k) \<le> b_last_use_tick (bs ! j)"
      using "1.prems"(3,4) by (auto simp: less_Suc_eq not_less split: if_splits option.splits) (meson less_imp_le order.trans)+
    have "Suc i \<le> length bs" using True by simp
    from "1.IH" [OF True refl ne s a b d this] ne show ?thesis
      by (metis Suc_leI le_neq_implies_less)
  next
    case False
    with "1.prems"(1) have "r = e" by (simp add: buf_scan.simps [of bs c i e])
    with False "1.prems" show ?thesis by (auto split: option.splits)
  qed
qed
lemmas buf_scan_Evict_start =
  buf_scan_Evict [where i = 0 and e = None, simplified]

section \<open>Coherence\<close>

text \<open>
  The geometry the cache is right for: one block device \<open>D\<close> with sectors of 512 bytes and clusters of eight
  sectors, the size of a buffer. \<open>good_cluster\<close> holds of the clusters whose bytes lie below 2 GB.
\<close>

definition disk_geometry :: "nat \<Rightarrow> 'a kbufs_scheme \<Rightarrow> bool" where
  "disk_geometry D s \<longleftrightarrow>
     D < length (rw_devs s) \<and> bl_sectors_per_cluster s = 8 \<and>
     (\<exists>d. rw_devs s ! D = Some d \<and> (\<forall>k. length (rw_sector d k) = 512))"

definition good_cluster :: "'a kbufs_scheme \<Rightarrow> nat \<Rightarrow> bool" where
  "good_cluster s c \<longleftrightarrow> 2 \<le> c \<and> (bl_first_data_sector s + (c - 2) * 8 + 8) * 512 < 2 ^ 31"

definition cluster_base :: "'a kbufs_scheme \<Rightarrow> nat \<Rightarrow> nat" where
  "cluster_base s c = bl_first_data_sector s + (c - 2) * 8"

text \<open>The abstraction: the bytes of cluster \<open>c\<close> on the disk.\<close>

definition disk_cluster :: "nat \<Rightarrow> 'a kbufs_scheme \<Rightarrow> nat \<Rightarrow> u8 list" where
  "disk_cluster D s c =
     (case rw_devs s ! D of None \<Rightarrow> []
      | Some d \<Rightarrow> concat (map (rw_sector d) [cluster_base s c..<cluster_base s c + 8]))"

text \<open>
  The invariant of the cache: a valid buffer holds the bytes of its cluster, no two valid buffers are for the
  same cluster, and a buffer that is not valid has a block number below the first cluster.
\<close>

definition coherent_buf :: "nat \<Rightarrow> 'a kbufs_scheme \<Rightarrow> buf \<Rightarrow> bool" where
  "coherent_buf D s b \<longleftrightarrow>
     length (b_data b) = BSIZE \<and>
     (if b_valid b then b_dev b = D \<and> good_cluster s (b_blockno b) \<and> b_data b = disk_cluster D s (b_blockno b)
      else b_blockno b < 2)"

definition coherent :: "nat \<Rightarrow> 'a kbufs_scheme \<Rightarrow> bool" where
  "coherent D s \<longleftrightarrow>
     disk_geometry D s \<and> length (bufCache s) = BUFFER_NUM \<and>
     (\<forall>i < BUFFER_NUM. coherent_buf D s (bufCache s ! i)) \<and>
     (\<forall>i < BUFFER_NUM. \<forall>j < BUFFER_NUM. b_valid (bufCache s ! i) \<longrightarrow> b_valid (bufCache s ! j) \<longrightarrow>
        b_blockno (bufCache s ! i) = b_blockno (bufCache s ! j) \<longrightarrow> i = j)"

definition idle_buf :: "buf \<Rightarrow> bool" where
  "idle_buf b \<longleftrightarrow> \<not> sl_locked (b_lock b) \<and> b_refcnt b = 0"

text \<open>Between two operations no buffer is held.\<close>

definition cache_idle :: "'a kbufs_scheme \<Rightarrow> bool" where
  "cache_idle s \<longleftrightarrow> (\<forall>i < BUFFER_NUM. idle_buf (bufCache s ! i))"

text \<open>While an operation runs it holds buffer \<open>i\<close>.\<close>

definition cache_held :: "nat \<Rightarrow> 'a kbufs_scheme \<Rightarrow> bool" where
  "cache_held i s \<longleftrightarrow> i < BUFFER_NUM \<and> sl_locked (b_lock (bufCache s ! i)) \<and> b_refcnt (bufCache s ! i) = 1 \<and>
     (\<forall>j < BUFFER_NUM. j \<noteq> i \<longrightarrow> idle_buf (bufCache s ! j))"

lemma cluster_offset:
  assumes "disk_geometry D s" and "good_cluster s c"
  shows "bl_FirstSectorOfCluster c s = cluster_base s c" and "bl_offset c s = cluster_base s c * 512"
    and "(cluster_base s c + 8) * 512 < 2 ^ 31"
proof -
  have g: "(cluster_base s c + 8) * 512 < 2147483648" "2 \<le> c"
    using assms(2) by (simp_all add: good_cluster_def cluster_base_def)
  then have c: "c - 2 < 4294967296" by (simp add: cluster_base_def)
  obtain k where k: "c = k + 2" using g(2) by (metis add.commute le_Suc_ex)
  have m: "(4294967294 + c) mod 4294967296 = c - 2" using c by (simp add: k)
  have b: "cluster_base s c < 4294967296" using g(1) by simp
  show f: "bl_FirstSectorOfCluster c s = cluster_base s c"
    using assms(1) b by (simp add: bl_FirstSectorOfCluster_def m disk_geometry_def cluster_base_def)
  show "bl_offset c s = cluster_base s c * 512" using g(1) by (simp add: bl_offset_def f)
  show "(cluster_base s c + 8) * 512 < 2 ^ 31" using g(1) by simp
qed

lemma sectors_length: "(\<forall>k. length (f k) = m) \<Longrightarrow> length (concat (map f [a..<a + n])) = n * m"
  by (induction n) simp_all

lemma disk_cluster_length: "disk_geometry D s \<Longrightarrow> length (disk_cluster D s c) = BSIZE"
  by (auto simp: disk_geometry_def disk_cluster_def BSIZE_def sectors_length)

text \<open>A device read of a good cluster.\<close>

lemma RwDevRead_cluster:
  assumes "disk_geometry D s" and "good_cluster s c"
  shows "RwDevRead D (bl_offset c s) BSIZE s = Inr (int BSIZE, disk_cluster D s c)"
proof -
  obtain d where d: "D < length (rw_devs s)" "rw_devs s ! D = Some d" using assms(1) by (auto simp: disk_geometry_def)
  have "(cluster_base s c * 512 + 4096) div 512 = cluster_base s c + 8" by simp
  then show ?thesis using cluster_offset [OF assms] d
    by (simp add: RwDevRead_def disk_read_def BSIZE_def disk_cluster_def)
qed

subsection \<open>Taking a buffer\<close>

lemma upd_buf_simps [simp]:
  "bufCache (upd_buf i f s) = (bufCache s)[i := f (bufCache s ! i)]"
  "rw_devs (upd_buf i f s) = rw_devs s" "taskTable (upd_buf i f s) = taskTable s"
  "bl_sectors_per_cluster (upd_buf i f s) = bl_sectors_per_cluster s"
  "bl_first_data_sector (upd_buf i f s) = bl_first_data_sector s" "ticks (upd_buf i f s) = ticks s"
  by (simp_all add: upd_buf_def)

lemma cluster_facts_cong:
  assumes "rw_devs s' = rw_devs s" "bl_sectors_per_cluster s' = bl_sectors_per_cluster s"
    "bl_first_data_sector s' = bl_first_data_sector s"
  shows "disk_geometry D s' = disk_geometry D s" "good_cluster s' c = good_cluster s c"
    "disk_cluster D s' c = disk_cluster D s c" "cluster_base s' c = cluster_base s c" "bl_offset c s' = bl_offset c s"
  using assms by (cases "rw_devs s ! D"; simp add: disk_geometry_def good_cluster_def disk_cluster_def
      cluster_base_def bl_offset_def bl_FirstSectorOfCluster_def)+

lemma buf_lock_idle:
  assumes "i < length (bufCache s)" "\<not> sl_locked (b_lock (bufCache s ! i))"
  shows "buf_lock me i s = Inr (s\<lparr>bufCache := (bufCache s)[i := (bufCache s ! i)\<lparr>b_lock :=
      (b_lock (bufCache s ! i))\<lparr>sl_locked := True, sl_pid := t_pid (the_task s me)\<rparr>\<rparr>]\<rparr>)"
  using assms by (simp add: buf_lock_def sl_lock_def upd_buf_def)

lemma coherent_cong:
  assumes "rw_devs s' = rw_devs s" "bl_sectors_per_cluster s' = bl_sectors_per_cluster s"
    "bl_first_data_sector s' = bl_first_data_sector s" "bufCache s' = bufCache s"
  shows "coherent D s' = coherent D s"
  unfolding coherent_def coherent_buf_def cluster_facts_cong [OF assms(1-3)] assms(4) ..

text \<open>Coherence after a buffer was replaced by one that is coherent and the only one for its cluster.\<close>

lemma coherent_replace:
  assumes "coherent D s" and "k < BUFFER_NUM" and "coherent_buf D s b"
    and "\<forall>j < BUFFER_NUM. j \<noteq> k \<longrightarrow> b_valid b \<longrightarrow> b_valid (bufCache s ! j) \<longrightarrow> b_blockno (bufCache s ! j) \<noteq> b_blockno b"
  shows "coherent D (s\<lparr>bufCache := (bufCache s)[k := b]\<rparr>)"
proof -
  let ?s = "s\<lparr>bufCache := (bufCache s)[k := b]\<rparr>"
  have f: "disk_geometry D ?s = disk_geometry D s" "coherent_buf D ?s x = coherent_buf D s x" for x
    using cluster_facts_cong [of ?s s] by (simp_all add: coherent_buf_def)
  show ?thesis using assms unfolding coherent_def f by (simp add: nth_list_update) metis
qed

text \<open>
  \<^verbatim>\<open>read\<close> of a good cluster from an idle cache always returns a buffer with the bytes of the cluster, held by
  the caller; only the array of buffers changes.
\<close>

lemma bl_read_coherent:
  assumes c: "coherent D s" and i: "cache_idle s" and g: "good_cluster s blk"
  obtains k bs where "bl_read me D blk s = Inr (k, s\<lparr>bufCache := bs\<rparr>)"
    and "coherent D (s\<lparr>bufCache := bs\<rparr>)" and "cache_held k (s\<lparr>bufCache := bs\<rparr>)"
    and "b_valid (bs ! k)" and "b_blockno (bs ! k) = blk"
proof -
  have len: "length (bufCache s) = BUFFER_NUM" and geo: "disk_geometry D s"
    and cb: "\<And>j. j < BUFFER_NUM \<Longrightarrow> coherent_buf D s (bufCache s ! j)"
    using c by (simp_all add: coherent_def)
  have idle: "\<And>j. j < BUFFER_NUM \<Longrightarrow> idle_buf (bufCache s ! j)" using i by (simp add: cache_idle_def)
  show thesis
  proof (cases "buf_scan (bufCache s) blk 0 None")
    case (Hit k)
    have k: "k < BUFFER_NUM" "b_blockno (bufCache s ! k) = blk" using buf_scan_Hit [OF Hit] len by simp_all
    then have v: "b_valid (bufCache s ! k)" using cb [OF k(1)] g by (auto simp: coherent_buf_def good_cluster_def split: if_splits)
    define b where "b = (bufCache s ! k)\<lparr>b_refcnt := 1, b_last_use_tick := scast (ticks s),
        b_lock := (b_lock (bufCache s ! k))\<lparr>sl_locked := True, sl_pid := t_pid (the_task s me)\<rparr>\<rparr>"
    have r: "bl_read me D blk s = Inr (k, s\<lparr>bufCache := (bufCache s)[k := b]\<rparr>)"
      using idle [OF k(1)] k len v
      by (simp add: bl_read_def allocBuffer_def Hit buf_lock_idle idle_buf_def b_def the_task_def upd_buf_def)
    have "coherent D (s\<lparr>bufCache := (bufCache s)[k := b]\<rparr>)"
      using c k cb [OF k(1)] v by (intro coherent_replace) (auto simp: b_def coherent_buf_def coherent_def)
    moreover have "cache_held k (s\<lparr>bufCache := (bufCache s)[k := b]\<rparr>)"
      using k idle len by (simp add: cache_held_def b_def nth_list_update)
    ultimately show ?thesis using r k v len by (intro that [OF r]) (simp_all add: b_def)
  next
    case (Evict e)
    have no: "\<forall>j < BUFFER_NUM. b_blockno (bufCache s ! j) \<noteq> blk"
      and e: "case e of None \<Rightarrow> False | Some k \<Rightarrow> k < BUFFER_NUM"
      using buf_scan_Evict_start [OF Evict] len idle [of 0] by (cases e; force simp: idle_buf_def BUFFER_NUM_def)+
    then obtain k where k: "e = Some k" "k < BUFFER_NUM" by (cases e) auto
    define b where "b = (bufCache s ! k)\<lparr>b_refcnt := 1, b_blockno := blk, b_dev := D,
        b_last_use_tick := scast (ticks s),
        b_lock := (b_lock (bufCache s ! k))\<lparr>sl_locked := True, sl_pid := t_pid (the_task s me)\<rparr>,
        b_data := disk_cluster D s blk, b_valid := True\<rparr>"
    have rd: "RwDevRead D (bl_offset blk s') BSIZE s' = Inr (int BSIZE, disk_cluster D s blk)"
      if "s' = s\<lparr>bufCache := bs\<rparr>" for s' bs
      using RwDevRead_cluster [of D s' blk] geo g cluster_facts_cong [of s' s] that by simp
    have r: "bl_read me D blk s = Inr (k, s\<lparr>bufCache := (bufCache s)[k := b]\<rparr>)"
      using idle [OF k(2)] k len rd
      by (simp add: bl_read_def allocBuffer_def Evict buf_lock_idle idle_buf_def b_def the_task_def upd_buf_def)
    have "coherent D (s\<lparr>bufCache := (bufCache s)[k := b]\<rparr>)"
      using c k g no disk_cluster_length [OF geo]
      by (intro coherent_replace) (auto simp: b_def coherent_buf_def)
    moreover have "cache_held k (s\<lparr>bufCache := (bufCache s)[k := b]\<rparr>)"
      using k idle len by (simp add: cache_held_def b_def nth_list_update)
    ultimately show ?thesis using r k len by (intro that [OF r]) (simp_all add: b_def)
  qed
qed

subsection \<open>Writing and releasing\<close>

lemma concat_chunks: "concat (map (\<lambda>k. take m (drop ((k - b) * m) xs)) [b..<b + n]) = take (n * m) xs"
  by (induction n) (simp_all add: take_add [symmetric] add.commute)

lemma cluster_disjoint:
  assumes "good_cluster s c" "good_cluster s c'" "c \<noteq> c'" "cluster_base s c' \<le> k" "k < cluster_base s c' + 8"
  shows "\<not> (cluster_base s c \<le> k \<and> k < cluster_base s c + 8)"
proof -
  have "2 \<le> c" "2 \<le> c'" using assms by (simp_all add: good_cluster_def)
  then show ?thesis using assms(3-5) unfolding cluster_base_def by linarith
qed

lemma RwDevWrite_cluster:
  assumes geo: "disk_geometry D s" and g: "good_cluster s c" and l: "length data = BSIZE"
  obtains dv where "RwDevWrite D (bl_offset c s) data s = Inr (int BSIZE, s\<lparr>rw_devs := dv\<rparr>)"
    and "disk_geometry D (s\<lparr>rw_devs := dv\<rparr>)" and "disk_cluster D (s\<lparr>rw_devs := dv\<rparr>) c = data"
    and "\<And>c'. good_cluster s c' \<Longrightarrow> c' \<noteq> c \<Longrightarrow> disk_cluster D (s\<lparr>rw_devs := dv\<rparr>) c' = disk_cluster D s c'"
proof -
  obtain d where d: "D < length (rw_devs s)" "rw_devs s ! D = Some d" and sl: "\<And>k. length (rw_sector d k) = 512"
    using geo by (auto simp: disk_geometry_def)
  let ?b = "cluster_base s c"
  define f where "f = (\<lambda>k. if ?b \<le> k \<and> k < ?b + 8 then take 512 (drop ((k - ?b) * 512) data) else rw_sector d k)"
  define dv where "dv = (rw_devs s)[D := Some (d\<lparr>rw_sector := f\<rparr>)]"
  have "(?b * 512 + 4096) div 512 = ?b + 8" by simp
  then have "RwDevWrite D (bl_offset c s) data s = Inr (int BSIZE, s\<lparr>rw_devs := dv\<rparr>)"
    using cluster_offset [OF geo g] d l
    by (simp add: RwDevWrite_def disk_write_def BSIZE_def dv_def f_def cong: if_cong)
  moreover have "length (f k) = 512" for k
    using l sl by (auto simp: f_def BSIZE_def min_def)
  then have "disk_geometry D (s\<lparr>rw_devs := dv\<rparr>)" using geo d by (auto simp: disk_geometry_def dv_def)
  moreover have base: "cluster_base (s\<lparr>rw_devs := dv\<rparr>) x = cluster_base s x" for x by (simp add: cluster_base_def)
  have eq: "disk_cluster D (s\<lparr>rw_devs := dv\<rparr>) x = concat (map f [cluster_base s x..<cluster_base s x + 8])" for x
    using d unfolding disk_cluster_def base by (simp add: dv_def)
  have "map f [?b..<?b + 8] = map (\<lambda>k. take 512 (drop ((k - ?b) * 512) data)) [?b..<?b + 8]"
    by (simp add: f_def)
  then have "disk_cluster D (s\<lparr>rw_devs := dv\<rparr>) c = data"
    using l by (simp only: eq concat_chunks) (simp add: BSIZE_def)
  moreover have "disk_cluster D (s\<lparr>rw_devs := dv\<rparr>) c' = disk_cluster D s c'" if "good_cluster s c'" "c' \<noteq> c" for c'
  proof -
    have "map f [cluster_base s c'..<cluster_base s c' + 8] = map (rw_sector d) [cluster_base s c'..<cluster_base s c' + 8]"
      using cluster_disjoint [OF g that(1)] that(2) by (auto simp: f_def)
    then show ?thesis by (simp only: eq) (simp add: disk_cluster_def d(2))
  qed
  ultimately show thesis by (rule that)
qed

text \<open>
  \<^verbatim>\<open>write\<close> of a held buffer whose data was changed: the disk gets the new bytes of that cluster and no others,
  and the cache is coherent again.
\<close>

lemma bl_write_coherent:
  assumes c: "coherent D s" and h: "cache_held k s" and v: "b_valid (bufCache s ! k)" and l: "length data = BSIZE"
  obtains dv where "bl_write k (upd_buf k (\<lambda>x. x\<lparr>b_data := data\<rparr>) s) =
      Inr (s\<lparr>bufCache := (bufCache s)[k := (bufCache s ! k)\<lparr>b_data := data\<rparr>], rw_devs := dv\<rparr>)"
    and "coherent D (s\<lparr>bufCache := (bufCache s)[k := (bufCache s ! k)\<lparr>b_data := data\<rparr>], rw_devs := dv\<rparr>)"
    and "\<And>c'. good_cluster s c' \<Longrightarrow> disk_cluster D (s\<lparr>bufCache := bs', rw_devs := dv\<rparr>) c' =
        (if c' = b_blockno (bufCache s ! k) then data else disk_cluster D s c')"
proof -
  let ?s1 = "s\<lparr>bufCache := (bufCache s)[k := (bufCache s ! k)\<lparr>b_data := data\<rparr>]\<rparr>"
  let ?b = "bufCache s ! k"
  have k: "k < BUFFER_NUM" "length (bufCache s) = BUFFER_NUM" and geo: "disk_geometry D s"
    using c h by (simp_all add: coherent_def cache_held_def)
  have b: "b_dev ?b = D" "good_cluster s (b_blockno ?b)"
    using c k v by (auto simp: coherent_def coherent_buf_def)
  have cong: "disk_geometry D ?s1 = disk_geometry D s" "good_cluster ?s1 x = good_cluster s x"
    "disk_cluster D ?s1 x = disk_cluster D s x" for x
    using cluster_facts_cong [of ?s1 s] by simp_all
  obtain dv where w: "RwDevWrite D (bl_offset (b_blockno ?b) ?s1) data ?s1 = Inr (int BSIZE, ?s1\<lparr>rw_devs := dv\<rparr>)"
    "disk_geometry D (?s1\<lparr>rw_devs := dv\<rparr>)" "disk_cluster D (?s1\<lparr>rw_devs := dv\<rparr>) (b_blockno ?b) = data"
    "\<And>c'. good_cluster s c' \<Longrightarrow> c' \<noteq> b_blockno ?b \<Longrightarrow> disk_cluster D (?s1\<lparr>rw_devs := dv\<rparr>) c' = disk_cluster D s c'"
    using RwDevWrite_cluster [of D ?s1 "b_blockno ?b" data] geo b(2) l unfolding cong by blast
  have dc: "disk_cluster D (s\<lparr>bufCache := bs', rw_devs := dv\<rparr>) x = disk_cluster D (?s1\<lparr>rw_devs := dv\<rparr>) x"
    "good_cluster (s\<lparr>bufCache := bs', rw_devs := dv\<rparr>) x = good_cluster s x" for bs' x
    using cluster_facts_cong [of "s\<lparr>bufCache := bs', rw_devs := dv\<rparr>" "?s1\<lparr>rw_devs := dv\<rparr>"]
    by (simp_all add: good_cluster_def)
  have r: "bl_write k (upd_buf k (\<lambda>x. x\<lparr>b_data := data\<rparr>) s) = Inr (?s1\<lparr>rw_devs := dv\<rparr>)"
    using k b w(1) by (simp add: bl_write_def upd_buf_def)
  have val: "disk_cluster D (s\<lparr>bufCache := bs', rw_devs := dv\<rparr>) c' =
      (if c' = b_blockno ?b then data else disk_cluster D s c')" if "good_cluster s c'" for c' bs'
    using w(3,4) that by (simp add: dc(1) [of bs' c'])
  have cbs: "coherent_buf D (?s1\<lparr>rw_devs := dv\<rparr>) (bufCache ?s1 ! j)" if j: "j < BUFFER_NUM" for j
  proof -
    have cj: "coherent_buf D s (bufCache s ! j)" using c j by (simp add: coherent_def)
    have u: "j = k" if "b_valid (bufCache s ! j)" "b_blockno (bufCache s ! j) = b_blockno ?b"
      using c j k v that by (simp add: coherent_def)
    show ?thesis
    proof (cases "j = k")
      case True
      then show ?thesis using k l v b w(3) by (simp add: coherent_buf_def dc(2))
    next
      case False
      then have "b_blockno (bufCache s ! j) \<noteq> b_blockno ?b" if "b_valid (bufCache s ! j)" using u that by blast
      then show ?thesis using False cj w(4) by (auto simp: coherent_buf_def dc(2) split: if_splits)
    qed
  qed
  have same: "b_valid (bufCache ?s1 ! j) = b_valid (bufCache s ! j)" "b_blockno (bufCache ?s1 ! j) = b_blockno (bufCache s ! j)" for j
    using k by (simp_all add: nth_list_update)
  have coh: "coherent D (?s1\<lparr>rw_devs := dv\<rparr>)"
    using c k w(2) cbs same unfolding coherent_def by simp
  show thesis by (rule that [OF r coh val])
qed

lemma freeBuffer_idle:
  assumes c: "coherent D s" and h: "cache_held k s"
  obtains bs tt where "freeBuffer k s = s\<lparr>bufCache := bs, taskTable := tt\<rparr>"
    and "coherent D (freeBuffer k s)" and "cache_idle (freeBuffer k s)"
    and "\<And>x. disk_cluster D (freeBuffer k s) x = disk_cluster D s x"
    and "\<And>x. good_cluster (freeBuffer k s) x = good_cluster s x"
proof -
  have k: "k < BUFFER_NUM" "length (bufCache s) = BUFFER_NUM" using c h by (simp_all add: coherent_def cache_held_def)
  define b where "b = (bufCache s ! k)\<lparr>b_refcnt := b_refcnt (bufCache s ! k) - 1,
      b_lock := (b_lock (bufCache s ! k))\<lparr>sl_locked := False, sl_pid := 0\<rparr>\<rparr>"
  let ?tt = "map (wakeup_task (buf_chan k)) (taskTable s)"
  have e: "freeBuffer k s = s\<lparr>bufCache := (bufCache s)[k := b], taskTable := ?tt\<rparr>"
    using k by (simp add: freeBuffer_def sl_unlock_def upd_buf_def wakeup_def b_def Let_def)
  have f: "disk_geometry D (freeBuffer k s) = disk_geometry D s" "good_cluster (freeBuffer k s) x = good_cluster s x"
    "disk_cluster D (freeBuffer k s) x = disk_cluster D s x" for x
    using cluster_facts_cong [of "freeBuffer k s" s] by (simp_all add: e)
  have "coherent D (s\<lparr>bufCache := (bufCache s)[k := b]\<rparr>)"
    using c k by (intro coherent_replace) (auto simp: b_def coherent_buf_def coherent_def)
  then have "coherent D (freeBuffer k s)"
    using coherent_cong [of "freeBuffer k s" "s\<lparr>bufCache := (bufCache s)[k := b]\<rparr>"] by (simp add: e)
  moreover have "cache_idle (freeBuffer k s)"
    using h k by (simp add: e cache_idle_def cache_held_def nth_list_update b_def idle_buf_def)
  ultimately show thesis using f by (intro that [OF e])
qed

section \<open>A store of clusters\<close>

text \<open>
  What the file system does with the cache: it reads a cluster and releases it, or reads one, changes its
  bytes, writes it and releases it.
\<close>

definition cluster_get :: "nat \<Rightarrow> nat \<Rightarrow> nat \<Rightarrow> 'a kbufs_scheme \<Rightarrow> (u8 list \<times> 'a kbufs_scheme) result" where
  "cluster_get me D c s = bindr (bl_read me D c s) (\<lambda>(k, s1). Inr (b_data (bufCache s1 ! k), freeBuffer k s1))"

definition cluster_put ::
  "nat \<Rightarrow> nat \<Rightarrow> nat \<Rightarrow> (u8 list \<Rightarrow> u8 list) \<Rightarrow> 'a kbufs_scheme \<Rightarrow> 'a kbufs_scheme result" where
  "cluster_put me D c f s =
     bindr (bl_read me D c s) (\<lambda>(k, s1).
       bindr (bl_write k (upd_buf k (\<lambda>x. x\<lparr>b_data := f (b_data x)\<rparr>) s1)) (\<lambda>s2. Inr (freeBuffer k s2)))"

datatype cluster_op = CGet nat | CPut nat "u8 list \<Rightarrow> u8 list"

fun run_ops ::
  "(nat \<Rightarrow> 's \<Rightarrow> (u8 list \<times> 's) result) \<Rightarrow> (nat \<Rightarrow> (u8 list \<Rightarrow> u8 list) \<Rightarrow> 's \<Rightarrow> 's result)
     \<Rightarrow> cluster_op list \<Rightarrow> 's \<Rightarrow> (u8 list list \<times> 's) result" where
  "run_ops get put [] s = Inr ([], s)"
| "run_ops get put (CGet c # ops) s =
     bindr (get c s) (\<lambda>(d, s1). bindr (run_ops get put ops s1) (\<lambda>(ds, s2). Inr (d # ds, s2)))"
| "run_ops get put (CPut c f # ops) s = bindr (put c f s) (run_ops get put ops)"

text \<open>The specification: an array of clusters.\<close>

fun spec_ops :: "cluster_op list \<Rightarrow> (nat \<Rightarrow> u8 list) \<Rightarrow> u8 list list \<times> (nat \<Rightarrow> u8 list)" where
  "spec_ops [] m = ([], m)"
| "spec_ops (CGet c # ops) m = (let (ds, m') = spec_ops ops m in (m c # ds, m'))"
| "spec_ops (CPut c f # ops) m = spec_ops ops (m(c := f (m c)))"

fun op_ok :: "(nat \<Rightarrow> bool) \<Rightarrow> nat \<Rightarrow> cluster_op \<Rightarrow> bool" where
  "op_ok P n (CGet c) = P c"
| "op_ok P n (CPut c f) = (P c \<and> (\<forall>d. length d = n \<longrightarrow> length (f d) = n))"

lemma spec_ops_cong:
  "(\<forall>c. P c \<longrightarrow> m c = m' c) \<Longrightarrow> list_all (op_ok P n) ops \<Longrightarrow>
     fst (spec_ops ops m) = fst (spec_ops ops m') \<and> (\<forall>c. P c \<longrightarrow> snd (spec_ops ops m) c = snd (spec_ops ops m') c)"
proof (induction ops arbitrary: m m')
  case (Cons x xs)
  then show ?case
  proof (cases x)
    case (CGet c)
    then show ?thesis using Cons.IH [of m m'] Cons.prems by (auto simp: split_beta)
  next
    case (CPut c f)
    have "\<forall>a. P a \<longrightarrow> (m(c := f (m c))) a = (m'(c := f (m' c))) a" using Cons.prems CPut by simp
    from Cons.IH [of "m(c := f (m c))" "m'(c := f (m' c))", OF this] Cons.prems CPut
    show ?thesis by (simp del: fun_upd_apply)
  qed
qed simp

locale cluster_store =
  fixes inv :: "'s \<Rightarrow> bool" and ok :: "'s \<Rightarrow> nat \<Rightarrow> bool" and abs_clusters :: "'s \<Rightarrow> nat \<Rightarrow> u8 list" and csize :: nat
    and get :: "nat \<Rightarrow> 's \<Rightarrow> (u8 list \<times> 's) result" and put :: "nat \<Rightarrow> (u8 list \<Rightarrow> u8 list) \<Rightarrow> 's \<Rightarrow> 's result"
  assumes get_law: "inv s \<Longrightarrow> ok s c \<Longrightarrow> \<exists>s'. get c s = Inr (abs_clusters s c, s') \<and> inv s' \<and> ok s' = ok s \<and>
      (\<forall>x. ok s x \<longrightarrow> abs_clusters s' x = abs_clusters s x)"
    and put_law: "inv s \<Longrightarrow> ok s c \<Longrightarrow> (\<And>d. length d = csize \<Longrightarrow> length (f d) = csize) \<Longrightarrow>
      \<exists>s'. put c f s = Inr s' \<and> inv s' \<and> ok s' = ok s \<and>
      (\<forall>x. ok s x \<longrightarrow> abs_clusters s' x = ((abs_clusters s)(c := f (abs_clusters s c))) x)"
begin

lemma run_ops_refines:
  "inv s \<Longrightarrow> list_all (op_ok (ok s) csize) ops \<Longrightarrow>
     \<exists>s'. run_ops get put ops s = Inr (fst (spec_ops ops (abs_clusters s)), s') \<and> inv s' \<and> ok s' = ok s \<and>
       (\<forall>x. ok s x \<longrightarrow> abs_clusters s' x = snd (spec_ops ops (abs_clusters s)) x)"
proof (induction ops arbitrary: s)
  case (Cons x xs)
  show ?case
  proof (cases x)
    case (CGet c)
    then obtain s1 where s1: "get c s = Inr (abs_clusters s c, s1)" "inv s1" "ok s1 = ok s"
        "\<forall>x. ok s x \<longrightarrow> abs_clusters s1 x = abs_clusters s x"
      using get_law [of s c] Cons.prems by auto
    have xs: "list_all (op_ok (ok s) csize) xs" using Cons.prems by simp
    from Cons.IH [OF s1(2)] xs s1(3) spec_ops_cong [OF s1(4) xs] CGet s1(1)
    show ?thesis by (auto simp: split_beta)
  next
    case (CPut c f)
    then obtain s1 where s1: "put c f s = Inr s1" "inv s1" "ok s1 = ok s"
        "\<forall>x. ok s x \<longrightarrow> abs_clusters s1 x = ((abs_clusters s)(c := f (abs_clusters s c))) x"
      using put_law [of s c f] Cons.prems by auto
    have xs: "list_all (op_ok (ok s) csize) xs" using Cons.prems by simp
    from Cons.IH [OF s1(2)] xs s1(3) CPut s1(1)
      spec_ops_cong [of _ "abs_clusters s1" "(abs_clusters s)(c := f (abs_clusters s c))", OF s1(4) xs]
    show ?thesis by (simp del: fun_upd_apply)
  qed
qed simp

end

lemma cluster_get_law:
  assumes "coherent D s" "cache_idle s" "good_cluster s c"
  obtains s' where "cluster_get me D c s = Inr (disk_cluster D s c, s')" "coherent D s'" "cache_idle s'"
    "\<And>x. good_cluster s' x = good_cluster s x" "\<And>x. disk_cluster D s' x = disk_cluster D s x"
proof -
  obtain k bs where r: "bl_read me D c s = Inr (k, s\<lparr>bufCache := bs\<rparr>)" "coherent D (s\<lparr>bufCache := bs\<rparr>)"
      "cache_held k (s\<lparr>bufCache := bs\<rparr>)" "b_valid (bs ! k)" "b_blockno (bs ! k) = c"
    by (rule bl_read_coherent [OF assms])
  have f: "good_cluster (s\<lparr>bufCache := bs\<rparr>) x = good_cluster s x"
      "disk_cluster D (s\<lparr>bufCache := bs\<rparr>) x = disk_cluster D s x" for x
    using cluster_facts_cong [of "s\<lparr>bufCache := bs\<rparr>" s] by simp_all
  have "b_data (bs ! k) = disk_cluster D s c"
    using r f by (auto simp: coherent_def coherent_buf_def cache_held_def)
  with r(1) have g: "cluster_get me D c s = Inr (disk_cluster D s c, freeBuffer k (s\<lparr>bufCache := bs\<rparr>))"
    by (simp add: cluster_get_def)
  show thesis by (rule freeBuffer_idle [OF r(2,3)]) (rule that [OF g], simp_all add: f)
qed

lemma cluster_put_law:
  assumes "coherent D s" "cache_idle s" "good_cluster s c" and f: "\<And>d. length d = BSIZE \<Longrightarrow> length (f d) = BSIZE"
  obtains s' where "cluster_put me D c f s = Inr s'" "coherent D s'" "cache_idle s'"
    "\<And>x. good_cluster s' x = good_cluster s x"
    "\<And>x. good_cluster s x \<Longrightarrow> disk_cluster D s' x = ((disk_cluster D s)(c := f (disk_cluster D s c))) x"
proof -
  obtain k bs where r: "bl_read me D c s = Inr (k, s\<lparr>bufCache := bs\<rparr>)" "coherent D (s\<lparr>bufCache := bs\<rparr>)"
      "cache_held k (s\<lparr>bufCache := bs\<rparr>)" "b_valid (bs ! k)" "b_blockno (bs ! k) = c"
    by (rule bl_read_coherent [OF assms(1-3)])
  let ?s = "s\<lparr>bufCache := bs\<rparr>"
  have e: "good_cluster ?s x = good_cluster s x" "disk_cluster D ?s x = disk_cluster D s x" for x
    using cluster_facts_cong [of ?s s] by simp_all
  have d: "b_data (bs ! k) = disk_cluster D s c" using r e by (auto simp: coherent_def coherent_buf_def cache_held_def)
  define data where "data = f (disk_cluster D s c)"
  have l: "length data = BSIZE" unfolding data_def by (rule f, rule disk_cluster_length) (use assms(1) in \<open>simp add: coherent_def\<close>)
  let ?u = "bs[k := (bs ! k)\<lparr>b_data := data\<rparr>]"
  have uf: "upd_buf k (\<lambda>x. x\<lparr>b_data := f (b_data x)\<rparr>) ?s = upd_buf k (\<lambda>x. x\<lparr>b_data := data\<rparr>) ?s"
    by (simp add: upd_buf_def d data_def)
  have v: "b_valid (bufCache ?s ! k)" using r(4) by simp
  obtain dv where w0: "bl_write k (upd_buf k (\<lambda>x. x\<lparr>b_data := data\<rparr>) ?s) =
        Inr (?s\<lparr>bufCache := (bufCache ?s)[k := (bufCache ?s ! k)\<lparr>b_data := data\<rparr>], rw_devs := dv\<rparr>)"
      "coherent D (?s\<lparr>bufCache := (bufCache ?s)[k := (bufCache ?s ! k)\<lparr>b_data := data\<rparr>], rw_devs := dv\<rparr>)"
      "\<And>c'. good_cluster ?s c' \<Longrightarrow> disk_cluster D (?s\<lparr>bufCache := ?u, rw_devs := dv\<rparr>) c' =
        (if c' = b_blockno (bufCache ?s ! k) then data else disk_cluster D ?s c')"
    by (rule bl_write_coherent [OF r(2,3) v l, where bs' = ?u]) (rule that)
  have w: "bl_write k (upd_buf k (\<lambda>x. x\<lparr>b_data := data\<rparr>) ?s) = Inr (?s\<lparr>bufCache := ?u, rw_devs := dv\<rparr>)"
      "coherent D (?s\<lparr>bufCache := ?u, rw_devs := dv\<rparr>)"
      "\<And>c'. good_cluster s c' \<Longrightarrow> disk_cluster D (?s\<lparr>bufCache := ?u, rw_devs := dv\<rparr>) c' =
        (if c' = c then data else disk_cluster D s c')"
    using w0 r(5) by (simp_all add: e)
  have h: "cache_held k (?s\<lparr>bufCache := ?u, rw_devs := dv\<rparr>)"
    using r(2,3) by (simp add: cache_held_def coherent_def nth_list_update)
  have g: "good_cluster (?s\<lparr>bufCache := ?u, rw_devs := dv\<rparr>) x = good_cluster s x" for x by (simp add: good_cluster_def)
  have p: "cluster_put me D c f s = Inr (freeBuffer k (?s\<lparr>bufCache := ?u, rw_devs := dv\<rparr>))"
    using r(1) w(1) by (simp add: cluster_put_def uf)
  note fb = freeBuffer_idle [OF w(2) h]
  have free: "coherent D (freeBuffer k (?s\<lparr>bufCache := ?u, rw_devs := dv\<rparr>))"
      "cache_idle (freeBuffer k (?s\<lparr>bufCache := ?u, rw_devs := dv\<rparr>))"
      "disk_cluster D (freeBuffer k (?s\<lparr>bufCache := ?u, rw_devs := dv\<rparr>)) x = disk_cluster D (?s\<lparr>bufCache := ?u, rw_devs := dv\<rparr>) x"
      "good_cluster (freeBuffer k (?s\<lparr>bufCache := ?u, rw_devs := dv\<rparr>)) x = good_cluster (?s\<lparr>bufCache := ?u, rw_devs := dv\<rparr>) x" for x
    by (rule fb; assumption | rule fb; blast)+
  show thesis by (rule that [OF p free(1,2)]) (simp_all only: free g w(3) fun_upd_apply data_def [symmetric])
qed

interpretation bc: cluster_store "\<lambda>s. coherent D s \<and> cache_idle s" good_cluster "disk_cluster D" BSIZE
  "cluster_get me D" "cluster_put me D" for D me
proof (unfold_locales, goal_cases)
  case (1 s c)
  then obtain s' where "cluster_get me D c s = Inr (disk_cluster D s c, s')" "coherent D s'" "cache_idle s'"
    "\<And>x. good_cluster s' x = good_cluster s x" "\<And>x. disk_cluster D s' x = disk_cluster D s x"
    by (metis cluster_get_law)
  then show ?case by (intro exI [of _ s']) auto
next
  case (2 s c f)
  then obtain s' where "cluster_put me D c f s = Inr s'" "coherent D s'" "cache_idle s'"
    "\<And>x. good_cluster s' x = good_cluster s x"
    "\<And>x. good_cluster s x \<Longrightarrow> disk_cluster D s' x = ((disk_cluster D s)(c := f (disk_cluster D s c))) x"
    using cluster_put_law [of D s c f me] by metis
  then show ?case by (intro exI [of _ s']) auto
qed

section \<open>Properties of the cache\<close>

text \<open>A kernel with one empty disk, for the concrete instances.\<close>

definition empty_disk :: rwdev where
  "empty_disk = \<lparr>rw_name = [104, 100, 97, 49], rw_sector = (\<lambda>_. replicate 512 0)\<rparr>"

definition disk_machine :: kbufs where
  "disk_machine =
     \<lparr>mem = (\<lambda>_. 0), kend = 0x80020000, freeList = 0, npage = 0, total_page = 0, freelist = (\<lambda>_. 0), maxlv = 12,
      minlv = 4, taskTable = [blank_task], initTask = None, vma_table = [], ticks = 0, trampoline = 0,
      stack_base = 0, forkret_addr = 0, pipes = (\<lambda>_. None), rw_devs = [Some empty_disk], bufCache = [],
      bl_first_data_sector = 64, bl_sectors_per_cluster = 8\<rparr>"

lemma bl_init_coherent: "disk_geometry D s \<Longrightarrow> coherent D (bl_init s) \<and> cache_idle (bl_init s)"
  using cluster_facts_cong [of "bl_init s" s]
  by (simp add: coherent_def cache_idle_def coherent_buf_def bl_init_def buf_zero_def idle_buf_def sl_init_def)

lemma concat_replicates: "concat (replicate n (replicate m x)) = replicate (n * m) x"
  by (induction n) (simp_all add: replicate_add)

lemma disk_machine_ok: "disk_geometry 0 disk_machine" "good_cluster (bl_init disk_machine) 2" "good_cluster (bl_init disk_machine) 3"
  "disk_cluster 0 (bl_init disk_machine) c = replicate BSIZE 0"
  by (simp_all add: disk_geometry_def disk_machine_def empty_disk_def good_cluster_def disk_cluster_def bl_init_def BSIZE_def
      concat_replicates map_replicate_const)

text \<open>
  C2: The buffer cache implements an array of clusters: from a coherent cache with no buffer in use, every
  sequence of cluster reads and read-modify-write updates of clusters on the disk completes, every read returns the
  bytes of the last update of its cluster (or what the disk held), at the end the disk holds exactly the
  updated clusters, and the cache is coherent and unused again. Evictions are invisible.
\<close>

theorem buffer_cache_refines:
  assumes "coherent D s" and "cache_idle s" and "list_all (op_ok (good_cluster s) BSIZE) ops"
  shows "\<exists>s'. run_ops (cluster_get me D) (cluster_put me D) ops s = Inr (fst (spec_ops ops (disk_cluster D s)), s') \<and>
    coherent D s' \<and> cache_idle s' \<and>
    (\<forall>c. good_cluster s c \<longrightarrow> disk_cluster D s' c = snd (spec_ops ops (disk_cluster D s)) c)"
  using bc.run_ops_refines [of D s ops me] assms by blast

theorem buffer_cache_refines_witness:
  "\<exists>s' ds. run_ops (cluster_get 0 0) (cluster_put 0 0) [CPut 3 (\<lambda>d. d[7 := 42]), CGet 2, CGet 3] (bl_init disk_machine) =
     Inr ([replicate BSIZE 0, (replicate BSIZE 0)[7 := 42]], s') \<and> disk_cluster 0 s' 3 = (replicate BSIZE 0)[7 := 42]"
  using buffer_cache_refines [of 0 "bl_init disk_machine" "[CPut 3 (\<lambda>d. d[7 := 42]), CGet 2, CGet 3]" 0]
    bl_init_coherent [OF disk_machine_ok(1)] disk_machine_ok
  by auto

text \<open>
  The cache as a state machine: at most one buffer is held; it may be changed and written any number of
  times before it is released.
\<close>

inductive cache_reach :: "nat \<Rightarrow> nat option \<Rightarrow> 'a kbufs_scheme \<Rightarrow> bool" for D where
  reach_init: "disk_geometry D s \<Longrightarrow> cache_reach D None (bl_init s)"
| reach_read: "cache_reach D None s \<Longrightarrow> good_cluster s c \<Longrightarrow> bl_read me D c s = Inr (k, s') \<Longrightarrow> cache_reach D (Some k) s'"
| reach_write: "cache_reach D (Some k) s \<Longrightarrow> length data = BSIZE
    \<Longrightarrow> bl_write k (upd_buf k (\<lambda>x. x\<lparr>b_data := data\<rparr>) s) = Inr s' \<Longrightarrow> cache_reach D (Some k) s'"
| reach_free: "cache_reach D (Some k) s \<Longrightarrow> cache_reach D None (freeBuffer k s)"

lemma cache_reach_inv:
  "cache_reach D h s \<Longrightarrow> coherent D s \<and>
     (case h of None \<Rightarrow> cache_idle s | Some k \<Rightarrow> cache_held k s \<and> b_valid (bufCache s ! k))"
proof (induction rule: cache_reach.induct)
  case (reach_init s)
  then show ?case using bl_init_coherent by simp
next
  case (reach_read s c me k s')
  then have "coherent D s" "cache_idle s" by simp_all
  then obtain bs where "s' = s\<lparr>bufCache := bs\<rparr>" "coherent D s'" "cache_held k s'" "b_valid (bs ! k)"
    by (rule bl_read_coherent [OF _ _ reach_read.hyps(2), of D me]) (use reach_read.hyps(3) in auto)
  then show ?case by simp
next
  case (reach_write k s data s')
  then have c: "coherent D s" "cache_held k s" "b_valid (bufCache s ! k)" by simp_all
  from c(1,2) have l: "k < length (bufCache s)" by (simp add: coherent_def cache_held_def)
  obtain dv where "s' = s\<lparr>bufCache := (bufCache s)[k := (bufCache s ! k)\<lparr>b_data := data\<rparr>], rw_devs := dv\<rparr>" "coherent D s'"
    using bl_write_coherent [OF c reach_write.hyps(2)] reach_write.hyps(3) by (metis Inr_inject)
  then show ?case using c l by (auto simp: cache_held_def nth_list_update)
next
  case (reach_free k s)
  then show ?case using freeBuffer_idle [of D s k] by (metis option.case)
qed

text \<open>
  In every state reached from \<open>bl_init\<close> by reads, writes and releases with at most one buffer in use at a time, each valid buffer agrees
  with the disk, and with no buffer in use a read of any cluster of the disk succeeds without waiting or panicking and yields a
  buffer with the bytes of that cluster. Sectors written past the cache (\<^verbatim>\<open>ZeroCluster\<close>, \<^verbatim>\<open>UpdateInode\<close>) are not among the operations here.
\<close>

lemma buffer_cache_invariant:
  assumes "cache_reach D h s"
  shows "coherent D s \<and> (h = None \<longrightarrow> (\<forall>me c. good_cluster s c \<longrightarrow>
    (\<exists>k s'. bl_read me D c s = Inr (k, s') \<and> b_data (bufCache s' ! k) = disk_cluster D s c \<and> cache_reach D (Some k) s')))"
proof (intro conjI impI allI)
  show c: "coherent D s" using cache_reach_inv [OF assms] by simp
  fix me c
  assume h: "h = None" and g: "good_cluster s c"
  then have i: "cache_idle s" using cache_reach_inv [OF assms] by simp
  show "\<exists>k s'. bl_read me D c s = Inr (k, s') \<and> b_data (bufCache s' ! k) = disk_cluster D s c \<and> cache_reach D (Some k) s'"
  proof (rule bl_read_coherent [OF c i g, of me])
    fix k bs
    assume r: "bl_read me D c s = Inr (k, s\<lparr>bufCache := bs\<rparr>)" "coherent D (s\<lparr>bufCache := bs\<rparr>)"
      "cache_held k (s\<lparr>bufCache := bs\<rparr>)" "b_valid (bs ! k)" "b_blockno (bs ! k) = c"
    have "b_data (bs ! k) = disk_cluster D (s\<lparr>bufCache := bs\<rparr>) c"
      using r(2-5) by (auto simp: coherent_def coherent_buf_def cache_held_def)
    then have "b_data (bs ! k) = disk_cluster D s c" using cluster_facts_cong [of "s\<lparr>bufCache := bs\<rparr>" s] by simp
    then show ?thesis using r(1) reach_read [OF assms [unfolded h] g r(1)] by auto
  qed
qed

text \<open>
  When no buffer holds the wanted block, \<^verbatim>\<open>allocBuffer\<close> takes an unreferenced buffer that was not used later than
  any other unreferenced one, as the header file promises; when every buffer is referenced it panics.
\<close>

lemma allocBuffer_evicts_lru:
  assumes "\<forall>b \<in> set (bufCache s). b_blockno b \<noteq> blk"
  shows "(allocBuffer me dev blk s = Inr (k, s') \<longrightarrow>
      k < length (bufCache s) \<and> b_refcnt (bufCache s ! k) = 0 \<and>
      (\<forall>b \<in> set (bufCache s). b_refcnt b = 0 \<longrightarrow> b_last_use_tick (bufCache s ! k) \<le> b_last_use_tick b)) \<and>
    ((\<forall>b \<in> set (bufCache s). b_refcnt b \<noteq> 0) \<longrightarrow> allocBuffer me dev blk s = Inl (Panic ''alloc buf''))"
proof (cases "buf_scan (bufCache s) blk 0 None")
  case (Hit i)
  then show ?thesis using buf_scan_Hit [OF Hit] assms nth_mem by blast
next
  case (Evict r)
  then show ?thesis using buf_scan_Evict_start [OF Evict]
    by (cases r) (auto simp: allocBuffer_def in_set_conv_nth all_set_conv_all_nth elim!: bindrE)
qed

end
