(* ===== verification/FatLayout.thy ===== *)
theory FatLayout
  imports StringLib Calendar
begin

text \<open>
  The on-disk layout of FAT32 directory entries (\<^verbatim>\<open>src/kernel/include/fs/fat/fat.hpp\<close>) and the pure
  parts of \<^verbatim>\<open>src/kernel/fs/fat32/fat32_file_system.cpp\<close> that build and read them. An entry is its 32
  bytes, as the union \<^verbatim>\<open>MsdosEntry\<close> has it. The main results: what a reader
  takes from the long entries that creation writes, one by one, and the entry that \<^verbatim>\<open>FillShortFile\<close> writes gives
  back the start cluster, the attribute and the time.
\<close>

section \<open>Little-endian fields\<close>

definition splice :: "nat \<Rightarrow> 'a list \<Rightarrow> 'a list \<Rightarrow> 'a list" where
  "splice off bs xs = take off xs @ bs @ drop (off + length bs) xs"

definition bytes16 :: "u16 \<Rightarrow> u8 list" where
  "bytes16 w = [ucast w, ucast (drop_bit 8 w)]"

definition get16 :: "u8 list \<Rightarrow> nat \<Rightarrow> u16" where
  "get16 bs i = ucast (bs ! i) OR push_bit 8 (ucast (bs ! (i + 1)))"

definition bytes32 :: "u32 \<Rightarrow> u8 list" where
  "bytes32 w = [ucast w, ucast (drop_bit 8 w), ucast (drop_bit 16 w), ucast (drop_bit 24 w)]"

definition get32 :: "u8 list \<Rightarrow> nat \<Rightarrow> u32" where
  "get32 bs i = ucast (bs ! i) OR push_bit 8 (ucast (bs ! (i + 1))) OR push_bit 16 (ucast (bs ! (i + 2)))
     OR push_bit 24 (ucast (bs ! (i + 3)))"

fun wchars :: "u8 list \<Rightarrow> u16 list" where
  "wchars (a # b # r) = (ucast a OR push_bit 8 (ucast b)) # wchars r"
| "wchars _ = []"

definition wbytes :: "u16 list \<Rightarrow> u8 list" where
  "wbytes ws = concat (map bytes16 ws)"

section \<open>Constants and entries\<close>

definition kFatAttrDirentory :: u8 where "kFatAttrDirentory = 0x10"
definition kFatAttrLongEntry :: u8 where "kFatAttrLongEntry = 0xF"
definition kEndOfCluster32 :: nat where "kEndOfCluster32 = 0x0fffffff"
definition kLongNameLength :: nat where "kLongNameLength = 13"
definition kShortNameLength :: nat where "kShortNameLength = 12"
definition kShortNameFillStuff :: u8 where "kShortNameFillStuff = 0x20"
definition kMsdosEntrySize :: nat where "kMsdosEntrySize = 32"
definition kDeletedMark :: u8 where "kDeletedMark = 0xe5"
definition kFreeMark :: u8 where "kFreeMark = 0"
definition kSectorSize :: nat where "kSectorSize = 512"

type_synonym MsdosEntry = "u8 list"

definition sfn_name :: "MsdosEntry \<Rightarrow> u8 list" where "sfn_name e = take 11 e"
definition entry_attrib :: "MsdosEntry \<Rightarrow> u8" where "entry_attrib e = e ! 11"
definition sfn_file_size :: "MsdosEntry \<Rightarrow> u32" where "sfn_file_size e = get32 e 28"
definition lfn_sequence_number :: "MsdosEntry \<Rightarrow> u8" where "lfn_sequence_number e = e ! 0"

definition IsLongEntry :: "MsdosEntry \<Rightarrow> bool" where "IsLongEntry e \<longleftrightarrow> entry_attrib e = kFatAttrLongEntry"
definition IsAllocated :: "MsdosEntry \<Rightarrow> bool" where "IsAllocated e \<longleftrightarrow> e ! 0 \<noteq> 0 \<and> e ! 0 \<noteq> 0xe5"
definition IsFree :: "MsdosEntry \<Rightarrow> bool" where "IsFree e \<longleftrightarrow> e ! 0 = kFreeMark"
definition IsDeleted :: "MsdosEntry \<Rightarrow> bool" where "IsDeleted e \<longleftrightarrow> e ! 0 = kDeletedMark"

definition GetStartCluster :: "MsdosEntry \<Rightarrow> nat" where
  "GetStartCluster e = push_bit 16 (unat (get16 e 20)) + unat (get16 e 26)"

definition checksum_step :: "u8 \<Rightarrow> u8 \<Rightarrow> u8" where
  "checksum_step s c = push_bit 7 s + drop_bit 1 s + c"

definition FatChecksum :: "u8 list \<Rightarrow> u8" where
  "FatChecksum name = foldl checksum_step (name ! 0) (take 10 (drop 1 name))"

definition S_IFMT :: nat where "S_IFMT = 0xF000"
definition S_IFDIR :: nat where "S_IFDIR = 0x4000"
definition S_IFCHR :: nat where "S_IFCHR = 0x2000"
definition S_IFBLK :: nat where "S_IFBLK = 0x6000"
definition S_IFREG :: nat where "S_IFREG = 0x8000"
definition S_ISDIR :: "nat \<Rightarrow> bool" where "S_ISDIR mode \<longleftrightarrow> mode AND S_IFMT = S_IFDIR"

definition mkattr :: "nat \<Rightarrow> u8" where
  "mkattr mode = (if S_ISDIR mode then kFatAttrDirentory else 0)"

definition toUpCase :: "u8 \<Rightarrow> u8" where
  "toUpCase c = (if 97 \<le> c \<and> c \<le> 122 then c - 32 else c)"

text \<open>
  \<^verbatim>\<open>FillShortFile\<close> on the previous contents of the entry. The loop that converts to upper case runs over
  the length of the name and may leave the eleven bytes of the name field; past the entry it is a bad
  access.
\<close>

definition FillShortFile :: "MsdosEntry \<Rightarrow> cstr \<Rightarrow> nat \<Rightarrow> nat \<Rightarrow> nat \<Rightarrow> MsdosEntry result" where
  "FillShortFile entry name cluster mode now =
     (let e0 = splice 0 (replicate 11 kShortNameFillStuff) entry;
          (e1, len) = (case strrchr name 46 of
              Some dot \<Rightarrow>
                let x = drop (dot + 1) name; l = (if strlen x > 3 then 3 else strlen x)
                in (splice 8 (strncpy_bytes x l) e0, dot)
            | None \<Rightarrow> (e0, strlen name));
          e2 = (if len > 8 then splice 6 [126, 49] (splice 0 (strncpy_bytes name 6) e1)
                else splice 0 (strncpy_bytes name len) e1);
          e3 = map toUpCase (take len e2) @ drop len e2;
          e4 = e3[11 := mkattr mode];
          (date, time) = UnixTime2Fat now;
          e5 = splice 16 (bytes16 date) (splice 14 (bytes16 time) e4);
          e6 = splice 18 (bytes16 date) (splice 14 (bytes16 time) e5);
          e7 = splice 24 (bytes16 date) (splice 22 (bytes16 time) e6);
          e8 = splice 26 (bytes16 (of_nat (cluster AND 0xffff))) e7;
          e9 = splice 20 (bytes16 (of_nat (drop_bit 16 cluster))) e8
      in if len > kMsdosEntrySize then Inl (BadAccess ''entry->name'')
         else Inr (splice 28 (bytes32 0) e9))"

text \<open>The long entry that \<^verbatim>\<open>Create\<close> fills for sequence number \<open>seq\<close> of \<open>lfn_num\<close>.\<close>

definition fill_long_entry :: "nat \<Rightarrow> nat \<Rightarrow> cstr \<Rightarrow> u8 \<Rightarrow> MsdosEntry" where
  "fill_long_entry seq lfn_num name checksum =
     [(if seq = lfn_num then of_nat seq OR 0x40 else of_nat seq)]
     @ wbytes (CopyCharToWchar name 5) @ [kFatAttrLongEntry, 0xff, checksum]
     @ wbytes (CopyCharToWchar (drop 5 name) 6) @ [0xff, 0xff]
     @ wbytes (CopyCharToWchar (drop 11 name) 2)"

text \<open>\<^verbatim>\<open>copysfn\<close>: the length returned and the new contents of the destination.\<close>

definition copysfn :: "u8 list \<Rightarrow> u8 list \<Rightarrow> nat \<times> u8 list" where
  "copysfn sfn dst =
     (let base = takeWhile (\<lambda>c. c \<noteq> 0x20) (take 8 sfn);
          ext = takeWhile (\<lambda>c. c \<noteq> 0x20) (take 3 (drop 8 sfn));
          d1 = splice 0 base dst
      in if ext = [] then (length base, d1)
         else (length base + 1 + length ext, splice (length base) ((46 # ext) @ [0]) d1))"

text \<open>
  \<^verbatim>\<open>copylfn\<close> writes the thirteen characters of a long entry at the place its sequence number gives.
\<close>

definition lfn_chars :: "MsdosEntry \<Rightarrow> u8 list" where
  "lfn_chars e = CopyWcharToChar (wchars (take 10 (drop 1 e))) 5
     @ CopyWcharToChar (wchars (take 12 (drop 14 e))) 6 @ CopyWcharToChar (wchars (take 4 (drop 28 e))) 2"

definition copylfn :: "MsdosEntry \<Rightarrow> u8 list \<Rightarrow> (nat \<times> u8 list) result" where
  "copylfn e dst =
     (let sno = unat (lfn_sequence_number e AND NOT 0x40);
          offset = kLongNameLength * (sno - 1)
      in if sno = 0 \<or> offset + kLongNameLength > length dst then Inl (BadAccess ''tmp_name'')
         else Inr (kLongNameLength, splice offset (lfn_chars e) dst))"

section \<open>Fields\<close>

lemma splice_length [simp]: "off + length bs \<le> length xs \<Longrightarrow> length (splice off bs xs) = length xs"
  by (simp add: splice_def)

lemma splice_nth:
  "off + length bs \<le> length xs \<Longrightarrow>
     splice off bs xs ! i = (if off \<le> i \<and> i < off + length bs then bs ! (i - off) else xs ! i)"
  by (auto simp: splice_def nth_append)

lemma wchar_bytes: "ucast (ucast w :: u8) OR push_bit 8 (ucast (ucast (drop_bit 8 w) :: u8)) = (w :: u16)"
  by (auto simp: bit_eq_iff bit_simps)

lemma get16_bytes16:
  assumes "i + 1 < length e" "e ! i = bytes16 w ! 0" "e ! (i + 1) = bytes16 w ! 1"
  shows "get16 e i = w"
  using assms by (simp add: get16_def bytes16_def wchar_bytes)

lemma wchars_wbytes: "wchars (wbytes ws) = ws"
  by (induction ws) (simp_all add: wbytes_def bytes16_def wchar_bytes)

lemma length_wbytes [simp]: "length (wbytes ws) = 2 * length ws"
  by (induction ws) (simp_all add: wbytes_def bytes16_def)

lemma length_CopyCharToWchar [simp]: "length (CopyCharToWchar src n) = n"
  by (induction n arbitrary: src) simp_all

lemma ucast_char [simp]: "(ucast (ucast (c :: u8) :: u16) :: u8) = c"
  by (auto simp: bit_eq_iff bit_simps)

lemma CopyWcharToChar_CopyCharToWchar: "n \<le> length src \<Longrightarrow> CopyWcharToChar (CopyCharToWchar src n) n = take n src"
proof (induction n arbitrary: src)
  case (Suc n)
  then show ?case by (cases src) simp_all
qed simp

lemma seq_mask:
  assumes "n < 64"
  shows "unat ((of_nat n :: u8) AND NOT 0x40) = n" "unat (((of_nat n :: u8) OR 0x40) AND NOT 0x40) = n"
proof -
  have b6: "\<not> bit n 6" using assms by (simp add: bit_iff_odd)
  have six: "bit (64 :: int) k \<longleftrightarrow> k = 6" for k
  proof -
    have e: "(64 :: int) = 2 ^ 6" by simp
    show ?thesis unfolding e bit_exp_iff by auto
  qed
  have "(of_nat n :: u8) AND NOT 0x40 = of_nat n" "((of_nat n :: u8) OR 0x40) AND NOT 0x40 = of_nat n"
    using b6 by - (rule bit_eqI, auto simp: bit_simps six)+
  then show "unat ((of_nat n :: u8) AND NOT 0x40) = n" "unat (((of_nat n :: u8) OR 0x40) AND NOT 0x40) = n"
    using assms by simp_all
qed

section \<open>Long names\<close>

lemma lfn_chars_fill:
  assumes "13 \<le> length name"
  shows "lfn_chars (fill_long_entry seq num name ck) = take 13 name"
proof -
  define e where "e = fill_long_entry seq num name ck"
  have a: "take 10 (drop 1 e) = wbytes (CopyCharToWchar name 5)"
    "take 12 (drop 14 e) = wbytes (CopyCharToWchar (drop 5 name) 6)"
    "take 4 (drop 28 e) = wbytes (CopyCharToWchar (drop 11 name) 2)"
    by (simp_all add: e_def fill_long_entry_def del: CopyCharToWchar.simps)
  have "take 13 name = take 5 name @ take 6 (drop 5 name) @ take 2 (drop 11 name)"
    by (simp add: take_add [of 5 8 name, simplified] take_add [of 6 2 "drop 5 name", simplified])
  then show ?thesis using assms
    by (simp add: lfn_chars_def e_def [symmetric] a [unfolded One_nat_def] wchars_wbytes CopyWcharToChar_CopyCharToWchar
        del: CopyCharToWchar.simps CopyWcharToChar.simps)
qed

lemma lfn_sequence_fill:
  "seq < 64 \<Longrightarrow> unat (lfn_sequence_number (fill_long_entry seq num name ck) AND NOT 0x40) = seq"
  using seq_mask [of seq] by (cases "seq = num") (simp_all add: lfn_sequence_number_def fill_long_entry_def)

lemma splice_parts: "off + length bs \<le> length xs \<Longrightarrow> take off (splice off bs xs) = take off xs"
  "off + length bs \<le> length xs \<Longrightarrow> drop off (splice off bs xs) = bs @ drop (off + length bs) xs"
  by (simp_all add: splice_def)

lemma collect_step:
  assumes "i < 63" "13 * Suc i \<le> length name" "13 * Suc i \<le> length dst"
  shows "copylfn (fill_long_entry (Suc i) num (drop (13 * i) name) ck) dst =
     Inr (13, splice (13 * i) (take 13 (drop (13 * i) name)) dst)"
  using assms lfn_sequence_fill [of "Suc i" num "drop (13 * i) name" ck] lfn_chars_fill [of "drop (13 * i) name" "Suc i" num ck]
  by (simp add: copylfn_def kLongNameLength_def Let_def)

text \<open>What the scans of a directory ask of an entry: its length, its kind, and the mark on the first of a name.\<close>

lemma fill_long_entry_kind:
  "length (fill_long_entry seq num name ck) = kMsdosEntrySize" "entry_attrib (fill_long_entry seq num name ck) = kFatAttrLongEntry"
  by (simp_all add: fill_long_entry_def entry_attrib_def kMsdosEntrySize_def nth_append del: CopyCharToWchar.simps)

lemma fill_long_entry_first:
  assumes "num < 64"
  shows "lfn_sequence_number (fill_long_entry num num name ck) AND 0xc0 = 0x40" "fill_long_entry num num name ck ! 0 \<noteq> 0"
proof -
  have b: "\<not> bit num 6" "\<not> bit num 7" using assms by (simp_all add: bit_iff_odd)
  have p: "bit (64 :: int) k \<longleftrightarrow> k = 6" "bit (128 :: int) k \<longleftrightarrow> k = 7" for k
    using bit_exp_iff [where 'a = int, of 6 k] bit_exp_iff [where 'a = int, of 7 k] by auto
  have q: "bit (192 :: int) k \<longleftrightarrow> k = 6 \<or> k = 7" for k using bit_or_iff [of "64 :: int" 128 k] p by simp
  have "((of_nat num :: u8) OR 0x40) AND 0xc0 = 0x40"
    using b by (intro bit_eqI) (auto simp: bit_simps p q)
  moreover have "bit ((of_nat num :: u8) OR 0x40) 6" by (simp add: bit_simps p)
  then have "(of_nat num :: u8) OR 0x40 \<noteq> 0" by auto
  ultimately show "lfn_sequence_number (fill_long_entry num num name ck) AND 0xc0 = 0x40" "fill_long_entry num num name ck ! 0 \<noteq> 0"
    by (simp_all add: lfn_sequence_number_def fill_long_entry_def del: CopyCharToWchar.simps)
qed

section \<open>Short entries\<close>

lemma length_bytes [simp]: "length (bytes16 w) = 2" "length (bytes32 v) = 4"
  by (simp_all add: bytes16_def bytes32_def)

lemma length_strncpy_bytes [simp]: "length (strncpy_bytes x n) = n"
  by (induction n arbitrary: x) simp_all

lemma strrchr_from_bound:
  "strrchr_from ans i s c = Some k \<Longrightarrow> (\<And>j. ans = Some j \<Longrightarrow> j < i) \<Longrightarrow> k < i + strlen s \<or> ans = Some k"
proof (induction ans i s c rule: strrchr_from.induct)
  case (2 ans i x s c)
  show ?case
  proof (cases "x = 0")
    case False
    have "k < Suc i + strlen s \<or> (if x = c then Some i else ans) = Some k"
      using 2(2,3) False by (intro "2.IH") (auto simp: less_SucI split: if_splits)
    then show ?thesis using False by (auto split: if_splits)
  qed (use 2 in simp)
qed simp

lemma strrchr_bound: "strrchr s c = Some k \<Longrightarrow> k < strlen s"
  using strrchr_from_bound [of None 0 s c k] by (simp add: strrchr_def)

text \<open>The fields written after the name.\<close>

lemma short_fields:
  assumes "length x = 32"
    and "e = splice 28 (bytes32 0) (splice 20 (bytes16 ch) (splice 26 (bytes16 cl) (splice 24 (bytes16 d)
      (splice 22 (bytes16 t) (splice 18 (bytes16 d) (splice 14 (bytes16 t) (splice 16 (bytes16 d) (splice 14 (bytes16 t) x))))))))"
  shows "length e = 32" "get16 e 20 = ch" "get16 e 26 = cl" "get16 e 24 = d" "get16 e 22 = t" "e ! 11 = x ! 11" "get32 e 28 = 0"
proof -
  show l: "length e = 32" using assms by simp
  show "e ! 11 = x ! 11" using assms by (simp add: splice_nth)
  show "get16 e 20 = ch" "get16 e 26 = cl" "get16 e 24 = d" "get16 e 22 = t"
    using assms l by (intro get16_bytes16; simp add: splice_nth)+
  show "get32 e 28 = 0" using assms by (simp add: get32_def splice_nth bytes32_def)
qed

lemma cluster_halves: "push_bit 16 (unat (of_nat (drop_bit 16 c) :: u16)) + unat (of_nat (c AND 0xffff) :: u16) = c mod 2 ^ 32"
proof -
  have "(c :: nat) AND 0xffff = c mod 65536" using take_bit_eq_mask [of 16 c] by (simp add: mask_eq_exp_minus_1 take_bit_eq_mod)
  then have "push_bit 16 (unat (of_nat (drop_bit 16 c) :: u16)) + unat (of_nat (c AND 0xffff) :: u16) = 65536 * (c div 65536 mod 65536) + c mod 65536"
    by (simp add: push_bit_eq_mult drop_bit_eq_div unat_of_nat take_bit_eq_mod)
  also have "\<dots> = c mod (65536 * 65536)" by (simp only: mod_mult2_eq)
  finally show ?thesis by simp
qed

text \<open>
  The short entry that \<^verbatim>\<open>FillShortFile\<close> builds from any 32 bytes decodes to what was put in: the start
  cluster (as a 32-bit number), the directory attribute, the modification date and time, and file size zero;
  it is not taken for a long entry. It fails only on a name longer than the entry.
\<close>

lemma FillShortFile_decodes:
  assumes "length entry = kMsdosEntrySize" and "strlen name \<le> kMsdosEntrySize"
  shows "\<exists>e. FillShortFile entry name cluster mode now = Inr e \<and> length e = kMsdosEntrySize \<and>
    GetStartCluster e = cluster mod 2 ^ 32 \<and> entry_attrib e = mkattr mode \<and> sfn_file_size e = 0 \<and>
    (get16 e 24, get16 e 22) = UnixTime2Fat now \<and> \<not> IsLongEntry e"
proof -
  define e0 where "e0 = splice 0 (replicate 11 kShortNameFillStuff) entry"
  have l0: "length e0 = 32" using assms(1) by (simp add: e0_def kMsdosEntrySize_def)
  obtain date time where u: "UnixTime2Fat now = (date, time)" by (cases "UnixTime2Fat now") auto
  define p where "p = (case strrchr name 46 of
              Some dot \<Rightarrow>
                (splice 8 (strncpy_bytes (drop (dot + 1) name)
                   (if 3 < strlen (drop (dot + 1) name) then 3 else strlen (drop (dot + 1) name))) e0, dot)
            | None \<Rightarrow> (e0, strlen name))"
  obtain e1 len where p: "p = (e1, len)" by (cases p) auto
  have "length e1 = 32 \<and> len \<le> strlen name"
    using p l0 strrchr_bound [of name 46] by (auto simp: p_def Let_def split: option.splits)
  then have l1: "length e1 = 32" "len \<le> 32" using assms(2) by (auto simp: kMsdosEntrySize_def)
  define e2 where "e2 = (if len > 8 then splice 6 [126, 49] (splice 0 (strncpy_bytes name 6) e1)
                else splice 0 (strncpy_bytes name len) e1)"
  have l2: "length e2 = 32" using l1 by (simp add: e2_def)
  define e4 where "e4 = (map toUpCase (take len e2) @ drop len e2)[11 := mkattr mode]"
  have l4: "length e4 = 32" "e4 ! 11 = mkattr mode" using l2 l1 by (simp_all add: e4_def)
  define e where "e = splice 28 (bytes32 0) (splice 20 (bytes16 (of_nat (drop_bit 16 cluster)))
      (splice 26 (bytes16 (of_nat (cluster AND 0xffff))) (splice 24 (bytes16 date)
      (splice 22 (bytes16 time) (splice 18 (bytes16 date) (splice 14 (bytes16 time)
      (splice 16 (bytes16 date) (splice 14 (bytes16 time) e4))))))))"
  have r: "FillShortFile entry name cluster mode now = Inr e"
    using l1(2) unfolding FillShortFile_def Let_def e0_def [symmetric] p_def [symmetric] p prod.case u
    by (simp add: kMsdosEntrySize_def e_def e4_def e2_def)
  have "mkattr mode \<noteq> kFatAttrLongEntry" by (simp add: mkattr_def kFatAttrLongEntry_def kFatAttrDirentory_def)
  with r short_fields [OF l4(1) e_def] cluster_halves [of cluster] l4(2) u show ?thesis
    by (simp add: GetStartCluster_def entry_attrib_def sfn_file_size_def IsLongEntry_def kMsdosEntrySize_def)
qed

end
