(* ===== verification/Fat32.thy ===== *)
theory Fat32
  imports BufferCache FatLayout HashMap
begin

text \<open>
  The FAT32 file system of \<^verbatim>\<open>src/kernel/fs/fat32/fat32_file_system.cpp\<close> on top of the buffer cache: the
  boot parameters, the cached allocation table, cluster chains, reading and writing of files,
  directories and in-memory inodes (\<^verbatim>\<open>src/kernel/fs/vfs_file.cpp\<close>).

  Numbers that the code keeps in 16, 32 or 64 bits are natural numbers reduced where the code stores
  them. Inodes live in a store and are named by their index; a deleted inode is not \<open>i_live\<close>. The file
  system object is the index \<open>f\<close> into \<open>fats\<close>; the running task is \<open>me\<close>. Temporary buffers the code takes
  from the heap and gives back in the same function are local values; \<open>stack_junk\<close> is what an
  uninitialised local holds.
\<close>

section \<open>State\<close>

datatype fsref = NoFs | FatFs nat | DevFs nat

record MsdosInodeInfo =
  im_start :: nat
  im_logi :: nat
  im_clus :: nat
  im_attrs :: nat
  im_pos :: nat

record inode =
  i_live :: bool
  i_dev :: nat
  i_inum :: nat
  i_test_name :: "u8 list"
  i_pad :: u8
  i_ref :: int
  i_lock :: sleeplock
  i_mode :: nat
  i_fs :: fsref
  i_parent :: "nat option"
  i_nlink :: int
  i_sz :: nat
  i_is_mp_target :: bool
  i_atime :: nat
  i_mtime :: nat
  i_ctime :: nat
  i_msdos :: MsdosInodeInfo

record FatBpb =
  bytes_per_sector :: nat
  sectors_per_cluster :: nat
  reserved_sectors :: nat
  number_of_fat :: nat
  total_sectors_long :: nat
  sectors_per_fat_v32 :: nat
  root_directory_cluster_start :: nat
  fs_information_sector :: nat

record Fat32Info =
  info_first_data_sector :: nat
  info_cluster_count :: nat
  info_bytes_per_cluster :: nat
  info_bytes_per_sector :: nat
  info_sectors_per_fat :: nat
  info_fat_num :: nat
  info_sectors_per_cluster :: nat
  info_reserve_sectors :: nat
  info_root_cluster :: nat

record fat32 =
  fs_dev :: nat
  fat_bpb :: FatBpb
  fs_info :: Fat32Info
  root_inode :: nat
  inode_cache_map :: "nat hashmap"

record kfat = kbufs +
  inodes :: "inode list"
  fats :: "fat32 list"
  fat_cache :: "nat \<Rightarrow> u8"
  clock_now :: nat
  clock_nsec :: nat
  stack_junk :: "u8 list"

definition zero_inode :: inode where
  "zero_inode = \<lparr>i_live = True, i_dev = 0, i_inum = 0, i_test_name = replicate 11 0, i_pad = 0, i_ref = 0,
     i_lock = sl_init, i_mode = 0, i_fs = NoFs, i_parent = None, i_nlink = 0, i_sz = 0,
     i_is_mp_target = False, i_atime = 0, i_mtime = 0, i_ctime = 0,
     i_msdos = \<lparr>im_start = 0, im_logi = 0, im_clus = 0, im_attrs = 0, im_pos = 0\<rparr>\<rparr>"

definition the_inode :: "nat \<Rightarrow> 'a kfat_scheme \<Rightarrow> inode result" where
  "the_inode ip s =
     (if ip < length (inodes s) \<and> i_live (inodes s ! ip) then Inr (inodes s ! ip) else Inl (BadAccess ''inode''))"

definition upd_inode :: "nat \<Rightarrow> (inode \<Rightarrow> inode) \<Rightarrow> 'a kfat_scheme \<Rightarrow> 'a kfat_scheme" where
  "upd_inode ip f s = s\<lparr>inodes := (inodes s)[ip := f (inodes s ! ip)]\<rparr>"

definition the_info :: "nat \<Rightarrow> 'a kfat_scheme \<Rightarrow> Fat32Info" where
  "the_info f s = fs_info (fats s ! f)"

section \<open>Sectors and the allocation table\<close>

definition ReadSector :: "nat \<Rightarrow> nat \<Rightarrow> 'a kfat_scheme \<Rightarrow> (int \<times> u8 list) result" where
  "ReadSector f sector s =
     (let b = fat_bpb (fats s ! f) in
      RwDevRead (fs_dev (fats s ! f)) (sector * bytes_per_sector b mod 2 ^ 32) (bytes_per_sector b) s)"

definition WriteSector :: "nat \<Rightarrow> nat \<Rightarrow> u8 list \<Rightarrow> 'a kfat_scheme \<Rightarrow> (int \<times> 'a kfat_scheme) result" where
  "WriteSector f sector data s = RwDevWrite (fs_dev (fats s ! f)) (sector * kSectorSize mod 2 ^ 32) data s"

definition FirstSectorOfCluster :: "nat \<Rightarrow> nat \<Rightarrow> 'a kfat_scheme \<Rightarrow> nat" where
  "FirstSectorOfCluster f cluster s =
     (info_first_data_sector (the_info f s)
      + (cluster + 2 ^ 32 - 2) mod 2 ^ 32 * info_sectors_per_cluster (the_info f s)) mod 2 ^ 32"

definition FatSectorOfCluster :: "nat \<Rightarrow> nat \<Rightarrow> 'a kfat_scheme \<Rightarrow> nat" where
  "FatSectorOfCluster f cluster s =
     (info_reserve_sectors (the_info f s) + push_bit 2 cluster mod 2 ^ 32 div info_bytes_per_sector (the_info f s)) mod 2 ^ 32"

definition FatOffsetOfCluster :: "nat \<Rightarrow> nat \<Rightarrow> 'a kfat_scheme \<Rightarrow> nat" where
  "FatOffsetOfCluster f cluster s = push_bit 2 cluster mod 2 ^ 32 mod info_bytes_per_sector (the_info f s)"

definition FAT_CACHE_SIZE :: nat where "FAT_CACHE_SIZE = 512 * 1024"

text \<open>The place of a table entry in \<^verbatim>\<open>fat_cache_\<close>, shared by the two accessors.\<close>

definition fat_slot :: "string \<Rightarrow> nat \<Rightarrow> nat \<Rightarrow> 'a kfat_scheme \<Rightarrow> nat result" where
  "fat_slot msg f cluster s =
     (let fat_sector = FatSectorOfCluster f cluster s; fat_offset = FatOffsetOfCluster f cluster s;
          at = (fat_sector - info_reserve_sectors (the_info f s)) * 512 + fat_offset
      in if info_bytes_per_sector (the_info f s) = 0 then Inl (BadAccess ''division by zero'')
         else if fat_sector < 1024
         then (if at + 4 \<le> FAT_CACHE_SIZE then Inr at else Inl (BadAccess ''fat_cache''))
         else Inl (Panic msg))"

definition SetFatEntey :: "nat \<Rightarrow> nat \<Rightarrow> nat \<Rightarrow> 'a kfat_scheme \<Rightarrow> (int \<times> 'a kfat_scheme) result" where
  "SetFatEntey f cluster val s =
     (if cluster > info_cluster_count (the_info f s) then Inr (- 1, s)
      else bindr (fat_slot ''set fat entry'' f cluster s) (\<lambda>at.
        Inr (0, s\<lparr>fat_cache := (\<lambda>k. if at \<le> k \<and> k < at + 4 then bytes32 (of_nat val) ! (k - at) else fat_cache s k)\<rparr>)))"

definition GetFatEntry :: "nat \<Rightarrow> nat \<Rightarrow> 'a kfat_scheme \<Rightarrow> nat result" where
  "GetFatEntry f cluster s =
     (if cluster > info_cluster_count (the_info f s) then Inr (2 ^ 32 - 1)
      else bindr (fat_slot ''get fat entry'' f cluster s) (\<lambda>at.
        Inr (unat (get32 (map (\<lambda>k. fat_cache s (at + k)) [0..<4]) 0))))"

primrec ZeroCluster_loop :: "nat \<Rightarrow> nat \<Rightarrow> nat \<Rightarrow> nat \<Rightarrow> 'a kfat_scheme \<Rightarrow> 'a kfat_scheme result" where
  "ZeroCluster_loop f cluster i 0 s = Inr s"
| "ZeroCluster_loop f cluster i (Suc n) s =
     bindr (WriteSector f ((FirstSectorOfCluster f cluster s + i) mod 2 ^ 32) (replicate kSectorSize 0) s)
       (\<lambda>(r, s1). ZeroCluster_loop f cluster (Suc i) n s1)"

definition ZeroCluster :: "nat \<Rightarrow> nat \<Rightarrow> 'a kfat_scheme \<Rightarrow> 'a kfat_scheme result" where
  "ZeroCluster f cluster s = ZeroCluster_loop f cluster 0 (info_sectors_per_cluster (the_info f s)) s"

text \<open>
  \<^verbatim>\<open>AllocCluster\<close> has no exit but a free entry. Its counter is a C integer: when it would pass \<open>2 ^ 31 - 1\<close> it overflows, which
  C++ does not define, and the model stops there with \<open>Stuck\<close>.
\<close>

function AllocCluster_loop :: "nat \<Rightarrow> nat \<Rightarrow> 'a kfat_scheme \<Rightarrow> (nat \<times> 'a kfat_scheme) result" where
  "AllocCluster_loop f cluster s =
     (if cluster \<ge> 2 ^ 31 then Inl (Stuck ''AllocCluster'')
      else bindr (GetFatEntry f cluster s) (\<lambda>v.
        if v = 0 then
          bindr (SetFatEntey f cluster kEndOfCluster32 s) (\<lambda>(r, s1).
            bindr (ZeroCluster f cluster s1) (\<lambda>s2. Inr (cluster, s2)))
        else AllocCluster_loop f (Suc cluster) s))"
  by pat_completeness auto
termination by (relation "measure (\<lambda>(f, c, s). 2 ^ 31 - c)") auto

declare AllocCluster_loop.simps [simp del]

definition AllocCluster :: "nat \<Rightarrow> 'a kfat_scheme \<Rightarrow> (nat \<times> 'a kfat_scheme) result" where
  "AllocCluster f s = AllocCluster_loop f 2 s"

text \<open>
  \<^verbatim>\<open>FreeClusterChain\<close>: follows the chain and clears it. The chain may lead outside the table, where the
  value is \<^verbatim>\<open>-1\<close> and stays so; the fuel is one more than the number of clusters, and a chain that does
  not end within it never ends, since every cluster it passed is cleared.
\<close>

primrec FreeClusterChain_loop :: "nat \<Rightarrow> nat \<Rightarrow> nat \<Rightarrow> 'a kfat_scheme \<Rightarrow> 'a kfat_scheme result" where
  "FreeClusterChain_loop 0 f cluster s = Inl (Stuck ''FreeClusterChain'')"
| "FreeClusterChain_loop (Suc n) f cluster s =
     (if cluster \<noteq> kEndOfCluster32 then
        bindr (GetFatEntry f cluster s) (\<lambda>next_cluster.
          bindr (SetFatEntey f cluster 0 s) (\<lambda>(r, s1). FreeClusterChain_loop n f next_cluster s1))
      else Inr s)"

definition FreeClusterChain :: "nat \<Rightarrow> nat \<Rightarrow> 'a kfat_scheme \<Rightarrow> 'a kfat_scheme result" where
  "FreeClusterChain f cluster s =
     FreeClusterChain_loop (info_cluster_count (the_info f s) + 3) f cluster s"

section \<open>Files\<close>

function bmap_loop :: "nat \<Rightarrow> nat \<Rightarrow> nat \<Rightarrow> nat \<Rightarrow> 'a kfat_scheme \<Rightarrow> (nat \<times> 'a kfat_scheme) result" where
  "bmap_loop f logi i cur s =
     (if i < logi \<and> cur \<noteq> kEndOfCluster32 then
        bindr (GetFatEntry f cur s) (\<lambda>nxt.
          if nxt = kEndOfCluster32 then
            bindr (AllocCluster f s) (\<lambda>(c, s1).
              bindr (SetFatEntey f cur c s1) (\<lambda>(r, s2). bmap_loop f logi (Suc i) c s2))
          else bmap_loop f logi (Suc i) nxt s)
      else Inr (cur, s))"
  by pat_completeness auto
termination by (relation "measure (\<lambda>(f, logi, i, cur, s). logi - i)") auto

declare bmap_loop.simps [simp del]

definition bmap :: "nat \<Rightarrow> nat \<Rightarrow> nat \<Rightarrow> 'a kfat_scheme \<Rightarrow> (nat \<times> 'a kfat_scheme) result" where
  "bmap f ip logi_cluster s =
     bindr (the_inode ip s) (\<lambda>nd.
       let m = i_msdos nd;
           cur0 = (if ip = root_inode (fats s ! f) then info_root_cluster (the_info f s) else im_start m);
           (cur, i) = (if logi_cluster \<ge> im_logi m then (im_clus m, im_logi m) else (cur0, 0))
       in bindr (bmap_loop f logi_cluster i cur s) (\<lambda>(cur, s1).
            if cur = kEndOfCluster32 then Inr (2 ^ 32 - 1, s1)
            else Inr (cur, upd_inode ip (\<lambda>n. n\<lparr>i_msdos := (i_msdos n)\<lparr>im_logi := logi_cluster, im_clus := cur\<rparr>\<rparr>) s1)))"

text \<open>
  Where \<^verbatim>\<open>ReadInode\<close> puts bytes and where \<^verbatim>\<open>WriteInode\<close> takes them from: user memory, physical memory, or
  a kernel object of its caller, whose bytes are the result or the argument.
\<close>

datatype sink = ToUser u64 | ToKernel u64 | ToObject
datatype source = FromUser u64 | FromKernel u64 | FromObject "u8 list"

definition sink_put :: "nat \<Rightarrow> sink \<Rightarrow> nat \<Rightarrow> u8 list \<Rightarrow> 'a ktasks_scheme \<Rightarrow> (int \<times> 'a ktasks_scheme) result" where
  "sink_put me snk tot bs s =
     (case snk of
        ToUser va \<Rightarrow> either_copyout (t_pagetable (the_task s me)) True (va + of_nat tot) bs s
      | ToKernel pa \<Rightarrow> either_copyout (t_pagetable (the_task s me)) False (pa + of_nat tot) bs s
      | ToObject \<Rightarrow> Inr (0, s))"

definition source_get :: "nat \<Rightarrow> source \<Rightarrow> nat \<Rightarrow> nat \<Rightarrow> 'a ktasks_scheme \<Rightarrow> (int \<times> u8 list) result" where
  "source_get me src tot n s =
     (case src of
        FromUser va \<Rightarrow> either_copyin (t_pagetable (the_task s me)) True (va + of_nat tot) (of_nat n) s
      | FromKernel pa \<Rightarrow> either_copyin (t_pagetable (the_task s me)) False (pa + of_nat tot) (of_nat n) s
      | FromObject bs \<Rightarrow>
          if tot + n \<le> length bs then Inr (0, take n (drop tot bs)) else Inl (BadAccess ''source object''))"

lemma chunk_decreases:
  fixes bpc :: nat
  assumes "tot < n" and "0 < bpc"
  shows "n - (tot + min (n - tot) (bpc - off mod bpc)) < n - tot"
proof -
  have "off mod bpc < bpc" using assms(2) by simp
  then have "0 < min (n - tot) (bpc - off mod bpc)" using assms(1) by simp
  then show ?thesis using assms(1) by linarith
qed

function ReadInode_loop ::
  "nat \<Rightarrow> nat \<Rightarrow> sink \<Rightarrow> nat \<Rightarrow> nat \<Rightarrow> nat \<Rightarrow> nat \<Rightarrow> u8 list \<Rightarrow> 'a kfat_scheme \<Rightarrow> (int \<times> u8 list \<times> 'a kfat_scheme) result" where
  "ReadInode_loop f me snk ip offset n tot acc s =
     (if tot < n then
        let bpc = info_bytes_per_cluster (the_info f s) in
        if bpc = 0 then Inl (BadAccess ''division by zero'')
        else bindr (bmap f ip (offset div bpc) s) (\<lambda>(cluster, s1).
          bindr (bl_read me (fs_dev (fats s1 ! f)) cluster s1) (\<lambda>(b, s2).
            let md = offset mod bpc; nread = min (n - tot) (bpc - md) in
            if md + nread > BSIZE then Inl (BadAccess ''buf data'')
            else let bs = take nread (drop md (b_data (bufCache s2 ! b))) in
              bindr (sink_put me snk tot bs s2) (\<lambda>(r, s3).
                if r < 0 then Inr (- 1, acc, s3)
                else ReadInode_loop f me snk ip (offset + nread) n (tot + nread) (acc @ bs) (freeBuffer b s3))))
      else Inr (int tot, acc, s))"
  by pat_completeness auto
termination
  by (relation "measure (\<lambda>(f, me, snk, ip, off, n, tot, acc, s). n - tot)") (auto intro: chunk_decreases)

declare ReadInode_loop.simps [simp del]

definition ReadInode ::
  "nat \<Rightarrow> nat \<Rightarrow> sink \<Rightarrow> nat \<Rightarrow> nat \<Rightarrow> nat \<Rightarrow> 'a kfat_scheme \<Rightarrow> (int \<times> u8 list \<times> 'a kfat_scheme) result" where
  "ReadInode f me snk ip offset n s =
     bindr (the_inode ip s) (\<lambda>nd.
       if offset > i_sz nd \<or> (offset + n) mod 2 ^ 64 < offset then Inr (0, [], s)
       else let n' = (if offset + n > i_sz nd then i_sz nd - offset else n)
            in ReadInode_loop f me snk ip offset n' 0 [] s)"

text \<open>
  \<^verbatim>\<open>UpdateInode\<close>. Twelve bytes are moved over the name, so the attribute byte receives the padding byte
  that follows \<^verbatim>\<open>test_name\<close> in the inode.
\<close>

definition UpdateInode :: "nat \<Rightarrow> nat \<Rightarrow> 'a kfat_scheme \<Rightarrow> (int \<times> 'a kfat_scheme) result" where
  "UpdateInode f ip s =
     bindr (the_inode ip s) (\<lambda>nd.
       let info = the_info f s; pos = im_pos (i_msdos nd) in
       bindr (FillShortFile (take 32 (stack_junk s)) [112, 97, 100] (im_start (i_msdos nd)) (i_mode nd) (clock_now s)) (\<lambda>e0.
         let e1 = splice 28 (bytes32 (of_nat (i_sz nd))) e0;
             e2 = splice 0 (take kShortNameLength (i_test_name nd @ [i_pad nd])) e1
         in if info_bytes_per_sector info = 0 then Inl (BadAccess ''division by zero'')
            else let sector = pos div info_bytes_per_sector info; off = pos mod info_bytes_per_sector info in
              bindr (ReadSector f sector s) (\<lambda>(r, data).
                if r < 0 \<or> off + 32 > length data then Inl (BadAccess ''sector data'')
                else bindr (WriteSector f sector (splice off e2 data) s) (\<lambda>(r, s1). Inr (0, s1)))))"

function WriteInode_loop ::
  "nat \<Rightarrow> nat \<Rightarrow> source \<Rightarrow> nat \<Rightarrow> nat \<Rightarrow> nat \<Rightarrow> nat \<Rightarrow> 'a kfat_scheme \<Rightarrow> (int \<times> nat \<times> 'a kfat_scheme) result" where
  "WriteInode_loop f me src ip off n tot s =
     (if tot < n then
        let bpc = info_bytes_per_cluster (the_info f s) in
        if bpc = 0 then Inl (BadAccess ''division by zero'')
        else bindr (bmap f ip (off div bpc) s) (\<lambda>(cluster, s1).
          bindr (bl_read me (fs_dev (fats s1 ! f)) cluster s1) (\<lambda>(b, s2).
            let md = off mod bpc; nwrite = min (n - tot) (bpc - md) in
            if md + nwrite > BSIZE then Inl (BadAccess ''buf data'')
            else bindr (source_get me src tot nwrite s2) (\<lambda>(r, bs).
              let s3 = upd_buf b (\<lambda>x. x\<lparr>b_data := splice md bs (b_data x)\<rparr>) s2 in
              if r < 0 then Inr (- 1, off, s3)
              else bindr (bl_write b s3) (\<lambda>s4.
                WriteInode_loop f me src ip (off + nwrite) n (tot + nwrite) (freeBuffer b s4)))))
      else Inr (int tot, off, s))"
  by pat_completeness auto
termination
  by (relation "measure (\<lambda>(f, me, src, ip, off, n, tot, s). n - tot)") (auto intro: chunk_decreases)

declare WriteInode_loop.simps [simp del]

definition WriteInode ::
  "nat \<Rightarrow> nat \<Rightarrow> source \<Rightarrow> nat \<Rightarrow> nat \<Rightarrow> nat \<Rightarrow> 'a kfat_scheme \<Rightarrow> (int \<times> 'a kfat_scheme) result" where
  "WriteInode f me src ip off n s =
     bindr (the_inode ip s) (\<lambda>nd.
       if off > i_sz nd \<or> (off + n) mod 2 ^ 64 < off then Inr (- 1, s)
       else bindr (WriteInode_loop f me src ip off n 0 s) (\<lambda>(tot, off1, s1).
         let s2 = (if off1 > i_sz (inodes s1 ! ip) then upd_inode ip (\<lambda>x. x\<lparr>i_sz := off1 mod 2 ^ 32\<rparr>) s1 else s1)
         in bindr (UpdateInode f ip s2) (\<lambda>(r, s3). Inr (tot, s3))))"

section \<open>The table as a map\<close>

text \<open>
  The geometry the table in memory is right for: sectors of 512 bytes, and the whole table within the first
  1024 sectors, the part of the disk that is cached.
\<close>

definition fat_geometry :: "nat \<Rightarrow> 'a kfat_scheme \<Rightarrow> bool" where
  "fat_geometry f s \<longleftrightarrow>
     info_bytes_per_sector (the_info f s) = 512 \<and>
     info_reserve_sectors (the_info f s) + 4 * info_cluster_count (the_info f s) div 512 < 1024"

definition fat_val :: "'a kfat_scheme \<Rightarrow> nat \<Rightarrow> nat" where
  "fat_val s c = unat (get32 (map (\<lambda>k. fat_cache s (4 * c + k)) [0..<4]) 0)"

lemma get32_bytes32: "get32 (bytes32 w) 0 = w"
proof -
  have "bit (get32 (bytes32 w) 0) n = bit w n" if "n < 32" for n
    using that by (cases "n < 8"; cases "n < 16"; cases "n < 24") (auto simp: get32_def bytes32_def bit_simps)
  then show ?thesis by (auto simp: bit_eq_iff)
qed

lemma fat_slot_ok:
  assumes "fat_geometry f s" and "c \<le> info_cluster_count (the_info f s)"
  shows "fat_slot msg f c s = Inr (4 * c)"
proof -
  let ?r = "info_reserve_sectors (the_info f s)"
  have q: "4 * c div 512 \<le> 4 * info_cluster_count (the_info f s) div 512" using assms(2) by (intro div_le_mono) simp
  then have b: "?r + 4 * c div 512 < 1024" using assms(1) by (simp add: fat_geometry_def)
  have lt: "4 * c < 1024 * 512" using b by simp
  have p: "push_bit 2 c mod 2 ^ 32 = 4 * c" using lt by (simp add: push_bit_eq_mult mult.commute)
  have s: "FatSectorOfCluster f c s = ?r + 4 * c div 512"
    using assms(1) b unfolding FatSectorOfCluster_def p by (simp add: fat_geometry_def)
  have o: "FatOffsetOfCluster f c s = 4 * c mod 512"
    using assms(1) unfolding FatOffsetOfCluster_def p by (simp add: fat_geometry_def)
  have "4 * c div 512 * 512 + 4 * c mod 512 = 4 * c" by (rule div_mult_mod_eq)
  then have e: "c div 128 * 512 + 4 * c mod 512 = 4 * c" by simp
  have "4 * c + 4 \<le> FAT_CACHE_SIZE" using lt by (simp add: FAT_CACHE_SIZE_def)
  then show ?thesis using assms(1) b by (simp add: fat_slot_def s o e fat_geometry_def Let_def)
qed

lemma GetFatEntry_val:
  assumes "fat_geometry f s" and "c \<le> info_cluster_count (the_info f s)"
  shows "GetFatEntry f c s = Inr (fat_val s c)"
  using assms by (simp add: GetFatEntry_def fat_slot_ok fat_val_def)

lemma GetFatEntry_outside: "c > info_cluster_count (the_info f s) \<Longrightarrow> GetFatEntry f c s = Inr 0xffffffff"
  by (simp add: GetFatEntry_def)

text \<open>Writing an entry changes that entry and no other, and nothing but the table.\<close>

lemma SetFatEntey_val:
  assumes "fat_geometry f s" and "c \<le> info_cluster_count (the_info f s)" and "v < 2 ^ 32"
  obtains fc where "SetFatEntey f c v s = Inr (0, s\<lparr>fat_cache := fc\<rparr>)" and "fat_val (s\<lparr>fat_cache := fc\<rparr>) = (fat_val s)(c := v)"
proof -
  define fc where "fc = (\<lambda>k. if 4 * c \<le> k \<and> k < 4 * c + 4 then bytes32 (of_nat v) ! (k - 4 * c) else fat_cache s k)"
  have r: "SetFatEntey f c v s = Inr (0, s\<lparr>fat_cache := fc\<rparr>)"
    using assms(1,2) by (simp add: SetFatEntey_def fat_slot_ok fc_def)
  have "fat_val (s\<lparr>fat_cache := fc\<rparr>) x = ((fat_val s)(c := v)) x" for x
  proof (cases "x = c")
    case True
    have "map (\<lambda>k. fc (4 * c + k)) [0..<4] = bytes32 (of_nat v)"
      by (simp add: fc_def bytes32_def upt_conv_Cons)
    then show ?thesis using True assms(3) by (simp add: fat_val_def get32_bytes32)
  next
    case False
    then have "map (\<lambda>k. fc (4 * x + k)) [0..<4] = map (\<lambda>k. fat_cache s (4 * x + k)) [0..<4]"
      by (auto simp: fc_def)
    then show ?thesis using False by (simp add: fat_val_def del: map_eq_conv)
  qed
  then show thesis by (intro that [OF r]) auto
qed

lemma fat_cache_frame [simp]: "the_info f (s\<lparr>fat_cache := fc\<rparr>) = the_info f s" "fat_geometry f (s\<lparr>fat_cache := fc\<rparr>) = fat_geometry f s"
  by (simp_all add: the_info_def fat_geometry_def)

section \<open>Cluster chains\<close>

text \<open>\<open>fat_chain s c cs\<close>: the clusters from \<open>c\<close> on are \<open>cs\<close>, all of them data clusters, up to the end mark.\<close>

fun fat_chain :: "nat \<Rightarrow> 'a kfat_scheme \<Rightarrow> nat \<Rightarrow> nat list \<Rightarrow> bool" where
  "fat_chain f s c [] \<longleftrightarrow> c = kEndOfCluster32"
| "fat_chain f s c (x # xs) \<longleftrightarrow> c = x \<and> 2 \<le> x \<and> x \<le> info_cluster_count (the_info f s) \<and> x \<noteq> kEndOfCluster32 \<and> fat_chain f s (fat_val s x) xs"

lemma fat_chain_cong:
  "(\<forall>x \<in> set xs. fat_val s' x = fat_val s x) \<Longrightarrow> the_info f s' = the_info f s \<Longrightarrow> fat_chain f s' c xs = fat_chain f s c xs"
  by (induction xs arbitrary: c) auto

lemma FreeClusterChain_loop_frees:
  assumes "fat_geometry f s" and "fat_chain f s c cs" and "distinct cs" and "length cs < n"
  shows "\<exists>fc. FreeClusterChain_loop n f c s = Inr (s\<lparr>fat_cache := fc\<rparr>) \<and>
    fat_val (s\<lparr>fat_cache := fc\<rparr>) = (\<lambda>x. if x \<in> set cs then 0 else fat_val s x)"
  using assms
proof (induction cs arbitrary: c n s)
  case Nil
  obtain m where n: "n = Suc m" using Nil.prems(4) by (cases n) auto
  have c: "c = kEndOfCluster32" using Nil.prems(2) by simp
  show ?case by (rule exI [of _ "fat_cache s"]) (simp add: n c)
next
  case (Cons x xs)
  obtain m where n: "n = Suc m" using Cons.prems(4) by (cases n) auto
  have x: "c = x" "x \<le> info_cluster_count (the_info f s)" "x \<noteq> kEndOfCluster32" "fat_chain f s (fat_val s x) xs"
    using Cons.prems(2) by simp_all
  obtain fc where w: "SetFatEntey f x 0 s = Inr (0, s\<lparr>fat_cache := fc\<rparr>)" "fat_val (s\<lparr>fat_cache := fc\<rparr>) = (fat_val s)(x := 0)"
    by (rule SetFatEntey_val [OF Cons.prems(1) x(2), of 0]) auto
  let ?s = "s\<lparr>fat_cache := fc\<rparr>"
  have "fat_chain f ?s (fat_val s x) xs" using x(4) Cons.prems(3) by (subst fat_chain_cong [of _ _ s]) (auto simp: w(2))
  then have "\<exists>fc'. FreeClusterChain_loop m f (fat_val s x) ?s = Inr (?s\<lparr>fat_cache := fc'\<rparr>) \<and>
      fat_val (?s\<lparr>fat_cache := fc'\<rparr>) = (\<lambda>y. if y \<in> set xs then 0 else fat_val ?s y)"
    using Cons.prems n by (intro Cons.IH) simp_all
  then obtain fc' where r: "FreeClusterChain_loop m f (fat_val s x) ?s = Inr (s\<lparr>fat_cache := fc'\<rparr>)"
      "fat_val (s\<lparr>fat_cache := fc'\<rparr>) = (\<lambda>y. if y \<in> set xs then 0 else fat_val ?s y)" by auto
  have "FreeClusterChain_loop n f c s = Inr (s\<lparr>fat_cache := fc'\<rparr>)"
    using r(1) x GetFatEntry_val [OF Cons.prems(1) x(2)] w(1) by (simp add: n)
  moreover have "fat_val (s\<lparr>fat_cache := fc'\<rparr>) = (\<lambda>y. if y \<in> set (x # xs) then 0 else fat_val s y)"
    using r(2) by (auto simp: fun_eq_iff w(2))
  ultimately show ?case by blast
qed

lemma fat_chain_bound:
  "fat_chain f s c cs \<Longrightarrow> set cs \<subseteq> {2..info_cluster_count (the_info f s)}"
  by (induction cs arbitrary: c) auto

lemma fat_chain_length:
  assumes "fat_chain f s c cs" "distinct cs"
  shows "length cs \<le> info_cluster_count (the_info f s)"
proof -
  have "card (set cs) \<le> card {2..info_cluster_count (the_info f s)}"
    by (rule card_mono) (use fat_chain_bound [OF assms(1)] in auto)
  then show ?thesis using assms(2) by (simp add: distinct_card)
qed

text \<open>Past the table a chain never meets the end mark.\<close>

lemma FreeClusterChain_outside:
  "c > info_cluster_count (the_info f s) \<Longrightarrow> c \<noteq> kEndOfCluster32 \<Longrightarrow> info_cluster_count (the_info f s) < 0xffffffff \<Longrightarrow>
     FreeClusterChain_loop n f c s = Inl (Stuck ''FreeClusterChain'')"
proof (induction n arbitrary: c)
  case (Suc n)
  have "FreeClusterChain_loop n f 0xffffffff s = Inl (Stuck ''FreeClusterChain'')"
    using Suc.prems by (intro Suc.IH) (simp_all add: kEndOfCluster32_def)
  then show ?case using Suc.prems by (simp add: GetFatEntry_outside SetFatEntey_def)
qed simp

section \<open>Allocation\<close>

text \<open>Every data cluster of the table lies on the disk, below the 2 GB the drivers can address.\<close>

definition data_geometry :: "nat \<Rightarrow> 'a kfat_scheme \<Rightarrow> bool" where
  "data_geometry f s \<longleftrightarrow>
     (let D = fs_dev (fats s ! f); i = the_info f s in
      D < length (rw_devs s) \<and> rw_devs s ! D \<noteq> None \<and>
      (\<forall>c. 2 \<le> c \<longrightarrow> c \<le> info_cluster_count i \<longrightarrow>
         (info_first_data_sector i + (c - 2) * info_sectors_per_cluster i + info_sectors_per_cluster i) * 512 < 2 ^ 31))"

definition sector_base :: "nat \<Rightarrow> 'a kfat_scheme \<Rightarrow> nat \<Rightarrow> nat" where
  "sector_base f s c = info_first_data_sector (the_info f s) + (c - 2) * info_sectors_per_cluster (the_info f s)"

definition zero_sectors :: "nat \<Rightarrow> nat \<Rightarrow> rwdev \<Rightarrow> rwdev" where
  "zero_sectors a n d = d\<lparr>rw_sector := \<lambda>k. if a \<le> k \<and> k < a + n then replicate 512 0 else rw_sector d k\<rparr>"

lemma FirstSector_base:
  assumes "2 \<le> c" "sector_base f s c < 2 ^ 32" "c < 2 ^ 32"
  shows "FirstSectorOfCluster f c s = sector_base f s c"
proof -
  obtain k where k: "c = k + 2" using assms(1) by (metis add.commute le_Suc_ex)
  have "(c + 2 ^ 32 - 2) mod 2 ^ 32 = c - 2" using assms(3) by (simp add: k)
  then show ?thesis using assms(2) unfolding FirstSectorOfCluster_def sector_base_def by (simp only: mod_less)
qed

lemma WriteSector_one:
  assumes "fs_dev (fats s ! f) < length (rw_devs s)" "rw_devs s ! fs_dev (fats s ! f) = Some d" "(a + 1) * 512 < 2 ^ 31"
    and l: "length data = 512"
  shows "WriteSector f a data s =
    Inr (512, s\<lparr>rw_devs := (rw_devs s)[fs_dev (fats s ! f) := Some (d\<lparr>rw_sector := (rw_sector d)(a := data)\<rparr>)]\<rparr>)"
proof -
  have e: "(a * 512 + 512) div 512 = a + 1" "a * 512 div 512 = a" "a * 512 mod 2 ^ 32 = a * 512" using assms(3) by simp_all
  have "(\<lambda>k. if a \<le> k \<and> k < a + 1 then take 512 (drop ((k - a) * 512) data) else rw_sector d k) = (rw_sector d)(a := data)"
    using l by (auto simp: fun_eq_iff)
  then have "disk_write d (a * 512) data = Inr (512, d\<lparr>rw_sector := (rw_sector d)(a := data)\<rparr>)"
    using assms(3) unfolding disk_write_def l e by (simp del: fun_upd_apply)
  then show ?thesis using assms(1,2) unfolding WriteSector_def kSectorSize_def e by (simp add: RwDevWrite_def)
qed

lemma zero_sectors_simps:
  "zero_sectors a 0 d = d"
  "d\<lparr>rw_sector := (rw_sector d)(a := replicate 512 0)\<rparr> = zero_sectors a 1 d"
  "zero_sectors (Suc a) n (zero_sectors a 1 d) = zero_sectors a (Suc n) d"
proof -
  have "(\<lambda>k. if a \<le> k \<and> k < a + 0 then replicate 512 0 else rw_sector d k) = rw_sector d" by (rule ext) auto
  then show "zero_sectors a 0 d = d" by (simp add: zero_sectors_def)
  show "d\<lparr>rw_sector := (rw_sector d)(a := replicate 512 0)\<rparr> = zero_sectors a 1 d"
    unfolding zero_sectors_def by (intro arg_cong [where f = "\<lambda>g. d\<lparr>rw_sector := g\<rparr>"]) (auto simp: fun_eq_iff)
  show "zero_sectors (Suc a) n (zero_sectors a 1 d) = zero_sectors a (Suc n) d"
    unfolding zero_sectors_def by (simp, intro arg_cong [where f = "\<lambda>g. d\<lparr>rw_sector := g\<rparr>"]) (auto simp: fun_eq_iff)
qed

lemma ZeroCluster_loop_zeroes:
  assumes "fs_dev (fats s ! f) < length (rw_devs s)" "rw_devs s ! fs_dev (fats s ! f) = Some d"
    and "FirstSectorOfCluster f c s = b" "(b + i + n) * 512 < 2 ^ 31"
  shows "ZeroCluster_loop f c i n s =
    Inr (s\<lparr>rw_devs := (rw_devs s)[fs_dev (fats s ! f) := Some (zero_sectors (b + i) n d)]\<rparr>)"
  using assms
proof (induction n arbitrary: i s d)
  case 0
  have "(rw_devs s)[fs_dev (fats s ! f) := Some d] = rw_devs s" using "0.prems"(1,2) by (metis list_update_id)
  then show ?case by (simp add: zero_sectors_simps)
next
  case (Suc n)
  let ?D = "fs_dev (fats s ! f)"
  let ?s = "s\<lparr>rw_devs := (rw_devs s)[?D := Some (zero_sectors (b + i) 1 d)]\<rparr>"
  have "(b + i) mod 2 ^ 32 = b + i" using Suc.prems(4) by simp
  then have w: "WriteSector f ((FirstSectorOfCluster f c s + i) mod 2 ^ 32) (replicate kSectorSize 0) s = Inr (512, ?s)"
    using WriteSector_one [OF Suc.prems(1,2), of "b + i" "replicate kSectorSize 0"] Suc.prems(3,4)
    by (simp add: zero_sectors_simps kSectorSize_def)
  have "FirstSectorOfCluster f c ?s = b" using Suc.prems(3) by (simp add: FirstSectorOfCluster_def the_info_def)
  then have r: "ZeroCluster_loop f c (Suc i) n ?s =
      Inr (?s\<lparr>rw_devs := (rw_devs ?s)[?D := Some (zero_sectors (b + Suc i) n (zero_sectors (b + i) 1 d))]\<rparr>)"
    using Suc.IH [of ?s "zero_sectors (b + i) 1 d" "Suc i"] Suc.prems by simp
  show ?case using r w by (simp add: zero_sectors_simps [simplified])
qed

lemma fat_geometry_count: "fat_geometry f s \<Longrightarrow> info_cluster_count (the_info f s) < 1024 * 128"
proof -
  assume "fat_geometry f s"
  then have "info_cluster_count (the_info f s) div 128 < 1024" by (simp add: fat_geometry_def)
  then show ?thesis by (simp add: div_less_iff_less_mult)
qed

lemma ZeroCluster_zeroes:
  assumes "data_geometry f s" "fat_geometry f s" "2 \<le> c" "c \<le> info_cluster_count (the_info f s)"
    and "rw_devs s ! fs_dev (fats s ! f) = Some d"
  shows "ZeroCluster f c s = Inr (s\<lparr>rw_devs := (rw_devs s)[fs_dev (fats s ! f) :=
    Some (zero_sectors (sector_base f s c) (info_sectors_per_cluster (the_info f s)) d)]\<rparr>)"
proof -
  have g: "(sector_base f s c + info_sectors_per_cluster (the_info f s)) * 512 < 2 ^ 31" "fs_dev (fats s ! f) < length (rw_devs s)"
    using assms by (simp_all add: data_geometry_def sector_base_def Let_def)
  have "c < 2 ^ 32" using fat_geometry_count [OF assms(2)] assms(4) by simp
  then have "FirstSectorOfCluster f c s = sector_base f s c" using assms(3) g by (intro FirstSector_base) simp_all
  then show ?thesis using ZeroCluster_loop_zeroes [OF g(2) assms(5), of c "sector_base f s c" 0] g by (simp add: ZeroCluster_def)
qed

lemma AllocCluster_loop_first:
  assumes "fat_geometry f s" "c \<le> x" "x \<le> info_cluster_count (the_info f s)" "fat_val s x = 0"
    and "\<forall>y. c \<le> y \<longrightarrow> y < x \<longrightarrow> fat_val s y \<noteq> 0"
  shows "AllocCluster_loop f c s = AllocCluster_loop f x s"
  using assms(2,5)
proof (induction "x - c" arbitrary: c)
  case (Suc n)
  then have "c < x" by simp
  with Suc.hyps(2) have "AllocCluster_loop f (Suc c) s = AllocCluster_loop f x s"
    using Suc.prems by (intro Suc.hyps(1)) auto
  moreover have "AllocCluster_loop f c s = AllocCluster_loop f (Suc c) s"
    using \<open>c < x\<close> assms(1,3) Suc.prems(2) [rule_format, of c] fat_geometry_count [OF assms(1)]
    by (simp add: AllocCluster_loop.simps [of f c] GetFatEntry_val)
  ultimately show ?case by simp
qed simp

lemma AllocCluster_loop_full:
  assumes "fat_geometry f s" "\<forall>y. c \<le> y \<longrightarrow> y \<le> info_cluster_count (the_info f s) \<longrightarrow> fat_val s y \<noteq> 0"
  shows "AllocCluster_loop f c s = Inl (Stuck ''AllocCluster'')"
  using assms(2)
proof (induction "2 ^ 31 - c" arbitrary: c)
  case 0
  then show ?case by (simp add: AllocCluster_loop.simps [of f c])
next
  case (Suc n)
  then have n: "AllocCluster_loop f (Suc c) s = Inl (Stuck ''AllocCluster'')" by (intro Suc.hyps(1)) auto
  show ?case
  proof (cases "c \<le> info_cluster_count (the_info f s)")
    case True
    then show ?thesis using n assms(1) Suc.prems [rule_format, of c] by (simp add: AllocCluster_loop.simps [of f c] GetFatEntry_val)
  qed (use n in \<open>simp add: AllocCluster_loop.simps [of f c] GetFatEntry_outside\<close>)
qed

lemma AllocCluster_takes:
  assumes "fat_geometry f s" "data_geometry f s" "2 \<le> x" "x \<le> info_cluster_count (the_info f s)" "fat_val s x = 0"
    and "\<forall>y. 2 \<le> y \<longrightarrow> y < x \<longrightarrow> fat_val s y \<noteq> 0" and d: "rw_devs s ! fs_dev (fats s ! f) = Some d"
  obtains fc where "AllocCluster f s = Inr (x, s\<lparr>fat_cache := fc, rw_devs := (rw_devs s)[fs_dev (fats s ! f) :=
      Some (zero_sectors (sector_base f s x) (info_sectors_per_cluster (the_info f s)) d)]\<rparr>)"
    and "fat_val (s\<lparr>fat_cache := fc\<rparr>) = (fat_val s)(x := kEndOfCluster32)"
proof -
  obtain fc where w: "SetFatEntey f x kEndOfCluster32 s = Inr (0, s\<lparr>fat_cache := fc\<rparr>)"
      "fat_val (s\<lparr>fat_cache := fc\<rparr>) = (fat_val s)(x := kEndOfCluster32)"
    by (rule SetFatEntey_val [OF assms(1,4), of kEndOfCluster32]) (auto simp: kEndOfCluster32_def)
  let ?s = "s\<lparr>fat_cache := fc\<rparr>"
  have g: "data_geometry f ?s" "sector_base f ?s x = sector_base f s x"
    using assms(2) by (simp_all add: data_geometry_def sector_base_def)
  have "ZeroCluster f x ?s = Inr (?s\<lparr>rw_devs := (rw_devs s)[fs_dev (fats s ! f) :=
      Some (zero_sectors (sector_base f s x) (info_sectors_per_cluster (the_info f s)) d)]\<rparr>)"
    using ZeroCluster_zeroes [OF g(1), of x d] assms g(2) by simp
  then have "AllocCluster f s = Inr (x, s\<lparr>fat_cache := fc, rw_devs := (rw_devs s)[fs_dev (fats s ! f) :=
      Some (zero_sectors (sector_base f s x) (info_sectors_per_cluster (the_info f s)) d)]\<rparr>)"
    using AllocCluster_loop_first [OF assms(1,3-6)] w(1) assms(4,5) GetFatEntry_val [OF assms(1,4)] fat_geometry_count [OF assms(1)]
    by (simp add: AllocCluster_def AllocCluster_loop.simps [of f x])
  then show thesis using w(2) by (rule that)
qed

section \<open>From file offsets to clusters\<close>

lemma fat_chain_nth:
  "fat_chain f s c cs \<Longrightarrow> j < length cs \<Longrightarrow> fat_chain f s (cs ! j) (drop j cs)"
proof (induction cs arbitrary: c j)
  case (Cons x xs)
  then show ?case by (cases j) auto
qed simp

lemma bmap_loop_follows:
  assumes "fat_geometry f s" "fat_chain f s c cs" "logi < i + length cs" "i \<le> logi"
  shows "bmap_loop f logi i c s = Inr (cs ! (logi - i), s)"
  using assms(2-4)
proof (induction cs arbitrary: c i)
  case (Cons x xs)
  have x: "c = x" "x \<le> info_cluster_count (the_info f s)" "x \<noteq> kEndOfCluster32" "fat_chain f s (fat_val s x) xs"
    using Cons.prems(1) by simp_all
  show ?case
  proof (cases "i = logi")
    case True
    then show ?thesis using x by (simp add: bmap_loop.simps)
  next
    case False
    then have lt: "i < logi" using Cons.prems by simp
    then have "xs \<noteq> []" using Cons.prems(2) by auto
    then have ne: "fat_val s x \<noteq> kEndOfCluster32" using x(4) by (cases xs) auto
    have "bmap_loop f logi (Suc i) (fat_val s x) s = Inr (xs ! (logi - Suc i), s)"
      using x(4) Cons.prems lt by (intro Cons.IH) auto
    moreover have "(x # xs) ! (logi - i) = xs ! (logi - Suc i)" using lt by (simp add: nth_Cons' )
    ultimately show ?thesis using lt x ne GetFatEntry_val [OF assms(1) x(2)]
      by (simp add: bmap_loop.simps [of f logi i])
  qed
qed simp

text \<open>
  The inode \<open>ip\<close> has the clusters \<open>cs\<close>, and the pair it remembers, a logical cluster and its place, is right.
\<close>

definition file_clusters :: "nat \<Rightarrow> nat \<Rightarrow> nat list \<Rightarrow> 'a kfat_scheme \<Rightarrow> bool" where
  "file_clusters f ip cs s \<longleftrightarrow>
     ip < length (inodes s) \<and> i_live (inodes s ! ip) \<and>
     (let m = i_msdos (inodes s ! ip);
          start = (if ip = root_inode (fats s ! f) then info_root_cluster (the_info f s) else im_start m)
      in cs \<noteq> [] \<and> fat_chain f s start cs \<and> im_logi m < length cs \<and> im_clus m = cs ! im_logi m)"

lemma bmap_finds:
  assumes "fat_geometry f s" "file_clusters f ip cs s" "k < length cs"
  shows "bmap f ip k s = Inr (cs ! k, upd_inode ip (\<lambda>n. n\<lparr>i_msdos := (i_msdos n)\<lparr>im_logi := k, im_clus := cs ! k\<rparr>\<rparr>) s)"
proof -
  let ?m = "i_msdos (inodes s ! ip)"
  define start where "start = (if ip = root_inode (fats s ! f) then info_root_cluster (the_info f s) else im_start ?m)"
  have ip: "the_inode ip s = Inr (inodes s ! ip)" using assms(2) by (simp add: the_inode_def file_clusters_def Let_def)
  have c: "fat_chain f s start cs" "im_logi ?m < length cs" "im_clus ?m = cs ! im_logi ?m"
    using assms(2) by (simp_all add: file_clusters_def Let_def start_def)
  have ne: "cs ! k \<noteq> kEndOfCluster32" using fat_chain_nth [OF c(1) assms(3)] assms(3) by (cases "drop k cs") auto
  show ?thesis
  proof (cases "im_logi ?m \<le> k")
    case True
    have "bmap_loop f k (im_logi ?m) (im_clus ?m) s = Inr (cs ! k, s)"
      using bmap_loop_follows [OF assms(1) fat_chain_nth [OF c(1,2)], of k "im_logi ?m"] True assms(3) c(2,3) by simp
    then show ?thesis using ne True by (simp add: bmap_def ip Let_def)
  next
    case False
    have "bmap_loop f k 0 start s = Inr (cs ! k, s)" using bmap_loop_follows [OF assms(1) c(1), of k 0] assms(3) by simp
    then show ?thesis using ne False by (simp add: bmap_def ip Let_def start_def)
  qed
qed

section \<open>Reading\<close>

text \<open>The bytes of the clusters of a file, and the state in which the file can be read.\<close>

definition file_bytes :: "nat \<Rightarrow> nat list \<Rightarrow> 'a kfat_scheme \<Rightarrow> u8 list" where
  "file_bytes f cs s = concat (map (disk_cluster (fs_dev (fats s ! f)) s) cs)"

definition readable_file :: "nat \<Rightarrow> nat \<Rightarrow> nat list \<Rightarrow> 'a kfat_scheme \<Rightarrow> bool" where
  "readable_file f ip cs s \<longleftrightarrow>
     fat_geometry f s \<and> file_clusters f ip cs s \<and> coherent (fs_dev (fats s ! f)) s \<and> cache_idle s \<and>
     info_bytes_per_cluster (the_info f s) = BSIZE \<and> (\<forall>c \<in> set cs. good_cluster s c)"

lemma concat_blocks:
  assumes "\<forall>x \<in> set xs. length x = m" "k < length xs" "r \<le> m"
  shows "drop (k * m + r) (concat xs) = drop r (xs ! k) @ concat (drop (Suc k) xs)"
  using assms
proof (induction xs arbitrary: k)
  case (Cons x xs)
  then show ?case by (cases k) (auto simp: add.assoc)
qed simp

lemma file_chunk:
  assumes "coherent (fs_dev (fats s ! f)) s" "off div BSIZE < length cs" "n \<le> BSIZE - off mod BSIZE"
  shows "take n (drop (off mod BSIZE) (disk_cluster (fs_dev (fats s ! f)) s (cs ! (off div BSIZE)))) = take n (drop off (file_bytes f cs s))"
proof -
  let ?g = "disk_cluster (fs_dev (fats s ! f)) s"
  have l: "\<forall>x \<in> set (map ?g cs). length x = BSIZE" using assms(1) disk_cluster_length by (auto simp: coherent_def)
  have "off mod BSIZE \<le> BSIZE" by (simp add: BSIZE_def)
  with concat_blocks [OF l, of "off div BSIZE" "off mod BSIZE"] assms(2)
  have "drop off (file_bytes f cs s) = drop (off mod BSIZE) (?g (cs ! (off div BSIZE))) @ concat (drop (Suc (off div BSIZE)) (map ?g cs))"
    by (simp add: file_bytes_def)
  then show ?thesis using l assms(2,3) by simp
qed

text \<open>What a transfer leaves alone: everything but the hint of the inode, the buffers, the disks and the task table.\<close>

definition set_hint :: "nat \<Rightarrow> nat \<Rightarrow> nat \<Rightarrow> 'a kfat_scheme \<Rightarrow> 'a kfat_scheme" where
  "set_hint ip k c s = upd_inode ip (\<lambda>n. n\<lparr>i_msdos := (i_msdos n)\<lparr>im_logi := k, im_clus := c\<rparr>\<rparr>) s"

definition io_frame :: "nat \<Rightarrow> 'a kfat_scheme \<Rightarrow> 'a kfat_scheme \<Rightarrow> bool" where
  "io_frame ip s s' \<longleftrightarrow> (\<exists>k c bs tt dv. s' = (set_hint ip k c s)\<lparr>bufCache := bs, taskTable := tt, rw_devs := dv\<rparr>)"

lemma list_update_field: "g y = g (xs ! i) \<Longrightarrow> g (xs[i := y] ! j) = g (xs ! j)"
  by (cases "i < length xs"; cases "i = j") (auto simp: list_update_beyond not_less)

lemma io_frame_simps:
  assumes "io_frame ip s s'"
  shows "fats s' = fats s" "fat_cache s' = fat_cache s" "the_info f s' = the_info f s" "fat_val s' = fat_val s"
    "bl_sectors_per_cluster s' = bl_sectors_per_cluster s" "bl_first_data_sector s' = bl_first_data_sector s"
    "length (inodes s') = length (inodes s)" "i_sz (inodes s' ! j) = i_sz (inodes s ! j)" "i_live (inodes s' ! j) = i_live (inodes s ! j)"
    "im_start (i_msdos (inodes s' ! j)) = im_start (i_msdos (inodes s ! j))" "mem s' = mem s" "fat_geometry f s' = fat_geometry f s"
    "good_cluster s' x = good_cluster s x"
proof -
  obtain k c bs tt dv where s': "s' = s\<lparr>inodes := (inodes s)[ip := (inodes s ! ip)\<lparr>i_msdos := (i_msdos (inodes s ! ip))\<lparr>im_logi := k, im_clus := c\<rparr>\<rparr>],
      bufCache := bs, taskTable := tt, rw_devs := dv\<rparr>"
    using assms by (auto simp: io_frame_def set_hint_def upd_inode_def)
  show "i_sz (inodes s' ! j) = i_sz (inodes s ! j)" "i_live (inodes s' ! j) = i_live (inodes s ! j)"
    "im_start (i_msdos (inodes s' ! j)) = im_start (i_msdos (inodes s ! j))"
    unfolding s' by (simp, rule list_update_field, simp)+
  show "fats s' = fats s" "fat_cache s' = fat_cache s" "the_info f s' = the_info f s" "fat_val s' = fat_val s"
    "bl_sectors_per_cluster s' = bl_sectors_per_cluster s" "bl_first_data_sector s' = bl_first_data_sector s"
    "length (inodes s') = length (inodes s)" "mem s' = mem s" "fat_geometry f s' = fat_geometry f s" "good_cluster s' x = good_cluster s x"
    by (simp_all add: s' the_info_def fat_val_def fat_geometry_def fun_eq_iff good_cluster_def)
qed

lemma io_frame_refl: "io_frame ip s s"
  unfolding io_frame_def set_hint_def upd_inode_def
  by (intro exI [of _ "im_logi (i_msdos (inodes s ! ip))"] exI [of _ "im_clus (i_msdos (inodes s ! ip))"]
      exI [of _ "bufCache s"] exI [of _ "taskTable s"] exI [of _ "rw_devs s"]) simp

lemma io_frame_trans:
  assumes "io_frame ip s s'" "io_frame ip s' s''"
  shows "io_frame ip s s''"
proof -
  obtain k c bs tt dv where a: "s' = (set_hint ip k c s)\<lparr>bufCache := bs, taskTable := tt, rw_devs := dv\<rparr>"
    using assms(1) by (auto simp: io_frame_def)
  obtain k' c' bs' tt' dv' where b: "s'' = (set_hint ip k' c' s')\<lparr>bufCache := bs', taskTable := tt', rw_devs := dv'\<rparr>"
    using assms(2) by (auto simp: io_frame_def)
  have "s'' = (set_hint ip k' c' s)\<lparr>bufCache := bs', taskTable := tt', rw_devs := dv'\<rparr>"
    by (cases "ip < length (inodes s)") (simp_all add: a b set_hint_def upd_inode_def list_update_beyond)
  then show ?thesis unfolding io_frame_def by blast
qed

text \<open>A transfer that leaves the cache coherent and unused leaves the file readable.\<close>

lemma readable_restore:
  assumes r: "readable_file f ip cs s" and k: "k < length cs"
    and e: "s' = (set_hint ip k (cs ! k) s)\<lparr>bufCache := bs, taskTable := tt, rw_devs := dv\<rparr>"
    and "coherent (fs_dev (fats s ! f)) s'" "cache_idle s'"
  shows "readable_file f ip cs s'" and "io_frame ip s s'"
proof -
  show fr: "io_frame ip s s'" unfolding io_frame_def e by blast
  have ch: "fat_chain f s' c cs = fat_chain f s c cs" for c by (rule fat_chain_cong) (simp_all add: io_frame_simps [OF fr])
  have "ip < length (inodes s)" using r by (simp add: readable_file_def file_clusters_def)
  then have ino: "im_logi (i_msdos (inodes s' ! ip)) = k" "im_clus (i_msdos (inodes s' ! ip)) = cs ! k"
    by (simp_all add: e set_hint_def upd_inode_def)
  have "file_clusters f ip cs s'"
    using r k unfolding readable_file_def file_clusters_def Let_def ino io_frame_simps [OF fr] ch by simp
  then show "readable_file f ip cs s'"
    using r assms(4,5) unfolding readable_file_def io_frame_simps [OF fr] by simp
qed

text \<open>The beginning of a turn of the loops: the cluster at logical position \<open>k\<close> is mapped and read.\<close>

lemma turn_begins:
  assumes r: "readable_file f ip cs s" and k: "k < length cs"
  obtains b bs where "bmap f ip k s = Inr (cs ! k, set_hint ip k (cs ! k) s)"
    and "bl_read me (fs_dev (fats s ! f)) (cs ! k) (set_hint ip k (cs ! k) s) = Inr (b, (set_hint ip k (cs ! k) s)\<lparr>bufCache := bs\<rparr>)"
    and "coherent (fs_dev (fats s ! f)) ((set_hint ip k (cs ! k) s)\<lparr>bufCache := bs\<rparr>)"
    and "cache_held b ((set_hint ip k (cs ! k) s)\<lparr>bufCache := bs\<rparr>)" and "b_valid (bs ! b)" and "b_blockno (bs ! b) = cs ! k"
    and "b_data (bs ! b) = disk_cluster (fs_dev (fats s ! f)) s (cs ! k)"
proof -
  let ?D = "fs_dev (fats s ! f)"
  let ?s1 = "set_hint ip k (cs ! k) s"
  have g: "fat_geometry f s" "file_clusters f ip cs s" "coherent ?D s" "cache_idle s" "good_cluster s (cs ! k)"
    using r k by (auto simp: readable_file_def)
  have f1: "rw_devs ?s1 = rw_devs s" "bl_sectors_per_cluster ?s1 = bl_sectors_per_cluster s" "bl_first_data_sector ?s1 = bl_first_data_sector s"
      "bufCache ?s1 = bufCache s"
    by (simp_all add: set_hint_def upd_inode_def)
  have c1: "coherent ?D ?s1" "cache_idle ?s1" "good_cluster ?s1 (cs ! k)"
    using g coherent_cong [OF f1] cluster_facts_cong [OF f1(1-3)] f1(4) by (simp_all add: cache_idle_def)
  obtain b bs where rd: "bl_read me ?D (cs ! k) ?s1 = Inr (b, ?s1\<lparr>bufCache := bs\<rparr>)" "coherent ?D (?s1\<lparr>bufCache := bs\<rparr>)"
      "cache_held b (?s1\<lparr>bufCache := bs\<rparr>)" "b_valid (bs ! b)" "b_blockno (bs ! b) = cs ! k"
    by (rule bl_read_coherent [OF c1])
  have "b_data (bs ! b) = disk_cluster ?D (?s1\<lparr>bufCache := bs\<rparr>) (cs ! k)"
    using rd(2-5) by (auto simp: coherent_def coherent_buf_def cache_held_def)
  then have "b_data (bs ! b) = disk_cluster ?D s (cs ! k)" using cluster_facts_cong [of "?s1\<lparr>bufCache := bs\<rparr>" s] f1 by simp
  with rd bmap_finds [OF g(1,2) k] show thesis by (intro that) (simp_all add: set_hint_def)
qed

lemma read_turn:
  assumes r: "readable_file f ip cs s" and k: "k < length cs"
  obtains s1 b s2 where "bmap f ip k s = Inr (cs ! k, s1)" and "bl_read me (fs_dev (fats s1 ! f)) (cs ! k) s1 = Inr (b, s2)"
    and "b_data (bufCache s2 ! b) = disk_cluster (fs_dev (fats s ! f)) s (cs ! k)"
    and "readable_file f ip cs (freeBuffer b s2)" and "io_frame ip s (freeBuffer b s2)" and "rw_devs (freeBuffer b s2) = rw_devs s"
proof -
  let ?s1 = "set_hint ip k (cs ! k) s"
  obtain b bs where t: "bmap f ip k s = Inr (cs ! k, ?s1)"
    "bl_read me (fs_dev (fats s ! f)) (cs ! k) ?s1 = Inr (b, ?s1\<lparr>bufCache := bs\<rparr>)" "coherent (fs_dev (fats s ! f)) (?s1\<lparr>bufCache := bs\<rparr>)"
    "cache_held b (?s1\<lparr>bufCache := bs\<rparr>)" "b_valid (bs ! b)" "b_blockno (bs ! b) = cs ! k"
    "b_data (bs ! b) = disk_cluster (fs_dev (fats s ! f)) s (cs ! k)"
    by (rule turn_begins [OF r k])
  let ?s2 = "?s1\<lparr>bufCache := bs\<rparr>"
  obtain bs' tt where fr: "freeBuffer b ?s2 = ?s2\<lparr>bufCache := bs', taskTable := tt\<rparr>"
      "coherent (fs_dev (fats s ! f)) (freeBuffer b ?s2)" "cache_idle (freeBuffer b ?s2)"
    by (rule freeBuffer_idle [OF t(3,4)])
  have e: "freeBuffer b ?s2 = ?s1\<lparr>bufCache := bs', taskTable := tt, rw_devs := rw_devs s\<rparr>"
    unfolding fr(1) by (simp add: set_hint_def upd_inode_def)
  have "rw_devs (freeBuffer b ?s2) = rw_devs s" by (simp add: e)
  moreover have "fats ?s1 = fats s" by (simp add: set_hint_def upd_inode_def)
  ultimately show thesis using t readable_restore [OF r k e fr(2,3)] by (intro that [of ?s1 b ?s2]) simp_all
qed

lemma file_bytes_cong: "io_frame ip s s' \<Longrightarrow> rw_devs s' = rw_devs s \<Longrightarrow> file_bytes f cs s' = file_bytes f cs s"
  using cluster_facts_cong(3) [of s' s] by (simp add: file_bytes_def io_frame_simps cong: map_cong)

lemma ReadInode_loop_reads:
  assumes "readable_file f ip cs s" "tot \<le> n" "off + (n - tot) \<le> length cs * BSIZE"
  shows "\<exists>s'. ReadInode_loop f me ToObject ip off n tot acc s = Inr (int n, acc @ take (n - tot) (drop off (file_bytes f cs s)), s') \<and>
    readable_file f ip cs s' \<and> io_frame ip s s' \<and> rw_devs s' = rw_devs s"
  using assms
proof (induction "n - tot" arbitrary: off tot acc s rule: less_induct)
  case less
  show ?case
  proof (cases "tot < n")
    case False
    then have "ReadInode_loop f me ToObject ip off n tot acc s = Inr (int n, acc, s)"
      using less.prems(2) by (subst ReadInode_loop.simps) simp
    then show ?thesis using False less.prems(1) io_frame_refl by (intro exI [of _ s]) simp
  next
    case True
    define k where "k = off div BSIZE"
    define m where "m = min (n - tot) (BSIZE - off mod BSIZE)"
    have B: "0 < BSIZE" by (simp add: BSIZE_def)
    then have md: "off mod BSIZE < BSIZE" by simp
    have m: "0 < m" "m \<le> n - tot" "m \<le> BSIZE - off mod BSIZE" using True md by (simp_all add: m_def)
    have k: "k < length cs" using less.prems(3) True B unfolding k_def by (simp add: div_less_iff_less_mult)
    obtain s1 b s2 where t: "bmap f ip k s = Inr (cs ! k, s1)" "bl_read me (fs_dev (fats s1 ! f)) (cs ! k) s1 = Inr (b, s2)"
      "b_data (bufCache s2 ! b) = disk_cluster (fs_dev (fats s ! f)) s (cs ! k)"
      "readable_file f ip cs (freeBuffer b s2)" "io_frame ip s (freeBuffer b s2)" "rw_devs (freeBuffer b s2) = rw_devs s"
      by (rule read_turn [OF less.prems(1) k])
    let ?s = "freeBuffer b s2"
    have co: "coherent (fs_dev (fats s ! f)) s" and bpc: "info_bytes_per_cluster (the_info f s) = BSIZE"
      using less.prems(1) by (simp_all add: readable_file_def)
    have chunk: "take m (drop (off mod BSIZE) (b_data (bufCache s2 ! b))) = take m (drop off (file_bytes f cs s))"
      using file_chunk [OF co, of off cs m] k m unfolding t(3) k_def by simp
    have fb: "file_bytes f cs ?s = file_bytes f cs s" by (rule file_bytes_cong [OF t(5,6)])
    have "\<exists>s'. ReadInode_loop f me ToObject ip (off + m) n (tot + m) (acc @ take m (drop off (file_bytes f cs s))) ?s =
        Inr (int n, (acc @ take m (drop off (file_bytes f cs s))) @ take (n - (tot + m)) (drop (off + m) (file_bytes f cs ?s)), s') \<and>
        readable_file f ip cs s' \<and> io_frame ip ?s s' \<and> rw_devs s' = rw_devs ?s"
      using m less.prems(2,3) True by (intro less.hyps [OF _ t(4)]) auto
    then obtain s' where s': "ReadInode_loop f me ToObject ip (off + m) n (tot + m) (acc @ take m (drop off (file_bytes f cs s))) ?s =
        Inr (int n, acc @ take m (drop off (file_bytes f cs s)) @ take (n - tot - m) (drop m (drop off (file_bytes f cs s))), s')"
        "readable_file f ip cs s'" "io_frame ip ?s s'" "rw_devs s' = rw_devs s"
      unfolding fb t(6) by (auto simp: add.commute)
    have le: "\<not> BSIZE < off mod BSIZE + m" using m(3) md by simp
    have "take m (drop off (file_bytes f cs s)) @ take (n - tot - m) (drop m (drop off (file_bytes f cs s))) = take (n - tot) (drop off (file_bytes f cs s))"
      using m(2) by (metis le_add_diff_inverse take_add)
    moreover have "ReadInode_loop f me ToObject ip off n tot acc s =
        ReadInode_loop f me ToObject ip (off + m) n (tot + m) (acc @ take m (drop off (file_bytes f cs s))) ?s"
      using True B t(1,2) chunk [symmetric] bpc le
      by (simp add: ReadInode_loop.simps [of f me ToObject ip off n tot] k_def [symmetric] m_def [symmetric] Let_def sink_put_def)
    ultimately show ?thesis using s' io_frame_trans [OF t(5) s'(3)] by auto
  qed
qed

section \<open>Writing\<close>

lemma file_bytes_length: "coherent (fs_dev (fats s ! f)) s \<Longrightarrow> length (file_bytes f cs s) = length cs * BSIZE"
  by (induction cs) (simp_all add: file_bytes_def coherent_def disk_cluster_length)

lemma splice_shift: "length x = a \<Longrightarrow> splice (a + b) bs (x @ xs) = x @ splice b bs xs"
  by (simp add: splice_def add.assoc)

lemma concat_update:
  assumes "\<forall>x \<in> set xs. length x = m" "k < length xs" "r + length ch \<le> m"
  shows "concat (xs[k := splice r ch (xs ! k)]) = splice (k * m + r) ch (concat xs)"
  using assms
proof (induction xs arbitrary: k)
  case (Cons x xs)
  show ?case
  proof (cases k)
    case 0
    then show ?thesis using Cons.prems by (simp add: splice_def)
  next
    case (Suc j)
    then show ?thesis using Cons.prems Cons.IH [of j] splice_shift [of x m "j * m + r" ch "concat xs"]
      by (simp add: add.assoc)
  qed
qed simp

lemma splice_splice:
  "off + length b1 + length b2 \<le> length xs \<Longrightarrow> splice (off + length b1) b2 (splice off b1 xs) = splice off (b1 @ b2) xs"
  by (simp add: splice_def ac_simps)

lemma file_bytes_write:
  assumes "readable_file f ip cs s" "distinct cs" "k < length cs" "r + length ch \<le> BSIZE" and fr: "io_frame ip s s'"
    and w: "\<And>c. good_cluster s c \<Longrightarrow> disk_cluster (fs_dev (fats s ! f)) s' c =
      (if c = cs ! k then splice r ch (disk_cluster (fs_dev (fats s ! f)) s c) else disk_cluster (fs_dev (fats s ! f)) s c)"
  shows "file_bytes f cs s' = splice (k * BSIZE + r) ch (file_bytes f cs s)"
proof -
  let ?g = "disk_cluster (fs_dev (fats s ! f)) s"
  have l: "\<forall>x \<in> set (map ?g cs). length x = BSIZE"
    using assms(1) disk_cluster_length by (auto simp: readable_file_def coherent_def)
  have "map (disk_cluster (fs_dev (fats s ! f)) s') cs = (map ?g cs)[k := splice r ch (map ?g cs ! k)]"
  proof (rule nth_equalityI)
    fix i assume "i < length (map (disk_cluster (fs_dev (fats s ! f)) s') cs)"
    moreover from this have "good_cluster s (cs ! i)" using assms(1) by (simp add: readable_file_def)
    ultimately show "map (disk_cluster (fs_dev (fats s ! f)) s') cs ! i = (map ?g cs)[k := splice r ch (map ?g cs ! k)] ! i"
      using assms(2,3) by (simp add: w nth_list_update nth_eq_iff_index_eq)
  qed simp
  then show ?thesis using concat_update [OF l, of k r ch] assms(3,4) by (simp add: file_bytes_def io_frame_simps [OF fr])
qed

lemma write_turn:
  assumes r: "readable_file f ip cs s" and d: "distinct cs" and k: "k < length cs" and l: "md + length ch \<le> BSIZE"
  obtains s1 b s2 s4 where "bmap f ip k s = Inr (cs ! k, s1)" and "bl_read me (fs_dev (fats s1 ! f)) (cs ! k) s1 = Inr (b, s2)"
    and "bl_write b (upd_buf b (\<lambda>x. x\<lparr>b_data := splice md ch (b_data x)\<rparr>) s2) = Inr s4"
    and "readable_file f ip cs (freeBuffer b s4)" and "io_frame ip s (freeBuffer b s4)"
    and "file_bytes f cs (freeBuffer b s4) = splice (k * BSIZE + md) ch (file_bytes f cs s)"
    and "\<And>c. good_cluster s c \<Longrightarrow> c \<noteq> cs ! k \<Longrightarrow> disk_cluster (fs_dev (fats s ! f)) (freeBuffer b s4) c = disk_cluster (fs_dev (fats s ! f)) s c"
proof -
  let ?s1 = "set_hint ip k (cs ! k) s" and ?D = "fs_dev (fats s ! f)"
  obtain b bs where t: "bmap f ip k s = Inr (cs ! k, ?s1)"
    "bl_read me ?D (cs ! k) ?s1 = Inr (b, ?s1\<lparr>bufCache := bs\<rparr>)" "coherent ?D (?s1\<lparr>bufCache := bs\<rparr>)"
    "cache_held b (?s1\<lparr>bufCache := bs\<rparr>)" "b_valid (bs ! b)" "b_blockno (bs ! b) = cs ! k"
    "b_data (bs ! b) = disk_cluster ?D s (cs ! k)"
    by (rule turn_begins [OF r k])
  let ?s2 = "?s1\<lparr>bufCache := bs\<rparr>"
  define data where "data = splice md ch (disk_cluster ?D s (cs ! k))"
  have geo: "disk_geometry ?D s" using r by (simp add: readable_file_def coherent_def)
  have ld: "length data = BSIZE" using l disk_cluster_length [OF geo] by (simp add: data_def)
  let ?u = "bs[b := (bs ! b)\<lparr>b_data := data\<rparr>]"
  have v: "b_valid (bufCache ?s2 ! b)" using t(5) by simp
  obtain dv where w: "bl_write b (upd_buf b (\<lambda>x. x\<lparr>b_data := data\<rparr>) ?s2) =
        Inr (?s2\<lparr>bufCache := (bufCache ?s2)[b := (bufCache ?s2 ! b)\<lparr>b_data := data\<rparr>], rw_devs := dv\<rparr>)"
      "coherent ?D (?s2\<lparr>bufCache := (bufCache ?s2)[b := (bufCache ?s2 ! b)\<lparr>b_data := data\<rparr>], rw_devs := dv\<rparr>)"
      "\<And>c'. good_cluster ?s2 c' \<Longrightarrow> disk_cluster ?D (?s2\<lparr>bufCache := ?u, rw_devs := dv\<rparr>) c' =
        (if c' = b_blockno (bufCache ?s2 ! b) then data else disk_cluster ?D ?s2 c')"
    by (rule bl_write_coherent [OF t(3,4) v ld, where bs' = ?u]) (rule that)
  let ?s4 = "?s2\<lparr>bufCache := ?u, rw_devs := dv\<rparr>"
  have w4: "bl_write b (upd_buf b (\<lambda>x. x\<lparr>b_data := data\<rparr>) ?s2) = Inr ?s4" "coherent ?D ?s4" using w(1,2) by simp_all
  have s2: "good_cluster ?s2 x = good_cluster s x" "disk_cluster ?D ?s2 x = disk_cluster ?D s x" for x
    using cluster_facts_cong [of ?s2 s] by (simp_all add: set_hint_def upd_inode_def)
  have h: "cache_held b ?s4" using t(3,4) by (simp add: cache_held_def coherent_def nth_list_update)
  obtain bs' tt where fr: "freeBuffer b ?s4 = ?s4\<lparr>bufCache := bs', taskTable := tt\<rparr>" "coherent ?D (freeBuffer b ?s4)"
      "cache_idle (freeBuffer b ?s4)" "\<And>x. disk_cluster ?D (freeBuffer b ?s4) x = disk_cluster ?D ?s4 x"
    by (rule freeBuffer_idle [OF w4(2) h]) (rule that)
  have e: "freeBuffer b ?s4 = ?s1\<lparr>bufCache := bs', taskTable := tt, rw_devs := dv\<rparr>"
    unfolding fr(1) by (simp add: set_hint_def upd_inode_def)
  note rr = readable_restore [OF r k e fr(2,3)]
  have dc: "disk_cluster ?D (freeBuffer b ?s4) c = (if c = cs ! k then data else disk_cluster ?D s c)" if "good_cluster s c" for c
    unfolding fr(4) using w(3) [of c] that t(6) s2 by simp
  have "file_bytes f cs (freeBuffer b ?s4) = splice (k * BSIZE + md) ch (file_bytes f cs s)"
  proof (rule file_bytes_write [OF r d k l rr(2)])
    fix c assume "good_cluster s c"
    from dc [OF this] show "disk_cluster ?D (freeBuffer b ?s4) c =
        (if c = cs ! k then splice md ch (disk_cluster ?D s c) else disk_cluster ?D s c)"
      unfolding data_def by simp
  qed
  moreover have "upd_buf b (\<lambda>x. x\<lparr>b_data := splice md ch (b_data x)\<rparr>) ?s2 = upd_buf b (\<lambda>x. x\<lparr>b_data := data\<rparr>) ?s2"
    using t(7) by (simp add: upd_buf_def data_def)
  moreover have "fats ?s1 = fats s" by (simp add: set_hint_def upd_inode_def)
  ultimately show thesis using t(1,2) w4(1) rr dc by (intro that [of ?s1 b ?s2 ?s4]) simp_all
qed

lemma WriteInode_loop_writes:
  assumes "readable_file f ip cs s" "distinct cs" "tot \<le> n" "n \<le> length bs" "off + (n - tot) \<le> length cs * BSIZE"
  shows "\<exists>s'. WriteInode_loop f me (FromObject bs) ip off n tot s = Inr (int n, off + (n - tot), s') \<and>
    readable_file f ip cs s' \<and> io_frame ip s s' \<and>
    file_bytes f cs s' = splice off (take (n - tot) (drop tot bs)) (file_bytes f cs s) \<and>
    (\<forall>c. good_cluster s c \<longrightarrow> c \<notin> set cs \<longrightarrow> disk_cluster (fs_dev (fats s ! f)) s' c = disk_cluster (fs_dev (fats s ! f)) s c)"
  using assms
proof (induction "n - tot" arbitrary: off tot s rule: less_induct)
  case less
  show ?case
  proof (cases "tot < n")
    case False
    then have "WriteInode_loop f me (FromObject bs) ip off n tot s = Inr (int n, off, s)"
      using less.prems(3) by (subst WriteInode_loop.simps) simp
    then show ?thesis using False less.prems(1) io_frame_refl by (intro exI [of _ s]) (simp add: splice_def)
  next
    case True
    define k where "k = off div BSIZE"
    define m where "m = min (n - tot) (BSIZE - off mod BSIZE)"
    define ch where "ch = take m (drop tot bs)"
    have B: "0 < BSIZE" by (simp add: BSIZE_def)
    then have md: "off mod BSIZE < BSIZE" by simp
    have m: "0 < m" "m \<le> n - tot" "m \<le> BSIZE - off mod BSIZE" using True md by (simp_all add: m_def)
    have lch: "length ch = m" "off mod BSIZE + length ch \<le> BSIZE" using m md less.prems(3,4) True by (simp_all add: ch_def)
    have k: "k < length cs" using less.prems(5) True B unfolding k_def by (simp add: div_less_iff_less_mult)
    obtain s1 b s2 s4 where t: "bmap f ip k s = Inr (cs ! k, s1)" "bl_read me (fs_dev (fats s1 ! f)) (cs ! k) s1 = Inr (b, s2)"
      "bl_write b (upd_buf b (\<lambda>x. x\<lparr>b_data := splice (off mod BSIZE) ch (b_data x)\<rparr>) s2) = Inr s4"
      "readable_file f ip cs (freeBuffer b s4)" "io_frame ip s (freeBuffer b s4)"
      "file_bytes f cs (freeBuffer b s4) = splice (k * BSIZE + off mod BSIZE) ch (file_bytes f cs s)"
      "\<And>c. good_cluster s c \<Longrightarrow> c \<noteq> cs ! k \<Longrightarrow> disk_cluster (fs_dev (fats s ! f)) (freeBuffer b s4) c = disk_cluster (fs_dev (fats s ! f)) s c"
      by (rule write_turn [OF less.prems(1,2) k lch(2), of me]) (rule that)
    let ?s = "freeBuffer b s4"
    have fb: "file_bytes f cs ?s = splice off ch (file_bytes f cs s)" using t(6) by (simp add: k_def)
    have "\<exists>s'. WriteInode_loop f me (FromObject bs) ip (off + m) n (tot + m) ?s = Inr (int n, off + m + (n - (tot + m)), s') \<and>
        readable_file f ip cs s' \<and> io_frame ip ?s s' \<and>
        file_bytes f cs s' = splice (off + m) (take (n - (tot + m)) (drop (tot + m) bs)) (file_bytes f cs ?s) \<and>
        (\<forall>c. good_cluster ?s c \<longrightarrow> c \<notin> set cs \<longrightarrow> disk_cluster (fs_dev (fats ?s ! f)) s' c = disk_cluster (fs_dev (fats ?s ! f)) ?s c)"
      using m less.prems(2-5) True by (intro less.hyps [OF _ t(4)]) auto
    then obtain s' where s': "WriteInode_loop f me (FromObject bs) ip (off + m) n (tot + m) ?s = Inr (int n, off + (n - tot), s')"
        "readable_file f ip cs s'" "io_frame ip ?s s'"
        "file_bytes f cs s' = splice (off + m) (take (n - tot - m) (drop (tot + m) bs)) (splice off ch (file_bytes f cs s))"
        "\<forall>c. good_cluster s c \<longrightarrow> c \<notin> set cs \<longrightarrow> disk_cluster (fs_dev (fats s ! f)) s' c = disk_cluster (fs_dev (fats s ! f)) ?s c"
      using m(2) unfolding fb io_frame_simps [OF t(5)] by (auto simp: diff_diff_add)
    have len: "length (file_bytes f cs s) = length cs * BSIZE"
      using less.prems(1) by (simp add: file_bytes_length readable_file_def)
    have "ch @ take (n - tot - m) (drop (tot + m) bs) = take (n - tot) (drop tot bs)"
      using m(2) unfolding ch_def by (metis add.commute drop_drop le_add_diff_inverse take_add)
    then have fin: "file_bytes f cs s' = splice off (take (n - tot) (drop tot bs)) (file_bytes f cs s)"
      using s'(4) splice_splice [of off ch "take (n - tot - m) (drop (tot + m) bs)" "file_bytes f cs s"] lch(1) m less.prems(3-5) len by simp
    have le: "\<not> BSIZE < off mod BSIZE + m" using m(3) md by simp
    have src: "source_get me (FromObject bs) tot m s2 = Inr (0, ch)" using m less.prems(3,4) True by (simp add: source_get_def ch_def)
    have bpc: "info_bytes_per_cluster (the_info f s) = BSIZE" using less.prems(1) by (simp add: readable_file_def)
    have "WriteInode_loop f me (FromObject bs) ip off n tot s = WriteInode_loop f me (FromObject bs) ip (off + m) n (tot + m) ?s"
      using True B t(1,2,3) le src bpc
      by (simp add: WriteInode_loop.simps [of f me "FromObject bs" ip off n tot] k_def [symmetric] m_def [symmetric] Let_def)
    moreover have "\<forall>c. good_cluster s c \<longrightarrow> c \<notin> set cs \<longrightarrow>
        disk_cluster (fs_dev (fats s ! f)) ?s c = disk_cluster (fs_dev (fats s ! f)) s c"
      using t(7) nth_mem [OF k] by blast
    ultimately show ?thesis using s' fin io_frame_trans [OF t(5) s'(3)] by (intro exI [of _ s']) simp
  qed
qed

section \<open>Properties of the cluster layer\<close>

text \<open>
  A small volume for the concrete instances: clusters 2 and 3 form the file of inode 0, clusters 4 and 5 are
  free, and inode 0 has 5000 bytes.
\<close>

definition small_table :: "nat list" where "small_table = [0, 0, 3, kEndOfCluster32, 0, 0]"

definition small_info :: Fat32Info where
  "small_info = \<lparr>info_first_data_sector = 64, info_cluster_count = 5, info_bytes_per_cluster = 4096, info_bytes_per_sector = 512,
     info_sectors_per_fat = 1, info_fat_num = 1, info_sectors_per_cluster = 8, info_reserve_sectors = 32, info_root_cluster = 2\<rparr>"

definition small_volume :: kfat where
  "small_volume = bl_init
     \<lparr>mem = (\<lambda>_. 0), kend = 0x80020000, freeList = 0, npage = 0, total_page = 0, freelist = (\<lambda>_. 0), maxlv = 12,
      minlv = 4, taskTable = [blank_task], initTask = None, vma_table = [], ticks = 0, trampoline = 0,
      stack_base = 0, forkret_addr = 0, pipes = (\<lambda>_. None), rw_devs = [Some empty_disk], bufCache = [],
      bl_first_data_sector = 64, bl_sectors_per_cluster = 8,
      inodes = [zero_inode\<lparr>i_sz := 5000, i_fs := FatFs 0, i_msdos := \<lparr>im_start = 2, im_logi = 0, im_clus = 2, im_attrs = 0, im_pos = 0\<rparr>\<rparr>],
      fats = [\<lparr>fs_dev = 0, fat_bpb = \<lparr>bytes_per_sector = 512, sectors_per_cluster = 8, reserved_sectors = 32, number_of_fat = 1,
          total_sectors_long = 40, sectors_per_fat_v32 = 1, root_directory_cluster_start = 2, fs_information_sector = 1\<rparr>,
        fs_info = small_info, root_inode = 9, inode_cache_map = hm_new 5 0\<rparr>],
      fat_cache = (\<lambda>k. if k < 24 then concat (map (\<lambda>v. bytes32 (of_nat v)) small_table) ! k else 0),
      clock_now = 0, clock_nsec = 0, stack_junk = replicate 64 0\<rparr>"

lemma small_volume_table: "fat_val small_volume c = (if c < 6 then small_table ! c else 0)"
proof (cases "c < 6")
  case True
  then have "c = 0 \<or> c = 1 \<or> c = 2 \<or> c = 3 \<or> c = 4 \<or> c = 5" by presburger
  then have "map (\<lambda>k. fat_cache small_volume (4 * c + k)) [0..<4] = bytes32 (of_nat (small_table ! c))"
    by (elim disjE) (simp_all add: small_volume_def bl_init_def small_table_def bytes32_def kEndOfCluster32_def upt_conv_Cons)
  moreover have "small_table ! c < 2 ^ 32"
    using \<open>c = 0 \<or> _\<close> by (elim disjE) (simp_all add: small_table_def kEndOfCluster32_def)
  ultimately show ?thesis using True by (simp add: fat_val_def get32_bytes32 del: upt_conv_Cons)
next
  case False
  then show ?thesis by (simp add: fat_val_def small_volume_def bl_init_def get32_def)
qed

lemma small_volume_info: "the_info 0 small_volume = small_info" "fs_dev (fats small_volume ! 0) = 0"
  "rw_devs small_volume = [Some empty_disk]" "i_sz (inodes small_volume ! 0) = 5000"
  by (simp_all add: the_info_def small_volume_def bl_init_def)

lemma small_volume_geometry: "fat_geometry 0 small_volume" "data_geometry 0 small_volume"
  by (auto simp: fat_geometry_def data_geometry_def small_volume_info small_info_def Let_def)

lemma small_volume_readable: "readable_file 0 0 [2, 3] small_volume"
proof -
  have "coherent 0 small_volume \<and> cache_idle small_volume"
    unfolding small_volume_def by (rule bl_init_coherent) (simp add: disk_geometry_def empty_disk_def)
  moreover have "file_clusters 0 0 [2, 3] small_volume"
    by (simp add: file_clusters_def small_volume_info small_info_def Let_def small_volume_table small_table_def kEndOfCluster32_def)
      (simp add: small_volume_def bl_init_def zero_inode_def)
  moreover have "good_cluster small_volume 2 \<and> good_cluster small_volume 3"
    by (simp add: good_cluster_def small_volume_def bl_init_def)
  ultimately show ?thesis
    using small_volume_geometry by (simp add: readable_file_def small_volume_info) (simp add: small_info_def BSIZE_def)
qed

text \<open>
  C22: \<^verbatim>\<open>AllocCluster\<close> returns the lowest free cluster of the table, marks it as the end of a chain, fills its
  sectors with zeros, and changes no other table entry and no other sector.
\<close>

theorem AllocCluster_takes_first_free:
  assumes "fat_geometry f s" "data_geometry f s" "2 \<le> x" "x \<le> info_cluster_count (the_info f s)" "fat_val s x = 0"
    and "\<forall>y. 2 \<le> y \<longrightarrow> y < x \<longrightarrow> fat_val s y \<noteq> 0" and "rw_devs s ! fs_dev (fats s ! f) = Some d"
  shows "\<exists>s' d'. AllocCluster f s = Inr (x, s') \<and> fat_val s' = (fat_val s)(x := kEndOfCluster32) \<and>
    rw_devs s' = (rw_devs s)[fs_dev (fats s ! f) := Some d'] \<and>
    (\<forall>k. rw_sector d' k = (if sector_base f s x \<le> k \<and> k < sector_base f s x + info_sectors_per_cluster (the_info f s)
                           then replicate 512 0 else rw_sector d k))"
proof -
  obtain fc where a: "AllocCluster f s = Inr (x, s\<lparr>fat_cache := fc, rw_devs := (rw_devs s)[fs_dev (fats s ! f) :=
      Some (zero_sectors (sector_base f s x) (info_sectors_per_cluster (the_info f s)) d)]\<rparr>)"
      "fat_val (s\<lparr>fat_cache := fc\<rparr>) = (fat_val s)(x := kEndOfCluster32)"
    by (rule AllocCluster_takes [OF assms])
  have "fat_val (s\<lparr>fat_cache := fc, rw_devs := dv\<rparr>) = fat_val (s\<lparr>fat_cache := fc\<rparr>)" for dv
    by (simp add: fat_val_def fun_eq_iff)
  then show ?thesis using a
    by (intro exI [of _ "s\<lparr>fat_cache := fc, rw_devs := (rw_devs s)[fs_dev (fats s ! f) :=
          Some (zero_sectors (sector_base f s x) (info_sectors_per_cluster (the_info f s)) d)]\<rparr>"]
        exI [of _ "zero_sectors (sector_base f s x) (info_sectors_per_cluster (the_info f s)) d"])
      (simp add: zero_sectors_def)
qed

theorem AllocCluster_takes_first_free_witness:
  "\<exists>s'. AllocCluster 0 small_volume = Inr (4, s') \<and> fat_val s' 4 = kEndOfCluster32 \<and> fat_val s' 2 = 3"
proof -
  have "\<forall>y. 2 \<le> y \<longrightarrow> y < 4 \<longrightarrow> fat_val small_volume y \<noteq> 0"
  proof (intro allI impI)
    fix y :: nat assume "2 \<le> y" "y < 4"
    then have "y = 2 \<or> y = 3" by presburger
    then show "fat_val small_volume y \<noteq> 0" by (auto simp: small_volume_table small_table_def kEndOfCluster32_def)
  qed
  then show ?thesis
    using AllocCluster_takes_first_free [OF small_volume_geometry, of 4 empty_disk]
    by (fastforce simp: small_volume_info small_volume_table small_table_def small_info_def)
qed

text \<open>
  C23: \<^verbatim>\<open>AllocCluster\<close> returns exactly when the table has a free cluster: on a full volume its loop goes on past the table, where
  \<^verbatim>\<open>GetFatEntry\<close> answers \<^verbatim>\<open>-1\<close>, until its counter overflows (the panic behind it cannot be reached).
\<close>

theorem AllocCluster_returns_iff:
  assumes "fat_geometry f s" "data_geometry f s"
  shows "if \<exists>c. 2 \<le> c \<and> c \<le> info_cluster_count (the_info f s) \<and> fat_val s c = 0
    then \<exists>c s'. AllocCluster f s = Inr (c, s') else AllocCluster f s = Inl (Stuck ''AllocCluster'')"
proof (cases "\<exists>c. 2 \<le> c \<and> c \<le> info_cluster_count (the_info f s) \<and> fat_val s c = 0")
  case True
  define P where "P = (\<lambda>c. 2 \<le> c \<and> c \<le> info_cluster_count (the_info f s) \<and> fat_val s c = 0)"
  have "\<exists>c. P c" using True by (simp add: P_def)
  then have p: "P (LEAST c. P c)" by (rule LeastI_ex)
  have "\<forall>y. 2 \<le> y \<longrightarrow> y < (LEAST c. P c) \<longrightarrow> fat_val s y \<noteq> 0"
    using p not_less_Least [of _ P] by (auto simp: P_def)
  moreover obtain d where "rw_devs s ! fs_dev (fats s ! f) = Some d" using assms(2) by (auto simp: data_geometry_def Let_def)
  moreover have "2 \<le> (LEAST c. P c)" "(LEAST c. P c) \<le> info_cluster_count (the_info f s)" "fat_val s (LEAST c. P c) = 0"
    using p by (simp_all only: P_def)
  ultimately have "\<exists>c s'. AllocCluster f s = Inr (c, s')"
    using AllocCluster_takes [OF assms, of "LEAST c. P c" d] by metis
  then show ?thesis using True by simp
next
  case False
  then show ?thesis using AllocCluster_loop_full [OF assms(1), of 2] unfolding AllocCluster_def by auto
qed

theorem AllocCluster_returns_iff_witness:
  "\<exists>c s'. AllocCluster 0 small_volume = Inr (c, s')"
proof -
  have "\<exists>c. 2 \<le> c \<and> c \<le> info_cluster_count (the_info 0 small_volume) \<and> fat_val small_volume c = 0"
    by (intro exI [of _ 4]) (simp add: small_volume_info small_volume_table small_table_def small_info_def)
  then show ?thesis using AllocCluster_returns_iff [OF small_volume_geometry] by simp
qed

text \<open>
  C25: \<^verbatim>\<open>FreeClusterChain\<close> of a chain that ends with the end mark and repeats no cluster terminates, frees exactly the
  clusters of the chain and changes nothing else.
\<close>

theorem FreeClusterChain_frees:
  assumes "fat_geometry f s" "fat_chain f s c cs" "distinct cs"
  shows "\<exists>fc. FreeClusterChain f c s = Inr (s\<lparr>fat_cache := fc\<rparr>) \<and>
    fat_val (s\<lparr>fat_cache := fc\<rparr>) = (\<lambda>x. if x \<in> set cs then 0 else fat_val s x)"
  unfolding FreeClusterChain_def
  by (rule FreeClusterChain_loop_frees [OF assms]) (use fat_chain_length [OF assms(2,3)] in simp)

theorem FreeClusterChain_frees_witness:
  "\<exists>s'. FreeClusterChain 0 2 small_volume = Inr s' \<and> fat_val s' 2 = 0 \<and> fat_val s' 3 = 0"
proof -
  have "fat_chain 0 small_volume 2 [2, 3]"
    by (simp add: small_volume_info small_info_def small_volume_table small_table_def kEndOfCluster32_def)
  then show ?thesis using FreeClusterChain_frees [OF small_volume_geometry(1), of 2 "[2, 3]"] by fastforce
qed

text \<open>
  A chain that leads to a cluster number outside the table (other than the end mark) is followed for ever:
  \<^verbatim>\<open>GetFatEntry\<close> answers -1 there, which is not the end mark.
\<close>

lemma FreeClusterChain_outside_hangs:
  assumes "info_cluster_count (the_info f s) < c" "c \<noteq> kEndOfCluster32" "info_cluster_count (the_info f s) < 0xffffffff"
  shows "FreeClusterChain_loop fuel f c s = Inl (Stuck ''FreeClusterChain'')"
  by (rule FreeClusterChain_outside [OF assms])

text \<open>
  C3: \<^verbatim>\<open>ReadInode\<close> of a file whose clusters form a chain, with a coherent and unused cache, returns the bytes of the
  file from the offset on, as many as were asked for and lie within the file size, whatever clusters they
  span; it returns their number, leaves the disk and the file as they were and no buffer in use.
\<close>

theorem ReadInode_reads_file:
  assumes "readable_file f ip cs s" and "off \<le> i_sz (inodes s ! ip)" and "i_sz (inodes s ! ip) \<le> length cs * BSIZE" and "off + n < 2 ^ 64"
  shows "\<exists>s'. ReadInode f me ToObject ip off n s =
      Inr (int (min n (i_sz (inodes s ! ip) - off)), take (min n (i_sz (inodes s ! ip) - off)) (drop off (file_bytes f cs s)), s') \<and>
    readable_file f ip cs s' \<and> file_bytes f cs s' = file_bytes f cs s \<and> rw_devs s' = rw_devs s \<and> fat_val s' = fat_val s"
proof -
  let ?n = "min n (i_sz (inodes s ! ip) - off)"
  have ip: "the_inode ip s = Inr (inodes s ! ip)"
    using assms(1) by (simp add: readable_file_def file_clusters_def the_inode_def Let_def)
  have "ReadInode f me ToObject ip off n s = ReadInode_loop f me ToObject ip off ?n 0 [] s"
    using assms(2,4) by (auto simp: ReadInode_def ip Let_def min_def)
  moreover obtain s' where "ReadInode_loop f me ToObject ip off ?n 0 [] s = Inr (int ?n, take ?n (drop off (file_bytes f cs s)), s')"
      "readable_file f ip cs s'" "io_frame ip s s'" "rw_devs s' = rw_devs s"
  proof -
    have "off + ?n \<le> length cs * BSIZE" using assms(2,3) by linarith
    then show ?thesis using ReadInode_loop_reads [OF assms(1), of 0 ?n off me "[]"] that by auto
  qed
  ultimately show ?thesis using file_bytes_cong [of ip s s' f cs] io_frame_simps(4) [of ip s s'] by auto
qed

theorem ReadInode_reads_file_witness:
  "\<exists>s'. ReadInode 0 0 ToObject 0 4090 2000 small_volume = Inr (910, take 910 (drop 4090 (file_bytes 0 [2, 3] small_volume)), s')"
  using ReadInode_reads_file [OF small_volume_readable, of 4090 2000 0] by (auto simp: small_volume_info BSIZE_def)

text \<open>
  C4: What the write loop of \<^verbatim>\<open>WriteInode\<close> puts into a file within its clusters is what \<^verbatim>\<open>ReadInode\<close> returns afterwards;
  the other bytes of the file, and every cluster of the disk outside the file, are unchanged.
\<close>

theorem WriteInode_ReadInode:
  assumes "readable_file f ip cs s" "distinct cs" and "off + length bs \<le> i_sz (inodes s ! ip)"
    and "i_sz (inodes s ! ip) \<le> length cs * BSIZE" and "off + length bs < 2 ^ 64"
  shows "\<exists>s1 s2. WriteInode_loop f me (FromObject bs) ip off (length bs) 0 s = Inr (int (length bs), off + length bs, s1) \<and>
    ReadInode f me ToObject ip off (length bs) s1 = Inr (int (length bs), bs, s2) \<and>
    file_bytes f cs s1 = splice off bs (file_bytes f cs s) \<and>
    (\<forall>c. good_cluster s c \<longrightarrow> c \<notin> set cs \<longrightarrow> disk_cluster (fs_dev (fats s ! f)) s1 c = disk_cluster (fs_dev (fats s ! f)) s c)"
proof -
  obtain s1 where w: "WriteInode_loop f me (FromObject bs) ip off (length bs) 0 s = Inr (int (length bs), off + length bs, s1)"
      "readable_file f ip cs s1" "io_frame ip s s1" "file_bytes f cs s1 = splice off bs (file_bytes f cs s)"
      "\<forall>c. good_cluster s c \<longrightarrow> c \<notin> set cs \<longrightarrow> disk_cluster (fs_dev (fats s ! f)) s1 c = disk_cluster (fs_dev (fats s ! f)) s c"
    using WriteInode_loop_writes [OF assms(1,2), of 0 "length bs" bs off me] assms(3,4) by auto
  have sz: "i_sz (inodes s1 ! ip) = i_sz (inodes s ! ip)" by (rule io_frame_simps(8) [OF w(3)])
  have len: "length (file_bytes f cs s) = length cs * BSIZE" using assms(1) by (simp add: file_bytes_length readable_file_def)
  obtain s2 where "ReadInode_loop f me ToObject ip off (length bs) 0 [] s1 =
      Inr (int (length bs), take (length bs) (drop off (file_bytes f cs s1)), s2)"
    using ReadInode_loop_reads [OF w(2), of 0 "length bs" off me "[]"] assms(3,4) by auto
  moreover have "take (length bs) (drop off (file_bytes f cs s1)) = bs"
    using assms(3,4) len by (simp add: w(4) splice_def)
  moreover have "the_inode ip s1 = Inr (inodes s1 ! ip)"
    using w(2) by (simp add: readable_file_def file_clusters_def the_inode_def Let_def)
  ultimately have "ReadInode f me ToObject ip off (length bs) s1 = Inr (int (length bs), bs, s2)"
    using assms(3,5) sz by (simp add: ReadInode_def)
  then show ?thesis using w by blast
qed

theorem WriteInode_ReadInode_witness:
  "\<exists>s1 s2. WriteInode_loop 0 0 (FromObject [1, 2, 3]) 0 4094 3 0 small_volume = Inr (3, 4097, s1) \<and>
     ReadInode 0 0 ToObject 0 4094 3 s1 = Inr (3, [1, 2, 3], s2)"
  using WriteInode_ReadInode [OF small_volume_readable, of 4094 "[1, 2, 3]" 0]
  by (auto simp: small_volume_info BSIZE_def numeral_3_eq_3)

end
