(* ===== verification/FatDir.thy ===== *)
theory FatDir
  imports Fat32
begin

text \<open>
  Inodes and directories of the FAT32 file system: reference counts and locks of inodes
  (\<^verbatim>\<open>src/kernel/fs/vfs_file.cpp\<close>), the inode cache, creation, lookup, listing and deletion of entries,
  and mounting (the constructor and \<^verbatim>\<open>Init\<close>), all of \<^verbatim>\<open>src/kernel/fs/fat32/fat32_file_system.cpp\<close>, with
  \<^verbatim>\<open>filldir\<close> of \<^verbatim>\<open>src/kernel/include/fs/vfs/file_system.hpp\<close>. A file whose long entries are the ones creation
  writes is found by lookup under its long name.
\<close>

section \<open>Inodes\<close>

definition inode_chan :: "nat \<Rightarrow> chan" where "inode_chan ip = ChLock (2 * ip + 1)"

text \<open>As for buffers, a lock that is still held is never released.\<close>

definition inode_lock :: "nat \<Rightarrow> nat \<Rightarrow> 'a kfat_scheme \<Rightarrow> 'a kfat_scheme result" where
  "inode_lock me ip s =
     bindr (the_inode ip s) (\<lambda>nd.
       case sl_lock me (inode_chan ip) (i_lock nd) s of
         (Sleep c, s1) \<Rightarrow> Inl (Stuck ''inode lock'')
       | (Done l, s1) \<Rightarrow> Inr (upd_inode ip (i_lock_update (\<lambda>_. l)) s1))"

definition inode_unlock :: "nat \<Rightarrow> 'a kfat_scheme \<Rightarrow> 'a kfat_scheme" where
  "inode_unlock ip s =
     (let (l, s1) = sl_unlock (inode_chan ip) (i_lock (inodes s ! ip)) s in
      upd_inode ip (i_lock_update (\<lambda>_. l)) s1)"

definition inode_dup :: "nat \<Rightarrow> nat \<Rightarrow> 'a kfat_scheme \<Rightarrow> (nat \<times> 'a kfat_scheme) result" where
  "inode_dup me ip s =
     bindr (inode_lock me ip s) (\<lambda>s1.
       Inr (ip, inode_unlock ip (upd_inode ip (\<lambda>n. n\<lparr>i_ref := i_ref n + 1\<rparr>) s1)))"

text \<open>\<^verbatim>\<open>DeleteInode\<close> takes the inode out of the cache and returns its memory.\<close>

definition fat_DeleteInode :: "nat \<Rightarrow> nat \<Rightarrow> 'a kfat_scheme \<Rightarrow> 'a kfat_scheme result" where
  "fat_DeleteInode f ip s =
     bindr (the_inode ip s) (\<lambda>nd.
       bindr (hm_poll (of_nat (im_pos (i_msdos nd))) (inode_cache_map (fats s ! f))) (\<lambda>(v, m).
         Inr (upd_inode ip (\<lambda>n. n\<lparr>i_live := False\<rparr>)
           (s\<lparr>fats := (fats s)[f := (fats s ! f)\<lparr>inode_cache_map := m\<rparr>]\<rparr>))))"

text \<open>
  \<^verbatim>\<open>free\<close>; the device file system does not delete inodes. The unlocking that follows a deletion writes to
  memory that was given back, and is kept on the dead object here.
\<close>

definition inode_free :: "nat \<Rightarrow> nat \<Rightarrow> 'a kfat_scheme \<Rightarrow> 'a kfat_scheme result" where
  "inode_free me ip s =
     bindr (inode_lock me ip s) (\<lambda>s1.
       let nd = inodes s1 ! ip in
       if i_ref nd < 1 then Inl (Panic ''inode free'')
       else
         let s2 = upd_inode ip (\<lambda>n. n\<lparr>i_ref := i_ref n - 1\<rparr>) s1 in
         bindr (if i_ref nd - 1 = 0
                then (case i_fs nd of FatFs f \<Rightarrow> fat_DeleteInode f ip s2 | DevFs d \<Rightarrow> Inr s2
                      | NoFs \<Rightarrow> Inl (BadAccess ''file_system''))
                else Inr s2)
           (\<lambda>s3. Inr (inode_unlock ip s3)))"

definition fat_AllocInode :: "'a kfat_scheme \<Rightarrow> nat \<times> 'a kfat_scheme" where
  "fat_AllocInode s = (length (inodes s), s\<lparr>inodes := inodes s @ [zero_inode]\<rparr>)"

definition fat_GetRootInode :: "nat \<Rightarrow> nat \<Rightarrow> 'a kfat_scheme \<Rightarrow> (nat \<times> 'a kfat_scheme) result" where
  "fat_GetRootInode f me s = inode_dup me (root_inode (fats s ! f)) s"

definition GetInode :: "nat \<Rightarrow> nat \<Rightarrow> nat \<Rightarrow> 'a kfat_scheme \<Rightarrow> (nat option \<times> 'a kfat_scheme) result" where
  "GetInode f me pos s =
     bindr (hm_get (of_nat pos) (inode_cache_map (fats s ! f))) (\<lambda>r.
       case r of None \<Rightarrow> Inr (None, s)
       | Some ip \<Rightarrow> bindr (inode_dup me ip s) (\<lambda>(ip, s1). Inr (Some ip, s1)))"

definition kMsdosRootIno :: nat where "kMsdosRootIno = 1"

definition BuildInode :: "nat \<Rightarrow> nat \<Rightarrow> MsdosEntry \<Rightarrow> nat \<Rightarrow> nat \<Rightarrow> 'a kfat_scheme \<Rightarrow> (nat \<times> 'a kfat_scheme) result" where
  "BuildInode f me entry pos parent s =
     bindr (GetInode f me pos s) (\<lambda>(r, s0).
       case r of Some ip \<Rightarrow> Inr (ip, s0)
       | None \<Rightarrow>
           let (ip, s1) = fat_AllocInode s0 in
           bindr (hm_put (of_nat pos) ip (inode_cache_map (fats s1 ! f))) (\<lambda>m.
             let s2 = s1\<lparr>fats := (fats s1)[f := (fats s1 ! f)\<lparr>inode_cache_map := m\<rparr>]\<rparr>;
                 start = GetStartCluster entry;
                 isdir = (entry_attrib entry AND kFatAttrDirentory \<noteq> 0);
                 s3 = upd_inode parent (\<lambda>n. n\<lparr>i_ref := i_ref n + 1\<rparr>) s2
             in Inr (ip, upd_inode ip (\<lambda>n. n\<lparr>
                  i_msdos := (i_msdos n)\<lparr>im_pos := pos, im_start := start, im_clus := start, im_logi := 0\<rparr>,
                  i_fs := FatFs f, i_dev := fs_dev (fats s ! f), i_inum := start, i_parent := Some parent,
                  i_lock := sl_init, i_nlink := 0, i_ref := 1, i_test_name := sfn_name entry,
                  i_ctime := FatTime2Unix (get16 entry 16) (get16 entry 14),
                  i_atime := FatTime2Unix (get16 entry 18) 0,
                  i_mtime := FatTime2Unix (get16 entry 24) (get16 entry 22),
                  i_mode := i_mode n OR (if isdir then S_IFDIR else S_IFREG),
                  i_sz := (if isdir then 2 ^ 32 - 1 else unat (sfn_file_size entry))\<rparr>) s3)))"

section \<open>Creating entries\<close>

text \<open>
  Directories have size \<^verbatim>\<open>-1\<close>, so a scan in steps of 32 bytes takes fewer than \<open>2 ^ 27\<close> of them: that is
  the fuel of the loops over a directory.
\<close>

definition dir_fuel :: nat where "dir_fuel = 2 ^ 27 + 1"

primrec FindFreeEntry_loop ::
  "nat \<Rightarrow> nat \<Rightarrow> nat \<Rightarrow> nat \<Rightarrow> nat \<Rightarrow> nat \<Rightarrow> nat \<Rightarrow> 'a kfat_scheme \<Rightarrow> (nat \<times> 'a kfat_scheme) result" where
  "FindFreeEntry_loop 0 f me dir n off nfree s = Inl (Stuck ''FindFreeEntry'')"
| "FindFreeEntry_loop (Suc k) f me dir n off nfree s =
     bindr (ReadInode f me ToObject dir off kMsdosEntrySize s) (\<lambda>(r, e, s1).
       if r = int kMsdosEntrySize then
         let off1 = off + kMsdosEntrySize; nfree1 = (if IsDeleted e \<or> IsFree e then nfree + 1 else 0)
         in if nfree1 = n then Inr (off1 - nfree1 * kMsdosEntrySize, s1)
            else FindFreeEntry_loop k f me dir n off1 nfree1 s1
       else Inl (Panic ''fat32:can't find free entry''))"

definition FindFreeEntry :: "nat \<Rightarrow> nat \<Rightarrow> nat \<Rightarrow> nat \<Rightarrow> 'a kfat_scheme \<Rightarrow> (nat \<times> 'a kfat_scheme) result" where
  "FindFreeEntry f me dir n s = FindFreeEntry_loop dir_fuel f me dir n 0 0 s"

primrec Create_lfns ::
  "nat \<Rightarrow> nat \<Rightarrow> nat \<Rightarrow> nat \<Rightarrow> nat \<Rightarrow> nat \<Rightarrow> cstr \<Rightarrow> u8 \<Rightarrow> nat \<Rightarrow> 'a kfat_scheme \<Rightarrow> 'a kfat_scheme result" where
  "Create_lfns 0 f me dir seq lfn_num name checksum off s = Inr s"
| "Create_lfns (Suc k) f me dir seq lfn_num name checksum off s =
     bindr (WriteInode f me (FromObject (fill_long_entry seq lfn_num name checksum)) dir off kMsdosEntrySize s)
       (\<lambda>(r, s1). Create_lfns k f me dir (Suc seq) lfn_num (drop kLongNameLength name) checksum
                    ((off + 2 ^ 32 - kMsdosEntrySize) mod 2 ^ 32) s1)"

text \<open>
  \<^verbatim>\<open>Create\<close>; \<open>name\<close> holds the bytes from the pointer on. The short entry is written first and read back.
\<close>

definition fat_Create :: "nat \<Rightarrow> nat \<Rightarrow> nat \<Rightarrow> cstr \<Rightarrow> nat \<Rightarrow> 'a kfat_scheme \<Rightarrow> (int \<times> 'a kfat_scheme) result" where
  "fat_Create f me dir name mode s =
     (let lfn_num = (strlen name + kLongNameLength - 1) div kLongNameLength in
      bindr (FindFreeEntry f me dir (lfn_num + 1) s) (\<lambda>(o0, s1).
        let off = (o0 + lfn_num * kMsdosEntrySize) mod 2 ^ 32 in
        bindr (AllocCluster f s1) (\<lambda>(c, s2).
          bindr (FillShortFile (replicate 32 0) name c mode (clock_now s2)) (\<lambda>short_entry.
            bindr (WriteInode f me (FromObject short_entry) dir off kMsdosEntrySize s2) (\<lambda>(r, s3).
              bindr (ReadInode f me ToObject dir off kMsdosEntrySize s3) (\<lambda>(r, bs, s4).
                let back = splice 0 bs (replicate 32 0);
                    off1 = (off + 2 ^ 32 - kMsdosEntrySize) mod 2 ^ 32
                in bindr (Create_lfns lfn_num f me dir 1 lfn_num name (FatChecksum (sfn_name back)) off1 s4)
                     (\<lambda>s5. Inr (0, s5))))))))"

section \<open>Reading directories\<close>

text \<open>The long entries after the first one, and the short entry that follows them.\<close>

datatype name_read = NameGot nat "u8 list" MsdosEntry | LfnMissing | SfnMissing

primrec read_lfns ::
  "nat \<Rightarrow> nat \<Rightarrow> nat \<Rightarrow> nat \<Rightarrow> nat \<Rightarrow> u8 list \<Rightarrow> 'a kfat_scheme \<Rightarrow> ((nat \<times> u8 list) option \<times> 'a kfat_scheme) result" where
  "read_lfns 0 f me dir off tmp s = Inr (Some (off, tmp), s)"
| "read_lfns (Suc k) f me dir off tmp s =
     bindr (ReadInode f me ToObject dir off kMsdosEntrySize s) (\<lambda>(r, e, s1).
       if r \<noteq> int kMsdosEntrySize then Inr (None, s1)
       else bindr (copylfn e tmp) (\<lambda>(n, tmp1). read_lfns k f me dir (off + kMsdosEntrySize) tmp1 s1))"

definition lfn_count :: "MsdosEntry \<Rightarrow> nat" where
  "lfn_count e = unat (lfn_sequence_number e AND NOT 0x40)"

definition read_long_name ::
  "nat \<Rightarrow> nat \<Rightarrow> nat \<Rightarrow> nat \<Rightarrow> u8 list \<Rightarrow> MsdosEntry \<Rightarrow> 'a kfat_scheme \<Rightarrow> (name_read \<times> 'a kfat_scheme) result" where
  "read_long_name f me dir off tmp entry s =
     bindr (copylfn entry tmp) (\<lambda>(n, tmp1).
       bindr (read_lfns (lfn_count entry - 1) f me dir off tmp1 s) (\<lambda>(r, s1).
         case r of None \<Rightarrow> Inr (LfnMissing, s1)
         | Some (off1, tmp2) \<Rightarrow>
             bindr (ReadInode f me ToObject dir off1 kMsdosEntrySize s1) (\<lambda>(r, e, s2).
               if r \<noteq> int kMsdosEntrySize then Inr (SfnMissing, s2)
               else Inr (NameGot (off1 + kMsdosEntrySize) tmp2 e, s2))))"

text \<open>The disk position of the entry that ends at \<open>off\<close>.\<close>

definition entry_pos :: "nat \<Rightarrow> nat \<Rightarrow> nat \<Rightarrow> 'a kfat_scheme \<Rightarrow> (nat \<times> 'a kfat_scheme) result" where
  "entry_pos f dir off s =
     (let bpc = info_bytes_per_cluster (the_info f s) in
      if bpc = 0 then Inl (BadAccess ''division by zero'')
      else bindr (bmap f dir ((off - kMsdosEntrySize) div bpc) s) (\<lambda>(c, s1).
        Inr (FirstSectorOfCluster f c s1 * kSectorSize mod 2 ^ 32 + (off - kMsdosEntrySize) mod bpc, s1)))"

primrec Lookup_loop ::
  "nat \<Rightarrow> nat \<Rightarrow> nat \<Rightarrow> nat \<Rightarrow> cstr \<Rightarrow> nat \<Rightarrow> u8 list \<Rightarrow> 'a kfat_scheme \<Rightarrow> (nat option \<times> 'a kfat_scheme) result" where
  "Lookup_loop 0 f me dir name off tmp s = Inl (Stuck ''Lookup'')"
| "Lookup_loop (Suc k) f me dir name off tmp s =
     bindr (ReadInode f me ToObject dir off kMsdosEntrySize s) (\<lambda>(r, e, s1).
       if r \<noteq> int kMsdosEntrySize \<or> e ! 0 = 0 then Inr (None, s1)
       else
         bindr (if entry_attrib e \<noteq> kFatAttrLongEntry
                then Inr (NameGot (off + kMsdosEntrySize) (snd (copysfn (sfn_name e) tmp)) e, s1)
                else if lfn_sequence_number e AND 0xc0 = 0x40
                then read_long_name f me dir (off + kMsdosEntrySize) tmp e s1
                else Inr (NameGot (off + kMsdosEntrySize) tmp e, s1)) (\<lambda>(nr, s2).
           case nr of LfnMissing \<Rightarrow> Inr (None, s2)
           | SfnMissing \<Rightarrow> Inl (Panic ''except sfn'')
           | NameGot off1 tmp1 e1 \<Rightarrow>
               if strncasecmp False name tmp1 (strlen name) \<noteq> 0 then Lookup_loop k f me dir name off1 tmp1 s2
               else bindr (entry_pos f dir off1 s2) (\<lambda>(pos, s3).
                 bindr (BuildInode f me e1 pos dir s3) (\<lambda>(ip, s4). Inr (Some ip, s4)))))"

definition fat_Lookup :: "nat \<Rightarrow> nat \<Rightarrow> nat \<Rightarrow> cstr \<Rightarrow> 'a kfat_scheme \<Rightarrow> (nat option \<times> 'a kfat_scheme) result" where
  "fat_Lookup f me dir name s =
     (if strncmp [46] name (strlen name) = 0
      then Inr (Some dir, upd_inode dir (\<lambda>n. n\<lparr>i_ref := i_ref n + 1\<rparr>) s)
      else if strncmp [46, 46] name (strlen name) = 0
      then (case i_parent (inodes s ! dir) of None \<Rightarrow> Inl (BadAccess ''parent'')
            | Some p \<Rightarrow> Inr (Some p, upd_inode p (\<lambda>n. n\<lparr>i_ref := i_ref n + 1\<rparr>) s))
      else Lookup_loop dir_fuel f me dir name 0 (take 64 (stack_junk s)) s)"

section \<open>Listing a directory\<close>

definition bytes64 :: "u64 \<Rightarrow> u8 list" where
  "bytes64 v = map (byte_of v) [0..<8]"

record ReadDirHeader =
  direntData :: u64
  rd_free :: nat
  rd_used :: nat
  last_dirent :: u64
  rd_user :: bool

definition sizeof_dirent :: nat where "sizeof_dirent = 24"
definition d_name_offset :: nat where "d_name_offset = 19"
definition DT_DIR :: u8 where "DT_DIR = 4"
definition DT_REG :: u8 where "DT_REG = 8"

definition align8 :: "nat \<Rightarrow> nat" where "align8 a = (a + 8 - 1) div 8 * 8"

text \<open>
  \<^verbatim>\<open>filldir\<close>; \<open>name\<close> holds the bytes from the pointer on. When the record does not fit, the \<^verbatim>\<open>d_off\<close> of the
  previous record is cleared, also when there is none and its address is 0.
\<close>

definition filldir ::
  "nat \<Rightarrow> ReadDirHeader \<Rightarrow> u8 list \<Rightarrow> nat \<Rightarrow> nat \<Rightarrow> u8 \<Rightarrow> 'a kfat_scheme \<Rightarrow> (int \<times> ReadDirHeader \<times> 'a kfat_scheme) result" where
  "filldir me h name name_len ino type s =
     (let pt = t_pagetable (the_task s me); de = direntData h + of_nat (rd_used h);
          reclen = align8 (sizeof_dirent + name_len)
      in if reclen > rd_free h then
           bindr (either_copyout pt (rd_user h) (last_dirent h + 8) (bytes64 0) s) (\<lambda>(r, s1). Inr (- 1, h, s1))
         else
           let de_tmp = bytes64 (of_nat ino) @ bytes64 (de + of_nat reclen) @ bytes16 (of_nat reclen) @ [type]
                        @ take 5 (stack_junk s)
           in bindr (either_copyout pt (rd_user h) de de_tmp s) (\<lambda>(r, s1).
                bindr (either_copyout pt (rd_user h) (de + of_nat d_name_offset) (take name_len name) s1) (\<lambda>(r, s2).
                  Inr (0, h\<lparr>rd_free := rd_free h - reclen, rd_used := rd_used h + reclen, last_dirent := de\<rparr>, s2))))"

text \<open>The artificial \<^verbatim>\<open>.\<close> and \<^verbatim>\<open>..\<close> of the root: \<open>k\<close> of them to go, the file offset being \<open>offset\<close>.\<close>

primrec ReadDir_dots ::
  "nat \<Rightarrow> nat \<Rightarrow> ReadDirHeader \<Rightarrow> nat \<Rightarrow> 'a kfat_scheme \<Rightarrow> (bool \<times> ReadDirHeader \<times> nat \<times> 'a kfat_scheme) result" where
  "ReadDir_dots 0 me h offset s = Inr (True, h, offset, s)"
| "ReadDir_dots (Suc k) me h offset s =
     bindr (filldir me h [46, 46] (offset + 1) kMsdosRootIno DT_DIR s) (\<lambda>(r, h1, s1).
       if r < 0 then Inr (False, h1, offset, s1) else ReadDir_dots k me h1 (offset + 1) s1)"

definition entry_type :: "MsdosEntry \<Rightarrow> u8" where
  "entry_type e = (if entry_attrib e AND kFatAttrDirentory \<noteq> 0 then DT_DIR else DT_REG)"

primrec ReadDir_loop ::
  "nat \<Rightarrow> nat \<Rightarrow> nat \<Rightarrow> nat \<Rightarrow> nat \<Rightarrow> nat \<Rightarrow> u8 list \<Rightarrow> ReadDirHeader \<Rightarrow> 'a kfat_scheme
   \<Rightarrow> (nat \<times> ReadDirHeader \<times> 'a kfat_scheme) result" where
  "ReadDir_loop 0 f me ip off begin_off name h s = Inl (Stuck ''ReadDir'')"
| "ReadDir_loop (Suc k) f me ip off begin_off name h s =
     bindr (ReadInode f me ToObject ip off kMsdosEntrySize s) (\<lambda>(r, e, s1).
       if r \<noteq> int kMsdosEntrySize then Inr (begin_off, h, s1)
       else if e ! 0 = 0 then Inr (off, h, s1)
       else if entry_attrib e \<noteq> kFatAttrLongEntry then
         let (n, name1) = copysfn (sfn_name e) name in
         bindr (filldir me h name1 n (GetStartCluster e) (entry_type e) s1) (\<lambda>(r, h1, s2).
           if r \<noteq> 0 then Inr (off, h1, s2)
           else ReadDir_loop k f me ip (off + kMsdosEntrySize) off name1 h1 s2)
       else if lfn_sequence_number e AND 0xc0 = 0x40 then
         bindr (read_long_name f me ip (off + kMsdosEntrySize) (replicate 64 0) e s1) (\<lambda>(nr, s2).
           case nr of NameGot off1 name1 e1 \<Rightarrow>
               bindr (filldir me h name1 (kLongNameLength * max 1 (lfn_count e)) (GetStartCluster e1) (entry_type e1) s2)
                 (\<lambda>(r, h1, s3). if r < 0 then Inr (off, h1, s3) else ReadDir_loop k f me ip off1 off name1 h1 s3)
           | _ \<Rightarrow> Inr (off, h, s2))
       else ReadDir_loop k f me ip (off + kMsdosEntrySize) off name h s1)"

text \<open>
  \<^verbatim>\<open>ReadDir\<close>: the bytes used, and the new file offset. Only the root uses the old one.
\<close>

definition fat_ReadDir ::
  "nat \<Rightarrow> nat \<Rightarrow> nat \<Rightarrow> nat \<Rightarrow> u64 \<Rightarrow> nat \<Rightarrow> bool \<Rightarrow> 'a kfat_scheme \<Rightarrow> (int \<times> nat \<times> 'a kfat_scheme) result" where
  "fat_ReadDir f me offset ip buf max_len user s =
     bindr (the_inode ip s) (\<lambda>nd.
       let h = \<lparr>direntData = buf, rd_free = max_len, rd_used = 0, last_dirent = 0, rd_user = user\<rparr> in
       bindr (if i_inum nd = kMsdosRootIno then ReadDir_dots (2 - offset) me h offset s
              else Inr (True, h, 2, s)) (\<lambda>(ok, h1, offset1, s1).
         if \<not> ok then Inr (int (rd_used h1), offset1, s1)
         else bindr (ReadDir_loop dir_fuel f me ip (offset1 - 2) (offset1 - 2) (take 64 (stack_junk s)) h1 s1)
                (\<lambda>(begin_off, h2, s2). Inr (int (rd_used h2), begin_off + 2, s2))))"

section \<open>Directories and deletion\<close>

definition fat_Mkdir :: "nat \<Rightarrow> nat \<Rightarrow> nat \<Rightarrow> cstr \<Rightarrow> nat \<Rightarrow> 'a kfat_scheme \<Rightarrow> (int \<times> 'a kfat_scheme) result" where
  "fat_Mkdir f me dir name mode s =
     bindr (fat_Create f me dir name (mode OR S_IFDIR) s) (\<lambda>(r, s1).
       if r < 0 then Inr (- 1, s1)
       else bindr (fat_Lookup f me dir name s1) (\<lambda>(r, s2).
         case r of None \<Rightarrow> Inl (Panic ''mkdir'')
         | Some ip \<Rightarrow>
             bindr (the_inode ip s2) (\<lambda>nd. bindr (the_inode dir s2) (\<lambda>dd.
               bindr (FillShortFile (take 32 (stack_junk s2)) [] (im_start (i_msdos nd)) mode (clock_now s2)) (\<lambda>e0.
                 bindr (FillShortFile (take 32 (stack_junk s2)) [] (im_start (i_msdos dd)) (i_mode dd) (clock_now s2)) (\<lambda>e1.
                   WriteInode f me (FromObject (e0[0 := 46] @ e1[0 := 46, 1 := 46])) ip 0 (2 * kMsdosEntrySize) s2))))))"

primrec MarkEntryDeleted_loop ::
  "nat \<Rightarrow> nat \<Rightarrow> nat \<Rightarrow> nat \<Rightarrow> nat \<Rightarrow> bool \<Rightarrow> 'a kfat_scheme \<Rightarrow> 'a kfat_scheme result" where
  "MarkEntryDeleted_loop 0 f me ip off up s = Inr s"
| "MarkEntryDeleted_loop (Suc n) f me ip off up s =
     bindr (ReadInode f me ToObject ip off kMsdosEntrySize s) (\<lambda>(r, e, s1).
       if r \<noteq> int kMsdosEntrySize then Inr s1
       else bindr (WriteInode f me (FromObject (e[0 := kDeletedMark])) ip off kMsdosEntrySize s1) (\<lambda>(r, s2).
         if r \<noteq> int kMsdosEntrySize then Inr s2
         else MarkEntryDeleted_loop n f me ip
                ((if up then off + kMsdosEntrySize else off + 2 ^ 32 - kMsdosEntrySize) mod 2 ^ 32) up s2))"

definition MarkEntryDeleted :: "nat \<Rightarrow> nat \<Rightarrow> nat \<Rightarrow> nat \<Rightarrow> int \<Rightarrow> 'a kfat_scheme \<Rightarrow> 'a kfat_scheme result" where
  "MarkEntryDeleted f me ip off n s =
     (if n = 0 then Inr s else MarkEntryDeleted_loop (nat \<bar>n\<bar>) f me ip off (n > 0) s)"

primrec Unlink_loop ::
  "nat \<Rightarrow> nat \<Rightarrow> nat \<Rightarrow> nat \<Rightarrow> cstr \<Rightarrow> nat \<Rightarrow> nat \<Rightarrow> u8 list \<Rightarrow> 'a kfat_scheme \<Rightarrow> (int \<times> 'a kfat_scheme) result" where
  "Unlink_loop 0 f me dir name off nlfn tmp s = Inl (Stuck ''Unlink'')"
| "Unlink_loop (Suc k) f me dir name off nlfn tmp s =
     bindr (ReadInode f me ToObject dir off kMsdosEntrySize s) (\<lambda>(r, e, s1).
       if r \<noteq> int kMsdosEntrySize \<or> e ! 0 = 0 then Inr (0, s1)
       else
         let first_lfn = (entry_attrib e = kFatAttrLongEntry \<and> lfn_sequence_number e AND 0xc0 = 0x40);
             nlfn1 = (if first_lfn then lfn_count e else nlfn)
         in bindr (if first_lfn then read_long_name f me dir (off + kMsdosEntrySize) tmp e s1
                   else Inr (NameGot (off + kMsdosEntrySize) tmp e, s1)) (\<lambda>(nr, s2).
              case nr of LfnMissing \<Rightarrow> Inr (0, s2)
              | SfnMissing \<Rightarrow> Inl (Panic ''except sfn'')
              | NameGot off1 tmp1 e1 \<Rightarrow>
                  if strncmp name tmp1 (strlen name) \<noteq> 0 then Unlink_loop k f me dir name off1 nlfn1 tmp1 s2
                  else bindr (entry_pos f dir off1 s2) (\<lambda>(pos, s3).
                    bindr (GetInode f me pos s3) (\<lambda>(r, s4).
                      case r of
                        Some ip \<Rightarrow> bindr (inode_free me ip s4) (\<lambda>s5. Inr (- 1, s5))
                      | None \<Rightarrow>
                          bindr (MarkEntryDeleted f me dir (off1 - kMsdosEntrySize) (- (int nlfn1 + 1)) s4) (\<lambda>s5.
                            bindr (FreeClusterChain f (GetStartCluster e1) s5) (\<lambda>s6. Inr (0, s6)))))))"

definition fat_Unlink :: "nat \<Rightarrow> nat \<Rightarrow> nat \<Rightarrow> cstr \<Rightarrow> 'a kfat_scheme \<Rightarrow> (int \<times> 'a kfat_scheme) result" where
  "fat_Unlink f me dir name s = Unlink_loop dir_fuel f me dir name 0 0 (take 64 (stack_junk s)) s"

section \<open>Whole clusters\<close>

primrec WriteCluster_loop ::
  "nat \<Rightarrow> nat \<Rightarrow> nat \<Rightarrow> source \<Rightarrow> nat \<Rightarrow> nat \<Rightarrow> nat \<Rightarrow> 'a kfat_scheme \<Rightarrow> 'a kfat_scheme result" where
  "WriteCluster_loop 0 f me src sector n tot s = Inr s"
| "WriteCluster_loop (Suc k) f me src sector n tot s =
     (if tot < n then
        bindr (bl_read me (fs_dev (fats s ! f)) sector s) (\<lambda>(b, s1).
          let nwrite = min (n - tot) kSectorSize in
          bindr (source_get me src tot nwrite s1) (\<lambda>(r, bs).
            WriteCluster_loop k f me src ((sector + 1) mod 2 ^ 32) n (tot + nwrite)
              (freeBuffer b (upd_buf b (\<lambda>x. x\<lparr>b_data := splice 0 bs (b_data x)\<rparr>) s1))))
      else Inr s)"

definition WriteCluster :: "nat \<Rightarrow> nat \<Rightarrow> nat \<Rightarrow> source \<Rightarrow> nat \<Rightarrow> 'a kfat_scheme \<Rightarrow> (int \<times> 'a kfat_scheme) result" where
  "WriteCluster f me cluster src n s =
     bindr (WriteCluster_loop (info_sectors_per_cluster (the_info f s)) f me src (FirstSectorOfCluster f cluster s) n 0 s)
       (\<lambda>s1. Inr (0, s1))"

primrec ReadCluster_loop ::
  "nat \<Rightarrow> nat \<Rightarrow> nat \<Rightarrow> sink \<Rightarrow> nat \<Rightarrow> nat \<Rightarrow> u8 list \<Rightarrow> 'a kfat_scheme \<Rightarrow> (u8 list \<times> 'a kfat_scheme) result" where
  "ReadCluster_loop 0 f me snk sector tot acc s = Inr (acc, s)"
| "ReadCluster_loop (Suc k) f me snk sector tot acc s =
     bindr (bl_read me (fs_dev (fats s ! f)) sector s) (\<lambda>(b, s1).
       let bs = take kSectorSize (b_data (bufCache s1 ! b)) in
       bindr (sink_put me snk tot bs s1) (\<lambda>(r, s2).
         ReadCluster_loop k f me snk ((sector + 1) mod 2 ^ 32) (tot + kSectorSize) (acc @ bs) (freeBuffer b s2)))"

definition ReadCluster :: "nat \<Rightarrow> nat \<Rightarrow> nat \<Rightarrow> sink \<Rightarrow> 'a kfat_scheme \<Rightarrow> (int \<times> u8 list \<times> 'a kfat_scheme) result" where
  "ReadCluster f me cluster snk s =
     bindr (ReadCluster_loop (info_sectors_per_cluster (the_info f s)) f me snk (FirstSectorOfCluster f cluster s) 0 [] s)
       (\<lambda>(bs, s1). Inr (0, bs, s1))"

section \<open>Mounting\<close>

definition decode_bpb :: "u8 list \<Rightarrow> FatBpb" where
  "decode_bpb b = \<lparr>bytes_per_sector = unat (get16 b 11), sectors_per_cluster = unat (b ! 13),
     reserved_sectors = unat (get16 b 14), number_of_fat = unat (b ! 16),
     total_sectors_long = unat (get32 b 32), sectors_per_fat_v32 = unat (get32 b 36),
     root_directory_cluster_start = unat (get32 b 44), fs_information_sector = unat (get16 b 48)\<rparr>"

definition fat_info_of :: "FatBpb \<Rightarrow> Fat32Info" where
  "fat_info_of b = \<lparr>
     info_first_data_sector = (reserved_sectors b + number_of_fat b * sectors_per_fat_v32 b) mod 2 ^ 32,
     info_cluster_count = total_sectors_long b div sectors_per_cluster b,
     info_bytes_per_cluster = bytes_per_sector b * sectors_per_cluster b mod 2 ^ 16,
     info_bytes_per_sector = bytes_per_sector b,
     info_sectors_per_fat = sectors_per_fat_v32 b * bytes_per_sector b mod 2 ^ 16,
     info_fat_num = number_of_fat b, info_sectors_per_cluster = sectors_per_cluster b,
     info_reserve_sectors = reserved_sectors b, info_root_cluster = root_directory_cluster_start b\<rparr>"

text \<open>
  \<^verbatim>\<open>Init\<close>. The root inode is part of the file system object, whose memory \<^verbatim>\<open>new\<close> does not clear: its
  previous contents are \<open>raw\<close>. The information sector is asked for at byte offset
  \<^verbatim>\<open>fs_information_sector\<close>.
\<close>

definition fat_Init :: "nat \<Rightarrow> inode \<Rightarrow> 'a kfat_scheme \<Rightarrow> (int \<times> 'a kfat_scheme) result" where
  "fat_Init f raw s =
     (let dev = fs_dev (fats s ! f) in
      bindr (RwDevRead dev 0 512 s) (\<lambda>(r, bs).
        let b = decode_bpb (if r < 0 then replicate 512 0 else bs) in
        bindr (RwDevRead dev (fs_information_sector b) 512 s) (\<lambda>_.
          if sectors_per_cluster b = 0 then Inl (BadAccess ''division by zero'')
          else
            let info = fat_info_of b; ri = root_inode (fats s ! f);
                s1 = s\<lparr>fats := (fats s)[f := (fats s ! f)\<lparr>fat_bpb := b, fs_info := info\<rparr>]\<rparr>;
                start = root_directory_cluster_start b;
                pos = FirstSectorOfCluster f start s1 * bytes_per_sector b mod 2 ^ 32
            in Inr (0, upd_inode ri (\<lambda>_. raw\<lparr>i_live := True,
                 i_msdos := (i_msdos raw)\<lparr>im_start := start, im_pos := pos\<rparr>, i_parent := Some ri, i_ref := 1,
                 i_sz := 2 ^ 32 - 1, i_mode := i_mode raw OR S_IFDIR, i_nlink := i_nlink raw + 1,
                 i_inum := kMsdosRootIno, i_lock := sl_init, i_fs := FatFs f,
                 i_test_name := (i_test_name raw)[0 := 47, 1 := 0]\<rparr>) s1))))"

function load_fat_cache :: "nat \<Rightarrow> nat \<Rightarrow> 'a kfat_scheme \<Rightarrow> 'a kfat_scheme result" where
  "load_fat_cache f i s =
     (if i < 1024 then
        bindr (ReadSector f i s) (\<lambda>(r, bs).
          let at = (i - info_reserve_sectors (the_info f s)) * 512 in
          if r < 0 then load_fat_cache f (Suc i) s
          else if at + length bs \<le> FAT_CACHE_SIZE
          then load_fat_cache f (Suc i)
                 (s\<lparr>fat_cache := (\<lambda>k. if at \<le> k \<and> k < at + length bs then bs ! (k - at) else fat_cache s k)\<rparr>)
          else Inl (BadAccess ''fat_cache''))
      else Inr s)"
  by pat_completeness auto
termination by (relation "measure (\<lambda>(f, i, s). 1024 - i)") auto

declare load_fat_cache.simps [simp del]

definition Fat32FileSystem_new :: "nat \<Rightarrow> inode \<Rightarrow> nat \<Rightarrow> 'a kfat_scheme \<Rightarrow> (nat \<times> 'a kfat_scheme) result" where
  "Fat32FileSystem_new dev raw raw_sz s =
     (let f = length (fats s);
          b0 = decode_bpb (replicate 512 0);
          fs0 = \<lparr>fs_dev = dev, fat_bpb = b0, fs_info = fat_info_of b0, root_inode = length (inodes s),
                 inode_cache_map = hm_new 5 raw_sz\<rparr>
      in bindr (fat_Init f raw (s\<lparr>fats := fats s @ [fs0], inodes := inodes s @ [raw]\<rparr>)) (\<lambda>(r, s1).
           bindr (load_fat_cache f (info_reserve_sectors (the_info f s1))
               (s1\<lparr>bl_first_data_sector := info_first_data_sector (the_info f s1),
                  bl_sectors_per_cluster := info_sectors_per_cluster (the_info f s1)\<rparr>))
             (\<lambda>s2. Inr (f, s2))))"

section \<open>Looking up long names\<close>

lemma ReadInode_entry:
  assumes "readable_file f ip cs s" "off + 32 \<le> length cs * BSIZE" "off + 32 \<le> i_sz (inodes s ! ip)" "off + 32 < 2 ^ 64"
  shows "\<exists>s'. ReadInode f me ToObject ip off kMsdosEntrySize s = Inr (int kMsdosEntrySize, take 32 (drop off (file_bytes f cs s)), s') \<and>
    readable_file f ip cs s' \<and> io_frame ip s s' \<and> file_bytes f cs s' = file_bytes f cs s"
proof -
  obtain s' where r: "ReadInode_loop f me ToObject ip off 32 0 [] s = Inr (32, take 32 (drop off (file_bytes f cs s)), s')"
    "readable_file f ip cs s'" "io_frame ip s s'" "rw_devs s' = rw_devs s"
    using ReadInode_loop_reads [OF assms(1), of 0 32 off me "[]"] assms(2) by auto
  moreover have "the_inode ip s = Inr (inodes s ! ip)"
    using assms(1) by (simp add: readable_file_def file_clusters_def the_inode_def Let_def)
  moreover have "file_bytes f cs s' = file_bytes f cs s" by (rule file_bytes_cong [OF r(3,4)])
  ultimately show ?thesis using assms(3,4) by (simp add: ReadInode_def kMsdosEntrySize_def)
qed

lemma read_lfns_collects:
  assumes "readable_file f ip cs s" "k < 64" "13 * k \<le> length name" "13 * k \<le> length tmp"
    and "off + 32 * k \<le> length cs * BSIZE" "off + 32 * k \<le> i_sz (inodes s ! ip)" "off + 32 * k < 2 ^ 64"
    and "\<And>i. i < k \<Longrightarrow> take 32 (drop (off + 32 * (k - Suc i)) (file_bytes f cs s)) = fill_long_entry (Suc i) num (drop (13 * i) name) ck"
  shows "\<exists>s'. read_lfns k f me ip off tmp s = Inr (Some (off + 32 * k, take (13 * k) name @ drop (13 * k) tmp), s') \<and>
    readable_file f ip cs s' \<and> io_frame ip s s' \<and> file_bytes f cs s' = file_bytes f cs s"
  using assms
proof (induction k arbitrary: off tmp s)
  case 0
  then show ?case by (auto intro: io_frame_refl)
next
  case (Suc k)
  let ?t = "splice (13 * k) (take 13 (drop (13 * k) name)) tmp"
  obtain s1 where r: "ReadInode f me ToObject ip off kMsdosEntrySize s = Inr (int kMsdosEntrySize, take 32 (drop off (file_bytes f cs s)), s1)"
    "readable_file f ip cs s1" "io_frame ip s s1" "file_bytes f cs s1 = file_bytes f cs s"
    using ReadInode_entry [OF Suc.prems(1), of off me] Suc.prems(5-7) by auto
  have e: "take 32 (drop off (file_bytes f cs s)) = fill_long_entry (Suc k) num (drop (13 * k) name) ck" using Suc.prems(8) [of k] by simp
  have c: "copylfn (take 32 (drop off (file_bytes f cs s))) tmp = Inr (13, ?t)" unfolding e using Suc.prems(2-4) by (intro collect_step) auto
  have l: "length (take 13 (drop (13 * k) name)) = 13" using Suc.prems(3) by simp
  have sz: "i_sz (inodes s1 ! ip) = i_sz (inodes s ! ip)" by (rule io_frame_simps(8) [OF r(3)])
  obtain s2 where i: "read_lfns k f me ip (off + 32) ?t s1 = Inr (Some (off + 32 + 32 * k, take (13 * k) name @ drop (13 * k) ?t), s2)"
    "readable_file f ip cs s2" "io_frame ip s1 s2" "file_bytes f cs s2 = file_bytes f cs s1"
  proof -
    have "take 32 (drop (off + 32 + 32 * (k - Suc i)) (file_bytes f cs s1)) = fill_long_entry (Suc i) num (drop (13 * i) name) ck"
      if "i < k" for i
    proof -
      have "off + 32 + 32 * (k - Suc i) = off + 32 * (Suc k - Suc i)" using that by simp
      then show ?thesis using Suc.prems(8) [of i] that by (simp only: r(4))
    qed
    then show thesis using Suc.IH [OF r(2), of ?t "off + 32"] Suc.prems(2-7) l sz that by (auto simp: splice_def)
  qed
  have "drop (13 * k) ?t = take 13 (drop (13 * k) name) @ drop (13 * k + 13) tmp" using Suc.prems(4) l by (simp add: splice_parts)
  then have "take (13 * k) name @ drop (13 * k) ?t = take (13 * Suc k) name @ drop (13 * Suc k) tmp"
    by (simp add: take_add [of "13 * k" 13 name, symmetric] add.commute)
  then have "read_lfns (Suc k) f me ip off tmp s = Inr (Some (off + 32 * Suc k, take (13 * Suc k) name @ drop (13 * Suc k) tmp), s2)"
    using r(1) c i(1) by (simp add: kMsdosEntrySize_def)
  then show ?case using i(2-4) r(3,4) io_frame_trans by (intro exI [of _ s2]) auto
qed

text \<open>
  The bytes of a directory at \<open>off\<close> as \<^verbatim>\<open>Create\<close> writes them: the long entries of a name, the last part first, and the short entry.
\<close>

definition name_at :: "nat \<Rightarrow> nat \<Rightarrow> cstr \<Rightarrow> u8 \<Rightarrow> MsdosEntry \<Rightarrow> u8 list \<Rightarrow> bool" where
  "name_at off num name ck short bs \<longleftrightarrow>
     (\<forall>i < num. take 32 (drop (off + 32 * (num - Suc i)) bs) = fill_long_entry (Suc i) num (drop (13 * i) name) ck) \<and>
     take 32 (drop (off + 32 * num) bs) = short"

lemma read_long_name_gets:
  assumes rf: "readable_file f ip cs s" and n: "0 < num" "num < 64" "13 * num \<le> length name" "13 * num \<le> length tmp"
    and bd: "off + 32 * num + 32 \<le> length cs * BSIZE" "off + 32 * num + 32 \<le> i_sz (inodes s ! ip)" "off + 32 * num + 32 < 2 ^ 64"
    and at: "name_at off num name ck short (file_bytes f cs s)"
  shows "\<exists>s'. read_long_name f me ip (off + 32) tmp (fill_long_entry num num (drop (13 * (num - 1)) name) ck) s =
      Inr (NameGot (off + 32 * num + 32) (take (13 * num) name @ drop (13 * num) tmp) short, s') \<and> readable_file f ip cs s' \<and> io_frame ip s s'"
proof -
  obtain m where m: "num = Suc m" using n(1) by (cases num) auto
  let ?e = "fill_long_entry (Suc m) num (drop (13 * m) name) ck" and ?t = "splice (13 * m) (take 13 (drop (13 * m) name)) tmp"
  have l: "length (take 13 (drop (13 * m) name)) = 13" using n(3) m by simp
  have c: "copylfn ?e tmp = Inr (13, ?t)" using n(2-4) m by (intro collect_step) auto
  have cnt: "lfn_count ?e = num" using lfn_sequence_fill [of "Suc m" num "drop (13 * m) name" ck] n(2) m by (simp add: lfn_count_def)
  have le: "take 32 (drop (off + 32 + 32 * (m - Suc i)) (file_bytes f cs s)) = fill_long_entry (Suc i) num (drop (13 * i) name) ck" if "i < m" for i
  proof -
    have "off + 32 + 32 * (m - Suc i) = off + 32 * (num - Suc i)" using that m by simp
    then show ?thesis using at that m by (simp only: name_at_def)
  qed
  obtain s1 where s1: "read_lfns m f me ip (off + 32) ?t s = Inr (Some (off + 32 + 32 * m, take (13 * m) name @ drop (13 * m) ?t), s1)"
    "readable_file f ip cs s1" "io_frame ip s s1" "file_bytes f cs s1 = file_bytes f cs s"
    using read_lfns_collects [OF rf, of m name ?t "off + 32" num ck me] le n bd m l by (auto simp: splice_def)
  have "drop (13 * m) ?t = take 13 (drop (13 * m) name) @ drop (13 * m + 13) tmp" using n(4) m l by (simp add: splice_parts)
  then have t: "take (13 * m) name @ drop (13 * m) ?t = take (13 * num) name @ drop (13 * num) tmp"
    by (simp add: m take_add [of "13 * m" 13 name, symmetric] add.commute)
  obtain s2 where s2: "ReadInode f me ToObject ip (off + 32 * num) kMsdosEntrySize s1 =
      Inr (int kMsdosEntrySize, take 32 (drop (off + 32 * num) (file_bytes f cs s1)), s2)" "readable_file f ip cs s2" "io_frame ip s1 s2"
    using ReadInode_entry [OF s1(2), of "off + 32 * num" me] bd io_frame_simps(8) [OF s1(3)] by auto
  have o: "off + 32 + 32 * m = off + 32 * num" by (simp add: m)
  have "take 32 (drop (off + 32 * num) (file_bytes f cs s1)) = short" using at s1(4) by (simp add: name_at_def)
  then have "read_long_name f me ip (off + 32) tmp ?e s = Inr (NameGot (off + 32 * num + 32) (take (13 * num) name @ drop (13 * num) tmp) short, s2)"
    using c cnt s1(1) s2(1) t o m by (simp add: read_long_name_def kMsdosEntrySize_def)
  then show ?thesis using s2(2,3) io_frame_trans [OF s1(3)] m by auto
qed

lemma strncasecmp_same:
  assumes "take n p = take n q" shows "strncasecmp False p q n = 0"
proof -
  have "strncasecmp_loop p q n = 0" if "0 < n"
    using assms that
  proof (induction p q n rule: strncasecmp_loop.induct)
    case (1 p q n)
    then have h: "cat0 p = cat0 q" and t: "take (n - 1) (tl p) = take (n - 1) (tl q)" by (cases p; cases q; cases n; auto)+
    show ?case using 1(1) [OF refl] t h unfolding strncasecmp_loop.simps [of p q n] by (simp add: Let_def)
  qed
  then show ?thesis by (simp add: strncasecmp_def)
qed

text \<open>
  C24: \<^verbatim>\<open>Lookup\<close> finds a file by its long name. Where the directory holds the long entries as \<^verbatim>\<open>Create\<close> fills them for the name (in
  directory order: the part with the highest number, marked with 0x40, first) and then a short entry, a scan that comes to the first of them
  reads them all, collects the name, which agrees with the one searched for, and goes on with the short entry to build the inode at its
  place on the disk. The name may have up to 52 characters, as many as the 64 bytes for it hold in whole entries; \<open>name\<close> are the bytes
  from the pointer on, as far as the entries reach.
\<close>

theorem Lookup_finds_long_name:
  assumes "readable_file f dir cs s" and "num = (strlen name + kLongNameLength - 1) div kLongNameLength" and "0 < num"
    and "kLongNameLength * num \<le> length name" and "kLongNameLength * num \<le> length tmp" and "length tmp \<le> 64"
    and "off + 32 * num + 32 \<le> length cs * BSIZE" and "off + 32 * num + 32 \<le> i_sz (inodes s ! dir)" and "i_sz (inodes s ! dir) < 2 ^ 32"
    and "name_at off num name ck short (file_bytes f cs s)"
  shows "\<exists>s'. Lookup_loop (Suc fuel) f me dir name off tmp s =
      bindr (BuildInode f me short (FirstSectorOfCluster f (cs ! ((off + 32 * num) div BSIZE)) s * kSectorSize mod 2 ^ 32 +
        (off + 32 * num) mod BSIZE) dir s') (\<lambda>(ip, s4). Inr (Some ip, s4)) \<and> readable_file f dir cs s' \<and> io_frame dir s s'"
proof -
  let ?e = "fill_long_entry num num (drop (13 * (num - 1)) name) ck" and ?o = "off + 32 * num"
  have k: "13 * num \<le> length name" "13 * num \<le> length tmp" "num < 64" using assms(4-6) by (simp_all add: kLongNameLength_def)
  have bd: "off + 32 \<le> length cs * BSIZE" "off + 32 \<le> i_sz (inodes s ! dir)" "?o + 32 < 2 ^ 64" using assms(3,7-9) by simp_all
  obtain s1 where s1: "ReadInode f me ToObject dir off kMsdosEntrySize s = Inr (int kMsdosEntrySize, take 32 (drop off (file_bytes f cs s)), s1)"
    "readable_file f dir cs s1" "io_frame dir s s1" "file_bytes f cs s1 = file_bytes f cs s"
    using ReadInode_entry [OF assms(1) bd(1,2)] bd(3) by auto
  have e: "take 32 (drop off (file_bytes f cs s)) = ?e" using assms(3,10) by (cases num) (auto simp: name_at_def dest: spec [of _ "num - 1"])
  obtain s2 where s2: "read_long_name f me dir (off + 32) tmp ?e s1 = Inr (NameGot (?o + 32) (take (13 * num) name @ drop (13 * num) tmp) short, s2)"
    "readable_file f dir cs s2" "io_frame dir s1 s2"
    using read_long_name_gets [OF s1(2) assms(3) k(3,1,2) assms(7), of ck short me] assms(8,10) bd(3) io_frame_simps(8) [OF s1(3)] s1(4) by auto
  have "strlen name \<le> 13 * num" using assms(2) by (simp add: kLongNameLength_def)
  then have n: "strncasecmp False name (take (13 * num) name @ drop (13 * num) tmp) (strlen name) = 0"
    using k(1) by (intro strncasecmp_same) (simp add: min_def)
  note first = fill_long_entry_first [OF k(3), of "drop (13 * (num - 1)) name" ck]
  have lp: "Lookup_loop (Suc fuel) f me dir name off tmp s = bindr (entry_pos f dir (?o + 32) s2) (\<lambda>(pos, s3).
      bindr (BuildInode f me short pos dir s3) (\<lambda>(ip, s4). Inr (Some ip, s4)))"
    using s1(1) s2(1) n first fill_long_entry_kind(2) [of num num "drop (13 * (num - 1)) name" ck] by (simp add: e kMsdosEntrySize_def)
  have cl: "?o div BSIZE < length cs" using assms(7) by (simp add: div_less_iff_less_mult BSIZE_def)
  let ?s3 = "set_hint dir (?o div BSIZE) (cs ! (?o div BSIZE)) s2"
  have g: "fat_geometry f s2" "file_clusters f dir cs s2" "info_bytes_per_cluster (the_info f s2) = BSIZE" "coherent (fs_dev (fats s2 ! f)) s2"
    "cache_idle s2" using s2(2) by (simp_all add: readable_file_def)
  have fr: "io_frame dir s s2" by (rule io_frame_trans [OF s1(3) s2(3)])
  have eq: "?s3 = ?s3\<lparr>bufCache := bufCache s2, taskTable := taskTable s2, rw_devs := rw_devs s2\<rparr>" by (simp add: set_hint_def upd_inode_def)
  have c3: "coherent (fs_dev (fats s2 ! f)) ?s3" "cache_idle ?s3"
    using g(4,5) coherent_cong [of ?s3 s2] by (simp_all add: set_hint_def upd_inode_def cache_idle_def)
  note r3 = readable_restore [OF s2(2) cl eq c3]
  have "entry_pos f dir (?o + 32) s2 = Inr (FirstSectorOfCluster f (cs ! (?o div BSIZE)) s * kSectorSize mod 2 ^ 32 + ?o mod BSIZE, ?s3)"
    using bmap_finds [OF g(1,2) cl] g(3) io_frame_simps(3) [OF io_frame_trans [OF fr r3(2)]]
    by (simp add: entry_pos_def kMsdosEntrySize_def BSIZE_def set_hint_def FirstSectorOfCluster_def)
  then show ?thesis using lp r3(1) io_frame_trans [OF fr r3(2)] by (intro exI [of _ ?s3]) simp
qed

text \<open>A directory with one name, for the concrete instance.\<close>

definition dir_name :: cstr where "dir_name = [97, 46, 116, 120, 116, 0, 0, 0, 0, 0, 0, 0, 0]"

definition dir_disk :: rwdev where
  "dir_disk = \<lparr>rw_name = [104, 100, 97, 49], rw_sector = (\<lambda>k. if k = 64
     then fill_long_entry 1 1 dir_name 7 @ replicate 32 65 @ replicate 448 0 else replicate 512 0)\<rparr>"

definition dir_volume :: kfat where "dir_volume = small_volume\<lparr>rw_devs := [Some dir_disk]\<rparr>"

lemma dir_volume_facts: "rw_devs dir_volume = [Some dir_disk]" "bl_first_data_sector dir_volume = 64" "fs_dev (fats dir_volume ! 0) = 0"
  "i_sz (inodes dir_volume ! 0) = 5000" "the_info 0 dir_volume = small_info"
  by (simp_all add: dir_volume_def the_info_def) (simp_all add: small_volume_def bl_init_def)

lemma dir_sector: "length (rw_sector dir_disk k) = 512"
  by (simp add: dir_disk_def fill_long_entry_kind kMsdosEntrySize_def)

lemma dir_volume_readable: "readable_file 0 0 [2, 3] dir_volume"
proof -
  have b: "dir_volume = bl_init dir_volume" by (simp add: dir_volume_def small_volume_def bl_init_def)
  have "disk_geometry 0 dir_volume"
    by (simp add: disk_geometry_def dir_volume_facts dir_sector) (simp add: dir_volume_def small_volume_def bl_init_def)
  then have c: "coherent 0 dir_volume" "cache_idle dir_volume" using bl_init_coherent [of 0 dir_volume] b by simp_all
  have e: "dir_volume = (set_hint 0 0 ([2, 3] ! 0) small_volume)\<lparr>bufCache := bufCache small_volume, taskTable := taskTable small_volume,
      rw_devs := [Some dir_disk]\<rparr>"
    by (simp add: dir_volume_def set_hint_def upd_inode_def) (simp add: small_volume_def bl_init_def)
  show ?thesis by (rule readable_restore(1) [OF small_volume_readable _ e]) (use c in \<open>simp_all add: small_volume_info\<close>)
qed

theorem Lookup_finds_long_name_witness:
  "\<exists>s'. Lookup_loop 1 0 0 0 dir_name 0 (replicate 64 0) dir_volume =
     bindr (BuildInode 0 0 (replicate 32 65) (64 * 512 + 32) 0 s') (\<lambda>(ip, s4). Inr (Some ip, s4))"
proof -
  have "[64..<72] = 64 # [65..<72 :: nat]" by (simp add: upt_conv_Cons)
  then have "take 512 (file_bytes 0 [2, 3] dir_volume) = rw_sector dir_disk 64"
    by (simp add: file_bytes_def disk_cluster_def cluster_base_def dir_volume_facts dir_sector)
  note sec = this
  have t: "take n (drop m (file_bytes 0 [2, 3] dir_volume)) = take n (drop m (rw_sector dir_disk 64))" if "m + n \<le> 512" for m n
    using that unfolding sec [symmetric] by (simp add: drop_take min_def)
  have "name_at 0 1 dir_name 7 (replicate 32 65) (file_bytes 0 [2, 3] dir_volume)"
    using t [of 0 32] t [of 32 32] by (simp add: name_at_def dir_disk_def fill_long_entry_kind kMsdosEntrySize_def)
  moreover have "FirstSectorOfCluster 0 2 dir_volume = 64" by (simp add: FirstSectorOfCluster_def dir_volume_facts small_info_def)
  ultimately show ?thesis using Lookup_finds_long_name [OF dir_volume_readable, of 1 dir_name "replicate 64 0" 0 7 "replicate 32 65" 0 0]
    by (auto simp: dir_name_def dir_volume_facts kLongNameLength_def BSIZE_def kSectorSize_def simp del: Lookup_loop.simps)
qed

end
