(* ===== verification/Console.thy ===== *)
theory Console
  imports FatDir LinkedLists "HOL-Library.Signed_Division"
begin

text \<open>
  The console (\<^verbatim>\<open>src/kernel/device/Console.cpp\<close>) and the device file system
  (\<^verbatim>\<open>src/kernel/fs/devfs/device_file_system.cpp\<close>). Characters sent to the firmware are collected in
  \<open>con_out\<close>. Reading waits for input: the operation then returns \<open>Sleep\<close> with the number of bytes
  already delivered, and is entered again from there when the reader is woken.
\<close>

section \<open>The console\<close>

definition INPUT_BUF :: nat where "INPUT_BUF = 128"

text \<open>The indices are C integers that are only ever counted up and down; the remainder of a negative one is not a slot.\<close>

record kconsole = kfat +
  con_buf :: "u8 list"
  read_index :: u32
  write_index :: u32
  con_out :: "u8 list"

definition console_init :: "'a kconsole_scheme \<Rightarrow> 'a kconsole_scheme" where
  "console_init s = s\<lparr>read_index := 0, write_index := 0\<rparr>"

definition BACKSPACE :: nat where "BACKSPACE = 0x100"

definition console_putc :: "nat \<Rightarrow> 'a kconsole_scheme \<Rightarrow> 'a kconsole_scheme" where
  "console_putc c s =
     (if c = BACKSPACE then s\<lparr>con_out := con_out s @ [8, 32, 8]\<rparr> else s\<lparr>con_out := con_out s @ [of_nat c]\<rparr>)"

definition con_slot :: "u32 \<Rightarrow> nat result" where
  "con_slot i = (let k = sint i smod int INPUT_BUF in if k < 0 then Inl (BadAccess ''console buf'') else Inr (nat k))"

text \<open>The loop of \<^verbatim>\<open>read\<close> after \<open>tot\<close> bytes, with \<open>n\<close> to go.\<close>

fun console_read_loop ::
  "nat \<Rightarrow> sink \<Rightarrow> nat \<Rightarrow> nat \<Rightarrow> 'a kconsole_scheme \<Rightarrow> (int outcome \<times> nat \<times> 'a kconsole_scheme) result" where
  "console_read_loop me dst tot 0 s = Inr (Done (int tot), tot, s)"
| "console_read_loop me dst tot (Suc n) s =
     (if read_index s = write_index s then Inr (Sleep ChConsole, tot, task_sleep me ChConsole s)
      else
        bindr (con_slot (read_index s)) (\<lambda>k.
          let c = con_buf s ! k in
          bindr (sink_put me dst tot [c] (s\<lparr>read_index := read_index s + 1\<rparr>)) (\<lambda>(r, s1).
            if r < 0 then Inr (Done (int tot), tot, s1)
            else if c = 10 then Inr (Done (int tot + 1), tot + 1, s1)
            else console_read_loop me dst (tot + 1) n s1)))"

definition console_read ::
  "nat \<Rightarrow> sink \<Rightarrow> nat \<Rightarrow> int \<Rightarrow> 'a kconsole_scheme \<Rightarrow> (int outcome \<times> nat \<times> 'a kconsole_scheme) result" where
  "console_read me dst tot n s = console_read_loop me dst tot (nat n - tot) s"

fun console_write_loop :: "nat \<Rightarrow> source \<Rightarrow> nat \<Rightarrow> nat \<Rightarrow> 'a kconsole_scheme \<Rightarrow> (int \<times> 'a kconsole_scheme) result" where
  "console_write_loop me src i 0 s = Inr (int i, s)"
| "console_write_loop me src i (Suc n) s =
     bindr (source_get me src i 1 s) (\<lambda>(r, bs).
       if r = - 1 then Inr (int i, s)
       else console_write_loop me src (Suc i) n (s\<lparr>con_out := con_out s @ [hd bs]\<rparr>))"

definition console_write :: "nat \<Rightarrow> source \<Rightarrow> int \<Rightarrow> 'a kconsole_scheme \<Rightarrow> (int \<times> 'a kconsole_scheme) result" where
  "console_write me src n s = console_write_loop me src 0 (nat n) s"

text \<open>
  \<^verbatim>\<open>console_intr\<close>; the keys that only print debugging output change nothing else.
\<close>

definition console_intr :: "platform \<Rightarrow> u8 \<Rightarrow> 'a kconsole_scheme \<Rightarrow> 'a kconsole_scheme result" where
  "console_intr pf c0 s =
     (if c0 = 8 \<or> c0 = 0x7f then
        Inr (if read_index s \<noteq> write_index s
             then console_putc 7 (console_putc BACKSPACE (s\<lparr>write_index := write_index s - 1\<rparr>)) else s)
      else if c0 = 16 \<or> c0 = 126 \<or> c0 = 36 \<or> c0 = 35 then Inr s
      else if pf = K210 \<and> c0 = 13 then Inr s
      else
        let c = (if pf \<noteq> K210 \<and> c0 = 13 then 10 else c0); s1 = console_putc (unat c) s in
        bindr (con_slot (write_index s1)) (\<lambda>k.
          let s2 = s1\<lparr>con_buf := (con_buf s1)[k := c], write_index := write_index s1 + 1\<rparr>
          in Inr (if c = 10 then wakeup ChConsole s2 else s2)))"

text \<open>The interrupts of several keys, one after the other.\<close>

primrec console_keys :: "platform \<Rightarrow> u8 list \<Rightarrow> 'a kconsole_scheme \<Rightarrow> 'a kconsole_scheme result" where
  "console_keys pf [] s = Inr s"
| "console_keys pf (c # keys) s = bindr (console_intr pf c s) (console_keys pf keys)"

section \<open>The device file system\<close>

text \<open>
  The children of the root are a list of names and inodes. \<open>raw\<close> stands for the contents of a new
  \<^verbatim>\<open>DevInodeInfo\<close>, whose inode the constructor does not clear.
\<close>

record devfs =
  dv_root :: nat
  dv_children :: "(u8 list \<times> nat) sslist"

record kdevfs = kconsole +
  devfss :: "devfs list"

definition kConsoleIno :: nat where "kConsoleIno = 5"
definition kDevFsRootIno :: nat where "kDevFsRootIno = 1"

definition FillInode :: "nat \<Rightarrow> nat \<Rightarrow> nat \<Rightarrow> nat \<Rightarrow> nat \<Rightarrow> nat \<Rightarrow> nat \<Rightarrow> 'a kfat_scheme \<Rightarrow> 'a kfat_scheme result" where
  "FillInode d me ip parent dev ino mode s =
     bindr (inode_dup me parent (upd_inode ip (\<lambda>n. n\<lparr>i_fs := DevFs d, i_inum := ino, i_dev := dev\<rparr>) s)) (\<lambda>(p, s1).
       Inr (upd_inode ip (\<lambda>n. n\<lparr>i_parent := Some p, i_sz := 2 ^ 32 - 1, i_mode := mode\<rparr>) s1))"

definition devfs_AllocInode :: "inode \<Rightarrow> 'a kfat_scheme \<Rightarrow> nat \<times> 'a kfat_scheme" where
  "devfs_AllocInode raw s =
     (length (inodes s), s\<lparr>inodes := inodes s @ [raw\<lparr>i_live := True, i_lock := sl_init\<rparr>]\<rparr>)"

definition devfs_add ::
  "nat \<Rightarrow> nat \<Rightarrow> inode \<Rightarrow> u8 list \<Rightarrow> nat \<Rightarrow> nat \<Rightarrow> 'a kdevfs_scheme \<Rightarrow> 'a kdevfs_scheme result" where
  "devfs_add d me raw name dev mode s =
     (let (ip, s1) = devfs_AllocInode raw s in
      bindr (FillInode d me ip (dv_root (devfss s ! d)) dev kConsoleIno mode s1) (\<lambda>s2.
        Inr (s2\<lparr>devfss := (devfss s2)[d := (devfss s2 ! d)\<lparr>dv_children := sl_insert (name, ip) (dv_children (devfss s2 ! d))\<rparr>]\<rparr>)))"

primrec devfs_add_disks ::
  "rwdev option list \<Rightarrow> nat \<Rightarrow> nat \<Rightarrow> nat \<Rightarrow> inode \<Rightarrow> 'a kdevfs_scheme \<Rightarrow> 'a kdevfs_scheme result" where
  "devfs_add_disks [] dev_no d me raw s = Inr s"
| "devfs_add_disks (x # xs) dev_no d me raw s =
     (case x of None \<Rightarrow> devfs_add_disks xs dev_no d me raw s
      | Some w \<Rightarrow> bindr (devfs_add d me raw (takeWhile (\<lambda>c. c \<noteq> 0) (rw_name w)) dev_no S_IFBLK s)
                    (devfs_add_disks xs (Suc dev_no) d me raw))"

text \<open>The constructor, without the self-test it ends with.\<close>

definition DeviceFileSystem_new :: "nat \<Rightarrow> inode \<Rightarrow> 'a kdevfs_scheme \<Rightarrow> (nat \<times> 'a kdevfs_scheme) result" where
  "DeviceFileSystem_new me raw s =
     (let d = length (devfss s); (r, s1) = devfs_AllocInode raw s;
          s2 = s1\<lparr>devfss := devfss s1 @ [\<lparr>dv_root = r, dv_children = sl_new\<rparr>]\<rparr>
      in bindr (FillInode d me r r (2 ^ 32 - 1) kDevFsRootIno S_IFDIR s2) (\<lambda>s3.
           bindr (devfs_add_disks (rw_devs s3) 2 d me raw s3) (\<lambda>s4.
             bindr (devfs_add d me raw [116, 116, 121] kConsoleIno S_IFCHR s4) (\<lambda>s5. Inr (d, s5)))))"

definition devfs_GetRootInode :: "nat \<Rightarrow> nat \<Rightarrow> 'a kdevfs_scheme \<Rightarrow> (nat \<times> 'a kdevfs_scheme) result" where
  "devfs_GetRootInode d me s = inode_dup me (dv_root (devfss s ! d)) s"

text \<open>
  Reads and writes of a disk use the caller's address as a kernel address, so only a kernel buffer is
  possible; a user address faults.
\<close>

definition devfs_ReadInode ::
  "nat \<Rightarrow> sink \<Rightarrow> nat \<Rightarrow> nat \<Rightarrow> 'a kdevfs_scheme \<Rightarrow> (int outcome \<times> 'a kdevfs_scheme) result" where
  "devfs_ReadInode me snk ip n s =
     bindr (the_inode ip s) (\<lambda>nd.
       if i_dev nd = kConsoleIno
       then bindr (console_read me snk 0 (int n) s) (\<lambda>(r, tot, s1). Inr (r, s1))
       else bindr (RwDevRead (i_dev nd) 0 n s) (\<lambda>(r, bs).
         case snk of ToKernel pa \<Rightarrow> Inr (Done r, s\<lparr>mem := write_bytes (mem s) pa bs\<rparr>)
         | _ \<Rightarrow> Inl (BadAccess ''user address'')))"

definition devfs_WriteInode ::
  "nat \<Rightarrow> source \<Rightarrow> nat \<Rightarrow> nat \<Rightarrow> 'a kdevfs_scheme \<Rightarrow> (int \<times> 'a kdevfs_scheme) result" where
  "devfs_WriteInode me src ip n s =
     bindr (the_inode ip s) (\<lambda>nd.
       if i_dev nd = kConsoleIno then console_write me src (int n) s
       else (case src of FromUser va \<Rightarrow> Inl (BadAccess ''user address'')
             | FromKernel pa \<Rightarrow> RwDevWrite (i_dev nd) 0 (read_bytes (mem s) pa n) s
             | FromObject bs \<Rightarrow> RwDevWrite (i_dev nd) 0 (take n bs) s))"

fun devfs_find :: "cstr \<Rightarrow> (u8 list \<times> nat) list \<Rightarrow> nat option" where
  "devfs_find name [] = None"
| "devfs_find name ((nm, ip) # it) = (if strcmp nm name = 0 then Some ip else devfs_find name it)"

definition devfs_Lookup :: "nat \<Rightarrow> nat \<Rightarrow> cstr \<Rightarrow> 'a kdevfs_scheme \<Rightarrow> (nat option \<times> 'a kdevfs_scheme) result" where
  "devfs_Lookup d me name s =
     (case devfs_find name (sl_begin (dv_children (devfss s ! d))) of None \<Rightarrow> Inr (None, s)
      | Some ip \<Rightarrow> bindr (inode_dup me ip s) (\<lambda>(p, s1). Inr (Some p, s1)))"

primrec devfs_dots ::
  "nat \<Rightarrow> nat \<Rightarrow> ReadDirHeader \<Rightarrow> nat \<Rightarrow> 'a kfat_scheme \<Rightarrow> (bool \<times> ReadDirHeader \<times> nat \<times> 'a kfat_scheme) result" where
  "devfs_dots 0 me h off s = Inr (True, h, off, s)"
| "devfs_dots (Suc k) me h off s =
     bindr (filldir me h [46, 46] (off + 1) kDevFsRootIno DT_DIR s) (\<lambda>(r, h1, s1).
       if r < 0 then Inr (False, h1, off, s1) else devfs_dots k me h1 (off + 1) s1)"

fun devfs_list ::
  "(u8 list \<times> nat) list \<Rightarrow> nat \<Rightarrow> ReadDirHeader \<Rightarrow> nat \<Rightarrow> 'a kdevfs_scheme
   \<Rightarrow> (bool \<times> ReadDirHeader \<times> nat \<times> 'a kdevfs_scheme) result" where
  "devfs_list [] me h off s = Inr (True, h, off, s)"
| "devfs_list ((nm, ip) # it) me h off s =
     bindr (filldir me h nm (strlen nm) (i_inum (inodes s ! ip)) DT_REG s) (\<lambda>(r, h1, s1).
       if r < 0 then Inr (False, h1, off, s1) else devfs_list it me h1 (off + 1) s1)"

text \<open>\<^verbatim>\<open>ReadDir\<close>: when the buffer fills up the file offset keeps the value it had after the dots.\<close>

definition devfs_ReadDir ::
  "nat \<Rightarrow> nat \<Rightarrow> nat \<Rightarrow> nat \<Rightarrow> u64 \<Rightarrow> nat \<Rightarrow> bool \<Rightarrow> 'a kdevfs_scheme \<Rightarrow> (int \<times> nat \<times> 'a kdevfs_scheme) result" where
  "devfs_ReadDir d me offset ip buf max_len user s =
     bindr (the_inode ip s) (\<lambda>nd.
       let h = \<lparr>direntData = buf, rd_free = max_len, rd_used = 0, last_dirent = 0, rd_user = user\<rparr> in
       bindr (if i_inum nd = kDevFsRootIno then devfs_dots (2 - offset) me h offset s
              else Inr (True, h, offset, s)) (\<lambda>(ok, h1, off1, s1).
         if \<not> ok then Inr (int (rd_used h1), off1, s1)
         else bindr (devfs_list (drop (off1 - 2) (sl_begin (dv_children (devfss s1 ! d)))) me h1 off1 s1)
                (\<lambda>(ok, h2, off2, s2). Inr (int (rd_used h2), (if ok then off2 else off1), s2))))"

section \<open>The line discipline\<close>

text \<open>The bytes typed and not yet read, and the shape of the ring they are in, as long as the indices are not negative.\<close>

definition con_pending :: "'a kconsole_scheme \<Rightarrow> u8 list" where
  "con_pending s = map (\<lambda>i. con_buf s ! (i mod INPUT_BUF)) [unat (read_index s)..<unat (write_index s)]"

definition con_ring :: "'a kconsole_scheme \<Rightarrow> bool" where
  "con_ring s \<longleftrightarrow> length (con_buf s) = INPUT_BUF \<and> read_index s \<le> write_index s \<and> unat (write_index s) < 2 ^ 31 \<and>
     unat (write_index s) - unat (read_index s) \<le> INPUT_BUF"

text \<open>What a key does to the pending bytes.\<close>

definition edit_key :: "platform \<Rightarrow> u8 \<Rightarrow> u8 list \<Rightarrow> u8 list" where
  "edit_key pf c p =
     (if c = 8 \<or> c = 0x7f then butlast p
      else if c = 16 \<or> c = 126 \<or> c = 36 \<or> c = 35 \<or> pf = K210 \<and> c = 13 then p
      else p @ [if c = 13 then 10 else c])"

lemma con_slot_unat:
  assumes "unat i < 2 ^ 31" shows "con_slot i = Inr (unat i mod INPUT_BUF)"
proof -
  have "sint i = int (unat i)" using assms unfolding sint_u32 by simp
  then have "sint i smod int INPUT_BUF = int (unat i mod INPUT_BUF)"
    by (cases "i = 0") (simp_all add: signed_modulo_int_def zmod_int INPUT_BUF_def)
  then show ?thesis by (simp add: con_slot_def)
qed

lemma unat_index_up: "unat (i :: u32) < 2 ^ 31 \<Longrightarrow> unat (i + 1) = Suc (unat i)"
  by (simp add: unat_word_ariths)

lemma unat_index_down: "(i :: u32) < j \<Longrightarrow> unat (j - 1) = unat j - 1"
  by (intro unat_minus_one) auto

lemma con_pending_length: "length (con_pending s) = unat (write_index s) - unat (read_index s)"
  by (simp add: con_pending_def)

lemma mod_window:
  fixes i j n :: nat
  assumes "i mod n = j mod n" "i < j" "j - i < n"
  shows False
  using assms by (metis mod_eq_dvd_iff_nat nat_less_le nat_dvd_not_less zero_less_diff)

lemma con_pending_put:
  assumes "con_ring s" "length (con_pending s) < INPUT_BUF"
  shows "map (\<lambda>i. (con_buf s)[unat (write_index s) mod INPUT_BUF := c] ! (i mod INPUT_BUF))
      [unat (read_index s)..<Suc (unat (write_index s))] = con_pending s @ [c]"
proof -
  have "unat (write_index s) mod INPUT_BUF \<noteq> i mod INPUT_BUF" if "unat (read_index s) \<le> i" "i < unat (write_index s)" for i
    using assms that con_pending_length [of s] by (intro notI) (rule mod_window [of i INPUT_BUF "unat (write_index s)"], auto)
  moreover have "unat (write_index s) mod INPUT_BUF < length (con_buf s)" using assms(1) by (simp add: con_ring_def INPUT_BUF_def)
  ultimately show ?thesis using assms(1) by (auto simp: con_pending_def con_ring_def nth_list_update_neq word_le_nat_alt)
qed

lemma console_putc_fields [simp]:
  "con_buf (console_putc c s) = con_buf s" "read_index (console_putc c s) = read_index s"
  "write_index (console_putc c s) = write_index s" "mem (console_putc c s) = mem s"
  by (simp_all add: console_putc_def)

lemma wakeup_console_fields [simp]:
  "con_buf (wakeup c s) = con_buf s" "read_index (wakeup c s) = read_index s" "write_index (wakeup c s) = write_index s"
  "mem (wakeup c s) = mem s"
  by (simp_all add: wakeup_def)

lemma console_erase:
  assumes "con_ring s" "read_index s \<noteq> write_index s"
  shows "con_ring (s\<lparr>write_index := write_index s - 1\<rparr>)" "con_pending (s\<lparr>write_index := write_index s - 1\<rparr>) = butlast (con_pending s)"
proof -
  have lt: "read_index s < write_index s" using assms by (auto simp: con_ring_def order_less_le)
  note d = unat_index_down [OF lt]
  have u: "unat (read_index s) < unat (write_index s)" using lt by (simp add: word_less_nat_alt)
  show "con_ring (s\<lparr>write_index := write_index s - 1\<rparr>)" using assms(1) d u by (auto simp: con_ring_def word_le_nat_alt)
  obtain k where k: "unat (write_index s) = Suc k" using u by (cases "unat (write_index s)") auto
  show "con_pending (s\<lparr>write_index := write_index s - 1\<rparr>) = butlast (con_pending s)"
    using d k u by (simp add: con_pending_def)
qed

lemma console_intr_edits:
  assumes "con_ring s" "length (con_pending s) < INPUT_BUF" "unat (write_index s) + 1 < 2 ^ 31"
  shows "\<exists>s'. console_intr pf c s = Inr s' \<and> con_ring s' \<and> con_pending s' = edit_key pf c (con_pending s) \<and> mem s' = mem s \<and>
    unat (write_index s') \<le> unat (write_index s) + 1"
proof -
  consider (erase) "c = 8 \<or> c = 0x7f" | (ignored) "c \<noteq> 8" "c \<noteq> 0x7f" "c = 16 \<or> c = 126 \<or> c = 36 \<or> c = 35 \<or> pf = K210 \<and> c = 13"
    | (plain) "c \<noteq> 8" "c \<noteq> 0x7f" "\<not> (c = 16 \<or> c = 126 \<or> c = 36 \<or> c = 35 \<or> pf = K210 \<and> c = 13)" by blast
  then show ?thesis
  proof cases
    case erase
    show ?thesis
    proof (cases "read_index s = write_index s")
      case True
      then have "con_pending s = []" by (simp add: con_pending_def)
      then show ?thesis using True erase assms(1) by (simp add: console_intr_def edit_key_def)
    next
      case False
      let ?s = "s\<lparr>write_index := write_index s - 1\<rparr>"
      have lt: "read_index s < write_index s" using False assms(1) by (auto simp: con_ring_def order_less_le)
      note e = console_erase [OF assms(1) False]
      have "con_ring (console_putc 7 (console_putc BACKSPACE ?s))" "con_pending (console_putc 7 (console_putc BACKSPACE ?s)) = con_pending ?s"
        using e(1) by (simp_all add: con_ring_def con_pending_def)
      then show ?thesis using False erase e(2) unat_index_down [OF lt] by (simp add: console_intr_def edit_key_def)
    qed
  next
    case ignored
    then show ?thesis using assms by (auto simp: console_intr_def edit_key_def)
  next
    case plain
    let ?c = "if pf \<noteq> K210 \<and> c = 13 then 10 else c"
    let ?k = "unat (write_index s) mod INPUT_BUF"
    have w: "unat (write_index s) < 2 ^ 31" using assms(3) by simp
    have e: "edit_key pf c (con_pending s) = con_pending s @ [?c]" using plain by (auto simp: edit_key_def)
    obtain s' where i: "console_intr pf c s = Inr s'" "con_buf s' = (con_buf s)[?k := ?c]" "read_index s' = read_index s"
        "write_index s' = write_index s + 1" "mem s' = mem s"
      using plain con_slot_unat [OF w] by (auto simp: console_intr_def Let_def)
    have "con_pending s' = con_pending s @ [?c]"
      using con_pending_put [OF assms(1,2), of ?c] by (simp add: con_pending_def i unat_index_up [OF w])
    moreover have "con_ring s'" using assms con_pending_length [of s] by (simp add: con_ring_def i word_le_nat_alt unat_index_up [OF w])
    ultimately show ?thesis using i e unat_index_up [OF w] by simp
  qed
qed

lemma edit_key_length: "length (edit_key pf c p) \<le> Suc (length p)"
  by (auto simp: edit_key_def)

lemma console_types:
  assumes "con_ring s" "length (con_pending s) + length keys \<le> INPUT_BUF" "unat (write_index s) + length keys < 2 ^ 31"
  shows "\<exists>s'. console_keys pf keys s = Inr s' \<and> con_ring s' \<and> con_pending s' = fold (edit_key pf) keys (con_pending s) \<and> mem s' = mem s"
  using assms
proof (induction keys arbitrary: s)
  case (Cons c keys)
  obtain s1 where s1: "console_intr pf c s = Inr s1" "con_ring s1" "con_pending s1 = edit_key pf c (con_pending s)" "mem s1 = mem s"
      "unat (write_index s1) \<le> unat (write_index s) + 1"
    using console_intr_edits [OF Cons(2), of pf c] Cons(3,4) by auto
  then show ?case using Cons(1) [OF s1(2)] Cons(3,4) edit_key_length [of pf c "con_pending s"] by simp
qed simp

lemma write_bytes_snoc:
  assumes "Suc (length bs) < 2 ^ 64"
  shows "write_bytes (write_bytes m p bs) (p + of_nat (length bs)) [c] = write_bytes m p (bs @ [c])"
proof
  fix x
  have "unat (x - (p + of_nat (length bs))) = 0 \<longleftrightarrow> unat (x - p) = length bs"
  proof -
    have "unat (x - (p + of_nat (length bs))) = 0 \<longleftrightarrow> x - p = of_nat (length bs)"
      by (simp add: unat_eq_0 eq_diff_eq add.commute diff_eq_eq)
    also have "\<dots> \<longleftrightarrow> unat (x - p) = length bs" using assms by (auto simp: word_unat_eq_iff)
    finally show ?thesis .
  qed
  then show "write_bytes (write_bytes m p bs) (p + of_nat (length bs)) [c] x = write_bytes m p (bs @ [c]) x"
    by (auto simp: write_bytes_def nth_append less_Suc_eq)
qed

lemma con_pending_Cons:
  assumes "con_ring s" "con_pending s = c # rest"
  shows "read_index s \<noteq> write_index s" "\<exists>k. con_slot (read_index s) = Inr k \<and> con_buf s ! k = c"
    "con_ring (s\<lparr>read_index := read_index s + 1\<rparr>)" "con_pending (s\<lparr>read_index := read_index s + 1\<rparr>) = rest"
proof -
  have lt: "unat (read_index s) < unat (write_index s)"
    using assms(2) by (cases "unat (read_index s) < unat (write_index s)") (auto simp: con_pending_def)
  then have r: "unat (read_index s) < 2 ^ 31" using assms(1) by (simp add: con_ring_def)
  show "read_index s \<noteq> write_index s" using lt by auto
  show "\<exists>k. con_slot (read_index s) = Inr k \<and> con_buf s ! k = c"
    using assms(2) lt con_slot_unat [OF r] by (auto simp: con_pending_def upt_conv_Cons)
  show "con_ring (s\<lparr>read_index := read_index s + 1\<rparr>)" "con_pending (s\<lparr>read_index := read_index s + 1\<rparr>) = rest"
    using assms lt unat_index_up [OF r] by (auto simp: con_pending_def con_ring_def upt_conv_Cons word_le_nat_alt)
qed

lemma console_read_line:
  assumes "con_ring s" "con_pending s = line @ 10 # rest" "10 \<notin> set line" "length line < n"
    and "mem s = write_bytes m pa done" "tot = length done" "tot + n < 2 ^ 64"
  shows "\<exists>s'. console_read_loop me (ToKernel pa) tot n s = Inr (Done (int (tot + length line) + 1), tot + length line + 1, s') \<and>
    mem s' = write_bytes m pa (done @ line @ [10]) \<and> con_ring s' \<and> con_pending s' = rest"
  using assms
proof (induction line arbitrary: s tot n "done")
  case Nil
  then obtain n' where n: "n = Suc n'" by (cases n) auto
  note p = con_pending_Cons [OF Nil(1), of 10 rest]
  have "write_bytes (mem s) (pa + of_nat tot) [10] = write_bytes m pa (done @ [10])"
    using write_bytes_snoc [of "done" m pa 10] Nil n by simp
  then show ?case using Nil p by (auto simp: n Let_def sink_put_def either_copyout_def con_ring_def con_pending_def)
next
  case (Cons c line)
  then obtain n' where n: "n = Suc n'" by (cases n) auto
  note p = con_pending_Cons [OF Cons(2), of c "line @ 10 # rest"]
  have w: "write_bytes (mem s) (pa + of_nat tot) [c] = write_bytes m pa (done @ [c])"
    using write_bytes_snoc [of "done" m pa c] Cons(6-) n by simp
  let ?s = "s\<lparr>read_index := read_index s + 1, mem := write_bytes (mem s) (pa + of_nat tot) [c]\<rparr>"
  have "console_read_loop me (ToKernel pa) tot n s = console_read_loop me (ToKernel pa) (tot + 1) n' ?s"
    using Cons(3,4) p by (auto simp: n Let_def sink_put_def either_copyout_def)
  moreover have "con_ring ?s" "con_pending ?s = line @ 10 # rest"
    using Cons(3) p by (auto simp: con_ring_def con_pending_def)
  ultimately show ?case using Cons(1) [of ?s n' "done @ [c]" "tot + 1"] Cons(4-) n w by (auto simp: algebra_simps)
qed

text \<open>
  C27: The console is a line editor: keys typed while the ring has room (and before the index, a C integer, overflows) edit the pending
  bytes (a character is appended, backspace removes the last pending one, the debugging keys and, on the K210, carriage return are
  swallowed), and a read of \<open>n\<close> bytes into a kernel buffer returns exactly the first pending line and leaves the rest for the next read.
  The line is delivered and counted with its newline, against the comment at the declaration of \<^verbatim>\<open>read\<close>, which says without.
\<close>

theorem console_reads_typed_line:
  assumes "con_ring s" and "length (con_pending s) + length keys \<le> INPUT_BUF" and "unat (write_index s) + length keys < 2 ^ 31"
    and "fold (edit_key pf) keys (con_pending s) = line @ 10 # rest" and "10 \<notin> set line" and "length line < n" and "n < 2 ^ 31"
  shows "\<exists>t s'. console_keys pf keys s = Inr t \<and> console_read me (ToKernel pa) 0 (int n) t =
      Inr (Done (int (length line) + 1), length line + 1, s') \<and>
    mem s' = write_bytes (mem s) pa (line @ [10]) \<and> con_pending s' = rest"
proof -
  obtain t where k: "console_keys pf keys s = Inr t" and t: "con_ring t" "con_pending t = line @ 10 # rest" "mem t = write_bytes (mem s) pa []"
    using console_types [OF assms(1-3), of pf] assms(4) by (auto simp: write_bytes_def)
  show ?thesis using console_read_line [OF t(1,2) assms(5,6) t(3), of 0 me] assms(7) k
    by (auto simp: console_read_def)
qed

definition quiet_console :: kconsole where
  "quiet_console =
     \<lparr>mem = (\<lambda>_. 0), kend = 0x80020000, freeList = 0, npage = 0, total_page = 0, freelist = (\<lambda>_. 0), maxlv = 12,
      minlv = 4, taskTable = [blank_task], initTask = None, vma_table = [], ticks = 0, trampoline = 0,
      stack_base = 0, forkret_addr = 0, pipes = (\<lambda>_. None), rw_devs = [], bufCache = [],
      bl_first_data_sector = 0, bl_sectors_per_cluster = 0, inodes = [], fats = [], fat_cache = (\<lambda>_. 0),
      clock_now = 0, clock_nsec = 0, stack_junk = [], con_buf = replicate INPUT_BUF 0, read_index = 0, write_index = 0, con_out = []\<rparr>"

theorem console_reads_typed_line_witness:
  "\<exists>t s'. console_keys QEMU [104, 111, 8, 105, 13] quiet_console = Inr t \<and>
     console_read 0 (ToKernel 0x80100000) 0 100 t = Inr (Done 3, 3, s') \<and> mem s' = write_bytes (\<lambda>_. 0) 0x80100000 [104, 105, 10]"
  using console_reads_typed_line [of quiet_console "[104, 111, 8, 105, 13]" QEMU "[104, 105]" "[]" 100 0 "0x80100000"]
  by (auto simp: quiet_console_def con_ring_def con_pending_def edit_key_def INPUT_BUF_def)

end
