(* ===== verification/Vfs.thy ===== *)
theory Vfs
  imports Console
begin

text \<open>
  Open files, path resolution and mount points: \<^verbatim>\<open>VfsManager\<close> of \<^verbatim>\<open>src/kernel/fs/vfs/vfs.cpp\<close> and
  \<^verbatim>\<open>src/kernel/fs/vfs_file.cpp\<close>, dispatching to the FAT32 and the device file system; and the path and
  file-table functions of the older layer \<^verbatim>\<open>src/kernel/fs/vfs/Vfs.cpp\<close> that is still in use by \<^verbatim>\<open>exit\<close>
  and \<^verbatim>\<open>exec\<close>.
\<close>

section \<open>State\<close>

datatype fdtype = FD_NONE | FD_PIPE | FD_ENTRY | FD_DEVICE | FD_INODE

record open_file =
  f_live :: bool
  f_size :: nat
  f_ref :: int
  f_readable :: bool
  f_writable :: bool
  f_type :: fdtype
  f_pipe :: "nat option"
  f_inode :: "nat option"
  f_offset :: nat
  f_mode :: nat

record MountPoint =
  mp_path :: "u8 list"
  device_path :: "u8 list"
  mp_origin :: "nat option"
  mp_target :: "nat option"
  mp_dev :: nat
  mp_fs :: fsref

record kfs = kdevfs +
  files :: "open_file list"
  mount_points :: "MountPoint list"
  vfs_root :: "nat option"
  next_pipe :: nat

definition kMaxFileName :: nat where "kMaxFileName = 35"
definition kMountPointNumber :: nat where "kMountPointNumber = 5"
definition O_WRONLY :: nat where "O_WRONLY = 1"
definition O_RDWR :: nat where "O_RDWR = 2"
definition O_CREATE :: nat where "O_CREATE = 0x40"
definition O_TRUNC :: nat where "O_TRUNC = 0x400"
definition O_APPEND :: nat where "O_APPEND = 8"
definition O_DIRECTORY :: nat where "O_DIRECTORY = 0x200000"

definition the_file :: "nat \<Rightarrow> 'a kfs_scheme \<Rightarrow> open_file result" where
  "the_file fp s =
     (if fp < length (files s) \<and> f_live (files s ! fp) then Inr (files s ! fp) else Inl (BadAccess ''file''))"

definition upd_file :: "nat \<Rightarrow> (open_file \<Rightarrow> open_file) \<Rightarrow> 'a kfs_scheme \<Rightarrow> 'a kfs_scheme" where
  "upd_file fp g s = s\<lparr>files := (files s)[fp := g (files s ! fp)]\<rparr>"

definition nonnull :: "string \<Rightarrow> 'b option \<Rightarrow> 'b result" where
  "nonnull msg x = (case x of None \<Rightarrow> Inl (BadAccess msg) | Some y \<Rightarrow> Inr y)"

text \<open>Addition of an \<^verbatim>\<open>int\<close> to a \<^verbatim>\<open>size_t\<close>.\<close>

definition add_size :: "nat \<Rightarrow> int \<Rightarrow> nat" where
  "add_size a b = nat ((int a + b) mod 2 ^ 64)"

section \<open>Dispatch to the file systems\<close>

definition inode_read ::
  "nat \<Rightarrow> sink \<Rightarrow> nat \<Rightarrow> nat \<Rightarrow> nat \<Rightarrow> 'a kdevfs_scheme \<Rightarrow> (int outcome \<times> 'a kdevfs_scheme) result" where
  "inode_read me snk ip off n s =
     bindr (inode_lock me ip s) (\<lambda>s1.
       case i_fs (inodes s1 ! ip) of
         FatFs f \<Rightarrow> bindr (ReadInode f me snk ip (off mod 2 ^ 32) n s1) (\<lambda>(r, bs, s2). Inr (Done r, inode_unlock ip s2))
       | DevFs d \<Rightarrow> bindr (devfs_ReadInode me snk ip n s1) (\<lambda>(r, s2).
           Inr (r, case r of Done _ \<Rightarrow> inode_unlock ip s2 | Sleep _ \<Rightarrow> s2))
       | NoFs \<Rightarrow> Inl (BadAccess ''file_system''))"

definition inode_write ::
  "nat \<Rightarrow> source \<Rightarrow> nat \<Rightarrow> nat \<Rightarrow> nat \<Rightarrow> 'a kdevfs_scheme \<Rightarrow> (int \<times> 'a kdevfs_scheme) result" where
  "inode_write me src ip off n s =
     bindr (inode_lock me ip s) (\<lambda>s1.
       bindr (case i_fs (inodes s1 ! ip) of
                FatFs f \<Rightarrow> WriteInode f me src ip (off mod 2 ^ 32) n s1
              | DevFs d \<Rightarrow> devfs_WriteInode me src ip n s1
              | NoFs \<Rightarrow> Inl (BadAccess ''file_system'')) (\<lambda>(r, s2). Inr (r, inode_unlock ip s2)))"

definition fs_Lookup :: "nat \<Rightarrow> fsref \<Rightarrow> nat \<Rightarrow> cstr \<Rightarrow> 'a kdevfs_scheme \<Rightarrow> (nat option \<times> 'a kdevfs_scheme) result" where
  "fs_Lookup me fs dir name s =
     (case fs of FatFs f \<Rightarrow> fat_Lookup f me dir name s | DevFs d \<Rightarrow> devfs_Lookup d me name s
      | NoFs \<Rightarrow> Inl (BadAccess ''file_system''))"

definition fs_Create :: "nat \<Rightarrow> fsref \<Rightarrow> nat \<Rightarrow> cstr \<Rightarrow> nat \<Rightarrow> 'a kdevfs_scheme \<Rightarrow> (int \<times> 'a kdevfs_scheme) result" where
  "fs_Create me fs dir name mode s =
     (case fs of FatFs f \<Rightarrow> fat_Create f me dir name mode s | DevFs d \<Rightarrow> Inr (0, s)
      | NoFs \<Rightarrow> Inl (BadAccess ''file_system''))"

definition fs_Mkdir :: "nat \<Rightarrow> fsref \<Rightarrow> nat \<Rightarrow> cstr \<Rightarrow> nat \<Rightarrow> 'a kdevfs_scheme \<Rightarrow> (int \<times> 'a kdevfs_scheme) result" where
  "fs_Mkdir me fs dir name mode s =
     (case fs of FatFs f \<Rightarrow> fat_Mkdir f me dir name mode s | DevFs d \<Rightarrow> Inr (- 1, s)
      | NoFs \<Rightarrow> Inl (BadAccess ''file_system''))"

definition fs_Unlink :: "nat \<Rightarrow> fsref \<Rightarrow> nat \<Rightarrow> cstr \<Rightarrow> 'a kdevfs_scheme \<Rightarrow> (int \<times> 'a kdevfs_scheme) result" where
  "fs_Unlink me fs dir name s =
     (case fs of FatFs f \<Rightarrow> fat_Unlink f me dir name s | DevFs d \<Rightarrow> Inr (- 1, s)
      | NoFs \<Rightarrow> Inl (BadAccess ''file_system''))"

section \<open>Paths\<close>

text \<open>
  A path is the list of its characters without the terminator. \<^verbatim>\<open>SkipElememt\<close> returns the rest of the
  path and the new contents of the 35 bytes of \<^verbatim>\<open>name\<close>; a longer element is cut and not terminated.
\<close>

definition SkipElememt :: "cstr \<Rightarrow> u8 list \<Rightarrow> (cstr \<times> u8 list) option" where
  "SkipElememt path name =
     (let p = dropWhile (\<lambda>c. c = 47) path;
          elt = takeWhile (\<lambda>c. c \<noteq> 47) p;
          rest = dropWhile (\<lambda>c. c = 47) (dropWhile (\<lambda>c. c \<noteq> 47) p)
      in if p = [] then None
         else if length elt \<ge> kMaxFileName then Some (rest, splice 0 (take kMaxFileName elt) name)
         else Some (rest, splice 0 (elt @ [0]) name))"

lemma SkipElememt_shorter:
  assumes "SkipElememt path name = Some (rest, name')"
  shows "length rest < length path"
proof -
  define p where "p = dropWhile (\<lambda>c. c = (47 :: u8)) path"
  have p: "p \<noteq> []" and rest: "rest = dropWhile (\<lambda>c. c = 47) (dropWhile (\<lambda>c. c \<noteq> 47) p)"
    using assms by (auto simp: SkipElememt_def Let_def p_def split: if_splits)
  obtain c q where cq: "p = c # q" using p by (cases p) auto
  moreover have "c \<noteq> 47"
    using cq hd_dropWhile [of "\<lambda>c. c = (47 :: u8)" path] by (simp add: p_def)
  ultimately have "length rest \<le> length q"
    using rest length_dropWhile_le [of "\<lambda>c. c = 47" "dropWhile (\<lambda>c. c \<noteq> 47) q"]
      length_dropWhile_le [of "\<lambda>c. c \<noteq> 47" q] by simp
  also have "\<dots> < length path"
    using cq length_dropWhile_le [of "\<lambda>c. c = 47" path] by (simp add: p_def)
  finally show ?thesis .
qed

definition ConvertInodeByMp :: "nat \<Rightarrow> nat \<Rightarrow> 'a kfs_scheme \<Rightarrow> (nat \<times> 'a kfs_scheme) result" where
  "ConvertInodeByMp me ip s =
     (case List.find (\<lambda>i. mp_origin (mount_points s ! i) = Some ip) [0..<kMountPointNumber] of
        None \<Rightarrow> Inr (ip, s)
      | Some i \<Rightarrow> bindr (inode_free me ip s) (\<lambda>s1.
          bindr (nonnull ''mount target'' (mp_target (mount_points s1 ! i))) (\<lambda>t. inode_dup me t s1)))"

text \<open>\<^verbatim>\<open>namex\<close>: the inode, or None, and the last element read into \<^verbatim>\<open>name\<close>.\<close>

function namex ::
  "nat \<Rightarrow> nat \<Rightarrow> fsref \<Rightarrow> cstr \<Rightarrow> bool \<Rightarrow> u8 list \<Rightarrow> 'a kfs_scheme \<Rightarrow> (nat option \<times> u8 list \<times> 'a kfs_scheme) result" where
  "namex me ip fs path parent name s =
     (case SkipElememt path name of
        None \<Rightarrow>
          if parent then bindr (inode_free me ip s) (\<lambda>s1. Inr (None, name, s1)) else Inr (Some ip, name, s)
      | Some (rest, name1) \<Rightarrow>
          bindr (inode_lock me ip s) (\<lambda>s1.
            if \<not> S_ISDIR (i_mode (inodes s1 ! ip))
            then bindr (inode_free me ip (inode_unlock ip s1)) (\<lambda>s2. Inr (None, name1, s2))
            else if parent \<and> rest = [] then Inr (Some ip, name1, inode_unlock ip s1)
            else bindr (fs_Lookup me fs ip name1 s1) (\<lambda>(r, s2).
              case r of
                None \<Rightarrow> bindr (inode_free me ip (inode_unlock ip s2)) (\<lambda>s3. Inr (None, name1, s3))
              | Some ip_next \<Rightarrow>
                  bindr (inode_free me ip (inode_unlock ip s2)) (\<lambda>s3.
                    bindr (ConvertInodeByMp me ip_next s3) (\<lambda>(ip1, s4).
                      namex me ip1 (i_fs (inodes s4 ! ip1)) rest parent name1 s4)))))"
  by pat_completeness auto
termination
  by (relation "measure (\<lambda>(me, ip, fs, path, parent, name, s). length path)") (auto dest: SkipElememt_shorter)

declare namex.simps [simp del]

definition namex_of :: "nat \<Rightarrow> nat \<Rightarrow> cstr \<Rightarrow> bool \<Rightarrow> u8 list \<Rightarrow> 'a kfs_scheme \<Rightarrow> (nat option \<times> u8 list \<times> 'a kfs_scheme) result" where
  "namex_of me ip path parent name s =
     bindr (the_inode ip s) (\<lambda>nd. namex me ip (i_fs nd) (takeWhile (\<lambda>c. c \<noteq> 0) path) parent name s)"

definition namei :: "nat \<Rightarrow> nat option \<Rightarrow> cstr \<Rightarrow> 'a kfs_scheme \<Rightarrow> (nat option \<times> 'a kfs_scheme) result" where
  "namei me dir path s =
     bindr (case dir of
              Some d \<Rightarrow> Inr (d, s)
            | None \<Rightarrow>
                if cat0 path = 47 then bindr (nonnull ''root_'' (vfs_root s)) (\<lambda>r. inode_dup me r s)
                else bindr (nonnull ''cwd'' (t_cwd (the_task s me))) (\<lambda>c. inode_dup me c s)) (\<lambda>(d, s1).
       bindr (namex_of me d path False (take kMaxFileName (stack_junk s1)) s1) (\<lambda>(r, name, s2). Inr (r, s2)))"

definition nameiparent ::
  "nat \<Rightarrow> nat \<Rightarrow> cstr \<Rightarrow> u8 list \<Rightarrow> 'a kfs_scheme \<Rightarrow> (nat option \<times> u8 list \<times> 'a kfs_scheme) result" where
  "nameiparent me dir path name s = namex_of me dir path True name s"

section \<open>Open files\<close>

definition new_file :: open_file where
  "new_file = \<lparr>f_live = True, f_size = 0, f_ref = 0, f_readable = False, f_writable = False, f_type = FD_NONE,
     f_pipe = None, f_inode = None, f_offset = 0, f_mode = 0\<rparr>"

text \<open>
  \<^verbatim>\<open>openat\<close>. When a file is created the result of \<^verbatim>\<open>nameiparent\<close> is dropped: the entry goes to the
  starting directory.
\<close>

definition vfs_openat ::
  "nat \<Rightarrow> nat option \<Rightarrow> cstr \<Rightarrow> nat \<Rightarrow> nat \<Rightarrow> 'a kfs_scheme \<Rightarrow> (nat option \<times> 'a kfs_scheme) result" where
  "vfs_openat me dir filepath flags mode s =
     bindr (case dir of
              Some d \<Rightarrow> bindr (the_file d s) (\<lambda>f. bindr (nonnull ''dir->inode'' (f_inode f)) (\<lambda>i. inode_dup me i s))
            | None \<Rightarrow>
                if cat0 filepath = 47 then bindr (nonnull ''root_'' (vfs_root s)) (\<lambda>r. inode_dup me r s)
                else bindr (nonnull ''cwd'' (t_cwd (the_task s me))) (\<lambda>c. inode_dup me c s)) (\<lambda>(dp, s1).
       bindr (if flags AND O_CREATE \<noteq> 0 then
                bindr (nameiparent me dp filepath (take kMaxFileName (stack_junk s1)) s1) (\<lambda>(r, name, s2).
                  bindr (the_inode dp s2) (\<lambda>nd.
                    bindr (fs_Create me (i_fs nd) dp name mode s2) (\<lambda>(r, s3).
                      if r < 0 then Inl (Panic ''can't create file'') else namei me (Some dp) name s3)))
              else namei me (Some dp) filepath s1) (\<lambda>(r, s4).
         case r of None \<Rightarrow> Inr (None, s4)
         | Some ip \<Rightarrow>
             bindr (the_inode ip s4) (\<lambda>nd.
               let fp = length (files s4) in
               Inr (Some fp, s4\<lparr>files := files s4 @ [new_file\<lparr>f_inode := Some ip,
                 f_readable := (flags AND O_WRONLY = 0),
                 f_writable := (flags AND O_WRONLY \<noteq> 0 \<or> flags AND O_RDWR \<noteq> 0),
                 f_offset := (if flags AND O_APPEND \<noteq> 0 \<or> flags AND O_TRUNC \<noteq> 0 then i_sz nd else 0),
                 f_type := FD_INODE, f_ref := 1, f_size := i_sz nd, f_mode := i_mode nd\<rparr>]\<rparr>))))"

definition vfs_unlinkat :: "nat \<Rightarrow> nat \<Rightarrow> cstr \<Rightarrow> 'a kfs_scheme \<Rightarrow> (int \<times> 'a kfs_scheme) result" where
  "vfs_unlinkat me dir name s =
     bindr (the_file dir s) (\<lambda>f. bindr (nonnull ''dir->inode'' (f_inode f)) (\<lambda>ip.
       bindr (the_inode ip s) (\<lambda>nd. fs_Unlink me (i_fs nd) ip name s)))"

text \<open>
  \<^verbatim>\<open>read\<close> and \<^verbatim>\<open>write\<close>. A pipe operation that waits returns \<open>Sleep\<close>, as does a read of the console,
  which then still holds the lock of the inode. \<open>n\<close> is the \<^verbatim>\<open>int\<close> the caller passes.
\<close>

definition vfs_read ::
  "nat \<Rightarrow> nat option \<Rightarrow> u64 \<Rightarrow> u32 \<Rightarrow> bool \<Rightarrow> 'a kfs_scheme \<Rightarrow> (int outcome \<times> 'a kfs_scheme) result" where
  "vfs_read me fpo buf n user s =
     (case fpo of None \<Rightarrow> Inl (Panic ''fp is nullptr'')
      | Some fp \<Rightarrow>
        bindr (the_file fp s) (\<lambda>f.
          bindr (case f_type f of
                   FD_PIPE \<Rightarrow> bindr (nonnull ''pipe'' (f_pipe f)) (\<lambda>p. pipe_read me p buf (sint n) s)
                 | FD_INODE \<Rightarrow> bindr (nonnull ''inode'' (f_inode f)) (\<lambda>ip.
                     inode_read me (if user then ToUser buf else ToKernel buf) ip (f_offset f) (unat n) s)
                 | _ \<Rightarrow> Inl (Panic ''unknown file type'')) (\<lambda>(r, s1).
            case r of Sleep c \<Rightarrow> Inr (Sleep c, s1)
            | Done k \<Rightarrow> Inr (Done k, upd_file fp (\<lambda>x. x\<lparr>f_offset := add_size (f_offset x) k\<rparr>) s1))))"

definition vfs_write ::
  "nat \<Rightarrow> nat option \<Rightarrow> u64 \<Rightarrow> u32 \<Rightarrow> bool \<Rightarrow> 'a kfs_scheme \<Rightarrow> (int outcome \<times> 'a kfs_scheme) result" where
  "vfs_write me fpo buf n user s =
     (case fpo of None \<Rightarrow> Inl (Panic ''fp is nullptr'')
      | Some fp \<Rightarrow>
        bindr (the_file fp s) (\<lambda>f.
          if \<not> f_writable f then Inr (Done (- 1), s)
          else (case f_type f of
              FD_PIPE \<Rightarrow>
                bindr (nonnull ''pipe'' (f_pipe f)) (\<lambda>p.
                  bindr (pipe_write me p buf 0 (sint n) s) (\<lambda>(r, i, s1).
                    case r of Sleep c \<Rightarrow> Inr (Sleep c, s1)
                    | Done k \<Rightarrow> Inr (Done k, upd_file fp (\<lambda>x. x\<lparr>f_offset := add_size (f_offset x) k\<rparr>) s1)))
            | FD_INODE \<Rightarrow>
                bindr (nonnull ''inode'' (f_inode f)) (\<lambda>ip.
                  bindr (inode_write me (if user then FromUser buf else FromKernel buf) ip (f_offset f) (unat n) s) (\<lambda>(k, s1).
                    Inr (Done k, upd_file fp (\<lambda>x.
                      let o1 = add_size (f_offset x) k; e = add_size o1 k
                      in x\<lparr>f_size := (if e > f_size x then e else f_size x), f_offset := add_size o1 k\<rparr>) s1)))
            | _ \<Rightarrow> Inl (Panic ''unknown file type''))))"

definition vfs_close :: "nat \<Rightarrow> nat \<Rightarrow> 'a kfs_scheme \<Rightarrow> 'a kfs_scheme result" where
  "vfs_close me fp s =
     bindr (the_file fp s) (\<lambda>f.
       if f_ref f < 1 then Inl (Panic ''vfs::close'')
       else if f_ref f - 1 > 0 then Inr (upd_file fp (\<lambda>x. x\<lparr>f_ref := f_ref x - 1\<rparr>) s)
       else
         let s1 = upd_file fp (\<lambda>x. x\<lparr>f_ref := 0, f_live := False\<rparr>) s in
         (case f_type f of
            FD_PIPE \<Rightarrow> bindr (nonnull ''pipe'' (f_pipe f)) (\<lambda>p.
              bindr (if f_writable f then pipe_close p WRITE_END s1 else Inr s1) (\<lambda>s2.
                if f_readable f then pipe_close p READ_END s2 else Inr s2))
          | FD_INODE \<Rightarrow> bindr (nonnull ''inode'' (f_inode f)) (\<lambda>ip. inode_free me ip s1)
          | _ \<Rightarrow> Inr s1))"

definition vfs_rewind :: "nat \<Rightarrow> 'a kfs_scheme \<Rightarrow> 'a kfs_scheme result" where
  "vfs_rewind fp s =
     bindr (the_file fp s) (\<lambda>f.
       if f_ref f < 1 then Inl (Panic ''filerewind'') else Inr (upd_file fp (\<lambda>x. x\<lparr>f_offset := 0\<rparr>) s))"

definition vfs_dup :: "nat option \<Rightarrow> 'a kfs_scheme \<Rightarrow> (nat \<times> 'a kfs_scheme) result" where
  "vfs_dup fpo s =
     bindr (nonnull ''file'' fpo) (\<lambda>fp. bindr (the_file fp s) (\<lambda>f.
       if f_ref f < 1 then Inl (Panic ''vfs::dup'') else Inr (fp, upd_file fp (\<lambda>x. x\<lparr>f_ref := f_ref x + 1\<rparr>) s)))"

definition vfs_createPipe :: "nat \<Rightarrow> 'a kfs_scheme \<Rightarrow> (int \<times> int \<times> 'a kfs_scheme) result" where
  "vfs_createPipe me s =
     (let f0 = length (files s); f1 = Suc f0; p = next_pipe s;
          s1 = s\<lparr>pipes := (pipes s)(p \<mapsto> pipe_new), next_pipe := Suc p,
             files := files s @
               [new_file\<lparr>f_type := FD_PIPE, f_readable := True, f_pipe := Some p, f_ref := 1\<rparr>,
                new_file\<lparr>f_type := FD_PIPE, f_writable := True, f_pipe := Some p, f_ref := 1\<rparr>]\<rparr>
      in bindr (registerFileHandle me (Some f0) (- 1) s1) (\<lambda>(fd0, s2).
           bindr (registerFileHandle me (Some f1) (- 1) s2) (\<lambda>(fd1, s3). Inr (fd0, fd1, s3))))"

definition vfs_ReadDir ::
  "nat \<Rightarrow> nat option \<Rightarrow> u64 \<Rightarrow> nat \<Rightarrow> bool \<Rightarrow> 'a kfs_scheme \<Rightarrow> (int \<times> 'a kfs_scheme) result" where
  "vfs_ReadDir me fpo buf max_len user s =
     bindr (nonnull ''file'' fpo) (\<lambda>fp. bindr (the_file fp s) (\<lambda>f.
       if \<not> f_readable f then Inr (- 1, s)
       else bindr (nonnull ''inode'' (f_inode f)) (\<lambda>ip. bindr (the_inode ip s) (\<lambda>nd.
         bindr (case i_fs nd of
                  FatFs x \<Rightarrow> fat_ReadDir x me (f_offset f) ip buf max_len user s
                | DevFs d \<Rightarrow> devfs_ReadDir d me (f_offset f) ip buf max_len user s
                | NoFs \<Rightarrow> Inl (BadAccess ''file_system'')) (\<lambda>(used, off, s1).
           Inr (used, upd_file fp (\<lambda>x. x\<lparr>f_offset := off\<rparr>) s1))))))"

section \<open>Mount points\<close>

definition mp_zero :: MountPoint where
  "mp_zero = \<lparr>mp_path = replicate MAXPATH 0, device_path = replicate MAXPATH 0, mp_origin = None,
     mp_target = None, mp_dev = 0, mp_fs = NoFs\<rparr>"

text \<open>\<^verbatim>\<open>Mount\<close> takes the last free mount point and only records the two paths.\<close>

definition vfs_Mount :: "cstr \<Rightarrow> cstr \<Rightarrow> 'a kfs_scheme \<Rightarrow> (int \<times> 'a kfs_scheme) result" where
  "vfs_Mount source target s =
     (case List.find (\<lambda>i. mp_path (mount_points s ! i) ! 0 = 0) (rev [0..<kMountPointNumber]) of
        None \<Rightarrow> Inl (Panic ''vfs::mount: haven't enough free mount point'')
      | Some i \<Rightarrow>
          if strlen source > MAXPATH \<or> strlen target > MAXPATH then Inl (BadAccess ''mp_path'')
          else Inr (0, s\<lparr>mount_points := (mount_points s)[i := (mount_points s ! i)\<lparr>
             device_path := splice 0 (strncpy_bytes source (strlen source)) (device_path (mount_points s ! i)),
             mp_path := splice 0 (strncpy_bytes target (strlen target)) (mp_path (mount_points s ! i))\<rparr>]\<rparr>))"

definition MountRoot :: "nat \<Rightarrow> inode \<Rightarrow> nat \<Rightarrow> 'a kfs_scheme \<Rightarrow> 'a kfs_scheme result" where
  "MountRoot me raw raw_sz s =
     bindr (Fat32FileSystem_new 0 raw raw_sz s) (\<lambda>(f, s1).
       bindr (fat_GetRootInode f me s1) (\<lambda>(r, s2).
         Inr (s2\<lparr>mount_points := (mount_points s2)[0 := (mount_points s2 ! 0)\<lparr>mp_dev := 0, mp_fs := FatFs f,
                mp_path := splice 0 [47] (mp_path (mount_points s2 ! 0))\<rparr>], vfs_root := Some r\<rparr>)))"

definition dev_path :: "u8 list" where "dev_path = [47, 100, 101, 118]"
definition dev_name :: "u8 list" where "dev_name = [100, 101, 118]"

definition MountDev :: "nat \<Rightarrow> inode \<Rightarrow> 'a kfs_scheme \<Rightarrow> 'a kfs_scheme result" where
  "MountDev me raw s =
     bindr (DeviceFileSystem_new me raw s) (\<lambda>(d, s1).
       bindr (nonnull ''root_'' (vfs_root s1)) (\<lambda>root.
         let fs = i_fs (inodes s1 ! root) in
         bindr (fs_Lookup me fs root dev_name s1) (\<lambda>(r, s2).
           bindr (case r of Some dev \<Rightarrow> Inr (dev, s2)
                  | None \<Rightarrow>
                      bindr (fs_Mkdir me fs root dev_name O_DIRECTORY s2) (\<lambda>(q, s3).
                        bindr (fs_Lookup me fs root dev_name s3) (\<lambda>(r, s4).
                          case r of None \<Rightarrow> Inl (Panic ''expect dev directory'') | Some dev \<Rightarrow> Inr (dev, s4)))) (\<lambda>(dev, s5).
             bindr (devfs_GetRootInode d me s5) (\<lambda>(t, s6).
               Inr (upd_inode dev (\<lambda>n. n\<lparr>i_is_mp_target := True\<rparr>)
                 (s6\<lparr>mount_points := (mount_points s6)[1 := (mount_points s6 ! 1)\<lparr>mp_dev := 0, mp_fs := DevFs d,
                    mp_path := splice 0 dev_path (mp_path (mount_points s6 ! 1)),
                    mp_origin := Some dev, mp_target := Some t\<rparr>]\<rparr>)))))))"

definition CreateCmd :: "nat \<Rightarrow> nat \<Rightarrow> cstr \<Rightarrow> u8 list \<Rightarrow> 'a kfs_scheme \<Rightarrow> 'a kfs_scheme result" where
  "CreateCmd me dp name text s =
     (let fs = i_fs (inodes s ! dp) in
      bindr (fs_Create me fs dp name 0 s) (\<lambda>(r, s1).
        bindr (fs_Lookup me fs dp name s1) (\<lambda>(r, s2).
          bindr (nonnull ''ip'' r) (\<lambda>ip.
            bindr (inode_write me (FromObject text) ip 0 (length text) s2) (\<lambda>(n, s3). Inr s3)))))"

text \<open>
  \<^verbatim>\<open>Init\<close>; \<open>scripts\<close> are the two files with their names and contents that \<^verbatim>\<open>CreateCmdTxt\<close> writes.
\<close>

primrec CreateCmdTxt :: "(cstr \<times> u8 list) list \<Rightarrow> nat \<Rightarrow> nat \<Rightarrow> 'a kfs_scheme \<Rightarrow> 'a kfs_scheme result" where
  "CreateCmdTxt [] me dp s = Inr s"
| "CreateCmdTxt (x # xs) me dp s = bindr (CreateCmd me dp (fst x) (snd x) s) (CreateCmdTxt xs me dp)"

definition VfsManager_Init ::
  "(cstr \<times> u8 list) list \<Rightarrow> nat \<Rightarrow> inode \<Rightarrow> inode \<Rightarrow> nat \<Rightarrow> 'a kfs_scheme \<Rightarrow> 'a kfs_scheme result" where
  "VfsManager_Init scripts me raw_fat raw_dev raw_sz s =
     bindr (MountRoot me raw_fat raw_sz (s\<lparr>mount_points := replicate kMountPointNumber mp_zero\<rparr>)) (\<lambda>s1.
       bindr (MountDev me raw_dev s1) (\<lambda>s2.
         bindr (nonnull ''root_'' (vfs_root s2)) (\<lambda>r. CreateCmdTxt scripts me r s2)))"

text \<open>
  \<^verbatim>\<open>March\<close>: the mount point whose path is the longest match. The loop over a mount path stops at the end
  of that path, or at once when the character of \<open>path\<close> at the index of the \<^emph>\<open>mount point\<close> is the
  terminator.
\<close>

fun mp_match :: "u8 list \<Rightarrow> cstr \<Rightarrow> bool" where
  "mp_match [] path = True"
| "mp_match (c # mp) path = (c = 0 \<or> (c = cat0 path \<and> mp_match mp (tl path)))"

definition March :: "cstr \<Rightarrow> 'a kfs_scheme \<Rightarrow> nat" where
  "March path s =
     fst (foldl (\<lambda>(best, len) i.
            let mp = mp_path (mount_points s ! i) in
            if mp_fs (mount_points s ! 0) \<noteq> NoFs \<and> (cat0 (drop i path) = 0 \<or> mp_match mp path) \<and> strlen mp > len
            then (i, strlen mp) else (best, len)) (0, 0) [0..<kMountPointNumber])"

section \<open>The older layer\<close>

definition getAbsolutePath :: "nat \<Rightarrow> cstr \<Rightarrow> 'a ktasks_scheme \<Rightarrow> u8 list result" where
  "getAbsolutePath me path s =
     (let p0 = takeWhile (\<lambda>c. c \<noteq> 0) path;
          old = (if cat0 p0 = 46 \<and> cat0 (tl p0) = 47 then drop 2 p0 else p0);
          cur = takeWhile (\<lambda>c. c \<noteq> 0) (t_currentDir (the_task s me));
          full = (if cat0 old = 47 then old else cur @ old)
      in if length full > MAXPATH then Inl (BadAccess ''newPath'') else Inr (splice 0 full (replicate MAXPATH 0)))"

definition calAbsolute :: "nat \<Rightarrow> cstr \<Rightarrow> 'a ktasks_scheme \<Rightarrow> u8 list result" where
  "calAbsolute me path s = getAbsolutePath me path s"

text \<open>
  \<^verbatim>\<open>vfs::close\<close> of the older layer clears the file object and closes pipes; an inode keeps its reference.
\<close>

definition old_close :: "nat \<Rightarrow> 'a kfs_scheme \<Rightarrow> 'a kfs_scheme result" where
  "old_close fp s =
     bindr (the_file fp s) (\<lambda>f.
       if f_ref f < 1 then Inl (Panic ''vfs::close'')
       else if f_ref f - 1 > 0 then Inr (upd_file fp (\<lambda>x. x\<lparr>f_ref := f_ref x - 1\<rparr>) s)
       else
         let s1 = upd_file fp (\<lambda>_. new_file) s in
         if f_type f = FD_PIPE then
           bindr (nonnull ''pipe'' (f_pipe f)) (\<lambda>p.
             bindr (if f_writable f then pipe_close p WRITE_END s1 else Inr s1) (\<lambda>s2.
               if f_readable f then pipe_close p READ_END s2 else Inr s2))
         else Inr s1)"

section \<open>What the file operations leave alone\<close>

lemma sl_lock_more: "kbufs.more (snd (sl_lock me c l s)) = kbufs.more s"
  by (simp add: sl_lock_def task_sleep_def upd_task_def)

lemma sl_unlock_more: "kbufs.more (snd (sl_unlock c l s)) = kbufs.more s"
  by (simp add: sl_unlock_def wakeup_def)

lemma upd_buf_more [simp]: "kbufs.more (upd_buf i f s) = kbufs.more s"
  by (simp add: upd_buf_def)

lemma buf_lock_more: "buf_lock me i s = Inr s' \<Longrightarrow> kbufs.more s' = kbufs.more s"
  using sl_lock_more [of me "buf_chan i" "b_lock (bufCache s ! i)" s]
  by (auto simp: buf_lock_def split: prod.splits outcome.splits)

lemma bl_read_more: "bl_read me d c s = Inr (k, s') \<Longrightarrow> kbufs.more s' = kbufs.more s"
  by (auto simp: bl_read_def allocBuffer_def bindr_eq_Inr_iff split: bscan.splits option.splits if_splits dest!: buf_lock_more)

lemma freeBuffer_more [simp]: "kbufs.more (freeBuffer i s) = kbufs.more s"
  using sl_unlock_more [of "buf_chan i" "b_lock (bufCache (upd_buf i (\<lambda>b. b\<lparr>b_refcnt := b_refcnt b - 1\<rparr>) s) ! i)"
      "upd_buf i (\<lambda>b. b\<lparr>b_refcnt := b_refcnt b - 1\<rparr>) s"]
  by (auto simp: freeBuffer_def Let_def split: prod.splits)

lemma RwDevWrite_more: "RwDevWrite d off bs s = Inr (r, s') \<Longrightarrow> kbufs.more s' = kbufs.more s"
  by (auto simp: RwDevWrite_def bindr_eq_Inr_iff split: option.splits if_splits)

lemma bl_write_more: "bl_write i s = Inr s' \<Longrightarrow> kbufs.more s' = kbufs.more s"
  by (auto simp: bl_write_def Let_def bindr_eq_Inr_iff dest!: RwDevWrite_more)

lemma kfat_of_kbufs: "kbufs.more s' = kbufs.more s \<Longrightarrow> kfat.more s' = kfat.more s"
  by (cases s; cases s'; auto)

lemma kdevfs_of_kfat: "kfat.more s' = kfat.more s \<Longrightarrow> kdevfs.more s' = kdevfs.more s"
  by (cases s; cases s'; auto)

lemmas disk_frame = bl_read_more [THEN kfat_of_kbufs] bl_write_more [THEN kfat_of_kbufs] RwDevWrite_more [THEN kfat_of_kbufs]
  freeBuffer_more [THEN kfat_of_kbufs]

lemma SetFatEntey_more: "SetFatEntey f c v s = Inr (r, s') \<Longrightarrow> kfat.more s' = kfat.more s"
  by (auto simp: SetFatEntey_def bindr_eq_Inr_iff split: if_splits)

lemma ZeroCluster_loop_more: "ZeroCluster_loop f c i n s = Inr s' \<Longrightarrow> kfat.more s' = kfat.more s"
  by (induction n arbitrary: i s) (auto simp: bindr_eq_Inr_iff WriteSector_def dest!: disk_frame(3))

lemma AllocCluster_loop_more: "AllocCluster_loop f c s = Inr (r, s') \<Longrightarrow> kfat.more s' = kfat.more s"
proof (induction f c s rule: AllocCluster_loop.induct)
  case (1 f c s)
  have ih: "AllocCluster_loop f (Suc c) s = Inr (r, s') \<Longrightarrow> GetFatEntry f c s = Inr x \<Longrightarrow> \<not> 2147483648 \<le> c \<Longrightarrow> 0 < x \<Longrightarrow>
      kfat.more s' = kfat.more s" for x
    using 1(1) [of x] by simp
  show ?case using 1(2) unfolding AllocCluster_loop.simps [of f c s]
    by (auto simp: bindr_eq_Inr_iff ZeroCluster_def split: if_splits dest!: SetFatEntey_more ZeroCluster_loop_more dest: ih)
qed

lemma upd_inode_more [simp]: "kfat.more (upd_inode ip f s) = kfat.more s"
  by (simp add: upd_inode_def)

lemma bmap_loop_more: "bmap_loop f logi i cur s = Inr (r, s') \<Longrightarrow> kfat.more s' = kfat.more s"
proof (induction "logi - i" arbitrary: i cur s rule: less_induct)
  case less
  have ih: "bmap_loop f logi (Suc i) c t = Inr (r, s') \<Longrightarrow> kfat.more s' = kfat.more t" if "i < logi" for c t
    using less(1) [of "Suc i" c t] that by simp
  show ?case using less(2) unfolding bmap_loop.simps [of f logi i cur s]
    by (auto simp: bindr_eq_Inr_iff AllocCluster_def split: if_splits dest!: SetFatEntey_more AllocCluster_loop_more dest: ih)
qed

lemma bmap_more: "bmap f ip l s = Inr (r, s') \<Longrightarrow> kfat.more s' = kfat.more s"
  by (auto simp: bmap_def bindr_eq_Inr_iff Let_def split: if_splits prod.splits dest!: bmap_loop_more)

lemma WriteInode_loop_more: "WriteInode_loop f me src ip off n tot s = Inr (r, o1, s') \<Longrightarrow> kfat.more s' = kfat.more s"
proof (induction f me src ip off n tot s rule: WriteInode_loop.induct)
  case (1 f me src ip off n tot s)
  show ?case
  proof (cases "tot < n \<and> info_bytes_per_cluster (the_info f s) \<noteq> 0")
    case False
    then show ?thesis using 1(2) unfolding WriteInode_loop.simps [of f me src ip off n tot s] by (auto split: if_splits)
  next
    case True
    let ?bpc = "info_bytes_per_cluster (the_info f s)"
    let ?nw = "min (n - tot) (?bpc - off mod ?bpc)"
    obtain c s1 b s2 q bs where b: "bmap f ip (off div ?bpc) s = Inr (c, s1)" "bl_read me (fs_dev (fats s1 ! f)) c s1 = Inr (b, s2)"
        "\<not> BSIZE < off mod ?bpc + ?nw" "source_get me src tot ?nw s2 = Inr (q, bs)"
      using 1(2) True unfolding WriteInode_loop.simps [of f me src ip off n tot s]
      by (auto simp: bindr_eq_Inr_iff Let_def split: if_splits)
    let ?s3 = "upd_buf b (\<lambda>x. x\<lparr>b_data := splice (off mod ?bpc) bs (b_data x)\<rparr>) s2"
    have m: "kfat.more ?s3 = kfat.more s"
      using bmap_more [OF b(1)] disk_frame(1) [OF b(2)] kfat_of_kbufs [OF upd_buf_more, of b _ s2] by simp
    show ?thesis
    proof (cases "q < 0")
      case True
      then show ?thesis using 1(2) b m \<open>tot < n \<and> _\<close> unfolding WriteInode_loop.simps [of f me src ip off n tot s] by auto
    next
      case False
      then obtain s4 where w: "bl_write b ?s3 = Inr s4"
          "WriteInode_loop f me src ip (off + ?nw) n (tot + ?nw) (freeBuffer b s4) = Inr (r, o1, s')"
        using 1(2) b \<open>tot < n \<and> _\<close> unfolding WriteInode_loop.simps [of f me src ip off n tot s] by (auto simp: bindr_eq_Inr_iff Let_def)
      show ?thesis
        using 1(1) [of ?bpc "(c, s1)" c s1 "(b, s2)" b s2 "off mod ?bpc" ?nw "(q, bs)" q bs ?s3 s4] w b True False \<open>tot < n \<and> _\<close>
          m disk_frame(2) [OF w(1)] disk_frame(4) [of b s4] by simp
    qed
  qed
qed

lemma WriteInode_more: "WriteInode f me src ip off n s = Inr (r, s') \<Longrightarrow> kfat.more s' = kfat.more s"
  by (auto simp: WriteInode_def UpdateInode_def WriteSector_def bindr_eq_Inr_iff Let_def split: if_splits
      dest!: WriteInode_loop_more disk_frame(3))

lemma inode_lock_more: "inode_lock me ip s = Inr s' \<Longrightarrow> kfat.more s' = kfat.more s"
  using sl_lock_more [of me "inode_chan ip" "i_lock (inodes s ! ip)" s, THEN kfat_of_kbufs]
  by (cases "sl_lock me (inode_chan ip) (i_lock (inodes s ! ip)) s"; cases "fst (sl_lock me (inode_chan ip) (i_lock (inodes s ! ip)) s)")
    (auto simp: inode_lock_def the_inode_def split: if_splits)

lemma inode_unlock_more: "kfat.more (inode_unlock ip s) = kfat.more s"
  using sl_unlock_more [of "inode_chan ip" "i_lock (inodes s ! ip)" s, THEN kfat_of_kbufs]
  by (auto simp: inode_unlock_def split: prod.splits)

lemma console_write_loop_more: "console_write_loop me src i n s = Inr (r, s') \<Longrightarrow> kdevfs.more s' = kdevfs.more s"
  by (induction me src i n s rule: console_write_loop.induct) (auto simp: bindr_eq_Inr_iff split: if_splits)

lemma devfs_WriteInode_more: "devfs_WriteInode me src ip n s = Inr (r, s') \<Longrightarrow> kdevfs.more s' = kdevfs.more s"
  by (auto simp: devfs_WriteInode_def console_write_def bindr_eq_Inr_iff split: if_splits source.splits
      dest!: console_write_loop_more RwDevWrite_more [THEN kfat_of_kbufs, THEN kdevfs_of_kfat])

lemma inode_write_files:
  assumes "inode_write me src ip off n s = Inr (r, s')" shows "kdevfs.more s' = kdevfs.more s"
proof -
  obtain s1 s2 where w: "inode_lock me ip s = Inr s1" "s' = inode_unlock ip s2"
      "(case i_fs (inodes s1 ! ip) of FatFs f \<Rightarrow> WriteInode f me src ip (off mod 2 ^ 32) n s1
        | DevFs d \<Rightarrow> devfs_WriteInode me src ip n s1 | NoFs \<Rightarrow> Inl (BadAccess ''file_system'')) = Inr (r, s2)"
    using assms unfolding inode_write_def by (auto simp: bindr_eq_Inr_iff)
  then have "kdevfs.more s2 = kdevfs.more s1"
    by (cases "i_fs (inodes s1 ! ip)") (auto dest: WriteInode_more [THEN kdevfs_of_kfat] devfs_WriteInode_more)
  then show ?thesis
    using inode_lock_more [OF w(1), THEN kdevfs_of_kfat] inode_unlock_more [THEN kdevfs_of_kfat, of ip s2] w(2) by simp
qed

lemma files_of_more: "kdevfs.more s' = kdevfs.more s \<Longrightarrow> files s' = files s"
  by (cases s; cases s'; auto)

text \<open>
  C36: Every successful write of \<open>k\<close> bytes to a file with an inode moves its offset forward by \<open>2 * k\<close> and raises
  its recorded size accordingly: \<^verbatim>\<open>write\<close> adds the count once for inodes and once more at its end.
\<close>

theorem vfs_write_advances_twice:
  assumes "vfs_write me (Some fp) buf n user s = Inr (Done k, s')" and "f_writable (files s ! fp)"
    and "f_type (files s ! fp) = FD_INODE" and "0 \<le> k" and "int (f_offset (files s ! fp)) + 2 * k < 2 ^ 64"
  shows "f_offset (files s' ! fp) = f_offset (files s ! fp) + 2 * nat k \<and>
    f_size (files s' ! fp) = max (f_size (files s ! fp)) (f_offset (files s ! fp) + 2 * nat k)"
proof -
  let ?f = "files s ! fp"
  have l: "fp < length (files s)" "the_file fp s = Inr ?f" using assms(1) by (auto simp: vfs_write_def the_file_def split: if_splits)
  obtain ip s1 where w: "inode_write me (if user then FromUser buf else FromKernel buf) ip (f_offset ?f) (unat n) s = Inr (k, s1)"
      "s' = upd_file fp (\<lambda>x. let o1 = add_size (f_offset x) k; e = add_size o1 k
              in x\<lparr>f_size := (if e > f_size x then e else f_size x), f_offset := add_size o1 k\<rparr>) s1"
    using assms(1-3) l by (auto simp: vfs_write_def bindr_eq_Inr_iff)
  have "files s1 = files s" using files_of_more [OF inode_write_files [OF w(1)]] .
  moreover have "add_size (add_size (f_offset ?f) k) k = f_offset ?f + 2 * nat k"
    using assms(4,5) by (simp add: add_size_def nat_add_distrib)
  ultimately show ?thesis using l(1) by (simp add: w(2) upd_file_def Let_def max_def)
qed

definition tty_machine :: kfs where
  "tty_machine =
     \<lparr>mem = (\<lambda>_. 65), kend = 0x80020000, freeList = 0, npage = 0, total_page = 0, freelist = (\<lambda>_. 0), maxlv = 12,
      minlv = 4, taskTable = [blank_task], initTask = None, vma_table = [], ticks = 0, trampoline = 0,
      stack_base = 0, forkret_addr = 0, pipes = (\<lambda>_. None), rw_devs = [], bufCache = [],
      bl_first_data_sector = 0, bl_sectors_per_cluster = 0,
      inodes = [zero_inode\<lparr>i_live := True, i_fs := DevFs 0, i_dev := kConsoleIno\<rparr>], fats = [], fat_cache = (\<lambda>_. 0),
      clock_now = 0, clock_nsec = 0, stack_junk = [], con_buf = replicate INPUT_BUF 0, read_index = 0, write_index = 0, con_out = [],
      devfss = [\<lparr>dv_root = 0, dv_children = sl_new\<rparr>],
      files = [\<lparr>f_live = True, f_size = 0, f_ref = 1, f_readable = True, f_writable = True, f_type = FD_INODE, f_pipe = None,
        f_inode = Some 0, f_offset = 0, f_mode = 0\<rparr>], mount_points = [], vfs_root = None, next_pipe = 0\<rparr>"

lemma console_write_kernel: "\<exists>s'. console_write_loop me (FromKernel pa) i n s = Inr (int (i + n), s')"
proof (induction n arbitrary: i s)
  case (Suc n)
  show ?case using Suc [of "Suc i" "s\<lparr>con_out := con_out s @ [mem s (pa + of_nat i)]\<rparr>"]
    by (simp add: source_get_def either_copyin_def read_bytes_def algebra_simps)
qed simp

theorem vfs_write_advances_twice_witness:
  "\<exists>s'. vfs_write 0 (Some 0) 0x80100000 3 False tty_machine = Inr (Done 3, s') \<and> f_offset (files s' ! 0) = 6"
proof -
  obtain s1 where l: "inode_lock 0 0 tty_machine = Inr s1" "the_inode 0 s1 = Inr (inodes s1 ! 0)"
      "i_fs (inodes s1 ! 0) = DevFs 0" "i_dev (inodes s1 ! 0) = kConsoleIno"
    by (simp add: inode_lock_def the_inode_def sl_lock_def zero_inode_def sl_init_def upd_inode_def tty_machine_def)
  obtain s2 where "console_write_loop 0 (FromKernel 0x80100000) 0 3 s1 = Inr (3, s2)"
    using console_write_kernel [of 0 "0x80100000" 0 3 s1] by auto
  then have "inode_write 0 (FromKernel 0x80100000) 0 0 3 tty_machine = Inr (3, inode_unlock 0 s2)"
    using l by (simp add: inode_write_def devfs_WriteInode_def console_write_def)
  moreover have f: "length (files tty_machine) = 1" "f_live (files tty_machine ! 0)" "f_writable (files tty_machine ! 0)"
      "f_type (files tty_machine ! 0) = FD_INODE" "f_inode (files tty_machine ! 0) = Some 0" "f_offset (files tty_machine ! 0) = 0"
    by (simp_all add: tty_machine_def)
  ultimately obtain s' where w: "vfs_write 0 (Some 0) 0x80100000 3 False tty_machine = Inr (Done 3, s')"
    using f by (auto simp: vfs_write_def the_file_def nonnull_def)
  show ?thesis using vfs_write_advances_twice [OF w] w by (simp add: tty_machine_def)
qed

end
