(* ===== verification/Processes.thy ===== *)
theory Processes
  imports Vfs
begin

text \<open>
  Processes on top of tasks, memory areas and files: demand loading (\<^verbatim>\<open>src/kernel/memory/mmap.cpp\<close>,
  \<^verbatim>\<open>src/kernel/os/task.cpp\<close>), \<^verbatim>\<open>fork\<close>, \<^verbatim>\<open>clone\<close>, \<^verbatim>\<open>exit\<close> and the first process
  (\<^verbatim>\<open>src/kernel/os/TaskScheduler.cpp\<close>).
\<close>

section \<open>Trap frames\<close>

text \<open>Offsets of the saved registers in \<^verbatim>\<open>struct trapframe\<close>.\<close>

definition tf_kernel_satp :: u64 where "tf_kernel_satp = 0"
definition tf_kernel_sp :: u64 where "tf_kernel_sp = 8"
definition tf_kernel_trap :: u64 where "tf_kernel_trap = 16"
definition tf_epc :: u64 where "tf_epc = 24"
definition tf_kernel_hartid :: u64 where "tf_kernel_hartid = 32"
definition tf_ra :: u64 where "tf_ra = 40"
definition tf_sp :: u64 where "tf_sp = 48"
definition tf_arg :: "nat \<Rightarrow> u64" where "tf_arg n = 112 + 8 * of_nat n"

definition get_tf :: "nat \<Rightarrow> u64 \<Rightarrow> 'a ktasks_scheme \<Rightarrow> u64" where
  "get_tf me r s = read64 (mem s) (t_trapframe (the_task s me) + r)"

definition set_tf :: "nat \<Rightarrow> u64 \<Rightarrow> u64 \<Rightarrow> 'a ktasks_scheme \<Rightarrow> 'a ktasks_scheme" where
  "set_tf me r v s = s\<lparr>mem := write64 (mem s) (t_trapframe (the_task s me) + r) v\<rparr>"

section \<open>Demand loading\<close>

definition fresh_page :: "'a kpages_scheme \<Rightarrow> (u64 \<times> 'a kpages_scheme) result" where
  "fresh_page s =
     (let (p, s1) = ma_alloc s in
      if p = 0 then Inl (BadAccess ''memset'') else Inr (p, s1\<lparr>mem := memset (mem s1) p 0 4096\<rparr>))"

definition vma_perm :: "u32 \<Rightarrow> u64" where
  "vma_perm prot = PTE_V OR PTE_U
     OR (if prot AND PROT_READ \<noteq> 0 then PTE_R else 0)
     OR (if prot AND PROT_WRITE \<noteq> 0 then PTE_W else 0)
     OR (if prot AND PROT_EXEC \<noteq> 0 then PTE_X else 0)"

text \<open>The file part of \<^verbatim>\<open>LoadIfContain\<close> for the page at \<open>va\<close>, whose frame is \<open>p\<close>.\<close>

definition load_file_page :: "nat \<Rightarrow> vma \<Rightarrow> nat \<Rightarrow> u64 \<Rightarrow> u64 \<Rightarrow> 'a kfs_scheme \<Rightarrow> 'a kfs_scheme result" where
  "load_file_page me a ip p va0 s =
     (let va = (if v_addr a > va0 then v_addr a else va0);
          high0 = PGROUNDUP (va + 1); high_max = v_addr a + scast (v_length a);
          high = (if high0 > high_max then high_max else high0);
          nread0 = (ucast (high - va) :: u32);
          nread = (if sint nread0 > 4096 then 4096 else nread0);
          file_off = v_offset a + ucast (va - v_addr a);
          pa = p + va - PGROUNDDOWN va
      in bindr (inode_read me (ToKernel pa) ip (unat file_off) (unat nread) s) (\<lambda>(r, s1).
           case r of Done _ \<Rightarrow> Inr s1 | Sleep _ \<Rightarrow> Inl (Stuck ''load from a device'')))"

definition LoadIfContain :: "nat \<Rightarrow> nat \<Rightarrow> u64 \<Rightarrow> u64 \<Rightarrow> 'a kfs_scheme \<Rightarrow> (bool \<times> 'a kfs_scheme) result" where
  "LoadIfContain me k pagetable va0 s =
     (let a = vma_table s ! k; end0 = v_addr a + scast (v_length a) in
      if va0 < PGROUNDDOWN (v_addr a) \<or> va0 \<ge> PGROUNDUP end0 then Inr (False, s)
      else
        let va1 = (if va0 < v_addr a then v_addr a else va0);
            va2 = (if va1 \<ge> end0 then end0 - 1 else va1)
        in bindr (walkAddr pagetable va2 s) (\<lambda>pa0.
             if pa0 \<noteq> 0 then Inr (False, s)
             else bindr (fresh_page s) (\<lambda>(p, s1).
               let va = PGROUNDDOWN va2 in
               bindr (mappages pagetable va PGSIZE p (vma_perm (v_prot a)) s1) (\<lambda>(r, s2).
                 case v_ip a of None \<Rightarrow> Inr (True, s2)
                 | Some ip \<Rightarrow> bindr (load_file_page me a ip p va s2) (\<lambda>s3. Inr (True, s3))))))"

definition vma_free :: "nat \<Rightarrow> nat \<Rightarrow> 'a kfs_scheme \<Rightarrow> 'a kfs_scheme result" where
  "vma_free me k s =
     bindr (case v_ip (vma_table s ! k) of None \<Rightarrow> Inr s | Some ip \<Rightarrow> inode_free me ip s) (\<lambda>s1.
       Inr (s1\<lparr>vma_table := (vma_table s1)[k := vma_zero]\<rparr>))"

primrec load_from_vmas ::
  "nat option list \<Rightarrow> nat \<Rightarrow> u64 \<Rightarrow> u64 \<Rightarrow> 'a kfs_scheme \<Rightarrow> (bool \<times> 'a kfs_scheme) result" where
  "load_from_vmas [] me pt va s = Inr (False, s)"
| "load_from_vmas (v # vs) me pt va s =
     (case v of None \<Rightarrow> load_from_vmas vs me pt va s
      | Some k \<Rightarrow> bindr (LoadIfContain me k pt va s) (\<lambda>(ok, s1).
          if ok then Inr (True, s1) else load_from_vmas vs me pt va s1))"

definition LoadIfValid :: "nat \<Rightarrow> u64 \<Rightarrow> 'a kfs_scheme \<Rightarrow> (bool \<times> 'a kfs_scheme) result" where
  "LoadIfValid me va s =
     (let t = the_task s me; pt = t_pagetable t in
      bindr (walkAddr pt va s) (\<lambda>pa.
        if pa \<noteq> 0 then Inr (False, s)
        else bindr (load_from_vmas (t_vma t) me pt va s) (\<lambda>(ok, s1).
          if ok then Inr (True, s1)
          else if va < scast (t_sz (the_task s1 me)) then
            bindr (fresh_page s1) (\<lambda>(p, s2).
              bindr (mappages pt (PGROUNDDOWN va) PGSIZE p (PTE_V OR PTE_U OR PTE_R OR PTE_W) s2)
                (\<lambda>(r, s3). Inr (True, s3)))
          else Inr (False, s1))))"

section \<open>Fork and clone\<close>

definition dir_copy :: "nat \<Rightarrow> nat \<Rightarrow> 'a ktasks_scheme \<Rightarrow> 'a ktasks_scheme result" where
  "dir_copy me c s =
     (let d = t_currentDir (the_task s me); n = t_name (the_task s me);
          db = safestrcpy_bytes d (int (strlen d) + 1); nb = safestrcpy_bytes n 17
      in if length db > MAXPATH \<or> length nb > 16 then Inl (BadAccess ''safestrcpy'')
         else Inr (upd_task c (\<lambda>t. t\<lparr>t_currentDir := splice 0 db (t_currentDir t), t_name := splice 0 nb (t_name t)\<rparr>) s))"

primrec fork_files :: "nat list \<Rightarrow> nat \<Rightarrow> nat \<Rightarrow> 'a kfs_scheme \<Rightarrow> 'a kfs_scheme result" where
  "fork_files [] me c s = Inr s"
| "fork_files (i # is) me c s =
     (case t_openFiles (the_task s me) ! i of None \<Rightarrow> fork_files is me c s
      | Some fp \<Rightarrow> bindr (vfs_dup (Some fp) s) (\<lambda>(fp1, s1).
          fork_files is me c (upd_task c (\<lambda>t. t\<lparr>t_openFiles := (t_openFiles t)[i := Some fp1]\<rparr>) s1)))"

text \<open>
  The copies of the memory areas; \<^verbatim>\<open>fork\<close> takes a reference of the inode, \<^verbatim>\<open>clone\<close> of the file.
\<close>

primrec fork_vmas :: "nat list \<Rightarrow> bool \<Rightarrow> nat \<Rightarrow> nat \<Rightarrow> 'a kfs_scheme \<Rightarrow> 'a kfs_scheme result" where
  "fork_vmas [] is_fork me c s = Inr s"
| "fork_vmas (i # is) is_fork me c s =
     (case t_vma (the_task s me) ! i of
        None \<Rightarrow> fork_vmas is is_fork me c (upd_task c (\<lambda>t. t\<lparr>t_vma := (t_vma t)[i := None]\<rparr>) s)
      | Some k \<Rightarrow> bindr (allocVma s) (\<lambda>k1.
          let a = vma_table s ! k; s1 = s\<lparr>vma_table := (vma_table s)[k1 := a]\<rparr> in
          bindr (if is_fork then (case v_ip a of None \<Rightarrow> Inr s1 | Some ip \<Rightarrow> bindr (inode_dup me ip s1) (\<lambda>(p, s2). Inr s2))
                 else bindr (vfs_dup (v_f a) s1) (\<lambda>(p, s2). Inr s2)) (\<lambda>s2.
            fork_vmas is is_fork me c (upd_task c (\<lambda>t. t\<lparr>t_vma := (t_vma t)[i := Some k1]\<rparr>) s2))))"

text \<open>What \<^verbatim>\<open>fork\<close> and \<^verbatim>\<open>clone\<close> share after the memory is copied.\<close>

definition fork_rest :: "bool \<Rightarrow> nat \<Rightarrow> nat \<Rightarrow> 'a kfs_scheme \<Rightarrow> 'a kfs_scheme result" where
  "fork_rest is_fork me c s =
     bindr (nonnull ''cwd'' (t_cwd (the_task s me))) (\<lambda>d.
       bindr (inode_dup me d s) (\<lambda>(d1, s1).
         let s2 = upd_task c (\<lambda>t. t\<lparr>t_sz := t_sz (the_task s1 me), t_parent := Some me, t_cwd := Some d1\<rparr>) s1;
             s3 = s2\<lparr>mem := memmove (mem s2) (t_trapframe (the_task s2 c)) (t_trapframe (the_task s2 me)) sizeof_trapframe\<rparr>;
             s4 = set_tf c (tf_arg 0) 0 s3
         in bindr (fork_files [0..<NOFILE] me c s4) (\<lambda>s5.
              bindr (fork_vmas [0..<NOMMAPFILE] is_fork me c s5) (\<lambda>s6. dir_copy me c s6))))"

definition fork :: "nat \<Rightarrow> 'a kfs_scheme \<Rightarrow> (int \<times> 'a kfs_scheme) result" where
  "fork me s =
     bindr (allocTask s) (\<lambda>(co, s1).
       case co of None \<Rightarrow> Inr (- 1, s1)
       | Some c \<Rightarrow>
           bindr (userVmCopy (t_pagetable (the_task s1 me)) (t_pagetable (the_task s1 c)) (sint (t_sz (the_task s1 me))) s1) (\<lambda>(r, s2).
             if r < 0 then Inr (- 1, s2)
             else bindr (CopyVmaMem me c s2) (\<lambda>s3.
               bindr (fork_rest True me c s3) (\<lambda>s4.
                 Inr (t_pid (the_task s4 c), upd_task c (\<lambda>t. t\<lparr>t_state := RUNNABLE\<rparr>) s4)))))"

definition clone :: "nat \<Rightarrow> u64 \<Rightarrow> 'a kfs_scheme \<Rightarrow> (int \<times> 'a kfs_scheme) result" where
  "clone me stack s =
     bindr (allocTask s) (\<lambda>(co, s1).
       case co of None \<Rightarrow> Inr (- 1, s1)
       | Some c \<Rightarrow>
           bindr (userVmCopy (t_pagetable (the_task s1 me)) (t_pagetable (the_task s1 c)) (sint (t_sz (the_task s1 me))) s1) (\<lambda>(r, s2).
             if r < 0 then Inr (- 1, s2)
             else bindr (fork_rest False me c s2) (\<lambda>s3.
               let s4 = set_tf c tf_sp stack s3 in
               Inr (t_pid (the_task s4 c), upd_task c (\<lambda>t. t\<lparr>t_state := RUNNABLE\<rparr>) s4))))"

section \<open>Exit\<close>

definition MAP_SHARED :: u32 where "MAP_SHARED = 1"
definition MAP_PRIVATE :: u32 where "MAP_PRIVATE = 2"

text \<open>
  \<^verbatim>\<open>vfs::write\<close> of the older layer. Files of type \<open>FD_ENTRY\<close> and \<open>FD_DEVICE\<close> belong to the older file
  systems, whose files are in a table of their own and never in a descriptor table.
\<close>

definition old_write :: "nat \<Rightarrow> nat \<Rightarrow> u64 \<Rightarrow> u32 \<Rightarrow> 'a kfs_scheme \<Rightarrow> 'a kfs_scheme result" where
  "old_write me fp src n s =
     bindr (the_file fp s) (\<lambda>f.
       if \<not> f_writable f then Inr s
       else (case f_type f of
           FD_PIPE \<Rightarrow> bindr (nonnull ''pipe'' (f_pipe f)) (\<lambda>p.
             bindr (pipe_write me p src 0 (sint n) s) (\<lambda>(r, i, s1).
               case r of Done _ \<Rightarrow> Inr s1 | Sleep _ \<Rightarrow> Inl (Stuck ''exit'')))
         | FD_NONE \<Rightarrow> Inl (Panic ''vfs::write'')
         | FD_INODE \<Rightarrow> Inl (Panic ''vfs::write'')
         | _ \<Rightarrow> Inl (BadAccess ''older file system'')))"

primrec exit_files :: "nat list \<Rightarrow> nat \<Rightarrow> 'a kfs_scheme \<Rightarrow> 'a kfs_scheme result" where
  "exit_files [] me s = Inr s"
| "exit_files (i # is) me s =
     (case t_openFiles (the_task s me) ! i of None \<Rightarrow> exit_files is me s
      | Some fp \<Rightarrow> bindr (old_close fp s) (\<lambda>s1.
          exit_files is me (upd_task me (\<lambda>t. t\<lparr>t_openFiles := (t_openFiles t)[i := None]\<rparr>) s1)))"

text \<open>\<^verbatim>\<open>PGROUNDUP(length) / PGSIZE\<close> in \<^verbatim>\<open>int\<close>; the division is exact.\<close>

definition npages :: "u32 \<Rightarrow> u64" where
  "npages len = of_int (sint ((len + 4095) AND NOT 4095) div 4096)"

primrec exit_vmas :: "nat list \<Rightarrow> nat \<Rightarrow> 'a kfs_scheme \<Rightarrow> 'a kfs_scheme result" where
  "exit_vmas [] me s = Inr s"
| "exit_vmas (i # is) me s =
     (case t_vma (the_task s me) ! i of None \<Rightarrow> exit_vmas is me s
      | Some k \<Rightarrow>
          let a = vma_table s ! k in
          bindr (if v_flag a AND MAP_SHARED \<noteq> 0
                 then bindr (nonnull ''vma->f'' (v_f a)) (\<lambda>fp.
                   bindr (vfs_rewind fp s) (old_write me fp (v_addr a) (v_length a)))
                 else Inr s) (\<lambda>s1.
            bindr (userUnmap (t_pagetable (the_task s1 me)) (PGROUNDDOWN (v_addr a)) (npages (v_length a)) True s1) (\<lambda>s2.
              bindr (vma_free me k s2) (\<lambda>s3.
                exit_vmas is me (upd_task me (\<lambda>t. t\<lparr>t_vma := (t_vma t)[i := None]\<rparr>) s3)))))"

text \<open>
  \<^verbatim>\<open>exit\<close>: the state in which the task leaves the processor for the last time. The status it was given
  is replaced by 0.
\<close>

definition exit_task :: "nat \<Rightarrow> u32 \<Rightarrow> 'a kfs_scheme \<Rightarrow> 'a kfs_scheme result" where
  "exit_task me status s =
     (if initTask s = Some me then Inl (Panic ''init task exit'')
      else bindr (exit_files [0..<NOFILE] me s) (\<lambda>s1.
        let s2 = upd_task me (\<lambda>t. t\<lparr>t_currentDir := replicate MAXPATH 0\<rparr>) s1;
            s3 = s2\<lparr>taskTable := map (\<lambda>t. if t_parent t = Some me then t\<lparr>t_parent := initTask s2\<rparr> else t) (taskTable s2)\<rparr>
        in bindr (exit_vmas [0..<NOMMAPFILE] me s3) (\<lambda>s4.
             let s5 = upd_task me (\<lambda>t. t\<lparr>t_state := ZOMBIE, t_xstate := 0\<rparr>) s4
             in Inr (case t_parent (the_task s5 me) of None \<Rightarrow> s5 | Some p \<Rightarrow> wakeup (ChTask p) s5))))"

section \<open>The first process\<close>

text \<open>
  \<open>initcode\<close> is the address of the embedded program and \<open>sz\<close> its length. Sixteen bytes are copied from the
  nine of the name, the rest being whatever follows it (\<open>stack_junk\<close>).
\<close>

definition initFirstTask :: "u64 \<Rightarrow> u32 \<Rightarrow> 'a kfs_scheme \<Rightarrow> 'a kfs_scheme result" where
  "initFirstTask initcode sz s =
     bindr (allocTask s) (\<lambda>(co, s1).
       bindr (nonnull ''task'' co) (\<lambda>c.
         bindr (UserVmInit (t_pagetable (the_task s1 c)) initcode sz s1) (\<lambda>s2.
           let s3 = set_tf c tf_sp (PGSIZE * 2) (set_tf c tf_epc 0x106 s2);
               name = [105, 110, 105, 116, 99, 111, 100, 101, 0] @ take 7 (stack_junk s)
           in Inr ((upd_task c (\<lambda>t. t\<lparr>t_sz := ucast (PGSIZE + PGSIZE), t_name := name,
                     t_currentDir := (t_currentDir t)[0 := 47], t_state := RUNNABLE\<rparr>) s3)\<lparr>initTask := Some c\<rparr>))))"

text \<open>
  \<^verbatim>\<open>forkret\<close> up to the return to user mode: the first process to run mounts the file systems and opens
  its working directory. (\<open>first_run\<close> of the theory \<open>OldVfs\<close> adds the older file systems it mounts as well.)
\<close>

definition forkret ::
  "bool \<Rightarrow> (cstr \<times> u8 list) list \<Rightarrow> nat \<Rightarrow> inode \<Rightarrow> inode \<Rightarrow> nat \<Rightarrow> 'a kfs_scheme \<Rightarrow> 'a kfs_scheme result" where
  "forkret first scripts me raw_fat raw_dev raw_sz s =
     (if first then
        bindr (VfsManager_Init scripts me raw_fat raw_dev raw_sz s) (\<lambda>s1.
          bindr (namei me None [47] s1) (\<lambda>(r, s2). Inr (upd_task me (\<lambda>t. t\<lparr>t_cwd := r\<rparr>) s2)))
      else Inr s)"

end
