(* ===== verification/Exec.thy ===== *)
theory Exec
  imports Processes
begin

text \<open>
  Loading a program: \<^verbatim>\<open>exec\<close> of \<^verbatim>\<open>src/kernel/os/Exec.cpp\<close> and the construction of the initial user stack
  (\<^verbatim>\<open>src/kernel/startos/binformat.cpp\<close>). The locals \<^verbatim>\<open>elf\<close>, \<^verbatim>\<open>ph\<close> and \<^verbatim>\<open>ustack\<close> lie on the kernel stack:
  \<open>kb\<close> is their address.
\<close>

section \<open>Headers\<close>

definition get64 :: "u8 list \<Rightarrow> nat \<Rightarrow> u64" where
  "get64 bs i = ucast (get32 bs i) OR push_bit 32 (ucast (get32 bs (i + 4)))"

record elfhdr =
  e_magic :: u32
  e_entry :: u64
  e_phoff :: u64
  e_phnum :: u16

definition sizeof_elfhdr :: nat where "sizeof_elfhdr = 64"

definition decode_elfhdr :: "u8 list \<Rightarrow> elfhdr" where
  "decode_elfhdr bs = \<lparr>e_magic = get32 bs 0, e_entry = get64 bs 24, e_phoff = get64 bs 32, e_phnum = get16 bs 56\<rparr>"

record proghdr =
  ph_type :: u32
  ph_flags :: u32
  ph_off :: u64
  ph_vaddr :: u64
  ph_filesz :: u64
  ph_memsz :: u64

definition sizeof_proghdr :: nat where "sizeof_proghdr = 56"

definition decode_proghdr :: "u8 list \<Rightarrow> proghdr" where
  "decode_proghdr bs = \<lparr>ph_type = get32 bs 0, ph_flags = get32 bs 4, ph_off = get64 bs 8, ph_vaddr = get64 bs 16,
     ph_filesz = get64 bs 32, ph_memsz = get64 bs 40\<rparr>"

definition ELF_MAGIC :: u32 where "ELF_MAGIC = 0x464C457F"
definition ELF_PROG_LOAD :: u32 where "ELF_PROG_LOAD = 1"
definition ELF_PAGESTART :: "u64 \<Rightarrow> u64" where "ELF_PAGESTART v = v AND NOT (PGSIZE - 1)"
definition ELF_PAGEOFFSET :: "u64 \<Rightarrow> u64" where "ELF_PAGEOFFSET v = v AND (PGSIZE - 1)"

section \<open>Segments\<close>

definition elf_prot :: "u32 \<Rightarrow> u32" where
  "elf_prot flags = (if flags AND 1 \<noteq> 0 then PROT_EXEC else 0) OR (if flags AND 4 \<noteq> 0 then PROT_READ else 0)
     OR (if flags AND 2 \<noteq> 0 then PROT_WRITE else 0)"

definition LazyLoadSeg :: "nat \<Rightarrow> nat \<Rightarrow> proghdr \<Rightarrow> 'a kfs_scheme \<Rightarrow> (int \<times> 'a kfs_scheme) result" where
  "LazyLoadSeg me ip ph s =
     bindr (allocVma s) (\<lambda>k.
       bindr (inode_dup me ip s) (\<lambda>(ip1, s1).
         let a = (vma_table s1 ! k)\<lparr>v_ip := Some ip1, v_flag := MAP_PRIVATE, v_prot := elf_prot (ph_flags ph),
               v_offset := ucast (ph_off ph - ELF_PAGEOFFSET (ph_vaddr ph)), v_type := PROG,
               v_length := ucast (ph_filesz ph + ELF_PAGEOFFSET (ph_vaddr ph)), v_addr := ELF_PAGESTART (ph_vaddr ph)\<rparr>;
             s2 = s1\<lparr>vma_table := (vma_table s1)[k := a]\<rparr>
         in case List.find (\<lambda>i. t_vma (the_task s2 me) ! i = None) [0..<NOMMAPFILE] of
              None \<Rightarrow> Inl (Panic ''lazy load segment'')
            | Some i \<Rightarrow> Inr (0, upd_task me (\<lambda>t. t\<lparr>t_vma := (t_vma t)[i := Some k]\<rparr>) s2)))"

text \<open>A read of the executable into a local of \<^verbatim>\<open>exec\<close>.\<close>

definition read_local :: "nat \<Rightarrow> nat \<Rightarrow> u64 \<Rightarrow> nat \<Rightarrow> nat \<Rightarrow> 'a kfs_scheme \<Rightarrow> (int \<times> 'a kfs_scheme) result" where
  "read_local me ip at off n s =
     bindr (inode_read me (ToKernel at) ip off n s) (\<lambda>(r, s1).
       case r of Done k \<Rightarrow> Inr (k, s1) | Sleep _ \<Rightarrow> Inl (Stuck ''exec of a device''))"

text \<open>The loop over the program headers; \<open>n\<close> of them to go. None is the jump to \<^verbatim>\<open>bad\<close>.\<close>

primrec exec_segments ::
  "nat \<Rightarrow> nat \<Rightarrow> nat \<Rightarrow> u64 \<Rightarrow> u32 \<Rightarrow> u64 \<Rightarrow> 'a kfs_scheme \<Rightarrow> (u64 \<times> bool \<times> 'a kfs_scheme) result" where
  "exec_segments 0 me ip kb off sz s = Inr (sz, True, s)"
| "exec_segments (Suc n) me ip kb off sz s =
     bindr (read_local me ip (kb + 64) (unat off) sizeof_proghdr s) (\<lambda>(r, s1).
       let ph = decode_proghdr (read_bytes (mem s1) (kb + 64) sizeof_proghdr);
           off1 = off + of_nat sizeof_proghdr
       in if r \<noteq> int sizeof_proghdr then Inr (sz, False, s1)
          else if ph_type ph \<noteq> ELF_PROG_LOAD then exec_segments n me ip kb off1 sz s1
          else if ph_memsz ph < ph_filesz ph \<or> ph_vaddr ph + ph_memsz ph < ph_vaddr ph then Inr (sz, False, s1)
          else bindr (LazyLoadSeg me ip ph s1) (\<lambda>(r, s2).
            exec_segments n me ip kb off1 (ph_vaddr ph + ph_memsz ph) s2))"

section \<open>The user stack\<close>

record BinProgram =
  bp_sp :: u64
  bp_stackbase :: u64
  bp_pagetable :: u64
  bp_argc :: int
  bp_envc :: int
  bp_ustack :: "u64 list"
  bp_top :: nat

definition MAXARG :: nat where "MAXARG = 64"

definition align_sp :: "u64 \<Rightarrow> nat \<Rightarrow> u64" where
  "align_sp sp len = (let p = sp - of_nat (len + 1) in p - p mod 16)"

text \<open>
  \<^verbatim>\<open>CopyString2Stack\<close> from index \<open>i\<close> on. The index starts at \<^verbatim>\<open>stack_top\<close> for the array of strings as well as
  for \<^verbatim>\<open>ustack\<close>; \<open>None\<close> ends the array.
\<close>

function CopyString2Stack_loop ::
  "cstr option list \<Rightarrow> nat \<Rightarrow> BinProgram \<Rightarrow> 'a kpages_scheme \<Rightarrow> (int \<times> BinProgram \<times> 'a kpages_scheme) result" where
  "CopyString2Stack_loop strs i b s =
     (if i < length strs then
        (case strs ! i of
           None \<Rightarrow>
             if i < length (bp_ustack b)
             then Inr (int i - int (bp_top b), b\<lparr>bp_ustack := (bp_ustack b)[i := 0], bp_top := Suc i\<rparr>, s)
             else Inl (BadAccess ''ustack'')
         | Some str \<Rightarrow>
             if i > MAXARG then Inr (- 1, b, s)
             else
               let sp = align_sp (bp_sp b) (strlen str); b1 = b\<lparr>bp_sp := sp\<rparr> in
               if sp < bp_stackbase b then Inr (- 1, b1, s)
               else bindr (copyout (bp_pagetable b) sp (take (strlen str) str @ [0]) s) (\<lambda>(r, s1).
                 if r < 0 then Inr (- 1, b1, s1)
                 else if i < length (bp_ustack b)
                 then CopyString2Stack_loop strs (Suc i) (b1\<lparr>bp_ustack := (bp_ustack b)[i := sp]\<rparr>) s1
                 else Inl (BadAccess ''ustack'')))
      else Inl (BadAccess ''strs''))"
  by pat_completeness auto
termination by (relation "measure (\<lambda>(strs, i, b, s). length strs - i)") auto

declare CopyString2Stack_loop.simps [simp del]

definition CopyString2Stack ::
  "cstr option list \<Rightarrow> BinProgram \<Rightarrow> 'a kpages_scheme \<Rightarrow> (int \<times> BinProgram \<times> 'a kpages_scheme) result" where
  "CopyString2Stack strs b s = CopyString2Stack_loop strs (bp_top b) b s"

definition CopyString :: "cstr \<Rightarrow> BinProgram \<Rightarrow> 'a kpages_scheme \<Rightarrow> (u64 \<times> BinProgram \<times> 'a kpages_scheme) result" where
  "CopyString str b s =
     (let sp = align_sp (bp_sp b) (strlen str); b1 = b\<lparr>bp_sp := sp\<rparr> in
      bindr (copyout (bp_pagetable b) sp (take (strlen str) str @ [0]) s) (\<lambda>(r, s1).
        Inr (if r < 0 then - 1 else sp, b1, s1)))"

definition busybox_name :: cstr where
  "busybox_name = [46, 47, 98, 117, 115, 121, 98, 111, 120]"

text \<open>The auxiliary vector, in the order of the code.\<close>

definition aux_entries :: "elfhdr \<Rightarrow> u64 \<Rightarrow> u64 list" where
  "aux_entries elf filename =
     [0x28, 0, 0x29, 0, 0x2a, 0, 0x2b, 0, 0x2c, 0, 0x2d, 0,
      3, e_phoff elf, 4, of_nat sizeof_proghdr, 5, ucast (e_phnum elf), 6, 0x1000, 7, 0, 8, 0,
      9, e_entry elf, 11, 0, 12, 0, 13, 0, 14, 0, 16, 0x112d, 17, 64, 31, filename, 0, 0]"

definition CreateUserStack ::
  "BinProgram \<Rightarrow> elfhdr \<Rightarrow> 'a kpages_scheme \<Rightarrow> (int \<times> BinProgram \<times> 'a kpages_scheme) result" where
  "CreateUserStack b elf s =
     bindr (CopyString busybox_name b s) (\<lambda>(filename, b1, s1).
       let aux = aux_entries elf filename; start = bp_argc b + bp_envc b + 2; index = nat start + length aux in
       if start < 0 \<or> index > length (bp_ustack b1) then Inl (BadAccess ''ustack'')
       else
         let us = splice (nat start) aux (bp_ustack b1);
             b2 = b1\<lparr>bp_ustack := us, bp_sp := bp_sp b1 - 8 * of_nat index\<rparr>
         in bindr (copyout (bp_pagetable b2) (bp_sp b2) (concat (map bytes64 (take index us))) s1) (\<lambda>(r, s2).
              if r \<noteq> 0 then Inr (- 1, b2, s2)
              else let b3 = b2\<lparr>bp_sp := bp_sp b2 - 8\<rparr> in
                bindr (copyout (bp_pagetable b3) (bp_sp b3) (bytes64 (of_int (bp_argc b))) s2) (\<lambda>(r, s3).
                  Inr (0, b3, s3))))"

section \<open>exec\<close>

primrec exec_free_vmas :: "nat list \<Rightarrow> nat \<Rightarrow> 'a kfs_scheme \<Rightarrow> 'a kfs_scheme result" where
  "exec_free_vmas [] me s = Inr s"
| "exec_free_vmas (i # is) me s =
     (case t_vma (the_task s me) ! i of None \<Rightarrow> exec_free_vmas is me s
      | Some k \<Rightarrow>
          if v_type (vma_table s ! k) = PROG
          then bindr (vma_free me k s) (\<lambda>s1.
            exec_free_vmas is me (upd_task me (\<lambda>t. t\<lparr>t_vma := (t_vma t)[i := None]\<rparr>) s1))
          else exec_free_vmas is me s)"

text \<open>The part after the last slash.\<close>

definition base_name :: "cstr \<Rightarrow> cstr" where
  "base_name path = rev (takeWhile (\<lambda>c. c \<noteq> 47) (rev (takeWhile (\<lambda>c. c \<noteq> 0) path)))"

definition exec_bad :: "nat \<Rightarrow> nat \<Rightarrow> u64 \<Rightarrow> u64 \<Rightarrow> u64 \<Rightarrow> 'a kfs_scheme \<Rightarrow> (u64 \<times> 'a kfs_scheme) result" where
  "exec_bad me ip pt sz a0 s =
     bindr (inode_free me ip s) (\<lambda>s1.
       if pt \<noteq> 0 then bindr (FreeTaskPagetable pt sz s1) (\<lambda>s2. Inr (a0, s2)) else Inr (a0, s1))"

text \<open>The commit at the end of \<^verbatim>\<open>exec\<close>.\<close>

definition exec_commit ::
  "nat \<Rightarrow> nat \<Rightarrow> cstr \<Rightarrow> elfhdr \<Rightarrow> u64 \<Rightarrow> u64 \<Rightarrow> u64 \<Rightarrow> u32 \<Rightarrow> 'a kfs_scheme \<Rightarrow> (u64 \<times> 'a kfs_scheme) result" where
  "exec_commit me ip path elf pt sz sp oldsz s =
     (let nb = safestrcpy_bytes (base_name path) 17;
          s1 = set_tf me (tf_arg 1) sp s;
          s2 = set_tf me tf_ra 0 (upd_task me (\<lambda>t. t\<lparr>t_name := splice 0 nb (t_name t)\<rparr>) s1);
          old_pt = t_pagetable (the_task s2 me);
          s3 = upd_task me (\<lambda>t. t\<lparr>t_pagetable := pt, t_sz := ucast sz\<rparr>) s2;
          s4 = set_tf me tf_sp sp (set_tf me tf_epc (e_entry elf) s3)
      in if length nb > 16 then Inl (BadAccess ''task->name'')
         else bindr (FreeTaskPagetable old_pt (scast oldsz) s4) (\<lambda>s5.
           bindr (inode_free me ip s5) (\<lambda>s6. Inr (0, s6))))"

text \<open>
  \<open>argv\<close> are the argument strings up to the null pointer and \<open>env\<close> the environment with its null
  pointer. The results of the stack functions are not looked at.
\<close>

definition exec ::
  "cstr option list \<Rightarrow> nat \<Rightarrow> cstr \<Rightarrow> cstr option list \<Rightarrow> u64 \<Rightarrow> 'a kfs_scheme \<Rightarrow> (u64 \<times> 'a kfs_scheme) result" where
  "exec env me path argv kb s =
     bindr (taskPagetable (t_trapframe (the_task s me)) s) (\<lambda>(pt, s0).
       if pt = 0 then Inr (0, s0)
       else bindr (namei me None path s0) (\<lambda>(ipo, s1).
         case ipo of None \<Rightarrow> Inr (0, s1)
         | Some ip \<Rightarrow>
           bindr (read_local me ip kb 0 sizeof_elfhdr (s1\<lparr>mem := fill (mem s1) kb 0 64\<rparr>)) (\<lambda>(r, s2).
             if r \<noteq> int sizeof_elfhdr then exec_bad me ip pt 0 0 s2
             else bindr (exec_free_vmas [0..<NOMMAPFILE] me s2) (\<lambda>s3.
               let elf = decode_elfhdr (read_bytes (mem s3) kb sizeof_elfhdr) in
               if e_magic elf \<noteq> ELF_MAGIC then exec_bad me ip pt 0 0 s3
               else
                 let oldsz = t_sz (the_task s3 me) in
                 bindr (exec_segments (unat (e_phnum elf)) me ip kb (ucast (e_phoff elf)) 0 s3) (\<lambda>(sz0, ok, s4).
                   if \<not> ok then exec_bad me ip pt sz0 0 s4
                   else bindr (userAlloc pt (PGROUNDUP sz0) (PGROUNDUP sz0 + PGSIZE) s4) (\<lambda>(sz, s5).
                     if sz = 0 then exec_bad me ip pt (PGROUNDUP sz0) 0 s5
                     else
                       let b0 = \<lparr>bp_sp = sz - 8, bp_stackbase = sz - PGSIZE, bp_pagetable = pt, bp_argc = 0, bp_envc = 0,
                                 bp_ustack = map (\<lambda>i. read64 (mem s5) (kb + 128 + 8 * of_nat i)) [0..<MAXARG + 1], bp_top = 0\<rparr>
                       in bindr (CopyString2Stack argv b0 s5) (\<lambda>(argc, b1, s6).
                            bindr (CopyString2Stack env (b1\<lparr>bp_argc := argc\<rparr>) s6) (\<lambda>(envc, b2, s7).
                              bindr (CreateUserStack (b2\<lparr>bp_envc := envc\<rparr>) elf s7) (\<lambda>(r, b3, s8).
                                exec_commit me ip path elf pt sz (bp_sp b3) oldsz s8)))))))))"

text \<open>\<^verbatim>\<open>loadseg\<close>, which reads a segment at once (at most ten pages of it).\<close>

function loadseg_loop ::
  "nat \<Rightarrow> u64 \<Rightarrow> u64 \<Rightarrow> nat \<Rightarrow> nat \<Rightarrow> nat \<Rightarrow> nat \<Rightarrow> 'a kfs_scheme \<Rightarrow> (int \<times> 'a kfs_scheme) result" where
  "loadseg_loop me pt va ip offset newsz i s =
     (if i < newsz then
        bindr (walkAddr pt (va + of_nat i) s) (\<lambda>pa0.
          if pa0 = 0 then Inl (Panic ''loadseg: address should exist'')
          else
            let pa = pa0 + (va + of_nat i) mod PGSIZE; n = min (newsz - i) (4096 - unat pa mod 4096) in
            bindr (inode_read me (ToKernel pa) ip ((offset + i) mod 2 ^ 32) n s) (\<lambda>(r, s1).
              if r \<noteq> Done (int n) then Inr (- 1, s1) else loadseg_loop me pt va ip offset newsz (i + n) s1))
      else Inr (0, s))"
  by pat_completeness auto
termination
  by (relation "measure (\<lambda>(me, pt, va, ip, offset, newsz, i, s). newsz - i)") (auto intro: chunk_decreases)

declare loadseg_loop.simps [simp del]

definition loadseg :: "nat \<Rightarrow> u64 \<Rightarrow> u64 \<Rightarrow> nat \<Rightarrow> nat \<Rightarrow> nat \<Rightarrow> 'a kfs_scheme \<Rightarrow> (int \<times> 'a kfs_scheme) result" where
  "loadseg me pt va ip offset sz s =
     loadseg_loop me pt va ip offset (if sz > 40960 then 40960 else sz) 0 s"

end
