(* ===== verification/Syscalls.thy ===== *)
theory Syscalls
  imports Exec
begin

text \<open>
  The system calls of \<^verbatim>\<open>src/kernel/os/syscall.cpp\<close>, \<^verbatim>\<open>src/kernel/os/syscallProc.cpp\<close> and
  \<^verbatim>\<open>src/kernel/os/SyscallFile.cpp\<close>. A handler reads its arguments from the trap frame of the running task
  \<open>me\<close>. It returns a value, waits on a channel, gives up the processor before it returns, or ends the task.
  The four handlers that go through the older file-system layer (\<^verbatim>\<open>mkdirat\<close>, \<^verbatim>\<open>chdir\<close>, \<^verbatim>\<open>mount\<close>, \<^verbatim>\<open>umount2\<close>)
  are a parameter of the dispatcher.
\<close>

datatype sysout = Ret u64 | Wait chan | YieldThen u64 | Gone

type_synonym 's sysres = "(sysout \<times> 's) result"

definition ret :: "int \<Rightarrow> 's \<Rightarrow> 's sysres" where
  "ret v s = Inr (Ret (of_int v), s)"

definition of_outcome :: "int outcome \<Rightarrow> sysout" where
  "of_outcome r = (case r of Done v \<Rightarrow> Ret (of_int v) | Sleep c \<Rightarrow> Wait c)"

section \<open>Arguments\<close>

definition argraw :: "nat \<Rightarrow> nat \<Rightarrow> 'a ktasks_scheme \<Rightarrow> u64 result" where
  "argraw me n s = (if n < 6 then Inr (get_tf me (tf_arg n) s) else Inl (Panic ''argraw''))"

definition argint :: "nat \<Rightarrow> nat \<Rightarrow> 'a ktasks_scheme \<Rightarrow> u32" where
  "argint me n s = ucast (get_tf me (tf_arg n) s)"

text \<open>\<^verbatim>\<open>argaddr\<close> also loads the page the argument points to.\<close>

definition argaddr :: "nat \<Rightarrow> nat \<Rightarrow> 'a kfs_scheme \<Rightarrow> (u64 \<times> 'a kfs_scheme) result" where
  "argaddr me n s =
     (let addr = get_tf me (tf_arg n) s in bindr (LoadIfValid me addr s) (\<lambda>(ok, s1). Inr (addr, s1)))"

definition fetchaddr :: "nat \<Rightarrow> u64 \<Rightarrow> 'a ktasks_scheme \<Rightarrow> (int \<times> u64) result" where
  "fetchaddr me addr s =
     (let t = the_task s me; sz = (scast (t_sz t) :: u64) in
      if addr \<ge> sz \<or> addr + 8 > sz then Inr (- 1, 0)
      else bindr (copyin (t_pagetable t) addr 8 s) (\<lambda>(r, bs).
        if r \<noteq> 0 then Inr (- 1, 0) else Inr (0, get64 bs 0)))"

definition fetchstr :: "nat \<Rightarrow> u64 \<Rightarrow> nat \<Rightarrow> 'a ktasks_scheme \<Rightarrow> (int \<times> u8 list) result" where
  "fetchstr me addr max_sz s =
     bindr (copyinstr (t_pagetable (the_task s me)) addr max_sz s) (\<lambda>(err, bs).
       if err < 0 then Inr (err, bs) else Inr (int (strlen bs), bs))"

definition argstr :: "nat \<Rightarrow> nat \<Rightarrow> nat \<Rightarrow> 'a kfs_scheme \<Rightarrow> (int \<times> u8 list \<times> 'a kfs_scheme) result" where
  "argstr me n max_sz s =
     bindr (argaddr me n s) (\<lambda>(addr, s1). bindr (fetchstr me addr max_sz s1) (\<lambda>(r, bs). Inr (r, bs, s1)))"

definition argfile :: "nat \<Rightarrow> nat \<Rightarrow> 'a ktasks_scheme \<Rightarrow> nat option result" where
  "argfile me n s = getFileByfd me (sint (argint me n s)) s"

definition cbytes :: "string \<Rightarrow> u8 list" where
  "cbytes str = map (\<lambda>c. of_nat (of_char c)) str"

definition user_put :: "nat \<Rightarrow> u64 \<Rightarrow> u8 list \<Rightarrow> 'a ktasks_scheme \<Rightarrow> (int \<times> 'a ktasks_scheme) result" where
  "user_put me va bs s = copyout (t_pagetable (the_task s me)) va bs s"

section \<open>Files\<close>

definition sys_getcwd :: "nat \<Rightarrow> 'a kfs_scheme \<Rightarrow> 'a kfs_scheme sysres" where
  "sys_getcwd me s =
     bindr (argaddr me 0 s) (\<lambda>(userBuf, s1).
       let cwd = t_currentDir (the_task s1 me) in
       if int (strlen cwd) > sint (argint me 1 s1) then ret (- 1) s1
       else bindr (user_put me userBuf (take (strlen cwd) cwd) s1) (\<lambda>(r, s2).
         if r < 0 then ret 0 s2 else Inr (Ret userBuf, s2)))"

definition open_register :: "nat \<Rightarrow> nat option \<Rightarrow> u8 list \<Rightarrow> nat \<Rightarrow> nat \<Rightarrow> 'a kfs_scheme \<Rightarrow> 'a kfs_scheme sysres" where
  "open_register me dir path flags mode s =
     bindr (vfs_openat me dir path flags mode s) (\<lambda>(fp, s1).
       if fp = None then ret (- 1) s1
       else bindr (registerFileHandle me fp (- 1) s1) (\<lambda>(fd, s2). ret fd s2))"

definition sys_open :: "nat \<Rightarrow> 'a kfs_scheme \<Rightarrow> 'a kfs_scheme sysres" where
  "sys_open me s =
     bindr (argstr me 0 MAXPATH s) (\<lambda>(n, path, s1).
       if n < 0 then ret (- 1) s1 else open_register me None path (unat (argint me 1 s1)) 0 s1)"

definition sys_unlinkat :: "nat \<Rightarrow> 'a kfs_scheme \<Rightarrow> 'a kfs_scheme sysres" where
  "sys_unlinkat me s =
     bindr (argstr me 1 MAXPATH s) (\<lambda>(n, path, s1).
       if n < 0 then ret (- 1) s1
       else bindr (nonnull ''cwd'' (t_cwd (the_task s1 me))) (\<lambda>cwd.
         bindr (the_inode cwd s1) (\<lambda>nd.
           bindr (fs_Unlink me (i_fs nd) cwd path s1) (\<lambda>(r, s2). ret 0 s2))))"

definition sys_openat :: "nat \<Rightarrow> 'a kfs_scheme \<Rightarrow> 'a kfs_scheme sysres" where
  "sys_openat me s =
     bindr (argstr me 1 MAXPATH s) (\<lambda>(n, path, s1).
       if n < 0 then ret (- 1) s1
       else bindr (argfile me 0 s1) (\<lambda>dir.
         open_register me dir path (unat (argint me 2 s1)) (unat (argint me 3 s1)) s1))"

definition sys_close :: "nat \<Rightarrow> 'a kfs_scheme \<Rightarrow> 'a kfs_scheme sysres" where
  "sys_close me s =
     (let fd = sint (argint me 0 s) in
      if fd < 0 then ret (- 1) s
      else bindr (getFileByfd me fd s) (\<lambda>fpo.
        bindr (nonnull ''fp'' fpo) (\<lambda>fp.
          bindr (vfs_close me fp s) (\<lambda>s1.
            ret 0 (upd_task me (\<lambda>t. t\<lparr>t_openFiles := (t_openFiles t)[nat fd := None]\<rparr>) s1)))))"

definition sys_write :: "nat \<Rightarrow> 'a kfs_scheme \<Rightarrow> 'a kfs_scheme sysres" where
  "sys_write me s =
     bindr (argaddr me 1 s) (\<lambda>(uaddr, s1).
       bindr (argfile me 0 s1) (\<lambda>fp.
         bindr (vfs_write me fp uaddr (argint me 2 s1) True s1) (\<lambda>(r, s2). Inr (of_outcome r, s2))))"

definition sys_read :: "nat \<Rightarrow> 'a kfs_scheme \<Rightarrow> 'a kfs_scheme sysres" where
  "sys_read me s =
     bindr (argaddr me 1 s) (\<lambda>(uaddr, s1).
       bindr (argfile me 0 s1) (\<lambda>fp.
         bindr (vfs_read me fp uaddr (argint me 2 s1) True s1) (\<lambda>(r, s2). Inr (of_outcome r, s2))))"

text \<open>
  The vectored calls: \<open>io\<close> is the operation per element, \<open>vec\<close> the bytes copied in. The buffer has room for
  ten elements; a negative count copies more.
\<close>

primrec iov_loop ::
  "nat \<Rightarrow> (u64 \<Rightarrow> u32 \<Rightarrow> 's \<Rightarrow> (int outcome \<times> 's) result) \<Rightarrow> u8 list \<Rightarrow> nat \<Rightarrow> u32 \<Rightarrow> 's \<Rightarrow> 's sysres" where
  "iov_loop 0 io vec i acc s = Inr (Ret (scast acc), s)"
| "iov_loop (Suc k) io vec i acc s =
     bindr (io (get64 vec (16 * i)) (ucast (get64 vec (16 * i + 8))) s) (\<lambda>(r, s1).
       case r of Sleep c \<Rightarrow> Inr (Wait c, s1)
       | Done v \<Rightarrow> iov_loop k io vec (Suc i) (acc + of_int v) s1)"

definition sys_iov ::
  "nat \<Rightarrow> (nat option \<Rightarrow> u64 \<Rightarrow> u32 \<Rightarrow> 'a kfs_scheme \<Rightarrow> (int outcome \<times> 'a kfs_scheme) result) \<Rightarrow> 'a kfs_scheme \<Rightarrow> 'a kfs_scheme sysres" where
  "sys_iov me io s =
     bindr (argaddr me 1 s) (\<lambda>(iovec_addr, s1).
       let n = argint me 2 s1 in
       if sint n > 10 then ret (- 1) s1
       else bindr (copyin (t_pagetable (the_task s1 me)) iovec_addr (scast n * 16) s1) (\<lambda>(r, vec).
         if length vec > 160 then Inl (BadAccess ''vec'')
         else if r < 0 then ret (- 1) s1
         else bindr (argfile me 0 s1) (\<lambda>fp. iov_loop (nat (sint n)) (io fp) vec 0 0 s1)))"

definition sys_writev :: "nat \<Rightarrow> 'a kfs_scheme \<Rightarrow> 'a kfs_scheme sysres" where
  "sys_writev me s = sys_iov me (\<lambda>fp base len. vfs_write me fp base len True) s"

definition sys_readv :: "nat \<Rightarrow> 'a kfs_scheme \<Rightarrow> 'a kfs_scheme sysres" where
  "sys_readv me s = sys_iov me (\<lambda>fp base len. vfs_read me fp base len True) s"

definition sys_readlinkat :: "nat \<Rightarrow> 'a kfs_scheme \<Rightarrow> 'a kfs_scheme sysres" where
  "sys_readlinkat me s =
     bindr (argstr me 1 MAXPATH s) (\<lambda>(n, path, s1).
       if n < 0 then ret (- 1) s1
       else bindr (argaddr me 2 s1) (\<lambda>(ubuf, s2).
         bindr (user_put me ubuf (cbytes ''/busybox'' @ [0] @ take 1 (stack_junk s2)) s2) (\<lambda>(r, s3). ret 9 s3)))"

definition sys_dup :: "nat \<Rightarrow> 'a kfs_scheme \<Rightarrow> 'a kfs_scheme sysres" where
  "sys_dup me s =
     bindr (argfile me 0 s) (\<lambda>fpo.
       if fpo = None then ret (- 1) s
       else bindr (vfs_dup fpo s) (\<lambda>(fp, s1).
         bindr (registerFileHandle me (Some fp) (- 1) s1) (\<lambda>(fd, s2). ret fd s2)))"

definition sys_dup3 :: "nat \<Rightarrow> 'a kfs_scheme \<Rightarrow> 'a kfs_scheme sysres" where
  "sys_dup3 me s =
     (let newfd = sint (argint me 1 s) in
      bindr (argfile me 0 s) (\<lambda>fpo.
        bindr (vfs_dup fpo s) (\<lambda>(fp, s1).
          if newfd < 0 \<or> newfd \<ge> int NOFILE then Inl (BadAccess ''openFiles'')
          else bindr (case t_openFiles (the_task s1 me) ! nat newfd of None \<Rightarrow> Inr s1
                      | Some old \<Rightarrow> bindr (vfs_close me old s1) (\<lambda>s2.
                          Inr (upd_task me (\<lambda>t. t\<lparr>t_openFiles := (t_openFiles t)[nat newfd := None]\<rparr>) s2))) (\<lambda>s3.
            bindr (registerFileHandle me (Some fp) newfd s3) (\<lambda>(ansfd, s4).
              if ansfd < 0 then bindr (vfs_close me fp s4) (\<lambda>s5. ret ansfd s5) else ret ansfd s4)))))"

definition sys_pipe :: "nat \<Rightarrow> 'a kfs_scheme \<Rightarrow> 'a kfs_scheme sysres" where
  "sys_pipe me s =
     bindr (argaddr me 0 s) (\<lambda>(fdarray, s1).
       bindr (vfs_createPipe me s1) (\<lambda>(fd0, fd1, s2).
         bindr (user_put me fdarray (bytes32 (of_int fd0)) s2) (\<lambda>(r0, s3).
           bindr (if r0 < 0 then Inr (- 1, s3) else user_put me (fdarray + 4) (bytes32 (of_int fd1)) s3) (\<lambda>(r1, s4).
             if r1 < 0 then
               bindr (getFileByfd me fd0 s4) (\<lambda>f0. bindr (nonnull ''fp'' f0) (\<lambda>f0. bindr (vfs_close me f0 s4) (\<lambda>s5.
                 bindr (getFileByfd me fd1 s5) (\<lambda>f1. bindr (nonnull ''fp'' f1) (\<lambda>f1.
                   bindr (vfs_close me f1 s5) (\<lambda>s6. ret (- 1) s6))))))
             else ret 0 s4))))"

definition sys_getdents64 :: "nat \<Rightarrow> 'a kfs_scheme \<Rightarrow> 'a kfs_scheme sysres" where
  "sys_getdents64 me s =
     bindr (argaddr me 1 s) (\<lambda>(addr, s1).
       bindr (argfile me 0 s1) (\<lambda>fp.
         bindr (vfs_ReadDir me fp addr (unat (argint me 2 s1)) True s1) (\<lambda>(n, s2). ret n s2)))"

text \<open>\<^verbatim>\<open>struct kstat\<close> with the four fields that are set; the mode is a \<^verbatim>\<open>short\<close> made unsigned.\<close>

definition kstat_bytes :: "nat \<Rightarrow> nat \<Rightarrow> u8 list" where
  "kstat_bytes sz mode =
     bytes64 1 @ bytes64 0 @ bytes32 (scast (of_nat mode :: u16)) @ bytes32 1 @ replicate 24 0
     @ bytes64 (of_nat sz) @ replicate 72 0"

definition sys_fstat :: "nat \<Rightarrow> 'a kfs_scheme \<Rightarrow> 'a kfs_scheme sysres" where
  "sys_fstat me s =
     bindr (argfile me 0 s) (\<lambda>fpo.
       case fpo of None \<Rightarrow> ret (- 1) s
       | Some fp \<Rightarrow> bindr (argaddr me 1 s) (\<lambda>(kstAddr, s1).
           bindr (the_file fp s1) (\<lambda>f.
             bindr (user_put me kstAddr (kstat_bytes (f_size f) (f_mode f)) s1) (\<lambda>(r, s2). ret r s2))))"

definition sys_fstatat :: "nat \<Rightarrow> 'a kfs_scheme \<Rightarrow> 'a kfs_scheme sysres" where
  "sys_fstatat me s =
     bindr (argstr me 1 MAXPATH s) (\<lambda>(n, path, s1).
       if n < 0 then ret (- 1) s1
       else bindr (argaddr me 2 s1) (\<lambda>(kst_addr, s2).
         bindr (vfs_openat me None path O_RDWR 0 s2) (\<lambda>(fpo, s3).
           case fpo of None \<Rightarrow> ret (- 1) s3
           | Some fp \<Rightarrow>
               bindr (the_file fp s3) (\<lambda>f. bindr (nonnull ''inode'' (f_inode f)) (\<lambda>ip. bindr (the_inode ip s3) (\<lambda>nd.
                 bindr (vfs_close me fp s3) (\<lambda>s4.
                   bindr (user_put me kst_addr (kstat_bytes (f_size f) (i_mode nd)) s4) (\<lambda>(r, s5).
                     if r < 0 then ret (- 1) s5 else ret 0 s5))))))))"

text \<open>\<^verbatim>\<open>mmap\<close> places the area below all others; only anonymous memory is supported.\<close>

definition sys_mmap :: "nat \<Rightarrow> 'a kfs_scheme \<Rightarrow> 'a kfs_scheme sysres" where
  "sys_mmap me s =
     bindr (argaddr me 0 s) (\<lambda>(addr, s1).
       let len = argint me 1 s1; prot = argint me 2 s1; flags = argint me 3 s1 in
       bindr (getFileByfd me (sint (argint me 4 s1)) s1) (\<lambda>f.
         if f \<noteq> None then Inl (Panic ''sys_mmap'')
         else bindr (allocVma s1) (\<lambda>k.
           let vmasz = fold (\<lambda>v acc. case v of None \<Rightarrow> acc | Some j \<Rightarrow> acc + v_length (vma_table s1 ! j))
                         (t_vma (the_task s1 me)) (0 :: u32);
               a = (vma_table s1 ! k)\<lparr>v_f := None, v_ip := None, v_length := len,
                    v_addr := PGROUNDDOWN (MAXVA - PGSIZE * 1024 - scast vmasz - scast ((len + 4095) AND NOT 4095)),
                    v_prot := prot OR PROT_READ OR PROT_WRITE OR PROT_EXEC, v_flag := flags\<rparr>;
               s2 = s1\<lparr>vma_table := (vma_table s1)[k := a]\<rparr>
           in case List.find (\<lambda>i. t_vma (the_task s2 me) ! i = None) [0..<NOMMAPFILE] of
                None \<Rightarrow> Inl (Panic ''mmap: not enough vma im task'')
              | Some i \<Rightarrow> Inr (Ret (v_addr a), upd_task me (\<lambda>t. t\<lparr>t_vma := (t_vma t)[i := Some k]\<rparr>) s2))))"

definition sys_munmap :: "nat \<Rightarrow> 'a kfs_scheme \<Rightarrow> 'a kfs_scheme sysres" where
  "sys_munmap me s =
     bindr (argaddr me 0 s) (\<lambda>(addr, s1).
       case List.find (\<lambda>i. case t_vma (the_task s1 me) ! i of None \<Rightarrow> False
              | Some k \<Rightarrow> addr \<ge> v_addr (vma_table s1 ! k)
                  \<and> addr < v_addr (vma_table s1 ! k) + scast (v_length (vma_table s1 ! k))) [0..<NOMMAPFILE] of
         None \<Rightarrow> Inl (BadAccess ''vma->ip'')
       | Some i \<Rightarrow>
           bindr (nonnull ''vma'' (t_vma (the_task s1 me) ! i)) (\<lambda>k.
             let a = vma_table s1 ! k in
             if v_ip a \<noteq> None then ret (- 1) s1
             else bindr (userUnmap (t_pagetable (the_task s1 me)) (v_addr a) (npages (v_length a)) True s1) (\<lambda>s2.
               bindr (vma_free me k s2) (\<lambda>s3.
                 ret 0 (upd_task me (\<lambda>t. t\<lparr>t_vma := (t_vma t)[i := None]\<rparr>) s3)))))"

definition sys_fcntl :: "nat \<Rightarrow> 'a kfs_scheme \<Rightarrow> 'a kfs_scheme sysres" where
  "sys_fcntl me s =
     (let cmd = sint (argint me 1 s) in
      if cmd = 2 \<or> cmd = 4 then ret 0 s
      else bindr (argfile me 0 s) (\<lambda>fpo.
        if cmd = 3 then bindr (nonnull ''fp'' fpo) (\<lambda>fp. bindr (the_file fp s) (\<lambda>f.
          Inr (Ret (scast (of_nat (f_mode f) :: u16)), s)))
        else bindr (vfs_dup fpo s) (\<lambda>(fp, s1).
          bindr (AllocFd me (sint (argint me 2 s1)) (- 1) s1) (\<lambda>new_fd.
            bindr (registerFileHandle me (Some fp) new_fd s1) (\<lambda>(fd, s2). ret fd s2)))))"

definition sys_ppoll :: "nat \<Rightarrow> 'a kfs_scheme \<Rightarrow> 'a kfs_scheme sysres" where
  "sys_ppoll me s =
     bindr (argaddr me 0 s) (\<lambda>(fds_addr, s1).
       if argint me 1 s1 \<noteq> 1 then Inl (Panic ''only support 1 pollfd'')
       else bindr (copyin (t_pagetable (the_task s1 me)) fds_addr 8 s1) (\<lambda>(r, bs).
         if r \<noteq> 0 then ret (- 1) s1 else ret 1 s1))"

definition sys_faccessat :: "nat \<Rightarrow> 'a kfs_scheme \<Rightarrow> 'a kfs_scheme sysres" where
  "sys_faccessat me s =
     bindr (argstr me 1 MAXPATH s) (\<lambda>(n, path, s1).
       if n < 0 then ret (- 1) s1
       else bindr (argfile me 0 s1) (\<lambda>dir.
         bindr (vfs_openat me dir path (unat (argint me 2 s1)) (unat (argint me 3 s1)) s1) (\<lambda>(fpo, s2).
           case fpo of None \<Rightarrow> ret (- 1) s2 | Some fp \<Rightarrow> bindr (vfs_close me fp s2) (\<lambda>s3. ret 0 s3))))"

definition sys_utimensat :: "nat \<Rightarrow> 'a kfs_scheme \<Rightarrow> 'a kfs_scheme sysres" where
  "sys_utimensat me s =
     bindr (argstr me 1 MAXPATH s) (\<lambda>(n, path, s1).
       if n < 0 then ret (- 1) s1
       else
         let flags = unat (argint me 3 s1) in
         bindr (argfile me 0 s1) (\<lambda>dir.
           bindr (vfs_openat me dir path flags 0 s1) (\<lambda>(fpo, s2).
             bindr (if fpo = None then vfs_openat me dir path (flags OR O_CREATE) 0 s2 else Inr (fpo, s2)) (\<lambda>(fpo, s3).
               case fpo of None \<Rightarrow> Inl (Panic ''create fp error'')
               | Some fp \<Rightarrow> bindr (vfs_close me fp s3) (\<lambda>s4. ret 0 s4)))))"

definition sys_lseek :: "nat \<Rightarrow> 'a kfs_scheme \<Rightarrow> 'a kfs_scheme sysres" where
  "sys_lseek me s =
     (let offset = argint me 1 s; whence = argint me 2 s in
      bindr (argfile me 0 s) (\<lambda>fpo.
        case fpo of None \<Rightarrow> ret (- 1) s
        | Some fp \<Rightarrow> bindr (the_file fp s) (\<lambda>f.
            bindr (if whence = 2 then Inr (of_nat (f_size f) + offset)
                   else if whence = 0 then Inr offset
                   else if whence = 1 then Inr (of_nat (f_offset f) + offset)
                   else Inl (Panic ''only handler SEEK END'')) (\<lambda>now_off.
              if sint now_off < 0 then ret (- 1) s
              else ret (sint now_off) (upd_file fp (\<lambda>x. x\<lparr>f_offset := unat now_off\<rparr>) s)))))"

definition sys_prlimit64 :: "nat \<Rightarrow> 'a kfs_scheme \<Rightarrow> 'a kfs_scheme sysres" where
  "sys_prlimit64 me s =
     bindr (argaddr me 2 s) (\<lambda>(new_limit, s1).
       bindr (argaddr me 3 s1) (\<lambda>(old_limit, s2).
         if old_limit \<noteq> 0 then
           bindr (either_copyout (t_pagetable (the_task s2 me)) (t_pagetable (the_task s2 me) \<noteq> 0) old_limit
                    (bytes64 1000 @ bytes64 10000) s2) (\<lambda>(r, s3). ret r s3)
         else ret 0 s2))"

definition sys_syslog :: "nat \<Rightarrow> 'a kfs_scheme \<Rightarrow> 'a kfs_scheme sysres" where
  "sys_syslog me s =
     bindr (argaddr me 1 s) (\<lambda>(uaddr, s1).
       let log = cbytes ''startos start'' @ [10, 0]; l = argint me 2 s1;
           len = (if (scast l :: u64) > of_nat (length log) then length log else unat l)
       in bindr (either_copyout (t_pagetable (the_task s1 me)) (t_pagetable (the_task s1 me) \<noteq> 0) uaddr (take len log) s1)
            (\<lambda>(r, s2). ret (int len) s2))"

end
