(* ===== verification/Bitfields.thy ===== *)
theory Bitfields
  imports Prelude
begin

unbundle bit_operations_syntax

text \<open>
  Bit fields of device registers. A register is a word; a layout lists its fields from the lowest bit on, as the
  declarations of C structures of bit fields on this machine do. Reading a field takes its bits out, writing one
  replaces them and leaves the other bits.
\<close>

text \<open>The fields of a register in the order of their declaration, lowest bits first, with their widths.\<close>

type_synonym layout = "(string \<times> nat) list"

fun bf_pos :: "layout \<Rightarrow> string \<Rightarrow> nat \<times> nat" where
  "bf_pos [] f = (0, 0)"
| "bf_pos ((g, n) # L) f = (if g = f then (0, n) else (n + fst (bf_pos L f), snd (bf_pos L f)))"

definition bf_get :: "layout \<Rightarrow> string \<Rightarrow> 'a::len word \<Rightarrow> 'a word" where
  "bf_get L f x = take_bit (snd (bf_pos L f)) (drop_bit (fst (bf_pos L f)) x)"

definition bf_set :: "layout \<Rightarrow> string \<Rightarrow> 'a::len word \<Rightarrow> 'a word \<Rightarrow> 'a word" where
  "bf_set L f v x =
     (x AND NOT (push_bit (fst (bf_pos L f)) (mask (snd (bf_pos L f))))) OR
     push_bit (fst (bf_pos L f)) (take_bit (snd (bf_pos L f)) v)"

definition bf_names :: "layout \<Rightarrow> string set" where "bf_names L = fst ` set L"
definition bf_bits :: "layout \<Rightarrow> nat" where "bf_bits L = sum_list (map snd L)"

text \<open>A layout is good for registers of \<open>n\<close> bits when its names differ and it fits.\<close>

definition bf_ok :: "nat \<Rightarrow> layout \<Rightarrow> bool" where
  "bf_ok n L \<longleftrightarrow> distinct (map fst L) \<and> bf_bits L \<le> n"

lemma bf_names_simps [simp]: "bf_names [] = {}" "bf_names ((g, n) # L) = insert g (bf_names L)"
  by (simp_all add: bf_names_def)

lemma bf_bits_simps [simp]: "bf_bits [] = 0" "bf_bits ((g, n) # L) = n + bf_bits L"
  by (simp_all add: bf_bits_def)

lemma bf_pos_fits: "f \<in> bf_names L \<Longrightarrow> fst (bf_pos L f) + snd (bf_pos L f) \<le> bf_bits L"
  by (induction L f rule: bf_pos.induct) auto

text \<open>Two fields of a good layout lie apart.\<close>

lemma bf_pos_apart:
  "f \<in> bf_names L \<Longrightarrow> g \<in> bf_names L \<Longrightarrow> f \<noteq> g \<Longrightarrow>
   fst (bf_pos L f) + snd (bf_pos L f) \<le> fst (bf_pos L g) \<or> fst (bf_pos L g) + snd (bf_pos L g) \<le> fst (bf_pos L f)"
proof (induction L)
  case (Cons a L)
  obtain h n where a: "a = (h, n)" by (cases a)
  then show ?case using Cons by (cases "h = f"; cases "h = g") auto
qed simp

lemma bit_bf_get: "bit (bf_get L f x) i \<longleftrightarrow> i < snd (bf_pos L f) \<and> bit x (fst (bf_pos L f) + i)"
  by (simp add: bf_get_def bit_simps)

lemma bit_bf_set:
  fixes x v :: "'a::len word"
  shows "bit (bf_set L f v x) i \<longleftrightarrow> i < LENGTH('a) \<and>
    (if fst (bf_pos L f) \<le> i \<and> i < fst (bf_pos L f) + snd (bf_pos L f) then bit v (i - fst (bf_pos L f)) else bit x i)"
  unfolding bf_set_def by (auto simp: bit_simps dest: bit_imp_le_length)

lemma bf_get_set_same:
  fixes x v :: "'a::len word"
  assumes "f \<in> bf_names L" "bf_ok LENGTH('a) L"
  shows "bf_get L f (bf_set L f v x) = take_bit (snd (bf_pos L f)) v"
proof (rule bit_word_eqI)
  fix i assume "i < LENGTH('a)"
  show "bit (bf_get L f (bf_set L f v x)) i = bit (take_bit (snd (bf_pos L f)) v) i"
    using bf_pos_fits [OF assms(1)] assms(2)
    by (auto simp: bit_bf_get bit_bf_set bit_take_bit_iff bf_ok_def)
qed

lemma bf_get_set_other:
  fixes x v :: "'a::len word"
  assumes "f \<in> bf_names L" "g \<in> bf_names L" "f \<noteq> g"
  shows "bf_get L g (bf_set L f v x) = bf_get L g x"
proof (rule bit_word_eqI)
  fix i assume "i < LENGTH('a)"
  show "bit (bf_get L g (bf_set L f v x)) i = bit (bf_get L g x) i"
    using bf_pos_apart [OF assms] by (auto simp: bit_bf_get bit_bf_set dest: bit_imp_le_length)
qed

lemma take_bit_of_nat_small:
  assumes "v < 2 ^ n" shows "take_bit n (of_nat v :: 'a::len word) = of_nat v"
  using assms by (metis of_nat_take_bit take_bit_nat_eq_self)

lemma unat_bf_get: "unat (bf_get L f x) < 2 ^ snd (bf_pos L f)"
  by (simp add: bf_get_def unsigned_take_bit_eq)

end
