(* ===== verification/Sysctl.thy ===== *)
theory Sysctl
  imports Bitfields
begin

unbundle bit_operations_syntax

text \<open>
  The system controller of the K210 (\<^verbatim>\<open>driver/sysctl.c\<close>, \<^verbatim>\<open>include/driver/sysctl.hpp\<close>): its registers, the reset and clock
  switches, the DMA handshake selectors and the computation of clock frequencies. A register keeps what is written to it.
  Thresholds and selectors are small fields, so the conversions to \<^verbatim>\<open>int\<close> and back change nothing.
\<close>

section \<open>Identifiers\<close>

text \<open>The enumerations of \<^verbatim>\<open>include/driver/sysctl.hpp\<close>.\<close>

datatype sysctl_pll_t =
    SYSCTL_PLL0 | SYSCTL_PLL1 | SYSCTL_PLL2 | SYSCTL_PLL_MAX

datatype sysctl_clock_source_t =
    SYSCTL_SOURCE_IN0 | SYSCTL_SOURCE_PLL0 | SYSCTL_SOURCE_PLL1 | SYSCTL_SOURCE_PLL2 | SYSCTL_SOURCE_ACLK |
    SYSCTL_SOURCE_MAX

datatype sysctl_dma_channel_t =
    SYSCTL_DMA_CHANNEL_0 | SYSCTL_DMA_CHANNEL_1 | SYSCTL_DMA_CHANNEL_2 | SYSCTL_DMA_CHANNEL_3 | SYSCTL_DMA_CHANNEL_4 |
    SYSCTL_DMA_CHANNEL_5 | SYSCTL_DMA_CHANNEL_MAX

datatype sysctl_clock_t =
    SYSCTL_CLOCK_PLL0 | SYSCTL_CLOCK_PLL1 | SYSCTL_CLOCK_PLL2 | SYSCTL_CLOCK_CPU | SYSCTL_CLOCK_SRAM0 |
    SYSCTL_CLOCK_SRAM1 | SYSCTL_CLOCK_APB0 | SYSCTL_CLOCK_APB1 | SYSCTL_CLOCK_APB2 | SYSCTL_CLOCK_ROM |
    SYSCTL_CLOCK_DMA | SYSCTL_CLOCK_AI | SYSCTL_CLOCK_DVP | SYSCTL_CLOCK_FFT | SYSCTL_CLOCK_GPIO | SYSCTL_CLOCK_SPI0 |
    SYSCTL_CLOCK_SPI1 | SYSCTL_CLOCK_SPI2 | SYSCTL_CLOCK_SPI3 | SYSCTL_CLOCK_I2S0 | SYSCTL_CLOCK_I2S1 |
    SYSCTL_CLOCK_I2S2 | SYSCTL_CLOCK_I2C0 | SYSCTL_CLOCK_I2C1 | SYSCTL_CLOCK_I2C2 | SYSCTL_CLOCK_UART1 |
    SYSCTL_CLOCK_UART2 | SYSCTL_CLOCK_UART3 | SYSCTL_CLOCK_AES | SYSCTL_CLOCK_FPIOA | SYSCTL_CLOCK_TIMER0 |
    SYSCTL_CLOCK_TIMER1 | SYSCTL_CLOCK_TIMER2 | SYSCTL_CLOCK_WDT0 | SYSCTL_CLOCK_WDT1 | SYSCTL_CLOCK_SHA |
    SYSCTL_CLOCK_OTP | SYSCTL_CLOCK_RTC | SYSCTL_CLOCK_ACLK | SYSCTL_CLOCK_HCLK | SYSCTL_CLOCK_IN0 | SYSCTL_CLOCK_MAX

datatype sysctl_clock_select_t =
    SYSCTL_CLOCK_SELECT_PLL0_BYPASS | SYSCTL_CLOCK_SELECT_PLL1_BYPASS | SYSCTL_CLOCK_SELECT_PLL2_BYPASS |
    SYSCTL_CLOCK_SELECT_PLL2 | SYSCTL_CLOCK_SELECT_ACLK | SYSCTL_CLOCK_SELECT_SPI3 | SYSCTL_CLOCK_SELECT_TIMER0 |
    SYSCTL_CLOCK_SELECT_TIMER1 | SYSCTL_CLOCK_SELECT_TIMER2 | SYSCTL_CLOCK_SELECT_SPI3_SAMPLE | SYSCTL_CLOCK_SELECT_MAX

datatype sysctl_threshold_t =
    SYSCTL_THRESHOLD_ACLK | SYSCTL_THRESHOLD_APB0 | SYSCTL_THRESHOLD_APB1 | SYSCTL_THRESHOLD_APB2 |
    SYSCTL_THRESHOLD_SRAM0 | SYSCTL_THRESHOLD_SRAM1 | SYSCTL_THRESHOLD_AI | SYSCTL_THRESHOLD_DVP |
    SYSCTL_THRESHOLD_ROM | SYSCTL_THRESHOLD_SPI0 | SYSCTL_THRESHOLD_SPI1 | SYSCTL_THRESHOLD_SPI2 |
    SYSCTL_THRESHOLD_SPI3 | SYSCTL_THRESHOLD_TIMER0 | SYSCTL_THRESHOLD_TIMER1 | SYSCTL_THRESHOLD_TIMER2 |
    SYSCTL_THRESHOLD_I2S0 | SYSCTL_THRESHOLD_I2S1 | SYSCTL_THRESHOLD_I2S2 | SYSCTL_THRESHOLD_I2S0_M |
    SYSCTL_THRESHOLD_I2S1_M | SYSCTL_THRESHOLD_I2S2_M | SYSCTL_THRESHOLD_I2C0 | SYSCTL_THRESHOLD_I2C1 |
    SYSCTL_THRESHOLD_I2C2 | SYSCTL_THRESHOLD_WDT0 | SYSCTL_THRESHOLD_WDT1 | SYSCTL_THRESHOLD_MAX

datatype sysctl_reset_t =
    SYSCTL_RESET_SOC | SYSCTL_RESET_ROM | SYSCTL_RESET_DMA | SYSCTL_RESET_AI | SYSCTL_RESET_DVP | SYSCTL_RESET_FFT |
    SYSCTL_RESET_GPIO | SYSCTL_RESET_SPI0 | SYSCTL_RESET_SPI1 | SYSCTL_RESET_SPI2 | SYSCTL_RESET_SPI3 |
    SYSCTL_RESET_I2S0 | SYSCTL_RESET_I2S1 | SYSCTL_RESET_I2S2 | SYSCTL_RESET_I2C0 | SYSCTL_RESET_I2C1 |
    SYSCTL_RESET_I2C2 | SYSCTL_RESET_UART1 | SYSCTL_RESET_UART2 | SYSCTL_RESET_UART3 | SYSCTL_RESET_AES |
    SYSCTL_RESET_FPIOA | SYSCTL_RESET_TIMER0 | SYSCTL_RESET_TIMER1 | SYSCTL_RESET_TIMER2 | SYSCTL_RESET_WDT0 |
    SYSCTL_RESET_WDT1 | SYSCTL_RESET_SHA | SYSCTL_RESET_RTC | SYSCTL_RESET_MAX

section \<open>Registers\<close>

text \<open>The registers of \<^verbatim>\<open>sysctl_t\<close> in their order, and the bit fields of each.\<close>

datatype sysctl_reg =
    REG_git_id | REG_clk_freq | REG_pll0 | REG_pll1 | REG_pll2 | REG_resv5 | REG_pll_lock | REG_rom_error |
    REG_clk_sel0 | REG_clk_sel1 | REG_clk_en_cent | REG_clk_en_peri | REG_soft_reset | REG_peri_reset | REG_clk_th0 |
    REG_clk_th1 | REG_clk_th2 | REG_clk_th3 | REG_clk_th4 | REG_clk_th5 | REG_clk_th6 | REG_misc | REG_peri |
    REG_spi_sleep | REG_reset_status | REG_dma_sel0 | REG_dma_sel1 | REG_power_sel | REG_resv28 | REG_resv29 |
    REG_resv30 | REG_resv31

definition sysctl_git_id_t :: layout where
  "sysctl_git_id_t =
    [(''git_id'', 32)]"

definition sysctl_clk_freq_t :: layout where
  "sysctl_clk_freq_t =
    [(''clk_freq'', 32)]"

definition sysctl_pll0_t :: layout where
  "sysctl_pll0_t =
    [(''clkr0'', 4), (''clkf0'', 6), (''clkod0'', 4), (''bwadj0'', 6), (''pll_reset0'', 1), (''pll_pwrd0'', 1),
     (''pll_intfb0'', 1), (''pll_bypass0'', 1), (''pll_test0'', 1), (''pll_out_en0'', 1), (''pll_test_en'', 1),
     (''reserved'', 5)]"

definition sysctl_pll1_t :: layout where
  "sysctl_pll1_t =
    [(''clkr1'', 4), (''clkf1'', 6), (''clkod1'', 4), (''bwadj1'', 6), (''pll_reset1'', 1), (''pll_pwrd1'', 1),
     (''pll_intfb1'', 1), (''pll_bypass1'', 1), (''pll_test1'', 1), (''pll_out_en1'', 1), (''reserved'', 6)]"

definition sysctl_pll2_t :: layout where
  "sysctl_pll2_t =
    [(''clkr2'', 4), (''clkf2'', 6), (''clkod2'', 4), (''bwadj2'', 6), (''pll_reset2'', 1), (''pll_pwrd2'', 1),
     (''pll_intfb2'', 1), (''pll_bypass2'', 1), (''pll_test2'', 1), (''pll_out_en2'', 1), (''pll_ckin_sel2'', 2),
     (''reserved'', 4)]"

definition sysctl_pll_lock_t :: layout where
  "sysctl_pll_lock_t =
    [(''pll_lock0'', 2), (''pll_slip_clear0'', 1), (''test_clk_out0'', 1), (''reserved0'', 4), (''pll_lock1'', 2),
     (''pll_slip_clear1'', 1), (''test_clk_out1'', 1), (''reserved1'', 4), (''pll_lock2'', 2), (''pll_slip_clear2'', 1),
     (''test_clk_out2'', 1), (''reserved2'', 12)]"

definition sysctl_rom_error_t :: layout where
  "sysctl_rom_error_t =
    [(''rom_mul_error'', 1), (''rom_one_error'', 1), (''reserved'', 30)]"

definition sysctl_clk_sel0_t :: layout where
  "sysctl_clk_sel0_t =
    [(''aclk_sel'', 1), (''aclk_divider_sel'', 2), (''apb0_clk_sel'', 3), (''apb1_clk_sel'', 3), (''apb2_clk_sel'', 3),
     (''spi3_clk_sel'', 1), (''timer0_clk_sel'', 1), (''timer1_clk_sel'', 1), (''timer2_clk_sel'', 1),
     (''reserved'', 16)]"

definition sysctl_clk_sel1_t :: layout where
  "sysctl_clk_sel1_t =
    [(''spi3_sample_clk_sel'', 1), (''reserved0'', 30), (''reserved1'', 1)]"

definition sysctl_clk_en_cent_t :: layout where
  "sysctl_clk_en_cent_t =
    [(''cpu_clk_en'', 1), (''sram0_clk_en'', 1), (''sram1_clk_en'', 1), (''apb0_clk_en'', 1), (''apb1_clk_en'', 1),
     (''apb2_clk_en'', 1), (''reserved'', 26)]"

definition sysctl_clk_en_peri_t :: layout where
  "sysctl_clk_en_peri_t =
    [(''rom_clk_en'', 1), (''dma_clk_en'', 1), (''ai_clk_en'', 1), (''dvp_clk_en'', 1), (''fft_clk_en'', 1),
     (''gpio_clk_en'', 1), (''spi0_clk_en'', 1), (''spi1_clk_en'', 1), (''spi2_clk_en'', 1), (''spi3_clk_en'', 1),
     (''i2s0_clk_en'', 1), (''i2s1_clk_en'', 1), (''i2s2_clk_en'', 1), (''i2c0_clk_en'', 1), (''i2c1_clk_en'', 1),
     (''i2c2_clk_en'', 1), (''uart1_clk_en'', 1), (''uart2_clk_en'', 1), (''uart3_clk_en'', 1), (''aes_clk_en'', 1),
     (''fpioa_clk_en'', 1), (''timer0_clk_en'', 1), (''timer1_clk_en'', 1), (''timer2_clk_en'', 1),
     (''wdt0_clk_en'', 1), (''wdt1_clk_en'', 1), (''sha_clk_en'', 1), (''otp_clk_en'', 1), (''reserved'', 1),
     (''rtc_clk_en'', 1), (''reserved0'', 2)]"

definition sysctl_soft_reset_t :: layout where
  "sysctl_soft_reset_t =
    [(''soft_reset'', 1), (''reserved'', 31)]"

definition sysctl_peri_reset_t :: layout where
  "sysctl_peri_reset_t =
    [(''rom_reset'', 1), (''dma_reset'', 1), (''ai_reset'', 1), (''dvp_reset'', 1), (''fft_reset'', 1),
     (''gpio_reset'', 1), (''spi0_reset'', 1), (''spi1_reset'', 1), (''spi2_reset'', 1), (''spi3_reset'', 1),
     (''i2s0_reset'', 1), (''i2s1_reset'', 1), (''i2s2_reset'', 1), (''i2c0_reset'', 1), (''i2c1_reset'', 1),
     (''i2c2_reset'', 1), (''uart1_reset'', 1), (''uart2_reset'', 1), (''uart3_reset'', 1), (''aes_reset'', 1),
     (''fpioa_reset'', 1), (''timer0_reset'', 1), (''timer1_reset'', 1), (''timer2_reset'', 1), (''wdt0_reset'', 1),
     (''wdt1_reset'', 1), (''sha_reset'', 1), (''reserved'', 2), (''rtc_reset'', 1), (''reserved0'', 2)]"

definition sysctl_clk_th0_t :: layout where
  "sysctl_clk_th0_t =
    [(''sram0_gclk_threshold'', 4), (''sram1_gclk_threshold'', 4), (''ai_gclk_threshold'', 4),
     (''dvp_gclk_threshold'', 4), (''rom_gclk_threshold'', 4), (''reserved'', 12)]"

definition sysctl_clk_th1_t :: layout where
  "sysctl_clk_th1_t =
    [(''spi0_clk_threshold'', 8), (''spi1_clk_threshold'', 8), (''spi2_clk_threshold'', 8), (''spi3_clk_threshold'', 8)]"

definition sysctl_clk_th2_t :: layout where
  "sysctl_clk_th2_t =
    [(''timer0_clk_threshold'', 8), (''timer1_clk_threshold'', 8), (''timer2_clk_threshold'', 8), (''reserved'', 8)]"

definition sysctl_clk_th3_t :: layout where
  "sysctl_clk_th3_t =
    [(''i2s0_clk_threshold'', 16), (''i2s1_clk_threshold'', 16)]"

definition sysctl_clk_th4_t :: layout where
  "sysctl_clk_th4_t =
    [(''i2s2_clk_threshold'', 16), (''i2s0_mclk_threshold'', 8), (''i2s1_mclk_threshold'', 8)]"

definition sysctl_clk_th5_t :: layout where
  "sysctl_clk_th5_t =
    [(''i2s2_mclk_threshold'', 8), (''i2c0_clk_threshold'', 8), (''i2c1_clk_threshold'', 8), (''i2c2_clk_threshold'', 8)]"

definition sysctl_clk_th6_t :: layout where
  "sysctl_clk_th6_t =
    [(''wdt0_clk_threshold'', 8), (''wdt1_clk_threshold'', 8), (''reserved0'', 8), (''reserved1'', 8)]"

definition sysctl_misc_t :: layout where
  "sysctl_misc_t =
    [(''debug_sel'', 6), (''reserved0'', 4), (''spi_dvp_data_enable'', 1), (''reserved1'', 21)]"

definition sysctl_peri_t :: layout where
  "sysctl_peri_t =
    [(''timer0_pause'', 1), (''timer1_pause'', 1), (''timer2_pause'', 1), (''timer3_pause'', 1), (''timer4_pause'', 1),
     (''timer5_pause'', 1), (''timer6_pause'', 1), (''timer7_pause'', 1), (''timer8_pause'', 1), (''timer9_pause'', 1),
     (''timer10_pause'', 1), (''timer11_pause'', 1), (''spi0_xip_en'', 1), (''spi1_xip_en'', 1), (''spi2_xip_en'', 1),
     (''spi3_xip_en'', 1), (''spi0_clk_bypass'', 1), (''spi1_clk_bypass'', 1), (''spi2_clk_bypass'', 1),
     (''i2s0_clk_bypass'', 1), (''i2s1_clk_bypass'', 1), (''i2s2_clk_bypass'', 1), (''jtag_clk_bypass'', 1),
     (''dvp_clk_bypass'', 1), (''debug_clk_bypass'', 1), (''reserved0'', 1), (''reserved1'', 6)]"

definition sysctl_spi_sleep_t :: layout where
  "sysctl_spi_sleep_t =
    [(''ssi0_sleep'', 1), (''ssi1_sleep'', 1), (''ssi2_sleep'', 1), (''ssi3_sleep'', 1), (''reserved'', 28)]"

definition sysctl_reset_status_t :: layout where
  "sysctl_reset_status_t =
    [(''reset_sts_clr'', 1), (''pin_reset_sts'', 1), (''wdt0_reset_sts'', 1), (''wdt1_reset_sts'', 1),
     (''soft_reset_sts'', 1), (''reserved'', 27)]"

definition sysctl_dma_sel0_t :: layout where
  "sysctl_dma_sel0_t =
    [(''dma_sel0'', 6), (''dma_sel1'', 6), (''dma_sel2'', 6), (''dma_sel3'', 6), (''dma_sel4'', 6), (''reserved'', 2)]"

definition sysctl_dma_sel1_t :: layout where
  "sysctl_dma_sel1_t =
    [(''dma_sel5'', 6), (''reserved'', 26)]"

definition sysctl_power_sel_t :: layout where
  "sysctl_power_sel_t =
    [(''power_mode_sel0'', 1), (''power_mode_sel1'', 1), (''power_mode_sel2'', 1), (''power_mode_sel3'', 1),
     (''power_mode_sel4'', 1), (''power_mode_sel5'', 1), (''power_mode_sel6'', 1), (''power_mode_sel7'', 1),
     (''reserved'', 24)]"


primrec sysctl_layout :: "sysctl_reg \<Rightarrow> layout" where
  "sysctl_layout REG_git_id = sysctl_git_id_t"
| "sysctl_layout REG_clk_freq = sysctl_clk_freq_t"
| "sysctl_layout REG_pll0 = sysctl_pll0_t"
| "sysctl_layout REG_pll1 = sysctl_pll1_t"
| "sysctl_layout REG_pll2 = sysctl_pll2_t"
| "sysctl_layout REG_resv5 = [(''resv'', 32)]"
| "sysctl_layout REG_pll_lock = sysctl_pll_lock_t"
| "sysctl_layout REG_rom_error = sysctl_rom_error_t"
| "sysctl_layout REG_clk_sel0 = sysctl_clk_sel0_t"
| "sysctl_layout REG_clk_sel1 = sysctl_clk_sel1_t"
| "sysctl_layout REG_clk_en_cent = sysctl_clk_en_cent_t"
| "sysctl_layout REG_clk_en_peri = sysctl_clk_en_peri_t"
| "sysctl_layout REG_soft_reset = sysctl_soft_reset_t"
| "sysctl_layout REG_peri_reset = sysctl_peri_reset_t"
| "sysctl_layout REG_clk_th0 = sysctl_clk_th0_t"
| "sysctl_layout REG_clk_th1 = sysctl_clk_th1_t"
| "sysctl_layout REG_clk_th2 = sysctl_clk_th2_t"
| "sysctl_layout REG_clk_th3 = sysctl_clk_th3_t"
| "sysctl_layout REG_clk_th4 = sysctl_clk_th4_t"
| "sysctl_layout REG_clk_th5 = sysctl_clk_th5_t"
| "sysctl_layout REG_clk_th6 = sysctl_clk_th6_t"
| "sysctl_layout REG_misc = sysctl_misc_t"
| "sysctl_layout REG_peri = sysctl_peri_t"
| "sysctl_layout REG_spi_sleep = sysctl_spi_sleep_t"
| "sysctl_layout REG_reset_status = sysctl_reset_status_t"
| "sysctl_layout REG_dma_sel0 = sysctl_dma_sel0_t"
| "sysctl_layout REG_dma_sel1 = sysctl_dma_sel1_t"
| "sysctl_layout REG_power_sel = sysctl_power_sel_t"
| "sysctl_layout REG_resv28 = [(''resv'', 32)]"
| "sysctl_layout REG_resv29 = [(''resv'', 32)]"
| "sysctl_layout REG_resv30 = [(''resv'', 32)]"
| "sysctl_layout REG_resv31 = [(''resv'', 32)]"

lemmas sysctl_layouts = sysctl_git_id_t_def sysctl_clk_freq_t_def sysctl_pll0_t_def sysctl_pll1_t_def sysctl_pll2_t_def sysctl_pll_lock_t_def sysctl_rom_error_t_def sysctl_clk_sel0_t_def sysctl_clk_sel1_t_def sysctl_clk_en_cent_t_def sysctl_clk_en_peri_t_def sysctl_soft_reset_t_def sysctl_peri_reset_t_def sysctl_clk_th0_t_def sysctl_clk_th1_t_def sysctl_clk_th2_t_def sysctl_clk_th3_t_def sysctl_clk_th4_t_def sysctl_clk_th5_t_def sysctl_clk_th6_t_def sysctl_misc_t_def sysctl_peri_t_def sysctl_spi_sleep_t_def sysctl_reset_status_t_def sysctl_dma_sel0_t_def sysctl_dma_sel1_t_def sysctl_power_sel_t_def


record ksysctl =
  sysctl :: "sysctl_reg \<Rightarrow> u32"

definition sc_get :: "sysctl_reg \<Rightarrow> string \<Rightarrow> 'a ksysctl_scheme \<Rightarrow> u32" where
  "sc_get r f s = bf_get (sysctl_layout r) f (sysctl s r)"

definition sc_set :: "sysctl_reg \<Rightarrow> string \<Rightarrow> u32 \<Rightarrow> 'a ksysctl_scheme \<Rightarrow> 'a ksysctl_scheme" where
  "sc_set r f v s = s\<lparr>sysctl := (sysctl s)(r := bf_set (sysctl_layout r) f v (sysctl s r))\<rparr>"

section \<open>Operations\<close>

definition SYSCTRL_CLOCK_FREQ_IN0 :: u32 where "SYSCTRL_CLOCK_FREQ_IN0 = 26000000"

definition get_source_pll2 :: "sysctl_clock_source_t list" where
  "get_source_pll2 = [SYSCTL_SOURCE_IN0, SYSCTL_SOURCE_PLL0, SYSCTL_SOURCE_PLL1]"

definition sysctl_get_git_id :: "'a ksysctl_scheme \<Rightarrow> u32" where
  "sysctl_get_git_id s = sc_get REG_git_id ''git_id'' s"

definition sysctl_get_freq :: "'a ksysctl_scheme \<Rightarrow> u32" where
  "sysctl_get_freq s = sc_get REG_clk_freq ''clk_freq'' s"

definition sysctl_clock_get_threshold :: "sysctl_threshold_t \<Rightarrow> 'a ksysctl_scheme \<Rightarrow> u32" where
  "sysctl_clock_get_threshold which s =
     (case which of
        SYSCTL_THRESHOLD_ACLK \<Rightarrow> sc_get REG_clk_sel0 ''aclk_divider_sel'' s
      | SYSCTL_THRESHOLD_APB0 \<Rightarrow> sc_get REG_clk_sel0 ''apb0_clk_sel'' s
      | SYSCTL_THRESHOLD_APB1 \<Rightarrow> sc_get REG_clk_sel0 ''apb1_clk_sel'' s
      | SYSCTL_THRESHOLD_APB2 \<Rightarrow> sc_get REG_clk_sel0 ''apb2_clk_sel'' s
      | SYSCTL_THRESHOLD_SRAM0 \<Rightarrow> sc_get REG_clk_th0 ''sram0_gclk_threshold'' s
      | SYSCTL_THRESHOLD_SRAM1 \<Rightarrow> sc_get REG_clk_th0 ''sram1_gclk_threshold'' s
      | SYSCTL_THRESHOLD_AI \<Rightarrow> sc_get REG_clk_th0 ''ai_gclk_threshold'' s
      | SYSCTL_THRESHOLD_DVP \<Rightarrow> sc_get REG_clk_th0 ''dvp_gclk_threshold'' s
      | SYSCTL_THRESHOLD_ROM \<Rightarrow> sc_get REG_clk_th0 ''rom_gclk_threshold'' s
      | SYSCTL_THRESHOLD_SPI0 \<Rightarrow> sc_get REG_clk_th1 ''spi0_clk_threshold'' s
      | SYSCTL_THRESHOLD_SPI1 \<Rightarrow> sc_get REG_clk_th1 ''spi1_clk_threshold'' s
      | SYSCTL_THRESHOLD_SPI2 \<Rightarrow> sc_get REG_clk_th1 ''spi2_clk_threshold'' s
      | SYSCTL_THRESHOLD_SPI3 \<Rightarrow> sc_get REG_clk_th1 ''spi3_clk_threshold'' s
      | SYSCTL_THRESHOLD_TIMER0 \<Rightarrow> sc_get REG_clk_th2 ''timer0_clk_threshold'' s
      | SYSCTL_THRESHOLD_TIMER1 \<Rightarrow> sc_get REG_clk_th2 ''timer1_clk_threshold'' s
      | SYSCTL_THRESHOLD_TIMER2 \<Rightarrow> sc_get REG_clk_th2 ''timer2_clk_threshold'' s
      | SYSCTL_THRESHOLD_I2S0 \<Rightarrow> sc_get REG_clk_th3 ''i2s0_clk_threshold'' s
      | SYSCTL_THRESHOLD_I2S1 \<Rightarrow> sc_get REG_clk_th3 ''i2s1_clk_threshold'' s
      | SYSCTL_THRESHOLD_I2S2 \<Rightarrow> sc_get REG_clk_th4 ''i2s2_clk_threshold'' s
      | SYSCTL_THRESHOLD_I2S0_M \<Rightarrow> sc_get REG_clk_th4 ''i2s0_mclk_threshold'' s
      | SYSCTL_THRESHOLD_I2S1_M \<Rightarrow> sc_get REG_clk_th4 ''i2s1_mclk_threshold'' s
      | SYSCTL_THRESHOLD_I2S2_M \<Rightarrow> sc_get REG_clk_th5 ''i2s2_mclk_threshold'' s
      | SYSCTL_THRESHOLD_I2C0 \<Rightarrow> sc_get REG_clk_th5 ''i2c0_clk_threshold'' s
      | SYSCTL_THRESHOLD_I2C1 \<Rightarrow> sc_get REG_clk_th5 ''i2c1_clk_threshold'' s
      | SYSCTL_THRESHOLD_I2C2 \<Rightarrow> sc_get REG_clk_th5 ''i2c2_clk_threshold'' s
      | SYSCTL_THRESHOLD_WDT0 \<Rightarrow> sc_get REG_clk_th6 ''wdt0_clk_threshold'' s
      | SYSCTL_THRESHOLD_WDT1 \<Rightarrow> sc_get REG_clk_th6 ''wdt1_clk_threshold'' s
      | SYSCTL_THRESHOLD_MAX \<Rightarrow> 0)"

definition sysctl_reset_ctl :: "sysctl_reset_t \<Rightarrow> u32 \<Rightarrow> 'a ksysctl_scheme \<Rightarrow> 'a ksysctl_scheme" where
  "sysctl_reset_ctl reset rst_value s =
     (case reset of
        SYSCTL_RESET_SOC \<Rightarrow> sc_set REG_soft_reset ''soft_reset'' rst_value s
      | SYSCTL_RESET_ROM \<Rightarrow> sc_set REG_peri_reset ''rom_reset'' rst_value s
      | SYSCTL_RESET_DMA \<Rightarrow> sc_set REG_peri_reset ''dma_reset'' rst_value s
      | SYSCTL_RESET_AI \<Rightarrow> sc_set REG_peri_reset ''ai_reset'' rst_value s
      | SYSCTL_RESET_DVP \<Rightarrow> sc_set REG_peri_reset ''dvp_reset'' rst_value s
      | SYSCTL_RESET_FFT \<Rightarrow> sc_set REG_peri_reset ''fft_reset'' rst_value s
      | SYSCTL_RESET_GPIO \<Rightarrow> sc_set REG_peri_reset ''gpio_reset'' rst_value s
      | SYSCTL_RESET_SPI0 \<Rightarrow> sc_set REG_peri_reset ''spi0_reset'' rst_value s
      | SYSCTL_RESET_SPI1 \<Rightarrow> sc_set REG_peri_reset ''spi1_reset'' rst_value s
      | SYSCTL_RESET_SPI2 \<Rightarrow> sc_set REG_peri_reset ''spi2_reset'' rst_value s
      | SYSCTL_RESET_SPI3 \<Rightarrow> sc_set REG_peri_reset ''spi3_reset'' rst_value s
      | SYSCTL_RESET_I2S0 \<Rightarrow> sc_set REG_peri_reset ''i2s0_reset'' rst_value s
      | SYSCTL_RESET_I2S1 \<Rightarrow> sc_set REG_peri_reset ''i2s1_reset'' rst_value s
      | SYSCTL_RESET_I2S2 \<Rightarrow> sc_set REG_peri_reset ''i2s2_reset'' rst_value s
      | SYSCTL_RESET_I2C0 \<Rightarrow> sc_set REG_peri_reset ''i2c0_reset'' rst_value s
      | SYSCTL_RESET_I2C1 \<Rightarrow> sc_set REG_peri_reset ''i2c1_reset'' rst_value s
      | SYSCTL_RESET_I2C2 \<Rightarrow> sc_set REG_peri_reset ''i2c2_reset'' rst_value s
      | SYSCTL_RESET_UART1 \<Rightarrow> sc_set REG_peri_reset ''uart1_reset'' rst_value s
      | SYSCTL_RESET_UART2 \<Rightarrow> sc_set REG_peri_reset ''uart2_reset'' rst_value s
      | SYSCTL_RESET_UART3 \<Rightarrow> sc_set REG_peri_reset ''uart3_reset'' rst_value s
      | SYSCTL_RESET_AES \<Rightarrow> sc_set REG_peri_reset ''aes_reset'' rst_value s
      | SYSCTL_RESET_FPIOA \<Rightarrow> sc_set REG_peri_reset ''fpioa_reset'' rst_value s
      | SYSCTL_RESET_TIMER0 \<Rightarrow> sc_set REG_peri_reset ''timer0_reset'' rst_value s
      | SYSCTL_RESET_TIMER1 \<Rightarrow> sc_set REG_peri_reset ''timer1_reset'' rst_value s
      | SYSCTL_RESET_TIMER2 \<Rightarrow> sc_set REG_peri_reset ''timer2_reset'' rst_value s
      | SYSCTL_RESET_WDT0 \<Rightarrow> sc_set REG_peri_reset ''wdt0_reset'' rst_value s
      | SYSCTL_RESET_WDT1 \<Rightarrow> sc_set REG_peri_reset ''wdt1_reset'' rst_value s
      | SYSCTL_RESET_SHA \<Rightarrow> sc_set REG_peri_reset ''sha_reset'' rst_value s
      | SYSCTL_RESET_RTC \<Rightarrow> sc_set REG_peri_reset ''rtc_reset'' rst_value s
      | SYSCTL_RESET_MAX \<Rightarrow> s)"

definition sysctl_clock_bus_en :: "sysctl_clock_t \<Rightarrow> u32 \<Rightarrow> 'a ksysctl_scheme \<Rightarrow> 'a ksysctl_scheme" where
  "sysctl_clock_bus_en clock en s =
     (if en \<noteq> 0 then case clock of
        SYSCTL_CLOCK_GPIO \<Rightarrow> sc_set REG_clk_en_cent ''apb0_clk_en'' en s
      | SYSCTL_CLOCK_SPI2 \<Rightarrow> sc_set REG_clk_en_cent ''apb0_clk_en'' en s
      | SYSCTL_CLOCK_I2S0 \<Rightarrow> sc_set REG_clk_en_cent ''apb0_clk_en'' en s
      | SYSCTL_CLOCK_I2S1 \<Rightarrow> sc_set REG_clk_en_cent ''apb0_clk_en'' en s
      | SYSCTL_CLOCK_I2S2 \<Rightarrow> sc_set REG_clk_en_cent ''apb0_clk_en'' en s
      | SYSCTL_CLOCK_I2C0 \<Rightarrow> sc_set REG_clk_en_cent ''apb0_clk_en'' en s
      | SYSCTL_CLOCK_I2C1 \<Rightarrow> sc_set REG_clk_en_cent ''apb0_clk_en'' en s
      | SYSCTL_CLOCK_I2C2 \<Rightarrow> sc_set REG_clk_en_cent ''apb0_clk_en'' en s
      | SYSCTL_CLOCK_UART1 \<Rightarrow> sc_set REG_clk_en_cent ''apb0_clk_en'' en s
      | SYSCTL_CLOCK_UART2 \<Rightarrow> sc_set REG_clk_en_cent ''apb0_clk_en'' en s
      | SYSCTL_CLOCK_UART3 \<Rightarrow> sc_set REG_clk_en_cent ''apb0_clk_en'' en s
      | SYSCTL_CLOCK_FPIOA \<Rightarrow> sc_set REG_clk_en_cent ''apb0_clk_en'' en s
      | SYSCTL_CLOCK_TIMER0 \<Rightarrow> sc_set REG_clk_en_cent ''apb0_clk_en'' en s
      | SYSCTL_CLOCK_TIMER1 \<Rightarrow> sc_set REG_clk_en_cent ''apb0_clk_en'' en s
      | SYSCTL_CLOCK_TIMER2 \<Rightarrow> sc_set REG_clk_en_cent ''apb0_clk_en'' en s
      | SYSCTL_CLOCK_SHA \<Rightarrow> sc_set REG_clk_en_cent ''apb0_clk_en'' en s
      | SYSCTL_CLOCK_AES \<Rightarrow> sc_set REG_clk_en_cent ''apb1_clk_en'' en s
      | SYSCTL_CLOCK_WDT0 \<Rightarrow> sc_set REG_clk_en_cent ''apb1_clk_en'' en s
      | SYSCTL_CLOCK_WDT1 \<Rightarrow> sc_set REG_clk_en_cent ''apb1_clk_en'' en s
      | SYSCTL_CLOCK_OTP \<Rightarrow> sc_set REG_clk_en_cent ''apb1_clk_en'' en s
      | SYSCTL_CLOCK_RTC \<Rightarrow> sc_set REG_clk_en_cent ''apb1_clk_en'' en s
      | SYSCTL_CLOCK_SPI0 \<Rightarrow> sc_set REG_clk_en_cent ''apb2_clk_en'' en s
      | SYSCTL_CLOCK_SPI1 \<Rightarrow> sc_set REG_clk_en_cent ''apb2_clk_en'' en s
      | _ \<Rightarrow> s
      else s)"

definition sysctl_clock_device_en :: "sysctl_clock_t \<Rightarrow> u32 \<Rightarrow> 'a ksysctl_scheme \<Rightarrow> 'a ksysctl_scheme" where
  "sysctl_clock_device_en clock en s =
     (case clock of
        SYSCTL_CLOCK_PLL0 \<Rightarrow> sc_set REG_pll0 ''pll_out_en0'' en s
      | SYSCTL_CLOCK_PLL1 \<Rightarrow> sc_set REG_pll1 ''pll_out_en1'' en s
      | SYSCTL_CLOCK_PLL2 \<Rightarrow> sc_set REG_pll2 ''pll_out_en2'' en s
      | SYSCTL_CLOCK_CPU \<Rightarrow> sc_set REG_clk_en_cent ''cpu_clk_en'' en s
      | SYSCTL_CLOCK_SRAM0 \<Rightarrow> sc_set REG_clk_en_cent ''sram0_clk_en'' en s
      | SYSCTL_CLOCK_SRAM1 \<Rightarrow> sc_set REG_clk_en_cent ''sram1_clk_en'' en s
      | SYSCTL_CLOCK_APB0 \<Rightarrow> sc_set REG_clk_en_cent ''apb0_clk_en'' en s
      | SYSCTL_CLOCK_APB1 \<Rightarrow> sc_set REG_clk_en_cent ''apb1_clk_en'' en s
      | SYSCTL_CLOCK_APB2 \<Rightarrow> sc_set REG_clk_en_cent ''apb2_clk_en'' en s
      | SYSCTL_CLOCK_ROM \<Rightarrow> sc_set REG_clk_en_peri ''rom_clk_en'' en s
      | SYSCTL_CLOCK_DMA \<Rightarrow> sc_set REG_clk_en_peri ''dma_clk_en'' en s
      | SYSCTL_CLOCK_AI \<Rightarrow> sc_set REG_clk_en_peri ''ai_clk_en'' en s
      | SYSCTL_CLOCK_DVP \<Rightarrow> sc_set REG_clk_en_peri ''dvp_clk_en'' en s
      | SYSCTL_CLOCK_FFT \<Rightarrow> sc_set REG_clk_en_peri ''fft_clk_en'' en s
      | SYSCTL_CLOCK_SPI3 \<Rightarrow> sc_set REG_clk_en_peri ''spi3_clk_en'' en s
      | SYSCTL_CLOCK_GPIO \<Rightarrow> sc_set REG_clk_en_peri ''gpio_clk_en'' en s
      | SYSCTL_CLOCK_SPI2 \<Rightarrow> sc_set REG_clk_en_peri ''spi2_clk_en'' en s
      | SYSCTL_CLOCK_I2S0 \<Rightarrow> sc_set REG_clk_en_peri ''i2s0_clk_en'' en s
      | SYSCTL_CLOCK_I2S1 \<Rightarrow> sc_set REG_clk_en_peri ''i2s1_clk_en'' en s
      | SYSCTL_CLOCK_I2S2 \<Rightarrow> sc_set REG_clk_en_peri ''i2s2_clk_en'' en s
      | SYSCTL_CLOCK_I2C0 \<Rightarrow> sc_set REG_clk_en_peri ''i2c0_clk_en'' en s
      | SYSCTL_CLOCK_I2C1 \<Rightarrow> sc_set REG_clk_en_peri ''i2c1_clk_en'' en s
      | SYSCTL_CLOCK_I2C2 \<Rightarrow> sc_set REG_clk_en_peri ''i2c2_clk_en'' en s
      | SYSCTL_CLOCK_UART1 \<Rightarrow> sc_set REG_clk_en_peri ''uart1_clk_en'' en s
      | SYSCTL_CLOCK_UART2 \<Rightarrow> sc_set REG_clk_en_peri ''uart2_clk_en'' en s
      | SYSCTL_CLOCK_UART3 \<Rightarrow> sc_set REG_clk_en_peri ''uart3_clk_en'' en s
      | SYSCTL_CLOCK_FPIOA \<Rightarrow> sc_set REG_clk_en_peri ''fpioa_clk_en'' en s
      | SYSCTL_CLOCK_TIMER0 \<Rightarrow> sc_set REG_clk_en_peri ''timer0_clk_en'' en s
      | SYSCTL_CLOCK_TIMER1 \<Rightarrow> sc_set REG_clk_en_peri ''timer1_clk_en'' en s
      | SYSCTL_CLOCK_TIMER2 \<Rightarrow> sc_set REG_clk_en_peri ''timer2_clk_en'' en s
      | SYSCTL_CLOCK_SHA \<Rightarrow> sc_set REG_clk_en_peri ''sha_clk_en'' en s
      | SYSCTL_CLOCK_AES \<Rightarrow> sc_set REG_clk_en_peri ''aes_clk_en'' en s
      | SYSCTL_CLOCK_WDT0 \<Rightarrow> sc_set REG_clk_en_peri ''wdt0_clk_en'' en s
      | SYSCTL_CLOCK_WDT1 \<Rightarrow> sc_set REG_clk_en_peri ''wdt1_clk_en'' en s
      | SYSCTL_CLOCK_OTP \<Rightarrow> sc_set REG_clk_en_peri ''otp_clk_en'' en s
      | SYSCTL_CLOCK_RTC \<Rightarrow> sc_set REG_clk_en_peri ''rtc_clk_en'' en s
      | SYSCTL_CLOCK_SPI0 \<Rightarrow> sc_set REG_clk_en_peri ''spi0_clk_en'' en s
      | SYSCTL_CLOCK_SPI1 \<Rightarrow> sc_set REG_clk_en_peri ''spi1_clk_en'' en s
      | _ \<Rightarrow> s)"

definition sysctl_clock_enable :: "sysctl_clock_t \<Rightarrow> 'a ksysctl_scheme \<Rightarrow> int \<times> 'a ksysctl_scheme" where
  "sysctl_clock_enable clock s =
     (if clock = SYSCTL_CLOCK_MAX then (- 1, s)
      else (0, sysctl_clock_device_en clock 1 (sysctl_clock_bus_en clock 1 s)))"

text \<open>Both registers are read first and written back together.\<close>

definition sysctl_dma_select :: "sysctl_dma_channel_t \<Rightarrow> u32 \<Rightarrow> 'a ksysctl_scheme \<Rightarrow> int \<times> 'a ksysctl_scheme" where
  "sysctl_dma_select channel select s =
     (let dma_sel0 = sysctl s REG_dma_sel0; dma_sel1 = sysctl s REG_dma_sel1;
          write = (\<lambda>a b. (0, s\<lparr>sysctl := (sysctl s)(REG_dma_sel0 := a, REG_dma_sel1 := b)\<rparr>)) in
      case channel of
        SYSCTL_DMA_CHANNEL_0 \<Rightarrow> write (bf_set sysctl_dma_sel0_t ''dma_sel0'' select dma_sel0) dma_sel1
      | SYSCTL_DMA_CHANNEL_1 \<Rightarrow> write (bf_set sysctl_dma_sel0_t ''dma_sel1'' select dma_sel0) dma_sel1
      | SYSCTL_DMA_CHANNEL_2 \<Rightarrow> write (bf_set sysctl_dma_sel0_t ''dma_sel2'' select dma_sel0) dma_sel1
      | SYSCTL_DMA_CHANNEL_3 \<Rightarrow> write (bf_set sysctl_dma_sel0_t ''dma_sel3'' select dma_sel0) dma_sel1
      | SYSCTL_DMA_CHANNEL_4 \<Rightarrow> write (bf_set sysctl_dma_sel0_t ''dma_sel4'' select dma_sel0) dma_sel1
      | SYSCTL_DMA_CHANNEL_5 \<Rightarrow> write dma_sel0 (bf_set sysctl_dma_sel1_t ''dma_sel5'' select dma_sel1)
      | SYSCTL_DMA_CHANNEL_MAX \<Rightarrow> (- 1, s))"

definition sysctl_clock_get_clock_select :: "sysctl_clock_select_t \<Rightarrow> 'a ksysctl_scheme \<Rightarrow> u32" where
  "sysctl_clock_get_clock_select which s =
     (case which of
        SYSCTL_CLOCK_SELECT_PLL0_BYPASS \<Rightarrow> sc_get REG_pll0 ''pll_bypass0'' s
      | SYSCTL_CLOCK_SELECT_PLL1_BYPASS \<Rightarrow> sc_get REG_pll1 ''pll_bypass1'' s
      | SYSCTL_CLOCK_SELECT_PLL2_BYPASS \<Rightarrow> sc_get REG_pll2 ''pll_bypass2'' s
      | SYSCTL_CLOCK_SELECT_PLL2 \<Rightarrow> sc_get REG_pll2 ''pll_ckin_sel2'' s
      | SYSCTL_CLOCK_SELECT_ACLK \<Rightarrow> sc_get REG_clk_sel0 ''aclk_sel'' s
      | SYSCTL_CLOCK_SELECT_SPI3 \<Rightarrow> sc_get REG_clk_sel0 ''spi3_clk_sel'' s
      | SYSCTL_CLOCK_SELECT_TIMER0 \<Rightarrow> sc_get REG_clk_sel0 ''timer0_clk_sel'' s
      | SYSCTL_CLOCK_SELECT_TIMER1 \<Rightarrow> sc_get REG_clk_sel0 ''timer1_clk_sel'' s
      | SYSCTL_CLOCK_SELECT_TIMER2 \<Rightarrow> sc_get REG_clk_sel0 ''timer2_clk_sel'' s
      | SYSCTL_CLOCK_SELECT_SPI3_SAMPLE \<Rightarrow> sc_get REG_clk_sel1 ''spi3_sample_clk_sel'' s
      | SYSCTL_CLOCK_SELECT_MAX \<Rightarrow> 0)"
section \<open>Frequencies\<close>

text \<open>
  The three functions that compute frequencies call each other. \<open>clock_mux\<close> is the inner \<^verbatim>\<open>switch\<close> over a clock selector,
  whose default leaves \<^verbatim>\<open>source\<close> at 0, and \<open>aclk_div\<close> the 64-bit division by \<^verbatim>\<open>2ULL << threshold\<close>, cut to 32 bits.
\<close>

definition clock_mux :: "u32 \<Rightarrow> u32 \<Rightarrow> u32 \<Rightarrow> u32" where
  "clock_mux sel in0 pll0 = (if sel = 0 then in0 else if sel = 1 then pll0 else 0)"

definition aclk_div :: "u32 \<Rightarrow> u32 \<Rightarrow> u32" where
  "aclk_div source threshold = ucast (ucast source div push_bit (unat threshold) (2 :: u64))"

definition pll_out :: "u32 \<Rightarrow> u32 \<Rightarrow> u32 \<Rightarrow> u32 \<Rightarrow> u32" where
  "pll_out freq_in nr nf od = freq_in div nr * nf div od"

text \<open>Where a frequency comes from: the order in which the three functions call each other.\<close>

primrec source_rank :: "sysctl_clock_source_t \<Rightarrow> nat" where
  "source_rank SYSCTL_SOURCE_IN0 = 1" | "source_rank SYSCTL_SOURCE_PLL0 = 3" | "source_rank SYSCTL_SOURCE_PLL1 = 3"
| "source_rank SYSCTL_SOURCE_PLL2 = 6" | "source_rank SYSCTL_SOURCE_ACLK = 6" | "source_rank SYSCTL_SOURCE_MAX = 1"

primrec pll_rank :: "sysctl_pll_t \<Rightarrow> nat" where
  "pll_rank SYSCTL_PLL0 = 2" | "pll_rank SYSCTL_PLL1 = 2" | "pll_rank SYSCTL_PLL2 = 5" | "pll_rank SYSCTL_PLL_MAX = 1"

definition clock_rank :: "sysctl_clock_t \<Rightarrow> nat" where
  "clock_rank c =
     (case c of SYSCTL_CLOCK_CPU \<Rightarrow> 4 | SYSCTL_CLOCK_DMA \<Rightarrow> 4 | SYSCTL_CLOCK_FFT \<Rightarrow> 4 | SYSCTL_CLOCK_ACLK \<Rightarrow> 4
      | SYSCTL_CLOCK_HCLK \<Rightarrow> 4 | SYSCTL_CLOCK_APB0 \<Rightarrow> 7 | SYSCTL_CLOCK_APB1 \<Rightarrow> 7 | _ \<Rightarrow> 8)"

lemma get_source_pll2_rank: "i < length get_source_pll2 \<Longrightarrow> source_rank (get_source_pll2 ! i) < 5"
  unfolding get_source_pll2_def by (cases i; cases "i - 1") auto

function sysctl_clock_source_get_freq :: "sysctl_clock_source_t \<Rightarrow> 'a ksysctl_scheme \<Rightarrow> u32"
  and sysctl_pll_get_freq :: "sysctl_pll_t \<Rightarrow> 'a ksysctl_scheme \<Rightarrow> u32"
  and sysctl_clock_get_freq :: "sysctl_clock_t \<Rightarrow> 'a ksysctl_scheme \<Rightarrow> u32" where
  "sysctl_clock_source_get_freq input s =
     (case input of
        SYSCTL_SOURCE_IN0 \<Rightarrow> SYSCTRL_CLOCK_FREQ_IN0
      | SYSCTL_SOURCE_PLL0 \<Rightarrow> sysctl_pll_get_freq SYSCTL_PLL0 s
      | SYSCTL_SOURCE_PLL1 \<Rightarrow> sysctl_pll_get_freq SYSCTL_PLL1 s
      | SYSCTL_SOURCE_PLL2 \<Rightarrow> sysctl_pll_get_freq SYSCTL_PLL2 s
      | SYSCTL_SOURCE_ACLK \<Rightarrow> sysctl_clock_get_freq SYSCTL_CLOCK_ACLK s
      | SYSCTL_SOURCE_MAX \<Rightarrow> 0)"
| "sysctl_pll_get_freq pll s =
     (case pll of
        SYSCTL_PLL0 \<Rightarrow> pll_out (sysctl_clock_source_get_freq SYSCTL_SOURCE_IN0 s) (sc_get REG_pll0 ''clkr0'' s + 1)
          (sc_get REG_pll0 ''clkf0'' s + 1) (sc_get REG_pll0 ''clkod0'' s + 1)
      | SYSCTL_PLL1 \<Rightarrow> pll_out (sysctl_clock_source_get_freq SYSCTL_SOURCE_IN0 s) (sc_get REG_pll1 ''clkr1'' s + 1)
          (sc_get REG_pll1 ''clkf1'' s + 1) (sc_get REG_pll1 ''clkod1'' s + 1)
      | SYSCTL_PLL2 \<Rightarrow>
          (if unat (sc_get REG_pll2 ''pll_ckin_sel2'' s) < length get_source_pll2
           then pll_out (sysctl_clock_source_get_freq (get_source_pll2 ! unat (sc_get REG_pll2 ''pll_ckin_sel2'' s)) s)
             (sc_get REG_pll2 ''clkr2'' s + 1) (sc_get REG_pll2 ''clkf2'' s + 1) (sc_get REG_pll2 ''clkod2'' s + 1)
           else 0)
      | SYSCTL_PLL_MAX \<Rightarrow> 0)"
| "sysctl_clock_get_freq clock s =
     (case clock of
        SYSCTL_CLOCK_IN0 \<Rightarrow> sysctl_clock_source_get_freq SYSCTL_SOURCE_IN0 s
      | SYSCTL_CLOCK_PLL0 \<Rightarrow> sysctl_clock_source_get_freq SYSCTL_SOURCE_PLL0 s
      | SYSCTL_CLOCK_PLL1 \<Rightarrow> sysctl_clock_source_get_freq SYSCTL_SOURCE_PLL1 s
      | SYSCTL_CLOCK_PLL2 \<Rightarrow> sysctl_clock_source_get_freq SYSCTL_SOURCE_PLL2 s
      | SYSCTL_CLOCK_CPU \<Rightarrow> clock_mux (sysctl_clock_get_clock_select SYSCTL_CLOCK_SELECT_ACLK s) (sysctl_clock_source_get_freq SYSCTL_SOURCE_IN0 s)
          (aclk_div (sysctl_clock_source_get_freq SYSCTL_SOURCE_PLL0 s) (sysctl_clock_get_threshold SYSCTL_THRESHOLD_ACLK s))
      | SYSCTL_CLOCK_DMA \<Rightarrow> clock_mux (sysctl_clock_get_clock_select SYSCTL_CLOCK_SELECT_ACLK s) (sysctl_clock_source_get_freq SYSCTL_SOURCE_IN0 s)
          (aclk_div (sysctl_clock_source_get_freq SYSCTL_SOURCE_PLL0 s) (sysctl_clock_get_threshold SYSCTL_THRESHOLD_ACLK s))
      | SYSCTL_CLOCK_FFT \<Rightarrow> clock_mux (sysctl_clock_get_clock_select SYSCTL_CLOCK_SELECT_ACLK s) (sysctl_clock_source_get_freq SYSCTL_SOURCE_IN0 s)
          (aclk_div (sysctl_clock_source_get_freq SYSCTL_SOURCE_PLL0 s) (sysctl_clock_get_threshold SYSCTL_THRESHOLD_ACLK s))
      | SYSCTL_CLOCK_ACLK \<Rightarrow> clock_mux (sysctl_clock_get_clock_select SYSCTL_CLOCK_SELECT_ACLK s) (sysctl_clock_source_get_freq SYSCTL_SOURCE_IN0 s)
          (aclk_div (sysctl_clock_source_get_freq SYSCTL_SOURCE_PLL0 s) (sysctl_clock_get_threshold SYSCTL_THRESHOLD_ACLK s))
      | SYSCTL_CLOCK_HCLK \<Rightarrow> clock_mux (sysctl_clock_get_clock_select SYSCTL_CLOCK_SELECT_ACLK s) (sysctl_clock_source_get_freq SYSCTL_SOURCE_IN0 s)
          (aclk_div (sysctl_clock_source_get_freq SYSCTL_SOURCE_PLL0 s) (sysctl_clock_get_threshold SYSCTL_THRESHOLD_ACLK s))
      | SYSCTL_CLOCK_SRAM0 \<Rightarrow> sysctl_clock_source_get_freq SYSCTL_SOURCE_ACLK s div (sysctl_clock_get_threshold SYSCTL_THRESHOLD_SRAM0 s + 1)
      | SYSCTL_CLOCK_SRAM1 \<Rightarrow> sysctl_clock_source_get_freq SYSCTL_SOURCE_ACLK s div (sysctl_clock_get_threshold SYSCTL_THRESHOLD_SRAM1 s + 1)
      | SYSCTL_CLOCK_ROM \<Rightarrow> sysctl_clock_source_get_freq SYSCTL_SOURCE_ACLK s div (sysctl_clock_get_threshold SYSCTL_THRESHOLD_ROM s + 1)
      | SYSCTL_CLOCK_DVP \<Rightarrow> sysctl_clock_source_get_freq SYSCTL_SOURCE_ACLK s div (sysctl_clock_get_threshold SYSCTL_THRESHOLD_DVP s + 1)
      | SYSCTL_CLOCK_APB0 \<Rightarrow> sysctl_clock_source_get_freq SYSCTL_SOURCE_ACLK s div (sysctl_clock_get_threshold SYSCTL_THRESHOLD_APB0 s + 1)
      | SYSCTL_CLOCK_APB1 \<Rightarrow> sysctl_clock_source_get_freq SYSCTL_SOURCE_ACLK s div (sysctl_clock_get_threshold SYSCTL_THRESHOLD_APB1 s + 1)
      | SYSCTL_CLOCK_APB2 \<Rightarrow> sysctl_clock_source_get_freq SYSCTL_SOURCE_ACLK s div (sysctl_clock_get_threshold SYSCTL_THRESHOLD_APB2 s + 1)
      | SYSCTL_CLOCK_AI \<Rightarrow> sysctl_clock_source_get_freq SYSCTL_SOURCE_PLL1 s div (sysctl_clock_get_threshold SYSCTL_THRESHOLD_AI s + 1)
      | SYSCTL_CLOCK_I2S0 \<Rightarrow> sysctl_clock_source_get_freq SYSCTL_SOURCE_PLL2 s div ((sysctl_clock_get_threshold SYSCTL_THRESHOLD_I2S0 s + 1) * 2)
      | SYSCTL_CLOCK_I2S1 \<Rightarrow> sysctl_clock_source_get_freq SYSCTL_SOURCE_PLL2 s div ((sysctl_clock_get_threshold SYSCTL_THRESHOLD_I2S1 s + 1) * 2)
      | SYSCTL_CLOCK_I2S2 \<Rightarrow> sysctl_clock_source_get_freq SYSCTL_SOURCE_PLL2 s div ((sysctl_clock_get_threshold SYSCTL_THRESHOLD_I2S2 s + 1) * 2)
      | SYSCTL_CLOCK_WDT0 \<Rightarrow> sysctl_clock_source_get_freq SYSCTL_SOURCE_IN0 s div ((sysctl_clock_get_threshold SYSCTL_THRESHOLD_WDT0 s + 1) * 2)
      | SYSCTL_CLOCK_WDT1 \<Rightarrow> sysctl_clock_source_get_freq SYSCTL_SOURCE_IN0 s div ((sysctl_clock_get_threshold SYSCTL_THRESHOLD_WDT1 s + 1) * 2)
      | SYSCTL_CLOCK_SPI0 \<Rightarrow> sysctl_clock_source_get_freq SYSCTL_SOURCE_PLL0 s div ((sysctl_clock_get_threshold SYSCTL_THRESHOLD_SPI0 s + 1) * 2)
      | SYSCTL_CLOCK_SPI1 \<Rightarrow> sysctl_clock_source_get_freq SYSCTL_SOURCE_PLL0 s div ((sysctl_clock_get_threshold SYSCTL_THRESHOLD_SPI1 s + 1) * 2)
      | SYSCTL_CLOCK_SPI2 \<Rightarrow> sysctl_clock_source_get_freq SYSCTL_SOURCE_PLL0 s div ((sysctl_clock_get_threshold SYSCTL_THRESHOLD_SPI2 s + 1) * 2)
      | SYSCTL_CLOCK_I2C0 \<Rightarrow> sysctl_clock_source_get_freq SYSCTL_SOURCE_PLL0 s div ((sysctl_clock_get_threshold SYSCTL_THRESHOLD_I2C0 s + 1) * 2)
      | SYSCTL_CLOCK_I2C1 \<Rightarrow> sysctl_clock_source_get_freq SYSCTL_SOURCE_PLL0 s div ((sysctl_clock_get_threshold SYSCTL_THRESHOLD_I2C1 s + 1) * 2)
      | SYSCTL_CLOCK_I2C2 \<Rightarrow> sysctl_clock_source_get_freq SYSCTL_SOURCE_PLL0 s div ((sysctl_clock_get_threshold SYSCTL_THRESHOLD_I2C2 s + 1) * 2)
      | SYSCTL_CLOCK_SPI3 \<Rightarrow> clock_mux (sysctl_clock_get_clock_select SYSCTL_CLOCK_SELECT_SPI3 s) (sysctl_clock_source_get_freq SYSCTL_SOURCE_IN0 s)
          (sysctl_clock_source_get_freq SYSCTL_SOURCE_PLL0 s) div ((sysctl_clock_get_threshold SYSCTL_THRESHOLD_SPI3 s + 1) * 2)
      | SYSCTL_CLOCK_TIMER0 \<Rightarrow> clock_mux (sysctl_clock_get_clock_select SYSCTL_CLOCK_SELECT_TIMER0 s) (sysctl_clock_source_get_freq SYSCTL_SOURCE_IN0 s)
          (sysctl_clock_source_get_freq SYSCTL_SOURCE_PLL0 s) div ((sysctl_clock_get_threshold SYSCTL_THRESHOLD_TIMER0 s + 1) * 2)
      | SYSCTL_CLOCK_TIMER1 \<Rightarrow> clock_mux (sysctl_clock_get_clock_select SYSCTL_CLOCK_SELECT_TIMER1 s) (sysctl_clock_source_get_freq SYSCTL_SOURCE_IN0 s)
          (sysctl_clock_source_get_freq SYSCTL_SOURCE_PLL0 s) div ((sysctl_clock_get_threshold SYSCTL_THRESHOLD_TIMER1 s + 1) * 2)
      | SYSCTL_CLOCK_TIMER2 \<Rightarrow> clock_mux (sysctl_clock_get_clock_select SYSCTL_CLOCK_SELECT_TIMER2 s) (sysctl_clock_source_get_freq SYSCTL_SOURCE_IN0 s)
          (sysctl_clock_source_get_freq SYSCTL_SOURCE_PLL0 s) div ((sysctl_clock_get_threshold SYSCTL_THRESHOLD_TIMER2 s + 1) * 2)
      | SYSCTL_CLOCK_GPIO \<Rightarrow> sysctl_clock_get_freq SYSCTL_CLOCK_APB0 s
      | SYSCTL_CLOCK_UART1 \<Rightarrow> sysctl_clock_get_freq SYSCTL_CLOCK_APB0 s
      | SYSCTL_CLOCK_UART2 \<Rightarrow> sysctl_clock_get_freq SYSCTL_CLOCK_APB0 s
      | SYSCTL_CLOCK_UART3 \<Rightarrow> sysctl_clock_get_freq SYSCTL_CLOCK_APB0 s
      | SYSCTL_CLOCK_FPIOA \<Rightarrow> sysctl_clock_get_freq SYSCTL_CLOCK_APB0 s
      | SYSCTL_CLOCK_SHA \<Rightarrow> sysctl_clock_get_freq SYSCTL_CLOCK_APB0 s
      | SYSCTL_CLOCK_AES \<Rightarrow> sysctl_clock_get_freq SYSCTL_CLOCK_APB1 s
      | SYSCTL_CLOCK_OTP \<Rightarrow> sysctl_clock_get_freq SYSCTL_CLOCK_APB1 s
      | SYSCTL_CLOCK_RTC \<Rightarrow> sysctl_clock_source_get_freq SYSCTL_SOURCE_IN0 s
      | _ \<Rightarrow> 0)"
  by pat_completeness auto
termination
  by (relation "measure (case_sum (\<lambda>(c, s). source_rank c) (case_sum (\<lambda>(p, s). pll_rank p) (\<lambda>(c, s). clock_rank c)))")
    (auto simp: clock_rank_def intro: get_source_pll2_rank)

declare sysctl_clock_source_get_freq.simps [simp del] sysctl_pll_get_freq.simps [simp del] sysctl_clock_get_freq.simps [simp del]

text \<open>The delay loop counts down and changes nothing.\<close>

primrec busy_loop :: "nat \<Rightarrow> 'a ksysctl_scheme \<Rightarrow> 'a ksysctl_scheme" where
  "busy_loop 0 s = s"
| "busy_loop (Suc n) s = busy_loop n s"

definition usleep :: "u64 \<Rightarrow> 'a ksysctl_scheme \<Rightarrow> 'a ksysctl_scheme" where
  "usleep usec s = busy_loop (unat (usec * ucast (sysctl_clock_get_freq SYSCTL_CLOCK_CPU s) div 1000000)) s"

definition sysctl_reset :: "sysctl_reset_t \<Rightarrow> 'a ksysctl_scheme \<Rightarrow> 'a ksysctl_scheme" where
  "sysctl_reset reset s = sysctl_reset_ctl reset 0 (usleep 10 (sysctl_reset_ctl reset 1 s))"

section \<open>Fields\<close>

lemma sysctl_layout_ok: "bf_ok 32 (sysctl_layout r)"
  by (cases r) (simp_all add: bf_ok_def sysctl_layouts)

lemma sc_get_set_same:
  "f \<in> bf_names (sysctl_layout r) \<Longrightarrow> sc_get r f (sc_set r f v s) = take_bit (snd (bf_pos (sysctl_layout r) f)) v"
  using sysctl_layout_ok [of r] by (simp add: sc_get_def sc_set_def bf_get_set_same)

lemma sc_get_set_other:
  "r \<noteq> q \<or> f \<noteq> g \<and> f \<in> bf_names (sysctl_layout r) \<and> g \<in> bf_names (sysctl_layout r) \<Longrightarrow> sc_get q g (sc_set r f v s) = sc_get q g s"
  by (auto simp: sc_get_def sc_set_def bf_get_set_other)

lemma usleep_same [simp]: "usleep n s = s"
proof -
  have "busy_loop k s = s" for k by (induction k arbitrary: s) auto
  then show ?thesis by (simp add: usleep_def)
qed

section \<open>What the frequencies depend on\<close>

text \<open>Two states agree on the dividers, the selectors and the settings of the three PLLs.\<close>

definition pll_fields :: "(sysctl_reg \<times> string) list" where
  "pll_fields =
     [(REG_pll0, ''clkr0''), (REG_pll0, ''clkf0''), (REG_pll0, ''clkod0''), (REG_pll1, ''clkr1''), (REG_pll1, ''clkf1''),
      (REG_pll1, ''clkod1''), (REG_pll2, ''clkr2''), (REG_pll2, ''clkf2''), (REG_pll2, ''clkod2''), (REG_pll2, ''pll_ckin_sel2'')]"

definition same_clocks :: "'a ksysctl_scheme \<Rightarrow> 'a ksysctl_scheme \<Rightarrow> bool" where
  "same_clocks s t \<longleftrightarrow>
     (\<forall>w. sysctl_clock_get_threshold w t = sysctl_clock_get_threshold w s) \<and>
     (\<forall>w. sysctl_clock_get_clock_select w t = sysctl_clock_get_clock_select w s) \<and>
     (\<forall>(r, f) \<in> set pll_fields. sc_get r f t = sc_get r f s)"

lemma same_clocks_freq:
  fixes s t :: "'a ksysctl_scheme"
  shows "same_clocks s t \<Longrightarrow> sysctl_clock_source_get_freq i t = sysctl_clock_source_get_freq i s"
    and "same_clocks s t \<Longrightarrow> sysctl_pll_get_freq p t = sysctl_pll_get_freq p s"
    and "same_clocks s t \<Longrightarrow> sysctl_clock_get_freq c t = sysctl_clock_get_freq c s"
proof (induction i s and p s and c s rule: sysctl_clock_source_get_freq_sysctl_pll_get_freq_sysctl_clock_get_freq.induct)
  case (1 input s)
  then show ?case
    by (simp add: sysctl_clock_source_get_freq.simps [of input] split: sysctl_clock_source_t.split)
next
  case (2 pll s)
  then show ?case
    by (simp add: sysctl_pll_get_freq.simps [of pll] same_clocks_def pll_fields_def split: sysctl_pll_t.split)
next
  case (3 clock s)
  have sel: "sysctl_clock_get_threshold w t = sysctl_clock_get_threshold w s"
    "sysctl_clock_get_clock_select v t = sysctl_clock_get_clock_select v s" for w v
    using "3.prems" by (simp_all add: same_clocks_def)
  show ?case
    unfolding sysctl_clock_get_freq.simps [of clock] sel using 3 by (cases clock) simp_all
qed

section \<open>What the operations change\<close>

text \<open>Writes to fields outside the clock tree keep every frequency.\<close>

definition clock_free :: "sysctl_reg \<Rightarrow> string \<Rightarrow> bool" where
  "clock_free r f \<longleftrightarrow> f \<in> bf_names (sysctl_layout r) \<and>
     (r \<in> {REG_clk_en_cent, REG_clk_en_peri, REG_soft_reset, REG_peri_reset, REG_dma_sel0, REG_dma_sel1} \<or>
      (r, f) \<in> {(REG_pll0, ''pll_out_en0''), (REG_pll1, ''pll_out_en1''), (REG_pll2, ''pll_out_en2'')})"

lemma clock_free_same: "clock_free r f \<Longrightarrow> same_clocks s (sc_set r f v s)"
  unfolding same_clocks_def
proof (intro conjI allI)
  assume cf: "clock_free r f"
  show "sysctl_clock_get_threshold w (sc_set r f v s) = sysctl_clock_get_threshold w s" for w
    unfolding sysctl_clock_get_threshold_def using cf
    by (cases w) (auto simp: clock_free_def intro!: sc_get_set_other)
  show "sysctl_clock_get_clock_select w (sc_set r f v s) = sysctl_clock_get_clock_select w s" for w
    unfolding sysctl_clock_get_clock_select_def using cf
    by (cases w) (auto simp: clock_free_def sysctl_layouts intro!: sc_get_set_other)
  show "\<forall>(q, g) \<in> set pll_fields. sc_get q g (sc_set r f v s) = sc_get q g s"
    using cf by (auto simp: pll_fields_def clock_free_def sysctl_layouts intro!: sc_get_set_other)
qed

lemma same_clocks_refl [simp]: "same_clocks s s" by (simp add: same_clocks_def)

lemma same_clocks_trans: "same_clocks s t \<Longrightarrow> same_clocks t u \<Longrightarrow> same_clocks s u"
  unfolding same_clocks_def by fastforce

lemma bus_en_same: "same_clocks s (sysctl_clock_bus_en c v s)"
  unfolding sysctl_clock_bus_en_def
  by (cases c) (simp_all add: clock_free_same clock_free_def sysctl_layouts)

lemma device_en_same: "same_clocks s (sysctl_clock_device_en c v s)"
  unfolding sysctl_clock_device_en_def
  by (cases c) (simp_all add: clock_free_same clock_free_def sysctl_layouts)

lemma reset_ctl_same: "same_clocks s (sysctl_reset_ctl r v s)"
  unfolding sysctl_reset_ctl_def
  by (cases r) (simp_all add: clock_free_same clock_free_def sysctl_layouts)

lemma clock_enable_same: "same_clocks s (snd (sysctl_clock_enable c s))"
  by (simp add: sysctl_clock_enable_def same_clocks_trans [OF bus_en_same device_en_same])

lemma reset_same: "same_clocks s (sysctl_reset r s)"
  by (simp add: sysctl_reset_def same_clocks_trans [OF reset_ctl_same reset_ctl_same])

lemma dma_select_as_set:
  "snd (sysctl_dma_select ch v s) = s \<or> (\<exists>r f. clock_free r f \<and> snd (sysctl_dma_select ch v s) = sc_set r f v s)"
proof -
  have two: "(sysctl s)(REG_dma_sel0 := sysctl s REG_dma_sel0, REG_dma_sel1 := x) = (sysctl s)(REG_dma_sel1 := x)"
    "(sysctl s)(REG_dma_sel0 := x, REG_dma_sel1 := sysctl s REG_dma_sel1) = (sysctl s)(REG_dma_sel0 := x)" for x
    by auto
  have cf: "clock_free REG_dma_sel0 f" if "f \<in> bf_names sysctl_dma_sel0_t" for f using that by (simp add: clock_free_def)
  have cf1: "clock_free REG_dma_sel1 ''dma_sel5''" by (simp add: clock_free_def sysctl_layouts)
  show ?thesis
    unfolding sysctl_dma_select_def Let_def
    by (cases ch) (simp_all add: two, (metis cf cf1 sc_set_def sysctl_layout.simps bf_names_simps insertI1 insertI2 sysctl_dma_sel0_t_def)+)
qed

lemma dma_select_same: "same_clocks s (snd (sysctl_dma_select ch v s))"
  using dma_select_as_set [of ch v s] clock_free_same by fastforce

section \<open>Enabling a clock\<close>

text \<open>The bits in which two states of the registers differ.\<close>

definition changed_bits :: "'a ksysctl_scheme \<Rightarrow> 'a ksysctl_scheme \<Rightarrow> (sysctl_reg \<times> nat) set" where
  "changed_bits s t = {(r, i). bit (sysctl s r) i \<noteq> bit (sysctl t r) i}"

definition only_sets :: "'a ksysctl_scheme \<Rightarrow> 'a ksysctl_scheme \<Rightarrow> nat \<Rightarrow> bool" where
  "only_sets s t n \<longleftrightarrow> (\<forall>r i. bit (sysctl s r) i \<longrightarrow> bit (sysctl t r) i) \<and>
     (\<exists>B. changed_bits s t \<subseteq> B \<and> finite B \<and> card B \<le> n)"

lemma only_sets_refl [simp]: "only_sets s s n"
  by (auto simp: only_sets_def changed_bits_def)

lemma only_sets_mono: "only_sets s t m \<Longrightarrow> m \<le> n \<Longrightarrow> only_sets s t n"
  unfolding only_sets_def by (meson le_trans)

lemma only_sets_trans:
  assumes "only_sets s t m" "only_sets t u n" shows "only_sets s u (m + n)"
proof -
  obtain A B where A: "changed_bits s t \<subseteq> A" "finite A" "card A \<le> m" and B: "changed_bits t u \<subseteq> B" "finite B" "card B \<le> n"
    using assms unfolding only_sets_def by meson
  have "changed_bits s u \<subseteq> A \<union> B" using A(1) B(1) by (auto simp: changed_bits_def)
  moreover have "card (A \<union> B) \<le> m + n" using A(3) B(3) card_Un_le [of A B] by linarith
  ultimately show ?thesis using assms A(2) B(2) unfolding only_sets_def by blast
qed

text \<open>Writing 1 to a one-bit field sets that bit and changes no other.\<close>

lemma sc_set_one:
  assumes "f \<in> bf_names (sysctl_layout r)" "snd (bf_pos (sysctl_layout r) f) = 1"
  shows "only_sets s (sc_set r f 1 s) 1"
proof -
  let ?p = "fst (bf_pos (sysctl_layout r) f)"
  have "?p < 32" using bf_pos_fits [OF assms(1)] sysctl_layout_ok [of r] assms(2) by (simp add: bf_ok_def)
  then have b: "bit (sysctl (sc_set r f 1 s) q) i \<longleftrightarrow> (q, i) = (r, ?p) \<or> bit (sysctl s q) i" for q i
    using assms(2) by (auto simp: sc_set_def bit_bf_set bit_simps dest: bit_imp_le_length)
  have "changed_bits s (sc_set r f 1 s) \<subseteq> {(r, ?p)}" unfolding changed_bits_def using b by auto
  then show ?thesis unfolding only_sets_def using b by (intro conjI exI [of _ "{(r, ?p)}"]) auto
qed

lemma bf_pos_in: "f \<in> bf_names L \<Longrightarrow> (f, snd (bf_pos L f)) \<in> set L"
  by (induction L f rule: bf_pos.induct) auto

definition flag_field :: "sysctl_reg \<Rightarrow> string \<Rightarrow> bool" where
  "flag_field r f \<longleftrightarrow> f \<in> bf_names (sysctl_layout r) \<and> snd (bf_pos (sysctl_layout r) f) = 1"

lemma flag_fieldI:
  assumes "(f, 1) \<in> set (sysctl_layout r)" shows "flag_field r f"
proof -
  have d: "distinct (map fst (sysctl_layout r))" using sysctl_layout_ok [of r] by (simp add: bf_ok_def)
  have f: "f \<in> bf_names (sysctl_layout r)" using assms by (force simp: bf_names_def)
  show ?thesis using eq_key_imp_eq_value [OF d assms bf_pos_in [OF f]] f by (simp add: flag_field_def)
qed

lemma flag_set_one: "(f, 1) \<in> set (sysctl_layout r) \<Longrightarrow> only_sets s (sc_set r f 1 s) 1"
  by (drule flag_fieldI) (simp add: flag_field_def sc_set_one [unfolded One_nat_def])

lemma bus_en_sets: "only_sets s (sysctl_clock_bus_en c 1 s) 1"
  unfolding sysctl_clock_bus_en_def
  by (cases c) (simp_all add: flag_set_one [unfolded One_nat_def] sysctl_clk_en_cent_t_def)

lemma device_en_sets: "only_sets s (sysctl_clock_device_en c 1 s) 1"
  unfolding sysctl_clock_device_en_def
  by (cases c) (simp_all add: flag_set_one [unfolded One_nat_def] sysctl_clk_en_cent_t_def sysctl_clk_en_peri_t_def
      sysctl_pll0_t_def sysctl_pll1_t_def sysctl_pll2_t_def)

text \<open>
  Enabling a clock, with the bus it hangs on, only switches bits on, at most two of them, and succeeds for every clock
  there is. Neither that, nor the reset of a device, nor the choice of a DMA handshake changes the frequency of
  any clock.
\<close>

lemma sysctl_keeps_frequencies:
  "only_sets s (snd (sysctl_clock_enable c s)) 2 \<and> (fst (sysctl_clock_enable c s) = 0 \<longleftrightarrow> c \<noteq> SYSCTL_CLOCK_MAX) \<and>
   sysctl_clock_get_freq d (snd (sysctl_clock_enable c s)) = sysctl_clock_get_freq d s \<and>
   sysctl_clock_get_freq d (sysctl_reset r s) = sysctl_clock_get_freq d s \<and>
   sysctl_clock_get_freq d (snd (sysctl_dma_select ch v s)) = sysctl_clock_get_freq d s"
proof -
  have "only_sets s (sysctl_clock_device_en c 1 (sysctl_clock_bus_en c 1 s)) 2"
    using only_sets_trans [OF bus_en_sets device_en_sets, of s c c] by (simp add: numeral_2_eq_2)
  then have "only_sets s (snd (sysctl_clock_enable c s)) 2 \<and> (fst (sysctl_clock_enable c s) = 0 \<longleftrightarrow> c \<noteq> SYSCTL_CLOCK_MAX)"
    by (simp add: sysctl_clock_enable_def)
  then show ?thesis
    by (simp add: same_clocks_freq(3) [OF clock_enable_same] same_clocks_freq(3) [OF reset_same]
        same_clocks_freq(3) [OF dma_select_same])
qed

section \<open>Bounds of the frequencies\<close>

lemma unat_sc_get: "unat (sc_get r f s) < 2 ^ snd (bf_pos (sysctl_layout r) f)"
  by (simp add: sc_get_def unat_bf_get)

lemma unat_pll_out:
  assumes "unat fin * (unat nf + 1) < 2 ^ 32" "unat nr < 2 ^ 31" "unat nf < 2 ^ 31" "unat od < 2 ^ 31"
  shows "unat (pll_out fin (nr + 1) (nf + 1) (od + 1)) = unat fin div (unat nr + 1) * (unat nf + 1) div (unat od + 1)"
proof -
  have s: "unat (x + 1) = unat x + 1" if "unat x < 2 ^ 31" for x :: u32
    using that by (subst unat_add_lem [THEN iffD1]) simp_all
  have "unat fin div (unat nr + 1) * (unat nf + 1) \<le> unat fin * (unat nf + 1)"
    by (rule mult_le_mono1) (rule div_le_dividend)
  then have "unat (fin div (nr + 1) * (nf + 1)) = unat fin div (unat nr + 1) * (unat nf + 1)"
    using assms by (subst unat_mult_lem [THEN iffD1]) (simp_all add: s unat_div)
  then show ?thesis using assms by (simp add: pll_out_def unat_div s)
qed

definition PLL_MAX_FREQ :: nat where "PLL_MAX_FREQ = 26000000 * 64"

lemma in0_freq: "sysctl_clock_source_get_freq SYSCTL_SOURCE_IN0 s = 26000000"
  by (simp add: sysctl_clock_source_get_freq.simps SYSCTRL_CLOCK_FREQ_IN0_def)

lemma pll_freq:
  "unat (sysctl_pll_get_freq SYSCTL_PLL0 s) = 26000000 div (unat (sc_get REG_pll0 ''clkr0'' s) + 1) *
     (unat (sc_get REG_pll0 ''clkf0'' s) + 1) div (unat (sc_get REG_pll0 ''clkod0'' s) + 1)"
  "unat (sysctl_pll_get_freq SYSCTL_PLL1 s) = 26000000 div (unat (sc_get REG_pll1 ''clkr1'' s) + 1) *
     (unat (sc_get REG_pll1 ''clkf1'' s) + 1) div (unat (sc_get REG_pll1 ''clkod1'' s) + 1)"
  "unat (sc_get REG_pll0 ''clkf0'' s) < 64" "unat (sc_get REG_pll1 ''clkf1'' s) < 64"
proof -
  note b = unat_sc_get [of REG_pll0 "''clkr0''" s] unat_sc_get [of REG_pll0 "''clkf0''" s] unat_sc_get [of REG_pll0 "''clkod0''" s]
    unat_sc_get [of REG_pll1 "''clkr1''" s] unat_sc_get [of REG_pll1 "''clkf1''" s] unat_sc_get [of REG_pll1 "''clkod1''" s]
  note b = b [simplified sysctl_layout.simps sysctl_pll0_t_def sysctl_pll1_t_def, simplified]
  show f: "unat (sc_get REG_pll0 ''clkf0'' s) < 64" "unat (sc_get REG_pll1 ''clkf1'' s) < 64" using b by simp_all
  show "unat (sysctl_pll_get_freq SYSCTL_PLL0 s) = 26000000 div (unat (sc_get REG_pll0 ''clkr0'' s) + 1) *
     (unat (sc_get REG_pll0 ''clkf0'' s) + 1) div (unat (sc_get REG_pll0 ''clkod0'' s) + 1)"
    using b by (simp add: sysctl_pll_get_freq.simps in0_freq, subst unat_pll_out) simp_all
  show "unat (sysctl_pll_get_freq SYSCTL_PLL1 s) = 26000000 div (unat (sc_get REG_pll1 ''clkr1'' s) + 1) *
     (unat (sc_get REG_pll1 ''clkf1'' s) + 1) div (unat (sc_get REG_pll1 ''clkod1'' s) + 1)"
    using b by (simp add: sysctl_pll_get_freq.simps in0_freq, subst unat_pll_out) simp_all
qed

lemma pll_freq_le:
  "unat (sysctl_pll_get_freq SYSCTL_PLL0 s) \<le> PLL_MAX_FREQ" "unat (sysctl_pll_get_freq SYSCTL_PLL1 s) \<le> PLL_MAX_FREQ"
proof -
  have le: "26000000 div (a + 1) * (b + 1) div (c + 1) \<le> PLL_MAX_FREQ" if "b < 64" for a b c :: nat
  proof -
    have "26000000 div (a + 1) * (b + 1) div (c + 1) \<le> 26000000 div (a + 1) * (b + 1)" by (rule div_le_dividend)
    also have "\<dots> \<le> 26000000 * 64" using that by (intro mult_le_mono) (simp_all add: div_le_dividend)
    finally show ?thesis by (simp add: PLL_MAX_FREQ_def)
  qed
  show "unat (sysctl_pll_get_freq SYSCTL_PLL0 s) \<le> PLL_MAX_FREQ" "unat (sysctl_pll_get_freq SYSCTL_PLL1 s) \<le> PLL_MAX_FREQ"
    unfolding pll_freq(1,2) using le pll_freq(3,4) by blast+
qed

text \<open>The clocks that are not fed by the third PLL.\<close>

definition off_pll2 :: "sysctl_clock_t \<Rightarrow> bool" where
  "off_pll2 c \<longleftrightarrow> c \<notin> {SYSCTL_CLOCK_PLL2, SYSCTL_CLOCK_I2S0, SYSCTL_CLOCK_I2S1, SYSCTL_CLOCK_I2S2}"

lemma in0_le: "unat (sysctl_clock_source_get_freq SYSCTL_SOURCE_IN0 s) \<le> PLL_MAX_FREQ"
  by (simp add: in0_freq PLL_MAX_FREQ_def)

lemma pll_source_le:
  "unat (sysctl_clock_source_get_freq SYSCTL_SOURCE_PLL0 s) \<le> PLL_MAX_FREQ"
  "unat (sysctl_clock_source_get_freq SYSCTL_SOURCE_PLL1 s) \<le> PLL_MAX_FREQ"
  by (simp_all add: sysctl_clock_source_get_freq.simps pll_freq_le)

lemma unat_aclk_div: "unat (aclk_div x t) \<le> unat x"
proof -
  have x: "unat x < 2 ^ 32" using unsigned_less [where 'a = nat, of x] by simp
  have "unat ((ucast x :: u64) div push_bit (unat t) 2) \<le> unat x" 
    by (simp add: unat_div unsigned_ucast_eq take_bit_nat_eq_self unsigned_less [THEN order_less_le_trans] div_le_dividend)
  moreover from this have "unat ((ucast x :: u64) div push_bit (unat t) 2) < 2 ^ 32" using x by simp
  ultimately show ?thesis by (simp add: aclk_div_def unsigned_ucast_eq take_bit_nat_eq_self)
qed

lemma clock_mux_le: "unat a \<le> m \<Longrightarrow> unat b \<le> m \<Longrightarrow> unat (clock_mux sel a b) \<le> m"
  by (simp add: clock_mux_def)

lemma aclk_le: "unat (sysctl_clock_source_get_freq SYSCTL_SOURCE_ACLK s) \<le> PLL_MAX_FREQ"
  by (simp add: sysctl_clock_source_get_freq.simps [of SYSCTL_SOURCE_ACLK] sysctl_clock_get_freq.simps)
    (intro clock_mux_le in0_le order_trans [OF unat_aclk_div] pll_source_le)

lemma unat_div_le: "unat x \<le> m \<Longrightarrow> unat (x div y) \<le> m" for x :: u32
  using div_le_dividend [of "unat x" "unat y"] by (metis le_trans unat_div)

lemmas freq_le = in0_le pll_source_le aclk_le unat_div_le clock_mux_le order_trans [OF unat_aclk_div]

lemma apb_le: "unat (sysctl_clock_get_freq SYSCTL_CLOCK_APB0 s) \<le> PLL_MAX_FREQ"
  "unat (sysctl_clock_get_freq SYSCTL_CLOCK_APB1 s) \<le> PLL_MAX_FREQ"
  by (simp_all add: sysctl_clock_get_freq.simps [of SYSCTL_CLOCK_APB0] sysctl_clock_get_freq.simps [of SYSCTL_CLOCK_APB1] freq_le)

text \<open>
  The first two PLLs run at the oscillator's 26 MHz divided, multiplied and divided by the three factors in their registers,
  rounded down, whatever the registers hold, without wrap-around, and no clock that is not fed by the third PLL exceeds 64 times the
  oscillator.
\<close>

lemma sysctl_frequencies_bounded:
  assumes "off_pll2 c"
  shows "unat (sysctl_clock_get_freq c s) \<le> 26000000 * 64 \<and>
    unat (sysctl_pll_get_freq SYSCTL_PLL0 s) = 26000000 div (unat (sc_get REG_pll0 ''clkr0'' s) + 1) *
      (unat (sc_get REG_pll0 ''clkf0'' s) + 1) div (unat (sc_get REG_pll0 ''clkod0'' s) + 1) \<and>
    unat (sysctl_pll_get_freq SYSCTL_PLL1 s) = 26000000 div (unat (sc_get REG_pll1 ''clkr1'' s) + 1) *
      (unat (sc_get REG_pll1 ''clkf1'' s) + 1) div (unat (sc_get REG_pll1 ''clkod1'' s) + 1)"
proof -
  have "unat (sysctl_clock_get_freq c s) \<le> PLL_MAX_FREQ"
    unfolding sysctl_clock_get_freq.simps [of c] using assms
    by (cases c) (simp_all add: freq_le apb_le off_pll2_def)
  then have "unat (sysctl_clock_get_freq c s) \<le> 26000000 * 64" by (simp add: PLL_MAX_FREQ_def)
  then show ?thesis by (intro conjI pll_freq(1,2))
qed

text \<open>With the registers as they are after a reset, the CPU runs at 26 MHz; PLL0 set to 26 MHz / 1 * 30 / 1 gives 780 MHz.\<close>

definition sample_sysctl :: ksysctl where
  "sample_sysctl = \<lparr>sysctl = (\<lambda>_. 0)(REG_pll0 := 29 * 16)\<rparr>"

text \<open>
  The third PLL has no such bound: fed by the first one at its highest setting and multiplied again, the product
  does not fit into 32 bits and the reported frequency is wrong.
\<close>

definition fast_sysctl :: ksysctl where
  "fast_sysctl = \<lparr>sysctl = (\<lambda>_. 0)(REG_pll0 := 63 * 16, REG_pll2 := 2 * 16 + 2 ^ 26)\<rparr>"

lemma pll2_freq_wraps:
  "unat (sysctl_pll_get_freq SYSCTL_PLL0 fast_sysctl) = 1664000000 \<and>
   unat (sysctl_pll_get_freq SYSCTL_PLL2 fast_sysctl) = 1664000000 * 3 - 2 ^ 32"
proof -
  have f: "sc_get REG_pll0 ''clkr0'' fast_sysctl = 0" "sc_get REG_pll0 ''clkf0'' fast_sysctl = 63"
    "sc_get REG_pll0 ''clkod0'' fast_sysctl = 0" "sc_get REG_pll2 ''clkr2'' fast_sysctl = 0"
    "sc_get REG_pll2 ''clkf2'' fast_sysctl = 2" "sc_get REG_pll2 ''clkod2'' fast_sysctl = 0"
    "sc_get REG_pll2 ''pll_ckin_sel2'' fast_sysctl = 1"
    by (simp_all add: sc_get_def fast_sysctl_def bf_get_def sysctl_pll0_t_def sysctl_pll2_t_def take_bit_eq_mod drop_bit_eq_div)
  have p0: "sysctl_pll_get_freq SYSCTL_PLL0 fast_sysctl = 1664000000"
    by (simp add: sysctl_pll_get_freq.simps in0_freq pll_out_def f)
  show ?thesis
    by (simp add: sysctl_pll_get_freq.simps [of SYSCTL_PLL2] f get_source_pll2_def p0 pll_out_def
        sysctl_clock_source_get_freq.simps)
qed

end
