(* ===== verification/Rtc.thy ===== *)
theory Rtc
  imports Sysctl Calendar UserCopy "HOL-Library.Signed_Division"
begin

unbundle bit_operations_syntax

text \<open>
  The real-time clock of the K210 (\<^verbatim>\<open>driver/rtc.c\<close>, \<^verbatim>\<open>include/driver/rtc.h\<close>), the clock device above it (\<^verbatim>\<open>device/Clock.cpp\<close>) and the
  current time (\<^verbatim>\<open>os/time.cpp\<close>). The registers keep what is written to them within one operation; the ticking of the
  device between operations is not part of the model. C integers are \<^typ>\<open>int\<close> with the truncating division, the mode of the
  ticks and the register images are words.
\<close>

section \<open>Registers and state\<close>

datatype rtc_timer_mode_t = RTC_TIMER_PAUSE | RTC_TIMER_RUNNING | RTC_TIMER_SETTING | RTC_TIMER_MAX

text \<open>Tick modes are values of an unsigned enumeration; -1 is its largest value.\<close>

definition RTC_INT_SECOND :: u32 where "RTC_INT_SECOND = 0"
definition RTC_INT_MINUTE :: u32 where "RTC_INT_MINUTE = 1"
definition RTC_INT_HOUR :: u32 where "RTC_INT_HOUR = 2"
definition RTC_INT_DAY :: u32 where "RTC_INT_DAY = 3"
definition RTC_INT_MAX :: u32 where "RTC_INT_MAX = 4"

datatype rtc_reg =
    RTC_date | RTC_time | RTC_alarm_date | RTC_alarm_time | RTC_initial_count | RTC_current_count
  | RTC_interrupt_ctrl | RTC_register_ctrl | RTC_reserved0 | RTC_reserved1 | RTC_extended

definition rtc_date_t :: layout where
  "rtc_date_t = [(''week'', 3), (''resv0'', 5), (''day'', 5), (''resv1'', 3), (''month'', 4), (''year'', 12)]"

definition rtc_time_t :: layout where
  "rtc_time_t = [(''resv0'', 10), (''second'', 6), (''minute'', 6), (''resv1'', 2), (''hour'', 5), (''resv2'', 3)]"

definition rtc_alarm_date_t :: layout where
  "rtc_alarm_date_t = [(''week'', 3), (''resv0'', 5), (''day'', 5), (''resv1'', 3), (''month'', 4), (''year'', 12)]"

definition rtc_alarm_time_t :: layout where
  "rtc_alarm_time_t = [(''resv0'', 10), (''second'', 6), (''minute'', 6), (''resv1'', 2), (''hour'', 5), (''resv2'', 3)]"

definition rtc_initial_count_t :: layout where
  "rtc_initial_count_t = [(''count'', 32)]"

definition rtc_current_count_t :: layout where
  "rtc_current_count_t = [(''count'', 32)]"

definition rtc_interrupt_ctrl_t :: layout where
  "rtc_interrupt_ctrl_t = [(''tick_enable'', 1), (''alarm_enable'', 1), (''tick_int_mode'', 2), (''resv'', 20), (''alarm_compare_mask'', 8)]"

definition rtc_register_ctrl_t :: layout where
  "rtc_register_ctrl_t = [(''read_enable'', 1), (''write_enable'', 1), (''resv0'', 11), (''timer_mask'', 8), (''alarm_mask'', 8), (''initial_count_mask'', 1), (''interrupt_register_mask'', 1), (''resv1'', 1)]"

definition rtc_extended_t :: layout where
  "rtc_extended_t = [(''century'', 5), (''leap_year'', 1), (''resv'', 26)]"

definition rtc_mask_t :: layout where
  "rtc_mask_t = [(''resv'', 1), (''second'', 1), (''minute'', 1), (''hour'', 1), (''week'', 1), (''day'', 1), (''month'', 1), (''year'', 1)]"

lemmas rtc_layouts = rtc_date_t_def rtc_time_t_def rtc_alarm_date_t_def rtc_alarm_time_t_def rtc_initial_count_t_def
  rtc_current_count_t_def rtc_interrupt_ctrl_t_def rtc_register_ctrl_t_def rtc_extended_t_def

record tm =
  tm_sec :: int
  tm_min :: int
  tm_hour :: int
  tm_mday :: int
  tm_mon :: int
  tm_year :: int
  tm_wday :: int
  tm_yday :: int
  tm_isdst :: int

text \<open>A callback is the address of a function, with the argument it is to get; null is \<open>None\<close>.\<close>

record rtc_instance_t =
  rtc_tick_callback :: "u64 option"
  tick_ctx :: u64
  rtc_alarm_callback :: "u64 option"
  alarm_ctx :: u64
  tick_is_single_shot :: bool
  alarm_is_single_shot :: bool
  tick_enable_by_alarm :: bool
  tick_enable_by_user :: bool
  tick_mode_by_user :: u32
  tick_mode_by_alarm :: u32

text \<open>
  \<open>rtc_locals\<close> holds what is on the stack where the local register images are, which are not initialised; \<open>rtc_calls\<close> the calls of
  registered functions in their order; \<open>clock_freq\<close> is \<^verbatim>\<open>clock::freq\<close>.
\<close>

record krtc = ksysctl +
  rtc :: "rtc_reg \<Rightarrow> u32"
  rtc_timer_date_time :: tm
  rtc_alarm_date_time :: tm
  rtc_instance :: rtc_instance_t
  rtc_locals :: "rtc_reg \<Rightarrow> u32"
  rtc_calls :: "(u64 \<times> u64) list"
  clock_freq :: u32

definition rtc_write :: "rtc_reg \<Rightarrow> u32 \<Rightarrow> 'a krtc_scheme \<Rightarrow> 'a krtc_scheme" where
  "rtc_write r v s = s\<lparr>rtc := (rtc s)(r := v)\<rparr>"

section \<open>Modes\<close>

text \<open>\<^verbatim>\<open>rtc_timer_set_mode\<close>, with its delay of some cycles of the processor clock.\<close>

definition mode_ctrl :: "rtc_timer_mode_t \<Rightarrow> u32 \<Rightarrow> u32" where
  "mode_ctrl m c =
     (case m of
        RTC_TIMER_RUNNING \<Rightarrow> bf_set rtc_register_ctrl_t ''write_enable'' 0 (bf_set rtc_register_ctrl_t ''read_enable'' 1 c)
      | RTC_TIMER_SETTING \<Rightarrow> bf_set rtc_register_ctrl_t ''write_enable'' 1 (bf_set rtc_register_ctrl_t ''read_enable'' 0 c)
      | _ \<Rightarrow> bf_set rtc_register_ctrl_t ''write_enable'' 0 (bf_set rtc_register_ctrl_t ''read_enable'' 0 c))"

definition rtc_timer_set_mode :: "rtc_timer_mode_t \<Rightarrow> 'a krtc_scheme \<Rightarrow> 'a krtc_scheme" where
  "rtc_timer_set_mode timer_mode s =
     (let register_ctrl = mode_ctrl timer_mode (rtc s RTC_register_ctrl);
          freq = (ucast (sysctl_clock_get_freq SYSCTL_CLOCK_CPU s) :: u64) div 26000000
      in rtc_write RTC_register_ctrl register_ctrl (busy_loop (unat freq) s))"

text \<open>The mode \<^verbatim>\<open>RTC_TIMER_SETTING\<close> is reported as running.\<close>

definition rtc_timer_get_mode :: "'a krtc_scheme \<Rightarrow> rtc_timer_mode_t \<times> 'a krtc_scheme" where
  "rtc_timer_get_mode s =
     (let re = bf_get rtc_register_ctrl_t ''read_enable'' (rtc s RTC_register_ctrl) \<noteq> 0;
          we = bf_get rtc_register_ctrl_t ''write_enable'' (rtc s RTC_register_ctrl) \<noteq> 0
      in if \<not> re \<and> \<not> we then (RTC_TIMER_PAUSE, s)
         else if re \<and> \<not> we then (RTC_TIMER_RUNNING, s)
         else if \<not> re \<and> we then (RTC_TIMER_RUNNING, s)
         else (RTC_TIMER_PAUSE, rtc_timer_set_mode RTC_TIMER_PAUSE s))"

section \<open>Setting and reading the time\<close>

definition rtc_in_range :: "int \<Rightarrow> int \<Rightarrow> int \<Rightarrow> bool" where
  "rtc_in_range v lo hi \<longleftrightarrow> v \<ge> lo \<and> v \<le> hi"

text \<open>The tests of \<^verbatim>\<open>rtc_timer_set_tm\<close> and \<^verbatim>\<open>rtc_alarm_set_tm\<close>; each failing one returns -1 before anything is written.\<close>

definition tm_in_range :: "tm \<Rightarrow> bool" where
  "tm_in_range t \<longleftrightarrow>
     rtc_in_range (tm_sec t) 0 59 \<and> rtc_in_range (tm_min t) 0 59 \<and> rtc_in_range (tm_hour t) 0 23 \<and>
     rtc_in_range (tm_mday t) 1 31 \<and> rtc_in_range (tm_mon t) 0 11 \<and>
     rtc_in_range ((tm_year t + 1900) smod 100) 0 99 \<and> rtc_in_range ((tm_year t + 1900) sdiv 100) 0 31 \<and>
     rtc_in_range (tm_wday t) 0 6"

definition date_image :: "layout \<Rightarrow> tm \<Rightarrow> u32 \<Rightarrow> u32" where
  "date_image L t x =
     bf_set L ''week'' (of_int (tm_wday t)) (bf_set L ''year'' (of_int ((tm_year t + 1900) smod 100))
       (bf_set L ''month'' (of_int (tm_mon t + 1)) (bf_set L ''day'' (of_int (tm_mday t)) x)))"

definition time_image :: "layout \<Rightarrow> tm \<Rightarrow> u32 \<Rightarrow> u32" where
  "time_image L t x =
     bf_set L ''hour'' (of_int (tm_hour t)) (bf_set L ''minute'' (of_int (tm_min t)) (bf_set L ''second'' (of_int (tm_sec t)) x))"

definition rtc_timer_set_tm :: "tm option \<Rightarrow> 'a krtc_scheme \<Rightarrow> int \<times> 'a krtc_scheme" where
  "rtc_timer_set_tm tmo s =
     (case tmo of None \<Rightarrow> (0, s)
      | Some t \<Rightarrow>
        if \<not> tm_in_range t then (- 1, s)
        else (0, rtc_timer_set_mode RTC_TIMER_RUNNING
               (rtc_write RTC_extended (bf_set rtc_extended_t ''century'' (of_int ((tm_year t + 1900) sdiv 100)) (rtc_locals s RTC_extended))
               (rtc_write RTC_time (time_image rtc_time_t t (rtc_locals s RTC_time))
               (rtc_write RTC_date (date_image rtc_date_t t (rtc_locals s RTC_date))
               (rtc_timer_set_mode RTC_TIMER_SETTING s))))))"

definition rtc_alarm_set_tm :: "tm option \<Rightarrow> 'a krtc_scheme \<Rightarrow> int \<times> 'a krtc_scheme" where
  "rtc_alarm_set_tm tmo s =
     (case tmo of None \<Rightarrow> (0, s)
      | Some t \<Rightarrow>
        if \<not> tm_in_range t then (- 1, s)
        else (0, rtc_timer_set_mode RTC_TIMER_RUNNING
               (rtc_write RTC_alarm_time (time_image rtc_alarm_time_t t (rtc_locals s RTC_alarm_time))
               (rtc_write RTC_alarm_date (date_image rtc_alarm_date_t t (rtc_locals s RTC_alarm_date))
               (rtc_timer_set_mode RTC_TIMER_SETTING s)))))"

definition rtc_year_is_leap :: "int \<Rightarrow> bool" where
  "rtc_year_is_leap year \<longleftrightarrow> (year smod 4 = 0 \<and> year smod 100 \<noteq> 0) \<or> year smod 400 = 0"

definition yday_table :: "bool \<Rightarrow> int list" where
  "yday_table leap =
     (if leap then [0, 0, 31, 60, 91, 121, 152, 182, 213, 244, 274, 305, 335]
      else [0, 0, 31, 59, 90, 120, 151, 181, 212, 243, 273, 304, 334])"

definition rtc_get_yday :: "int \<Rightarrow> int \<Rightarrow> int \<Rightarrow> int result" where
  "rtc_get_yday year month day =
     (if 0 \<le> month \<and> month < 13 then Inr (yday_table (rtc_year_is_leap year) ! nat month + day)
      else Inl (BadAccess ''rtc_get_yday''))"

text \<open>The side effects of the argument: \<^verbatim>\<open>day\<close> grows by the year or by the year less 2, and January and February belong to the year before.\<close>

definition rtc_get_wday :: "int \<Rightarrow> int \<Rightarrow> int \<Rightarrow> int" where
  "rtc_get_wday year month day =
     (let (day', year') = (if month < 3 then (day + year, year - 1) else (day + (year - 2), year))
      in (23 * month sdiv 9 + day' + 4 + year' sdiv 4 - year' sdiv 100 + year' sdiv 400) smod 7)"

definition field :: "layout \<Rightarrow> string \<Rightarrow> u32 \<Rightarrow> int" where
  "field L f x = int (unat (bf_get L f x))"

definition tm_of_image :: "layout \<Rightarrow> layout \<Rightarrow> u32 \<Rightarrow> u32 \<Rightarrow> u32 \<Rightarrow> tm result" where
  "tm_of_image LD LT date time extended =
     (let mday = field LD ''day'' date mod 32;
          mon = (field LD ''month'' date - 1) smod 12;
          year = field LD ''year'' date mod 100 + field rtc_extended_t ''century'' extended * 100 - 1900
      in bindr (rtc_get_yday (year + 1900) (mon + 1) mday) (\<lambda>yday.
           Inr \<lparr>tm_sec = field LT ''second'' time mod 61, tm_min = field LT ''minute'' time mod 60,
                tm_hour = field LT ''hour'' time mod 24, tm_mday = mday, tm_mon = mon, tm_year = year,
                tm_wday = field LD ''week'' date mod 7, tm_yday = yday smod 366, tm_isdst = - 1\<rparr>))"

definition rtc_timer_get_tm :: "'a krtc_scheme \<Rightarrow> (tm option \<times> 'a krtc_scheme) result" where
  "rtc_timer_get_tm s =
     (let (mode, s1) = rtc_timer_get_mode s in
      if mode \<noteq> RTC_TIMER_RUNNING then Inr (None, s1)
      else bindr (tm_of_image rtc_date_t rtc_time_t (rtc s1 RTC_date) (rtc s1 RTC_time) (rtc s1 RTC_extended)) (\<lambda>t.
        Inr (Some t, s1\<lparr>rtc_timer_date_time := t\<rparr>)))"

definition rtc_alarm_get_tm :: "'a krtc_scheme \<Rightarrow> (tm option \<times> 'a krtc_scheme) result" where
  "rtc_alarm_get_tm s =
     (let (mode, s1) = rtc_timer_get_mode s in
      if mode \<noteq> RTC_TIMER_RUNNING then Inr (None, s1)
      else bindr (tm_of_image rtc_alarm_date_t rtc_alarm_time_t (rtc s1 RTC_alarm_date) (rtc s1 RTC_alarm_time) (rtc s1 RTC_extended)) (\<lambda>t.
        Inr (Some t, s1\<lparr>rtc_alarm_date_time := t\<rparr>)))"

text \<open>The structure \<^verbatim>\<open>date_time\<close> of \<^verbatim>\<open>rtc_timer_set\<close> and \<^verbatim>\<open>rtc_alarm_set\<close>, with the table access of \<^verbatim>\<open>rtc_get_yday\<close> before any test.\<close>

definition date_time :: "int \<Rightarrow> int \<Rightarrow> int \<Rightarrow> int \<Rightarrow> int \<Rightarrow> int \<Rightarrow> tm result" where
  "date_time year month day hour minute second =
     bindr (rtc_get_yday year month day) (\<lambda>yday.
       Inr \<lparr>tm_sec = second, tm_min = minute, tm_hour = hour, tm_mday = day, tm_mon = month - 1, tm_year = year - 1900,
            tm_wday = rtc_get_wday year month day, tm_yday = yday, tm_isdst = - 1\<rparr>)"

definition rtc_timer_set ::
  "int \<Rightarrow> int \<Rightarrow> int \<Rightarrow> int \<Rightarrow> int \<Rightarrow> int \<Rightarrow> 'a krtc_scheme \<Rightarrow> (int \<times> 'a krtc_scheme) result" where
  "rtc_timer_set year month day hour minute second s =
     bindr (date_time year month day hour minute second) (\<lambda>t. Inr (rtc_timer_set_tm (Some t) s))"

definition rtc_alarm_set ::
  "int \<Rightarrow> int \<Rightarrow> int \<Rightarrow> int \<Rightarrow> int \<Rightarrow> int \<Rightarrow> 'a krtc_scheme \<Rightarrow> (int \<times> 'a krtc_scheme) result" where
  "rtc_alarm_set year month day hour minute second s =
     bindr (date_time year month day hour minute second) (\<lambda>t. Inr (rtc_alarm_set_tm (Some t) s))"

text \<open>\<^verbatim>\<open>rtc_timer_get\<close> and \<^verbatim>\<open>rtc_alarm_get\<close> with all six pointers given; on -1 nothing is stored.\<close>

type_synonym six = "int \<times> int \<times> int \<times> int \<times> int \<times> int"

definition six_of_tm :: "tm \<Rightarrow> six" where
  "six_of_tm t = (tm_year t + 1900, tm_mon t + 1, tm_mday t, tm_hour t, tm_min t, tm_sec t)"

definition rtc_timer_get :: "'a krtc_scheme \<Rightarrow> (int \<times> six option \<times> 'a krtc_scheme) result" where
  "rtc_timer_get s =
     bindr (rtc_timer_get_tm s) (\<lambda>(t, s1).
       case t of Some t \<Rightarrow> Inr (0, Some (six_of_tm t), s1) | None \<Rightarrow> Inr (- 1, None, s1))"

definition rtc_alarm_get :: "'a krtc_scheme \<Rightarrow> (int \<times> six option \<times> 'a krtc_scheme) result" where
  "rtc_alarm_get s =
     bindr (rtc_alarm_get_tm s) (\<lambda>(t, s1).
       case t of Some t \<Rightarrow> Inr (0, Some (six_of_tm t), s1) | None \<Rightarrow> Inr (- 1, None, s1))"

section \<open>Counters and interrupts\<close>

text \<open>A register is written between switching the timer to setting and back to running.\<close>

definition rtc_set_reg :: "rtc_reg \<Rightarrow> u32 \<Rightarrow> 'a krtc_scheme \<Rightarrow> 'a krtc_scheme" where
  "rtc_set_reg r v s = rtc_timer_set_mode RTC_TIMER_RUNNING (rtc_write r v (rtc_timer_set_mode RTC_TIMER_SETTING s))"

definition rtc_timer_set_clock_frequency :: "u32 \<Rightarrow> 'a krtc_scheme \<Rightarrow> 'a krtc_scheme" where
  "rtc_timer_set_clock_frequency frequency s =
     rtc_set_reg RTC_initial_count (bf_set rtc_initial_count_t ''count'' frequency (rtc_locals s RTC_initial_count)) s"

definition rtc_timer_get_clock_frequency :: "'a krtc_scheme \<Rightarrow> u32" where
  "rtc_timer_get_clock_frequency s = bf_get rtc_initial_count_t ''count'' (rtc s RTC_initial_count)"

definition rtc_timer_set_clock_count_value :: "u32 \<Rightarrow> 'a krtc_scheme \<Rightarrow> 'a krtc_scheme" where
  "rtc_timer_set_clock_count_value n s =
     rtc_set_reg RTC_current_count (bf_set rtc_current_count_t ''count'' n (rtc_locals s RTC_current_count)) s"

definition rtc_timer_get_clock_count_value :: "'a krtc_scheme \<Rightarrow> u32" where
  "rtc_timer_get_clock_count_value s = bf_get rtc_current_count_t ''count'' (rtc s RTC_current_count)"

definition rtc_set_int_field :: "string \<Rightarrow> u32 \<Rightarrow> 'a krtc_scheme \<Rightarrow> 'a krtc_scheme" where
  "rtc_set_int_field f v s = rtc_set_reg RTC_interrupt_ctrl (bf_set rtc_interrupt_ctrl_t f v (rtc s RTC_interrupt_ctrl)) s"

definition rtc_get_int_field :: "string \<Rightarrow> 'a krtc_scheme \<Rightarrow> u32" where
  "rtc_get_int_field f s = bf_get rtc_interrupt_ctrl_t f (rtc s RTC_interrupt_ctrl)"

definition rtc_tick_set_interrupt :: "u32 \<Rightarrow> 'a krtc_scheme \<Rightarrow> 'a krtc_scheme" where
  "rtc_tick_set_interrupt enable s = rtc_set_int_field ''tick_enable'' enable s"

definition rtc_tick_get_interrupt :: "'a krtc_scheme \<Rightarrow> u32" where
  "rtc_tick_get_interrupt s = rtc_get_int_field ''tick_enable'' s"

definition rtc_tick_set_interrupt_mode :: "u32 \<Rightarrow> 'a krtc_scheme \<Rightarrow> 'a krtc_scheme" where
  "rtc_tick_set_interrupt_mode mode s = rtc_set_int_field ''tick_int_mode'' mode s"

definition rtc_tick_get_interrupt_mode :: "'a krtc_scheme \<Rightarrow> u32" where
  "rtc_tick_get_interrupt_mode s = rtc_get_int_field ''tick_int_mode'' s"

definition rtc_alarm_set_interrupt :: "u32 \<Rightarrow> 'a krtc_scheme \<Rightarrow> 'a krtc_scheme" where
  "rtc_alarm_set_interrupt enable s = rtc_set_int_field ''alarm_enable'' enable s"

definition rtc_alarm_get_interrupt :: "'a krtc_scheme \<Rightarrow> u32" where
  "rtc_alarm_get_interrupt s = rtc_get_int_field ''alarm_enable'' s"

text \<open>A mask is one byte with the fields of \<^const>\<open>rtc_mask_t\<close>.\<close>

definition rtc_alarm_set_mask :: "u8 \<Rightarrow> 'a krtc_scheme \<Rightarrow> 'a krtc_scheme" where
  "rtc_alarm_set_mask m s = rtc_set_int_field ''alarm_compare_mask'' (ucast m) s"

definition rtc_alarm_get_mask :: "'a krtc_scheme \<Rightarrow> u8" where
  "rtc_alarm_get_mask s = ucast (rtc_get_int_field ''alarm_compare_mask'' s)"

definition mask_all :: u8 where "mask_all = 0xFE"

definition rtc_protect_set :: "bool \<Rightarrow> 'a krtc_scheme \<Rightarrow> 'a krtc_scheme" where
  "rtc_protect_set enable s =
     (let m = (if enable then 0 else ucast mask_all); b = (if enable then 0 else 1);
          ctrl = rtc s RTC_register_ctrl;
          ctrl = bf_set rtc_register_ctrl_t ''timer_mask'' m ctrl;
          ctrl = bf_set rtc_register_ctrl_t ''alarm_mask'' m ctrl;
          ctrl = bf_set rtc_register_ctrl_t ''initial_count_mask'' b ctrl;
          ctrl = bf_set rtc_register_ctrl_t ''interrupt_register_mask'' b ctrl
      in rtc_write RTC_register_ctrl ctrl s)"

text \<open>The reset line of the device is pulsed in the system controller; \<^verbatim>\<open>rtc_init\<close> writes the registers it relies on itself.\<close>

definition rtc_init :: "'a krtc_scheme \<Rightarrow> 'a krtc_scheme" where
  "rtc_init s =
     (let s1 = rtc_protect_set False (snd (sysctl_clock_enable SYSCTL_CLOCK_RTC (sysctl_reset SYSCTL_RESET_RTC s)));
          s2 = rtc_timer_set_clock_frequency (sysctl_clock_get_freq SYSCTL_CLOCK_IN0 s1) s1;
          s3 = rtc_timer_set_clock_count_value 1 s2
      in rtc_timer_set_mode RTC_TIMER_RUNNING s3)"

section \<open>The interrupt handler\<close>

definition upd_inst :: "(rtc_instance_t \<Rightarrow> rtc_instance_t) \<Rightarrow> 'a krtc_scheme \<Rightarrow> 'a krtc_scheme" where
  "upd_inst g s = s\<lparr>rtc_instance := g (rtc_instance s)\<rparr>"

definition call_back :: "u64 option \<Rightarrow> u64 \<Rightarrow> 'a krtc_scheme \<Rightarrow> 'a krtc_scheme" where
  "call_back f ctx s = (case f of Some g \<Rightarrow> s\<lparr>rtc_calls := rtc_calls s @ [(g, ctx)]\<rparr> | None \<Rightarrow> s)"

definition mask_bit :: "string \<Rightarrow> u8 \<Rightarrow> bool" where
  "mask_bit f m \<longleftrightarrow> bf_get rtc_mask_t f m \<noteq> 0"

text \<open>The fields the mask selects are compared one after the other; a time that could not be read is a null pointer.\<close>

definition alarm_matches :: "u8 \<Rightarrow> tm \<Rightarrow> tm \<Rightarrow> bool" where
  "alarm_matches m now alarm \<longleftrightarrow>
     (mask_bit ''year'' m \<longrightarrow> tm_year now = tm_year alarm) \<and> (mask_bit ''month'' m \<longrightarrow> tm_mon now = tm_mon alarm) \<and>
     (mask_bit ''day'' m \<longrightarrow> tm_mday now = tm_mday alarm) \<and> (mask_bit ''hour'' m \<longrightarrow> tm_hour now = tm_hour alarm) \<and>
     (mask_bit ''minute'' m \<longrightarrow> tm_min now = tm_min alarm) \<and> (mask_bit ''second'' m \<longrightarrow> tm_sec now = tm_sec alarm)"

definition compares_tm :: "u8 \<Rightarrow> bool" where
  "compares_tm m \<longleftrightarrow> mask_bit ''year'' m \<or> mask_bit ''month'' m \<or> mask_bit ''day'' m \<or> mask_bit ''hour'' m \<or>
     mask_bit ''minute'' m \<or> mask_bit ''second'' m"

text \<open>Back to the tick mode of the user, or no ticks, when the alarm needs them no longer.\<close>

definition restore_tick :: "'a krtc_scheme \<Rightarrow> 'a krtc_scheme" where
  "restore_tick s =
     (if tick_enable_by_user (rtc_instance s) then
        (if tick_mode_by_user (rtc_instance s) > rtc_tick_get_interrupt_mode s
         then rtc_tick_set_interrupt 1 (rtc_tick_set_interrupt_mode (tick_mode_by_user (rtc_instance s)) (rtc_tick_set_interrupt 0 s))
         else s)
      else rtc_tick_set_interrupt 0 s)"

definition irq_alarm :: "tm option \<Rightarrow> 'a krtc_scheme \<Rightarrow> 'a krtc_scheme result" where
  "irq_alarm now s =
     (if rtc_alarm_get_interrupt s = 0 then Inr s
      else bindr (rtc_alarm_get_tm s) (\<lambda>(alarm, s1).
        let m = rtc_alarm_get_mask s1 in
        if m AND 0xFE = 0 then Inr s1
        else if compares_tm m \<and> (now = None \<or> alarm = None) then Inl (BadAccess ''rtc_irq_callback'')
        else if compares_tm m \<and> \<not> alarm_matches m (the now) (the alarm) then Inr s1
        else let s2 = (if alarm_is_single_shot (rtc_instance s1)
                       then restore_tick (upd_inst (\<lambda>i. i\<lparr>tick_enable_by_alarm := False, tick_mode_by_alarm := RTC_INT_MAX\<rparr>)
                              (rtc_alarm_set_interrupt 0 s1))
                       else s1)
             in Inr (call_back (rtc_alarm_callback (rtc_instance s2)) (alarm_ctx (rtc_instance s2)) s2)))"

definition tick_due :: "u32 \<Rightarrow> tm \<Rightarrow> bool" where
  "tick_due mode now \<longleftrightarrow>
     (if mode = RTC_INT_MINUTE then tm_sec now = 0
      else if mode = RTC_INT_HOUR then tm_sec now = 0 \<and> tm_min now = 0
      else if mode = RTC_INT_DAY then tm_sec now = 0 \<and> tm_min now = 0 \<and> tm_hour now = 0
      else True)"

definition irq_tick :: "tm option \<Rightarrow> 'a krtc_scheme \<Rightarrow> 'a krtc_scheme result" where
  "irq_tick now s =
     (if \<not> tick_enable_by_user (rtc_instance s) then Inr s
      else let mode = tick_mode_by_user (rtc_instance s) in
        if mode \<in> {RTC_INT_MINUTE, RTC_INT_HOUR, RTC_INT_DAY} \<and> now = None then Inl (BadAccess ''rtc_irq_callback'')
        else if mode \<in> {RTC_INT_MINUTE, RTC_INT_HOUR, RTC_INT_DAY} \<and> \<not> tick_due mode (the now) then Inr s
        else let s1 = (if tick_is_single_shot (rtc_instance s)
                       then upd_inst (\<lambda>i. i\<lparr>tick_enable_by_user := False, tick_mode_by_user := - 1\<rparr>) (rtc_tick_set_interrupt 0 s)
                       else s)
             in Inr (call_back (rtc_tick_callback (rtc_instance s1)) (tick_ctx (rtc_instance s1)) s1))"

definition rtc_irq_callback :: "'a krtc_scheme \<Rightarrow> (int \<times> 'a krtc_scheme) result" where
  "rtc_irq_callback s =
     bindr (rtc_timer_get_tm s) (\<lambda>(now, s1).
       bindr (irq_alarm now s1) (\<lambda>s2.
         bindr (irq_tick now s2) (\<lambda>s3. Inr (0, s3))))"

section \<open>Registration\<close>

definition rtc_tick_irq_register :: "bool \<Rightarrow> u32 \<Rightarrow> u64 option \<Rightarrow> u64 \<Rightarrow> 'a krtc_scheme \<Rightarrow> 'a krtc_scheme" where
  "rtc_tick_irq_register is_single_shot mode callback ctx s =
     (let s1 = upd_inst (\<lambda>i. i\<lparr>rtc_tick_callback := callback, tick_ctx := ctx, tick_is_single_shot := is_single_shot,
                               tick_enable_by_user := True, tick_mode_by_user := mode\<rparr>) (rtc_tick_set_interrupt 0 s);
          s2 = (if \<not> tick_enable_by_alarm (rtc_instance s1) \<or>
                   tick_enable_by_alarm (rtc_instance s1) \<and> mode < rtc_tick_get_interrupt_mode s1
                then rtc_tick_set_interrupt_mode mode s1 else s1)
      in rtc_tick_set_interrupt 1 s2)"

definition rtc_tick_irq_unregister :: "'a krtc_scheme \<Rightarrow> 'a krtc_scheme" where
  "rtc_tick_irq_unregister s =
     upd_inst (\<lambda>i. i\<lparr>tick_enable_by_user := False, tick_mode_by_user := - 1, rtc_tick_callback := None, tick_ctx := 0\<rparr>)
       (if rtc_alarm_get_interrupt s = 0 then rtc_tick_set_interrupt 0 s else s)"

definition alarm_tick_mode :: "u8 \<Rightarrow> u32" where
  "alarm_tick_mode m =
     (if mask_bit ''second'' m then RTC_INT_SECOND else if mask_bit ''minute'' m then RTC_INT_MINUTE
      else if mask_bit ''hour'' m then RTC_INT_HOUR else RTC_INT_DAY)"

definition rtc_alarm_irq_register :: "bool \<Rightarrow> u8 \<Rightarrow> u64 option \<Rightarrow> u64 \<Rightarrow> 'a krtc_scheme \<Rightarrow> 'a krtc_scheme" where
  "rtc_alarm_irq_register is_single_shot m callback ctx s =
     (let s1 = upd_inst (\<lambda>i. i\<lparr>rtc_alarm_callback := callback, alarm_ctx := ctx, alarm_is_single_shot := is_single_shot,
                               tick_enable_by_alarm := True, tick_mode_by_alarm := alarm_tick_mode m\<rparr>)
                 (rtc_alarm_set_interrupt 0 (rtc_tick_set_interrupt 0 s));
          i = rtc_instance s1;
          s2 = (if tick_enable_by_user i \<and> tick_mode_by_alarm i < rtc_tick_get_interrupt_mode s1 \<or> \<not> tick_enable_by_user i
                then rtc_tick_set_interrupt_mode (tick_mode_by_alarm i) s1 else s1)
      in rtc_tick_set_interrupt 1 (rtc_alarm_set_interrupt 1 (rtc_alarm_set_mask m s2)))"

definition rtc_alarm_irq_unregister :: "'a krtc_scheme \<Rightarrow> 'a krtc_scheme" where
  "rtc_alarm_irq_unregister s =
     restore_tick (upd_inst (\<lambda>i. i\<lparr>rtc_alarm_callback := None, alarm_ctx := 0, tick_enable_by_alarm := False,
                                  tick_mode_by_alarm := RTC_INT_MAX\<rparr>) (rtc_alarm_set_interrupt 0 s))"

section \<open>The clock device\<close>

definition setDateTime :: "int \<Rightarrow> int \<Rightarrow> int \<Rightarrow> int \<Rightarrow> int \<Rightarrow> int \<Rightarrow> 'a krtc_scheme \<Rightarrow> (int \<times> 'a krtc_scheme) result" where
  "setDateTime year month day hour minute second s = rtc_timer_set year month day hour minute second s"

definition getDateTime :: "'a krtc_scheme \<Rightarrow> (int \<times> six option \<times> 'a krtc_scheme) result" where
  "getDateTime s = rtc_timer_get s"

text \<open>
  \<^verbatim>\<open>clock::getTimeVal\<close>; \<^verbatim>\<open>tm\<close> may be null, the table of leap years has 100 entries, and the divisor is 0 for frequencies
  below 1 MHz. The minutes are left out.
\<close>

definition getTimeVal :: "'a krtc_scheme \<Rightarrow> (u64 \<times> u64) result" where
  "getTimeVal s =
     bindr (rtc_timer_get_tm s) (\<lambda>(tmo, s1).
       case tmo of None \<Rightarrow> Inl (BadAccess ''getTimeVal'')
       | Some t \<Rightarrow>
         let off = tm_year t - 70 in
         if off < 1 \<or> off > 100 then Inl (BadAccess ''leapYears'')
         else if clock_freq s1 < 1000000 then Inl (BadAccess ''freq'')
         else
           let leaps = int (leapYears (nat (off - 1)));
               days = leaps * 366 + (off - leaps) * 365 + tm_yday t;
               sec = days * 86400 + tm_hour t * 3600 + tm_sec t
           in Inr (of_int sec, ucast ((rtc_timer_get_clock_count_value s1 mod clock_freq s1) div (clock_freq s1 div 1000000))))"

definition clock_init :: "'a krtc_scheme \<Rightarrow> 'a krtc_scheme result" where
  "clock_init s =
     (let s1 = rtc_init s; s2 = s1\<lparr>clock_freq := sysctl_clock_get_freq SYSCTL_CLOCK_IN0 s1\<rparr> in
      bindr (rtc_timer_set 2021 6 1 23 59 59 s2) (\<lambda>(r, s3). Inr s3))"

section \<open>The current time\<close>

text \<open>\<^verbatim>\<open>mktime\<close> on the machine's integers: 32-bit unsigned up to the days before the conversion to 64 bits.\<close>

definition mktime_u :: "u32 \<Rightarrow> u32 \<Rightarrow> u32 \<Rightarrow> u32 \<Rightarrow> u32 \<Rightarrow> u32 \<Rightarrow> u64" where
  "mktime_u year0 mon0 day hour minute sec =
     (let mon = mon0 - 2;
          (mon, year) = (if sint mon \<le> 0 then (mon + 12, year0 - 1) else (mon, year0))
      in (((ucast (year div 4 - year div 100 + year div 400 + 367 * mon div 12 + day) + ucast (year * 365) - 719499) * 24
           + ucast hour) * 60 + ucast minute) * 60 + ucast sec)"

text \<open>
  \<^verbatim>\<open>time::CurrentTimeSpec\<close>: seconds and nanoseconds. On the K210 the result of \<^verbatim>\<open>rtc_timer_get\<close> is not tested, and the
  variables are not set when it fails.
\<close>

definition CurrentTimeSpec :: "platform \<Rightarrow> 'a krtc_scheme \<Rightarrow> (u64 \<times> u64) result" where
  "CurrentTimeSpec pf s =
     (case pf of QEMU \<Rightarrow> Inr (1626699516, 69527494)
      | K210 \<Rightarrow> bindr (rtc_timer_get s) (\<lambda>(r, six, s1).
          case six of None \<Rightarrow> Inl (BadAccess ''CurrentTimeSpec'')
          | Some (year, month, day, hour, minute, second) \<Rightarrow>
            let freq = sysctl_clock_get_freq SYSCTL_CLOCK_IN0 s1 in
            Inr (mktime_u (of_int year) (of_int month) (of_int day) (of_int hour) (of_int minute) (of_int second),
                 ucast ((rtc_timer_get_clock_count_value s1 mod freq) div (freq div 1000000)) * 1000)))"

section \<open>Fields of the registers\<close>

lemma field_set_same:
  assumes "f \<in> bf_names L" "bf_ok 32 L" "0 \<le> v" "v < 2 ^ snd (bf_pos L f)"
  shows "field L f (bf_set L f (of_int v) x) = v"
proof -
  have "bf_get L f (bf_set L f (of_int v) x) = take_bit (snd (bf_pos L f)) (of_int v)"
    using bf_get_set_same [OF assms(1), of "of_int v" x] assms(2) by simp
  also have "\<dots> = of_nat (nat v)"
    using take_bit_of_nat_small [of "nat v" "snd (bf_pos L f)"] assms(3,4) by (simp add: nat_less_iff)
  finally have "bf_get L f (bf_set L f (of_int v) x) = of_nat (nat v)" .
  moreover have "snd (bf_pos L f) \<le> 32" using bf_pos_fits [OF assms(1)] assms(2) by (simp add: bf_ok_def)
  then have "nat v < 2 ^ 32" using assms(3,4) power_increasing [of "snd (bf_pos L f)" 32 "2 :: int"] by (simp add: nat_less_iff)
  ultimately show ?thesis using assms(3) unat_of_nat_small [of "nat v", where 'a = 32] by (simp add: field_def del: of_nat_nat)
qed

lemma field_set_other: "f \<in> bf_names L \<Longrightarrow> g \<in> bf_names L \<Longrightarrow> f \<noteq> g \<Longrightarrow> field L g (bf_set L f v x) = field L g x"
  by (simp add: field_def bf_get_set_other)

lemma bf_get_0 [simp]: "bf_get L f 0 = 0" by (simp add: bf_get_def)

section \<open>The mode of the timer\<close>

lemma busy_loop_same [simp]: "busy_loop n s = s"
  by (induction n arbitrary: s) auto

lemma rtc_timer_set_mode_eq: "rtc_timer_set_mode m s = rtc_write RTC_register_ctrl (mode_ctrl m (rtc s RTC_register_ctrl)) s"
  by (simp add: rtc_timer_set_mode_def)

definition running :: "'a krtc_scheme \<Rightarrow> bool" where
  "running s \<longleftrightarrow> bf_get rtc_register_ctrl_t ''read_enable'' (rtc s RTC_register_ctrl) = 1 \<and>
     bf_get rtc_register_ctrl_t ''write_enable'' (rtc s RTC_register_ctrl) = 0"

lemma running_mode: "running s \<Longrightarrow> rtc_timer_get_mode s = (RTC_TIMER_RUNNING, s)"
  by (simp add: running_def rtc_timer_get_mode_def)

lemma ctrl_ok: "bf_ok 32 rtc_register_ctrl_t" by (simp add: bf_ok_def rtc_register_ctrl_t_def)

lemma set_mode_running [simp]: "running (rtc_timer_set_mode RTC_TIMER_RUNNING s)"
proof -
  have n: "''read_enable'' \<in> bf_names rtc_register_ctrl_t" "''write_enable'' \<in> bf_names rtc_register_ctrl_t"
    "snd (bf_pos rtc_register_ctrl_t ''read_enable'') = 1" "snd (bf_pos rtc_register_ctrl_t ''write_enable'') = 1"
    by (simp_all add: rtc_register_ctrl_t_def)
  show ?thesis
    using bf_get_set_same [where 'a = 32, OF n(1)] bf_get_set_same [where 'a = 32, OF n(2)] ctrl_ok n
    by (simp add: running_def rtc_timer_set_mode_eq rtc_write_def mode_ctrl_def bf_get_set_other)
qed

lemma set_mode_regs [simp]: "r \<noteq> RTC_register_ctrl \<Longrightarrow> rtc (rtc_timer_set_mode m s) r = rtc s r"
  by (simp add: rtc_timer_set_mode_eq rtc_write_def)

lemma set_mode_rest [simp]:
  "rtc_instance (rtc_timer_set_mode m s) = rtc_instance s" "rtc_calls (rtc_timer_set_mode m s) = rtc_calls s"
  "rtc_locals (rtc_timer_set_mode m s) = rtc_locals s" "sysctl (rtc_timer_set_mode m s) = sysctl s"
  by (simp_all add: rtc_timer_set_mode_eq rtc_write_def)

lemma rtc_write_simps [simp]:
  "rtc (rtc_write r v s) q = (if q = r then v else rtc s q)" "rtc_instance (rtc_write r v s) = rtc_instance s"
  "rtc_calls (rtc_write r v s) = rtc_calls s" "rtc_locals (rtc_write r v s) = rtc_locals s" "sysctl (rtc_write r v s) = sysctl s"
  by (simp_all add: rtc_write_def)

section \<open>The weekday\<close>

lemma sdiv_pos: "0 \<le> a \<Longrightarrow> 0 < b \<Longrightarrow> a sdiv b = a div b" for a b :: int
  by (cases "a = 0") (simp_all add: signed_divide_int_def)

lemma smod_pos: "0 \<le> a \<Longrightarrow> 0 < b \<Longrightarrow> a smod b = a mod b" for a b :: int
  by (cases "a = 0") (simp_all add: signed_modulo_int_def)

lemma month_cases:
  fixes m :: int
  assumes "1 \<le> m" "m \<le> 12"
  shows "m \<in> {1, 2, 3, 4, 5, 6, 7, 8, 9, 10, 11, 12}"
  using assms by simp presburger

lemma wday_range:
  assumes "0 \<le> y" "1 \<le> m" "m \<le> 12" "1 \<le> d"
  shows "0 \<le> rtc_get_wday y m d" "rtc_get_wday y m d \<le> 6"
proof -
  define y' where "y' = (if m < 3 then y - 1 else y)"
  define d' where "d' = (if m < 3 then d + y else d + (y - 2))"
  have "y' sdiv 4 - y' sdiv 100 + y' sdiv 400 \<ge> 0"
  proof (cases "0 \<le> y'")
    case True
    then show ?thesis using sdiv_pos [of y'] by simp
  next
    case False
    then have "y' = - 1" using assms by (auto simp: y'_def split: if_splits)
    then show ?thesis by (simp add: signed_divide_int_def)
  qed
  moreover have "23 * m sdiv 9 \<ge> 2" using assms sdiv_pos [of "23 * m" 9] by simp
  ultimately have nn: "0 \<le> 23 * m sdiv 9 + d' + 4 + y' sdiv 4 - y' sdiv 100 + y' sdiv 400"
    using assms by (auto simp: d'_def)
  have "rtc_get_wday y m d = (23 * m sdiv 9 + d' + 4 + y' sdiv 4 - y' sdiv 100 + y' sdiv 400) mod 7"
    using smod_pos [OF nn, of 7] by (auto simp: rtc_get_wday_def y'_def d'_def)
  then show "0 \<le> rtc_get_wday y m d" "rtc_get_wday y m d \<le> 6" using pos_mod_bound [of 7] by simp_all
qed

lemma mod7_eq: "(a::int) = b + 7 * k \<Longrightarrow> a mod 7 = b mod 7" by simp

lemma days_since_1970:
  fixes y m d :: nat
  assumes "1970 \<le> y" "1 \<le> m" "1 \<le> d" and y': "y' = (if m \<le> 2 then y - 1 else y)"
    and m': "m' = (if m \<le> 2 then m + 12 - 2 else m - 2)"
  shows "719499 \<le> y' div 4 - y' div 100 + y' div 400 + 367 * m' div 12 + d + y' * 365"
proof (cases "1970 \<le> y'")
  case True
  then have "719050 \<le> y' * 365" "492 \<le> y' div 4" "y' div 100 * 100 \<le> y'" "y' div 400 * 400 + 400 > y'" "y' div 4 * 4 + 4 > y'" by simp_all
  then show ?thesis by linarith
next
  case False
  then have "y' = 1969" "m \<le> 2" using assms(1) by (auto simp: y' split: if_splits)
  then have "y' = 1969" "11 \<le> m'" using assms(2) by (auto simp: m')
  then have "336 \<le> 367 * m' div 12" by linarith
  then show ?thesis using \<open>y' = 1969\<close> assms(3) by simp
qed

lemma mktime_int:
  assumes "1970 \<le> y" "1 \<le> m" "m \<le> 12" "1 \<le> d"
  shows "int (mktime y m d h mi s) =
    ((((let y' = (if m \<le> 2 then int y - 1 else int y); m' = (if m \<le> 2 then int m + 10 else int m - 2) in
      y' div 4 - y' div 100 + y' div 400 + 367 * m' div 12 + int d + y' * 365 - 719499) * 24 + int h) * 60 + int mi) * 60 + int s)"
proof -
  define y' where "y' = (if m \<le> 2 then y - 1 else y)"
  define m' where "m' = (if m \<le> 2 then m + 12 - 2 else m - 2)"
  have y: "1969 \<le> y'" "int y' = (if m \<le> 2 then int y - 1 else int y)" using assms by (auto simp: y'_def)
  have m: "int m' = (if m \<le> 2 then int m + 10 else int m - 2)" using assms by (auto simp: m'_def)
  have le: "y' div 100 \<le> y' div 4" by (rule div_le_mono2) simp_all
  note big = days_since_1970 [OF assms(1,2,4) y'_def m'_def]
  define n where "n = y' div 4 - y' div 100 + y' div 400 + 367 * m' div 12 + d + y' * 365 - 719499"
  have n: "int n = int y' div 4 - int y' div 100 + int y' div 400 + 367 * int m' div 12 + int d + int y' * 365 - 719499"
  proof -
    have z: "int y' div 4 = int (y' div 4)" "int y' div 100 = int (y' div 100)" "int y' div 400 = int (y' div 400)"
      "367 * int m' div 12 = int (367 * m' div 12)" by (simp_all add: zdiv_int)
    show ?thesis unfolding z n_def using le big by linarith
  qed
  have "mktime y m d h mi s = ((n * 24 + h) * 60 + mi) * 60 + s" by (simp add: mktime_def n_def y'_def m'_def)
  then show ?thesis using n by (simp add: y(2) m Let_def)
qed

text \<open>The day count behind \<^const>\<open>mktime\<close>.\<close>

lemma mktime_day:
  assumes "1970 \<le> y" "1 \<le> m" "m \<le> 12" "1 \<le> d"
  shows "int (mktime y m d 0 0 0 div 86400) =
    (let y' = (if m \<le> 2 then int y - 1 else int y); m' = (if m \<le> 2 then int m + 10 else int m - 2) in
      y' div 4 - y' div 100 + y' div 400 + 367 * m' div 12 + int d + y' * 365 - 719499)"
proof -
  have "int (mktime y m d 0 0 0 div 86400) = int (mktime y m d 0 0 0) div 86400" by (simp add: zdiv_int)
  also have "\<dots> = (let y' = (if m \<le> 2 then int y - 1 else int y); m' = (if m \<le> 2 then int m + 10 else int m - 2) in
      y' div 4 - y' div 100 + y' div 400 + 367 * m' div 12 + int d + y' * 365 - 719499)"
    unfolding mktime_int [OF assms] Let_def by simp
  finally show ?thesis .
qed

lemma rtc_get_wday_mktime:
  assumes "1970 \<le> y" "1 \<le> m" "m \<le> 12" "1 \<le> d"
  shows "rtc_get_wday (int y) (int m) (int d) = (int (mktime y m d 0 0 0 div 86400) + 4) mod 7"
proof -
  define y' where "y' = (if m \<le> 2 then int y - 1 else int y)"
  define m' where "m' = (if m \<le> 2 then int m + 10 else int m - 2)"
  define c where "c = y' div 4 - y' div 100 + y' div 400"
  have y': "1969 \<le> y'" using assms by (auto simp: y'_def)
  have c: "y' sdiv 4 - y' sdiv 100 + y' sdiv 400 = c" "0 \<le> c" using y' sdiv_pos [of y'] by (simp_all add: c_def)
  have s: "23 * int m sdiv 9 = 23 * int m div 9" by (rule sdiv_pos) simp_all
  define d' where "d' = (if m \<le> 2 then int d + int y else int d + (int y - 2))"
  have nn: "0 \<le> 23 * int m sdiv 9 + d' + 4 + c" using assms c(2) s by (auto simp: d'_def)
  have w: "rtc_get_wday (int y) (int m) (int d) = (23 * int m div 9 + d' + 4 + c) mod 7"
  proof -
    have "rtc_get_wday (int y) (int m) (int d) = (23 * int m sdiv 9 + d' + 4 + c) smod 7"
      unfolding c(1) [symmetric] by (auto simp: rtc_get_wday_def y'_def d'_def algebra_simps)
    then show ?thesis using smod_pos [OF nn, of 7] s by simp
  qed
  have k: "(23 * int m div 9 + d' + 4 + c) mod 7 = (c + 367 * m' div 12 + int d + y' * 365 - 719499 + 4) mod 7"
  proof -
    have "int m \<in> {1, 2, 3, 4, 5, 6, 7, 8, 9, 10, 11, 12}" using assms by (intro month_cases) simp_all
    then have "\<exists>k. 23 * int m div 9 + d' + 4 + c = (c + 367 * m' div 12 + int d + y' * 365 - 719499 + 4) + 7 * k"
      by (auto simp: d'_def y'_def m'_def) presburger+
    then show ?thesis using mod7_eq by blast
  qed
  show ?thesis unfolding w k mktime_day [OF assms] by (simp add: Let_def y'_def m'_def c_def)
qed

text \<open>On dates from 1970 on the machine arithmetic of \<^const>\<open>mktime_u\<close> never wraps.\<close>

lemma of_nat_div_u32: "(of_nat a :: u32) div of_nat k = of_nat (a div k)" if "a < 2 ^ 32" "k < 2 ^ 32"
proof -
  have "a div k < 2 ^ 32" using that(1) div_le_dividend [of a k] by linarith
  then show ?thesis using that by (simp add: word_unat_eq_iff unat_div)
qed

lemma ucast_of_nat_u32: "a < 2 ^ 32 \<Longrightarrow> (ucast (of_nat a :: u32) :: u64) = of_nat a"
  by (simp add: word_unat_eq_iff unsigned_ucast_eq take_bit_nat_eq_self)

lemma mktime_u_mktime:
  assumes "1970 \<le> y" "y < 10000" "1 \<le> m" "m \<le> 12" "1 \<le> d" "d < 100" "h < 100" "mi < 100" "s < 100"
  shows "mktime_u (of_nat y) (of_nat m) (of_nat d) (of_nat h) (of_nat mi) (of_nat s) = of_nat (mktime y m d h mi s)"
proof -
  define y' where "y' = (if m \<le> 2 then y - 1 else y)"
  define m' where "m' = (if m \<le> 2 then m + 12 - 2 else m - 2)"
  have b: "y' < 10000" "m' \<le> 12" "1969 \<le> y'" using assms by (auto simp: y'_def m'_def)
  have sel: "(if sint (of_nat m - 2 :: u32) \<le> 0 then (of_nat m - 2 + 12, of_nat y - 1) else (of_nat m - 2, of_nat y)) = (of_nat m' :: u32, of_nat y' :: u32)"
  proof -
    have "int m \<in> {1, 2, 3, 4, 5, 6, 7, 8, 9, 10, 11, 12}" using assms by (intro month_cases) simp_all
    then show ?thesis using assms(1) by (auto simp: m'_def y'_def of_nat_diff)
  qed
  have le: "y' div 100 \<le> y' div 4" by (rule div_le_mono2) simp_all
  have dv: "(of_nat y' :: u32) div 4 = of_nat (y' div 4)" "(of_nat y' :: u32) div 100 = of_nat (y' div 100)"
    "(of_nat y' :: u32) div 400 = of_nat (y' div 400)" "367 * (of_nat m' :: u32) div 12 = of_nat (367 * m' div 12)"
    using of_nat_div_u32 [of y' 4] of_nat_div_u32 [of y' 100] of_nat_div_u32 [of y' 400] of_nat_div_u32 [of "367 * m'" 12] b by simp_all
  define n where "n = y' div 4 - y' div 100 + y' div 400 + 367 * m' div 12 + d"
  have n: "(of_nat (y' div 4) - of_nat (y' div 100) + of_nat (y' div 400) + of_nat (367 * m' div 12) + of_nat d :: u32) = of_nat n"
    using le by (simp add: n_def of_nat_diff)
  have "n < 100000"
  proof -
    have "y' div 4 < 10000" "y' div 400 < 10000" "367 * m' div 12 < 1000" using b by linarith+
    then show ?thesis using assms(6) by (simp add: n_def)
  qed
  then have u: "(ucast (of_nat n :: u32) :: u64) = of_nat n" "(ucast (of_nat y' * 365 :: u32) :: u64) = of_nat (y' * 365)"
    using ucast_of_nat_u32 [of n] ucast_of_nat_u32 [of "y' * 365"] b by simp_all
  have big: "719499 \<le> n + y' * 365" using days_since_1970 [OF assms(1,3,5) y'_def m'_def] by (simp add: n_def)
  have "mktime_u (of_nat y) (of_nat m) (of_nat d) (of_nat h) (of_nat mi) (of_nat s) =
    (((of_nat n + of_nat (y' * 365) - 719499) * 24 + of_nat h) * 60 + of_nat mi) * 60 + of_nat s"
    unfolding mktime_u_def Let_def sel prod.case dv n u using assms by (simp add: ucast_of_nat_u32)
  also have "\<dots> = of_nat ((((n + y' * 365 - 719499) * 24 + h) * 60 + mi) * 60 + s)"
    using big by (simp add: of_nat_diff)
  also have "(((n + y' * 365 - 719499) * 24 + h) * 60 + mi) * 60 + s = mktime y m d h mi s"
    by (simp add: mktime_def n_def y'_def m'_def)
  finally show ?thesis .
qed

section \<open>Setting the clock and reading it\<close>

definition valid_six :: "int \<Rightarrow> int \<Rightarrow> int \<Rightarrow> int \<Rightarrow> int \<Rightarrow> int \<Rightarrow> bool" where
  "valid_six year month day hour minute second \<longleftrightarrow>
     0 \<le> year \<and> year < 3200 \<and> 1 \<le> month \<and> month \<le> 12 \<and> 1 \<le> day \<and> day \<le> 31 \<and>
     0 \<le> hour \<and> hour < 24 \<and> 0 \<le> minute \<and> minute < 60 \<and> 0 \<le> second \<and> second < 60"

lemma date_time_ok:
  assumes "valid_six y m d h mi s"
  obtains t where "date_time y m d h mi s = Inr t" "tm_in_range t" "tm_year t + 1900 = y" "tm_mon t = m - 1" "tm_mday t = d"
    "tm_hour t = h" "tm_min t = mi" "tm_sec t = s"
proof -
  let ?t = "\<lparr>tm_sec = s, tm_min = mi, tm_hour = h, tm_mday = d, tm_mon = m - 1, tm_year = y - 1900,
            tm_wday = rtc_get_wday y m d, tm_yday = yday_table (rtc_year_is_leap y) ! nat m + d, tm_isdst = - 1\<rparr>"
  have "date_time y m d h mi s = Inr ?t" using assms by (simp add: date_time_def rtc_get_yday_def valid_six_def)
  moreover have "y mod 100 \<le> 99" "0 \<le> y div 100" "y div 100 \<le> 31" using assms pos_mod_bound [of 100 y] unfolding valid_six_def by linarith+
  then have "tm_in_range ?t"
    using assms wday_range [of y m d] by (simp add: tm_in_range_def rtc_in_range_def valid_six_def smod_pos sdiv_pos)
  ultimately show ?thesis by (intro that [of ?t]) simp_all
qed

text \<open>The fields of the images written are read back.\<close>

lemma image_fields:
  assumes t: "tm_in_range t" and y: "0 \<le> tm_year t + 1900"
    and LD: "LD = rtc_date_t \<or> LD = rtc_alarm_date_t" and LT: "LT = rtc_time_t \<or> LT = rtc_alarm_time_t"
  shows "field LD ''day'' (date_image LD t x) = tm_mday t" "field LD ''month'' (date_image LD t x) = tm_mon t + 1"
    "field LD ''year'' (date_image LD t x) = (tm_year t + 1900) mod 100" "field LD ''week'' (date_image LD t x) = tm_wday t"
    "field LT ''second'' (time_image LT t z) = tm_sec t" "field LT ''minute'' (time_image LT t z) = tm_min t"
    "field LT ''hour'' (time_image LT t z) = tm_hour t"
proof -
  have L: "LD = [(''week'', 3), (''resv0'', 5), (''day'', 5), (''resv1'', 3), (''month'', 4), (''year'', 12)]"
    "LT = [(''resv0'', 10), (''second'', 6), (''minute'', 6), (''resv1'', 2), (''hour'', 5), (''resv2'', 3)]"
    using LD LT by (auto simp: rtc_layouts)
  have ok: "bf_ok 32 LD" "bf_ok 32 LT" by (simp_all add: L bf_ok_def)
  have ym: "(tm_year t + 1900) smod 100 = (tm_year t + 1900) mod 100" using y by (simp add: smod_pos)
  have p: "snd (bf_pos LD ''day'') = 5" "snd (bf_pos LD ''month'') = 4" "snd (bf_pos LD ''year'') = 12" "snd (bf_pos LD ''week'') = 3"
    "snd (bf_pos LT ''second'') = 6" "snd (bf_pos LT ''minute'') = 6" "snd (bf_pos LT ''hour'') = 5" by (simp_all add: L)
  have n: "{''day'', ''month'', ''year'', ''week''} \<subseteq> bf_names LD" "{''second'', ''minute'', ''hour''} \<subseteq> bf_names LT" by (simp_all add: L)
  have r: "0 \<le> tm_mday t" "tm_mday t < 32" "0 \<le> tm_mon t" "tm_mon t + 1 < 16" "0 \<le> tm_wday t" "tm_wday t < 8" "0 \<le> tm_sec t" "tm_sec t < 64"
    "0 \<le> tm_min t" "tm_min t < 64" "0 \<le> tm_hour t" "tm_hour t < 32" "(tm_year t + 1900) mod 100 < 4096"
    using t pos_mod_bound [of 100 "tm_year t + 1900"] by (simp_all add: tm_in_range_def rtc_in_range_def)
  obtain mon where m: "mon = tm_mon t + 1" by simp
  then have "0 \<le> mon" "mon < 16" using r by simp_all
  note r = r this
  show "field LD ''day'' (date_image LD t x) = tm_mday t" "field LD ''month'' (date_image LD t x) = tm_mon t + 1"
    "field LD ''year'' (date_image LD t x) = (tm_year t + 1900) mod 100" "field LD ''week'' (date_image LD t x) = tm_wday t"
    unfolding date_image_def ym m [symmetric] using n(1) ok(1) p r by (simp_all add: field_set_same field_set_other)
  show "field LT ''second'' (time_image LT t z) = tm_sec t" "field LT ''minute'' (time_image LT t z) = tm_min t"
    "field LT ''hour'' (time_image LT t z) = tm_hour t"
    unfolding time_image_def using n(2) ok(2) p r by (simp_all add: field_set_same field_set_other)
qed

lemma century_field:
  assumes "0 \<le> c" "c < 32" shows "field rtc_extended_t ''century'' (bf_set rtc_extended_t ''century'' (of_int c) x) = c"
  using assms by (intro field_set_same) (simp_all add: rtc_extended_t_def bf_ok_def)

lemma yday_ok: "1 \<le> m \<Longrightarrow> m \<le> 12 \<Longrightarrow> \<exists>v. rtc_get_yday y m d = Inr v"
  by (simp add: rtc_get_yday_def)

lemma tm_of_image_ok:
  assumes t: "tm_in_range t" and y: "0 \<le> tm_year t + 1900"
    and LD: "LD = rtc_date_t \<or> LD = rtc_alarm_date_t" and LT: "LT = rtc_time_t \<or> LT = rtc_alarm_time_t"
    and c: "field rtc_extended_t ''century'' e = (tm_year t + 1900) div 100"
  shows "\<exists>u. tm_of_image LD LT (date_image LD t x) (time_image LT t z) e = Inr u \<and> six_of_tm u = six_of_tm t"
proof -
  have r: "0 \<le> tm_mday t" "tm_mday t < 32" "0 \<le> tm_mon t" "tm_mon t < 12" "0 \<le> tm_sec t" "tm_sec t < 61"
    "0 \<le> tm_min t" "tm_min t < 60" "0 \<le> tm_hour t" "tm_hour t < 24"
    using t by (simp_all add: tm_in_range_def rtc_in_range_def)
  have yy: "(tm_year t + 1900) mod 100 mod 100 + (tm_year t + 1900) div 100 * 100 = tm_year t + 1900" by simp
  obtain v where v: "rtc_get_yday (tm_year t + 1900) (tm_mon t + 1) (tm_mday t) = Inr v"
    using yday_ok r(3,4) by force
  show ?thesis
    unfolding tm_of_image_def Let_def image_fields [OF t y LD LT] c using r v yy
    by (simp add: smod_pos six_of_tm_def)
qed

lemma rtc_timer_set_get_tm:
  assumes "valid_six y m d h mi s"
  shows "\<exists>k' t. rtc_timer_set y m d h mi s k = Inr (0, k') \<and> running k' \<and> sysctl k' = sysctl k \<and>
    rtc_timer_get_tm k' = Inr (Some t, k'\<lparr>rtc_timer_date_time := t\<rparr>) \<and> six_of_tm t = (y, m, d, h, mi, s) \<and>
    (\<forall>r. r \<notin> {RTC_date, RTC_time, RTC_extended, RTC_register_ctrl} \<longrightarrow> rtc k' r = rtc k r)"
proof -
  obtain t where t: "date_time y m d h mi s = Inr t" "tm_in_range t" "tm_year t + 1900 = y" "tm_mon t = m - 1" "tm_mday t = d"
    "tm_hour t = h" "tm_min t = mi" "tm_sec t = s" using date_time_ok [OF assms] .
  define k' where "k' = snd (rtc_timer_set_tm (Some t) k)"
  have y: "0 \<le> tm_year t + 1900" "0 \<le> y div 100" "y div 100 < 32" using assms t(3) unfolding valid_six_def by linarith+
  have set: "rtc_timer_set y m d h mi s k = Inr (0, k')"
    using t(1,2) by (simp add: rtc_timer_set_def k'_def rtc_timer_set_tm_def)
  have k': "k' = rtc_timer_set_mode RTC_TIMER_RUNNING
       (rtc_write RTC_extended (bf_set rtc_extended_t ''century'' (of_int ((tm_year t + 1900) sdiv 100)) (rtc_locals k RTC_extended))
       (rtc_write RTC_time (time_image rtc_time_t t (rtc_locals k RTC_time))
       (rtc_write RTC_date (date_image rtc_date_t t (rtc_locals k RTC_date)) (rtc_timer_set_mode RTC_TIMER_SETTING k))))"
    using t(2) by (simp add: k'_def rtc_timer_set_tm_def)
  have c: "field rtc_extended_t ''century'' (rtc k' RTC_extended) = (tm_year t + 1900) div 100"
    using century_field [OF y(2,3)] t(3) y by (simp add: k' sdiv_pos)
  obtain u where u: "tm_of_image rtc_date_t rtc_time_t (rtc k' RTC_date) (rtc k' RTC_time) (rtc k' RTC_extended) = Inr u"
    "six_of_tm u = six_of_tm t"
    using tm_of_image_ok [OF t(2) y(1) _ _ c, of rtc_date_t rtc_time_t "rtc_locals k RTC_date" "rtc_locals k RTC_time"]
    by (auto simp: k')
  have run: "running k'" by (simp add: k')
  have "rtc_timer_get_tm k' = Inr (Some u, k'\<lparr>rtc_timer_date_time := u\<rparr>)"
    using u(1) by (simp add: rtc_timer_get_tm_def running_mode [OF run])
  moreover have "six_of_tm u = (y, m, d, h, mi, s)" using u(2) t by (simp add: six_of_tm_def)
  moreover have "sysctl k' = sysctl k" "\<forall>r. r \<notin> {RTC_date, RTC_time, RTC_extended, RTC_register_ctrl} \<longrightarrow> rtc k' r = rtc k r"
    by (simp_all add: k')
  ultimately show ?thesis using set run by blast
qed

text \<open>
  C31: The clock keeps the time it is given. Setting a valid date between the years 0 and 3199 succeeds and reading it
  gives the same six numbers, whatever the registers and the uninitialised locals held; from 1970 on the current
  time is the Unix time of that date, computed without wrap-around, and the weekday put into the register is the
  weekday of that Unix day. No register but those of date, time and mode changes.
\<close>

theorem clock_set_then_read:
  assumes "valid_six year month day hour minute second"
  shows "\<exists>s' s''. setDateTime year month day hour minute second s = Inr (0, s') \<and>
    getDateTime s' = Inr (0, Some (year, month, day, hour, minute, second), s'') \<and>
    (\<forall>r. r \<notin> {RTC_date, RTC_time, RTC_extended, RTC_register_ctrl} \<longrightarrow> rtc s' r = rtc s r) \<and>
    (1970 \<le> year \<longrightarrow>
       (\<exists>ns. CurrentTimeSpec K210 s' =
          Inr (of_nat (mktime (nat year) (nat month) (nat day) (nat hour) (nat minute) (nat second)), ns)) \<and>
       rtc_get_wday year month day = (int (mktime (nat year) (nat month) (nat day) 0 0 0 div 86400) + 4) mod 7)"
proof -
  obtain s' t where s': "rtc_timer_set year month day hour minute second s = Inr (0, s')"
    "rtc_timer_get_tm s' = Inr (Some t, s'\<lparr>rtc_timer_date_time := t\<rparr>)" "six_of_tm t = (year, month, day, hour, minute, second)"
    "\<forall>r. r \<notin> {RTC_date, RTC_time, RTC_extended, RTC_register_ctrl} \<longrightarrow> rtc s' r = rtc s r"
    using rtc_timer_set_get_tm [OF assms, of s] by blast
  have get: "rtc_timer_get s' = Inr (0, Some (year, month, day, hour, minute, second), s'\<lparr>rtc_timer_date_time := t\<rparr>)"
    using s'(2,3) by (simp add: rtc_timer_get_def)
  have b: "nat year < 10000" "1 \<le> nat month" "nat month \<le> 12" "1 \<le> nat day" "nat day < 100" "nat hour < 100" "nat minute < 100" "nat second < 100"
    "int (nat year) = year" "int (nat month) = month" "int (nat day) = day" "int (nat hour) = hour" "int (nat minute) = minute" "int (nat second) = second"
    using assms by (auto simp: valid_six_def)
  have "(\<exists>ns. CurrentTimeSpec K210 s' =
          Inr (of_nat (mktime (nat year) (nat month) (nat day) (nat hour) (nat minute) (nat second)), ns)) \<and>
       rtc_get_wday year month day = (int (mktime (nat year) (nat month) (nat day) 0 0 0 div 86400) + 4) mod 7" if "1970 \<le> year"
  proof -
    have y: "1970 \<le> nat year" using that by simp
    show ?thesis
      using mktime_u_mktime [OF y b(1-8)] rtc_get_wday_mktime [OF y b(2-4)] get b(9-14)
      by (simp add: CurrentTimeSpec_def Let_def)
  qed
  then show ?thesis using s'(1,4) get by (simp add: setDateTime_def getDateTime_def)
qed

definition sample_rtc :: krtc where
  "sample_rtc = \<lparr>sysctl = (\<lambda>_. 0), rtc = (\<lambda>_. 0xFFFFFFFF),
     rtc_timer_date_time = \<lparr>tm_sec = 0, tm_min = 0, tm_hour = 0, tm_mday = 0, tm_mon = 0, tm_year = 0, tm_wday = 0, tm_yday = 0, tm_isdst = 0\<rparr>,
     rtc_alarm_date_time = \<lparr>tm_sec = 0, tm_min = 0, tm_hour = 0, tm_mday = 0, tm_mon = 0, tm_year = 0, tm_wday = 0, tm_yday = 0, tm_isdst = 0\<rparr>,
     rtc_instance = \<lparr>rtc_tick_callback = None, tick_ctx = 0, rtc_alarm_callback = None, alarm_ctx = 0, tick_is_single_shot = False,
       alarm_is_single_shot = False, tick_enable_by_alarm = False, tick_enable_by_user = False, tick_mode_by_user = - 1,
       tick_mode_by_alarm = RTC_INT_MAX\<rparr>,
     rtc_locals = (\<lambda>_. 0xAAAAAAAA), rtc_calls = [], clock_freq = 0\<rparr>"

theorem clock_set_then_read_witness:
  "\<exists>s' ns. setDateTime 2021 6 1 23 59 59 sample_rtc = Inr (0, s') \<and> CurrentTimeSpec K210 s' = Inr (1622591999, ns) \<and>
     rtc_get_wday 2021 6 1 = 2"
proof -
  have "valid_six 2021 6 1 23 59 59" by (simp add: valid_six_def)
  from clock_set_then_read [OF this, of sample_rtc] show ?thesis by (auto simp: mktime_def)
qed

section \<open>The alarm\<close>

lemma int_field_get_set:
  assumes "f \<in> bf_names rtc_interrupt_ctrl_t"
  shows "rtc_get_int_field f (rtc_set_int_field f v s) = take_bit (snd (bf_pos rtc_interrupt_ctrl_t f)) v"
    "g \<in> bf_names rtc_interrupt_ctrl_t \<Longrightarrow> g \<noteq> f \<Longrightarrow> rtc_get_int_field g (rtc_set_int_field f v s) = rtc_get_int_field g s"
proof -
  have ok: "bf_ok 32 rtc_interrupt_ctrl_t" by (simp add: bf_ok_def rtc_interrupt_ctrl_t_def)
  show "rtc_get_int_field f (rtc_set_int_field f v s) = take_bit (snd (bf_pos rtc_interrupt_ctrl_t f)) v"
    using bf_get_set_same [where 'a = 32, OF assms] ok by (simp add: rtc_get_int_field_def rtc_set_int_field_def rtc_set_reg_def)
  show "rtc_get_int_field g (rtc_set_int_field f v s) = rtc_get_int_field g s" if "g \<in> bf_names rtc_interrupt_ctrl_t" "g \<noteq> f"
    using that assms by (simp add: rtc_get_int_field_def rtc_set_int_field_def rtc_set_reg_def bf_get_set_other)
qed

lemma set_int_field_simps [simp]:
  "running (rtc_set_int_field f v s)" "rtc_instance (rtc_set_int_field f v s) = rtc_instance s"
  "rtc_calls (rtc_set_int_field f v s) = rtc_calls s"
  "r \<notin> {RTC_interrupt_ctrl, RTC_register_ctrl} \<Longrightarrow> rtc (rtc_set_int_field f v s) r = rtc s r"
  by (simp_all add: rtc_set_int_field_def rtc_set_reg_def)

lemma upd_inst_simps [simp]:
  "rtc (upd_inst g s) = rtc s" "rtc_calls (upd_inst g s) = rtc_calls s" "rtc_instance (upd_inst g s) = g (rtc_instance s)"
  "rtc_get_int_field f (upd_inst g s) = rtc_get_int_field f s" "running (upd_inst g s) = running s"
  by (simp_all add: upd_inst_def rtc_get_int_field_def running_def)

text \<open>Registers that always decode to some time: no reading of the clock or the alarm ever leaves a table.\<close>

lemma tm_of_image_total: "\<exists>t. tm_of_image LD LT d z e = Inr t"
proof -
  have "0 \<le> (field LD ''month'' d - 1) smod 12 + 1 \<and> (field LD ''month'' d - 1) smod 12 + 1 \<le> 12"
  proof (cases "field LD ''month'' d = 0")
    case True
    then show ?thesis by (simp add: signed_modulo_int_def)
  next
    case False
    moreover have "0 \<le> field LD ''month'' d" by (simp add: field_def)
    ultimately have "0 \<le> field LD ''month'' d - 1" by linarith
    then show ?thesis using pos_mod_bound [of 12 "field LD ''month'' d - 1"] by (simp add: smod_pos)
  qed
  then show ?thesis unfolding tm_of_image_def Let_def rtc_get_yday_def by simp
qed

lemma get_tm_running:
  assumes "running s"
  shows "\<exists>t. rtc_timer_get_tm s = Inr (Some t, s\<lparr>rtc_timer_date_time := t\<rparr>)"
    "\<exists>t. rtc_alarm_get_tm s = Inr (Some t, s\<lparr>rtc_alarm_date_time := t\<rparr>)"
  using tm_of_image_total [of rtc_date_t rtc_time_t "rtc s RTC_date" "rtc s RTC_time" "rtc s RTC_extended"]
    tm_of_image_total [of rtc_alarm_date_t rtc_alarm_time_t "rtc s RTC_alarm_date" "rtc s RTC_alarm_time" "rtc s RTC_extended"]
  by (auto simp: rtc_timer_get_tm_def rtc_alarm_get_tm_def running_mode [OF assms])

lemma alarm_get_tm_now: "rtc_alarm_get_tm (s\<lparr>rtc_timer_date_time := t\<rparr>) =
    (case rtc_alarm_get_tm s of Inl e \<Rightarrow> Inl e | Inr (a, s1) \<Rightarrow> Inr (a, s1\<lparr>rtc_timer_date_time := t\<rparr>))" if "running s"
proof -
  have "running (s\<lparr>rtc_timer_date_time := t\<rparr>)" using that by (simp add: running_def)
  then show ?thesis
    using running_mode [OF that] by (auto simp: running_mode rtc_alarm_get_tm_def bindr_def split: sum.split)
qed

lemma int_fields [simp]: "''tick_enable'' \<in> bf_names rtc_interrupt_ctrl_t" "''alarm_enable'' \<in> bf_names rtc_interrupt_ctrl_t"
  "''tick_int_mode'' \<in> bf_names rtc_interrupt_ctrl_t" "''alarm_compare_mask'' \<in> bf_names rtc_interrupt_ctrl_t"
  "snd (bf_pos rtc_interrupt_ctrl_t ''alarm_enable'') = 1" "snd (bf_pos rtc_interrupt_ctrl_t ''alarm_compare_mask'') = 8"
  by (simp_all add: rtc_interrupt_ctrl_t_def)

lemma alarm_registered:
  fixes m :: u8 and cb ctx :: u64
  assumes "\<not> tick_enable_by_user (rtc_instance s)"
  defines "s1 \<equiv> rtc_alarm_irq_register False m (Some cb) ctx s"
  shows "running s1" "rtc_alarm_get_interrupt s1 = 1" "rtc_alarm_get_mask s1 = m" "rtc_calls s1 = rtc_calls s"
    "rtc_alarm_callback (rtc_instance s1) = Some cb" "alarm_ctx (rtc_instance s1) = ctx"
    "\<not> alarm_is_single_shot (rtc_instance s1)" "\<not> tick_enable_by_user (rtc_instance s1)"
proof -
  have u: "take_bit 8 (unat m) = unat m" using unsigned_less [where 'a = nat, of m] by (simp add: take_bit_nat_eq_self)
  show "running s1" "rtc_alarm_get_interrupt s1 = 1" "rtc_alarm_get_mask s1 = m" "rtc_calls s1 = rtc_calls s"
    "rtc_alarm_callback (rtc_instance s1) = Some cb" "alarm_ctx (rtc_instance s1) = ctx"
    "\<not> alarm_is_single_shot (rtc_instance s1)" "\<not> tick_enable_by_user (rtc_instance s1)"
    using assms(1)
    by (simp_all add: s1_def rtc_alarm_irq_register_def Let_def rtc_tick_set_interrupt_def rtc_alarm_set_interrupt_def
        rtc_alarm_set_mask_def rtc_tick_set_interrupt_mode_def rtc_alarm_get_interrupt_def rtc_alarm_get_mask_def int_field_get_set
        word_unat_eq_iff unsigned_ucast_eq u unsigned_take_bit_eq)
qed

lemma no_compare_matches: "\<not> compares_tm m \<Longrightarrow> alarm_matches m a b"
  by (simp add: compares_tm_def alarm_matches_def)

text \<open>
  With an alarm registered to repeat and no tick of the user's, the handler reads the clock and the alarm time without fault, whatever
  the registers hold, and calls the function of the alarm exactly when its comparison \<open>alarm_matches\<close> holds of the two times.
\<close>

lemma rtc_alarm_fires:
  assumes "\<not> tick_enable_by_user (rtc_instance s)" and "m AND 0xFE \<noteq> 0"
  shows "\<exists>now alarm s1 s2 s3. rtc_timer_get_tm (rtc_alarm_irq_register False m (Some cb) ctx s) = Inr (Some now, s1) \<and>
    rtc_alarm_get_tm (rtc_alarm_irq_register False m (Some cb) ctx s) = Inr (Some alarm, s2) \<and>
    rtc_irq_callback (rtc_alarm_irq_register False m (Some cb) ctx s) = Inr (0, s3) \<and>
    rtc_calls s3 = rtc_calls s @ (if alarm_matches m now alarm then [(cb, ctx)] else [])"
proof -
  let ?s = "rtc_alarm_irq_register False m (Some cb) ctx s"
  note r = alarm_registered [OF assms(1), of m cb ctx]
  obtain now alarm where n: "rtc_timer_get_tm ?s = Inr (Some now, ?s\<lparr>rtc_timer_date_time := now\<rparr>)"
    and a: "rtc_alarm_get_tm ?s = Inr (Some alarm, ?s\<lparr>rtc_alarm_date_time := alarm\<rparr>)" using get_tm_running [OF r(1)] by blast
  let ?t = "?s\<lparr>rtc_alarm_date_time := alarm, rtc_timer_date_time := now\<rparr>"
  have i: "rtc_alarm_get_interrupt (?s\<lparr>rtc_timer_date_time := now\<rparr>) = 1" "rtc_alarm_get_mask ?t = m"
    using r(2,3) by (simp_all add: rtc_alarm_get_interrupt_def rtc_get_int_field_def rtc_alarm_get_mask_def)
  have al: "irq_alarm (Some now) (?s\<lparr>rtc_timer_date_time := now\<rparr>) =
      Inr (if alarm_matches m now alarm then ?t\<lparr>rtc_calls := rtc_calls s @ [(cb, ctx)]\<rparr> else ?t)"
    using assms(2) i r a no_compare_matches [of m now alarm]
    by (auto simp: irq_alarm_def alarm_get_tm_now [OF r(1)] Let_def call_back_def)
  show ?thesis
    using n a al r by (cases "alarm_matches m now alarm") (simp_all add: rtc_irq_callback_def irq_tick_def)
qed

text \<open>The weekday bit of a mask is never looked at: with it alone the alarm goes off at every tick.\<close>

lemma week_mask_ignored: "alarm_matches 0x10 now alarm"
  by (rule no_compare_matches) (simp add: compares_tm_def mask_bit_def bf_get_def rtc_mask_t_def drop_bit_eq_div take_bit_eq_mod)

text \<open>While the time is being set the timer reports to be running.\<close>

lemma setting_mode_reported_running: "fst (rtc_timer_get_mode (rtc_timer_set_mode RTC_TIMER_SETTING s)) = RTC_TIMER_RUNNING"
proof -
  have n: "''read_enable'' \<in> bf_names rtc_register_ctrl_t" "''write_enable'' \<in> bf_names rtc_register_ctrl_t"
    "snd (bf_pos rtc_register_ctrl_t ''read_enable'') = 1" "snd (bf_pos rtc_register_ctrl_t ''write_enable'') = 1"
    by (simp_all add: rtc_register_ctrl_t_def)
  show ?thesis
    using bf_get_set_same [where 'a = 32, OF n(1)] bf_get_set_same [where 'a = 32, OF n(2)] ctrl_ok n
    by (simp add: rtc_timer_get_mode_def rtc_timer_set_mode_eq mode_ctrl_def bf_get_set_other Let_def)
qed

lemma rtc_set_bad_month: "rtc_timer_set 2021 13 1 0 0 0 s = Inl (BadAccess ''rtc_get_yday'')"
  by (simp add: rtc_timer_set_def date_time_def rtc_get_yday_def)

end
