(* ===== verification/ProcCalls.thy ===== *)
theory ProcCalls
  imports Syscalls Rtc
begin

text \<open>
  The process system calls of \<^verbatim>\<open>src/kernel/os/syscallProc.cpp\<close>, with the wall clock of
  \<^verbatim>\<open>src/kernel/device/Clock.cpp\<close> that one of them reads.
\<close>

section \<open>Processes\<close>

definition sys_exit :: "nat \<Rightarrow> 'a kfs_scheme \<Rightarrow> 'a kfs_scheme sysres" where
  "sys_exit me s = bindr (exit_task me (argint me 0 s) s) (\<lambda>s1. Inr (Gone, s1))"

definition sys_fork :: "nat \<Rightarrow> 'a kfs_scheme \<Rightarrow> 'a kfs_scheme sysres" where
  "sys_fork me s = bindr (fork me s) (\<lambda>(pid, s1). ret pid s1)"

definition sys_clone :: "nat \<Rightarrow> 'a kfs_scheme \<Rightarrow> 'a kfs_scheme sysres" where
  "sys_clone me s =
     bindr (argaddr me 1 s) (\<lambda>(stack, s1).
       bindr (if stack = 0 then fork me s1 else clone me stack s1) (\<lambda>(pid, s2). ret pid s2))"

text \<open>The string in the page at \<open>p\<close>.\<close>

definition kstr :: "pmem \<Rightarrow> u64 \<Rightarrow> cstr" where
  "kstr m p = takeWhile (\<lambda>c. c \<noteq> 0) (read_bytes m p 4096)"

text \<open>
  The argument loop of \<^verbatim>\<open>sys_exec\<close> from argument \<open>i\<close> on: whether it succeeds, and the pages of the strings
  read so far. The array has \<open>MAXARG\<close> elements although the test allows one more.
\<close>

function exec_args ::
  "nat \<Rightarrow> u64 \<Rightarrow> nat \<Rightarrow> u64 list \<Rightarrow> 'a kfs_scheme \<Rightarrow> (bool \<times> u64 list \<times> 'a kfs_scheme) result" where
  "exec_args me uargv i pages s =
     (if i > MAXARG then Inr (False, pages, s)
      else bindr (if uargv \<noteq> 0 then fetchaddr me (uargv + 8 * of_nat i) s else Inr (0, 0)) (\<lambda>(r, uarg).
        if r < 0 then Inr (False, pages, s)
        else if i \<ge> MAXARG then Inl (BadAccess ''argv'')
        else if uarg = 0 \<or> uargv = 0 then Inr (True, pages, s)
        else let (p, s1) = ma_alloc s in
          if p = 0 then Inr (False, pages, s1)
          else bindr (fetchstr me uarg 4096 s1) (\<lambda>(r, bs).
            let s2 = s1\<lparr>mem := write_bytes (mem s1) p bs\<rparr> in
            if r < 0 then Inr (False, pages @ [p], s2) else exec_args me uargv (Suc i) (pages @ [p]) s2)))"
  by pat_completeness auto
termination by (relation "measure (\<lambda>(me, u, i, pages, s). Suc MAXARG - i)") auto

declare exec_args.simps [simp del]

primrec free_pages :: "u64 list \<Rightarrow> 'a kpages_scheme \<Rightarrow> 'a kpages_scheme result" where
  "free_pages [] s = Inr s"
| "free_pages (p # ps) s = bindr (ma_free p s) (free_pages ps)"

definition env :: "cstr option list" where
  "env = map (\<lambda>x. Some (cbytes x))
     [''SHELL=ash'', ''PWD=/'', ''HOME=/'', ''USER=root'', ''MOTD_SHOWN=pam'', ''LANG=C.UTF-8'',
      ''INVOCATION_ID=e9500a871cf044d9886a157f53826684'', ''TERM=vt220'', ''SHLVL=2'',
      ''JOURNAL_STREAM=8:9265'', ''PATH=/'', ''OLDPWD=/root'', ''_=busybox''] @ [None]"

definition sys_exec :: "nat \<Rightarrow> u64 \<Rightarrow> 'a kfs_scheme \<Rightarrow> 'a kfs_scheme sysres" where
  "sys_exec me kb s =
     bindr (argstr me 0 MAXPATH s) (\<lambda>(n, path, s1).
       if n < 0 then ret (- 1) s1
       else bindr (argaddr me 1 s1) (\<lambda>(uargv, s2).
         if strlen path < 1 then ret (- 1) s2
         else bindr (exec_args me uargv 0 [] s2) (\<lambda>(ok, pages, s3).
           if \<not> ok then bindr (free_pages pages s3) (\<lambda>s4. ret (- 1) s4)
           else bindr (calAbsolute me path s3) (\<lambda>path1.
             let argv = map (\<lambda>p. Some (kstr (mem s3) p)) pages @ replicate (MAXARG - length pages) None in
             bindr (exec env me path1 argv kb s3) (\<lambda>(r, s4).
               bindr (free_pages pages s4) (\<lambda>s5. Inr (Ret (scast (ucast r :: u32)), s5)))))))"

definition sys_wait :: "nat \<Rightarrow> 'a kfs_scheme \<Rightarrow> 'a kfs_scheme sysres" where
  "sys_wait me s =
     bindr (argaddr me 0 s) (\<lambda>(vaddr, s1).
       bindr (wait_step me vaddr s1) (\<lambda>(r, s2). Inr (of_outcome r, s2)))"

definition sys_wait4 :: "nat \<Rightarrow> 'a kfs_scheme \<Rightarrow> 'a kfs_scheme sysres" where
  "sys_wait4 me s =
     bindr (argaddr me 1 s) (\<lambda>(uaddr, s1).
       let pid = sint (argint me 0 s1) in
       if pid = - 1 then bindr (wait_step me uaddr s1) (\<lambda>(r, s2). Inr (of_outcome r, s2))
       else bindr (wait4_check me pid s1) (\<lambda>ok.
         if \<not> ok then ret (- 1) s1
         else bindr (wait4_step me (nat pid) uaddr s1) (\<lambda>(r, s2). Inr (of_outcome r, s2))))"

definition sys_getpid :: "nat \<Rightarrow> 'a kfs_scheme \<Rightarrow> 'a kfs_scheme sysres" where
  "sys_getpid me s = ret (t_pid (the_task s me)) s"

definition sys_getppid :: "nat \<Rightarrow> 'a kfs_scheme \<Rightarrow> 'a kfs_scheme sysres" where
  "sys_getppid me s =
     bindr (nonnull ''parent'' (t_parent (the_task s me))) (\<lambda>p. ret (t_pid (the_task s p)) s)"

definition sys_sched_yield :: "nat \<Rightarrow> 'a kfs_scheme \<Rightarrow> 'a kfs_scheme sysres" where
  "sys_sched_yield me s = Inr (YieldThen 0, task_yield me s)"

definition sys_sbrk :: "nat \<Rightarrow> 'a kfs_scheme \<Rightarrow> 'a kfs_scheme sysres" where
  "sys_sbrk me s =
     bindr (argaddr me 0 s) (\<lambda>(n, s1).
       let sz = t_sz (the_task s1 me) in
       if n = 0 then Inr (Ret (scast sz), s1)
       else bindr (growtask me (ucast n) s1) (\<lambda>(r, s2). Inr (Ret (scast sz), s2)))"

definition sys_brk :: "nat \<Rightarrow> 'a kfs_scheme \<Rightarrow> 'a kfs_scheme sysres" where
  "sys_brk me s =
     bindr (argaddr me 0 s) (\<lambda>(addr, s1).
       let sz = t_sz (the_task s1 me) in
       if addr = 0 then Inr (Ret (scast sz), s1)
       else bindr (growtask me (ucast (addr - scast sz)) s1) (\<lambda>(r, s2). Inr (Ret (scast (t_sz (the_task s2 me))), s2)))"

text \<open>The fields of \<^verbatim>\<open>struct utsname\<close> in the order they are written; the last one goes to the place of \<^verbatim>\<open>version\<close>.\<close>

definition uname_fields :: "platform \<Rightarrow> (u64 \<times> u8 list) list" where
  "uname_fields pf =
     [(0, cbytes ''linux''), (65, cbytes ''debian''), (130, cbytes ''5.8.0-59-generic''),
      (195, cbytes ''#66~20.04.1-Ubuntu''),
      (260, cbytes (case pf of K210 \<Rightarrow> ''Sipeed M1 DOCK'' | QEMU \<Rightarrow> ''QEMU emulator version 4.2.1'')),
      (195, cbytes ''NIS domain name'')]"

primrec put_fields :: "(u64 \<times> u8 list) list \<Rightarrow> nat \<Rightarrow> u64 \<Rightarrow> 'a ktasks_scheme \<Rightarrow> 'a ktasks_scheme result" where
  "put_fields [] me addr s = Inr s"
| "put_fields (x # xs) me addr s =
     bindr (user_put me (addr + fst x) (snd x) s) (\<lambda>(r, s1). put_fields xs me addr s1)"

definition sys_uname :: "platform \<Rightarrow> nat \<Rightarrow> 'a kfs_scheme \<Rightarrow> 'a kfs_scheme sysres" where
  "sys_uname pf me s =
     bindr (argaddr me 0 s) (\<lambda>(addr, s1). bindr (put_fields (uname_fields pf) me addr s1) (\<lambda>s2. ret 0 s2))"

definition sys_times :: "nat \<Rightarrow> 'a kfs_scheme \<Rightarrow> 'a kfs_scheme sysres" where
  "sys_times me s =
     bindr (argaddr me 0 s) (\<lambda>(utmaddr, s1).
       let tm = taskTimes me s1 in
       bindr (user_put me utmaddr (bytes64 (tms_utime tm) @ bytes64 (tms_stime tm) @ bytes64 (tms_cutime tm) @ bytes64 (tms_cstime tm)) s1)
         (\<lambda>(r, s2). ret 0 s2))"

text \<open>\<^verbatim>\<open>sys_gettimeofday\<close>: the time comes from the clock device of the K210; on QEMU the local is never filled.\<close>

definition sys_gettimeofday :: "platform \<Rightarrow> krtc \<Rightarrow> nat \<Rightarrow> 'a kfs_scheme \<Rightarrow> 'a kfs_scheme sysres" where
  "sys_gettimeofday pf clk me s =
     bindr (argaddr me 0 s) (\<lambda>(addr, s1).
       bindr (case pf of K210 \<Rightarrow> bindr (getTimeVal clk) (\<lambda>(sec, us). Inr (bytes64 sec @ bytes64 us))
              | QEMU \<Rightarrow> Inr (take 16 (stack_junk s1))) (\<lambda>tv.
         bindr (user_put me addr tv s1) (\<lambda>(r, s2). ret 0 s2)))"

definition sleep_ticks :: "nat \<Rightarrow> u64 \<Rightarrow> int \<Rightarrow> 'a kfs_scheme \<Rightarrow> 'a kfs_scheme sysres" where
  "sleep_ticks me n v s =
     (case sleepTime_step (scast (ticks s)) n s of
        Done _ \<Rightarrow> ret v s | Sleep c \<Rightarrow> Inr (Wait c, task_sleep me c s))"

definition sys_nanosleep :: "nat \<Rightarrow> 'a kfs_scheme \<Rightarrow> 'a kfs_scheme sysres" where
  "sys_nanosleep me s =
     bindr (argaddr me 1 s) (\<lambda>(addr, s1).
       bindr (copyin (t_pagetable (the_task s1 me)) addr 16 s1) (\<lambda>(r, bs).
         if r < 0 then ret (- 1) s1
         else sleep_ticks me ((get64 bs 0 * 1000 + get64 bs 8 div 1000) div 100) 0 s1))"

definition sys_clock_gettime :: "nat \<Rightarrow> 'a kfs_scheme \<Rightarrow> 'a kfs_scheme sysres" where
  "sys_clock_gettime me s =
     (let clock_id = argint me 0 s; addr = (take 8 (stack_junk s)) in
      if clock_id \<noteq> 5 \<and> clock_id \<noteq> 0 then Inl (Panic ''clock only support CLOCK_REALTIME_COARSE'')
      else bindr (user_put me (get64 addr 0) (bytes64 (of_nat (clock_now s)) @ bytes64 (of_nat (clock_nsec s))) s)
             (\<lambda>(r, s1). ret 0 s1))"

definition sys_clock_nanosleep :: "nat \<Rightarrow> 'a kfs_scheme \<Rightarrow> 'a kfs_scheme sysres" where
  "sys_clock_nanosleep me s =
     bindr (argaddr me 2 s) (\<lambda>(request_addr, s1).
       bindr (argaddr me 3 s1) (\<lambda>(remain_addr, s2).
         bindr (copyin (t_pagetable (the_task s2 me)) request_addr 16 s2) (\<lambda>(r, bs).
           if r < 0 then ret (- 1) s2
           else sleep_ticks me ((1000 + get64 bs 8 div 1000000) div 100) 1 s2)))"

definition sys_rt_sigprocmask :: "nat \<Rightarrow> 'a kfs_scheme \<Rightarrow> 'a kfs_scheme sysres" where
  "sys_rt_sigprocmask me s =
     bindr (argaddr me 1 s) (\<lambda>(set_addr, s1). bindr (argaddr me 2 s1) (\<lambda>(old, s2). ret 0 s2))"

definition sys_kill :: "nat \<Rightarrow> 'a kfs_scheme \<Rightarrow> 'a kfs_scheme sysres" where
  "sys_kill me s = bindr (task_kill (sint (argint me 0 s)) s) (\<lambda>(r, s1). ret r s1)"

definition sysinfo_bytes :: "'a kfs_scheme \<Rightarrow> u8 list" where
  "sysinfo_bytes s =
     bytes64 (of_int (sint (ticks s * 100) div 1000)) @ take 24 (stack_junk s) @ bytes64 (ma_TotalMemOfBytes s)
     @ bytes64 (ma_FreeMemOfBytes s) @ bytes64 0 @ bytes64 0 @ take 8 (stack_junk s) @ bytes64 0
     @ bytes16 (of_nat (CountOfTask s)) @ take 22 (stack_junk s)"

definition sys_sysinfo :: "nat \<Rightarrow> 'a kfs_scheme \<Rightarrow> 'a kfs_scheme sysres" where
  "sys_sysinfo me s =
     bindr (argaddr me 0 s) (\<lambda>(uaddr, s1).
       bindr (either_copyout (t_pagetable (the_task s1 me)) (t_pagetable (the_task s1 me) \<noteq> 0) uaddr (sysinfo_bytes s1) s1)
         (\<lambda>(r, s2). if r < 0 then ret (- 1) s2 else ret 0 s2))"

end
