(* ===== verification/Traps.thy ===== *)
theory Traps
  imports ProcCalls
begin

text \<open>
  The system call dispatcher of \<^verbatim>\<open>src/kernel/os/syscall.cpp\<close> and the trap handlers of
  \<^verbatim>\<open>src/kernel/os/trap.cpp\<close>. The values of the machine registers at the trap and what the interrupt
  controller and the console device return are arguments.
\<close>

section \<open>Dispatch\<close>

text \<open>
  What a build fixes or a device supplies: the platform, the address of the buffers of \<^verbatim>\<open>exec\<close>, the clock.
\<close>

record machine =
  mc_platform :: platform
  mc_kb :: u64
  mc_rtc :: krtc

text \<open>
  The table \<^verbatim>\<open>syscalls\<close> as \<^verbatim>\<open>syscall_init\<close> fills it. \<open>legacy\<close> holds the handlers that go through the older
  file-system layer: \<^verbatim>\<open>mkdirat\<close>, \<^verbatim>\<open>umount2\<close>, \<^verbatim>\<open>mount\<close> and \<^verbatim>\<open>chdir\<close>; they are \<open>legacy_calls\<close> of the theory \<open>OldVfs\<close>.
\<close>

datatype legacy_call = MKDIRAT | UMOUNT2 | MOUNT | CHDIR

definition syscall_init ::
  "(legacy_call \<Rightarrow> nat \<Rightarrow> 'a kfs_scheme \<Rightarrow> 'a kfs_scheme sysres) \<Rightarrow> machine
     \<Rightarrow> (nat \<times> (nat \<Rightarrow> 'a kfs_scheme \<Rightarrow> 'a kfs_scheme sysres)) list" where
  "syscall_init legacy mc =
     [(221, \<lambda>me. sys_exec me (mc_kb mc)), (2, sys_open), (64, sys_write), (65, sys_readv), (66, sys_writev),
      (78, sys_readlinkat), (63, sys_read), (23, sys_dup), (24, sys_dup3), (25, sys_fcntl), (29, \<lambda>me. ret 0),
      (17, sys_getcwd), (154, \<lambda>me. ret 0), (155, \<lambda>me. ret 0), (172, sys_getpid), (173, sys_getppid),
      (174, \<lambda>me. ret 0), (175, \<lambda>me. ret 0), (178, sys_getpid), (1, sys_fork), (220, sys_clone), (93, sys_exit),
      (94, sys_exit), (3, sys_wait), (260, sys_wait4), (48, sys_faccessat), (49, legacy CHDIR), (57, sys_close),
      (34, legacy MKDIRAT), (56, sys_openat), (124, sys_sched_yield), (214, sys_brk), (4, sys_sbrk),
      (160, sys_uname (mc_platform mc)), (59, sys_pipe), (61, sys_getdents64), (62, sys_lseek), (40, legacy MOUNT),
      (39, legacy UMOUNT2), (129, sys_kill), (134, \<lambda>me. ret 0), (135, sys_rt_sigprocmask), (153, sys_times),
      (169, sys_gettimeofday (mc_platform mc) (mc_rtc mc)), (179, sys_sysinfo), (222, sys_mmap), (215, sys_munmap),
      (79, sys_fstatat), (80, sys_fstat), (88, sys_utimensat), (35, sys_unlinkat), (101, sys_nanosleep),
      (115, sys_clock_nanosleep), (113, sys_clock_gettime), (71, \<lambda>me. ret (- 1)), (73, sys_ppoll),
      (96, \<lambda>me. ret 0), (226, \<lambda>me. ret 0), (261, sys_prlimit64), (116, sys_syslog)]"

definition tf_a7 :: u64 where "tf_a7 = 168"

text \<open>
  \<^verbatim>\<open>syscall\<close>: the value returned goes to the saved \<open>a0\<close>. A number without a handler stops the kernel, after
  the second argument was read as a string for the message.
\<close>

definition syscall ::
  "(legacy_call \<Rightarrow> nat \<Rightarrow> 'a kfs_scheme \<Rightarrow> 'a kfs_scheme sysres) \<Rightarrow> machine \<Rightarrow> nat
     \<Rightarrow> 'a kfs_scheme \<Rightarrow> 'a kfs_scheme sysres" where
  "syscall legacy mc me s =
     (let num = sint (ucast (get_tf me tf_a7 s) :: u32) in
      case (if 0 < num \<and> num < 400 then map_of (syscall_init legacy mc) (nat num) else None) of
        Some h \<Rightarrow> bindr (h me s) (\<lambda>(r, s1).
          case r of Ret v \<Rightarrow> Inr (Ret v, set_tf me (tf_arg 0) v s1)
          | YieldThen v \<Rightarrow> Inr (YieldThen v, set_tf me (tf_arg 0) v s1)
          | Wait c \<Rightarrow> Inr (Wait c, s1)
          | Gone \<Rightarrow> Inr (Gone, s1))
      | None \<Rightarrow> bindr (argstr me 1 50 s) (\<lambda>_. Inl (Panic ''syscall error'')))"

section \<open>Interrupts\<close>

definition UART_IRQ :: "platform \<Rightarrow> u32" where
  "UART_IRQ pf = (case pf of QEMU \<Rightarrow> 10 | K210 \<Rightarrow> 33)"
definition VIRTIO_IRQ :: u32 where "VIRTIO_IRQ = 1"
definition DMA0_IRQ :: u32 where "DMA0_IRQ = 27"

text \<open>
  What the devices say at an interrupt: \<^verbatim>\<open>scause\<close>, \<^verbatim>\<open>stval\<close>, \<^verbatim>\<open>sstatus\<close>, \<^verbatim>\<open>sepc\<close>, the number \<^verbatim>\<open>plic::claim\<close> returns
  and the character of \<^verbatim>\<open>sbi_console_getchar\<close> (\<open>None\<close> for -1).
\<close>

record trapregs =
  r_scause :: u64
  r_stval :: u64
  r_sstatus :: u64
  r_sepc :: u64
  plic_claim :: u32
  sbi_getchar :: "u8 option"

definition SSTATUS_SPP :: u64 where "SSTATUS_SPP = 0x100"
definition SSTATUS_SPIE :: u64 where "SSTATUS_SPIE = 0x20"

definition external_intr :: "platform \<Rightarrow> trapregs \<Rightarrow> bool" where
  "external_intr pf r =
     (case pf of QEMU \<Rightarrow> 0x8000000000000000 AND r_scause r \<noteq> 0 \<and> r_scause r AND 0xff = 9
      | K210 \<Rightarrow> r_scause r = 0x8000000000000001 \<and> r_stval r = 9)"

text \<open>
  \<^verbatim>\<open>device_intr\<close>: 2 for the timer, 1 for another device, 0 for none. \<open>disk\<close> is the handler of the disk driver
  (\<^verbatim>\<open>VirtioIntr\<close> or \<^verbatim>\<open>dmac_intr\<close>), \<open>cur\<close> the running task.
\<close>

definition device_intr ::
  "('a kfs_scheme \<Rightarrow> 'a kfs_scheme result) \<Rightarrow> platform \<Rightarrow> nat option \<Rightarrow> trapregs \<Rightarrow> 'a kfs_scheme \<Rightarrow> (nat \<times> 'a kfs_scheme) result" where
  "device_intr disk pf cur r s =
     (if external_intr pf r then
        bindr (if plic_claim r = UART_IRQ pf then
                 (case sbi_getchar r of None \<Rightarrow> Inr s | Some c \<Rightarrow> console_intr pf c s)
               else if plic_claim r = DMA0_IRQ then (case pf of K210 \<Rightarrow> disk s | QEMU \<Rightarrow> Inr s)
               else if plic_claim r = VIRTIO_IRQ then (case pf of QEMU \<Rightarrow> disk s | K210 \<Rightarrow> Inr s)
               else Inr s) (\<lambda>s1. Inr (1, s1))
      else if r_scause r = 0x8000000000000005 then
        bindr (handleIntr cur (r_sstatus r AND SSTATUS_SPP = 0) s) (\<lambda>s1. Inr (2, s1))
      else Inr (0, s))"

section \<open>Traps\<close>

definition MAKE_SATP :: "u64 \<Rightarrow> u64" where
  "MAKE_SATP pt = 0x8000000000000000 OR drop_bit 12 pt"

text \<open>The registers of the return to user mode, and the values the kernel side keeps for the next trap.\<close>

record userregs =
  u_sepc :: u64
  u_sstatus :: u64
  u_satp :: u64

record hart =
  h_satp :: u64
  h_tp :: u64
  h_usertrap :: u64

definition usertrapret :: "hart \<Rightarrow> nat \<Rightarrow> u64 \<Rightarrow> 'a kfs_scheme \<Rightarrow> userregs \<times> 'a kfs_scheme" where
  "usertrapret h me sstatus s =
     (let s1 = set_tf me tf_kernel_hartid (h_tp h) (set_tf me tf_kernel_trap (h_usertrap h)
                 (set_tf me tf_kernel_sp (t_kstack (the_task s me) + PGSIZE)
                   (set_tf me tf_kernel_satp (h_satp h) s)))
      in (\<lparr>u_sepc = get_tf me tf_epc s1,
           u_sstatus = (sstatus AND NOT SSTATUS_SPP) OR SSTATUS_SPIE,
           u_satp = MAKE_SATP (t_pagetable (the_task s1 me))\<rparr>, s1))"

text \<open>
  How a trap from user mode ends: back in user mode; waiting in a system call on a channel; having given up
  the processor (after a system call the check for \<^verbatim>\<open>killed\<close> is still to come); or with the end of the task.
\<close>

datatype trapout = Returned userregs | Blocked chan | YieldCall | YieldTimer | Exited

definition trap_exit :: "nat \<Rightarrow> 'a kfs_scheme \<Rightarrow> (trapout \<times> 'a kfs_scheme) result" where
  "trap_exit me s = bindr (exit_task me (- 1) s) (\<lambda>s1. Inr (Exited, s1))"

text \<open>The end of \<^verbatim>\<open>usertrap\<close>, from the test of \<^verbatim>\<open>killed\<close> on.\<close>

definition usertrap_end ::
  "hart \<Rightarrow> nat \<Rightarrow> nat \<Rightarrow> u64 \<Rightarrow> 'a kfs_scheme \<Rightarrow> (trapout \<times> 'a kfs_scheme) result" where
  "usertrap_end h me which_dev sstatus s =
     (if t_killed (the_task s me) then trap_exit me s
      else if which_dev = 2 then Inr (YieldTimer, task_yield me s)
      else let (u, s1) = usertrapret h me sstatus s in Inr (Returned u, s1))"

definition is_page_fault :: "u64 \<Rightarrow> bool" where
  "is_page_fault scause \<longleftrightarrow>
     scause = 1 \<or> scause = 13 \<or> scause = 5 \<or> scause = 12 \<or> scause = 15 \<or> scause = 7"

definition kill_me :: "nat \<Rightarrow> 'a ktasks_scheme \<Rightarrow> 'a ktasks_scheme" where
  "kill_me me s = upd_task me (\<lambda>t. t\<lparr>t_killed := True\<rparr>) s"

definition usertrap ::
  "(legacy_call \<Rightarrow> nat \<Rightarrow> 'a kfs_scheme \<Rightarrow> 'a kfs_scheme sysres) \<Rightarrow> ('a kfs_scheme \<Rightarrow> 'a kfs_scheme result) \<Rightarrow> machine
     \<Rightarrow> hart \<Rightarrow> nat \<Rightarrow> trapregs \<Rightarrow> 'a kfs_scheme \<Rightarrow> (trapout \<times> 'a kfs_scheme) result" where
  "usertrap legacy disk mc h me r s =
     (if r_sstatus r AND SSTATUS_SPP \<noteq> 0 then Inl (Panic ''usertrap: not from user mode'')
      else let s0 = set_tf me tf_epc (r_sepc r) s in
        if r_scause r = 8 then
          (if t_killed (the_task s0 me) then trap_exit me s0
           else bindr (syscall legacy mc me (set_tf me tf_epc (r_sepc r + 4) s0)) (\<lambda>(o', s1).
             case o' of Ret v \<Rightarrow> usertrap_end h me 0 (r_sstatus r) s1
             | YieldThen v \<Rightarrow> Inr (YieldCall, s1)
             | Wait c \<Rightarrow> Inr (Blocked c, s1)
             | Gone \<Rightarrow> Inr (Exited, s1)))
        else if is_page_fault (r_scause r) then
          bindr (LoadIfValid me (r_stval r) s0) (\<lambda>(loaded, s1).
            usertrap_end h me 0 (r_sstatus r) (if loaded then s1 else kill_me me s1))
        else bindr (device_intr disk (mc_platform mc) (Some me) r s0) (\<lambda>(which_dev, s1).
          if which_dev \<noteq> 0 then usertrap_end h me which_dev (r_sstatus r) s1
          else if r_scause r = 3
          then usertrap_end h me 0 (r_sstatus r) (set_tf me tf_epc (get_tf me tf_epc s1 + 4) s1)
          else usertrap_end h me 0 (r_sstatus r) (kill_me me s1)))"

text \<open>
  \<^verbatim>\<open>kerneltrap\<close>: whether the interrupted task gives up the processor. \<open>intr\<close> is \<^verbatim>\<open>intr_get()\<close>.
\<close>

definition kerneltrap ::
  "('a kfs_scheme \<Rightarrow> 'a kfs_scheme result) \<Rightarrow> platform \<Rightarrow> bool \<Rightarrow> nat option \<Rightarrow> trapregs \<Rightarrow> 'a kfs_scheme
     \<Rightarrow> (bool \<times> 'a kfs_scheme) result" where
  "kerneltrap disk pf intr cur r s =
     (if r_sstatus r AND SSTATUS_SPP = 0 then Inl (Panic ''kerneltrap: not from supervisor mode'')
      else if intr then Inl (Panic ''kerneltrap: interrupts enabled'')
      else bindr (device_intr disk pf cur r s) (\<lambda>(which_dev, s1).
        if which_dev = 0 then Inl (Panic ''kerneltrap'')
        else case cur of None \<Rightarrow> Inr (False, s1)
        | Some me \<Rightarrow>
            if which_dev = 2 \<and> t_state (the_task s1 me) = RUNNING then Inr (True, task_yield me s1)
            else Inr (False, s1)))"

end
