(* ===== verification/Boot.thy ===== *)
theory Boot
  imports Traps
begin

text \<open>
  The start of the kernel on hart 0 (\<^verbatim>\<open>src/kernel/boot/main.cpp\<close>, \<^verbatim>\<open>src/kernel/device/DeviceManager.cpp\<close>): the initialisation
  calls in their order, and the state in which the scheduler is entered. The page table and trap registers are
  written by assembly; the interrupt controller keeps no state in the kernel.
\<close>

section \<open>Start-up\<close>

text \<open>\<^verbatim>\<open>dev::Init\<close>: \<open>disk\<close> is the only block device, the SD card or the virtio disk.\<close>

definition dev_Init :: "rwdev \<Rightarrow> 'a kbufs_scheme \<Rightarrow> 'a kbufs_scheme" where
  "dev_Init disk s = s\<lparr>rw_devs := Some (disk\<lparr>rw_name := [104, 100, 97, 49]\<rparr>) # replicate (NDEV - 1) None\<rparr>"

text \<open>
  What hart 0 does in \<^verbatim>\<open>main\<close> before it enters the scheduler, and the kernel page table it builds. \<open>etext\<close> and
  \<open>trampoline\<close> are addresses of the linker, \<open>initcode\<close> and \<open>sz\<close> the embedded program. The call that would clear the table of
  memory areas is commented out in the code.
\<close>

definition boot_main ::
  "platform \<Rightarrow> u64 \<Rightarrow> rwdev \<Rightarrow> u64 \<Rightarrow> u32 \<Rightarrow> 'a kfs_scheme \<Rightarrow> (u64 \<times> 'a kfs_scheme) result" where
  "boot_main pl etext disk initcode sz s =
     bindr (ma_init (console_init s)) (\<lambda>s1.
       bindr (initKernelVm pl etext (trampoline s) (buddy_init s1)) (\<lambda>(kernel_pagetable, s2).
         bindr (initFirstTask initcode sz (initTaskTable (dev_Init disk (bl_init (timer_init s2))))) (\<lambda>s3.
           Inr (kernel_pagetable, s3))))"

lemma freeRange_loop_more: "freeRange_loop p e s = Inr s' \<Longrightarrow> kpages.more s' = kpages.more s"
proof (induction p e s rule: freeRange_loop.induct)
  case (1 p e s)
  show ?case
  proof (cases "p + PGSIZE \<le> e")
    case True
    then obtain s1 where f: "ma_free p (s\<lparr>total_page := total_page s + 1\<rparr>) = Inr s1" "freeRange_loop (p + PGSIZE) e s1 = Inr s'"
      using 1(2) unfolding freeRange_loop.simps [of p e s] by (auto simp: bindr_eq_Inr_iff)
    then show ?thesis using 1(1) [OF True f] ma_free_more [OF f(1)] by simp
  next
    case False
    then show ?thesis using 1(2) unfolding freeRange_loop.simps [of p e s] by simp
  qed
qed

lemma kernel_vm_map_all_more: "kernel_vm_map_all pt ms s = Inr s' \<Longrightarrow> kpages.more s' = kpages.more s"
  by (induction pt ms s rule: kernel_vm_map_all.induct)
    (auto simp: kernel_vm_map_def bindr_eq_Inr_iff split: if_splits dest!: mappages_more)

lemma initKernelVm_more: "initKernelVm pl e t s = Inr (pt, s') \<Longrightarrow> kpages.more s' = kpages.more s"
  using ma_alloc_more [of s]
  by (auto simp: initKernelVm_def bindr_eq_Inr_iff split: prod.splits if_splits dest!: kernel_vm_map_all_more)

lemma UserVmInit_page_more: "UserVmInit_page pt va src n s = Inr s' \<Longrightarrow> kpages.more s' = kpages.more s"
  using ma_alloc_more [of s]
  by (auto simp: UserVmInit_page_def bindr_eq_Inr_iff split: prod.splits if_splits dest!: mappages_more)

lemma UserVmInit_more: "UserVmInit pt src n s = Inr s' \<Longrightarrow> kpages.more s' = kpages.more s"
  by (auto simp: UserVmInit_def bindr_eq_Inr_iff dest!: UserVmInit_page_more)

text \<open>Allocating a task changes, besides memory, the entry of that task only.\<close>

lemma upd_task_more: "kpages.more x = kpages.more y \<Longrightarrow> kpages.more (upd_task i g x) = kpages.more (upd_task i g y)"
  by (cases x; cases y; simp add: upd_task_def)

lemma upd_task_upd_task: "upd_task i f (upd_task i g s) = upd_task i (f \<circ> g) s"
  by (cases "i < length (taskTable s)") (simp_all add: upd_task_def list_update_beyond)

lemma allocTask_frame:
  assumes "allocTask s = Inr (Some i, s')"
  obtains g where "find_unused s = Some i" "kpages.more s' = kpages.more (upd_task i g s)" "\<And>t. t_state (g t) = t_state t"
proof -
  obtain tf s1 where m: "ma_alloc s = (tf, s1)" by fastforce
  let ?f = "\<lambda>t. t\<lparr>t_trapframe := tf\<rparr>"
  obtain pt s2 where a: "find_unused s = Some i" "taskPagetable tf (upd_task i ?f s1) = Inr (pt, s2)"
      "s' = upd_task i (\<lambda>t. t\<lparr>t_pagetable := pt, t_vma := replicate NOMMAPFILE None, t_openFiles := replicate NOFILE None,
          t_ctx_sp := t_kstack t + KSTACK_SIZE, t_ctx_ra := forkret_addr s\<rparr>) (s2\<lparr>mem := memset (mem s2) tf 0 sizeof_trapframe\<rparr>)"
    using assms m unfolding allocTask_def by (auto simp: Let_def bindr_eq_Inr_iff split: option.splits if_splits)
  let ?g = "\<lambda>t. t\<lparr>t_pagetable := pt, t_vma := replicate NOMMAPFILE None, t_openFiles := replicate NOFILE None,
          t_ctx_sp := t_kstack t + KSTACK_SIZE, t_ctx_ra := forkret_addr s\<rparr>"
  have "kpages.more (s2\<lparr>mem := memset (mem s2) tf 0 sizeof_trapframe\<rparr>) = kpages.more (upd_task i ?f s)"
    using taskPagetable_more [OF a(2)] upd_task_more [OF ma_alloc_pair [OF m], of i ?f] by simp
  then have "kpages.more s' = kpages.more (upd_task i (?g \<circ> ?f) s)"
    using upd_task_more [of _ "upd_task i ?f s" i ?g] unfolding a(3) upd_task_upd_task [symmetric] by blast
  then show ?thesis using a(1) by (intro that [of "?g \<circ> ?f"]) simp_all
qed

lemma kbufs_of_more: "kpages.more s' = kpages.more s \<Longrightarrow> bufCache s' = bufCache s \<and> rw_devs s' = rw_devs s"
  by (cases s; cases s'; auto)

text \<open>
  When start-up succeeds, the first process is in entry 1, ready to run and named as the initial task, every other entry is unused
  with its own number and stack, the cluster cache is empty, the clock ticks from 0, and the one disk is device 0.
\<close>

lemma boot_main_state:
  assumes "boot_main pl etext disk initcode sz s = Inr (kpt, s')"
  shows "table_shape s'" "initTask s' = Some 1" "t_state (the_task s' 1) = RUNNABLE"
    "\<And>i. i < NTASK \<Longrightarrow> i \<noteq> 1 \<Longrightarrow> t_state (the_task s' i) = UNUSED" "bufCache s' = replicate BUFFER_NUM buf_zero" "ticks s' = 0"
    "rw_devs s' = Some (disk\<lparr>rw_name := [104, 100, 97, 49]\<rparr>) # replicate (NDEV - 1) None"
proof -
  obtain s2 where i: "initFirstTask initcode sz (initTaskTable (dev_Init disk (bl_init (timer_init s2)))) = Inr s'"
    using assms unfolding boot_main_def by (auto simp: bindr_eq_Inr_iff)
  define b where "b = initTaskTable (dev_Init disk (bl_init (timer_init s2)))"
  have b: "length (taskTable b) = NTASK" "\<And>k. k < NTASK \<Longrightarrow> t_state (the_task b k) = UNUSED" "ticks b = 0"
      "bufCache b = replicate BUFFER_NUM buf_zero" "rw_devs b = Some (disk\<lparr>rw_name := [104, 100, 97, 49]\<rparr>) # replicate (NDEV - 1) None"
    by (simp_all add: b_def initTaskTable_def dev_Init_def bl_init_def timer_init_def the_task_def initTask_entry_def)
  have f1: "find_unused b = Some 1" using b(2) by (simp add: find_unused_def NTASK_def upt_conv_Cons)
  obtain c s3 s4 where a: "allocTask b = Inr (Some c, s3)" "UserVmInit (t_pagetable (the_task s3 c)) initcode sz s3 = Inr s4"
    and s'0: "s' = (upd_task c (\<lambda>t. t\<lparr>t_sz := ucast (PGSIZE + PGSIZE),
        t_name := [105, 110, 105, 116, 99, 111, 100, 101, 0] @ take 7 (stack_junk b), t_currentDir := (t_currentDir t)[0 := 47],
        t_state := RUNNABLE\<rparr>) (set_tf c tf_sp (PGSIZE * 2) (set_tf c tf_epc 0x106 s4)))\<lparr>initTask := Some c\<rparr>"
    using i [folded b_def] unfolding initFirstTask_def
    by (auto simp: bindr_eq_Inr_iff nonnull_def Let_def split: option.splits)
  obtain g where g: "find_unused b = Some c" "kpages.more s3 = kpages.more (upd_task c g b)" "\<And>t. t_state (g t) = t_state t"
    by (rule allocTask_frame [OF a(1)]) (rule that)
  have c: "c = 1" using g(1) f1 by simp
  define h :: "task \<Rightarrow> task" where "h = (\<lambda>t. t\<lparr>t_sz := ucast (PGSIZE + PGSIZE),
        t_name := [105, 110, 105, 116, 99, 111, 100, 101, 0] @ take 7 (stack_junk b), t_currentDir := (t_currentDir t)[0 := 47],
        t_state := RUNNABLE\<rparr>)"
  define s5 where "s5 = set_tf c tf_sp (PGSIZE * 2) (set_tf c tf_epc 0x106 s4)"
  have s'1: "s' = (upd_task c h s5)\<lparr>initTask := Some c\<rparr>" using s'0 unfolding h_def s5_def .
  have m: "kpages.more s5 = kpages.more (upd_task 1 g b)"
    using g(2) UserVmInit_more [OF a(2)] by (simp add: s5_def set_tf_def c)
  have sh: "table_shape s5"
    using allocTask_shape [OF a(1)] table_shape_more [OF UserVmInit_more [OF a(2)]] initTaskTable_shape [of "dev_Init disk (bl_init (timer_init s2))"]
    by (simp add: s5_def set_tf_def b_def)
  have "table_shape (upd_task c h s5)" using sh by (rule table_shape_upd) (simp add: task_shape_def h_def)
  then show "table_shape s'" unfolding s'1 by (simp add: table_shape_def the_task_def)
  have tt: "taskTable s5 = (taskTable b)[1 := g (taskTable b ! 1)]" using ktasks_of_more(1) [OF m] by (simp add: upd_task_def)
  have ts: "taskTable s' = (taskTable s5)[1 := h (taskTable s5 ! 1)]" by (simp add: s'1 c upd_task_def)
  show "initTask s' = Some 1" by (simp add: s'1 c)
  show "t_state (the_task s' 1) = RUNNABLE" using b(1) by (simp add: the_task_def ts tt NTASK_def h_def)
  show "t_state (the_task s' k) = UNUSED" if "k < NTASK" "k \<noteq> 1" for k
    using that(2) b(2) [OF that(1)] by (simp add: the_task_def ts tt)
  show "bufCache s' = replicate BUFFER_NUM buf_zero" "ticks s' = 0"
    "rw_devs s' = Some (disk\<lparr>rw_name := [104, 100, 97, 49]\<rparr>) # replicate (NDEV - 1) None"
    using kbufs_of_more [OF m] ktasks_of_more(4) [OF m] b(3-5) by (simp_all add: s'1 upd_task_def)
qed

end
