(* ===== verification/Virtio.thy ===== *)
theory Virtio
  imports BufferCache
begin

unbundle bit_operations_syntax

text \<open>
  The virtio disk driver of the QEMU platform, \<^verbatim>\<open>src/kernel/driver/virtio.cpp\<close>: descriptor allocation, the request
  \<^verbatim>\<open>VirtioRw\<close> split at its two sleeps, and the interrupt handler. Tasks, device and interrupts interleave in the step
  relation \<open>vstep\<close>; the device is a parameter that follows the virtio protocol, with or without errors. The theory also has the ring
  arithmetic: the entries between two free-running 16-bit indices.
\<close>

lemma unat_diff_step:
  fixes a b :: "'a::len word" assumes "b \<noteq> a" shows "unat (a - (b + 1)) < unat (a - b)"
proof -
  have "a - b \<noteq> 0" using assms by simp
  then have "unat (a - b - 1) = unat (a - b) - 1" "0 < unat (a - b)" by (simp_all add: unat_minus_one unat_gt_0)
  then show ?thesis by (simp add: diff_diff_eq)
qed

section \<open>The driver's structures\<close>

definition NUM :: nat where "NUM = 8"
definition SECTOR_SIZE :: nat where "SECTOR_SIZE = 512"

definition VRING_DESC_F_NEXT :: u16 where "VRING_DESC_F_NEXT = 1"
definition VRING_DESC_F_WRITE :: u16 where "VRING_DESC_F_WRITE = 2"
definition VIRTIO_BLK_T_IN :: u32 where "VIRTIO_BLK_T_IN = 0"
definition VIRTIO_BLK_T_OUT :: u32 where "VIRTIO_BLK_T_OUT = 1"

record virtq_desc =
  dsc_addr :: u64
  dsc_len :: u32
  dsc_flags :: u16
  dsc_next :: u16

record virtio_blk_req =
  req_type :: u32
  req_reserved :: u32
  req_sector :: u64

record vinfo =
  vi_data :: u64
  vi_finish :: bool
  vi_status :: u8

text \<open>
  \<^verbatim>\<open>struct VirtioDisk\<close>. \<open>vd_base\<close> is its address, which places the command headers \<open>ops\<close> and the status bytes of
  \<open>info\<close>; the three regions of \<^verbatim>\<open>pages\<close> are the fields \<open>vd_desc\<close>, \<open>avail_idx\<close>/\<open>avail_ring\<close> and \<open>used_idx\<close>/\<open>used_ring\<close>,
  and \<open>vd_used_idx\<close> is the driver's own index.
\<close>

record vdisk =
  vd_base :: u64
  vd_desc :: "nat \<Rightarrow> virtq_desc"
  avail_idx :: u16
  avail_ring :: "nat \<Rightarrow> u16"
  used_idx :: u16
  used_ring :: "nat \<Rightarrow> u32 \<times> u32"
  vd_free :: "nat \<Rightarrow> bool"
  vd_used_idx :: u16
  vd_info :: "nat \<Rightarrow> vinfo"
  vd_ops :: "nat \<Rightarrow> virtio_blk_req"

definition ops_addr :: "vdisk \<Rightarrow> nat \<Rightarrow> u64" where
  "ops_addr d i = vd_base d + 8360 + 16 * of_nat i"

definition status_addr :: "vdisk \<Rightarrow> nat \<Rightarrow> u64" where
  "status_addr d i = vd_base d + 8232 + 16 * of_nat i + 9"

definition desc_zero :: virtq_desc where
  "desc_zero = \<lparr>dsc_addr = 0, dsc_len = 0, dsc_flags = 0, dsc_next = 0\<rparr>"

section \<open>Initialisation\<close>

text \<open>
  \<^verbatim>\<open>VirtioInit\<close>: \<open>R\<close> gives the values of the device registers the driver reads, the result holds the register
  writes in their order. The queue page number is the address of \<^verbatim>\<open>pages\<close>, the first field, shifted.
\<close>

definition VirtioInit_features :: "u32 \<Rightarrow> u32" where
  "VirtioInit_features f =
     ucast ((ucast f :: u64) AND NOT (push_bit 5 1) AND NOT (push_bit 7 1) AND NOT (push_bit 11 1)
       AND NOT (push_bit 12 1) AND NOT (push_bit 27 1) AND NOT (push_bit 29 1) AND NOT (push_bit 28 1))"

definition VirtioInit :: "(nat \<Rightarrow> u32) \<Rightarrow> vdisk \<Rightarrow> ((nat \<times> u32) list \<times> vdisk) result" where
  "VirtioInit R d =
     (if R 0x000 \<noteq> 0x74726976 \<or> R 0x004 \<noteq> 1 \<or> R 0x008 \<noteq> 2 \<or> R 0x00c \<noteq> 0x554d4551
      then Inl (Panic ''could not find virtio disk'')
      else if R 0x034 = 0 then Inl (Panic ''virtio disk has no queue 0'')
      else if R 0x034 < of_nat NUM then Inl (Panic ''virtio disk max queue too short'')
      else Inr ([(0x070, 1), (0x070, 3), (0x020, VirtioInit_features (R 0x010)), (0x070, 11), (0x070, 15),
                 (0x028, 4096), (0x030, 0), (0x038, of_nat NUM), (0x040, ucast (drop_bit 12 (vd_base d)))],
                d\<lparr>vd_desc := \<lambda>_. desc_zero, avail_idx := 0, avail_ring := \<lambda>_. 0,
                  used_idx := 0, used_ring := \<lambda>_. (0, 0), vd_free := (\<lambda>i. if i < NUM then True else vd_free d i)\<rparr>))"

section \<open>Descriptors\<close>

definition alloc_desc :: "vdisk \<Rightarrow> int \<times> vdisk" where
  "alloc_desc d =
     (case List.find (\<lambda>i. vd_free d i) [0..<NUM] of
        Some i \<Rightarrow> (int i, d\<lparr>vd_free := (vd_free d)(i := False)\<rparr>)
      | None \<Rightarrow> (- 1, d))"

definition free_desc :: "int \<Rightarrow> vdisk \<Rightarrow> 'a ktasks_scheme \<Rightarrow> (vdisk \<times> 'a ktasks_scheme) result" where
  "free_desc i d s =
     (if int NUM \<le> i then Inl (Panic ''free_desc 1'')
      else if i < 0 then Inl (BadAccess ''free_desc'')
      else if vd_free d (nat i) then Inl (Panic ''free_desc 2'')
      else Inr (d\<lparr>vd_desc := (vd_desc d)(nat i := desc_zero), vd_free := (vd_free d)(nat i := True)\<rparr>,
                wakeup ChDesc s))"

definition used_descs :: "vdisk \<Rightarrow> nat" where
  "used_descs d = card {i. i < NUM \<and> \<not> vd_free d i}"

lemma free_desc_used: "free_desc i d s = Inr (d1, s1) \<Longrightarrow> used_descs d1 < used_descs d"
proof -
  assume a: "free_desc i d s = Inr (d1, s1)"
  then have i: "0 \<le> i" "i < int NUM" "\<not> vd_free d (nat i)"
    and d1: "vd_free d1 = (vd_free d)(nat i := True)" by (auto simp: free_desc_def split: if_splits)
  have "{j. j < NUM \<and> \<not> vd_free d1 j} = {j. j < NUM \<and> \<not> vd_free d j} - {nat i}" by (auto simp: d1)
  moreover have "nat i \<in> {j. j < NUM \<and> \<not> vd_free d j}" using i by auto
  ultimately show ?thesis unfolding used_descs_def by (simp only:) (rule card_Diff1_less, auto)
qed

text \<open>
  \<^verbatim>\<open>free_chain\<close>. A chain that comes back to a released descriptor ends in the panic of \<^verbatim>\<open>free_desc\<close>, so the loop ends
  on every chain: no more than \<^const>\<open>NUM\<close> descriptors can be released.
\<close>

function free_chain :: "int \<Rightarrow> vdisk \<Rightarrow> 'a ktasks_scheme \<Rightarrow> (vdisk \<times> 'a ktasks_scheme) result" where
  "free_chain i d s =
     bindr (free_desc i d s) (\<lambda>(d1, s1).
        if dsc_flags (vd_desc d (nat i)) AND VRING_DESC_F_NEXT \<noteq> 0
        then free_chain (int (unat (dsc_next (vd_desc d (nat i))))) d1 s1
        else Inr (d1, s1))"
  by pat_completeness auto
termination
  by (relation "measure (\<lambda>(i, d, s). used_descs d)") (auto intro: free_desc_used)

declare free_chain.simps [simp del]

fun free_descs :: "int list \<Rightarrow> vdisk \<Rightarrow> 'a ktasks_scheme \<Rightarrow> (vdisk \<times> 'a ktasks_scheme) result" where
  "free_descs [] d s = Inr (d, s)"
| "free_descs (i # is) d s = bindr (free_desc i d s) (\<lambda>(d1, s1). free_descs is d1 s1)"

fun alloc3_loop :: "nat \<Rightarrow> int list \<Rightarrow> vdisk \<Rightarrow> 'a ktasks_scheme \<Rightarrow> (int list option \<times> vdisk \<times> 'a ktasks_scheme) result" where
  "alloc3_loop 0 idx d s = Inr (Some idx, d, s)"
| "alloc3_loop (Suc k) idx d s =
     (let (i, d1) = alloc_desc d in
      if i < 0 then bindr (free_descs idx d1 s) (\<lambda>(d2, s2). Inr (None, d2, s2))
      else alloc3_loop k (idx @ [i]) d1 s)"

definition alloc3_desc :: "vdisk \<Rightarrow> 'a ktasks_scheme \<Rightarrow> (int list option \<times> vdisk \<times> 'a ktasks_scheme) result" where
  "alloc3_desc d s = alloc3_loop 3 [] d s"

section \<open>Requests\<close>

text \<open>The three descriptors of a request, its header, its entry of \<^verbatim>\<open>info\<close> and the entry of the available ring.\<close>

definition VirtioRw_format :: "u64 \<Rightarrow> u64 \<Rightarrow> bool \<Rightarrow> nat \<Rightarrow> nat \<Rightarrow> nat \<Rightarrow> vdisk \<Rightarrow> vdisk" where
  "VirtioRw_format buf sector write i0 i1 i2 d =
     d\<lparr>vd_ops := (vd_ops d)(i0 := \<lparr>req_type = (if write then VIRTIO_BLK_T_OUT else VIRTIO_BLK_T_IN), req_reserved = 0,
                             req_sector = sector\<rparr>),
       vd_desc := (vd_desc d)
         (i0 := \<lparr>dsc_addr = ops_addr d i0, dsc_len = 16, dsc_flags = VRING_DESC_F_NEXT, dsc_next = of_nat i1\<rparr>,
          i1 := \<lparr>dsc_addr = buf, dsc_len = of_nat SECTOR_SIZE,
                 dsc_flags = (if write then 0 else VRING_DESC_F_WRITE) OR VRING_DESC_F_NEXT, dsc_next = of_nat i2\<rparr>,
          i2 := \<lparr>dsc_addr = status_addr d i0, dsc_len = 1, dsc_flags = VRING_DESC_F_WRITE, dsc_next = 0\<rparr>),
       vd_info := (vd_info d)(i0 := \<lparr>vi_data = buf, vi_finish = False, vi_status = 0xff\<rparr>),
       avail_ring := (avail_ring d)(unat (avail_idx d) mod NUM := of_nat i0),
       avail_idx := avail_idx d + 1\<rparr>"

text \<open>
  Where a task is in \<^verbatim>\<open>VirtioRw\<close>, with its local variables: outside, waiting for descriptors, or waiting for the
  completion of the request whose first descriptor is \<open>idx[0]\<close>. Each part between two sleeps runs under \<^verbatim>\<open>vdiskLock\<close>.
\<close>

datatype rwpc = RwOut | RwAlloc u64 u64 bool | RwWait u64 nat

definition VirtioRw_wait ::
  "nat \<Rightarrow> u64 \<Rightarrow> nat \<Rightarrow> vdisk \<Rightarrow> 'a ktasks_scheme \<Rightarrow> (rwpc \<times> vdisk \<times> 'a ktasks_scheme) result" where
  "VirtioRw_wait me buf i0 d s =
     (if \<not> vi_finish (vd_info d i0) then Inr (RwWait buf i0, d, task_sleep me (ChData buf) s)
      else bindr (free_chain (int i0) (d\<lparr>vd_info := (vd_info d)(i0 := (vd_info d i0)\<lparr>vi_data := 0\<rparr>)\<rparr>) s)
             (\<lambda>(d1, s1). Inr (RwOut, d1, s1)))"

definition VirtioRw_begin ::
  "nat \<Rightarrow> u64 \<Rightarrow> u64 \<Rightarrow> bool \<Rightarrow> vdisk \<Rightarrow> 'a ktasks_scheme \<Rightarrow> (rwpc \<times> vdisk \<times> 'a ktasks_scheme) result" where
  "VirtioRw_begin me buf sector write d s =
     bindr (alloc3_desc d s) (\<lambda>(r, d1, s1).
       case r of Some [i0, i1, i2] \<Rightarrow>
         VirtioRw_wait me buf (nat i0) (VirtioRw_format buf sector write (nat i0) (nat i1) (nat i2) d1) s1
       | _ \<Rightarrow> Inr (RwAlloc buf sector write, d1, task_sleep me ChDesc s1))"

text \<open>A task goes on in \<^verbatim>\<open>VirtioRw\<close> where it left off.\<close>

definition VirtioRw_resume ::
  "nat \<Rightarrow> rwpc \<Rightarrow> vdisk \<Rightarrow> 'a ktasks_scheme \<Rightarrow> (rwpc \<times> vdisk \<times> 'a ktasks_scheme) result" where
  "VirtioRw_resume me p d s =
     (case p of RwOut \<Rightarrow> Inr (RwOut, d, s)
      | RwAlloc buf sector write \<Rightarrow> VirtioRw_begin me buf sector write d (task_resume me s)
      | RwWait buf i0 \<Rightarrow> VirtioRw_wait me buf i0 d (task_resume me s))"

text \<open>The interrupt handler: the loop over the used ring up to the device's index.\<close>

function VirtioIntr :: "vdisk \<Rightarrow> 'a ktasks_scheme \<Rightarrow> (vdisk \<times> 'a ktasks_scheme) result" where
  "VirtioIntr d s =
     (if vd_used_idx d = used_idx d then Inr (d, s)
      else let id = unat (fst (used_ring d (unat (vd_used_idx d) mod NUM))) in
        if NUM \<le> id then Inl (BadAccess ''virtio info'')
        else if vi_status (vd_info d id) \<noteq> 0 then Inl (Panic ''virtio_disk_intr status'')
        else VirtioIntr (d\<lparr>vd_info := (vd_info d)(id := (vd_info d id)\<lparr>vi_finish := True\<rparr>),
                            vd_used_idx := vd_used_idx d + 1\<rparr>)
               (wakeup (ChData (vi_data (vd_info d id))) s))"
  by pat_completeness auto
termination
  by (relation "measure (\<lambda>(d, s). unat (used_idx d - vd_used_idx d))") (auto intro: unat_diff_step)

declare VirtioIntr.simps [simp del]

definition VirtioRead :: "nat \<Rightarrow> u64 \<Rightarrow> u32 \<Rightarrow> vdisk \<Rightarrow> 'a ktasks_scheme \<Rightarrow> (rwpc \<times> vdisk \<times> 'a ktasks_scheme) result" where
  "VirtioRead me buf sectorno d s = VirtioRw_begin me buf (scast sectorno) False d s"

definition VirtioWrite :: "nat \<Rightarrow> u64 \<Rightarrow> u32 \<Rightarrow> vdisk \<Rightarrow> 'a ktasks_scheme \<Rightarrow> (rwpc \<times> vdisk \<times> 'a ktasks_scheme) result" where
  "VirtioWrite me buf sectorno d s = VirtioRw_begin me buf (scast sectorno) True d s"

section \<open>The driver, its callers and the device\<close>

text \<open>
  The state of the driver together with the tasks inside \<^verbatim>\<open>VirtioRw\<close> and the device: the device's index in the
  available ring, the heads it has fetched and not yet completed, and the contents of the disk.
\<close>

record 'a vsys =
  sys_disk :: vdisk
  sys_k :: "'a ktasks_scheme"
  sys_pc :: "nat \<Rightarrow> rwpc"
  dev_avail :: u16
  dev_busy :: "nat set"
  dev_sectors :: "nat \<Rightarrow> u8 list"

definition asleep :: "'a ktasks_scheme \<Rightarrow> nat \<Rightarrow> bool" where
  "asleep k p \<longleftrightarrow> p < length (taskTable k) \<and> t_state (the_task k p) = SLEEPING"

text \<open>
  The device is not part of the kernel; what the driver relies on is the protocol of the virtio specification
  (version 1.1, legacy interface, sections 2.6 and 5.2): the device takes heads from the available ring, and it
  completes a request that is laid out as header, data and status descriptor by transferring the sector, setting the
  status to 0 and publishing the head in the used ring, or fails it: then the status is another one
  (\<^verbatim>\<open>VIRTIO_BLK_S_IOERR\<close>, \<^verbatim>\<open>VIRTIO_BLK_S_UNSUPP\<close>) and nothing is said of what is left in memory and on the disk.
\<close>

definition dev_fetches :: "'a vsys \<Rightarrow> 'a vsys \<Rightarrow> bool" where
  "dev_fetches s s' \<longleftrightarrow> dev_avail s \<noteq> avail_idx (sys_disk s) \<and>
     s' = s\<lparr>dev_avail := dev_avail s + 1,
            dev_busy := insert (unat (avail_ring (sys_disk s) (unat (dev_avail s) mod NUM))) (dev_busy s)\<rparr>"

definition nx1 :: "vdisk \<Rightarrow> nat \<Rightarrow> nat" where "nx1 d h = unat (dsc_next (vd_desc d h))"
definition nx2 :: "vdisk \<Rightarrow> nat \<Rightarrow> nat" where "nx2 d h = unat (dsc_next (vd_desc d (nx1 d h)))"
definition desc_chain :: "vdisk \<Rightarrow> nat \<Rightarrow> nat list" where "desc_chain d h = [h, nx1 d h, nx2 d h]"

definition is_write :: "vdisk \<Rightarrow> nat \<Rightarrow> bool" where
  "is_write d h \<longleftrightarrow> req_type (vd_ops d h) = VIRTIO_BLK_T_OUT"

definition request_ok :: "vdisk \<Rightarrow> u64 \<Rightarrow> nat \<Rightarrow> bool" where
  "request_ok d b h \<longleftrightarrow>
     distinct (desc_chain d h) \<and> set (desc_chain d h) \<subseteq> {..<NUM} \<and>
     dsc_addr (vd_desc d h) = ops_addr d h \<and> dsc_len (vd_desc d h) = 16 \<and> dsc_flags (vd_desc d h) = VRING_DESC_F_NEXT \<and>
     dsc_addr (vd_desc d (nx1 d h)) = b \<and> dsc_len (vd_desc d (nx1 d h)) = of_nat SECTOR_SIZE \<and>
     dsc_flags (vd_desc d (nx1 d h)) = (if is_write d h then 0 else VRING_DESC_F_WRITE) OR VRING_DESC_F_NEXT \<and>
     dsc_addr (vd_desc d (nx2 d h)) = status_addr d h \<and> dsc_len (vd_desc d (nx2 d h)) = 1 \<and>
     dsc_flags (vd_desc d (nx2 d h)) = VRING_DESC_F_WRITE \<and>
     req_type (vd_ops d h) \<in> {VIRTIO_BLK_T_IN, VIRTIO_BLK_T_OUT}"

text \<open>The transfer of a sector between the disk and memory.\<close>

definition sector_to_mem :: "u64 \<Rightarrow> u8 list \<Rightarrow> pmem \<Rightarrow> pmem" where
  "sector_to_mem b bs m = (\<lambda>x. if unat (x - b) < SECTOR_SIZE then bs ! unat (x - b) else m x)"

definition mem_to_sector :: "u64 \<Rightarrow> pmem \<Rightarrow> u8 list" where
  "mem_to_sector b m = map (\<lambda>i. m (b + of_nat i)) [0..<SECTOR_SIZE]"

definition xfer_mem :: "u64 \<Rightarrow> u64 \<Rightarrow> bool \<Rightarrow> (nat \<Rightarrow> u8 list) \<Rightarrow> pmem \<Rightarrow> pmem" where
  "xfer_mem b sec w sects m = (if w then m else sector_to_mem b (sects (unat sec)) m)"

definition xfer_sectors :: "u64 \<Rightarrow> u64 \<Rightarrow> bool \<Rightarrow> pmem \<Rightarrow> (nat \<Rightarrow> u8 list) \<Rightarrow> nat \<Rightarrow> u8 list" where
  "xfer_sectors b sec w m sects = (if w then sects(unat sec := mem_to_sector b m) else sects)"

definition answered :: "nat \<Rightarrow> u8 \<Rightarrow> u32 \<Rightarrow> pmem \<Rightarrow> (nat \<Rightarrow> u8 list) \<Rightarrow> 'a vsys \<Rightarrow> 'a vsys" where
  "answered h st len m sects s =
     (let d = sys_disk s in
      s\<lparr>dev_busy := dev_busy s - {h}, dev_sectors := sects, sys_k := (sys_k s)\<lparr>mem := m\<rparr>,
        sys_disk := d\<lparr>vd_info := (vd_info d)(h := (vd_info d h)\<lparr>vi_status := st\<rparr>),
                      used_ring := (used_ring d)(unat (used_idx d) mod NUM := (of_nat h, len)),
                      used_idx := used_idx d + 1\<rparr>\<rparr>)"

definition completed :: "nat \<Rightarrow> u64 \<Rightarrow> u32 \<Rightarrow> 'a vsys \<Rightarrow> 'a vsys" where
  "completed h b len s =
     (let d = sys_disk s; sec = req_sector (vd_ops d h); w = is_write d h; m = mem (sys_k s) in
      answered h 0 len (xfer_mem b sec w (dev_sectors s) m) (xfer_sectors b sec w m (dev_sectors s)) s)"

definition dev_completes :: "nat \<Rightarrow> 'a vsys \<Rightarrow> 'a vsys \<Rightarrow> bool" where
  "dev_completes h s s' \<longleftrightarrow> h \<in> dev_busy s \<and>
     (\<forall>b. request_ok (sys_disk s) b h \<longrightarrow> (\<exists>len. s' = completed h b len s))"

definition dev_fails :: "nat \<Rightarrow> 'a vsys \<Rightarrow> 'a vsys \<Rightarrow> bool" where
  "dev_fails h s s' \<longleftrightarrow> h \<in> dev_busy s \<and> (\<exists>st len m sects. st \<noteq> 0 \<and> s' = answered h st len m sects s)"

text \<open>A device that may report errors, and one that never does.\<close>

definition virtio_device_err :: "('a vsys \<Rightarrow> 'a vsys \<Rightarrow> bool) \<Rightarrow> bool" where
  "virtio_device_err dev \<longleftrightarrow> (\<forall>s s'. dev s s' \<longrightarrow> dev_fetches s s' \<or> (\<exists>h. dev_completes h s s') \<or> (\<exists>h. dev_fails h s s'))"

definition virtio_device :: "('a vsys \<Rightarrow> 'a vsys \<Rightarrow> bool) \<Rightarrow> bool" where
  "virtio_device dev \<longleftrightarrow> (\<forall>s s'. dev s s' \<longrightarrow> dev_fetches s s' \<or> (\<exists>h. dev_completes h s s'))"

lemma virtio_device_no_err: "virtio_device dev \<Longrightarrow> virtio_device_err dev"
  unfolding virtio_device_def virtio_device_err_def by blast

text \<open>
  The steps. A task enters \<^verbatim>\<open>VirtioRw\<close>, or goes on in it when it is not asleep; the interrupt handler runs; the device
  moves; the rest of the kernel may change its own state and may wake tasks, but does not put a task that is
  inside \<^verbatim>\<open>VirtioRw\<close> to sleep.
\<close>

definition others_keep :: "(nat \<Rightarrow> rwpc) \<Rightarrow> 'a ktasks_scheme \<Rightarrow> 'a ktasks_scheme \<Rightarrow> bool" where
  "others_keep pc k k' \<longleftrightarrow>
     (\<forall>p. pc p \<noteq> RwOut \<longrightarrow> asleep k' p \<longrightarrow> asleep k p \<and> t_chan (the_task k' p) = t_chan (the_task k p))"

definition after :: "nat \<Rightarrow> rwpc \<times> vdisk \<times> 'a ktasks_scheme \<Rightarrow> 'a vsys \<Rightarrow> 'a vsys" where
  "after p r s = s\<lparr>sys_pc := (sys_pc s)(p := fst r), sys_disk := fst (snd r), sys_k := snd (snd r)\<rparr>"

inductive vstep :: "('a vsys \<Rightarrow> 'a vsys \<Rightarrow> bool) \<Rightarrow> 'a vsys \<Rightarrow> 'a vsys \<Rightarrow> bool" for dev where
  call: "sys_pc s p = RwOut \<Longrightarrow> \<not> asleep (sys_k s) p \<Longrightarrow> VirtioRw_begin p b sec w (sys_disk s) (sys_k s) = Inr r \<Longrightarrow>
    vstep dev s (after p r s)"
| resume: "sys_pc s p \<noteq> RwOut \<Longrightarrow> \<not> asleep (sys_k s) p \<Longrightarrow>
    VirtioRw_resume p (sys_pc s p) (sys_disk s) (sys_k s) = Inr r \<Longrightarrow> vstep dev s (after p r s)"
| intr: "VirtioIntr (sys_disk s) (sys_k s) = Inr (d, k) \<Longrightarrow> vstep dev s (s\<lparr>sys_disk := d, sys_k := k\<rparr>)"
| device: "dev s s' \<Longrightarrow> vstep dev s s'"
| other: "others_keep (sys_pc s) (sys_k s) k \<Longrightarrow> vstep dev s (s\<lparr>sys_k := k\<rparr>)"

definition vsys_init :: "'a vsys \<Rightarrow> bool" where
  "vsys_init s \<longleftrightarrow> (\<forall>p. sys_pc s p = RwOut) \<and> dev_busy s = {} \<and> dev_avail s = 0 \<and> vd_used_idx (sys_disk s) = 0 \<and>
     (\<exists>R w d. VirtioInit R d = Inr (w, sys_disk s))"

inductive vreach :: "('a vsys \<Rightarrow> 'a vsys \<Rightarrow> bool) \<Rightarrow> 'a vsys \<Rightarrow> bool" for dev where
  vreach_init: "vsys_init s \<Longrightarrow> vreach dev s"
| vreach_step: "vreach dev s \<Longrightarrow> vstep dev s s' \<Longrightarrow> vreach dev s'"

section \<open>Sleeping tasks\<close>

lemma asleep_wakeup [simp]: "asleep (wakeup c k) p \<longleftrightarrow> asleep k p \<and> t_chan (the_task k p) \<noteq> Some c"
  by (auto simp: asleep_def wakeup_def the_task_def wakeup_task_def split: if_splits)

lemma chan_wakeup [simp]: "p < length (taskTable k) \<Longrightarrow> t_chan (the_task (wakeup c k) p) = t_chan (the_task k p)"
  by (auto simp: wakeup_def the_task_def wakeup_task_def)

lemma asleep_task_sleep:
  "asleep (task_sleep me c k) p \<longleftrightarrow> (if p = me then me < length (taskTable k) else asleep k p)"
  by (auto simp: asleep_def task_sleep_def upd_task_def the_task_def)

lemma chan_task_sleep:
  "p < length (taskTable k) \<Longrightarrow> t_chan (the_task (task_sleep me c k) p) = (if p = me then Some c else t_chan (the_task k p))"
  by (auto simp: task_sleep_def upd_task_def the_task_def)

lemma asleep_task_resume [simp]: "asleep (task_resume me k) p \<longleftrightarrow> asleep k p"
  by (cases "p = me") (auto simp: asleep_def task_resume_def upd_task_def the_task_def)

lemma chan_task_resume: "p \<noteq> me \<Longrightarrow> t_chan (the_task (task_resume me k) p) = t_chan (the_task k p)"
  by (auto simp: task_resume_def upd_task_def the_task_def)

lemma task_ops_mem [simp]:
  "mem (wakeup c k) = mem k" "mem (task_sleep p c k) = mem k" "mem (task_resume p k) = mem k"
  "length (taskTable (wakeup c k)) = length (taskTable k)" "length (taskTable (task_sleep p c k)) = length (taskTable k)"
  "length (taskTable (task_resume p k)) = length (taskTable k)"
  by (simp_all add: wakeup_def task_sleep_def task_resume_def upd_task_def)

text \<open>Waking a channel twice is waking it once.\<close>

lemma wakeup_wakeup [simp]: "wakeup c (wakeup c k) = wakeup c k"
  by (auto simp: wakeup_def wakeup_task_def)

section \<open>Descriptor allocation\<close>

definition free_set :: "vdisk \<Rightarrow> nat set" where "free_set d = {i. i < NUM \<and> vd_free d i}"

lemma finite_free_set [simp]: "finite (free_set d)"
  by (simp add: free_set_def)

lemma alloc_desc_cases:
  obtains (got) i where "i \<in> free_set d" "alloc_desc d = (int i, d\<lparr>vd_free := (vd_free d)(i := False)\<rparr>)"
  | (none) "free_set d = {}" "alloc_desc d = (- 1, d)"
proof (cases "List.find (\<lambda>i. vd_free d i) [0..<NUM]")
  case None
  then have "free_set d = {}" by (auto simp: find_None_iff free_set_def)
  then show ?thesis using None by (intro none) (simp_all add: alloc_desc_def)
next
  case (Some i)
  then obtain j where "j < NUM" "i = j" "vd_free d j" by (auto simp: find_Some_iff)
  then have "i \<in> free_set d" by (auto simp: free_set_def)
  then show ?thesis using Some by (intro got) (simp_all add: alloc_desc_def)
qed

lemma free_set_take [simp]: "free_set (d\<lparr>vd_free := (vd_free d)(i := False)\<rparr>) = free_set d - {i}"
  by (auto simp: free_set_def)

lemma free_desc_got:
  "i < NUM \<Longrightarrow> \<not> vd_free d i \<Longrightarrow>
   free_desc (int i) d s = Inr (d\<lparr>vd_desc := (vd_desc d)(i := desc_zero), vd_free := (vd_free d)(i := True)\<rparr>, wakeup ChDesc s)"
  by (simp add: free_desc_def)

text \<open>
  What a failed allocation leaves behind: the same free descriptors, those it had taken are cleared.
\<close>

definition same_but_free :: "vdisk \<Rightarrow> vdisk \<Rightarrow> bool" where
  "same_but_free d d' \<longleftrightarrow> (\<exists>D. d' = d\<lparr>vd_desc := D\<rparr> \<and> (\<forall>i. \<not> vd_free d i \<longrightarrow> D i = vd_desc d i))"


lemma same_but_free_refl [simp]: "same_but_free d d"
  unfolding same_but_free_def by (rule exI [of _ "vd_desc d"]) simp

lemma alloc3_cases:
  obtains (got) i0 i1 i2 where "distinct [i0, i1, i2]" "{i0, i1, i2} \<subseteq> free_set d"
      "alloc3_desc d s = Inr (Some [int i0, int i1, int i2],
         d\<lparr>vd_free := (vd_free d)(i0 := False, i1 := False, i2 := False)\<rparr>, s)"
  | (none) d' s' where "card (free_set d) < 3" "same_but_free d d'" "s' = s \<or> s' = wakeup ChDesc s"
      "alloc3_desc d s = Inr (None, d', s')"
proof (cases rule: alloc_desc_cases [of d])
  case none
  then show ?thesis by (intro that(2) [of d s]) (auto simp: alloc3_desc_def numeral_3_eq_3)
next
  case (got i0)
  let ?d1 = "d\<lparr>vd_free := (vd_free d)(i0 := False)\<rparr>"
  have i0: "i0 < NUM" "vd_free d i0" using got by (auto simp: free_set_def)
  show ?thesis
  proof (cases rule: alloc_desc_cases [of ?d1])
    case none
    then have "free_set d = {i0}" using got by auto
    then show ?thesis using got none i0
      by (intro that(2) [of "d\<lparr>vd_desc := (vd_desc d)(i0 := desc_zero)\<rparr>" "wakeup ChDesc s"])
        (auto simp: alloc3_desc_def numeral_3_eq_3 same_but_free_def free_desc_got fun_upd_idem)
  next
    case got1: (got i1)
    let ?d2 = "?d1\<lparr>vd_free := (vd_free ?d1)(i1 := False)\<rparr>"
    have i1: "i1 < NUM" "vd_free d i1" "i1 \<noteq> i0" using got1 by (auto simp: free_set_def split: if_splits)
    show ?thesis
    proof (cases rule: alloc_desc_cases [of ?d2])
      case none
      then have "free_set d \<subseteq> {i0, i1}" by (auto simp: free_set_def split: if_splits)
      then have "card (free_set d) \<le> card {i0, i1}" by (intro card_mono) auto
      then have c: "card (free_set d) < 3" using i1(3) by simp
      have e: "(vd_free d)(i0 := True, i1 := True) = vd_free d" using i0 i1 by (auto simp: fun_eq_iff)
      show ?thesis using got got1 none i0 i1 c e
        by (intro that(2) [of "d\<lparr>vd_desc := (vd_desc d)(i0 := desc_zero, i1 := desc_zero)\<rparr>" "wakeup ChDesc s"])
          (auto simp: alloc3_desc_def numeral_3_eq_3 same_but_free_def free_desc_got fun_upd_twist)
    next
      case got2: (got i2)
      then have "i2 \<in> free_set d" "i2 \<noteq> i0" "i2 \<noteq> i1" by (auto simp: free_set_def split: if_splits)
      then show ?thesis using got got1 got2 i1
        by (intro that(1) [of i0 i1 i2]) (auto simp: alloc3_desc_def numeral_3_eq_3)
    qed
  qed
qed

section \<open>Rings\<close>

text \<open>The entries of a ring from index \<open>a\<close> up to index \<open>b\<close>, both counted without reduction as 16-bit numbers.\<close>

definition ring_slice :: "(nat \<Rightarrow> 'b) \<Rightarrow> u16 \<Rightarrow> u16 \<Rightarrow> 'b list" where
  "ring_slice r a b = map (\<lambda>k. r (unat (a + of_nat k) mod NUM)) [0..<unat (b - a)]"

lemma ring_slice_same [simp]: "ring_slice r a a = []"
  by (simp add: ring_slice_def)

lemma ring_slice_nonempty: "a \<noteq> b \<Longrightarrow> ring_slice r a b = r (unat a mod NUM) # ring_slice r (a + 1) b"
proof -
  assume "a \<noteq> b"
  then have "b - a \<noteq> 0" by simp
  then have "unat (b - a) = Suc (unat (b - (a + 1)))"
    by (metis Suc_pred diff_diff_eq unat_gt_0 unat_minus_one One_nat_def)
  then show ?thesis by (simp add: ring_slice_def upt_conv_Cons map_Suc_upt [symmetric] comp_def add.assoc del: upt_Suc map_Suc_upt)
qed

lemma ring_index: "unat ((a :: u16) + of_nat k) mod NUM = (unat a + k) mod NUM"
  by (simp add: unat_word_ariths unat_of_nat NUM_def mod_mod_cancel mod_add_right_eq take_bit_eq_mod)

lemma ring_slice_snoc:
  assumes "unat (b - a) < NUM"
  shows "ring_slice (r(unat b mod NUM := x)) a (b + 1) = ring_slice r a b @ [x]"
proof -
  define n where "n = unat (b - a)"
  have b: "b = a + of_nat n" by (simp add: n_def)
  have "unat (of_nat (Suc n) :: u16) = Suc n" using assms by (intro unat_of_nat_small) (simp add: n_def NUM_def)
  then have "unat (b + 1 - a) = Suc n" by (simp add: b add.assoc add.commute)
  moreover have "(r(unat b mod NUM := x)) (unat (a + of_nat k) mod NUM) = r (unat (a + of_nat k) mod NUM)" if "k < n" for k
  proof -
    have "n - k < NUM" "0 < n - k" using assms that by (auto simp: n_def)
    then have "\<not> NUM dvd n - k" using nat_dvd_not_less by blast
    moreover have "(unat a + n) - (unat a + k) = n - k" by simp
    ultimately have "(unat a + n) mod NUM \<noteq> (unat a + k) mod NUM"
      using that mod_eq_dvd_iff_nat [of "unat a + k" "unat a + n" NUM] by auto
    then show ?thesis by (simp add: b ring_index)
  qed
  ultimately have "ring_slice (r(unat b mod NUM := x)) a (b + 1)
      = map (\<lambda>k. r (unat (a + of_nat k) mod NUM)) [0..<n] @ [x]"
    unfolding ring_slice_def by (simp add: b del: fun_upd_apply) (simp add: fun_upd_same)
  then show ?thesis by (simp add: ring_slice_def n_def)
qed

lemma ring_slice_length: "length (ring_slice r a b) = unat (b - a)"
  by (simp add: ring_slice_def)

end
