(* ===== verification/VirtioInv.thy ===== *)
theory VirtioInv
  imports Virtio
begin

unbundle bit_operations_syntax

text \<open>
  The invariant of the virtio driver and its preservation by every step: descriptors belong to at most one request,
  a request is in exactly one place on its way through the rings, and no task sleeps without a reason.
\<close>

section \<open>The invariant\<close>

definition heads :: "(nat \<Rightarrow> rwpc) \<Rightarrow> nat set" where
  "heads pc = {h. \<exists>p b. pc p = RwWait b h}"

text \<open>
  The descriptors: every waiting task has a well-formed request of three descriptors of its own, and exactly the
  descriptors of these requests are taken.
\<close>

definition desc_inv :: "vdisk \<Rightarrow> (nat \<Rightarrow> rwpc) \<Rightarrow> bool" where
  "desc_inv d pc \<longleftrightarrow>
     (\<forall>p b h. pc p = RwWait b h \<longrightarrow> request_ok d b h \<and> vi_data (vd_info d h) = b) \<and>
     (\<forall>p q b b' h h'. pc p = RwWait b h \<longrightarrow> pc q = RwWait b' h' \<longrightarrow> p \<noteq> q \<longrightarrow> set (desc_chain d h) \<inter> set (desc_chain d h') = {}) \<and>
     (\<forall>i < NUM. \<not> vd_free d i \<longleftrightarrow> (\<exists>h \<in> heads pc. i \<in> set (desc_chain d h)))"

text \<open>
  The way of a request: every head in flight is in exactly one place, the available ring, the device, the used
  ring, or marked finished.
\<close>

definition queued :: "vdisk \<Rightarrow> u16 \<Rightarrow> nat list" where
  "queued d da = map unat (ring_slice (avail_ring d) da (avail_idx d))"

definition reported :: "vdisk \<Rightarrow> nat list" where
  "reported d = map (\<lambda>e. unat (fst e)) (ring_slice (used_ring d) (vd_used_idx d) (used_idx d))"

definition finished :: "vdisk \<Rightarrow> (nat \<Rightarrow> rwpc) \<Rightarrow> nat set" where
  "finished d pc = {h \<in> heads pc. vi_finish (vd_info d h)}"

definition flow_inv :: "vdisk \<Rightarrow> (nat \<Rightarrow> rwpc) \<Rightarrow> u16 \<Rightarrow> nat set \<Rightarrow> bool" where
  "flow_inv d pc da busy \<longleftrightarrow>
     distinct (queued d da) \<and> distinct (reported d) \<and>
     set (queued d da) \<union> busy \<union> set (reported d) \<union> finished d pc = heads pc \<and>
     set (queued d da) \<inter> busy = {} \<and> set (queued d da) \<inter> set (reported d) = {} \<and> busy \<inter> set (reported d) = {} \<and>
     (set (queued d da) \<union> busy \<union> set (reported d)) \<inter> finished d pc = {}"

text \<open>No completion that waits for the interrupt handler reports an error.\<close>

definition no_error :: "vdisk \<Rightarrow> bool" where
  "no_error d \<longleftrightarrow> (\<forall>h \<in> set (reported d). vi_status (vd_info d h) = 0)"

text \<open>Wakeups: a task asleep in \<^verbatim>\<open>VirtioRw\<close> has a reason to be, and sleeps on the channel that will be woken.\<close>

definition wake_inv :: "vdisk \<Rightarrow> (nat \<Rightarrow> rwpc) \<Rightarrow> 'a ktasks_scheme \<Rightarrow> bool" where
  "wake_inv d pc k \<longleftrightarrow> (\<forall>p. asleep k p \<longrightarrow>
     (case pc p of RwOut \<Rightarrow> True
      | RwAlloc b sec w \<Rightarrow> t_chan (the_task k p) = Some ChDesc \<and> card (free_set d) < 3
      | RwWait b h \<Rightarrow> t_chan (the_task k p) = Some (ChData b) \<and> \<not> vi_finish (vd_info d h)))"

definition vinv :: "'a vsys \<Rightarrow> bool" where
  "vinv s \<longleftrightarrow> desc_inv (sys_disk s) (sys_pc s) \<and> flow_inv (sys_disk s) (sys_pc s) (dev_avail s) (dev_busy s) \<and>
     wake_inv (sys_disk s) (sys_pc s) (sys_k s)"

lemma desc_invD:
  assumes "desc_inv d pc"
  shows "pc p = RwWait b h \<Longrightarrow> request_ok d b h" "pc p = RwWait b h \<Longrightarrow> vi_data (vd_info d h) = b"
    and "pc p = RwWait b h \<Longrightarrow> pc q = RwWait b' h' \<Longrightarrow> p \<noteq> q \<Longrightarrow> set (desc_chain d h) \<inter> set (desc_chain d h') = {}"
    and "i < NUM \<Longrightarrow> \<not> vd_free d i \<longleftrightarrow> (\<exists>h \<in> heads pc. i \<in> set (desc_chain d h))"
  using assms unfolding desc_inv_def by blast+

lemma request_chain: "request_ok d b h \<Longrightarrow> distinct (desc_chain d h) \<and> set (desc_chain d h) \<subseteq> {..<NUM}"
  by (simp add: request_ok_def)

lemma head_in_chain [simp]: "h \<in> set (desc_chain d h)" "nx1 d h \<in> set (desc_chain d h)" "nx2 d h \<in> set (desc_chain d h)"
  by (simp_all add: desc_chain_def)

lemma head_owner: "desc_inv d pc \<Longrightarrow> pc p = RwWait b h \<Longrightarrow> pc q = RwWait b' h \<Longrightarrow> p = q"
  using desc_invD(3) [of d pc p b h q b' h] head_in_chain(1) [of h d] by blast

text \<open>With three descriptors each, two requests at most are in flight, so that no ring overflows.\<close>

lemma heads_bound:
  assumes inv: "desc_inv d pc" shows "finite (heads pc)" "card (heads pc) \<le> 2" "heads pc \<subseteq> {..<NUM}"
proof -
  have ch: "distinct (desc_chain d h)" "set (desc_chain d h) \<subseteq> {..<NUM}" if h: "h \<in> heads pc" for h
    using h desc_invD(1) [OF inv] request_chain unfolding heads_def by blast+
  show sub: "heads pc \<subseteq> {..<NUM}" using ch(2) head_in_chain(1) by blast
  then show fin: "finite (heads pc)" by (rule finite_subset) simp
  have dis: "set (desc_chain d h) \<inter> set (desc_chain d h') = {}" if h: "h \<in> heads pc" and h': "h' \<in> heads pc" and ne: "h \<noteq> h'" for h h'
  proof -
    obtain p q b b' where pq: "pc p = RwWait b h" "pc q = RwWait b' h'" using h h' unfolding heads_def by blast
    then have "p \<noteq> q" using ne by auto
    then show ?thesis using desc_invD(3) [OF inv] pq by blast
  qed
  have "card (\<Union>h \<in> heads pc. set (desc_chain d h)) = (\<Sum>h \<in> heads pc. card (set (desc_chain d h)))"
    using fin dis by (intro card_UN_disjoint) auto
  also have "\<dots> = (\<Sum>h \<in> heads pc. 3)"
    using ch(1) by (intro sum.cong refl) (metis distinct_card desc_chain_def length_Cons list.size(3) numeral_3_eq_3)
  finally have "3 * card (heads pc) = card (\<Union>h \<in> heads pc. set (desc_chain d h))" by simp
  also have "\<dots> \<le> card {..<NUM}" using ch(2) by (intro card_mono) auto
  finally show "card (heads pc) \<le> 2" by (simp add: NUM_def)
qed

lemma queue_lengths:
  "length (queued d da) = unat (avail_idx d - da)" "length (reported d) = unat (used_idx d - vd_used_idx d)"
  by (simp_all add: queued_def reported_def ring_slice_length)

lemma ring_room:
  assumes "desc_inv d pc" "flow_inv d pc da busy"
  shows "unat (avail_idx d - da) < NUM" "unat (used_idx d - vd_used_idx d) < NUM"
proof -
  have hb: "card (heads pc) \<le> 2" "finite (heads pc)" using heads_bound [OF assms(1)] by auto
  have "unat (avail_idx d - da) = card (set (queued d da))"
    using assms(2) by (simp add: flow_inv_def distinct_card queue_lengths)
  also have "\<dots> \<le> card (heads pc)" using assms(2) hb unfolding flow_inv_def by (intro card_mono) blast+
  finally show "unat (avail_idx d - da) < NUM" using hb by (simp add: NUM_def)
  have "unat (used_idx d - vd_used_idx d) = card (set (reported d))"
    using assms(2) by (simp add: flow_inv_def distinct_card queue_lengths)
  also have "\<dots> \<le> card (heads pc)" using assms(2) hb unfolding flow_inv_def by (intro card_mono) blast+
  finally show "unat (used_idx d - vd_used_idx d) < NUM" using hb by (simp add: NUM_def)
qed

text \<open>A request depends on its own descriptors and header only.\<close>

lemma request_cong:
  assumes "\<And>i. i \<in> set (desc_chain d h) \<Longrightarrow> vd_desc d' i = vd_desc d i" "vd_ops d' h = vd_ops d h" "vd_base d' = vd_base d"
  shows "desc_chain d' h = desc_chain d h" "request_ok d' b h = request_ok d b h" "is_write d' h = is_write d h"
proof -
  have e: "vd_desc d' h = vd_desc d h" "vd_desc d' (nx1 d h) = vd_desc d (nx1 d h)" "vd_desc d' (nx2 d h) = vd_desc d (nx2 d h)"
    using assms(1) by simp_all
  have n: "nx1 d' h = nx1 d h" "nx2 d' h = nx2 d h" using e by (simp_all add: nx1_def nx2_def)
  then show "desc_chain d' h = desc_chain d h" by (simp add: desc_chain_def)
  show w: "is_write d' h = is_write d h" using assms(2) by (simp add: is_write_def)
  show "request_ok d' b h = request_ok d b h"
    using e n w assms(2,3) by (simp add: request_ok_def desc_chain_def ops_addr_def status_addr_def)
qed

text \<open>Changing neither the descriptors of the requests, nor their headers and buffers, nor the free flags.\<close>

lemma desc_inv_cong:
  assumes inv: "desc_inv d pc"
    and "\<And>i. \<not> vd_free d i \<Longrightarrow> i < NUM \<Longrightarrow> vd_desc d' i = vd_desc d i" "\<And>h. h \<in> heads pc \<Longrightarrow> vd_ops d' h = vd_ops d h"
      "vd_base d' = vd_base d" "\<And>i. i < NUM \<Longrightarrow> vd_free d' i = vd_free d i"
      "\<And>h. h \<in> heads pc \<Longrightarrow> vi_data (vd_info d' h) = vi_data (vd_info d h)"
    and wt: "\<And>p b h. pc' p = RwWait b h \<longleftrightarrow> pc p = RwWait b h"
  shows "desc_inv d' pc'"
proof -
  have hd: "heads pc' = heads pc" by (simp add: heads_def wt)
  have taken: "\<not> vd_free d i \<and> i < NUM" if "h \<in> heads pc" "i \<in> set (desc_chain d h)" for h i
  proof -
    have "i < NUM" using that desc_invD(1) [OF inv] request_chain unfolding heads_def by blast
    then show ?thesis using desc_invD(4) [OF inv] that by blast
  qed
  have same: "desc_chain d' h = desc_chain d h" "request_ok d' b h = request_ok d b h" if "h \<in> heads pc" for h b
    using request_cong [of d h d'] that assms(2-4) taken by blast+
  have hd_in: "h \<in> heads pc" if "pc p = RwWait b h" for p b h using that by (auto simp: heads_def)
  show ?thesis unfolding desc_inv_def hd
  proof (intro conjI allI impI)
    fix p b h assume "pc' p = RwWait b h"
    then have p: "pc p = RwWait b h" by (simp add: wt)
    then show "request_ok d' b h" "vi_data (vd_info d' h) = b"
      using hd_in [OF p] same assms(6) desc_invD(1,2) [OF inv p] by simp_all
  next
    fix p q b b' h h' assume a: "pc' p = RwWait b h" "pc' q = RwWait b' h'" "p \<noteq> q"
    then have pq: "pc p = RwWait b h" "pc q = RwWait b' h'" by (simp_all add: wt)
    then show "set (desc_chain d' h) \<inter> set (desc_chain d' h') = {}"
      using same(1) [OF hd_in [OF pq(1)]] same(1) [OF hd_in [OF pq(2)]] desc_invD(3) [OF inv pq a(3)] by simp
  next
    fix i assume "i < NUM"
    then show "(\<not> vd_free d' i) = (\<exists>h \<in> heads pc. i \<in> set (desc_chain d' h))"
      using desc_invD(4) [OF inv] assms(5) same(1) by auto
  qed
qed

section \<open>What each operation does under the invariant\<close>

lemma free_chain_request:
  assumes ok: "request_ok d b h" and nf: "\<And>i. i \<in> set (desc_chain d h) \<Longrightarrow> \<not> vd_free d i"
  shows "free_chain (int h) d s =
    Inr (d\<lparr>vd_desc := (vd_desc d)(h := desc_zero, nx1 d h := desc_zero, nx2 d h := desc_zero),
           vd_free := (vd_free d)(h := True, nx1 d h := True, nx2 d h := True)\<rparr>, wakeup ChDesc s)"
proof -
  let ?i = "nx1 d h" and ?j = "nx2 d h"
  let ?d1 = "d\<lparr>vd_desc := (vd_desc d)(h := desc_zero), vd_free := (vd_free d)(h := True)\<rparr>"
  let ?d2 = "?d1\<lparr>vd_desc := (vd_desc ?d1)(?i := desc_zero), vd_free := (vd_free ?d1)(?i := True)\<rparr>"
  have b: "h < NUM" "?i < NUM" "?j < NUM" and ne: "h \<noteq> ?i" "h \<noteq> ?j" "?i \<noteq> ?j"
    using request_chain [OF ok] by (auto simp: desc_chain_def)
  have f: "\<not> vd_free d h" "\<not> vd_free d ?i" "\<not> vd_free d ?j" using nf by simp_all
  have fl: "dsc_flags (vd_desc d h) AND VRING_DESC_F_NEXT \<noteq> 0" "dsc_flags (vd_desc d ?i) AND VRING_DESC_F_NEXT \<noteq> 0"
     "dsc_flags (vd_desc d ?j) AND VRING_DESC_F_NEXT = 0"
    using ok by (auto simp: request_ok_def VRING_DESC_F_NEXT_def VRING_DESC_F_WRITE_def)
  have "free_chain (int h) d s = free_chain (int ?i) ?d1 (wakeup ChDesc s)"
    unfolding free_chain.simps [of "int h"] free_desc_got [OF b(1) f(1)] using fl by (simp add: nx1_def)
  also have "\<dots> = free_chain (int ?j) ?d2 (wakeup ChDesc s)"
    unfolding free_chain.simps [of "int ?i"] using fl f ne b by (simp add: free_desc_got nx2_def)
  also have "\<dots> = Inr (?d2\<lparr>vd_desc := (vd_desc ?d2)(?j := desc_zero), vd_free := (vd_free ?d2)(?j := True)\<rparr>, wakeup ChDesc s)"
    unfolding free_chain.simps [of "int ?j"] using fl f ne b by (simp add: free_desc_got)
  finally show ?thesis by simp
qed

lemma chain_taken:
  assumes "desc_inv d pc" "h \<in> heads pc" "i \<in> set (desc_chain d h)" shows "\<not> vd_free d i" "i < NUM"
proof -
  show "i < NUM" using assms desc_invD(1) request_chain unfolding heads_def by blast
  then show "\<not> vd_free d i" using assms desc_invD(4) by blast
qed

lemma headsI [intro]: "pc p = RwWait b h \<Longrightarrow> h \<in> heads pc"
  by (auto simp: heads_def)

text \<open>The result of entering \<^verbatim>\<open>VirtioRw\<close>, or of trying again to get descriptors.\<close>

lemma begin_cases:
  obtains (got) i0 i1 i2 where "distinct [i0, i1, i2]" "{i0, i1, i2} \<subseteq> free_set d"
      "VirtioRw_begin p b sec w d k = Inr (RwWait b i0,
         VirtioRw_format b sec w i0 i1 i2 (d\<lparr>vd_free := (vd_free d)(i0 := False, i1 := False, i2 := False)\<rparr>),
         task_sleep p (ChData b) k)"
  | (none) d' k' where "card (free_set d) < 3" "same_but_free d d'" "k' = k \<or> k' = wakeup ChDesc k"
      "VirtioRw_begin p b sec w d k = Inr (RwAlloc b sec w, d', task_sleep p ChDesc k')"
proof (cases rule: alloc3_cases [of d k])
  case (got i0 i1 i2)
  then show ?thesis
    by (intro that(1) [of i0 i1 i2]) (simp_all add: VirtioRw_begin_def VirtioRw_wait_def VirtioRw_format_def)
next
  case (none d' s')
  then show ?thesis by (intro that(2) [of d' s']) (simp_all add: VirtioRw_begin_def)
qed

text \<open>\<open>wakes_only P k k'\<close>: among the tasks \<open>P\<close>, the change from \<open>k\<close> to \<open>k'\<close> puts none to sleep and moves no sleeper to another channel.\<close>

definition wakes_only :: "(nat \<Rightarrow> bool) \<Rightarrow> 'a ktasks_scheme \<Rightarrow> 'a ktasks_scheme \<Rightarrow> bool" where
  "wakes_only P k k' \<longleftrightarrow> (\<forall>q. P q \<longrightarrow> asleep k' q \<longrightarrow> asleep k q \<and> t_chan (the_task k' q) = t_chan (the_task k q))"

lemma wakes_only_refl [simp]: "wakes_only P k k"
  by (simp add: wakes_only_def)

lemma wakes_only_wakeup: "wakes_only P k k' \<Longrightarrow> wakes_only P k (wakeup c k')"
  unfolding wakes_only_def asleep_wakeup by (metis asleep_def chan_wakeup)

lemma wakes_only_sleep: "wakes_only P k k' \<Longrightarrow> \<not> P p \<Longrightarrow> wakes_only P k (task_sleep p c k')"
  unfolding wakes_only_def asleep_task_sleep by (metis asleep_def chan_task_sleep)

lemma wakes_only_resume: "wakes_only P k k' \<Longrightarrow> \<not> P p \<Longrightarrow> wakes_only P k (task_resume p k')"
  unfolding wakes_only_def asleep_task_resume by (metis chan_task_resume)

lemma others_keep_wakes: "others_keep pc = wakes_only (\<lambda>q. pc q \<noteq> RwOut)"
  by (intro ext) (simp add: others_keep_def wakes_only_def)

text \<open>The wakeup invariant after a step of task \<open>p\<close>.\<close>

lemma wake_step:
  assumes "wake_inv d pc k" "wakes_only (\<lambda>q. q \<noteq> p) k k'" "\<And>q. q \<noteq> p \<Longrightarrow> pc' q = pc q"
    and "\<And>q b sec w. q \<noteq> p \<Longrightarrow> asleep k' q \<Longrightarrow> pc q = RwAlloc b sec w \<Longrightarrow> t_chan (the_task k' q) = Some ChDesc \<Longrightarrow>
           card (free_set d) < 3 \<Longrightarrow> card (free_set d') < 3"
    and "\<And>q b h. q \<noteq> p \<Longrightarrow> asleep k' q \<Longrightarrow> pc q = RwWait b h \<Longrightarrow> t_chan (the_task k' q) = Some (ChData b) \<Longrightarrow>
           \<not> vi_finish (vd_info d h) \<Longrightarrow> \<not> vi_finish (vd_info d' h)"
    and "asleep k' p \<Longrightarrow> (case pc' p of RwOut \<Rightarrow> True
      | RwAlloc b sec w \<Rightarrow> t_chan (the_task k' p) = Some ChDesc \<and> card (free_set d') < 3
      | RwWait b h \<Rightarrow> t_chan (the_task k' p) = Some (ChData b) \<and> \<not> vi_finish (vd_info d' h))"
  shows "wake_inv d' pc' k'"
  unfolding wake_inv_def
proof (intro allI impI)
  fix q assume q: "asleep k' q"
  show "case pc' q of RwOut \<Rightarrow> True
      | RwAlloc b sec w \<Rightarrow> t_chan (the_task k' q) = Some ChDesc \<and> card (free_set d') < 3
      | RwWait b h \<Rightarrow> t_chan (the_task k' q) = Some (ChData b) \<and> \<not> vi_finish (vd_info d' h)"
  proof (cases "q = p")
    case True
    then show ?thesis using assms(6) q by blast
  next
    case False
    then have "asleep k q" and c: "t_chan (the_task k' q) = t_chan (the_task k q)"
      using assms(2) q by (auto simp: wakes_only_def)
    then show ?thesis
      using assms(1,3) assms(4) [OF False q] assms(5) [OF False q] False by (auto simp: wake_inv_def split: rwpc.splits)
  qed
qed

lemma own_chan [simp]: "asleep (task_sleep p c k) p \<Longrightarrow> t_chan (the_task (task_sleep p c k) p) = Some c"
  by (simp add: asleep_task_sleep chan_task_sleep)

text \<open>A failed allocation.\<close>

lemma queued_cong: "avail_ring d' = avail_ring d \<Longrightarrow> avail_idx d' = avail_idx d \<Longrightarrow> queued d' da = queued d da"
  by (simp add: queued_def)

lemma reported_cong:
  "used_ring d' = used_ring d \<Longrightarrow> used_idx d' = used_idx d \<Longrightarrow> vd_used_idx d' = vd_used_idx d \<Longrightarrow> reported d' = reported d"
  by (simp add: reported_def)

lemma heads_upd_other: "(\<And>b h. pc p \<noteq> RwWait b h) \<Longrightarrow> (\<And>b h. x \<noteq> RwWait b h) \<Longrightarrow> heads (pc(p := x)) = heads pc"
  by (auto simp: heads_def) (metis fun_upd_apply)+

lemma begin_none_inv:
  assumes inv: "vinv s" and p: "\<And>b h. sys_pc s p \<noteq> RwWait b h"
    and none: "card (free_set (sys_disk s)) < 3" "same_but_free (sys_disk s) d'" "k' = sys_k s \<or> k' = wakeup ChDesc (sys_k s)"
  shows "vinv (after p (RwAlloc b sec w, d', task_sleep p ChDesc k') s)"
proof -
  let ?d = "sys_disk s" and ?pc = "sys_pc s"
  obtain D where d': "d' = ?d\<lparr>vd_desc := D\<rparr>" and D: "\<And>i. \<not> vd_free ?d i \<Longrightarrow> D i = vd_desc ?d i"
    using none(2) by (auto simp: same_but_free_def)
  have hd: "heads (?pc(p := RwAlloc b sec w)) = heads ?pc" using p by (intro heads_upd_other) auto
  have 1: "desc_inv d' (?pc(p := RwAlloc b sec w))"
    by (rule desc_inv_cong [of ?d ?pc]) (use inv D p in \<open>auto simp: d' vinv_def\<close>)
  have 2: "flow_inv d' (?pc(p := RwAlloc b sec w)) (dev_avail s) (dev_busy s)"
    using inv by (simp add: vinv_def flow_inv_def finished_def hd d' queued_def reported_def)
  have fs: "free_set d' = free_set ?d" by (simp add: d' free_set_def)
  have 3: "wake_inv d' (?pc(p := RwAlloc b sec w)) (task_sleep p ChDesc k')"
  proof (rule wake_step [of ?d ?pc "sys_k s" p])
    show "wakes_only (\<lambda>q. q \<noteq> p) (sys_k s) (task_sleep p ChDesc k')"
      using none(3) by (intro wakes_only_sleep) (auto intro: wakes_only_wakeup)
  qed (use inv none fs in \<open>auto simp: vinv_def d'\<close>)
  show ?thesis using 1 2 3 by (simp add: vinv_def after_def)
qed

text \<open>A new request.\<close>

lemma format_fields [simp]:
  "vd_base (VirtioRw_format b sec w i0 i1 i2 d) = vd_base d" "vd_free (VirtioRw_format b sec w i0 i1 i2 d) = vd_free d"
  "used_ring (VirtioRw_format b sec w i0 i1 i2 d) = used_ring d" "used_idx (VirtioRw_format b sec w i0 i1 i2 d) = used_idx d"
  "vd_used_idx (VirtioRw_format b sec w i0 i1 i2 d) = vd_used_idx d"
  "avail_idx (VirtioRw_format b sec w i0 i1 i2 d) = avail_idx d + 1"
  "avail_ring (VirtioRw_format b sec w i0 i1 i2 d) = (avail_ring d)(unat (avail_idx d) mod NUM := of_nat i0)"
  by (simp_all add: VirtioRw_format_def)

lemma format_others:
  "i \<notin> {i0, i1, i2} \<Longrightarrow> vd_desc (VirtioRw_format b sec w i0 i1 i2 d) i = vd_desc d i"
  "i \<noteq> i0 \<Longrightarrow> vd_ops (VirtioRw_format b sec w i0 i1 i2 d) i = vd_ops d i"
  "i \<noteq> i0 \<Longrightarrow> vd_info (VirtioRw_format b sec w i0 i1 i2 d) i = vd_info d i"
  by (simp_all add: VirtioRw_format_def)

lemma format_request:
  assumes "distinct [i0, i1, i2]" "{i0, i1, i2} \<subseteq> {..<NUM}"
  shows "desc_chain (VirtioRw_format b sec w i0 i1 i2 d) i0 = [i0, i1, i2]"
    and "request_ok (VirtioRw_format b sec w i0 i1 i2 d) b i0"
    and "req_sector (vd_ops (VirtioRw_format b sec w i0 i1 i2 d) i0) = sec"
    and "is_write (VirtioRw_format b sec w i0 i1 i2 d) i0 = w"
    and "vd_info (VirtioRw_format b sec w i0 i1 i2 d) i0 = \<lparr>vi_data = b, vi_finish = False, vi_status = 0xff\<rparr>"
proof -
  let ?d = "VirtioRw_format b sec w i0 i1 i2 d"
  have u: "unat (of_nat i1 :: u16) = i1" "unat (of_nat i2 :: u16) = i2"
    using assms(2) by (auto simp: NUM_def intro!: unat_of_nat_small)
  have n1: "nx1 ?d i0 = i1" using assms u by (simp add: nx1_def VirtioRw_format_def)
  have n2: "nx2 ?d i0 = i2" unfolding nx2_def n1 using assms u by (simp add: VirtioRw_format_def)
  show c: "desc_chain ?d i0 = [i0, i1, i2]" by (simp add: desc_chain_def n1 n2)
  show w: "is_write ?d i0 = w"
    by (simp add: is_write_def VirtioRw_format_def VIRTIO_BLK_T_OUT_def VIRTIO_BLK_T_IN_def)
  show "request_ok ?d b i0" unfolding request_ok_def c n1 n2 w using assms
    by (simp add: VirtioRw_format_def ops_addr_def status_addr_def)
qed (simp_all add: VirtioRw_format_def)

lemma heads_add: "(\<And>b h. pc p \<noteq> RwWait b h) \<Longrightarrow> heads (pc(p := RwWait b i)) = insert i (heads pc)"
  unfolding heads_def by (auto) (metis fun_upd_apply)

lemma begin_got_desc:
  assumes inv: "desc_inv d pc" and p: "\<And>b h. pc p \<noteq> RwWait b h"
    and got: "distinct [i0, i1, i2]" "{i0, i1, i2} \<subseteq> free_set d"
    and d': "d' = VirtioRw_format b sec w i0 i1 i2 (d\<lparr>vd_free := (vd_free d)(i0 := False, i1 := False, i2 := False)\<rparr>)"
  shows "desc_inv d' (pc(p := RwWait b i0))"
    and "h \<in> heads pc \<Longrightarrow> h \<noteq> i0 \<and> vd_ops d' h = vd_ops d h \<and> vd_info d' h = vd_info d h"
proof -
  have sub: "{i0, i1, i2} \<subseteq> {..<NUM}" and fr: "\<And>i. i \<in> {i0, i1, i2} \<Longrightarrow> vd_free d i"
    using got(2) by (auto simp: free_set_def)
  have out: "set (desc_chain d h) \<inter> {i0, i1, i2} = {}" if "h \<in> heads pc" for h
    using chain_taken(1) [OF inv that] fr by blast
  have ne: "h \<noteq> i0" if "h \<in> heads pc" for h using out [OF that] head_in_chain(1) [of h d] by auto
  show "h \<noteq> i0 \<and> vd_ops d' h = vd_ops d h \<and> vd_info d' h = vd_info d h" if "h \<in> heads pc" for h
    using ne [OF that] by (simp add: d' format_others)
  have same: "desc_chain d' h = desc_chain d h" "request_ok d' b' h = request_ok d b' h" if h: "h \<in> heads pc" for h b'
  proof -
    have a: "vd_desc d' i = vd_desc d i" if i: "i \<in> set (desc_chain d h)" for i
    proof -
      have "i \<notin> {i0, i1, i2}" using out [OF h] i by blast
      then show ?thesis unfolding d' by (simp add: format_others)
    qed
    show "desc_chain d' h = desc_chain d h" "request_ok d' b' h = request_ok d b' h"
      using request_cong [of d h d', OF a] ne [OF h] by (simp_all add: d' format_others)
  qed
  note new = format_request [OF got(1) sub, where d = "d\<lparr>vd_free := (vd_free d)(i0 := False, i1 := False, i2 := False)\<rparr>" and b = b and sec = sec and w = w, folded d']
  have hd: "heads (pc(p := RwWait b i0)) = insert i0 (heads pc)" using p by (rule heads_add)
  show "desc_inv d' (pc(p := RwWait b i0))" unfolding desc_inv_def hd
  proof (intro conjI allI impI)
    fix q b' h assume q: "(pc(p := RwWait b i0)) q = RwWait b' h"
    show "request_ok d' b' h" "vi_data (vd_info d' h) = b'"
      using q new same desc_invD(1,2) [OF inv] ne headsI [of pc q] by (auto simp: d' format_others split: if_splits)
  next
    fix q q' b' b'' h h'
    assume a: "(pc(p := RwWait b i0)) q = RwWait b' h" "(pc(p := RwWait b i0)) q' = RwWait b'' h'" "q \<noteq> q'"
    show "set (desc_chain d' h) \<inter> set (desc_chain d' h') = {}"
      using a new(1) same(1) out desc_invD(3) [OF inv, of q _ _ q'] headsI [of pc q] headsI [of pc q']
      by (auto split: if_splits)
  next
    fix i assume i: "i < NUM"
    show "(\<not> vd_free d' i) = (\<exists>h\<in>insert i0 (heads pc). i \<in> set (desc_chain d' h))"
      using desc_invD(4) [OF inv i] new(1) same(1) by (auto simp: d')
  qed
qed

lemma begin_got_inv:
  assumes inv: "vinv s" and p: "\<And>b h. sys_pc s p \<noteq> RwWait b h"
    and got: "distinct [i0, i1, i2]" "{i0, i1, i2} \<subseteq> free_set (sys_disk s)"
    and d': "d' = VirtioRw_format b sec w i0 i1 i2
      ((sys_disk s)\<lparr>vd_free := (vd_free (sys_disk s))(i0 := False, i1 := False, i2 := False)\<rparr>)"
  shows "vinv (after p (RwWait b i0, d', task_sleep p (ChData b) (sys_k s)) s)"
    and "queued d' (dev_avail s) = queued (sys_disk s) (dev_avail s) @ [i0]"
proof -
  let ?d = "sys_disk s" and ?pc = "sys_pc s"
  have di: "desc_inv ?d ?pc" and fi: "flow_inv ?d ?pc (dev_avail s) (dev_busy s)" and wi: "wake_inv ?d ?pc (sys_k s)"
    using inv by (auto simp: vinv_def)
  note desc = begin_got_desc [OF di p got d']
  have sub: "{i0, i1, i2} \<subseteq> {..<NUM}" using got(2) by (auto simp: free_set_def)
  then have u: "unat (of_nat i0 :: u16) = i0" by (auto simp: NUM_def intro!: unat_of_nat_small)
  show q: "queued d' (dev_avail s) = queued ?d (dev_avail s) @ [i0]"
    by (simp add: queued_def d' u ring_slice_snoc [OF ring_room(1) [OF di fi]])
  have r: "reported d' = reported ?d" by (rule reported_cong) (simp_all add: d')
  have hd: "heads (?pc(p := RwWait b i0)) = insert i0 (heads ?pc)" using p by (rule heads_add)
  have fin: "\<not> vi_finish (vd_info d' i0)" by (simp add: d' format_request(5) [OF got(1) sub])
  have f: "finished d' (?pc(p := RwWait b i0)) = finished ?d ?pc"
    using desc(2) fin unfolding finished_def hd by auto
  have new: "i0 \<notin> heads ?pc" using desc(2) by blast
  have "flow_inv d' (?pc(p := RwWait b i0)) (dev_avail s) (dev_busy s)"
    using fi new desc(2) unfolding flow_inv_def q r f hd by auto
  moreover have "wake_inv d' (?pc(p := RwWait b i0)) (task_sleep p (ChData b) (sys_k s))"
  proof (rule wake_step [OF wi, of p])
    show "wakes_only (\<lambda>q. q \<noteq> p) (sys_k s) (task_sleep p (ChData b) (sys_k s))" by (intro wakes_only_sleep) auto
    have "free_set d' \<subseteq> free_set ?d" by (auto simp: d' free_set_def split: if_splits)
    then have "card (free_set d') \<le> card (free_set ?d)" by (intro card_mono) auto
    then show "card (free_set d') < 3" if "card (free_set ?d) < 3" using that by simp
    show "\<not> vi_finish (vd_info d' h)" if "?pc q = RwWait b' h" "\<not> vi_finish (vd_info ?d h)" for q b' h
      using that desc(2) headsI [of ?pc q] by auto
  qed (use fin in auto)
  ultimately show "vinv (after p (RwWait b i0, d', task_sleep p (ChData b) (sys_k s)) s)"
    using desc(1) by (simp add: vinv_def after_def)
qed

text \<open>A finished request gives its descriptors back.\<close>

definition released :: "nat \<Rightarrow> vdisk \<Rightarrow> vdisk" where
  "released h d = d\<lparr>vd_info := (vd_info d)(h := (vd_info d h)\<lparr>vi_data := 0\<rparr>),
     vd_desc := (vd_desc d)(h := desc_zero, nx1 d h := desc_zero, nx2 d h := desc_zero),
     vd_free := (vd_free d)(h := True, nx1 d h := True, nx2 d h := True)\<rparr>"

lemma wait_cases:
  assumes inv: "desc_inv d pc" and p: "pc p = RwWait b h"
  shows "VirtioRw_wait p b h d k = (if vi_finish (vd_info d h) then Inr (RwOut, released h d, wakeup ChDesc k)
    else Inr (RwWait b h, d, task_sleep p (ChData b) k))"
proof -
  let ?d = "d\<lparr>vd_info := (vd_info d)(h := (vd_info d h)\<lparr>vi_data := 0\<rparr>)\<rparr>"
  have c: "desc_chain ?d h = desc_chain d h" "request_ok ?d b h = request_ok d b h"
    by (intro request_cong; simp)+
  have n: "nx1 ?d h = nx1 d h" "nx2 ?d h = nx2 d h" by (simp_all add: nx1_def nx2_def)
  have "free_chain (int h) ?d k = Inr (released h d, wakeup ChDesc k)"
    using free_chain_request [of ?d b h k] chain_taken(1) [OF inv headsI [of pc p, OF p]] desc_invD(1) [OF inv p] c
    by (simp add: released_def n)
  then show ?thesis by (simp add: VirtioRw_wait_def)
qed

lemma heads_remove:
  assumes "desc_inv d pc" "pc p = RwWait b h" shows "heads (pc(p := RwOut)) = heads pc - {h}"
proof -
  have "h \<notin> heads (pc(p := RwOut))" using head_owner [OF assms(1)] assms(2)
    by (auto simp: heads_def split: if_splits)
  moreover have "heads (pc(p := RwOut)) \<subseteq> heads pc" by (auto simp: heads_def split: if_splits)
  moreover have "i \<in> heads (pc(p := RwOut))" if "i \<in> heads pc" "i \<noteq> h" for i
    using that assms(2) by (auto simp: heads_def) (metis rwpc.inject(2))
  ultimately show ?thesis by blast
qed

lemma released_desc:
  assumes inv: "desc_inv d pc" and p: "pc p = RwWait b h"
  shows "desc_inv (released h d) (pc(p := RwOut))"
proof -
  let ?d = "released h d"
  have hp: "h \<in> heads pc" using p by blast
  have dis: "set (desc_chain d h) \<inter> set (desc_chain d h') = {}" if q: "pc q = RwWait b' h'" "q \<noteq> p" for q b' h'
    using desc_invD(3) [OF inv p q(1)] q(2) by simp
  have same: "desc_chain ?d h' = desc_chain d h'" "request_ok ?d b'' h' = request_ok d b'' h'"
    if q: "pc q = RwWait b' h'" "q \<noteq> p" for q b' b'' h'
  proof -
    have a: "vd_desc ?d i = vd_desc d i" if "i \<in> set (desc_chain d h')" for i
      using dis [OF q] that by (auto simp: released_def desc_chain_def)
    show "desc_chain ?d h' = desc_chain d h'" "request_ok ?d b'' h' = request_ok d b'' h'"
      using request_cong [of d h' ?d, OF a] by (simp_all add: released_def)
  qed
  have ch: "set (desc_chain d h) = {h, nx1 d h, nx2 d h}" by (simp add: desc_chain_def)
  have free: "vd_free ?d i \<longleftrightarrow> vd_free d i \<or> i \<in> set (desc_chain d h)" for i
    unfolding ch by (auto simp: released_def)
  have dat: "vi_data (vd_info ?d h') = vi_data (vd_info d h')" if "h' \<noteq> h" for h' using that by (simp add: released_def)
  show ?thesis unfolding desc_inv_def
  proof (intro conjI allI impI)
    fix q b' h' assume "(pc(p := RwOut)) q = RwWait b' h'"
    then have q: "pc q = RwWait b' h'" "q \<noteq> p" by (auto split: if_splits)
    then have "h' \<noteq> h" using head_owner [OF inv p] by auto
    then show "request_ok ?d b' h'" "vi_data (vd_info ?d h') = b'" using same(2) [OF q] desc_invD(1,2) [OF inv q(1)] dat by simp_all
  next
    fix q q' b1 b2 h1 h2
    assume "(pc(p := RwOut)) q = RwWait b1 h1" "(pc(p := RwOut)) q' = RwWait b2 h2" and ne: "q \<noteq> q'"
    then have q: "pc q = RwWait b1 h1" "q \<noteq> p" "pc q' = RwWait b2 h2" "q' \<noteq> p" by (auto split: if_splits)
    then show "set (desc_chain ?d h1) \<inter> set (desc_chain ?d h2) = {}"
      using same(1) [OF q(1,2)] same(1) [OF q(3,4)] desc_invD(3) [OF inv q(1,3) ne] by simp
  next
    fix i assume i: "i < NUM"
    have "(\<exists>h' \<in> heads (pc(p := RwOut)). i \<in> set (desc_chain ?d h')) \<longleftrightarrow>
        (\<exists>q b' h'. q \<noteq> p \<and> pc q = RwWait b' h' \<and> i \<in> set (desc_chain d h'))"
      using same(1) by (auto simp: heads_def split: if_splits) (metis fun_upd_apply same(1))+
    also have "\<dots> \<longleftrightarrow> (\<exists>h' \<in> heads pc. i \<in> set (desc_chain d h')) \<and> i \<notin> set (desc_chain d h)"
      using dis p by (auto simp: heads_def) (metis disjoint_iff rwpc.inject(2))+
    finally show "(\<not> vd_free ?d i) = (\<exists>h' \<in> heads (pc(p := RwOut)). i \<in> set (desc_chain ?d h'))"
      using desc_invD(4) [OF inv i] free by simp
  qed
qed

lemma released_fields [simp]:
  "avail_ring (released h d) = avail_ring d" "avail_idx (released h d) = avail_idx d" "used_ring (released h d) = used_ring d"
  "used_idx (released h d) = used_idx d" "vd_used_idx (released h d) = vd_used_idx d" "vd_ops (released h d) = vd_ops d"
  "vi_finish (vd_info (released h d) i) = vi_finish (vd_info d i)" "vi_status (vd_info (released h d) i) = vi_status (vd_info d i)"
  by (simp_all add: released_def)

lemma wait_inv:
  assumes inv: "vinv s" and p: "sys_pc s p = RwWait b h" "\<not> asleep (sys_k s) p"
    and r: "VirtioRw_wait p b h (sys_disk s) (sys_k s) = Inr r"
  shows "vinv (after p r s)"
proof -
  let ?d = "sys_disk s" and ?pc = "sys_pc s"
  have di: "desc_inv ?d ?pc" and fi: "flow_inv ?d ?pc (dev_avail s) (dev_busy s)" and wi: "wake_inv ?d ?pc (sys_k s)"
    using inv by (auto simp: vinv_def)
  have sl: "wakes_only (\<lambda>q. q \<noteq> p) (sys_k s) (task_sleep p c (sys_k s))" for c by (intro wakes_only_sleep) auto
  show ?thesis
  proof (cases "vi_finish (vd_info ?d h)")
    case False
    then have r': "r = (RwWait b h, ?d, task_sleep p (ChData b) (sys_k s))" using r wait_cases [OF di p(1), of "sys_k s"] by simp
    have "wake_inv ?d ?pc (task_sleep p (ChData b) (sys_k s))"
      by (rule wake_step [OF wi sl]) (use p False in auto)
    moreover have "?pc(p := RwWait b h) = ?pc" using p(1) by auto
    ultimately show ?thesis using di fi by (simp add: vinv_def after_def r')
  next
    case True
    then have r': "r = (RwOut, released h ?d, wakeup ChDesc (sys_k s))" using r wait_cases [OF di p(1), of "sys_k s"] by simp
    have hd: "heads (?pc(p := RwOut)) = heads ?pc - {h}" by (rule heads_remove [OF di p(1)])
    have q: "queued (released h ?d) (dev_avail s) = queued ?d (dev_avail s)" by (rule queued_cong) simp_all
    have rp: "reported (released h ?d) = reported ?d" by (rule reported_cong) simp_all
    have f: "finished (released h ?d) (?pc(p := RwOut)) = finished ?d ?pc - {h}" by (auto simp: finished_def hd)
    have "h \<in> finished ?d ?pc" using True p(1) by (auto simp: finished_def)
    then have "flow_inv (released h ?d) (?pc(p := RwOut)) (dev_avail s) (dev_busy s)"
      using fi unfolding flow_inv_def q rp f hd by auto
    moreover have "wake_inv (released h ?d) (?pc(p := RwOut)) (wakeup ChDesc (sys_k s))"
    proof (rule wake_step [OF wi wakes_only_wakeup])
      show "card (free_set (released h ?d)) < 3"
        if "asleep (wakeup ChDesc (sys_k s)) q" "t_chan (the_task (wakeup ChDesc (sys_k s)) q) = Some ChDesc" for q
        using that by (auto simp: asleep_def [of "sys_k s"])
    qed auto
    ultimately show ?thesis using released_desc [OF di p(1)] by (simp add: vinv_def after_def r')
  qed
qed

text \<open>The interrupt handler.\<close>

lemma reported_hd:
  assumes "vd_used_idx d \<noteq> used_idx d"
  shows "reported d = unat (fst (used_ring d (unat (vd_used_idx d) mod NUM))) # reported (d\<lparr>vd_used_idx := vd_used_idx d + 1\<rparr>)"
  using ring_slice_nonempty [OF assms, of "used_ring d"] by (simp add: reported_def)

text \<open>One round of its loop: the head \<open>h\<close> is taken from the used ring and marked.\<close>

lemma intr_round:
  assumes di: "desc_inv d pc" and fi: "flow_inv d pc da busy" and wi: "wake_inv d pc k" and ne: "vd_used_idx d \<noteq> used_idx d"
    and h: "h = unat (fst (used_ring d (unat (vd_used_idx d) mod NUM)))"
    and d1: "d1 = d\<lparr>vd_info := (vd_info d)(h := (vd_info d h)\<lparr>vi_finish := True\<rparr>), vd_used_idx := vd_used_idx d + 1\<rparr>"
    and k1: "k1 = wakeup (ChData (vi_data (vd_info d h))) k"
  shows "h < NUM" "desc_inv d1 pc" "flow_inv d1 pc da busy" "wake_inv d1 pc k1" "reported d = h # reported d1" "queued d1 da = queued d da"
    "vi_status (vd_info d1 i) = vi_status (vd_info d i)"
proof -
  show rp: "reported d = h # reported d1" using reported_hd [OF ne] by (simp add: h d1 reported_def)
  have hin: "h \<in> heads pc" using fi rp by (auto simp: flow_inv_def)
  then obtain p b where p: "pc p = RwWait b h" by (auto simp: heads_def)
  show "h < NUM" using heads_bound(3) [OF di] hin by auto
  have inf: "vi_data (vd_info d1 i) = vi_data (vd_info d i)" "vi_status (vd_info d1 i) = vi_status (vd_info d i)"
    "vi_finish (vd_info d1 i) \<longleftrightarrow> i = h \<or> vi_finish (vd_info d i)" for i by (simp_all add: d1)
  then show "vi_status (vd_info d1 i) = vi_status (vd_info d i)" by simp
  show "desc_inv d1 pc" by (rule desc_inv_cong [OF di]) (use inf in \<open>auto simp: d1\<close>)
  show q: "queued d1 da = queued d da" by (rule queued_cong) (simp_all add: d1)
  have f: "finished d1 pc = insert h (finished d pc)" using hin by (auto simp: finished_def inf)
  show "flow_inv d1 pc da busy" using fi rp unfolding flow_inv_def q f by (auto simp: inf)
  show "wake_inv d1 pc k1" unfolding wake_inv_def
  proof (intro allI impI)
    fix q assume a: "asleep k1 q"
    then have aq: "asleep k q" "t_chan (the_task k q) \<noteq> Some (ChData b)" "t_chan (the_task k1 q) = t_chan (the_task k q)"
      using desc_invD(2) [OF di p] by (auto simp: k1 asleep_def [of k])
    have fs: "free_set d1 = free_set d" by (simp add: d1 free_set_def)
    show "case pc q of RwOut \<Rightarrow> True
      | RwAlloc b sec w \<Rightarrow> t_chan (the_task k1 q) = Some ChDesc \<and> card (free_set d1) < 3
      | RwWait b h \<Rightarrow> t_chan (the_task k1 q) = Some (ChData b) \<and> \<not> vi_finish (vd_info d1 h)"
      using wi aq head_owner [OF di p] p fs unfolding wake_inv_def inf by (auto split: rwpc.splits)
  qed
qed

lemma intr_ok:
  assumes "desc_inv d pc" "flow_inv d pc da busy" "wake_inv d pc k"
  shows "if no_error d then \<exists>d' k'. VirtioIntr d k = Inr (d', k') \<and> desc_inv d' pc \<and> flow_inv d' pc da busy \<and> wake_inv d' pc k' \<and>
      reported d' = [] \<and> queued d' da = queued d da \<and> vd_ops d' = vd_ops d \<and> mem k' = mem k
    else VirtioIntr d k = Inl (Panic ''virtio_disk_intr status'')"
  using assms
proof (induction d k rule: VirtioIntr.induct)
  case (1 d k)
  show ?case
  proof (cases "vd_used_idx d = used_idx d")
    case True
    then show ?thesis using 1(2-4) by (auto simp: VirtioIntr.simps [of d k] reported_def no_error_def)
  next
    case False
    define h where "h = unat (fst (used_ring d (unat (vd_used_idx d) mod NUM)))"
    define d1 where "d1 = d\<lparr>vd_info := (vd_info d)(h := (vd_info d h)\<lparr>vi_finish := True\<rparr>), vd_used_idx := vd_used_idx d + 1\<rparr>"
    define k1 where "k1 = wakeup (ChData (vi_data (vd_info d h))) k"
    note r = intr_round [OF 1(2-4) False h_def d1_def k1_def]
    show ?thesis
    proof (cases "vi_status (vd_info d h) = 0")
      case nz: False
      then have "\<not> no_error d" by (simp add: no_error_def r(5))
      moreover have "VirtioIntr d k = Inl (Panic ''virtio_disk_intr status'')"
        unfolding VirtioIntr.simps [of d k] using False r(1) nz by (simp add: h_def [symmetric] Let_def)
      ultimately show ?thesis by simp
    next
      case st: True
      have step: "VirtioIntr d k = VirtioIntr d1 k1"
        unfolding VirtioIntr.simps [of d k] using False r(1) st by (simp add: h_def [symmetric] d1_def k1_def Let_def)
      have ne: "no_error d \<longleftrightarrow> no_error d1" using st by (simp add: no_error_def r(5,7))
      have same: "vd_ops d1 = vd_ops d" "mem k1 = mem k" by (simp_all add: d1_def k1_def)
      have "if no_error d1 then \<exists>d' k'. VirtioIntr d1 k1 = Inr (d', k') \<and> desc_inv d' pc \<and> flow_inv d' pc da busy \<and> wake_inv d' pc k' \<and>
          reported d' = [] \<and> queued d' da = queued d1 da \<and> vd_ops d' = vd_ops d1 \<and> mem k' = mem k1
        else VirtioIntr d1 k1 = Inl (Panic ''virtio_disk_intr status'')"
        unfolding d1_def k1_def by (rule 1(1) [OF False h_def]) (use r st in \<open>simp_all add: d1_def k1_def\<close>)
      then show ?thesis unfolding step ne r(6) same .
    qed
  qed
qed

text \<open>An interrupt handler that returns keeps the invariant.\<close>

lemma intr_keeps:
  assumes "vinv s" "VirtioIntr (sys_disk s) (sys_k s) = Inr (d, k)"
  shows "vinv (s\<lparr>sys_disk := d, sys_k := k\<rparr>)" "reported d = []" "queued d (dev_avail s) = queued (sys_disk s) (dev_avail s)"
    "vd_ops d = vd_ops (sys_disk s)" "mem k = mem (sys_k s)"
  using intr_ok [of "sys_disk s" "sys_pc s" "dev_avail s" "dev_busy s" "sys_k s"] assms by (auto simp: vinv_def split: if_splits)


text \<open>The device.\<close>

lemma queued_hd:
  assumes "da \<noteq> avail_idx d"
  shows "queued d da = unat (avail_ring d (unat da mod NUM)) # queued d (da + 1)"
  using ring_slice_nonempty [OF assms, of "avail_ring d"] by (simp add: queued_def)

lemma fetch_inv: "vinv s \<Longrightarrow> dev_fetches s s' \<Longrightarrow> vinv s'"
  using queued_hd [of "dev_avail s" "sys_disk s"]
  by (auto simp: vinv_def dev_fetches_def flow_inv_def)

lemma answered_fields [simp]:
  "sys_pc (answered h st len m sects s) = sys_pc s" "dev_avail (answered h st len m sects s) = dev_avail s"
  "dev_busy (answered h st len m sects s) = dev_busy s - {h}" "taskTable (sys_k (answered h st len m sects s)) = taskTable (sys_k s)"
  "vi_status (vd_info (sys_disk (answered h st len m sects s)) i) = (if i = h then st else vi_status (vd_info (sys_disk s) i))"
  by (simp_all add: answered_def Let_def)

lemma completed_fields [simp]:
  "sys_pc (completed h b len s) = sys_pc s" "dev_avail (completed h b len s) = dev_avail s"
  "dev_busy (completed h b len s) = dev_busy s - {h}" "taskTable (sys_k (completed h b len s)) = taskTable (sys_k s)"
  by (simp_all add: completed_def Let_def)

lemma answered_inv:
  assumes inv: "vinv s" and h: "h \<in> dev_busy s"
  shows "vinv (answered h st len m sects s)"
    and "reported (sys_disk (answered h st len m sects s)) = reported (sys_disk s) @ [h]"
proof -
  let ?d = "sys_disk s" and ?pc = "sys_pc s" and ?d' = "sys_disk (answered h st len m sects s)"
  have di: "desc_inv ?d ?pc" and fi: "flow_inv ?d ?pc (dev_avail s) (dev_busy s)" and wi: "wake_inv ?d ?pc (sys_k s)"
    using inv by (auto simp: vinv_def)
  have d': "?d' = ?d\<lparr>vd_info := (vd_info ?d)(h := (vd_info ?d h)\<lparr>vi_status := st\<rparr>),
      used_ring := (used_ring ?d)(unat (used_idx ?d) mod NUM := (of_nat h, len)), used_idx := used_idx ?d + 1\<rparr>"
    by (simp add: answered_def Let_def)
  have hin: "h \<in> heads ?pc" using fi h by (auto simp: flow_inv_def)
  then have "unat (of_nat h :: u32) = h"
    using heads_bound(3) [OF di] by (intro unat_of_nat_small) (auto simp: NUM_def)
  then show rp: "reported ?d' = reported ?d @ [h]"
    by (simp add: reported_def d' ring_slice_snoc [OF ring_room(2) [OF di fi]])
  have inf: "vi_data (vd_info ?d' i) = vi_data (vd_info ?d i)" "vi_finish (vd_info ?d' i) = vi_finish (vd_info ?d i)" for i by (simp_all add: d')
  have q: "queued ?d' (dev_avail s) = queued ?d (dev_avail s)" by (rule queued_cong) (simp_all add: d')
  have f: "finished ?d' ?pc = finished ?d ?pc" by (simp add: finished_def inf)
  have "desc_inv ?d' ?pc" by (rule desc_inv_cong [OF di]) (use inf in \<open>auto simp: d'\<close>)
  moreover have "flow_inv ?d' ?pc (dev_avail s) (dev_busy s - {h})"
    using fi h unfolding flow_inv_def q rp f by (auto simp: inf)
  moreover have "wake_inv ?d' ?pc (sys_k (answered h st len m sects s))"
  proof -
    have "asleep (sys_k (answered h st len m sects s)) p = asleep (sys_k s) p"
      "the_task (sys_k (answered h st len m sects s)) p = the_task (sys_k s) p" for p
      by (simp_all add: asleep_def the_task_def)
    moreover have "free_set ?d' = free_set ?d" by (simp add: free_set_def d')
    ultimately show ?thesis using wi unfolding wake_inv_def by (simp add: inf cong: rwpc.case_cong)
  qed
  ultimately show "vinv (answered h st len m sects s)" by (simp add: vinv_def)
qed

lemma completed_inv:
  assumes "vinv s" "h \<in> dev_busy s"
  shows "vinv (completed h b len s)" and "reported (sys_disk (completed h b len s)) = reported (sys_disk s) @ [h]"
  using answered_inv [OF assms] by (simp_all add: completed_def Let_def)

lemma busy_request:
  assumes "vinv s" "h \<in> dev_busy s" obtains p b where "sys_pc s p = RwWait b h" "request_ok (sys_disk s) b h"
proof -
  have "h \<in> heads (sys_pc s)" using assms by (auto simp: vinv_def flow_inv_def)
  then obtain p b where p: "sys_pc s p = RwWait b h" by (auto simp: heads_def)
  then show ?thesis using desc_invD(1) assms(1) that by (auto simp: vinv_def)
qed

lemma complete_inv:
  assumes inv: "vinv s" and c: "dev_completes h s s'" shows "vinv s'"
proof -
  have h: "h \<in> dev_busy s" using c by (simp add: dev_completes_def)
  obtain p b where "request_ok (sys_disk s) b h" using busy_request [OF inv h] by blast
  then obtain len where "s' = completed h b len s" using c by (auto simp: dev_completes_def)
  then show ?thesis using completed_inv(1) [OF inv h] by simp
qed

text \<open>The rest of the kernel, and a task that has been scheduled again.\<close>

lemma others_inv: "vinv s \<Longrightarrow> others_keep (sys_pc s) (sys_k s) k \<Longrightarrow> vinv (s\<lparr>sys_k := k\<rparr>)"
  unfolding vinv_def wake_inv_def others_keep_def by (simp split: rwpc.splits) (metis rwpc.distinct(1,3))

lemma resume_inv: "vinv s \<Longrightarrow> \<not> asleep (sys_k s) p \<Longrightarrow> vinv (s\<lparr>sys_k := task_resume p (sys_k s)\<rparr>)"
  by (rule others_inv) (auto simp: others_keep_def, metis chan_task_resume)

lemma after_sys_k [simp]: "after p r (s\<lparr>sys_k := k\<rparr>) = after p r s"
  by (simp add: after_def)

lemma begin_inv:
  assumes inv: "vinv s" and p: "\<And>b h. sys_pc s p \<noteq> RwWait b h"
  shows "\<exists>r. VirtioRw_begin p b sec w (sys_disk s) (sys_k s) = Inr r \<and> vinv (after p r s)"
proof (cases rule: begin_cases [of "sys_disk s" p b sec w "sys_k s"])
  case (got i0 i1 i2)
  then show ?thesis using begin_got_inv(1) [OF inv p got(1,2) refl] by auto
next
  case (none d' k')
  then show ?thesis using begin_none_inv [OF inv p none(1-3)] by auto
qed

lemma VirtioRw_resume_inv:
  assumes inv: "vinv s" and p: "sys_pc s p \<noteq> RwOut" "\<not> asleep (sys_k s) p"
  shows "\<exists>r. VirtioRw_resume p (sys_pc s p) (sys_disk s) (sys_k s) = Inr r \<and> vinv (after p r s)"
proof -
  let ?s = "s\<lparr>sys_k := task_resume p (sys_k s)\<rparr>"
  have inv': "vinv ?s" by (rule resume_inv [OF inv p(2)])
  show ?thesis
  proof (cases "sys_pc s p")
    case (RwAlloc b sec w)
    then show ?thesis using begin_inv [OF inv', of p b sec w] by (simp add: VirtioRw_resume_def)
  next
    case (RwWait b h)
    then have "VirtioRw_wait p b h (sys_disk ?s) (sys_k ?s) \<noteq> Inl e" for e
      using wait_cases [of "sys_disk s" "sys_pc s" p b h "sys_k ?s"] inv by (simp add: vinv_def)
    then obtain r where r: "VirtioRw_wait p b h (sys_disk ?s) (sys_k ?s) = Inr r"
      by (cases "VirtioRw_wait p b h (sys_disk ?s) (sys_k ?s)") auto
    then show ?thesis using wait_inv [OF inv' _ _ r] RwWait p(2) by (simp add: VirtioRw_resume_def)
  qed (use p in simp)
qed

lemma vstep_inv:
  assumes "virtio_device_err dev" "vstep dev s s'" "vinv s" shows "vinv s'"
  using assms(2)
proof cases
  case (call p b sec w r)
  then show ?thesis using begin_inv [OF assms(3), of p b sec w] by auto
next
  case (resume p r)
  then show ?thesis using VirtioRw_resume_inv [OF assms(3), of p] by auto
next
  case (intr d k)
  then show ?thesis using intr_keeps(1) [OF assms(3) intr(2)] by simp
next
  case device
  then show ?thesis using assms(1,3) fetch_inv complete_inv answered_inv(1) unfolding virtio_device_err_def dev_fails_def by metis
next
  case (other k)
  then show ?thesis using others_inv assms(3) by blast
qed

lemma vinit_inv:
  assumes "vsys_init s" shows "vinv s"
proof -
  obtain R w d where i: "VirtioInit R d = Inr (w, sys_disk s)" and pc: "\<And>p. sys_pc s p = RwOut"
    and z: "dev_busy s = {}" "dev_avail s = 0" "vd_used_idx (sys_disk s) = 0" using assms by (auto simp: vsys_init_def)
  have f: "avail_idx (sys_disk s) = 0" "used_idx (sys_disk s) = 0" "\<And>i. i < NUM \<Longrightarrow> vd_free (sys_disk s) i"
    using i by (auto simp: VirtioInit_def split: if_splits dest!: sym [of _ "sys_disk s"])
  have h: "heads (sys_pc s) = {}" by (simp add: heads_def pc)
  show ?thesis using f z h pc
    by (simp add: vinv_def desc_inv_def flow_inv_def wake_inv_def finished_def queued_def reported_def)
qed

lemma vreach_inv: "vreach dev s \<Longrightarrow> virtio_device_err dev \<Longrightarrow> vinv s"
  by (induction rule: vreach.induct) (auto intro: vinit_inv vstep_inv)

section \<open>A device without errors\<close>

lemma no_errorI:
  assumes "no_error d" "reported d' = reported d" "\<And>h. h \<in> set (reported d) \<Longrightarrow> vi_status (vd_info d' h) = vi_status (vd_info d h)"
  shows "no_error d'"
  using assms by (simp add: no_error_def)

lemma reported_heads: "vinv s \<Longrightarrow> set (reported (sys_disk s)) \<subseteq> heads (sys_pc s)"
  by (auto simp: vinv_def flow_inv_def)

lemma begin_no_error:
  assumes inv: "vinv s" and p: "\<And>b h. sys_pc s p \<noteq> RwWait b h" and ne: "no_error (sys_disk s)"
    and r: "VirtioRw_begin p b sec w (sys_disk s) k = Inr r"
  shows "no_error (fst (snd r))"
proof (cases rule: begin_cases [of "sys_disk s" p b sec w k])
  case (got i0 i1 i2)
  let ?d' = "VirtioRw_format b sec w i0 i1 i2 ((sys_disk s)\<lparr>vd_free := (vd_free (sys_disk s))(i0 := False, i1 := False, i2 := False)\<rparr>)"
  have di: "desc_inv (sys_disk s) (sys_pc s)" using inv by (simp add: vinv_def)
  have "no_error ?d'"
  proof (rule no_errorI [OF ne])
    show "reported ?d' = reported (sys_disk s)" by (rule reported_cong) simp_all
    show "vi_status (vd_info ?d' h) = vi_status (vd_info (sys_disk s) h)" if "h \<in> set (reported (sys_disk s))" for h
      using begin_got_desc(2) [OF di p got(1,2) refl] reported_heads [OF inv] that by auto
  qed
  then show ?thesis using r got(3) by auto
next
  case (none d' k')
  then obtain D where "d' = (sys_disk s)\<lparr>vd_desc := D\<rparr>" by (auto simp: same_but_free_def)
  then have "no_error d'" using no_errorI [OF ne, of d'] by (simp add: reported_def)
  then show ?thesis using r none(4) by auto
qed

lemma vstep_no_error:
  assumes "virtio_device dev" "vinv s" "no_error (sys_disk s)" "vstep dev s s'" shows "no_error (sys_disk s')"
  using assms(4)
proof cases
  case (call p b sec w r)
  then show ?thesis using begin_no_error [OF assms(2) _ assms(3), of p] by (simp add: after_def)
next
  case (resume p r)
  then show ?thesis
  proof (cases "sys_pc s p")
    case (RwAlloc b sec w)
    then show ?thesis using begin_no_error [OF assms(2) _ assms(3), of p] resume by (simp add: after_def VirtioRw_resume_def)
  next
    case (RwWait b h)
    have di: "desc_inv (sys_disk s) (sys_pc s)" using assms(2) by (simp add: vinv_def)
    have "no_error (released h (sys_disk s))" by (rule no_errorI [OF assms(3)]) (simp_all add: reported_def)
    then show ?thesis using resume assms(3) RwWait wait_cases [OF di RwWait, of "task_resume p (sys_k s)"]
      by (auto simp: after_def VirtioRw_resume_def split: if_splits)
  qed simp
next
  case (intr d k)
  then show ?thesis using intr_keeps(2) [OF assms(2) intr(2)] by (simp add: no_error_def)
next
  case device
  consider "dev_fetches s s'" | h where "dev_completes h s s'" using assms(1) device by (auto simp: virtio_device_def)
  then show ?thesis
  proof cases
    case 1
    then show ?thesis using assms(3) by (simp add: dev_fetches_def)
  next
    case (2 h)
    then have h: "h \<in> dev_busy s" by (simp add: dev_completes_def)
    obtain p b where "request_ok (sys_disk s) b h" using busy_request [OF assms(2) h] by blast
    then obtain len where s': "s' = completed h b len s" using 2 by (auto simp: dev_completes_def)
    have "reported (sys_disk s') = reported (sys_disk s) @ [h]" unfolding s' by (rule completed_inv(2) [OF assms(2) h])
    then show ?thesis using assms(3) by (auto simp: no_error_def s' completed_def Let_def)
  qed
next
  case (other k)
  then show ?thesis using assms(3) by simp
qed

lemma vreach_no_error: "vreach dev s \<Longrightarrow> virtio_device dev \<Longrightarrow> no_error (sys_disk s)"
proof (induction rule: vreach.induct)
  case (vreach_init s)
  then have "used_idx (sys_disk s) = vd_used_idx (sys_disk s)"
    by (auto simp: vsys_init_def VirtioInit_def split: if_splits dest!: sym [of _ "sys_disk s"])
  then show ?case by (simp add: no_error_def reported_def)
next
  case (vreach_step s s')
  then show ?case using vstep_no_error vreach_inv virtio_device_no_err by blast
qed

end
