(* ===== verification/VirtioDisk.thy ===== *)
theory VirtioDisk
  imports VirtioInv
begin

unbundle bit_operations_syntax

text \<open>
  What the virtio driver promises: it is safe and panics only on an error of the device, its transfers are atomic, no
  wakeup is lost, and the block device of \<^verbatim>\<open>src/kernel/device/virtio_disk.cpp\<close>, which runs the driver sector by sector, is
  the block device the buffer cache is verified against.
\<close>

section \<open>Atomic sector transfers\<close>

text \<open>
  What the driver promises its callers: a request is made, takes effect at one moment, and then the call returns.
\<close>

datatype areq = AIdle | APending u64 u64 bool | ADone

record adisk =
  a_mem :: pmem
  a_sectors :: "nat \<Rightarrow> u8 list"
  a_req :: "nat \<Rightarrow> areq"

inductive astep :: "adisk \<Rightarrow> adisk \<Rightarrow> bool" where
  acall: "a_req a p = AIdle \<Longrightarrow> astep a (a\<lparr>a_req := (a_req a)(p := APending b sec w)\<rparr>)"
| axfer: "a_req a p = APending b sec w \<Longrightarrow>
    astep a \<lparr>a_mem = xfer_mem b sec w (a_sectors a) (a_mem a), a_sectors = xfer_sectors b sec w (a_mem a) (a_sectors a),
             a_req = (a_req a)(p := ADone)\<rparr>"
| aret: "a_req a p = ADone \<Longrightarrow> astep a (a\<lparr>a_req := (a_req a)(p := AIdle)\<rparr>)"
| aother: "astep a (a\<lparr>a_mem := m\<rparr>)"

definition in_flight :: "'a vsys \<Rightarrow> nat set" where
  "in_flight s = set (queued (sys_disk s) (dev_avail s)) \<union> dev_busy s"

definition abs_req :: "vdisk \<Rightarrow> nat set \<Rightarrow> rwpc \<Rightarrow> areq" where
  "abs_req d fl x = (case x of RwOut \<Rightarrow> AIdle | RwAlloc b sec w \<Rightarrow> APending b sec w
     | RwWait b h \<Rightarrow> if h \<in> fl then APending b (req_sector (vd_ops d h)) (is_write d h) else ADone)"

definition abs_disk :: "'a vsys \<Rightarrow> adisk" where
  "abs_disk s = \<lparr>a_mem = mem (sys_k s), a_sectors = dev_sectors s,
     a_req = \<lambda>p. abs_req (sys_disk s) (in_flight s) (sys_pc s p)\<rparr>"

lemma abs_after:
  assumes "mem (sys_k s') = mem (sys_k s)" "dev_sectors s' = dev_sectors s"
    and "\<And>q. q \<noteq> p \<Longrightarrow> abs_req (sys_disk s') (in_flight s') (sys_pc s' q) = abs_req (sys_disk s) (in_flight s) (sys_pc s q)"
    and "abs_req (sys_disk s') (in_flight s') (sys_pc s' p) = x"
  shows "abs_disk s' = (abs_disk s)\<lparr>a_req := (a_req (abs_disk s))(p := x)\<rparr>"
  using assms by (auto simp: abs_disk_def)

lemma abs_req_cong:
  "(\<And>b h. x = RwWait b h \<Longrightarrow> vd_ops d' h = vd_ops d h \<and> (h \<in> fl' \<longleftrightarrow> h \<in> fl)) \<Longrightarrow> abs_req d' fl' x = abs_req d fl x"
  by (auto simp: abs_req_def is_write_def split: rwpc.splits)

lemma begin_abs:
  assumes inv: "vinv s" and p: "\<And>b h. sys_pc s p \<noteq> RwWait b h" and k: "mem k = mem (sys_k s)"
    and r: "VirtioRw_begin p b sec w (sys_disk s) k = Inr r"
  shows "abs_disk (after p r s) = (abs_disk s)\<lparr>a_req := (a_req (abs_disk s))(p := APending b sec w)\<rparr>"
proof (cases rule: begin_cases [of "sys_disk s" p b sec w k])
  case (got i0 i1 i2)
  let ?d = "sys_disk s"
  define d' where "d' = VirtioRw_format b sec w i0 i1 i2 (?d\<lparr>vd_free := (vd_free ?d)(i0 := False, i1 := False, i2 := False)\<rparr>)"
  have r': "r = (RwWait b i0, d', task_sleep p (ChData b) k)" using r got by (simp add: d'_def)
  have sub: "{i0, i1, i2} \<subseteq> {..<NUM}" using got(2) by (auto simp: free_set_def)
  note new = format_request [OF got(1) sub, where d = "?d\<lparr>vd_free := (vd_free ?d)(i0 := False, i1 := False, i2 := False)\<rparr>"
      and b = b and sec = sec and w = w, folded d'_def]
  have di: "desc_inv ?d (sys_pc s)" using inv by (simp add: vinv_def)
  have old: "h \<noteq> i0 \<and> vd_ops d' h = vd_ops ?d h" if "h \<in> heads (sys_pc s)" for h
    using begin_got_desc(2) [OF di p got(1,2) d'_def that] by simp
  have fl: "in_flight (after p r s) = insert i0 (in_flight s)"
    using begin_got_inv(2) [OF inv p got(1,2) d'_def] by (simp add: in_flight_def after_def r')
  show ?thesis
  proof (rule abs_after)
    fix q assume q: "q \<noteq> p"
    have "abs_req d' (insert i0 (in_flight s)) (sys_pc s q) = abs_req ?d (in_flight s) (sys_pc s q)"
    proof (rule abs_req_cong)
      fix b' h assume "sys_pc s q = RwWait b' h"
      then have "h \<in> heads (sys_pc s)" by blast
      then show "vd_ops d' h = vd_ops ?d h \<and> (h \<in> insert i0 (in_flight s) \<longleftrightarrow> h \<in> in_flight s)" using old by simp
    qed
    then show "abs_req (sys_disk (after p r s)) (in_flight (after p r s)) (sys_pc (after p r s) q)
        = abs_req ?d (in_flight s) (sys_pc s q)" using q unfolding fl by (simp add: after_def r')
  next
    show "abs_req (sys_disk (after p r s)) (in_flight (after p r s)) (sys_pc (after p r s) p) = APending b sec w"
      unfolding fl by (simp add: after_def r' abs_req_def new)
  qed (simp_all add: after_def r' k)
next
  case (none d' k')
  then have r': "r = (RwAlloc b sec w, d', task_sleep p ChDesc k')" using r by simp
  obtain D where d': "d' = (sys_disk s)\<lparr>vd_desc := D\<rparr>" using none(2) by (auto simp: same_but_free_def)
  have fl: "in_flight (after p r s) = in_flight s" by (simp add: in_flight_def after_def r' d' queued_def)
  show ?thesis
  proof (rule abs_after)
    fix q assume "q \<noteq> p"
    then show "abs_req (sys_disk (after p r s)) (in_flight (after p r s)) (sys_pc (after p r s) q)
        = abs_req (sys_disk s) (in_flight s) (sys_pc s q)"
      unfolding fl by (simp add: after_def r' d') (rule abs_req_cong, simp)
  qed (use none(3) k in \<open>auto simp: after_def r' abs_req_def\<close>)
qed

lemma finished_not_in_flight:
  "vinv s \<Longrightarrow> sys_pc s p = RwWait b h \<Longrightarrow> vi_finish (vd_info (sys_disk s) h) \<Longrightarrow> h \<notin> in_flight s"
  by (auto simp: vinv_def flow_inv_def in_flight_def finished_def)

lemma wait_abs:
  assumes inv: "vinv s" and p: "sys_pc s p = RwWait b h" and k: "mem k = mem (sys_k s)"
    and r: "VirtioRw_wait p b h (sys_disk s) k = Inr r"
  shows "abs_disk (after p r s) = abs_disk s \<or> astep (abs_disk s) (abs_disk (after p r s))"
proof (cases "vi_finish (vd_info (sys_disk s) h)")
  case False
  then have "r = (RwWait b h, sys_disk s, task_sleep p (ChData b) k)"
    using r wait_cases [of "sys_disk s" "sys_pc s" p b h k] inv p by (simp add: vinv_def)
  moreover have "(sys_pc s)(p := RwWait b h) = sys_pc s" using p by auto
  ultimately have "abs_disk (after p r s) = abs_disk s" using k by (simp add: abs_disk_def after_def in_flight_def)
  then show ?thesis ..
next
  case True
  then have r': "r = (RwOut, released h (sys_disk s), wakeup ChDesc k)"
    using r wait_cases [of "sys_disk s" "sys_pc s" p b h k] inv p by (simp add: vinv_def)
  have fl: "in_flight (after p r s) = in_flight s" by (simp add: in_flight_def after_def r' queued_def)
  have "abs_disk (after p r s) = (abs_disk s)\<lparr>a_req := (a_req (abs_disk s))(p := AIdle)\<rparr>"
  proof (rule abs_after)
    fix q assume "q \<noteq> p"
    then show "abs_req (sys_disk (after p r s)) (in_flight (after p r s)) (sys_pc (after p r s) q)
        = abs_req (sys_disk s) (in_flight s) (sys_pc s q)"
      unfolding fl by (simp add: after_def r') (rule abs_req_cong, simp)
  qed (use k in \<open>simp_all add: after_def r' abs_req_def\<close>)
  moreover have "a_req (abs_disk s) p = ADone"
    using finished_not_in_flight [OF inv p True] p by (simp add: abs_disk_def abs_req_def)
  ultimately show ?thesis using aret [of "abs_disk s" p] by simp
qed

lemma completed_abs:
  assumes inv: "vinv s" and h: "h \<in> dev_busy s" and p: "sys_pc s p = RwWait b h"
  shows "astep (abs_disk s) (abs_disk (completed h b len s))"
proof -
  let ?d = "sys_disk s" and ?s = "completed h b len s"
  have fi: "flow_inv ?d (sys_pc s) (dev_avail s) (dev_busy s)" and di: "desc_inv ?d (sys_pc s)"
    using inv by (auto simp: vinv_def)
  have q: "queued (sys_disk ?s) (dev_avail s) = queued ?d (dev_avail s)"
    by (rule queued_cong) (simp_all add: completed_def answered_def Let_def)
  have fl: "in_flight ?s = in_flight s - {h}" using fi h by (auto simp: in_flight_def q flow_inv_def)
  have ops: "vd_ops (sys_disk ?s) = vd_ops ?d" by (simp add: completed_def answered_def Let_def)
  have others: "abs_req (sys_disk ?s) (in_flight ?s) (sys_pc s q) = abs_req ?d (in_flight s) (sys_pc s q)" if "q \<noteq> p" for q
  proof (rule abs_req_cong)
    fix b' h' assume "sys_pc s q = RwWait b' h'"
    then have "h' \<noteq> h" using head_owner [OF di p] that by auto
    then show "vd_ops (sys_disk ?s) h' = vd_ops ?d h' \<and> (h' \<in> in_flight ?s \<longleftrightarrow> h' \<in> in_flight s)" by (simp add: ops fl)
  qed
  have own: "abs_req (sys_disk ?s) (in_flight ?s) (sys_pc s p) = ADone" using p fl by (simp add: abs_req_def)
  have pend: "a_req (abs_disk s) p = APending b (req_sector (vd_ops ?d h)) (is_write ?d h)"
    using p h by (simp add: abs_disk_def abs_req_def in_flight_def)
  have "abs_disk ?s = \<lparr>a_mem = xfer_mem b (req_sector (vd_ops ?d h)) (is_write ?d h) (a_sectors (abs_disk s)) (a_mem (abs_disk s)),
      a_sectors = xfer_sectors b (req_sector (vd_ops ?d h)) (is_write ?d h) (a_mem (abs_disk s)) (a_sectors (abs_disk s)),
      a_req = (a_req (abs_disk s))(p := ADone)\<rparr>"
  proof -
    have "a_req (abs_disk ?s) = (a_req (abs_disk s))(p := ADone)"
      by (rule ext) (use others own in \<open>simp add: abs_disk_def\<close>)
    moreover have "a_mem (abs_disk ?s) = xfer_mem b (req_sector (vd_ops ?d h)) (is_write ?d h) (dev_sectors s) (mem (sys_k s))"
      "a_sectors (abs_disk ?s) = xfer_sectors b (req_sector (vd_ops ?d h)) (is_write ?d h) (mem (sys_k s)) (dev_sectors s)"
      by (simp_all add: abs_disk_def completed_def answered_def Let_def)
    ultimately show ?thesis by (simp add: abs_disk_def)
  qed
  then show ?thesis using axfer [OF pend] by simp
qed

lemma device_abs:
  assumes dev: "virtio_device dev" and inv: "vinv s" and st: "dev s s'"
  shows "abs_disk s' = abs_disk s \<or> astep (abs_disk s) (abs_disk s')"
proof -
  consider "dev_fetches s s'" | h where "dev_completes h s s'" using dev st by (auto simp: virtio_device_def)
  then show ?thesis
  proof cases
    case 1
    then have "abs_disk s' = abs_disk s"
      using queued_hd [of "dev_avail s" "sys_disk s"] by (auto simp: dev_fetches_def abs_disk_def in_flight_def)
    then show ?thesis ..
  next
    case (2 h)
    then have h: "h \<in> dev_busy s" by (simp add: dev_completes_def)
    then obtain p b where "sys_pc s p = RwWait b h" "request_ok (sys_disk s) b h" using busy_request [OF inv] by blast
    then show ?thesis using 2 completed_abs [OF inv h] by (auto simp: dev_completes_def)
  qed
qed

lemma vstep_abs:
  assumes dev: "virtio_device dev" and inv: "vinv s" and st: "vstep dev s s'"
  shows "abs_disk s' = abs_disk s \<or> astep (abs_disk s) (abs_disk s')"
  using st
proof cases
  case (call p b sec w r)
  have "a_req (abs_disk s) p = AIdle" using call by (simp add: abs_disk_def abs_req_def)
  then show ?thesis using begin_abs [OF inv, of p "sys_k s" b sec w r] call acall [of "abs_disk s" p b sec w] by simp
next
  case (resume p r)
  show ?thesis
  proof (cases "sys_pc s p")
    case (RwAlloc b sec w)
    then have "abs_disk s' = (abs_disk s)\<lparr>a_req := (a_req (abs_disk s))(p := APending b sec w)\<rparr>"
      using begin_abs [OF inv, of p "task_resume p (sys_k s)" b sec w r] resume by (simp add: VirtioRw_resume_def)
    also have "\<dots> = abs_disk s" using RwAlloc by (auto simp: abs_disk_def abs_req_def)
    finally show ?thesis ..
  next
    case (RwWait b h)
    then show ?thesis using wait_abs [OF inv, of p b h "task_resume p (sys_k s)" r] resume by (simp add: VirtioRw_resume_def)
  qed (use resume in simp)
next
  case (intr d k)
  then have "queued d (dev_avail s) = queued (sys_disk s) (dev_avail s)" "vd_ops d = vd_ops (sys_disk s)" "mem k = mem (sys_k s)"
    using intr_keeps [OF inv intr(2)] by simp_all
  then have "abs_disk s' = abs_disk s"
    using intr by (simp add: abs_disk_def in_flight_def) (intro ext abs_req_cong, simp)
  then show ?thesis ..
next
  case device
  then show ?thesis by (rule device_abs [OF dev inv])
next
  case (other k)
  then have "abs_disk s' = (abs_disk s)\<lparr>a_mem := mem k\<rparr>" by (simp add: abs_disk_def in_flight_def)
  then show ?thesis using aother [of "abs_disk s" "mem k"] by simp
qed

lemma vinit_abs: "vsys_init s \<Longrightarrow> a_req (abs_disk s) p = AIdle"
  by (simp add: vsys_init_def abs_disk_def abs_req_def)

section \<open>Results\<close>

text \<open>A device that follows the protocol, and a machine at boot, for the concrete instances.\<close>

definition sample_dev :: "'a vsys \<Rightarrow> 'a vsys \<Rightarrow> bool" where
  "sample_dev s s' \<longleftrightarrow> dev_fetches s s' \<or>
     (\<exists>h b. h \<in> dev_busy s \<and> request_ok (sys_disk s) b h \<and> s' = completed h b 0 s)"

lemma request_buffer: "request_ok d b h \<Longrightarrow> request_ok d b' h \<Longrightarrow> b = b'"
  by (simp add: request_ok_def)

lemma sample_dev_ok: "virtio_device sample_dev"
  unfolding virtio_device_def sample_dev_def dev_completes_def using request_buffer by blast

definition sample_regs :: "nat \<Rightarrow> u32" where
  "sample_regs r = (if r = 0 then 0x74726976 else if r = 4 then 1 else if r = 8 then 2 else if r = 12 then 0x554d4551
     else if r = 0x34 then 8 else 0)"

definition sample_vdisk :: vdisk where
  "sample_vdisk = \<lparr>vd_base = 0x80210000, vd_desc = \<lambda>_. desc_zero, avail_idx = 0, avail_ring = \<lambda>_. 0, used_idx = 0,
     used_ring = \<lambda>_. (0, 0), vd_free = \<lambda>i. i < NUM, vd_used_idx = 0,
     vd_info = \<lambda>_. \<lparr>vi_data = 0, vi_finish = False, vi_status = 0\<rparr>,
     vd_ops = \<lambda>_. \<lparr>req_type = 0, req_reserved = 0, req_sector = 0\<rparr>\<rparr>"

definition sample_vsys :: "unit vsys" where
  "sample_vsys = \<lparr>sys_disk = sample_vdisk, sys_k = initTaskTable boot_machine, sys_pc = \<lambda>_. RwOut, dev_avail = 0,
     dev_busy = {}, dev_sectors = \<lambda>_. replicate SECTOR_SIZE 0\<rparr>"

lemma sample_vsys_init: "vsys_init sample_vsys"
proof -
  have "VirtioInit sample_regs sample_vdisk = Inr (fst (projr (VirtioInit sample_regs sample_vdisk)), sample_vdisk)"
    by (simp add: VirtioInit_def sample_regs_def sample_vdisk_def NUM_def)
  then show ?thesis unfolding vsys_init_def sample_vsys_def by (auto simp: sample_vdisk_def)
qed

lemma sample_vsys_reach: "vreach sample_dev sample_vsys"
  by (rule vreach_init [OF sample_vsys_init])

lemma sample_awake: "\<not> asleep (sys_k sample_vsys) 2"
  by (simp add: asleep_def sample_vsys_def initTaskTable_def the_task_def initTask_entry_def NTASK_def)

text \<open>
  C6: The virtio disk driver never leaves its tables and panics only on a disk error. With a device that follows the virtio protocol
  and may fail requests, in every state reached from \<^verbatim>\<open>VirtioInit\<close> by any interleaving of tasks in \<^verbatim>\<open>VirtioRw\<close>, device activity
  and interrupts, every call and continuation of \<^verbatim>\<open>VirtioRw\<close> succeeds; the interrupt handler succeeds when every completion
  it finds in the used ring has status 0, as with a device without errors it always has, and otherwise stops the kernel with the
  panic on the status; and the requests in flight use disjoint chains of three descriptors whose data descriptor points to the caller's
  buffer.
\<close>

theorem virtio_driver_safe:
  assumes "virtio_device_err dev" and "vreach dev s"
  shows "(if \<forall>h \<in> set (reported (sys_disk s)). vi_status (vd_info (sys_disk s) h) = 0
      then \<exists>d k. VirtioIntr (sys_disk s) (sys_k s) = Inr (d, k)
      else VirtioIntr (sys_disk s) (sys_k s) = Inl (Panic ''virtio_disk_intr status'')) \<and>
    (virtio_device dev \<longrightarrow> (\<forall>h \<in> set (reported (sys_disk s)). vi_status (vd_info (sys_disk s) h) = 0)) \<and>
    (\<forall>p b sec w. sys_pc s p = RwOut \<longrightarrow> (\<exists>r. VirtioRw_begin p b sec w (sys_disk s) (sys_k s) = Inr r)) \<and>
    (\<forall>p. sys_pc s p \<noteq> RwOut \<longrightarrow> \<not> asleep (sys_k s) p \<longrightarrow>
       (\<exists>r. VirtioRw_resume p (sys_pc s p) (sys_disk s) (sys_k s) = Inr r)) \<and>
    (\<forall>p b h. sys_pc s p = RwWait b h \<longrightarrow> distinct (desc_chain (sys_disk s) h) \<and>
       set (desc_chain (sys_disk s) h) \<subseteq> {..<NUM} \<and> dsc_addr (vd_desc (sys_disk s) (nx1 (sys_disk s) h)) = b) \<and>
    (\<forall>p q b b' h h'. sys_pc s p = RwWait b h \<longrightarrow> sys_pc s q = RwWait b' h' \<longrightarrow> p \<noteq> q \<longrightarrow>
       set (desc_chain (sys_disk s) h) \<inter> set (desc_chain (sys_disk s) h') = {})"
proof -
  have inv: "vinv s" using vreach_inv assms by blast
  then have di: "desc_inv (sys_disk s) (sys_pc s)" by (simp add: vinv_def)
  have "if no_error (sys_disk s) then \<exists>d k. VirtioIntr (sys_disk s) (sys_k s) = Inr (d, k)
      else VirtioIntr (sys_disk s) (sys_k s) = Inl (Panic ''virtio_disk_intr status'')"
    using intr_ok [of "sys_disk s" "sys_pc s" "dev_avail s" "dev_busy s" "sys_k s"] inv by (auto simp: vinv_def split: if_splits)
  moreover have "virtio_device dev \<longrightarrow> no_error (sys_disk s)" using vreach_no_error [OF assms(2)] by blast
  moreover have "\<exists>r. VirtioRw_begin p b sec w (sys_disk s) (sys_k s) = Inr r" if "sys_pc s p = RwOut" for p b sec w
    using begin_inv [OF inv, of p b sec w] that by auto
  moreover have "\<exists>r. VirtioRw_resume p (sys_pc s p) (sys_disk s) (sys_k s) = Inr r"
    if "sys_pc s p \<noteq> RwOut" "\<not> asleep (sys_k s) p" for p
    using VirtioRw_resume_inv [OF inv that] by blast
  moreover have "distinct (desc_chain (sys_disk s) h) \<and> set (desc_chain (sys_disk s) h) \<subseteq> {..<NUM} \<and>
      dsc_addr (vd_desc (sys_disk s) (nx1 (sys_disk s) h)) = b" if "sys_pc s p = RwWait b h" for p b h
    using desc_invD(1) [OF di that] by (simp add: request_ok_def)
  moreover have "\<forall>p q b b' h h'. sys_pc s p = RwWait b h \<longrightarrow> sys_pc s q = RwWait b' h' \<longrightarrow> p \<noteq> q \<longrightarrow>
       set (desc_chain (sys_disk s) h) \<inter> set (desc_chain (sys_disk s) h') = {}" using desc_invD(3) [OF di] by blast
  ultimately show ?thesis unfolding no_error_def by (intro conjI allI impI) blast+
qed

text \<open>The witness uses a device that can fail any request with an I/O error.\<close>

definition faulty_dev :: "'a vsys \<Rightarrow> 'a vsys \<Rightarrow> bool" where
  "faulty_dev s s' \<longleftrightarrow> sample_dev s s' \<or> (\<exists>h. h \<in> dev_busy s \<and> s' = answered h 1 1 (mem (sys_k s)) (dev_sectors s) s)"

lemma faulty_dev_ok: "virtio_device_err faulty_dev"
proof -
  have "dev_fails h s (answered h 1 1 (mem (sys_k s)) (dev_sectors s) s)" if "h \<in> dev_busy s" for h and s :: "'a vsys"
    using that unfolding dev_fails_def by (intro conjI exI [of _ 1] exI [of _ "mem (sys_k s)"] exI [of _ "dev_sectors s"]) simp_all
  then show ?thesis using sample_dev_ok unfolding virtio_device_err_def virtio_device_def faulty_dev_def by blast
qed

theorem virtio_driver_safe_witness:
  "\<exists>r. VirtioRw_begin 2 0x80300000 7 True (sys_disk sample_vsys) (sys_k sample_vsys) = Inr r"
  using virtio_driver_safe [OF faulty_dev_ok vreach_init [OF sample_vsys_init]] by (simp add: sample_vsys_def)

text \<open>
  C7: Sector transfers are atomic. Every step of the driver, its callers and the device is, seen by the callers, either
  invisible or one step of the specification: a call that makes a request, the transfer of the requested sector
  between the caller's buffer and the disk, the return of a call whose transfer has happened, or a change of
  memory by the rest of the kernel. In particular a call returns only after its one transfer.
\<close>

theorem virtio_atomic_transfers:
  assumes "virtio_device dev" and "vreach dev s" and "vstep dev s s'"
  shows "abs_disk s' = abs_disk s \<or> astep (abs_disk s) (abs_disk s')"
  using vstep_abs [OF assms(1) vreach_inv [OF assms(2) virtio_device_no_err [OF assms(1)]] assms(3)] .

theorem virtio_atomic_transfers_witness:
  "\<exists>r. VirtioRw_begin 2 0x80300000 7 True (sys_disk sample_vsys) (sys_k sample_vsys) = Inr r \<and>
     (abs_disk (after 2 r sample_vsys) = abs_disk sample_vsys \<or> astep (abs_disk sample_vsys) (abs_disk (after 2 r sample_vsys)))"
proof -
  have pc: "sys_pc sample_vsys 2 = RwOut" by (simp add: sample_vsys_def)
  obtain r where r: "VirtioRw_begin 2 0x80300000 7 True (sys_disk sample_vsys) (sys_k sample_vsys) = Inr r"
    using begin_inv [OF vinit_inv [OF sample_vsys_init], of 2] pc by force
  show ?thesis
    using virtio_atomic_transfers [OF sample_dev_ok sample_vsys_reach call [OF pc sample_awake r]] r by blast
qed

lemma waiting_has_work:
  assumes inv: "vinv s" and p: "sys_pc s p = RwWait b h" "asleep (sys_k s) p"
  shows "dev_avail s \<noteq> avail_idx (sys_disk s) \<or> dev_busy s \<noteq> {} \<or> vd_used_idx (sys_disk s) \<noteq> used_idx (sys_disk s)"
proof -
  have "\<not> vi_finish (vd_info (sys_disk s) h)" using inv p by (auto simp: vinv_def wake_inv_def)
  then have "h \<notin> finished (sys_disk s) (sys_pc s)" by (simp add: finished_def)
  moreover have "h \<in> heads (sys_pc s)" using p(1) by blast
  ultimately have "h \<in> set (queued (sys_disk s) (dev_avail s)) \<union> dev_busy s \<union> set (reported (sys_disk s))"
    using inv unfolding vinv_def flow_inv_def by blast
  then show ?thesis by (auto simp: queued_def reported_def)
qed

lemma few_free_busy:
  assumes "desc_inv d pc" "card (free_set d) < 3" shows "heads pc \<noteq> {}"
proof
  assume "heads pc = {}"
  then have "free_set d = {..<NUM}" using desc_invD(4) [OF assms(1)] by (auto simp: free_set_def)
  then show False using assms(2) by (simp add: NUM_def)
qed

text \<open>
  C8: No wakeup is lost. In every reachable state in which some task is inside \<^verbatim>\<open>VirtioRw\<close>, a task inside it is awake
  and can go on, or the device has a request to fetch or to complete, or the interrupt handler has a completed
  request to report: the tasks waiting for the disk are never all asleep with nothing left to wake them.
\<close>

theorem virtio_no_lost_wakeup:
  assumes "virtio_device dev" and "vreach dev s" and "sys_pc s p \<noteq> RwOut"
  shows "(\<exists>q. sys_pc s q \<noteq> RwOut \<and> \<not> asleep (sys_k s) q) \<or> dev_avail s \<noteq> avail_idx (sys_disk s) \<or> dev_busy s \<noteq> {} \<or>
    vd_used_idx (sys_disk s) \<noteq> used_idx (sys_disk s)"
proof (rule ccontr)
  assume no: "\<not> ?thesis"
  have inv: "vinv s" using vreach_inv virtio_device_no_err assms by blast
  have sleeping: "asleep (sys_k s) q" if "sys_pc s q \<noteq> RwOut" for q using no that by blast
  have none: "sys_pc s q \<noteq> RwWait b h" for q b h using waiting_has_work [OF inv, of q b h] sleeping [of q] no by auto
  obtain b sec w where "sys_pc s p = RwAlloc b sec w" using assms(3) none by (cases "sys_pc s p") auto
  then have "card (free_set (sys_disk s)) < 3" using inv sleeping [of p] by (auto simp: vinv_def wake_inv_def)
  then have "heads (sys_pc s) \<noteq> {}" using few_free_busy inv by (auto simp: vinv_def)
  then show False using none by (auto simp: heads_def)
qed

theorem virtio_no_lost_wakeup_witness:
  "\<exists>r. VirtioRw_begin 2 0x80300000 7 True (sys_disk sample_vsys) (sys_k sample_vsys) = Inr r \<and>
     (\<not> asleep (sys_k (after 2 r sample_vsys)) 2 \<or> avail_idx (sys_disk (after 2 r sample_vsys)) \<noteq> 0 \<or>
      used_idx (sys_disk (after 2 r sample_vsys)) \<noteq> vd_used_idx (sys_disk (after 2 r sample_vsys)))"
proof -
  have pc: "sys_pc sample_vsys 2 = RwOut" by (simp add: sample_vsys_def)
  obtain r where r: "VirtioRw_begin 2 0x80300000 7 True (sys_disk sample_vsys) (sys_k sample_vsys) = Inr r"
    using begin_inv [OF vinit_inv [OF sample_vsys_init], of 2] pc by force
  have re: "vreach sample_dev (after 2 r sample_vsys)"
    by (rule vreach_step [OF sample_vsys_reach call [OF pc sample_awake r]])
  have "fst r \<noteq> RwOut"
    using r by (cases rule: begin_cases [where d = "sys_disk sample_vsys" and p = 2 and b = "0x80300000" and sec = 7 and w = True
        and k = "sys_k sample_vsys"]) auto
  then have "sys_pc (after 2 r sample_vsys) 2 \<noteq> RwOut" by (simp add: after_def)
  from virtio_no_lost_wakeup [OF sample_dev_ok re this] show ?thesis
    using r by (intro exI [of _ r]) (auto simp: after_def sample_vsys_def split: if_splits)
qed

section \<open>The block device on top of the driver\<close>

text \<open>
  A call of the driver from its start to its return, when no other task uses the disk: the task makes its request and sleeps, the
  device works, its interrupt is handled, and the task goes on. \<open>serve\<close> is what the device does meanwhile.
\<close>

definition virtio_call ::
  "('a vsys \<Rightarrow> 'a vsys) \<Rightarrow> nat \<Rightarrow> (vdisk \<Rightarrow> 'a ktasks_scheme \<Rightarrow> (rwpc \<times> vdisk \<times> 'a ktasks_scheme) result) \<Rightarrow> 'a vsys \<Rightarrow> 'a vsys result" where
  "virtio_call serve p op s =
     bindr (op (sys_disk s) (sys_k s)) (\<lambda>r.
       let s1 = serve (after p r s) in
       bindr (VirtioIntr (sys_disk s1) (sys_k s1)) (\<lambda>(d, k).
         let s2 = s1\<lparr>sys_disk := d, sys_k := k\<rparr> in
         bindr (VirtioRw_resume p (sys_pc s2 p) d k) (\<lambda>r.
           if fst r = RwOut then Inr (after p r s2) else Inl (Stuck ''VirtioRw''))))"

text \<open>What is asked of the device: it fetches the one request there is and completes it.\<close>

definition serves :: "('a vsys \<Rightarrow> 'a vsys) \<Rightarrow> bool" where
  "serves serve \<longleftrightarrow> (\<forall>s. dev_busy s = {} \<longrightarrow> dev_avail s \<noteq> avail_idx (sys_disk s) \<longrightarrow>
     (\<exists>s1 h. dev_fetches s s1 \<and> dev_completes h s1 (serve s)))"

text \<open>\<^verbatim>\<open>VirtioDisk::read\<close> and \<^verbatim>\<open>VirtioDisk::write\<close>: one call of the driver per sector.\<close>

primrec VirtioDisk_read_loop :: "('a vsys \<Rightarrow> 'a vsys) \<Rightarrow> nat \<Rightarrow> nat \<Rightarrow> nat \<Rightarrow> u64 \<Rightarrow> 'a vsys \<Rightarrow> 'a vsys result" where
  "VirtioDisk_read_loop serve p 0 sector buf s = Inr s"
| "VirtioDisk_read_loop serve p (Suc k) sector buf s =
     bindr (virtio_call serve p (VirtioRead p buf (of_nat sector)) s) (VirtioDisk_read_loop serve p k (sector + 1) (buf + 512))"

definition VirtioDisk_read :: "('a vsys \<Rightarrow> 'a vsys) \<Rightarrow> nat \<Rightarrow> u64 \<Rightarrow> nat \<Rightarrow> nat \<Rightarrow> 'a vsys \<Rightarrow> (int \<times> 'a vsys) result" where
  "VirtioDisk_read serve p buf offset n s =
     (if n mod 512 \<noteq> 0 \<or> offset mod 512 \<noteq> 0 then Inr (- 1, s)
      else bindr (VirtioDisk_read_loop serve p ((offset + n) div 512 - offset div 512) (offset div 512) buf s) (\<lambda>s1. Inr (int n, s1)))"

primrec VirtioDisk_write_loop :: "('a vsys \<Rightarrow> 'a vsys) \<Rightarrow> nat \<Rightarrow> nat \<Rightarrow> nat \<Rightarrow> u64 \<Rightarrow> 'a vsys \<Rightarrow> 'a vsys result" where
  "VirtioDisk_write_loop serve p 0 sector buf s = Inr s"
| "VirtioDisk_write_loop serve p (Suc k) sector buf s =
     bindr (virtio_call serve p (VirtioWrite p buf (of_nat sector)) s) (VirtioDisk_write_loop serve p k (sector + 1) (buf + 512))"

definition VirtioDisk_write :: "('a vsys \<Rightarrow> 'a vsys) \<Rightarrow> nat \<Rightarrow> u64 \<Rightarrow> nat \<Rightarrow> nat \<Rightarrow> 'a vsys \<Rightarrow> (int \<times> 'a vsys) result" where
  "VirtioDisk_write serve p buf offset n s =
     (if n mod 512 \<noteq> 0 \<or> offset mod 512 \<noteq> 0 then Inr (- 1, s)
      else bindr (VirtioDisk_write_loop serve p ((offset + n) div 512 - offset div 512) (offset div 512) buf s) (\<lambda>s1. Inr (int n, s1)))"

text \<open>The driver between two requests.\<close>

definition idle :: "'a vsys \<Rightarrow> bool" where
  "idle s \<longleftrightarrow> vinv s \<and> (\<forall>p. sys_pc s p = RwOut)"

lemma idle_facts:
  assumes "idle s"
  shows "heads (sys_pc s) = {}" "queued (sys_disk s) (dev_avail s) = []" "dev_busy s = {}" "reported (sys_disk s) = []"
proof -
  show h: "heads (sys_pc s) = {}" using assms by (simp add: idle_def heads_def)
  show "queued (sys_disk s) (dev_avail s) = []" "dev_busy s = {}" "reported (sys_disk s) = []"
    using assms h by (auto simp: idle_def vinv_def flow_inv_def)
qed

lemma idle_begin:
  assumes "idle s"
  obtains h d' where "VirtioRw_begin p b sec w (sys_disk s) (sys_k s) = Inr (RwWait b h, d', task_sleep p (ChData b) (sys_k s))"
    "vinv (after p (RwWait b h, d', task_sleep p (ChData b) (sys_k s)) s)" "queued d' (dev_avail s) = [h]"
    "req_sector (vd_ops d' h) = sec" "is_write d' h = w" "reported d' = []"
proof (cases rule: begin_cases [of "sys_disk s" p b sec w "sys_k s"])
  case (got i0 i1 i2)
  have pc: "sys_pc s p \<noteq> RwWait b' h" for b' h using assms by (simp add: idle_def)
  have inv: "vinv s" using assms by (simp add: idle_def)
  have sub: "{i0, i1, i2} \<subseteq> {..<NUM}" using got(2) by (auto simp: free_set_def)
  note g = begin_got_inv [OF inv pc got(1,2) refl, of b sec w]
  let ?d = "VirtioRw_format b sec w i0 i1 i2 ((sys_disk s)\<lparr>vd_free := (vd_free (sys_disk s))(i0 := False, i1 := False, i2 := False)\<rparr>)"
  have "reported ?d = reported (sys_disk s)" by (rule reported_cong) simp_all
  then show ?thesis
    using that [OF got(3) g(1)] g(2) idle_facts [OF assms] format_request(3,4) [OF got(1) sub] by simp
next
  case (none d' k')
  then show ?thesis using few_free_busy [of "sys_disk s" "sys_pc s"] idle_facts(1) [OF assms] assms by (simp add: idle_def vinv_def)
qed

lemma served:
  assumes sv: "serves serve" and inv: "vinv s" and pc: "sys_pc s p = RwWait b h" and q: "queued (sys_disk s) (dev_avail s) = [h]"
    and z: "dev_busy s = {}" "reported (sys_disk s) = []"
  obtains len s1 where "dev_fetches s s1" "serve s = completed h b len s1" "vinv s1" "vinv (serve s)"
    "no_error (sys_disk (serve s))" "dev_busy (serve s) = {}" "queued (sys_disk (serve s)) (dev_avail (serve s)) = []"
proof -
  have ne: "dev_avail s \<noteq> avail_idx (sys_disk s)" using q by (auto simp: queued_def)
  from sv z(1) ne obtain s1 h' where f: "dev_fetches s s1" and c: "dev_completes h' s1 (serve s)" by (auto simp: serves_def)
  have h: "unat (avail_ring (sys_disk s) (unat (dev_avail s) mod NUM)) = h" "queued (sys_disk s) (dev_avail s + 1) = []"
    using queued_hd [OF ne] q by simp_all
  have s1: "s1 = s\<lparr>dev_avail := dev_avail s + 1, dev_busy := {h}\<rparr>" using f h z(1) by (simp add: dev_fetches_def)
  have inv1: "vinv s1" by (rule fetch_inv [OF inv f])
  have h': "h' = h" using c by (simp add: dev_completes_def s1)
  have "request_ok (sys_disk s1) b h" using desc_invD(1) [of "sys_disk s1" "sys_pc s1"] inv1 pc by (auto simp: vinv_def s1)
  then obtain len where e: "serve s = completed h b len s1" using c h' by (auto simp: dev_completes_def)
  have hb: "h \<in> dev_busy s1" by (simp add: s1)
  note ci = completed_inv [OF inv1 hb, of b len]
  have "no_error (sys_disk (serve s))" using ci(2) z(2) unfolding e by (simp add: no_error_def s1 completed_def Let_def)
  moreover have "queued (sys_disk (serve s)) (dev_avail (serve s)) = []"
    using h(2) queued_cong [of "sys_disk (serve s)" "sys_disk s"] by (simp add: e s1 completed_def answered_def Let_def)
  ultimately show ?thesis using that [OF f e inv1] ci(1) e s1 by simp
qed

lemma virtio_call_idle:
  assumes sv: "serves serve" and id: "idle s" and op: "op = VirtioRw_begin p b sec w"
  obtains s' where "virtio_call serve p op s = Inr s'" "idle s'" "mem (sys_k s') = xfer_mem b sec w (dev_sectors s) (mem (sys_k s))"
    "dev_sectors s' = xfer_sectors b sec w (mem (sys_k s)) (dev_sectors s)"
proof -
  obtain h d' where bg: "VirtioRw_begin p b sec w (sys_disk s) (sys_k s) = Inr (RwWait b h, d', task_sleep p (ChData b) (sys_k s))"
    "vinv (after p (RwWait b h, d', task_sleep p (ChData b) (sys_k s)) s)" "queued d' (dev_avail s) = [h]"
    "req_sector (vd_ops d' h) = sec" "is_write d' h = w" "reported d' = []" by (rule idle_begin [OF id])
  define t where "t = after p (RwWait b h, d', task_sleep p (ChData b) (sys_k s)) s"
  have t: "sys_disk t = d'" "sys_pc t = (sys_pc s)(p := RwWait b h)" "dev_avail t = dev_avail s" "dev_busy t = {}"
    "dev_sectors t = dev_sectors s" "mem (sys_k t) = mem (sys_k s)" using idle_facts(3) [OF id] by (simp_all add: t_def after_def)
  obtain len s1 where sd: "dev_fetches t s1" "serve t = completed h b len s1" "vinv s1" "vinv (serve t)" "no_error (sys_disk (serve t))"
    "dev_busy (serve t) = {}" "queued (sys_disk (serve t)) (dev_avail (serve t)) = []"
    by (rule served [OF sv, of t p b h]) (use bg t in \<open>simp_all add: t_def [symmetric]\<close>)
  have s1: "sys_disk s1 = d'" "sys_k s1 = sys_k t" "dev_sectors s1 = dev_sectors s" "sys_pc s1 = sys_pc t"
    using sd(1) by (simp_all add: dev_fetches_def t)
  have m: "mem (sys_k (serve t)) = xfer_mem b sec w (dev_sectors s) (mem (sys_k s))"
    "dev_sectors (serve t) = xfer_sectors b sec w (mem (sys_k s)) (dev_sectors s)" "sys_pc (serve t) = sys_pc t"
    by (simp_all add: sd(2) completed_def answered_def Let_def s1 t bg)
  have "if no_error (sys_disk (serve t)) then \<exists>d k. VirtioIntr (sys_disk (serve t)) (sys_k (serve t)) = Inr (d, k) else True"
    using intr_ok [of "sys_disk (serve t)" "sys_pc (serve t)" "dev_avail (serve t)" "dev_busy (serve t)" "sys_k (serve t)"] sd(4)
    by (auto simp: vinv_def split: if_splits)
  then obtain d k where i: "VirtioIntr (sys_disk (serve t)) (sys_k (serve t)) = Inr (d, k)" using sd(5) by auto
  let ?u = "(serve t)\<lparr>sys_disk := d, sys_k := k\<rparr>"
  note ik = intr_keeps [OF sd(4) i]
  have pu: "sys_pc ?u p = RwWait b h" by (simp add: m t)
  have "heads (sys_pc ?u) = finished d (sys_pc ?u)" using ik(1-3) sd(6,7) by (simp add: vinv_def flow_inv_def)
  then have fin: "vi_finish (vd_info d h)" using headsI [of "sys_pc ?u", OF pu] by (auto simp: finished_def)
  have du: "desc_inv d (sys_pc ?u)" using ik(1) by (simp add: vinv_def)
  let ?r = "(RwOut, released h d, wakeup ChDesc (task_resume p k))"
  have rs: "VirtioRw_resume p (sys_pc ?u p) d k = Inr ?r"
    using wait_cases [OF du pu, of "task_resume p k"] fin pu by (simp add: VirtioRw_resume_def)
  have "\<not> asleep (sys_k ?u) p" using ik(1) pu fin by (auto simp: vinv_def wake_inv_def)
  then have "vinv (after p ?r ?u)" using VirtioRw_resume_inv [OF ik(1), of p] pu rs by auto
  then have "idle (after p ?r ?u)" using id by (auto simp: idle_def after_def m t)
  moreover have "virtio_call serve p op s = Inr (after p ?r ?u)" using bg(1) i rs by (simp add: virtio_call_def op t_def Let_def)
  ultimately show ?thesis using that m ik(5) by (simp add: after_def)
qed

text \<open>What the two loops are to do: sectors one after the other to memory, and from memory.\<close>

primrec sectors_to_mem :: "nat \<Rightarrow> nat \<Rightarrow> u64 \<Rightarrow> (nat \<Rightarrow> u8 list) \<Rightarrow> pmem \<Rightarrow> pmem" where
  "sectors_to_mem 0 sector buf sects m = m"
| "sectors_to_mem (Suc k) sector buf sects m =
     sectors_to_mem k (sector + 1) (buf + 512) sects (xfer_mem buf (of_nat sector) False sects m)"

primrec mem_to_sectors :: "nat \<Rightarrow> nat \<Rightarrow> u64 \<Rightarrow> pmem \<Rightarrow> (nat \<Rightarrow> u8 list) \<Rightarrow> nat \<Rightarrow> u8 list" where
  "mem_to_sectors 0 sector buf m sects = sects"
| "mem_to_sectors (Suc k) sector buf m sects =
     mem_to_sectors k (sector + 1) (buf + 512) m (xfer_sectors buf (of_nat sector) True m sects)"

lemma sector_number: "k < 2 ^ 31 \<Longrightarrow> (scast (of_nat k :: u32) :: u64) = of_nat k"
proof -
  assume k: "k < 2 ^ 31"
  then have "sint (of_nat k :: u32) = int k" unfolding sint_u32 by (simp add: unat_of_nat take_bit_nat_eq_self)
  then show ?thesis by (simp add: scast_eq)
qed

lemma VirtioDisk_read_loop_idle:
  assumes "serves serve" "idle s" "sector + k < 2 ^ 31"
  shows "\<exists>s'. VirtioDisk_read_loop serve p k sector buf s = Inr s' \<and> idle s' \<and> dev_sectors s' = dev_sectors s \<and>
    mem (sys_k s') = sectors_to_mem k sector buf (dev_sectors s) (mem (sys_k s))"
  using assms(2,3)
proof (induction k arbitrary: sector buf s)
  case (Suc k)
  have "VirtioRead p buf (of_nat sector) = VirtioRw_begin p buf (of_nat sector) False"
    using Suc.prems(2) by (intro ext) (simp add: VirtioRead_def sector_number)
  then obtain s1 where s1: "virtio_call serve p (VirtioRead p buf (of_nat sector)) s = Inr s1" "idle s1"
    "mem (sys_k s1) = xfer_mem buf (of_nat sector) False (dev_sectors s) (mem (sys_k s))" "dev_sectors s1 = dev_sectors s"
    using virtio_call_idle [OF assms(1) Suc.prems(1)] by (metis xfer_sectors_def)
  then show ?case using Suc.IH [OF s1(2), of "sector + 1" "buf + 512"] Suc.prems(2) by simp
qed simp

lemma VirtioDisk_write_loop_idle:
  assumes "serves serve" "idle s" "sector + k < 2 ^ 31"
  shows "\<exists>s'. VirtioDisk_write_loop serve p k sector buf s = Inr s' \<and> idle s' \<and> mem (sys_k s') = mem (sys_k s) \<and>
    dev_sectors s' = mem_to_sectors k sector buf (mem (sys_k s)) (dev_sectors s)"
  using assms(2,3)
proof (induction k arbitrary: sector buf s)
  case (Suc k)
  have "VirtioWrite p buf (of_nat sector) = VirtioRw_begin p buf (of_nat sector) True"
    using Suc.prems(2) by (intro ext) (simp add: VirtioWrite_def sector_number)
  then obtain s1 where s1: "virtio_call serve p (VirtioWrite p buf (of_nat sector)) s = Inr s1" "idle s1"
    "mem (sys_k s1) = mem (sys_k s)" "dev_sectors s1 = xfer_sectors buf (of_nat sector) True (mem (sys_k s)) (dev_sectors s)"
    using virtio_call_idle [OF assms(1) Suc.prems(1)] by (metis xfer_mem_def)
  then show ?case using Suc.IH [OF s1(2), of "sector + 1" "buf + 512"] Suc.prems(2) by simp
qed simp

lemma unat_next_sector:
  fixes x buf :: u64
  shows "unat (x - (buf + 512)) = (if 512 \<le> unat (x - buf) then unat (x - buf) - 512 else unat (x - buf) + 18446744073709551104)"
proof -
  define y where "y = x - buf"
  have "x - (buf + 512) = y - 512" by (simp add: y_def)
  then show ?thesis by (simp only: y_def [symmetric]) (simp add: unat_sub_offset word_le_nat_alt)
qed

lemma read_loop_bytes:
  assumes "sector + k < 2 ^ 32"
  shows "sectors_to_mem k sector buf sects m x =
    (if unat (x - buf) < 512 * k then sects (sector + unat (x - buf) div 512) ! (unat (x - buf) mod 512) else m x)"
  using assms
proof (induction k arbitrary: sector buf m)
  case (Suc k)
  let ?m = "xfer_mem buf (of_nat sector) False sects m" and ?i = "unat (x - buf)"
  have sec: "unat (of_nat sector :: u64) = sector" using Suc.prems by (intro unat_of_nat_small) simp
  have m: "?m x = (if ?i < 512 then sects sector ! ?i else m x)"
    by (simp add: xfer_mem_def sector_to_mem_def sec SECTOR_SIZE_def)
  note IH = Suc.IH [of "sector + 1" "buf + 512" ?m, unfolded unat_next_sector m]
  show ?case
  proof (cases "?i < 512")
    case True
    then show ?thesis using IH Suc.prems by simp
  next
    case False
    then have "?i div 512 = (?i - 512) div 512 + 1" "?i mod 512 = (?i - 512) mod 512"
      by (simp_all add: le_div_geq le_mod_geq)
    then have "sector + ?i div 512 = sector + 1 + (?i - 512) div 512" "?i mod 512 = (?i - 512) mod 512" by simp_all
    moreover have "?i - 512 < 512 * k \<longleftrightarrow> ?i < 512 * Suc k" using False by auto
    ultimately show ?thesis using IH Suc.prems False by simp
  qed
qed simp

lemma concat_sectors_nth:
  assumes "\<And>j. length (sects j) = 512"
  shows "length (concat (map sects [a..<a + k])) = 512 * k"
    and "i < 512 * k \<Longrightarrow> concat (map sects [a..<a + k]) ! i = sects (a + i div 512) ! (i mod 512)"
proof (induction k arbitrary: i)
  case (Suc k)
  have len: "length (concat (map sects [a..<a + k])) = 512 * k" by (rule Suc.IH)
  { case 1 show ?case using assms len by simp }
  { case 2
    show ?case
    proof (cases "i < 512 * k")
      case True
      then show ?thesis using Suc.IH(2) len by (simp add: nth_append)
    next
      case False
      then obtain r where r: "i = 512 * k + r" "r < 512" using 2 by (auto simp: not_less dest!: le_Suc_ex)
      then have "i div 512 = k" "i mod 512 = i - 512 * k" by simp_all
      then show ?thesis using False len by (simp add: nth_append)
    qed }
qed simp_all

lemma write_loop_sectors:
  assumes "sector + k < 2 ^ 32"
  shows "mem_to_sectors k sector buf m sects j =
    (if sector \<le> j \<and> j < sector + k then mem_to_sector (buf + of_nat (512 * (j - sector))) m else sects j)"
  using assms
proof (induction k arbitrary: sector buf sects)
  case (Suc k)
  have sec: "unat (of_nat sector :: u64) = sector" using Suc.prems by (intro unat_of_nat_small) simp
  have "buf + 512 + of_nat (512 * (j - Suc sector)) = buf + of_nat (512 * (j - sector))" if "sector < j"
  proof -
    have "512 * (j - sector) = 512 + 512 * (j - Suc sector)" using that by simp
    then show ?thesis by (simp only: of_nat_add) (simp add: add.assoc)
  qed
  note step = this
  let ?s = "xfer_sectors buf (of_nat sector) True m sects"
  have x: "?s j = (if j = sector then mem_to_sector buf m else sects j)" by (simp add: xfer_sectors_def sec)
  show ?case
  proof (cases "j = sector")
    case True
    then show ?thesis using Suc.IH [of "sector + 1" "buf + 512" ?s] Suc.prems x by simp
  next
    case False
    then show ?thesis using Suc.IH [of "sector + 1" "buf + 512" ?s] Suc.prems x step by auto
  qed
qed auto

text \<open>The sectors one by one are the block of bytes.\<close>

lemma read_sectors_bytes:
  assumes "\<And>j. length (sects j) = 512" "a + k < 2 ^ 32" "512 * k < 2 ^ 31"
  shows "concat (map sects [a..<a + k]) = map (\<lambda>i. sectors_to_mem k a buf sects m (buf + of_nat i)) [0..<512 * k]"
proof (rule nth_equalityI)
  fix i assume "i < length (concat (map sects [a..<a + k]))"
  then have i: "i < 512 * k" using concat_sectors_nth(1) [of sects] assms(1) by simp
  then have "unat (of_nat i :: u64) = i" using assms(3) by (intro unat_of_nat_small) simp
  then show "concat (map sects [a..<a + k]) ! i = map (\<lambda>i. sectors_to_mem k a buf sects m (buf + of_nat i)) [0..<512 * k] ! i"
    using i concat_sectors_nth(2) [of sects i k a] assms by (simp add: read_loop_bytes)
qed (use concat_sectors_nth(1) [of sects] assms(1) in simp)

lemma write_sectors_bytes:
  assumes "a + k < 2 ^ 32"
  shows "(if a \<le> j \<and> j < a + k then take 512 (drop ((j - a) * 512) (map (\<lambda>i. m (buf + of_nat i)) [0..<512 * k])) else sects j)
    = mem_to_sectors k a buf m sects j"
proof (cases "a \<le> j \<and> j < a + k")
  case True
  then have "Suc (j - a) \<le> k" by auto
  then have le: "512 * (j - a) + 512 \<le> 512 * k" by (simp add: Suc_le_eq)
  then have "take 512 (drop ((j - a) * 512) (map (\<lambda>i. m (buf + of_nat i)) [0..<512 * k]))
      = mem_to_sector (buf + of_nat (512 * (j - a))) m"
    by (intro nth_equalityI) (simp_all add: mem_to_sector_def SECTOR_SIZE_def add.assoc mult.commute)
  then show ?thesis using True assms by (simp add: write_loop_sectors)
next
  case False
  then show ?thesis using assms by (auto simp: write_loop_sectors)
qed

text \<open>
  C29: The block device above the driver is the block device the buffer cache uses. When no other task is in the driver and the device
  serves each request without error, \<^verbatim>\<open>VirtioDisk::read\<close>, a call of the driver per sector (descriptors, available ring, sleep, device,
  interrupt, release), returns with the bytes of the sector-level read in the buffer, nothing else of memory and nothing on the disk
  changed; \<^verbatim>\<open>VirtioDisk::write\<close> leaves on the disk what the sector-level write stores, and memory as it was. The driver is then free again.
\<close>

theorem virtio_block_device:
  assumes "serves serve" and "idle s" and "\<And>j. length (dev_sectors s j) = 512" and "n mod 512 = 0" and "offset mod 512 = 0"
    and "offset + n < 2 ^ 31"
  shows "(\<exists>s'. VirtioDisk_read serve p buf offset n s = Inr (int n, s') \<and> idle s' \<and> dev_sectors s' = dev_sectors s \<and>
      disk_read \<lparr>rw_name = nm, rw_sector = dev_sectors s\<rparr> offset n = Inr (int n, map (\<lambda>i. mem (sys_k s') (buf + of_nat i)) [0..<n]) \<and>
      (\<forall>x. n \<le> unat (x - buf) \<longrightarrow> mem (sys_k s') x = mem (sys_k s) x)) \<and>
    (\<exists>s'. VirtioDisk_write serve p buf offset n s = Inr (int n, s') \<and> idle s' \<and> mem (sys_k s') = mem (sys_k s) \<and>
      disk_write \<lparr>rw_name = nm, rw_sector = dev_sectors s\<rparr> offset (map (\<lambda>i. mem (sys_k s) (buf + of_nat i)) [0..<n]) =
        Inr (int n, \<lparr>rw_name = nm, rw_sector = dev_sectors s'\<rparr>))"
proof -
  define k a where "k = n div 512" and "a = offset div 512"
  have ka: "n = 512 * k" "offset = 512 * a"
    using assms(4,5) mult_div_mod_eq [of 512 n] mult_div_mod_eq [of 512 offset] by (simp_all add: k_def a_def)
  have lt: "a + k < 2 ^ 31" "a + k < 2 ^ 32" "512 * k < 2 ^ 31" using assms(6) ka by simp_all
  have "offset + n = 512 * (a + k)" unfolding ka by (simp only: distrib_left)
  then have cnt: "(offset + n) div 512 = a + k" "offset div 512 = a" by (simp_all add: a_def)
  obtain r where r: "VirtioDisk_read_loop serve p k a buf s = Inr r" "idle r" "dev_sectors r = dev_sectors s"
    "mem (sys_k r) = sectors_to_mem k a buf (dev_sectors s) (mem (sys_k s))"
    using VirtioDisk_read_loop_idle [OF assms(1,2) lt(1)] by blast
  obtain w where w: "VirtioDisk_write_loop serve p k a buf s = Inr w" "idle w" "mem (sys_k w) = mem (sys_k s)"
    "dev_sectors w = mem_to_sectors k a buf (mem (sys_k s)) (dev_sectors s)"
    using VirtioDisk_write_loop_idle [OF assms(1,2) lt(1)] by blast
  have sects: "(if a \<le> j \<and> j < a + k then take 512 (drop ((j - a) * 512) (map (\<lambda>i. mem (sys_k s) (buf + of_nat i)) [0..<n]))
      else rw_sector \<lparr>rw_name = nm, rw_sector = dev_sectors s\<rparr> j) = mem_to_sectors k a buf (mem (sys_k s)) (dev_sectors s) j" for j
    unfolding ka(1) using write_sectors_bytes [OF lt(2), of j "mem (sys_k s)" buf "dev_sectors s"] by (simp only: rwdev.simps)
  have "mem (sys_k r) x = mem (sys_k s) x" if "n \<le> unat (x - buf)" for x
    using that lt(2) unfolding r(4) ka(1) by (simp add: read_loop_bytes)
  moreover have "disk_read \<lparr>rw_name = nm, rw_sector = dev_sectors s\<rparr> offset n = Inr (int n, map (\<lambda>i. mem (sys_k r) (buf + of_nat i)) [0..<n])"
    using assms(4-6) read_sectors_bytes [of "dev_sectors s" a k buf "mem (sys_k s)"] assms(3) lt(2,3) by (simp add: disk_read_def cnt r(4) ka(1) add.commute)
  moreover have "disk_write \<lparr>rw_name = nm, rw_sector = dev_sectors s\<rparr> offset (map (\<lambda>i. mem (sys_k s) (buf + of_nat i)) [0..<n]) =
      Inr (int n, \<lparr>rw_name = nm, rw_sector = dev_sectors w\<rparr>)"
    unfolding disk_write_def length_map length_upt diff_zero cnt sects w(4) using assms(4-6) by simp
  ultimately show ?thesis using assms(4,5) r(1-3) w(1-3) by (simp add: VirtioDisk_read_def VirtioDisk_write_def cnt)
qed

text \<open>A device that serves at once, for the concrete instance.\<close>

definition prompt_serve :: "'a vsys \<Rightarrow> 'a vsys" where
  "prompt_serve s =
     (let h = unat (avail_ring (sys_disk s) (unat (dev_avail s) mod NUM));
          s1 = s\<lparr>dev_avail := dev_avail s + 1, dev_busy := insert h (dev_busy s)\<rparr>
      in completed h (dsc_addr (vd_desc (sys_disk s) (nx1 (sys_disk s) h))) 0 s1)"

lemma prompt_serves: "serves prompt_serve"
  unfolding serves_def
proof (intro allI impI)
  fix s :: "'a vsys" assume "dev_avail s \<noteq> avail_idx (sys_disk s)"
  let ?h = "unat (avail_ring (sys_disk s) (unat (dev_avail s) mod NUM))"
  let ?s = "s\<lparr>dev_avail := dev_avail s + 1, dev_busy := insert ?h (dev_busy s)\<rparr>"
  have "dev_fetches s ?s" using \<open>dev_avail s \<noteq> _\<close> by (simp add: dev_fetches_def)
  moreover have "dev_completes ?h ?s (prompt_serve s)" by (auto simp: dev_completes_def prompt_serve_def request_ok_def Let_def)
  ultimately show "\<exists>s1 h. dev_fetches s s1 \<and> dev_completes h s1 (prompt_serve s)" by blast
qed

theorem virtio_block_device_witness:
  "\<exists>s'. VirtioDisk_read prompt_serve 2 0x80300000 512 1024 sample_vsys = Inr (1024, s') \<and>
     map (\<lambda>i. mem (sys_k s') (0x80300000 + of_nat i)) [0..<1024] = replicate 1024 0"
proof -
  have id: "idle sample_vsys" using vinit_inv [OF sample_vsys_init] by (simp add: idle_def sample_vsys_def)
  have len: "length (dev_sectors sample_vsys j) = 512" for j by (simp add: sample_vsys_def SECTOR_SIZE_def)
  have "disk_read \<lparr>rw_name = [], rw_sector = dev_sectors sample_vsys\<rparr> 512 1024 = Inr (1024, replicate 1024 0)"
    by (simp add: disk_read_def sample_vsys_def SECTOR_SIZE_def upt_rec replicate_add [symmetric])
  then show ?thesis using virtio_block_device [OF prompt_serves id len, of 1024 512 2 "0x80300000" "[]"] by auto
qed

end
