(* ===== verification/Printk.thy ===== *)
theory Printk
  imports Console
begin

unbundle bit_operations_syntax

text \<open>
  Formatted output: \<^verbatim>\<open>src/kernel/common/printk.cpp\<close> and the log header of \<^verbatim>\<open>src/kernel/include/common/logger.h\<close>. Output goes
  to the console model's \<open>con_out\<close>; the print lock only keeps lines apart and is not modelled. \<open>printf\<close> is shown to print
  what its format stands for, numbers included, whose text is described by the digits of the number itself.
\<close>

section \<open>Characters and numbers\<close>

definition ascii :: "string \<Rightarrow> u8 list" where "ascii s = map of_char s"

text \<open>The array \<^verbatim>\<open>digits\<close>; the sixteen digits are followed by the terminator of the literal.\<close>

definition digits :: "u8 list" where "digits = ascii ''0123456789abcdef'' @ [0]"

definition digit_at :: "nat \<Rightarrow> u8 result" where
  "digit_at i = (if i < length digits then Inr (digits ! i) else Inl (BadAccess ''digits''))"

text \<open>A store to \<^verbatim>\<open>buf[i++]\<close> of the sixteen-byte buffer of \<^verbatim>\<open>printint\<close>.\<close>

definition pi_push :: "u8 \<Rightarrow> u8 list \<Rightarrow> u8 list result" where
  "pi_push c buf = (if length buf < 16 then Inr (buf @ [c]) else Inl (BadAccess ''printint''))"

function printint_loop :: "u32 \<Rightarrow> u32 \<Rightarrow> u8 list \<Rightarrow> u8 list result" where
  "printint_loop base x buf =
     (if base = 0 then Inl (BadAccess ''division by zero'')
      else bindr (digit_at (unat (x mod base))) (\<lambda>c. bindr (pi_push c buf) (\<lambda>buf1.
        if x div base \<noteq> 0 then printint_loop base (x div base) buf1 else Inr buf1)))"
  by pat_completeness auto
termination
  by (relation "measure (\<lambda>(b, x, buf). 16 - length buf)") (auto simp: pi_push_def split: if_splits)

declare printint_loop.simps [simp del]

text \<open>The characters \<^verbatim>\<open>printint\<close> writes, first to last.\<close>

definition printint :: "u32 \<Rightarrow> u32 \<Rightarrow> bool \<Rightarrow> u8 list result" where
  "printint xx base sign =
     (let neg = sign \<and> xx <s 0 in
      bindr (printint_loop base (if neg then - xx else xx) []) (\<lambda>buf.
        bindr (if neg then pi_push 45 buf else Inr buf) (\<lambda>buf1. Inr (rev buf1))))"

primrec printptr_loop :: "nat \<Rightarrow> u64 \<Rightarrow> u8 list" where
  "printptr_loop 0 x = []"
| "printptr_loop (Suc n) x = digits ! unat (drop_bit 60 x) # printptr_loop n (push_bit 4 x)"

definition printptr :: "u64 \<Rightarrow> u8 list" where
  "printptr x = [48, 120] @ printptr_loop 16 x"

section \<open>Formatted output\<close>

text \<open>
  The variable arguments: an \<^verbatim>\<open>int\<close>, a 64-bit number, or a pointer to a string. Taking an argument of another type, or
  more arguments than there are, is undefined.
\<close>

datatype va = VaInt u32 | VaLong u64 | VaStr "cstr option"

definition va_int :: "va list \<Rightarrow> u32 result" where
  "va_int ap = (case ap of VaInt x # _ \<Rightarrow> Inr x | _ \<Rightarrow> Inl (BadAccess ''va_arg''))"

definition va_long :: "va list \<Rightarrow> u64 result" where
  "va_long ap = (case ap of VaLong x # _ \<Rightarrow> Inr x | _ \<Rightarrow> Inl (BadAccess ''va_arg''))"

definition va_str :: "va list \<Rightarrow> cstr option result" where
  "va_str ap = (case ap of VaStr x # _ \<Rightarrow> Inr x | _ \<Rightarrow> Inl (BadAccess ''va_arg''))"

definition cstr_chars :: "cstr \<Rightarrow> u8 list" where "cstr_chars s = takeWhile (\<lambda>c. c \<noteq> 0) s"

text \<open>One conversion: the characters it writes and the arguments it leaves.\<close>

definition printf_conv :: "u8 \<Rightarrow> va list \<Rightarrow> (u8 list \<times> va list) result" where
  "printf_conv c ap =
     (if c = 100 then bindr (va_int ap) (\<lambda>x. bindr (printint x 10 True) (\<lambda>cs. Inr (cs, tl ap)))
      else if c = 120 then bindr (va_int ap) (\<lambda>x. bindr (printint x 16 True) (\<lambda>cs. Inr (cs, tl ap)))
      else if c = 112 then bindr (va_long ap) (\<lambda>x. Inr (printptr x, tl ap))
      else if c = 115 then bindr (va_str ap) (\<lambda>x. Inr (cstr_chars (case x of None \<Rightarrow> ascii ''(null)'' | Some s \<Rightarrow> s), tl ap))
      else if c = 37 then Inr ([37], ap)
      else Inr ([37, c], ap))"

fun printf_loop :: "cstr \<Rightarrow> va list \<Rightarrow> u8 list result" where
  "printf_loop [] ap = Inr []"
| "printf_loop (c # fmt) ap =
     (if c = 0 then Inr []
      else if c \<noteq> 37 then bindr (printf_loop fmt ap) (\<lambda>cs. Inr (c # cs))
      else (case fmt of [] \<Rightarrow> Inr []
            | d # fmt1 \<Rightarrow> if d = 0 then Inr []
                else bindr (printf_conv d ap) (\<lambda>(cs, ap1). bindr (printf_loop fmt1 ap1) (\<lambda>cs1. Inr (cs @ cs1)))))"

definition putcs :: "u8 list \<Rightarrow> 'a kconsole_scheme \<Rightarrow> 'a kconsole_scheme" where
  "putcs cs s = fold (\<lambda>c. console_putc (unat c)) cs s"

definition printf :: "cstr option \<Rightarrow> va list \<Rightarrow> 'a kconsole_scheme \<Rightarrow> 'a kconsole_scheme result" where
  "printf fmt ap s =
     (case fmt of None \<Rightarrow> Inl (Panic ''null fmt'')
      | Some f \<Rightarrow> bindr (printf_loop f ap) (\<lambda>cs. Inr (putcs cs s)))"

definition printstr :: "cstr \<Rightarrow> 'a kconsole_scheme \<Rightarrow> 'a kconsole_scheme" where
  "printstr t s = putcs (cstr_chars t) s"

section \<open>Panic\<close>

text \<open>
  \<^verbatim>\<open>backtrace\<close> follows the frame pointers through the stack page. Nothing in the code bounds the walk, so \<open>fuel\<close> is the
  number of frames; running out of it is \<open>Stuck\<close>.
\<close>

primrec backtrace_loop :: "nat \<Rightarrow> u64 \<Rightarrow> u64 \<Rightarrow> u64 \<Rightarrow> 'a kconsole_scheme \<Rightarrow> 'a kconsole_scheme result" where
  "backtrace_loop 0 stop sbot fp s = (if fp \<noteq> stop \<and> fp \<noteq> sbot then Inl (Stuck ''backtrace'') else Inr s)"
| "backtrace_loop (Suc n) stop sbot fp s =
     (if fp \<noteq> stop \<and> fp \<noteq> sbot then
        bindr (printf (Some (ascii ''%p'' @ [10])) [VaLong (read64 (mem s) (fp - 8))] s) (\<lambda>s1.
          backtrace_loop n stop sbot (read64 (mem s1) (fp - 16)) s1)
      else Inr s)"

definition backtrace :: "nat \<Rightarrow> u64 \<Rightarrow> 'a kconsole_scheme \<Rightarrow> 'a kconsole_scheme result" where
  "backtrace fuel s0 s =
     bindr (printf (Some (ascii ''backtrace:'' @ [10])) [] s) (backtrace_loop fuel (PGROUNDUP s0) (PGROUNDDOWN s0) s0)"

text \<open>
  What \<^verbatim>\<open>panic(msg)\<close> prints before it stops the hart; the message is itself used as a format. \<open>cur\<close> is the current task.
\<close>

definition panic_output :: "nat \<Rightarrow> u64 \<Rightarrow> nat option \<Rightarrow> cstr \<Rightarrow> 'a kconsole_scheme \<Rightarrow> 'a kconsole_scheme result" where
  "panic_output fuel s0 cur msg s =
     bindr (backtrace fuel s0 s) (\<lambda>s1.
       bindr (case cur of None \<Rightarrow> Inl (BadAccess ''current task'') | Some i \<Rightarrow> Inr (word_of_int (t_pid (the_task s1 i)))) (\<lambda>pid.
         bindr (printf (Some (ascii ''taskid=%d'' @ [10])) [VaInt pid] s1) (\<lambda>s2.
           bindr (printf (Some (ascii ''panic: '')) [] s2) (\<lambda>s3.
             bindr (printf (Some msg) [] s3) (\<lambda>s4. printf (Some [10]) [] s4)))))"

section \<open>Logging\<close>

text \<open>\<^verbatim>\<open>PastLastSlash\<close> of \<^verbatim>\<open>logger.h\<close> on suffixes of the path; its result is the suffix it returns.\<close>

fun PastLastSlash2 :: "cstr \<Rightarrow> cstr \<Rightarrow> cstr" where
  "PastLastSlash2 [] b = b"
| "PastLastSlash2 (x # a) b =
     (if x = 0 then b else if cat0 b = 47 then PastLastSlash2 a a else PastLastSlash2 a b)"

definition PastLastSlash :: "cstr \<Rightarrow> cstr" where "PastLastSlash a = PastLastSlash2 a a"

definition log_type :: "int \<Rightarrow> cstr" where
  "log_type level =
     (if level = 500 then ascii ''ERROR'' else if level = 400 then ascii ''WARN '' else if level = 300 then ascii ''INFO ''
      else if level = 200 then ascii ''DEBUG'' else if level = 100 then ascii ''TRACE'' else ascii ''UNKWN'')"

definition OutputLogHeader ::
  "cstr \<Rightarrow> u32 \<Rightarrow> cstr \<Rightarrow> int \<Rightarrow> nat option \<Rightarrow> 'a kconsole_scheme \<Rightarrow> 'a kconsole_scheme result" where
  "OutputLogHeader file line func level cur s =
     bindr (case cur of None \<Rightarrow> Inl (BadAccess ''current task'') | Some i \<Rightarrow> Inr (word_of_int (t_pid (the_task s i)))) (\<lambda>pid.
       printf (Some (ascii ''%s [%s:%d:%s:pid=%d] - ''))
         [VaStr (Some (log_type level)), VaStr (Some file), VaInt line, VaStr (Some func), VaInt pid] s)"

text \<open>\<^verbatim>\<open>LOG_ERROR\<close>, the only level that is compiled in.\<close>

definition LOG_ERROR ::
  "cstr \<Rightarrow> u32 \<Rightarrow> cstr \<Rightarrow> nat option \<Rightarrow> cstr \<Rightarrow> va list \<Rightarrow> 'a kconsole_scheme \<Rightarrow> 'a kconsole_scheme result" where
  "LOG_ERROR file line func cur fmt ap s =
     bindr (OutputLogHeader (PastLastSlash file) line func 500 cur s) (\<lambda>s1.
       bindr (printf (Some fmt) ap s1) (\<lambda>s2. printf (Some [10]) [] s2))"

section \<open>Numerals\<close>

text \<open>
  What a number looks like in a base: the quotient, then the last digit; with a minus sign in front for a negative number. A pointer is
  written as sixteen hexadecimal digits, the most significant first.
\<close>

definition digit_char :: "nat \<Rightarrow> u8" where
  "digit_char d = of_nat (if d < 10 then 48 + d else 87 + d)"

fun numeral_text :: "nat \<Rightarrow> nat \<Rightarrow> u8 list" where
  "numeral_text b n = (if b < 2 \<or> n < b then [digit_char n] else numeral_text b (n div b) @ [digit_char (n mod b)])"

declare numeral_text.simps [simp del]

definition int_text :: "nat \<Rightarrow> int \<Rightarrow> u8 list" where
  "int_text b x = (if x < 0 then 45 # numeral_text b (nat (- x)) else numeral_text b (nat x))"

definition hex_text :: "nat \<Rightarrow> nat \<Rightarrow> u8 list" where
  "hex_text k n = map (\<lambda>i. digit_char (n div 16 ^ (k - Suc i) mod 16)) [0..<k]"

lemma digits_list: "digits = [48,49,50,51,52,53,54,55,56,57,97,98,99,100,101,102,0]"
  by (simp add: digits_def ascii_def)

lemma digits_nth: "i < 16 \<Longrightarrow> digits ! i = digit_char i"
proof -
  assume "i < 16"
  then have "i \<in> set [0..<16]" by simp
  moreover have "\<forall>i \<in> set [0..<16]. digits ! i = digit_char i" unfolding digits_list by (simp add: digit_char_def upt_rec)
  ultimately show ?thesis by blast
qed

lemma printint_loop_text:
  assumes "2 \<le> unat base" "unat base \<le> 16" "unat x < unat base ^ Suc k" "length buf + Suc k \<le> 16"
  shows "printint_loop base x buf = Inr (buf @ rev (numeral_text (unat base) (unat x))) \<and> length (numeral_text (unat base) (unat x)) \<le> Suc k"
  using assms(3,4)
proof (induction k arbitrary: x buf)
  case 0
  then have "x < base" by (simp add: word_less_nat_alt)
  then have m: "x mod base = x" "x div base = 0" "base \<noteq> 0"
    using assms(1) by (auto simp: word_arith_nat_mod word_arith_nat_div word_less_nat_alt)
  have x: "unat x < 16" "unat x < unat base" using 0 assms(2) by simp_all
  then show ?case using 0 m digits_nth [OF x(1)]
    by (simp add: printint_loop.simps [of base x] digit_at_def digits_list pi_push_def numeral_text.simps [of "unat base"])
next
  case (Suc k)
  let ?c = "digit_char (unat x mod unat base)"
  have b: "base \<noteq> 0" using assms(1) by auto
  have um: "unat (x mod base) = unat x mod unat base" "unat (x div base) = unat x div unat base" by (simp_all add: unat_mod unat_div)
  have lt: "unat x mod unat base < 16" using assms(1,2) mod_less_divisor [of "unat base" "unat x"] by linarith
  have push: "bindr (digit_at (unat (x mod base))) (\<lambda>c. bindr (pi_push c buf) f) = f (buf @ [?c])" for f :: "u8 list \<Rightarrow> u8 list result"
    using lt Suc.prems digits_nth [OF lt] by (simp add: um digit_at_def digits_list pi_push_def)
  have eq: "printint_loop base x buf =
      (if x div base \<noteq> 0 then printint_loop base (x div base) (buf @ [?c]) else Inr (buf @ [?c]))"
    unfolding printint_loop.simps [of base x buf] using b push by simp
  have z: "x div base = 0 \<longleftrightarrow> unat x < unat base"
    using um(2) assms(1) by (metis div_eq_0_iff not_numeral_le_zero unat_eq_0)
  show ?case
  proof (cases "unat x < unat base")
    case True
    then show ?thesis using eq z by (simp add: numeral_text.simps [of "unat base"])
  next
    case False
    have "unat (x div base) < unat base ^ Suc k" using Suc.prems(1) um(2) by (simp add: less_mult_imp_div_less mult.commute)
    moreover have "length (buf @ [?c]) + Suc k \<le> 16" using Suc.prems(2) by simp
    ultimately have "printint_loop base (x div base) (buf @ [?c]) = Inr ((buf @ [?c]) @ rev (numeral_text (unat base) (unat (x div base)))) \<and>
        length (numeral_text (unat base) (unat (x div base))) \<le> Suc k" by (rule Suc.IH)
    then show ?thesis using eq z False assms(1) by (simp add: um(2) numeral_text.simps [of "unat base" "unat x"])
  qed
qed

lemma sless_zero_u32: "(xx :: u32) <s 0 \<longleftrightarrow> 2147483648 \<le> unat xx"
proof -
  have "uint xx < 4294967296" using uint_bounded [of xx] by simp
  then show ?thesis by (auto simp: word_sless_alt sint_u32)
qed

lemma unat_neg_u32: "2147483648 \<le> unat (xx :: u32) \<Longrightarrow> int (unat (- xx)) = - sint xx"
  using unat_sub_offset [of 0 xx] unsigned_less [of xx, where ?'a = nat]
  by (simp add: sint_u32 word_le_nat_alt)

text \<open>
  For every 32-bit integer, the most negative one included, \<^verbatim>\<open>printint\<close> stays inside its sixteen-byte buffer and prints the numeral
  of its value.
\<close>

lemma printint_text:
  assumes "base = 10 \<or> base = 16"
  shows "printint xx base True = Inr (int_text (unat base) (sint xx))"
proof -
  define k where "k = (if base = 10 then 9 else 7 :: nat)"
  define neg where "neg = (xx <s 0)"
  let ?x = "if neg then - xx else xx"
  have b: "2 \<le> unat base" "unat base \<le> 16" and pw: "unat base ^ Suc k \<ge> 4294967296" and k: "k \<le> 9"
    using assms by (auto simp: k_def)
  have "unat ?x < unat base ^ Suc k" using pw unsigned_less [of ?x, where ?'a = nat] by simp
  then have l: "printint_loop base ?x [] = Inr (rev (numeral_text (unat base) (unat ?x)))" "length (numeral_text (unat base) (unat ?x)) \<le> 10"
    using printint_loop_text [OF b, of ?x k "[]"] k by auto
  have "sint xx < 0 \<longleftrightarrow> neg" by (simp add: neg_def word_sless_alt)
  moreover have "unat (- xx) = nat (- sint xx)" if neg using that unat_neg_u32 [of xx] unfolding neg_def sless_zero_u32 by (simp only: nat_int flip: unat_neg_u32)
  moreover have "unat xx = nat (sint xx)" if "\<not> neg" using that by (simp add: neg_def sless_zero_u32 sint_u32)
  ultimately show ?thesis using l by (auto simp: printint_def neg_def [symmetric] Let_def pi_push_def int_text_def)
qed

lemma printptr_loop_text: "n \<le> 16 \<Longrightarrow> printptr_loop n x = hex_text n (unat x div 16 ^ (16 - n))"
proof (induction n arbitrary: x)
  case 0
  show ?case by (simp add: hex_text_def)
next
  case (Suc n)
  define q r where "q = unat x div 2 ^ 60" and "r = unat x mod 2 ^ 60"
  have u: "unat x = q * 2 ^ 60 + r" and r: "r < 2 ^ 60" by (simp_all add: q_def r_def)
  have "unat x < 2 ^ 64" using unsigned_less [of x, where ?'a = nat] by simp
  then have q: "q < 16" by (simp add: q_def less_mult_imp_div_less)
  have "unat (push_bit 4 x) = (16 * unat x) mod 2 ^ 64" by (simp add: push_bit_eq_mult unat_word_ariths mult.commute)
  also have "\<dots> = 16 * r" using r by (simp add: u distrib_left mult_mod_right [symmetric])
  finally have p: "unat (push_bit 4 x) = 16 * r" .
  have "unat (drop_bit 60 x) = q" by (simp add: q_def unat_drop_bit_eq) (simp add: drop_bit_eq_div)
  then have c: "digits ! unat (drop_bit 60 x) = digit_char q" using digits_nth [OF q] by simp
  define a where "a = 16 - Suc n"
  have a: "16 - n = Suc a" "15 = a + n" using Suc.prems by (simp_all add: a_def)
  have e: "(2 :: nat) ^ 60 = 16 ^ a * 16 ^ n"
  proof -
    have "(16 :: nat) ^ a * 16 ^ n = 16 ^ 15" unfolding a(2) by (simp add: power_add)
    then show ?thesis by simp
  qed
  have top: "unat x div 16 ^ a div 16 ^ n mod 16 = q" using q unfolding div_mult2_eq [symmetric] e [symmetric] by (simp add: q_def)
  have low: "16 * r div 16 ^ Suc a div 16 ^ m mod 16 = unat x div 16 ^ a div 16 ^ m mod 16" if "m < n" for m
  proof -
    define A c where "A = (16 :: nat) ^ (a + m)" and "c = (16 :: nat) ^ (n - Suc m)"
    have "16 ^ n = (16 :: nat) ^ m * (16 * c)" unfolding c_def using that by (simp flip: power_Suc power_add)
    then have "(2 :: nat) ^ 60 = A * (16 * c)" unfolding e A_def by (simp add: power_add)
    then have "unat x = (16 * (q * c)) * A + r" unfolding u by simp
    then have "unat x div A = 16 * (q * c) + r div A" by (simp only:) (rule div_mult_self3, simp add: A_def)
    then have "unat x div 16 ^ (a + m) mod 16 = r div 16 ^ (a + m) mod 16" unfolding A_def by (simp only: mod_mult_self4)
    then show ?thesis by (simp add: div_mult2_eq [symmetric] power_add)
  qed
  have "printptr_loop (Suc n) x = digit_char q # hex_text n (16 * r div 16 ^ Suc a)" using Suc a c p by simp
  also have "\<dots> = hex_text (Suc n) (unat x div 16 ^ a)"
    unfolding hex_text_def upt_conv_Cons [OF zero_less_Suc] list.map map_Suc_upt [symmetric] map_map comp_def using top low
    by (auto intro!: map_cong)
  finally show ?case by (simp add: a_def)
qed

lemma printptr_text: "printptr x = ascii ''0x'' @ hex_text 16 (unat x)"
  using printptr_loop_text [of 16 x] by (simp add: printptr_def ascii_def)

section \<open>Formatted output, piece by piece\<close>

lemma putcs_out: "putcs cs s = s\<lparr>con_out := con_out s @ cs\<rparr>"
proof (induction cs arbitrary: s)
  case (Cons c cs)
  have "unat c \<noteq> BACKSPACE" using unsigned_less [of c, where ?'a = nat] by (simp add: BACKSPACE_def)
  then have "console_putc (unat c) s = s\<lparr>con_out := con_out s @ [c]\<rparr>" by (simp add: console_putc_def)
  then show ?case using Cons by (simp add: putcs_def)
qed (simp add: putcs_def)

text \<open>
  A format as the programmer means it: plain characters and conversions with their arguments. \<open>pieces_fmt\<close> and
  \<open>pieces_args\<close> are the call that says it, \<open>piece_text\<close> the text it stands for.
\<close>

datatype piece = Lit u8 | Dec u32 | Hex u32 | Ptr u64 | Str "cstr option" | Percent

fun piece_fmt :: "piece \<Rightarrow> u8 list" where
  "piece_fmt (Lit c) = [c]"
| "piece_fmt (Dec x) = [37, 100]"
| "piece_fmt (Hex x) = [37, 120]"
| "piece_fmt (Ptr x) = [37, 112]"
| "piece_fmt (Str t) = [37, 115]"
| "piece_fmt Percent = [37, 37]"

fun piece_args :: "piece \<Rightarrow> va list" where
  "piece_args (Dec x) = [VaInt x]"
| "piece_args (Hex x) = [VaInt x]"
| "piece_args (Ptr x) = [VaLong x]"
| "piece_args (Str t) = [VaStr t]"
| "piece_args _ = []"

fun piece_text :: "piece \<Rightarrow> u8 list" where
  "piece_text (Lit c) = [c]"
| "piece_text (Dec x) = int_text 10 (sint x)"
| "piece_text (Hex x) = int_text 16 (sint x)"
| "piece_text (Ptr x) = ascii ''0x'' @ hex_text 16 (unat x)"
| "piece_text (Str None) = ascii ''(null)''"
| "piece_text (Str (Some t)) = cstr_chars t"
| "piece_text Percent = [37]"

definition plain :: "u8 \<Rightarrow> bool" where "plain c \<longleftrightarrow> c \<noteq> 0 \<and> c \<noteq> 37"

lemma cstr_null: "cstr_chars (ascii ''(null)'') = ascii ''(null)''"
  by (simp add: cstr_chars_def ascii_def)

lemma printf_piece:
  assumes "\<And>c. x = Lit c \<Longrightarrow> plain c"
  shows "printf_loop (piece_fmt x @ fmt) (piece_args x @ ap) = bindr (printf_loop fmt ap) (\<lambda>cs. Inr (piece_text x @ cs))"
proof (cases x)
  case (Dec n)
  then show ?thesis using printint_text [of 10 n] by (simp add: printf_conv_def va_int_def)
next
  case (Hex n)
  then show ?thesis using printint_text [of 16 n] by (simp add: printf_conv_def va_int_def)
next
  case (Str t)
  then show ?thesis by (cases t) (simp_all add: printf_conv_def va_str_def cstr_null)
qed (use assms in \<open>simp_all add: printf_conv_def va_long_def plain_def printptr_text\<close>)

text \<open>
  C30: \<^verbatim>\<open>printf\<close> prints the text its format stands for: plain characters as they are, integers, pointers and strings at the
  place of their conversion, \<^verbatim>\<open>(null)\<close> for a null string, in the order of the format; it uses exactly the arguments given.
\<close>

theorem printf_prints_pieces:
  assumes "\<And>c. Lit c \<in> set ps \<Longrightarrow> plain c"
  shows "printf (Some (concat (map piece_fmt ps))) (concat (map piece_args ps)) s =
    Inr (s\<lparr>con_out := con_out s @ concat (map piece_text ps)\<rparr>)"
proof -
  have "printf_loop (concat (map piece_fmt ps)) (concat (map piece_args ps)) = Inr (concat (map piece_text ps))"
    using assms
  proof (induction ps)
    case (Cons x ps)
    then show ?case using printf_piece [of x "concat (map piece_fmt ps)" "concat (map piece_args ps)"] by auto
  qed simp
  then show ?thesis by (simp add: printf_def putcs_out)
qed

lemma numeral_texts: "int_text 10 (- 42) = ascii ''-42''" "int_text 16 26 = ascii ''1a''" "int_text 10 0 = ascii ''0''"
  by (simp_all add: int_text_def numeral_text.simps [of 10 42] numeral_text.simps [of 10 4] numeral_text.simps [of 16 26]
      numeral_text.simps [of 16 "Suc 0"] numeral_text.simps [of 10 0] digit_char_def ascii_def)

theorem printf_prints_pieces_witness:
  "printf (Some (ascii ''x=%d %x%s'')) [VaInt (- 42), VaInt 26, VaStr None] quiet_console =
     Inr (quiet_console\<lparr>con_out := con_out quiet_console @ ascii ''x=-42 1a(null)''\<rparr>)"
proof -
  let ?ps = "map Lit (ascii ''x='') @ [Dec (- 42), Lit 32, Hex 26, Str None]"
  have "printf (Some (concat (map piece_fmt ?ps))) (concat (map piece_args ?ps)) quiet_console =
     Inr (quiet_console\<lparr>con_out := con_out quiet_console @ concat (map piece_text ?ps)\<rparr>)"
    by (rule printf_prints_pieces) (auto simp: plain_def ascii_def)
  moreover have "sint (- 42 :: u32) = - 42" by simp
  ultimately show ?thesis by (simp add: numeral_texts ascii_def)
qed

text \<open>
  A panic message is used as a format, so it appears as written only when it has no percent sign.
\<close>

lemma printf_plain: "(\<And>c. c \<in> set t \<Longrightarrow> plain c) \<Longrightarrow> printf (Some t) [] s = Inr (s\<lparr>con_out := con_out s @ t\<rparr>)"
proof -
  assume "\<And>c. c \<in> set t \<Longrightarrow> plain c"
  then have "printf_loop t [] = Inr t" by (induction t) (auto simp: plain_def)
  then show ?thesis by (simp add: printf_def putcs_out)
qed

lemma panic_message_as_format: "printf (Some (ascii ''100%d'')) [] s = Inl (BadAccess ''va_arg'')"
  by (simp add: printf_def ascii_def printf_conv_def va_int_def)

text \<open>
  \<^verbatim>\<open>PastLastSlash\<close> looks at the first character of the part found so far instead of the character it scans, so it never
  shortens a path that does not begin with a slash.
\<close>

lemma PastLastSlash_keeps: "cat0 p \<noteq> 47 \<Longrightarrow> PastLastSlash p = p"
proof -
  assume p: "cat0 p \<noteq> 47"
  have "PastLastSlash2 a p = p" for a by (induction a) (use p in auto)
  then show ?thesis by (simp add: PastLastSlash_def)
qed

end
