(* ===== verification/ThinFat.thy ===== *)
theory ThinFat
  imports Fat32 "HOL-Library.Signed_Division"
begin

unbundle bit_operations_syntax

text \<open>
  The older FAT file system, \<^verbatim>\<open>src/kernel/fs/fat32/Fat.cpp\<close> with \<^verbatim>\<open>src/kernel/include/fs/fat/Fat32.hpp\<close> and
  \<^verbatim>\<open>thinternal.h\<close>: a volume with one cached sector (\<open>TFInfo\<close>), five file handles (\<open>TFFile\<close>), and the functions \<^verbatim>\<open>tf_...\<close> on them. It is
  what the system calls \<^verbatim>\<open>mkdirat\<close>, \<^verbatim>\<open>chdir\<close>, \<^verbatim>\<open>mount\<close> and \<^verbatim>\<open>umount2\<close> work on. The state of an operation is the volume and
  the kernel state with the device; reads and writes of the device are those of the device table.

  Loops over the entries of a directory get 65537 rounds, one more than a directory has entries; \<open>Stuck\<close> stands for a
  search that has gone past them.
\<close>

section \<open>State\<close>

definition TF_MAX_PATH :: nat where "TF_MAX_PATH = 256"
definition TF_FILE_HANDLES :: nat where "TF_FILE_HANDLES = 5"
definition TF_FLAG_DIRTY :: u8 where "TF_FLAG_DIRTY = 1"
definition TF_FLAG_OPEN :: u8 where "TF_FLAG_OPEN = 2"
definition TF_FLAG_SIZECHANGED :: u8 where "TF_FLAG_SIZECHANGED = 4"
definition TF_FLAG_ROOT :: u8 where "TF_FLAG_ROOT = 8"
definition TF_MARK_EOC32 :: u32 where "TF_MARK_EOC32 = 0x0fffffff"
definition TF_MARK_EOC16 :: u32 where "TF_MARK_EOC16 = 0xfff8"
definition LFN_ENTRY_CAPACITY :: nat where "LFN_ENTRY_CAPACITY = 13"
definition TF_ATTR_DIRECTORY :: u8 where "TF_ATTR_DIRECTORY = 0x10"
definition TF_ATTR_LONG_NAME :: u8 where "TF_ATTR_LONG_NAME = 0x0F"
definition TF_MODE_READ :: u8 where "TF_MODE_READ = 1"
definition TF_MODE_WRITE :: u8 where "TF_MODE_WRITE = 2"
definition TF_MODE_OVERWRITE :: u8 where "TF_MODE_OVERWRITE = 8"
definition TF_ERR_BAD_FS_TYPE :: int where "TF_ERR_BAD_FS_TYPE = 2"
definition TF_ERR_INVALID_SEEK :: int where "TF_ERR_INVALID_SEEK = 1"

lemmas tf_consts = TF_FLAG_DIRTY_def TF_FLAG_OPEN_def TF_FLAG_SIZECHANGED_def TF_FLAG_ROOT_def TF_MARK_EOC32_def TF_MARK_EOC16_def
  TF_ATTR_DIRECTORY_def TF_ATTR_LONG_NAME_def TF_MODE_READ_def TF_MODE_WRITE_def TF_MODE_OVERWRITE_def

text \<open>\<^verbatim>\<open>TFInfo\<close>; \<^verbatim>\<open>char\<close> is unsigned on this machine.\<close>

record TFInfo =
  ti_type :: u8
  sectorsPerCluster :: u8
  firstDataSector :: u32
  totalSectors :: u32
  reservedSectors :: u16
  currentSector :: u32
  sectorFlags :: u8
  rootDirectorySize :: u32
  ti_buffer :: "u8 list"

text \<open>\<^verbatim>\<open>TFFile\<close>; its field \<^verbatim>\<open>currentSector\<close> is only ever set to 0. \<open>tff_byte\<close> is the \<^verbatim>\<open>short\<close> \<^verbatim>\<open>currentByte\<close>.\<close>

record TFFile =
  parentStartCluster :: u32
  startCluster :: u32
  currentClusterIdx :: u32
  currentCluster :: u32
  tff_byte :: int
  tff_pos :: u32
  tff_flags :: u8
  tff_attributes :: u8
  tff_mode :: u8
  tff_size :: u32
  tff_name :: "u8 list"

text \<open>A mounted volume: the device it reads from, the information block with the one sector it caches, its file handles.\<close>

record tfs =
  tf_dev :: nat
  tf_info :: TFInfo
  tf_file_handles :: "TFFile list"

type_synonym 'a tst = "tfs \<times> 'a kfat_scheme"

definition upd_info :: "(TFInfo \<Rightarrow> TFInfo) \<Rightarrow> 'a tst \<Rightarrow> 'a tst" where
  "upd_info g st = ((fst st)\<lparr>tf_info := g (tf_info (fst st))\<rparr>, snd st)"

section \<open>Sectors\<close>

definition read_sector :: "nat \<Rightarrow> u32 \<Rightarrow> 'a kfat_scheme \<Rightarrow> (int \<times> u8 list) result" where
  "read_sector dev sector s = bindr (RwDevRead dev (unat (sector * 512)) 512 s) (\<lambda>(r, bs). Inr (0, bs))"

definition write_sector :: "nat \<Rightarrow> u8 list \<Rightarrow> u32 \<Rightarrow> 'a kfat_scheme \<Rightarrow> (int \<times> 'a kfat_scheme) result" where
  "write_sector dev bs sector s = bindr (RwDevWrite dev (unat (sector * 512)) bs s) (\<lambda>(r, s1). Inr (0, s1))"

definition tf_store :: "'a tst \<Rightarrow> (int \<times> 'a tst) result" where
  "tf_store st =
     (let st1 = upd_info (\<lambda>i. i\<lparr>sectorFlags := sectorFlags i AND NOT TF_FLAG_DIRTY\<rparr>) st; (t, s) = st1 in
      bindr (write_sector (tf_dev t) (ti_buffer (tf_info t)) (currentSector (tf_info t)) s) (\<lambda>(rc, s1). Inr (rc, (t, s1))))"

definition tf_fetch :: "u32 \<Rightarrow> 'a tst \<Rightarrow> (int \<times> 'a tst) result" where
  "tf_fetch sector st =
     (if sector = currentSector (tf_info (fst st)) then Inr (0, st)
      else bindr (if sectorFlags (tf_info (fst st)) AND TF_FLAG_DIRTY \<noteq> 0 then tf_store st else Inr (0, st)) (\<lambda>(rc, st1).
        bindr (read_sector (tf_dev (fst st1)) sector (snd st1)) (\<lambda>(rc2, bs).
          let st2 = upd_info (\<lambda>i. i\<lparr>ti_buffer := bs\<rparr>) st1 in
          if rc = 0 \<and> rc2 = 0 then Inr (0, upd_info (\<lambda>i. i\<lparr>currentSector := sector\<rparr>) st2) else Inr (1, st2))))"

text \<open>The sector of the allocation table with the entry of a cluster, and the entry in the buffer.\<close>

definition fat_sector :: "TFInfo \<Rightarrow> u32 \<Rightarrow> u32" where
  "fat_sector i cluster = ucast (reservedSectors i) + cluster * 4 div 512"

definition fat_offset :: "u32 \<Rightarrow> nat" where
  "fat_offset cluster = unat (cluster * 4 mod 512)"

definition tf_get_fat_entry :: "u32 \<Rightarrow> 'a tst \<Rightarrow> (u32 \<times> 'a tst) result" where
  "tf_get_fat_entry cluster st =
     bindr (tf_fetch (fat_sector (tf_info (fst st)) cluster) st) (\<lambda>(rc, st1).
       Inr (get32 (ti_buffer (tf_info (fst st1))) (fat_offset cluster), st1))"

definition tf_set_fat_entry :: "u32 \<Rightarrow> u32 \<Rightarrow> 'a tst \<Rightarrow> (int \<times> 'a tst) result" where
  "tf_set_fat_entry cluster v st =
     bindr (tf_fetch (fat_sector (tf_info (fst st)) cluster) st) (\<lambda>(rc, st1).
       if get32 (ti_buffer (tf_info (fst st1))) (fat_offset cluster) \<noteq> v
       then Inr (rc, upd_info (\<lambda>i. i\<lparr>sectorFlags := sectorFlags i OR TF_FLAG_DIRTY,
                                     ti_buffer := splice (fat_offset cluster) (bytes32 v) (ti_buffer i)\<rparr>) st1)
       else Inr (rc, st1))"

definition tf_first_sector :: "u32 \<Rightarrow> TFInfo \<Rightarrow> u32" where
  "tf_first_sector cluster i = (cluster - 2) * ucast (sectorsPerCluster i) + firstDataSector i"

section \<open>Free clusters\<close>

text \<open>The two searches stop at the first entry whose low 28 bits are 0, or at the number of clusters.\<close>

function find_free_loop :: "u32 \<Rightarrow> u32 \<Rightarrow> 'a tst \<Rightarrow> (u32 \<times> 'a tst) result" where
  "find_free_loop i totalClusters st =
     (if i < totalClusters then
        bindr (tf_get_fat_entry i st) (\<lambda>(entry, st1).
          if entry AND 0x0fffffff = 0 then Inr (i, st1) else find_free_loop (i + 1) totalClusters st1)
      else Inr (i, st))"
  by pat_completeness auto
termination
proof (relation "measure (\<lambda>(i, n, st). unat n - unat i)")
  fix i n :: u32 and st :: "'a tst" and x entry st1
  assume "i < n"
  then have i: "unat i < unat n" by (simp add: word_less_nat_alt)
  moreover have "unat n < 2 ^ 32" using unsigned_less [where 'a = nat, of n] by simp
  ultimately have "unat (i + 1) = unat i + 1" by (subst unat_add_lem [THEN iffD1]; simp)
  with i show "((i + 1, n, st1), i, n, st) \<in> measure (\<lambda>(i, n, st). unat n - unat i)" by simp
qed auto

declare find_free_loop.simps [simp del]

definition total_clusters :: "TFInfo \<Rightarrow> u32 result" where
  "total_clusters i =
     (if sectorsPerCluster i = 0 then Inl (BadAccess ''division by zero'') else Inr (totalSectors i div ucast (sectorsPerCluster i)))"

definition tf_find_free_cluster :: "'a tst \<Rightarrow> (u32 \<times> 'a tst) result" where
  "tf_find_free_cluster st = bindr (total_clusters (tf_info (fst st))) (\<lambda>n. find_free_loop 0 n st)"

definition tf_find_free_cluster_from :: "u32 \<Rightarrow> 'a tst \<Rightarrow> (u32 \<times> 'a tst) result" where
  "tf_find_free_cluster_from c st =
     bindr (total_clusters (tf_info (fst st))) (\<lambda>n.
       bindr (find_free_loop c n st) (\<lambda>(i, st1). if i = n then tf_find_free_cluster st1 else Inr (i, st1)))"

text \<open>
  \<^verbatim>\<open>tf_free_clusterchain\<close>. The entry to clear and the entry to look at drift apart: after the first round the loop goes on with
  the entry behind the one it reads. It ends after a few rounds because it reads an entry it has just cleared; a
  chain that repeats needs no more rounds than there are clusters.
\<close>

fun free_clusterchain_loop :: "nat \<Rightarrow> u32 \<Rightarrow> u32 \<Rightarrow> 'a tst \<Rightarrow> 'a tst result" where
  "free_clusterchain_loop 0 cluster fat_entry st = Inl (Stuck ''tf_free_clusterchain'')"
| "free_clusterchain_loop (Suc k) cluster fat_entry st =
     (if fat_entry < TF_MARK_EOC32 then
        if fat_entry \<le> 2 then Inr st
        else bindr (tf_set_fat_entry cluster 0 st) (\<lambda>(rc, st1).
          bindr (tf_get_fat_entry fat_entry st1) (\<lambda>(e, st2). free_clusterchain_loop k e e st2))
      else Inr st)"

definition tf_free_clusterchain :: "u32 \<Rightarrow> 'a tst \<Rightarrow> (int \<times> 'a tst) result" where
  "tf_free_clusterchain cluster st =
     bindr (tf_get_fat_entry cluster st) (\<lambda>(fat_entry, st1).
       bindr (free_clusterchain_loop 3 cluster fat_entry st1) (\<lambda>st2. Inr (0, st2)))"

section \<open>Positions\<close>

text \<open>
  \<^verbatim>\<open>tf_unsafe_fseek\<close>: the walk along the cluster chain, which takes a new cluster when the chain ends, whatever the file was
  opened for. An entry at or past the mark with clusters left to go is an error that leaves the handle half updated.
\<close>

definition seek_mark :: "TFInfo \<Rightarrow> u32" where
  "seek_mark i = (if ti_type i \<noteq> 0 then TF_MARK_EOC32 else TF_MARK_EOC16)"

fun seek_loop :: "nat \<Rightarrow> u32 \<Rightarrow> 'a tst \<Rightarrow> (int \<times> u32 \<times> 'a tst) result" where
  "seek_loop 0 cur st = Inr (0, cur, st)"
| "seek_loop (Suc k) cur st =
     (let mark = seek_mark (tf_info (fst st)) in
      bindr (tf_get_fat_entry cur st) (\<lambda>(temp, st1).
        bindr (if temp AND 0x0fffffff \<noteq> mark then Inr (temp, st1)
               else bindr (tf_find_free_cluster_from cur st1) (\<lambda>(c, st2).
                 bindr (tf_set_fat_entry cur c st2) (\<lambda>(rc, st3).
                   bindr (tf_set_fat_entry c mark st3) (\<lambda>(rc, st4). Inr (c, st4))))) (\<lambda>(cur1, st5).
          if mark \<le> cur1 \<and> 0 < k then Inr (TF_ERR_INVALID_SEEK, cur1, st5) else seek_loop k cur1 st5)))"

definition tf_unsafe_fseek :: "TFFile \<Rightarrow> int \<Rightarrow> int \<Rightarrow> 'a tst \<Rightarrow> (int \<times> TFFile \<times> 'a tst) result" where
  "tf_unsafe_fseek fp base offset st =
     (let pos = base + offset; fsize = int (unat (tff_size fp)); cs = int (unat (sectorsPerCluster (tf_info (fst st)))) * 512 in
      if pos > fsize then Inr (TF_ERR_INVALID_SEEK, fp, st)
      else
        let fp1 = (if pos = fsize then fp\<lparr>tff_size := tff_size fp + 1, tff_flags := tff_flags fp OR TF_FLAG_SIZECHANGED\<rparr> else fp) in
        if cs = 0 then Inl (BadAccess ''division by zero'')
        else
          let idx = of_int (pos sdiv cs) :: u32;
              finish = (\<lambda>fp. fp\<lparr>tff_byte := sint (of_int (pos smod cs) :: 16 word), tff_pos := of_int pos\<rparr>) in
          if idx = currentClusterIdx fp1 then Inr (0, finish fp1, st)
          else
            let (n, cur) = (if currentClusterIdx fp1 < idx then (idx - currentClusterIdx fp1, currentCluster fp1) else (idx, startCluster fp1)) in
            bindr (seek_loop (unat n) cur st) (\<lambda>(rc, cur', st1).
              let fp2 = fp1\<lparr>currentClusterIdx := idx, currentCluster := cur'\<rparr> in
              if rc \<noteq> 0 then Inr (rc, fp2, st1) else Inr (0, finish fp2, st1)))"

text \<open>The base is cut to 32 bits on the way from \<^verbatim>\<open>tf_fseek\<close>.\<close>

definition tf_fseek :: "TFFile \<Rightarrow> int \<Rightarrow> int \<Rightarrow> 'a tst \<Rightarrow> (int \<times> TFFile \<times> 'a tst) result" where
  "tf_fseek fp base offset st =
     (if base + offset > int (unat (tff_size fp)) then Inr (TF_ERR_INVALID_SEEK, fp, st)
      else tf_unsafe_fseek fp (sint (of_int base :: u32)) offset st)"

section \<open>Reading and writing\<close>

text \<open>How many bytes one round moves: up to the end of the sector, the end of the file and the end of the request.\<close>

definition chunk :: "TFFile \<Rightarrow> nat \<Rightarrow> nat" where
  "chunk fp sz = min (512 - nat (tff_byte fp) mod 512) (min (unat (tff_size fp - tff_pos fp)) sz)"

text \<open>
  \<^verbatim>\<open>tf_fread\<close>. At the end of a file a round moves nothing, and the seek then makes the file one byte longer, so that the next
  round moves a byte: twice the request is fuel enough. The result of the copy is not looked at.
\<close>

definition cur_sector :: "TFFile \<Rightarrow> TFInfo \<Rightarrow> u32" where
  "cur_sector fp i = tf_first_sector (currentCluster fp) i + of_int (tff_byte fp sdiv 512)"

fun tf_fread_loop ::
  "nat \<Rightarrow> nat \<Rightarrow> sink \<Rightarrow> nat \<Rightarrow> nat \<Rightarrow> u8 list \<Rightarrow> TFFile \<Rightarrow> 'a tst \<Rightarrow> (int \<times> u8 list \<times> TFFile \<times> 'a tst) result" where
  "tf_fread_loop 0 me dest n want acc fp st = Inl (Stuck ''tf_fread'')"
| "tf_fread_loop (Suc k) me dest n want acc fp st =
     (if n \<le> unat (tff_size fp) \<and> 0 < want then
        bindr (tf_fetch (cur_sector fp (tf_info (fst st))) st) (\<lambda>(rc, st1).
          if tff_byte fp < 0 then Inl (BadAccess ''tf_info.buffer'')
          else
            let x = chunk fp want; bs = take x (drop (nat (tff_byte fp) mod 512) (ti_buffer (tf_info (fst st1)))) in
            bindr (sink_put me dest n bs (snd st1)) (\<lambda>(r, s2).
              bindr (tf_fseek fp 0 (int (unat (tff_pos fp)) + int x) (fst st1, s2)) (\<lambda>(rc, fp1, st3).
                if rc \<noteq> 0 then Inr (int (n + x), acc @ bs, fp1, st3)
                else tf_fread_loop k me dest (n + x) (want - x) (acc @ bs) fp1 st3)))
      else Inr (int n, acc, fp, st))"

definition tf_fread :: "nat \<Rightarrow> sink \<Rightarrow> int \<Rightarrow> TFFile \<Rightarrow> 'a tst \<Rightarrow> (int \<times> u8 list \<times> TFFile \<times> 'a tst) result" where
  "tf_fread me dest want fp st =
     (let sz = (if tff_size fp < of_int want then sint (tff_size fp) else want)
      in tf_fread_loop (2 * nat sz + 2) me dest 0 (nat sz) [] fp st)"

fun tf_fwrite_loop ::
  "nat \<Rightarrow> nat \<Rightarrow> source \<Rightarrow> nat \<Rightarrow> nat \<Rightarrow> TFFile \<Rightarrow> 'a tst \<Rightarrow> (int \<times> TFFile \<times> 'a tst) result" where
  "tf_fwrite_loop 0 me src n sz fp st = Inl (Stuck ''tf_fwrite'')"
| "tf_fwrite_loop (Suc k) me src n sz fp st =
     (if 0 < sz then
        bindr (tf_fetch (cur_sector fp (tf_info (fst st))) st) (\<lambda>(rc, st1).
          if tff_byte fp < 0 then Inl (BadAccess ''tf_info.buffer'')
          else
            let x = chunk fp sz in
            bindr (source_get me src n x (snd st1)) (\<lambda>(r, bs).
              let st2 = upd_info (\<lambda>i. i\<lparr>ti_buffer := splice (nat (tff_byte fp) mod 512) bs (ti_buffer i),
                                       sectorFlags := sectorFlags i OR TF_FLAG_DIRTY\<rparr>) st1;
                  fp1 = (if unat (tff_pos fp) + x > unat (tff_size fp)
                         then fp\<lparr>tff_flags := tff_flags fp OR TF_FLAG_SIZECHANGED, tff_size := of_nat x + tff_pos fp\<rparr> else fp)
              in bindr (tf_unsafe_fseek fp1 0 (int (unat (tff_pos fp1)) + int x) st2) (\<lambda>(rc, fp2, st3).
                   if rc \<noteq> 0 then Inr (- 1, fp2, st3)
                   else tf_fwrite_loop k me src (n + x) (sz - x) fp2 st3)))
      else Inr (int n, fp, st))"

definition tf_fwrite :: "nat \<Rightarrow> source \<Rightarrow> int \<Rightarrow> TFFile \<Rightarrow> 'a tst \<Rightarrow> (int \<times> TFFile \<times> 'a tst) result" where
  "tf_fwrite me src sz fp st =
     tf_fwrite_loop (2 * nat sz + 2) me src 0 (nat sz) (fp\<lparr>tff_flags := tff_flags fp OR TF_FLAG_DIRTY\<rparr>) st"

text \<open>
  Directory entries are objects of 32 bytes on the stack: reading one replaces as many of its bytes as were
  read, writing one takes them all.
\<close>

definition read_entry :: "nat \<Rightarrow> u8 list \<Rightarrow> TFFile \<Rightarrow> 'a tst \<Rightarrow> (u8 list \<times> TFFile \<times> 'a tst) result" where
  "read_entry me old fp st =
     bindr (tf_fread me ToObject 32 fp st) (\<lambda>(r, bs, fp1, st1). Inr (splice 0 bs old, fp1, st1))"

definition write_entry :: "nat \<Rightarrow> u8 list \<Rightarrow> TFFile \<Rightarrow> 'a tst \<Rightarrow> (int \<times> TFFile \<times> 'a tst) result" where
  "write_entry me e fp st = tf_fwrite me (FromObject e) 32 fp st"

definition junk_entry :: "'a tst \<Rightarrow> u8 list" where
  "junk_entry st = take 32 (stack_junk (snd st) @ replicate 32 0)"

section \<open>Short names\<close>

definition upper :: "u8 \<Rightarrow> u8" where
  "upper c = (if 97 \<le> c \<and> c \<le> 122 then c - 32 else c)"

text \<open>The characters the conversion keeps; the lower limit is 20, not the space at 0x20.\<close>

definition sfn_char :: "u8 \<Rightarrow> bool" where
  "sfn_char c \<longleftrightarrow> c < 0x7f \<and> 20 < c \<and> c \<notin> {0x22, 0x2a, 0x2e, 0x2f, 0x3a, 0x3c, 0x3e, 0x3f, 0x5b, 0x5c, 0x5d, 0x7c}"

definition skip_bad :: "cstr \<Rightarrow> cstr" where
  "skip_bad s = dropWhile (\<lambda>c. c \<noteq> 0 \<and> \<not> sfn_char c) s"

primrec shorten_ext :: "nat \<Rightarrow> cstr option \<Rightarrow> u8 list" where
  "shorten_ext 0 tmp = []"
| "shorten_ext (Suc k) tmp =
     (case tmp of None \<Rightarrow> 32 # shorten_ext k None
      | Some t \<Rightarrow> let t' = skip_bad t in
          if cat0 t' = 0 then 32 # shorten_ext k (Some t') else upper (cat0 t') # shorten_ext k (Some (tl t')))"

text \<open>The base name: \<open>p\<close> is the position of \<^verbatim>\<open>src\<close>, \<open>tmp\<close> that of the last dot.\<close>

primrec shorten_base :: "nat \<Rightarrow> nat \<Rightarrow> nat \<Rightarrow> nat option \<Rightarrow> cstr \<Rightarrow> u8 list \<Rightarrow> u8 list" where
  "shorten_base 0 i p tmp src dest = dest"
| "shorten_base (Suc k) i p tmp src dest =
     (if tmp = Some p then shorten_base k (Suc i) p tmp src (dest[i := 32])
      else if dest ! 0 = 32 then shorten_base k (Suc i) p tmp src dest
      else
        let p' = p + length (takeWhile (\<lambda>c. c \<noteq> 0 \<and> \<not> sfn_char c) (drop p src)); c = cat0 (drop p' src) in
        if c = 0 then shorten_base k (Suc i) p' tmp src (dest[i := 32])
        else if c \<in> {44, 91, 93} then shorten_base k (Suc i) p' tmp src (dest[i := 95])
        else shorten_base k (Suc i) (Suc p') tmp src (dest[i := upper c]))"

definition tf_shorten_filename :: "u8 list \<Rightarrow> cstr \<Rightarrow> u8 \<Rightarrow> u8 list" where
  "tf_shorten_filename dest src num =
     (let dot = strrchr src 46;
          dest = splice 8 (shorten_ext 3 (map_option (\<lambda>i. drop i src) dot)) dest;
          dest = shorten_base 8 0 0 dot src dest
      in if 4 < num then dest[7 := 49]
         else case strchr dest 32 of
             Some t \<Rightarrow> if 6 < t then dest[6 := 126, 7 := num + 0x30] else dest[t := 126, Suc t := num + 0x30]
           | None \<Rightarrow> dest[6 := 126, 7 := num + 0x30])"

definition tf_lfn_checksum :: "u8 list \<Rightarrow> u8" where
  "tf_lfn_checksum sfn = foldl (\<lambda>chk c. push_bit 7 (chk AND 1) + drop_bit 1 chk + c) 0 (take 11 sfn)"

section \<open>Long names\<close>

text \<open>The 13 characters of one long entry: the name, its terminator, then fillers.\<close>

definition lfn_name :: "cstr \<Rightarrow> u16 list" where
  "lfn_name s = map (\<lambda>i. if i < strlen s then ucast (s ! i) else if i = strlen s then 0 else 0xffff) [0..<13]"

definition tf_create_lfn_entry :: "cstr \<Rightarrow> u8 list \<Rightarrow> cstr option \<times> u8 list" where
  "tf_create_lfn_entry filename entry =
     (let ws = lfn_name filename;
          e = splice 1 (wbytes (take 5 ws)) entry;
          e = splice 14 (wbytes (take 6 (drop 5 ws))) e;
          e = splice 28 (wbytes (drop 11 ws)) e;
          e = splice 26 (bytes16 0) (e[11 := TF_ATTR_LONG_NAME, 12 := 0])
      in (if strlen filename > 13 then Some (drop 13 filename) else None, e))"

text \<open>The counting loop of \<^verbatim>\<open>tf_place_lfn_chain\<close>: the number of entries the name needs.\<close>

function lfn_entries :: "cstr \<Rightarrow> nat" where
  "lfn_entries s = (if strlen s > 13 then Suc (lfn_entries (drop 13 s)) else 1)"
  by pat_completeness auto
termination
proof (relation "measure length")
  fix s :: cstr
  assume "13 < strlen s"
  moreover have "strlen t \<le> length t" for t by (induction t) auto
  ultimately have "13 < length s" using le_trans by (metis not_le)
  then show "(drop 13 s, s) \<in> measure length" by simp
qed simp

declare lfn_entries.simps [simp del]

primrec place_lfn_loop ::
  "nat \<Rightarrow> nat \<Rightarrow> u8 \<Rightarrow> u8 \<Rightarrow> cstr \<Rightarrow> u8 list \<Rightarrow> TFFile \<Rightarrow> 'a tst \<Rightarrow> (TFFile \<times> 'a tst) result" where
  "place_lfn_loop 0 me seq chk filename entry fp st = Inr (fp, st)"
| "place_lfn_loop (Suc k) me seq chk filename entry fp st =
     (let e = (snd (tf_create_lfn_entry (drop (13 * k) filename) entry))[0 := seq, 13 := chk] in
      bindr (write_entry me e fp st) (\<lambda>(r, fp1, st1).
        place_lfn_loop k me ((seq AND NOT 0x40) - 1) chk filename e fp1 st1))"

definition tf_place_lfn_chain :: "nat \<Rightarrow> cstr \<Rightarrow> u8 list \<Rightarrow> TFFile \<Rightarrow> 'a tst \<Rightarrow> (TFFile \<times> 'a tst) result" where
  "tf_place_lfn_chain me filename sfn fp st =
     place_lfn_loop (lfn_entries filename) me (of_nat (lfn_entries filename) OR 0x40) (tf_lfn_checksum sfn) filename (junk_entry st) fp st"

section \<open>Finding a file\<close>

definition reformatted :: "u8 list \<Rightarrow> u8 list" where
  "reformatted e =
     (if e ! 11 \<noteq> TF_ATTR_LONG_NAME
      then let base = filter (\<lambda>c. c \<noteq> 32) (take 8 e); ext = filter (\<lambda>c. c \<noteq> 32) (take 3 (drop 8 e))
           in base @ (if ext = [] then [] else 46 # ext)
      else map (\<lambda>k. e ! k) [1, 3, 5, 7, 9, 14, 16, 18, 20, 22, 24, 28, 30])"

text \<open>The rest of the 16 bytes is 0.\<close>

definition tf_compare_filename_segment :: "u8 list \<Rightarrow> cstr \<Rightarrow> bool" where
  "tf_compare_filename_segment e name =
     (let r = reformatted e; i = length (takeWhile (\<lambda>c. c \<noteq> 47 \<and> c \<noteq> 0) name) in
      if 13 < i then strncasecmp False name r 13 = 0
      else cat0 (drop i r) = 0 \<and> strncasecmp False name r i = 0)"

text \<open>The loop over the long entries, from the one next to the short entry back to the first.\<close>

primrec compare_lfn_loop ::
  "nat \<Rightarrow> nat \<Rightarrow> nat \<Rightarrow> cstr \<Rightarrow> u8 list \<Rightarrow> TFFile \<Rightarrow> 'a tst \<Rightarrow> (bool \<times> TFFile \<times> 'a tst) result" where
  "compare_lfn_loop 0 me i name entry fp st = Inr (True, fp, st)"
| "compare_lfn_loop (Suc k) me i name entry fp st =
     bindr (tf_fseek fp (- 32) (int (unat (tff_pos fp))) st) (\<lambda>(rc, fp1, st1).
       bindr (read_entry me entry fp1 st1) (\<lambda>(e, fp2, st2).
         if \<not> tf_compare_filename_segment e name
         then bindr (tf_fseek fp2 (int i * 32) (int (unat (tff_pos fp2))) st2) (\<lambda>(rc, fp3, st3). Inr (False, fp3, st3))
         else bindr (tf_fseek fp2 (- 32) (int (unat (tff_pos fp2))) st2) (\<lambda>(rc, fp3, st3).
           compare_lfn_loop k me (Suc i) (drop 13 name) e fp3 st3)))"

definition tf_compare_filename :: "nat \<Rightarrow> cstr \<Rightarrow> TFFile \<Rightarrow> 'a tst \<Rightarrow> (int \<times> TFFile \<times> 'a tst) result" where
  "tf_compare_filename me name fp st =
     bindr (read_entry me (junk_entry st) fp st) (\<lambda>(e, fp1, st1).
       if e ! 0 = 0 then Inr (- 1, fp1, st1)
       else if e ! 11 \<noteq> TF_ATTR_LONG_NAME then
         if tf_compare_filename_segment e name
         then bindr (tf_fseek fp1 (- 32) (int (unat (tff_pos fp1))) st1) (\<lambda>(rc, fp2, st2). Inr (1, fp2, st2))
         else Inr (0, fp1, st1)
       else if e ! 0 AND 0xc0 = 0x40 then
         let n = (ucast (e ! 0 AND NOT 0x40) :: u32) in
         bindr (tf_fseek fp1 (int (unat (32 * (n - 1)))) (int (unat (tff_pos fp1))) st1) (\<lambda>(rc, fp2, st2).
           if (strlen name + 12) div LFN_ENTRY_CAPACITY \<noteq> unat n then Inr (0, fp2, st2)
           else bindr (compare_lfn_loop (unat n) me 0 name e fp2 st2) (\<lambda>(ok, fp3, st3).
             if \<not> ok then Inr (0, fp3, st3)
             else bindr (tf_fseek fp3 (int (unat (32 * n))) (int (unat (tff_pos fp3))) st3) (\<lambda>(rc, fp4, st4). Inr (1, fp4, st4))))
       else Inr (- 1, fp1, st1))"

text \<open>
  A directory holds at most 65536 entries, so a search that has compared more of them never ends: entries past the end
  of the chain are read from clusters the seek adds to it.
\<close>

definition DIR_ROUNDS :: nat where "DIR_ROUNDS = 65537"

fun find_file_loop :: "nat \<Rightarrow> nat \<Rightarrow> cstr \<Rightarrow> TFFile \<Rightarrow> 'a tst \<Rightarrow> (int \<times> TFFile \<times> 'a tst) result" where
  "find_file_loop 0 me name fp st = Inl (Stuck ''tf_find_file'')"
| "find_file_loop (Suc k) me name fp st =
     bindr (tf_compare_filename me name fp st) (\<lambda>(rc, fp1, st1).
       if rc < 0 then Inr (- 1, fp1, st1)
       else if rc = 1 then Inr (0, fp1, st1)
       else find_file_loop k me name fp1 st1)"

definition tf_find_file :: "nat \<Rightarrow> cstr \<Rightarrow> TFFile \<Rightarrow> 'a tst \<Rightarrow> (int \<times> TFFile \<times> 'a tst) result" where
  "tf_find_file me name fp st =
     bindr (tf_fseek fp 0 0 st) (\<lambda>(rc, fp1, st1). find_file_loop DIR_ROUNDS me name fp1 st1)"

text \<open>
  \<^verbatim>\<open>tf_choose_sfn\<close> tries numbered names until one is not found. From the fifth on the name is the same until the number,
  passed as a \<^verbatim>\<open>char\<close>, wraps to 0; after that every name has been tried.
\<close>

fun choose_sfn_loop :: "nat \<Rightarrow> nat \<Rightarrow> nat \<Rightarrow> u8 list \<Rightarrow> cstr \<Rightarrow> TFFile \<Rightarrow> 'a tst \<Rightarrow> (u8 list \<times> 'a tst) result" where
  "choose_sfn_loop 0 me num dest src fp st = Inl (Stuck ''tf_choose_sfn'')"
| "choose_sfn_loop (Suc k) me num dest src fp st =
     (let d = tf_shorten_filename dest src (of_nat num); temp = take 8 d @ [46] @ take 3 (drop 8 d) in
      bindr (tf_find_file me temp fp st) (\<lambda>(rc, fp1, st1).
        if rc < 0 then Inr (d, st1) else choose_sfn_loop k me (Suc num) d src fp1 st1))"

definition tf_choose_sfn :: "nat \<Rightarrow> u8 list \<Rightarrow> cstr \<Rightarrow> TFFile \<Rightarrow> 'a tst \<Rightarrow> (u8 list \<times> 'a tst) result" where
  "tf_choose_sfn me dest src fp st = choose_sfn_loop 261 me 1 dest src fp st"

section \<open>Handles\<close>

text \<open>An operation on the file behind a handle, which may be the null pointer of a failed open.\<close>

definition on_handle :: "nat option \<Rightarrow> (TFFile \<Rightarrow> 'a tst \<Rightarrow> ('r \<times> TFFile \<times> 'a tst) result) \<Rightarrow> 'a tst \<Rightarrow> ('r \<times> 'a tst) result" where
  "on_handle ho f st =
     (case ho of None \<Rightarrow> Inl (BadAccess ''TFFile'')
      | Some h \<Rightarrow> bindr (f (tf_file_handles (fst st) ! h) st) (\<lambda>(r, fp, t, s).
          Inr (r, t\<lparr>tf_file_handles := (tf_file_handles t)[h := fp]\<rparr>, s)))"

definition upd_handle :: "nat \<Rightarrow> (TFFile \<Rightarrow> TFFile) \<Rightarrow> 'a tst \<Rightarrow> 'a tst" where
  "upd_handle h g st =
     ((fst st)\<lparr>tf_file_handles := (tf_file_handles (fst st))[h := g (tf_file_handles (fst st) ! h)]\<rparr>, snd st)"

definition tf_get_free_handle :: "'a tst \<Rightarrow> nat option \<times> 'a tst" where
  "tf_get_free_handle st =
     (case List.find (\<lambda>i. tff_flags (tf_file_handles (fst st) ! i) AND TF_FLAG_OPEN = 0) [0..<TF_FILE_HANDLES] of
        None \<Rightarrow> (None, st)
      | Some i \<Rightarrow> (Some i, upd_handle i (\<lambda>fp. fp\<lparr>tff_flags := TF_FLAG_OPEN\<rparr>) st))"

definition tf_release_handle :: "nat \<Rightarrow> 'a tst \<Rightarrow> 'a tst" where
  "tf_release_handle h = upd_handle h (\<lambda>fp. fp\<lparr>tff_flags := tff_flags fp AND NOT TF_FLAG_OPEN\<rparr>)"

definition tf_get_open_handles :: "'a tst \<Rightarrow> u64" where
  "tf_get_open_handles st =
     foldl (\<lambda>r i. if tff_flags (tf_file_handles (fst st) ! i) AND TF_FLAG_OPEN \<noteq> 0 then push_bit 1 r OR 1 else push_bit 1 r)
       0 [0..<min TF_FILE_HANDLES 64]"

section \<open>Opening\<close>

text \<open>The handle set up from a directory entry: the next level of the path.\<close>

definition enter_entry :: "u8 list \<Rightarrow> TFFile \<Rightarrow> TFFile" where
  "enter_entry e fp =
     (let start = push_bit 16 (ucast (get16 e 20) :: u32) OR ucast (get16 e 26) in
      fp\<lparr>parentStartCluster := startCluster fp, startCluster := start, tff_attributes := e ! 11, currentCluster := start,
         currentClusterIdx := 0, tff_byte := 0, tff_pos := 0, tff_flags := TF_FLAG_OPEN,
         tff_size := if e ! 11 AND TF_ATTR_DIRECTORY \<noteq> 0 then 0xffffffff else get32 e 28\<rparr>)"

text \<open>\<^verbatim>\<open>tf_walk\<close>: the rest of the path behind the component it has entered, none at the end.\<close>

definition tf_walk :: "nat \<Rightarrow> cstr \<Rightarrow> TFFile \<Rightarrow> 'a tst \<Rightarrow> (cstr option \<times> TFFile \<times> 'a tst) result" where
  "tf_walk me filename fp st =
     (let name = (if cat0 filename = 47 then tl filename else filename) in
      if cat0 name = 0 then Inr (None, fp, st)
      else bindr (tf_find_file me name fp st) (\<lambda>(rc, fp1, st1).
        if rc \<noteq> 0 then Inr (None, fp1\<lparr>tff_flags := 0xff\<rparr>, st1)
        else bindr (read_entry me (junk_entry st1) fp1 st1) (\<lambda>(e, fp2, st2).
          let rest = dropWhile (\<lambda>c. c \<noteq> 47 \<and> c \<noteq> 0) name; next = (if cat0 rest = 47 then tl rest else rest) in
          Inr (if cat0 next = 0 then None else Some next, enter_entry e fp2, st2))))"

text \<open>The loop of \<^verbatim>\<open>tf_fnopen\<close>. Each round enters a component, so the rest of the path gets shorter.\<close>

fun tf_walk_loop :: "nat \<Rightarrow> nat \<Rightarrow> cstr \<Rightarrow> TFFile \<Rightarrow> 'a tst \<Rightarrow> (bool \<times> TFFile \<times> 'a tst) result" where
  "tf_walk_loop 0 me name fp st = Inl (Stuck ''tf_fnopen'')"
| "tf_walk_loop (Suc k) me name fp st =
     bindr (tf_walk me name fp st) (\<lambda>(rest, fp1, st1).
       if tff_flags fp1 = 0xff then Inr (False, fp1, st1)
       else case rest of None \<Rightarrow> Inr (True, fp1, st1) | Some n \<Rightarrow> tf_walk_loop k me n fp1 st1)"

definition root_file :: "TFFile \<Rightarrow> TFFile" where
  "root_file fp =
     fp\<lparr>currentCluster := 2, startCluster := 2, parentStartCluster := 0xffffffff, currentClusterIdx := 0, tff_byte := 0,
        tff_attributes := TF_ATTR_DIRECTORY, tff_pos := 0, tff_flags := tff_flags fp OR TF_FLAG_ROOT, tff_size := 0xffffffff,
        tff_mode := TF_MODE_READ OR TF_MODE_WRITE OR TF_MODE_OVERWRITE\<rparr>"

text \<open>The mode characters; the position of an \<^verbatim>\<open>a\<close> is sought first, a \<^verbatim>\<open>w\<close> cuts the file to its first cluster.\<close>

definition has_mode :: "u8 \<Rightarrow> u8 list \<Rightarrow> bool" where
  "has_mode c mode = (strchr mode c \<noteq> None)"

definition truncate_file :: "TFFile \<Rightarrow> 'a tst \<Rightarrow> (TFFile \<times> 'a tst) result" where
  "truncate_file fp st =
     (if tff_attributes fp AND TF_ATTR_DIRECTORY \<noteq> 0 then Inr (fp, st)
      else bindr (tf_unsafe_fseek (fp\<lparr>tff_size := 0\<rparr>) 0 0 st) (\<lambda>(rc, fp1, st1).
        bindr (tf_get_fat_entry (startCluster fp1) st1) (\<lambda>(c, st2).
          if c = TF_MARK_EOC32 then Inr (fp1, st2)
          else bindr (tf_free_clusterchain c st2) (\<lambda>(rc, st3).
            bindr (tf_set_fat_entry (startCluster fp1) TF_MARK_EOC32 st3) (\<lambda>(rc, st4). Inr (fp1, st4))))))"

definition apply_mode :: "u8 list \<Rightarrow> TFFile \<Rightarrow> 'a tst \<Rightarrow> (TFFile \<times> 'a tst) result" where
  "apply_mode mode fp st =
     (let fp1 = (if has_mode 114 mode then fp\<lparr>tff_mode := tff_mode fp OR TF_MODE_READ\<rparr> else fp) in
      bindr (if has_mode 97 mode
             then bindr (tf_unsafe_fseek fp1 (sint (tff_size fp1)) 0 st) (\<lambda>(rc, fp2, st2).
               Inr (fp2\<lparr>tff_mode := tff_mode fp2 OR TF_MODE_WRITE OR TF_MODE_OVERWRITE\<rparr>, st2))
             else Inr (fp1, st)) (\<lambda>(fp2, st2).
        let fp3 = (if has_mode 43 mode then fp2\<lparr>tff_mode := tff_mode fp2 OR TF_MODE_OVERWRITE OR TF_MODE_WRITE\<rparr> else fp2) in
        if has_mode 119 mode
        then bindr (truncate_file fp3 st2) (\<lambda>(fp4, st3). Inr (fp4\<lparr>tff_mode := tff_mode fp4 OR TF_MODE_WRITE\<rparr>, st3))
        else Inr (fp3, st2)))"

text \<open>\<^verbatim>\<open>tf_fnopen\<close>: \<open>n\<close> characters of the path go into an array of 256.\<close>

definition tf_fnopen :: "nat \<Rightarrow> cstr \<Rightarrow> u8 list \<Rightarrow> nat \<Rightarrow> 'a tst \<Rightarrow> (nat option \<times> 'a tst) result" where
  "tf_fnopen me filename mode n st =
     (case tf_get_free_handle st of
        (None, st1) \<Rightarrow> Inr (None, st1)
      | (Some h, st1) \<Rightarrow>
          if 255 < n then Inl (BadAccess ''myfile'')
          else
            let myfile = takeWhile (\<lambda>c. c \<noteq> 0) (take n filename) in
            bindr (on_handle (Some h) (\<lambda>fp st.
                     bindr (tf_walk_loop (Suc (length myfile)) me myfile (root_file fp) st) (\<lambda>(ok, fp1, st1).
                       if \<not> ok then Inr (False, fp1, st1)
                       else bindr (apply_mode mode fp1 st1) (\<lambda>(fp2, st2). Inr (True, fp2\<lparr>tff_name := myfile\<rparr>, st2)))) st1) (\<lambda>(ok, st2).
              if ok then Inr (Some h, st2) else Inr (None, tf_release_handle h st2)))"

text \<open>
  \<^verbatim>\<open>tf_parent\<close> opens the directory part with mode \<^verbatim>\<open>rw\<close> whatever mode it is given. All its callers pass 0 for \<^verbatim>\<open>mkParents\<close>,
  so that its recursion is never entered. A path without a slash makes the length a difference of unrelated pointers.
\<close>

definition mode_r :: "u8 list" where "mode_r = [114]"
definition mode_w :: "u8 list" where "mode_w = [119]"
definition mode_rw :: "u8 list" where "mode_rw = [114, 119]"
definition mode_plus :: "u8 list" where "mode_plus = [43]"

definition tf_parent :: "nat \<Rightarrow> cstr \<Rightarrow> 'a tst \<Rightarrow> (nat option \<times> 'a tst) result" where
  "tf_parent me filename st =
     (case strrchr filename 47 of
        None \<Rightarrow> (case tf_get_free_handle st of (None, st1) \<Rightarrow> Inr (None, st1) | (Some h, st1) \<Rightarrow> Inl (BadAccess ''myfile''))
      | Some n \<Rightarrow> tf_fnopen me filename mode_rw n st)"

definition last_part :: "cstr \<Rightarrow> cstr result" where
  "last_part filename = (case strrchr filename 47 of None \<Rightarrow> Inl (BadAccess ''strrchr'') | Some n \<Rightarrow> Inr (drop (Suc n) filename))"

section \<open>Flushing and closing\<close>

text \<open>
  \<^verbatim>\<open>tf_fflush\<close> writes the cached sector and, when the size of a plain file has changed, its directory entry; closing the parent
  flushes it in turn, with a path that is shorter by a component, so that the length of the path is fuel enough.
\<close>

fun tf_fflush :: "nat \<Rightarrow> nat \<Rightarrow> nat \<Rightarrow> 'a tst \<Rightarrow> (int \<times> 'a tst) result" where
  "tf_fflush 0 me h st = Inl (Stuck ''tf_fflush'')"
| "tf_fflush (Suc k) me h st =
     (let fp = tf_file_handles (fst st) ! h in
      if tff_flags fp AND TF_FLAG_DIRTY = 0 then Inr (0, st)
      else bindr (if sectorFlags (tf_info (fst st)) AND TF_FLAG_DIRTY \<noteq> 0 then tf_store st else Inr (0, st)) (\<lambda>(rc, st1).
        bindr (if tff_flags fp AND TF_FLAG_SIZECHANGED \<noteq> 0 then
                 bindr (if tff_attributes fp AND 0x10 \<noteq> 0 then Inr st1
                        else bindr (tf_parent me (tff_name fp) st1) (\<lambda>(d, st2).
                          bindr (last_part (tff_name fp)) (\<lambda>name.
                            bindr (on_handle d (tf_find_file me name) st2) (\<lambda>(r, st3).
                              bindr (on_handle d (read_entry me (junk_entry st3)) st3) (\<lambda>(e, st4).
                                bindr (on_handle d (\<lambda>f. tf_fseek f (- 32) (int (unat (tff_pos f)))) st4) (\<lambda>(r, st5).
                                  bindr (on_handle d (write_entry me (splice 28 (bytes32 (tff_size fp - 1)) e)) st5) (\<lambda>(r, st6).
                                    bindr (tf_fflush k me (the d) st6) (\<lambda>(r, st7). Inr (tf_release_handle (the d) st7)))))))))
                   (\<lambda>st8. Inr (upd_handle h (\<lambda>f. f\<lparr>tff_flags := tff_flags f AND NOT TF_FLAG_SIZECHANGED\<rparr>) st8))
               else Inr st1) (\<lambda>st9.
          Inr (rc, upd_handle h (\<lambda>f. f\<lparr>tff_flags := tff_flags f AND NOT TF_FLAG_DIRTY\<rparr>) st9))))"

definition tf_fclose :: "nat \<Rightarrow> nat option \<Rightarrow> 'a tst \<Rightarrow> (int \<times> 'a tst) result" where
  "tf_fclose me ho st =
     (case ho of None \<Rightarrow> Inl (BadAccess ''TFFile'')
      | Some h \<Rightarrow> bindr (tf_fflush (Suc (length (tff_name (tf_file_handles (fst st) ! h)))) me h st) (\<lambda>(rc, st1).
          Inr (rc, tf_release_handle h st1)))"

section \<open>Creating and removing\<close>

text \<open>The loop that reads entries up to the one whose first byte is 0; the entry it ends with is the result.\<close>

fun skip_entries :: "nat \<Rightarrow> nat \<Rightarrow> u8 list \<Rightarrow> TFFile \<Rightarrow> 'a tst \<Rightarrow> (u8 list \<times> TFFile \<times> 'a tst) result" where
  "skip_entries 0 me e fp st = Inl (Stuck ''directory without an end'')"
| "skip_entries (Suc k) me e fp st =
     bindr (read_entry me e fp st) (\<lambda>(e1, fp1, st1).
       if e1 ! 0 = 0 then Inr (e1, fp1, st1) else skip_entries k me e1 fp1 st1)"

text \<open>The fields both creations set; the byte \<^verbatim>\<open>reserved\<close> keeps what was read.\<close>

definition stamp_entry :: "u8 \<Rightarrow> u32 \<Rightarrow> u8 list \<Rightarrow> u8 list" where
  "stamp_entry attr cluster e =
     splice 13 ([0x25] @ bytes16 0x7e3c @ bytes16 0x4262 @ bytes16 0x4262 @ bytes16 (ucast (drop_bit 16 cluster AND 0xffff)) @
                bytes16 0x7e3c @ bytes16 0x4262 @ bytes16 (ucast (cluster AND 0xffff)) @ bytes32 0) (e[11 := attr])"

text \<open>
  A new entry at the end of a directory: the end is sought, a cluster taken and marked, a short name chosen, the long
  entries, the short entry and a new end are written.
\<close>

definition append_entry :: "nat \<Rightarrow> u8 \<Rightarrow> cstr \<Rightarrow> TFFile \<Rightarrow> 'a tst \<Rightarrow> (u8 list \<times> TFFile \<times> 'a tst) result" where
  "append_entry me attr filename fp st =
     bindr (skip_entries DIR_ROUNDS me (junk_entry st) fp st) (\<lambda>(e, fp1, st1).
       bindr (tf_fseek fp1 (- 32) (int (unat (tff_pos fp1))) st1) (\<lambda>(rc, fp2, st2).
         bindr (tf_find_free_cluster st2) (\<lambda>(cluster, st3).
           bindr (tf_set_fat_entry cluster TF_MARK_EOC32 st3) (\<lambda>(rc, st4).
             bindr (last_part filename) (\<lambda>temp.
               bindr (tf_choose_sfn me (stamp_entry attr cluster e) temp fp2 st4) (\<lambda>(entry, st5).
                 bindr (tf_place_lfn_chain me temp entry fp2 st5) (\<lambda>(fp3, st6).
                   bindr (write_entry me entry fp3 st6) (\<lambda>(r, fp4, st7).
                     bindr (write_entry me (replicate 32 0) fp4 st7) (\<lambda>(r, fp5, st8). Inr (entry, fp5, st8))))))))))"

definition tf_create :: "nat \<Rightarrow> cstr \<Rightarrow> 'a tst \<Rightarrow> (int \<times> 'a tst) result" where
  "tf_create me filename st =
     bindr (tf_parent me filename st) (\<lambda>(d, st1).
       if d = None then Inr (1, st1)
       else bindr (tf_fclose me d st1) (\<lambda>(rc, st2).
         bindr (tf_parent me filename st2) (\<lambda>(d, st3).
           bindr (on_handle d (append_entry me 0 filename) st3) (\<lambda>(e, st4).
             bindr (tf_fclose me d st4) (\<lambda>(rc, st5). Inr (0, st5))))))"

definition tf_fopen :: "nat \<Rightarrow> cstr \<Rightarrow> u8 list \<Rightarrow> 'a tst \<Rightarrow> (nat option \<times> 'a tst) result" where
  "tf_fopen me filename mode st =
     (if cat0 filename = 47 \<and> cat0 (drop 1 filename) = 46 \<and> cat0 (drop 2 filename) = 46 \<and> cat0 (drop 3 filename) = 47 then Inr (None, st)
      else
        let name = (if cat0 filename = 47 \<and> cat0 (drop 1 filename) = 46 then drop 2 filename else filename) in
        bindr (tf_fnopen me name mode (strlen name) st) (\<lambda>(h, st1).
          if h \<noteq> None then Inr (h, st1)
          else bindr (if has_mode 43 mode \<or> has_mode 119 mode \<or> has_mode 97 mode
                      then bindr (tf_create me name st1) (\<lambda>(rc, st2). Inr st2) else Inr st1) (\<lambda>st3.
            tf_fnopen me name mode (strlen name) st3)))"

text \<open>
  \<^verbatim>\<open>tf_mkdir\<close> (with 0 for \<^verbatim>\<open>mkParents\<close>, as in all calls). The entries \<^verbatim>\<open>.\<close> and \<^verbatim>\<open>..\<close> of the new directory are copies of its own
  entry under another name.
\<close>

definition dot_name :: "u8 list" where "dot_name = 46 # replicate 10 32"
definition dotdot_name :: "u8 list" where "dotdot_name = 46 # 46 # replicate 9 32"

definition write_dots :: "nat \<Rightarrow> u8 list \<Rightarrow> TFFile \<Rightarrow> 'a tst \<Rightarrow> (unit \<times> TFFile \<times> 'a tst) result" where
  "write_dots me entry fp st =
     bindr (write_entry me (splice 0 dot_name entry) fp st) (\<lambda>(r, fp1, st1).
       bindr (write_entry me (splice 0 dotdot_name entry) fp1 st1) (\<lambda>(r, fp2, st2).
         bindr (write_entry me (replicate 32 0) fp2 st2) (\<lambda>(r, fp3, st3). Inr ((), fp3, st3))))"

definition tf_mkdir :: "nat \<Rightarrow> cstr \<Rightarrow> 'a tst \<Rightarrow> (int \<times> 'a tst) result" where
  "tf_mkdir me path st =
     (let filename = (if cat0 path = 47 \<and> cat0 (drop 1 path) = 46 \<and> cat0 (drop 2 path) = 47 then drop 2 path else path) in
      if cat0 filename = 47 \<and> cat0 (drop 1 filename) = 46 \<and> cat0 (drop 2 filename) = 46 \<and> cat0 (drop 3 filename) = 47 then Inr (0, st)
      else
        let orig_fn = take 255 (takeWhile (\<lambda>c. c \<noteq> 0) filename) in
        bindr (tf_fopen me filename mode_r st) (\<lambda>(h, st1).
          if h \<noteq> None then bindr (tf_fclose me h st1) (\<lambda>(rc, st2). Inr (1, tf_release_handle (the h) st2))
          else bindr (tf_parent me filename st1) (\<lambda>(d, st2).
            if d = None then Inr (1, st2)
            else bindr (on_handle d (append_entry me TF_ATTR_DIRECTORY filename) st2) (\<lambda>(entry, st3).
              bindr (tf_fclose me d st3) (\<lambda>(rc, st4).
                bindr (tf_fopen me orig_fn mode_w (tf_release_handle (the d) st4)) (\<lambda>(n, st5).
                  bindr (on_handle n (write_dots me entry) st5) (\<lambda>(u, st6).
                    bindr (tf_fclose me n st6) (\<lambda>(rc, st7). Inr (0, tf_release_handle (the n) st7)))))))))"

text \<open>
  The loop of \<^verbatim>\<open>tf_remove\<close>: seek over an entry, read the next, go three entries back and write it. The position after a round
  is the one before it.
\<close>

fun remove_loop :: "nat \<Rightarrow> nat \<Rightarrow> u8 list \<Rightarrow> TFFile \<Rightarrow> 'a tst \<Rightarrow> (unit \<times> TFFile \<times> 'a tst) result" where
  "remove_loop 0 me e fp st = Inl (Stuck ''tf_remove'')"
| "remove_loop (Suc k) me e fp st =
     bindr (tf_fseek fp 32 (int (unat (tff_pos fp))) st) (\<lambda>(rc, fp1, st1).
       if rc \<noteq> 0 then Inr ((), fp1, st1)
       else bindr (read_entry me e fp1 st1) (\<lambda>(e1, fp2, st2).
         bindr (tf_fseek fp2 (- 96) (int (unat (tff_pos fp2))) st2) (\<lambda>(rc, fp3, st3).
           bindr (write_entry me e1 fp3 st3) (\<lambda>(r, fp4, st4).
             if e1 ! 0 = 0 then Inr ((), fp4, st4) else remove_loop k me e1 fp4 st4))))"

definition tf_remove :: "nat \<Rightarrow> cstr \<Rightarrow> 'a tst \<Rightarrow> (int \<times> 'a tst) result" where
  "tf_remove me filename st =
     bindr (tf_fopen me filename mode_r st) (\<lambda>(h, st1).
       case h of None \<Rightarrow> Inr (- 1, st1)
       | Some i \<Rightarrow>
           let start = startCluster (tf_file_handles (fst st1) ! i) in
           bindr (tf_fclose me h st1) (\<lambda>(rc, st2).
             bindr (tf_parent me filename st2) (\<lambda>(d, st3).
               bindr (last_part filename) (\<lambda>name.
                 bindr (on_handle d (\<lambda>fp st.
                          bindr (tf_find_file me name fp st) (\<lambda>(rc, fp1, st1).
                            if rc \<noteq> 0 then Inr ((), fp1, st1)
                            else bindr (remove_loop DIR_ROUNDS me (junk_entry st1) fp1 st1) (\<lambda>(u, fp2, st2).
                              Inr ((), fp2\<lparr>tff_size := tff_size fp2 - 32, tff_flags := tff_flags fp2 OR TF_FLAG_SIZECHANGED\<rparr>, st2)))) st3) (\<lambda>(u, st4).
                   bindr (tf_fclose me d st4) (\<lambda>(rc, st5).
                     bindr (tf_free_clusterchain start st5) (\<lambda>(rc, st6). Inr (0, st6))))))))"

definition tf_fputs :: "nat \<Rightarrow> cstr \<Rightarrow> TFFile \<Rightarrow> 'a tst \<Rightarrow> (int \<times> TFFile \<times> 'a tst) result" where
  "tf_fputs me src fp st = tf_fwrite me (FromObject src) (int (strlen src)) fp st"

section \<open>Mounting a volume\<close>

text \<open>The checks of the boot sector.\<close>

definition boot_sector_ok :: "u8 list \<Rightarrow> bool" where
  "boot_sector_ok b \<longleftrightarrow>
     (b ! 0 = 0xEB \<and> b ! 2 = 0x90 \<or> b ! 0 = 0xE9) \<and> get16 b 11 = 512 \<and> get16 b 14 \<noteq> 0 \<and> (b ! 21 = 0xF0 \<or> 0xF8 \<le> b ! 21)"

definition read_geometry :: "u8 list \<Rightarrow> TFInfo \<Rightarrow> TFInfo" where
  "read_geometry b i =
     (let fat_size = (if get16 b 22 \<noteq> 0 then ucast (get16 b 22) else get32 b 36) :: u32;
          root_dir_sectors = ((ucast (get16 b 17) * 32) + (ucast (get16 b 11) - 1)) div 512 :: u32
      in i\<lparr>totalSectors := if get16 b 19 \<noteq> 0 then ucast (get16 b 19) else get32 b 32,
           sectorsPerCluster := b ! 13, reservedSectors := get16 b 14,
           firstDataSector := ucast (get16 b 14) + ucast (b ! 16) * fat_size + root_dir_sectors,
           ti_type := 1, rootDirectorySize := 0xffffffff\<rparr>)"

definition zero_handle :: TFFile where
  "zero_handle =
     \<lparr>parentStartCluster = 0, startCluster = 0, currentClusterIdx = 0, currentCluster = 0, tff_byte = 0, tff_pos = 0, tff_flags = 0,
      tff_attributes = 0, tff_mode = 0, tff_size = 0, tff_name = []\<rparr>"

text \<open>The number of entries read is counted by the loop, in units of their size.\<close>

fun count_entries :: "nat \<Rightarrow> nat \<Rightarrow> u32 \<Rightarrow> u8 list \<Rightarrow> TFFile \<Rightarrow> 'a tst \<Rightarrow> (u32 \<times> TFFile \<times> 'a tst) result" where
  "count_entries 0 me temp e fp st = Inl (Stuck ''directory without an end'')"
| "count_entries (Suc k) me temp e fp st =
     bindr (read_entry me e fp st) (\<lambda>(e1, fp1, st1).
       if e1 ! 0 = 0 then Inr (temp + 32, fp1, st1) else count_entries k me (temp + 32) e1 fp1 st1)"

definition tf_init :: "nat \<Rightarrow> 'a tst \<Rightarrow> (int \<times> 'a tst) result" where
  "tf_init me st0 =
     bindr (tf_fetch 0 (upd_info (\<lambda>i. i\<lparr>currentSector := - 1, sectorFlags := 0\<rparr>) st0)) (\<lambda>(rc, st).
       let b = ti_buffer (tf_info (fst st)) in
       if \<not> boot_sector_ok b then Inr (TF_ERR_BAD_FS_TYPE, st)
       else if b ! 13 = 0 then Inl (BadAccess ''division by zero'')
       else bindr (tf_fopen me [47] mode_r (upd_info (read_geometry b) st)) (\<lambda>(h, st1).
         bindr (on_handle h (\<lambda>fp st. count_entries DIR_ROUNDS me 0 (junk_entry st) fp st) st1) (\<lambda>(n, st2).
           bindr (tf_fclose me h st2) (\<lambda>(rc, st3).
             let (t, s) = upd_info (\<lambda>i. i\<lparr>rootDirectorySize := n\<rparr>) st3;
                 st4 = (t\<lparr>tf_file_handles := replicate TF_FILE_HANDLES zero_handle\<rparr>, s)
             in bindr (tf_fclose me h st4) (\<lambda>(rc, st5). Inr (0, tf_release_handle (the h) st5))))))"

end
