(* ===== verification/ThinFatVol.thy ===== *)
theory ThinFatVol
  imports ThinFat
begin

unbundle bit_operations_syntax

text \<open>
  What the older FAT file system does to its volume: the one cached sector is invisible, reading and setting entries of the
  allocation table are operations on a table, the searches for a free cluster return the first one, and freeing a chain
  frees two of its clusters.
\<close>

section \<open>The cached sector is invisible\<close>

definition VOL_SECTORS :: u32 where "VOL_SECTORS = 0x3fffff"

definition vol_dev :: "'a tst \<Rightarrow> rwdev option" where
  "vol_dev st = (if tf_dev (fst st) < length (rw_devs (snd st)) then rw_devs (snd st) ! tf_dev (fst st) else None)"

definition vol_sector :: "'a tst \<Rightarrow> u32 \<Rightarrow> u8 list" where
  "vol_sector st k =
     (if k = currentSector (tf_info (fst st)) then ti_buffer (tf_info (fst st)) else rw_sector (the (vol_dev st)) (unat k))"

definition dirty :: "'a tst \<Rightarrow> bool" where
  "dirty st \<longleftrightarrow> sectorFlags (tf_info (fst st)) AND TF_FLAG_DIRTY \<noteq> 0"

definition vol_ok :: "'a tst \<Rightarrow> bool" where
  "vol_ok st \<longleftrightarrow>
     (\<exists>d. vol_dev st = Some d \<and> (\<forall>k. length (rw_sector d k) = 512) \<and> length (ti_buffer (tf_info (fst st))) = 512 \<and>
       (dirty st \<longrightarrow> currentSector (tf_info (fst st)) < VOL_SECTORS) \<and>
       (\<not> dirty st \<and> currentSector (tf_info (fst st)) < VOL_SECTORS
          \<longrightarrow> ti_buffer (tf_info (fst st)) = rw_sector d (unat (currentSector (tf_info (fst st))))))"

definition geometry :: "TFInfo \<Rightarrow> u8 \<times> u8 \<times> u32 \<times> u32 \<times> u16 \<times> u32" where
  "geometry i = (ti_type i, sectorsPerCluster i, firstDataSector i, totalSectors i, reservedSectors i, rootDirectorySize i)"

definition vol_frame :: "'a tst \<Rightarrow> 'a tst \<Rightarrow> bool" where
  "vol_frame st st' \<longleftrightarrow>
     geometry (tf_info (fst st')) = geometry (tf_info (fst st)) \<and> tf_dev (fst st') = tf_dev (fst st) \<and>
     tf_file_handles (fst st') = tf_file_handles (fst st) \<and>
     (\<exists>x. snd st' = (snd st)\<lparr>rw_devs := (rw_devs (snd st))[tf_dev (fst st) := x]\<rparr>)"

lemma vol_frame_refl [simp]: "vol_frame st st"
  by (auto simp: vol_frame_def intro: exI [of _ "rw_devs (snd st) ! tf_dev (fst st)"])

lemma vol_frame_trans: "vol_frame a b \<Longrightarrow> vol_frame b c \<Longrightarrow> vol_frame a c"
  by (auto simp: vol_frame_def)

lemma sector_offset:
  assumes "k < VOL_SECTORS"
  shows "unat (k * 512) = unat k * 512" and "unat k * 512 + 512 < 2 ^ 31"
proof -
  have u: "unat k < 0x3fffff" using assms by (simp add: word_less_nat_alt VOL_SECTORS_def)
  then show "unat (k * 512) = unat k * 512" by (subst unat_mult_lem [THEN iffD1]) simp_all
  show "unat k * 512 + 512 < 2 ^ 31" using u by simp
qed

lemma disk_read_sector:
  assumes "k < VOL_SECTORS"
  shows "disk_read d (unat (k * 512)) 512 = Inr (512, rw_sector d (unat k))"
  using sector_offset [OF assms] by (simp add: disk_read_def)

lemma disk_write_sector:
  assumes "k < VOL_SECTORS" and "length bs = 512"
  shows "disk_write d (unat (k * 512)) bs = Inr (512, d\<lparr>rw_sector := (rw_sector d)(unat k := bs)\<rparr>)"
proof -
  have "(\<lambda>j. if unat k \<le> j \<and> j < Suc (unat k) then take 512 (drop ((j - unat k) * 512) bs) else rw_sector d j) = (rw_sector d)(unat k := bs)"
    using assms(2) by (auto simp: fun_eq_iff)
  then show ?thesis using sector_offset [OF assms(1)] assms(2) by (simp add: disk_write_def cong: if_cong)
qed

lemma read_sector_ok:
  assumes "vol_dev (t, s) = Some d" and "k < VOL_SECTORS"
  shows "read_sector (tf_dev t) k s = Inr (0, rw_sector d (unat k))"
  using assms disk_read_sector [OF assms(2)] by (simp add: read_sector_def RwDevRead_def vol_dev_def split: if_splits)

lemma write_sector_ok:
  assumes "vol_dev (t, s) = Some d" and "k < VOL_SECTORS" and "length bs = 512"
  shows "write_sector (tf_dev t) bs k s = Inr (0, s\<lparr>rw_devs := (rw_devs s)[tf_dev t := Some (d\<lparr>rw_sector := (rw_sector d)(unat k := bs)\<rparr>)]\<rparr>)"
  using assms disk_write_sector [OF assms(2,3)] by (simp add: write_sector_def RwDevWrite_def vol_dev_def split: if_splits)

lemma tf_store_ok:
  assumes ok: "vol_ok st" and d: "dirty st"
  obtains st' where "tf_store st = Inr (0, st')" and "vol_ok st'" and "\<not> dirty st'" and "vol_frame st st'"
    and "\<And>k. vol_sector st' k = vol_sector st k" and "currentSector (tf_info (fst st')) = currentSector (tf_info (fst st))"
proof -
  obtain t s where st: "st = (t, s)" by (cases st)
  obtain d where dev: "vol_dev (t, s) = Some d" "\<forall>k. length (rw_sector d k) = 512" and b: "length (ti_buffer (tf_info t)) = 512"
    and c: "currentSector (tf_info t) < VOL_SECTORS" using ok d by (auto simp: vol_ok_def st)
  let ?i = "(tf_info t)\<lparr>sectorFlags := sectorFlags (tf_info t) AND NOT TF_FLAG_DIRTY\<rparr>"
  let ?d = "d\<lparr>rw_sector := (rw_sector d)(unat (currentSector (tf_info t)) := ti_buffer (tf_info t))\<rparr>"
  let ?st = "(t\<lparr>tf_info := ?i\<rparr>, s\<lparr>rw_devs := (rw_devs s)[tf_dev t := Some ?d]\<rparr>)"
  have l: "tf_dev t < length (rw_devs s)" using dev(1) by (simp add: vol_dev_def split: if_splits)
  have "vol_dev (t\<lparr>tf_info := ?i\<rparr>, s) = Some d" using dev(1) by (simp add: vol_dev_def split: if_splits)
  from write_sector_ok [OF this c b] have s: "tf_store st = Inr (0, ?st)"
    by (simp add: tf_store_def upd_info_def st)
  have dev': "vol_dev ?st = Some ?d" using l by (simp add: vol_dev_def)
  have nd: "\<not> dirty ?st" by (auto simp: dirty_def bit_eq_iff bit_simps)
  have "vol_ok ?st" using dev' nd dev(2) b by (simp add: vol_ok_def)
  moreover have "vol_frame st ?st" by (auto simp: vol_frame_def st geometry_def)
  moreover have "vol_sector ?st k = vol_sector st k" for k
    using dev(1) dev' by (simp add: vol_sector_def st word_unat_eq_iff)
  ultimately show thesis using s nd by (intro that [of ?st]) (simp_all add: st)
qed

lemma tf_fetch_ok:
  assumes ok: "vol_ok st" and k: "k < VOL_SECTORS"
  obtains st' where "tf_fetch k st = Inr (0, st')" and "vol_ok st'" and "vol_frame st st'"
    and "\<And>j. j < VOL_SECTORS \<Longrightarrow> vol_sector st' j = vol_sector st j" and "currentSector (tf_info (fst st')) = k"
proof (cases "k = currentSector (tf_info (fst st))")
  case True
  then show ?thesis using ok by (intro that [of st]) (simp_all add: tf_fetch_def)
next
  case False
  obtain st1 where s1: "(if sectorFlags (tf_info (fst st)) AND TF_FLAG_DIRTY \<noteq> 0 then tf_store st else Inr (0, st)) = Inr (0, st1)"
    and ok1: "vol_ok st1" and nd: "\<not> dirty st1" and f1: "vol_frame st st1" and v1: "\<And>k. vol_sector st1 k = vol_sector st k"
  proof (cases "dirty st")
    case True
    from tf_store_ok [OF ok this] show ?thesis using that True by (auto simp: dirty_def)
  next
    case False
    then show ?thesis using that [of st] ok by (simp add: dirty_def)
  qed
  obtain t s where st1: "st1 = (t, s)" by (cases st1)
  obtain d where d: "vol_dev (t, s) = Some d" "\<forall>k. length (rw_sector d k) = 512"
    and clean: "currentSector (tf_info t) < VOL_SECTORS \<Longrightarrow> ti_buffer (tf_info t) = rw_sector d (unat (currentSector (tf_info t)))"
    using ok1 nd by (auto simp: vol_ok_def st1)
  let ?st = "(t\<lparr>tf_info := (tf_info t)\<lparr>ti_buffer := rw_sector d (unat k), currentSector := k\<rparr>\<rparr>, s)"
  have "tf_fetch k st = Inr (0, ?st)"
    using False read_sector_ok [OF d(1) k] by (simp add: tf_fetch_def s1 st1 upd_info_def)
  moreover have "vol_ok ?st" using nd d k by (simp add: vol_ok_def vol_dev_def dirty_def st1 split: if_splits)
  moreover have "vol_sector ?st j = vol_sector st j" if "j < VOL_SECTORS" for j
  proof -
    have "vol_sector ?st j = vol_sector st1 j" using d(1) clean that by (auto simp: vol_sector_def vol_dev_def st1 split: if_splits)
    then show ?thesis using v1 by simp
  qed
  moreover have "vol_frame st ?st" using vol_frame_trans [OF f1, of ?st] by (simp add: vol_frame_def geometry_def st1
      exI [of _ "rw_devs s ! tf_dev t"])
  ultimately show ?thesis by (intro that [of ?st]) simp_all
qed


section \<open>Entries of the allocation table\<close>

definition fat_of :: "'a tst \<Rightarrow> u32 \<Rightarrow> u32" where
  "fat_of st c = get32 (vol_sector st (fat_sector (tf_info (fst st)) c)) (fat_offset c)"

text \<open>The clusters whose entry is on the volume, in a table that does not run over the first gigabyte of sectors.\<close>

definition fat_range :: "TFInfo \<Rightarrow> u32 \<Rightarrow> bool" where
  "fat_range i c \<longleftrightarrow> unat c < 2 ^ 28 \<and> fat_sector i c < VOL_SECTORS"

lemma fat_sector_frame: "vol_frame st st' \<Longrightarrow> fat_sector (tf_info (fst st')) c = fat_sector (tf_info (fst st)) c"
  by (simp add: vol_frame_def geometry_def fat_sector_def)

lemma fat_range_frame: "vol_frame st st' \<Longrightarrow> fat_range (tf_info (fst st')) c = fat_range (tf_info (fst st)) c"
  by (simp add: fat_range_def fat_sector_frame)

lemma fat_of_frame:
  assumes "vol_frame st st'" and "\<And>j. j < VOL_SECTORS \<Longrightarrow> vol_sector st' j = vol_sector st j" and "fat_range (tf_info (fst st)) c"
  shows "fat_of st' c = fat_of st c"
  using assms by (simp add: fat_of_def fat_sector_frame fat_range_def)

lemma fat_offset_nat:
  assumes "unat c < 2 ^ 28"
  shows "fat_offset c = (unat c mod 128) * 4" and "unat (c * 4 div 512) = unat c div 128"
proof -
  have m: "unat (c * 4) = unat c * 4" using assms by (subst unat_mult_lem [THEN iffD1]) simp_all
  have "unat c * 4 mod 512 = (unat c mod 128) * 4" using mod_mult_mult2 [of "unat c" 4 128] by simp
  with m show "fat_offset c = (unat c mod 128) * 4" by (simp add: fat_offset_def unat_mod)
  show "unat (c * 4 div 512) = unat c div 128" using m by (simp add: unat_div)
qed

lemma fat_offset_bound: "unat c < 2 ^ 28 \<Longrightarrow> fat_offset c + 4 \<le> 512"
  using mod_less_divisor [of 128 "unat c"] by (simp add: fat_offset_nat(1))

text \<open>Two entries of one sector do not overlap.\<close>

lemma fat_slots_apart:
  assumes "unat c < 2 ^ 28" and "unat c' < 2 ^ 28" and "c \<noteq> c'" and "fat_sector i c = fat_sector i c'"
  shows "fat_offset c' + 4 \<le> fat_offset c \<or> fat_offset c + 4 \<le> fat_offset c'"
proof -
  have "unat c div 128 = unat c' div 128"
    using assms(4) fat_offset_nat(2) [OF assms(1)] fat_offset_nat(2) [OF assms(2)] by (simp add: fat_sector_def)
  moreover have "unat c \<noteq> unat c'" using assms(3) by (simp add: word_unat_eq_iff)
  ultimately have "unat c mod 128 \<noteq> unat c' mod 128" by (metis div_mult_mod_eq)
  then show ?thesis using fat_offset_nat(1) [OF assms(1)] fat_offset_nat(1) [OF assms(2)] by linarith
qed

lemma get32_splice_same: "off + 4 \<le> length bs \<Longrightarrow> get32 (splice off (bytes32 v) bs) off = v"
  using get32_bytes32 [of v] by (simp add: get32_def splice_nth numeral_2_eq_2)

lemma get32_splice_other:
  "off + 4 \<le> length bs \<Longrightarrow> off' + 4 \<le> off \<or> off + 4 \<le> off' \<Longrightarrow> off' + 4 \<le> length bs
     \<Longrightarrow> get32 (splice off (bytes32 v) bs) off' = get32 bs off'"
  by (auto simp: get32_def splice_nth)

lemma bytes32_join:
  "bytes32 (ucast a OR push_bit 8 (ucast b) OR push_bit 16 (ucast c) OR push_bit 24 (ucast d)) = [a, b, c, d]"
  by (auto simp: bytes32_def bit_eq_iff [where 'a = "8 word"] bit_simps dest: bit_imp_le_length)

lemma bytes32_get32: "bytes32 (get32 bs off) = [bs ! off, bs ! (off + 1), bs ! (off + 2), bs ! (off + 3)]"
  unfolding get32_def by (rule bytes32_join)

lemma splice_get32: "off + 4 \<le> length bs \<Longrightarrow> splice off (bytes32 (get32 bs off)) bs = bs"
  unfolding bytes32_get32 by (intro nth_equalityI) (auto simp: splice_nth nth_Cons' less_Suc_eq numeral_eq_Suc)

lemma tf_get_fat_entry_ok:
  assumes ok: "vol_ok st" and c: "fat_range (tf_info (fst st)) c"
  obtains st' where "tf_get_fat_entry c st = Inr (fat_of st c, st')" and "vol_ok st'" and "vol_frame st st'"
    and "\<And>j. j < VOL_SECTORS \<Longrightarrow> vol_sector st' j = vol_sector st j"
proof -
  have k: "fat_sector (tf_info (fst st)) c < VOL_SECTORS" using c by (simp add: fat_range_def)
  from tf_fetch_ok [OF ok k] obtain st' where f: "tf_fetch (fat_sector (tf_info (fst st)) c) st = Inr (0, st')" "vol_ok st'" "vol_frame st st'"
    and v: "\<And>j. j < VOL_SECTORS \<Longrightarrow> vol_sector st' j = vol_sector st j"
    and cur: "currentSector (tf_info (fst st')) = fat_sector (tf_info (fst st)) c" by blast
  have "ti_buffer (tf_info (fst st')) = vol_sector st (fat_sector (tf_info (fst st)) c)"
    using v [OF k] cur by (simp add: vol_sector_def)
  then show thesis using f v by (intro that [of st']) (simp_all add: tf_get_fat_entry_def fat_of_def)
qed


text \<open>The logical volume with one entry of its table changed.\<close>

lemma tf_set_fat_entry_ok:
  assumes ok: "vol_ok st" and c: "fat_range (tf_info (fst st)) c"
  obtains st' where "tf_set_fat_entry c v st = Inr (0, st')" and "vol_ok st'" and "vol_frame st st'"
    and "\<And>j. j < VOL_SECTORS \<Longrightarrow> vol_sector st' j =
      (if j = fat_sector (tf_info (fst st)) c then splice (fat_offset c) (bytes32 v) (vol_sector st j) else vol_sector st j)"
proof -
  let ?k = "fat_sector (tf_info (fst st)) c"
  have k: "?k < VOL_SECTORS" and o: "fat_offset c + 4 \<le> 512" using c fat_offset_bound by (simp_all add: fat_range_def)
  from tf_fetch_ok [OF ok k] obtain st1 where f: "tf_fetch ?k st = Inr (0, st1)" and ok1: "vol_ok st1" and fr: "vol_frame st st1"
    and v: "\<And>j. j < VOL_SECTORS \<Longrightarrow> vol_sector st1 j = vol_sector st j"
    and cur: "currentSector (tf_info (fst st1)) = ?k" by blast
  have b: "ti_buffer (tf_info (fst st1)) = vol_sector st ?k" using v [OF k] cur by (simp add: vol_sector_def)
  have l: "length (ti_buffer (tf_info (fst st1))) = 512" using ok1 by (auto simp: vol_ok_def)
  show thesis
  proof (cases "get32 (ti_buffer (tf_info (fst st1))) (fat_offset c) = v")
    case True
    then have "splice (fat_offset c) (bytes32 v) (ti_buffer (tf_info (fst st1))) = ti_buffer (tf_info (fst st1))"
      using splice_get32 [of "fat_offset c" "ti_buffer (tf_info (fst st1))"] o l by simp
    then show ?thesis using True f ok1 fr v b by (intro that [of st1]) (auto simp: tf_set_fat_entry_def)
  next
    case False
    let ?g = "\<lambda>i. i\<lparr>sectorFlags := sectorFlags i OR TF_FLAG_DIRTY, ti_buffer := splice (fat_offset c) (bytes32 v) (ti_buffer i)\<rparr>"
    have d: "dirty (upd_info ?g st1)" 
      by (auto simp: dirty_def upd_info_def TF_FLAG_DIRTY_def bit_eq_iff [where 'a = "8 word"] bit_simps intro: exI [of _ 0])
    have dev: "vol_dev (upd_info ?g st1) = vol_dev st1" by (simp add: vol_dev_def upd_info_def)
    have "tf_set_fat_entry c v st = Inr (0, upd_info ?g st1)" using False f by (simp add: tf_set_fat_entry_def)
    moreover have "vol_ok (upd_info ?g st1)" using ok1 d dev o l cur k by (auto simp: vol_ok_def upd_info_def)
    moreover have "vol_frame st (upd_info ?g st1)"
      using fr by (auto simp: vol_frame_def geometry_def upd_info_def)
    moreover have "vol_sector (upd_info ?g st1) j =
      (if j = ?k then splice (fat_offset c) (bytes32 v) (vol_sector st j) else vol_sector st j)" if "j < VOL_SECTORS" for j
      using v [OF that] b cur dev by (auto simp: vol_sector_def upd_info_def)
    ultimately show ?thesis by (intro that [of "upd_info ?g st1"]) auto
  qed
qed

lemma fat_of_set:
  assumes ok: "vol_ok st" and c: "fat_range (tf_info (fst st)) c"
  obtains st' where "tf_set_fat_entry c v st = Inr (0, st')" and "vol_ok st'" and "vol_frame st st'"
    and "\<And>c'. fat_range (tf_info (fst st)) c' \<Longrightarrow> fat_of st' c' = (if c' = c then v else fat_of st c')"
proof -
  from tf_set_fat_entry_ok [OF ok c, of v] obtain st' where s: "tf_set_fat_entry c v st = Inr (0, st')" "vol_ok st'" "vol_frame st st'"
    and v: "\<And>j. j < VOL_SECTORS \<Longrightarrow> vol_sector st' j =
      (if j = fat_sector (tf_info (fst st)) c then splice (fat_offset c) (bytes32 v) (vol_sector st j) else vol_sector st j)" by blast
  have "fat_of st' c' = (if c' = c then v else fat_of st c')" if r: "fat_range (tf_info (fst st)) c'" for c'
  proof -
    have l: "length (vol_sector st j) = 512" for j using ok by (auto simp: vol_ok_def vol_sector_def)
    have k: "fat_sector (tf_info (fst st)) c' < VOL_SECTORS" and b: "unat c < 2 ^ 28" "unat c' < 2 ^ 28" using r c by (auto simp: fat_range_def)
    note o = fat_offset_bound [OF b(1)] fat_offset_bound [OF b(2)]
    have e: "fat_of st' c' = get32 (vol_sector st' (fat_sector (tf_info (fst st)) c')) (fat_offset c')"
      using s(3) by (simp add: fat_of_def fat_sector_frame)
    show ?thesis
    proof (cases "c' = c \<or> fat_sector (tf_info (fst st)) c' \<noteq> fat_sector (tf_info (fst st)) c")
      case True
      then show ?thesis using e v [OF k] o l get32_splice_same [of "fat_offset c" "vol_sector st (fat_sector (tf_info (fst st)) c)" v]
        by (auto simp: fat_of_def)
    next
      case False
      then have "get32 (splice (fat_offset c) (bytes32 v) (vol_sector st (fat_sector (tf_info (fst st)) c))) (fat_offset c') =
          get32 (vol_sector st (fat_sector (tf_info (fst st)) c)) (fat_offset c')"
        using fat_slots_apart [OF b, of "tf_info (fst st)"] o l by (intro get32_splice_other) auto
      then show ?thesis using False e v [OF k] by (simp add: fat_of_def)
    qed
  qed
  then show thesis using s by (intro that [of st']) auto
qed

text \<open>
  The interface of an allocation table: reading and setting entries through a state, with what they promise about the table
  the state stands for. What follows for sequences of calls is proved from these laws alone.
\<close>

locale cluster_table =
  fixes get_entry :: "'c \<Rightarrow> 's \<Rightarrow> ('v \<times> 's) result"
    and set_entry :: "'c \<Rightarrow> 'v \<Rightarrow> 's \<Rightarrow> (int \<times> 's) result"
    and table :: "'s \<Rightarrow> 'c \<Rightarrow> 'v"
    and ok :: "'s \<Rightarrow> bool"
    and covers :: "'s \<Rightarrow> 'c \<Rightarrow> bool"
  assumes get_law: "ok s \<Longrightarrow> covers s c \<Longrightarrow>
      \<exists>s'. get_entry c s = Inr (table s c, s') \<and> ok s' \<and> covers s' = covers s \<and> (\<forall>d. covers s d \<longrightarrow> table s' d = table s d)"
    and set_law: "ok s \<Longrightarrow> covers s c \<Longrightarrow>
      \<exists>s'. set_entry c v s = Inr (0, s') \<and> ok s' \<and> covers s' = covers s \<and>
        (\<forall>d. covers s d \<longrightarrow> table s' d = (if d = c then v else table s d))"
begin

text \<open>A sequence of assignments.\<close>

primrec set_all :: "('c \<times> 'v) list \<Rightarrow> 's \<Rightarrow> 's result" where
  "set_all [] s = Inr s"
| "set_all (cv # cvs) s = bindr (set_entry (fst cv) (snd cv) s) (\<lambda>(rc, s1). set_all cvs s1)"

lemma set_all_table:
  assumes "ok s" and "\<forall>(c, v) \<in> set cvs. covers s c"
  shows "\<exists>s'. set_all cvs s = Inr s' \<and> ok s' \<and> covers s' = covers s \<and>
    (\<forall>d. covers s d \<longrightarrow> table s' d = (case map_of (rev cvs) d of None \<Rightarrow> table s d | Some v \<Rightarrow> v))"
  using assms
proof (induction cvs arbitrary: s)
  case (Cons cv cvs)
  obtain c v where cv: "cv = (c, v)" by (cases cv)
  from set_law [of s c v] Cons.prems obtain s1 where s1: "set_entry c v s = Inr (0, s1)" "ok s1" "covers s1 = covers s"
    "\<forall>d. covers s d \<longrightarrow> table s1 d = (if d = c then v else table s d)" by (auto simp: cv)
  from Cons.IH [of s1] Cons.prems s1 obtain s2 where "set_all cvs s1 = Inr s2" "ok s2" "covers s2 = covers s"
    "\<forall>d. covers s d \<longrightarrow> table s2 d = (case map_of (rev cvs) d of None \<Rightarrow> table s1 d | Some v \<Rightarrow> v)" by auto
  then show ?case using s1 by (auto simp: cv map_add_def split: option.splits)
qed simp

lemma get_after_sets:
  assumes "ok s" and "\<forall>(c, v) \<in> set cvs. covers s c" and "covers s d"
  shows "\<exists>s1 s2. set_all cvs s = Inr s1 \<and> get_entry d s1 = Inr (case map_of (rev cvs) d of None \<Rightarrow> table s d | Some v \<Rightarrow> v, s2)"
proof -
  from set_all_table [OF assms(1,2)] obtain s1 where s1: "set_all cvs s = Inr s1" "ok s1" "covers s1 = covers s"
    "table s1 d = (case map_of (rev cvs) d of None \<Rightarrow> table s d | Some v \<Rightarrow> v)" using assms(3) by auto
  with get_law [of s1 d] assms(3) show ?thesis by auto
qed

end

interpretation fat_tab: cluster_table tf_get_fat_entry tf_set_fat_entry fat_of vol_ok "\<lambda>st. fat_range (tf_info (fst st))"
proof
  fix st :: "'a tst" and c
  assume "vol_ok st" "fat_range (tf_info (fst st)) c"
  then show "\<exists>st'. tf_get_fat_entry c st = Inr (fat_of st c, st') \<and> vol_ok st' \<and> fat_range (tf_info (fst st')) = fat_range (tf_info (fst st)) \<and>
      (\<forall>d. fat_range (tf_info (fst st)) d \<longrightarrow> fat_of st' d = fat_of st d)"
    by (rule tf_get_fat_entry_ok) (use fat_of_frame fat_range_frame in blast)
next
  fix st :: "'a tst" and c v
  assume "vol_ok st" "fat_range (tf_info (fst st)) c"
  then show "\<exists>st'. tf_set_fat_entry c v st = Inr (0, st') \<and> vol_ok st' \<and> fat_range (tf_info (fst st')) = fat_range (tf_info (fst st)) \<and>
      (\<forall>d. fat_range (tf_info (fst st)) d \<longrightarrow> fat_of st' d = (if d = c then v else fat_of st d))"
    by (rule fat_of_set [where v = v]) (use fat_range_frame in blast)
qed

section \<open>Free clusters\<close>

lemma word_step:
  fixes i n :: u32
  assumes "i < n"
  shows "i + 1 \<le> n" and "i \<le> d \<longleftrightarrow> d = i \<or> i + 1 \<le> d"
proof -
  have "unat n < 2 ^ 32" using unsigned_less [where 'a = nat, of n] by simp
  then have e: "unat (i + 1) = unat i + 1" using assms by (subst unat_add_lem [THEN iffD1]) (simp_all add: word_less_nat_alt)
  show "i + 1 \<le> n" using e assms by (simp add: word_le_nat_alt word_less_nat_alt)
  show "i \<le> d \<longleftrightarrow> d = i \<or> i + 1 \<le> d" using e by (auto simp: word_le_nat_alt word_unat_eq_iff)
qed

lemma find_free_loop_ok:
  assumes "vol_ok st" and "\<forall>c. i \<le> c \<and> c < n \<longrightarrow> fat_range (tf_info (fst st)) c" and "i \<le> n"
  shows "\<exists>c st'. find_free_loop i n st = Inr (c, st') \<and> vol_ok st' \<and> vol_frame st st' \<and> i \<le> c \<and> c \<le> n \<and>
    (\<forall>d. fat_range (tf_info (fst st)) d \<longrightarrow> fat_of st' d = fat_of st d) \<and>
    (c < n \<longrightarrow> fat_of st c AND 0x0fffffff = 0) \<and> (\<forall>d. i \<le> d \<and> d < c \<longrightarrow> fat_of st d AND 0x0fffffff \<noteq> 0)"
  using assms
proof (induction i n st rule: find_free_loop.induct)
  case (1 i n st)
  show ?case
  proof (cases "i < n")
    case False
    then show ?thesis using "1.prems" by (subst find_free_loop.simps) auto
  next
    case True
    then have r: "fat_range (tf_info (fst st)) i" using "1.prems"(2) by simp
    from tf_get_fat_entry_ok [OF "1.prems"(1) r] obtain st1 where g: "tf_get_fat_entry i st = Inr (fat_of st i, st1)" and ok: "vol_ok st1"
      and fr: "vol_frame st st1" and v: "\<And>j. j < VOL_SECTORS \<Longrightarrow> vol_sector st1 j = vol_sector st j" by blast
    have same: "fat_of st1 d = fat_of st d" if "fat_range (tf_info (fst st)) d" for d using fat_of_frame fr v that by blast
    show ?thesis
    proof (cases "fat_of st i AND 0x0fffffff = 0")
      case free: True
      then show ?thesis using True g ok fr same by (subst find_free_loop.simps) auto
    next
      case used: False
      note nx = word_step [OF True]
      have up: "i \<le> d" if "i + 1 \<le> d" for d using nx(2) [of d] that by simp
      have r1: "fat_range (tf_info (fst st1)) = fat_range (tf_info (fst st))" using fat_range_frame [OF fr] by (intro ext)
      have "\<forall>c. i + 1 \<le> c \<and> c < n \<longrightarrow> fat_range (tf_info (fst st1)) c" using "1.prems"(2) up by (simp add: r1)
      from "1.IH" [OF True g refl used ok this nx(1)] obtain c st' where
        c: "find_free_loop (i + 1) n st1 = Inr (c, st')" "vol_ok st'" "vol_frame st1 st'" "i + 1 \<le> c" "c \<le> n"
        "\<forall>d. fat_range (tf_info (fst st1)) d \<longrightarrow> fat_of st' d = fat_of st1 d"
        "c < n \<longrightarrow> fat_of st1 c AND 0x0fffffff = 0" "\<forall>d. i + 1 \<le> d \<and> d < c \<longrightarrow> fat_of st1 d AND 0x0fffffff \<noteq> 0"
        by (elim exE conjE) (rule that)
      have e: "fat_of st1 d = fat_of st d" if "i + 1 \<le> d" "d < n" for d using that same "1.prems"(2) up by simp
      have "find_free_loop i n st = Inr (c, st')" using True g used c(1) by (subst find_free_loop.simps) simp
      moreover have "vol_frame st st'" by (rule vol_frame_trans [OF fr c(3)])
      moreover have "\<forall>d. fat_range (tf_info (fst st)) d \<longrightarrow> fat_of st' d = fat_of st d" using c(6) r1 same by simp
      moreover have "c < n \<longrightarrow> fat_of st c AND 0x0fffffff = 0" using c(4,7) e [of c] by simp
      moreover have "\<forall>d. i \<le> d \<and> d < c \<longrightarrow> fat_of st d AND 0x0fffffff \<noteq> 0"
        using c(5,8) e used nx(2) by (intro allI impI) (metis order_less_le_trans)
      moreover have "i \<le> c" using c(4) up by simp
      ultimately show ?thesis using c(2,5) by blast
    qed
  qed
qed

lemma fat_get:
  assumes "vol_ok st" and "fat_range (tf_info (fst st)) c"
  obtains st' where "tf_get_fat_entry c st = Inr (fat_of st c, st')" and "vol_ok st'" and "vol_frame st st'"
    and "\<And>d. fat_range (tf_info (fst st)) d \<Longrightarrow> fat_of st' d = fat_of st d"
  by (rule tf_get_fat_entry_ok [OF assms]) (use fat_of_frame in blast)

lemmas fat_ranges = fat_range_frame [THEN iffD2]

text \<open>The entries that lead the loop on: not below the first data cluster after the root, not an end mark.\<close>

definition link :: "u32 \<Rightarrow> bool" where
  "link e \<longleftrightarrow> 2 < e \<and> e < TF_MARK_EOC32"

lemma free_loop_stops: "\<not> link e \<Longrightarrow> free_clusterchain_loop (Suc k) c e st = Inr st"
  by (auto simp: link_def)

lemma free_loop_step:
  assumes "vol_ok st" and c: "fat_range (tf_info (fst st)) c" and e: "fat_range (tf_info (fst st)) e" and l: "link e"
  obtains st' e' where "free_clusterchain_loop (Suc k) c e st = free_clusterchain_loop k e' e' st'" and "vol_ok st'" and "vol_frame st st'"
    and "e' = (if e = c then 0 else fat_of st e)"
    and "\<And>d. fat_range (tf_info (fst st)) d \<Longrightarrow> fat_of st' d = (if d = c then 0 else fat_of st d)"
proof -
  from fat_of_set [OF assms(1) c, of 0] obtain st1 where s1: "tf_set_fat_entry c 0 st = Inr (0, st1)" "vol_ok st1" "vol_frame st st1"
    and f1: "\<And>d. fat_range (tf_info (fst st)) d \<Longrightarrow> fat_of st1 d = (if d = c then 0 else fat_of st d)" by blast
  from fat_get [OF s1(2) fat_ranges [OF s1(3) e]] obtain st2 where s2: "tf_get_fat_entry e st1 = Inr (fat_of st1 e, st2)" "vol_ok st2"
    "vol_frame st1 st2" and f2: "\<And>d. fat_range (tf_info (fst st1)) d \<Longrightarrow> fat_of st2 d = fat_of st1 d" by blast
  have nl: "\<not> e \<le> 2" "e < TF_MARK_EOC32" using l by (auto simp: link_def not_le)
  show thesis
    by (rule that [of "fat_of st1 e" st2])
      (use nl s1 s2 f1 f2 e vol_frame_trans [OF s1(3) s2(3)] fat_ranges [OF s1(3)] in simp_all)
qed

text \<open>What \<^verbatim>\<open>tf_free_clusterchain\<close> does to the table, for every first entry: it clears at most two entries and always returns.\<close>

definition freed_by :: "(u32 \<Rightarrow> u32) \<Rightarrow> u32 \<Rightarrow> u32 set" where
  "freed_by f c =
     (if \<not> link (f c) then {}
      else if f c = c \<or> \<not> link (f (f c)) then {c}
      else {c, f (f c)})"

lemma tf_free_clusterchain_effect:
  assumes ok: "vol_ok st" and c: "fat_range (tf_info (fst st)) c"
    and r: "\<And>d. d \<in> {c, fat_of st c} \<Longrightarrow> link (fat_of st d) \<Longrightarrow> fat_range (tf_info (fst st)) (fat_of st d)"
  shows "\<exists>st'. tf_free_clusterchain c st = Inr (0, st') \<and> vol_ok st' \<and> vol_frame st st' \<and>
    (\<forall>d. fat_range (tf_info (fst st)) d \<longrightarrow> fat_of st' d = (if d \<in> freed_by (fat_of st) c then 0 else fat_of st d))"
proof -
  let ?R = "fat_range (tf_info (fst st))" and ?e = "fat_of st c"
  from fat_get [OF ok c] obtain st1 where g: "tf_get_fat_entry c st = Inr (?e, st1)" and ok1: "vol_ok st1" and fr1: "vol_frame st st1"
    and f1: "\<And>d. ?R d \<Longrightarrow> fat_of st1 d = fat_of st d" by blast
  note R1 = fat_ranges [OF fr1]
  show ?thesis
  proof (cases "link ?e")
    case False
    then show ?thesis using g ok1 fr1 f1 by (simp add: tf_free_clusterchain_def freed_by_def numeral_3_eq_3 free_loop_stops del: free_clusterchain_loop.simps)
  next
    case True
    have e: "?R ?e" using r [of c] True by simp
    from free_loop_step [OF ok1 R1 [OF c] R1 [OF e] True, of "Suc (Suc 0)"] obtain st2 where
      l2: "free_clusterchain_loop (Suc (Suc (Suc 0))) c ?e st1 = free_clusterchain_loop (Suc (Suc 0)) (if ?e = c then 0 else fat_of st1 ?e) (if ?e = c then 0 else fat_of st1 ?e) st2"
      and ok2: "vol_ok st2" and fr2: "vol_frame st1 st2"
      and f2: "\<And>d. fat_range (tf_info (fst st1)) d \<Longrightarrow> fat_of st2 d = (if d = c then 0 else fat_of st1 d)"
      by blast
    note fr02 = vol_frame_trans [OF fr1 fr2] and R2 = fat_ranges [OF vol_frame_trans [OF fr1 fr2]]
    have t2: "fat_of st2 d = (if d = c then 0 else fat_of st d)" if "?R d" for d using f1 f2 R1 that by simp
    let ?e' = "fat_of st ?e"
    show ?thesis
    proof (cases "?e = c \<or> \<not> link ?e'")
      case last: True
      then have "\<not> link (if ?e = c then 0 else fat_of st1 ?e)" using f1 e by (auto simp: link_def)
      then have "free_clusterchain_loop (Suc (Suc (Suc 0))) c ?e st1 = Inr st2"
using l2 free_loop_stops by metis
      then show ?thesis using g ok2 fr02 t2 True last by (auto simp: tf_free_clusterchain_def freed_by_def numeral_3_eq_3 simp del: free_clusterchain_loop.simps)
    next
      case more: False
      then have e': "?R ?e'" and l': "link ?e'" and n: "?e \<noteq> c" using r [of ?e] by auto
      obtain st3 where l3: "free_clusterchain_loop (Suc (Suc 0)) ?e' ?e' st2 = free_clusterchain_loop (Suc 0) 0 0 st3"
        and ok3: "vol_ok st3" and fr3: "vol_frame st2 st3"
        and f3: "\<And>d. fat_range (tf_info (fst st2)) d \<Longrightarrow> fat_of st3 d = (if d = ?e' then 0 else fat_of st2 d)"
        using that by (rule free_loop_step [OF ok2 R2 [OF e'] R2 [OF e'] l', of "Suc 0"]) (simp del: free_clusterchain_loop.simps)
      have "free_clusterchain_loop (Suc 0) 0 0 st3 = Inr st3" using free_loop_stops [of 0 0] by (simp add: link_def)
      then have "free_clusterchain_loop (Suc (Suc (Suc 0))) c ?e st1 = Inr st3" using l2 l3 n f1 e by (simp del: free_clusterchain_loop.simps)
      moreover have "fat_of st3 d = (if d = c \<or> d = ?e' then 0 else fat_of st d)" if "?R d" for d
        using t2 [OF that] f3 [OF R2 [OF that]] by auto
      ultimately show ?thesis using g ok3 vol_frame_trans [OF fr02 fr3] True more by (auto simp: tf_free_clusterchain_def freed_by_def numeral_3_eq_3 simp del: free_clusterchain_loop.simps)
    qed
  qed
qed

section \<open>Reading through a chain\<close>

text \<open>What an operation that only reads leaves: the state is in order and every sector of the volume is as before.\<close>

definition same_vol :: "'a tst \<Rightarrow> 'a tst \<Rightarrow> bool" where
  "same_vol st st' \<longleftrightarrow> vol_ok st' \<and> vol_frame st st' \<and> (\<forall>j. j < VOL_SECTORS \<longrightarrow> vol_sector st' j = vol_sector st j)"

lemma same_vol_refl: "vol_ok st \<Longrightarrow> same_vol st st"
  by (simp add: same_vol_def)

lemma same_vol_trans: "same_vol a b \<Longrightarrow> same_vol b c \<Longrightarrow> same_vol a c"
  by (auto simp: same_vol_def intro: vol_frame_trans)

lemma same_vol_fat: "same_vol st st' \<Longrightarrow> fat_range (tf_info (fst st)) c \<Longrightarrow> fat_of st' c = fat_of st c"
  by (simp add: same_vol_def fat_of_frame)

lemma same_vol_range: "same_vol st st' \<Longrightarrow> fat_range (tf_info (fst st')) = fat_range (tf_info (fst st))"
  by (intro ext) (simp add: same_vol_def fat_range_frame)

lemma same_vol_geometry: "same_vol st st' \<Longrightarrow> geometry (tf_info (fst st')) = geometry (tf_info (fst st))"
  by (simp add: same_vol_def vol_frame_def)

definition csize :: "'a tst \<Rightarrow> nat" where
  "csize st = unat (sectorsPerCluster (tf_info (fst st))) * 512"

text \<open>A chain of clusters on the volume: linked in the table, each with all its sectors on the device.\<close>

definition tf_cluster_base :: "TFInfo \<Rightarrow> u32 \<Rightarrow> nat" where
  "tf_cluster_base i c = (unat c - 2) * unat (sectorsPerCluster i) + unat (firstDataSector i)"

definition data_range :: "TFInfo \<Rightarrow> u32 \<Rightarrow> bool" where
  "data_range i c \<longleftrightarrow> 2 \<le> c \<and> tf_cluster_base i c + unat (sectorsPerCluster i) \<le> unat VOL_SECTORS"

definition tf_chain :: "'a tst \<Rightarrow> u32 list \<Rightarrow> bool" where
  "tf_chain st cs \<longleftrightarrow>
     (\<forall>c \<in> set cs. fat_range (tf_info (fst st)) c \<and> data_range (tf_info (fst st)) c \<and> c < TF_MARK_EOC32) \<and>
     (\<forall>i. Suc i < length cs \<longrightarrow> fat_of st (cs ! i) = cs ! Suc i)"

definition tf_geometry :: "'a tst \<Rightarrow> bool" where
  "tf_geometry st \<longleftrightarrow> vol_ok st \<and> ti_type (tf_info (fst st)) \<noteq> 0 \<and> 0 < unat (sectorsPerCluster (tf_info (fst st))) \<and>
     unat (sectorsPerCluster (tf_info (fst st))) \<le> 64"

lemma same_vol_chain: "same_vol st st' \<Longrightarrow> tf_chain st' cs = tf_chain st cs"
proof -
  assume a: "same_vol st st'"
  have "data_range (tf_info (fst st')) = data_range (tf_info (fst st))"
    using same_vol_geometry [OF a] by (simp add: geometry_def data_range_def tf_cluster_base_def fun_eq_iff)
  then show ?thesis using same_vol_range [OF a] same_vol_fat [OF a] by (simp add: tf_chain_def) (metis Suc_lessD nth_mem)
qed

lemma same_vol_tf_geometry: "same_vol st st' \<Longrightarrow> tf_geometry st \<Longrightarrow> tf_geometry st'"
  using same_vol_geometry [of st st'] by (simp add: tf_geometry_def same_vol_def geometry_def)

lemma low28:
  fixes c :: u32
  assumes "c < TF_MARK_EOC32"
  shows "c AND 0x0fffffff = c"
proof -
  have "c AND mask 28 = take_bit 28 c" by (simp add: take_bit_eq_mask)
  also have "\<dots> = c" using assms
    by (simp add: word_unat_eq_iff unsigned_take_bit_eq take_bit_nat_eq_self TF_MARK_EOC32_def word_less_nat_alt)
  finally show ?thesis by (simp add: mask_eq_exp_minus_1)
qed

lemma seek_loop_chain:
  assumes "tf_geometry st" and "tf_chain st cs" and "i + k < length cs"
  shows "\<exists>st'. seek_loop k (cs ! i) st = Inr (0, cs ! (i + k), st') \<and> same_vol st st'"
  using assms
proof (induction k arbitrary: i st)
  case 0
  then show ?case by (simp add: tf_geometry_def same_vol_refl)
next
  case (Suc k)
  let ?n = "cs ! Suc i"
  have m: "seek_mark (tf_info (fst st)) = TF_MARK_EOC32" using Suc.prems(1) by (simp add: tf_geometry_def seek_mark_def)
  have r: "fat_range (tf_info (fst st)) (cs ! i)" and l: "fat_of st (cs ! i) = ?n" and n: "?n < TF_MARK_EOC32"
    using Suc.prems by (auto simp: tf_chain_def)
  have "vol_ok st" using Suc.prems(1) by (simp add: tf_geometry_def)
  from tf_get_fat_entry_ok [OF this r] obtain st1 where g: "tf_get_fat_entry (cs ! i) st = Inr (fat_of st (cs ! i), st1)"
    "vol_ok st1" "vol_frame st st1" "\<And>j. j < VOL_SECTORS \<Longrightarrow> vol_sector st1 j = vol_sector st j" by blast
  then have s: "same_vol st st1" by (simp add: same_vol_def)
  have "\<exists>st'. seek_loop k ?n st1 = Inr (0, cs ! (Suc i + k), st') \<and> same_vol st1 st'"
    using Suc.IH [of st1 "Suc i"] Suc.prems same_vol_chain [OF s] same_vol_tf_geometry [OF s] by simp
  then obtain st' where st': "seek_loop k ?n st1 = Inr (0, cs ! (Suc i + k), st')" "same_vol st1 st'" by blast
  have "seek_loop (Suc k) (cs ! i) st = seek_loop k ?n st1"
    using g(1) n low28 [OF n] by (auto simp: m l Let_def)
  then show ?case using st' same_vol_trans [OF s] by auto
qed

end
