(* ===== verification/ThinFatRead.thy ===== *)
theory ThinFatRead
  imports ThinFatVol
begin

unbundle bit_operations_syntax

text \<open>
  Reading in the older FAT file system: a seek inside a file follows the chain of its clusters without touching the volume, and
  \<^verbatim>\<open>tf_fread\<close> returns the bytes of the file; then the properties of the allocation table, with a small volume for their instances.
\<close>

text \<open>A handle moved to a position of the file its chain holds.\<close>

definition moved :: "nat \<Rightarrow> u32 list \<Rightarrow> nat \<Rightarrow> TFFile \<Rightarrow> TFFile" where
  "moved sz cs p fp =
     fp\<lparr>currentClusterIdx := of_nat (p div sz), currentCluster := cs ! (p div sz), tff_byte := int (p mod sz), tff_pos := of_nat p\<rparr>"

definition at_pos :: "nat \<Rightarrow> u32 list \<Rightarrow> nat \<Rightarrow> TFFile \<Rightarrow> bool" where
  "at_pos sz cs p fp \<longleftrightarrow> startCluster fp = cs ! 0 \<and> moved sz cs p fp = fp \<and> p < unat (tff_size fp) \<and> p div sz < length cs"

lemma moved_moved [simp]: "moved sz cs q (moved sz cs p fp) = moved sz cs q fp"
  by (simp add: moved_def)

lemma at_pos_moved:
  assumes "at_pos sz cs p fp" and "q < unat (tff_size fp)" and "q div sz < length cs"
  shows "at_pos sz cs q (moved sz cs q fp)"
  using assms by (simp add: at_pos_def moved_def)

lemma at_pos_fields:
  assumes "at_pos sz cs p fp"
  shows "startCluster fp = cs ! 0" and "currentClusterIdx fp = of_nat (p div sz)" and "currentCluster fp = cs ! (p div sz)"
    and "tff_byte fp = int (p mod sz)" and "tff_pos fp = of_nat p" and "p < unat (tff_size fp)" and "p div sz < length cs"
  using assms TFFile.ext_inject [of "parentStartCluster fp"] unfolding at_pos_def moved_def by (cases fp; simp)+

lemma short_of:
  assumes "b < 32768"
  shows "sint (of_int (int b) :: 16 word) = int b"
  using assms by (subst sint_sbintrunc') (simp add: signed_take_bit_int_eq_self)

text \<open>A seek inside the file and inside its chain, with the arithmetic of the code carried out.\<close>

lemma tf_unsafe_fseek_inside:
  assumes sz: "csize st = z" "0 < z" "z \<le> 32768" and q: "q < unat (tff_size fp)"
  shows "tf_unsafe_fseek fp 0 (int q) st =
    (let idx = of_nat (q div z); finish = (\<lambda>fp. fp\<lparr>tff_byte := int (q mod z), tff_pos := of_nat q\<rparr>) in
     if idx = currentClusterIdx fp then Inr (0, finish fp, st)
     else let (n, cur) = (if currentClusterIdx fp < idx then (idx - currentClusterIdx fp, currentCluster fp) else (idx, startCluster fp)) in
       bindr (seek_loop (unat n) cur st) (\<lambda>(rc, cur', st1).
         let fp2 = fp\<lparr>currentClusterIdx := idx, currentCluster := cur'\<rparr> in
         if rc \<noteq> 0 then Inr (rc, fp2, st1) else Inr (0, finish fp2, st1)))"
proof -
  have md: "int q smod int z = int (q mod z)" and dv: "int q sdiv int z = int (q div z)"
    using sz by (cases "q = 0"; simp add: signed_divide_int_def signed_modulo_int_def zdiv_int zmod_int)+
  have "q mod z < 32768" using sz mod_less_divisor [of z q] by linarith
  then have sh: "sint (of_int (int (q mod z)) :: 16 word) = int (q mod z)" and sh': "sint (of_nat (q mod z) :: 16 word) = int (q mod z)"
    using short_of [of "q mod z"] by simp_all
  have cs: "int (unat (sectorsPerCluster (tf_info (fst st)))) * 512 = int z" using sz(1) unfolding csize_def by (metis of_nat_mult of_nat_numeral)
  have c: "\<not> int q > int (unat (tff_size fp))" "int q \<noteq> int (unat (tff_size fp))" "int z \<noteq> 0" "(0::int) + int q = int q"
    using q sz(2) by (simp_all del: of_nat_unat)
  show ?thesis unfolding tf_unsafe_fseek_def Let_def cs by (simp only: c md dv sh sh' if_False of_int_of_nat_eq)
qed

lemma tf_unsafe_fseek_chain:
  assumes geo: "tf_geometry st" and ch: "tf_chain st cs" and at: "at_pos (csize st) cs p fp"
    and q: "q < unat (tff_size fp)" "q div csize st < length cs"
  shows "\<exists>st'. tf_unsafe_fseek fp 0 (int q) st = Inr (0, moved (csize st) cs q fp, st') \<and> same_vol st st'"
proof -
  define z where "z = csize st"
  let ?i = "p div z" and ?j = "q div z"
  note f = at_pos_fields [OF at, folded z_def]
  have sz: "csize st = z" "0 < z" "z \<le> 32768" using geo by (auto simp: tf_geometry_def csize_def z_def)
  have b: "unat (tff_size fp) < 2 ^ 32" using unsigned_less [where 'a = nat, of "tff_size fp"] by simp
  have "?i \<le> p" "?j \<le> q" by (rule div_le_dividend)+
  then have "?i < 2 ^ 32" "?j < 2 ^ 32" using f(6) q(1) b by linarith+
  then have u: "unat (of_nat ?i :: u32) = ?i" "unat (of_nat ?j :: u32) = ?j" by (simp_all add: unat_of_nat)
  note seek = tf_unsafe_fseek_inside [OF sz q(1)]
  show ?thesis
  proof (cases "?i = ?j")
    case True
    then have "moved z cs q fp = fp\<lparr>tff_byte := int (q mod z), tff_pos := of_nat q\<rparr>" using f by (simp add: moved_def)
    then show ?thesis using True f(2) geo unfolding seek by (simp add: tf_geometry_def same_vol_refl sz(1))
  next
    case False
    define n where "n = (if ?i < ?j then ?j - ?i else ?j)"
    define k where "k = (if ?i < ?j then ?i else 0)"
    have "k + n = ?j" by (simp add: n_def k_def)
    with seek_loop_chain [OF geo ch, of k n] q(2) obtain st' where
      sl: "seek_loop n (cs ! k) st = Inr (0, cs ! ?j, st')" "same_vol st st'" by (auto simp: sz(1))
    have lt: "(of_nat ?i :: u32) < of_nat ?j \<longleftrightarrow> ?i < ?j" and ne: "(of_nat ?j :: u32) \<noteq> of_nat ?i"
      using u False by (simp_all add: word_less_nat_alt word_unat_eq_iff)
    have un: "unat (of_nat ?j - of_nat ?i :: u32) = ?j - ?i" if "?i < ?j"
      using u lt that by (subst unat_sub) (simp_all add: word_le_nat_alt)
    have "moved z cs q fp = fp\<lparr>currentClusterIdx := of_nat ?j, currentCluster := cs ! ?j, tff_byte := int (q mod z), tff_pos := of_nat q\<rparr>"
      by (simp add: moved_def)
    then show ?thesis using sl f(1-3) lt ne un u(2) unfolding seek by (cases "?i < ?j") (simp_all add: n_def k_def sz(1))
  qed
qed

text \<open>The bytes of a file: those of the clusters of its chain, one after the other.\<close>

definition vol_byte :: "'a tst \<Rightarrow> u32 \<Rightarrow> nat \<Rightarrow> u8" where
  "vol_byte st c b = vol_sector st (of_nat (tf_cluster_base (tf_info (fst st)) c + b div 512)) ! (b mod 512)"

definition file_byte :: "'a tst \<Rightarrow> u32 list \<Rightarrow> nat \<Rightarrow> u8" where
  "file_byte st cs p = vol_byte st (cs ! (p div csize st)) (p mod csize st)"

lemma u32_nat: "n < 2 ^ 32 \<Longrightarrow> unat (of_nat n :: u32) = n"
  by (simp add: unat_of_nat)

lemma sector_in_range:
  assumes "data_range i c" and "b < unat (sectorsPerCluster i) * 512"
  shows "(of_nat (tf_cluster_base i c + b div 512) :: u32) < VOL_SECTORS"
proof -
  have "b div 512 < unat (sectorsPerCluster i)" using assms(2) by (simp add: div_less_iff_less_mult)
  then have l: "tf_cluster_base i c + b div 512 < unat VOL_SECTORS" using assms(1) by (simp add: data_range_def)
  then have "tf_cluster_base i c + b div 512 < 2 ^ 32" by (simp add: VOL_SECTORS_def)
  then have "unat (of_nat (tf_cluster_base i c + b div 512) :: u32) = tf_cluster_base i c + b div 512" by (rule u32_nat)
  then show ?thesis using l by (simp add: word_less_nat_alt)
qed

lemma cur_sector_nat:
  assumes "2 \<le> currentCluster fp" and "tff_byte fp = int b"
  shows "cur_sector fp i = of_nat (tf_cluster_base i (currentCluster fp) + b div 512)"
proof -
  have "2 \<le> unat (currentCluster fp)" using assms(1) by (simp add: word_le_nat_alt)
  then have "currentCluster fp - 2 = of_nat (unat (currentCluster fp) - 2)" by (simp add: of_nat_diff)
  moreover have "int b sdiv 512 = int (b div 512)" by (cases "b = 0") (simp_all add: signed_divide_int_def zdiv_int)
  moreover have "(ucast (sectorsPerCluster i) :: u32) = of_nat (unat (sectorsPerCluster i))" by (simp add: unsigned_ucast_eq word_unat_eq_iff unat_of_nat)
  ultimately show ?thesis using assms(2) by (simp add: cur_sector_def tf_first_sector_def tf_cluster_base_def)
qed

lemma same_vol_csize: "same_vol st st' \<Longrightarrow> csize st' = csize st"
  using same_vol_geometry [of st st'] by (simp add: geometry_def csize_def)

lemma same_vol_file_byte:
  assumes s: "same_vol st st'" and g: "tf_geometry st" and c: "tf_chain st cs" and q: "q div csize st < length cs"
  shows "file_byte st' cs q = file_byte st cs q"
proof -
  have "data_range (tf_info (fst st)) (cs ! (q div csize st))" using c q by (simp add: tf_chain_def)
  moreover have "q mod csize st < unat (sectorsPerCluster (tf_info (fst st))) * 512" using g by (simp add: tf_geometry_def csize_def)
  ultimately have "(of_nat (tf_cluster_base (tf_info (fst st)) (cs ! (q div csize st)) + (q mod csize st) div 512) :: u32) < VOL_SECTORS"
    by (rule sector_in_range)
  then show ?thesis using s same_vol_geometry [OF s] same_vol_csize [OF s]
    by (simp add: file_byte_def vol_byte_def same_vol_def geometry_def tf_cluster_base_def)
qed

text \<open>Inside a sector, the bytes of the file are those of the sector.\<close>

lemma file_byte_in_sector:
  assumes z: "z = csize st" "0 < z" "512 dvd z" and t: "t < 512 - p mod z mod 512"
  shows "file_byte st cs (p + t) = vol_sector st (of_nat (tf_cluster_base (tf_info (fst st)) (cs ! (p div z)) + p mod z div 512)) ! (p mod z mod 512 + t)"
proof -
  let ?b = "p mod z"
  obtain k where k: "z = 512 * k" using z(3) by auto
  have "?b < 512 * k" using z(2) k by simp
  then have "?b div 512 < k" by (simp add: div_less_iff_less_mult mult.commute)
  then have "512 * (?b div 512) + 512 \<le> z" using k by (metis Suc_leI mult_Suc_right mult_le_mono2 add.commute)
  moreover have "?b = 512 * (?b div 512) + ?b mod 512" by simp
  ultimately have lt: "?b + t < z" using t by linarith
  have "p + t = z * (p div z) + (?b + t)" by simp
  then have d: "(p + t) div z = p div z" and m: "(p + t) mod z = ?b + t" using lt by (metis div_mult_self4 div_less add.right_neutral z(2) less_not_refl2, metis mod_mult_self4 mod_less)
  have "?b + t = 512 * (?b div 512) + (?b mod 512 + t)" by simp
  then have "(?b + t) div 512 = ?b div 512" and "(?b + t) mod 512 = ?b mod 512 + t" using t
    by (linarith, metis mod_mult_self4 mod_less less_diff_conv2 add.commute less_diff_conv)
  then show ?thesis using d m z(1) by (simp add: file_byte_def vol_byte_def)
qed

lemma take_sector:
  assumes "length xs = 512" and "b < 512" and "x \<le> 512 - b"
  shows "take x (drop b xs) = map (\<lambda>t. xs ! (b + t)) [0..<x]"
  using assms by (intro nth_equalityI) auto

text \<open>One round of the read loop.\<close>

lemma read_round:
  assumes geo: "tf_geometry st" and ch: "tf_chain st cs" and at: "at_pos (csize st) cs p fp"
    and x: "x \<le> 512 - p mod csize st mod 512" and q: "p + x < unat (tff_size fp)" "(p + x) div csize st < length cs"
  obtains st1 st2 where "tf_fetch (cur_sector fp (tf_info (fst st))) st = Inr (0, st1)"
    and "take x (drop (nat (tff_byte fp) mod 512) (ti_buffer (tf_info (fst st1)))) = map (file_byte st cs) [p..<p + x]"
    and "tf_fseek fp 0 (int (unat (tff_pos fp)) + int x) st1 = Inr (0, moved (csize st) cs (p + x) fp, st2)"
    and "same_vol st st2"
proof -
  let ?z = "csize st" and ?i = "tf_info (fst st)" and ?c = "cs ! (p div csize st)"
  note f = at_pos_fields [OF at]
  have z: "0 < ?z" "512 dvd ?z" using geo by (auto simp: tf_geometry_def csize_def)
  have dr: "data_range ?i ?c" using ch f(7) by (simp add: tf_chain_def)
  let ?k = "of_nat (tf_cluster_base ?i ?c + p mod ?z div 512) :: u32"
  have cur: "cur_sector fp ?i = ?k" using cur_sector_nat [of fp "p mod ?z"] f dr by (simp add: data_range_def)
  have k: "?k < VOL_SECTORS" using sector_in_range [OF dr, of "p mod ?z"] z by (simp add: csize_def)
  have ok: "vol_ok st" using geo by (simp add: tf_geometry_def)
  from tf_fetch_ok [OF ok k] obtain st1 where st1: "tf_fetch ?k st = Inr (0, st1)" "vol_ok st1" "vol_frame st st1"
    "\<And>j. j < VOL_SECTORS \<Longrightarrow> vol_sector st1 j = vol_sector st j" "currentSector (tf_info (fst st1)) = ?k" by blast
  then have s: "same_vol st st1" by (simp add: same_vol_def)
  have buf: "ti_buffer (tf_info (fst st1)) = vol_sector st ?k" using st1(4) [OF k] st1(5) by (simp add: vol_sector_def)
  have l: "length (ti_buffer (tf_info (fst st1))) = 512" using st1(2) by (auto simp: vol_ok_def)
  have "map (file_byte st cs) [p..<p + x] = map (\<lambda>t. file_byte st cs (p + t)) [0..<x]" by (intro nth_equalityI) simp_all
  also have "\<dots> = map (\<lambda>t. vol_sector st ?k ! (p mod ?z mod 512 + t)) [0..<x]"
    using x by (intro map_cong refl) (simp add: file_byte_in_sector [OF refl z])
  also have "\<dots> = take x (drop (p mod ?z mod 512) (ti_buffer (tf_info (fst st1))))"
    using take_sector [OF l, of "p mod ?z mod 512" x] x by (simp add: buf)
  finally have bs: "take x (drop (nat (tff_byte fp) mod 512) (ti_buffer (tf_info (fst st1)))) = map (file_byte st cs) [p..<p + x]"
    using f(4) by simp
  have b: "unat (tff_size fp) < 2 ^ 32" using unsigned_less [where 'a = nat, of "tff_size fp"] by simp
  then have pos: "int (unat (tff_pos fp)) + int x = int (p + x)" using f(5,6) u32_nat [of p] by simp
  have at1: "at_pos (csize st1) cs p fp" and q1: "(p + x) div csize st1 < length cs" using at q same_vol_csize [OF s] by simp_all
  from tf_unsafe_fseek_chain [OF same_vol_tf_geometry [OF s geo] _ at1 q(1) q1] same_vol_chain [OF s] ch obtain st2 where
    st2: "tf_unsafe_fseek fp 0 (int (p + x)) st1 = Inr (0, moved ?z cs (p + x) fp, st2)" "same_vol st1 st2" using same_vol_csize [OF s] by auto
  have "\<not> 0 + int (p + x) > int (unat (tff_size fp))" using q(1) by linarith
  then have "tf_fseek fp 0 (int (p + x)) st1 = Inr (0, moved ?z cs (p + x) fp, st2)" using st2(1) by (simp add: tf_fseek_def)
  then have sk: "tf_fseek fp 0 (int (unat (tff_pos fp)) + int x) st1 = Inr (0, moved ?z cs (p + x) fp, st2)" by (simp only: pos)
  show thesis using st1(1) by (intro that [OF _ bs sk same_vol_trans [OF s st2(2)]]) (simp only: cur)
qed

text \<open>
  A seek to the end of a file makes it one byte longer, in the handle only: \<open>grown q fp\<close> is the handle after a seek to \<open>q\<close>,
  apart from its position.
\<close>

definition grown :: "nat \<Rightarrow> TFFile \<Rightarrow> TFFile" where
  "grown q fp = (if q = unat (tff_size fp) then fp\<lparr>tff_size := tff_size fp + 1, tff_flags := tff_flags fp OR TF_FLAG_SIZECHANGED\<rparr> else fp)"

lemma grown_size:
  assumes "q < 2 ^ 32 - 1" "q \<le> unat (tff_size fp)"
  shows "unat (tff_size (grown q fp)) = (if q = unat (tff_size fp) then Suc q else unat (tff_size fp))"
    and "q < unat (tff_size (grown q fp))"
proof -
  have "unat (tff_size fp + 1) = Suc q" if "q = unat (tff_size fp)"
    using that assms(1) by (simp add: unat_word_ariths)
  then show "unat (tff_size (grown q fp)) = (if q = unat (tff_size fp) then Suc q else unat (tff_size fp))" by (simp add: grown_def)
  then show "q < unat (tff_size (grown q fp))" using assms(2) by simp
qed

lemma grown_fields [simp]:
  "tff_pos (grown q fp) = tff_pos fp" "tff_byte (grown q fp) = tff_byte fp" "cur_sector (grown q fp) i = cur_sector fp i"
  "startCluster (grown q fp) = startCluster fp" "moved z cs r (grown q fp) = grown q (moved z cs r fp)"
  by (simp_all add: grown_def cur_sector_def moved_def)

lemma at_pos_grown:
  assumes "at_pos z cs p fp" "q < 2 ^ 32 - 1" "q \<le> unat (tff_size fp)" shows "at_pos z cs p (grown q fp)"
  using assms(1) grown_size(1) [OF assms(2,3)] assms(3) by (simp add: at_pos_def split: if_splits)

lemma tf_fseek_grown:
  assumes "q < 2 ^ 32 - 1" "q \<le> unat (tff_size fp)"
  shows "tf_fseek (grown q fp) 0 (int q) st = tf_fseek fp 0 (int q) st"
proof (cases "q = unat (tff_size fp)")
  case True
  define g where "g = grown q fp"
  have g: "g = fp\<lparr>tff_size := tff_size fp + 1, tff_flags := tff_flags fp OR TF_FLAG_SIZECHANGED\<rparr>" using True by (simp add: g_def grown_def)
  have "unat (tff_size g) = Suc q" using grown_size(1) [OF assms] True by (simp add: g_def)
  then have c: "(int (unat (tff_size g)) < 0 + int q) = False" "(0 + int q = int (unat (tff_size g))) = False"
    "(int (unat (tff_size fp)) < 0 + int q) = False" "(0 + int q = int (unat (tff_size fp))) = True" using True by simp_all
  have "tf_unsafe_fseek g 0 (int q) st = tf_unsafe_fseek fp 0 (int q) st"
    unfolding tf_unsafe_fseek_def Let_def by (simp only: c if_True if_False g [symmetric])
  then show ?thesis unfolding g_def [symmetric] tf_fseek_def by (simp only: c if_False) simp
qed (simp add: grown_def)

lemma tf_fread_loop_reads:
  assumes "tf_geometry st" and "tf_chain st cs" and "at_pos (csize st) cs p fp"
    and "p + want \<le> unat (tff_size fp)" and "p + want < length cs * csize st" and "n + want \<le> unat (tff_size fp)" and "want < k"
    and "p + want < 2 ^ 32 - 1"
  shows "\<exists>st'. tf_fread_loop k me ToObject n want acc fp st =
      Inr (int (n + want), acc @ map (file_byte st cs) [p..<p + want], grown (p + want) (moved (csize st) cs (p + want) fp), st') \<and> same_vol st st'"
  using assms
proof (induction k arbitrary: n want acc fp st p)
  case (Suc k)
  let ?z = "csize st"
  note f = at_pos_fields [OF Suc.prems(3)]
  show ?case
  proof (cases "want = 0")
    case True
    then show ?thesis using Suc.prems f(6) by (simp add: at_pos_def tf_geometry_def same_vol_refl grown_def)
  next
    case False
    let ?x = "chunk fp want"
    have b: "unat (tff_size fp) < 2 ^ 32" using unsigned_less [where 'a = nat, of "tff_size fp"] by simp
    then have "unat (tff_pos fp) = p" using f(5,6) u32_nat [of p] by simp
    then have sub: "unat (tff_size fp - tff_pos fp) = unat (tff_size fp) - p" using f(6) by (subst unat_sub) (simp_all add: word_le_nat_alt)
    have x: "?x \<le> 512 - p mod ?z mod 512" "?x \<le> want" "0 < ?x"
      using sub f(4,6) False by (simp_all add: chunk_def)
    have z: "0 < ?z" using Suc.prems(1) by (simp add: tf_geometry_def csize_def)
    define g where "g = grown (p + ?x) fp"
    have qq: "p + ?x \<le> unat (tff_size fp)" "p + ?x < 2 ^ 32 - 1" using x Suc.prems(4,8) by simp_all
    have q: "p + ?x < unat (tff_size g)" "(p + ?x) div ?z < length cs"
      using x Suc.prems(5) z grown_size(2) [OF qq(2,1)] by (simp_all add: div_less_iff_less_mult g_def)
    have ag: "at_pos ?z cs p g" unfolding g_def by (rule at_pos_grown [OF Suc.prems(3) qq(2,1)])
    have px: "int (unat (tff_pos fp)) + int ?x = int (p + ?x)" using \<open>unat (tff_pos fp) = p\<close> by simp
    from read_round [OF Suc.prems(1,2) ag x(1) q] obtain st1 st2 where r: "tf_fetch (cur_sector fp (tf_info (fst st))) st = Inr (0, st1)"
      "take ?x (drop (nat (tff_byte fp) mod 512) (ti_buffer (tf_info (fst st1)))) = map (file_byte st cs) [p..<p + ?x]"
      "tf_fseek fp 0 (int (unat (tff_pos fp)) + int ?x) st1 = Inr (0, moved ?z cs (p + ?x) g, st2)" and s: "same_vol st st2"
      unfolding g_def grown_fields px tf_fseek_grown [OF qq(2,1)] by blast
    let ?fp = "moved ?z cs (p + ?x) g"
    have at: "at_pos (csize st2) cs (p + ?x) ?fp" using at_pos_moved [OF ag q] same_vol_csize [OF s] by simp
    have sz: "unat (tff_size fp) \<le> unat (tff_size ?fp)" using grown_size(1) [OF qq(2,1)] by (simp add: moved_def g_def)
    have gg: "grown (p + want) (moved ?z cs (p + want) g) = grown (p + want) (moved ?z cs (p + want) fp)"
    proof (cases "?x = want")
      case True
      then show ?thesis using grown_size(1) [OF qq(2,1)] by (simp add: g_def grown_def moved_def)
    qed (use x Suc.prems(4) in \<open>simp add: g_def grown_def moved_def\<close>)
    have wk: "want - ?x < k" using Suc.prems(7) x by linarith
    from Suc.IH [OF same_vol_tf_geometry [OF s Suc.prems(1)] _ at, of "want - ?x" "n + ?x" "acc @ map (file_byte st cs) [p..<p + ?x]"]
      Suc.prems(2,4-6,8) wk x same_vol_chain [OF s] same_vol_csize [OF s] sz gg
    obtain st3 where ih: "tf_fread_loop k me ToObject (n + ?x) (want - ?x) (acc @ map (file_byte st cs) [p..<p + ?x]) ?fp st2 =
        Inr (int (n + want), (acc @ map (file_byte st cs) [p..<p + ?x]) @ map (file_byte st2 cs) [p + ?x..<p + want],
             grown (p + want) (moved ?z cs (p + want) fp), st3)" "same_vol st2 st3" by auto
    have "map (file_byte st2 cs) [p + ?x..<p + want] = map (file_byte st cs) [p + ?x..<p + want]"
      using same_vol_file_byte [OF s Suc.prems(1,2)] Suc.prems(5) z by (intro map_cong refl) (simp add: div_less_iff_less_mult)
    then have "map (file_byte st cs) [p..<p + ?x] @ map (file_byte st2 cs) [p + ?x..<p + want] = map (file_byte st cs) [p..<p + want]"
      using x(2) upt_add_eq_append [of p "p + ?x" "want - ?x"] by simp
    moreover have "tf_fread_loop (Suc k) me ToObject n want acc fp st =
        tf_fread_loop k me ToObject (n + ?x) (want - ?x) (acc @ map (file_byte st cs) [p..<p + ?x]) ?fp st2"
      using r f(4) False Suc.prems(6) by (simp add: sink_put_def Let_def)
    ultimately show ?thesis using ih same_vol_trans [OF s] by auto
  qed
qed simp


text \<open>\<^verbatim>\<open>tf_fread\<close> into a kernel object.\<close>

lemma tf_fread_reads:
  assumes "tf_geometry st" and "tf_chain st cs" and "at_pos (csize st) cs p fp"
    and "p + want \<le> unat (tff_size fp)" and "p + want < length cs * csize st" and "p + want < 2 ^ 32 - 1"
  shows "\<exists>st'. tf_fread me ToObject (int want) fp st =
      Inr (int want, map (file_byte st cs) [p..<p + want], grown (p + want) (moved (csize st) cs (p + want) fp), st') \<and> same_vol st st'"
proof -
  have "want < 2 ^ 32" using assms(6) unsigned_less [where 'a = nat, of "tff_size fp"] by simp
  then have "\<not> tff_size fp < of_int (int want)" using assms(4) u32_nat [of want] by (simp add: word_less_nat_alt)
  then have "tf_fread me ToObject (int want) fp st = tf_fread_loop (2 * want + 2) me ToObject 0 want [] fp st" by (simp add: tf_fread_def Let_def del: tf_fread_loop.simps)
  moreover have "0 + want \<le> unat (tff_size fp)" "want < 2 * want + 2" using assms(4) by simp_all
  ultimately show ?thesis using tf_fread_loop_reads [OF assms(1-5) _ _ assms(6), of 0 "2 * want + 2" me "[]"] by (simp del: tf_fread_loop.simps)
qed

text \<open>A directory entry read at a position.\<close>

lemma read_entry_reads:
  assumes "tf_geometry st" and "tf_chain st cs" and "at_pos (csize st) cs p fp"
    and "p + 32 < unat (tff_size fp)" and "p + 32 < length cs * csize st" and "length old = 32"
  shows "\<exists>st'. read_entry me old fp st = Inr (map (file_byte st cs) [p..<p + 32], moved (csize st) cs (p + 32) fp, st') \<and> same_vol st st'"
proof -
  have "p + 32 < 2 ^ 32 - 1" using assms(4) unsigned_less [where 'a = nat, of "tff_size fp"] by simp
  moreover have "grown (p + 32) (moved (csize st) cs (p + 32) fp) = moved (csize st) cs (p + 32) fp" using assms(4) by (simp add: grown_def moved_def)
  ultimately show ?thesis using tf_fread_reads [OF assms(1-3) less_imp_le [OF assms(4)] assms(5), of me] assms(6)
    by (auto simp: read_entry_def splice_def)
qed

section \<open>What the volume operations promise\<close>

text \<open>A small volume for the concrete instances: the chain 3, 4, 5, 6 in the table, one sector per cluster.\<close>

definition sample_table :: "u32 list" where "sample_table = [0, 0, 0x0fffffff, 4, 5, 6, 0x0fffffff, 0]"

definition table_sector :: "u8 list" where "table_sector = concat (map bytes32 sample_table) @ replicate 480 0"

definition sample_disk :: rwdev where
  "sample_disk = \<lparr>rw_name = [104, 100, 97, 49], rw_sector = (\<lambda>k. if k = 32 then table_sector else replicate 512 (of_nat k))\<rparr>"

definition sample_tfs :: tfs where
  "sample_tfs = \<lparr>tf_dev = 0, tf_info = \<lparr>ti_type = 1, sectorsPerCluster = 1, firstDataSector = 64, totalSectors = 200, reservedSectors = 32,
     currentSector = 0xffffffff, sectorFlags = 0, rootDirectorySize = 0, ti_buffer = replicate 512 0\<rparr>, tf_file_handles = []\<rparr>"

definition sample_vol :: "unit tst" where
  "sample_vol = (sample_tfs, small_volume\<lparr>rw_devs := [Some sample_disk]\<rparr>)"

lemma length_table_sector: "length table_sector = 512"
  by (simp add: table_sector_def sample_table_def)

lemma sample_vol_dev: "vol_dev sample_vol = Some sample_disk"
  by (simp add: sample_vol_def vol_dev_def sample_tfs_def)

lemma sample_ok: "vol_ok sample_vol"
  unfolding vol_ok_def sample_vol_dev
  by (simp add: sample_disk_def length_table_sector) (simp add: sample_vol_def sample_tfs_def dirty_def VOL_SECTORS_def)

lemma sample_fat_sector: "c < 128 \<Longrightarrow> fat_sector (tf_info (fst sample_vol)) (of_nat c) = 32"
proof -
  assume "c < 128"
  then have "unat (of_nat c :: u32) = c" by (intro u32_nat) simp
  then have "unat ((of_nat c :: u32) * 4 div 512) = 0" using \<open>c < 128\<close> fat_offset_nat(2) [of "of_nat c"] by simp
  then show ?thesis by (simp add: fat_sector_def sample_vol_def sample_tfs_def unat_eq_0)
qed

lemma sample_range: "c < 128 \<Longrightarrow> fat_range (tf_info (fst sample_vol)) (of_nat c)"
  using sample_fat_sector [of c] u32_nat [of c] by (simp add: fat_range_def VOL_SECTORS_def)

lemma sample_fat:
  assumes "c < 8"
  shows "fat_of sample_vol (of_nat c) = sample_table ! c"
proof -
  have u: "unat (of_nat c :: u32) = c" using assms by (intro u32_nat) simp
  then have "fat_offset (of_nat c) = c * 4" using assms fat_offset_nat(1) [of "of_nat c"] by simp
  moreover have "vol_sector sample_vol 32 = table_sector"
    using sample_vol_dev by (simp add: vol_sector_def sample_disk_def) (simp add: sample_vol_def sample_tfs_def)
  ultimately have "fat_of sample_vol (of_nat c) = get32 table_sector (c * 4)"
    using sample_fat_sector [of c] assms by (simp add: fat_of_def)
  also have "\<dots> = sample_table ! c"
    using assms by (auto simp: less_Suc_eq numeral_eq_Suc) (code_simp+)
  finally show ?thesis .
qed

text \<open>
  C19: An entry of the allocation table set through the one-sector cache is read back as it was set, every other entry as it was
  before, and of the volume as the file system sees it exactly the four bytes of the entry change, whatever sector was cached and
  whether it had been written to disk.
\<close>

theorem tf_fat_entry_roundtrip:
  assumes "vol_ok st" and "fat_range (tf_info (fst st)) c" and "fat_range (tf_info (fst st)) d"
  shows "\<exists>st1 st2. tf_set_fat_entry c v st = Inr (0, st1) \<and> tf_get_fat_entry d st1 = Inr (if d = c then v else fat_of st d, st2) \<and>
    (\<forall>j. j < VOL_SECTORS \<longrightarrow> vol_sector st2 j =
      (if j = fat_sector (tf_info (fst st)) c then splice (fat_offset c) (bytes32 v) (vol_sector st j) else vol_sector st j))"
proof -
  from tf_set_fat_entry_ok [OF assms(1,2), of v] obtain st1 where s: "tf_set_fat_entry c v st = Inr (0, st1)" "vol_ok st1" "vol_frame st st1"
    "\<And>j. j < VOL_SECTORS \<Longrightarrow> vol_sector st1 j =
      (if j = fat_sector (tf_info (fst st)) c then splice (fat_offset c) (bytes32 v) (vol_sector st j) else vol_sector st j)" by blast
  obtain st' where "tf_set_fat_entry c v st = Inr (0, st')" "fat_of st' d = (if d = c then v else fat_of st d)"
    using fat_of_set [OF assms(1,2)] assms(3) by metis
  then have e: "fat_of st1 d = (if d = c then v else fat_of st d)" using s(1) by simp
  from tf_get_fat_entry_ok [OF s(2) fat_ranges [OF s(3) assms(3)]] obtain st2 where
    "tf_get_fat_entry d st1 = Inr (fat_of st1 d, st2)" "\<And>j. j < VOL_SECTORS \<Longrightarrow> vol_sector st2 j = vol_sector st1 j" by blast
  then show ?thesis using s(1,4) e by (intro exI [of _ st1] exI [of _ st2]) simp
qed

theorem tf_fat_entry_roundtrip_witness:
  "\<exists>st1 st2. tf_set_fat_entry 7 9 sample_vol = Inr (0, st1) \<and> tf_get_fat_entry 4 st1 = Inr (5, st2)"
proof -
  have r: "fat_range (tf_info (fst sample_vol)) 7" "fat_range (tf_info (fst sample_vol)) 4" and f: "fat_of sample_vol 4 = 5"
    using sample_range [of 7] sample_range [of 4] sample_fat [of 4] by (simp_all add: sample_table_def)
  show ?thesis using tf_fat_entry_roundtrip [OF sample_ok r, of 9] unfolding f by (elim exE conjE) (intro exI conjI; simp)
qed

text \<open>
  Freeing a chain of three or more clusters always returns, and frees the first and the third cluster only: the second and
  all that follow the third stay marked as used though no file refers to them any more.
\<close>

lemma tf_free_clusterchain_leaks:
  assumes "vol_ok st" and "\<forall>c \<in> {c0, c1, c2}. fat_range (tf_info (fst st)) c"
    and "fat_of st c0 = c1" and "fat_of st c1 = c2" and "c0 \<noteq> c1" and "link c1" and "link c2"
  shows "\<exists>st'. tf_free_clusterchain c0 st = Inr (0, st') \<and>
    (\<forall>d. fat_range (tf_info (fst st)) d \<longrightarrow> fat_of st' d = (if d = c0 \<or> d = c2 then 0 else fat_of st d))"
proof -
  have "freed_by (fat_of st) c0 = {c0, c2}" using assms(3-7) by (simp add: freed_by_def)
  moreover have "fat_range (tf_info (fst st)) (fat_of st d)" if "d \<in> {c0, fat_of st c0}" for d using that assms(2-4) by auto
  ultimately obtain st' where "tf_free_clusterchain c0 st = Inr (0, st')"
    "\<forall>d. fat_range (tf_info (fst st)) d \<longrightarrow> fat_of st' d = (if d \<in> {c0, c2} then 0 else fat_of st d)"
    using tf_free_clusterchain_effect [OF assms(1), of c0] assms(2) by (metis insertI1)
  then show ?thesis by (intro exI [of _ st']) simp
qed

lemma sample_chain_facts:
  "fat_of sample_vol 3 = 4" "fat_of sample_vol 4 = 5" "fat_of sample_vol 5 = 6"
  "fat_range (tf_info (fst sample_vol)) 3" "fat_range (tf_info (fst sample_vol)) 4" "fat_range (tf_info (fst sample_vol)) 5" "fat_range (tf_info (fst sample_vol)) 6"
  using sample_fat [of 3] sample_fat [of 4] sample_fat [of 5] sample_range [of 3] sample_range [of 4] sample_range [of 5] sample_range [of 6]
  by (simp_all add: sample_table_def)

text \<open>
  C18: \<^verbatim>\<open>tf_fread\<close> into a kernel object, of bytes of a file whose clusters are linked in the table, up to and including the last byte of the
  file, returns exactly the bytes at the position of the handle, sector by sector and cluster by cluster, moves the handle behind them,
  and changes no sector of the volume. A read that ends at the last byte leaves the size in the handle one too large (\<open>grown\<close>). The
  position behind the bytes is to lie inside the last cluster of the chain: a read that ends with the last cluster adds a cluster to the
  file.
\<close>

theorem tf_fread_reads_file:
  assumes "tf_geometry st" and "tf_chain st cs" and "at_pos (csize st) cs p fp"
    and "p + want \<le> unat (tff_size fp)" and "p + want < length cs * csize st" and "p + want < 2 ^ 32 - 1"
  shows "\<exists>st'. tf_fread me ToObject (int want) fp st =
      Inr (int want, map (file_byte st cs) [p..<p + want], grown (p + want) (moved (csize st) cs (p + want) fp), st') \<and> same_vol st st'"
  using assms by (rule tf_fread_reads)

definition sample_file :: TFFile where
  "sample_file = \<lparr>parentStartCluster = 2, startCluster = 3, currentClusterIdx = 0, currentCluster = 3, tff_byte = 510, tff_pos = 510,
     tff_flags = 2, tff_attributes = 0, tff_mode = 3, tff_size = 2000, tff_name = []\<rparr>"

lemma sample_chain: "tf_geometry sample_vol" "tf_chain sample_vol [3, 4, 5, 6]" "csize sample_vol = 512"
proof -
  have i: "sectorsPerCluster (tf_info (fst sample_vol)) = 1" "firstDataSector (tf_info (fst sample_vol)) = 64" "ti_type (tf_info (fst sample_vol)) = 1"
    by (simp_all add: sample_vol_def sample_tfs_def)
  show "tf_geometry sample_vol" "csize sample_vol = 512" using sample_ok i by (simp_all add: tf_geometry_def csize_def)
  have "data_range (tf_info (fst sample_vol)) 3" "data_range (tf_info (fst sample_vol)) 4" "data_range (tf_info (fst sample_vol)) 5"
    "data_range (tf_info (fst sample_vol)) 6" using i by (simp_all add: data_range_def tf_cluster_base_def VOL_SECTORS_def)
  moreover have "fat_of sample_vol ([3, 4, 5, 6] ! i) = [3, 4, 5, 6] ! Suc i" if "Suc i < 4" for i
  proof -
    from that consider "i = 0" | "i = 1" | "i = 2" by linarith
    then show ?thesis using sample_chain_facts by cases simp_all
  qed
  ultimately show "tf_chain sample_vol [3, 4, 5, 6]" using sample_chain_facts by (simp add: tf_chain_def TF_MARK_EOC32_def)
qed

theorem tf_fread_reads_file_witness:
  "\<exists>fp' st'. tf_fread 2 ToObject 4 sample_file sample_vol = Inr (4, [65, 65, 66, 66], fp', st')"
proof -
  have at: "at_pos (csize sample_vol) [3, 4, 5, 6] 510 sample_file" by (simp add: sample_chain(3) at_pos_def moved_def sample_file_def)
  have v: "vol_sector sample_vol (of_nat k) = replicate 512 (of_nat k)" if "k < 200" "k \<noteq> 32" for k
    using that u32_nat [of k] sample_vol_dev by (auto simp: vol_sector_def sample_disk_def sample_vol_def sample_tfs_def word_unat_eq_iff)
  have "map (file_byte sample_vol [3, 4, 5, 6]) [510..<510 + 4] = [65, 65, 66, 66]"
    using v [of 65] v [of 66] by (simp add: upt_rec file_byte_def vol_byte_def sample_chain(3) tf_cluster_base_def) (simp add: sample_vol_def sample_tfs_def)
  with tf_fread_reads_file [OF sample_chain(1,2) at, of 4 2] show ?thesis
    by (simp add: sample_chain(3) sample_file_def) blast
qed

end
