(* ===== verification/ThinFatNames.thy ===== *)
theory ThinFatNames
  imports ThinFat
begin

unbundle bit_operations_syntax

text \<open>
  Names in the older FAT file system: what \<^verbatim>\<open>strncasecmp\<close> decides, and that the long entries written for a name match exactly the
  names equal to it up to case.
\<close>

section \<open>Long names\<close>

lemma toLowCase_0: "toLowCase c = 0 \<longleftrightarrow> c = 0"
  by (auto simp: toLowCase_def word_le_nat_alt word_unat_eq_iff unat_word_ariths)

text \<open>The comparison of \<open>n\<close> characters of a name without terminator, against bytes that may have one.\<close>

lemma strncasecmp_loop_prefix:
  assumes "0 \<notin> set (take n p)" and "n \<le> length p" and "0 < n"
  shows "strncasecmp_loop p q n = 0 \<longleftrightarrow> n \<le> length q \<and> map toLowCase (take n p) = map toLowCase (take n q)"
  using assms
proof (induction p q n rule: strncasecmp_loop.induct)
  case (1 p q n)
  obtain a p' where p: "p = a # p'" using "1.prems" by (cases p) auto
  obtain m where n: "n = Suc m" using "1.prems" by (cases n) auto
  have a: "a \<noteq> 0" using "1.prems" by (simp add: p n)
  have e: "uint (toLowCase x) - uint (toLowCase y) = 0 \<longleftrightarrow> toLowCase x = toLowCase y" for x y by (simp add: word_uint_eq_iff)
  show ?case
  proof (cases q)
    case Nil
    then show ?thesis using a e [of a 0] toLowCase_0 [of a] toLowCase_0 [of 0] by (subst strncasecmp_loop.simps) (simp add: p n)
  next
    case (Cons b q')
    show ?thesis
    proof (cases "toLowCase a = toLowCase b \<and> m \<noteq> 0")
      case True
      have c: "uint (toLowCase (cat0 p)) - uint (toLowCase (cat0 q)) = 0" "\<not> (cat0 p = 0 \<or> n - 1 = 0)"
        using True a by (simp_all add: p n Cons)
      have "strncasecmp_loop p q n = strncasecmp_loop (tl p) (tl q) (n - 1)" using c by (subst strncasecmp_loop.simps) simp
      also have "\<dots> = 0 \<longleftrightarrow> n - 1 \<le> length (tl q) \<and> map toLowCase (take (n - 1) (tl p)) = map toLowCase (take (n - 1) (tl q))"
        by (rule "1.IH" [OF refl c]) (use "1.prems" True in \<open>auto simp: p n\<close>)
      finally show ?thesis using True by (simp add: p n Cons)
    next
      case False
      then show ?thesis using a e [of a b] by (subst strncasecmp_loop.simps) (auto simp: p n Cons)
    qed
  qed
qed

lemma strncasecmp_prefix:
  assumes "0 \<notin> set (take n p)" and "n \<le> length p"
  shows "strncasecmp False p q n = 0 \<longleftrightarrow> n \<le> length q \<and> map toLowCase (take n p) = map toLowCase (take n q)"
  using strncasecmp_loop_prefix [OF assms] by (auto simp: strncasecmp_def)

text \<open>The bytes the comparison takes from a long entry are the low bytes of its 13 characters.\<close>

definition lfn_bytes :: "cstr \<Rightarrow> u8 list" where
  "lfn_bytes a = take 13 (a @ 0 # replicate 13 0xff)"

lemma char_wchar: "(ucast (ucast c :: u16) :: u8) = c" for c :: u8
  by (auto simp: bit_eq_iff bit_simps dest: bit_imp_le_length)

lemma lfn_name_bytes: "0 \<notin> set a \<Longrightarrow> map (\<lambda>w. ucast w :: u8) (lfn_name a) = lfn_bytes a"
proof -
  assume "0 \<notin> set a"
  then have l: "strlen a = length a" by (induction a) auto
  show ?thesis
    by (intro nth_equalityI) (auto simp: lfn_name_def lfn_bytes_def l nth_append nth_Cons' char_wchar)
qed


lemma strlen_full: "0 \<notin> set a \<Longrightarrow> strlen a = length a"
  by (induction a) auto

lemma created_entry_bytes:
  assumes "length e = 32" and "0 \<notin> set a"
  shows "reformatted (snd (tf_create_lfn_entry a e)) = lfn_bytes a" and "length (snd (tf_create_lfn_entry a e)) = 32"
proof -
  have w: "length (lfn_name a) = 13" by (simp add: lfn_name_def)
  then obtain w0 w1 w2 w3 w4 w5 w6 w7 w8 w9 w10 w11 w12 where ws: "lfn_name a = [w0, w1, w2, w3, w4, w5, w6, w7, w8, w9, w10, w11, w12]"
    by (auto simp: numeral_eq_Suc length_Suc_conv)
  have "reformatted (snd (tf_create_lfn_entry a e)) = map ucast (lfn_name a)"
    using assms(1) by (simp add: reformatted_def tf_create_lfn_entry_def ws wbytes_def bytes16_def splice_nth TF_ATTR_LONG_NAME_def Let_def)
  then show "reformatted (snd (tf_create_lfn_entry a e)) = lfn_bytes a" using lfn_name_bytes [OF assms(2)] by simp
  show "length (snd (tf_create_lfn_entry a e)) = 32" using assms(1) w by (simp add: tf_create_lfn_entry_def Let_def)
qed

lemma lfn_bytes_take:
  assumes b: "0 \<notin> set b" and a: "0 \<notin> set a" and n: "n \<le> length b" "n \<le> 13"
  shows "map toLowCase (take n b) = map toLowCase (take n (lfn_bytes a)) \<longleftrightarrow> n \<le> length a \<and> map toLowCase (take n b) = map toLowCase (take n a)"
proof (cases "n \<le> length a")
  case True
  then show ?thesis using n(2) by (simp add: lfn_bytes_def min_def)
next
  case False
  let ?i = "length a"
  have "?i < length b" using False n by simp
  then have "b ! ?i \<noteq> 0" using b nth_mem by metis
  then have "map toLowCase (take n b) ! ?i \<noteq> 0" using False n by (simp add: toLowCase_0)
  moreover have "map toLowCase (take n (lfn_bytes a)) ! ?i = 0" using False n by (simp add: lfn_bytes_def nth_append toLowCase_0)
  ultimately show ?thesis using False by metis
qed

lemma lfn_bytes_end:
  assumes "0 \<notin> set a" and "n \<le> 13" and "n \<le> length a"
  shows "cat0 (drop n (lfn_bytes a)) = 0 \<longleftrightarrow> n = min 13 (length a)"
proof (cases "n = 13")
  case False
  then have "drop n (lfn_bytes a) = lfn_bytes a ! n # drop (Suc n) (lfn_bytes a)" using assms by (intro Cons_nth_drop_Suc [symmetric]) (simp add: lfn_bytes_def)
  moreover have "lfn_bytes a ! n = (if n = length a then 0 else a ! n)" using False assms by (simp add: lfn_bytes_def nth_append)
  moreover have "a ! n \<noteq> 0" if "n \<noteq> length a" using that assms nth_mem [of n a] by (metis le_neq_implies_less)
  ultimately show ?thesis using False assms by auto
qed (use assms in \<open>simp add: lfn_bytes_def\<close>)

lemma lfn_bytes_match:
  assumes "0 \<notin> set b" and "0 \<notin> set a"
  shows "(if 13 < length b then strncasecmp False b (lfn_bytes a) 13 = 0
          else cat0 (drop (length b) (lfn_bytes a)) = 0 \<and> strncasecmp False b (lfn_bytes a) (length b) = 0)
    \<longleftrightarrow> map toLowCase (take 13 b) = map toLowCase (take 13 a)"
proof -
  have L: "length (lfn_bytes a) = 13" by (simp add: lfn_bytes_def)
  have z: "0 \<notin> set (take n b)" for n using assms(1) in_set_takeD by fastforce
  show ?thesis
  proof (cases "13 < length b")
    case True
    have "13 \<le> length a" if "map toLowCase (take 13 b) = map toLowCase (take 13 a)"
      using that True by (metis length_map length_take min.absorb2 min.cobounded1 less_imp_le)
    then show ?thesis using True L strncasecmp_prefix [OF z, of 13 "lfn_bytes a"] lfn_bytes_take [OF assms, of 13] by auto
  next
    case False
    have l: "length b = min 13 (length a)" if "map toLowCase b = map toLowCase (take 13 a)"
      using that by (metis length_map length_take min.commute)
    have "cat0 (drop (length b) (lfn_bytes a)) = 0 \<and> strncasecmp False b (lfn_bytes a) (length b) = 0 \<longleftrightarrow>
        length b = min 13 (length a) \<and> map toLowCase b = map toLowCase (take (length b) a)"
      using False L strncasecmp_prefix [OF z, of "length b" "lfn_bytes a"] lfn_bytes_take [OF assms, of "length b"]
        lfn_bytes_end [OF assms(2), of "length b"] by fastforce
    also have "\<dots> \<longleftrightarrow> map toLowCase b = map toLowCase (take 13 a)" using l by (auto simp: min_def split: if_splits)
    finally show ?thesis using False by simp
  qed
qed

lemma segment_matches:
  assumes "length e = 32" and "0 \<notin> set a" and "0 \<notin> set b" and "47 \<notin> set b"
  shows "tf_compare_filename_segment (snd (tf_create_lfn_entry a e)) b \<longleftrightarrow> map toLowCase (take 13 b) = map toLowCase (take 13 a)"
proof -
  have "takeWhile (\<lambda>c. c \<noteq> 47 \<and> c \<noteq> 0) b = b" using assms(3,4) by (intro takeWhile_eq_all_conv [THEN iffD2]) auto
  then show ?thesis unfolding tf_compare_filename_segment_def Let_def created_entry_bytes(1) [OF assms(1,2)]
    by (simp only: lfn_bytes_match [OF assms(3,2)])
qed

lemma lfn_entries_count: "0 \<notin> set a \<Longrightarrow> a \<noteq> [] \<Longrightarrow> lfn_entries a = (length a + 12) div 13"
proof (induction a rule: lfn_entries.induct)
  case (1 a)
  have l: "strlen a = length a" using "1.prems" by (simp add: strlen_full)
  show ?case
  proof (cases "13 < length a")
    case True
    then have "lfn_entries (drop 13 a) = (length (drop 13 a) + 12) div 13"
      using "1.prems" by (intro "1.IH") (auto simp: l dest: in_set_dropD)
    moreover obtain m where m: "length a = 13 + m" using True by (metis less_imp_add_positive)
    moreover have "(13 + (m + 12)) div 13 = Suc ((m + 12) div 13)" by simp
    ultimately show ?thesis using True by (subst lfn_entries.simps) (simp add: l add.assoc)
  next
    case False
    moreover have "0 < length a" using "1.prems" by simp
    ultimately have "(length a + 12) div 13 = 1" by (intro div_nat_eqI) (simp_all add: Suc_le_eq)
    then show ?thesis using False by (subst lfn_entries.simps) (simp add: l)
  qed
qed

lemma chunks_eq:
  "length x \<le> 13 * n \<Longrightarrow> length y \<le> 13 * n \<Longrightarrow> (\<And>k. k < n \<Longrightarrow> take 13 (drop (13 * k) x) = take 13 (drop (13 * k) y)) \<Longrightarrow> x = y"
proof (induction n arbitrary: x y)
  case (Suc n)
  have "drop 13 x = drop 13 y"
  proof (rule Suc.IH)
    show "take 13 (drop (13 * k) (drop 13 x)) = take 13 (drop (13 * k) (drop 13 y))" if "k < n" for k
      using Suc.prems(3) [of "Suc k"] that by (simp add: add.commute)
  qed (use Suc.prems in simp_all)
  moreover have "take 13 x = take 13 y" using Suc.prems(3) [of 0] by simp
  ultimately show ?case by (metis append_take_drop_id)
qed simp

text \<open>
  C20: The long entries \<^verbatim>\<open>tf_place_lfn_chain\<close> writes for a name are found by \<^verbatim>\<open>tf_compare_filename\<close>'s segment comparisons exactly for the
  names that are equal up to case, when the names have the same number of segments.
\<close>

theorem tf_long_name_matches:
  assumes "length e = 32" and "0 \<notin> set a" and "a \<noteq> []" and "0 \<notin> set b" and "47 \<notin> set b"
    and "(strlen b + 12) div LFN_ENTRY_CAPACITY = lfn_entries a"
  shows "(\<forall>k < lfn_entries a. tf_compare_filename_segment (snd (tf_create_lfn_entry (drop (13 * k) a) e)) (drop (13 * k) b))
    \<longleftrightarrow> map toLowCase a = map toLowCase b"
proof -
  let ?n = "lfn_entries a"
  have n: "?n = (length a + 12) div 13" "?n = (length b + 12) div 13"
    using assms by (simp_all add: lfn_entries_count strlen_full LFN_ENTRY_CAPACITY_def)
  have "m \<le> 13 * ((m + 12) div 13)" for m :: nat
    using div_mult_mod_eq [of "m + 12" 13] mod_less_divisor [of 13 "m + 12"] by linarith
  then have l: "length a \<le> 13 * ?n" "length b \<le> 13 * ?n" using n by metis+
  have z: "0 \<notin> set (drop k a)" "0 \<notin> set (drop k b)" "47 \<notin> set (drop k b)" for k using assms by (auto dest: in_set_dropD)
  have "(\<forall>k < ?n. tf_compare_filename_segment (snd (tf_create_lfn_entry (drop (13 * k) a) e)) (drop (13 * k) b)) \<longleftrightarrow>
      (\<forall>k < ?n. take 13 (drop (13 * k) (map toLowCase b)) = take 13 (drop (13 * k) (map toLowCase a)))"
    by (simp add: segment_matches [OF assms(1) z(1) z(2) z(3)] take_map drop_map)
  also have "\<dots> \<longleftrightarrow> map toLowCase a = map toLowCase b"
    using chunks_eq [of "map toLowCase b" ?n "map toLowCase a"] l by auto
  finally show ?thesis .
qed

theorem tf_long_name_matches_witness:
  "tf_compare_filename_segment (snd (tf_create_lfn_entry [82, 69, 65, 68, 77, 69, 46, 116, 101, 120, 116] (replicate 32 0)))
     [114, 101, 97, 100, 109, 101, 46, 84, 69, 88, 84]"
proof -
  let ?a = "[82, 69, 65, 68, 77, 69, 46, 116, 101, 120, 116] :: cstr" and ?b = "[114, 101, 97, 100, 109, 101, 46, 84, 69, 88, 84] :: cstr"
  have n: "lfn_entries ?a = 1" using lfn_entries_count [of ?a] by simp
  have m: "map toLowCase ?a = map toLowCase ?b" by code_simp
  have "(\<forall>k < lfn_entries ?a. tf_compare_filename_segment (snd (tf_create_lfn_entry (drop (13 * k) ?a) (replicate 32 0))) (drop (13 * k) ?b))
      \<longleftrightarrow> map toLowCase ?a = map toLowCase ?b"
    by (rule tf_long_name_matches) (simp_all add: n LFN_ENTRY_CAPACITY_def)
  then have "\<forall>k < 1. tf_compare_filename_segment (snd (tf_create_lfn_entry (drop (13 * k) ?a) (replicate 32 0))) (drop (13 * k) ?b)"
    using m unfolding n by blast
  from this [rule_format, of 0] show ?thesis by (simp only: mult_0_right drop_0 zero_less_one)
qed

end
