(* ===== verification/OldVfs.thy ===== *)
theory OldVfs
  imports ThinFat Traps
begin

unbundle bit_operations_syntax

text \<open>
  The older file-system layer, \<^verbatim>\<open>src/kernel/fs/vfs/Vfs.cpp\<close> with \<^verbatim>\<open>src/kernel/fs/devfs/DeviceFileSystem.cpp\<close>, the methods of
  \<^verbatim>\<open>Fat32FileSystem\<close> in \<^verbatim>\<open>src/kernel/fs/fat32/Fat.cpp\<close>, and the system calls that use it: the table of mounted file systems, its own
  table of files, resolution of a path to a mounted file system, \<^verbatim>\<open>mkdirat\<close>, \<^verbatim>\<open>chdir\<close>, \<^verbatim>\<open>mount\<close> and \<^verbatim>\<open>umount\<close>.
\<close>

section \<open>State\<close>

text \<open>
  A file system of the older layer: its mount point, the device path, and its volume when it is a FAT file system. A
  file object of \<^verbatim>\<open>vfs::fileTable\<close>.
\<close>

record old_fs =
  mountPoint :: cstr
  specialDev :: cstr
  volume :: "tfs option"

record old_file =
  of_path :: cstr
  of_directory :: bool
  of_size :: nat
  of_ref :: int
  of_readable :: bool
  of_writable :: bool
  of_type :: fdtype
  of_pipe :: "nat option"
  of_offset :: nat

text \<open>
  \<open>file_paths\<close> is what a file object of the newer layer has in \<^verbatim>\<open>filepath\<close>, which that layer never sets; \<open>heap_volume\<close> what
  the heap leaves in a new \<^verbatim>\<open>Fat32FileSystem\<close>. The tasks that use the FAT file systems exclude each other by \<^verbatim>\<open>sleep_lock\<close>.
\<close>

record kold = kfs +
  mountedFS :: "old_fs option list"
  fileTable :: "old_file list"
  sleep_lock :: bool
  file_paths :: "nat \<Rightarrow> u8 list"
  heap_volume :: tfs

definition NFILESYSTEM :: nat where "NFILESYSTEM = 5"
definition MAXFSTYPE :: nat where "MAXFSTYPE = 10"
definition AT_FDCWD :: int where "AT_FDCWD = - 100"

definition zero_file :: old_file where
  "zero_file = \<lparr>of_path = [], of_directory = False, of_size = 0, of_ref = 0, of_readable = False, of_writable = False,
     of_type = FD_NONE, of_pipe = None, of_offset = 0\<rparr>"

definition allocFileHandle :: "'a kold_scheme \<Rightarrow> (nat \<times> 'a kold_scheme) result" where
  "allocFileHandle s =
     (case List.find (\<lambda>i. of_ref (fileTable s ! i) = 0 \<and> of_type (fileTable s ! i) = FD_NONE) [0..<NFILE] of
        None \<Rightarrow> Inl (Panic ''alloc file'')
      | Some i \<Rightarrow> Inr (i, s\<lparr>fileTable := (fileTable s)[i := (fileTable s ! i)\<lparr>of_ref := 1\<rparr>]\<rparr>))"

definition freeFileHandle :: "nat \<Rightarrow> 'a kold_scheme \<Rightarrow> 'a kold_scheme" where
  "freeFileHandle f s = s\<lparr>fileTable := (fileTable s)[f := zero_file]\<rparr>"

section \<open>The file systems\<close>

definition fat_lock :: "'a kold_scheme \<Rightarrow> 'a kold_scheme result" where
  "fat_lock s = (if sleep_lock s then Inl (Stuck ''sleep_lock'') else Inr (s\<lparr>sleep_lock := True\<rparr>))"

definition fat_unlock :: "'a kold_scheme \<Rightarrow> 'a kold_scheme" where
  "fat_unlock s = s\<lparr>sleep_lock := False\<rparr>"

definition fat_init :: "nat \<Rightarrow> tfs \<times> 'a kold_scheme \<Rightarrow> (tfs \<times> 'a kold_scheme) result" where
  "fat_init me st =
     bindr (tf_init me (fst st, fat_unlock (snd st))) (\<lambda>(rc, st1). if rc \<noteq> 0 then Inl (Panic ''fat32 init'') else Inr st1)"

definition fat_open ::
  "nat \<Rightarrow> cstr \<Rightarrow> nat \<Rightarrow> old_file \<Rightarrow> tfs \<times> 'a kold_scheme \<Rightarrow> (int \<times> old_file \<times> tfs \<times> 'a kold_scheme) result" where
  "fat_open me path flags fp st =
     bindr (fat_lock (snd st)) (\<lambda>s0.
       bindr (tf_fopen me path (if flags AND O_CREATE \<noteq> 0 then mode_w else mode_r) (fst st, s0)) (\<lambda>(h, st1).
         bindr (if h = None \<and> flags = O_DIRECTORY
                then bindr (tf_mkdir me path st1) (\<lambda>(rc, st2). tf_fopen me path mode_r st2) else Inr (h, st1)) (\<lambda>(h, t, s).
           case h of None \<Rightarrow> Inr (- 1, fp, t, fat_unlock s)
           | Some i \<Rightarrow>
               let tf = tf_file_handles t ! i; dir = (tff_attributes tf AND TF_ATTR_DIRECTORY \<noteq> 0) in
               bindr (tf_fclose me h (t, s)) (\<lambda>(rc, t2, s2).
                 if flags = O_DIRECTORY \<and> \<not> dir then Inr (- 1, fp, t2, fat_unlock s2)
                 else Inr (0, fp\<lparr>of_size := unat (tff_size tf), of_type := FD_ENTRY, of_directory := dir\<rparr>, t2, fat_unlock s2)))))"

definition fat_mkdir :: "nat \<Rightarrow> cstr \<Rightarrow> tfs \<times> 'a kold_scheme \<Rightarrow> (int \<times> tfs \<times> 'a kold_scheme) result" where
  "fat_mkdir me path st =
     bindr (fat_lock (snd st)) (\<lambda>s0. bindr (tf_mkdir me path (fst st, s0)) (\<lambda>(rc, t, s). Inr (rc, t, fat_unlock s)))"

text \<open>A read at or past the end returns with the lock taken and the handle open.\<close>

definition fat_read ::
  "nat \<Rightarrow> cstr \<Rightarrow> sink \<Rightarrow> int \<Rightarrow> int \<Rightarrow> tfs \<times> 'a kold_scheme \<Rightarrow> (int \<times> u8 list \<times> tfs \<times> 'a kold_scheme) result" where
  "fat_read me path dest offset n st =
     bindr (fat_lock (snd st)) (\<lambda>s0.
       bindr (tf_fopen me path mode_r (fst st, s0)) (\<lambda>(h, t, s).
         case h of None \<Rightarrow> Inr (- 1, [], t, fat_unlock s)
         | Some i \<Rightarrow>
             if tff_size (tf_file_handles t ! i) \<le> of_int offset then Inr (0, [], t, s)
             else bindr (on_handle h (\<lambda>fp. tf_fseek fp 0 offset) (t, s)) (\<lambda>(rc, st1).
               bindr (on_handle h (\<lambda>fp st. bindr (tf_fread me dest n fp st) (\<lambda>(x, bs, fp1, st1). Inr ((x, bs), fp1, st1))) st1) (\<lambda>((x, bs), st2).
                 bindr (tf_fclose me h st2) (\<lambda>(rc, t3, s3). Inr (x, bs, t3, fat_unlock s3))))))"

definition fat_write ::
  "nat \<Rightarrow> cstr \<Rightarrow> source \<Rightarrow> int \<Rightarrow> int \<Rightarrow> tfs \<times> 'a kold_scheme \<Rightarrow> (int \<times> tfs \<times> 'a kold_scheme) result" where
  "fat_write me path src offset n st =
     bindr (fat_lock (snd st)) (\<lambda>s0.
       bindr (tf_fopen me path mode_plus (fst st, s0)) (\<lambda>(h, st1).
         bindr (on_handle h (\<lambda>fp. tf_fseek fp 0 offset) st1) (\<lambda>(rc, st2).
           bindr (on_handle h (tf_fwrite me src n) st2) (\<lambda>(x, st3).
             bindr (tf_fclose me h st3) (\<lambda>(rc, t4, s4). Inr (x, t4, fat_unlock s4))))))"

definition fat_get_file :: "nat \<Rightarrow> cstr \<Rightarrow> old_file \<Rightarrow> tfs \<times> 'a kold_scheme \<Rightarrow> (int \<times> old_file \<times> tfs \<times> 'a kold_scheme) result" where
  "fat_get_file me path fp st =
     bindr (tf_fopen me path mode_r st) (\<lambda>(h, st1).
       case h of None \<Rightarrow> Inr (- 1, fp, st1)
       | Some i \<Rightarrow> bindr (tf_fclose me h st1) (\<lambda>(rc, st2).
           Inr (0, fp\<lparr>of_size := unat (tff_size (tf_file_handles (fst st1) ! i)), of_type := FD_ENTRY\<rparr>, st2)))"

definition fat_touch :: "nat \<Rightarrow> cstr \<Rightarrow> tfs \<times> 'a kold_scheme \<Rightarrow> (int \<times> tfs \<times> 'a kold_scheme) result" where
  "fat_touch me path st = bindr (tf_create me path st) (\<lambda>(rc, st1). Inr (0, st1))"

definition fat_rm :: "nat \<Rightarrow> cstr \<Rightarrow> tfs \<times> 'a kold_scheme \<Rightarrow> (int \<times> tfs \<times> 'a kold_scheme) result" where
  "fat_rm me path st = bindr (tf_remove me path st) (\<lambda>(rc, st1). Inr (0, st1))"

section \<open>Mounting\<close>

text \<open>
  \<^verbatim>\<open>getFs\<close>: the mounted file system with the longest matching mount point, the first slot when there is none. The loop over a
  mount point also ends when the character of the path at the index of the \<^emph>\<open>slot\<close> is the terminator.
\<close>

fun prefix_of :: "cstr \<Rightarrow> cstr \<Rightarrow> bool" where
  "prefix_of [] path = True"
| "prefix_of (c # mp) path = (c = cat0 path \<and> prefix_of mp (tl path))"

definition fs_matches :: "cstr \<Rightarrow> nat \<Rightarrow> old_fs \<Rightarrow> bool" where
  "fs_matches path i fs = (cat0 (drop i path) = 0 \<or> prefix_of (mountPoint fs) path)"

definition scan_slot :: "cstr \<Rightarrow> old_fs option list \<Rightarrow> nat \<times> nat \<Rightarrow> nat \<Rightarrow> nat \<times> nat" where
  "scan_slot path ms = (\<lambda>(best, len) i. case ms ! i of None \<Rightarrow> (best, len)
     | Some fs \<Rightarrow> if fs_matches path i fs \<and> length (mountPoint fs) > len then (i, length (mountPoint fs)) else (best, len))"

definition getFs :: "cstr \<Rightarrow> 'a kold_scheme \<Rightarrow> nat" where
  "getFs path s = fst (foldl (scan_slot path (mountedFS s)) (0, 0) [0..<NFILESYSTEM])"

text \<open>The paths are arrays of 64 characters; one without a terminator runs into what follows it.\<close>

definition path_string :: "u8 list \<Rightarrow> cstr result" where
  "path_string bs = (if 0 \<in> set bs then Inr (takeWhile (\<lambda>c. c \<noteq> 0) bs) else Inl (BadAccess ''path''))"

definition absolute :: "nat \<Rightarrow> cstr \<Rightarrow> 'a kold_scheme \<Rightarrow> cstr result" where
  "absolute me path s = bindr (getAbsolutePath me path s) path_string"

datatype FileSystemType = FAT32_TYPE | SYSFS | DEVFS | PROCFS | UNKNOWN

definition createFileSystem :: "FileSystemType \<Rightarrow> cstr \<Rightarrow> cstr \<Rightarrow> 'a kold_scheme \<Rightarrow> old_fs result" where
  "createFileSystem type mp special s =
     (case type of
        DEVFS \<Rightarrow> Inr \<lparr>mountPoint = mp, specialDev = special, volume = None\<rparr>
      | FAT32_TYPE \<Rightarrow>
          bindr (last_part special) (\<lambda>name.
            Inr \<lparr>mountPoint = mp, specialDev = special, volume = Some ((heap_volume s)\<lparr>tf_dev := FindDevByName name s\<rparr>)\<rparr>)
      | _ \<Rightarrow> Inl (Panic ''create file system''))"

definition mount_old :: "nat \<Rightarrow> FileSystemType \<Rightarrow> cstr \<Rightarrow> cstr \<Rightarrow> 'a kold_scheme \<Rightarrow> (int \<times> 'a kold_scheme) result" where
  "mount_old me type mp special s =
     bindr (absolute me mp s) (\<lambda>amp.
       bindr (createFileSystem type amp special s) (\<lambda>fs.
         bindr (case volume fs of None \<Rightarrow> Inr (fs, s)
                | Some t \<Rightarrow> bindr (fat_init me (t, s)) (\<lambda>(t1, s1). Inr (fs\<lparr>volume := Some t1\<rparr>, s1))) (\<lambda>(fs1, s1).
           case List.find (\<lambda>i. mountedFS s1 ! i = None) [0..<NFILESYSTEM] of
             None \<Rightarrow> Inl (Panic ''mount file system'')
           | Some i \<Rightarrow> Inr (0, s1\<lparr>mountedFS := (mountedFS s1)[i := Some fs1]\<rparr>))))"

definition umount_old :: "nat \<Rightarrow> cstr \<Rightarrow> 'a kold_scheme \<Rightarrow> (int \<times> 'a kold_scheme) result" where
  "umount_old me mpdir s =
     bindr (absolute me mpdir s) (\<lambda>amp.
       case List.find (\<lambda>i. case mountedFS s ! i of None \<Rightarrow> False
                           | Some fs \<Rightarrow> strncmp (mountPoint fs) amp (max (length (mountPoint fs)) (length amp)) = 0) [0..<NFILESYSTEM] of
         None \<Rightarrow> Inr (- 1, s)
       | Some i \<Rightarrow> Inr (0, s\<lparr>mountedFS := (mountedFS s)[i := None]\<rparr>))"

definition hda1_path :: cstr where "hda1_path = [47, 100, 101, 118, 47, 104, 100, 97, 49]"

definition vfs_init :: "nat \<Rightarrow> 'a kold_scheme \<Rightarrow> 'a kold_scheme result" where
  "vfs_init me s =
     bindr (mount_old me DEVFS dev_path [] (s\<lparr>mountedFS := replicate NFILESYSTEM None, fileTable := replicate NFILE zero_file\<rparr>)) (\<lambda>(r, s1).
       bindr (mount_old me FAT32_TYPE [47] hda1_path s1) (\<lambda>(r, s2). Inr s2))"

section \<open>Calls to the file system of a path\<close>

text \<open>A virtual call on the file system in a slot: one function for the device file system, one for a volume.\<close>

definition fs_call ::
  "nat \<Rightarrow> ('a kold_scheme \<Rightarrow> ('r \<times> 'a kold_scheme) result) \<Rightarrow> (tfs \<times> 'a kold_scheme \<Rightarrow> ('r \<times> tfs \<times> 'a kold_scheme) result)
   \<Rightarrow> 'a kold_scheme \<Rightarrow> ('r \<times> 'a kold_scheme) result" where
  "fs_call i dev_op fat_op s =
     (case mountedFS s ! i of None \<Rightarrow> Inl (BadAccess ''fs'')
      | Some fs \<Rightarrow> (case volume fs of None \<Rightarrow> dev_op s
          | Some t \<Rightarrow> bindr (fat_op (t, s)) (\<lambda>(r, t1, s1).
              Inr (r, s1\<lparr>mountedFS := (mountedFS s1)[i := Some (fs\<lparr>volume := Some t1\<rparr>)]\<rparr>))))"

definition fs_open :: "nat \<Rightarrow> nat \<Rightarrow> cstr \<Rightarrow> nat \<Rightarrow> nat \<Rightarrow> 'a kold_scheme \<Rightarrow> (int \<times> 'a kold_scheme) result" where
  "fs_open me i path flags fp s =
     bindr (fs_call i (\<lambda>s. Inr ((0, (fileTable s ! fp)\<lparr>of_type := FD_DEVICE, of_directory := False\<rparr>), s))
              (\<lambda>st. bindr (fat_open me path flags (fileTable s ! fp) st) (\<lambda>(rc, f, st1). Inr ((rc, f), st1))) s) (\<lambda>((rc, f), s1).
       Inr (rc, s1\<lparr>fileTable := (fileTable s1)[fp := f]\<rparr>))"

definition tty_path :: cstr where "tty_path = [47, 100, 101, 118, 47, 116, 116, 121]"
definition vda2_path :: cstr where "vda2_path = [47, 100, 101, 118, 47, 118, 100, 97, 50]"

text \<open>\<^verbatim>\<open>DeviceFileSystem::read\<close> and \<^verbatim>\<open>write\<close>; the disks are known on the K210 only.\<close>

definition device_read ::
  "platform \<Rightarrow> nat \<Rightarrow> cstr \<Rightarrow> sink \<Rightarrow> nat \<Rightarrow> int \<Rightarrow> int \<Rightarrow> 'a kold_scheme \<Rightarrow> (int outcome \<times> nat \<times> 'a kold_scheme) result" where
  "device_read pf me path dst tot offset n s =
     (if strncmp path tty_path (length path) = 0 then console_read me dst tot n s
      else if pf \<noteq> K210 then Inr (Done 0, 0, s)
      else if strncmp path vda2_path (length path) = 0 \<or> strncmp path hda1_path (length hda1_path) = 0
      then bindr (RwDevRead 0 (nat offset) (nat n) s) (\<lambda>(r, bs).
             case dst of ToKernel a \<Rightarrow> Inr (Done 0, 0, s\<lparr>mem := write_bytes (mem s) a bs\<rparr>) | _ \<Rightarrow> Inl (BadAccess ''user address''))
      else Inl (Panic ''not support path''))"

definition device_write :: "platform \<Rightarrow> nat \<Rightarrow> cstr \<Rightarrow> source \<Rightarrow> int \<Rightarrow> int \<Rightarrow> 'a kold_scheme \<Rightarrow> (int \<times> 'a kold_scheme) result" where
  "device_write pf me path src offset n s =
     (if strncmp path tty_path (length path) = 0 then console_write me src n s
      else if pf \<noteq> K210 then Inr (0, s)
      else if strncmp path vda2_path (length vda2_path) = 0 \<or> strncmp path hda1_path (length hda1_path) = 0
      then (case src of FromUser va \<Rightarrow> Inl (BadAccess ''user address'')
            | FromKernel pa \<Rightarrow> bindr (RwDevWrite 0 (nat offset) (read_bytes (mem s) pa (nat n)) s) (\<lambda>(r, s1). Inr (0, s1))
            | FromObject bs \<Rightarrow> bindr (RwDevWrite 0 (nat offset) (take (nat n) bs) s) (\<lambda>(r, s1). Inr (0, s1)))
      else Inl (Panic ''not support path''))"

text \<open>The virtual calls \<^verbatim>\<open>mkdir\<close>, \<^verbatim>\<open>rm\<close>, \<^verbatim>\<open>read\<close> and \<^verbatim>\<open>write\<close>.\<close>

definition fs_mkdir :: "nat \<Rightarrow> nat \<Rightarrow> cstr \<Rightarrow> 'a kold_scheme \<Rightarrow> (int \<times> 'a kold_scheme) result" where
  "fs_mkdir me i path = fs_call i (\<lambda>s. Inr (- 1, s)) (fat_mkdir me path)"

definition fs_rm :: "nat \<Rightarrow> nat \<Rightarrow> cstr \<Rightarrow> 'a kold_scheme \<Rightarrow> (int \<times> 'a kold_scheme) result" where
  "fs_rm me i path = fs_call i (\<lambda>s. Inr (0, s)) (fat_rm me path)"

definition fs_read ::
  "platform \<Rightarrow> nat \<Rightarrow> nat \<Rightarrow> cstr \<Rightarrow> sink \<Rightarrow> nat \<Rightarrow> int \<Rightarrow> int \<Rightarrow> 'a kold_scheme \<Rightarrow> ((int outcome \<times> nat) \<times> 'a kold_scheme) result" where
  "fs_read pf me i path dst tot offset n =
     fs_call i (\<lambda>s. bindr (device_read pf me path dst tot offset n s) (\<lambda>(r, t, s1). Inr ((r, t), s1)))
       (\<lambda>st. bindr (fat_read me path dst offset n st) (\<lambda>(r, bs, st1). Inr ((Done r, 0), st1)))"

definition fs_write ::
  "platform \<Rightarrow> nat \<Rightarrow> nat \<Rightarrow> cstr \<Rightarrow> source \<Rightarrow> int \<Rightarrow> int \<Rightarrow> 'a kold_scheme \<Rightarrow> (int \<times> 'a kold_scheme) result" where
  "fs_write pf me i path src offset n =
     fs_call i (device_write pf me path src offset n) (fat_write me path src offset n)"

section \<open>Files of the older layer\<close>

definition upd_old :: "nat \<Rightarrow> (old_file \<Rightarrow> old_file) \<Rightarrow> 'a kold_scheme \<Rightarrow> 'a kold_scheme" where
  "upd_old fp g s = s\<lparr>fileTable := (fileTable s)[fp := g (fileTable s ! fp)]\<rparr>"

text \<open>\<^verbatim>\<open>vfs::read\<close> and \<^verbatim>\<open>vfs::write\<close> on a file object; \<open>tot\<close> is what a console read has put before it waited.\<close>

definition old_file_read ::
  "platform \<Rightarrow> nat \<Rightarrow> nat \<Rightarrow> sink \<Rightarrow> u64 \<Rightarrow> nat \<Rightarrow> u32 \<Rightarrow> 'a kold_scheme \<Rightarrow> ((int outcome \<times> nat) \<times> 'a kold_scheme) result" where
  "old_file_read pf me fp dst va tot n s =
     (let f = fileTable s ! fp; i = getFs (of_path f) s in
      if \<not> of_readable f then Inr ((Done (- 1), 0), s)
      else case of_type f of
        FD_PIPE \<Rightarrow> bindr (nonnull ''pipe'' (of_pipe f)) (\<lambda>p. bindr (pipe_read me p va (sint n) s) (\<lambda>(r, s1). Inr ((r, 0), s1)))
      | FD_DEVICE \<Rightarrow> fs_read pf me i (of_path f) dst tot 0 (sint n) s
      | FD_ENTRY \<Rightarrow>
          bindr (fs_read pf me i (of_path f) dst tot (int (of_offset f)) (sint n) s) (\<lambda>((r, t), s1).
            case r of Sleep c \<Rightarrow> Inr ((r, t), s1)
            | Done k \<Rightarrow> Inr ((r, t), upd_old fp (\<lambda>x. x\<lparr>of_offset := add_size (of_offset x) k\<rparr>) s1))
      | _ \<Rightarrow> Inl (Panic ''vfs::read''))"

definition old_file_write ::
  "platform \<Rightarrow> nat \<Rightarrow> nat \<Rightarrow> source \<Rightarrow> u64 \<Rightarrow> nat \<Rightarrow> u32 \<Rightarrow> 'a kold_scheme \<Rightarrow> (int outcome \<times> nat \<times> 'a kold_scheme) result" where
  "old_file_write pf me fp src va done n s =
     (let f = fileTable s ! fp; i = getFs (of_path f) s in
      if \<not> of_writable f then Inr (Done (- 1), 0, s)
      else case of_type f of
        FD_PIPE \<Rightarrow> bindr (nonnull ''pipe'' (of_pipe f)) (\<lambda>p. pipe_write me p va done (sint n) s)
      | FD_DEVICE \<Rightarrow> bindr (fs_write pf me i (of_path f) src 0 (sint n) s) (\<lambda>(k, s1). Inr (Done k, 0, s1))
      | FD_ENTRY \<Rightarrow>
          bindr (fs_write pf me i (of_path f) src (int (of_offset f)) (sint n) s) (\<lambda>(k, s1).
            Inr (Done k, 0, upd_old fp (\<lambda>x.
              let e = add_size (of_offset x) k in x\<lparr>of_size := (if e < of_size x then of_size x else e), of_offset := e\<rparr>) s1))
      | _ \<Rightarrow> Inl (Panic ''vfs::write''))"

definition old_dup :: "nat \<Rightarrow> 'a kold_scheme \<Rightarrow> (nat \<times> 'a kold_scheme) result" where
  "old_dup fp s = (if of_ref (fileTable s ! fp) < 1 then Inl (Panic ''vfs::dup'') else Inr (fp, upd_old fp (\<lambda>x. x\<lparr>of_ref := of_ref x + 1\<rparr>) s))"

definition old_rewind :: "nat \<Rightarrow> 'a kold_scheme \<Rightarrow> (nat \<times> 'a kold_scheme) result" where
  "old_rewind fp s = (if of_ref (fileTable s ! fp) < 1 then Inl (Panic ''filerewind'') else Inr (fp, upd_old fp (\<lambda>x. x\<lparr>of_offset := 0\<rparr>) s))"

section \<open>Directories\<close>

text \<open>
  The path an operation relative to a directory works on. For a descriptor it is the path field of its file, which the newer
  layer never sets, followed by the path, with no separator.
\<close>

definition path_at :: "nat \<Rightarrow> int \<Rightarrow> cstr \<Rightarrow> 'a kold_scheme \<Rightarrow> cstr result" where
  "path_at me dirfd path s =
     (let p = takeWhile (\<lambda>c. c \<noteq> 0) path in
      if dirfd = AT_FDCWD then absolute me path s
      else if cat0 p = 47 then path_string (take MAXPATH (p @ replicate MAXPATH 0))
      else bindr (getFileByfd me dirfd s) (\<lambda>fo. bindr (nonnull ''file'' fo) (\<lambda>fp.
        let q = takeWhile (\<lambda>c. c \<noteq> 0) (file_paths s fp) @ p in
        if MAXPATH < length q then Inl (BadAccess ''path'') else path_string (take MAXPATH (q @ replicate MAXPATH 0)))))"

definition mkdirat :: "nat \<Rightarrow> int \<Rightarrow> cstr \<Rightarrow> 'a kold_scheme \<Rightarrow> (int \<times> 'a kold_scheme) result" where
  "mkdirat me dirfd path s = bindr (path_at me dirfd path s) (\<lambda>p. fs_mkdir me (getFs p s) p s)"

definition rm_old :: "nat \<Rightarrow> int \<Rightarrow> cstr \<Rightarrow> 'a kold_scheme \<Rightarrow> (int \<times> 'a kold_scheme) result" where
  "rm_old me dirfd path s = bindr (path_at me dirfd path s) (\<lambda>p. fs_rm me (getFs p s) p s)"

text \<open>\<^verbatim>\<open>chdir\<close> leaves its file object allocated when the open fails.\<close>

definition chdir :: "nat \<Rightarrow> cstr \<Rightarrow> 'a kold_scheme \<Rightarrow> (int \<times> 'a kold_scheme) result" where
  "chdir me path s =
     bindr (allocFileHandle s) (\<lambda>(fp, s1).
       bindr (absolute me path s1) (\<lambda>p.
         bindr (fs_open me (getFs p s1) p 0 fp s1) (\<lambda>(rc, s2).
           if rc < 0 then Inr (- 1, s2)
           else if \<not> of_directory (fileTable s2 ! fp) then Inr (- 1, freeFileHandle fp s2)
           else
             let q = (if last p \<noteq> 47 then p @ [47] else p) in
             if p = [] \<or> MAXPATH \<le> length q then Inl (BadAccess ''path'')
             else Inr (0, freeFileHandle fp (upd_task me (\<lambda>t. t\<lparr>t_currentDir := splice 0 (q @ [0]) (t_currentDir t)\<rparr>) s2)))))"

section \<open>System calls\<close>

definition vfat_name :: cstr where "vfat_name = [118, 102, 97, 116]"

definition sys_mkdirat :: "nat \<Rightarrow> 'a kold_scheme \<Rightarrow> 'a kold_scheme sysres" where
  "sys_mkdirat me s =
     bindr (argstr me 1 MAXPATH s) (\<lambda>(n, path, s1).
       if n < 0 then ret (- 1) s1 else bindr (mkdirat me (sint (argint me 0 s1)) path s1) (\<lambda>(r, s2). ret 0 s2))"

definition sys_chdir :: "nat \<Rightarrow> 'a kold_scheme \<Rightarrow> 'a kold_scheme sysres" where
  "sys_chdir me s =
     bindr (argstr me 0 MAXPATH s) (\<lambda>(n, path, s1).
       if n < 0 then ret (- 1) s1 else bindr (chdir me path s1) (\<lambda>(r, s2). ret r s2))"

definition sys_mount :: "nat \<Rightarrow> 'a kold_scheme \<Rightarrow> 'a kold_scheme sysres" where
  "sys_mount me s =
     bindr (argstr me 0 MAXPATH s) (\<lambda>(n0, special, s1).
       if n0 < 0 then ret (- 1) s1
       else bindr (argstr me 1 MAXPATH s1) (\<lambda>(n1, dir, s2).
         if n1 < 0 then ret (- 1) s2
         else bindr (argstr me 2 MAXFSTYPE s2) (\<lambda>(n2, fstype, s3).
           if n2 < 0 then ret (- 1) s3
           else if strncmp fstype vfat_name 4 \<noteq> 0 then ret (- 1) s3
           else bindr (mount_old me FAT32_TYPE dir (takeWhile (\<lambda>c. c \<noteq> 0) special) s3) (\<lambda>(r, s4). ret 0 s4))))"

definition sys_umount2 :: "nat \<Rightarrow> 'a kold_scheme \<Rightarrow> 'a kold_scheme sysres" where
  "sys_umount2 me s =
     bindr (argstr me 0 MAXPATH s) (\<lambda>(n, dir, s1).
       if n < 0 then ret (- 1) s1 else bindr (umount_old me dir s1) (\<lambda>(r, s2). ret r s2))"

section \<open>Listing a directory\<close>

text \<open>
  \<^verbatim>\<open>Fat32FileSystem::ls\<close> writes records of 19 bytes and a name at the caller's buffer; the results of the copies are only looked at
  for the first part of a long name.
\<close>

definition DIENT_BASE_LEN :: nat where "DIENT_BASE_LEN = 19"

definition copy_to :: "nat \<Rightarrow> bool \<Rightarrow> u64 \<Rightarrow> u8 list \<Rightarrow> 'a ktasks_scheme \<Rightarrow> (int \<times> 'a ktasks_scheme) result" where
  "copy_to me user dst bs s = either_copyout (t_pagetable (the_task s me)) user dst bs s"

definition tf_copysfn :: "nat \<Rightarrow> u8 list \<Rightarrow> u64 \<Rightarrow> bool \<Rightarrow> 'a ktasks_scheme \<Rightarrow> (nat \<times> 'a ktasks_scheme) result" where
  "tf_copysfn me sfn dst user s =
     (let base = takeWhile (\<lambda>c. c \<noteq> 32) (take 8 sfn); ext = takeWhile (\<lambda>c. c \<noteq> 32) (take 3 (drop 8 sfn)); n = length base in
      bindr (copy_to me user dst base s) (\<lambda>(r, s1).
        if ext = [] then Inr (n, s1)
        else bindr (copy_to me user (dst + of_nat n) [46] s1) (\<lambda>(r, s2).
          bindr (copy_to me user (dst + of_nat (n + 1)) ext s2) (\<lambda>(r, s3). Inr (n + 1 + length ext, s3)))))"

text \<open>The characters of one part of a long entry up to the filler, cut to bytes.\<close>

definition lfn_part :: "u8 list \<Rightarrow> nat \<Rightarrow> nat \<Rightarrow> u8 list" where
  "lfn_part e off k = map ucast (takeWhile (\<lambda>w. w \<noteq> 0xffff) (map (\<lambda>i. get16 e (off + 2 * i)) [0..<k]))"

definition tf_copylfn :: "nat \<Rightarrow> u8 list \<Rightarrow> u64 \<Rightarrow> bool \<Rightarrow> 'a ktasks_scheme \<Rightarrow> (nat \<times> 'a ktasks_scheme) result" where
  "tf_copylfn me e dst user s =
     (let sno = (ucast (e ! 0 AND NOT 0x40) :: u64); at = dst + 13 * (sno - 1);
          p1 = lfn_part e 1 5; p2 = lfn_part e 14 6; p3 = lfn_part e 28 2 in
      bindr (copy_to me user at p1 s) (\<lambda>(r, s1).
        if r < 0 then Inl (Panic ''either copyout'')
        else bindr (copy_to me user (at + of_nat (length p1)) p2 s1) (\<lambda>(r, s2).
          bindr (copy_to me user (at + of_nat (length (p1 @ p2))) p3 s2) (\<lambda>(r, s3). Inr (length (p1 @ p2 @ p3), s3)))))"

primrec copy_lfns ::
  "nat \<Rightarrow> nat \<Rightarrow> u64 \<Rightarrow> bool \<Rightarrow> nat \<Rightarrow> u8 list \<Rightarrow> TFFile \<Rightarrow> tfs \<times> 'a kfat_scheme \<Rightarrow> (nat option \<times> u8 list \<times> TFFile \<times> tfs \<times> 'a kfat_scheme) result" where
  "copy_lfns 0 me dst user n e fp st = Inr (Some n, e, fp, st)"
| "copy_lfns (Suc k) me dst user n e fp st =
     bindr (tf_fread me ToObject 32 fp st) (\<lambda>(r, bs, fp1, t1, s1).
       let e1 = splice 0 bs e in
       if r \<noteq> 32 \<or> e1 ! 11 \<noteq> TF_ATTR_LONG_NAME then Inr (None, e1, fp1, t1, s1)
       else bindr (tf_copylfn me e1 dst user s1) (\<lambda>(m, s2). copy_lfns k me dst user (n + m) e1 fp1 (t1, s2)))"

definition dirent_head :: "u8 list \<Rightarrow> u64 \<Rightarrow> nat \<Rightarrow> u8 list" where
  "dirent_head e contents reclen =
     bytes64 (ucast (get16 e 26)) @ bytes64 (contents + of_nat reclen) @ bytes16 (of_nat reclen) @
     [if e ! 11 AND TF_ATTR_DIRECTORY \<noteq> 0 then 4 else 1]"

text \<open>
  The loop. The flag of the result tells whether the handle is closed: the two tests at the start of a round return with it open.
\<close>

fun ls_loop ::
  "nat \<Rightarrow> nat \<Rightarrow> u64 \<Rightarrow> int \<Rightarrow> bool \<Rightarrow> nat \<Rightarrow> u8 list \<Rightarrow> TFFile \<Rightarrow> tfs \<times> 'a kfat_scheme \<Rightarrow> ((int \<times> bool) \<times> TFFile \<times> tfs \<times> 'a kfat_scheme) result" where
  "ls_loop 0 me contents len user readn e fp st = Inl (Stuck ''ls'')"
| "ls_loop (Suc k) me contents len user readn e fp st =
     bindr (tf_fread me ToObject 32 fp st) (\<lambda>(r, bs, fp1, t1, s1).
       let e1 = splice 0 bs e in
       if r \<noteq> 32 then Inr ((int readn, True), fp1, t1, s1)
       else if e1 ! 0 = 0 \<or> (0 \<le> len \<and> len \<le> int readn + 8) then Inr ((int readn, False), fp1, t1, s1)
       else if e1 ! 11 \<noteq> TF_ATTR_LONG_NAME then
         bindr (tf_copysfn me e1 (contents + of_nat DIENT_BASE_LEN) user s1) (\<lambda>(n, s2).
           let reclen = DIENT_BASE_LEN + n in
           bindr (copy_to me user contents (dirent_head e1 contents reclen) s2) (\<lambda>(r, s3).
             ls_loop k me (contents + of_nat reclen) len user (readn + reclen) e1 fp1 (t1, s3)))
       else if e1 ! 0 AND 0xc0 = 0x40 then
         let lfns = unat (e1 ! 0 AND NOT 0x40) in
         if len \<le> int (lfns * 26 + readn) then Inr ((int readn, True), fp1, t1, s1)
         else bindr (tf_copylfn me e1 (contents + of_nat DIENT_BASE_LEN) user s1) (\<lambda>(n, s2).
           bindr (copy_lfns (lfns - 1) me (contents + of_nat DIENT_BASE_LEN) user n e1 fp1 (t1, s2)) (\<lambda>(no, e2, fp2, st2).
             case no of None \<Rightarrow> Inr ((- 1, True), fp2, st2)
             | Some n \<Rightarrow>
                 bindr (tf_fread me ToObject 32 fp2 st2) (\<lambda>(r, bs, fp3, t3, s3).
                   let e3 = splice 0 bs e2; reclen = align8 (DIENT_BASE_LEN + n) in
                   if r \<noteq> 32 then Inr ((- 1, True), fp3, t3, s3)
                   else bindr (copy_to me user contents (dirent_head e3 contents reclen) s3) (\<lambda>(r, s4).
                     ls_loop k me (contents + of_nat reclen) len user (readn + reclen) e3 fp3 (t3, s4)))))
       else ls_loop k me contents len user readn e1 fp1 (t1, s1))"

definition fat_ls :: "nat \<Rightarrow> cstr \<Rightarrow> u64 \<Rightarrow> int \<Rightarrow> bool \<Rightarrow> tfs \<times> 'a kold_scheme \<Rightarrow> (int \<times> tfs \<times> 'a kold_scheme) result" where
  "fat_ls me path contents len user st =
     bindr (fat_lock (snd st)) (\<lambda>s0.
       bindr (tf_fopen me path mode_r (fst st, s0)) (\<lambda>(h, t, s).
         if h = None \<or> tff_attributes (tf_file_handles t ! the h) AND TF_ATTR_DIRECTORY = 0 then Inr (- 1, t, fat_unlock s)
         else bindr (on_handle h (\<lambda>fp st. ls_loop DIR_ROUNDS me contents len user 0 (junk_entry st) fp st) (t, s)) (\<lambda>((r, closes), st1).
           bindr (if closes then tf_fclose me h st1 else Inr (0, st1)) (\<lambda>(rc, t2, s2). Inr (r, t2, fat_unlock s2)))))"

section \<open>The system calls of the older layer\<close>

definition legacy_calls :: "legacy_call \<Rightarrow> nat \<Rightarrow> 'a kold_scheme \<Rightarrow> 'a kold_scheme sysres" where
  "legacy_calls c = (case c of MKDIRAT \<Rightarrow> sys_mkdirat | UMOUNT2 \<Rightarrow> sys_umount2 | MOUNT \<Rightarrow> sys_mount | CHDIR \<Rightarrow> sys_chdir)"

definition kernel_syscall :: "machine \<Rightarrow> nat \<Rightarrow> 'a kold_scheme \<Rightarrow> 'a kold_scheme sysres" where
  "kernel_syscall = syscall legacy_calls"

definition first_run ::
  "bool \<Rightarrow> (cstr \<times> u8 list) list \<Rightarrow> nat \<Rightarrow> inode \<Rightarrow> inode \<Rightarrow> nat \<Rightarrow> 'a kold_scheme \<Rightarrow> 'a kold_scheme result" where
  "first_run is_first scripts me raw_fat raw_dev raw_sz s =
     bindr (forkret is_first scripts me raw_fat raw_dev raw_sz s) (\<lambda>s1. if is_first then vfs_init me s1 else Inr s1)"

section \<open>Which file system a path belongs to\<close>

lemma prefix_of_take: "0 \<notin> set mp \<Longrightarrow> prefix_of mp path \<longleftrightarrow> take (length mp) path = mp"
proof (induction mp path rule: prefix_of.induct)
  case (2 c mp path)
  then show ?case by (cases path) auto
qed simp

lemma fs_matches_long:
  assumes "i < length path" and "0 \<notin> set path" and "0 \<notin> set (mountPoint fs)"
  shows "fs_matches path i fs \<longleftrightarrow> take (length (mountPoint fs)) path = mountPoint fs"
proof -
  have "cat0 (drop i path) = path ! i" using assms(1) by (metis Cons_nth_drop_Suc cat0.simps(2))
  then have "cat0 (drop i path) \<noteq> 0" using assms(1,2) nth_mem by metis
  then show ?thesis using prefix_of_take [OF assms(3)] by (simp add: fs_matches_def)
qed

text \<open>What the scan has found after \<open>n\<close> slots.\<close>

lemma scan_finds:
  fixes path ms
  defines "m \<equiv> \<lambda>i fs. ms ! i = Some fs \<and> fs_matches path i fs"
  shows "case foldl (scan_slot path ms) (0, 0) [0..<n] of (best, len) \<Rightarrow>
    (\<forall>i < n. \<forall>fs. m i fs \<longrightarrow> length (mountPoint fs) \<le> len) \<and>
    (0 < len \<longrightarrow> best < n \<and> (\<exists>fs. m best fs \<and> length (mountPoint fs) = len))"
proof (induction n)
  case (Suc n)
  obtain best len where f: "foldl (scan_slot path ms) (0, 0) [0..<n] = (best, len)" by (cases "foldl (scan_slot path ms) (0, 0) [0..<n]")
  show ?case
  proof (cases "\<exists>fs. m n fs \<and> length (mountPoint fs) > len")
    case True
    then obtain fs where fs: "m n fs" "length (mountPoint fs) > len" by blast
    then have "scan_slot path ms (best, len) n = (n, length (mountPoint fs))" by (simp add: scan_slot_def m_def)
    then show ?thesis using Suc.IH fs f by (fastforce simp: less_Suc_eq m_def)
  next
    case False
    then have "scan_slot path ms (best, len) n = (best, len)" by (auto simp: scan_slot_def m_def split: option.splits)
    then show ?thesis using Suc.IH False f by (auto simp: less_Suc_eq not_less)
  qed
qed simp

text \<open>
  C21: A path of at least as many characters as there are mount slots belongs to the mounted file system with the longest mount point
  that is a prefix of the path.
\<close>

theorem getFs_longest_prefix:
  assumes "NFILESYSTEM \<le> length path" and "0 \<notin> set path"
    and "\<And>i fs. i < NFILESYSTEM \<Longrightarrow> mountedFS s ! i = Some fs \<Longrightarrow> 0 \<notin> set (mountPoint fs)"
    and "i < NFILESYSTEM" and "mountedFS s ! i = Some fs" and "mountPoint fs \<noteq> []" and "take (length (mountPoint fs)) path = mountPoint fs"
  shows "\<exists>best. mountedFS s ! getFs path s = Some best \<and> take (length (mountPoint best)) path = mountPoint best \<and>
    (\<forall>j < NFILESYSTEM. \<forall>fs'. mountedFS s ! j = Some fs' \<and> take (length (mountPoint fs')) path = mountPoint fs'
       \<longrightarrow> length (mountPoint fs') \<le> length (mountPoint best))"
proof -
  have m: "fs_matches path j fs' \<longleftrightarrow> take (length (mountPoint fs')) path = mountPoint fs'" if "j < NFILESYSTEM" "mountedFS s ! j = Some fs'" for j fs'
    using fs_matches_long that assms(1-3) by simp
  obtain best len where f: "foldl (scan_slot path (mountedFS s)) (0, 0) [0..<NFILESYSTEM] = (best, len)"
    by (cases "foldl (scan_slot path (mountedFS s)) (0, 0) [0..<NFILESYSTEM]")
  note sc = scan_finds [where path = path and ms = "mountedFS s" and n = NFILESYSTEM, unfolded f prod.case]
  have "length (mountPoint fs) \<le> len" using sc m [OF assms(4,5)] assms(4,5,7) by simp
  then have "0 < len" using assms(6) by (cases "mountPoint fs") simp_all
  with sc obtain b where b: "best < NFILESYSTEM" "mountedFS s ! best = Some b" "fs_matches path best b" "length (mountPoint b) = len" by blast
  have "getFs path s = best" by (simp add: getFs_def f)
  moreover have "length (mountPoint fs') \<le> length (mountPoint b)"
    if "j < NFILESYSTEM" "mountedFS s ! j = Some fs'" "take (length (mountPoint fs')) path = mountPoint fs'" for j fs'
  proof -
    have "fs_matches path j fs'" using m [OF that(1,2)] that(3) by simp
    then show ?thesis using sc that(1,2) b(4) by simp
  qed
  ultimately show ?thesis using b(2,3) m [OF b(1,2)] by (intro exI [of _ b]) simp
qed


text \<open>A machine with the device file system, the root volume and a volume on \<^verbatim>\<open>/mnt\<close> mounted.\<close>

definition blank_volume :: tfs where
  "blank_volume = \<lparr>tf_dev = 0, tf_info = \<lparr>ti_type = 1, sectorsPerCluster = 1, firstDataSector = 64, totalSectors = 200, reservedSectors = 32,
     currentSector = 0xffffffff, sectorFlags = 0, rootDirectorySize = 0, ti_buffer = replicate 512 0\<rparr>, tf_file_handles = replicate 5 zero_handle\<rparr>"

definition mnt_path :: cstr where "mnt_path = [47, 109, 110, 116]"

definition three_mounts :: "old_fs option list" where
  "three_mounts = [Some \<lparr>mountPoint = dev_path, specialDev = [], volume = None\<rparr>,
     Some \<lparr>mountPoint = [47], specialDev = hda1_path, volume = Some blank_volume\<rparr>,
     Some \<lparr>mountPoint = mnt_path, specialDev = vda2_path, volume = Some blank_volume\<rparr>, None, None]"

definition old_machine :: kold where
  "old_machine = kfs.extend tty_machine (kold.fields three_mounts (replicate NFILE zero_file) False (\<lambda>_. []) blank_volume)"

lemma old_machine_mounts: "mountedFS old_machine = three_mounts" "sleep_lock old_machine = False"
  by (simp_all add: old_machine_def kfs.defs kold.defs)

lemma mounted_slots: "i < NFILESYSTEM \<Longrightarrow> i = 0 \<or> i = 1 \<or> i = 2 \<or> i = 3 \<or> i = 4"
  by (auto simp: NFILESYSTEM_def)

theorem getFs_longest_prefix_witness:
  "\<exists>best. mountedFS old_machine ! getFs [47, 109, 110, 116, 47, 97] old_machine = Some best \<and> length mnt_path \<le> length (mountPoint best)"
proof -
  let ?p = "[47, 109, 110, 116, 47, 97] :: cstr" and ?fs = "\<lparr>mountPoint = mnt_path, specialDev = vda2_path, volume = Some blank_volume\<rparr>"
  have z: "0 \<notin> set (mountPoint fs)" if "i < NFILESYSTEM" "mountedFS old_machine ! i = Some fs" for i fs
    using mounted_slots [OF that(1)] that(2) by (auto simp: old_machine_mounts three_mounts_def dev_path_def mnt_path_def)
  have "\<exists>best. mountedFS old_machine ! getFs ?p old_machine = Some best \<and> take (length (mountPoint best)) ?p = mountPoint best \<and>
    (\<forall>j < NFILESYSTEM. \<forall>fs'. mountedFS old_machine ! j = Some fs' \<and> take (length (mountPoint fs')) ?p = mountPoint fs'
       \<longrightarrow> length (mountPoint fs') \<le> length (mountPoint best))"
    by (rule getFs_longest_prefix [where i = 2 and fs = ?fs])
      (simp_all add: NFILESYSTEM_def old_machine_mounts three_mounts_def mnt_path_def z)
  then obtain best where b: "mountedFS old_machine ! getFs ?p old_machine = Some best"
    "\<And>j fs'. j < NFILESYSTEM \<Longrightarrow> mountedFS old_machine ! j = Some fs' \<Longrightarrow> take (length (mountPoint fs')) ?p = mountPoint fs'
       \<Longrightarrow> length (mountPoint fs') \<le> length (mountPoint best)" by blast
  have "length (mountPoint ?fs) \<le> length (mountPoint best)"
    by (rule b(2) [of 2]) (simp_all add: NFILESYSTEM_def old_machine_mounts three_mounts_def mnt_path_def)
  then show ?thesis using b(1) by auto
qed

text \<open>A shorter path is taken by every mount in a slot at or past its length: \<^verbatim>\<open>/a\<close> belongs to the volume on \<^verbatim>\<open>/mnt\<close>.\<close>

lemma getFs_short_path: "getFs [47, 97] old_machine = 2"
  by (simp add: getFs_def scan_slot_def old_machine_mounts three_mounts_def NFILESYSTEM_def fs_matches_def dev_path_def mnt_path_def upt_rec)

section \<open>Errors of the older layer\<close>

text \<open>A device without a FAT boot sector cannot be mounted: the kernel stops.\<close>

lemma mount_bad_volume_panics:
  assumes "absolute me mp s = Inr amp" and "last_part special = Inr name" and "t = (heap_volume s)\<lparr>tf_dev := FindDevByName name s\<rparr>"
    and "tf_fetch 0 (upd_info (\<lambda>i. i\<lparr>currentSector := - 1, sectorFlags := 0\<rparr>) (t, fat_unlock s)) = Inr (0, st)"
    and "\<not> boot_sector_ok (ti_buffer (tf_info (fst st)))"
  shows "mount_old me FAT32_TYPE mp special s = Inl (Panic ''fat32 init'')"
  using assms by (simp add: mount_old_def createFileSystem_def fat_init_def tf_init_def TF_ERR_BAD_FS_TYPE_def)

text \<open>A read at the end of a file returns with the lock held, and every later use of a volume waits for ever.\<close>

lemma fat_read_past_end_keeps_lock:
  assumes "sleep_lock (snd st) = False" and "tf_fopen me path mode_r (fst st, (snd st)\<lparr>sleep_lock := True\<rparr>) = Inr (Some i, t, s)"
    and "tff_size (tf_file_handles t ! i) \<le> of_int offset"
  shows "fat_read me path dest offset n st = Inr (0, [], t, s)"
  using assms by (simp add: fat_read_def fat_lock_def)

lemma locked_volume_stuck:
  assumes "sleep_lock (snd st)"
  shows "fat_open me path flags fp st = Inl (Stuck ''sleep_lock'')" "fat_mkdir me path st = Inl (Stuck ''sleep_lock'')"
    "fat_read me path dest offset n st = Inl (Stuck ''sleep_lock'')" "fat_write me path src offset n st = Inl (Stuck ''sleep_lock'')"
    "fat_ls me path contents len user st = Inl (Stuck ''sleep_lock'')"
  using assms by (simp_all add: fat_open_def fat_mkdir_def fat_read_def fat_write_def fat_ls_def fat_lock_def)

text \<open>With nothing mounted, every call that resolves a path uses a null file system.\<close>

lemma unmounted_crashes:
  assumes "\<forall>i < NFILESYSTEM. mountedFS s ! i = None"
  shows "fs_mkdir me (getFs p s) p s = Inl (BadAccess ''fs'')"
  using assms by (simp add: fs_mkdir_def fs_call_def getFs_def scan_slot_def NFILESYSTEM_def upt_rec)

end
