(* ===== verification/Fpioa.thy ===== *)
theory Fpioa
  imports Bitfields
begin

unbundle bit_operations_syntax

text \<open>
  The pin multiplexer of the K210 (\<^verbatim>\<open>driver/fpioa.c\<close>, \<^verbatim>\<open>include/driver/fpioa.hpp\<close>): the functions a pin can be connected
  to, the table of their default settings, and the operations that connect pins. The theorems: row \<open>i\<close> of the table is
  for function \<open>i\<close>; connecting a function to a pin takes it from the others, so no function is ever on two pins.
\<close>

named_theorems fpioa_funcs

section \<open>Functions and pull settings\<close>

text \<open>The enumeration \<^verbatim>\<open>fpioa_function_t\<close>: the values are all non-negative, so the compiler makes the type unsigned.\<close>

definition FUNC_JTAG_TCLK :: nat where [fpioa_funcs]: "FUNC_JTAG_TCLK = 0"
definition FUNC_JTAG_TDI :: nat where [fpioa_funcs]: "FUNC_JTAG_TDI = 1"
definition FUNC_JTAG_TMS :: nat where [fpioa_funcs]: "FUNC_JTAG_TMS = 2"
definition FUNC_JTAG_TDO :: nat where [fpioa_funcs]: "FUNC_JTAG_TDO = 3"
definition FUNC_SPI0_D0 :: nat where [fpioa_funcs]: "FUNC_SPI0_D0 = 4"
definition FUNC_SPI0_D1 :: nat where [fpioa_funcs]: "FUNC_SPI0_D1 = 5"
definition FUNC_SPI0_D2 :: nat where [fpioa_funcs]: "FUNC_SPI0_D2 = 6"
definition FUNC_SPI0_D3 :: nat where [fpioa_funcs]: "FUNC_SPI0_D3 = 7"
definition FUNC_SPI0_D4 :: nat where [fpioa_funcs]: "FUNC_SPI0_D4 = 8"
definition FUNC_SPI0_D5 :: nat where [fpioa_funcs]: "FUNC_SPI0_D5 = 9"
definition FUNC_SPI0_D6 :: nat where [fpioa_funcs]: "FUNC_SPI0_D6 = 10"
definition FUNC_SPI0_D7 :: nat where [fpioa_funcs]: "FUNC_SPI0_D7 = 11"
definition FUNC_SPI0_SS0 :: nat where [fpioa_funcs]: "FUNC_SPI0_SS0 = 12"
definition FUNC_SPI0_SS1 :: nat where [fpioa_funcs]: "FUNC_SPI0_SS1 = 13"
definition FUNC_SPI0_SS2 :: nat where [fpioa_funcs]: "FUNC_SPI0_SS2 = 14"
definition FUNC_SPI0_SS3 :: nat where [fpioa_funcs]: "FUNC_SPI0_SS3 = 15"
definition FUNC_SPI0_ARB :: nat where [fpioa_funcs]: "FUNC_SPI0_ARB = 16"
definition FUNC_SPI0_SCLK :: nat where [fpioa_funcs]: "FUNC_SPI0_SCLK = 17"
definition FUNC_UARTHS_RX :: nat where [fpioa_funcs]: "FUNC_UARTHS_RX = 18"
definition FUNC_UARTHS_TX :: nat where [fpioa_funcs]: "FUNC_UARTHS_TX = 19"
definition FUNC_RESV6 :: nat where [fpioa_funcs]: "FUNC_RESV6 = 20"
definition FUNC_RESV7 :: nat where [fpioa_funcs]: "FUNC_RESV7 = 21"
definition FUNC_CLK_SPI1 :: nat where [fpioa_funcs]: "FUNC_CLK_SPI1 = 22"
definition FUNC_CLK_I2C1 :: nat where [fpioa_funcs]: "FUNC_CLK_I2C1 = 23"
definition FUNC_GPIOHS0 :: nat where [fpioa_funcs]: "FUNC_GPIOHS0 = 24"
definition FUNC_GPIOHS1 :: nat where [fpioa_funcs]: "FUNC_GPIOHS1 = 25"
definition FUNC_GPIOHS2 :: nat where [fpioa_funcs]: "FUNC_GPIOHS2 = 26"
definition FUNC_GPIOHS3 :: nat where [fpioa_funcs]: "FUNC_GPIOHS3 = 27"
definition FUNC_GPIOHS4 :: nat where [fpioa_funcs]: "FUNC_GPIOHS4 = 28"
definition FUNC_GPIOHS5 :: nat where [fpioa_funcs]: "FUNC_GPIOHS5 = 29"
definition FUNC_GPIOHS6 :: nat where [fpioa_funcs]: "FUNC_GPIOHS6 = 30"
definition FUNC_GPIOHS7 :: nat where [fpioa_funcs]: "FUNC_GPIOHS7 = 31"
definition FUNC_GPIOHS8 :: nat where [fpioa_funcs]: "FUNC_GPIOHS8 = 32"
definition FUNC_GPIOHS9 :: nat where [fpioa_funcs]: "FUNC_GPIOHS9 = 33"
definition FUNC_GPIOHS10 :: nat where [fpioa_funcs]: "FUNC_GPIOHS10 = 34"
definition FUNC_GPIOHS11 :: nat where [fpioa_funcs]: "FUNC_GPIOHS11 = 35"
definition FUNC_GPIOHS12 :: nat where [fpioa_funcs]: "FUNC_GPIOHS12 = 36"
definition FUNC_GPIOHS13 :: nat where [fpioa_funcs]: "FUNC_GPIOHS13 = 37"
definition FUNC_GPIOHS14 :: nat where [fpioa_funcs]: "FUNC_GPIOHS14 = 38"
definition FUNC_GPIOHS15 :: nat where [fpioa_funcs]: "FUNC_GPIOHS15 = 39"
definition FUNC_GPIOHS16 :: nat where [fpioa_funcs]: "FUNC_GPIOHS16 = 40"
definition FUNC_GPIOHS17 :: nat where [fpioa_funcs]: "FUNC_GPIOHS17 = 41"
definition FUNC_GPIOHS18 :: nat where [fpioa_funcs]: "FUNC_GPIOHS18 = 42"
definition FUNC_GPIOHS19 :: nat where [fpioa_funcs]: "FUNC_GPIOHS19 = 43"
definition FUNC_GPIOHS20 :: nat where [fpioa_funcs]: "FUNC_GPIOHS20 = 44"
definition FUNC_GPIOHS21 :: nat where [fpioa_funcs]: "FUNC_GPIOHS21 = 45"
definition FUNC_GPIOHS22 :: nat where [fpioa_funcs]: "FUNC_GPIOHS22 = 46"
definition FUNC_GPIOHS23 :: nat where [fpioa_funcs]: "FUNC_GPIOHS23 = 47"
definition FUNC_GPIOHS24 :: nat where [fpioa_funcs]: "FUNC_GPIOHS24 = 48"
definition FUNC_GPIOHS25 :: nat where [fpioa_funcs]: "FUNC_GPIOHS25 = 49"
definition FUNC_GPIOHS26 :: nat where [fpioa_funcs]: "FUNC_GPIOHS26 = 50"
definition FUNC_GPIOHS27 :: nat where [fpioa_funcs]: "FUNC_GPIOHS27 = 51"
definition FUNC_GPIOHS28 :: nat where [fpioa_funcs]: "FUNC_GPIOHS28 = 52"
definition FUNC_GPIOHS29 :: nat where [fpioa_funcs]: "FUNC_GPIOHS29 = 53"
definition FUNC_GPIOHS30 :: nat where [fpioa_funcs]: "FUNC_GPIOHS30 = 54"
definition FUNC_GPIOHS31 :: nat where [fpioa_funcs]: "FUNC_GPIOHS31 = 55"
definition FUNC_GPIO0 :: nat where [fpioa_funcs]: "FUNC_GPIO0 = 56"
definition FUNC_GPIO1 :: nat where [fpioa_funcs]: "FUNC_GPIO1 = 57"
definition FUNC_GPIO2 :: nat where [fpioa_funcs]: "FUNC_GPIO2 = 58"
definition FUNC_GPIO3 :: nat where [fpioa_funcs]: "FUNC_GPIO3 = 59"
definition FUNC_GPIO4 :: nat where [fpioa_funcs]: "FUNC_GPIO4 = 60"
definition FUNC_GPIO5 :: nat where [fpioa_funcs]: "FUNC_GPIO5 = 61"
definition FUNC_GPIO6 :: nat where [fpioa_funcs]: "FUNC_GPIO6 = 62"
definition FUNC_GPIO7 :: nat where [fpioa_funcs]: "FUNC_GPIO7 = 63"
definition FUNC_UART1_RX :: nat where [fpioa_funcs]: "FUNC_UART1_RX = 64"
definition FUNC_UART1_TX :: nat where [fpioa_funcs]: "FUNC_UART1_TX = 65"
definition FUNC_UART2_RX :: nat where [fpioa_funcs]: "FUNC_UART2_RX = 66"
definition FUNC_UART2_TX :: nat where [fpioa_funcs]: "FUNC_UART2_TX = 67"
definition FUNC_UART3_RX :: nat where [fpioa_funcs]: "FUNC_UART3_RX = 68"
definition FUNC_UART3_TX :: nat where [fpioa_funcs]: "FUNC_UART3_TX = 69"
definition FUNC_SPI1_D0 :: nat where [fpioa_funcs]: "FUNC_SPI1_D0 = 70"
definition FUNC_SPI1_D1 :: nat where [fpioa_funcs]: "FUNC_SPI1_D1 = 71"
definition FUNC_SPI1_D2 :: nat where [fpioa_funcs]: "FUNC_SPI1_D2 = 72"
definition FUNC_SPI1_D3 :: nat where [fpioa_funcs]: "FUNC_SPI1_D3 = 73"
definition FUNC_SPI1_D4 :: nat where [fpioa_funcs]: "FUNC_SPI1_D4 = 74"
definition FUNC_SPI1_D5 :: nat where [fpioa_funcs]: "FUNC_SPI1_D5 = 75"
definition FUNC_SPI1_D6 :: nat where [fpioa_funcs]: "FUNC_SPI1_D6 = 76"
definition FUNC_SPI1_D7 :: nat where [fpioa_funcs]: "FUNC_SPI1_D7 = 77"
definition FUNC_SPI1_SS0 :: nat where [fpioa_funcs]: "FUNC_SPI1_SS0 = 78"
definition FUNC_SPI1_SS1 :: nat where [fpioa_funcs]: "FUNC_SPI1_SS1 = 79"
definition FUNC_SPI1_SS2 :: nat where [fpioa_funcs]: "FUNC_SPI1_SS2 = 80"
definition FUNC_SPI1_SS3 :: nat where [fpioa_funcs]: "FUNC_SPI1_SS3 = 81"
definition FUNC_SPI1_ARB :: nat where [fpioa_funcs]: "FUNC_SPI1_ARB = 82"
definition FUNC_SPI1_SCLK :: nat where [fpioa_funcs]: "FUNC_SPI1_SCLK = 83"
definition FUNC_SPI_SLAVE_D0 :: nat where [fpioa_funcs]: "FUNC_SPI_SLAVE_D0 = 84"
definition FUNC_SPI_SLAVE_SS :: nat where [fpioa_funcs]: "FUNC_SPI_SLAVE_SS = 85"
definition FUNC_SPI_SLAVE_SCLK :: nat where [fpioa_funcs]: "FUNC_SPI_SLAVE_SCLK = 86"
definition FUNC_I2S0_MCLK :: nat where [fpioa_funcs]: "FUNC_I2S0_MCLK = 87"
definition FUNC_I2S0_SCLK :: nat where [fpioa_funcs]: "FUNC_I2S0_SCLK = 88"
definition FUNC_I2S0_WS :: nat where [fpioa_funcs]: "FUNC_I2S0_WS = 89"
definition FUNC_I2S0_IN_D0 :: nat where [fpioa_funcs]: "FUNC_I2S0_IN_D0 = 90"
definition FUNC_I2S0_IN_D1 :: nat where [fpioa_funcs]: "FUNC_I2S0_IN_D1 = 91"
definition FUNC_I2S0_IN_D2 :: nat where [fpioa_funcs]: "FUNC_I2S0_IN_D2 = 92"
definition FUNC_I2S0_IN_D3 :: nat where [fpioa_funcs]: "FUNC_I2S0_IN_D3 = 93"
definition FUNC_I2S0_OUT_D0 :: nat where [fpioa_funcs]: "FUNC_I2S0_OUT_D0 = 94"
definition FUNC_I2S0_OUT_D1 :: nat where [fpioa_funcs]: "FUNC_I2S0_OUT_D1 = 95"
definition FUNC_I2S0_OUT_D2 :: nat where [fpioa_funcs]: "FUNC_I2S0_OUT_D2 = 96"
definition FUNC_I2S0_OUT_D3 :: nat where [fpioa_funcs]: "FUNC_I2S0_OUT_D3 = 97"
definition FUNC_I2S1_MCLK :: nat where [fpioa_funcs]: "FUNC_I2S1_MCLK = 98"
definition FUNC_I2S1_SCLK :: nat where [fpioa_funcs]: "FUNC_I2S1_SCLK = 99"
definition FUNC_I2S1_WS :: nat where [fpioa_funcs]: "FUNC_I2S1_WS = 100"
definition FUNC_I2S1_IN_D0 :: nat where [fpioa_funcs]: "FUNC_I2S1_IN_D0 = 101"
definition FUNC_I2S1_IN_D1 :: nat where [fpioa_funcs]: "FUNC_I2S1_IN_D1 = 102"
definition FUNC_I2S1_IN_D2 :: nat where [fpioa_funcs]: "FUNC_I2S1_IN_D2 = 103"
definition FUNC_I2S1_IN_D3 :: nat where [fpioa_funcs]: "FUNC_I2S1_IN_D3 = 104"
definition FUNC_I2S1_OUT_D0 :: nat where [fpioa_funcs]: "FUNC_I2S1_OUT_D0 = 105"
definition FUNC_I2S1_OUT_D1 :: nat where [fpioa_funcs]: "FUNC_I2S1_OUT_D1 = 106"
definition FUNC_I2S1_OUT_D2 :: nat where [fpioa_funcs]: "FUNC_I2S1_OUT_D2 = 107"
definition FUNC_I2S1_OUT_D3 :: nat where [fpioa_funcs]: "FUNC_I2S1_OUT_D3 = 108"
definition FUNC_I2S2_MCLK :: nat where [fpioa_funcs]: "FUNC_I2S2_MCLK = 109"
definition FUNC_I2S2_SCLK :: nat where [fpioa_funcs]: "FUNC_I2S2_SCLK = 110"
definition FUNC_I2S2_WS :: nat where [fpioa_funcs]: "FUNC_I2S2_WS = 111"
definition FUNC_I2S2_IN_D0 :: nat where [fpioa_funcs]: "FUNC_I2S2_IN_D0 = 112"
definition FUNC_I2S2_IN_D1 :: nat where [fpioa_funcs]: "FUNC_I2S2_IN_D1 = 113"
definition FUNC_I2S2_IN_D2 :: nat where [fpioa_funcs]: "FUNC_I2S2_IN_D2 = 114"
definition FUNC_I2S2_IN_D3 :: nat where [fpioa_funcs]: "FUNC_I2S2_IN_D3 = 115"
definition FUNC_I2S2_OUT_D0 :: nat where [fpioa_funcs]: "FUNC_I2S2_OUT_D0 = 116"
definition FUNC_I2S2_OUT_D1 :: nat where [fpioa_funcs]: "FUNC_I2S2_OUT_D1 = 117"
definition FUNC_I2S2_OUT_D2 :: nat where [fpioa_funcs]: "FUNC_I2S2_OUT_D2 = 118"
definition FUNC_I2S2_OUT_D3 :: nat where [fpioa_funcs]: "FUNC_I2S2_OUT_D3 = 119"
definition FUNC_RESV0 :: nat where [fpioa_funcs]: "FUNC_RESV0 = 120"
definition FUNC_RESV1 :: nat where [fpioa_funcs]: "FUNC_RESV1 = 121"
definition FUNC_RESV2 :: nat where [fpioa_funcs]: "FUNC_RESV2 = 122"
definition FUNC_RESV3 :: nat where [fpioa_funcs]: "FUNC_RESV3 = 123"
definition FUNC_RESV4 :: nat where [fpioa_funcs]: "FUNC_RESV4 = 124"
definition FUNC_RESV5 :: nat where [fpioa_funcs]: "FUNC_RESV5 = 125"
definition FUNC_I2C0_SCLK :: nat where [fpioa_funcs]: "FUNC_I2C0_SCLK = 126"
definition FUNC_I2C0_SDA :: nat where [fpioa_funcs]: "FUNC_I2C0_SDA = 127"
definition FUNC_I2C1_SCLK :: nat where [fpioa_funcs]: "FUNC_I2C1_SCLK = 128"
definition FUNC_I2C1_SDA :: nat where [fpioa_funcs]: "FUNC_I2C1_SDA = 129"
definition FUNC_I2C2_SCLK :: nat where [fpioa_funcs]: "FUNC_I2C2_SCLK = 130"
definition FUNC_I2C2_SDA :: nat where [fpioa_funcs]: "FUNC_I2C2_SDA = 131"
definition FUNC_CMOS_XCLK :: nat where [fpioa_funcs]: "FUNC_CMOS_XCLK = 132"
definition FUNC_CMOS_RST :: nat where [fpioa_funcs]: "FUNC_CMOS_RST = 133"
definition FUNC_CMOS_PWDN :: nat where [fpioa_funcs]: "FUNC_CMOS_PWDN = 134"
definition FUNC_CMOS_VSYNC :: nat where [fpioa_funcs]: "FUNC_CMOS_VSYNC = 135"
definition FUNC_CMOS_HREF :: nat where [fpioa_funcs]: "FUNC_CMOS_HREF = 136"
definition FUNC_CMOS_PCLK :: nat where [fpioa_funcs]: "FUNC_CMOS_PCLK = 137"
definition FUNC_CMOS_D0 :: nat where [fpioa_funcs]: "FUNC_CMOS_D0 = 138"
definition FUNC_CMOS_D1 :: nat where [fpioa_funcs]: "FUNC_CMOS_D1 = 139"
definition FUNC_CMOS_D2 :: nat where [fpioa_funcs]: "FUNC_CMOS_D2 = 140"
definition FUNC_CMOS_D3 :: nat where [fpioa_funcs]: "FUNC_CMOS_D3 = 141"
definition FUNC_CMOS_D4 :: nat where [fpioa_funcs]: "FUNC_CMOS_D4 = 142"
definition FUNC_CMOS_D5 :: nat where [fpioa_funcs]: "FUNC_CMOS_D5 = 143"
definition FUNC_CMOS_D6 :: nat where [fpioa_funcs]: "FUNC_CMOS_D6 = 144"
definition FUNC_CMOS_D7 :: nat where [fpioa_funcs]: "FUNC_CMOS_D7 = 145"
definition FUNC_SCCB_SCLK :: nat where [fpioa_funcs]: "FUNC_SCCB_SCLK = 146"
definition FUNC_SCCB_SDA :: nat where [fpioa_funcs]: "FUNC_SCCB_SDA = 147"
definition FUNC_UART1_CTS :: nat where [fpioa_funcs]: "FUNC_UART1_CTS = 148"
definition FUNC_UART1_DSR :: nat where [fpioa_funcs]: "FUNC_UART1_DSR = 149"
definition FUNC_UART1_DCD :: nat where [fpioa_funcs]: "FUNC_UART1_DCD = 150"
definition FUNC_UART1_RI :: nat where [fpioa_funcs]: "FUNC_UART1_RI = 151"
definition FUNC_UART1_SIR_IN :: nat where [fpioa_funcs]: "FUNC_UART1_SIR_IN = 152"
definition FUNC_UART1_DTR :: nat where [fpioa_funcs]: "FUNC_UART1_DTR = 153"
definition FUNC_UART1_RTS :: nat where [fpioa_funcs]: "FUNC_UART1_RTS = 154"
definition FUNC_UART1_OUT2 :: nat where [fpioa_funcs]: "FUNC_UART1_OUT2 = 155"
definition FUNC_UART1_OUT1 :: nat where [fpioa_funcs]: "FUNC_UART1_OUT1 = 156"
definition FUNC_UART1_SIR_OUT :: nat where [fpioa_funcs]: "FUNC_UART1_SIR_OUT = 157"
definition FUNC_UART1_BAUD :: nat where [fpioa_funcs]: "FUNC_UART1_BAUD = 158"
definition FUNC_UART1_RE :: nat where [fpioa_funcs]: "FUNC_UART1_RE = 159"
definition FUNC_UART1_DE :: nat where [fpioa_funcs]: "FUNC_UART1_DE = 160"
definition FUNC_UART1_RS485_EN :: nat where [fpioa_funcs]: "FUNC_UART1_RS485_EN = 161"
definition FUNC_UART2_CTS :: nat where [fpioa_funcs]: "FUNC_UART2_CTS = 162"
definition FUNC_UART2_DSR :: nat where [fpioa_funcs]: "FUNC_UART2_DSR = 163"
definition FUNC_UART2_DCD :: nat where [fpioa_funcs]: "FUNC_UART2_DCD = 164"
definition FUNC_UART2_RI :: nat where [fpioa_funcs]: "FUNC_UART2_RI = 165"
definition FUNC_UART2_SIR_IN :: nat where [fpioa_funcs]: "FUNC_UART2_SIR_IN = 166"
definition FUNC_UART2_DTR :: nat where [fpioa_funcs]: "FUNC_UART2_DTR = 167"
definition FUNC_UART2_RTS :: nat where [fpioa_funcs]: "FUNC_UART2_RTS = 168"
definition FUNC_UART2_OUT2 :: nat where [fpioa_funcs]: "FUNC_UART2_OUT2 = 169"
definition FUNC_UART2_OUT1 :: nat where [fpioa_funcs]: "FUNC_UART2_OUT1 = 170"
definition FUNC_UART2_SIR_OUT :: nat where [fpioa_funcs]: "FUNC_UART2_SIR_OUT = 171"
definition FUNC_UART2_BAUD :: nat where [fpioa_funcs]: "FUNC_UART2_BAUD = 172"
definition FUNC_UART2_RE :: nat where [fpioa_funcs]: "FUNC_UART2_RE = 173"
definition FUNC_UART2_DE :: nat where [fpioa_funcs]: "FUNC_UART2_DE = 174"
definition FUNC_UART2_RS485_EN :: nat where [fpioa_funcs]: "FUNC_UART2_RS485_EN = 175"
definition FUNC_UART3_CTS :: nat where [fpioa_funcs]: "FUNC_UART3_CTS = 176"
definition FUNC_UART3_DSR :: nat where [fpioa_funcs]: "FUNC_UART3_DSR = 177"
definition FUNC_UART3_DCD :: nat where [fpioa_funcs]: "FUNC_UART3_DCD = 178"
definition FUNC_UART3_RI :: nat where [fpioa_funcs]: "FUNC_UART3_RI = 179"
definition FUNC_UART3_SIR_IN :: nat where [fpioa_funcs]: "FUNC_UART3_SIR_IN = 180"
definition FUNC_UART3_DTR :: nat where [fpioa_funcs]: "FUNC_UART3_DTR = 181"
definition FUNC_UART3_RTS :: nat where [fpioa_funcs]: "FUNC_UART3_RTS = 182"
definition FUNC_UART3_OUT2 :: nat where [fpioa_funcs]: "FUNC_UART3_OUT2 = 183"
definition FUNC_UART3_OUT1 :: nat where [fpioa_funcs]: "FUNC_UART3_OUT1 = 184"
definition FUNC_UART3_SIR_OUT :: nat where [fpioa_funcs]: "FUNC_UART3_SIR_OUT = 185"
definition FUNC_UART3_BAUD :: nat where [fpioa_funcs]: "FUNC_UART3_BAUD = 186"
definition FUNC_UART3_RE :: nat where [fpioa_funcs]: "FUNC_UART3_RE = 187"
definition FUNC_UART3_DE :: nat where [fpioa_funcs]: "FUNC_UART3_DE = 188"
definition FUNC_UART3_RS485_EN :: nat where [fpioa_funcs]: "FUNC_UART3_RS485_EN = 189"
definition FUNC_TIMER0_TOGGLE1 :: nat where [fpioa_funcs]: "FUNC_TIMER0_TOGGLE1 = 190"
definition FUNC_TIMER0_TOGGLE2 :: nat where [fpioa_funcs]: "FUNC_TIMER0_TOGGLE2 = 191"
definition FUNC_TIMER0_TOGGLE3 :: nat where [fpioa_funcs]: "FUNC_TIMER0_TOGGLE3 = 192"
definition FUNC_TIMER0_TOGGLE4 :: nat where [fpioa_funcs]: "FUNC_TIMER0_TOGGLE4 = 193"
definition FUNC_TIMER1_TOGGLE1 :: nat where [fpioa_funcs]: "FUNC_TIMER1_TOGGLE1 = 194"
definition FUNC_TIMER1_TOGGLE2 :: nat where [fpioa_funcs]: "FUNC_TIMER1_TOGGLE2 = 195"
definition FUNC_TIMER1_TOGGLE3 :: nat where [fpioa_funcs]: "FUNC_TIMER1_TOGGLE3 = 196"
definition FUNC_TIMER1_TOGGLE4 :: nat where [fpioa_funcs]: "FUNC_TIMER1_TOGGLE4 = 197"
definition FUNC_TIMER2_TOGGLE1 :: nat where [fpioa_funcs]: "FUNC_TIMER2_TOGGLE1 = 198"
definition FUNC_TIMER2_TOGGLE2 :: nat where [fpioa_funcs]: "FUNC_TIMER2_TOGGLE2 = 199"
definition FUNC_TIMER2_TOGGLE3 :: nat where [fpioa_funcs]: "FUNC_TIMER2_TOGGLE3 = 200"
definition FUNC_TIMER2_TOGGLE4 :: nat where [fpioa_funcs]: "FUNC_TIMER2_TOGGLE4 = 201"
definition FUNC_CLK_SPI2 :: nat where [fpioa_funcs]: "FUNC_CLK_SPI2 = 202"
definition FUNC_CLK_I2C2 :: nat where [fpioa_funcs]: "FUNC_CLK_I2C2 = 203"
definition FUNC_INTERNAL0 :: nat where [fpioa_funcs]: "FUNC_INTERNAL0 = 204"
definition FUNC_INTERNAL1 :: nat where [fpioa_funcs]: "FUNC_INTERNAL1 = 205"
definition FUNC_INTERNAL2 :: nat where [fpioa_funcs]: "FUNC_INTERNAL2 = 206"
definition FUNC_INTERNAL3 :: nat where [fpioa_funcs]: "FUNC_INTERNAL3 = 207"
definition FUNC_INTERNAL4 :: nat where [fpioa_funcs]: "FUNC_INTERNAL4 = 208"
definition FUNC_INTERNAL5 :: nat where [fpioa_funcs]: "FUNC_INTERNAL5 = 209"
definition FUNC_INTERNAL6 :: nat where [fpioa_funcs]: "FUNC_INTERNAL6 = 210"
definition FUNC_INTERNAL7 :: nat where [fpioa_funcs]: "FUNC_INTERNAL7 = 211"
definition FUNC_INTERNAL8 :: nat where [fpioa_funcs]: "FUNC_INTERNAL8 = 212"
definition FUNC_INTERNAL9 :: nat where [fpioa_funcs]: "FUNC_INTERNAL9 = 213"
definition FUNC_INTERNAL10 :: nat where [fpioa_funcs]: "FUNC_INTERNAL10 = 214"
definition FUNC_INTERNAL11 :: nat where [fpioa_funcs]: "FUNC_INTERNAL11 = 215"
definition FUNC_INTERNAL12 :: nat where [fpioa_funcs]: "FUNC_INTERNAL12 = 216"
definition FUNC_INTERNAL13 :: nat where [fpioa_funcs]: "FUNC_INTERNAL13 = 217"
definition FUNC_INTERNAL14 :: nat where [fpioa_funcs]: "FUNC_INTERNAL14 = 218"
definition FUNC_INTERNAL15 :: nat where [fpioa_funcs]: "FUNC_INTERNAL15 = 219"
definition FUNC_INTERNAL16 :: nat where [fpioa_funcs]: "FUNC_INTERNAL16 = 220"
definition FUNC_INTERNAL17 :: nat where [fpioa_funcs]: "FUNC_INTERNAL17 = 221"
definition FUNC_CONSTANT :: nat where [fpioa_funcs]: "FUNC_CONSTANT = 222"
definition FUNC_INTERNAL18 :: nat where [fpioa_funcs]: "FUNC_INTERNAL18 = 223"
definition FUNC_DEBUG0 :: nat where [fpioa_funcs]: "FUNC_DEBUG0 = 224"
definition FUNC_DEBUG1 :: nat where [fpioa_funcs]: "FUNC_DEBUG1 = 225"
definition FUNC_DEBUG2 :: nat where [fpioa_funcs]: "FUNC_DEBUG2 = 226"
definition FUNC_DEBUG3 :: nat where [fpioa_funcs]: "FUNC_DEBUG3 = 227"
definition FUNC_DEBUG4 :: nat where [fpioa_funcs]: "FUNC_DEBUG4 = 228"
definition FUNC_DEBUG5 :: nat where [fpioa_funcs]: "FUNC_DEBUG5 = 229"
definition FUNC_DEBUG6 :: nat where [fpioa_funcs]: "FUNC_DEBUG6 = 230"
definition FUNC_DEBUG7 :: nat where [fpioa_funcs]: "FUNC_DEBUG7 = 231"
definition FUNC_DEBUG8 :: nat where [fpioa_funcs]: "FUNC_DEBUG8 = 232"
definition FUNC_DEBUG9 :: nat where [fpioa_funcs]: "FUNC_DEBUG9 = 233"
definition FUNC_DEBUG10 :: nat where [fpioa_funcs]: "FUNC_DEBUG10 = 234"
definition FUNC_DEBUG11 :: nat where [fpioa_funcs]: "FUNC_DEBUG11 = 235"
definition FUNC_DEBUG12 :: nat where [fpioa_funcs]: "FUNC_DEBUG12 = 236"
definition FUNC_DEBUG13 :: nat where [fpioa_funcs]: "FUNC_DEBUG13 = 237"
definition FUNC_DEBUG14 :: nat where [fpioa_funcs]: "FUNC_DEBUG14 = 238"
definition FUNC_DEBUG15 :: nat where [fpioa_funcs]: "FUNC_DEBUG15 = 239"
definition FUNC_DEBUG16 :: nat where [fpioa_funcs]: "FUNC_DEBUG16 = 240"
definition FUNC_DEBUG17 :: nat where [fpioa_funcs]: "FUNC_DEBUG17 = 241"
definition FUNC_DEBUG18 :: nat where [fpioa_funcs]: "FUNC_DEBUG18 = 242"
definition FUNC_DEBUG19 :: nat where [fpioa_funcs]: "FUNC_DEBUG19 = 243"
definition FUNC_DEBUG20 :: nat where [fpioa_funcs]: "FUNC_DEBUG20 = 244"
definition FUNC_DEBUG21 :: nat where [fpioa_funcs]: "FUNC_DEBUG21 = 245"
definition FUNC_DEBUG22 :: nat where [fpioa_funcs]: "FUNC_DEBUG22 = 246"
definition FUNC_DEBUG23 :: nat where [fpioa_funcs]: "FUNC_DEBUG23 = 247"
definition FUNC_DEBUG24 :: nat where [fpioa_funcs]: "FUNC_DEBUG24 = 248"
definition FUNC_DEBUG25 :: nat where [fpioa_funcs]: "FUNC_DEBUG25 = 249"
definition FUNC_DEBUG26 :: nat where [fpioa_funcs]: "FUNC_DEBUG26 = 250"
definition FUNC_DEBUG27 :: nat where [fpioa_funcs]: "FUNC_DEBUG27 = 251"
definition FUNC_DEBUG28 :: nat where [fpioa_funcs]: "FUNC_DEBUG28 = 252"
definition FUNC_DEBUG29 :: nat where [fpioa_funcs]: "FUNC_DEBUG29 = 253"
definition FUNC_DEBUG30 :: nat where [fpioa_funcs]: "FUNC_DEBUG30 = 254"
definition FUNC_DEBUG31 :: nat where [fpioa_funcs]: "FUNC_DEBUG31 = 255"
definition FUNC_MAX :: nat where [fpioa_funcs]: "FUNC_MAX = 256"

text \<open>The enumeration \<^verbatim>\<open>fpioa_pull_t\<close>.\<close>

datatype fpioa_pull_t = FPIOA_PULL_NONE | FPIOA_PULL_DOWN | FPIOA_PULL_UP | FPIOA_PULL_MAX

definition FPIOA_NUM_IO :: nat where "FPIOA_NUM_IO = 48"

section \<open>Registers\<close>

text \<open>The configuration register of a pin, lowest bits first.\<close>

definition fpioa_io_config_t :: layout where
  "fpioa_io_config_t =
    [(''ch_sel'', 8), (''ds'', 4), (''oe_en'', 1), (''oe_inv'', 1), (''do_sel'', 1), (''do_inv'', 1), (''pu'', 1), (''pd'', 1),
     (''resv0'', 1), (''sl'', 1), (''ie_en'', 1), (''ie_inv'', 1), (''di_inv'', 1), (''st'', 1), (''resv1'', 7), (''pad_di'', 1)]"

text \<open>
  The controller: the registers of the 48 pins and the tie bits of the 256 functions. A register keeps what is written to
  it; the input bit \<^verbatim>\<open>pad_di\<close> is carried along and nothing below depends on it.
\<close>

record fpioa_t =
  fp_io :: "32 word list"
  fp_tie_en :: "32 word list"
  fp_tie_val :: "32 word list"

section \<open>Default settings of the functions\<close>

text \<open>A row of the table: a structure of bit fields, each a word of its width.\<close>

record fpioa_assign_t =
  fa_ch_sel :: "8 word"
  fa_ds :: "4 word"
  fa_oe_en :: "1 word"
  fa_oe_inv :: "1 word"
  fa_do_sel :: "1 word"
  fa_do_inv :: "1 word"
  fa_pu :: "1 word"
  fa_pd :: "1 word"
  fa_resv0 :: "1 word"
  fa_sl :: "1 word"
  fa_ie_en :: "1 word"
  fa_ie_inv :: "1 word"
  fa_di_inv :: "1 word"
  fa_st :: "1 word"
  fa_tie_en :: "1 word"
  fa_tie_val :: "1 word"
  fa_resv1 :: "5 word"
  fa_pad_di :: "1 word"

text \<open>An initialiser with the designators in the order of the source.\<close>

definition assign ::
  "nat \<Rightarrow> 4 word \<Rightarrow> 1 word \<Rightarrow> 1 word \<Rightarrow> 1 word \<Rightarrow> 1 word \<Rightarrow> 1 word \<Rightarrow> 1 word \<Rightarrow> 5 word \<Rightarrow> 1 word \<Rightarrow>
   1 word \<Rightarrow> 1 word \<Rightarrow> 1 word \<Rightarrow> 1 word \<Rightarrow> 1 word \<Rightarrow> 1 word \<Rightarrow> 1 word \<Rightarrow> 1 word \<Rightarrow> fpioa_assign_t" where
  "assign ch_sel ds oe_en oe_inv do_sel do_inv pu pd resv1 sl ie_en ie_inv di_inv st tie_en tie_val resv0 pad_di =
     \<lparr>fa_ch_sel = of_nat ch_sel, fa_ds = ds, fa_oe_en = oe_en, fa_oe_inv = oe_inv, fa_do_sel = do_sel, fa_do_inv = do_inv,
      fa_pu = pu, fa_pd = pd, fa_resv0 = resv0, fa_sl = sl, fa_ie_en = ie_en, fa_ie_inv = ie_inv,
      fa_di_inv = di_inv, fa_st = st, fa_tie_en = tie_en, fa_tie_val = tie_val, fa_resv1 = resv1, fa_pad_di = pad_di\<rparr>"

text \<open>The 256 rows of \<^verbatim>\<open>function_config\<close>, eight at a time.\<close>

definition function_config_0 :: "fpioa_assign_t list" where
  "function_config_0 =
   [assign FUNC_JTAG_TCLK 0 0 0 0 0 0 0 0 0 1 0 0 1 0 0 0 0,
    assign FUNC_JTAG_TDI 0 0 0 0 0 0 0 0 0 1 0 0 1 0 0 0 0,
    assign FUNC_JTAG_TMS 0 0 0 0 0 0 0 0 0 1 0 0 1 0 0 0 0,
    assign FUNC_JTAG_TDO 15 1 0 0 0 0 0 0 0 0 0 0 0 0 0 0 0,
    assign FUNC_SPI0_D0 15 1 1 0 0 0 0 0 0 1 1 0 1 0 0 0 0,
    assign FUNC_SPI0_D1 15 1 1 0 0 0 0 0 0 1 1 0 1 0 0 0 0,
    assign FUNC_SPI0_D2 15 1 1 0 0 0 0 0 0 1 1 0 1 0 0 0 0,
    assign FUNC_SPI0_D3 15 1 1 0 0 0 0 0 0 1 1 0 1 0 0 0 0]"

definition function_config_1 :: "fpioa_assign_t list" where
  "function_config_1 =
   [assign FUNC_SPI0_D4 15 1 1 0 0 0 0 0 0 1 1 0 1 0 0 0 0,
    assign FUNC_SPI0_D5 15 1 1 0 0 0 0 0 0 1 1 0 1 0 0 0 0,
    assign FUNC_SPI0_D6 15 1 1 0 0 0 0 0 0 1 1 0 1 0 0 0 0,
    assign FUNC_SPI0_D7 15 1 1 0 0 0 0 0 0 1 1 0 1 0 0 0 0,
    assign FUNC_SPI0_SS0 15 1 0 0 0 0 0 0 0 0 0 0 0 0 0 0 0,
    assign FUNC_SPI0_SS1 15 1 0 0 0 0 0 0 0 0 0 0 0 0 0 0 0,
    assign FUNC_SPI0_SS2 15 1 0 0 0 0 0 0 0 0 0 0 0 0 0 0 0,
    assign FUNC_SPI0_SS3 15 1 0 0 0 0 0 0 0 0 0 0 0 0 0 0 0]"

definition function_config_2 :: "fpioa_assign_t list" where
  "function_config_2 =
   [assign FUNC_SPI0_ARB 0 0 0 0 0 0 0 0 0 1 0 0 1 1 1 0 0,
    assign FUNC_SPI0_SCLK 15 1 0 0 0 0 0 0 0 0 0 0 0 0 0 0 0,
    assign FUNC_UARTHS_RX 0 0 0 0 0 0 0 0 0 1 0 0 1 0 0 0 0,
    assign FUNC_UARTHS_TX 15 1 0 0 0 0 0 0 0 0 0 0 0 0 0 0 0,
    assign FUNC_RESV6 0 0 0 0 0 0 0 0 0 1 0 0 1 0 0 0 0,
    assign FUNC_RESV7 0 0 0 0 0 0 0 0 0 1 0 0 1 0 0 0 0,
    assign FUNC_CLK_SPI1 15 1 0 0 0 0 0 0 0 0 0 0 0 0 0 0 0,
    assign FUNC_CLK_I2C1 15 1 0 0 0 0 0 0 0 0 0 0 0 0 0 0 0]"

definition function_config_3 :: "fpioa_assign_t list" where
  "function_config_3 =
   [assign FUNC_GPIOHS0 15 1 0 0 0 0 0 0 0 1 0 0 1 0 0 0 0,
    assign FUNC_GPIOHS1 15 1 0 0 0 0 0 0 0 1 0 0 1 0 0 0 0,
    assign FUNC_GPIOHS2 15 1 0 0 0 0 0 0 0 1 0 0 1 0 0 0 0,
    assign FUNC_GPIOHS3 15 1 0 0 0 0 0 0 0 1 0 0 1 0 0 0 0,
    assign FUNC_GPIOHS4 15 1 0 0 0 0 0 0 0 1 0 0 1 0 0 0 0,
    assign FUNC_GPIOHS5 15 1 0 0 0 0 0 0 0 1 0 0 1 0 0 0 0,
    assign FUNC_GPIOHS6 15 1 0 0 0 0 0 0 0 1 0 0 1 0 0 0 0,
    assign FUNC_GPIOHS7 15 1 0 0 0 0 0 0 0 1 0 0 1 0 0 0 0]"

definition function_config_4 :: "fpioa_assign_t list" where
  "function_config_4 =
   [assign FUNC_GPIOHS8 15 1 0 0 0 0 0 0 0 1 0 0 1 0 0 0 0,
    assign FUNC_GPIOHS9 15 1 0 0 0 0 0 0 0 1 0 0 1 0 0 0 0,
    assign FUNC_GPIOHS10 15 1 0 0 0 0 0 0 0 1 0 0 1 0 0 0 0,
    assign FUNC_GPIOHS11 15 1 0 0 0 0 0 0 0 1 0 0 1 0 0 0 0,
    assign FUNC_GPIOHS12 15 1 0 0 0 0 0 0 0 1 0 0 1 0 0 0 0,
    assign FUNC_GPIOHS13 15 1 0 0 0 0 0 0 0 1 0 0 1 0 0 0 0,
    assign FUNC_GPIOHS14 15 1 0 0 0 0 0 0 0 1 0 0 1 0 0 0 0,
    assign FUNC_GPIOHS15 15 1 0 0 0 0 0 0 0 1 0 0 1 0 0 0 0]"

definition function_config_5 :: "fpioa_assign_t list" where
  "function_config_5 =
   [assign FUNC_GPIOHS16 15 1 0 0 0 0 0 0 0 1 0 0 1 0 0 0 0,
    assign FUNC_GPIOHS17 15 1 0 0 0 0 0 0 0 1 0 0 1 0 0 0 0,
    assign FUNC_GPIOHS18 15 1 0 0 0 0 0 0 0 1 0 0 1 0 0 0 0,
    assign FUNC_GPIOHS19 15 1 0 0 0 0 0 0 0 1 0 0 1 0 0 0 0,
    assign FUNC_GPIOHS20 15 1 0 0 0 0 0 0 0 1 0 0 1 0 0 0 0,
    assign FUNC_GPIOHS21 15 1 0 0 0 0 0 0 0 1 0 0 1 0 0 0 0,
    assign FUNC_GPIOHS22 15 1 0 0 0 0 0 0 0 1 0 0 1 0 0 0 0,
    assign FUNC_GPIOHS23 15 1 0 0 0 0 0 0 0 1 0 0 1 0 0 0 0]"

definition function_config_6 :: "fpioa_assign_t list" where
  "function_config_6 =
   [assign FUNC_GPIOHS24 15 1 0 0 0 0 0 0 0 1 0 0 1 0 0 0 0,
    assign FUNC_GPIOHS25 15 1 0 0 0 0 0 0 0 1 0 0 1 0 0 0 0,
    assign FUNC_GPIOHS26 15 1 0 0 0 0 0 0 0 1 0 0 1 0 0 0 0,
    assign FUNC_GPIOHS27 15 1 0 0 0 0 0 0 0 1 0 0 1 0 0 0 0,
    assign FUNC_GPIOHS28 15 1 0 0 0 0 0 0 0 1 0 0 1 0 0 0 0,
    assign FUNC_GPIOHS29 15 1 0 0 0 0 0 0 0 1 0 0 1 0 0 0 0,
    assign FUNC_GPIOHS30 15 1 0 0 0 0 0 0 0 1 0 0 1 0 0 0 0,
    assign FUNC_GPIOHS31 15 1 0 0 0 0 0 0 0 1 0 0 1 0 0 0 0]"

definition function_config_7 :: "fpioa_assign_t list" where
  "function_config_7 =
   [assign FUNC_GPIO0 15 1 0 0 0 0 0 0 0 1 0 0 1 0 0 0 0,
    assign FUNC_GPIO1 15 1 0 0 0 0 0 0 0 1 0 0 1 0 0 0 0,
    assign FUNC_GPIO2 15 1 0 0 0 0 0 0 0 1 0 0 1 0 0 0 0,
    assign FUNC_GPIO3 15 1 0 0 0 0 0 0 0 1 0 0 1 0 0 0 0,
    assign FUNC_GPIO4 15 1 0 0 0 0 0 0 0 1 0 0 1 0 0 0 0,
    assign FUNC_GPIO5 15 1 0 0 0 0 0 0 0 1 0 0 1 0 0 0 0,
    assign FUNC_GPIO6 15 1 0 0 0 0 0 0 0 1 0 0 1 0 0 0 0,
    assign FUNC_GPIO7 15 1 0 0 0 0 0 0 0 1 0 0 1 0 0 0 0]"

definition function_config_8 :: "fpioa_assign_t list" where
  "function_config_8 =
   [assign FUNC_UART1_RX 0 0 0 0 0 0 0 0 0 1 0 0 1 0 0 0 0,
    assign FUNC_UART1_TX 15 1 0 0 0 0 0 0 0 0 0 0 0 0 0 0 0,
    assign FUNC_UART2_RX 0 0 0 0 0 0 0 0 0 1 0 0 1 0 0 0 0,
    assign FUNC_UART2_TX 15 1 0 0 0 0 0 0 0 0 0 0 0 0 0 0 0,
    assign FUNC_UART3_RX 0 0 0 0 0 0 0 0 0 1 0 0 1 0 0 0 0,
    assign FUNC_UART3_TX 15 1 0 0 0 0 0 0 0 0 0 0 0 0 0 0 0,
    assign FUNC_SPI1_D0 15 1 1 0 0 0 0 0 0 1 1 0 1 0 0 0 0,
    assign FUNC_SPI1_D1 15 1 1 0 0 0 0 0 0 1 1 0 1 0 0 0 0]"

definition function_config_9 :: "fpioa_assign_t list" where
  "function_config_9 =
   [assign FUNC_SPI1_D2 15 1 1 0 0 0 0 0 0 1 1 0 1 0 0 0 0,
    assign FUNC_SPI1_D3 15 1 1 0 0 0 0 0 0 1 1 0 1 0 0 0 0,
    assign FUNC_SPI1_D4 15 1 1 0 0 0 0 0 0 1 1 0 1 0 0 0 0,
    assign FUNC_SPI1_D5 15 1 1 0 0 0 0 0 0 1 1 0 1 0 0 0 0,
    assign FUNC_SPI1_D6 15 1 1 0 0 0 0 0 0 1 1 0 1 0 0 0 0,
    assign FUNC_SPI1_D7 15 1 1 0 0 0 0 0 0 1 1 0 1 0 0 0 0,
    assign FUNC_SPI1_SS0 15 1 0 0 0 0 0 0 0 0 0 0 0 0 0 0 0,
    assign FUNC_SPI1_SS1 15 1 0 0 0 0 0 0 0 0 0 0 0 0 0 0 0]"

definition function_config_10 :: "fpioa_assign_t list" where
  "function_config_10 =
   [assign FUNC_SPI1_SS2 15 1 0 0 0 0 0 0 0 0 0 0 0 0 0 0 0,
    assign FUNC_SPI1_SS3 15 1 0 0 0 0 0 0 0 0 0 0 0 0 0 0 0,
    assign FUNC_SPI1_ARB 0 0 0 0 0 0 0 0 0 1 0 0 1 1 1 0 0,
    assign FUNC_SPI1_SCLK 15 1 0 0 0 0 0 0 0 0 0 0 0 0 0 0 0,
    assign FUNC_SPI_SLAVE_D0 15 1 1 0 0 0 0 0 0 1 1 0 1 0 0 0 0,
    assign FUNC_SPI_SLAVE_SS 0 0 0 0 0 0 0 0 0 1 0 0 1 0 0 0 0,
    assign FUNC_SPI_SLAVE_SCLK 0 0 0 0 0 0 0 0 0 1 0 0 1 0 0 0 0,
    assign FUNC_I2S0_MCLK 15 1 0 0 0 0 0 0 0 0 0 0 0 0 0 0 0]"

definition function_config_11 :: "fpioa_assign_t list" where
  "function_config_11 =
   [assign FUNC_I2S0_SCLK 15 1 0 0 0 0 0 0 0 0 0 0 0 0 0 0 0,
    assign FUNC_I2S0_WS 15 1 0 0 0 0 0 0 0 0 0 0 0 0 0 0 0,
    assign FUNC_I2S0_IN_D0 0 0 0 0 0 0 0 0 0 1 0 0 1 0 0 0 0,
    assign FUNC_I2S0_IN_D1 0 0 0 0 0 0 0 0 0 1 0 0 1 0 0 0 0,
    assign FUNC_I2S0_IN_D2 0 0 0 0 0 0 0 0 0 1 0 0 1 0 0 0 0,
    assign FUNC_I2S0_IN_D3 0 0 0 0 0 0 0 0 0 1 0 0 1 0 0 0 0,
    assign FUNC_I2S0_OUT_D0 15 1 0 0 0 0 0 0 0 0 0 0 0 0 0 0 0,
    assign FUNC_I2S0_OUT_D1 15 1 0 0 0 0 0 0 0 0 0 0 0 0 0 0 0]"

definition function_config_12 :: "fpioa_assign_t list" where
  "function_config_12 =
   [assign FUNC_I2S0_OUT_D2 15 1 0 0 0 0 0 0 0 0 0 0 0 0 0 0 0,
    assign FUNC_I2S0_OUT_D3 15 1 0 0 0 0 0 0 0 0 0 0 0 0 0 0 0,
    assign FUNC_I2S1_MCLK 15 1 0 0 0 0 0 0 0 0 0 0 0 0 0 0 0,
    assign FUNC_I2S1_SCLK 15 1 0 0 0 0 0 0 0 0 0 0 0 0 0 0 0,
    assign FUNC_I2S1_WS 15 1 0 0 0 0 0 0 0 0 0 0 0 0 0 0 0,
    assign FUNC_I2S1_IN_D0 0 0 0 0 0 0 0 0 0 1 0 0 1 0 0 0 0,
    assign FUNC_I2S1_IN_D1 0 0 0 0 0 0 0 0 0 1 0 0 1 0 0 0 0,
    assign FUNC_I2S1_IN_D2 0 0 0 0 0 0 0 0 0 1 0 0 1 0 0 0 0]"

definition function_config_13 :: "fpioa_assign_t list" where
  "function_config_13 =
   [assign FUNC_I2S1_IN_D3 0 0 0 0 0 0 0 0 0 1 0 0 1 0 0 0 0,
    assign FUNC_I2S1_OUT_D0 15 1 0 0 0 0 0 0 0 0 0 0 0 0 0 0 0,
    assign FUNC_I2S1_OUT_D1 15 1 0 0 0 0 0 0 0 0 0 0 0 0 0 0 0,
    assign FUNC_I2S1_OUT_D2 15 1 0 0 0 0 0 0 0 0 0 0 0 0 0 0 0,
    assign FUNC_I2S1_OUT_D3 15 1 0 0 0 0 0 0 0 0 0 0 0 0 0 0 0,
    assign FUNC_I2S2_MCLK 15 1 0 0 0 0 0 0 0 0 0 0 0 0 0 0 0,
    assign FUNC_I2S2_SCLK 15 1 0 0 0 0 0 0 0 0 0 0 0 0 0 0 0,
    assign FUNC_I2S2_WS 15 1 0 0 0 0 0 0 0 0 0 0 0 0 0 0 0]"

definition function_config_14 :: "fpioa_assign_t list" where
  "function_config_14 =
   [assign FUNC_I2S2_IN_D0 0 0 0 0 0 0 0 0 0 1 0 0 1 0 0 0 0,
    assign FUNC_I2S2_IN_D1 0 0 0 0 0 0 0 0 0 1 0 0 1 0 0 0 0,
    assign FUNC_I2S2_IN_D2 0 0 0 0 0 0 0 0 0 1 0 0 1 0 0 0 0,
    assign FUNC_I2S2_IN_D3 0 0 0 0 0 0 0 0 0 1 0 0 1 0 0 0 0,
    assign FUNC_I2S2_OUT_D0 15 1 0 0 0 0 0 0 0 0 0 0 0 0 0 0 0,
    assign FUNC_I2S2_OUT_D1 15 1 0 0 0 0 0 0 0 0 0 0 0 0 0 0 0,
    assign FUNC_I2S2_OUT_D2 15 1 0 0 0 0 0 0 0 0 0 0 0 0 0 0 0,
    assign FUNC_I2S2_OUT_D3 15 1 0 0 0 0 0 0 0 0 0 0 0 0 0 0 0]"

definition function_config_15 :: "fpioa_assign_t list" where
  "function_config_15 =
   [assign FUNC_RESV0 0 0 0 0 0 0 0 0 0 0 0 0 0 0 0 0 0,
    assign FUNC_RESV1 0 0 0 0 0 0 0 0 0 0 0 0 0 0 0 0 0,
    assign FUNC_RESV2 0 0 0 0 0 0 0 0 0 0 0 0 0 0 0 0 0,
    assign FUNC_RESV3 0 0 0 0 0 0 0 0 0 0 0 0 0 0 0 0 0,
    assign FUNC_RESV4 0 0 0 0 0 0 0 0 0 0 0 0 0 0 0 0 0,
    assign FUNC_RESV5 0 0 0 0 0 0 0 0 0 0 0 0 0 0 0 0 0,
    assign FUNC_I2C0_SCLK 0 1 0 0 0 1 0 0 1 1 0 0 1 0 0 0 0,
    assign FUNC_I2C0_SDA 0 1 0 0 0 1 0 0 1 1 0 0 1 0 0 0 0]"

definition function_config_16 :: "fpioa_assign_t list" where
  "function_config_16 =
   [assign FUNC_I2C1_SCLK 0 1 0 0 0 1 0 0 1 1 0 0 1 0 0 0 0,
    assign FUNC_I2C1_SDA 0 1 0 0 0 1 0 0 1 1 0 0 1 0 0 0 0,
    assign FUNC_I2C2_SCLK 0 1 0 0 0 1 0 0 1 1 0 0 1 0 0 0 0,
    assign FUNC_I2C2_SDA 0 1 0 0 0 1 0 0 1 1 0 0 1 0 0 0 0,
    assign FUNC_CMOS_XCLK 15 1 0 0 0 0 0 0 0 0 0 0 0 0 0 0 0,
    assign FUNC_CMOS_RST 15 1 0 0 0 0 0 0 0 0 0 0 0 0 0 0 0,
    assign FUNC_CMOS_PWDN 15 1 0 0 0 0 0 0 0 0 0 0 0 0 0 0 0,
    assign FUNC_CMOS_VSYNC 0 0 0 0 0 0 0 0 0 1 0 0 1 0 0 0 0]"

definition function_config_17 :: "fpioa_assign_t list" where
  "function_config_17 =
   [assign FUNC_CMOS_HREF 0 0 0 0 0 0 0 0 0 1 0 0 1 0 0 0 0,
    assign FUNC_CMOS_PCLK 0 0 0 0 0 0 0 0 0 1 0 0 1 0 0 0 0,
    assign FUNC_CMOS_D0 0 0 0 0 0 0 0 0 0 1 0 0 1 0 0 0 0,
    assign FUNC_CMOS_D1 0 0 0 0 0 0 0 0 0 1 0 0 1 0 0 0 0,
    assign FUNC_CMOS_D2 0 0 0 0 0 0 0 0 0 1 0 0 1 0 0 0 0,
    assign FUNC_CMOS_D3 0 0 0 0 0 0 0 0 0 1 0 0 1 0 0 0 0,
    assign FUNC_CMOS_D4 0 0 0 0 0 0 0 0 0 1 0 0 1 0 0 0 0,
    assign FUNC_CMOS_D5 0 0 0 0 0 0 0 0 0 1 0 0 1 0 0 0 0]"

definition function_config_18 :: "fpioa_assign_t list" where
  "function_config_18 =
   [assign FUNC_CMOS_D6 0 0 0 0 0 0 0 0 0 1 0 0 1 0 0 0 0,
    assign FUNC_CMOS_D7 0 0 0 0 0 0 0 0 0 1 0 0 1 0 0 0 0,
    assign FUNC_SCCB_SCLK 0 1 1 0 0 1 0 0 1 1 0 0 1 0 0 0 0,
    assign FUNC_SCCB_SDA 0 1 1 0 0 1 0 0 1 1 0 0 1 0 0 0 0,
    assign FUNC_UART1_CTS 0 0 0 0 0 0 0 0 0 1 0 0 1 0 0 0 0,
    assign FUNC_UART1_DSR 0 0 0 0 0 0 0 0 0 1 0 0 1 0 0 0 0,
    assign FUNC_UART1_DCD 0 0 0 0 0 0 0 0 0 1 0 0 1 0 0 0 0,
    assign FUNC_UART1_RI 0 0 0 0 0 0 0 0 0 1 0 0 1 0 0 0 0]"

definition function_config_19 :: "fpioa_assign_t list" where
  "function_config_19 =
   [assign FUNC_UART1_SIR_IN 0 0 0 0 0 0 0 0 0 1 0 0 1 0 0 0 0,
    assign FUNC_UART1_DTR 15 1 0 0 0 0 0 0 0 0 0 0 0 0 0 0 0,
    assign FUNC_UART1_RTS 15 1 0 0 0 0 0 0 0 0 0 0 0 0 0 0 0,
    assign FUNC_UART1_OUT2 15 1 0 0 0 0 0 0 0 0 0 0 0 0 0 0 0,
    assign FUNC_UART1_OUT1 15 1 0 0 0 0 0 0 0 0 0 0 0 0 0 0 0,
    assign FUNC_UART1_SIR_OUT 15 1 0 0 0 0 0 0 0 0 0 0 0 0 0 0 0,
    assign FUNC_UART1_BAUD 15 1 0 0 0 0 0 0 0 0 0 0 0 0 0 0 0,
    assign FUNC_UART1_RE 15 1 0 0 0 0 0 0 0 0 0 0 0 0 0 0 0]"

definition function_config_20 :: "fpioa_assign_t list" where
  "function_config_20 =
   [assign FUNC_UART1_DE 15 1 0 0 0 0 0 0 0 0 0 0 0 0 0 0 0,
    assign FUNC_UART1_RS485_EN 15 1 0 0 0 0 0 0 0 0 0 0 0 0 0 0 0,
    assign FUNC_UART2_CTS 0 0 0 0 0 0 0 0 0 1 0 0 1 0 0 0 0,
    assign FUNC_UART2_DSR 0 0 0 0 0 0 0 0 0 1 0 0 1 0 0 0 0,
    assign FUNC_UART2_DCD 0 0 0 0 0 0 0 0 0 1 0 0 1 0 0 0 0,
    assign FUNC_UART2_RI 0 0 0 0 0 0 0 0 0 1 0 0 1 0 0 0 0,
    assign FUNC_UART2_SIR_IN 0 0 0 0 0 0 0 0 0 1 0 0 1 0 0 0 0,
    assign FUNC_UART2_DTR 15 1 0 0 0 0 0 0 0 0 0 0 0 0 0 0 0]"

definition function_config_21 :: "fpioa_assign_t list" where
  "function_config_21 =
   [assign FUNC_UART2_RTS 15 1 0 0 0 0 0 0 0 0 0 0 0 0 0 0 0,
    assign FUNC_UART2_OUT2 15 1 0 0 0 0 0 0 0 0 0 0 0 0 0 0 0,
    assign FUNC_UART2_OUT1 15 1 0 0 0 0 0 0 0 0 0 0 0 0 0 0 0,
    assign FUNC_UART2_SIR_OUT 15 1 0 0 0 0 0 0 0 0 0 0 0 0 0 0 0,
    assign FUNC_UART2_BAUD 15 1 0 0 0 0 0 0 0 0 0 0 0 0 0 0 0,
    assign FUNC_UART2_RE 15 1 0 0 0 0 0 0 0 0 0 0 0 0 0 0 0,
    assign FUNC_UART2_DE 15 1 0 0 0 0 0 0 0 0 0 0 0 0 0 0 0,
    assign FUNC_UART2_RS485_EN 15 1 0 0 0 0 0 0 0 0 0 0 0 0 0 0 0]"

definition function_config_22 :: "fpioa_assign_t list" where
  "function_config_22 =
   [assign FUNC_UART3_CTS 0 0 0 0 0 0 0 0 0 1 0 0 1 0 0 0 0,
    assign FUNC_UART3_DSR 0 0 0 0 0 0 0 0 0 1 0 0 1 0 0 0 0,
    assign FUNC_UART3_DCD 0 0 0 0 0 0 0 0 0 1 0 0 1 0 0 0 0,
    assign FUNC_UART3_RI 0 0 0 0 0 0 0 0 0 1 0 0 1 0 0 0 0,
    assign FUNC_UART3_SIR_IN 0 0 0 0 0 0 0 0 0 1 0 0 1 0 0 0 0,
    assign FUNC_UART3_DTR 15 1 0 0 0 0 0 0 0 0 0 0 0 0 0 0 0,
    assign FUNC_UART3_RTS 15 1 0 0 0 0 0 0 0 0 0 0 0 0 0 0 0,
    assign FUNC_UART3_OUT2 15 1 0 0 0 0 0 0 0 0 0 0 0 0 0 0 0]"

definition function_config_23 :: "fpioa_assign_t list" where
  "function_config_23 =
   [assign FUNC_UART3_OUT1 15 1 0 0 0 0 0 0 0 0 0 0 0 0 0 0 0,
    assign FUNC_UART3_SIR_OUT 15 1 0 0 0 0 0 0 0 0 0 0 0 0 0 0 0,
    assign FUNC_UART3_BAUD 15 1 0 0 0 0 0 0 0 0 0 0 0 0 0 0 0,
    assign FUNC_UART3_RE 15 1 0 0 0 0 0 0 0 0 0 0 0 0 0 0 0,
    assign FUNC_UART3_DE 15 1 0 0 0 0 0 0 0 0 0 0 0 0 0 0 0,
    assign FUNC_UART3_RS485_EN 15 1 0 0 0 0 0 0 0 0 0 0 0 0 0 0 0,
    assign FUNC_TIMER0_TOGGLE1 15 1 0 0 0 0 0 0 0 0 0 0 0 0 0 0 0,
    assign FUNC_TIMER0_TOGGLE2 15 1 0 0 0 0 0 0 0 0 0 0 0 0 0 0 0]"

definition function_config_24 :: "fpioa_assign_t list" where
  "function_config_24 =
   [assign FUNC_TIMER0_TOGGLE3 15 1 0 0 0 0 0 0 0 0 0 0 0 0 0 0 0,
    assign FUNC_TIMER0_TOGGLE4 15 1 0 0 0 0 0 0 0 0 0 0 0 0 0 0 0,
    assign FUNC_TIMER1_TOGGLE1 15 1 0 0 0 0 0 0 0 0 0 0 0 0 0 0 0,
    assign FUNC_TIMER1_TOGGLE2 15 1 0 0 0 0 0 0 0 0 0 0 0 0 0 0 0,
    assign FUNC_TIMER1_TOGGLE3 15 1 0 0 0 0 0 0 0 0 0 0 0 0 0 0 0,
    assign FUNC_TIMER1_TOGGLE4 15 1 0 0 0 0 0 0 0 0 0 0 0 0 0 0 0,
    assign FUNC_TIMER2_TOGGLE1 15 1 0 0 0 0 0 0 0 0 0 0 0 0 0 0 0,
    assign FUNC_TIMER2_TOGGLE2 15 1 0 0 0 0 0 0 0 0 0 0 0 0 0 0 0]"

definition function_config_25 :: "fpioa_assign_t list" where
  "function_config_25 =
   [assign FUNC_TIMER2_TOGGLE3 15 1 0 0 0 0 0 0 0 0 0 0 0 0 0 0 0,
    assign FUNC_TIMER2_TOGGLE4 15 1 0 0 0 0 0 0 0 0 0 0 0 0 0 0 0,
    assign FUNC_CLK_SPI2 15 1 0 0 0 0 0 0 0 0 0 0 0 0 0 0 0,
    assign FUNC_CLK_I2C2 15 1 0 0 0 0 0 0 0 0 0 0 0 0 0 0 0,
    assign FUNC_INTERNAL0 15 1 0 0 0 0 0 0 0 0 0 0 0 0 0 0 0,
    assign FUNC_INTERNAL1 15 1 0 0 0 0 0 0 0 0 0 0 0 0 0 0 0,
    assign FUNC_INTERNAL2 15 1 0 0 0 0 0 0 0 0 0 0 0 0 0 0 0,
    assign FUNC_INTERNAL3 15 1 0 0 0 0 0 0 0 0 0 0 0 0 0 0 0]"

definition function_config_26 :: "fpioa_assign_t list" where
  "function_config_26 =
   [assign FUNC_INTERNAL4 15 1 0 0 0 0 0 0 0 0 0 0 0 0 0 0 0,
    assign FUNC_INTERNAL5 15 1 0 0 0 0 0 0 0 0 0 0 0 0 0 0 0,
    assign FUNC_INTERNAL6 15 1 0 0 0 0 0 0 0 0 0 0 0 0 0 0 0,
    assign FUNC_INTERNAL7 15 1 0 0 0 0 0 0 0 0 0 0 0 0 0 0 0,
    assign FUNC_INTERNAL8 15 1 0 0 0 0 0 0 0 0 0 0 0 0 0 0 0,
    assign FUNC_INTERNAL9 0 0 0 0 0 0 0 0 0 1 0 0 1 0 0 0 0,
    assign FUNC_INTERNAL10 0 0 0 0 0 0 0 0 0 1 0 0 1 0 0 0 0,
    assign FUNC_INTERNAL11 0 0 0 0 0 0 0 0 0 1 0 0 1 0 0 0 0]"

definition function_config_27 :: "fpioa_assign_t list" where
  "function_config_27 =
   [assign FUNC_INTERNAL12 0 0 0 0 0 0 0 0 0 1 0 0 1 0 0 0 0,
    assign FUNC_INTERNAL13 0 0 0 0 0 1 0 0 0 1 0 0 1 0 0 0 0,
    assign FUNC_INTERNAL14 15 1 0 0 0 1 0 0 1 1 0 0 1 0 0 0 0,
    assign FUNC_INTERNAL15 0 0 0 0 0 0 0 0 0 1 0 0 1 0 0 0 0,
    assign FUNC_INTERNAL16 0 0 0 0 0 0 0 0 0 1 0 0 1 0 0 0 0,
    assign FUNC_INTERNAL17 0 0 0 0 0 0 0 0 0 1 0 0 1 0 0 0 0,
    assign FUNC_CONSTANT 0 0 0 0 0 0 0 0 0 0 0 0 0 0 0 0 0,
    assign FUNC_INTERNAL18 0 0 0 0 0 0 0 0 0 1 0 0 1 0 0 0 0]"

definition function_config_28 :: "fpioa_assign_t list" where
  "function_config_28 =
   [assign FUNC_DEBUG0 15 1 0 0 0 0 0 0 0 0 0 0 0 0 0 0 0,
    assign FUNC_DEBUG1 15 1 0 0 0 0 0 0 0 0 0 0 0 0 0 0 0,
    assign FUNC_DEBUG2 15 1 0 0 0 0 0 0 0 0 0 0 0 0 0 0 0,
    assign FUNC_DEBUG3 15 1 0 0 0 0 0 0 0 0 0 0 0 0 0 0 0,
    assign FUNC_DEBUG4 15 1 0 0 0 0 0 0 0 0 0 0 0 0 0 0 0,
    assign FUNC_DEBUG5 15 1 0 0 0 0 0 0 0 0 0 0 0 0 0 0 0,
    assign FUNC_DEBUG6 15 1 0 0 0 0 0 0 0 0 0 0 0 0 0 0 0,
    assign FUNC_DEBUG7 15 1 0 0 0 0 0 0 0 0 0 0 0 0 0 0 0]"

definition function_config_29 :: "fpioa_assign_t list" where
  "function_config_29 =
   [assign FUNC_DEBUG8 15 1 0 0 0 0 0 0 0 0 0 0 0 0 0 0 0,
    assign FUNC_DEBUG9 15 1 0 0 0 0 0 0 0 0 0 0 0 0 0 0 0,
    assign FUNC_DEBUG10 15 1 0 0 0 0 0 0 0 0 0 0 0 0 0 0 0,
    assign FUNC_DEBUG11 15 1 0 0 0 0 0 0 0 0 0 0 0 0 0 0 0,
    assign FUNC_DEBUG12 15 1 0 0 0 0 0 0 0 0 0 0 0 0 0 0 0,
    assign FUNC_DEBUG13 15 1 0 0 0 0 0 0 0 0 0 0 0 0 0 0 0,
    assign FUNC_DEBUG14 15 1 0 0 0 0 0 0 0 0 0 0 0 0 0 0 0,
    assign FUNC_DEBUG15 15 1 0 0 0 0 0 0 0 0 0 0 0 0 0 0 0]"

definition function_config_30 :: "fpioa_assign_t list" where
  "function_config_30 =
   [assign FUNC_DEBUG16 15 1 0 0 0 0 0 0 0 0 0 0 0 0 0 0 0,
    assign FUNC_DEBUG17 15 1 0 0 0 0 0 0 0 0 0 0 0 0 0 0 0,
    assign FUNC_DEBUG18 15 1 0 0 0 0 0 0 0 0 0 0 0 0 0 0 0,
    assign FUNC_DEBUG19 15 1 0 0 0 0 0 0 0 0 0 0 0 0 0 0 0,
    assign FUNC_DEBUG20 15 1 0 0 0 0 0 0 0 0 0 0 0 0 0 0 0,
    assign FUNC_DEBUG21 15 1 0 0 0 0 0 0 0 0 0 0 0 0 0 0 0,
    assign FUNC_DEBUG22 15 1 0 0 0 0 0 0 0 0 0 0 0 0 0 0 0,
    assign FUNC_DEBUG23 15 1 0 0 0 0 0 0 0 0 0 0 0 0 0 0 0]"

definition function_config_31 :: "fpioa_assign_t list" where
  "function_config_31 =
   [assign FUNC_DEBUG24 15 1 0 0 0 0 0 0 0 0 0 0 0 0 0 0 0,
    assign FUNC_DEBUG25 15 1 0 0 0 0 0 0 0 0 0 0 0 0 0 0 0,
    assign FUNC_DEBUG26 15 1 0 0 0 0 0 0 0 0 0 0 0 0 0 0 0,
    assign FUNC_DEBUG27 15 1 0 0 0 0 0 0 0 0 0 0 0 0 0 0 0,
    assign FUNC_DEBUG28 15 1 0 0 0 0 0 0 0 0 0 0 0 0 0 0 0,
    assign FUNC_DEBUG29 15 1 0 0 0 0 0 0 0 0 0 0 0 0 0 0 0,
    assign FUNC_DEBUG30 15 1 0 0 0 0 0 0 0 0 0 0 0 0 0 0 0,
    assign FUNC_DEBUG31 15 1 0 0 0 0 0 0 0 0 0 0 0 0 0 0 0]"

definition function_config :: "fpioa_assign_t list" where
  "function_config =
   concat [function_config_0, function_config_1, function_config_2, function_config_3, function_config_4, function_config_5,
     function_config_6, function_config_7, function_config_8, function_config_9, function_config_10,
     function_config_11, function_config_12, function_config_13, function_config_14, function_config_15,
     function_config_16, function_config_17, function_config_18, function_config_19, function_config_20,
     function_config_21, function_config_22, function_config_23, function_config_24, function_config_25,
     function_config_26, function_config_27, function_config_28, function_config_29, function_config_30,
     function_config_31]"

lemmas function_config_rows =
  function_config_0_def function_config_1_def function_config_2_def function_config_3_def function_config_4_def
  function_config_5_def function_config_6_def function_config_7_def function_config_8_def function_config_9_def
  function_config_10_def function_config_11_def function_config_12_def function_config_13_def function_config_14_def
  function_config_15_def function_config_16_def function_config_17_def function_config_18_def function_config_19_def
  function_config_20_def function_config_21_def function_config_22_def function_config_23_def function_config_24_def
  function_config_25_def function_config_26_def function_config_27_def function_config_28_def function_config_29_def
  function_config_30_def function_config_31_def

lemma function_config_ch_sel: "map fa_ch_sel function_config = map of_nat [0..<256]"
  unfolding function_config_def function_config_rows assign_def fpioa_funcs by (simp add: upt_rec)

section \<open>Operations\<close>

text \<open>The register value a compound literal builds: the named fields in turn, every other bit zero.\<close>

definition io_config_of :: "fpioa_assign_t \<Rightarrow> 32 word" where
  "io_config_of a = foldl (\<lambda>x (f, v). bf_set fpioa_io_config_t f v x) 0
     [(''ch_sel'', ucast (fa_ch_sel a)), (''ds'', ucast (fa_ds a)), (''oe_en'', ucast (fa_oe_en a)),
      (''oe_inv'', ucast (fa_oe_inv a)), (''do_sel'', ucast (fa_do_sel a)), (''do_inv'', ucast (fa_do_inv a)),
      (''pu'', ucast (fa_pu a)), (''pd'', ucast (fa_pd a)), (''sl'', ucast (fa_sl a)), (''ie_en'', ucast (fa_ie_en a)),
      (''ie_inv'', ucast (fa_ie_inv a)), (''di_inv'', ucast (fa_di_inv a)), (''st'', ucast (fa_st a))]"

definition fpioa_set_io_pull :: "int \<Rightarrow> fpioa_pull_t \<Rightarrow> 'a fpioa_t_scheme \<Rightarrow> int \<times> 'a fpioa_t_scheme" where
  "fpioa_set_io_pull number pull s =
     (if number < 0 \<or> number \<ge> int FPIOA_NUM_IO \<or> pull = FPIOA_PULL_MAX then (-1, s)
      else
        let cfg = fp_io s ! nat number;
            set2 = (\<lambda>u d. bf_set fpioa_io_config_t ''pd'' d (bf_set fpioa_io_config_t ''pu'' u cfg));
            cfg' = (case pull of
                      FPIOA_PULL_NONE \<Rightarrow> set2 0 0
                    | FPIOA_PULL_DOWN \<Rightarrow> set2 0 1
                    | FPIOA_PULL_UP \<Rightarrow> set2 1 0
                    | _ \<Rightarrow> cfg)
        in (0, s\<lparr>fp_io := (fp_io s)[nat number := cfg']\<rparr>))"

definition fpioa_set_function_raw :: "int \<Rightarrow> nat \<Rightarrow> 'a fpioa_t_scheme \<Rightarrow> int \<times> 'a fpioa_t_scheme" where
  "fpioa_set_function_raw number function s =
     (if number < 0 \<or> number \<ge> int FPIOA_NUM_IO \<or> function \<ge> FUNC_MAX then (-1, s)
      else (0, s\<lparr>fp_io := (fp_io s)[nat number := io_config_of (function_config ! function)]\<rparr>))"

text \<open>The function a pin is connected to.\<close>

definition io_ch_sel :: "'a fpioa_t_scheme \<Rightarrow> nat \<Rightarrow> nat" where
  "io_ch_sel s i = unat (bf_get fpioa_io_config_t ''ch_sel'' (fp_io s ! i))"

text \<open>The loop that takes the function away from the pins from \<^verbatim>\<open>index\<close> on.\<close>

function release_pins :: "nat \<Rightarrow> int \<Rightarrow> nat \<Rightarrow> 'a fpioa_t_scheme \<Rightarrow> 'a fpioa_t_scheme" where
  "release_pins index number function s =
     (if index < FPIOA_NUM_IO then
        release_pins (index + 1) number function
          (if io_ch_sel s index = function \<and> int index \<noteq> number then snd (fpioa_set_function_raw (int index) FUNC_RESV0 s)
           else s)
      else s)"
  by pat_completeness auto
termination by (relation "measure (\<lambda>(i, _). FPIOA_NUM_IO - i)") auto

definition fpioa_set_function :: "int \<Rightarrow> nat \<Rightarrow> 'a fpioa_t_scheme \<Rightarrow> int \<times> 'a fpioa_t_scheme" where
  "fpioa_set_function number function s =
     (if number < 0 \<or> number \<ge> int FPIOA_NUM_IO \<or> function \<ge> FUNC_MAX then (-1, s)
      else if function = FUNC_RESV0 then (0, snd (fpioa_set_function_raw number FUNC_RESV0 s))
      else (0, snd (fpioa_set_function_raw number function (release_pins 0 number function s))))"

function io_by_function :: "nat \<Rightarrow> nat \<Rightarrow> 'a fpioa_t_scheme \<Rightarrow> int" where
  "io_by_function index function s =
     (if index < FPIOA_NUM_IO then
        if io_ch_sel s index = function then int index else io_by_function (index + 1) function s
      else -1)"
  by pat_completeness auto
termination by (relation "measure (\<lambda>(i, _). FPIOA_NUM_IO - i)") auto

definition fpioa_get_io_by_function :: "nat \<Rightarrow> 'a fpioa_t_scheme \<Rightarrow> int" where
  "fpioa_get_io_by_function function s = io_by_function 0 function s"

definition fpioa_pin_init :: "'a fpioa_t_scheme \<Rightarrow> 'a fpioa_t_scheme" where
  "fpioa_pin_init s =
    (let s = snd (fpioa_set_function 27 FUNC_SPI0_SCLK s);
         s = snd (fpioa_set_function 28 FUNC_SPI0_D0 s);
         s = snd (fpioa_set_function 26 FUNC_SPI0_D1 s);
         s = snd (fpioa_set_function 32 FUNC_GPIOHS7 s);
         s = snd (fpioa_set_function 29 FUNC_SPI0_SS3 s)
     in s)"

declare release_pins.simps [simp del] io_by_function.simps [simp del]

section \<open>Correctness\<close>

definition fpioa_ok :: "'a fpioa_t_scheme \<Rightarrow> bool" where
  "fpioa_ok s \<longleftrightarrow> length (fp_io s) = FPIOA_NUM_IO"

text \<open>No function is on two pins, the reserved one excepted.\<close>

definition pins_exclusive :: "'a fpioa_t_scheme \<Rightarrow> bool" where
  "pins_exclusive s \<longleftrightarrow>
     (\<forall>i < FPIOA_NUM_IO. \<forall>j < FPIOA_NUM_IO. io_ch_sel s i = io_ch_sel s j \<longrightarrow> io_ch_sel s i \<noteq> FUNC_RESV0 \<longrightarrow> i = j)"

lemma length_function_config: "length function_config = 256"
  using arg_cong [OF function_config_ch_sel, of length] by simp

lemma function_config_nth: "f < 256 \<Longrightarrow> fa_ch_sel (function_config ! f) = of_nat f"
  using arg_cong [OF function_config_ch_sel, of "\<lambda>l. l ! f"] by (simp add: length_function_config)

lemma io_config_layout_ok: "bf_ok LENGTH(32) fpioa_io_config_t"
  by (simp add: bf_ok_def fpioa_io_config_t_def)

lemma ch_sel_of_io_config: "unat (bf_get fpioa_io_config_t ''ch_sel'' (io_config_of a)) = unat (fa_ch_sel a)"
proof -
  have names: "''ch_sel'' \<in> bf_names fpioa_io_config_t" "''ds'' \<in> bf_names fpioa_io_config_t"
    "''oe_en'' \<in> bf_names fpioa_io_config_t" "''oe_inv'' \<in> bf_names fpioa_io_config_t" "''do_sel'' \<in> bf_names fpioa_io_config_t"
    "''do_inv'' \<in> bf_names fpioa_io_config_t" "''pu'' \<in> bf_names fpioa_io_config_t" "''pd'' \<in> bf_names fpioa_io_config_t"
    "''sl'' \<in> bf_names fpioa_io_config_t" "''ie_en'' \<in> bf_names fpioa_io_config_t" "''ie_inv'' \<in> bf_names fpioa_io_config_t"
    "''di_inv'' \<in> bf_names fpioa_io_config_t" "''st'' \<in> bf_names fpioa_io_config_t"
    by (simp_all add: fpioa_io_config_t_def)
  have "bf_get fpioa_io_config_t ''ch_sel'' (io_config_of a) = take_bit 8 (ucast (fa_ch_sel a))"
    unfolding io_config_of_def
    by (simp add: bf_get_set_other names bf_get_set_same [OF names(1) io_config_layout_ok])
      (simp add: fpioa_io_config_t_def)
  moreover have "take_bit 8 (ucast (fa_ch_sel a) :: 32 word) = ucast (fa_ch_sel a)"
    by (rule bit_word_eqI) (auto simp: bit_simps dest: bit_imp_le_length)
  ultimately show ?thesis 
    using unsigned_less [where 'a = nat, of "fa_ch_sel a"] by (simp add: unsigned_ucast_eq take_bit_nat_eq_self)
qed

lemma raw_invalid:
  "number < 0 \<or> number \<ge> 48 \<or> function \<ge> 256 \<Longrightarrow> fpioa_set_function_raw number function s = (-1, s)"
  by (auto simp: fpioa_set_function_raw_def FPIOA_NUM_IO_def FUNC_MAX_def)

lemma raw_valid:
  assumes "i < 48" "f < 256" "fpioa_ok s"
  shows "fpioa_set_function_raw (int i) f s = (0, s\<lparr>fp_io := (fp_io s)[i := io_config_of (function_config ! f)]\<rparr>)"
  using assms by (simp add: fpioa_set_function_raw_def FPIOA_NUM_IO_def FUNC_MAX_def)

lemma raw_ok [simp]: "fpioa_ok (snd (fpioa_set_function_raw n f s)) = fpioa_ok s"
  by (simp add: fpioa_set_function_raw_def fpioa_ok_def)

lemma raw_ch_sel:
  assumes "i < 48" "f < 256" "fpioa_ok s" "j < 48"
  shows "io_ch_sel (snd (fpioa_set_function_raw (int i) f s)) j = (if j = i then f else io_ch_sel s j)"
  using assms unfolding raw_valid [OF assms(1-3)]
  by (simp add: io_ch_sel_def nth_list_update ch_sel_of_io_config function_config_nth fpioa_ok_def FPIOA_NUM_IO_def
      unsigned_of_nat take_bit_nat_eq_self)

lemma raw_io_other:
  assumes "j \<noteq> nat n" shows "fp_io (snd (fpioa_set_function_raw n f s)) ! j = fp_io s ! j"
  using assms by (simp add: fpioa_set_function_raw_def)

text \<open>What the loop leaves: the pins from \<open>k\<close> on give the function up, except the pin asked for.\<close>

lemma release_pins_effect:
  "fpioa_ok s \<Longrightarrow> fpioa_ok (release_pins k n f s) \<and>
   (\<forall>j < 48. io_ch_sel (release_pins k n f s) j =
      (if k \<le> j \<and> io_ch_sel s j = f \<and> int j \<noteq> n then FUNC_RESV0 else io_ch_sel s j) \<and>
      (\<not> (k \<le> j \<and> io_ch_sel s j = f \<and> int j \<noteq> n) \<longrightarrow> fp_io (release_pins k n f s) ! j = fp_io s ! j))"
proof (induction k n f s rule: release_pins.induct)
  case (1 k n f s)
  show ?case
  proof (cases "k < 48")
    case False
    then show ?thesis using 1(2) by (simp add: release_pins.simps [of k] FPIOA_NUM_IO_def)
  next
    case True
    have r: "FUNC_RESV0 < 256" by (simp add: FUNC_RESV0_def)
    let ?t = "if io_ch_sel s k = f \<and> int k \<noteq> n then snd (fpioa_set_function_raw (int k) FUNC_RESV0 s) else s"
    have ok: "fpioa_ok ?t" using 1(2) by simp
    have step: "release_pins k n f s = release_pins (k + 1) n f ?t"
      using True by (subst release_pins.simps) (simp add: FPIOA_NUM_IO_def)
    have ch: "io_ch_sel ?t j = (if j = k \<and> io_ch_sel s k = f \<and> int k \<noteq> n then FUNC_RESV0 else io_ch_sel s j)" if "j < 48" for j
      using raw_ch_sel [OF True r 1(2) that] by auto
    have io: "fp_io ?t ! j = fp_io s ! j" if "\<not> (j = k \<and> io_ch_sel s k = f \<and> int k \<noteq> n)" for j
      using that by (auto simp: raw_io_other)
    note IH = 1(1) [OF _ ok, unfolded FPIOA_NUM_IO_def, OF True]
    show ?thesis unfolding step
    proof (intro conjI allI impI)
      show "fpioa_ok (release_pins (k + 1) n f ?t)" using IH by blast
    next
      fix j :: nat assume j: "j < 48"
      show "io_ch_sel (release_pins (k + 1) n f ?t) j =
         (if k \<le> j \<and> io_ch_sel s j = f \<and> int j \<noteq> n then FUNC_RESV0 else io_ch_sel s j)"
        using IH j ch [OF j] by (cases "j = k") auto
    next
      fix j :: nat assume j: "j < 48" and nt: "\<not> (k \<le> j \<and> io_ch_sel s j = f \<and> int j \<noteq> n)"
      then have "\<not> (j = k \<and> io_ch_sel s k = f \<and> int k \<noteq> n)" by auto
      moreover have "\<not> (k + 1 \<le> j \<and> io_ch_sel ?t j = f \<and> int j \<noteq> n)" using nt ch [OF j] by auto
      ultimately show "fp_io (release_pins (k + 1) n f ?t) ! j = fp_io s ! j" using IH j io by metis
    qed
  qed
qed

lemma io_by_function_first:
  "(\<And>j. k \<le> j \<Longrightarrow> j < n \<Longrightarrow> io_ch_sel s j \<noteq> f) \<Longrightarrow> n < 48 \<Longrightarrow> io_ch_sel s n = f \<Longrightarrow> k \<le> n \<Longrightarrow>
   io_by_function k f s = int n"
proof (induction k f s rule: io_by_function.induct)
  case (1 k f s)
  show ?case
  proof (cases "k = n")
    case True
    then show ?thesis using 1 by (subst io_by_function.simps) (simp add: FPIOA_NUM_IO_def)
  next
    case False
    then have "io_ch_sel s k \<noteq> f" using 1 by simp
    moreover have "io_by_function (k + 1) f s = int n"
      using False 1 calculation by (simp add: FPIOA_NUM_IO_def)
    ultimately show ?thesis using 1 False by (subst io_by_function.simps) (simp add: FPIOA_NUM_IO_def)
  qed
qed

lemma io_by_function_absent:
  "(\<And>j. k \<le> j \<Longrightarrow> j < 48 \<Longrightarrow> io_ch_sel s j \<noteq> f) \<Longrightarrow> io_by_function k f s = -1"
proof (induction k f s rule: io_by_function.induct)
  case (1 k f s)
  then show ?case by (subst io_by_function.simps) (simp add: FPIOA_NUM_IO_def)
qed

text \<open>The connections after a pin was given a function, and what became of the registers.\<close>

lemma set_function_effect:
  assumes "fpioa_ok s" "n < 48" "f < 256"
  defines "s' \<equiv> snd (fpioa_set_function (int n) f s)"
  shows "fpioa_ok s'"
    and "j < 48 \<Longrightarrow> io_ch_sel s' j = (if j = n then f else if io_ch_sel s j = f then FUNC_RESV0 else io_ch_sel s j)"
    and "j < 48 \<Longrightarrow> j \<noteq> n \<Longrightarrow> io_ch_sel s j \<noteq> f \<Longrightarrow> fp_io s' ! j = fp_io s ! j"
    and "fp_io s' ! n = io_config_of (function_config ! f)"
proof -
  let ?t = "if f = FUNC_RESV0 then s else release_pins 0 (int n) f s"
  have s': "s' = snd (fpioa_set_function_raw (int n) f ?t)"
    using assms(2,3) by (simp add: s'_def fpioa_set_function_def FPIOA_NUM_IO_def FUNC_MAX_def)
  note rel = release_pins_effect [OF assms(1), of 0 "int n" f]
  have ok: "fpioa_ok ?t" using rel assms(1) by simp
  then show "fpioa_ok s'" by (simp add: s')
  have ch: "io_ch_sel ?t j = (if io_ch_sel s j = f \<and> j \<noteq> n then FUNC_RESV0 else io_ch_sel s j)" if "j < 48" for j
    using rel that by auto
  show "io_ch_sel s' j = (if j = n then f else if io_ch_sel s j = f then FUNC_RESV0 else io_ch_sel s j)" if "j < 48"
    unfolding s' using raw_ch_sel [OF assms(2,3) ok that] ch [OF that] by simp
  show "fp_io s' ! j = fp_io s ! j" if "j < 48" "j \<noteq> n" "io_ch_sel s j \<noteq> f"
  proof -
    have "fp_io s' ! j = fp_io ?t ! j" unfolding s' using that by (simp add: raw_io_other)
    also have "\<dots> = fp_io s ! j" using rel that by auto
    finally show ?thesis .
  qed
  show "fp_io s' ! n = io_config_of (function_config ! f)"
    unfolding s' raw_valid [OF assms(2,3) ok] using ok assms(2) by (simp add: fpioa_ok_def FPIOA_NUM_IO_def)
qed

text \<open>
  C32: connecting a function to a pin takes it away from every other pin: afterwards the pin carries the function, the pins that
  carried it before are reserved, all other pins keep their whole register, a state in which no function is on two pins
  stays such a state, and the search for the pin of the function finds this pin.
\<close>

theorem fpioa_set_function_moves:
  assumes "fpioa_ok s" "n < FPIOA_NUM_IO" "f < FUNC_MAX"
  shows "\<exists>s'. fpioa_set_function (int n) f s = (0, s') \<and> fpioa_ok s' \<and>
     (\<forall>j < FPIOA_NUM_IO. io_ch_sel s' j = (if j = n then f else if io_ch_sel s j = f then FUNC_RESV0 else io_ch_sel s j)) \<and>
     (\<forall>j < FPIOA_NUM_IO. j \<noteq> n \<and> io_ch_sel s j \<noteq> f \<longrightarrow> fp_io s' ! j = fp_io s ! j) \<and>
     (pins_exclusive s \<longrightarrow> pins_exclusive s') \<and>
     (f \<noteq> FUNC_RESV0 \<longrightarrow> fpioa_get_io_by_function f s' = int n)"
proof -
  have n: "n < 48" and f: "f < 256" using assms(2,3) by (simp_all add: FPIOA_NUM_IO_def FUNC_MAX_def)
  let ?s = "snd (fpioa_set_function (int n) f s)"
  note e = set_function_effect [OF assms(1) n f]
  have ret: "fpioa_set_function (int n) f s = (0, ?s)"
    using assms(2,3) by (simp add: fpioa_set_function_def)
  have ex: "pins_exclusive ?s" if "pins_exclusive s"
    using that unfolding pins_exclusive_def FPIOA_NUM_IO_def by (auto simp: e(2) split: if_splits)
  have get: "fpioa_get_io_by_function f ?s = int n" if "f \<noteq> FUNC_RESV0"
    unfolding fpioa_get_io_by_function_def
    by (rule io_by_function_first) (use that n in \<open>auto simp: e(2)\<close>)
  show ?thesis
    by (rule exI [of _ ?s], intro conjI) (use ret e ex get in \<open>auto simp: FPIOA_NUM_IO_def\<close>)
qed

definition reset_pins :: fpioa_t where
  "reset_pins = \<lparr>fp_io = replicate 48 0, fp_tie_en = replicate 8 0, fp_tie_val = replicate 8 0\<rparr>"

lemma reset_pins_ok: "fpioa_ok reset_pins"
  by (simp add: reset_pins_def fpioa_ok_def FPIOA_NUM_IO_def)

theorem fpioa_set_function_moves_witness:
  "fpioa_get_io_by_function FUNC_SPI0_SCLK (snd (fpioa_set_function 27 FUNC_SPI0_SCLK reset_pins)) = 27"
  using fpioa_set_function_moves [OF reset_pins_ok, of 27 FUNC_SPI0_SCLK]
  by (auto simp: FPIOA_NUM_IO_def FUNC_MAX_def FUNC_SPI0_SCLK_def FUNC_RESV0_def)

end
