(* ===== verification/Gpiohs.thy ===== *)
theory Gpiohs
  imports Fpioa
begin

unbundle bit_operations_syntax

text \<open>
  The general-purpose pins of the K210 (\<^verbatim>\<open>driver/gpiohs.cpp\<close>, \<^verbatim>\<open>include/driver/gpiohs.hpp\<close>) and the bit operations on registers
  (\<^verbatim>\<open>driver/utils.cpp\<close>). The theorem follows the card's select line from the pin set-up to the level written to it.
\<close>

section \<open>Bits of a register\<close>

definition reg_set_bit :: "u32 \<Rightarrow> u32 \<Rightarrow> u32 \<Rightarrow> u32" where
  "reg_set_bit bits mask' val = (let org = bits AND NOT mask' in org OR (val AND mask'))"

text \<open>A shift by the width or more has no defined result.\<close>

definition set_bit_offset :: "u32 \<Rightarrow> u32 \<Rightarrow> nat \<Rightarrow> u32 \<Rightarrow> u32 result" where
  "set_bit_offset bits mask' offset val =
     (if offset \<ge> 32 then Inl (BadAccess ''shift past the width'')
      else Inr (reg_set_bit bits (push_bit offset mask') (push_bit offset val)))"

definition set_gpio_bit :: "u32 \<Rightarrow> nat \<Rightarrow> u32 \<Rightarrow> u32 result" where
  "set_gpio_bit bits offset val = set_bit_offset bits 1 offset val"

definition reg_get_bit :: "u32 \<Rightarrow> u32 \<Rightarrow> nat \<Rightarrow> u32 result" where
  "reg_get_bit bits mask' offset =
     (if offset \<ge> 32 then Inl (BadAccess ''shift past the width'')
      else Inr (drop_bit offset (bits AND push_bit offset mask')))"

definition get_gpio_bit :: "u32 \<Rightarrow> nat \<Rightarrow> u32 result" where
  "get_gpio_bit bits offset = reg_get_bit bits 1 offset"

section \<open>The controller\<close>

datatype gpio_drive_mode_t = GPIO_DM_INPUT | GPIO_DM_INPUT_PULL_DOWN | GPIO_DM_INPUT_PULL_UP | GPIO_DM_OUTPUT

datatype gpio_pin_value_t = GPIO_PV_LOW | GPIO_PV_HIGH

definition pv_word :: "gpio_pin_value_t \<Rightarrow> u32" where
  "pv_word v = (case v of GPIO_PV_LOW \<Rightarrow> 0 | GPIO_PV_HIGH \<Rightarrow> 1)"

text \<open>The registers of the general-purpose pins, beside those of the pin multiplexer.\<close>

record gpiohs_t = fpioa_t +
  gh_input_val :: u32
  gh_input_en :: u32
  gh_output_en :: u32
  gh_output_val :: u32
  gh_pullup_en :: u32
  gh_drive :: u32
  gh_rise_ie :: u32
  gh_rise_ip :: u32
  gh_fall_ie :: u32
  gh_fall_ip :: u32
  gh_high_ie :: u32
  gh_high_ip :: u32
  gh_low_ie :: u32
  gh_low_ip :: u32
  gh_iof_en :: u32
  gh_iof_sel :: u32
  gh_output_xor :: u32

text \<open>The mode is an enumeration, and its four values are all cases of the switch: the default branch is never taken.\<close>

definition gpiohs_set_drive_mode :: "8 word \<Rightarrow> gpio_drive_mode_t \<Rightarrow> 'a gpiohs_t_scheme \<Rightarrow> 'a gpiohs_t_scheme result" where
  "gpiohs_set_drive_mode pin mode s =
    (let io_number = fpioa_get_io_by_function (FUNC_GPIOHS0 + unat pin) s;
         (pull, output) = (case mode of
             GPIO_DM_INPUT \<Rightarrow> (FPIOA_PULL_NONE, False)
           | GPIO_DM_INPUT_PULL_DOWN \<Rightarrow> (FPIOA_PULL_DOWN, False)
           | GPIO_DM_INPUT_PULL_UP \<Rightarrow> (FPIOA_PULL_UP, False)
           | GPIO_DM_OUTPUT \<Rightarrow> (FPIOA_PULL_DOWN, True));
         s = snd (fpioa_set_io_pull io_number pull s)
     in if output then
          bindr (set_gpio_bit (gh_input_en s) (unat pin) 0) (\<lambda>r.
          let s = s\<lparr>gh_input_en := r\<rparr> in
          bindr (set_gpio_bit (gh_output_en s) (unat pin) 1) (\<lambda>r. Inr (s\<lparr>gh_output_en := r\<rparr>)))
        else
          bindr (set_gpio_bit (gh_output_en s) (unat pin) 0) (\<lambda>r.
          let s = s\<lparr>gh_output_en := r\<rparr> in
          bindr (set_gpio_bit (gh_input_en s) (unat pin) 1) (\<lambda>r. Inr (s\<lparr>gh_input_en := r\<rparr>))))"

definition gpiohs_set_pin :: "8 word \<Rightarrow> gpio_pin_value_t \<Rightarrow> 'a gpiohs_t_scheme \<Rightarrow> 'a gpiohs_t_scheme result" where
  "gpiohs_set_pin pin v s =
     bindr (set_gpio_bit (gh_output_val s) (unat pin) (pv_word v)) (\<lambda>r. Inr (s\<lparr>gh_output_val := r\<rparr>))"

section \<open>Correctness\<close>

lemma bit_reg_set: "bit (reg_set_bit b m v) i \<longleftrightarrow> (if bit m i then bit v i else bit b i)"
  by (auto simp: reg_set_bit_def bit_simps dest: bit_imp_le_length)

lemma set_gpio_bit_ok:
  assumes "o' < 32"
  obtains r where "set_gpio_bit b o' v = Inr r" "bit r o' = bit v 0" "\<And>i. i \<noteq> o' \<Longrightarrow> bit r i = bit b i"
proof
  let ?r = "reg_set_bit b (push_bit o' 1) (push_bit o' v)"
  show "set_gpio_bit b o' v = Inr ?r" using assms by (simp add: set_gpio_bit_def set_bit_offset_def)
  show "bit ?r o' = bit v 0" using assms by (simp add: bit_reg_set bit_simps)
  show "bit ?r i = bit b i" if "i \<noteq> o'" for i
    using that by (auto simp: bit_reg_set bit_simps)
qed

lemma pin_init_functions:
  assumes "fpioa_ok s"
  defines "s' \<equiv> fpioa_pin_init s"
  shows "fpioa_ok s'" "io_ch_sel s' 27 = FUNC_SPI0_SCLK" "io_ch_sel s' 28 = FUNC_SPI0_D0" "io_ch_sel s' 26 = FUNC_SPI0_D1"
    "io_ch_sel s' 32 = FUNC_GPIOHS7" "io_ch_sel s' 29 = FUNC_SPI0_SS3"
    "\<And>j. j < 48 \<Longrightarrow> io_ch_sel s' j = FUNC_GPIOHS7 \<Longrightarrow> j = 32"
proof -
  define s1 where "s1 = snd (fpioa_set_function 27 17 s)"
  define s2 where "s2 = snd (fpioa_set_function 28 4 s1)"
  define s3 where "s3 = snd (fpioa_set_function 26 5 s2)"
  define s4 where "s4 = snd (fpioa_set_function 32 31 s3)"
  have s': "s' = snd (fpioa_set_function 29 15 s4)"
    by (simp add: s'_def fpioa_pin_init_def s1_def s2_def s3_def s4_def fpioa_funcs)
  note e = set_function_effect
  note e1 = e [OF assms(1), of 27 17, simplified, folded s1_def]
  note e2 = e [OF e1(1), of 28 4, simplified, folded s2_def]
  note e3 = e [OF e2(1), of 26 5, simplified, folded s3_def]
  note e4 = e [OF e3(1), of 32 31, simplified, folded s4_def]
  note e5 = e [OF e4(1), of 29 15, simplified, folded s']
  note ch = e5(2) e4(2) e3(2) e2(2) e1(2)
  show "fpioa_ok s'" by (rule e5(1))
  show "io_ch_sel s' 27 = FUNC_SPI0_SCLK" "io_ch_sel s' 28 = FUNC_SPI0_D0" "io_ch_sel s' 26 = FUNC_SPI0_D1"
    "io_ch_sel s' 32 = FUNC_GPIOHS7" "io_ch_sel s' 29 = FUNC_SPI0_SS3"
    by (simp_all add: ch fpioa_funcs)
  show "j = 32" if "j < 48" "io_ch_sel s' j = FUNC_GPIOHS7" for j
    using that by (simp add: e5(2) e4(2) FUNC_GPIOHS7_def FUNC_RESV0_def split: if_splits)
qed

text \<open>Connecting pins touches no register of the general-purpose pins.\<close>

lemma raw_more: "fpioa_t.more (snd (fpioa_set_function_raw n f s)) = fpioa_t.more s"
  by (simp add: fpioa_set_function_raw_def)

lemma release_pins_more: "fpioa_t.more (release_pins k n f s) = fpioa_t.more s"
  by (induction k n f s rule: release_pins.induct) (subst release_pins.simps, simp add: raw_more)

lemma set_function_more: "fpioa_t.more (snd (fpioa_set_function n f s)) = fpioa_t.more s"
  by (simp add: fpioa_set_function_def raw_more release_pins_more)

lemma pin_init_more: "fpioa_t.more (fpioa_pin_init s) = fpioa_t.more s"
  by (simp add: fpioa_pin_init_def Let_def set_function_more)

lemma gpio_regs_more:
  "fpioa_t.more s = fpioa_t.more t \<Longrightarrow>
   gh_output_val s = gh_output_val t \<and> gh_output_en s = gh_output_en t \<and> gh_input_en s = gh_input_en t"
  by (cases s, cases t) simp

text \<open>The pull bits of a pin after they are set; the function and every other pin stay.\<close>

lemma set_io_pull_effect:
  assumes "fpioa_ok s" "n < 48" "pull \<noteq> FPIOA_PULL_MAX"
  defines "s' \<equiv> snd (fpioa_set_io_pull (int n) pull s)"
  shows "fpioa_ok s'"
    and "bf_get fpioa_io_config_t ''pu'' (fp_io s' ! n) = (if pull = FPIOA_PULL_UP then 1 else 0)"
    and "bf_get fpioa_io_config_t ''pd'' (fp_io s' ! n) = (if pull = FPIOA_PULL_DOWN then 1 else 0)"
    and "io_ch_sel s' j = io_ch_sel s j"
    and "j \<noteq> n \<Longrightarrow> fp_io s' ! j = fp_io s ! j"
    and "\<exists>io. s' = s\<lparr>fp_io := io\<rparr>"
proof -
  define u :: u32 where "u = (if pull = FPIOA_PULL_UP then 1 else 0)"
  define d :: u32 where "d = (if pull = FPIOA_PULL_DOWN then 1 else 0)"
  let ?cfg = "bf_set fpioa_io_config_t ''pd'' d (bf_set fpioa_io_config_t ''pu'' u (fp_io s ! n))"
  have s': "s' = s\<lparr>fp_io := (fp_io s)[n := ?cfg]\<rparr>"
    using assms(2,3)
    by (cases pull) (simp_all add: s'_def fpioa_set_io_pull_def FPIOA_NUM_IO_def u_def d_def)
  have len: "n < length (fp_io s)" using assms(1,2) by (simp add: fpioa_ok_def FPIOA_NUM_IO_def)
  have names: "''pu'' \<in> bf_names fpioa_io_config_t" "''pd'' \<in> bf_names fpioa_io_config_t"
    "''ch_sel'' \<in> bf_names fpioa_io_config_t" by (simp_all add: fpioa_io_config_t_def)
  have pos: "snd (bf_pos fpioa_io_config_t ''pu'') = 1" "snd (bf_pos fpioa_io_config_t ''pd'') = 1"
    by (simp_all add: fpioa_io_config_t_def)
  show "fpioa_ok s'" using assms(1) by (simp add: s' fpioa_ok_def)
  show "bf_get fpioa_io_config_t ''pu'' (fp_io s' ! n) = (if pull = FPIOA_PULL_UP then 1 else 0)"
    using len by (simp add: s' bf_get_set_other names bf_get_set_same [OF names(1) io_config_layout_ok] pos u_def take_bit_eq_mod)
  show "bf_get fpioa_io_config_t ''pd'' (fp_io s' ! n) = (if pull = FPIOA_PULL_DOWN then 1 else 0)"
    using len by (simp add: s' bf_get_set_same [OF names(2) io_config_layout_ok] pos d_def take_bit_eq_mod)
  show "io_ch_sel s' j = io_ch_sel s j"
    using len by (cases "j = n") (simp_all add: s' io_ch_sel_def bf_get_set_other names)
  show "fp_io s' ! j = fp_io s ! j" if "j \<noteq> n" using that by (simp add: s')
  show "\<exists>io. s' = s\<lparr>fp_io := io\<rparr>" using s' by blast
qed

lemma set_io_pull_invalid: "n < 0 \<or> n \<ge> 48 \<Longrightarrow> fpioa_set_io_pull n pull s = (-1, s)"
  by (auto simp: fpioa_set_io_pull_def FPIOA_NUM_IO_def)

lemma io_ch_sel_ext [simp]:
  "io_ch_sel (s\<lparr>gh_input_en := x\<rparr>) = io_ch_sel s" "io_ch_sel (s\<lparr>gh_output_en := x\<rparr>) = io_ch_sel s"
  "io_ch_sel (s\<lparr>gh_output_val := x\<rparr>) = io_ch_sel s"
  by (simp_all add: io_ch_sel_def fun_eq_iff)

text \<open>Driving mode output: the connected pin is pulled down, the pin's input bit is off and its output bit on.\<close>

lemma drive_mode_output:
  assumes "fpioa_ok s" "fpioa_get_io_by_function (FUNC_GPIOHS0 + unat pin) s = int n" "n < 48" "unat pin < 32"
  obtains s' where "gpiohs_set_drive_mode pin GPIO_DM_OUTPUT s = Inr s'"
    "bit (gh_output_en s') (unat pin)" "\<not> bit (gh_input_en s') (unat pin)"
    "\<And>i. i \<noteq> unat pin \<Longrightarrow> bit (gh_output_en s') i = bit (gh_output_en s) i \<and> bit (gh_input_en s') i = bit (gh_input_en s) i"
    "gh_output_val s' = gh_output_val s" "io_ch_sel s' = io_ch_sel s"
    "bf_get fpioa_io_config_t ''pu'' (fp_io s' ! n) = 0" "bf_get fpioa_io_config_t ''pd'' (fp_io s' ! n) = 1"
proof -
  define t where "t = snd (fpioa_set_io_pull (int n) FPIOA_PULL_DOWN s)"
  note p = set_io_pull_effect [OF assms(1,3), of FPIOA_PULL_DOWN, folded t_def, simplified]
  obtain io where t: "t = s\<lparr>fp_io := io\<rparr>" using p(6) by blast
  obtain r1 where r1: "set_gpio_bit (gh_input_en t) (unat pin) 0 = Inr r1" "\<not> bit r1 (unat pin)"
    "\<And>i. i \<noteq> unat pin \<Longrightarrow> bit r1 i = bit (gh_input_en t) i"
    using set_gpio_bit_ok [OF assms(4), of "gh_input_en t" 0] by auto
  obtain r2 where r2: "set_gpio_bit (gh_output_en t) (unat pin) 1 = Inr r2" "bit r2 (unat pin)"
    "\<And>i. i \<noteq> unat pin \<Longrightarrow> bit r2 i = bit (gh_output_en t) i"
    using set_gpio_bit_ok [OF assms(4), of "gh_output_en t" 1] by auto
  show thesis
  proof (rule that)
    show "gpiohs_set_drive_mode pin GPIO_DM_OUTPUT s = Inr (t\<lparr>gh_input_en := r1, gh_output_en := r2\<rparr>)"
      unfolding gpiohs_set_drive_mode_def assms(2) using r1(1) r2(1) by (simp add: t_def [symmetric])
    show "gh_output_val (t\<lparr>gh_input_en := r1, gh_output_en := r2\<rparr>) = gh_output_val s" by (simp add: t)
    show "io_ch_sel (t\<lparr>gh_input_en := r1, gh_output_en := r2\<rparr>) = io_ch_sel s" using p(4) by (simp add: fun_eq_iff)
  qed (use r1 r2 p t in simp_all)
qed

text \<open>
  C33: after the pins are set up, whatever they were before, output mode for the general-purpose pin 7 and a level written to it
  reach the card's select line: pin 32 carries the function and is pulled down, the output is enabled and the input is
  not, the level is the one asked for, the four pins of the serial bus carry its signals, and the bits of all other
  general-purpose pins stay as they were.
\<close>

theorem gpiohs_chip_select:
  assumes "fpioa_ok s"
  shows "\<exists>s1 s2. gpiohs_set_drive_mode 7 GPIO_DM_OUTPUT (fpioa_pin_init s) = Inr s1 \<and> gpiohs_set_pin 7 v s1 = Inr s2 \<and>
     bit (gh_output_en s2) 7 \<and> \<not> bit (gh_input_en s2) 7 \<and> bit (gh_output_val s2) 7 = (v = GPIO_PV_HIGH) \<and>
     map (io_ch_sel s2) [26, 27, 28, 29, 32] = [FUNC_SPI0_D1, FUNC_SPI0_SCLK, FUNC_SPI0_D0, FUNC_SPI0_SS3, FUNC_GPIOHS7] \<and>
     bf_get fpioa_io_config_t ''pu'' (fp_io s2 ! 32) = 0 \<and> bf_get fpioa_io_config_t ''pd'' (fp_io s2 ! 32) = 1 \<and>
     (\<forall>i. i \<noteq> 7 \<longrightarrow> bit (gh_output_val s2) i = bit (gh_output_val s) i \<and>
        bit (gh_output_en s2) i = bit (gh_output_en s) i \<and> bit (gh_input_en s2) i = bit (gh_input_en s) i)"
proof -
  let ?t = "fpioa_pin_init s"
  note p = pin_init_functions [OF assms]
  have "fpioa_get_io_by_function FUNC_GPIOHS7 ?t = int 32"
    unfolding fpioa_get_io_by_function_def
  proof (rule io_by_function_first)
    show "io_ch_sel ?t j \<noteq> FUNC_GPIOHS7" if "j < 32" for j using p(7) [of j] that by auto
  qed (use p(5) in simp_all)
  then have get: "fpioa_get_io_by_function (FUNC_GPIOHS0 + unat (7 :: 8 word)) ?t = int 32"
    by (simp add: fpioa_funcs)
  obtain s1 where s1: "gpiohs_set_drive_mode 7 GPIO_DM_OUTPUT ?t = Inr s1"
    "bit (gh_output_en s1) (unat (7 :: 8 word))" "\<not> bit (gh_input_en s1) (unat (7 :: 8 word))"
    "\<And>i. i \<noteq> unat (7 :: 8 word) \<Longrightarrow>
       bit (gh_output_en s1) i = bit (gh_output_en ?t) i \<and> bit (gh_input_en s1) i = bit (gh_input_en ?t) i"
    "gh_output_val s1 = gh_output_val ?t" "io_ch_sel s1 = io_ch_sel ?t"
    "bf_get fpioa_io_config_t ''pu'' (fp_io s1 ! 32) = 0" "bf_get fpioa_io_config_t ''pd'' (fp_io s1 ! 32) = 1"
    by (rule drive_mode_output [OF p(1) get]) simp_all
  obtain r where r: "set_gpio_bit (gh_output_val s1) 7 (pv_word v) = Inr r" "bit r 7 = bit (pv_word v) 0"
    "\<And>i. i \<noteq> 7 \<Longrightarrow> bit r i = bit (gh_output_val s1) i"
    using set_gpio_bit_ok [of 7 "gh_output_val s1" "pv_word v"] by auto
  have v: "bit (pv_word v) 0 = (v = GPIO_PV_HIGH)" by (cases v) (simp_all add: pv_word_def)
  show ?thesis
    by (rule exI [of _ s1], rule exI [of _ "s1\<lparr>gh_output_val := r\<rparr>"])
      (use s1 r v p gpio_regs_more [OF pin_init_more, of s] in \<open>simp add: gpiohs_set_pin_def\<close>)
qed

definition reset_gpio :: gpiohs_t where
  "reset_gpio = \<lparr>fp_io = replicate 48 0, fp_tie_en = replicate 8 0, fp_tie_val = replicate 8 0, gh_input_val = 0,
     gh_input_en = 0, gh_output_en = 0, gh_output_val = 0, gh_pullup_en = 0, gh_drive = 0, gh_rise_ie = 0, gh_rise_ip = 0,
     gh_fall_ie = 0, gh_fall_ip = 0, gh_high_ie = 0, gh_high_ip = 0, gh_low_ie = 0, gh_low_ip = 0, gh_iof_en = 0,
     gh_iof_sel = 0, gh_output_xor = 0\<rparr>"

theorem gpiohs_chip_select_witness:
  "\<exists>s1 s2. gpiohs_set_drive_mode 7 GPIO_DM_OUTPUT (fpioa_pin_init reset_gpio) = Inr s1 \<and>
     gpiohs_set_pin 7 GPIO_PV_HIGH s1 = Inr s2 \<and> bit (gh_output_val s2) 7 \<and> \<not> bit (gh_output_val s2) 6"
proof -
  have "fpioa_ok reset_gpio" by (simp add: reset_gpio_def fpioa_ok_def FPIOA_NUM_IO_def)
  moreover have "gh_output_val reset_gpio = 0" by (simp add: reset_gpio_def)
  ultimately show ?thesis using gpiohs_chip_select [of reset_gpio GPIO_PV_HIGH] by fastforce
qed

text \<open>A general-purpose pin that no pad carries is switched all the same; only the pull setting is skipped.\<close>

lemma drive_mode_unconnected:
  assumes "fpioa_get_io_by_function (FUNC_GPIOHS0 + unat pin) s = -1" "unat pin < 32"
  obtains s' where "gpiohs_set_drive_mode pin mode s = Inr s'" "fp_io s' = fp_io s"
    "bit (gh_output_en s') (unat pin) = (mode = GPIO_DM_OUTPUT)" "bit (gh_input_en s') (unat pin) = (mode \<noteq> GPIO_DM_OUTPUT)"
proof -
  obtain i1 where i1: "set_gpio_bit (gh_input_en s) (unat pin) 1 = Inr i1" "bit i1 (unat pin)"
    using set_gpio_bit_ok [OF assms(2), of "gh_input_en s" 1] by auto
  obtain i0 where i0: "set_gpio_bit (gh_input_en s) (unat pin) 0 = Inr i0" "\<not> bit i0 (unat pin)"
    using set_gpio_bit_ok [OF assms(2), of "gh_input_en s" 0] by auto
  obtain o1 where o1: "set_gpio_bit (gh_output_en s) (unat pin) 1 = Inr o1" "bit o1 (unat pin)"
    using set_gpio_bit_ok [OF assms(2), of "gh_output_en s" 1] by auto
  obtain o0 where o0: "set_gpio_bit (gh_output_en s) (unat pin) 0 = Inr o0" "\<not> bit o0 (unat pin)"
    using set_gpio_bit_ok [OF assms(2), of "gh_output_en s" 0] by auto
  have pull: "snd (fpioa_set_io_pull (-1) p s) = s" for p by (simp add: set_io_pull_invalid)
  show thesis
    using that [of "s\<lparr>gh_input_en := i0, gh_output_en := o1\<rparr>"] that [of "s\<lparr>gh_output_en := o0, gh_input_en := i1\<rparr>"]
    by (cases mode) (simp_all add: gpiohs_set_drive_mode_def assms(1) pull i1 i0 o1 o0)
qed

end
