(* ===== verification/Spec2Isabelle.thy ===== *)
theory Spec2Isabelle
  imports StringLib PageAlloc PageTable PageMap UserPages UserCopy Buddy BuddyHeap HashMap LinkedLists Locks Tasks Pipes Calendar
    BufferCache FatLayout Fat32 FatDir Console Vfs Processes Exec Syscalls ProcCalls Traps Boot
    Virtio VirtioInv VirtioDisk Printk Bitfields Sysctl Rtc ThinFat ThinFatVol ThinFatRead ThinFatNames OldVfs
    Fpioa Gpiohs
begin

text \<open>
  \<^bold>\<open>A verification development for the StartOS kernel.\<close>

  StartOS is a small Unix-like kernel for RISC-V (K210 boards and QEMU) written in C++. Its parts, from the
  bottom up, under \<^verbatim>\<open>src/kernel\<close> unless said otherwise:

  \<^item> memory: a page allocator whose free list runs through the free pages (\<^verbatim>\<open>memory/MemAllocator.cpp\<close>), Sv39 page
    tables and the copies between kernel and user memory (\<^verbatim>\<open>memory/VmManager.cpp\<close>), a buddy heap behind
    \<^verbatim>\<open>new\<close> and \<^verbatim>\<open>delete\<close> (\<^verbatim>\<open>memory/BuddyAllocator.cpp\<close>, \<^verbatim>\<open>StartOS.cpp\<close>), memory areas loaded on demand (\<^verbatim>\<open>memory/mmap.cpp\<close>);
  \<^item> containers: a hash map, a doubly linked ring and a singly linked list (\<^verbatim>\<open>src/sstl\<close>);
  \<^item> concurrency: spin locks with interrupt nesting (\<^verbatim>\<open>os/SpinLock.cpp\<close>, \<^verbatim>\<open>os/Intr.cpp\<close>), sleep locks (\<^verbatim>\<open>os/SleepLock.cpp\<close>),
    the task table, the scheduler and the timer (\<^verbatim>\<open>os/TaskScheduler.cpp\<close>, \<^verbatim>\<open>os/task.cpp\<close>, \<^verbatim>\<open>os/Timer.cpp\<close>);
  \<^item> files: block devices and a cache of clusters (\<^verbatim>\<open>device/\<close>, \<^verbatim>\<open>fs/buf/BufferLayer.cpp\<close>), FAT32 (\<^verbatim>\<open>fs/fat32\<close>), a device
    file system with the console (\<^verbatim>\<open>fs/devfs\<close>, \<^verbatim>\<open>device/Console.cpp\<close>), pipes (\<^verbatim>\<open>fs/Pipe.cpp\<close>), and the virtual file system
    over them (\<^verbatim>\<open>fs/vfs\<close>, \<^verbatim>\<open>fs/vfs_file.cpp\<close>);
  \<^item> processes: fork, clone, exit and wait, the loading of ELF programs (\<^verbatim>\<open>os/Exec.cpp\<close>, \<^verbatim>\<open>startos/binformat.cpp\<close>), the system
    calls (\<^verbatim>\<open>os/syscall.cpp\<close>, \<^verbatim>\<open>os/SyscallFile.cpp\<close>, \<^verbatim>\<open>os/syscallProc.cpp\<close>) and the traps (\<^verbatim>\<open>os/trap.cpp\<close>);
  \<^item> an older file-system layer that four system calls still use (mkdirat, chdir, mount, umount2): mounted file systems by
    prefix of the path (\<^verbatim>\<open>fs/vfs/Vfs.cpp\<close>, \<^verbatim>\<open>fs/devfs/DeviceFileSystem.cpp\<close>) over a FAT32 driver with a single cached sector
    (\<^verbatim>\<open>fs/fat32/Fat.cpp\<close>);
  \<^item> devices: the virtio disk of QEMU (\<^verbatim>\<open>driver/virtio.cpp\<close>, \<^verbatim>\<open>device/virtio_disk.cpp\<close>); on the K210 the system controller
    (\<^verbatim>\<open>driver/sysctl.c\<close>), the real-time clock (\<^verbatim>\<open>driver/rtc.c\<close>, \<^verbatim>\<open>device/Clock.cpp\<close>), the pin multiplexer (\<^verbatim>\<open>driver/fpioa.c\<close>) and the
    general-purpose pins (\<^verbatim>\<open>driver/gpiohs.cpp\<close>); printing and logging (\<^verbatim>\<open>common/printk.cpp\<close>, \<^verbatim>\<open>include/common/logger.h\<close>).

  \<^bold>\<open>The state.\<close> The kernel state is a chain of records, each theory adding the fields of its component:
  \<open>kpages\<close> (memory and page allocator), \<open>kbuddy\<close> (heap), \<open>ktasks\<close> (task table, memory areas, ticks), \<open>kpipes\<close>,
  \<open>kbufs\<close> (disks and cluster cache), \<open>kfat\<close> (inodes, volumes, allocation table), \<open>kconsole\<close>, \<open>kdevfs\<close>, \<open>kfs\<close> (open files, mount
  points), \<open>kold\<close> (the older layer). The devices of the K210 have records of their own, the registers as words with the
  layouts of \<open>Bitfields\<close>. An operation works on every extension of the record it needs, so the upper layers call the lower
  ones as the code does. Physical memory is a function from 64-bit addresses to bytes: page tables, free
  pages, heap blocks and trap frames are bytes in it, and aliasing is real. Kernel objects that the code reaches
  by pointer only (tasks, files, inodes, buffers, pipes) are entries of lists, a null pointer being \<open>None\<close>.

  \<^bold>\<open>Effects.\<close> An operation returns \<open>Inr\<close> of its result and the new state, or \<open>Inl\<close> of a fault: \<open>Panic\<close> for a call of
  \<^verbatim>\<open>panic\<close>, \<open>BadAccess\<close> for an index out of range or a null pointer, \<open>Stuck\<close> for a loop or a wait that never ends.
  An operation that waits returns \<open>Sleep\<close> with its channel, after putting the task to sleep, and is entered again
  when the task runs. \<open>me\<close> is \<^verbatim>\<open>myTask()\<close>. Machine integers are words of their width, or numbers with the reduction
  written out. Locals the code reads before writing them take their bytes from \<open>stack_junk\<close>.

  \<^bold>\<open>The theories.\<close>

  \<^item> \<open>Prelude\<close>: results, words, little-endian access to memory, pages. \<open>StringLib\<close>: \<^verbatim>\<open>common/string.cpp\<close>; \<^verbatim>\<open>memmove\<close> copies the
    old contents in both directions of overlap.
  \<^item> \<open>PageAlloc\<close>: the allocator hands out distinct managed pages and takes them back; initialisation frees exactly the pages
    above the kernel. The locale \<open>page_allocator\<close> is the contract the page tables rely on.
  \<^item> \<open>PageTable\<close>, \<open>PageMap\<close>, \<open>UserPages\<close>: \<^verbatim>\<open>walk\<close>, \<^verbatim>\<open>mappages\<close>, \<^verbatim>\<open>userUnmap\<close> and the rest of the page-table code; a tree of tables in
    memory is related to a map from virtual pages to entries, and the operations are shown to change exactly the
    entries they should.
  \<^item> \<open>UserCopy\<close>: \<^verbatim>\<open>copyin\<close>, \<^verbatim>\<open>copyout\<close>, \<^verbatim>\<open>copyinstr\<close>, address-space copies, the kernel's own table; and that the memory operations leave the rest
    of the kernel state alone.
  \<^item> \<open>Buddy\<close>: sizes, splitting, merging and the C++ operators. \<open>BuddyHeap\<close>: blocks in use never overlap each other, the free blocks or
    the free pages; allocation hands out fresh memory and release makes exactly the block's bytes
    free again, merges and gives pages back, leaving all other blocks as they are.
  \<^item> \<open>HashMap\<close> (locale \<open>finite_map_adt\<close>) and \<open>LinkedLists\<close>: every operation of the map on every key, in all reachable maps (removing an
    absent key removes another binding, as the code does), iteration, and insertion into and removal from rings.
  \<^item> \<open>Locks\<close>: the lock operations cut at each access of shared memory and interleaved between harts by a step relation;
    mutual exclusion by an inductive invariant.
  \<^item> \<open>Tasks\<close>: sleep and wakeup, scheduler passes, allocation and release of tasks, wait, descriptors, memory areas and the timer;
    a pass of the scheduler runs every task that was woken.
  \<^item> \<open>Pipes\<close> (locale \<open>bounded_queue\<close>): free-running 32-bit counters, reads and writes as queue operations.
  \<^item> \<open>Calendar\<close>: FAT time stamps and \<^verbatim>\<open>mktime\<close>.
  \<^item> \<open>BufferCache\<close> (locale \<open>cluster_store\<close>): any sequence of reads and updates that goes through the cache, one buffer at a
    time, is one on a plain array of clusters. \<^verbatim>\<open>ZeroCluster\<close> and \<^verbatim>\<open>UpdateInode\<close> write the disk past the cache, and nothing is
    claimed of a buffer they overtake.
  \<^item> \<open>FatLayout\<close>: directory entries as bytes. \<open>Fat32\<close>: the allocation table, cluster chains, and reading and writing of
    files through the cache. \<open>FatDir\<close>: inodes, lookup, creation, listing, removal, mounting; a long name that
    creation wrote is found by lookup.
  \<^item> \<open>Console\<close>: the line editor, with the indices of its ring at 32 bits, and the device file system. \<open>Vfs\<close>: open files, paths, mounts.
  \<^item> \<open>Processes\<close>, \<open>Exec\<close>, \<open>Syscalls\<close>, \<open>ProcCalls\<close>, \<open>Traps\<close>: demand loading, fork, clone, exit, program loading, every system call
    of the table and the trap handlers. \<open>Boot\<close>: the initialisation on hart 0 (\<^verbatim>\<open>boot/main.cpp\<close>) and the state it leaves.
  \<^item> \<open>ThinFat\<close>: the older FAT driver, from sectors to paths. \<open>ThinFatVol\<close>: its cached sector is invisible (locale \<open>cluster_table\<close> for
    the allocation table). \<open>ThinFatRead\<close>: what is read is the contents of the chain. \<open>ThinFatNames\<close>: long names.
    \<open>OldVfs\<close>: the layer above and its system calls; a path goes to the longest mounted prefix.
  \<^item> \<open>Virtio\<close>, \<open>VirtioInv\<close>, \<open>VirtioDisk\<close>: the disk driver, its callers and a device that follows the protocol, failing requests
    included, as a step relation; safety by an inductive invariant (the driver panics only when the device reports an error), transfers as atomic steps, no
    lost wakeup, and the block device, whose reads and writes run the driver and the device until the request is served.
  \<^item> \<open>Printk\<close>: \<^verbatim>\<open>printf\<close> prints the pieces of its format, numbers as their numerals. \<open>Bitfields\<close>: fields of registers. \<open>Sysctl\<close>: clocks, resets and frequencies.
    \<open>Rtc\<close>: ticks, alarms, and a time that is set is read back. \<open>Fpioa\<close>: no function is on two pins. \<open>Gpiohs\<close>: the
    levels of pins.

  \<^bold>\<open>Bounds and fuel.\<close> Loops over addresses end because \<^verbatim>\<open>walk\<close> panics at \<open>MAXVA\<close>; loops over counts have the count as measure.
  \<open>freewalk\<close> has fuel 3, the depth of a table; \<open>calc_level\<close> has 61 rounds, enough for every size up to \<open>2 ^ 63\<close>;
  the search of a heap list has fuel, and release is shown to end with any fuel above the length of the lists; \<open>FreeClusterChain\<close> has the number of clusters plus three, and a
  chain longer than that repeats a cluster it has already cleared and never ends. \<open>AllocCluster\<close> has no bound but that of
  its counter, an \<^verbatim>\<open>int\<close>: it is \<open>Stuck\<close> where that would overflow, and a full volume is shown to lead there. In the older driver a directory is followed for 65537 entries, one more than a directory may have; reads and writes
  of \<open>n\<close> bytes have \<open>2 n + 2\<close> rounds, since every second round moves a byte; short names have 261 tries, as many as there are
  numbers; a chain is freed in three rounds, since the code goes on with an entry it has just cleared.

  \<^bold>\<open>Assumptions of the models.\<close> Operations that hold a lock from their beginning to their end are one step; the interleaving
  inside the spin lock itself is in \<open>Locks\<close>, on sequentially consistent memory. A disk is its list of sectors; the virtio
  device follows the protocol, and \<open>VirtioDisk\<close> shows that the driver turns one that reports no error into such a disk. Registers
  of the system controller, the clock and the pins keep what is written to them, and the clock does not tick within an operation.
  The linker's addresses, the program embedded for the first process and what memory from the heap holds before it
  is written (\<open>heap_volume\<close>, \<open>file_paths\<close>) are parameters. The four system calls of the older layer are a parameter of the dispatcher in
  \<open>Traps\<close>, instantiated with \<open>legacy_calls\<close> in \<open>OldVfs\<close>.

  \<^bold>\<open>Not modelled.\<close> The interrupt controller and the chain of drivers below the card of the K210 (\<^verbatim>\<open>driver/Plic.cpp\<close>,
  \<^verbatim>\<open>driver/spi.cpp\<close>, \<^verbatim>\<open>driver/dmac.cpp\<close>, \<^verbatim>\<open>device/Sdcard.cpp\<close>), whose disk is modelled at the sector interface. The trampoline, the context switch and the other assembly, which are not C++; the
  TLB and \<^verbatim>\<open>satp\<close>, which only the hardware walks; the operations of the older layer that nothing calls (opening by
  descriptor, pipes, listing by descriptor) and the recursion that creates missing parent directories; the debugging
  printers and test functions; the user programs, which run on the kernel and are not part of it.
\<close>

end
